(* ===== verification/Prelude.thy ===== *)
theory Prelude
  imports Main "HOL-Library.Word"
begin

text \<open>
  The vocabulary every component shares: the error type of \<^verbatim>\<open>crates/domain/src/error.rs\<close>, the
  identifiers of \<^verbatim>\<open>ids.rs\<close>, the combinators for Rust's \<^verbatim>\<open>?\<close> operator, 64-bit integer
  arithmetic, and the lemma collections that the component theories extend.

  Fallible code returns \<open>domain_error + 'a\<close> (\<open>Inl\<close> is \<^verbatim>\<open>Err\<close>). A method on
  \<^verbatim>\<open>&mut self\<close> returns the pair of its result and the state it leaves behind, on the error
  paths too, so that what an error does to the state is something to be proved.

  The error payloads keep the source's constructors and its ASCII field, entity and state
  names. The Chinese display texts (\<^verbatim>\<open>reason\<close>, \<^verbatim>\<open>rule\<close>, \<^verbatim>\<open>action\<close>) are
  rendered as short English glosses, one gloss per text.
\<close>

section \<open>Errors and results\<close>

datatype domain_error =
    Forbidden string
  | InvariantViolation string string
  | InvalidTransition string string string
  | Validation string string
  | CapacityExceeded nat
  | TimeOverflow
  | VersionOverflow

type_synonym 'a result = "domain_error + 'a"

type_synonym ('a, 's) update = "(domain_error + 'a) \<times> 's"

named_theorems result_simps "normal forms of successful and failing results"

text \<open>\<open>and_then m k\<close> is \<^verbatim>\<open>let x = m?; k(x)\<close> in a function without state.\<close>

fun and_then :: "'e + 'a \<Rightarrow> ('a \<Rightarrow> 'e + 'b) \<Rightarrow> 'e + 'b" where
  "and_then (Inl e) k = Inl e"
| "and_then (Inr x) k = k x"

text \<open>\<open>attempt m s k\<close> is \<^verbatim>\<open>let x = m?; k(x)\<close> in a method whose state is \<open>s\<close>.\<close>

fun attempt :: "'e + 'a \<Rightarrow> 's \<Rightarrow> ('a \<Rightarrow> ('e + 'b) \<times> 's) \<Rightarrow> ('e + 'b) \<times> 's" where
  "attempt (Inl e) s k = (Inl e, s)"
| "attempt (Inr x) s k = k x"

definition ok_or :: "'a option \<Rightarrow> 'e \<Rightarrow> 'e + 'a" where
  "ok_or x e = (case x of None \<Rightarrow> Inl e | Some y \<Rightarrow> Inr y)"

definition ensure :: "bool \<Rightarrow> 'e \<Rightarrow> 'e + unit" where
  "ensure b e = (if b then Inr () else Inl e)"

definition is_ok :: "'e + 'a \<Rightarrow> bool" where
  "is_ok r = (case r of Inl e \<Rightarrow> False | Inr x \<Rightarrow> True)"

lemma and_then_Inr [result_simps]:
  "and_then m k = Inr y \<longleftrightarrow> (\<exists>x. m = Inr x \<and> k x = Inr y)"
  by (cases m) auto

lemma and_then_Inl [result_simps]:
  "and_then m k = Inl e \<longleftrightarrow> m = Inl e \<or> (\<exists>x. m = Inr x \<and> k x = Inl e)"
  by (cases m) auto

lemma attempt_Inr [result_simps]:
  "attempt m s k = (Inr y, t) \<longleftrightarrow> (\<exists>x. m = Inr x \<and> k x = (Inr y, t))"
  by (cases m) auto

lemma attempt_Inl [result_simps]:
  "attempt m s k = (Inl e, t) \<longleftrightarrow>
     m = Inl e \<and> t = s \<or> (\<exists>x. m = Inr x \<and> k x = (Inl e, t))"
  by (cases m) auto

lemma ensure_Inr [simp]: "ensure b e = Inr u \<longleftrightarrow> b"
  by (simp add: ensure_def)

lemma ensure_Inl [simp]: "ensure b e = Inl f \<longleftrightarrow> \<not> b \<and> f = e"
  by (auto simp: ensure_def)

lemma ok_or_Inr [simp]: "ok_or x e = Inr y \<longleftrightarrow> x = Some y"
  by (simp add: ok_or_def split: option.split)

lemma ok_or_Inl [simp]: "ok_or x e = Inl f \<longleftrightarrow> x = None \<and> f = e"
  by (auto simp: ok_or_def split: option.split)

lemma ensure_simps [simp]: "ensure True e = Inr ()" "ensure False e = Inl e"
  by (simp_all add: ensure_def)

lemma ok_or_simps [simp]: "ok_or (Some y) e = Inr y" "ok_or None e = Inl e"
  by (simp_all add: ok_or_def)

lemma is_ok_simps [simp]: "is_ok (Inr x)" "\<not> is_ok (Inl e)"
  by (simp_all add: is_ok_def)

lemma is_ok_iff: "is_ok r \<longleftrightarrow> (\<exists>x. r = Inr x)"
  by (cases r) simp_all

text \<open>
  An update that fails or reports no change has to leave the state alone; the two
  predicates name that and pass through \<^const>\<open>attempt\<close>.
\<close>

definition inert_unless_effective :: "(bool, 's) update \<Rightarrow> 's \<Rightarrow> bool" where
  "inert_unless_effective out s \<longleftrightarrow> fst out = Inr True \<or> snd out = s"

lemma inert_attempt [intro]:
  "(\<And>x. m = Inr x \<Longrightarrow> inert_unless_effective (k x) s) \<Longrightarrow>
   inert_unless_effective (attempt m s k) s"
  by (cases m) (auto simp: inert_unless_effective_def)

lemma inert_return [simp, intro]:
  "inert_unless_effective (Inr True, t) s"
  "inert_unless_effective (Inr False, s) s"
  "inert_unless_effective (Inl e, s) s"
  by (simp_all add: inert_unless_effective_def)

text \<open>\<^verbatim>\<open>is_some_and\<close>, \<^verbatim>\<open>is_none_or\<close> and \<^verbatim>\<open>unwrap_or\<close>.\<close>

definition opt_any :: "'a option \<Rightarrow> ('a \<Rightarrow> bool) \<Rightarrow> bool" where
  "opt_any x p = (case x of None \<Rightarrow> False | Some y \<Rightarrow> p y)"

definition opt_all :: "'a option \<Rightarrow> ('a \<Rightarrow> bool) \<Rightarrow> bool" where
  "opt_all x p = (case x of None \<Rightarrow> True | Some y \<Rightarrow> p y)"

definition unwrap_or :: "'a option \<Rightarrow> 'a \<Rightarrow> 'a" where
  "unwrap_or x d = (case x of None \<Rightarrow> d | Some y \<Rightarrow> y)"

lemma opt_any_simps [simp]: "\<not> opt_any None p" "opt_any (Some y) p = p y"
  "opt_all None p" "opt_all (Some y) p = p y"
  "unwrap_or None d = d" "unwrap_or (Some y) d = y"
  by (simp_all add: opt_any_def opt_all_def unwrap_or_def)

lemma unwrap_or_simps: "unwrap_or None d = d" "unwrap_or (Some y) d = y"
  by simp_all

lemma opt_any_iff: "opt_any x p \<longleftrightarrow> (\<exists>y. x = Some y \<and> p y)"
  by (cases x) simp_all

section \<open>Identifiers\<close>

text \<open>
  \<^verbatim>\<open>define_id!\<close> wraps a 128-bit UUID in one newtype per kind of identifier, with the derived
  order of the UUID's bytes, which is the order of the 128-bit number.
\<close>

type_synonym uuid = "128 word"

type_synonym principal_id = uuid
type_synonym device_id = uuid
type_synonym agent_id = uuid
type_synonym agent_instance_id = uuid
type_synonym room_catalog_id = uuid
type_synonym room_instance_id = uuid
type_synonym content_id = uuid
type_synonym message_id = uuid
type_synonym handoff_id = uuid
type_synonym room_reservation_id = uuid
type_synonym device_token_family_id = uuid
type_synonym adapter_binding_id = uuid
type_synonym automation_grant_id = uuid
type_synonym federation_rule_id = uuid
type_synonym moderation_case_id = uuid
type_synonym moderation_action_id = uuid
type_synonym audit_event_id = uuid

section \<open>64-bit integers\<close>

definition i64_max :: int where
  "i64_max = 2 ^ 63 - 1"

definition i64_min :: int where
  "i64_min = - (2 ^ 63)"

definition u64_max :: int where
  "u64_max = 2 ^ 64 - 1"

definition in_i64 :: "int \<Rightarrow> bool" where
  "in_i64 v \<longleftrightarrow> i64_min \<le> v \<and> v \<le> i64_max"

definition in_u64 :: "int \<Rightarrow> bool" where
  "in_u64 v \<longleftrightarrow> 0 \<le> v \<and> v \<le> u64_max"

definition i64_checked_add :: "int \<Rightarrow> int \<Rightarrow> int option" where
  "i64_checked_add a b = (if in_i64 (a + b) then Some (a + b) else None)"

definition i64_saturating_add :: "int \<Rightarrow> int \<Rightarrow> int" where
  "i64_saturating_add a b = max i64_min (min i64_max (a + b))"

definition i64_saturating_sub :: "int \<Rightarrow> int \<Rightarrow> int" where
  "i64_saturating_sub a b = max i64_min (min i64_max (a - b))"

definition u64_saturating_add :: "int \<Rightarrow> int \<Rightarrow> int" where
  "u64_saturating_add a b = min u64_max (a + b)"

definition u64_saturating_mul :: "int \<Rightarrow> int \<Rightarrow> int" where
  "u64_saturating_mul a b = min u64_max (a * b)"

definition u64_saturating_sub :: "int \<Rightarrow> int \<Rightarrow> int" where
  "u64_saturating_sub a b = max 0 (a - b)"

definition i64_try_from :: "int \<Rightarrow> int option" where
  "i64_try_from v = (if in_i64 v then Some v else None)"

lemma i64_checked_add_Some [simp]:
  "i64_checked_add a b = Some c \<longleftrightarrow> in_i64 (a + b) \<and> c = a + b"
  by (auto simp: i64_checked_add_def)

lemma i64_try_from_Some [simp]: "i64_try_from v = Some w \<longleftrightarrow> in_i64 v \<and> w = v"
  by (auto simp: i64_try_from_def)

lemmas int_width_defs = i64_max_def i64_min_def u64_max_def in_i64_def in_u64_def

section \<open>Maps and options\<close>

lemma map_upd_Some_same: "m k = Some v \<Longrightarrow> m(k \<mapsto> v) = m"
  by auto

lemma finite_dom_upd [simp]: "finite (dom m) \<Longrightarrow> finite (dom (m(k \<mapsto> v)))"
  by simp

end
