(* ===== verification/Contracts.thy ===== *)
theory Contracts
  imports Prelude
begin

text \<open>
  The contracts that several components share, each as a locale with the consequences its
  clients use: the textual codec of an enumeration (\<^verbatim>\<open>as_str\<close> with \<^verbatim>\<open>try_from\<close> or
  \<^verbatim>\<open>parse\<close>), and the versioned aggregate whose commands either fail, or change nothing, or
  take effect and advance the version by one.
\<close>

section \<open>Textual codecs\<close>

locale codec =
  fixes to_str :: "'a \<Rightarrow> string"
    and of_str :: "string \<Rightarrow> 'a result"
  assumes parse_print: "of_str (to_str x) = Inr x"
    and print_parse: "of_str s = Inr x \<Longrightarrow> to_str x = s"
begin

lemma to_str_inject: "to_str x = to_str y \<longleftrightarrow> x = y"
  using parse_print by (metis sum.inject(2))

lemma of_str_Inr_iff: "of_str s = Inr x \<longleftrightarrow> s = to_str x"
  using parse_print print_parse by auto

lemma accepts_iff: "is_ok (of_str s) \<longleftrightarrow> s \<in> range to_str"
  by (auto simp: is_ok_iff of_str_Inr_iff)

end

section \<open>Replaying a list of commands\<close>

fun replay :: "('c \<Rightarrow> 's \<Rightarrow> 'r \<times> 's) \<Rightarrow> 'c list \<Rightarrow> 's \<Rightarrow> 's" where
  "replay step [] s = s"
| "replay step (c # cs) s = replay step cs (snd (step c s))"

fun replay_results :: "('c \<Rightarrow> 's \<Rightarrow> 'r \<times> 's) \<Rightarrow> 'c list \<Rightarrow> 's \<Rightarrow> 'r list" where
  "replay_results step [] s = []"
| "replay_results step (c # cs) s =
     fst (step c s) # replay_results step cs (snd (step c s))"

lemma replay_append: "replay step (cs @ ds) s = replay step ds (replay step cs s)"
  by (induction cs arbitrary: s) simp_all

lemma length_replay_results [simp]: "length (replay_results step cs s) = length cs"
  by (induction cs arbitrary: s) simp_all

lemma replay_results_append:
  "replay_results step (cs @ ds) s = replay_results step cs s @ replay_results step ds (replay step cs s)"
  by (induction cs arbitrary: s) simp_all

lemma replay_take_Suc:
  "i < length cs \<Longrightarrow> replay step (take (Suc i) cs) s = snd (step (cs ! i) (replay step (take i cs) s))"
  by (simp add: take_Suc_conv_app_nth replay_append)

lemma replay_results_nth:
  "i < length cs \<Longrightarrow> replay_results step cs s ! i = fst (step (cs ! i) (replay step (take i cs) s))"
proof (induction cs arbitrary: i s)
  case (Cons c cs)
  then show ?case by (cases i) simp_all
qed simp

lemma replay_between:
  assumes "i \<le> j" and "j \<le> length cs" and "P (replay step (take i cs) s)"
    and "\<And>k t. i \<le> k \<Longrightarrow> k < j \<Longrightarrow> P t \<Longrightarrow> P (snd (step (cs ! k) t))"
  shows "P (replay step (take j cs) s)"
  using assms
proof (induction j)
  case (Suc j)
  show ?case
  proof (cases "i = Suc j")
    case True
    with Suc.prems show ?thesis by simp
  next
    case False
    with Suc have "P (replay step (take j cs) s)" by simp
    with Suc.prems False show ?thesis by (simp add: replay_take_Suc)
  qed
qed simp

section \<open>Guarded state machines\<close>

text \<open>
  \<open>admissible c\<close> says that the command's arguments are values the code's constructors can
  produce; \<open>wf\<close> is the aggregate's invariant.
\<close>

locale guarded_machine =
  fixes step :: "'c \<Rightarrow> 's \<Rightarrow> 'r \<times> 's"
    and admissible :: "'c \<Rightarrow> bool"
    and wf :: "'s \<Rightarrow> bool"
  assumes step_wf: "admissible c \<Longrightarrow> wf s \<Longrightarrow> wf (snd (step c s))"
begin

lemma replay_wf: "list_all admissible cs \<Longrightarrow> wf s \<Longrightarrow> wf (replay step cs s)"
  by (induction cs arbitrary: s) (auto intro: step_wf)

lemma replay_induct [consumes 2, case_names start step]:
  assumes "list_all admissible cs" and "wf s"
    and start: "P s"
    and advance: "\<And>c t. admissible c \<Longrightarrow> wf t \<Longrightarrow> P t \<Longrightarrow> P (snd (step c t))"
  shows "P (replay step cs s)"
  using assms by (induction cs arbitrary: s) (auto intro: step_wf)

end

text \<open>
  A versioned aggregate answers each command with an error, with \<open>False\<close> (nothing to do)
  or with \<open>True\<close> (done), and counts the last kind.
\<close>

locale versioned_aggregate = guarded_machine step admissible wf
  for step :: "'c \<Rightarrow> 's \<Rightarrow> (bool, 's) update"
    and admissible :: "'c \<Rightarrow> bool"
    and wf :: "'s \<Rightarrow> bool" +
  fixes version_of :: "'s \<Rightarrow> int"
  assumes step_inert: "inert_unless_effective (step c s) s"
    and step_version: "fst (step c s) = Inr True \<Longrightarrow> version_of (snd (step c s)) = version_of s + 1"
begin

lemma step_version_eq:
  "version_of (snd (step c s)) = version_of s + (if fst (step c s) = Inr True then 1 else 0)"
  using step_inert [of c s] step_version [of c s]
  by (auto simp: inert_unless_effective_def)

lemma replay_version:
  "version_of (replay step cs s) =
     version_of s + int (count_list (replay_results step cs s) (Inr True))"
  by (induction cs arbitrary: s) (auto simp: step_version_eq)

lemma replay_version_mono: "version_of s \<le> version_of (replay step cs s)"
  by (simp add: replay_version)

lemma replay_without_effect:
  "Inr True \<notin> set (replay_results step cs s) \<Longrightarrow> replay step cs s = s"
proof (induction cs arbitrary: s)
  case (Cons c cs)
  then have "snd (step c s) = s"
    using step_inert [of c s] by (auto simp: inert_unless_effective_def)
  with Cons show ?case by auto
qed simp

lemma replay_same_version:
  "version_of (replay step cs s) = version_of s \<Longrightarrow> replay step cs s = s"
proof -
  assume "version_of (replay step cs s) = version_of s"
  then have "count_list (replay_results step cs s) (Inr True) = 0"
    by (simp add: replay_version)
  then show ?thesis
    by (simp add: count_list_0_iff replay_without_effect)
qed

end

section \<open>Final states\<close>

text \<open>A machine with final states, which no command leaves or alters.\<close>

locale final_machine =
  fixes step :: "'c \<Rightarrow> 's \<Rightarrow> 'r \<times> 's"
    and final :: "'s \<Rightarrow> bool"
  assumes final_stays: "final s \<Longrightarrow> snd (step c s) = s"
begin

lemma replay_final: "final s \<Longrightarrow> replay step cs s = s"
  by (induction cs) (simp_all add: final_stays)

lemma replay_prefix_final: "final (replay step cs s) \<Longrightarrow> replay step (cs @ ds) s = replay step cs s"
  by (simp add: replay_append replay_final)

end

end
