(* ===== verification/Room_Permissions.thy ===== *)
theory Room_Permissions
  imports Contracts
begin

unbundle bit_operations_syntax

text \<open>
  The permission sets of private rooms (\<^verbatim>\<open>PrivateRoomPermissions\<close> of
  \<^verbatim>\<open>private_rooms.rs\<close>): five capability bits in a \<^verbatim>\<open>u8\<close>. The view from outside
  is \<open>grants p c\<close>, and the lemmas translate every bit operation into it.
\<close>

datatype room_capability = View | Speak | Invite | Manage | Automate

datatype room_permissions = Permissions (perm_bits: "8 word")

definition view_bit :: "8 word" where "view_bit = 1"
definition speak_bit :: "8 word" where "speak_bit = push_bit 1 1"
definition invite_bit :: "8 word" where "invite_bit = push_bit 2 1"
definition manage_bit :: "8 word" where "manage_bit = push_bit 3 1"
definition automate_bit :: "8 word" where "automate_bit = push_bit 4 1"

definition known_bits :: "8 word" where
  "known_bits = view_bit OR speak_bit OR invite_bit OR manage_bit OR automate_bit"

fun capability_bit :: "room_capability \<Rightarrow> 8 word" where
  "capability_bit View = view_bit"
| "capability_bit Speak = speak_bit"
| "capability_bit Invite = invite_bit"
| "capability_bit Manage = manage_bit"
| "capability_bit Automate = automate_bit"

definition perm_none :: room_permissions where
  "perm_none = Permissions 0"

definition perm_all :: room_permissions where
  "perm_all = Permissions known_bits"

definition perm_agent_member :: room_permissions where
  "perm_agent_member = Permissions (view_bit OR speak_bit)"

definition perm_invited_by_agent :: room_permissions where
  "perm_invited_by_agent = Permissions (view_bit OR speak_bit OR automate_bit)"

definition perm_allows :: "room_permissions \<Rightarrow> room_capability \<Rightarrow> bool" where
  "perm_allows p c \<longleftrightarrow> perm_bits p AND capability_bit c \<noteq> 0"

definition perm_view :: "room_permissions \<Rightarrow> bool" where
  "perm_view p \<longleftrightarrow> perm_bits p AND view_bit \<noteq> 0"

definition perm_speak :: "room_permissions \<Rightarrow> bool" where
  "perm_speak p \<longleftrightarrow> perm_bits p AND speak_bit \<noteq> 0"

definition perm_invite :: "room_permissions \<Rightarrow> bool" where
  "perm_invite p \<longleftrightarrow> perm_bits p AND invite_bit \<noteq> 0"

definition perm_manage :: "room_permissions \<Rightarrow> bool" where
  "perm_manage p \<longleftrightarrow> perm_bits p AND manage_bit \<noteq> 0"

definition perm_automate :: "room_permissions \<Rightarrow> bool" where
  "perm_automate p \<longleftrightarrow> perm_bits p AND automate_bit \<noteq> 0"

definition perm_from_bits :: "8 word \<Rightarrow> room_permissions result" where
  "perm_from_bits b =
     (if b AND NOT known_bits \<noteq> 0
      then Inl (Validation ''private_room_permissions'' ''unknown bits'')
      else let p = Permissions b in
        if b \<noteq> 0 \<and> \<not> perm_view p
        then Inl (Validation ''private_room_permissions'' ''every capability needs view'')
        else if perm_automate p \<and> \<not> perm_speak p
        then Inl (Validation ''private_room_permissions'' ''automate needs speak'')
        else Inr p)"

definition perm_from_capabilities :: "room_capability list \<Rightarrow> room_permissions result" where
  "perm_from_capabilities cs = perm_from_bits (foldl (\<lambda>b c. b OR capability_bit c) 0 cs)"

definition can_be_assigned_to_member :: "room_permissions \<Rightarrow> bool" where
  "can_be_assigned_to_member p \<longleftrightarrow> perm_view p"

definition perm_added_since :: "room_permissions \<Rightarrow> room_permissions \<Rightarrow> room_permissions" where
  "perm_added_since p previous = Permissions (perm_bits p AND NOT (perm_bits previous))"

definition perm_intersection :: "room_permissions \<Rightarrow> room_permissions \<Rightarrow> room_permissions" where
  "perm_intersection p q = Permissions (perm_bits p AND perm_bits q)"

definition perm_contains :: "room_permissions \<Rightarrow> room_permissions \<Rightarrow> bool" where
  "perm_contains p q \<longleftrightarrow> perm_bits q AND NOT (perm_bits p) = 0"

section \<open>The bits as capabilities\<close>

fun capability_index :: "room_capability \<Rightarrow> nat" where
  "capability_index View = 0"
| "capability_index Speak = 1"
| "capability_index Invite = 2"
| "capability_index Manage = 3"
| "capability_index Automate = 4"

definition grants :: "room_permissions \<Rightarrow> room_capability \<Rightarrow> bool" where
  "grants p c \<longleftrightarrow> bit (perm_bits p) (capability_index c)"

text \<open>The sets the code's constructors can produce.\<close>

definition perm_ok :: "room_permissions \<Rightarrow> bool" where
  "perm_ok p \<longleftrightarrow> is_ok (perm_from_bits (perm_bits p))"

lemmas perm_bit_defs = view_bit_def speak_bit_def invite_bit_def manage_bit_def automate_bit_def

lemma capability_bit_mask: "capability_bit c = 2 ^ capability_index c"
  by (cases c) (simp_all add: perm_bit_defs)

lemma byte_bit_bound: "bit (b :: 8 word) n \<Longrightarrow> n < 8"
  using bit_imp_le_length [of b n] by simp

lemma byte_bit_exp: "bit (2 ^ n :: 8 word) m \<longleftrightarrow> m = n \<and> n < 8"
  by (auto simp: bit_exp_iff dest: byte_bit_bound)

lemma perm_allows_grants: "perm_allows p c \<longleftrightarrow> grants p c"
  by (simp add: perm_allows_def grants_def capability_bit_mask and_exp_eq_0_iff_not_bit)

lemma perm_flag_grants [simp]:
  "perm_view p \<longleftrightarrow> grants p View"
  "perm_speak p \<longleftrightarrow> grants p Speak"
  "perm_invite p \<longleftrightarrow> grants p Invite"
  "perm_manage p \<longleftrightarrow> grants p Manage"
  "perm_automate p \<longleftrightarrow> grants p Automate"
  by (simp_all flip: perm_allows_grants
      add: perm_allows_def perm_view_def perm_speak_def perm_invite_def perm_manage_def perm_automate_def)

lemma bit_known_bits: "bit known_bits n \<longleftrightarrow> n < 5"
proof -
  have "known_bits = mask 5"
    by (simp add: known_bits_def perm_bit_defs mask_eq_exp_minus_1)
  then have "bit known_bits n = bit (mask 5 :: 8 word) n"
    by (rule arg_cong)
  also have "\<dots> \<longleftrightarrow> n < 5"
    by (simp only: bit_mask_iff) auto
  finally show ?thesis .
qed

lemma capability_index_bound: "capability_index c < 5"
  by (cases c) simp_all

lemma index_is_capability: "n < 5 \<Longrightarrow> \<exists>c. n = capability_index c"
proof -
  assume "n < 5"
  then consider "n = 0" | "n = 1" | "n = 2" | "n = 3" | "n = 4"
    by linarith
  then show ?thesis
    by cases (metis capability_index.simps)+
qed

lemma within_known_bits: "b AND NOT known_bits = 0 \<longleftrightarrow> (\<forall>n. bit b n \<longrightarrow> n < 5)"
  by (auto simp: bit_eq_iff bit_and_iff bit_not_iff bit_known_bits dest: byte_bit_bound)

lemma zero_iff_no_bit: "(b :: 8 word) = 0 \<longleftrightarrow> (\<forall>n. \<not> bit b n)"
  by (auto simp: bit_eq_iff dest: byte_bit_bound)

lemma grants_none [simp]: "\<not> grants perm_none c"
  by (simp add: grants_def perm_none_def)

lemma grants_all [simp]: "grants perm_all c"
  by (simp add: grants_def perm_all_def bit_known_bits capability_index_bound)

lemma grants_invited_by_agent [simp]:
  "grants perm_invited_by_agent c \<longleftrightarrow> c = View \<or> c = Speak \<or> c = Automate"
  by (cases c) (simp_all add: grants_def perm_invited_by_agent_def perm_bit_defs)

lemma grants_agent_member [simp]:
  "grants perm_agent_member c \<longleftrightarrow> c = View \<or> c = Speak"
  by (cases c) (simp_all add: grants_def perm_agent_member_def perm_bit_defs)

lemma grants_added_since [simp]:
  "grants (perm_added_since p q) c \<longleftrightarrow> grants p c \<and> \<not> grants q c"
  using capability_index_bound [of c]
  by (simp add: grants_def perm_added_since_def bit_and_iff bit_not_iff)

lemma grants_intersection [simp]:
  "grants (perm_intersection p q) c \<longleftrightarrow> grants p c \<and> grants q c"
  by (simp add: grants_def perm_intersection_def bit_and_iff)

lemma perm_ok_iff:
  "perm_ok p \<longleftrightarrow> (\<forall>n. bit (perm_bits p) n \<longrightarrow> n < 5) \<and>
     (perm_bits p = 0 \<or> grants p View) \<and> (grants p Automate \<longrightarrow> grants p Speak)"
  by (auto simp: perm_ok_def perm_from_bits_def Let_def within_known_bits)

lemma perm_from_bits_Inr:
  "perm_from_bits b = Inr p \<longleftrightarrow> p = Permissions b \<and> perm_ok p"
  by (auto simp: perm_ok_def perm_from_bits_def Let_def)

lemma perm_ok_capability_closed:
  "perm_ok p \<Longrightarrow> grants p c \<Longrightarrow> grants p View"
  by (auto simp: perm_ok_iff grants_def)

lemma perm_eqI:
  assumes "perm_ok p" and "perm_ok q" and "\<And>c. grants p c \<longleftrightarrow> grants q c"
  shows "p = q"
proof -
  have "bit (perm_bits p) n = bit (perm_bits q) n" for n
    using assms index_is_capability [of n] by (auto simp: perm_ok_iff grants_def)
  then have "perm_bits p = perm_bits q"
    by (simp add: bit_eq_iff)
  then show ?thesis
    by (simp add: room_permissions.expand)
qed

lemma perm_constants_ok [simp]:
  "perm_ok perm_none" "perm_ok perm_all" "perm_ok perm_agent_member" "perm_ok perm_invited_by_agent"
  by (simp_all add: perm_ok_def perm_from_bits_def Let_def perm_none_def perm_all_def
      perm_agent_member_def perm_invited_by_agent_def known_bits_def perm_bit_defs grants_def)

lemma perm_intersection_ok [simp]:
  assumes "perm_ok p" and "perm_ok q"
  shows "perm_ok (perm_intersection p q)"
  using assms
  by (auto simp: perm_ok_iff perm_intersection_def grants_def bit_and_iff)

lemma perm_contains_iff:
  assumes "perm_ok q"
  shows "perm_contains p (perm_added_since q r) \<longleftrightarrow>
     (\<forall>c. grants q c \<and> \<not> grants r c \<longrightarrow> grants p c)"
proof -
  have "perm_contains p (perm_added_since q r) \<longleftrightarrow>
      (\<forall>n<5. bit (perm_bits q) n \<and> \<not> bit (perm_bits r) n \<longrightarrow> bit (perm_bits p) n)"
    using assms
    by (auto simp: perm_contains_def perm_added_since_def bit_eq_iff bit_and_iff bit_not_iff perm_ok_iff
        dest: byte_bit_bound)
  also have "\<dots> \<longleftrightarrow> (\<forall>c. grants q c \<and> \<not> grants r c \<longrightarrow> grants p c)"
    using index_is_capability capability_index_bound by (auto simp: grants_def)
  finally show ?thesis .
qed

lemma foldl_capability_bits:
  "bit (foldl (\<lambda>b c. b OR capability_bit c) b cs) n \<longleftrightarrow>
     bit b n \<or> (\<exists>c\<in>set cs. n = capability_index c)"
proof (induction cs arbitrary: b)
  case (Cons c cs)
  have "bit (capability_bit c) n \<longleftrightarrow> n = capability_index c"
    using capability_index_bound [of c] by (auto simp: capability_bit_mask byte_bit_exp)
  with Cons show ?case
    by (auto simp: bit_or_iff)
qed simp

lemma perm_from_capabilities_Inr:
  "perm_from_capabilities cs = Inr p \<Longrightarrow> grants p c \<longleftrightarrow> c \<in> set cs"
proof -
  have "capability_index c = capability_index d \<longleftrightarrow> c = d" for c d
    by (cases c; cases d) simp_all
  then show "perm_from_capabilities cs = Inr p \<Longrightarrow> ?thesis"
    by (auto simp: perm_from_capabilities_def perm_from_bits_Inr grants_def foldl_capability_bits)
qed

end
