(* ===== verification/Utc_Clock.thy ===== *)
theory Utc_Clock
  imports Prelude
begin

text \<open>
  \<^verbatim>\<open>time.rs\<close> and \<^verbatim>\<open>version.rs\<close>: instants in milliseconds since the Unix epoch (an
  \<^verbatim>\<open>i64\<close> that is never negative), durations (a non-zero \<^verbatim>\<open>u64\<close>), the sliding
  lifetime by which device authorisations and account sessions are renewed, and aggregate versions.
\<close>

section \<open>Instants and durations\<close>

datatype utc_millis = UtcMillis (utc_value: int)

datatype duration_millis = DurationMillis (duration_value: int)

instantiation utc_millis :: linorder
begin

definition less_eq_utc_millis :: "utc_millis \<Rightarrow> utc_millis \<Rightarrow> bool" where
  "less_eq_utc_millis a b \<longleftrightarrow> utc_value a \<le> utc_value b"

definition less_utc_millis :: "utc_millis \<Rightarrow> utc_millis \<Rightarrow> bool" where
  "less_utc_millis a b \<longleftrightarrow> utc_value a < utc_value b"

instance
  by standard (auto simp: less_eq_utc_millis_def less_utc_millis_def utc_millis.expand)

end

instantiation duration_millis :: linorder
begin

definition less_eq_duration_millis :: "duration_millis \<Rightarrow> duration_millis \<Rightarrow> bool" where
  "less_eq_duration_millis a b \<longleftrightarrow> duration_value a \<le> duration_value b"

definition less_duration_millis :: "duration_millis \<Rightarrow> duration_millis \<Rightarrow> bool" where
  "less_duration_millis a b \<longleftrightarrow> duration_value a < duration_value b"

instance
  by standard (auto simp: less_eq_duration_millis_def less_duration_millis_def duration_millis.expand)

end

lemmas clock_order = less_eq_utc_millis_def less_utc_millis_def
  less_eq_duration_millis_def less_duration_millis_def

lemma utc_le_iff [simp]: "UtcMillis a \<le> UtcMillis b \<longleftrightarrow> a \<le> b"
  and utc_less_iff [simp]: "UtcMillis a < UtcMillis b \<longleftrightarrow> a < b"
  and duration_le_iff [simp]: "DurationMillis c \<le> DurationMillis d \<longleftrightarrow> c \<le> d"
  and duration_less_iff [simp]: "DurationMillis c < DurationMillis d \<longleftrightarrow> c < d"
  by (simp_all add: clock_order)

lemma utc_value_min [simp]: "utc_value (min a b) = min (utc_value a) (utc_value b)"
  by (auto simp: min_def clock_order)

definition utc_ok :: "utc_millis \<Rightarrow> bool" where
  "utc_ok t \<longleftrightarrow> 0 \<le> utc_value t \<and> utc_value t \<le> i64_max"

definition duration_ok :: "duration_millis \<Rightarrow> bool" where
  "duration_ok d \<longleftrightarrow> 0 < duration_value d \<and> duration_value d \<le> u64_max"

definition utc_new :: "int \<Rightarrow> utc_millis result" where
  "utc_new v =
     (if v < 0 then Inl (Validation ''utc_millis'' ''before the Unix epoch'')
      else Inr (UtcMillis v))"

definition duration_new :: "int \<Rightarrow> duration_millis result" where
  "duration_new v =
     (if v = 0 then Inl (Validation ''duration_millis'' ''must be positive'')
      else Inr (DurationMillis v))"

definition utc_checked_add :: "utc_millis \<Rightarrow> duration_millis \<Rightarrow> utc_millis result" where
  "utc_checked_add t d =
     and_then (ok_or (i64_try_from (duration_value d)) TimeOverflow) (\<lambda>n.
     ok_or (map_option UtcMillis (i64_checked_add (utc_value t) n)) TimeOverflow)"

lemma utc_new_ok: "in_i64 v \<Longrightarrow> utc_new v = Inr t \<Longrightarrow> utc_ok t"
  by (auto simp: utc_new_def utc_ok_def int_width_defs split: if_splits)

lemma duration_new_ok: "in_u64 v \<Longrightarrow> duration_new v = Inr d \<Longrightarrow> duration_ok d"
  by (auto simp: duration_new_def duration_ok_def int_width_defs split: if_splits)

lemma utc_checked_add_Inr:
  assumes "utc_ok t" and "duration_ok d"
  shows "utc_checked_add t d = Inr u \<longleftrightarrow>
     utc_value u = utc_value t + duration_value d \<and> utc_value u \<le> i64_max"
  using assms
  by (cases u) (auto simp: utc_checked_add_def utc_ok_def duration_ok_def int_width_defs result_simps)

lemma utc_checked_add_Inl:
  "utc_checked_add t d = Inl e \<Longrightarrow> e = TimeOverflow"
  by (auto simp: utc_checked_add_def result_simps)

lemma utc_checked_add_value:
  "utc_checked_add t d = Inr u \<Longrightarrow> utc_value u = utc_value t + duration_value d"
  by (auto simp: utc_checked_add_def result_simps)

section \<open>Sliding lifetimes\<close>

record sliding_lifetime =
  sl_idle :: duration_millis
  sl_maximum :: duration_millis

definition sliding_lifetime_new :: "duration_millis \<Rightarrow> duration_millis \<Rightarrow> sliding_lifetime result" where
  "sliding_lifetime_new idle maximum =
     (if idle > maximum
      then Inl (Validation ''sliding_lifetime'' ''idle limit longer than maximum'')
      else Inr \<lparr>sl_idle = idle, sl_maximum = maximum\<rparr>)"

definition sl_latest :: "sliding_lifetime \<Rightarrow> utc_millis \<Rightarrow> utc_millis result" where
  "sl_latest l anchor = utc_checked_add anchor (sl_maximum l)"

definition sl_renewed_until :: "sliding_lifetime \<Rightarrow> utc_millis \<Rightarrow> utc_millis \<Rightarrow> utc_millis result" where
  "sl_renewed_until l anchor now =
     and_then (utc_checked_add now (sl_idle l)) (\<lambda>idle_end.
     and_then (sl_latest l anchor) (\<lambda>latest.
     Inr (min idle_end latest)))"

fun renewals :: "sliding_lifetime \<Rightarrow> utc_millis \<Rightarrow> utc_millis \<Rightarrow> utc_millis list \<Rightarrow> utc_millis" where
  "renewals l anchor deadline [] = deadline"
| "renewals l anchor deadline (now # uses) =
     (if now < deadline
      then (case sl_renewed_until l anchor now of
              Inl e \<Rightarrow> deadline
            | Inr d \<Rightarrow> renewals l anchor d uses)
      else deadline)"

lemma sl_renewed_until_value:
  "sl_renewed_until l anchor now = Inr d \<Longrightarrow>
     utc_value d = min (utc_value now + duration_value (sl_idle l))
                       (utc_value anchor + duration_value (sl_maximum l))"
  by (auto simp: sl_renewed_until_def sl_latest_def result_simps dest!: utc_checked_add_value)

lemma sl_renewed_until_le_latest:
  "sl_renewed_until l anchor now = Inr d \<Longrightarrow> sl_latest l anchor = Inr m \<Longrightarrow> d \<le> m"
  by (auto simp: clock_order sl_latest_def dest!: sl_renewed_until_value utc_checked_add_value)

section \<open>Aggregate versions\<close>

datatype aggregate_version = Version (version_value: int)

definition version_initial :: aggregate_version where
  "version_initial = Version 0"

definition version_new :: "int \<Rightarrow> aggregate_version result" where
  "version_new v =
     (if v < 0 then Inl (Validation ''aggregate_version'' ''must not be negative'')
      else Inr (Version v))"

definition version_next :: "aggregate_version \<Rightarrow> aggregate_version result" where
  "version_next v =
     (case i64_checked_add (version_value v) 1 of
        Some n \<Rightarrow> Inr (Version n)
      | None \<Rightarrow> Inl VersionOverflow)"

definition version_ok :: "aggregate_version \<Rightarrow> bool" where
  "version_ok v \<longleftrightarrow> 0 \<le> version_value v \<and> version_value v \<le> i64_max"

lemma version_next_Inr:
  "version_next v = Inr w \<longleftrightarrow> in_i64 (version_value v + 1) \<and> w = Version (version_value v + 1)"
  by (auto simp: version_next_def i64_checked_add_def)

lemma version_next_value: "version_next v = Inr w \<Longrightarrow> version_value w = version_value v + 1"
  by (simp add: version_next_Inr)

lemma version_next_ok: "version_ok v \<Longrightarrow> version_next v = Inr w \<Longrightarrow> version_ok w"
  by (auto simp: version_ok_def version_next_Inr int_width_defs)

lemma version_initial_ok [simp]: "version_ok version_initial"
  by (simp add: version_ok_def version_initial_def i64_max_def)

lemma version_next_exhausted: "version_next (Version i64_max) = Inl VersionOverflow"
  by (simp add: version_next_def i64_checked_add_def int_width_defs)

end
