(* ===== verification/Private_Rooms.thy ===== *)
theory Private_Rooms
  imports Room_Permissions Utc_Clock
begin

text \<open>
  The private room aggregate of \<^verbatim>\<open>private_rooms.rs\<close>: its members, who may do what, and every
  operation that changes it. A \<^verbatim>\<open>&mut self\<close> method returns its result and the room it leaves.
\<close>

section \<open>Statuses and members\<close>

datatype room_lifecycle = RoomActive | RoomArchived

definition lifecycle_str :: "room_lifecycle \<Rightarrow> string" where
  "lifecycle_str st = (case st of RoomActive \<Rightarrow> ''active'' | RoomArchived \<Rightarrow> ''archived'')"

definition lifecycle_of_str :: "string \<Rightarrow> room_lifecycle result" where
  "lifecycle_of_str s =
     (if s = ''active'' then Inr RoomActive
      else if s = ''archived'' then Inr RoomArchived
      else Inl (Validation ''private_room_lifecycle_status'' ''unknown status''))"

datatype membership = Invited | Joined | Declined | Removed | Banned

definition membership_str :: "membership \<Rightarrow> string" where
  "membership_str st =
     (case st of
        Invited \<Rightarrow> ''invited''
      | Joined \<Rightarrow> ''joined''
      | Declined \<Rightarrow> ''declined''
      | Removed \<Rightarrow> ''removed''
      | Banned \<Rightarrow> ''banned'')"

definition membership_of_str :: "string \<Rightarrow> membership result" where
  "membership_of_str s =
     (if s = ''invited'' then Inr Invited
      else if s = ''joined'' then Inr Joined
      else if s = ''declined'' then Inr Declined
      else if s = ''removed'' then Inr Removed
      else if s = ''banned'' then Inr Banned
      else Inl (Validation ''private_room_membership_status'' ''unknown status''))"

fun carries_permissions :: "membership \<Rightarrow> bool" where
  "carries_permissions Invited = True"
| "carries_permissions Joined = True"
| "carries_permissions _ = False"

interpretation lifecycle_codec: codec lifecycle_str lifecycle_of_str
  by unfold_locales
    (auto simp: lifecycle_str_def lifecycle_of_str_def split: room_lifecycle.splits if_splits)

interpretation membership_codec: codec membership_str membership_of_str
  by unfold_locales
    (auto simp: membership_str_def membership_of_str_def split: membership.splits if_splits)

record room_member =
  rm_principal :: principal_id
  rm_status :: membership
  rm_permissions :: room_permissions

definition member_restore :: "principal_id \<Rightarrow> membership \<Rightarrow> room_permissions \<Rightarrow> room_member result" where
  "member_restore p st perms =
     (if carries_permissions st \<noteq> can_be_assigned_to_member perms
      then Inl (InvariantViolation ''private_room_member'' ''permissions must match status'')
      else Inr \<lparr>rm_principal = p, rm_status = st, rm_permissions = perms\<rparr>)"

definition has_joined :: "room_member \<Rightarrow> bool" where
  "has_joined m \<longleftrightarrow> rm_status m = Joined"

definition member_allows :: "room_member \<Rightarrow> room_capability \<Rightarrow> bool" where
  "member_allows m c \<longleftrightarrow> has_joined m \<and> perm_allows (rm_permissions m) c"

definition member_replace :: "membership \<Rightarrow> room_permissions \<Rightarrow> room_member \<Rightarrow> room_member" where
  "member_replace st perms m = m\<lparr>rm_status := st, rm_permissions := perms\<rparr>"

section \<open>The room\<close>

record private_room =
  pr_catalog_id :: room_catalog_id
  pr_owner :: principal_id
  pr_status :: room_lifecycle
  pr_members :: "principal_id \<rightharpoonup> room_member"
  pr_version :: aggregate_version
  pr_created_by_agent :: "agent_id option"

definition room_create :: "room_catalog_id \<Rightarrow> principal_id \<Rightarrow> private_room" where
  "room_create cat owner =
     \<lparr>pr_catalog_id = cat, pr_owner = owner, pr_status = RoomActive,
      pr_members = [owner \<mapsto> \<lparr>rm_principal = owner, rm_status = Joined, rm_permissions = perm_all\<rparr>],
      pr_version = version_initial, pr_created_by_agent = None\<rparr>"

definition room_create_by_agent ::
  "room_catalog_id \<Rightarrow> principal_id \<Rightarrow> agent_id \<Rightarrow> private_room" where
  "room_create_by_agent cat owner agent =
     (room_create cat owner)\<lparr>pr_created_by_agent := Some agent\<rparr>"

text \<open>The loop of \<^verbatim>\<open>restore\<close> that indexes the members and stops at a duplicate.\<close>

fun index_members ::
  "(principal_id \<rightharpoonup> room_member) \<Rightarrow> room_member list \<Rightarrow> (principal_id \<rightharpoonup> room_member) result" where
  "index_members idx [] = Inr idx"
| "index_members idx (m # ms) =
     (case idx (rm_principal m) of
        Some _ \<Rightarrow> Inl (InvariantViolation ''private_room'' ''duplicate member'')
      | None \<Rightarrow> index_members (idx(rm_principal m \<mapsto> m)) ms)"

definition room_restore ::
  "room_catalog_id \<Rightarrow> principal_id \<Rightarrow> room_lifecycle \<Rightarrow> room_member list \<Rightarrow>
   aggregate_version \<Rightarrow> agent_id option \<Rightarrow> private_room result" where
  "room_restore cat owner st members ver agent =
     and_then (index_members Map.empty members) (\<lambda>idx.
     and_then (ok_or (idx owner) (InvariantViolation ''private_room'' ''owner must be a member'')) (\<lambda>o_m.
     if \<not> has_joined o_m \<or> rm_permissions o_m \<noteq> perm_all
     then Inl (InvariantViolation ''private_room'' ''owner must be joined with all permissions'')
     else Inr \<lparr>pr_catalog_id = cat, pr_owner = owner, pr_status = st, pr_members = idx,
               pr_version = ver, pr_created_by_agent = agent\<rparr>))"

section \<open>Who may do what\<close>

definition room_allows :: "private_room \<Rightarrow> principal_id \<Rightarrow> room_capability \<Rightarrow> bool" where
  "room_allows r p c =
     (if pr_status r = RoomArchived \<and> c \<noteq> View then False
      else (case pr_members r p of None \<Rightarrow> False | Some m \<Rightarrow> member_allows m c))"

definition admits_agent_of :: "private_room \<Rightarrow> principal_id \<Rightarrow> bool" where
  "admits_agent_of r p \<longleftrightarrow>
     (case pr_members r p of None \<Rightarrow> False | Some m \<Rightarrow> has_joined m) \<and> room_allows r p Speak"

definition admits_autonomous_agent_of :: "private_room \<Rightarrow> principal_id \<Rightarrow> bool" where
  "admits_autonomous_agent_of r p \<longleftrightarrow> admits_agent_of r p \<and> room_allows r p Automate"

definition admits_agent_member :: "private_room \<Rightarrow> bool \<Rightarrow> bool" where
  "admits_agent_member r is_agent_member \<longleftrightarrow> is_agent_member \<and> pr_status r = RoomActive"

definition ensure_active :: "private_room \<Rightarrow> string \<Rightarrow> unit result" where
  "ensure_active r transition =
     (if pr_status r \<noteq> RoomActive
      then Inl (InvalidTransition ''private_room'' (lifecycle_str (pr_status r)) transition)
      else Inr ())"

definition require_capability ::
  "private_room \<Rightarrow> principal_id \<Rightarrow> room_capability \<Rightarrow> string \<Rightarrow> unit result" where
  "require_capability r actor c action =
     (if \<not> room_allows r actor c then Inl (Forbidden action) else Inr ())"

definition permissions_of :: "private_room \<Rightarrow> principal_id \<Rightarrow> room_permissions" where
  "permissions_of r p = (case pr_members r p of None \<Rightarrow> perm_none | Some m \<Rightarrow> rm_permissions m)"

definition require_grantable ::
  "private_room \<Rightarrow> principal_id \<Rightarrow> room_permissions \<Rightarrow> room_permissions \<Rightarrow> unit result" where
  "require_grantable r actor previous next =
     (if perm_contains (permissions_of r actor) (perm_added_since next previous) then Inr ()
      else Inl (Forbidden ''grant a permission the actor lacks''))"

definition require_non_owner_target :: "private_room \<Rightarrow> principal_id \<Rightarrow> string \<Rightarrow> unit result" where
  "require_non_owner_target r target action =
     (if target = pr_owner r then Inl (Forbidden action) else Inr ())"

definition require_assignable :: "room_permissions \<Rightarrow> unit result" where
  "require_assignable perms =
     (if \<not> can_be_assigned_to_member perms
      then Inl (Validation ''private_room_permissions'' ''active members need view'')
      else Inr ())"

definition ensure_built_by_agent :: "private_room \<Rightarrow> string \<Rightarrow> unit result" where
  "ensure_built_by_agent r action =
     (if pr_created_by_agent r \<noteq> None then Inr () else Inl (Forbidden action))"

definition invalid_member_transition :: "string \<Rightarrow> string \<Rightarrow> domain_error" where
  "invalid_member_transition from_state to_state =
     InvalidTransition ''private_room_member'' from_state to_state"

definition room_next_version :: "private_room \<Rightarrow> aggregate_version result" where
  "room_next_version r = version_next (pr_version r)"

definition default_invitation_for :: "private_room \<Rightarrow> principal_id \<Rightarrow> room_permissions" where
  "default_invitation_for r inviter =
     perm_intersection perm_invited_by_agent (permissions_of r inviter)"

definition authorize_agent_access :: "private_room \<Rightarrow> principal_id \<Rightarrow> unit result" where
  "authorize_agent_access r actor =
     and_then (ensure_active r ''agent_access_changed'') (\<lambda>_.
     require_capability r actor Manage ''manage agent codes'')"

definition authorize_agent_access_by_agent :: "private_room \<Rightarrow> principal_id \<Rightarrow> unit result" where
  "authorize_agent_access_by_agent r actor =
     and_then (ensure_built_by_agent r ''agents manage only rooms built by agents'') (\<lambda>_.
     authorize_agent_access r actor)"

definition authorize_invite_link :: "private_room \<Rightarrow> principal_id \<Rightarrow> unit result" where
  "authorize_invite_link r actor =
     and_then (ensure_active r ''invite_link_changed'') (\<lambda>_.
     if \<not> (case pr_members r actor of None \<Rightarrow> False | Some m \<Rightarrow> has_joined m)
     then Inl (Forbidden ''manage invite links'')
     else require_capability r actor Invite ''manage invite links'')"

definition authorize_invite_link_permissions ::
  "private_room \<Rightarrow> principal_id \<Rightarrow> room_permissions \<Rightarrow> unit result" where
  "authorize_invite_link_permissions r actor perms =
     and_then (authorize_invite_link r actor) (\<lambda>_.
     and_then (require_assignable perms) (\<lambda>_.
     require_grantable r actor perm_none perms))"

definition authorize_rename :: "private_room \<Rightarrow> principal_id \<Rightarrow> unit result" where
  "authorize_rename r actor =
     (if actor \<noteq> pr_owner r then Inl (Forbidden ''rename'')
      else ensure_active r ''renamed'')"

definition authorize_description_change :: "private_room \<Rightarrow> principal_id \<Rightarrow> unit result" where
  "authorize_description_change r actor =
     (if actor \<noteq> pr_owner r then Inl (Forbidden ''describe'')
      else ensure_active r ''described'')"

definition authorize_notice_change :: "private_room \<Rightarrow> principal_id \<Rightarrow> unit result" where
  "authorize_notice_change r actor =
     and_then (ensure_active r ''notice_changed'') (\<lambda>_.
     require_capability r actor Manage ''change notice'')"

definition authorize_moderation_grants :: "private_room \<Rightarrow> principal_id \<Rightarrow> unit result" where
  "authorize_moderation_grants r actor =
     and_then (ensure_active r ''moderation_grants_changed'') (\<lambda>_.
     require_capability r actor Manage ''delegate moderation'')"

definition authorize_listing_change :: "private_room \<Rightarrow> principal_id \<Rightarrow> unit result" where
  "authorize_listing_change r actor =
     (if actor \<noteq> pr_owner r then Inl (Forbidden ''change listing'')
      else ensure_active r ''listing_changed'')"

section \<open>Operations that change the room\<close>

definition put_member :: "private_room \<Rightarrow> principal_id \<Rightarrow> room_member \<Rightarrow> aggregate_version \<Rightarrow> private_room" where
  "put_member r p m v = r\<lparr>pr_members := (pr_members r)(p \<mapsto> m), pr_version := v\<rparr>"

definition room_invite ::
  "principal_id \<Rightarrow> principal_id \<Rightarrow> room_permissions \<Rightarrow> private_room \<Rightarrow> (bool, private_room) update" where
  "room_invite actor target perms r =
     attempt (ensure_active r ''invited'') r (\<lambda>_.
     attempt (require_capability r actor Invite ''invite members'') r (\<lambda>_.
     attempt (require_assignable perms) r (\<lambda>_.
     attempt (require_grantable r actor perm_none perms) r (\<lambda>_.
     case pr_members r target of
       None \<Rightarrow>
         attempt (room_next_version r) r (\<lambda>v.
         (Inr True, put_member r target
            \<lparr>rm_principal = target, rm_status = Invited, rm_permissions = perms\<rparr> v))
     | Some m \<Rightarrow>
         if rm_status m = Invited then
           (if rm_permissions m = perms then (Inr False, r)
            else (Inl (invalid_member_transition ''invited'' ''invited_with_new_permissions''), r))
         else if \<not> (rm_status m = Declined \<or> rm_status m = Removed) then
           (Inl (invalid_member_transition (membership_str (rm_status m)) ''invited''), r)
         else
           attempt (room_next_version r) r (\<lambda>v.
           (Inr True, put_member r target (member_replace Invited perms m) v))))))"

definition room_invite_by_agent ::
  "principal_id \<Rightarrow> principal_id \<Rightarrow> private_room \<Rightarrow> (bool, private_room) update" where
  "room_invite_by_agent actor target r =
     attempt (ensure_built_by_agent r ''agents invite only into rooms built by agents'') r (\<lambda>_.
     if (case pr_members r target of None \<Rightarrow> False | Some m \<Rightarrow> has_joined m) then
       attempt (ensure_active r ''invited'') r (\<lambda>_.
       attempt (require_capability r actor Invite ''invite members'') r (\<lambda>_.
       (Inr False, r)))
     else room_invite actor target (default_invitation_for r actor) r)"

definition room_accept :: "principal_id \<Rightarrow> private_room \<Rightarrow> (bool, private_room) update" where
  "room_accept p r =
     attempt (ensure_active r ''joined'') r (\<lambda>_.
     attempt (ok_or (pr_members r p) (invalid_member_transition ''absent'' ''joined'')) r (\<lambda>m.
     if rm_status m = Invited then
       attempt (room_next_version r) r (\<lambda>v.
       (Inr True, put_member r p (m\<lparr>rm_status := Joined\<rparr>) v))
     else if rm_status m = Joined then (Inr False, r)
     else (Inl (invalid_member_transition (membership_str (rm_status m)) ''joined''), r)))"

definition room_decline :: "principal_id \<Rightarrow> private_room \<Rightarrow> (bool, private_room) update" where
  "room_decline p r =
     attempt (ensure_active r ''declined'') r (\<lambda>_.
     attempt (ok_or (pr_members r p) (invalid_member_transition ''absent'' ''declined'')) r (\<lambda>m.
     if rm_status m = Invited then
       attempt (room_next_version r) r (\<lambda>v.
       (Inr True, put_member r p (member_replace Declined perm_none m) v))
     else if rm_status m = Declined then (Inr False, r)
     else (Inl (invalid_member_transition (membership_str (rm_status m)) ''declined''), r)))"

definition terminate_membership ::
  "principal_id \<Rightarrow> membership \<Rightarrow> string \<Rightarrow> private_room \<Rightarrow> (bool, private_room) update" where
  "terminate_membership p terminal transition r =
     attempt (ok_or (pr_members r p) (invalid_member_transition ''absent'' transition)) r (\<lambda>m.
     if rm_status m = terminal then (Inr False, r)
     else if \<not> carries_permissions (rm_status m) then
       (Inl (invalid_member_transition (membership_str (rm_status m)) transition), r)
     else
       attempt (room_next_version r) r (\<lambda>v.
       (Inr True, put_member r p (member_replace terminal perm_none m) v)))"

definition room_leave :: "principal_id \<Rightarrow> private_room \<Rightarrow> (bool, private_room) update" where
  "room_leave p r =
     attempt (ensure_active r ''removed'') r (\<lambda>_.
     if p = pr_owner r then (Inl (Forbidden ''owner must transfer before leaving''), r)
     else terminate_membership p Removed ''removed'' r)"

definition room_remove :: "principal_id \<Rightarrow> principal_id \<Rightarrow> private_room \<Rightarrow> (bool, private_room) update" where
  "room_remove actor target r =
     attempt (ensure_active r ''removed'') r (\<lambda>_.
     attempt (require_capability r actor Manage ''remove members'') r (\<lambda>_.
     attempt (require_non_owner_target r target ''remove the owner'') r (\<lambda>_.
     terminate_membership target Removed ''removed'' r)))"

definition is_banned :: "private_room \<Rightarrow> principal_id \<Rightarrow> bool" where
  "is_banned r p \<longleftrightarrow>
     (case pr_members r p of None \<Rightarrow> False | Some m \<Rightarrow> rm_status m = Banned)"

definition room_ban :: "principal_id \<Rightarrow> principal_id \<Rightarrow> private_room \<Rightarrow> (bool, private_room) update" where
  "room_ban actor target r =
     attempt (ensure_active r ''banned'') r (\<lambda>_.
     attempt (require_capability r actor Manage ''ban members'') r (\<lambda>_.
     attempt (require_non_owner_target r target ''ban the owner'') r (\<lambda>_.
     if is_banned r target then (Inr False, r)
     else
       attempt (room_next_version r) r (\<lambda>v.
       (Inr True, put_member r target
          (case pr_members r target of
             Some m \<Rightarrow> member_replace Banned perm_none m
           | None \<Rightarrow> \<lparr>rm_principal = target, rm_status = Banned, rm_permissions = perm_none\<rparr>) v)))))"

definition room_unban :: "principal_id \<Rightarrow> principal_id \<Rightarrow> private_room \<Rightarrow> (bool, private_room) update" where
  "room_unban actor target r =
     attempt (ensure_active r ''removed'') r (\<lambda>_.
     attempt (require_capability r actor Manage ''unban members'') r (\<lambda>_.
     if \<not> is_banned r target then (Inr False, r)
     else
       attempt (room_next_version r) r (\<lambda>v.
       attempt (ok_or (pr_members r target)
                  (InvariantViolation ''private_room'' ''banned member must exist'')) r (\<lambda>m.
       (Inr True, put_member r target (member_replace Removed perm_none m) v)))))"

definition room_update_permissions ::
  "principal_id \<Rightarrow> principal_id \<Rightarrow> room_permissions \<Rightarrow> private_room \<Rightarrow> (bool, private_room) update" where
  "room_update_permissions actor target perms r =
     attempt (ensure_active r ''permissions_updated'') r (\<lambda>_.
     attempt (require_capability r actor Manage ''change permissions'') r (\<lambda>_.
     attempt (require_non_owner_target r target ''weaken the owner'') r (\<lambda>_.
     attempt (require_assignable perms) r (\<lambda>_.
     attempt (ok_or (pr_members r target)
                (invalid_member_transition ''absent'' ''permissions_updated'')) r (\<lambda>m.
     if \<not> carries_permissions (rm_status m) then
       (Inl (invalid_member_transition (membership_str (rm_status m)) ''permissions_updated''), r)
     else if rm_permissions m = perms then (Inr False, r)
     else
       attempt (require_grantable r actor (rm_permissions m) perms) r (\<lambda>_.
       attempt (room_next_version r) r (\<lambda>v.
       (Inr True, put_member r target (m\<lparr>rm_permissions := perms\<rparr>) v))))))))"

definition room_transfer ::
  "principal_id \<Rightarrow> principal_id \<Rightarrow> room_permissions \<Rightarrow> private_room \<Rightarrow> (bool, private_room) update" where
  "room_transfer actor target former_perms r =
     attempt (ensure_active r ''ownership_transferred'') r (\<lambda>_.
     if actor \<noteq> pr_owner r then (Inl (Forbidden ''transfer ownership''), r)
     else if target = pr_owner r then (Inr False, r)
     else
       attempt (require_assignable former_perms) r (\<lambda>_.
       if \<not> (case pr_members r target of None \<Rightarrow> False | Some m \<Rightarrow> has_joined m) then
         (Inl (invalid_member_transition
             (case pr_members r target of None \<Rightarrow> ''absent'' | Some m \<Rightarrow> membership_str (rm_status m))
             ''owner''), r)
       else if pr_members r actor = None then
         (Inl (InvariantViolation ''private_room'' ''owner membership missing''), r)
       else
         attempt (room_next_version r) r (\<lambda>v.
         attempt (ok_or (pr_members r target)
                    (InvariantViolation ''private_room'' ''new owner must exist'')) r (\<lambda>target_member.
         case ((pr_members r)(target := None)) actor of
           None \<Rightarrow>
             (Inl (InvariantViolation ''private_room'' ''owner membership missing''),
              r\<lparr>pr_members := ((pr_members r)(target := None))(target \<mapsto> target_member)\<rparr>)
         | Some former_owner \<Rightarrow>
             (Inr True,
              r\<lparr>pr_members := ((pr_members r)(target := None))
                  (actor \<mapsto> former_owner\<lparr>rm_permissions := former_perms\<rparr>,
                   target \<mapsto> target_member\<lparr>rm_permissions := perm_all\<rparr>),
                pr_owner := target,
                pr_version := v\<rparr>)))))"

definition room_archive :: "principal_id \<Rightarrow> private_room \<Rightarrow> (bool, private_room) update" where
  "room_archive actor r =
     (if actor \<noteq> pr_owner r then (Inl (Forbidden ''archive''), r)
      else if pr_status r = RoomArchived then (Inr False, r)
      else
        attempt (room_next_version r) r (\<lambda>v.
        (Inr True, r\<lparr>pr_status := RoomArchived, pr_version := v\<rparr>)))"

section \<open>Commands\<close>

datatype room_command =
    InviteMember principal_id principal_id room_permissions
  | InviteByAgent principal_id principal_id
  | AcceptInvitation principal_id
  | DeclineInvitation principal_id
  | LeaveRoom principal_id
  | RemoveMember principal_id principal_id
  | BanMember principal_id principal_id
  | UnbanMember principal_id principal_id
  | UpdatePermissions principal_id principal_id room_permissions
  | TransferOwnership principal_id principal_id room_permissions
  | ArchiveRoom principal_id

fun room_step :: "room_command \<Rightarrow> private_room \<Rightarrow> (bool, private_room) update" where
  "room_step (InviteMember a t p) r = room_invite a t p r"
| "room_step (InviteByAgent a t) r = room_invite_by_agent a t r"
| "room_step (AcceptInvitation a) r = room_accept a r"
| "room_step (DeclineInvitation a) r = room_decline a r"
| "room_step (LeaveRoom a) r = room_leave a r"
| "room_step (RemoveMember a t) r = room_remove a t r"
| "room_step (BanMember a t) r = room_ban a t r"
| "room_step (UnbanMember a t) r = room_unban a t r"
| "room_step (UpdatePermissions a t p) r = room_update_permissions a t p r"
| "room_step (TransferOwnership a t p) r = room_transfer a t p r"
| "room_step (ArchiveRoom a) r = room_archive a r"

fun command_actor :: "room_command \<Rightarrow> principal_id" where
  "command_actor (InviteMember a t p) = a"
| "command_actor (InviteByAgent a t) = a"
| "command_actor (AcceptInvitation a) = a"
| "command_actor (DeclineInvitation a) = a"
| "command_actor (LeaveRoom a) = a"
| "command_actor (RemoveMember a t) = a"
| "command_actor (BanMember a t) = a"
| "command_actor (UnbanMember a t) = a"
| "command_actor (UpdatePermissions a t p) = a"
| "command_actor (TransferOwnership a t p) = a"
| "command_actor (ArchiveRoom a) = a"

text \<open>The permission arguments are sets the constructors can produce.\<close>

fun command_ok :: "room_command \<Rightarrow> bool" where
  "command_ok (InviteMember a t p) = perm_ok p"
| "command_ok (UpdatePermissions a t p) = perm_ok p"
| "command_ok (TransferOwnership a t p) = perm_ok p"
| "command_ok _ = True"

section \<open>The room's invariant\<close>

definition member_ok :: "principal_id \<Rightarrow> room_member \<Rightarrow> bool" where
  "member_ok p m \<longleftrightarrow>
     rm_principal m = p \<and> perm_ok (rm_permissions m) \<and>
     (carries_permissions (rm_status m) \<longleftrightarrow> grants (rm_permissions m) View)"

definition owner_ok :: "private_room \<Rightarrow> bool" where
  "owner_ok r \<longleftrightarrow>
     (\<exists>m. pr_members r (pr_owner r) = Some m \<and> has_joined m \<and> rm_permissions m = perm_all)"

definition room_ok :: "private_room \<Rightarrow> bool" where
  "room_ok r \<longleftrightarrow>
     finite (dom (pr_members r)) \<and>
     (\<forall>p m. pr_members r p = Some m \<longrightarrow> member_ok p m) \<and> owner_ok r \<and> version_ok (pr_version r)"

lemmas room_guards = ensure_active_def require_capability_def require_grantable_def
  require_non_owner_target_def require_assignable_def ensure_built_by_agent_def room_next_version_def
  can_be_assigned_to_member_def

lemmas room_ops = room_invite_def room_invite_by_agent_def room_accept_def room_decline_def
  terminate_membership_def room_leave_def room_remove_def room_ban_def room_unban_def
  room_update_permissions_def room_transfer_def room_archive_def

lemma room_okD:
  assumes "room_ok r" and "pr_members r p = Some m"
  shows "member_ok p m"
  using assms by (auto simp: room_ok_def)

lemma room_ok_principal: "room_ok r \<Longrightarrow> pr_members r p = Some m \<Longrightarrow> rm_principal m = p"
  using room_okD [of r p m] by (simp add: member_ok_def)

lemma owner_member:
  "room_ok r \<Longrightarrow> \<exists>m. pr_members r (pr_owner r) = Some m \<and> has_joined m \<and> rm_permissions m = perm_all"
  by (auto simp: room_ok_def owner_ok_def)

lemma room_ok_put_member:
  assumes "room_ok r" and "member_ok p m" and "version_next (pr_version r) = Inr v"
    and "p = pr_owner r \<Longrightarrow> has_joined m \<and> rm_permissions m = perm_all"
  shows "room_ok (put_member r p m v)"
  using assms
  by (auto simp: room_ok_def owner_ok_def put_member_def intro: version_next_ok)

lemma member_ok_terminal [simp]:
  "\<not> carries_permissions st \<Longrightarrow> rm_principal m = p \<Longrightarrow> member_ok p (member_replace st perm_none m)"
  by (simp add: member_ok_def member_replace_def)

lemma permissions_of_ok: "room_ok r \<Longrightarrow> perm_ok (permissions_of r p)"
  by (auto simp: permissions_of_def member_ok_def dest: room_okD split: option.split)

lemma default_invitation_ok: "room_ok r \<Longrightarrow> perm_ok (default_invitation_for r p)"
  by (simp add: default_invitation_for_def permissions_of_ok)

text \<open>
  Every operation that gets past its guards writes one member, the two of a transfer, or the
  status of the room.
\<close>

inductive room_change :: "private_room \<Rightarrow> private_room \<Rightarrow> bool" for r where
  nothing: "room_change r r"
| member: "version_next (pr_version r) = Inr v \<Longrightarrow> member_ok p m \<Longrightarrow> pr_status r = RoomActive \<Longrightarrow>
    (p = pr_owner r \<Longrightarrow> has_joined m \<and> rm_permissions m = perm_all) \<Longrightarrow>
    room_change r (put_member r p m v)"
| transfer: "version_next (pr_version r) = Inr v \<Longrightarrow> pr_status r = RoomActive \<Longrightarrow>
    p = pr_owner r \<Longrightarrow> q \<noteq> p \<Longrightarrow>
    pr_members r p = Some m \<Longrightarrow> pr_members r q = Some n \<Longrightarrow> has_joined n \<Longrightarrow>
    perm_ok perms \<Longrightarrow> grants perms View \<Longrightarrow>
    room_change r (r\<lparr>pr_members := (pr_members r)
        (p \<mapsto> m\<lparr>rm_permissions := perms\<rparr>, q \<mapsto> n\<lparr>rm_permissions := perm_all\<rparr>),
      pr_owner := q, pr_version := v\<rparr>)"
| archive: "version_next (pr_version r) = Inr v \<Longrightarrow>
    room_change r (r\<lparr>pr_status := RoomArchived, pr_version := v\<rparr>)"

lemma room_change_attempt [intro!]:
  "(\<And>x. m = Inr x \<Longrightarrow> room_change r (snd (k x))) \<Longrightarrow> room_change r (snd (attempt m r k))"
  by (cases m) (auto intro: room_change.nothing)

declare room_change.nothing [intro!, simp]

lemma room_change_put [intro]:
  "room_next_version r = Inr v \<Longrightarrow> member_ok p m \<Longrightarrow> ensure_active r tr = Inr () \<Longrightarrow>
   p \<noteq> pr_owner r \<Longrightarrow> room_change r (put_member r p m v)"
  by (auto simp: room_next_version_def ensure_active_def intro: room_change.member split: if_splits)

lemma ensure_active_Inr [simp]: "ensure_active r tr = Inr u \<longleftrightarrow> pr_status r = RoomActive"
  by (simp add: ensure_active_def)

lemma require_capability_Inr [simp]: "require_capability r a c act = Inr u \<longleftrightarrow> room_allows r a c"
  by (simp add: require_capability_def)

lemma require_assignable_Inr [simp]: "require_assignable perms = Inr u \<longleftrightarrow> grants perms View"
  by (simp add: require_assignable_def can_be_assigned_to_member_def)

lemma require_non_owner_Inr [simp]: "require_non_owner_target r t act = Inr u \<longleftrightarrow> t \<noteq> pr_owner r"
  by (simp add: require_non_owner_target_def)

lemma ensure_built_by_agent_Inr [simp]:
  "ensure_built_by_agent r act = Inr u \<longleftrightarrow> pr_created_by_agent r \<noteq> None"
  by (auto simp: ensure_built_by_agent_def)

lemma room_allows_iff:
  "room_allows r p c \<longleftrightarrow>
     (pr_status r = RoomArchived \<longrightarrow> c = View) \<and>
     (\<exists>m. pr_members r p = Some m \<and> has_joined m \<and> grants (rm_permissions m) c)"
  by (auto simp: room_allows_def member_allows_def perm_allows_grants split: option.split)

lemma require_grantable_Inr:
  assumes "perm_ok next"
  shows "require_grantable r a previous next = Inr u \<longleftrightarrow>
     (\<forall>c. grants next c \<and> \<not> grants previous c \<longrightarrow> grants (permissions_of r a) c)"
  using assms by (auto simp: require_grantable_def perm_contains_iff)

lemma owner_is_joined: "room_ok r \<Longrightarrow> pr_members r (pr_owner r) = Some m \<Longrightarrow> rm_status m = Joined"
  using owner_member by (fastforce simp: has_joined_def)

lemma invite_change:
  assumes ok: "room_ok r" "perm_ok perms"
  shows "room_change r (snd (room_invite a t perms r))"
proof -
  have "room_change r (put_member r t \<lparr>rm_principal = t, rm_status = Invited, rm_permissions = perms\<rparr> v)"
    if "pr_members r t = None" "room_next_version r = Inr v" "pr_status r = RoomActive" "grants perms View" for v
    using that ok owner_member [OF ok(1)]
    by (intro room_change.member) (auto simp: member_ok_def room_next_version_def)
  moreover have "room_change r (put_member r t (member_replace Invited perms m) v)"
    if "pr_members r t = Some m" "rm_status m \<noteq> Joined" "room_next_version r = Inr v"
      "pr_status r = RoomActive" "grants perms View" for m v
    using that ok owner_member [OF ok(1)] room_okD [OF ok(1) that(1)]
    by (intro room_change.member)
      (auto simp: member_ok_def member_replace_def room_next_version_def has_joined_def)
  ultimately show ?thesis
    by (auto simp: room_invite_def split: option.split)
qed

lemma invite_by_agent_change:
  "room_ok r \<Longrightarrow> room_change r (snd (room_invite_by_agent a t r))"
  by (auto simp: room_invite_by_agent_def intro: invite_change default_invitation_ok)

lemma put_terminal_change:
  assumes "room_ok r" and "pr_members r p = Some m" and "p \<noteq> pr_owner r" and "pr_status r = RoomActive"
    and "room_next_version r = Inr v" and "\<not> carries_permissions st"
  shows "room_change r (put_member r p (member_replace st perm_none m) v)"
  using assms room_okD [OF assms(1,2)]
  by (intro room_change.member) (auto simp: room_next_version_def member_ok_def member_replace_def)

lemma accept_change: "room_ok r \<Longrightarrow> room_change r (snd (room_accept p r))"
proof -
  assume ok: "room_ok r"
  have "room_change r (put_member r p (m\<lparr>rm_status := Joined\<rparr>) v)"
    if "pr_members r p = Some m" "rm_status m = Invited" "pr_status r = RoomActive"
      "room_next_version r = Inr v" for m v
    using that room_okD [OF ok that(1)] owner_is_joined [OF ok]
    by (intro room_change.member) (auto simp: member_ok_def room_next_version_def)
  then show ?thesis
    by (auto simp: room_accept_def)
qed

lemma decline_change: "room_ok r \<Longrightarrow> room_change r (snd (room_decline p r))"
  using owner_is_joined [of r]
  by (auto simp: room_decline_def intro!: put_terminal_change)

lemma terminate_change:
  assumes "room_ok r" and "p \<noteq> pr_owner r" and "pr_status r = RoomActive" and "\<not> carries_permissions st"
  shows "room_change r (snd (terminate_membership p st tr r))"
  using assms by (auto simp: terminate_membership_def intro!: put_terminal_change)

lemma leave_change: "room_ok r \<Longrightarrow> room_change r (snd (room_leave p r))"
  by (auto simp: room_leave_def intro!: terminate_change)

lemma remove_change: "room_ok r \<Longrightarrow> room_change r (snd (room_remove a t r))"
  by (auto simp: room_remove_def intro!: terminate_change)

lemma ban_change: "room_ok r \<Longrightarrow> room_change r (snd (room_ban a t r))"
  using room_ok_principal [of r t]
  by (auto simp: room_ban_def room_next_version_def member_ok_def member_replace_def intro!: put_terminal_change room_change.member split: option.split)

lemma unban_change: "room_ok r \<Longrightarrow> room_change r (snd (room_unban a t r))"
  using owner_is_joined [of r]
  by (auto simp: room_unban_def is_banned_def intro!: put_terminal_change split: option.splits)

lemma update_permissions_change:
  "room_ok r \<Longrightarrow> perm_ok perms \<Longrightarrow> room_change r (snd (room_update_permissions a t perms r))"
  using room_ok_principal [of r t]
  by (auto simp: room_update_permissions_def room_next_version_def member_ok_def
      intro!: room_change.member)

lemma reinsert_upd: "q \<noteq> p \<Longrightarrow> (f(q := None))(p \<mapsto> x, q \<mapsto> y) = f(p \<mapsto> x, q \<mapsto> y)"
  by (auto simp: fun_eq_iff)

lemma transfer_change:
  "room_ok r \<Longrightarrow> perm_ok perms \<Longrightarrow> room_change r (snd (room_transfer a t perms r))"
  by (auto simp: room_transfer_def room_next_version_def reinsert_upd
      intro!: room_change.transfer split: option.splits)

lemma archive_change: "room_change r (snd (room_archive a r))"
  by (auto simp: room_archive_def room_next_version_def intro!: room_change.archive)

lemma room_step_change:
  "room_ok r \<Longrightarrow> command_ok c \<Longrightarrow> room_change r (snd (room_step c r))"
  by (cases c) (auto intro: invite_change invite_by_agent_change accept_change decline_change
      leave_change remove_change ban_change unban_change update_permissions_change transfer_change
      archive_change)

lemma room_change_ok: "room_change r s \<Longrightarrow> room_ok r \<Longrightarrow> room_ok s"
proof (induction rule: room_change.induct)
  case (transfer v p q m n perms)
  then show ?case
    using room_okD [of r p m] room_okD [of r q n]
    by (auto simp: room_ok_def owner_ok_def member_ok_def has_joined_def intro: version_next_ok)
qed (auto simp: room_ok_put_member, auto simp: room_ok_def owner_ok_def intro: version_next_ok)

section \<open>Effect and version\<close>

lemma room_step_inert: "inert_unless_effective (room_step c r) r"
  by (cases c)
    (auto simp: room_ops intro!: inert_attempt split: option.splits)

lemma room_change_version:
  "room_change r s \<Longrightarrow> s = r \<or> version_next (pr_version r) = Inr (pr_version s)"
  by (induction rule: room_change.induct) (auto simp: put_member_def)

lemma room_step_effect:
  "room_step c r = (Inr True, s) \<Longrightarrow> version_next (pr_version r) = Inr (pr_version s)"
  by (cases c)
    (auto simp: room_ops put_member_def room_next_version_def result_simps
      split: option.splits if_splits)

lemma room_step_version:
  "fst (room_step c r) = Inr True \<Longrightarrow>
   version_value (pr_version (snd (room_step c r))) = version_value (pr_version r) + 1"
  using room_step_effect [of c r "snd (room_step c r)"]
  by (cases "room_step c r") (auto dest: version_next_value)

interpretation room: versioned_aggregate room_step command_ok room_ok "\<lambda>r. version_value (pr_version r)"
  by unfold_locales
    (auto intro: room_change_ok room_step_change room_step_inert room_step_version)

lemma room_create_ok [simp]: "room_ok (room_create cat owner)"
  by (simp add: room_ok_def owner_ok_def room_create_def member_ok_def has_joined_def)

lemma room_create_by_agent_ok [simp]: "room_ok (room_create_by_agent cat owner agent)"
  using room_create_ok [of cat owner]
  by (simp add: room_ok_def owner_ok_def room_create_by_agent_def room_create_def)

section \<open>Restoring a stored room\<close>

lemma index_members_Inr:
  "index_members idx ms = Inr f \<longleftrightarrow>
     distinct (map rm_principal ms) \<and> dom idx \<inter> rm_principal ` set ms = {} \<and>
     f = idx ++ map_of (map (\<lambda>m. (rm_principal m, m)) ms)"
proof (induction ms arbitrary: idx)
  case (Cons m ms)
  show ?case
  proof (cases "idx (rm_principal m)")
    case None
    have "rm_principal m \<notin> rm_principal ` set ms \<Longrightarrow>
        idx(rm_principal m \<mapsto> m) ++ map_of (map (\<lambda>m. (rm_principal m, m)) ms) =
        idx ++ (map_of (map (\<lambda>m. (rm_principal m, m)) ms))(rm_principal m \<mapsto> m)"
      by (subst map_add_upd_left) (auto simp: dom_map_of_conv_image_fst image_image)
    moreover have "dom (idx(rm_principal m \<mapsto> m)) = insert (rm_principal m) (dom idx)"
      by simp
    ultimately show ?thesis
      using None Cons.IH [of "idx(rm_principal m \<mapsto> m)"]
      by (simp del: dom_fun_upd fun_upd_apply) (auto simp del: fun_upd_apply)
  qed auto
qed auto

lemma map_of_keyed:
  assumes "distinct (map rm_principal ms)"
    and "set ms = ran members" and "\<And>p m. members p = Some m \<Longrightarrow> rm_principal m = p"
  shows "map_of (map (\<lambda>m. (rm_principal m, m)) ms) = members"
proof
  fix p
  show "map_of (map (\<lambda>m. (rm_principal m, m)) ms) p = members p"
  proof (cases "members p")
    case None
    then have "p \<notin> rm_principal ` set ms"
      using assms(2,3) by (auto simp: ran_def)
    then show ?thesis
      using None by (simp add: map_of_eq_None_iff image_image)
  next
    case (Some m)
    then have "(p, m) \<in> set (map (\<lambda>m. (rm_principal m, m)) ms)"
      using assms(2,3) by (force simp: ran_def)
    with assms(1) Some show ?thesis
      by (simp add: comp_def)
  qed
qed

lemma room_restore_Inr:
  "room_restore cat owner st ms ver agent = Inr r \<longleftrightarrow>
     distinct (map rm_principal ms) \<and>
     r = \<lparr>pr_catalog_id = cat, pr_owner = owner, pr_status = st,
          pr_members = map_of (map (\<lambda>m. (rm_principal m, m)) ms),
          pr_version = ver, pr_created_by_agent = agent\<rparr> \<and> owner_ok r"
  by (auto simp: room_restore_def result_simps index_members_Inr owner_ok_def split: if_splits)

section \<open>The membership automaton\<close>

text \<open>
  What one command may do to one principal's membership: an abstract automaton that knows
  nothing of permissions, owners or versions.
\<close>

inductive member_move :: "membership option \<Rightarrow> membership option \<Rightarrow> bool" where
  invite_new: "member_move None (Some Invited)"
| invite_again: "st = Declined \<or> st = Removed \<Longrightarrow> member_move (Some st) (Some Invited)"
| accept: "member_move (Some Invited) (Some Joined)"
| decline: "member_move (Some Invited) (Some Declined)"
| go: "st = Invited \<or> st = Joined \<Longrightarrow> member_move (Some st) (Some Removed)"
| ban: "st \<noteq> Some Banned \<Longrightarrow> member_move st (Some Banned)"
| unban: "member_move (Some Banned) (Some Removed)"

inductive_simps member_move_from_banned: "member_move (Some Banned) st"
inductive_simps member_move_to_joined: "member_move st (Some Joined)"

definition membership_of :: "private_room \<Rightarrow> principal_id \<Rightarrow> membership option" where
  "membership_of r p = map_option rm_status (pr_members r p)"

lemma membership_of_put [simp]:
  "membership_of (put_member r q m v) p = (if p = q then Some (rm_status m) else membership_of r p)"
  by (simp add: membership_of_def put_member_def)

lemma carries_permissions_iff: "carries_permissions st \<longleftrightarrow> st = Invited \<or> st = Joined"
  by (cases st) simp_all

lemma rm_status_replace [simp]: "rm_status (member_replace st perms m) = st"
  by (simp add: member_replace_def)

lemma room_step_moves:
  "room_step c r = (Inr True, s) \<Longrightarrow>
   membership_of s p = membership_of r p \<or> member_move (membership_of r p) (membership_of s p)"
  by (cases c)
    (auto simp: room_ops result_simps membership_of_def put_member_def is_banned_def carries_permissions_iff
      intro: member_move.intros split: option.splits if_splits)

section \<open>Properties\<close>

text \<open>
  C2: A private room created by a person or by an agent satisfies its invariant after any
  sequence of commands whose permission arguments come from the permission constructors: the
  owner is a joined member with every permission, each member is filed under its own principal,
  exactly the invited and joined members hold permissions, every permission set is one the
  constructors produce, and the version is a valid aggregate version.
\<close>

theorem private_room_invariant:
  assumes "list_all command_ok cs"
  shows "room_ok (replay room_step cs (room_create cat owner)) \<and>
    room_ok (replay room_step cs (room_create_by_agent cat owner agent))"
  using assms by (simp add: room.replay_wf)

theorem private_room_invariant_witness:
  "room_ok (replay room_step
       [InviteMember 1 2 perm_agent_member, AcceptInvitation 2, TransferOwnership 1 2 perm_agent_member]
       (room_create 9 1)) \<and>
   room_ok (replay room_step
       [InviteMember 1 2 perm_agent_member, AcceptInvitation 2, TransferOwnership 1 2 perm_agent_member]
       (room_create_by_agent 9 1 7))"
  by (rule private_room_invariant) simp

lemma invite_gain:
  assumes "room_ok r" and "perm_ok perms" and "room_invite a t perms r = (Inr True, s)"
    and "grants (permissions_of s p) k"
  shows "grants (permissions_of r p) k \<or> room_allows r a k"
proof (cases "p = t")
  case True
  from assms have "\<And>c. grants perms c \<Longrightarrow> grants (permissions_of r a) c" "room_allows r a Invite"
    by (auto simp: room_invite_def result_simps require_grantable_Inr)
  moreover from True assms have "grants perms k"
    by (auto simp: room_invite_def result_simps put_member_def permissions_of_def member_replace_def
        split: option.splits if_splits)
  ultimately show ?thesis
    using assms(3)
    by (auto simp: room_allows_iff permissions_of_def room_invite_def result_simps)
next
  case False
  with assms show ?thesis
    by (auto simp: room_invite_def result_simps put_member_def permissions_of_def
        split: option.splits if_splits)
qed

lemma update_gain:
  assumes "room_ok r" and "perm_ok perms" and "room_update_permissions a t perms r = (Inr True, s)"
    and "grants (permissions_of s p) k"
  shows "grants (permissions_of r p) k \<or> room_allows r a k"
proof -
  from assms obtain m where m: "pr_members r t = Some m" "room_allows r a Manage" "pr_status r = RoomActive"
    and grantable: "\<forall>c. grants perms c \<and> \<not> grants (rm_permissions m) c \<longrightarrow> grants (permissions_of r a) c"
    and s: "\<exists>v. s = put_member r t (m\<lparr>rm_permissions := perms\<rparr>) v"
    by (auto simp: room_update_permissions_def result_simps require_grantable_Inr split: if_splits)
  with assms(4) show ?thesis
    by (auto simp: room_allows_iff permissions_of_def put_member_def split: option.splits if_splits)
qed

lemma transfer_gain:
  assumes "room_ok r" and "room_transfer a t perms r = (Inr True, s)"
  shows "room_allows r a k"
  using assms owner_member [OF assms(1)]
  by (auto simp: room_transfer_def result_simps room_allows_iff split: if_splits)

lemma loss_only:
  assumes "room_step c r = (Inr True, s)" and "grants (permissions_of s p) k"
    and "case c of InviteMember _ _ _ \<Rightarrow> False | InviteByAgent _ _ \<Rightarrow> False
      | UpdatePermissions _ _ _ \<Rightarrow> False | TransferOwnership _ _ _ \<Rightarrow> False | _ \<Rightarrow> True"
  shows "grants (permissions_of r p) k"
  using assms
  by (cases c)
    (auto simp: room_ops result_simps permissions_of_def put_member_def member_replace_def
      split: option.splits if_splits)

text \<open>
  C1: No escalation. Whatever capability a principal gains by a command, the acting principal
  held it, as a joined member, in the room before the command.
\<close>

theorem private_room_no_escalation:
  assumes "room_ok r" and "command_ok c"
    and "grants (permissions_of (snd (room_step c r)) p) k" and "\<not> grants (permissions_of r p) k"
  shows "room_allows r (command_actor c) k"
proof -
  obtain out s where step: "room_step c r = (out, s)" by fastforce
  with assms(3,4) room_step_inert [of c r] have "room_step c r = (Inr True, s)"
    by (auto simp: inert_unless_effective_def)
  with step assms show ?thesis
  proof (cases c)
    case (InviteByAgent a t)
    with \<open>room_step c r = (Inr True, s)\<close> have "room_invite a t (default_invitation_for r a) r = (Inr True, s)"
      by (auto simp: room_invite_by_agent_def result_simps split: if_splits)
    with assms InviteByAgent step show ?thesis
      using invite_gain [OF assms(1) default_invitation_ok [OF assms(1)], of a t a s p k] by auto
  next
    case (InviteMember a t perms)
    with \<open>room_step c r = (Inr True, s)\<close> assms step show ?thesis
      using invite_gain [OF assms(1), of perms a t s p k] by auto
  next
    case (UpdatePermissions a t perms)
    with \<open>room_step c r = (Inr True, s)\<close> assms step show ?thesis
      using update_gain [OF assms(1), of perms a t s p k] by auto
  next
    case (TransferOwnership a t perms)
    with \<open>room_step c r = (Inr True, s)\<close> show ?thesis
      using transfer_gain [OF assms(1), of a t perms s k] by auto
  qed (use loss_only [of c r s p k] in auto)
qed

theorem private_room_no_escalation_witness:
  "room_allows (room_create 9 1) 1 Speak"
proof -
  let ?c = "InviteMember 1 2 perm_agent_member"
  have "snd (room_step ?c (room_create 9 1)) =
      put_member (room_create 9 1) 2
        \<lparr>rm_principal = 2, rm_status = Invited, rm_permissions = perm_agent_member\<rparr> (Version 1)"
    by code_simp
  then have "grants (permissions_of (snd (room_step ?c (room_create 9 1))) 2) Speak"
    by (simp add: permissions_of_def put_member_def)
  moreover have "\<not> grants (permissions_of (room_create 9 1) 2) Speak"
    by (simp add: permissions_of_def room_create_def)
  ultimately show ?thesis
    using private_room_no_escalation [OF room_create_ok, of ?c 9 1 2 Speak] by simp
qed

text \<open>
  A principal who is neither invited nor joined (a stranger, or someone who declined, was
  removed or is banned) changes nothing, whatever command they issue.
\<close>

theorem private_room_strangers_powerless:
  assumes "room_ok r"
    and "membership_of r (command_actor c) \<notin> {Some Invited, Some Joined}"
  shows "snd (room_step c r) = r"
proof (rule ccontr)
  assume "snd (room_step c r) \<noteq> r"
  with room_step_inert [of c r] obtain s where "room_step c r = (Inr True, s)"
    by (cases "room_step c r") (auto simp: inert_unless_effective_def)
  with assms owner_member [OF assms(1)] show False
    by (cases c)
      (auto simp: room_ops result_simps membership_of_def room_allows_iff has_joined_def carries_permissions_iff
        split: option.splits if_splits)
qed

theorem private_room_strangers_powerless_witness:
  "snd (room_step (BanMember 5 1) (room_create 9 1)) = room_create 9 1"
  by (rule private_room_strangers_powerless, rule room_create_ok) (simp add: membership_of_def room_create_def)

text \<open>
  Refinement of the membership automaton. Every command, successful or not, leaves each
  principal's membership status alone or moves it along one edge of \<^const>\<open>member_move\<close>.
\<close>

theorem private_room_refines_membership:
  "membership_of (snd (room_step c r)) p = membership_of r p \<or>
   member_move (membership_of r p) (membership_of (snd (room_step c r)) p)"
proof (cases "fst (room_step c r) = Inr True")
  case True
  then have "room_step c r = (Inr True, snd (room_step c r))"
    by (metis prod.collapse)
  then show ?thesis
    by (rule room_step_moves)
next
  case False
  with room_step_inert [of c r] show ?thesis
    by (auto simp: inert_unless_effective_def)
qed

lemma unban_only_by_command:
  assumes "membership_of r p = Some Banned" and "membership_of (snd (room_step c r)) p \<noteq> Some Banned"
  shows "\<exists>a. c = UnbanMember a p"
proof -
  from assms room_step_inert [of c r] obtain s where s: "room_step c r = (Inr True, s)"
    by (cases "room_step c r") (auto simp: inert_unless_effective_def)
  with assms(2) have "membership_of s p \<noteq> Some Banned" by simp
  with assms(1) s show ?thesis
    by (cases c)
      (auto simp: room_ops result_simps membership_of_def put_member_def has_joined_def carries_permissions_iff
        split: option.splits if_splits)
qed

lemma ban_sticks:
  assumes "\<And>a. UnbanMember a p \<notin> set cs" and "membership_of r p = Some Banned"
  shows "membership_of (replay room_step cs r) p = Some Banned"
  using assms
proof (induction cs arbitrary: r)
  case (Cons c cs)
  then have "membership_of (snd (room_step c r)) p = Some Banned"
    using unban_only_by_command by force
  with Cons show ?case by simp
qed simp

text \<open>
  C14: A ban sticks. Until somebody issues an unban for that principal, no sequence of commands
  lifts the ban, and neither the principal nor an agent acting for it gets in.
\<close>

theorem private_room_ban_sticks:
  assumes "membership_of r p = Some Banned" and "\<And>a. UnbanMember a p \<notin> set cs"
  shows "membership_of (replay room_step cs r) p = Some Banned \<and>
    \<not> admits_agent_of (replay room_step cs r) p \<and> \<not> room_allows (replay room_step cs r) p k"
  using ban_sticks [OF assms(2,1)]
  by (auto simp: membership_of_def admits_agent_of_def room_allows_iff has_joined_def)

theorem private_room_ban_sticks_witness:
  "membership_of (replay room_step [InviteMember 1 2 perm_all, AcceptInvitation 2, UnbanMember 1 3]
     (snd (room_step (BanMember 1 2) (room_create 9 1)))) 2 = Some Banned"
proof -
  have "membership_of (snd (room_step (BanMember 1 2) (room_create 9 1))) 2 = Some Banned"
    by code_simp
  from private_room_ban_sticks [OF this, of "[InviteMember 1 2 perm_all, AcceptInvitation 2, UnbanMember 1 3]"]
  show ?thesis by simp
qed

text \<open>
  The version counts effective commands. After any sequence of commands it has grown by the
  number of commands answered with success and a change, so a command that fails or reports
  nothing to do leaves no trace; and an unchanged version means an unchanged room.
\<close>

theorem private_room_version_counts:
  "version_value (pr_version (replay room_step cs r)) =
     version_value (pr_version r) + int (count_list (replay_results room_step cs r) (Inr True)) \<and>
   (version_value (pr_version (replay room_step cs r)) = version_value (pr_version r) \<longrightarrow>
     replay room_step cs r = r)"
  using room.replay_version room.replay_same_version by blast

theorem private_room_version_counts_witness:
  "replay room_step [LeaveRoom 1, BanMember 5 1, InviteMember 1 2 perm_none] (room_create 9 1) = room_create 9 1"
proof -
  have "version_value (pr_version
      (replay room_step [LeaveRoom 1, BanMember 5 1, InviteMember 1 2 perm_none] (room_create 9 1))) =
    version_value (pr_version (room_create 9 1))"
    by code_simp
  with private_room_version_counts show ?thesis by blast
qed

text \<open>
  Round trip through storage. Restoring a well-formed room from its fields and any
  duplicate-free listing of its members gives the same room back.
\<close>

theorem private_room_restore_roundtrip:
  assumes "room_ok r" and "distinct (map rm_principal ms)" and "set ms = ran (pr_members r)"
  shows "room_restore (pr_catalog_id r) (pr_owner r) (pr_status r) ms (pr_version r)
    (pr_created_by_agent r) = Inr r"
proof -
  have "map_of (map (\<lambda>m. (rm_principal m, m)) ms) = pr_members r"
    using assms room_ok_principal by (intro map_of_keyed) auto
  then show ?thesis
    using assms by (simp add: room_restore_Inr room_ok_def owner_ok_def)
qed

theorem private_room_restore_roundtrip_witness:
  "room_restore 9 1 RoomActive [\<lparr>rm_principal = 1, rm_status = Joined, rm_permissions = perm_all\<rparr>]
     version_initial None = Inr (room_create 9 1)"
  using private_room_restore_roundtrip
      [OF room_create_ok, of "[\<lparr>rm_principal = 1, rm_status = Joined, rm_permissions = perm_all\<rparr>]" 9 1]
  by (simp add: room_create_def)

end
