(* ===== verification/Texts.thy ===== *)
theory Texts
  imports Contracts
begin

text \<open>
  Rust strings as lists of Unicode code points, with the standard library's operations the
  source uses: the length in UTF-8 bytes, \<^verbatim>\<open>trim\<close>, \<^verbatim>\<open>is_control\<close>, \<^verbatim>\<open>is_whitespace\<close>, the
  ASCII classes, splitting and prefixes. State names that are only compared with ASCII
  constants stay Isabelle strings.
\<close>

type_synonym utext = "nat list"

definition lit :: "string \<Rightarrow> utext" where
  "lit s = map of_char s"

definition utf8_width :: "nat \<Rightarrow> nat" where
  "utf8_width c = (if c < 128 then 1 else if c < 2048 then 2 else if c < 65536 then 3 else 4)"

definition byte_len :: "utext \<Rightarrow> nat" where
  "byte_len s = sum_list (map utf8_width s)"

text \<open>The general category \<open>Cc\<close> and the property \<open>White_Space\<close> of the Unicode standard.\<close>

definition is_control :: "nat \<Rightarrow> bool" where
  "is_control c \<longleftrightarrow> c < 32 \<or> (127 \<le> c \<and> c < 160)"

definition is_whitespace :: "nat \<Rightarrow> bool" where
  "is_whitespace c \<longleftrightarrow> (9 \<le> c \<and> c \<le> 13) \<or> c = 32 \<or> c = 133 \<or> c = 160 \<or> c = 5760 \<or>
     (8192 \<le> c \<and> c \<le> 8202) \<or> c = 8232 \<or> c = 8233 \<or> c = 8239 \<or> c = 8287 \<or> c = 12288"

definition is_ascii_lower :: "nat \<Rightarrow> bool" where
  "is_ascii_lower c \<longleftrightarrow> 97 \<le> c \<and> c \<le> 122"

definition is_ascii_upper :: "nat \<Rightarrow> bool" where
  "is_ascii_upper c \<longleftrightarrow> 65 \<le> c \<and> c \<le> 90"

definition is_ascii_digit :: "nat \<Rightarrow> bool" where
  "is_ascii_digit c \<longleftrightarrow> 48 \<le> c \<and> c \<le> 57"

definition is_ascii_alphabetic :: "nat \<Rightarrow> bool" where
  "is_ascii_alphabetic c \<longleftrightarrow> is_ascii_lower c \<or> is_ascii_upper c"

definition is_ascii_alphanumeric :: "nat \<Rightarrow> bool" where
  "is_ascii_alphanumeric c \<longleftrightarrow> is_ascii_alphabetic c \<or> is_ascii_digit c"

definition ascii_lowercase :: "nat \<Rightarrow> nat" where
  "ascii_lowercase c = (if is_ascii_upper c then c + 32 else c)"

definition ascii_uppercase :: "nat \<Rightarrow> nat" where
  "ascii_uppercase c = (if is_ascii_lower c then c - 32 else c)"

lemmas ascii_classes = is_ascii_lower_def is_ascii_upper_def is_ascii_digit_def
  is_ascii_alphabetic_def is_ascii_alphanumeric_def

section \<open>Trimming and splitting\<close>

definition trim_start_by :: "(nat \<Rightarrow> bool) \<Rightarrow> utext \<Rightarrow> utext" where
  "trim_start_by p s = dropWhile p s"

definition trim_end_by :: "(nat \<Rightarrow> bool) \<Rightarrow> utext \<Rightarrow> utext" where
  "trim_end_by p s = rev (dropWhile p (rev s))"

definition trim_by :: "(nat \<Rightarrow> bool) \<Rightarrow> utext \<Rightarrow> utext" where
  "trim_by p s = trim_end_by p (trim_start_by p s)"

definition trim :: "utext \<Rightarrow> utext" where
  "trim s = trim_by is_whitespace s"

definition trim_end :: "utext \<Rightarrow> utext" where
  "trim_end s = trim_end_by is_whitespace s"

definition starts_with :: "utext \<Rightarrow> utext \<Rightarrow> bool" where
  "starts_with p s \<longleftrightarrow> take (length p) s = p"

definition ends_with :: "utext \<Rightarrow> utext \<Rightarrow> bool" where
  "ends_with p s \<longleftrightarrow> starts_with (rev p) (rev s)"

definition strip_prefix :: "utext \<Rightarrow> utext \<Rightarrow> utext option" where
  "strip_prefix p s = (if starts_with p s then Some (drop (length p) s) else None)"

definition strip_suffix :: "utext \<Rightarrow> utext \<Rightarrow> utext option" where
  "strip_suffix p s = (if ends_with p s then Some (take (length s - length p) s) else None)"

fun split_by :: "(nat \<Rightarrow> bool) \<Rightarrow> utext \<Rightarrow> utext list" where
  "split_by p [] = [[]]"
| "split_by p (c # s) =
     (if p c then [] # split_by p s
      else (case split_by p s of [] \<Rightarrow> [[c]] | piece # pieces \<Rightarrow> (c # piece) # pieces))"

fun split_once :: "utext \<Rightarrow> utext \<Rightarrow> (utext \<times> utext) option" where
  "split_once sep [] = (if sep = [] then Some ([], []) else None)"
| "split_once sep (c # s) =
     (if starts_with sep (c # s) then Some ([], drop (length sep) (c # s))
      else map_option (\<lambda>(a, b). (c # a, b)) (split_once sep s))"

definition rsplit_once :: "utext \<Rightarrow> utext \<Rightarrow> (utext \<times> utext) option" where
  "rsplit_once sep s =
     map_option (\<lambda>(a, b). (rev b, rev a)) (split_once (rev sep) (rev s))"

definition eq_ignore_ascii_case :: "utext \<Rightarrow> utext \<Rightarrow> bool" where
  "eq_ignore_ascii_case a b \<longleftrightarrow> map ascii_lowercase a = map ascii_lowercase b"

section \<open>Lemmas\<close>

lemma utf8_width_bounds: "1 \<le> utf8_width c" "utf8_width c \<le> 4"
  by (simp_all add: utf8_width_def)

lemma byte_len_bounds: "length s \<le> byte_len s" "byte_len s \<le> 4 * length s"
proof (induction s)
  case (Cons c s)
  {
    case 1
    then show ?case using Cons utf8_width_bounds [of c] by (simp add: byte_len_def)
  next
    case 2
    then show ?case using Cons utf8_width_bounds [of c] by (simp add: byte_len_def)
  }
qed (simp_all add: byte_len_def)

lemma byte_len_ascii: "\<forall>c\<in>set s. c < 128 \<Longrightarrow> byte_len s = length s"
  by (induction s) (simp_all add: byte_len_def utf8_width_def)

lemma byte_len_simps [simp]: "byte_len [] = 0" "byte_len (c # s) = utf8_width c + byte_len s"
  "byte_len (s @ t) = byte_len s + byte_len t"
  by (simp_all add: byte_len_def)

lemma dropWhile_idem [simp]: "dropWhile p (dropWhile p s) = dropWhile p s"
  by (induction s) auto

lemma trim_start_end_commute:
  "dropWhile p (rev (dropWhile p (rev s))) = rev (dropWhile p (rev (dropWhile p s)))"
proof (induction s)
  case (Cons c s)
  show ?case
  proof (cases "p c \<and> (\<forall>d\<in>set s. p d)")
    case True
    then have a: "dropWhile p (rev s @ [c]) = []" and b: "dropWhile p s = []"
      by (auto simp: dropWhile_eq_Nil_conv)
    from True show ?thesis by (simp add: a b)
  next
    case False
    then show ?thesis
      using Cons by (auto simp: dropWhile_append)
  qed
qed simp

lemma trim_by_idem [simp]: "trim_by p (trim_by p s) = trim_by p s"
  by (simp add: trim_by_def trim_start_by_def trim_end_by_def flip: trim_start_end_commute)

lemma trim_idem [simp]: "trim (trim s) = trim s"
  by (simp add: trim_def)

lemma set_trim: "set (trim s) \<subseteq> set s"
  by (auto simp: trim_def trim_by_def trim_start_by_def trim_end_by_def dest!: set_dropWhileD)

lemma length_trim: "length (trim s) \<le> length s"
  unfolding trim_def trim_by_def trim_start_by_def trim_end_by_def
  by (metis length_dropWhile_le length_rev order_trans)

lemma trim_nonblank: "trim s = [] \<longleftrightarrow> (\<forall>c\<in>set s. is_whitespace c)"
  by (auto simp: trim_def trim_by_def trim_start_by_def trim_end_by_def dropWhile_eq_Nil_conv
      dest: set_dropWhileD)
    (metis dropWhile_eq_Nil_conv hd_dropWhile list.set_sel(1))

lemma split_once_before:
  "sep \<noteq> [] \<Longrightarrow> hd sep \<notin> set d \<Longrightarrow> split_once sep (d @ sep @ r) = Some (d, r)"
proof (induction d)
  case Nil
  then show ?case by (cases sep) (auto simp: starts_with_def)
next
  case (Cons c d)
  then have "\<not> starts_with sep (c # d @ sep @ r)"
    by (cases sep) (auto simp: starts_with_def)
  with Cons show ?case by simp
qed

lemma split_once_concat: "split_once sep s = Some (a, b) \<Longrightarrow> s = a @ sep @ b"
proof (induction s arbitrary: a b)
  case (Cons c s)
  show ?case
  proof (cases "starts_with sep (c # s)")
    case True
    then have "c # s = take (length sep) (c # s) @ drop (length sep) (c # s)" by simp
    with True Cons.prems show ?thesis by (auto simp: starts_with_def)
  next
    case False
    with Cons show ?thesis by auto
  qed
qed (auto split: if_splits)

lemma rsplit_once_concat: "rsplit_once sep s = Some (a, b) \<Longrightarrow> s = a @ sep @ b"
  by (auto simp: rsplit_once_def dest!: split_once_concat)
    (metis append_assoc rev_append rev_rev_ident)

lemma rsplit_once_after:
  "sep \<noteq> [] \<Longrightarrow> last sep \<notin> set d \<Longrightarrow> rsplit_once sep (b @ sep @ d) = Some (b, d)"
  using split_once_before [of "rev sep" "rev d" "rev b"] by (simp add: rsplit_once_def hd_rev)

lemma trim_by_id: "\<forall>c\<in>set s. \<not> p c \<Longrightarrow> trim_by p s = s"
proof -
  assume *: "\<forall>c\<in>set s. \<not> p c"
  have d: "dropWhile p t = t" if "\<forall>c\<in>set t. \<not> p c" for t
    using that by (cases t) auto
  show ?thesis using * by (simp add: trim_by_def trim_start_by_def trim_end_by_def d)
qed

lemma trim_id: "\<forall>c\<in>set s. \<not> is_whitespace c \<Longrightarrow> trim s = s"
  by (simp add: trim_def trim_by_id)

section \<open>Parsers of normalised text\<close>

text \<open>
  A newtype over a string is a parser that trims or folds its input and accepts or rejects the
  result. The contract is that the accepted form is accepted as it is: parsing is a projection,
  so what is stored can be parsed again without change.
\<close>

locale normalizer =
  fixes parse :: "utext \<Rightarrow> utext result"
  assumes parse_accepted: "parse s = Inr t \<Longrightarrow> parse t = Inr t"
begin

lemma accepted_iff_fixed: "(\<exists>s. parse s = Inr t) \<longleftrightarrow> parse t = Inr t"
  using parse_accepted by blast

lemma parse_twice: "and_then (parse s) parse = parse s"
  by (cases "parse s") (auto dest: parse_accepted)

end

end
