(* ===== verification/Content.thy ===== *)
theory Content
  imports Texts Utc_Clock
begin

text \<open>
  Stored content (\<^verbatim>\<open>content.rs\<close>): validated metadata values and the life cycle of a content
  object, from upload over scanning and publication to its deletion.
\<close>

section \<open>Metadata values\<close>

text \<open>A digest is an array of 32 bytes.\<close>

type_synonym sha256_digest = "8 word list"

definition max_content_bytes :: int where
  "max_content_bytes = 25 * 1024 * 1024"

definition supported_media_types :: "utext list" where
  "supported_media_types =
     map lit [''application/json'', ''application/octet-stream'', ''application/pdf'', ''image/gif'',
       ''image/jpeg'', ''image/png'', ''image/webp'', ''text/markdown'', ''text/plain'']"

datatype content_byte_length = ContentByteLength (byte_length_value: int)

definition content_byte_length_new :: "int \<Rightarrow> content_byte_length result" where
  "content_byte_length_new v =
     (if v = 0 \<or> v > max_content_bytes
      then Inl (Validation ''content_byte_length'' ''must be 1 byte to 25 MiB'')
      else Inr (ContentByteLength v))"

text \<open>
  The source looks the name up by binary search in the sorted table; in a sorted table that
  finds an entry exactly when it is there.
\<close>

definition media_type_new :: "utext \<Rightarrow> utext result" where
  "media_type_new v =
     (if v \<notin> set supported_media_types
      then Inl (Validation ''content_media_type'' ''not in the whitelist'')
      else Inr v)"

definition storage_key_char :: "nat \<Rightarrow> bool" where
  "storage_key_char c \<longleftrightarrow> is_ascii_alphanumeric c \<or> c = 47 \<or> c = 45 \<or> c = 95 \<or> c = 46"

definition storage_key_new :: "utext \<Rightarrow> utext result" where
  "storage_key_new v =
     (if \<not> (16 \<le> byte_len v \<and> byte_len v \<le> 1024)
         \<or> starts_with (lit ''/'') v \<or> ends_with (lit ''/'') v
         \<or> list_ex (\<lambda>segment. segment = [] \<or> segment = lit ''..'') (split_by (\<lambda>c. c = 47) v)
         \<or> \<not> list_all storage_key_char v
      then Inl (Validation ''content_storage_key'' ''must be a safe relative object key'')
      else Inr v)"

datatype encryption_mode = ServerSide | ClientE2ee

definition encryption_mode_str :: "encryption_mode \<Rightarrow> string" where
  "encryption_mode_str m = (case m of ServerSide \<Rightarrow> ''server_side'' | ClientE2ee \<Rightarrow> ''client_e2ee'')"

definition encryption_mode_of_str :: "string \<Rightarrow> encryption_mode result" where
  "encryption_mode_of_str s =
     (if s = ''server_side'' then Inr ServerSide
      else if s = ''client_e2ee'' then Inr ClientE2ee
      else Inl (Validation ''content_encryption_mode'' ''unsupported mode''))"

datatype scan_state = ScanPending | ScanClean | ScanSuspicious | ScanRejected | ScanNotApplicable

definition scan_state_str :: "scan_state \<Rightarrow> string" where
  "scan_state_str st =
     (case st of
        ScanPending \<Rightarrow> ''pending''
      | ScanClean \<Rightarrow> ''clean''
      | ScanSuspicious \<Rightarrow> ''suspicious''
      | ScanRejected \<Rightarrow> ''rejected''
      | ScanNotApplicable \<Rightarrow> ''not_applicable'')"

definition scan_state_of_str :: "string \<Rightarrow> scan_state result" where
  "scan_state_of_str s =
     (if s = ''pending'' then Inr ScanPending
      else if s = ''clean'' then Inr ScanClean
      else if s = ''suspicious'' then Inr ScanSuspicious
      else if s = ''rejected'' then Inr ScanRejected
      else if s = ''not_applicable'' then Inr ScanNotApplicable
      else Inl (Validation ''content_scan_state'' ''unsupported state''))"

definition allows_read :: "scan_state \<Rightarrow> bool" where
  "allows_read st \<longleftrightarrow> st = ScanClean \<or> st = ScanNotApplicable"

datatype content_lifecycle = Uploading | ContentActive | Orphaned | Redacted | ContentExpired | Deleted

definition content_lifecycle_str :: "content_lifecycle \<Rightarrow> string" where
  "content_lifecycle_str st =
     (case st of
        Uploading \<Rightarrow> ''uploading''
      | ContentActive \<Rightarrow> ''active''
      | Orphaned \<Rightarrow> ''orphaned''
      | Redacted \<Rightarrow> ''redacted''
      | ContentExpired \<Rightarrow> ''expired''
      | Deleted \<Rightarrow> ''deleted'')"

definition content_lifecycle_of_str :: "string \<Rightarrow> content_lifecycle result" where
  "content_lifecycle_of_str s =
     (if s = ''uploading'' then Inr Uploading
      else if s = ''active'' then Inr ContentActive
      else if s = ''orphaned'' then Inr Orphaned
      else if s = ''redacted'' then Inr Redacted
      else if s = ''expired'' then Inr ContentExpired
      else if s = ''deleted'' then Inr Deleted
      else Inl (Validation ''content_lifecycle_state'' ''unsupported state''))"

interpretation encryption_codec: codec encryption_mode_str encryption_mode_of_str
  by unfold_locales
    (auto simp: encryption_mode_str_def encryption_mode_of_str_def split: encryption_mode.splits if_splits)

interpretation scan_codec: codec scan_state_str scan_state_of_str
  by unfold_locales
    (auto simp: scan_state_str_def scan_state_of_str_def split: scan_state.splits if_splits)

interpretation content_lifecycle_codec: codec content_lifecycle_str content_lifecycle_of_str
  by unfold_locales
    (auto simp: content_lifecycle_str_def content_lifecycle_of_str_def
      split: content_lifecycle.splits if_splits)

section \<open>Content objects\<close>

record content_object =
  co_id :: content_id
  co_owner :: principal_id
  co_storage_key :: utext
  co_digest :: sha256_digest
  co_byte_length :: content_byte_length
  co_media_type :: utext
  co_encryption :: encryption_mode
  co_scan :: scan_state
  co_lifecycle :: content_lifecycle
  co_expires_at :: "utc_millis option"
  co_retention_expires_at :: "utc_millis option"
  co_created_at :: utc_millis
  co_deleted_at :: "utc_millis option"

definition content_validate :: "content_object \<Rightarrow> unit result" where
  "content_validate f =
     (if (case co_expires_at f of None \<Rightarrow> False | Some t \<Rightarrow> t \<le> co_created_at f) then
        Inl (Validation ''content_expires_at'' ''must be after creation'')
      else if (case co_retention_expires_at f of None \<Rightarrow> False | Some t \<Rightarrow> t \<le> co_created_at f) then
        Inl (Validation ''content_retention_expires_at'' ''must be after creation'')
      else if co_encryption f = ClientE2ee \<and> co_scan f \<noteq> ScanNotApplicable then
        Inl (InvariantViolation ''content_object'' ''client ciphertext has no scan state'')
      else if co_lifecycle f = ContentActive \<and> \<not> allows_read (co_scan f) then
        Inl (InvariantViolation ''content_object'' ''active content must be scanned or client ciphertext'')
      else if co_lifecycle f = Deleted then
        (case co_deleted_at f of
           Some t \<Rightarrow>
             if t \<ge> co_created_at f then Inr ()
             else Inl (InvariantViolation ''content_object'' ''deleted needs a valid deletion time'')
         | None \<Rightarrow> Inl (InvariantViolation ''content_object'' ''deleted needs a valid deletion time''))
      else
        (case co_deleted_at f of
           None \<Rightarrow> Inr ()
         | Some _ \<Rightarrow> Inl (InvariantViolation ''content_object'' ''only deleted has a deletion time'')))"

definition content_restore :: "content_object \<Rightarrow> content_object result" where
  "content_restore f = and_then (content_validate f) (\<lambda>_. Inr f)"

definition content_begin_upload :: "content_object \<Rightarrow> content_object result" where
  "content_begin_upload f =
     content_restore (f\<lparr>co_lifecycle := Uploading, co_deleted_at := None\<rparr>)"

definition effective_expires_at :: "content_object \<Rightarrow> utc_millis option" where
  "effective_expires_at f =
     (case (co_expires_at f, co_retention_expires_at f) of
        (Some declared, Some retention) \<Rightarrow> Some (min declared retention)
      | (Some declared, None) \<Rightarrow> Some declared
      | (None, retention) \<Rightarrow> retention)"

definition lifecycle_transition ::
  "content_lifecycle \<Rightarrow> content_lifecycle list \<Rightarrow> content_object \<Rightarrow> (unit, content_object) update" where
  "lifecycle_transition target allowed f =
     (if co_lifecycle f \<notin> set allowed then
        (Inl (InvalidTransition ''content_object''
           (content_lifecycle_str (co_lifecycle f)) (content_lifecycle_str target)), f)
      else (Inr (), f\<lparr>co_lifecycle := target\<rparr>))"

definition content_record_scan :: "scan_state \<Rightarrow> content_object \<Rightarrow> (unit, content_object) update" where
  "content_record_scan outcome f =
     (if co_encryption f = ClientE2ee \<or> co_scan f \<noteq> ScanPending \<or> co_lifecycle f = Deleted
         \<or> outcome = ScanPending \<or> outcome = ScanNotApplicable then
        (Inl (InvalidTransition ''content_scan''
           (scan_state_str (co_scan f)) (scan_state_str outcome)), f)
      else (Inr (), f\<lparr>co_scan := outcome\<rparr>))"

definition content_activate :: "content_object \<Rightarrow> (unit, content_object) update" where
  "content_activate f =
     (if \<not> allows_read (co_scan f) then
        (Inl (InvariantViolation ''content_object'' ''only scanned or client ciphertext can be activated''), f)
      else lifecycle_transition ContentActive [Uploading, ContentActive] f)"

definition content_mark_orphaned :: "content_object \<Rightarrow> (unit, content_object) update" where
  "content_mark_orphaned f = lifecycle_transition Orphaned [Uploading, ContentActive, Orphaned] f"

definition content_redact :: "content_object \<Rightarrow> (unit, content_object) update" where
  "content_redact f =
     lifecycle_transition Redacted [Uploading, ContentActive, Orphaned, Redacted] f"

definition content_expire :: "utc_millis \<Rightarrow> content_object \<Rightarrow> (unit, content_object) update" where
  "content_expire now f =
     (case effective_expires_at f of
        None \<Rightarrow>
          (Inl (InvariantViolation ''content_object'' ''no expiry to reach''), f)
      | Some expires_at \<Rightarrow>
          if now < expires_at then
            (Inl (InvariantViolation ''content_object'' ''retention not reached''), f)
          else
            lifecycle_transition ContentExpired [Uploading, ContentActive, Orphaned, ContentExpired] f)"

definition content_mark_deleted :: "utc_millis \<Rightarrow> content_object \<Rightarrow> (unit, content_object) update" where
  "content_mark_deleted deleted_at f =
     (if co_lifecycle f = Deleted then (Inr (), f)
      else if deleted_at < co_created_at f then
        (Inl (Validation ''content_deleted_at'' ''before creation''), f)
      else
        (case lifecycle_transition Deleted [Orphaned, Redacted, ContentExpired] f of
           (Inl e, g) \<Rightarrow> (Inl e, g)
         | (Inr _, g) \<Rightarrow> (Inr (), g\<lparr>co_deleted_at := Some deleted_at\<rparr>)))"

definition is_readable_at :: "content_object \<Rightarrow> utc_millis \<Rightarrow> bool" where
  "is_readable_at f now \<longleftrightarrow>
     co_lifecycle f = ContentActive \<and> allows_read (co_scan f) \<and>
     (case effective_expires_at f of None \<Rightarrow> True | Some expires_at \<Rightarrow> now < expires_at)"

datatype content_command =
    RecordScan scan_state
  | Activate
  | MarkOrphaned
  | Redact
  | ExpireContent utc_millis
  | MarkDeleted utc_millis

fun content_step :: "content_command \<Rightarrow> content_object \<Rightarrow> (unit, content_object) update" where
  "content_step (RecordScan outcome) f = content_record_scan outcome f"
| "content_step Activate f = content_activate f"
| "content_step MarkOrphaned f = content_mark_orphaned f"
| "content_step Redact f = content_redact f"
| "content_step (ExpireContent now) f = content_expire now f"
| "content_step (MarkDeleted t) f = content_mark_deleted t f"

section \<open>Invariant and life cycle\<close>

definition content_ok :: "content_object \<Rightarrow> bool" where
  "content_ok f \<longleftrightarrow> is_ok (content_validate f)"

lemmas content_ops = lifecycle_transition_def content_record_scan_def content_activate_def
  content_mark_orphaned_def content_redact_def content_expire_def content_mark_deleted_def

lemma content_ok_iff:
  "content_ok f \<longleftrightarrow>
     (\<forall>t. co_expires_at f = Some t \<longrightarrow> co_created_at f < t) \<and>
     (\<forall>t. co_retention_expires_at f = Some t \<longrightarrow> co_created_at f < t) \<and>
     (co_encryption f = ClientE2ee \<longrightarrow> co_scan f = ScanNotApplicable) \<and>
     (co_lifecycle f = ContentActive \<longrightarrow> allows_read (co_scan f)) \<and>
     (if co_lifecycle f = Deleted then \<exists>t. co_deleted_at f = Some t \<and> co_created_at f \<le> t
      else co_deleted_at f = None)"
  by (auto simp: content_ok_def content_validate_def not_le split: option.split)

lemma content_step_error: "fst (content_step c f) = Inl e \<Longrightarrow> snd (content_step c f) = f"
  by (cases c) (auto simp: content_ops split: option.splits if_splits)

lemma content_step_ok: "content_ok f \<Longrightarrow> content_ok (snd (content_step c f))"
  by (cases c)
    (auto simp: content_ops content_ok_iff allows_read_def not_less split: option.splits if_splits)

interpretation content: guarded_machine content_step "\<lambda>_. True" content_ok
  by unfold_locales (rule content_step_ok)

text \<open>How far along its life a content object is.\<close>

fun lifecycle_rank :: "content_lifecycle \<Rightarrow> nat" where
  "lifecycle_rank Uploading = 0"
| "lifecycle_rank ContentActive = 1"
| "lifecycle_rank Orphaned = 2"
| "lifecycle_rank Redacted = 3"
| "lifecycle_rank ContentExpired = 3"
| "lifecycle_rank Deleted = 4"

lemma content_step_rank:
  "co_lifecycle (snd (content_step c f)) = co_lifecycle f \<or>
   lifecycle_rank (co_lifecycle f) < lifecycle_rank (co_lifecycle (snd (content_step c f)))"
  by (cases c) (auto simp: content_ops split: option.splits if_splits)

lemma replay_content_rank:
  "co_lifecycle (replay content_step cs f) = co_lifecycle f \<or>
   lifecycle_rank (co_lifecycle f) < lifecycle_rank (co_lifecycle (replay content_step cs f))"
proof (induction cs arbitrary: f)
  case (Cons c cs)
  show ?case
    using Cons [of "snd (content_step c f)"] content_step_rank [of c f] by auto
qed simp

lemma scan_failure_persists:
  "co_scan f = ScanSuspicious \<or> co_scan f = ScanRejected \<Longrightarrow> co_scan (snd (content_step c f)) = co_scan f"
  by (cases c) (auto simp: content_ops split: option.splits if_splits)

lemma replay_scan_failure:
  "co_scan f = ScanSuspicious \<or> co_scan f = ScanRejected \<Longrightarrow>
   co_scan (replay content_step cs f) = co_scan f"
proof (induction cs arbitrary: f)
  case (Cons c cs)
  with scan_failure_persists [OF Cons.prems, of c] Cons.IH [of "snd (content_step c f)"]
  show ?case by auto
qed simp

section \<open>Properties\<close>

text \<open>
  A content object accepted by \<^verbatim>\<open>restore\<close> or \<^verbatim>\<open>begin_upload\<close> satisfies the
  validation rules after any sequence of scan, activation, orphaning, redaction, expiry and
  deletion requests, so every state the code can reach can also be restored from storage.
\<close>

theorem content_states_restorable:
  assumes "content_restore f = Inr g \<or> content_begin_upload f = Inr g"
  shows "content_restore (replay content_step cs g) = Inr (replay content_step cs g)"
proof -
  from assms have "content_ok g"
    by (auto simp: content_restore_def content_begin_upload_def content_ok_def is_ok_iff result_simps)
  then have "content_ok (replay content_step cs g)"
    by (rule content.replay_wf [rotated]) (simp add: list_all_iff)
  then show ?thesis
    by (auto simp: content_ok_def is_ok_iff content_restore_def)
qed

definition sample_content :: content_object where
  "sample_content =
     \<lparr>co_id = 1, co_owner = 2, co_storage_key = lit ''objects/0123456789'', co_digest = replicate 32 0,
      co_byte_length = ContentByteLength 10, co_media_type = lit ''text/plain'',
      co_encryption = ServerSide, co_scan = ScanPending, co_lifecycle = Uploading,
      co_expires_at = Some (UtcMillis 100), co_retention_expires_at = None,
      co_created_at = UtcMillis 5, co_deleted_at = None\<rparr>"

theorem content_states_restorable_witness:
  "content_restore
     (replay content_step [RecordScan ScanClean, Activate, ExpireContent (UtcMillis 100), MarkDeleted (UtcMillis 101)]
        sample_content) =
   Inr (replay content_step [RecordScan ScanClean, Activate, ExpireContent (UtcMillis 100), MarkDeleted (UtcMillis 101)]
        sample_content)"
proof -
  have "content_restore sample_content = Inr sample_content"
    by (simp add: content_restore_def content_validate_def sample_content_def)
  then show ?thesis
    by (intro content_states_restorable [of sample_content] disjI1)
qed

text \<open>
  Content that was orphaned, redacted, expired or deleted, or that failed its scan, is
  never readable again, at no time and after no sequence of commands.
\<close>

theorem content_withdrawn_stays_unreadable:
  assumes "co_lifecycle f \<in> {Orphaned, Redacted, ContentExpired, Deleted} \<or>
    co_scan f \<in> {ScanSuspicious, ScanRejected}"
  shows "\<not> is_readable_at (replay content_step cs f) now"
  using assms replay_content_rank [of cs f] replay_scan_failure [of f cs]
  by (auto simp: is_readable_at_def allows_read_def)

theorem content_withdrawn_stays_unreadable_witness:
  "\<not> is_readable_at (replay content_step [RecordScan ScanClean, Activate]
      (sample_content\<lparr>co_lifecycle := Redacted\<rparr>)) (UtcMillis 6)"
  by (rule content_withdrawn_stays_unreadable) simp

end
