(* ===== verification/Messages.thy ===== *)
theory Messages
  imports Content
begin

text \<open>
  Message metadata (\<^verbatim>\<open>messages.rs\<close>): provenance, sensitivity and revision codes, the bounded
  texts of a preview, risk flags, chat text with mentions, and references to content that is
  opened only on demand.
\<close>

section \<open>Codes\<close>

datatype message_provenance = Human | HumanConfirmedAgent | AutonomousAgent

definition provenance_str :: "message_provenance \<Rightarrow> string" where
  "provenance_str p =
     (case p of
        Human \<Rightarrow> ''human''
      | HumanConfirmedAgent \<Rightarrow> ''human_confirmed_agent''
      | AutonomousAgent \<Rightarrow> ''autonomous_agent'')"

definition provenance_of_str :: "string \<Rightarrow> message_provenance result" where
  "provenance_of_str s =
     (if s = ''human'' then Inr Human
      else if s = ''human_confirmed_agent'' then Inr HumanConfirmedAgent
      else if s = ''autonomous_agent'' then Inr AutonomousAgent
      else Inl (Validation ''message_provenance'' ''unsupported provenance''))"

datatype message_sensitivity = Normal | Sensitive | Restricted

definition sensitivity_str :: "message_sensitivity \<Rightarrow> string" where
  "sensitivity_str x =
     (case x of Normal \<Rightarrow> ''normal'' | Sensitive \<Rightarrow> ''sensitive'' | Restricted \<Rightarrow> ''restricted'')"

definition sensitivity_of_str :: "string \<Rightarrow> message_sensitivity result" where
  "sensitivity_of_str s =
     (if s = ''normal'' then Inr Normal
      else if s = ''sensitive'' then Inr Sensitive
      else if s = ''restricted'' then Inr Restricted
      else Inl (Validation ''message_sensitivity'' ''unsupported sensitivity''))"

datatype revision_kind = Replace | RedactRevision | Moderate

definition revision_kind_str :: "revision_kind \<Rightarrow> string" where
  "revision_kind_str k =
     (case k of Replace \<Rightarrow> ''replace'' | RedactRevision \<Rightarrow> ''redact'' | Moderate \<Rightarrow> ''moderate'')"

definition revision_kind_of_str :: "string \<Rightarrow> revision_kind result" where
  "revision_kind_of_str s =
     (if s = ''replace'' then Inr Replace
      else if s = ''redact'' then Inr RedactRevision
      else if s = ''moderate'' then Inr Moderate
      else Inl (Validation ''message_revision_kind'' ''unsupported revision''))"

interpretation provenance_codec: codec provenance_str provenance_of_str
  by unfold_locales
    (auto simp: provenance_str_def provenance_of_str_def split: message_provenance.splits if_splits)

interpretation sensitivity_codec: codec sensitivity_str sensitivity_of_str
  by unfold_locales
    (auto simp: sensitivity_str_def sensitivity_of_str_def split: message_sensitivity.splits if_splits)

interpretation revision_codec: codec revision_kind_str revision_kind_of_str
  by unfold_locales
    (auto simp: revision_kind_str_def revision_kind_of_str_def split: revision_kind.splits if_splits)

section \<open>Bounded texts\<close>

definition max_title_characters :: nat where "max_title_characters = 120"
definition max_summary_characters :: nat where "max_summary_characters = 500"
definition max_language_length :: nat where "max_language_length = 35"
definition max_risk_flag_length :: nat where "max_risk_flag_length = 64"
definition max_risk_flags :: nat where "max_risk_flags = 16"
definition max_conversation_mentions :: nat where "max_conversation_mentions = 200"
definition max_conversation_mention_bytes :: nat where "max_conversation_mention_bytes = 12 * 1024"

definition validate_bounded_text :: "string \<Rightarrow> utext \<Rightarrow> nat \<Rightarrow> unit result" where
  "validate_bounded_text field value maximum =
     (if value = [] \<or> length value > maximum \<or> list_ex is_control value
      then Inl (Validation field ''empty, too long or has control characters'')
      else Inr ())"

definition message_title_new :: "utext \<Rightarrow> utext result" where
  "message_title_new v =
     and_then (validate_bounded_text ''message_title'' v max_title_characters) (\<lambda>_. Inr v)"

definition message_summary_new :: "utext \<Rightarrow> utext result" where
  "message_summary_new v =
     and_then (validate_bounded_text ''message_summary'' v max_summary_characters) (\<lambda>_. Inr v)"

definition language_part_is_valid :: "nat \<Rightarrow> utext \<Rightarrow> bool" where
  "language_part_is_valid index part \<longleftrightarrow>
     (if index = 0 then 2 \<le> byte_len part \<and> byte_len part \<le> 8
      else 1 \<le> byte_len part \<and> byte_len part \<le> 8) \<and>
     (if index = 0 then list_all is_ascii_alphabetic part
      else list_all is_ascii_alphanumeric part)"

definition message_language_new :: "utext \<Rightarrow> utext result" where
  "message_language_new v =
     (let valid = 2 \<le> byte_len v \<and> byte_len v \<le> max_language_length \<and>
        list_all (\<lambda>(index, part). language_part_is_valid index part)
          (enumerate 0 (split_by (\<lambda>c. c = 45) v))
      in if \<not> valid then Inl (Validation ''message_language'' ''not a supported language tag'')
         else Inr v)"

definition message_risk_flag_new :: "utext \<Rightarrow> utext result" where
  "message_risk_flag_new v =
     (let starts_with_letter = (case v of [] \<Rightarrow> False | c # _ \<Rightarrow> is_ascii_lower c);
          remainder_is_valid = list_all (\<lambda>c. is_ascii_lower c \<or> is_ascii_digit c \<or> c = 95) (drop 1 v)
      in if byte_len v > max_risk_flag_length \<or> \<not> starts_with_letter \<or> \<not> remainder_is_valid
         then Inl (Validation ''message_risk_flag'' ''must be a short lower snake case name'')
         else Inr v)"

definition message_risk_flags_new :: "utext list \<Rightarrow> utext set result" where
  "message_risk_flags_new flags =
     (if card (set flags) > max_risk_flags
      then Inl (Validation ''message_risk_flags'' ''at most 16 flags'')
      else Inr (set flags))"

section \<open>Chat text\<close>

record conversation_message =
  cm_text :: utext
  cm_mentions :: "utext list"
  cm_attachment_name :: "utext option"
  cm_mentions_everyone :: bool

definition mention_is_valid :: "utext \<Rightarrow> bool" where
  "mention_is_valid i \<longleftrightarrow>
     byte_len i \<le> 255 \<and> starts_with (lit ''@'') i \<and>
     \<not> list_ex is_whitespace i \<and> \<not> list_ex is_control i \<and>
     (case split_once (lit '':'') (drop 1 i) of
        None \<Rightarrow> False
      | Some (local_part, server) \<Rightarrow> local_part \<noteq> [] \<and> server \<noteq> [])"

definition conversation_new :: "utext \<Rightarrow> utext list \<Rightarrow> conversation_message result" where
  "conversation_new body mentions =
     (let valid_text = trim body \<noteq> [] \<and> length body \<le> 4000 \<and>
            \<not> list_ex (\<lambda>ch. is_control ch \<and> ch \<noteq> 10 \<and> ch \<noteq> 9) body;
          valid_mentions = length mentions \<le> max_conversation_mentions \<and>
            sum_list (map byte_len mentions) \<le> max_conversation_mention_bytes \<and>
            card (set mentions) = length mentions \<and> list_all mention_is_valid mentions
      in if \<not> valid_text \<or> \<not> valid_mentions
         then Inl (Validation ''conversation'' ''text or mentions out of bounds'')
         else Inr \<lparr>cm_text = body, cm_mentions = mentions, cm_attachment_name = None,
                   cm_mentions_everyone = False\<rparr>)"

definition with_mentions_everyone :: "bool \<Rightarrow> conversation_message \<Rightarrow> conversation_message" where
  "with_mentions_everyone everyone m = m\<lparr>cm_mentions_everyone := everyone\<rparr>"

definition attachment_name_is_bad :: "utext \<Rightarrow> bool" where
  "attachment_name_is_bad v \<longleftrightarrow>
     trim v = [] \<or> length v > 120 \<or> list_ex (\<lambda>ch. is_control ch \<or> ch = 47 \<or> ch = 92) v \<or>
     v = lit ''.'' \<or> v = lit ''..''"

definition with_attachment_name ::
  "utext option \<Rightarrow> conversation_message \<Rightarrow> conversation_message result" where
  "with_attachment_name name m =
     (if (case name of None \<Rightarrow> False | Some v \<Rightarrow> attachment_name_is_bad v)
      then Inl (Validation ''attachment_name'' ''invalid attachment name'')
      else Inr (m\<lparr>cm_attachment_name := name\<rparr>))"

record message_preview =
  mp_title :: utext
  mp_summary :: utext
  mp_content_type :: utext
  mp_language :: "utext option"
  mp_sensitivity :: message_sensitivity
  mp_risk_flags :: "utext set"
  mp_conversation :: "conversation_message option"

definition message_preview_new ::
  "utext \<Rightarrow> utext \<Rightarrow> utext \<Rightarrow> utext option \<Rightarrow> message_sensitivity \<Rightarrow> utext set \<Rightarrow> message_preview" where
  "message_preview_new title summary content_type language sensitivity risk_flags =
     \<lparr>mp_title = title, mp_summary = summary, mp_content_type = content_type, mp_language = language,
      mp_sensitivity = sensitivity, mp_risk_flags = risk_flags, mp_conversation = None\<rparr>"

definition with_conversation :: "conversation_message \<Rightarrow> message_preview \<Rightarrow> message_preview" where
  "with_conversation c p = p\<lparr>mp_conversation := Some c\<rparr>"

section \<open>Content references\<close>

datatype client_encryption_algorithm = Aes256GcmV1

definition client_algorithm_str :: "client_encryption_algorithm \<Rightarrow> string" where
  "client_algorithm_str a =
     (case a of Aes256GcmV1 \<Rightarrow> ''io.github.rainyflash.agentroom.content.aes-256-gcm.v1'')"

definition client_algorithm_of_str :: "string \<Rightarrow> client_encryption_algorithm result" where
  "client_algorithm_of_str s =
     (if s = ''io.github.rainyflash.agentroom.content.aes-256-gcm.v1'' then Inr Aes256GcmV1
      else Inl (Validation ''client_content_encryption_algorithm'' ''unsupported algorithm''))"

interpretation client_algorithm_codec: codec client_algorithm_str client_algorithm_of_str
  by unfold_locales
    (auto simp: client_algorithm_str_def client_algorithm_of_str_def
      split: client_encryption_algorithm.splits if_splits)

record client_content_encryption =
  ce_algorithm :: client_encryption_algorithm
  ce_context_id :: uuid
  ce_key :: "8 word list"
  ce_nonce :: "8 word list"
  ce_plaintext_size_bytes :: int

definition client_content_encryption_new ::
  "client_encryption_algorithm \<Rightarrow> uuid \<Rightarrow> 8 word list \<Rightarrow> 8 word list \<Rightarrow> int \<Rightarrow>
   client_content_encryption result" where
  "client_content_encryption_new algorithm context_id key nonce n_bytes =
     (if \<not> (1 \<le> n_bytes \<and> n_bytes \<le> 25 * 1024 * 1024)
      then Inl (Validation ''client_content_plaintext_size'' ''must be 1 byte to 25 MiB'')
      else Inr \<lparr>ce_algorithm = algorithm, ce_context_id = context_id, ce_key = key, ce_nonce = nonce,
                ce_plaintext_size_bytes = n_bytes\<rparr>)"

record message_content_reference =
  mc_content_id :: content_id
  mc_digest :: sha256_digest
  mc_size_bytes :: int
  mc_client_encryption :: "client_content_encryption option"

definition message_content_reference_new ::
  "content_id \<Rightarrow> sha256_digest \<Rightarrow> int \<Rightarrow> message_content_reference result" where
  "message_content_reference_new cid digest n_bytes =
     (if \<not> (1 \<le> n_bytes \<and> n_bytes \<le> 25 * 1024 * 1024)
      then Inl (Validation ''message_content_size'' ''must be 1 byte to 25 MiB'')
      else Inr \<lparr>mc_content_id = cid, mc_digest = digest, mc_size_bytes = n_bytes,
                mc_client_encryption = None\<rparr>)"

definition with_client_encryption ::
  "client_content_encryption \<Rightarrow> message_content_reference \<Rightarrow> message_content_reference" where
  "with_client_encryption e r = r\<lparr>mc_client_encryption := Some e\<rparr>"

datatype message_relation = ReplyTo message_id

section \<open>Bounds\<close>

lemma title_idem: "message_title_new s = Inr t \<Longrightarrow> message_title_new t = Inr t"
  by (auto simp: message_title_new_def result_simps)

interpretation title: normalizer message_title_new
  by unfold_locales (rule title_idem)

lemma mention_sum_bound:
  "list_all mention_is_valid ms \<Longrightarrow> sum_list (map byte_len ms) \<le> 255 * length ms"
  by (induction ms) (auto simp: mention_is_valid_def)

lemma conversation_new_Inr:
  "conversation_new body ms = Inr m \<Longrightarrow>
     cm_text m = body \<and> cm_mentions m = ms \<and> distinct ms \<and> length ms \<le> 200 \<and>
     sum_list (map byte_len ms) \<le> 12288 \<and> length body \<le> 4000 \<and> list_all mention_is_valid ms"
  by (auto simp: conversation_new_def Let_def max_conversation_mentions_def
      max_conversation_mention_bytes_def card_distinct split: if_splits)

section \<open>Properties\<close>

text \<open>
  Accepted chat text always fits its transport: whatever the input, an accepted message
  keeps text and mentions as given, mentions nobody twice, and its text and mentions together
  take at most 28288 bytes of UTF-8; each mention is a Matrix user id of at most 255 bytes with
  both parts present.
\<close>

theorem conversation_fits_transport:
  assumes "conversation_new body mentions = Inr m"
  shows "cm_text m = body \<and> cm_mentions m = mentions \<and> distinct mentions \<and>
    byte_len (cm_text m) + sum_list (map byte_len (cm_mentions m)) \<le> 28288 \<and>
    list_all (\<lambda>i. byte_len i \<le> 255 \<and> mention_is_valid i) mentions \<and> \<not> cm_mentions_everyone m"
proof -
  from conversation_new_Inr [OF assms] byte_len_bounds(2) [of body]
  have "byte_len body + sum_list (map byte_len mentions) \<le> 28288" by linarith
  moreover have "\<not> cm_mentions_everyone m"
    using assms by (auto simp: conversation_new_def Let_def split: if_splits)
  ultimately show ?thesis
    using conversation_new_Inr [OF assms] by (auto simp: list_all_iff mention_is_valid_def)
qed

theorem conversation_fits_transport_witness:
  "\<exists>m. conversation_new (lit ''hello'') [lit ''@a:b'', lit ''@c:d''] = Inr m \<and>
     byte_len (cm_text m) + sum_list (map byte_len (cm_mentions m)) \<le> 28288"
proof -
  obtain m where m: "conversation_new (lit ''hello'') [lit ''@a:b'', lit ''@c:d''] = Inr m"
    by (simp add: conversation_new_def lit_def trim_def trim_by_def trim_start_by_def trim_end_by_def
        is_whitespace_def is_control_def max_conversation_mentions_def max_conversation_mention_bytes_def
        mention_is_valid_def starts_with_def utf8_width_def)
  with conversation_fits_transport [OF m] show ?thesis by blast
qed

end
