(* ===== verification/Room_Catalog.thy ===== *)
theory Room_Catalog
  imports Texts
begin

text \<open>
  The room catalogue (first part of \<^verbatim>\<open>rooms.rs\<close>): kinds, visibilities and states with
  their names, the validated texts of an entry, and the entry itself with the constraints that
  depend on its kind.
\<close>

section \<open>Kinds, visibilities and states\<close>

datatype room_catalog_kind = PublicLobby | PrivateRoomKind | DirectKind

definition catalog_kind_str :: "room_catalog_kind \<Rightarrow> string" where
  "catalog_kind_str k =
     (case k of
        PublicLobby \<Rightarrow> ''public_lobby''
      | PrivateRoomKind \<Rightarrow> ''private_room''
      | DirectKind \<Rightarrow> ''direct'')"

definition catalog_kind_of_str :: "string \<Rightarrow> room_catalog_kind result" where
  "catalog_kind_of_str s =
     (if s = ''public_lobby'' then Inr PublicLobby
      else if s = ''private_room'' then Inr PrivateRoomKind
      else if s = ''direct'' then Inr DirectKind
      else Inl (Validation ''room_catalog_kind'' ''unsupported kind''))"

datatype room_catalog_visibility = PublicVisibility | Unlisted | PrivateVisibility

definition catalog_visibility_str :: "room_catalog_visibility \<Rightarrow> string" where
  "catalog_visibility_str v =
     (case v of
        PublicVisibility \<Rightarrow> ''public''
      | Unlisted \<Rightarrow> ''unlisted''
      | PrivateVisibility \<Rightarrow> ''private'')"

definition catalog_visibility_of_str :: "string \<Rightarrow> room_catalog_visibility result" where
  "catalog_visibility_of_str s =
     (if s = ''public'' then Inr PublicVisibility
      else if s = ''unlisted'' then Inr Unlisted
      else if s = ''private'' then Inr PrivateVisibility
      else Inl (Validation ''room_catalog_visibility'' ''unsupported visibility''))"

datatype room_catalog_status = CatalogActive | CatalogFrozen | CatalogArchived

definition catalog_status_str :: "room_catalog_status \<Rightarrow> string" where
  "catalog_status_str st =
     (case st of
        CatalogActive \<Rightarrow> ''active''
      | CatalogFrozen \<Rightarrow> ''frozen''
      | CatalogArchived \<Rightarrow> ''archived'')"

definition catalog_status_of_str :: "string \<Rightarrow> room_catalog_status result" where
  "catalog_status_of_str s =
     (if s = ''active'' then Inr CatalogActive
      else if s = ''frozen'' then Inr CatalogFrozen
      else if s = ''archived'' then Inr CatalogArchived
      else Inl (Validation ''room_catalog_status'' ''unsupported state''))"

interpretation catalog_kind_codec: codec catalog_kind_str catalog_kind_of_str
  by unfold_locales
    (auto simp: catalog_kind_str_def catalog_kind_of_str_def split: room_catalog_kind.splits if_splits)

interpretation catalog_visibility_codec: codec catalog_visibility_str catalog_visibility_of_str
  by unfold_locales
    (auto simp: catalog_visibility_str_def catalog_visibility_of_str_def
      split: room_catalog_visibility.splits if_splits)

interpretation catalog_status_codec: codec catalog_status_str catalog_status_of_str
  by unfold_locales
    (auto simp: catalog_status_str_def catalog_status_of_str_def
      split: room_catalog_status.splits if_splits)

section \<open>Validated texts\<close>

definition room_slug_new :: "utext \<Rightarrow> utext result" where
  "room_slug_new v =
     (case v of
        [] \<Rightarrow> Inl (Validation ''room_slug'' ''must not be empty'')
      | first # rest \<Rightarrow>
          if byte_len v > 63 \<or> \<not> is_ascii_lower first \<and> \<not> is_ascii_digit first \<or>
             \<not> list_all (\<lambda>c. is_ascii_lower c \<or> is_ascii_digit c \<or> c = 45) rest
          then Inl (Validation ''room_slug'' ''must be a URL-safe short name'')
          else Inr v)"

definition room_language_new :: "utext \<Rightarrow> utext result" where
  "room_language_new v =
     (case split_by (\<lambda>c. c = 45) v of
        [] \<Rightarrow> Inl (Validation ''room_language'' ''must not be empty'')
      | primary # segments \<Rightarrow>
          if \<not> (2 \<le> byte_len primary \<and> byte_len primary \<le> 8) \<or>
             \<not> list_all is_ascii_alphabetic primary \<or>
             \<not> list_all (\<lambda>segment. 1 \<le> byte_len segment \<and> byte_len segment \<le> 8 \<and>
                                    list_all is_ascii_alphanumeric segment) segments
          then Inl (Validation ''room_language'' ''not in the supported BCP 47 subset'')
          else Inr v)"

definition room_region_new :: "utext \<Rightarrow> utext result" where
  "room_region_new v =
     (if v = [] \<or> byte_len v > 64 \<or>
         \<not> list_all (\<lambda>c. is_ascii_lower c \<or> is_ascii_digit c \<or> c = 45 \<or> c = 95) v
      then Inl (Validation ''room_region'' ''must be a lower-case region hint of 1 to 64 bytes'')
      else Inr v)"

definition matrix_room_reference_new :: "utext \<Rightarrow> utext result" where
  "matrix_room_reference_new v =
     (if byte_len v < 4 \<or> byte_len v > 512 \<or> \<not> starts_with (lit ''!'') v \<or>
         58 \<notin> set (drop 1 v) \<or> list_ex is_control v
      then Inl (Validation ''matrix_room_reference'' ''not a Matrix room id'')
      else Inr v)"

definition validate_room_text :: "string \<Rightarrow> utext \<Rightarrow> nat \<Rightarrow> nat \<Rightarrow> bool \<Rightarrow> unit result" where
  "validate_room_text field v minimum maximum allow_line_breaks =
     (if \<not> (minimum \<le> length v \<and> length v \<le> maximum) \<or>
         list_ex (\<lambda>c. is_control c \<and> \<not> (allow_line_breaks \<and> c = 10)) v
      then Inl (Validation field ''length out of bounds or control characters'')
      else Inr ())"

section \<open>Catalogue entries\<close>

record room_catalog =
  rc_id :: room_catalog_id
  rc_kind :: room_catalog_kind
  rc_slug :: "utext option"
  rc_name :: utext
  rc_description :: utext
  rc_language :: "utext option"
  rc_matrix_space_id :: "utext option"
  rc_owner :: "principal_id option"
  rc_visibility :: room_catalog_visibility
  rc_retention_days :: "nat option"
  rc_status :: room_catalog_status

definition room_catalog_new :: "room_catalog \<Rightarrow> room_catalog result" where
  "room_catalog_new f =
     and_then (validate_room_text ''room_name'' (rc_name f) 1 128 False) (\<lambda>_.
     and_then (validate_room_text ''room_description'' (rc_description f) 0 2048 True) (\<lambda>_.
     if (case rc_retention_days f of None \<Rightarrow> False | Some days \<Rightarrow> days = 0 \<or> days > 3650) then
       Inl (Validation ''room_retention_days'' ''must be 1 to 3650 days'')
     else
       (case rc_kind f of
          PublicLobby \<Rightarrow>
            if rc_slug f = None \<or> rc_owner f \<noteq> None then
              Inl (InvariantViolation ''room_catalog'' ''a lobby has a slug and no owner'')
            else if rc_visibility f = PrivateVisibility then
              Inl (InvariantViolation ''room_catalog'' ''a lobby is not private'')
            else Inr f
        | PrivateRoomKind \<Rightarrow>
            if rc_owner f = None \<or> rc_visibility f = PublicVisibility then
              Inl (InvariantViolation ''room_catalog'' ''a private room has an owner and is not public'')
            else Inr f
        | DirectKind \<Rightarrow>
            if rc_slug f \<noteq> None \<or> rc_matrix_space_id f \<noteq> None \<or> rc_visibility f \<noteq> PrivateVisibility then
              Inl (InvariantViolation ''room_catalog'' ''a direct session is not in the directory'')
            else Inr f)))"

definition room_catalog_renamed :: "room_catalog \<Rightarrow> utext \<Rightarrow> room_catalog result" where
  "room_catalog_renamed c name = room_catalog_new (c\<lparr>rc_name := name\<rparr>)"

definition room_catalog_described :: "room_catalog \<Rightarrow> utext \<Rightarrow> room_catalog result" where
  "room_catalog_described c description = room_catalog_new (c\<lparr>rc_description := description\<rparr>)"

definition catalog_is_joinable :: "room_catalog \<Rightarrow> bool" where
  "catalog_is_joinable c \<longleftrightarrow> rc_status c = CatalogActive"

section \<open>Lemmas\<close>

lemma slug_idem: "room_slug_new s = Inr t \<Longrightarrow> room_slug_new t = Inr t"
  and language_idem: "room_language_new s = Inr t \<Longrightarrow> room_language_new t = Inr t"
  and region_idem: "room_region_new s = Inr t \<Longrightarrow> room_region_new t = Inr t"
  and matrix_reference_idem: "matrix_room_reference_new s = Inr t \<Longrightarrow> matrix_room_reference_new t = Inr t"
  by (auto simp: room_slug_new_def room_language_new_def room_region_new_def
      matrix_room_reference_new_def split: list.splits if_splits)

interpretation slug: normalizer room_slug_new
  by unfold_locales (rule slug_idem)

interpretation language: normalizer room_language_new
  by unfold_locales (rule language_idem)

interpretation region: normalizer room_region_new
  by unfold_locales (rule region_idem)

interpretation matrix_reference: normalizer matrix_room_reference_new
  by unfold_locales (rule matrix_reference_idem)

lemma validate_room_text_Inr [simp]:
  "validate_room_text field v lo hi nl = Inr u \<longleftrightarrow>
     lo \<le> length v \<and> length v \<le> hi \<and> (\<forall>c\<in>set v. is_control c \<longrightarrow> nl \<and> c = 10)"
  by (auto simp: validate_room_text_def list_ex_iff)

lemma room_catalog_new_Inr:
  "room_catalog_new f = Inr c \<longleftrightarrow> c = f \<and>
     1 \<le> length (rc_name f) \<and> length (rc_name f) \<le> 128 \<and> (\<forall>ch\<in>set (rc_name f). \<not> is_control ch) \<and>
     length (rc_description f) \<le> 2048 \<and> (\<forall>ch\<in>set (rc_description f). is_control ch \<longrightarrow> ch = 10) \<and>
     (\<forall>d. rc_retention_days f = Some d \<longrightarrow> 1 \<le> d \<and> d \<le> 3650) \<and>
     (rc_kind f = PublicLobby \<longrightarrow>
        rc_slug f \<noteq> None \<and> rc_owner f = None \<and> rc_visibility f \<noteq> PrivateVisibility) \<and>
     (rc_kind f = PrivateRoomKind \<longrightarrow> rc_owner f \<noteq> None \<and> rc_visibility f \<noteq> PublicVisibility) \<and>
     (rc_kind f = DirectKind \<longrightarrow>
        rc_slug f = None \<and> rc_matrix_space_id f = None \<and> rc_visibility f = PrivateVisibility)"
  by (auto simp: room_catalog_new_def result_simps split: room_catalog_kind.splits option.splits if_splits)

section \<open>Properties\<close>

text \<open>
  A listed entry is never someone's private place: whatever sequence of renaming and
  describing produced it, an accepted entry that is publicly visible is a lobby with a slug and
  without an owner, and an accepted direct session has neither slug nor space.
\<close>

theorem catalog_public_is_lobby:
  assumes "room_catalog_new f = Inr c"
    and "room_catalog_renamed c name = Inr d"
    and "room_catalog_described d description = Inr e"
  shows "(rc_visibility e = PublicVisibility \<longrightarrow> rc_kind e = PublicLobby \<and> rc_slug e \<noteq> None \<and> rc_owner e = None) \<and>
    (rc_kind e = DirectKind \<longrightarrow> rc_slug e = None \<and> rc_matrix_space_id e = None) \<and>
    e = f\<lparr>rc_name := name, rc_description := description\<rparr>"
  using assms
  by (cases "rc_kind e")
    (auto simp: room_catalog_renamed_def room_catalog_described_def room_catalog_new_Inr)

theorem catalog_public_is_lobby_witness:
  "\<exists>e. room_catalog_described \<lparr>rc_id = 1, rc_kind = PublicLobby, rc_slug = Some (lit ''main''), rc_name = lit ''Main'',
        rc_description = [], rc_language = None, rc_matrix_space_id = None, rc_owner = None,
        rc_visibility = PublicVisibility, rc_retention_days = Some 30, rc_status = CatalogActive\<rparr> (lit ''hi'') = Inr e \<and>
     rc_slug e \<noteq> None"
proof -
  let ?c = "\<lparr>rc_id = 1, rc_kind = PublicLobby, rc_slug = Some (lit ''main''), rc_name = lit ''Main'',
        rc_description = [], rc_language = None, rc_matrix_space_id = None, rc_owner = None,
        rc_visibility = PublicVisibility, rc_retention_days = Some 30, rc_status = CatalogActive\<rparr>"
  have *: "room_catalog_new ?c = Inr ?c" "room_catalog_renamed ?c (lit ''Main'') = Inr ?c"
    "\<exists>e. room_catalog_described ?c (lit ''hi'') = Inr e \<and> rc_visibility e = PublicVisibility"
    by (auto simp: room_catalog_new_Inr room_catalog_renamed_def room_catalog_described_def lit_def is_control_def)
  then show ?thesis
    using catalog_public_is_lobby [OF *(1,2)] by blast
qed

end
