(* ===== verification/Room_Allocation.thy ===== *)
theory Room_Allocation
  imports Room_Catalog Utc_Clock "HOL-Library.Product_Lexorder"
begin

text \<open>
  Room instances, their capacity and the choice of an instance for an arriving agent (second
  part of \<^verbatim>\<open>rooms.rs\<close>). The \<^verbatim>\<open>u16\<close> counters are 16-bit words.
\<close>

section \<open>Comparing and choosing\<close>

datatype ordering = Less | Equal | Greater

definition compare :: "'a::linorder \<Rightarrow> 'a \<Rightarrow> ordering" where
  "compare a b = (if a < b then Less else if a = b then Equal else Greater)"

definition then_with :: "ordering \<Rightarrow> ordering \<Rightarrow> ordering" where
  "then_with o1 o2 = (if o1 = Equal then o2 else o1)"

text \<open>\<^verbatim>\<open>Iterator::max_by\<close>: the last of the greatest elements.\<close>

fun max_by_from :: "('a \<Rightarrow> 'a \<Rightarrow> ordering) \<Rightarrow> 'a \<Rightarrow> 'a list \<Rightarrow> 'a" where
  "max_by_from cmp x [] = x"
| "max_by_from cmp x (y # ys) = max_by_from cmp (if cmp x y = Greater then x else y) ys"

definition max_by :: "('a \<Rightarrow> 'a \<Rightarrow> ordering) \<Rightarrow> 'a list \<Rightarrow> 'a option" where
  "max_by cmp xs = (case xs of [] \<Rightarrow> None | x # ys \<Rightarrow> Some (max_by_from cmp x ys))"

locale keyed_comparison =
  fixes cmp :: "'a \<Rightarrow> 'a \<Rightarrow> ordering"
    and key :: "'a \<Rightarrow> 'k::linorder"
  assumes cmp_key: "cmp a b = compare (key a) (key b)"
begin

lemma max_by_from_mem: "max_by_from cmp x ys \<in> insert x (set ys)"
  by (induction ys arbitrary: x) auto

lemma max_by_from_ge: "y \<in> insert x (set ys) \<Longrightarrow> key y \<le> key (max_by_from cmp x ys)"
proof (induction ys arbitrary: x y)
  case (Cons z zs)
  show ?case
  proof (cases "cmp x z = Greater")
    case True
    then have "key z \<le> key x" by (auto simp: cmp_key compare_def split: if_splits)
    then have "key z \<le> key (max_by_from cmp x zs)"
      using Cons.IH [of x x] by (metis insertI1 order_trans)
    then show ?thesis using True Cons by auto
  next
    case False
    then have "key x \<le> key z" by (auto simp: cmp_key compare_def split: if_splits)
    then have "key x \<le> key (max_by_from cmp z zs)"
      using Cons.IH [of z z] by (metis insertI1 order_trans)
    then show ?thesis using False Cons by auto
  qed
qed simp

lemma max_by_Some:
  "max_by cmp xs = Some x \<Longrightarrow> x \<in> set xs \<and> (\<forall>y\<in>set xs. key y \<le> key x)"
  by (cases xs) (use max_by_from_mem max_by_from_ge in \<open>fastforce simp: max_by_def\<close>)+

lemma max_by_None: "max_by cmp xs = None \<longleftrightarrow> xs = []"
  by (simp add: max_by_def split: list.split)

lemma max_by_key_unique:
  assumes "set xs = set ys" and "max_by cmp xs = Some x" and "max_by cmp ys = Some y"
  shows "key x = key y"
  using assms max_by_Some [of xs x] max_by_Some [of ys y] by (auto intro: order_antisym)

end

section \<open>Capacity and instances\<close>

record room_capacity =
  cap_soft :: "16 word"
  cap_hard :: "16 word"

definition room_capacity_new :: "16 word \<Rightarrow> 16 word \<Rightarrow> room_capacity result" where
  "room_capacity_new soft hard =
     (if soft = 0 \<or> hard \<le> soft \<or> hard > 1000
      then Inl (Validation ''room_capacity'' ''0 < soft < hard <= 1000'')
      else Inr \<lparr>cap_soft = soft, cap_hard = hard\<rparr>)"

definition room_capacity_standard :: room_capacity where
  "room_capacity_standard = \<lparr>cap_soft = 180, cap_hard = 250\<rparr>"

datatype room_instance_state =
  Provisioning | InstanceActive | Draining | InstanceArchived | InstanceFailed

definition instance_state_str :: "room_instance_state \<Rightarrow> string" where
  "instance_state_str st =
     (case st of
        Provisioning \<Rightarrow> ''provisioning''
      | InstanceActive \<Rightarrow> ''active''
      | Draining \<Rightarrow> ''draining''
      | InstanceArchived \<Rightarrow> ''archived''
      | InstanceFailed \<Rightarrow> ''failed'')"

definition state_accepts_allocations :: "room_instance_state \<Rightarrow> bool" where
  "state_accepts_allocations st \<longleftrightarrow> st = InstanceActive"

definition instance_state_of_str :: "string \<Rightarrow> room_instance_state result" where
  "instance_state_of_str s =
     (if s = ''provisioning'' then Inr Provisioning
      else if s = ''active'' then Inr InstanceActive
      else if s = ''draining'' then Inr Draining
      else if s = ''archived'' then Inr InstanceArchived
      else if s = ''failed'' then Inr InstanceFailed
      else Inl (Validation ''room_instance_state'' ''unsupported state''))"

interpretation instance_state_codec: codec instance_state_str instance_state_of_str
  by unfold_locales
    (auto simp: instance_state_str_def instance_state_of_str_def
      split: room_instance_state.splits if_splits)

record room_instance =
  ri_id :: room_instance_id
  ri_catalog_id :: room_catalog_id
  ri_matrix_room_id :: utext
  ri_region :: "utext option"
  ri_capacity :: room_capacity
  ri_allocated :: "16 word"
  ri_state :: room_instance_state

definition room_instance_restore :: "room_instance \<Rightarrow> room_instance result" where
  "room_instance_restore f =
     (if ri_allocated f > cap_hard (ri_capacity f)
      then Inl (CapacityExceeded (unat (cap_hard (ri_capacity f))))
      else Inr f)"

definition saturating_sub :: "16 word \<Rightarrow> 16 word \<Rightarrow> 16 word" where
  "saturating_sub a b = (if b \<le> a then a - b else 0)"

definition remaining_slots :: "room_instance \<Rightarrow> 16 word" where
  "remaining_slots i = saturating_sub (cap_hard (ri_capacity i)) (ri_allocated i)"

definition is_above_soft_capacity :: "room_instance \<Rightarrow> bool" where
  "is_above_soft_capacity i \<longleftrightarrow> ri_allocated i \<ge> cap_soft (ri_capacity i)"

definition accepts_allocations :: "room_instance \<Rightarrow> bool" where
  "accepts_allocations i \<longleftrightarrow> state_accepts_allocations (ri_state i) \<and> remaining_slots i > 0"

definition reserve_slot :: "room_instance \<Rightarrow> (16 word, room_instance) update" where
  "reserve_slot i =
     (if \<not> state_accepts_allocations (ri_state i) then
        (Inl (InvalidTransition ''room_instance'' (instance_state_str (ri_state i)) ''reserved''), i)
      else if ri_allocated i \<ge> cap_hard (ri_capacity i) then
        (Inl (CapacityExceeded (unat (cap_hard (ri_capacity i)))), i)
      else
        (let slots = ri_allocated i + 1 in (Inr slots, i\<lparr>ri_allocated := slots\<rparr>)))"

definition release_slot :: "room_instance \<Rightarrow> (16 word, room_instance) update" where
  "release_slot i =
     (if ri_allocated i = 0 then
        (Inl (InvariantViolation ''room_instance'' ''no slot to release''), i)
      else
        (let slots = ri_allocated i - 1 in (Inr slots, i\<lparr>ri_allocated := slots\<rparr>)))"

section \<open>Choosing an instance\<close>

datatype recovery_affinity = OtherRoom | PreviousRoom

datatype invitation_affinity = NoInvitation | ExplicitInvitation

datatype preference_match = Different | Matching

record allocation_affinity =
  af_recovery :: recovery_affinity
  af_friends :: "16 word"
  af_invitation :: invitation_affinity
  af_language :: preference_match
  af_region :: preference_match

definition keeps_social_context :: "allocation_affinity \<Rightarrow> bool" where
  "keeps_social_context a \<longleftrightarrow>
     af_recovery a = PreviousRoom \<or> af_friends a > 0 \<or> af_invitation a = ExplicitInvitation"

record allocation_candidate =
  ac_instance :: room_instance
  ac_affinity :: allocation_affinity

type_synonym ranking = "bool \<times> 16 word \<times> bool \<times> bool \<times> bool \<times> bool \<times> 16 word"

definition ranking_key :: "allocation_candidate \<Rightarrow> ranking" where
  "ranking_key c =
     (af_recovery (ac_affinity c) = PreviousRoom,
      af_friends (ac_affinity c),
      af_invitation (ac_affinity c) = ExplicitInvitation,
      af_language (ac_affinity c) = Matching,
      af_region (ac_affinity c) = Matching,
      \<not> is_above_soft_capacity (ac_instance c),
      ri_allocated (ac_instance c))"

datatype allocation_decision = Reserve room_instance_id | ProvisionNew

definition compare_candidates :: "allocation_candidate \<Rightarrow> allocation_candidate \<Rightarrow> ordering" where
  "compare_candidates l r =
     then_with (compare (ranking_key l) (ranking_key r))
       (compare (ri_id (ac_instance r)) (ri_id (ac_instance l)))"

definition choose_room_instance :: "allocation_candidate list \<Rightarrow> allocation_decision" where
  "choose_room_instance candidates =
     (case max_by compare_candidates
             (filter (\<lambda>c. accepts_allocations (ac_instance c)) candidates) of
        None \<Rightarrow> ProvisionNew
      | Some best \<Rightarrow>
          if is_above_soft_capacity (ac_instance best) \<and> \<not> keeps_social_context (ac_affinity best)
          then ProvisionNew
          else Reserve (ri_id (ac_instance best)))"

definition choose_manual_room_instance :: "allocation_candidate \<Rightarrow> allocation_decision result" where
  "choose_manual_room_instance c =
     (if \<not> state_accepts_allocations (ri_state (ac_instance c)) then
        Inl (InvalidTransition ''room_instance'' (instance_state_str (ri_state (ac_instance c))) ''reserved'')
      else if remaining_slots (ac_instance c) = 0 then
        Inl (CapacityExceeded (unat (cap_hard (ri_capacity (ac_instance c)))))
      else Inr (Reserve (ri_id (ac_instance c))))"

section \<open>Slots\<close>

datatype slot_command = ReserveSlot | ReleaseSlot

fun slot_step :: "slot_command \<Rightarrow> room_instance \<Rightarrow> (16 word, room_instance) update" where
  "slot_step ReserveSlot i = reserve_slot i"
| "slot_step ReleaseSlot i = release_slot i"

definition instance_ok :: "room_instance \<Rightarrow> bool" where
  "instance_ok i \<longleftrightarrow> is_ok (room_instance_restore i)"

lemma instance_ok_iff: "instance_ok i \<longleftrightarrow> ri_allocated i \<le> cap_hard (ri_capacity i)"
  by (auto simp: instance_ok_def room_instance_restore_def not_less)

lemma uint_inc: "(a::16 word) < b \<Longrightarrow> uint (a + 1) = uint a + 1"
  by uint_arith

lemma inc_below: "(a::16 word) < b \<Longrightarrow> a + 1 \<le> b"
  by uint_arith

lemma dec_below: "(a::16 word) \<noteq> 0 \<Longrightarrow> a \<le> b \<Longrightarrow> a - 1 \<le> b"
  by uint_arith

lemma uint_dec: "(a::16 word) \<noteq> 0 \<Longrightarrow> uint (a - 1) = uint a - 1"
  by uint_arith

lemma slot_step_ok: "instance_ok i \<Longrightarrow> instance_ok (snd (slot_step c i))"
  by (cases c)
    (auto simp: instance_ok_iff reserve_slot_def release_slot_def Let_def not_le inc_below dec_below)

interpretation slots: guarded_machine slot_step "\<lambda>_. True" instance_ok
  by unfold_locales (rule slot_step_ok)

lemma slot_step_count:
  "uint (ri_allocated (snd (slot_step c i))) =
     uint (ri_allocated i) +
     (if is_ok (fst (slot_step c i)) then (if c = ReserveSlot then 1 else -1) else 0)"
  by (cases c)
    (auto simp: reserve_slot_def release_slot_def Let_def not_le uint_inc uint_dec)

lemma slot_step_capacity [simp]: "ri_capacity (snd (slot_step c i)) = ri_capacity i"
  by (cases c) (auto simp: reserve_slot_def release_slot_def Let_def)

lemma replay_capacity [simp]: "ri_capacity (replay slot_step cs i) = ri_capacity i"
  by (induction cs arbitrary: i) simp_all

text \<open>The net number of slots that a list of commands took.\<close>

fun net_slots :: "slot_command list \<Rightarrow> room_instance \<Rightarrow> int" where
  "net_slots [] i = 0"
| "net_slots (c # cs) i =
     (if is_ok (fst (slot_step c i)) then (if c = ReserveSlot then 1 else -1) else 0) +
     net_slots cs (snd (slot_step c i))"

lemma replay_slot_count:
  "uint (ri_allocated (replay slot_step cs i)) = uint (ri_allocated i) + net_slots cs i"
  by (induction cs arbitrary: i) (simp_all add: slot_step_count)

section \<open>The choice\<close>

lemma compare_pair:
  "compare ((a::'a::linorder), (x::'b::linorder)) (b, y) = then_with (compare a b) (compare x y)"
  by (auto simp: compare_def then_with_def)

lemma compare_flip: "compare (- uint v) (- uint w) = compare w v"
  by (auto simp: compare_def word_less_def word_uint_eq_iff)

interpretation candidates: keyed_comparison compare_candidates
  "\<lambda>c. (ranking_key c, - uint (ri_id (ac_instance c)))"
  by unfold_locales (simp only: compare_candidates_def compare_pair compare_flip)

lemma remaining_pos: "remaining_slots i > 0 \<longleftrightarrow> ri_allocated i < cap_hard (ri_capacity i)"
  by (auto simp: remaining_slots_def saturating_sub_def word_gt_0 not_le)

lemma accepts_iff_reservable: "accepts_allocations i \<longleftrightarrow> is_ok (fst (reserve_slot i))"
  by (auto simp: accepts_allocations_def remaining_pos reserve_slot_def Let_def not_le)

lemma pair_le_iff: "((a::'a::linorder), (x::'b::linorder)) \<le> (b, y) \<longleftrightarrow> a < b \<or> a = b \<and> x \<le> y"
  by (auto simp: less_eq_prod_def)

lemma same_key_same_choice:
  "ranking_key c = ranking_key d \<Longrightarrow>
   is_above_soft_capacity (ac_instance c) = is_above_soft_capacity (ac_instance d) \<and>
   keeps_social_context (ac_affinity c) = keeps_social_context (ac_affinity d)"
  by (auto simp: ranking_key_def keeps_social_context_def)

lemma choose_Reserve:
  assumes "choose_room_instance cs = Reserve r"
  obtains b where "b \<in> set cs" "accepts_allocations (ac_instance b)" "ri_id (ac_instance b) = r"
    "is_above_soft_capacity (ac_instance b) \<longrightarrow> keeps_social_context (ac_affinity b)"
    "\<forall>c\<in>set cs. accepts_allocations (ac_instance c) \<longrightarrow>
       (ranking_key c, - uint (ri_id (ac_instance c))) \<le> (ranking_key b, - uint r)"
proof -
  from assms obtain b where m: "max_by compare_candidates
      (filter (\<lambda>c. accepts_allocations (ac_instance c)) cs) = Some b"
    and b: "ri_id (ac_instance b) = r"
      "is_above_soft_capacity (ac_instance b) \<longrightarrow> keeps_social_context (ac_affinity b)"
    by (auto simp: choose_room_instance_def split: option.splits if_splits)
  from candidates.max_by_Some [OF m] b show ?thesis
    by (intro that [of b]) auto
qed
section \<open>Properties\<close>

text \<open>
  A room never overflows and its counter never wraps: after any interleaving of slot
  reservations and releases the allocated slots stay within the hard capacity, and their number
  is the starting number plus the successful reservations minus the successful releases.
\<close>

theorem slots_within_capacity:
  assumes "room_instance_restore f = Inr i"
  shows "ri_allocated (replay slot_step cs i) \<le> cap_hard (ri_capacity f) \<and>
    uint (ri_allocated (replay slot_step cs i)) = uint (ri_allocated f) + net_slots cs f"
proof -
  have [simp]: "f = i" and ok: "instance_ok i"
    using assms by (auto simp: room_instance_restore_def instance_ok_def split: if_splits)
  have "instance_ok (replay slot_step cs i)"
    using ok by (rule slots.replay_wf [rotated]) (simp add: list_all_iff)
  then show ?thesis
    by (simp add: instance_ok_iff replay_slot_count)
qed

definition sample_instance :: "128 word \<Rightarrow> 16 word \<Rightarrow> room_instance" where
  "sample_instance i slots =
     \<lparr>ri_id = i, ri_catalog_id = 7, ri_matrix_room_id = lit ''!a:b'', ri_region = None,
      ri_capacity = \<lparr>cap_soft = 2, cap_hard = 3\<rparr>, ri_allocated = slots, ri_state = InstanceActive\<rparr>"

definition sample_candidate :: "128 word \<Rightarrow> 16 word \<Rightarrow> 16 word \<Rightarrow> allocation_candidate" where
  "sample_candidate i slots friends =
     \<lparr>ac_instance = sample_instance i slots,
      ac_affinity = \<lparr>af_recovery = OtherRoom, af_friends = friends, af_invitation = NoInvitation,
                     af_language = Different, af_region = Different\<rparr>\<rparr>"

theorem slots_within_capacity_witness:
  "ri_allocated (replay slot_step [ReserveSlot, ReserveSlot, ReserveSlot, ReserveSlot, ReleaseSlot] (sample_instance 1 1)) \<le> 3"
  using slots_within_capacity [of "sample_instance 1 1" "sample_instance 1 1"
    "[ReserveSlot, ReserveSlot, ReserveSlot, ReserveSlot, ReleaseSlot]"]
  by (simp add: room_instance_restore_def sample_instance_def)

text \<open>
  C27: The instance picked for an arriving agent is one of the candidates, can take one more
  agent (reserving its slot succeeds), is at or above its soft capacity only to keep a social
  context, and no available candidate ranks higher; among equally ranked ones it has the smallest
  identifier.
\<close>

theorem chosen_room_is_best:
  assumes "choose_room_instance cs = Reserve r"
  shows "\<exists>b\<in>set cs. ri_id (ac_instance b) = r \<and> is_ok (fst (reserve_slot (ac_instance b))) \<and>
    (is_above_soft_capacity (ac_instance b) \<longrightarrow> keeps_social_context (ac_affinity b)) \<and>
    (\<forall>c\<in>set cs. accepts_allocations (ac_instance c) \<longrightarrow>
       ranking_key c < ranking_key b \<or>
       ranking_key c = ranking_key b \<and> r \<le> ri_id (ac_instance c))"
proof -
  from choose_Reserve [OF assms] obtain b where b: "b \<in> set cs" "accepts_allocations (ac_instance b)"
    "ri_id (ac_instance b) = r"
    "is_above_soft_capacity (ac_instance b) \<longrightarrow> keeps_social_context (ac_affinity b)"
    "\<forall>c\<in>set cs. accepts_allocations (ac_instance c) \<longrightarrow>
       (ranking_key c, - uint (ri_id (ac_instance c))) \<le> (ranking_key b, - uint r)" .
  have "ranking_key c < ranking_key b \<or> ranking_key c = ranking_key b \<and> r \<le> ri_id (ac_instance c)"
    if "c \<in> set cs" "accepts_allocations (ac_instance c)" for c
    using b(5) that by (auto simp: pair_le_iff word_le_def simp del: less_eq_prod_simp)
  with b show ?thesis
    by (intro bexI [of _ b]) (simp_all add: accepts_iff_reservable)
qed

theorem chosen_room_is_best_witness:
  "\<exists>b\<in>set [sample_candidate 5 0 0, sample_candidate 4 0 0, sample_candidate 3 2 0].
     ri_id (ac_instance b) = 4 \<and> is_ok (fst (reserve_slot (ac_instance b)))"
proof -
  have "choose_room_instance [sample_candidate 5 0 0, sample_candidate 4 0 0, sample_candidate 3 2 0] = Reserve 4"
    by (simp add: choose_room_instance_def max_by_def accepts_allocations_def remaining_pos
        state_accepts_allocations_def compare_candidates_def then_with_def compare_def ranking_key_def
        is_above_soft_capacity_def keeps_social_context_def sample_candidate_def sample_instance_def)
  from chosen_room_is_best [OF this] show ?thesis by blast
qed

text \<open>
  The choice depends only on which candidates there are: two lists with the same candidates,
  in whatever order and repetition the store returns them, give the same decision.
\<close>

theorem choice_order_independent:
  assumes "set cs = set ds"
  shows "choose_room_instance cs = choose_room_instance ds"
proof -
  let ?f = "filter (\<lambda>c. accepts_allocations (ac_instance c))"
  have s: "set (?f cs) = set (?f ds)" using assms by auto
  then have n: "?f cs = [] \<longleftrightarrow> ?f ds = []" by (metis set_empty)
  show ?thesis
  proof (cases "max_by compare_candidates (?f cs)")
    case None
    then have "max_by compare_candidates (?f ds) = None"
      using n by (simp only: candidates.max_by_None)
    with None show ?thesis by (simp add: choose_room_instance_def)
  next
    case (Some x)
    then obtain y where y: "max_by compare_candidates (?f ds) = Some y"
      using n candidates.max_by_None by (metis not_None_eq)
    have "ranking_key x = ranking_key y \<and> ri_id (ac_instance x) = ri_id (ac_instance y)"
      using candidates.max_by_key_unique [OF s Some y] by (simp add: word_uint_eq_iff)
    then show ?thesis
      using Some y same_key_same_choice [of x y] by (simp add: choose_room_instance_def)
  qed
qed

theorem choice_order_independent_witness:
  "choose_room_instance [sample_candidate 1 1 0, sample_candidate 2 2 1] =
   choose_room_instance [sample_candidate 2 2 1, sample_candidate 1 1 0, sample_candidate 2 2 1]"
  by (rule choice_order_independent) auto

text \<open>
  A new shard is opened only when it has to be: the choice is to provision a new instance
  exactly when no candidate is available, or a best available candidate is at its soft capacity
  and keeps no social context.
\<close>

theorem provision_only_when_needed:
  "choose_room_instance cs = ProvisionNew \<longleftrightarrow>
     (\<forall>c\<in>set cs. \<not> accepts_allocations (ac_instance c)) \<or>
     (\<exists>b\<in>set cs. accepts_allocations (ac_instance b) \<and> is_above_soft_capacity (ac_instance b) \<and>
        \<not> keeps_social_context (ac_affinity b) \<and>
        (\<forall>c\<in>set cs. accepts_allocations (ac_instance c) \<longrightarrow> ranking_key c \<le> ranking_key b))"
  (is "?l \<longleftrightarrow> ?none \<or> ?full")
proof (cases "choose_room_instance cs")
  case (Reserve r)
  then obtain b where b: "b \<in> set cs" "accepts_allocations (ac_instance b)"
    "is_above_soft_capacity (ac_instance b) \<longrightarrow> keeps_social_context (ac_affinity b)"
    "\<forall>c\<in>set cs. accepts_allocations (ac_instance c) \<longrightarrow>
       (ranking_key c, - uint (ri_id (ac_instance c))) \<le> (ranking_key b, - uint r)"
    by (rule choose_Reserve)
  then have "\<forall>c\<in>set cs. accepts_allocations (ac_instance c) \<longrightarrow> ranking_key c \<le> ranking_key b"
    by (auto simp: pair_le_iff less_imp_le simp del: less_eq_prod_simp)
  then have le: "ranking_key c \<le> ranking_key b"
    if "c \<in> set cs" "accepts_allocations (ac_instance c)" for c using that by blast
  have "\<not> ?full"
  proof
    assume ?full
    then obtain d where d: "d \<in> set cs" "accepts_allocations (ac_instance d)"
      "is_above_soft_capacity (ac_instance d)" "\<not> keeps_social_context (ac_affinity d)"
      "ranking_key b \<le> ranking_key d"
      using b(1,2) by blast
    have "ranking_key b = ranking_key d"
      using le [OF d(1,2)] d(5) by (rule order_antisym [rotated])
    then show False using same_key_same_choice b(3) d(3,4) by blast
  qed
  moreover have "\<not> ?none" using b(1,2) by blast
  ultimately show ?thesis using Reserve by simp
next
  case ProvisionNew
  have ?full if "\<not> ?none"
  proof -
    let ?f = "filter (\<lambda>c. accepts_allocations (ac_instance c)) cs"
    from that have "?f \<noteq> []" by (auto simp: filter_empty_conv)
    then obtain b where m: "max_by compare_candidates ?f = Some b"
      using candidates.max_by_None by blast
    moreover have "is_above_soft_capacity (ac_instance b) \<and> \<not> keeps_social_context (ac_affinity b)"
      using ProvisionNew m by (auto simp: choose_room_instance_def split: if_splits)
    ultimately show ?full
      using candidates.max_by_Some [OF m] by (intro bexI [of _ b]) (auto simp: pair_le_iff less_imp_le simp del: less_eq_prod_simp)
  qed
  with ProvisionNew show ?thesis by blast
qed

theorem provision_only_when_needed_witness:
  "choose_room_instance [sample_candidate 1 2 0] = ProvisionNew"
  by (rule provision_only_when_needed [THEN iffD2])
    (simp add: sample_candidate_def sample_instance_def accepts_allocations_def remaining_pos
      state_accepts_allocations_def is_above_soft_capacity_def keeps_social_context_def)

end
