(* ===== verification/Room_Reservations.thy ===== *)
theory Room_Reservations
  imports Room_Allocation
begin

text \<open>
  Capacity reservations (third part of \<^verbatim>\<open>rooms.rs\<close>): a short lease on a slot that is
  committed once Matrix confirms the join, released, or reclaimed when it expires.
\<close>

datatype reservation_state = Reserved | Committed | Released | ReservationExpired

definition reservation_state_str :: "reservation_state \<Rightarrow> string" where
  "reservation_state_str st =
     (case st of
        Reserved \<Rightarrow> ''reserved''
      | Committed \<Rightarrow> ''committed''
      | Released \<Rightarrow> ''released''
      | ReservationExpired \<Rightarrow> ''expired'')"

definition reservation_state_of_str :: "string \<Rightarrow> reservation_state result" where
  "reservation_state_of_str s =
     (if s = ''reserved'' then Inr Reserved
      else if s = ''committed'' then Inr Committed
      else if s = ''released'' then Inr Released
      else if s = ''expired'' then Inr ReservationExpired
      else Inl (Validation ''room_reservation_state'' ''unsupported state''))"

interpretation reservation_state_codec: codec reservation_state_str reservation_state_of_str
  by unfold_locales
    (auto simp: reservation_state_str_def reservation_state_of_str_def
      split: reservation_state.splits if_splits)

record room_reservation =
  rr_id :: room_reservation_id
  rr_catalog_id :: room_catalog_id
  rr_room_instance_id :: room_instance_id
  rr_agent_instance_id :: agent_instance_id
  rr_reserved_at :: utc_millis
  rr_expires_at :: utc_millis
  rr_state :: reservation_state
  rr_finalized_at :: "utc_millis option"

definition reservation_reserve ::
  "room_reservation_id \<Rightarrow> room_catalog_id \<Rightarrow> room_instance_id \<Rightarrow> agent_instance_id \<Rightarrow>
   utc_millis \<Rightarrow> utc_millis \<Rightarrow> room_reservation result" where
  "reservation_reserve i catalog inst agent reserved_at expires_at =
     (if expires_at \<le> reserved_at
      then Inl (Validation ''room_reservation_expires_at'' ''must be after the reservation'')
      else Inr \<lparr>rr_id = i, rr_catalog_id = catalog, rr_room_instance_id = inst,
                rr_agent_instance_id = agent, rr_reserved_at = reserved_at, rr_expires_at = expires_at,
                rr_state = Reserved, rr_finalized_at = None\<rparr>)"

definition reservation_restore :: "room_reservation \<Rightarrow> room_reservation result" where
  "reservation_restore f =
     and_then (reservation_reserve (rr_id f) (rr_catalog_id f) (rr_room_instance_id f)
                 (rr_agent_instance_id f) (rr_reserved_at f) (rr_expires_at f)) (\<lambda>r.
     let expects_finalized = (rr_state f \<noteq> Reserved)
     in if expects_finalized \<noteq> (rr_finalized_at f \<noteq> None) \<or>
           (case rr_finalized_at f of None \<Rightarrow> False | Some t \<Rightarrow> t < rr_reserved_at f)
        then Inl (InvariantViolation ''room_reservation'' ''state and finalisation time disagree'')
        else Inr (r\<lparr>rr_state := rr_state f, rr_finalized_at := rr_finalized_at f\<rparr>))"

definition reservation_commit :: "utc_millis \<Rightarrow> room_reservation \<Rightarrow> (bool, room_reservation) update" where
  "reservation_commit now r =
     (if rr_state r = Reserved \<and> now < rr_expires_at r \<and> now \<ge> rr_reserved_at r then
        (Inr True, r\<lparr>rr_state := Committed, rr_finalized_at := Some now\<rparr>)
      else if rr_state r = Committed then (Inr False, r)
      else if rr_state r = Reserved then
        (Inl (InvalidTransition ''room_reservation'' ''reserved'' ''committed_after_expiry''), r)
      else
        (Inl (InvalidTransition ''room_reservation'' (reservation_state_str (rr_state r)) ''committed''), r))"

definition reservation_release :: "utc_millis \<Rightarrow> room_reservation \<Rightarrow> (bool, room_reservation) update" where
  "reservation_release now r =
     (if now < rr_reserved_at r then
        (Inl (Validation ''room_reservation_released_at'' ''before the reservation''), r)
      else if rr_state r = Reserved \<or> rr_state r = Committed then
        (Inr True, r\<lparr>rr_state := Released, rr_finalized_at := Some now\<rparr>)
      else (Inr False, r))"

definition reservation_expire :: "utc_millis \<Rightarrow> room_reservation \<Rightarrow> (bool, room_reservation) update" where
  "reservation_expire now r =
     (if rr_state r = Reserved \<and> now \<ge> rr_expires_at r then
        (Inr True, r\<lparr>rr_state := ReservationExpired, rr_finalized_at := Some now\<rparr>)
      else if rr_state r = Reserved then
        (Inl (InvalidTransition ''room_reservation'' ''reserved'' ''expired_before_deadline''), r)
      else (Inr False, r))"

datatype reservation_command =
  CommitReservation utc_millis | ReleaseReservation utc_millis | ExpireReservation utc_millis

fun reservation_step ::
  "reservation_command \<Rightarrow> room_reservation \<Rightarrow> (bool, room_reservation) update" where
  "reservation_step (CommitReservation now) r = reservation_commit now r"
| "reservation_step (ReleaseReservation now) r = reservation_release now r"
| "reservation_step (ExpireReservation now) r = reservation_expire now r"

section \<open>Invariant and counted effects\<close>

lemmas reservation_ops = reservation_commit_def reservation_release_def reservation_expire_def

definition reservation_ok :: "room_reservation \<Rightarrow> bool" where
  "reservation_ok r \<longleftrightarrow> reservation_restore r = Inr r"

lemma reservation_restore_Inr:
  "reservation_restore f = Inr r \<longleftrightarrow> r = f \<and> rr_reserved_at f < rr_expires_at f \<and>
     (rr_state f \<noteq> Reserved \<longleftrightarrow> rr_finalized_at f \<noteq> None) \<and>
     (\<forall>t. rr_finalized_at f = Some t \<longrightarrow> rr_reserved_at f \<le> t)"
  by (auto simp: reservation_restore_def reservation_reserve_def Let_def result_simps not_le not_less
      split: option.splits if_splits)

lemmas reservation_ok_iff = reservation_ok_def reservation_restore_Inr

lemma reserve_ok: "reservation_reserve i c n a t e = Inr r \<Longrightarrow> reservation_ok r"
  by (auto simp: reservation_ok_iff reservation_reserve_def not_le split: if_splits)

lemma reservation_step_ok: "reservation_ok r \<Longrightarrow> reservation_ok (snd (reservation_step c r))"
  by (cases c) (auto simp: reservation_ops reservation_ok_iff not_less)

text \<open>How many effective commands a reservation can still take.\<close>

fun changes_left :: "reservation_state \<Rightarrow> nat" where
  "changes_left Reserved = 2"
| "changes_left Committed = 1"
| "changes_left Released = 0"
| "changes_left ReservationExpired = 0"

lemma reservation_step_inert: "inert_unless_effective (reservation_step c r) r"
  by (cases c) (auto simp: reservation_ops)

lemma reservation_step_progress:
  "fst (reservation_step c r) = Inr True \<Longrightarrow>
     changes_left (rr_state (snd (reservation_step c r))) < changes_left (rr_state r)"
  by (cases c) (auto simp: reservation_ops split: if_splits)

interpretation reservation: guarded_machine reservation_step "\<lambda>_. True" reservation_ok
  by unfold_locales (rule reservation_step_ok)

lemma replay_progress:
  "count_list (replay_results reservation_step cs r) (Inr True) +
     changes_left (rr_state (replay reservation_step cs r)) \<le> changes_left (rr_state r)"
proof (induction cs arbitrary: r)
  case (Cons c cs)
  show ?case
    using Cons [of "snd (reservation_step c r)"] reservation_step_progress [of c r]
      reservation_step_inert [of c r]
    by (auto simp: inert_unless_effective_def)
qed simp

definition releases_slot :: "reservation_command \<Rightarrow> room_reservation \<Rightarrow> bool" where
  "releases_slot c r \<longleftrightarrow>
     fst (reservation_step c r) = Inr True \<and> (case c of CommitReservation _ \<Rightarrow> False | _ \<Rightarrow> True)"

fun slot_releases :: "reservation_command list \<Rightarrow> room_reservation \<Rightarrow> nat" where
  "slot_releases [] r = 0"
| "slot_releases (c # cs) r =
     (if releases_slot c r then 1 else 0) + slot_releases cs (snd (reservation_step c r))"

definition holds_slot :: "room_reservation \<Rightarrow> bool" where
  "holds_slot r \<longleftrightarrow> rr_state r = Reserved \<or> rr_state r = Committed"

lemma releases_slot_iff:
  "releases_slot c r \<longleftrightarrow> holds_slot r \<and> \<not> holds_slot (snd (reservation_step c r))"
  by (cases c) (auto simp: releases_slot_def holds_slot_def reservation_ops)

lemma slot_stays_free: "\<not> holds_slot r \<Longrightarrow> \<not> holds_slot (snd (reservation_step c r))"
  by (cases c) (auto simp: holds_slot_def reservation_ops)

lemma slot_releases_eq:
  "slot_releases cs r + (if holds_slot (replay reservation_step cs r) then 1 else 0) =
     (if holds_slot r then 1 else 0)"
proof (induction cs arbitrary: r)
  case (Cons c cs)
  show ?case
    using Cons [of "snd (reservation_step c r)"] slot_stays_free [of r c]
    by (auto simp: releases_slot_iff)
qed simp

definition in_lease :: "room_reservation \<Rightarrow> bool" where
  "in_lease r \<longleftrightarrow>
     (case rr_finalized_at r of None \<Rightarrow> False | Some t \<Rightarrow> rr_reserved_at r \<le> t \<and> t < rr_expires_at r)"

lemma commit_in_lease_step:
  "(rr_state r = Committed \<Longrightarrow> in_lease r) \<Longrightarrow> rr_state (snd (reservation_step c r)) = Committed \<Longrightarrow>
     in_lease (snd (reservation_step c r))"
  by (cases c) (auto simp: reservation_ops in_lease_def split: if_splits option.splits)

lemma replay_in_lease:
  "(rr_state r = Committed \<Longrightarrow> in_lease r) \<Longrightarrow> rr_state (replay reservation_step cs r) = Committed \<Longrightarrow>
     in_lease (replay reservation_step cs r)"
proof (induction cs arbitrary: r)
  case (Cons c cs)
  show ?case
    using Cons.IH [of "snd (reservation_step c r)"] commit_in_lease_step [of r c] Cons.prems by simp
qed simp

section \<open>Properties\<close>

text \<open>
  Whatever sequence of commits, releases and expiries a fresh reservation receives, it stays
  restorable from storage, it changes at most twice, and its slot is given back at most once:
  exactly once when it ends released or expired and never while it is reserved or committed.
\<close>

theorem reservation_lifecycle:
  assumes "reservation_reserve i c n a t e = Inr r"
  shows "reservation_restore (replay reservation_step cs r) = Inr (replay reservation_step cs r) \<and>
    count_list (replay_results reservation_step cs r) (Inr True) \<le> 2 \<and>
    slot_releases cs r = (if holds_slot (replay reservation_step cs r) then 0 else 1)"
proof -
  have ok: "reservation_ok r" and st: "rr_state r = Reserved"
    using assms reserve_ok by (auto simp: reservation_reserve_def split: if_splits)
  from ok have "reservation_ok (replay reservation_step cs r)"
    by (rule reservation.replay_wf [rotated]) (simp add: list_all_iff)
  moreover have "count_list (replay_results reservation_step cs r) (Inr True) \<le> 2"
    using replay_progress [of cs r] st by simp
  moreover have "holds_slot r" using st by (simp add: holds_slot_def)
  ultimately show ?thesis
    using slot_releases_eq [of cs r] by (auto simp: reservation_ok_def split: if_splits)
qed

theorem reservation_lifecycle_witness:
  "\<exists>r. reservation_reserve 1 2 3 4 (UtcMillis 10) (UtcMillis 20) = Inr r \<and>
     slot_releases [CommitReservation (UtcMillis 12), ReleaseReservation (UtcMillis 30), ReleaseReservation (UtcMillis 31)] r = 1"
proof -
  obtain r where r: "reservation_reserve 1 2 3 4 (UtcMillis 10) (UtcMillis 20) = Inr r"
    by (simp add: reservation_reserve_def)
  then have "\<not> holds_slot (replay reservation_step
      [CommitReservation (UtcMillis 12), ReleaseReservation (UtcMillis 30), ReleaseReservation (UtcMillis 31)] r)"
    by (auto simp: reservation_reserve_def reservation_ops holds_slot_def)
  with reservation_lifecycle [OF r, of "[CommitReservation (UtcMillis 12),
      ReleaseReservation (UtcMillis 30), ReleaseReservation (UtcMillis 31)]"] r
  show ?thesis by auto
qed

text \<open>
  A reservation is committed only inside its lease: if any sequence of commands leaves a
  fresh reservation committed, its confirmation time is at or after the reservation and strictly
  before the expiry.
\<close>

theorem commit_within_lease:
  assumes "reservation_reserve i c n a t e = Inr r"
    and "rr_state (replay reservation_step cs r) = Committed"
  shows "in_lease (replay reservation_step cs r)"
proof (rule replay_in_lease [OF _ assms(2)])
  show "in_lease r" if "rr_state r = Committed"
    using assms(1) that by (auto simp: reservation_reserve_def split: if_splits)
qed

theorem commit_within_lease_witness:
  "\<exists>r. in_lease (replay reservation_step [CommitReservation (UtcMillis 30), CommitReservation (UtcMillis 12)] r)"
proof -
  obtain r where r: "reservation_reserve 1 2 3 4 (UtcMillis 10) (UtcMillis 20) = Inr r"
    by (simp add: reservation_reserve_def)
  then have "rr_state (replay reservation_step [CommitReservation (UtcMillis 30), CommitReservation (UtcMillis 12)] r) = Committed"
    by (auto simp: reservation_reserve_def reservation_ops)
  from commit_within_lease [OF r this] show ?thesis by blast
qed

end
