(* ===== verification/Targeted_Handoffs.thy ===== *)
theory Targeted_Handoffs
  imports Messages Room_Catalog
begin

text \<open>
  The values of a hand-over and the cloud side of it (first half of \<^verbatim>\<open>handoff.rs\<close>): a
  record that a user approved for one agent instance, queued until that instance fetches it.
\<close>

section \<open>Values\<close>

datatype handoff_permission = ReadText | ReadAttachments | IncludeMetadata

definition handoff_permission_str :: "handoff_permission \<Rightarrow> string" where
  "handoff_permission_str p =
     (case p of
        ReadText \<Rightarrow> ''read_text''
      | ReadAttachments \<Rightarrow> ''read_attachments''
      | IncludeMetadata \<Rightarrow> ''include_metadata'')"

definition handoff_permission_of_str :: "string \<Rightarrow> handoff_permission result" where
  "handoff_permission_of_str s =
     (if s = ''read_text'' then Inr ReadText
      else if s = ''read_attachments'' then Inr ReadAttachments
      else if s = ''include_metadata'' then Inr IncludeMetadata
      else Inl (Validation ''handoff_permission'' ''unsupported scope''))"

definition handoff_permissions_new :: "handoff_permission list \<Rightarrow> handoff_permission set result" where
  "handoff_permissions_new ps =
     (if set ps = {} then Inl (Validation ''handoff_permissions'' ''choose at least one scope'')
      else Inr (set ps))"

datatype handoff_purpose = Inspect | Summarize | ReplyDraft

definition handoff_purpose_str :: "handoff_purpose \<Rightarrow> string" where
  "handoff_purpose_str p =
     (case p of Inspect \<Rightarrow> ''inspect'' | Summarize \<Rightarrow> ''summarize'' | ReplyDraft \<Rightarrow> ''reply_draft'')"

definition handoff_purpose_of_str :: "string \<Rightarrow> handoff_purpose result" where
  "handoff_purpose_of_str s =
     (if s = ''inspect'' then Inr Inspect
      else if s = ''summarize'' then Inr Summarize
      else if s = ''reply_draft'' then Inr ReplyDraft
      else Inl (Validation ''handoff_purpose'' ''unsupported purpose''))"

interpretation handoff_permission_codec: codec handoff_permission_str handoff_permission_of_str
  by unfold_locales
    (auto simp: handoff_permission_str_def handoff_permission_of_str_def
      split: handoff_permission.splits if_splits)

interpretation handoff_purpose_codec: codec handoff_purpose_str handoff_purpose_of_str
  by unfold_locales
    (auto simp: handoff_purpose_str_def handoff_purpose_of_str_def
      split: handoff_purpose.splits if_splits)

definition source_event_id_new :: "utext \<Rightarrow> utext result" where
  "source_event_id_new v =
     (if \<not> (4 \<le> byte_len v \<and> byte_len v \<le> 512) \<or> \<not> starts_with (lit ''$'') v \<or> list_ex is_control v
      then Inl (Validation ''handoff_source_event_id'' ''not a Matrix event id'')
      else Inr v)"

record handoff_source_actor =
  ha_agent_id :: agent_id
  ha_instance_id :: agent_instance_id
  ha_provenance :: message_provenance

record handoff_source =
  hs_room_id :: utext
  hs_event_id :: utext
  hs_message_id :: message_id
  hs_actor :: handoff_source_actor

record handoff_content_reference =
  hc_content_id :: content_id
  hc_digest :: sha256_digest
  hc_byte_length :: content_byte_length
  hc_media_type :: utext

text \<open>The source looks at the bytes; a byte of a non-ASCII character is in none of the classes.\<close>

definition failure_code_new :: "utext \<Rightarrow> utext result" where
  "failure_code_new v =
     (let valid = (case v of [] \<Rightarrow> False
                   | b # bytes \<Rightarrow> is_ascii_lower b \<and>
                       list_all (\<lambda>c. is_ascii_lower c \<or> is_ascii_digit c \<or> c = 95 \<or> c = 46) bytes)
      in if byte_len v > 128 \<or> \<not> valid
         then Inl (Validation ''handoff_failure_code'' ''must be a short lower-case dotted name'')
         else Inr v)"

section \<open>Targeted hand-overs\<close>

datatype targeted_status =
  TQueued | TDelivered | TConsumed | TDeclined | TRevoked | TExpired | TFailed

definition targeted_status_str :: "targeted_status \<Rightarrow> string" where
  "targeted_status_str st =
     (case st of
        TQueued \<Rightarrow> ''queued''
      | TDelivered \<Rightarrow> ''delivered''
      | TConsumed \<Rightarrow> ''consumed''
      | TDeclined \<Rightarrow> ''declined''
      | TRevoked \<Rightarrow> ''revoked''
      | TExpired \<Rightarrow> ''expired''
      | TFailed \<Rightarrow> ''failed'')"

definition targeted_is_terminal :: "targeted_status \<Rightarrow> bool" where
  "targeted_is_terminal st \<longleftrightarrow> st \<in> {TConsumed, TDeclined, TRevoked, TExpired, TFailed}"

record targeted_fields =
  tf_id :: handoff_id
  tf_principal_id :: principal_id
  tf_source_room_id :: utext
  tf_source_event_id :: utext
  tf_source_message_id :: message_id
  tf_target_agent_id :: agent_id
  tf_target_instance_id :: agent_instance_id
  tf_content :: handoff_content_reference
  tf_permissions :: "handoff_permission set"
  tf_purpose :: handoff_purpose
  tf_created_at :: utc_millis
  tf_expires_at :: utc_millis

record targeted_handoff =
  th_fields :: targeted_fields
  th_status :: targeted_status
  th_queued_at :: utc_millis
  th_delivered_at :: "utc_millis option"
  th_consumed_at :: "utc_millis option"
  th_resolved_at :: "utc_millis option"
  th_failure_code :: "utext option"
  th_version :: int

definition validate_targeted_lifetime :: "targeted_fields \<Rightarrow> unit result" where
  "validate_targeted_lifetime f =
     (if tf_expires_at f \<le> tf_created_at f
      then Inl (Validation ''handoff_expires_at'' ''must be after creation'')
      else Inr ())"

definition targeted_queue :: "targeted_fields \<Rightarrow> targeted_handoff result" where
  "targeted_queue f =
     and_then (validate_targeted_lifetime f) (\<lambda>_.
     Inr \<lparr>th_fields = f, th_status = TQueued, th_queued_at = tf_created_at f, th_delivered_at = None,
          th_consumed_at = None, th_resolved_at = None, th_failure_code = None, th_version = 0\<rparr>)"

definition targeted_shape_is_valid :: "targeted_handoff \<Rightarrow> bool" where
  "targeted_shape_is_valid h =
     (let expires = tf_expires_at (th_fields h);
          active_resolution_is_valid =
            opt_any (th_resolved_at h)
              (\<lambda>v. v \<ge> unwrap_or (th_delivered_at h) (th_queued_at h) \<and> v < expires)
      in case th_status h of
           TQueued \<Rightarrow>
             th_delivered_at h = None \<and> th_consumed_at h = None \<and> th_resolved_at h = None \<and>
             th_failure_code h = None
         | TDelivered \<Rightarrow>
             th_delivered_at h \<noteq> None \<and> th_consumed_at h = None \<and> th_resolved_at h = None \<and>
             th_failure_code h = None
         | TConsumed \<Rightarrow>
             th_delivered_at h \<noteq> None \<and> th_consumed_at h \<noteq> None \<and>
             th_resolved_at h = th_consumed_at h \<and> th_failure_code h = None
         | TDeclined \<Rightarrow>
             th_consumed_at h = None \<and> active_resolution_is_valid \<and> th_failure_code h \<noteq> None
         | TFailed \<Rightarrow>
             th_consumed_at h = None \<and> active_resolution_is_valid \<and> th_failure_code h \<noteq> None
         | TRevoked \<Rightarrow>
             th_consumed_at h = None \<and> active_resolution_is_valid \<and> th_failure_code h = None
         | TExpired \<Rightarrow>
             th_consumed_at h = None \<and> opt_any (th_resolved_at h) (\<lambda>v. v \<ge> expires) \<and>
             th_failure_code h = None)"

definition validate_targeted_timeline :: "targeted_handoff \<Rightarrow> unit result" where
  "validate_targeted_timeline h =
     (let expires = tf_expires_at (th_fields h)
      in if opt_any (th_delivered_at h) (\<lambda>v. v < th_queued_at h \<or> v \<ge> expires) \<or>
            opt_any (th_consumed_at h) (\<lambda>v.
              (case th_delivered_at h of None \<Rightarrow> True | Some delivered \<Rightarrow> v < delivered) \<or> v \<ge> expires)
         then Inl (InvariantViolation ''targeted_handoff'' ''invalid stage timeline'')
         else if \<not> targeted_shape_is_valid h
         then Inl (InvariantViolation ''targeted_handoff'' ''state and audit fields disagree'')
         else Inr ())"

definition targeted_restore :: "targeted_handoff \<Rightarrow> targeted_handoff result" where
  "targeted_restore h =
     and_then (validate_targeted_lifetime (th_fields h)) (\<lambda>_.
     if th_queued_at h < tf_created_at (th_fields h) \<or> th_queued_at h \<ge> tf_expires_at (th_fields h)
     then Inl (InvariantViolation ''targeted_handoff'' ''queued outside the grant'')
     else and_then (validate_targeted_timeline h) (\<lambda>_. Inr h))"

definition invalid_targeted_transition :: "targeted_handoff \<Rightarrow> targeted_status \<Rightarrow> domain_error" where
  "invalid_targeted_transition h target =
     InvalidTransition ''targeted_handoff'' (targeted_status_str (th_status h)) (targeted_status_str target)"

definition require_targeted_status ::
  "targeted_handoff \<Rightarrow> targeted_status \<Rightarrow> targeted_status \<Rightarrow> unit result" where
  "require_targeted_status h expected target =
     (if th_status h \<noteq> expected then Inl (invalid_targeted_transition h target) else Inr ())"

definition validate_targeted_active_time ::
  "targeted_handoff \<Rightarrow> utc_millis \<Rightarrow> utc_millis \<Rightarrow> string \<Rightarrow> unit result" where
  "validate_targeted_active_time h v earliest field =
     (if v < earliest then Inl (Validation field ''before the previous stage'')
      else if v \<ge> tf_expires_at (th_fields h)
      then Inl (InvariantViolation ''targeted_handoff'' ''the grant has expired'')
      else Inr ())"

definition latest_targeted_active_time :: "targeted_handoff \<Rightarrow> utc_millis" where
  "latest_targeted_active_time h = unwrap_or (th_delivered_at h) (th_queued_at h)"

definition targeted_bump_version :: "targeted_handoff \<Rightarrow> targeted_handoff" where
  "targeted_bump_version h = h\<lparr>th_version := u64_saturating_add (th_version h) 1\<rparr>"

definition targeted_mark_delivered :: "utc_millis \<Rightarrow> targeted_handoff \<Rightarrow> (unit, targeted_handoff) update" where
  "targeted_mark_delivered t h =
     (if th_status h = TDelivered then (Inr (), h)
      else
        attempt (require_targeted_status h TQueued TDelivered) h (\<lambda>_.
        attempt (validate_targeted_active_time h t (th_queued_at h) ''handoff_delivered_at'') h (\<lambda>_.
        (Inr (), targeted_bump_version (h\<lparr>th_status := TDelivered, th_delivered_at := Some t\<rparr>)))))"

definition targeted_consume :: "utc_millis \<Rightarrow> targeted_handoff \<Rightarrow> (unit, targeted_handoff) update" where
  "targeted_consume t h =
     (if th_status h = TConsumed then (Inr (), h)
      else
        attempt (require_targeted_status h TDelivered TConsumed) h (\<lambda>_.
        attempt (ok_or (th_delivered_at h)
          (InvariantViolation ''targeted_handoff'' ''delivered has a delivery time'')) h (\<lambda>delivered_at.
        attempt (validate_targeted_active_time h t delivered_at ''handoff_consumed_at'') h (\<lambda>_.
        (Inr (), targeted_bump_version
           (h\<lparr>th_status := TConsumed, th_consumed_at := Some t, th_resolved_at := Some t\<rparr>))))))"

definition targeted_revoke :: "utc_millis \<Rightarrow> targeted_handoff \<Rightarrow> (unit, targeted_handoff) update" where
  "targeted_revoke t h =
     (if th_status h = TRevoked then (Inr (), h)
      else if th_status h \<notin> {TQueued, TDelivered} then (Inl (invalid_targeted_transition h TRevoked), h)
      else
        attempt (validate_targeted_active_time h t (latest_targeted_active_time h) ''handoff_revoked_at'') h (\<lambda>_.
        (Inr (), targeted_bump_version (h\<lparr>th_status := TRevoked, th_resolved_at := Some t\<rparr>))))"

definition targeted_expire :: "utc_millis \<Rightarrow> targeted_handoff \<Rightarrow> (unit, targeted_handoff) update" where
  "targeted_expire t h =
     (if th_status h = TExpired then (Inr (), h)
      else if th_status h \<notin> {TQueued, TDelivered} then (Inl (invalid_targeted_transition h TExpired), h)
      else if t < tf_expires_at (th_fields h) then
        (Inl (InvariantViolation ''targeted_handoff'' ''the grant has not expired yet''), h)
      else (Inr (), targeted_bump_version (h\<lparr>th_status := TExpired, th_resolved_at := Some t\<rparr>)))"

definition targeted_resolve_active ::
  "targeted_status \<Rightarrow> utext \<Rightarrow> utc_millis \<Rightarrow> targeted_handoff \<Rightarrow> (unit, targeted_handoff) update" where
  "targeted_resolve_active st code t h =
     (if th_status h = st then
        (if th_failure_code h = Some code then (Inr (), h)
         else (Inl (InvariantViolation ''targeted_handoff'' ''a final state keeps its failure code''), h))
      else if th_status h \<notin> {TQueued, TDelivered} then (Inl (invalid_targeted_transition h st), h)
      else
        attempt (validate_targeted_active_time h t (latest_targeted_active_time h) ''handoff_resolved_at'') h (\<lambda>_.
        (Inr (), targeted_bump_version
           (h\<lparr>th_status := st, th_failure_code := Some code, th_resolved_at := Some t\<rparr>))))"

definition targeted_decline :: "utext \<Rightarrow> utc_millis \<Rightarrow> targeted_handoff \<Rightarrow> (unit, targeted_handoff) update" where
  "targeted_decline code t h = targeted_resolve_active TDeclined code t h"

definition targeted_fail :: "utext \<Rightarrow> utc_millis \<Rightarrow> targeted_handoff \<Rightarrow> (unit, targeted_handoff) update" where
  "targeted_fail code t h = targeted_resolve_active TFailed code t h"

datatype targeted_command =
    TDeliver utc_millis
  | TConsume utc_millis
  | TDecline utext utc_millis
  | TRevoke utc_millis
  | TExpire utc_millis
  | TFail utext utc_millis

fun targeted_step :: "targeted_command \<Rightarrow> targeted_handoff \<Rightarrow> (unit, targeted_handoff) update" where
  "targeted_step (TDeliver t) h = targeted_mark_delivered t h"
| "targeted_step (TConsume t) h = targeted_consume t h"
| "targeted_step (TDecline code t) h = targeted_decline code t h"
| "targeted_step (TRevoke t) h = targeted_revoke t h"
| "targeted_step (TExpire t) h = targeted_expire t h"
| "targeted_step (TFail code t) h = targeted_fail code t h"

section \<open>Timeline and life cycle\<close>

lemmas targeted_guards = require_targeted_status_def validate_targeted_active_time_def
  latest_targeted_active_time_def

lemmas targeted_ops = targeted_mark_delivered_def targeted_consume_def targeted_revoke_def
  targeted_expire_def targeted_resolve_active_def targeted_decline_def targeted_fail_def

definition targeted_ok :: "targeted_handoff \<Rightarrow> bool" where
  "targeted_ok h \<longleftrightarrow> targeted_restore h = Inr h"

definition targeted_final :: "targeted_handoff \<Rightarrow> bool" where
  "targeted_final h \<longleftrightarrow> targeted_is_terminal (th_status h)"

text \<open>
  Every effective command is one of the edges of this relation; the other answers leave the
  record alone.
\<close>

inductive targeted_change :: "targeted_handoff \<Rightarrow> targeted_handoff \<Rightarrow> bool" where
  stay: "targeted_change h h"
| deliver: "th_status h = TQueued \<Longrightarrow> th_queued_at h \<le> t \<Longrightarrow> t < tf_expires_at (th_fields h) \<Longrightarrow>
    targeted_change h (targeted_bump_version (h\<lparr>th_status := TDelivered, th_delivered_at := Some t\<rparr>))"
| consume: "th_status h = TDelivered \<Longrightarrow> th_delivered_at h = Some d \<Longrightarrow> d \<le> t \<Longrightarrow> t < tf_expires_at (th_fields h) \<Longrightarrow>
    targeted_change h (targeted_bump_version
      (h\<lparr>th_status := TConsumed, th_consumed_at := Some t, th_resolved_at := Some t\<rparr>))"
| revoke: "th_status h \<in> {TQueued, TDelivered} \<Longrightarrow> latest_targeted_active_time h \<le> t \<Longrightarrow>
    t < tf_expires_at (th_fields h) \<Longrightarrow>
    targeted_change h (targeted_bump_version (h\<lparr>th_status := TRevoked, th_resolved_at := Some t\<rparr>))"
| expire: "th_status h \<in> {TQueued, TDelivered} \<Longrightarrow> tf_expires_at (th_fields h) \<le> t \<Longrightarrow>
    targeted_change h (targeted_bump_version (h\<lparr>th_status := TExpired, th_resolved_at := Some t\<rparr>))"
| resolve: "th_status h \<in> {TQueued, TDelivered} \<Longrightarrow> st \<in> {TDeclined, TFailed} \<Longrightarrow>
    latest_targeted_active_time h \<le> t \<Longrightarrow> t < tf_expires_at (th_fields h) \<Longrightarrow>
    targeted_change h (targeted_bump_version
      (h\<lparr>th_status := st, th_failure_code := Some code, th_resolved_at := Some t\<rparr>))"

lemma targeted_step_change: "targeted_change h (snd (targeted_step c h))"
proof (cases c)
  case (TDeliver t)
  then show ?thesis
    by (auto simp: targeted_ops targeted_guards not_le not_less intro: targeted_change.intros)
next
  case (TConsume t)
  then show ?thesis
    by (cases "th_delivered_at h")
      (auto simp: targeted_ops targeted_guards not_le not_less intro: targeted_change.intros)
qed (auto simp: targeted_ops require_targeted_status_def validate_targeted_active_time_def not_le not_less
    intro: targeted_change.intros)

lemma targeted_bump_simps [simp]:
  "th_status (targeted_bump_version h) = th_status h"
  "th_fields (targeted_bump_version h) = th_fields h"
  "th_queued_at (targeted_bump_version h) = th_queued_at h"
  "th_delivered_at (targeted_bump_version h) = th_delivered_at h"
  "th_consumed_at (targeted_bump_version h) = th_consumed_at h"
  "th_resolved_at (targeted_bump_version h) = th_resolved_at h"
  "th_failure_code (targeted_bump_version h) = th_failure_code h"
  "th_version (targeted_bump_version h) = u64_saturating_add (th_version h) 1"
  by (simp_all add: targeted_bump_version_def)

lemma targeted_ok_iff:
  "targeted_ok h \<longleftrightarrow>
     tf_created_at (th_fields h) \<le> th_queued_at h \<and> th_queued_at h < tf_expires_at (th_fields h) \<and>
     (\<forall>v. th_delivered_at h = Some v \<longrightarrow> th_queued_at h \<le> v \<and> v < tf_expires_at (th_fields h)) \<and>
     (\<forall>v. th_consumed_at h = Some v \<longrightarrow>
        (\<exists>d. th_delivered_at h = Some d \<and> d \<le> v) \<and> v < tf_expires_at (th_fields h)) \<and>
     targeted_shape_is_valid h"
  by (auto simp: targeted_ok_def targeted_restore_def validate_targeted_lifetime_def
      validate_targeted_timeline_def result_simps Let_def not_le not_less opt_any_iff
      split: if_splits option.splits)

lemma targeted_change_ok: "targeted_change h g \<Longrightarrow> targeted_ok h \<Longrightarrow> targeted_ok g"
  by (induction rule: targeted_change.induct)
    (auto simp: targeted_ok_iff targeted_shape_is_valid_def latest_targeted_active_time_def Let_def)

lemma targeted_queue_ok: "targeted_queue f = Inr h \<Longrightarrow> targeted_ok h"
  by (auto simp: targeted_queue_def validate_targeted_lifetime_def result_simps targeted_ok_iff
      targeted_shape_is_valid_def not_le split: if_splits)

lemma targeted_final_iff: "targeted_final h \<longleftrightarrow> th_status h \<notin> {TQueued, TDelivered}"
  by (cases "th_status h") (auto simp: targeted_final_def targeted_is_terminal_def)

interpretation targeted: guarded_machine targeted_step "\<lambda>_. True" targeted_ok
  by unfold_locales (rule targeted_change_ok [OF targeted_step_change])

interpretation targeted_end: final_machine targeted_step targeted_final
proof
  fix h c
  assume "targeted_final h"
  with targeted_step_change [of h c] show "snd (targeted_step c h) = h"
    by cases (auto simp: targeted_final_iff)
qed

lemma targeted_change_fields: "targeted_change h g \<Longrightarrow> th_fields g = th_fields h"
  by (induction rule: targeted_change.induct) simp_all

lemma replay_targeted_fields [simp]: "th_fields (replay targeted_step cs h) = th_fields h"
  by (induction cs arbitrary: h) (simp_all add: targeted_change_fields [OF targeted_step_change])

text \<open>How many status changes lie behind a record: its version, which can therefore not saturate.\<close>

definition targeted_stage :: "targeted_handoff \<Rightarrow> int" where
  "targeted_stage h =
     (if th_status h = TQueued then 0
      else if th_status h = TDelivered then 1
      else if th_delivered_at h = None then 1 else 2)"

lemma targeted_change_version:
  "targeted_change h g \<Longrightarrow> targeted_ok h \<Longrightarrow> th_version h = targeted_stage h \<Longrightarrow> th_version g = targeted_stage g"
  by (induction rule: targeted_change.induct)
    (auto simp: targeted_stage_def u64_saturating_add_def u64_max_def targeted_ok_iff
      targeted_shape_is_valid_def Let_def split: targeted_status.splits)

lemma targeted_step_version:
  "targeted_ok h \<and> th_version h = targeted_stage h \<Longrightarrow>
   targeted_ok (snd (targeted_step c h)) \<and>
   th_version (snd (targeted_step c h)) = targeted_stage (snd (targeted_step c h))"
  using targeted_change_ok targeted_change_version targeted_step_change by blast

interpretation targeted_versions: guarded_machine targeted_step "\<lambda>_. True"
  "\<lambda>h. targeted_ok h \<and> th_version h = targeted_stage h"
  by unfold_locales (rule targeted_step_version)

text \<open>The life cycle without times and audit fields.\<close>

fun targeted_next :: "targeted_status \<Rightarrow> targeted_status set" where
  "targeted_next TQueued = {TDelivered, TDeclined, TRevoked, TExpired, TFailed}"
| "targeted_next TDelivered = {TConsumed, TDeclined, TRevoked, TExpired, TFailed}"
| "targeted_next st = {}"

section \<open>Properties\<close>

text \<open>
  C24: Whatever deliveries, receipts, refusals, revocations, expiries and failures reach a queued
  hand-over, and at whatever times, the record it leaves behind is accepted unchanged by
  \<^verbatim>\<open>restore\<close>: the state machine and the audit of the stored timeline agree. Its version is
  the number of status changes it went through, so it never saturates.
\<close>

theorem targeted_handoff_restorable:
  assumes "targeted_queue f = Inr h"
  shows "targeted_restore (replay targeted_step cs h) = Inr (replay targeted_step cs h) \<and>
    th_version (replay targeted_step cs h) = targeted_stage (replay targeted_step cs h)"
proof -
  have "targeted_ok h \<and> th_version h = targeted_stage h"
    using targeted_queue_ok [OF assms] assms
    by (auto simp: targeted_queue_def result_simps targeted_stage_def)
  from targeted_versions.replay_wf [OF _ this, of cs] show ?thesis
    by (simp add: list_all_iff targeted_ok_def)
qed

definition sample_targeted_fields :: targeted_fields where
  "sample_targeted_fields =
     \<lparr>tf_id = 1, tf_principal_id = 2, tf_source_room_id = lit ''!a:b'', tf_source_event_id = lit ''$abc'',
      tf_source_message_id = 3, tf_target_agent_id = 4, tf_target_instance_id = 5,
      tf_content = \<lparr>hc_content_id = 6, hc_digest = replicate 32 0, hc_byte_length = ContentByteLength 9,
                    hc_media_type = lit ''text/plain''\<rparr>,
      tf_permissions = {ReadText}, tf_purpose = Inspect, tf_created_at = UtcMillis 10,
      tf_expires_at = UtcMillis 20\<rparr>"

definition sample_targeted :: targeted_handoff where
  "sample_targeted =
     \<lparr>th_fields = sample_targeted_fields, th_status = TQueued, th_queued_at = UtcMillis 10,
      th_delivered_at = None, th_consumed_at = None, th_resolved_at = None, th_failure_code = None,
      th_version = 0\<rparr>"

lemma sample_targeted_window [simp]:
  "tf_created_at sample_targeted_fields = UtcMillis 10" "tf_expires_at sample_targeted_fields = UtcMillis 20"
  by (simp_all add: sample_targeted_fields_def)

lemma sample_targeted_queue: "targeted_queue sample_targeted_fields = Inr sample_targeted"
  by (simp add: targeted_queue_def validate_targeted_lifetime_def sample_targeted_def)

theorem targeted_handoff_restorable_witness:
  "th_version (replay targeted_step [TDeliver (UtcMillis 12), TConsume (UtcMillis 15)] sample_targeted) = 2"
proof -
  have "targeted_stage (replay targeted_step [TDeliver (UtcMillis 12), TConsume (UtcMillis 15)] sample_targeted) = 2"
    by (simp add: sample_targeted_def targeted_ops targeted_guards targeted_stage_def)
  then show ?thesis
    by (simp only: targeted_handoff_restorable [OF sample_targeted_queue, THEN conjunct2])
qed

text \<open>
  No context leaves the time window its user granted: in every reachable record the delivery
  and the consumption lie between the creation and (strictly) before the expiry, a consumption
  comes after a delivery, and the granted target, content, scope and window are still those that
  were queued.
\<close>

theorem targeted_handoff_window:
  assumes "targeted_queue f = Inr h" and "g = replay targeted_step cs h"
  shows "th_fields g = f \<and>
    (\<forall>t. th_delivered_at g = Some t \<longrightarrow> tf_created_at f \<le> t \<and> t < tf_expires_at f) \<and>
    (\<forall>t. th_consumed_at g = Some t \<longrightarrow>
       (\<exists>d. th_delivered_at g = Some d \<and> tf_created_at f \<le> d \<and> d \<le> t) \<and> t < tf_expires_at f) \<and>
    (th_status g = TConsumed \<longrightarrow> th_consumed_at g \<noteq> None)"
proof -
  have f: "th_fields g = f"
    using assms by (auto simp: targeted_queue_def result_simps)
  have "targeted_ok g"
    unfolding assms(2) using targeted_queue_ok [OF assms(1)]
    by (rule targeted.replay_wf [rotated]) (simp add: list_all_iff)
  with f show ?thesis
    by (fastforce simp: targeted_ok_iff targeted_shape_is_valid_def Let_def)
qed

theorem targeted_handoff_window_witness:
  "th_fields (replay targeted_step [TDeliver (UtcMillis 12), TConsume (UtcMillis 15)] sample_targeted) =
     sample_targeted_fields"
  using targeted_handoff_window [OF sample_targeted_queue refl] by blast

text \<open>
  Refinement of the abstract life cycle: a command either leaves the record exactly as it
  was or moves its status along an edge of the abstract automaton, in which consumption is
  reachable only from delivery and final states have no edges; a final record is never altered
  by any further sequence of commands.
\<close>

theorem targeted_handoff_refines_automaton:
  "(snd (targeted_step c h) = h \<or> th_status (snd (targeted_step c h)) \<in> targeted_next (th_status h)) \<and>
   (targeted_final h \<longrightarrow> replay targeted_step cs h = h)"
proof
  show "snd (targeted_step c h) = h \<or> th_status (snd (targeted_step c h)) \<in> targeted_next (th_status h)"
    using targeted_step_change [of h c] by cases auto
  show "targeted_final h \<longrightarrow> replay targeted_step cs h = h"
    using targeted_end.replay_final by blast
qed

theorem targeted_handoff_refines_automaton_witness:
  "replay targeted_step [TDeliver (UtcMillis 12), TFail (lit ''x'') (UtcMillis 13)]
     (sample_targeted\<lparr>th_status := TRevoked\<rparr>) = sample_targeted\<lparr>th_status := TRevoked\<rparr>"
proof -
  have "targeted_final (sample_targeted\<lparr>th_status := TRevoked\<rparr>)"
    by (simp add: targeted_final_iff)
  then show ?thesis
    using targeted_handoff_refines_automaton by blast
qed

end
