(* ===== verification/Context_Handoffs.thy ===== *)
theory Context_Handoffs
  imports Targeted_Handoffs
begin

text \<open>
  The local side of a hand-over (second half of \<^verbatim>\<open>handoff.rs\<close>): a one-time context package
  that an agent proposes, its user approves, and the target consumes at most once before the
  grant expires.
\<close>

section \<open>State\<close>

datatype handoff_status =
  HProposed | HApproved | HDelivered | HConsumed | HDeclined | HRevoked | HExpired | HFailed

definition handoff_status_str :: "handoff_status \<Rightarrow> string" where
  "handoff_status_str st =
     (case st of
        HProposed \<Rightarrow> ''proposed''
      | HApproved \<Rightarrow> ''approved''
      | HDelivered \<Rightarrow> ''delivered''
      | HConsumed \<Rightarrow> ''consumed''
      | HDeclined \<Rightarrow> ''declined''
      | HRevoked \<Rightarrow> ''revoked''
      | HExpired \<Rightarrow> ''expired''
      | HFailed \<Rightarrow> ''failed'')"

record context_fields =
  cf_id :: handoff_id
  cf_requester_agent_id :: agent_id
  cf_requester_instance_id :: agent_instance_id
  cf_source :: handoff_source
  cf_target_agent_id :: agent_id
  cf_target_instance_id :: agent_instance_id
  cf_content :: handoff_content_reference
  cf_permissions :: "handoff_permission set"
  cf_purpose :: handoff_purpose
  cf_risk_flags :: "utext set"
  cf_proposed_at :: utc_millis
  cf_expires_at :: utc_millis

record context_handoff =
  ch_fields :: context_fields
  ch_status :: handoff_status
  ch_approved_by :: "principal_id option"
  ch_approved_at :: "utc_millis option"
  ch_delivered_at :: "utc_millis option"
  ch_consumed_at :: "utc_millis option"
  ch_resolved_at :: "utc_millis option"
  ch_failure_code :: "utext option"

definition context_propose :: "context_fields \<Rightarrow> context_handoff result" where
  "context_propose f =
     (if cf_expires_at f \<le> cf_proposed_at f
      then Inl (Validation ''handoff_expires_at'' ''must be after the proposal'')
      else Inr \<lparr>ch_fields = f, ch_status = HProposed, ch_approved_by = None, ch_approved_at = None,
                ch_delivered_at = None, ch_consumed_at = None, ch_resolved_at = None,
                ch_failure_code = None\<rparr>)"

section \<open>Operations\<close>

definition context_invalid_transition :: "context_handoff \<Rightarrow> handoff_status \<Rightarrow> domain_error" where
  "context_invalid_transition h target =
     InvalidTransition ''context_handoff'' (handoff_status_str (ch_status h)) (handoff_status_str target)"

definition context_require_status ::
  "context_handoff \<Rightarrow> handoff_status \<Rightarrow> handoff_status \<Rightarrow> unit result" where
  "context_require_status h expected target =
     (if ch_status h \<noteq> expected then Inl (context_invalid_transition h target) else Inr ())"

definition context_validate_active_time ::
  "context_handoff \<Rightarrow> utc_millis \<Rightarrow> utc_millis \<Rightarrow> string \<Rightarrow> unit result" where
  "context_validate_active_time h v earliest field =
     (if v < earliest then Inl (Validation field ''before the previous stage'')
      else if v \<ge> cf_expires_at (ch_fields h)
      then Inl (InvariantViolation ''context_handoff'' ''the grant has expired'')
      else Inr ())"

definition context_latest_active_time :: "context_handoff \<Rightarrow> utc_millis" where
  "context_latest_active_time h =
     (case ch_delivered_at h of
        Some t \<Rightarrow> t
      | None \<Rightarrow> unwrap_or (ch_approved_at h) (cf_proposed_at (ch_fields h)))"

definition context_approve ::
  "principal_id \<Rightarrow> utc_millis \<Rightarrow> context_handoff \<Rightarrow> (unit, context_handoff) update" where
  "context_approve p t h =
     (if ch_status h = HApproved then
        (if ch_approved_by h = Some p then (Inr (), h)
         else (Inl (Forbidden ''approve a hand-over again as someone else''), h))
      else
        attempt (context_require_status h HProposed HApproved) h (\<lambda>_.
        attempt (context_validate_active_time h t (cf_proposed_at (ch_fields h)) ''handoff_approved_at'') h (\<lambda>_.
        (Inr (), h\<lparr>ch_status := HApproved, ch_approved_by := Some p, ch_approved_at := Some t\<rparr>))))"

definition context_mark_delivered :: "utc_millis \<Rightarrow> context_handoff \<Rightarrow> (unit, context_handoff) update" where
  "context_mark_delivered t h =
     (if ch_status h = HDelivered then (Inr (), h)
      else
        attempt (context_require_status h HApproved HDelivered) h (\<lambda>_.
        attempt (ok_or (ch_approved_at h)
          (InvariantViolation ''context_handoff'' ''approved has an approval time'')) h (\<lambda>approved_at.
        attempt (context_validate_active_time h t approved_at ''handoff_delivered_at'') h (\<lambda>_.
        (Inr (), h\<lparr>ch_status := HDelivered, ch_delivered_at := Some t\<rparr>)))))"

definition context_consume :: "utc_millis \<Rightarrow> context_handoff \<Rightarrow> (unit, context_handoff) update" where
  "context_consume t h =
     (if ch_status h = HConsumed then (Inr (), h)
      else
        attempt (context_require_status h HDelivered HConsumed) h (\<lambda>_.
        attempt (ok_or (ch_delivered_at h)
          (InvariantViolation ''context_handoff'' ''delivered has a delivery time'')) h (\<lambda>delivered_at.
        attempt (context_validate_active_time h t delivered_at ''handoff_consumed_at'') h (\<lambda>_.
        (Inr (), h\<lparr>ch_status := HConsumed, ch_consumed_at := Some t, ch_resolved_at := Some t\<rparr>)))))"

definition context_decline :: "utc_millis \<Rightarrow> context_handoff \<Rightarrow> (unit, context_handoff) update" where
  "context_decline t h =
     (if ch_status h = HDeclined then (Inr (), h)
      else if ch_status h \<notin> {HProposed, HApproved, HDelivered} then
        (Inl (context_invalid_transition h HDeclined), h)
      else
        attempt (context_validate_active_time h t (context_latest_active_time h) ''handoff_declined_at'') h (\<lambda>_.
        (Inr (), h\<lparr>ch_status := HDeclined, ch_resolved_at := Some t\<rparr>)))"

definition context_revoke :: "utc_millis \<Rightarrow> context_handoff \<Rightarrow> (unit, context_handoff) update" where
  "context_revoke t h =
     (if ch_status h = HRevoked then (Inr (), h)
      else if ch_status h \<notin> {HApproved, HDelivered} then
        (Inl (context_invalid_transition h HRevoked), h)
      else
        attempt (context_validate_active_time h t (context_latest_active_time h) ''handoff_revoked_at'') h (\<lambda>_.
        (Inr (), h\<lparr>ch_status := HRevoked, ch_resolved_at := Some t\<rparr>)))"

definition context_expire :: "utc_millis \<Rightarrow> context_handoff \<Rightarrow> (unit, context_handoff) update" where
  "context_expire t h =
     (if ch_status h = HExpired then (Inr (), h)
      else if ch_status h \<notin> {HProposed, HApproved, HDelivered} then
        (Inl (context_invalid_transition h HExpired), h)
      else if t < cf_expires_at (ch_fields h) then
        (Inl (InvariantViolation ''context_handoff'' ''the grant has not expired yet''), h)
      else (Inr (), h\<lparr>ch_status := HExpired, ch_resolved_at := Some t\<rparr>))"

definition context_fail :: "utext \<Rightarrow> utc_millis \<Rightarrow> context_handoff \<Rightarrow> (unit, context_handoff) update" where
  "context_fail code t h =
     (if ch_status h = HFailed then
        (if ch_failure_code h = Some code then (Inr (), h)
         else (Inl (InvariantViolation ''context_handoff'' ''a failure keeps its code''), h))
      else
        attempt (context_require_status h HApproved HFailed) h (\<lambda>_.
        attempt (ok_or (ch_approved_at h)
          (InvariantViolation ''context_handoff'' ''approved has an approval time'')) h (\<lambda>approved_at.
        attempt (context_validate_active_time h t approved_at ''handoff_failed_at'') h (\<lambda>_.
        (Inr (), h\<lparr>ch_status := HFailed, ch_failure_code := Some code, ch_resolved_at := Some t\<rparr>)))))"

definition is_consumable_at :: "context_handoff \<Rightarrow> utc_millis \<Rightarrow> bool" where
  "is_consumable_at h t \<longleftrightarrow> ch_status h = HDelivered \<and> t < cf_expires_at (ch_fields h)"

datatype context_command =
    HApprove principal_id utc_millis
  | HDeliver utc_millis
  | HConsume utc_millis
  | HDecline utc_millis
  | HRevoke utc_millis
  | HExpire utc_millis
  | HFail utext utc_millis

fun context_step :: "context_command \<Rightarrow> context_handoff \<Rightarrow> (unit, context_handoff) update" where
  "context_step (HApprove p t) h = context_approve p t h"
| "context_step (HDeliver t) h = context_mark_delivered t h"
| "context_step (HConsume t) h = context_consume t h"
| "context_step (HDecline t) h = context_decline t h"
| "context_step (HRevoke t) h = context_revoke t h"
| "context_step (HExpire t) h = context_expire t h"
| "context_step (HFail code t) h = context_fail code t h"

section \<open>Consent and timeline\<close>

lemmas context_ops = context_approve_def context_mark_delivered_def context_consume_def
  context_decline_def context_revoke_def context_expire_def context_fail_def

inductive context_change :: "context_command \<Rightarrow> context_handoff \<Rightarrow> context_handoff \<Rightarrow> bool" where
  stay: "context_change c h h"
| approve: "ch_status h = HProposed \<Longrightarrow> cf_proposed_at (ch_fields h) \<le> t \<Longrightarrow> t < cf_expires_at (ch_fields h) \<Longrightarrow>
    context_change (HApprove p t) h
      (h\<lparr>ch_status := HApproved, ch_approved_by := Some p, ch_approved_at := Some t\<rparr>)"
| deliver: "ch_status h = HApproved \<Longrightarrow> ch_approved_at h = Some a \<Longrightarrow> a \<le> t \<Longrightarrow> t < cf_expires_at (ch_fields h) \<Longrightarrow>
    context_change (HDeliver t) h (h\<lparr>ch_status := HDelivered, ch_delivered_at := Some t\<rparr>)"
| consume: "ch_status h = HDelivered \<Longrightarrow> ch_delivered_at h = Some d \<Longrightarrow> d \<le> t \<Longrightarrow> t < cf_expires_at (ch_fields h) \<Longrightarrow>
    context_change (HConsume t) h
      (h\<lparr>ch_status := HConsumed, ch_consumed_at := Some t, ch_resolved_at := Some t\<rparr>)"
| decline: "ch_status h \<in> {HProposed, HApproved, HDelivered} \<Longrightarrow> t < cf_expires_at (ch_fields h) \<Longrightarrow>
    context_change (HDecline t) h (h\<lparr>ch_status := HDeclined, ch_resolved_at := Some t\<rparr>)"
| revoke: "ch_status h \<in> {HApproved, HDelivered} \<Longrightarrow> t < cf_expires_at (ch_fields h) \<Longrightarrow>
    context_change (HRevoke t) h (h\<lparr>ch_status := HRevoked, ch_resolved_at := Some t\<rparr>)"
| expire: "ch_status h \<in> {HProposed, HApproved, HDelivered} \<Longrightarrow> cf_expires_at (ch_fields h) \<le> t \<Longrightarrow>
    context_change (HExpire t) h (h\<lparr>ch_status := HExpired, ch_resolved_at := Some t\<rparr>)"
| fail: "ch_status h = HApproved \<Longrightarrow> t < cf_expires_at (ch_fields h) \<Longrightarrow>
    context_change (HFail code t) h
      (h\<lparr>ch_status := HFailed, ch_failure_code := Some code, ch_resolved_at := Some t\<rparr>)"

lemma context_step_change: "context_change c h (snd (context_step c h))"
proof (cases c)
  case (HDeliver t)
  then show ?thesis
    by (cases "ch_approved_at h")
      (auto simp: context_ops context_require_status_def context_validate_active_time_def not_le not_less
        intro: context_change.intros)
next
  case (HConsume t)
  then show ?thesis
    by (cases "ch_delivered_at h")
      (auto simp: context_ops context_require_status_def context_validate_active_time_def not_le not_less
        intro: context_change.intros)
next
  case (HFail code t)
  then show ?thesis
    by (cases "ch_approved_at h")
      (auto simp: context_ops context_require_status_def context_validate_active_time_def not_le not_less
        intro: context_change.intros)
qed (auto simp: context_ops context_require_status_def context_validate_active_time_def not_le not_less
    intro: context_change.intros)

text \<open>The audit fields that belong to each state.\<close>

definition context_audit :: "context_handoff \<Rightarrow> bool" where
  "context_audit h \<longleftrightarrow>
     (case ch_status h of
        HProposed \<Rightarrow> ch_approved_at h = None \<and> ch_delivered_at h = None \<and> ch_resolved_at h = None
      | HApproved \<Rightarrow> ch_approved_at h \<noteq> None \<and> ch_delivered_at h = None \<and> ch_resolved_at h = None
      | HDelivered \<Rightarrow> ch_delivered_at h \<noteq> None \<and> ch_resolved_at h = None
      | HConsumed \<Rightarrow> ch_delivered_at h \<noteq> None \<and> ch_resolved_at h \<noteq> None
      | HRevoked \<Rightarrow> ch_approved_at h \<noteq> None \<and> ch_resolved_at h \<noteq> None
      | HFailed \<Rightarrow> ch_approved_at h \<noteq> None \<and> ch_delivered_at h = None \<and> ch_resolved_at h \<noteq> None
      | HDeclined \<Rightarrow> ch_resolved_at h \<noteq> None
      | HExpired \<Rightarrow> ch_resolved_at h \<noteq> None)"

definition context_ok :: "context_handoff \<Rightarrow> bool" where
  "context_ok h \<longleftrightarrow>
     cf_proposed_at (ch_fields h) < cf_expires_at (ch_fields h) \<and>
     (ch_approved_by h = None \<longleftrightarrow> ch_approved_at h = None) \<and>
     (ch_status h = HConsumed \<longleftrightarrow> ch_consumed_at h \<noteq> None) \<and>
     (ch_status h = HFailed \<longleftrightarrow> ch_failure_code h \<noteq> None) \<and>
     opt_all (ch_approved_at h) (\<lambda>a. cf_proposed_at (ch_fields h) \<le> a \<and> a < cf_expires_at (ch_fields h)) \<and>
     opt_all (ch_delivered_at h) (\<lambda>d. opt_any (ch_approved_at h) (\<lambda>a. a \<le> d) \<and> d < cf_expires_at (ch_fields h)) \<and>
     opt_all (ch_consumed_at h) (\<lambda>t. opt_any (ch_delivered_at h) (\<lambda>d. d \<le> t) \<and> t < cf_expires_at (ch_fields h)) \<and>
     context_audit h"

lemma context_propose_ok: "context_propose f = Inr h \<Longrightarrow> context_ok h"
  by (auto simp: context_propose_def context_ok_def context_audit_def split: if_splits)

lemma context_change_ok: "context_change c h g \<Longrightarrow> context_ok h \<Longrightarrow> context_ok g"
proof (induction rule: context_change.induct)
  case deliver
  then show ?case by (simp add: context_ok_def context_audit_def)
next
  case consume
  then show ?case by (simp add: context_ok_def context_audit_def)
qed (auto simp: context_ok_def context_audit_def)

lemma context_ok_proposed: "context_ok h \<Longrightarrow> ch_status h = HProposed \<Longrightarrow> ch_approved_by h = None"
  by (simp add: context_ok_def context_audit_def)

lemma context_ok_delivered:
  assumes "context_ok h" and "ch_status h \<in> {HDelivered, HConsumed}"
  obtains p a d where "ch_approved_by h = Some p" "ch_approved_at h = Some a" "ch_delivered_at h = Some d"
    "cf_proposed_at (ch_fields h) \<le> a" "a \<le> d" "d < cf_expires_at (ch_fields h)"
    "\<forall>u. ch_consumed_at h = Some u \<longrightarrow> d \<le> u \<and> u < cf_expires_at (ch_fields h)"
proof -
  from assms obtain d where d: "ch_delivered_at h = Some d"
    by (auto simp: context_ok_def context_audit_def)
  with assms(1) obtain a where a: "ch_approved_at h = Some a" "a \<le> d"
    by (auto simp: context_ok_def opt_any_iff)
  with assms(1) obtain p where p: "ch_approved_by h = Some p"
    by (auto simp: context_ok_def)
  from assms(1) d a p show ?thesis
    by (intro that [of p a d]) (auto simp: context_ok_def)
qed

interpretation context_machine: guarded_machine context_step "\<lambda>_. True" context_ok
  by unfold_locales (rule context_change_ok [OF context_step_change])

definition context_final :: "context_handoff \<Rightarrow> bool" where
  "context_final h \<longleftrightarrow> ch_status h \<notin> {HProposed, HApproved, HDelivered}"

interpretation context_end: final_machine context_step context_final
proof
  fix h c
  assume "context_final h"
  with context_step_change [of c h] show "snd (context_step c h) = h"
    by cases (auto simp: context_final_def)
qed

lemma replay_context_fields [simp]: "ch_fields (replay context_step cs h) = ch_fields h"
proof (induction cs arbitrary: h)
  case (Cons c cs)
  have "ch_fields (snd (context_step c h)) = ch_fields h"
    using context_step_change [of c h] by cases simp_all
  with Cons show ?case by simp
qed simp

lemma step_approver:
  "ch_approved_by (snd (context_step c h)) = ch_approved_by h \<or>
   (\<exists>p t. c = HApprove p t \<and> ch_status h = HProposed \<and> ch_approved_by (snd (context_step c h)) = Some p)"
  using context_step_change [of c h] by cases auto

lemma replay_approver:
  "ch_approved_by (replay context_step cs h) = Some p \<Longrightarrow>
     ch_approved_by h = Some p \<or> (\<exists>t. HApprove p t \<in> set cs)"
proof (induction cs arbitrary: h)
  case (Cons c cs)
  have "ch_approved_by (snd (context_step c h)) = Some p \<or> (\<exists>t. HApprove p t \<in> set cs)"
    using Cons.prems by (intro Cons.IH) simp
  then show ?case
    using step_approver [of c h] by auto
qed simp

text \<open>The approver is fixed by the first approval.\<close>

lemma approver_kept:
  assumes "context_ok h" and "ch_approved_by h = Some p"
  shows "ch_approved_by (replay context_step cs h) = Some p"
proof -
  have "list_all (\<lambda>_. True) cs" by (simp add: list_all_iff)
  then show ?thesis
    using assms(1)
  proof (induction rule: context_machine.replay_induct)
    case (step c t)
    then show ?case
      using step_approver [of c t] context_ok_proposed [of t] by auto
  qed (rule assms(2))
qed

section \<open>Properties\<close>

text \<open>
  C6: Nothing is handed over without its user's consent: in every state that a proposal can
  reach, a package that may be consumed, or was consumed, has an approver, that principal issued
  an approval, and the approval, delivery and consumption happened in that order between the
  proposal and, strictly, the expiry, for exactly the proposed target, content and scope.
\<close>

theorem context_handoff_consent:
  assumes "context_propose f = Inr h0" and "h = replay context_step cs h0"
    and "is_consumable_at h now \<or> ch_status h = HConsumed"
  shows "\<exists>p t a d. ch_approved_by h = Some p \<and> HApprove p t \<in> set cs \<and> ch_fields h = f \<and>
    ch_approved_at h = Some a \<and> ch_delivered_at h = Some d \<and> cf_proposed_at f \<le> a \<and> a \<le> d \<and>
    d < cf_expires_at f \<and> (\<forall>u. ch_consumed_at h = Some u \<longrightarrow> d \<le> u \<and> u < cf_expires_at f)"
proof -
  have h0: "ch_fields h0 = f" "ch_approved_by h0 = None"
    using assms(1) by (auto simp: context_propose_def split: if_splits)
  have "context_ok h"
    unfolding assms(2) using context_propose_ok [OF assms(1)]
    by (rule context_machine.replay_wf [rotated]) (simp add: list_all_iff)
  moreover have "ch_status h \<in> {HDelivered, HConsumed}"
    using assms(3) by (auto simp: is_consumable_at_def)
  moreover have f: "ch_fields h = f" using h0 assms(2) by simp
  ultimately obtain p a d where ad: "ch_approved_by h = Some p" "ch_approved_at h = Some a"
    "ch_delivered_at h = Some d" "cf_proposed_at f \<le> a" "a \<le> d" "d < cf_expires_at f"
    "\<forall>u. ch_consumed_at h = Some u \<longrightarrow> d \<le> u \<and> u < cf_expires_at f"
    using context_ok_delivered [of h] by metis
  then obtain t where "HApprove p t \<in> set cs"
    using replay_approver h0(2) assms(2) by fastforce
  with ad f show ?thesis by blast
qed

definition sample_context_fields :: context_fields where
  "sample_context_fields =
     \<lparr>cf_id = 1, cf_requester_agent_id = 2, cf_requester_instance_id = 3,
      cf_source = \<lparr>hs_room_id = lit ''!a:b'', hs_event_id = lit ''$abc'', hs_message_id = 4,
        hs_actor = \<lparr>ha_agent_id = 2, ha_instance_id = 3, ha_provenance = AutonomousAgent\<rparr>\<rparr>,
      cf_target_agent_id = 5, cf_target_instance_id = 6,
      cf_content = \<lparr>hc_content_id = 6, hc_digest = replicate 32 0, hc_byte_length = ContentByteLength 9,
                    hc_media_type = lit ''text/plain''\<rparr>,
      cf_permissions = {ReadText}, cf_purpose = Summarize, cf_risk_flags = {},
      cf_proposed_at = UtcMillis 10, cf_expires_at = UtcMillis 20\<rparr>"

definition sample_context :: context_handoff where
  "sample_context =
     \<lparr>ch_fields = sample_context_fields, ch_status = HProposed, ch_approved_by = None,
      ch_approved_at = None, ch_delivered_at = None, ch_consumed_at = None, ch_resolved_at = None,
      ch_failure_code = None\<rparr>"

lemma sample_context_window [simp]:
  "cf_proposed_at sample_context_fields = UtcMillis 10" "cf_expires_at sample_context_fields = UtcMillis 20"
  by (simp_all add: sample_context_fields_def)

lemma sample_context_propose: "context_propose sample_context_fields = Inr sample_context"
  by (simp add: context_propose_def sample_context_def)

theorem context_handoff_consent_witness:
  "\<exists>p t. HApprove p t \<in> set [HApprove 9 (UtcMillis 11), HDeliver (UtcMillis 12), HConsume (UtcMillis 13)]"
proof -
  let ?cs = "[HApprove 9 (UtcMillis 11), HDeliver (UtcMillis 12), HConsume (UtcMillis 13)]"
  have "ch_status (replay context_step ?cs sample_context) = HConsumed"
    by (simp add: sample_context_def context_ops context_require_status_def context_validate_active_time_def)
  then show ?thesis
    using context_handoff_consent [OF sample_context_propose refl] by blast
qed

text \<open>
  A package is consumed at most once and its end is final: once a reachable package is
  consumed, declined, revoked, expired or failed, no sequence of commands changes it again, and
  once it is approved its approver never changes.
\<close>

theorem context_handoff_final:
  assumes "context_propose f = Inr h0" and "h = replay context_step cs h0"
  shows "(ch_status h \<notin> {HProposed, HApproved, HDelivered} \<longrightarrow> replay context_step ds h = h) \<and>
    (\<forall>p. ch_approved_by h = Some p \<longrightarrow> ch_approved_by (replay context_step ds h) = Some p)"
proof -
  have "context_ok h"
    unfolding assms(2) using context_propose_ok [OF assms(1)]
    by (rule context_machine.replay_wf [rotated]) (simp add: list_all_iff)
  then show ?thesis
    using context_end.replay_final [of h ds] approver_kept by (auto simp: context_final_def)
qed

theorem context_handoff_final_witness:
  "ch_approved_by (replay context_step ([HApprove 9 (UtcMillis 11)] @ [HApprove 8 (UtcMillis 12)]) sample_context) = Some 9"
proof -
  have "ch_approved_by (replay context_step [HApprove 9 (UtcMillis 11)] sample_context) = Some 9"
    by (simp add: sample_context_def context_ops context_require_status_def context_validate_active_time_def)
  then show ?thesis
    unfolding replay_append using context_handoff_final [OF sample_context_propose refl] by blast
qed

end
