(* ===== verification/Principals.thy ===== *)
theory Principals
  imports Contracts Utc_Clock
begin

text \<open>
  Account principals (\<^verbatim>\<open>identity.rs\<close>) and direct sessions between a principal and an agent with
  their contact policy (\<^verbatim>\<open>direct_sessions.rs\<close>).
\<close>

section \<open>Principals\<close>

datatype principal_status = PrincipalActive | Suspended | Deleting | PrincipalDeleted

definition principal_status_str :: "principal_status \<Rightarrow> string" where
  "principal_status_str st =
     (case st of
        PrincipalActive \<Rightarrow> ''active''
      | Suspended \<Rightarrow> ''suspended''
      | Deleting \<Rightarrow> ''deleting''
      | PrincipalDeleted \<Rightarrow> ''deleted'')"

definition principal_status_of_str :: "string \<Rightarrow> principal_status result" where
  "principal_status_of_str s =
     (if s = ''active'' then Inr PrincipalActive
      else if s = ''suspended'' then Inr Suspended
      else if s = ''deleting'' then Inr Deleting
      else if s = ''deleted'' then Inr PrincipalDeleted
      else Inl (Validation ''principal_status'' ''unknown state''))"

interpretation principal_status_codec: codec principal_status_str principal_status_of_str
  by unfold_locales
    (auto simp: principal_status_str_def principal_status_of_str_def
      split: principal_status.splits if_splits)

record principal =
  pp_id :: principal_id
  pp_status :: principal_status
  pp_version :: aggregate_version

definition principal_new :: "principal_id \<Rightarrow> principal" where
  "principal_new i = \<lparr>pp_id = i, pp_status = PrincipalActive, pp_version = version_initial\<rparr>"

definition principal_restore :: "principal_id \<Rightarrow> principal_status \<Rightarrow> aggregate_version \<Rightarrow> principal" where
  "principal_restore i st v = \<lparr>pp_id = i, pp_status = st, pp_version = v\<rparr>"

definition allows_authentication :: "principal \<Rightarrow> bool" where
  "allows_authentication p \<longleftrightarrow> pp_status p = PrincipalActive"

definition principal_restore_version :: "aggregate_version \<Rightarrow> principal \<Rightarrow> (unit, principal) update" where
  "principal_restore_version v p = (Inr (), p\<lparr>pp_version := v\<rparr>)"

definition principal_suspend :: "principal \<Rightarrow> (unit, principal) update" where
  "principal_suspend p =
     (if pp_status p = PrincipalActive \<or> pp_status p = Suspended
      then (Inr (), p\<lparr>pp_status := Suspended\<rparr>)
      else (Inl (InvalidTransition ''principal'' (principal_status_str (pp_status p)) ''suspended''), p))"

definition principal_begin_deletion :: "principal \<Rightarrow> (unit, principal) update" where
  "principal_begin_deletion p =
     (if pp_status p \<noteq> PrincipalDeleted then (Inr (), p\<lparr>pp_status := Deleting\<rparr>) else (Inr (), p))"

definition principal_delete :: "principal \<Rightarrow> (unit, principal) update" where
  "principal_delete p = (Inr (), p\<lparr>pp_status := PrincipalDeleted\<rparr>)"

datatype principal_command =
  RestoreVersion aggregate_version | Suspend | BeginDeletion | DeletePrincipal

fun principal_step :: "principal_command \<Rightarrow> principal \<Rightarrow> (unit, principal) update" where
  "principal_step (RestoreVersion v) p = principal_restore_version v p"
| "principal_step Suspend p = principal_suspend p"
| "principal_step BeginDeletion p = principal_begin_deletion p"
| "principal_step DeletePrincipal p = principal_delete p"

text \<open>The states in the order in which a principal can pass through them.\<close>

fun principal_rank :: "principal_status \<Rightarrow> nat" where
  "principal_rank PrincipalActive = 0"
| "principal_rank Suspended = 1"
| "principal_rank Deleting = 2"
| "principal_rank PrincipalDeleted = 3"

lemma principal_rank_inject: "principal_rank s = principal_rank t \<longleftrightarrow> s = t"
  by (cases s; cases t) simp_all

lemmas principal_ops = principal_restore_version_def principal_suspend_def
  principal_begin_deletion_def principal_delete_def

lemma principal_step_rank:
  "principal_rank (pp_status p) \<le> principal_rank (pp_status (snd (principal_step c p)))"
  by (cases c; cases "pp_status p") (simp_all add: principal_ops)

lemma replay_principal_rank:
  "principal_rank (pp_status p) \<le> principal_rank (pp_status (replay principal_step cs p))"
  by (induction cs arbitrary: p) (auto intro: order_trans principal_step_rank)

section \<open>Direct sessions\<close>

datatype direct_lifecycle = SessionProvisioning | SessionActive | SessionFailed

definition direct_lifecycle_str :: "direct_lifecycle \<Rightarrow> string" where
  "direct_lifecycle_str st =
     (case st of
        SessionProvisioning \<Rightarrow> ''provisioning''
      | SessionActive \<Rightarrow> ''active''
      | SessionFailed \<Rightarrow> ''failed'')"

definition direct_lifecycle_of_str :: "string \<Rightarrow> direct_lifecycle result" where
  "direct_lifecycle_of_str s =
     (if s = ''provisioning'' then Inr SessionProvisioning
      else if s = ''active'' then Inr SessionActive
      else if s = ''failed'' then Inr SessionFailed
      else Inl (Validation ''direct_session_lifecycle'' ''unsupported state''))"

interpretation direct_lifecycle_codec: codec direct_lifecycle_str direct_lifecycle_of_str
  by unfold_locales
    (auto simp: direct_lifecycle_str_def direct_lifecycle_of_str_def
      split: direct_lifecycle.splits if_splits)

record direct_session =
  ds_catalog_id :: room_catalog_id
  ds_principal_id :: principal_id
  ds_target_agent_id :: agent_id
  ds_lifecycle :: direct_lifecycle
  ds_version :: aggregate_version

definition direct_reserve :: "room_catalog_id \<Rightarrow> principal_id \<Rightarrow> agent_id \<Rightarrow> direct_session" where
  "direct_reserve cat p a =
     \<lparr>ds_catalog_id = cat, ds_principal_id = p, ds_target_agent_id = a,
      ds_lifecycle = SessionProvisioning, ds_version = version_initial\<rparr>"

definition direct_restore :: "direct_session \<Rightarrow> direct_session result" where
  "direct_restore s =
     (let version_is_initial = (ds_version s = version_initial);
          lifecycle_matches_version =
            (case ds_lifecycle s of
               SessionProvisioning \<Rightarrow> version_is_initial
             | SessionActive \<Rightarrow> \<not> version_is_initial
             | SessionFailed \<Rightarrow> \<not> version_is_initial)
      in if \<not> lifecycle_matches_version
         then Inl (InvariantViolation ''direct_session'' ''life cycle and version disagree'')
         else Inr s)"

definition direct_is_active :: "direct_session \<Rightarrow> bool" where
  "direct_is_active s \<longleftrightarrow> ds_lifecycle s = SessionActive"

text \<open>
  Both transitions assign the new life cycle before they compute the next version, so the error
  of an exhausted version counter would be returned with the life cycle already changed. The
  invariant below excludes it: a provisioning session has the initial version.
\<close>

definition direct_activate :: "direct_session \<Rightarrow> (bool, direct_session) update" where
  "direct_activate s =
     (case ds_lifecycle s of
        SessionActive \<Rightarrow> (Inr False, s)
      | SessionFailed \<Rightarrow>
          (Inl (InvariantViolation ''direct_session'' ''a failed session cannot become active''), s)
      | SessionProvisioning \<Rightarrow>
          (let t = s\<lparr>ds_lifecycle := SessionActive\<rparr>
           in attempt (version_next (ds_version t)) t (\<lambda>v. (Inr True, t\<lparr>ds_version := v\<rparr>))))"

definition direct_fail :: "direct_session \<Rightarrow> (bool, direct_session) update" where
  "direct_fail s =
     (case ds_lifecycle s of
        SessionFailed \<Rightarrow> (Inr False, s)
      | SessionActive \<Rightarrow>
          (Inl (InvariantViolation ''direct_session'' ''an active session cannot fail''), s)
      | SessionProvisioning \<Rightarrow>
          (let t = s\<lparr>ds_lifecycle := SessionFailed\<rparr>
           in attempt (version_next (ds_version t)) t (\<lambda>v. (Inr True, t\<lparr>ds_version := v\<rparr>))))"

datatype direct_command = ActivateSession | FailSession

fun direct_step :: "direct_command \<Rightarrow> direct_session \<Rightarrow> (bool, direct_session) update" where
  "direct_step ActivateSession s = direct_activate s"
| "direct_step FailSession s = direct_fail s"

datatype presence_disclosure = CoarsePresence | HiddenPresence

record direct_contact_policy =
  cp_principal_id :: principal_id
  cp_agent_id :: agent_id
  cp_principal_blocks_agent :: bool
  cp_agent_blocks_principal :: bool

definition contact_policy_new :: "principal_id \<Rightarrow> agent_id \<Rightarrow> direct_contact_policy" where
  "contact_policy_new p a =
     \<lparr>cp_principal_id = p, cp_agent_id = a, cp_principal_blocks_agent = False,
      cp_agent_blocks_principal = False\<rparr>"

definition delivery_allowed :: "direct_contact_policy \<Rightarrow> bool" where
  "delivery_allowed p \<longleftrightarrow> \<not> cp_principal_blocks_agent p \<and> \<not> cp_agent_blocks_principal p"

definition exact_presence_disclosure :: "direct_contact_policy \<Rightarrow> presence_disclosure" where
  "exact_presence_disclosure p = (if delivery_allowed p then CoarsePresence else HiddenPresence)"

definition direct_ok :: "direct_session \<Rightarrow> bool" where
  "direct_ok s \<longleftrightarrow> version_ok (ds_version s) \<and>
     (ds_lifecycle s = SessionProvisioning \<longleftrightarrow> ds_version s = version_initial)"

lemmas direct_ops = direct_activate_def direct_fail_def

lemma direct_ok_restore: "direct_ok s \<Longrightarrow> direct_restore s = Inr s"
  by (auto simp: direct_ok_def direct_restore_def Let_def split: direct_lifecycle.split)

lemma initial_next: "version_next version_initial = Inr (Version 1)"
  by (simp add: version_next_Inr version_initial_def int_width_defs)

lemma version_one [simp]: "version_ok (Version 1)" "Version 1 \<noteq> version_initial"
  by (simp_all add: version_ok_def version_initial_def int_width_defs)

lemma direct_step_ok: "direct_ok s \<Longrightarrow> direct_ok (snd (direct_step c s))"
  by (cases c; cases "ds_lifecycle s")
    (simp_all add: direct_ops direct_ok_def Let_def initial_next)

interpretation direct: guarded_machine direct_step "\<lambda>_. True" direct_ok
  by unfold_locales (rule direct_step_ok)

lemma direct_settled_stays:
  "ds_lifecycle s \<noteq> SessionProvisioning \<Longrightarrow> snd (direct_step c s) = s"
  by (cases c; cases "ds_lifecycle s") (simp_all add: direct_ops)

interpretation direct_end: final_machine direct_step "\<lambda>s. ds_lifecycle s \<noteq> SessionProvisioning"
  by unfold_locales (rule direct_settled_stays)

section \<open>Properties\<close>

text \<open>
  An account that has been suspended, or whose deletion has begun, never authenticates
  again through any sequence of operations, and a deletion is never undone: the status only moves
  forward.
\<close>

theorem principal_never_returns:
  "principal_rank (pp_status p) \<le> principal_rank (pp_status (replay principal_step cs p)) \<and>
   (\<not> allows_authentication p \<longrightarrow> \<not> allows_authentication (replay principal_step cs p))"
  using replay_principal_rank [of p cs]
  by (cases "pp_status p") (auto simp: allows_authentication_def)

theorem principal_never_returns_witness:
  "\<not> allows_authentication (replay principal_step [Suspend, RestoreVersion version_initial]
      (snd (principal_suspend (principal_new 1))))"
proof -
  have "\<not> allows_authentication (snd (principal_suspend (principal_new 1)))"
    by (simp add: principal_suspend_def principal_new_def allows_authentication_def)
  then show ?thesis using principal_never_returns by blast
qed

text \<open>
  A reserved direct session stays restorable under any sequence of activations and failures,
  settles at most once, and whichever of active and failed it reaches first is final.
\<close>

theorem direct_session_settles_once:
  "direct_restore (replay direct_step cs (direct_reserve cat p a)) =
     Inr (replay direct_step cs (direct_reserve cat p a)) \<and>
   (cs \<noteq> [] \<longrightarrow>
      replay direct_step cs (direct_reserve cat p a) =
        (direct_reserve cat p a)
          \<lparr>ds_lifecycle := (if hd cs = ActivateSession then SessionActive else SessionFailed),
           ds_version := Version 1\<rparr>)"
proof
  have "direct_ok (direct_reserve cat p a)"
    by (simp add: direct_ok_def direct_reserve_def)
  then have "direct_ok (replay direct_step cs (direct_reserve cat p a))"
    by (rule direct.replay_wf [rotated]) (simp add: list_all_iff)
  then show "direct_restore (replay direct_step cs (direct_reserve cat p a)) =
     Inr (replay direct_step cs (direct_reserve cat p a))"
    by (rule direct_ok_restore)
  have first: "snd (direct_step c (direct_reserve cat p a)) =
      (direct_reserve cat p a)
        \<lparr>ds_lifecycle := (if c = ActivateSession then SessionActive else SessionFailed), ds_version := Version 1\<rparr>" for c
    by (cases c) (simp_all add: direct_ops direct_reserve_def Let_def initial_next)
  show "cs \<noteq> [] \<longrightarrow> replay direct_step cs (direct_reserve cat p a) =
        (direct_reserve cat p a)
          \<lparr>ds_lifecycle := (if hd cs = ActivateSession then SessionActive else SessionFailed), ds_version := Version 1\<rparr>"
    by (cases cs) (simp_all add: first direct_end.replay_final)
qed

theorem direct_session_settles_once_witness:
  "ds_lifecycle (replay direct_step [FailSession, ActivateSession] (direct_reserve 1 2 3)) = SessionFailed"
proof -
  have "replay direct_step [FailSession, ActivateSession] (direct_reserve 1 2 3) =
      (direct_reserve 1 2 3)\<lparr>ds_lifecycle := (if hd [FailSession, ActivateSession] = ActivateSession
         then SessionActive else SessionFailed), ds_version := Version 1\<rparr>"
    using direct_session_settles_once by blast
  then show ?thesis by simp
qed

end
