(* ===== verification/Reception.thy ===== *)
theory Reception
  imports Contracts
begin

text \<open>
  Exclusive background execution (\<^verbatim>\<open>reception.rs\<close>): at most one run of one computer serves an
  agent, and another may take over only after the previous run acknowledged that it has drained.
\<close>

section \<open>The state machine\<close>

record reception_owner =
  ro_instance_id :: agent_instance_id
  ro_device_id :: device_id
  ro_run_id :: uuid

datatype reception_mode = ReceptionIdle | ReceptionActive | ReceptionDraining

record reception_execution =
  rx_owner :: "reception_owner option"
  rx_mode :: reception_mode
  rx_next_device :: "device_id option"

definition reception_default :: reception_execution where
  "reception_default = \<lparr>rx_owner = None, rx_mode = ReceptionIdle, rx_next_device = None\<rparr>"

datatype reception_transition =
  Claim reception_owner | Drain "device_id option" | Release reception_owner

datatype reception_conflict = Occupied | WrongDevice | StaleExecution

definition reception_apply ::
  "reception_transition \<Rightarrow> reception_execution \<Rightarrow> reception_conflict + reception_execution" where
  "reception_apply command s =
     (case command of
        Claim owner \<Rightarrow>
          if rx_mode s = ReceptionActive \<and> rx_owner s = Some owner then Inr s
          else if rx_mode s \<noteq> ReceptionIdle then Inl Occupied
          else if opt_any (rx_next_device s) (\<lambda>device. device \<noteq> ro_device_id owner) then Inl WrongDevice
          else if opt_any (rx_owner s) (\<lambda>previous. ro_run_id previous = ro_run_id owner) then
            Inl StaleExecution
          else Inr \<lparr>rx_owner = Some owner, rx_mode = ReceptionActive, rx_next_device = None\<rparr>
      | Drain next_device \<Rightarrow>
          Inr (s\<lparr>rx_mode := (if rx_mode s = ReceptionIdle then ReceptionIdle else ReceptionDraining),
                 rx_next_device := next_device\<rparr>)
      | Release owner \<Rightarrow>
          if rx_owner s \<noteq> Some owner then Inl StaleExecution
          else Inr (s\<lparr>rx_mode := ReceptionIdle\<rparr>))"

definition reception_permits :: "reception_execution \<Rightarrow> reception_owner \<Rightarrow> bool" where
  "reception_permits s owner \<longleftrightarrow> rx_mode s = ReceptionActive \<and> rx_owner s = Some owner"

text \<open>A refused command leaves the stored execution as it was.\<close>

definition reception_step ::
  "reception_transition \<Rightarrow> reception_execution \<Rightarrow> (reception_conflict + unit) \<times> reception_execution" where
  "reception_step c s =
     (case reception_apply c s of Inl e \<Rightarrow> (Inl e, s) | Inr t \<Rightarrow> (Inr (), t))"

section \<open>Lemmas\<close>

definition occupied_by :: "reception_owner \<Rightarrow> reception_execution \<Rightarrow> bool" where
  "occupied_by owner s \<longleftrightarrow> rx_owner s = Some owner \<and> rx_mode s \<noteq> ReceptionIdle"

lemma permits_occupied: "reception_permits s owner \<Longrightarrow> occupied_by owner s"
  by (simp add: reception_permits_def occupied_by_def)

lemma occupation_kept:
  "occupied_by owner s \<Longrightarrow> c \<noteq> Release owner \<Longrightarrow> occupied_by owner (snd (reception_step c s))"
  by (cases c) (auto simp: occupied_by_def reception_step_def reception_apply_def)

lemma release_frees:
  "occupied_by owner s \<Longrightarrow> \<not> reception_permits (snd (reception_step (Release owner) s)) other"
  by (auto simp: occupied_by_def reception_step_def reception_apply_def reception_permits_def)

lemma only_claim_permits:
  "reception_permits (snd (reception_step c s)) owner \<Longrightarrow> \<not> reception_permits s owner \<Longrightarrow> c = Claim owner"
  by (cases c)
    (auto simp: reception_permits_def reception_step_def reception_apply_def split: if_splits)

lemma replay_only_claim_permits:
  "reception_permits (replay reception_step cs s) owner \<Longrightarrow> \<not> reception_permits s owner \<Longrightarrow>
     Claim owner \<in> set cs"
proof (induction cs arbitrary: s)
  case (Cons c cs)
  then show ?case
    using only_claim_permits [of c s owner] by (cases "c = Claim owner") auto
qed simp

lemma replay_handover:
  "occupied_by owner s \<Longrightarrow> reception_permits (replay reception_step cs s) other \<Longrightarrow> other \<noteq> owner \<Longrightarrow>
     \<exists>xs ys. cs = xs @ Release owner # ys \<and> Claim other \<in> set ys"
proof (induction cs arbitrary: s)
  case Nil
  then show ?case by (simp add: reception_permits_def occupied_by_def)
next
  case (Cons c cs)
  show ?case
  proof (cases "c = Release owner")
    case True
    have "Claim other \<in> set cs"
      using Cons.prems(2) release_frees [OF Cons.prems(1), of other] True
      by (intro replay_only_claim_permits) auto
    with True show ?thesis by (intro exI [of _ "[]"] exI [of _ cs]) simp
  next
    case False
    from Cons.IH [OF occupation_kept [OF Cons.prems(1) False]] Cons.prems(2,3)
    obtain xs ys where "cs = xs @ Release owner # ys" "Claim other \<in> set ys" by auto
    then show ?thesis by (intro exI [of _ "c # xs"] exI [of _ ys]) simp
  qed
qed

section \<open>Properties\<close>

text \<open>
  Execution is handed over only through an acknowledgement: if a run is permitted to execute
  and some sequence of commands later permits a different run, the first run itself released in
  between and the other claimed afterwards. Elapsed time, drain requests and rival claims never
  transfer it.
\<close>

theorem reception_handover_acknowledged:
  assumes "reception_permits s owner"
    and "reception_permits (replay reception_step cs s) other" and "other \<noteq> owner"
  shows "\<exists>xs ys. cs = xs @ Release owner # ys \<and> Claim other \<in> set ys"
  using replay_handover [OF permits_occupied] assms by blast

definition sample_owner :: "128 word \<Rightarrow> reception_owner" where
  "sample_owner n = \<lparr>ro_instance_id = 1, ro_device_id = n, ro_run_id = n\<rparr>"

theorem reception_handover_acknowledged_witness:
  "\<exists>xs ys. [Drain (Some 2), Release (sample_owner 1), Claim (sample_owner 2)] =
     xs @ Release (sample_owner 1) # ys \<and> Claim (sample_owner 2) \<in> set ys"
  by (rule reception_handover_acknowledged
      [of "\<lparr>rx_owner = Some (sample_owner 1), rx_mode = ReceptionActive, rx_next_device = None\<rparr>"])
    (simp_all add: reception_permits_def reception_step_def reception_apply_def sample_owner_def)

text \<open>
  A run that drained and released is fenced: its run id is refused at the next claim with
  \<^verbatim>\<open>StaleExecution\<close> or earlier, so a delayed retry of the same run cannot start again; and
  after a drain that names a device no other device can claim.
\<close>

theorem reception_retired_run_fenced:
  assumes "occupied_by owner s" and "ro_run_id again = ro_run_id owner"
  shows "fst (reception_step (Claim again) (snd (reception_step (Release owner) s))) \<in>
      {Inl StaleExecution, Inl WrongDevice} \<and>
    (\<forall>d. ro_device_id other \<noteq> d \<longrightarrow>
       \<not> reception_permits (replay reception_step [Drain (Some d), Release owner, Claim other] s) other)"
  using assms
  by (auto simp: occupied_by_def reception_step_def reception_apply_def reception_permits_def)

theorem reception_retired_run_fenced_witness:
  "fst (reception_step (Claim (sample_owner 1)) (snd (reception_step (Release (sample_owner 1))
     \<lparr>rx_owner = Some (sample_owner 1), rx_mode = ReceptionActive, rx_next_device = None\<rparr>))) \<in>
     {Inl StaleExecution, Inl WrongDevice}"
  by (rule reception_retired_run_fenced [THEN conjunct1]) (simp_all add: occupied_by_def)

end
