(* ===== verification/Agent_Presence.thy ===== *)
theory Agent_Presence
  imports Texts Utc_Clock
begin

text \<open>
  What others see of an agent: its work status and status lease (\<^verbatim>\<open>agent_status.rs\<close>), and the
  connection, reception and archival derived from presence evidence
  (\<^verbatim>\<open>agent_lifecycle.rs\<close>).
\<close>

section \<open>Work status\<close>

datatype agent_work_status =
  WorkOffline | WorkIdle | Working | WaitingInput | Blocked | WorkCompleted

definition work_status_str :: "agent_work_status \<Rightarrow> string" where
  "work_status_str st =
     (case st of
        WorkOffline \<Rightarrow> ''offline''
      | WorkIdle \<Rightarrow> ''idle''
      | Working \<Rightarrow> ''working''
      | WaitingInput \<Rightarrow> ''waiting_input''
      | Blocked \<Rightarrow> ''blocked''
      | WorkCompleted \<Rightarrow> ''completed'')"

datatype status_visibility = Coarse | Detailed

definition status_visibility_str :: "status_visibility \<Rightarrow> string" where
  "status_visibility_str v = (case v of Coarse \<Rightarrow> ''coarse'' | Detailed \<Rightarrow> ''detailed'')"

definition task_summary_new :: "utext \<Rightarrow> utext result" where
  "task_summary_new v =
     (if trim v = [] then Inl (Validation ''agent_task_summary'' ''must not be blank'')
      else if length v > 160 then Inl (Validation ''agent_task_summary'' ''at most 160 characters'')
      else if list_ex is_control v then Inl (Validation ''agent_task_summary'' ''no control characters'')
      else Inr v)"

datatype task_progress = TaskProgress (basis_points: nat)

definition progress_from_basis_points :: "nat \<Rightarrow> task_progress result" where
  "progress_from_basis_points v =
     (if v > 10000 then Inl (Validation ''agent_task_progress'' ''at most 10000 basis points'')
      else Inr (TaskProgress v))"

record status_details =
  sd_task_summary :: "utext option"
  sd_started_at :: "utc_millis option"
  sd_progress :: "task_progress option"

record status_snapshot =
  ss_status :: agent_work_status
  ss_visibility :: status_visibility
  ss_details :: "status_details option"

definition status_snapshot_new ::
  "agent_work_status \<Rightarrow> status_visibility \<Rightarrow> status_details option \<Rightarrow> status_snapshot result" where
  "status_snapshot_new st vis details =
     (if vis = Coarse \<and> details \<noteq> None
      then Inl (InvariantViolation ''agent_status_snapshot'' ''coarse status carries no details'')
      else Inr \<lparr>ss_status = st, ss_visibility = vis, ss_details = details\<rparr>)"

record status_lease =
  sl_agent_instance_id :: agent_instance_id
  sl_snapshot :: status_snapshot
  sl_published_at :: utc_millis
  sl_expires_at :: utc_millis

definition status_lease_issue ::
  "agent_instance_id \<Rightarrow> status_snapshot \<Rightarrow> utc_millis \<Rightarrow> duration_millis \<Rightarrow> status_lease result" where
  "status_lease_issue i snapshot published_at lifetime =
     and_then (utc_checked_add published_at lifetime) (\<lambda>expires_at.
     Inr \<lparr>sl_agent_instance_id = i, sl_snapshot = snapshot, sl_published_at = published_at,
          sl_expires_at = expires_at\<rparr>)"

definition effective_status ::
  "status_lease \<Rightarrow> utc_millis \<Rightarrow> duration_millis \<Rightarrow> agent_work_status result" where
  "effective_status l observed_at allowed_clock_skew =
     and_then (utc_checked_add (sl_expires_at l) allowed_clock_skew) (\<lambda>tolerated_expiry.
     if observed_at \<ge> tolerated_expiry then Inr WorkOffline
     else Inr (ss_status (sl_snapshot l)))"

section \<open>Presence evidence\<close>

definition reconnect_grace_ms :: int where "reconnect_grace_ms = 30000"
definition default_archive_after_days :: nat where "default_archive_after_days = 7"

datatype agent_connection = Online | Reconnecting | ConnectionOffline

definition connection_str :: "agent_connection \<Rightarrow> string" where
  "connection_str c =
     (case c of Online \<Rightarrow> ''online'' | Reconnecting \<Rightarrow> ''reconnecting'' | ConnectionOffline \<Rightarrow> ''offline'')"

datatype agent_reception = Waiting | OnResume | ReceptionUnknown | Unavailable

definition reception_str :: "agent_reception \<Rightarrow> string" where
  "reception_str r =
     (case r of
        Waiting \<Rightarrow> ''waiting''
      | OnResume \<Rightarrow> ''on_resume''
      | ReceptionUnknown \<Rightarrow> ''unknown''
      | Unavailable \<Rightarrow> ''unavailable'')"

datatype archive_reason = ArchiveExpired | ArchiveCapacity

definition archive_reason_str :: "archive_reason \<Rightarrow> string" where
  "archive_reason_str r = (case r of ArchiveExpired \<Rightarrow> ''expired'' | ArchiveCapacity \<Rightarrow> ''capacity'')"

datatype matrix_presence = MatrixOnline | MatrixUnavailable | MatrixOffline

definition presence_from_matrix :: "string \<Rightarrow> matrix_presence option" where
  "presence_from_matrix s =
     (if s = ''online'' then Some MatrixOnline
      else if s = ''unavailable'' then Some MatrixUnavailable
      else if s = ''offline'' then Some MatrixOffline
      else None)"

definition presence_as_matrix :: "matrix_presence \<Rightarrow> string" where
  "presence_as_matrix p =
     (case p of
        MatrixOnline \<Rightarrow> ''online''
      | MatrixUnavailable \<Rightarrow> ''unavailable''
      | MatrixOffline \<Rightarrow> ''offline'')"

interpretation presence_codec: codec presence_as_matrix
  "\<lambda>s. ok_or (presence_from_matrix s) (Validation ''presence'' ''unsupported'')"
  by unfold_locales
    (auto simp: presence_as_matrix_def presence_from_matrix_def split: matrix_presence.splits if_splits)

record presence_observation =
  po_state :: matrix_presence
  po_offline_seen_at :: "int option"
  po_last_active_at :: "int option"

datatype agent_liveness = Lease | Presence "presence_observation option"

record presence_evidence =
  pe_reported_status :: agent_work_status
  pe_lease_expires_at :: int
  pe_last_active_at :: int
  pe_last_polled_at :: "int option"
  pe_listening_until :: "int option"
  pe_reception_known :: bool
  pe_liveness :: agent_liveness

record agent_lifecycle =
  al_connection :: agent_connection
  al_reception :: agent_reception
  al_offline_since :: "int option"
  al_archive_reason :: "archive_reason option"

definition lease_connection :: "presence_evidence \<Rightarrow> int \<Rightarrow> agent_connection" where
  "lease_connection e now =
     (if pe_reported_status e = WorkOffline then ConnectionOffline
      else if now < pe_lease_expires_at e then Online
      else if now < i64_saturating_add (pe_lease_expires_at e) reconnect_grace_ms then Reconnecting
      else ConnectionOffline)"

definition lease_state ::
  "presence_evidence \<Rightarrow> int \<Rightarrow> agent_connection \<times> agent_reception \<times> int option" where
  "lease_state e now =
     (let connection = lease_connection e now;
          offline_since =
            (if connection = ConnectionOffline
             then Some (if pe_reported_status e = WorkOffline then pe_last_active_at e
                        else i64_saturating_add (pe_lease_expires_at e) reconnect_grace_ms)
             else None);
          reception =
            (if connection \<noteq> Online then Unavailable
             else if opt_any (pe_listening_until e) (\<lambda>u. now < u) then Waiting
             else if pe_reception_known e then OnResume
             else ReceptionUnknown)
      in (connection, reception, offline_since))"

definition presence_offline_since :: "presence_evidence \<Rightarrow> presence_observation option \<Rightarrow> int \<Rightarrow> int" where
  "presence_offline_since e observation now =
     min (case Option.bind observation po_offline_seen_at of
            Some t \<Rightarrow> t
          | None \<Rightarrow>
              (case Option.bind observation po_last_active_at of
                 None \<Rightarrow> pe_last_active_at e
               | Some t \<Rightarrow> max t (pe_last_active_at e)))
         now"

definition presence_state ::
  "presence_evidence \<Rightarrow> presence_observation option \<Rightarrow> int \<Rightarrow>
   agent_connection \<times> agent_reception \<times> int option" where
  "presence_state e observation now =
     (case map_option po_state observation of
        Some MatrixOnline \<Rightarrow> (Online, Waiting, None)
      | Some MatrixUnavailable \<Rightarrow> (Online, OnResume, None)
      | _ \<Rightarrow> (ConnectionOffline, Unavailable, Some (presence_offline_since e observation now)))"

text \<open>The subtraction is on \<^verbatim>\<open>i64\<close> and wraps in a release build.\<close>

definition i64_wrapping_sub :: "int \<Rightarrow> int \<Rightarrow> int" where
  "i64_wrapping_sub a b = sint (word_of_int (a - b) :: 64 word)"

definition agent_lifecycle_of :: "presence_evidence \<Rightarrow> int \<Rightarrow> nat \<Rightarrow> agent_lifecycle" where
  "agent_lifecycle_of e now archive_after_days =
     (case (case pe_liveness e of
              Lease \<Rightarrow> lease_state e now
            | Presence observation \<Rightarrow> presence_state e observation now) of
        (connection, reception, offline_since) \<Rightarrow>
          \<lparr>al_connection = connection, al_reception = reception, al_offline_since = offline_since,
           al_archive_reason =
             (if opt_any offline_since
                   (\<lambda>since. i64_wrapping_sub now since \<ge> int archive_after_days * 86400000)
              then Some ArchiveExpired else None)\<rparr>)"

datatype roster_policy = RosterPolicy (archive_after_days: nat)

definition roster_policy_new :: "nat \<Rightarrow> roster_policy option" where
  "roster_policy_new days =
     (if days = 1 \<or> days = 7 \<or> days = 30 then Some (RosterPolicy days) else None)"

definition roster_policy_default :: roster_policy where
  "roster_policy_default = RosterPolicy default_archive_after_days"

section \<open>Lemmas\<close>

lemma i64_wrapping_sub_exact: "in_i64 (a - b) \<Longrightarrow> i64_wrapping_sub a b = a - b"
  by (simp add: i64_wrapping_sub_def in_i64_def i64_min_def i64_max_def signed_take_bit_int_eq_self
      sint_sbintrunc' del: of_int_diff)

lemma saturating_grace: "t \<le> i64_max - 30000 \<Longrightarrow> i64_min \<le> t \<Longrightarrow> i64_saturating_add t reconnect_grace_ms = t + 30000"
  by (simp add: i64_saturating_add_def reconnect_grace_ms_def)

lemma lease_connection_mono:
  assumes "now \<le> later"
  shows "lease_connection e later = Online \<Longrightarrow> lease_connection e now = Online"
    and "lease_connection e now = ConnectionOffline \<Longrightarrow> lease_connection e later = ConnectionOffline"
  using assms by (auto simp: lease_connection_def split: if_splits)

lemma snapshot_new_Inr:
  "status_snapshot_new st vis d = Inr s \<longleftrightarrow>
     (vis = Coarse \<longrightarrow> d = None) \<and> s = \<lparr>ss_status = st, ss_visibility = vis, ss_details = d\<rparr>"
  by (auto simp: status_snapshot_new_def)

section \<open>Properties\<close>

text \<open>
  The derived life cycle is consistent for every piece of evidence: an agent that can be
  written to now (waiting or on resume) is online, one that is offline is unavailable and has
  a moment since when, and only an offline agent can be archived.
\<close>

theorem lifecycle_consistent:
  "(al_reception (agent_lifecycle_of e now days) \<in> {Waiting, OnResume, ReceptionUnknown} \<longleftrightarrow>
      al_connection (agent_lifecycle_of e now days) = Online) \<and>
   (al_connection (agent_lifecycle_of e now days) = ConnectionOffline \<longleftrightarrow>
      al_offline_since (agent_lifecycle_of e now days) \<noteq> None) \<and>
   (al_archive_reason (agent_lifecycle_of e now days) \<noteq> None \<longrightarrow>
      al_connection (agent_lifecycle_of e now days) = ConnectionOffline)"
  by (auto simp: agent_lifecycle_of_def lease_state_def presence_state_def Let_def opt_any_iff
      split: agent_liveness.split option.split matrix_presence.split if_splits)

theorem lifecycle_consistent_witness:
  "al_connection (agent_lifecycle_of
     \<lparr>pe_reported_status = Working, pe_lease_expires_at = 0, pe_last_active_at = 0, pe_last_polled_at = None,
      pe_listening_until = None, pe_reception_known = False, pe_liveness = Lease\<rparr> 700000000 7) = ConnectionOffline"
proof -
  let ?e = "\<lparr>pe_reported_status = Working, pe_lease_expires_at = 0, pe_last_active_at = 0, pe_last_polled_at = None,
      pe_listening_until = None, pe_reception_known = False, pe_liveness = Lease\<rparr>"
  have "al_archive_reason (agent_lifecycle_of ?e 700000000 7) \<noteq> None"
    by (simp add: agent_lifecycle_of_def lease_state_def lease_connection_def saturating_grace int_width_defs
        i64_wrapping_sub_exact)
  then show ?thesis using lifecycle_consistent by blast
qed

text \<open>
  A lease ages in one direction: with the same evidence an agent seen later is never online
  again after it stopped being online, and once offline it stays offline; with evidence and clock
  in the range of real timestamps it is archived exactly when it has been offline for the policy's
  number of days.
\<close>

theorem lease_lifecycle_ages:
  assumes "pe_liveness e = Lease" and "now \<le> later"
    and "0 \<le> pe_lease_expires_at e" and "0 \<le> pe_last_active_at e"
    and "pe_lease_expires_at e \<le> i64_max - 30000" and "pe_last_active_at e \<le> i64_max"
    and "0 \<le> now" and "now \<le> i64_max"
  shows "(al_connection (agent_lifecycle_of e later days) = Online \<longrightarrow>
      al_connection (agent_lifecycle_of e now days) = Online) \<and>
    (al_connection (agent_lifecycle_of e now days) = ConnectionOffline \<longrightarrow>
      al_connection (agent_lifecycle_of e later days) = ConnectionOffline) \<and>
    (al_archive_reason (agent_lifecycle_of e now days) = Some ArchiveExpired \<longleftrightarrow>
      (\<exists>since. al_offline_since (agent_lifecycle_of e now days) = Some since \<and>
         now - since \<ge> int days * 86400000))"
proof -
  have c: "al_connection (agent_lifecycle_of e t days) = lease_connection e t" for t
    using assms(1) by (simp add: agent_lifecycle_of_def lease_state_def Let_def)
  have "i64_wrapping_sub now since = now - since"
    if "al_offline_since (agent_lifecycle_of e now days) = Some since" for since
  proof -
    have "since = pe_last_active_at e \<or> since = pe_lease_expires_at e + 30000"
      using that assms(1,3,5) saturating_grace [of "pe_lease_expires_at e"]
      by (auto simp: agent_lifecycle_of_def lease_state_def Let_def i64_min_def split: if_splits)
    then have "in_i64 (now - since)"
      using assms(3-8) by (auto simp: int_width_defs)
    then show ?thesis by (rule i64_wrapping_sub_exact)
  qed
  moreover have "al_archive_reason (agent_lifecycle_of e now days) = Some ArchiveExpired \<longleftrightarrow>
      (\<exists>since. al_offline_since (agent_lifecycle_of e now days) = Some since \<and>
         i64_wrapping_sub now since \<ge> int days * 86400000)"
    by (auto simp: agent_lifecycle_of_def opt_any_iff split: prod.split)
  ultimately show ?thesis
    unfolding c using lease_connection_mono [OF assms(2)] by auto
qed

theorem lease_lifecycle_ages_witness:
  "al_connection (agent_lifecycle_of
     \<lparr>pe_reported_status = Working, pe_lease_expires_at = 1000, pe_last_active_at = 0, pe_last_polled_at = None,
      pe_listening_until = None, pe_reception_known = False, pe_liveness = Lease\<rparr> 50000 7) = ConnectionOffline"
proof -
  let ?e = "\<lparr>pe_reported_status = Working, pe_lease_expires_at = 1000, pe_last_active_at = 0, pe_last_polled_at = None,
      pe_listening_until = None, pe_reception_known = False, pe_liveness = Lease\<rparr>"
  have "al_connection (agent_lifecycle_of ?e 40000 7) = ConnectionOffline"
    by (simp add: agent_lifecycle_of_def lease_state_def lease_connection_def Let_def saturating_grace int_width_defs)
  then show ?thesis
    using lease_lifecycle_ages [of ?e 40000 50000 7] by (simp add: int_width_defs)
qed

text \<open>
  A published status never outlives its lease: within the skew-tolerant lease an observer
  sees exactly the published status, from its end on only offline, and a coarse snapshot discloses
  no task details.
\<close>

theorem status_lease_expires:
  assumes "status_snapshot_new st vis d = Inr s"
    and "status_lease_issue i s published lifetime = Inr l"
    and "effective_status l observed skew = Inr seen"
  shows "seen = (if utc_value observed < utc_value published + duration_value lifetime + duration_value skew
                 then st else WorkOffline) \<and>
    (ss_visibility (sl_snapshot l) = Coarse \<longrightarrow> ss_details (sl_snapshot l) = None)"
proof -
  from assms(2) have l: "sl_snapshot l = s"
    "utc_value (sl_expires_at l) = utc_value published + duration_value lifetime"
    by (auto simp: status_lease_issue_def result_simps dest!: utc_checked_add_value)
  from assms(3) l(2) have "seen = (if utc_value observed < utc_value published + duration_value lifetime + duration_value skew
                 then ss_status s else WorkOffline)"
    by (auto simp: effective_status_def result_simps clock_order l(1) split: if_splits
        dest!: utc_checked_add_value)
  with assms(1) l(1) show ?thesis by (auto simp: snapshot_new_Inr)
qed

theorem status_lease_expires_witness:
  "\<exists>l seen. effective_status l (UtcMillis 116) (DurationMillis 5) = Inr seen \<and> seen = WorkOffline"
proof -
  obtain s where s: "status_snapshot_new Working Coarse None = Inr s"
    by (simp add: snapshot_new_Inr)
  obtain l where l: "status_lease_issue 1 s (UtcMillis 100) (DurationMillis 10) = Inr l"
    by (simp add: status_lease_issue_def utc_checked_add_def i64_try_from_def i64_checked_add_def int_width_defs)
  then obtain seen where seen: "effective_status l (UtcMillis 116) (DurationMillis 5) = Inr seen"
    by (auto simp: status_lease_issue_def effective_status_def utc_checked_add_def i64_try_from_def
        i64_checked_add_def int_width_defs result_simps)
  with status_lease_expires [OF s l seen] show ?thesis by auto
qed

end
