(* ===== verification/Agent_Names.thy ===== *)
theory Agent_Names
  imports Texts
begin

text \<open>
  Names of agents: the four-digit tag after a display name (\<^verbatim>\<open>agent_names.rs\<close>) and the names
  and states of agents that connect over the network only (\<^verbatim>\<open>network_agents.rs\<close>).
\<close>

section \<open>Tagged names\<close>

definition max_tagged_name_characters :: nat where "max_tagged_name_characters = 80"
definition tag_characters :: nat where "tag_characters = 6"

type_synonym agent_name_tag = nat

text \<open>The last four bytes of the UUID, big endian, are its low 32 bits.\<close>

definition tag_from_uuid :: "uuid \<Rightarrow> agent_name_tag" where
  "tag_from_uuid i = unat ((ucast i :: 32 word) mod 10000)"

text \<open>\<^verbatim>\<open>{:04}\<close> of a value below 10000, which every tag is.\<close>

definition four_digits :: "nat \<Rightarrow> utext" where
  "four_digits v =
     [48 + v div 1000, 48 + v div 100 mod 10, 48 + v div 10 mod 10, 48 + v mod 10]"

definition tag_display :: "agent_name_tag \<Rightarrow> utext" where
  "tag_display v = 35 # four_digits v"

definition untagged_name :: "utext \<Rightarrow> utext" where
  "untagged_name raw =
     (let name = trim raw in
      case rsplit_once (lit '' #'') name of
        None \<Rightarrow> name
      | Some (front, digits) \<Rightarrow>
          let base = trim_end front in
          if byte_len digits = 4 \<and> list_all is_ascii_digit digits \<and> base \<noteq> [] then base else name)"

definition tagged_name :: "utext \<Rightarrow> agent_name_tag \<Rightarrow> utext" where
  "tagged_name name tag =
     (let room = max_tagged_name_characters - tag_characters;
          base = take room (untagged_name name)
      in trim_end base @ lit '' '' @ tag_display tag)"

section \<open>Names of network agents\<close>

text \<open>
  The Unicode lower-casing of a character is the parameter \<open>lower\<close>; the properties need of it
  only what Unicode says about ASCII letters.
\<close>

definition reserved_names :: "utext list" where
  "reserved_names =
     map lit [''system'', ''admin'', ''administrator'', ''moderator'', ''mod'', ''root'', ''official''] @
     [[31995, 32479], [31649, 29702, 21592], [31649, 29702, 32773], [29256, 20027], [23448, 26041], [23458, 26381]]"

definition reserved_prefix :: utext where
  "reserved_prefix = lit ''agentroom''"

definition normalized_name :: "(nat \<Rightarrow> utext) \<Rightarrow> utext \<Rightarrow> utext" where
  "normalized_name lower name =
     concat (map lower (filter (\<lambda>c. \<not> is_whitespace c \<and>
       \<not> (c = 45 \<or> c = 95 \<or> c = 46 \<or> c = 183 \<or> c = 12539)) name))"

definition is_reserved :: "(nat \<Rightarrow> utext) \<Rightarrow> utext \<Rightarrow> bool" where
  "is_reserved lower name \<longleftrightarrow>
     starts_with reserved_prefix (normalized_name lower name) \<or>
     list_ex (\<lambda>reserved. normalized_name lower name = reserved) reserved_names"

definition network_agent_name_parse :: "(nat \<Rightarrow> utext) \<Rightarrow> utext \<Rightarrow> utext result" where
  "network_agent_name_parse lower input =
     (let name = untagged_name input
      in if name = [] \<or> length name > 64
         then Inl (Validation ''network_agent_name'' ''must be 1 to 64 characters'')
         else if list_ex is_control name
         then Inl (Validation ''network_agent_name'' ''no control characters'')
         else if is_reserved lower name
         then Inl (Validation ''network_agent_name'' ''reserved for the platform'')
         else Inr name)"

definition network_agent_tagged :: "utext \<Rightarrow> agent_name_tag \<Rightarrow> utext" where
  "network_agent_tagged name tag = tagged_name name tag"

datatype network_agent_status = NetProvisioning | NetActive | NetDisabled

definition network_status_str :: "network_agent_status \<Rightarrow> string" where
  "network_status_str st =
     (case st of
        NetProvisioning \<Rightarrow> ''provisioning'' | NetActive \<Rightarrow> ''active'' | NetDisabled \<Rightarrow> ''disabled'')"

definition network_status_of_str :: "string \<Rightarrow> network_agent_status result" where
  "network_status_of_str s =
     (if s = ''provisioning'' then Inr NetProvisioning
      else if s = ''active'' then Inr NetActive
      else if s = ''disabled'' then Inr NetDisabled
      else Inl (Validation ''network_agent_status'' ''unknown state''))"

interpretation network_status_codec: codec network_status_str network_status_of_str
  by unfold_locales
    (auto simp: network_status_str_def network_status_of_str_def
      split: network_agent_status.splits if_splits)

section \<open>Texts without blanks at their ends\<close>

definition clean :: "utext \<Rightarrow> bool" where
  "clean s \<longleftrightarrow> s = [] \<or> \<not> is_whitespace (hd s) \<and> \<not> is_whitespace (last s)"

lemma trim_end_last: "trim_end s \<noteq> [] \<Longrightarrow> \<not> is_whitespace (last (trim_end s))"
  by (simp add: trim_end_def trim_end_by_def last_rev hd_dropWhile)

lemma trim_end_prefix: "\<exists>r. s = trim_end s @ r"
proof -
  have "rev s = takeWhile is_whitespace (rev s) @ dropWhile is_whitespace (rev s)" by simp
  then have "s = rev (dropWhile is_whitespace (rev s)) @ rev (takeWhile is_whitespace (rev s))"
    by (metis rev_append rev_rev_ident)
  then show ?thesis by (auto simp: trim_end_def trim_end_by_def)
qed

lemma trim_end_id: "s = [] \<or> \<not> is_whitespace (last s) \<Longrightarrow> trim_end s = s"
  by (cases s rule: rev_cases) (auto simp: trim_end_def trim_end_by_def)

lemma trim_end_starts:
  assumes "s \<noteq> []" and "\<not> is_whitespace (hd s)"
  shows "trim_end s \<noteq> [] \<and> hd (trim_end s) = hd s"
proof -
  have "\<exists>c\<in>set s. \<not> is_whitespace c" using assms by (cases s) auto
  then have "trim_end s \<noteq> []"
    by (auto simp: trim_end_def trim_end_by_def dropWhile_eq_Nil_conv)
  moreover obtain r where "s = trim_end s @ r" using trim_end_prefix by blast
  ultimately show ?thesis by (metis hd_append2)
qed

lemma trim_eq: "trim s = trim_end (dropWhile is_whitespace s)"
  by (simp add: trim_def trim_by_def trim_start_by_def trim_end_def)

lemma clean_trim_end: "s = [] \<or> \<not> is_whitespace (hd s) \<Longrightarrow> clean (trim_end s)"
proof (cases "s = []")
  case True
  then show ?thesis by (simp add: clean_def trim_end_id)
next
  case False
  moreover assume "s = [] \<or> \<not> is_whitespace (hd s)"
  ultimately show ?thesis
    using trim_end_starts [of s] trim_end_last [of s] by (simp add: clean_def)
qed

lemma clean_trim: "clean (trim s)"
  unfolding trim_eq
proof (rule clean_trim_end)
  show "dropWhile is_whitespace s = [] \<or> \<not> is_whitespace (hd (dropWhile is_whitespace s))"
    using hd_dropWhile by blast
qed

lemma trim_clean: "clean s \<Longrightarrow> trim s = s"
  by (cases s) (auto simp: trim_eq clean_def trim_end_id)

lemma clean_prefix:
  assumes "clean (p @ r)"
  shows "clean (trim_end p)"
proof (rule clean_trim_end)
  show "p = [] \<or> \<not> is_whitespace (hd p)"
    using assms by (cases p) (auto simp: clean_def)
qed

lemma untagged_clean: "clean (untagged_name s)"
proof (cases "rsplit_once (lit '' #'') (trim s)")
  case None
  then show ?thesis by (simp add: untagged_name_def clean_trim)
next
  case (Some fd)
  then obtain f d where fd: "rsplit_once (lit '' #'') (trim s) = Some (f, d)" by (cases fd) auto
  then have "clean (trim_end f)"
    using clean_prefix clean_trim rsplit_once_concat by metis
  with fd show ?thesis by (simp add: untagged_name_def Let_def clean_trim)
qed

lemma untagged_nonempty: "untagged_name s = [] \<longleftrightarrow> trim s = []"
proof (cases "rsplit_once (lit '' #'') (trim s)")
  case None
  then show ?thesis by (simp add: untagged_name_def)
next
  case (Some fd)
  then obtain f d where fd: "rsplit_once (lit '' #'') (trim s) = Some (f, d)" by (cases fd) auto
  then have "trim s \<noteq> []" using rsplit_once_concat [OF fd] by (simp add: lit_def)
  with fd show ?thesis by (simp add: untagged_name_def Let_def)
qed

section \<open>Tags\<close>

lemma tag_bound: "tag_from_uuid i < 10000"
proof -
  have "(ucast i :: 32 word) mod 10000 < 10000"
    by (rule word_mod_less_divisor) simp
  then show ?thesis by (simp add: tag_from_uuid_def word_less_nat_alt)
qed

lemma four_digits_ascii:
  assumes "v < 10000"
  shows "list_all is_ascii_digit (four_digits v)" and "byte_len (four_digits v) = 4"
proof -
  have "v div 1000 \<le> 9" "v div 100 mod 10 \<le> 9" "v div 10 mod 10 \<le> 9" "v mod 10 \<le> 9"
    using assms by auto
  then show "list_all is_ascii_digit (four_digits v)" "byte_len (four_digits v) = 4"
    by (simp_all add: four_digits_def is_ascii_digit_def utf8_width_def)
qed

lemma digits_not_blank: "is_ascii_digit c \<Longrightarrow> \<not> is_whitespace c \<and> c \<noteq> 35"
  by (auto simp: is_ascii_digit_def is_whitespace_def)

lemma tail_as_separator: "lit '' '' @ tag_display v = lit '' #'' @ four_digits v"
  by (simp add: lit_def tag_display_def)

lemma untag_tag:
  assumes "clean b" and "b \<noteq> []" and "v < 10000"
  shows "untagged_name (b @ lit '' '' @ tag_display v) = b"
proof -
  have digits: "list_all is_ascii_digit (four_digits v)" "byte_len (four_digits v) = 4"
    using assms(3) by (rule four_digits_ascii)+
  then have "35 \<notin> set (four_digits v)"
    using digits_not_blank by (auto simp: list_all_iff)
  then have split: "rsplit_once (lit '' #'') (b @ lit '' '' @ tag_display v) = Some (b, four_digits v)"
    unfolding tail_as_separator by (intro rsplit_once_after) (simp_all add: lit_def)
  have "is_ascii_digit (last (b @ lit '' '' @ tag_display v))"
    using digits(1) by (simp add: tag_display_def four_digits_def)
  then have "clean (b @ lit '' '' @ tag_display v)"
    using assms(1,2) digits_not_blank by (auto simp: clean_def)
  then have "trim (b @ lit '' '' @ tag_display v) = b @ lit '' '' @ tag_display v"
    by (rule trim_clean)
  moreover have "trim_end b = b"
    using assms(1,2) by (intro trim_end_id) (auto simp: clean_def)
  ultimately show ?thesis
    using split digits assms(2) by (simp add: untagged_name_def Let_def)
qed

lemma tag_base_clean: "clean (trim_end (take n (untagged_name s)))"
  using clean_prefix [of "take n (untagged_name s)" "drop n (untagged_name s)"] untagged_clean by simp

lemma tag_base_nonempty:
  assumes "trim s \<noteq> []" and "0 < n"
  shows "trim_end (take n (untagged_name s)) \<noteq> []"
proof -
  have "untagged_name s \<noteq> []" using assms(1) untagged_nonempty by blast
  then show ?thesis
    using untagged_clean [of s] assms(2) trim_end_starts [of "take n (untagged_name s)"]
    by (auto simp: clean_def hd_take)
qed

lemmas name_evaluation = untagged_name_def rsplit_once_def trim_eq trim_end_def trim_end_by_def
  starts_with_def lit_def is_whitespace_def is_control_def is_reserved_def normalized_name_def
  reserved_prefix_def reserved_names_def ascii_lowercase_def is_ascii_upper_def

section \<open>Properties\<close>

text \<open>
  Every agent shows exactly one tag of its own: a tagged name has at most 80 characters and
  ends in the agent's four digits, removing the tag and tagging again is idempotent (feeding a
  displayed name back in replaces the tag instead of adding one), whoever the first tag belonged
  to, for every name that is not blank.
\<close>

theorem tagging_idempotent:
  assumes "trim name \<noteq> []"
  shows "length (tagged_name name (tag_from_uuid i)) \<le> 80 \<and>
    (\<exists>base. base \<noteq> [] \<and> tagged_name name (tag_from_uuid i) = base @ lit '' #'' @ four_digits (tag_from_uuid i) \<and>
       untagged_name (tagged_name name (tag_from_uuid i)) = base) \<and>
    tagged_name (tagged_name name (tag_from_uuid i)) (tag_from_uuid j) = tagged_name name (tag_from_uuid j)"
proof -
  let ?b = "trim_end (take 74 (untagged_name name))"
  have t: "tagged_name name v = ?b @ lit '' '' @ tag_display v" for v
    by (simp add: tagged_name_def Let_def max_tagged_name_characters_def tag_characters_def)
  obtain r where r: "take 74 (untagged_name name) = ?b @ r" using trim_end_prefix by blast
  have len: "length ?b \<le> 74"
    using r by (metis append_eq_conv_conj length_take min.cobounded2 le_trans length_append le_add1)
  have ne: "?b \<noteq> []" using tag_base_nonempty [OF assms, of 74] by simp
  have u: "untagged_name (tagged_name name (tag_from_uuid i)) = ?b"
    unfolding t by (rule untag_tag [OF tag_base_clean ne tag_bound])
  have "trim_end ?b = ?b"
    using tag_base_clean [of 74 name] ne by (intro trim_end_id) (auto simp: clean_def)
  then have "tagged_name (tagged_name name (tag_from_uuid i)) (tag_from_uuid j) =
      ?b @ lit '' '' @ tag_display (tag_from_uuid j)"
    using len unfolding tagged_name_def [of "tagged_name name (tag_from_uuid i)"] u
    by (simp add: Let_def max_tagged_name_characters_def tag_characters_def)
  moreover have "length (tagged_name name (tag_from_uuid i)) \<le> 80"
    using len by (simp add: t lit_def tag_display_def four_digits_def)
  ultimately show ?thesis
    using u ne by (auto simp: t tail_as_separator)
qed

theorem tagging_idempotent_witness:
  "tagged_name (tagged_name (lit ''Bob #0007'') (tag_from_uuid 1)) (tag_from_uuid 2) =
   tagged_name (lit ''Bob #0007'') (tag_from_uuid 2)"
  by (rule tagging_idempotent [THEN conjunct2, THEN conjunct2]) (simp add: trim_nonblank lit_def is_whitespace_def)

text \<open>
  A network agent whose accepted name carries no tag of its own is shown under that very name
  plus its tag, within 70 characters, and the name is none of the platform's reserved names, has no
  control characters and no blanks at its ends.
\<close>

theorem network_name_shown_as_checked:
  assumes "network_agent_name_parse lower input = Inr name" and "untagged_name name = name"
  shows "network_agent_tagged name (tag_from_uuid i) = name @ lit '' #'' @ four_digits (tag_from_uuid i) \<and>
    \<not> is_reserved lower name \<and> 1 \<le> length name \<and> length name \<le> 64 \<and>
    list_all (\<lambda>c. \<not> is_control c) name \<and> clean name"
proof -
  from assms(1) have n: "name = untagged_name input" "name \<noteq> []" "length name \<le> 64"
    "\<not> list_ex is_control name" "\<not> is_reserved lower name"
    by (auto simp: network_agent_name_parse_def Let_def split: if_splits)
  have c: "clean name" using n(1) untagged_clean by simp
  then have "trim_end name = name"
    using n(2) by (intro trim_end_id) (auto simp: clean_def)
  then have "network_agent_tagged name (tag_from_uuid i) = name @ lit '' '' @ tag_display (tag_from_uuid i)"
    using n(3) assms(2)
    by (simp add: network_agent_tagged_def tagged_name_def max_tagged_name_characters_def tag_characters_def)
  then show ?thesis
    using n c by (auto simp: tail_as_separator list_ex_iff list_all_iff Suc_le_eq)
qed

theorem network_name_shown_as_checked_witness:
  "network_agent_tagged (lit ''Scout'') (tag_from_uuid 5) = lit ''Scout'' @ lit '' #'' @ four_digits (tag_from_uuid 5)"
proof (rule network_name_shown_as_checked [where lower = "\<lambda>c. [ascii_lowercase c]", THEN conjunct1])
  show u: "untagged_name (lit ''Scout'') = lit ''Scout''"
    by (simp add: name_evaluation)
  show "network_agent_name_parse (\<lambda>c. [ascii_lowercase c]) (lit ''Scout'') = Inr (lit ''Scout'')"
    by (simp add: network_agent_name_parse_def u) (simp add: name_evaluation)
qed

text \<open>
  C40: The check of reserved names can be evaded: only one tag is removed before the check, but another
  one when the name is shown, so an input with two tags passes the check, although the reserved name
  itself is refused, and is displayed as the reserved name with the agent's tag.
\<close>

theorem reserved_name_displayed:
  "network_agent_name_parse (\<lambda>c. [ascii_lowercase c]) (lit ''admin'') =
     Inl (Validation ''network_agent_name'' ''reserved for the platform'') \<and>
   network_agent_name_parse (\<lambda>c. [ascii_lowercase c]) (lit ''admin #1234 #5678'') = Inr (lit ''admin #1234'') \<and>
   network_agent_tagged (lit ''admin #1234'') (tag_from_uuid 42) = lit ''admin #0042''"
proof (intro conjI)
  have admin: "untagged_name (lit ''admin'') = lit ''admin''"
    by (simp add: name_evaluation)
  have tag: "untagged_name (lit s @ lit '' '' @ tag_display v) = lit s"
    if "clean (lit s)" "lit s \<noteq> []" "v < 10000" for s v
    using that by (rule untag_tag)
  have one: "untagged_name (lit ''admin #1234'') = lit ''admin''"
    using tag [of "''admin''" 1234]
    by (simp add: lit_def tag_display_def four_digits_def clean_def is_whitespace_def)
  have two: "untagged_name (lit ''admin #1234 #5678'') = lit ''admin #1234''"
    using tag [of "''admin #1234''" 5678]
    by (simp add: lit_def tag_display_def four_digits_def clean_def is_whitespace_def)
  show "network_agent_name_parse (\<lambda>c. [ascii_lowercase c]) (lit ''admin'') =
     Inl (Validation ''network_agent_name'' ''reserved for the platform'')"
    by (simp add: network_agent_name_parse_def admin) (simp add: name_evaluation)
  show "network_agent_name_parse (\<lambda>c. [ascii_lowercase c]) (lit ''admin #1234 #5678'') = Inr (lit ''admin #1234'')"
    by (simp add: network_agent_name_parse_def two) (simp add: name_evaluation)
  have "tag_from_uuid 42 = 42" by (simp add: tag_from_uuid_def)
  then show "network_agent_tagged (lit ''admin #1234'') (tag_from_uuid 42) = lit ''admin #0042''"
    by (simp add: network_agent_tagged_def tagged_name_def one max_tagged_name_characters_def tag_characters_def)
      (simp add: lit_def tag_display_def four_digits_def trim_end_def trim_end_by_def is_whitespace_def)
qed

end
