(* ===== verification/Access_Codes.thy ===== *)
theory Access_Codes
  imports Texts Utc_Clock Room_Permissions
begin

text \<open>
  Codes by which people and agents enter rooms: the spoken join code and the room number
  (\<^verbatim>\<open>join_codes.rs\<close>), the secret of an invitation link (\<^verbatim>\<open>room_invites.rs\<close>) and the
  share code of a public room (\<^verbatim>\<open>room_listing.rs\<close>).
\<close>

section \<open>Digits over an alphabet\<close>

fun base_digits :: "nat \<Rightarrow> nat \<Rightarrow> nat \<Rightarrow> nat list" where
  "base_digits b 0 v = []"
| "base_digits b (Suc n) v = v mod b # base_digits b n (v div b)"

definition code_of :: "utext \<Rightarrow> nat \<Rightarrow> nat \<Rightarrow> utext" where
  "code_of alphabet n v = map (\<lambda>i. alphabet ! i) (base_digits (length alphabet) n v)"

text \<open>\<^verbatim>\<open>from_be_bytes\<close> of an array of bytes.\<close>

definition be_value :: "8 word list \<Rightarrow> nat" where
  "be_value bytes = foldl (\<lambda>v b. v * 256 + unat b) 0 bytes"

lemma last_byte:
  fixes a b x y :: nat
  assumes "x < 256" and "y < 256"
  shows "a * 256 + x = b * 256 + y \<longleftrightarrow> a = b \<and> x = y"
proof
  assume eq: "a * 256 + x = b * 256 + y"
  have "(a * 256 + x) mod 256 = x" "(b * 256 + y) mod 256 = y" using assms by simp_all
  with eq have "x = y" by simp
  with eq show "a = b \<and> x = y" by simp
qed simp

lemma be_value_append: "be_value (xs @ [b]) = be_value xs * 256 + unat b"
  by (simp add: be_value_def)

lemma be_value_bound: "be_value xs < 256 ^ length xs"
proof (induction xs rule: rev_induct)
  case (snoc b xs)
  have "unat b < 256" using unsigned_less [of b] by simp
  with snoc show ?case by (simp add: be_value_append)
qed (simp add: be_value_def)

lemma be_value_inject:
  "length xs = length ys \<Longrightarrow> be_value xs = be_value ys \<longleftrightarrow> xs = ys"
proof (induction xs arbitrary: ys rule: rev_induct)
  case (snoc b xs)
  then obtain zs c where ys: "ys = zs @ [c]" "length zs = length xs"
    by (cases ys rule: rev_cases) auto
  have "unat b < 256" "unat c < 256" using unsigned_less [of b] unsigned_less [of c] by simp_all
  then have "be_value xs * 256 + unat b = be_value zs * 256 + unat c \<longleftrightarrow>
      be_value xs = be_value zs \<and> unat b = unat c" by (rule last_byte)
  with snoc.IH [of zs] ys show ?case by (auto simp: be_value_append word_unat_eq_iff)
qed simp

lemma base_digits_bound: "0 < b \<Longrightarrow> \<forall>d\<in>set (base_digits b n v). d < b"
  by (induction n arbitrary: v) auto

lemma length_base_digits [simp]: "length (base_digits b n v) = n"
  by (induction n arbitrary: v) auto

lemma base_digits_eq:
  assumes "0 < b"
  shows "base_digits b n v = base_digits b n w \<longleftrightarrow> v mod b ^ n = w mod b ^ n"
proof (induction n arbitrary: v w)
  case (Suc n)
  have split: "x mod b ^ Suc n = x mod b + b * (x div b mod b ^ n)" for x
    by (simp add: mod_mult2_eq add.commute)
  have digit: "x mod b + b * y = z mod b + b * u \<longleftrightarrow> x mod b = z mod b \<and> y = u" for x y z u
  proof
    assume e: "x mod b + b * y = z mod b + b * u"
    have "(x mod b + b * y) mod b = x mod b" "(z mod b + b * u) mod b = z mod b" by simp_all
    with e have "x mod b = z mod b" by metis
    with e assms show "x mod b = z mod b \<and> y = u" by simp
  qed simp
  show ?case by (simp only: base_digits.simps list.inject Suc.IH split digit)
qed simp

locale code_alphabet =
  fixes alphabet :: utext
  assumes distinct_alphabet: "distinct alphabet"
    and alphabet_nonempty: "alphabet \<noteq> []"
begin

lemma code_of_chars: "set (code_of alphabet n v) \<subseteq> set alphabet"
  using base_digits_bound [of "length alphabet" n v] alphabet_nonempty
  by (auto simp: code_of_def)

lemma length_code_of: "length (code_of alphabet n v) = n"
  by (simp add: code_of_def)

lemma code_of_eq:
  "code_of alphabet n v = code_of alphabet n w \<longleftrightarrow>
     v mod length alphabet ^ n = w mod length alphabet ^ n"
proof -
  let ?b = "length alphabet"
  have pos: "0 < ?b" using alphabet_nonempty by simp
  have "inj_on (\<lambda>i. alphabet ! i) (set (base_digits ?b n v) \<union> set (base_digits ?b n w))"
    using base_digits_bound [OF pos] nth_eq_iff_index_eq [OF distinct_alphabet]
    by (intro inj_onI) blast
  then show ?thesis
    using base_digits_eq [OF pos, of n v w] by (simp add: code_of_def inj_on_map_eq_map)
qed

end

section \<open>Join codes\<close>

definition join_alphabet :: utext where
  "join_alphabet = lit ''0123456789ABCDEFGHJKMNPQRSTVWXYZ''"

definition join_code_length :: nat where "join_code_length = 12"
definition join_code_max_input :: nat where "join_code_max_input = 64"

definition join_code_from_entropy :: "8 word list \<Rightarrow> utext" where
  "join_code_from_entropy entropy = code_of join_alphabet join_code_length (be_value entropy)"

definition join_code_invalid :: domain_error where
  "join_code_invalid = Validation ''join_code'' ''must be 12 letters or digits''"

definition join_code_normal :: "nat \<Rightarrow> nat" where
  "join_code_normal c =
     (let u = ascii_uppercase c in if u = 79 then 48 else if u = 73 \<or> u = 76 then 49 else u)"

fun join_code_chars :: "utext \<Rightarrow> utext result" where
  "join_code_chars [] = Inr []"
| "join_code_chars (c # s) =
     (if c = 45 \<or> is_whitespace c then join_code_chars s
      else if join_code_normal c \<notin> set join_alphabet then Inl join_code_invalid
      else and_then (join_code_chars s) (\<lambda>code. Inr (join_code_normal c # code)))"

definition join_code_parse :: "utext \<Rightarrow> utext result" where
  "join_code_parse input =
     (if byte_len input > join_code_max_input then Inl join_code_invalid
      else and_then (join_code_chars input) (\<lambda>code.
        if length code \<noteq> join_code_length then Inl join_code_invalid else Inr code))"

definition join_code_display :: "utext \<Rightarrow> utext" where
  "join_code_display code = take 4 code @ lit ''-'' @ take 4 (drop 4 code) @ lit ''-'' @ drop 8 code"

datatype agent_member_status = AgentJoined | AgentRemoved

definition agent_member_status_str :: "agent_member_status \<Rightarrow> string" where
  "agent_member_status_str st = (case st of AgentJoined \<Rightarrow> ''joined'' | AgentRemoved \<Rightarrow> ''removed'')"

definition agent_member_status_of_str :: "string \<Rightarrow> agent_member_status result" where
  "agent_member_status_of_str s =
     (if s = ''joined'' then Inr AgentJoined
      else if s = ''removed'' then Inr AgentRemoved
      else Inl (Validation ''private_room_agent_member_status'' ''unknown state''))"

datatype agent_joined_via = ViaCode | ViaKnock

definition joined_via_str :: "agent_joined_via \<Rightarrow> string" where
  "joined_via_str v = (case v of ViaCode \<Rightarrow> ''code'' | ViaKnock \<Rightarrow> ''knock'')"

datatype agent_knock_status = KnockWaiting | KnockAdmitted | KnockDeclined

definition knock_status_str :: "agent_knock_status \<Rightarrow> string" where
  "knock_status_str st =
     (case st of KnockWaiting \<Rightarrow> ''waiting'' | KnockAdmitted \<Rightarrow> ''admitted'' | KnockDeclined \<Rightarrow> ''declined'')"

definition knock_status_of_str :: "string \<Rightarrow> agent_knock_status result" where
  "knock_status_of_str s =
     (if s = ''waiting'' then Inr KnockWaiting
      else if s = ''admitted'' then Inr KnockAdmitted
      else if s = ''declined'' then Inr KnockDeclined
      else Inl (Validation ''private_room_agent_knock_status'' ''unknown state''))"

interpretation agent_member_codec: codec agent_member_status_str agent_member_status_of_str
  by unfold_locales
    (auto simp: agent_member_status_str_def agent_member_status_of_str_def
      split: agent_member_status.splits if_splits)

interpretation knock_codec: codec knock_status_str knock_status_of_str
  by unfold_locales
    (auto simp: knock_status_str_def knock_status_of_str_def split: agent_knock_status.splits if_splits)

section \<open>Links\<close>

definition is_quote :: "nat \<Rightarrow> bool" where
  "is_quote c \<longleftrightarrow> c = 96 \<or> c = 34 \<or> c = 39 \<or> c = 60 \<or> c = 62"

definition unquoted :: "utext \<Rightarrow> utext" where
  "unquoted input = trim (trim_by is_quote (trim input))"

definition http_scheme :: "utext \<Rightarrow> bool" where
  "http_scheme scheme \<longleftrightarrow>
     eq_ignore_ascii_case scheme (lit ''http'') \<or> eq_ignore_ascii_case scheme (lit ''https'')"

definition link_path :: "utext \<Rightarrow> utext" where
  "link_path rest =
     (let path = hd (split_by (\<lambda>c. c = 63 \<or> c = 35) rest)
      in case strip_suffix (lit ''/'') path of None \<Rightarrow> path | Some p \<Rightarrow> p)"

text \<open>
  The UUID crate is outside the repository: its parser and the version number of a UUID are the
  parameters \<open>parse_uuid\<close> and \<open>uuid_version\<close>.
\<close>

definition parse_room_number ::
  "(utext \<Rightarrow> uuid option) \<Rightarrow> (uuid \<Rightarrow> nat) \<Rightarrow> utext \<Rightarrow> room_catalog_id option" where
  "parse_room_number parse_uuid uuid_version input =
     (if byte_len input > 512 then None
      else
        (let v = unquoted input;
             number =
               (case split_once (lit ''://'') v of
                  Some (scheme, rest) \<Rightarrow>
                    if \<not> http_scheme scheme then None
                    else
                      (case rsplit_once (lit ''/'') (link_path rest) of
                         None \<Rightarrow> None
                       | Some (prefix, number) \<Rightarrow>
                           if \<not> ends_with (lit ''/lobby'') prefix then None else Some number)
                | None \<Rightarrow> Some v)
         in case number of
              None \<Rightarrow> None
            | Some n \<Rightarrow>
                if byte_len n \<noteq> 36 then None
                else
                  (case parse_uuid n of
                     None \<Rightarrow> None
                   | Some i \<Rightarrow> if uuid_version i = 7 then Some i else None)))"

section \<open>Invitation secrets\<close>

definition invite_alphabet :: utext where
  "invite_alphabet = lit ''0123456789abcdefghjkmnpqrstvwxyz''"

definition invite_secret_length :: nat where "invite_secret_length = 26"
definition invite_max_input :: nat where "invite_max_input = 64"
definition invite_lifetime_millis :: int where "invite_lifetime_millis = 7 * 24 * 60 * 60 * 1000"

definition invite_link_expires_at :: "utc_millis \<Rightarrow> utc_millis result" where
  "invite_link_expires_at created_at =
     and_then (duration_new invite_lifetime_millis) (utc_checked_add created_at)"

text \<open>\<^verbatim>\<open>value & 31\<close> and \<^verbatim>\<open>value >>= 5\<close> are the remainder and the quotient by 32.\<close>

definition invite_secret_from_entropy :: "8 word list \<Rightarrow> utext" where
  "invite_secret_from_entropy entropy = code_of invite_alphabet invite_secret_length (be_value entropy)"

definition invite_secret_parse :: "utext \<Rightarrow> utext result" where
  "invite_secret_parse input =
     (if byte_len input > invite_max_input
      then Inl (Validation ''invite_secret'' ''must be 26 letters or digits'')
      else
        (let secret = map ascii_lowercase (trim input)
         in if byte_len secret \<noteq> invite_secret_length \<or> \<not> list_all (\<lambda>c. c \<in> set invite_alphabet) secret
            then Inl (Validation ''invite_secret'' ''must be 26 letters or digits'')
            else Inr secret))"

section \<open>Share codes\<close>

definition share_alphabet :: utext where
  "share_alphabet = lit ''0123456789ABCDEFGHIJKLMNOPQRSTUVWXYZabcdefghijklmnopqrstuvwxyz''"

definition share_code_length :: nat where "share_code_length = 6"
definition max_share_link_input :: nat where "max_share_link_input = 512"

definition share_code_from_entropy :: "8 word list \<Rightarrow> utext" where
  "share_code_from_entropy entropy = code_of share_alphabet share_code_length (be_value entropy)"

definition share_code_parse :: "utext \<Rightarrow> utext result" where
  "share_code_parse input =
     (if byte_len input \<noteq> share_code_length \<or> \<not> list_all is_ascii_alphanumeric input
      then Inl (Validation ''room_share_code'' ''must be 6 letters or digits'')
      else Inr input)"

definition ok_option :: "'a result \<Rightarrow> 'a option" where
  "ok_option r = (case r of Inl e \<Rightarrow> None | Inr x \<Rightarrow> Some x)"

definition share_code_of_path :: "utext \<Rightarrow> utext option" where
  "share_code_of_path path =
     (case strip_prefix (lit ''r/'') path of
        Some c \<Rightarrow> Some c
      | None \<Rightarrow> strip_prefix (lit ''explore/'') path)"

definition share_code_from_link :: "utext \<Rightarrow> utext option" where
  "share_code_from_link input =
     (if byte_len input > max_share_link_input then None
      else
        (let v = unquoted input;
             rest =
               (case split_once (lit ''://'') v of
                  Some (scheme, rest) \<Rightarrow> if \<not> http_scheme scheme then None else Some rest
                | None \<Rightarrow> Some v)
         in case rest of
              None \<Rightarrow> None
            | Some rest \<Rightarrow>
                (case split_once (lit ''/'') (link_path rest) of
                   None \<Rightarrow> None
                 | Some (host, path) \<Rightarrow>
                     if host = [] \<or> list_ex is_whitespace host then None
                     else
                       (case share_code_of_path path of
                          None \<Rightarrow> None
                        | Some code \<Rightarrow> ok_option (share_code_parse code)))))"

section \<open>The alphabets\<close>

interpretation join_letters: code_alphabet join_alphabet
  by unfold_locales (simp_all add: join_alphabet_def lit_def)

interpretation invite_letters: code_alphabet invite_alphabet
  by unfold_locales (simp_all add: invite_alphabet_def lit_def)

interpretation share_letters: code_alphabet share_alphabet
  by unfold_locales (simp_all add: share_alphabet_def lit_def)

lemma alphabet_lengths [simp]:
  "length join_alphabet = 32" "length invite_alphabet = 32" "length share_alphabet = 62"
  by (simp_all add: join_alphabet_def invite_alphabet_def share_alphabet_def lit_def)

lemma join_letter_normal:
  "\<forall>c\<in>set join_alphabet. join_code_normal c = c \<and> join_code_normal (ascii_lowercase c) = c \<and>
     c \<noteq> 45 \<and> \<not> is_whitespace c \<and> utf8_width c = 1 \<and> ascii_lowercase c \<noteq> 45 \<and>
     \<not> is_whitespace (ascii_lowercase c) \<and> utf8_width (ascii_lowercase c) = 1"
  by (simp add: join_alphabet_def lit_def join_code_normal_def ascii_uppercase_def ascii_lowercase_def
      is_ascii_lower_def is_ascii_upper_def is_whitespace_def utf8_width_def)

lemma invite_letter_normal:
  "\<forall>c\<in>set invite_alphabet. ascii_lowercase c = c \<and> ascii_lowercase (ascii_uppercase c) = c \<and>
     \<not> is_whitespace c \<and> \<not> is_whitespace (ascii_uppercase c) \<and> utf8_width c = 1 \<and>
     utf8_width (ascii_uppercase c) = 1"
  by (simp add: invite_alphabet_def lit_def ascii_uppercase_def ascii_lowercase_def
      is_ascii_lower_def is_ascii_upper_def is_whitespace_def utf8_width_def)

lemma share_letter: "\<forall>c\<in>set share_alphabet. is_ascii_alphanumeric c"
  by (simp add: share_alphabet_def lit_def ascii_classes)

lemma alphanumeric_plain:
  "is_ascii_alphanumeric c \<Longrightarrow> \<not> is_whitespace c \<and> \<not> is_quote c \<and> c \<noteq> 47 \<and> c \<noteq> 63 \<and> c \<noteq> 35 \<and> utf8_width c = 1"
  by (auto simp: ascii_classes is_whitespace_def is_quote_def utf8_width_def)

lemma host_plain:
  "is_ascii_alphanumeric c \<or> c = 46 \<or> c = 45 \<Longrightarrow>
     \<not> is_whitespace c \<and> \<not> is_quote c \<and> c \<noteq> 47 \<and> c \<noteq> 63 \<and> c \<noteq> 35"
  by (elim disjE) (simp_all add: alphanumeric_plain, simp_all add: is_whitespace_def is_quote_def)

lemma byte_len_ones: "\<forall>c\<in>set s. utf8_width c = 1 \<Longrightarrow> byte_len s = length s"
  by (induction s) auto

section \<open>Join codes are read back\<close>

lemma join_code_chars_append:
  "join_code_chars s = Inr a \<Longrightarrow> join_code_chars t = Inr b \<Longrightarrow> join_code_chars (s @ t) = Inr (a @ b)"
  by (induction s arbitrary: a) (auto simp: result_simps split: if_splits)

lemma join_code_chars_letters:
  "set s \<subseteq> set join_alphabet \<Longrightarrow> join_code_chars s = Inr s"
  "set s \<subseteq> set join_alphabet \<Longrightarrow> join_code_chars (map ascii_lowercase s) = Inr s"
  by (induction s) (use join_letter_normal in \<open>auto simp: result_simps\<close>)

lemma join_code_chars_dash: "join_code_chars (lit ''-'') = Inr []"
  by (simp add: lit_def)

lemma join_code_chars_Inr: "join_code_chars s = Inr c \<Longrightarrow> set c \<subseteq> set join_alphabet"
  by (induction s arbitrary: c) (auto simp: result_simps split: if_splits)

lemma join_code_parse_Inr:
  "join_code_parse s = Inr c \<Longrightarrow> length c = 12 \<and> set c \<subseteq> set join_alphabet"
  by (auto simp: join_code_parse_def join_code_length_def result_simps
      dest: join_code_chars_Inr split: if_splits)

lemma join_code_display_chars:
  assumes "set c \<subseteq> set join_alphabet"
  shows "join_code_chars (join_code_display c) = Inr c"
    and "join_code_chars (map ascii_lowercase (join_code_display c)) = Inr c"
proof -
  have parts: "set (take 4 c) \<subseteq> set join_alphabet" "set (take 4 (drop 4 c)) \<subseteq> set join_alphabet"
    "set (drop 8 c) \<subseteq> set join_alphabet"
    using assms by (meson order_trans set_take_subset set_drop_subset)+
  have c: "take 4 c @ take 4 (drop 4 c) @ drop 8 c = c"
    by (metis append_take_drop_id drop_drop numeral_Bit0)
  note app = join_code_chars_append
  show "join_code_chars (join_code_display c) = Inr c"
    unfolding join_code_display_def
    using app [OF join_code_chars_letters(1) [OF parts(1)] app [OF join_code_chars_dash
          app [OF join_code_chars_letters(1) [OF parts(2)] app [OF join_code_chars_dash
            join_code_chars_letters(1) [OF parts(3)]]]]] c by simp
  have dash: "join_code_chars (map ascii_lowercase (lit ''-'')) = Inr []"
    by (simp add: lit_def ascii_lowercase_def is_ascii_upper_def)
  show "join_code_chars (map ascii_lowercase (join_code_display c)) = Inr c"
    unfolding join_code_display_def map_append
    using app [OF join_code_chars_letters(2) [OF parts(1)] app [OF dash
          app [OF join_code_chars_letters(2) [OF parts(2)] app [OF dash
            join_code_chars_letters(2) [OF parts(3)]]]]] c by simp
qed

lemma join_display_width:
  assumes "set c \<subseteq> set join_alphabet" and "length c = 12"
  shows "byte_len (join_code_display c) = 14" and "byte_len (map ascii_lowercase (join_code_display c)) = 14"
    and "byte_len c = 12"
proof -
  have "set (join_code_display c) \<subseteq> insert 45 (set c)"
    by (auto simp: join_code_display_def lit_def dest: in_set_takeD in_set_dropD)
  with assms(1) have "set (join_code_display c) \<subseteq> insert 45 (set join_alphabet)"
    by blast
  then have w: "utf8_width ch = 1 \<and> utf8_width (ascii_lowercase ch) = 1"
    if "ch \<in> set (join_code_display c)" for ch
  proof (cases "ch = 45")
    case True
    then show ?thesis by (simp add: utf8_width_def ascii_lowercase_def is_ascii_upper_def)
  next
    case False
    with that \<open>set (join_code_display c) \<subseteq> insert 45 (set join_alphabet)\<close> have "ch \<in> set join_alphabet" by blast
    then show ?thesis using join_letter_normal by blast
  qed
  have len: "length (join_code_display c) = 14"
    using assms(2) by (simp add: join_code_display_def lit_def)
  show "byte_len (join_code_display c) = 14"
    using w len byte_len_ones by simp
  show "byte_len (map ascii_lowercase (join_code_display c)) = 14"
    using w len byte_len_ones [of "map ascii_lowercase (join_code_display c)"] by simp
  show "byte_len c = 12"
    using assms join_letter_normal byte_len_ones [of c] by (simp add: subset_iff)
qed

section \<open>Links are read back\<close>

lemma split_by_takeWhile: "hd (split_by p s) = takeWhile (\<lambda>c. \<not> p c) s"
proof (induction s)
  case (Cons c s)
  have "split_by p s \<noteq> []" by (induction s) (auto split: list.split)
  with Cons show ?case by (cases "split_by p s") auto
qed simp

lemma no_suffix: "s \<noteq> [] \<Longrightarrow> last s \<noteq> c \<Longrightarrow> strip_suffix [c] s = None"
  by (cases s rule: rev_cases) (auto simp: strip_suffix_def ends_with_def starts_with_def)

lemma link_path_plain:
  assumes "\<forall>c\<in>set s. c \<noteq> 63 \<and> c \<noteq> 35" and "s \<noteq> []" and "last s \<noteq> 47"
    and "tail = [] \<or> hd tail = 63 \<or> hd tail = 35"
  shows "link_path (s @ tail) = s"
proof -
  have "takeWhile (\<lambda>c. \<not> (c = 63 \<or> c = 35)) (s @ tail) = s"
    using assms(1,4) by (cases tail) (auto simp: takeWhile_append)
  moreover have "strip_suffix (lit ''/'') s = None"
    using assms(2,3) no_suffix [of s 47] by (simp add: lit_def)
  ultimately show ?thesis by (simp add: link_path_def split_by_takeWhile)
qed

lemma unquoted_plain: "\<forall>c\<in>set s. \<not> is_whitespace c \<and> \<not> is_quote c \<Longrightarrow> unquoted s = s"
  by (simp add: unquoted_def trim_id trim_by_id)

lemma https_scheme: "http_scheme (lit ''https'')"
  by (simp add: http_scheme_def eq_ignore_ascii_case_def)

section \<open>Properties\<close>

text \<open>
  A join code survives every way it is passed on: each generated code, and each accepted
  one, is accepted again as it is, as it is displayed, and as displayed but typed in lower case,
  always as the same code; and two random seeds give the same code only if they agree in
  their low 60 bits.
\<close>

theorem join_code_roundtrip:
  assumes "join_code_parse s = Inr c \<or> c = join_code_from_entropy e"
  shows "join_code_parse c = Inr c \<and> join_code_parse (join_code_display c) = Inr c \<and>
    join_code_parse (map ascii_lowercase (join_code_display c)) = Inr c \<and>
    (join_code_from_entropy e = join_code_from_entropy e' \<longleftrightarrow> be_value e mod 2 ^ 60 = be_value e' mod 2 ^ 60)"
proof -
  have c: "set c \<subseteq> set join_alphabet" "length c = 12"
    using assms join_code_parse_Inr [of s c] join_letters.code_of_chars join_letters.length_code_of
    by (auto simp: join_code_from_entropy_def join_code_length_def)
  have "(32::nat) ^ 12 = 2 ^ 60" by simp
  then have "join_code_from_entropy e = join_code_from_entropy e' \<longleftrightarrow>
      be_value e mod 2 ^ 60 = be_value e' mod 2 ^ 60"
    by (simp only: join_code_from_entropy_def join_code_length_def join_letters.code_of_eq alphabet_lengths)
  then show ?thesis
    using join_code_chars_letters(1) [OF c(1)] join_code_display_chars [OF c(1)]
      join_display_width [OF c] c(2)
    by (simp add: join_code_parse_def join_code_max_input_def join_code_length_def)
qed

theorem join_code_roundtrip_witness:
  "join_code_parse (join_code_display (join_code_from_entropy [1, 2, 3, 4, 5, 6, 7, 8])) =
     Inr (join_code_from_entropy [1, 2, 3, 4, 5, 6, 7, 8])"
  using join_code_roundtrip [of "[]" "join_code_from_entropy [1, 2, 3, 4, 5, 6, 7, 8]"
      "[1, 2, 3, 4, 5, 6, 7, 8]"] by blast

text \<open>
  The secret of an invitation link loses nothing: the secret made from 16 random bytes is
  accepted as it is and when copied by hand in capitals, and different bytes give different
  secrets.
\<close>

theorem invite_secret_roundtrip:
  assumes "length e = 16" and "length e' = 16"
  shows "invite_secret_parse (invite_secret_from_entropy e) = Inr (invite_secret_from_entropy e) \<and>
    invite_secret_parse (map ascii_uppercase (invite_secret_from_entropy e)) = Inr (invite_secret_from_entropy e) \<and>
    (invite_secret_from_entropy e = invite_secret_from_entropy e' \<longleftrightarrow> e = e')"
proof -
  let ?c = "invite_secret_from_entropy e"
  have c: "set ?c \<subseteq> set invite_alphabet" "length ?c = 26"
    using invite_letters.code_of_chars invite_letters.length_code_of
    by (simp_all add: invite_secret_from_entropy_def invite_secret_length_def)
  have n: "\<forall>ch\<in>set ?c. ascii_lowercase ch = ch \<and> ascii_lowercase (ascii_uppercase ch) = ch \<and>
     \<not> is_whitespace ch \<and> \<not> is_whitespace (ascii_uppercase ch) \<and> utf8_width ch = 1 \<and>
     utf8_width (ascii_uppercase ch) = 1"
    using c(1) invite_letter_normal by blast
  have w: "byte_len ?c = 26" "byte_len (map ascii_uppercase ?c) = 26"
    using n c(2) byte_len_ones [of ?c] byte_len_ones [of "map ascii_uppercase ?c"] by simp_all
  have low: "map ascii_lowercase ?c = ?c" "map ascii_lowercase (map ascii_uppercase ?c) = ?c"
    using n by (simp_all add: map_idI)
  have t: "trim ?c = ?c" "trim (map ascii_uppercase ?c) = map ascii_uppercase ?c"
    using n by (auto intro!: trim_id)
  have l: "list_all (\<lambda>c. c \<in> set invite_alphabet) ?c"
    using c(1) by (auto simp: list_all_iff)
  have "be_value e < 32 ^ 26" "be_value e' < 32 ^ 26"
    using be_value_bound [of e] be_value_bound [of e'] assms by simp_all
  then have "?c = invite_secret_from_entropy e' \<longleftrightarrow> be_value e = be_value e'"
    by (simp only: invite_secret_from_entropy_def invite_letters.code_of_eq alphabet_lengths
        invite_secret_length_def mod_less)
  also have "\<dots> \<longleftrightarrow> e = e'"
    using be_value_inject assms by simp
  finally show ?thesis
    by (simp add: invite_secret_parse_def invite_max_input_def invite_secret_length_def Let_def w low t l
        del: map_map)
qed

theorem invite_secret_roundtrip_witness:
  "invite_secret_parse (map ascii_uppercase (invite_secret_from_entropy (replicate 16 7))) =
     Inr (invite_secret_from_entropy (replicate 16 7))"
  using invite_secret_roundtrip [of "replicate 16 7" "replicate 16 7"] by simp

text \<open>
  A shared link always leads to its room: for every generated share code, the link on any
  host, under either path, with any query or fragment behind it, is read back as that code.
\<close>

theorem share_link_roundtrip:
  assumes "c = share_code_from_entropy e" and "path \<in> {lit ''r/'', lit ''explore/''}"
    and "host \<noteq> []" and "list_all (\<lambda>ch. is_ascii_alphanumeric ch \<or> ch = 46 \<or> ch = 45) host"
    and "tail = [] \<or> hd tail = 63 \<or> hd tail = 35"
    and "list_all (\<lambda>ch. \<not> is_whitespace ch \<and> \<not> is_quote ch) tail"
    and "byte_len host + byte_len tail \<le> 480"
  shows "share_code_from_link (lit ''https://'' @ host @ lit ''/'' @ path @ c @ tail) = Some c"
proof -
  have c: "\<forall>ch\<in>set c. is_ascii_alphanumeric ch" "length c = 6"
    using share_letters.code_of_chars share_letter share_letters.length_code_of assms(1)
    by (auto simp: share_code_from_entropy_def share_code_length_def)
  have cw: "byte_len c = 6" using c alphanumeric_plain byte_len_ones [of c] by simp
  have parse: "share_code_parse c = Inr c"
    using c cw by (auto simp: share_code_parse_def share_code_length_def list_all_iff)
  have h: "\<forall>ch\<in>set host. \<not> is_whitespace ch \<and> \<not> is_quote ch \<and> ch \<noteq> 47 \<and> ch \<noteq> 63 \<and> ch \<noteq> 35"
    using assms(4) host_plain by (simp add: list_all_iff)
  have p: "\<forall>ch\<in>set path. \<not> is_whitespace ch \<and> \<not> is_quote ch \<and> ch \<noteq> 63 \<and> ch \<noteq> 35" "byte_len path \<le> 8"
    using assms(2) by (elim insertE; simp add: lit_def is_whitespace_def is_quote_def utf8_width_def)+
  let ?rest = "host @ lit ''/'' @ path @ c"
  let ?input = "lit ''https'' @ lit ''://'' @ ?rest @ tail"
  have fixed: "\<forall>ch\<in>set (lit ''https''). \<not> is_whitespace ch \<and> \<not> is_quote ch"
    "\<forall>ch\<in>set (lit ''://''). \<not> is_whitespace ch \<and> \<not> is_quote ch"
    "\<forall>ch\<in>set (lit ''/''). \<not> is_whitespace ch \<and> \<not> is_quote ch"
    by (simp_all add: lit_def is_whitespace_def is_quote_def)
  have "\<forall>ch\<in>set tail. \<not> is_whitespace ch \<and> \<not> is_quote ch" "\<forall>ch\<in>set c. \<not> is_whitespace ch \<and> \<not> is_quote ch"
    using assms(6) c(1) alphanumeric_plain by (simp_all add: list_all_iff)
  with fixed h p(1) have plain: "unquoted ?input = ?input"
    by (intro unquoted_plain) (simp only: set_append ball_Un, blast)
  have scheme: "split_once (lit ''://'') ?input = Some (lit ''https'', ?rest @ tail)"
    by (rule split_once_before) (simp_all add: lit_def)
  have ne: "c \<noteq> []" using c(2) by auto
  then have "last ?rest = last c" by simp
  then have "last ?rest \<noteq> 47" using c(1) ne alphanumeric_plain by (metis last_in_set)
  then have lp: "link_path (?rest @ tail) = ?rest"
    using h p(1) c(1) alphanumeric_plain assms(5) ne by (intro link_path_plain) (auto simp: lit_def)
  have sp: "split_once (lit ''/'') ?rest = Some (host, path @ c)"
    using h by (intro split_once_before) (auto simp: lit_def)
  have code: "share_code_of_path (path @ c) = Some c"
    using assms(2) by (auto simp: share_code_of_path_def strip_prefix_def starts_with_def lit_def)
  have "byte_len ?input \<le> 512"
    using assms(7) p(2) cw by (simp add: lit_def utf8_width_def)
  then have "share_code_from_link ?input = Some c"
    using h assms(3)
    by (simp add: share_code_from_link_def max_share_link_input_def Let_def plain scheme https_scheme lp sp code
        parse ok_option_def list_ex_iff del: append_assoc)
  then show ?thesis by (simp add: lit_def)
qed

theorem share_link_roundtrip_witness:
  "share_code_from_link (lit ''https://'' @ lit ''rooms.example'' @ lit ''/'' @ lit ''r/'' @
     share_code_from_entropy (replicate 16 9) @ lit ''?from=a'') = Some (share_code_from_entropy (replicate 16 9))"
  by (rule share_link_roundtrip)
    (simp_all add: lit_def ascii_classes is_whitespace_def is_quote_def utf8_width_def)

end
