(* ===== verification/Devices.thy ===== *)
theory Devices
  imports Texts Utc_Clock
begin

text \<open>
  Devices and their token families (\<^verbatim>\<open>devices.rs\<close>): registration, proof of possession,
  binding to Matrix and revocation of a device; renewal, revocation and compromise of the family
  of refresh tokens a device holds.
\<close>

section \<open>Devices\<close>

datatype device_platform = Windows | MacOs | Linux | Web | Network

definition platform_str :: "device_platform \<Rightarrow> string" where
  "platform_str p =
     (case p of
        Windows \<Rightarrow> ''windows'' | MacOs \<Rightarrow> ''macos'' | Linux \<Rightarrow> ''linux'' | Web \<Rightarrow> ''web''
      | Network \<Rightarrow> ''network'')"

definition platform_of_str :: "string \<Rightarrow> device_platform result" where
  "platform_of_str s =
     (if s = ''windows'' then Inr Windows
      else if s = ''macos'' then Inr MacOs
      else if s = ''linux'' then Inr Linux
      else if s = ''web'' then Inr Web
      else if s = ''network'' then Inr Network
      else Inl (Validation ''device_platform'' ''unknown platform''))"

definition platform_parse_client :: "string \<Rightarrow> device_platform result" where
  "platform_parse_client s =
     and_then (platform_of_str s) (\<lambda>p.
     if p = Network then Inl (Validation ''device_platform'' ''clients cannot register network devices'')
     else Inr p)"

datatype device_trust = TrustPending | Verified | TrustRevoked

definition trust_str :: "device_trust \<Rightarrow> string" where
  "trust_str t =
     (case t of TrustPending \<Rightarrow> ''pending'' | Verified \<Rightarrow> ''verified'' | TrustRevoked \<Rightarrow> ''revoked'')"

definition trust_of_str :: "string \<Rightarrow> device_trust result" where
  "trust_of_str s =
     (if s = ''pending'' then Inr TrustPending
      else if s = ''verified'' then Inr Verified
      else if s = ''revoked'' then Inr TrustRevoked
      else Inl (Validation ''device_trust_state'' ''unknown state''))"

interpretation platform_codec: codec platform_str platform_of_str
  by unfold_locales
    (auto simp: platform_str_def platform_of_str_def split: device_platform.splits if_splits)

interpretation trust_codec: codec trust_str trust_of_str
  by unfold_locales (auto simp: trust_str_def trust_of_str_def split: device_trust.splits if_splits)

definition public_signing_key_new :: "8 word list \<Rightarrow> 8 word list result" where
  "public_signing_key_new bytes =
     (if length bytes \<noteq> 32 then Inl (Validation ''device_public_signing_key'' ''must be 32 bytes'')
      else Inr bytes)"

record device =
  dv_id :: device_id
  dv_principal_id :: principal_id
  dv_label :: utext
  dv_platform :: device_platform
  dv_public_signing_key :: "8 word list"
  dv_matrix_device_id :: "utext option"
  dv_trust :: device_trust
  dv_last_seen_at :: "utc_millis option"
  dv_revoked_at :: "utc_millis option"
  dv_created_at :: utc_millis

definition validate_label :: "utext \<Rightarrow> unit result" where
  "validate_label label =
     (if label = [] \<or> byte_len label > 128 \<or> list_ex is_control label
      then Inl (Validation ''device_label'' ''empty, too long or control characters'')
      else Inr ())"

definition matrix_device_id_is_bad :: "utext \<Rightarrow> bool" where
  "matrix_device_id_is_bad v \<longleftrightarrow> v = [] \<or> byte_len v > 255 \<or> list_ex is_control v"

definition device_register ::
  "device_id \<Rightarrow> principal_id \<Rightarrow> utext \<Rightarrow> device_platform \<Rightarrow> 8 word list \<Rightarrow> utc_millis \<Rightarrow> device result" where
  "device_register i p label platform key created_at =
     and_then (validate_label label) (\<lambda>_.
     Inr \<lparr>dv_id = i, dv_principal_id = p, dv_label = label, dv_platform = platform,
          dv_public_signing_key = key, dv_matrix_device_id = None, dv_trust = TrustPending,
          dv_last_seen_at = None, dv_revoked_at = None, dv_created_at = created_at\<rparr>)"

definition device_restore :: "device \<Rightarrow> device result" where
  "device_restore d =
     and_then (validate_label (dv_label d)) (\<lambda>_.
     if opt_any (dv_matrix_device_id d) matrix_device_id_is_bad then
       Inl (Validation ''matrix_device_id'' ''too long or control characters'')
     else if (dv_trust d = TrustRevoked) \<noteq> (dv_revoked_at d \<noteq> None) then
       Inl (Validation ''device_revoked_at'' ''must agree with the revoked state'')
     else if opt_any (dv_revoked_at d) (\<lambda>t. t < dv_created_at d) \<or>
             opt_any (dv_last_seen_at d) (\<lambda>t. t < dv_created_at d) then
       Inl (Validation ''device_timestamp'' ''before the creation'')
     else Inr d)"

definition accepts_authenticated_requests :: "device \<Rightarrow> bool" where
  "accepts_authenticated_requests d \<longleftrightarrow> dv_trust d = Verified"

definition device_verify :: "device \<Rightarrow> (unit, device) update" where
  "device_verify d =
     (if dv_trust d = TrustRevoked
      then (Inl (InvalidTransition ''device'' (trust_str TrustRevoked) (trust_str Verified)), d)
      else (Inr (), d\<lparr>dv_trust := Verified\<rparr>))"

definition device_bind_matrix :: "utext \<Rightarrow> device \<Rightarrow> (unit, device) update" where
  "device_bind_matrix m d =
     (if \<not> accepts_authenticated_requests d then
        (Inl (InvalidTransition ''device'' (trust_str (dv_trust d)) ''matrix_bound''), d)
      else if matrix_device_id_is_bad m then
        (Inl (Validation ''matrix_device_id'' ''too long or control characters''), d)
      else
        (case dv_matrix_device_id d of
           None \<Rightarrow> (Inr (), d\<lparr>dv_matrix_device_id := Some m\<rparr>)
         | Some existing \<Rightarrow>
             if existing = m then (Inr (), d)
             else (Inl (InvalidTransition ''device'' ''matrix_bound'' ''matrix_rebound''), d)))"

definition device_record_seen :: "utc_millis \<Rightarrow> device \<Rightarrow> (unit, device) update" where
  "device_record_seen t d =
     (if \<not> accepts_authenticated_requests d then
        (Inl (InvalidTransition ''device'' (trust_str (dv_trust d)) ''seen''), d)
      else if t < dv_created_at d \<or> opt_any (dv_last_seen_at d) (\<lambda>last. t < last) then
        (Inl (Validation ''device_last_seen_at'' ''must not go back''), d)
      else (Inr (), d\<lparr>dv_last_seen_at := Some t\<rparr>))"

definition device_revoke :: "utc_millis \<Rightarrow> device \<Rightarrow> (unit, device) update" where
  "device_revoke t d =
     (if t < dv_created_at d then
        (Inl (Validation ''device_revoked_at'' ''before the creation''), d)
      else if dv_trust d \<noteq> TrustRevoked then
        (Inr (), d\<lparr>dv_trust := TrustRevoked, dv_revoked_at := Some t\<rparr>)
      else (Inr (), d))"

datatype device_command =
  VerifyDevice | BindMatrix utext | RecordSeen utc_millis | RevokeDevice utc_millis

fun device_step :: "device_command \<Rightarrow> device \<Rightarrow> (unit, device) update" where
  "device_step VerifyDevice d = device_verify d"
| "device_step (BindMatrix m) d = device_bind_matrix m d"
| "device_step (RecordSeen t) d = device_record_seen t d"
| "device_step (RevokeDevice t) d = device_revoke t d"

section \<open>Token families\<close>

datatype family_state = FamilyActive | FamilyRevoked | Compromised

definition family_state_str :: "family_state \<Rightarrow> string" where
  "family_state_str st =
     (case st of
        FamilyActive \<Rightarrow> ''active'' | FamilyRevoked \<Rightarrow> ''revoked'' | Compromised \<Rightarrow> ''compromised'')"

definition family_state_of_str :: "string \<Rightarrow> family_state result" where
  "family_state_of_str s =
     (if s = ''active'' then Inr FamilyActive
      else if s = ''revoked'' then Inr FamilyRevoked
      else if s = ''compromised'' then Inr Compromised
      else Inl (Validation ''device_token_family_state'' ''unknown state''))"

interpretation family_state_codec: codec family_state_str family_state_of_str
  by unfold_locales
    (auto simp: family_state_str_def family_state_of_str_def split: family_state.splits if_splits)

record token_family =
  fm_id :: device_token_family_id
  fm_device_id :: device_id
  fm_state :: family_state
  fm_created_at :: utc_millis
  fm_authenticated_at :: "utc_millis option"
  fm_expires_at :: utc_millis
  fm_revoked_at :: "utc_millis option"
  fm_compromised_at :: "utc_millis option"

definition family_new ::
  "device_token_family_id \<Rightarrow> device_id \<Rightarrow> utc_millis \<Rightarrow> utc_millis \<Rightarrow> token_family result" where
  "family_new i d created_at expires_at =
     (if expires_at \<le> created_at
      then Inl (Validation ''device_token_family_expires_at'' ''must be after the creation'')
      else Inr \<lparr>fm_id = i, fm_device_id = d, fm_state = FamilyActive, fm_created_at = created_at,
                fm_authenticated_at = None, fm_expires_at = expires_at, fm_revoked_at = None,
                fm_compromised_at = None\<rparr>)"

definition with_authenticated_at :: "utc_millis \<Rightarrow> token_family \<Rightarrow> token_family result" where
  "with_authenticated_at t f =
     (if t > fm_created_at f
      then Inl (Validation ''device_token_family_authenticated_at'' ''after the creation'')
      else Inr (f\<lparr>fm_authenticated_at := Some t\<rparr>))"

definition family_restore :: "token_family \<Rightarrow> token_family result" where
  "family_restore f =
     (if fm_expires_at f \<le> fm_created_at f
         \<or> opt_any (fm_revoked_at f) (\<lambda>t. t < fm_created_at f)
         \<or> opt_any (fm_compromised_at f) (\<lambda>t. t < fm_created_at f)
         \<or> fm_state f = FamilyActive \<and> (fm_revoked_at f \<noteq> None \<or> fm_compromised_at f \<noteq> None)
         \<or> fm_state f = FamilyRevoked \<and> (fm_revoked_at f = None \<or> fm_compromised_at f \<noteq> None)
         \<or> fm_state f = Compromised \<and> (fm_revoked_at f = None \<or> fm_compromised_at f = None)
      then Inl (Validation ''device_token_family_state'' ''state and times disagree'')
      else Inr (f\<lparr>fm_authenticated_at := None\<rparr>))"

definition lifetime_anchor :: "token_family \<Rightarrow> utc_millis" where
  "lifetime_anchor f = unwrap_or (fm_authenticated_at f) (fm_created_at f)"

definition allows_rotation :: "token_family \<Rightarrow> utc_millis \<Rightarrow> bool" where
  "allows_rotation f now \<longleftrightarrow> fm_state f = FamilyActive \<and> now < fm_expires_at f"

definition family_renew :: "sliding_lifetime \<Rightarrow> utc_millis \<Rightarrow> token_family \<Rightarrow> (unit, token_family) update" where
  "family_renew l now f =
     (if \<not> allows_rotation f now then
        (Inl (InvalidTransition ''device_token_family'' ''inactive'' ''renewed''), f)
      else
        attempt (sl_renewed_until l (lifetime_anchor f) now) f (\<lambda>renewed.
        (Inr (), if renewed > fm_expires_at f then f\<lparr>fm_expires_at := renewed\<rparr> else f)))"

definition family_revoke :: "utc_millis \<Rightarrow> token_family \<Rightarrow> (unit, token_family) update" where
  "family_revoke t f =
     (if t < fm_created_at f then
        (Inl (Validation ''device_token_family_revoked_at'' ''before the creation''), f)
      else if fm_state f = FamilyActive then
        (Inr (), f\<lparr>fm_state := FamilyRevoked, fm_revoked_at := Some t\<rparr>)
      else (Inr (), f))"

definition family_mark_compromised :: "utc_millis \<Rightarrow> token_family \<Rightarrow> (unit, token_family) update" where
  "family_mark_compromised t f =
     (if t < fm_created_at f then
        (Inl (Validation ''device_token_family_compromise_detected_at'' ''before the creation''), f)
      else if fm_state f \<noteq> Compromised then
        (Inr (), f\<lparr>fm_state := Compromised,
                   fm_revoked_at := Some (unwrap_or (fm_revoked_at f) t),
                   fm_compromised_at := Some t\<rparr>)
      else (Inr (), f))"

datatype family_command =
  RenewFamily sliding_lifetime utc_millis | RevokeFamily utc_millis | MarkCompromised utc_millis

fun family_step :: "family_command \<Rightarrow> token_family \<Rightarrow> (unit, token_family) update" where
  "family_step (RenewFamily l now) f = family_renew l now f"
| "family_step (RevokeFamily t) f = family_revoke t f"
| "family_step (MarkCompromised t) f = family_mark_compromised t f"

section \<open>Lemmas on devices\<close>

lemmas device_ops = device_verify_def device_bind_matrix_def device_record_seen_def device_revoke_def
  accepts_authenticated_requests_def

definition device_ok :: "device \<Rightarrow> bool" where
  "device_ok d \<longleftrightarrow> device_restore d = Inr d"

lemma device_ok_iff:
  "device_ok d \<longleftrightarrow> validate_label (dv_label d) = Inr () \<and>
     \<not> opt_any (dv_matrix_device_id d) matrix_device_id_is_bad \<and>
     (dv_trust d = TrustRevoked \<longleftrightarrow> dv_revoked_at d \<noteq> None) \<and>
     (\<forall>t. dv_revoked_at d = Some t \<longrightarrow> dv_created_at d \<le> t) \<and>
     (\<forall>t. dv_last_seen_at d = Some t \<longrightarrow> dv_created_at d \<le> t)"
  by (auto simp: device_ok_def device_restore_def result_simps opt_any_iff not_less)

lemma device_step_ok: "device_ok d \<Longrightarrow> device_ok (snd (device_step c d))"
  by (cases c)
    (auto simp: device_ops device_ok_iff not_less split: option.splits if_splits)

interpretation device: guarded_machine device_step "\<lambda>_. True" device_ok
  by unfold_locales (rule device_step_ok)

interpretation device_end: final_machine device_step "\<lambda>d. dv_trust d = TrustRevoked"
  by unfold_locales (case_tac c; simp add: device_ops)

lemma device_register_ok: "device_register i p label platform key t = Inr d \<Longrightarrow> device_ok d"
  by (auto simp: device_register_def result_simps device_ok_iff)

lemma matrix_binding_step:
  "dv_matrix_device_id d = Some m \<Longrightarrow> dv_matrix_device_id (snd (device_step c d)) = Some m"
  by (cases c) (auto simp: device_ops split: if_splits)

lemma matrix_binding_kept:
  "dv_matrix_device_id d = Some m \<Longrightarrow> dv_matrix_device_id (replay device_step cs d) = Some m"
  by (induction cs arbitrary: d) (simp_all add: matrix_binding_step)

section \<open>Lemmas on token families\<close>

lemmas family_ops = family_renew_def family_revoke_def family_mark_compromised_def allows_rotation_def

definition family_ok :: "token_family \<Rightarrow> bool" where
  "family_ok f \<longleftrightarrow> family_restore f = Inr (f\<lparr>fm_authenticated_at := None\<rparr>) \<and>
     opt_all (fm_authenticated_at f) (\<lambda>t. t \<le> fm_created_at f)"

lemma family_restore_Inr:
  "family_restore f = Inr g \<longleftrightarrow> g = f\<lparr>fm_authenticated_at := None\<rparr> \<and>
     fm_created_at f < fm_expires_at f \<and>
     (\<forall>t. fm_revoked_at f = Some t \<longrightarrow> fm_created_at f \<le> t) \<and>
     (\<forall>t. fm_compromised_at f = Some t \<longrightarrow> fm_created_at f \<le> t) \<and>
     (fm_state f = FamilyActive \<longleftrightarrow> fm_revoked_at f = None) \<and>
     (fm_state f = Compromised \<longleftrightarrow> fm_compromised_at f \<noteq> None)"
  by (cases "fm_state f") (auto simp: family_restore_def opt_any_iff not_less not_le)

lemma family_step_ok: "family_ok f \<Longrightarrow> family_ok (snd (family_step c f))"
proof (cases c)
  case (RenewFamily l now)
  moreover assume "family_ok f"
  ultimately show ?thesis
    by (cases "sl_renewed_until l (lifetime_anchor f) now")
      (auto simp: family_ops family_ok_def family_restore_Inr)
next
  case (RevokeFamily t)
  moreover assume "family_ok f"
  ultimately show ?thesis
    by (auto simp: family_ops family_ok_def family_restore_Inr not_less)
next
  case (MarkCompromised t)
  moreover assume "family_ok f"
  ultimately show ?thesis
    by (cases "fm_revoked_at f") (auto simp: family_ops family_ok_def family_restore_Inr not_less)
qed

interpretation family: guarded_machine family_step "\<lambda>_. True" family_ok
  by unfold_locales (rule family_step_ok)

lemma family_anchor_step [simp]:
  "lifetime_anchor (snd (family_step c f)) = lifetime_anchor f"
proof (cases c)
  case (RenewFamily l now)
  then show ?thesis
    by (cases "sl_renewed_until l (lifetime_anchor f) now") (simp_all add: family_ops lifetime_anchor_def)
qed (simp_all add: family_ops lifetime_anchor_def)

lemma replay_family_anchor [simp]: "lifetime_anchor (replay family_step cs f) = lifetime_anchor f"
  by (induction cs arbitrary: f) simp_all

text \<open>The longest maximum among the lifetimes that a list of commands uses.\<close>

fun maximum_used :: "family_command list \<Rightarrow> int" where
  "maximum_used [] = 0"
| "maximum_used (RenewFamily l now # cs) = max (duration_value (sl_maximum l)) (maximum_used cs)"
| "maximum_used (c # cs) = maximum_used cs"

lemma family_step_expiry:
  "fm_expires_at f \<le> fm_expires_at (snd (family_step c f)) \<and>
   utc_value (fm_expires_at (snd (family_step c f))) \<le>
     max (utc_value (fm_expires_at f)) (utc_value (lifetime_anchor f) + maximum_used [c])"
proof (cases c)
  case (RenewFamily l now)
  then show ?thesis
    by (cases "sl_renewed_until l (lifetime_anchor f) now")
      (auto simp: family_ops dest!: sl_renewed_until_value)
qed (auto simp: family_ops)

lemma maximum_used_cons: "maximum_used (c # cs) = max (maximum_used [c]) (maximum_used cs)"
  if "0 \<le> maximum_used cs"
  using that by (cases c) auto

lemma maximum_used_nonneg: "0 \<le> maximum_used cs"
  by (induction cs rule: maximum_used.induct) auto

lemma replay_family_expiry:
  "fm_expires_at f \<le> fm_expires_at (replay family_step cs f) \<and>
   utc_value (fm_expires_at (replay family_step cs f)) \<le>
     max (utc_value (fm_expires_at f)) (utc_value (lifetime_anchor f) + maximum_used cs)"
proof (induction cs arbitrary: f)
  case (Cons c cs)
  have "fm_expires_at f \<le> fm_expires_at (replay family_step (c # cs) f)"
    using family_step_expiry [of f c] Cons [of "snd (family_step c f)"] by (auto intro: order_trans)
  moreover have "utc_value (fm_expires_at (replay family_step (c # cs) f)) \<le>
     max (utc_value (fm_expires_at f)) (utc_value (lifetime_anchor f) + maximum_used (c # cs))"
    using family_step_expiry [of f c] Cons [of "snd (family_step c f)"]
      maximum_used_cons [OF maximum_used_nonneg, of c cs]
    by auto
  ultimately show ?case by blast
qed (simp add: maximum_used_nonneg)

lemma family_ended_step:
  "fm_state f \<noteq> FamilyActive \<Longrightarrow> fm_state (snd (family_step c f)) \<noteq> FamilyActive"
  by (cases c) (auto simp: family_ops)

lemma replay_family_ended:
  "fm_state f \<noteq> FamilyActive \<Longrightarrow> fm_state (replay family_step cs f) \<noteq> FamilyActive"
  by (induction cs arbitrary: f) (simp_all add: family_ended_step)

section \<open>Properties\<close>

text \<open>
  A registered device stays restorable under any sequence of operations; it never accepts
  authenticated requests again once it was revoked and nothing about it changes any more; and
  its Matrix device, once bound, is never replaced.
\<close>

theorem device_revocation_final:
  assumes "device_register i p label platform key t = Inr d0" and "d = replay device_step cs d0"
  shows "device_restore d = Inr d \<and>
    (dv_trust d = TrustRevoked \<longrightarrow> replay device_step ds d = d \<and> \<not> accepts_authenticated_requests (replay device_step ds d)) \<and>
    (\<forall>m. dv_matrix_device_id d = Some m \<longrightarrow> dv_matrix_device_id (replay device_step ds d) = Some m)"
proof -
  have "device_ok d"
    unfolding assms(2) using device_register_ok [OF assms(1)]
    by (rule device.replay_wf [rotated]) (simp add: list_all_iff)
  then show ?thesis
    using device_end.replay_final [of d ds] matrix_binding_kept
    by (auto simp: device_ok_def accepts_authenticated_requests_def)
qed

theorem device_revocation_final_witness:
  "\<not> accepts_authenticated_requests (replay device_step [VerifyDevice]
     (replay device_step [VerifyDevice, RevokeDevice (UtcMillis 9)]
        \<lparr>dv_id = 1, dv_principal_id = 2, dv_label = [97], dv_platform = Linux, dv_public_signing_key = replicate 32 0,
         dv_matrix_device_id = None, dv_trust = TrustPending, dv_last_seen_at = None, dv_revoked_at = None,
         dv_created_at = UtcMillis 5\<rparr>))"
  (is "\<not> accepts_authenticated_requests (replay device_step ?ds (replay device_step ?cs ?d))")
proof -
  have r: "device_register 1 2 [97] Linux (replicate 32 0) (UtcMillis 5) = Inr ?d"
    by (simp add: device_register_def validate_label_def utf8_width_def is_control_def)
  have "dv_trust (replay device_step ?cs ?d) = TrustRevoked"
    by (simp add: device_ops)
  then show ?thesis
    using device_revocation_final [OF r refl, of ?cs ?ds] by blast
qed

text \<open>
  However often its tokens are rotated, a device has to sign in again in the end: through any
  sequence of renewals, revocations and compromise reports the family's expiry only moves
  forward, and never beyond the greater of its first expiry and the anchor plus the longest maximum
  lifetime in use.
\<close>

theorem token_family_lifetime_bounded:
  "fm_expires_at f \<le> fm_expires_at (replay family_step cs f) \<and>
   utc_value (fm_expires_at (replay family_step cs f)) \<le>
     max (utc_value (fm_expires_at f)) (utc_value (lifetime_anchor f) + maximum_used cs)"
  by (rule replay_family_expiry)

text \<open>
  A token family that was revoked or whose token was replayed never rotates again, at any
  time; and every family that a sequence of operations makes out of a new one is restorable.
\<close>

theorem token_family_end_final:
  assumes "family_new i d created expires = Inr f0" and "f = replay family_step cs f0"
  shows "family_restore f = Inr (f\<lparr>fm_authenticated_at := None\<rparr>) \<and>
    (fm_state f \<noteq> FamilyActive \<longrightarrow> \<not> allows_rotation (replay family_step ds f) now)"
proof -
  have "family_ok f0"
    using assms(1) by (auto simp: family_new_def family_ok_def family_restore_Inr not_le split: if_splits)
  then have "family_ok f"
    unfolding assms(2) by (rule family.replay_wf [rotated]) (simp add: list_all_iff)
  then show ?thesis
    using replay_family_ended [of f ds] by (simp add: family_ok_def allows_rotation_def)
qed

theorem token_family_end_final_witness:
  "\<exists>f. fm_state f = Compromised \<and>
     \<not> allows_rotation (replay family_step [RenewFamily \<lparr>sl_idle = DurationMillis 5, sl_maximum = DurationMillis 9\<rparr> (UtcMillis 3)] f)
        (UtcMillis 4)"
proof -
  obtain f where f: "family_new 1 2 (UtcMillis 1) (UtcMillis 10) = Inr f"
    by (simp add: family_new_def)
  let ?f = "replay family_step [MarkCompromised (UtcMillis 2)] f"
  have "fm_state ?f = Compromised"
    using f by (auto simp: family_new_def family_ops)
  then show ?thesis
    using token_family_end_final [OF f refl] by (intro exI [of _ ?f]) (simp del: replay.simps)
qed

end
