(* ===== verification/Agents.thy ===== *)
theory Agents
  imports Texts Utc_Clock
begin

text \<open>
  Agents (\<^verbatim>\<open>agents.rs\<close>): the agent record, the members who may act for it and the roles they
  hold, its adapter bindings, and its running instances with their connection leases.
\<close>

section \<open>The agent record\<close>

datatype agent_status = AgentActive | AgentSuspended | AgentRetired

definition agent_status_str :: "agent_status \<Rightarrow> string" where
  "agent_status_str st =
     (case st of AgentActive \<Rightarrow> ''active'' | AgentSuspended \<Rightarrow> ''suspended'' | AgentRetired \<Rightarrow> ''retired'')"

definition agent_status_of_str :: "string \<Rightarrow> agent_status result" where
  "agent_status_of_str s =
     (if s = ''active'' then Inr AgentActive
      else if s = ''suspended'' then Inr AgentSuspended
      else if s = ''retired'' then Inr AgentRetired
      else Inl (Validation ''agent_status'' ''unknown state''))"

datatype agent_visibility = AgentPublic | AgentUnlisted | AgentPrivate

definition agent_visibility_str :: "agent_visibility \<Rightarrow> string" where
  "agent_visibility_str v =
     (case v of AgentPublic \<Rightarrow> ''public'' | AgentUnlisted \<Rightarrow> ''unlisted'' | AgentPrivate \<Rightarrow> ''private'')"

definition agent_visibility_of_str :: "string \<Rightarrow> agent_visibility result" where
  "agent_visibility_of_str s =
     (if s = ''public'' then Inr AgentPublic
      else if s = ''unlisted'' then Inr AgentUnlisted
      else if s = ''private'' then Inr AgentPrivate
      else Inl (Validation ''agent_visibility'' ''unknown visibility''))"

interpretation agent_status_codec: codec agent_status_str agent_status_of_str
  by unfold_locales
    (auto simp: agent_status_str_def agent_status_of_str_def split: agent_status.splits if_splits)

interpretation agent_visibility_codec: codec agent_visibility_str agent_visibility_of_str
  by unfold_locales
    (auto simp: agent_visibility_str_def agent_visibility_of_str_def
      split: agent_visibility.splits if_splits)

record agent =
  ag_id :: agent_id
  ag_status :: agent_status
  ag_version :: aggregate_version

definition agent_register :: "agent_id \<Rightarrow> agent" where
  "agent_register i = \<lparr>ag_id = i, ag_status = AgentActive, ag_version = version_initial\<rparr>"

definition agent_activate :: "agent \<Rightarrow> (unit, agent) update" where
  "agent_activate a =
     (if ag_status a = AgentActive then (Inr (), a)
      else (Inl (InvalidTransition ''agent'' (agent_status_str (ag_status a)) ''active''), a))"

definition agent_suspend :: "agent \<Rightarrow> (unit, agent) update" where
  "agent_suspend a =
     (if ag_status a = AgentRetired
      then (Inl (InvalidTransition ''agent'' (agent_status_str (ag_status a)) ''suspended''), a)
      else (Inr (), a\<lparr>ag_status := AgentSuspended\<rparr>))"

definition agent_retire :: "agent \<Rightarrow> (unit, agent) update" where
  "agent_retire a = (Inr (), a\<lparr>ag_status := AgentRetired\<rparr>)"

section \<open>Members and roles\<close>

datatype agent_role = OwnerRole | OperatorRole | ViewerRole

definition agent_role_str :: "agent_role \<Rightarrow> string" where
  "agent_role_str r =
     (case r of OwnerRole \<Rightarrow> ''owner'' | OperatorRole \<Rightarrow> ''operator'' | ViewerRole \<Rightarrow> ''viewer'')"

definition can_manage_members :: "agent_role \<Rightarrow> bool" where
  "can_manage_members r \<longleftrightarrow> r = OwnerRole"

definition can_register_instance :: "agent_role \<Rightarrow> bool" where
  "can_register_instance r \<longleftrightarrow> r = OwnerRole \<or> r = OperatorRole"

definition agent_role_of_str :: "string \<Rightarrow> agent_role result" where
  "agent_role_of_str s =
     (if s = ''owner'' then Inr OwnerRole
      else if s = ''operator'' then Inr OperatorRole
      else if s = ''viewer'' then Inr ViewerRole
      else Inl (Validation ''agent_role'' ''unknown role''))"

interpretation agent_role_codec: codec agent_role_str agent_role_of_str
  by unfold_locales
    (auto simp: agent_role_str_def agent_role_of_str_def split: agent_role.splits if_splits)

record agent_member =
  am_agent_id :: agent_id
  am_principal_id :: principal_id
  am_role :: agent_role
  am_granted_by :: principal_id
  am_granted_at :: utc_millis
  am_revoked_at :: "utc_millis option"

definition agent_member_restore :: "agent_member \<Rightarrow> agent_member result" where
  "agent_member_restore m =
     (if opt_any (am_revoked_at m) (\<lambda>t. t < am_granted_at m)
      then Inl (Validation ''agent_member_revoked_at'' ''before the grant'')
      else Inr m)"

definition member_is_active :: "agent_member \<Rightarrow> bool" where
  "member_is_active m \<longleftrightarrow> am_revoked_at m = None"

record agent_memberships =
  ms_agent_id :: agent_id
  ms_members :: "agent_member list"

definition with_initial_owner :: "agent_id \<Rightarrow> principal_id \<Rightarrow> utc_millis \<Rightarrow> agent_memberships" where
  "with_initial_owner a owner t =
     \<lparr>ms_agent_id = a,
      ms_members = [\<lparr>am_agent_id = a, am_principal_id = owner, am_role = OwnerRole,
                     am_granted_by = owner, am_granted_at = t, am_revoked_at = None\<rparr>]\<rparr>"

definition last_owner_error :: domain_error where
  "last_owner_error = InvariantViolation ''agent_memberships'' ''an agent keeps at least one owner''"

definition is_active_owner :: "agent_member \<Rightarrow> bool" where
  "is_active_owner m \<longleftrightarrow> member_is_active m \<and> am_role m = OwnerRole"

definition active_owner_count :: "agent_memberships \<Rightarrow> nat" where
  "active_owner_count s = length (filter is_active_owner (ms_members s))"

definition ensure_has_owner :: "agent_memberships \<Rightarrow> unit result" where
  "ensure_has_owner s = (if active_owner_count s = 0 then Inl last_owner_error else Inr ())"

definition memberships_restore :: "agent_id \<Rightarrow> agent_member list \<Rightarrow> agent_memberships result" where
  "memberships_restore a members =
     (if list_ex (\<lambda>m. am_agent_id m \<noteq> a \<or> opt_any (am_revoked_at m) (\<lambda>t. t < am_granted_at m)) members
      then Inl (InvariantViolation ''agent_memberships'' ''members and times must be consistent'')
      else
        (let s = \<lparr>ms_agent_id = a, ms_members = members\<rparr>
         in and_then (ensure_has_owner s) (\<lambda>_. Inr s)))"

definition role_of :: "agent_memberships \<Rightarrow> principal_id \<Rightarrow> agent_role option" where
  "role_of s p =
     map_option am_role (find (\<lambda>m. am_principal_id m = p \<and> member_is_active m) (ms_members s))"

definition ensure_member_manager :: "agent_memberships \<Rightarrow> principal_id \<Rightarrow> unit result" where
  "ensure_member_manager s p =
     (if opt_any (role_of s p) can_manage_members then Inr ()
      else Inl (Forbidden ''manage_agent_members''))"

definition ensure_can_register_instance :: "agent_memberships \<Rightarrow> principal_id \<Rightarrow> unit result" where
  "ensure_can_register_instance s p =
     (if opt_any (role_of s p) can_register_instance then Inr ()
      else Inl (Forbidden ''register_agent_instance''))"

text \<open>\<^verbatim>\<open>iter_mut().find(..)\<close> gives access to the first matching element.\<close>

fun update_first :: "('a \<Rightarrow> bool) \<Rightarrow> ('a \<Rightarrow> 'a) \<Rightarrow> 'a list \<Rightarrow> 'a list" where
  "update_first p f [] = []"
| "update_first p f (x # xs) = (if p x then f x # xs else x # update_first p f xs)"

definition grant_role ::
  "principal_id \<Rightarrow> principal_id \<Rightarrow> agent_role \<Rightarrow> utc_millis \<Rightarrow> agent_memberships \<Rightarrow>
   (unit, agent_memberships) update" where
  "grant_role actor p r t s =
     attempt (ensure_member_manager s actor) s (\<lambda>_.
     case find (\<lambda>m. am_principal_id m = p) (ms_members s) of
       Some m \<Rightarrow>
         if member_is_active m \<and> am_role m = OwnerRole \<and> r \<noteq> OwnerRole \<and> active_owner_count s = 1 then
           (Inl last_owner_error, s)
         else if member_is_active m \<and> am_role m = r then (Inr (), s)
         else
           (Inr (), s\<lparr>ms_members := update_first (\<lambda>m. am_principal_id m = p)
              (\<lambda>m. m\<lparr>am_role := r, am_granted_by := actor, am_granted_at := t, am_revoked_at := None\<rparr>)
              (ms_members s)\<rparr>)
     | None \<Rightarrow>
         (Inr (), s\<lparr>ms_members := ms_members s @
            [\<lparr>am_agent_id = ms_agent_id s, am_principal_id = p, am_role = r, am_granted_by = actor,
              am_granted_at = t, am_revoked_at = None\<rparr>]\<rparr>))"

definition revoke_member ::
  "principal_id \<Rightarrow> principal_id \<Rightarrow> utc_millis \<Rightarrow> agent_memberships \<Rightarrow> (unit, agent_memberships) update" where
  "revoke_member actor p t s =
     attempt (ensure_member_manager s actor) s (\<lambda>_.
     attempt (ok_or (find (\<lambda>m. am_principal_id m = p) (ms_members s))
       (Forbidden ''revoke_unknown_agent_member'')) s (\<lambda>m.
     if \<not> member_is_active m then (Inr (), s)
     else if t < am_granted_at m then
       (Inl (Validation ''agent_member_revoked_at'' ''before the grant''), s)
     else if am_role m = OwnerRole \<and> active_owner_count s = 1 then (Inl last_owner_error, s)
     else
       (Inr (), s\<lparr>ms_members := update_first (\<lambda>m. am_principal_id m = p)
          (\<lambda>m. m\<lparr>am_revoked_at := Some t\<rparr>) (ms_members s)\<rparr>)))"

datatype membership_command =
    GrantRole principal_id principal_id agent_role utc_millis
  | RevokeMember principal_id principal_id utc_millis

fun membership_step :: "membership_command \<Rightarrow> agent_memberships \<Rightarrow> (unit, agent_memberships) update" where
  "membership_step (GrantRole actor p r t) s = grant_role actor p r t s"
| "membership_step (RevokeMember actor p t) s = revoke_member actor p t s"

section \<open>Adapter bindings\<close>

datatype adapter_binding_state = AdapterActive | AdapterDisabled | AdapterIncompatible

definition adapter_state_str :: "adapter_binding_state \<Rightarrow> string" where
  "adapter_state_str st =
     (case st of
        AdapterActive \<Rightarrow> ''active'' | AdapterDisabled \<Rightarrow> ''disabled''
      | AdapterIncompatible \<Rightarrow> ''incompatible'')"

definition adapter_state_of_str :: "string \<Rightarrow> adapter_binding_state result" where
  "adapter_state_of_str s =
     (if s = ''active'' then Inr AdapterActive
      else if s = ''disabled'' then Inr AdapterDisabled
      else if s = ''incompatible'' then Inr AdapterIncompatible
      else Inl (Validation ''adapter_binding_state'' ''unknown state''))"

interpretation adapter_state_codec: codec adapter_state_str adapter_state_of_str
  by unfold_locales
    (auto simp: adapter_state_str_def adapter_state_of_str_def
      split: adapter_binding_state.splits if_splits)

definition validate_text :: "string \<Rightarrow> utext \<Rightarrow> nat \<Rightarrow> unit result" where
  "validate_text field v maximum =
     (if v = [] \<or> byte_len v > maximum \<or> list_ex is_control v
      then Inl (Validation field ''empty, too long or control characters'')
      else Inr ())"

definition subject_hash_new :: "8 word list \<Rightarrow> 8 word list result" where
  "subject_hash_new bytes =
     (if length bytes \<noteq> 32 then Inl (Validation ''adapter_subject_hash'' ''must be 32 bytes'')
      else Inr bytes)"

record adapter_binding =
  ab_id :: adapter_binding_id
  ab_agent_id :: agent_id
  ab_adapter_type :: utext
  ab_subject_hash :: "8 word list option"
  ab_capability_version :: utext
  ab_state :: adapter_binding_state

definition binding_register ::
  "adapter_binding_id \<Rightarrow> agent_id \<Rightarrow> utext \<Rightarrow> 8 word list option \<Rightarrow> utext \<Rightarrow> adapter_binding result" where
  "binding_register i a ty hash ver =
     and_then (validate_text ''adapter_type'' ty 64) (\<lambda>_.
     and_then (validate_text ''adapter_capability_version'' ver 64) (\<lambda>_.
     Inr \<lparr>ab_id = i, ab_agent_id = a, ab_adapter_type = ty, ab_subject_hash = hash,
          ab_capability_version = ver, ab_state = AdapterActive\<rparr>))"

definition binding_restore :: "adapter_binding \<Rightarrow> adapter_binding result" where
  "binding_restore b =
     and_then (binding_register (ab_id b) (ab_agent_id b) (ab_adapter_type b) (ab_subject_hash b)
                 (ab_capability_version b)) (\<lambda>c.
     Inr (c\<lparr>ab_state := ab_state b\<rparr>))"

definition binding_disable :: "adapter_binding \<Rightarrow> adapter_binding" where
  "binding_disable b = b\<lparr>ab_state := AdapterDisabled\<rparr>"

definition binding_mark_incompatible :: "adapter_binding \<Rightarrow> adapter_binding" where
  "binding_mark_incompatible b = b\<lparr>ab_state := AdapterIncompatible\<rparr>"

section \<open>Lemmas on members\<close>

lemma find_update_first_other:
  "q \<noteq> p \<Longrightarrow> \<forall>x. am_principal_id (f x) = am_principal_id x \<Longrightarrow>
     find (\<lambda>m. am_principal_id m = q \<and> member_is_active m)
       (update_first (\<lambda>m. am_principal_id m = p) f xs) =
     find (\<lambda>m. am_principal_id m = q \<and> member_is_active m) xs"
  by (induction xs) auto

lemma find_update_first_same:
  "find p xs = Some x \<Longrightarrow> q (f x) \<Longrightarrow> (\<And>y. q y \<Longrightarrow> p y) \<Longrightarrow> find q (update_first p f xs) = Some (f x)"
  by (induction xs) (auto split: if_splits)

lemma count_update_first:
  "find p xs = Some x \<Longrightarrow>
   length (filter q (update_first p f xs)) + (if q x then 1 else 0) =
   length (filter q xs) + (if q (f x) then 1 else 0)"
  by (induction xs) (auto split: if_splits)

lemma map_update_first: "(\<And>x. p x \<Longrightarrow> g (f x) = g x) \<Longrightarrow> map g (update_first p f xs) = map g xs"
  by (induction xs) auto

lemma find_mem: "find p xs = Some x \<Longrightarrow> x \<in> set xs \<and> p x"
  by (induction xs) (auto split: if_splits)

definition memberships_ok :: "agent_memberships \<Rightarrow> bool" where
  "memberships_ok s \<longleftrightarrow> memberships_restore (ms_agent_id s) (ms_members s) = Inr s"

lemma memberships_ok_iff:
  "memberships_ok s \<longleftrightarrow>
     (\<forall>m\<in>set (ms_members s). am_agent_id m = ms_agent_id s \<and>
        (\<forall>t. am_revoked_at m = Some t \<longrightarrow> am_granted_at m \<le> t)) \<and>
     0 < active_owner_count s"
  by (cases s)
    (auto simp: memberships_ok_def memberships_restore_def ensure_has_owner_def list_ex_iff Let_def
      result_simps opt_any_iff not_less not_le)

lemma set_update_first_find:
  "find p xs = Some x \<Longrightarrow> y \<in> set (update_first p f xs) \<Longrightarrow> y \<in> set xs \<or> y = f x"
  by (induction xs) (auto split: if_splits)

lemma revoked_elems:
  assumes "find p (ms_members s) = Some m" and "am_granted_at m \<le> t" and "memberships_ok s"
  shows "\<forall>x\<in>set (update_first p (\<lambda>m. m\<lparr>am_revoked_at := Some t\<rparr>) (ms_members s)).
     am_agent_id x = ms_agent_id s \<and> (\<forall>t. am_revoked_at x = Some t \<longrightarrow> am_granted_at x \<le> t)"
  using assms find_mem [OF assms(1)] set_update_first_find [OF assms(1)]
  by (fastforce simp: memberships_ok_iff)

lemma grant_role_ok: "memberships_ok s \<Longrightarrow> memberships_ok (snd (grant_role actor p r t s))"
proof (cases "ensure_member_manager s actor")
  case (Inr u)
  assume ok: "memberships_ok s"
  let ?p = "\<lambda>m. am_principal_id m = p"
  let ?f = "\<lambda>m. m\<lparr>am_role := r, am_granted_by := actor, am_granted_at := t, am_revoked_at := None\<rparr>"
  show ?thesis
  proof (cases "find ?p (ms_members s)")
    case None
    with Inr ok show ?thesis
      by (auto simp: grant_role_def memberships_ok_iff active_owner_count_def)
  next
    case (Some m)
    have count: "length (filter is_active_owner (update_first ?p ?f (ms_members s))) +
        (if is_active_owner m then 1 else 0) =
        active_owner_count s + (if is_active_owner (?f m) then 1 else 0)"
      using count_update_first [OF Some, of is_active_owner ?f] by (simp add: active_owner_count_def)
    have elems: "\<forall>m\<in>set (update_first ?p ?f (ms_members s)). am_agent_id m = ms_agent_id s \<and>
        (\<forall>t. am_revoked_at m = Some t \<longrightarrow> am_granted_at m \<le> t)"
      using ok find_mem [OF Some] set_update_first_find [OF Some, of _ ?f] by (fastforce simp: memberships_ok_iff)
    show ?thesis
    proof (cases "member_is_active m \<and> (am_role m = r \<or>
        am_role m = OwnerRole \<and> r \<noteq> OwnerRole \<and> active_owner_count s = 1)")
      case True
      with Inr Some ok show ?thesis by (auto simp: grant_role_def)
    next
      case False
      then have "0 < length (filter is_active_owner (update_first ?p ?f (ms_members s)))"
        using count ok by (auto simp: memberships_ok_iff is_active_owner_def member_is_active_def split: if_splits)
      with Inr Some False elems show ?thesis
        by (auto simp: grant_role_def memberships_ok_iff active_owner_count_def)
    qed
  qed
qed (simp add: grant_role_def)

lemma revoke_member_ok: "memberships_ok s \<Longrightarrow> memberships_ok (snd (revoke_member actor p t s))"
proof (cases "ensure_member_manager s actor")
  case (Inr u)
  assume ok: "memberships_ok s"
  let ?p = "\<lambda>m. am_principal_id m = p"
  let ?f = "\<lambda>m. m\<lparr>am_revoked_at := Some t\<rparr>"
  show ?thesis
  proof (cases "find ?p (ms_members s)")
    case None
    with Inr ok show ?thesis by (simp add: revoke_member_def)
  next
    case (Some m)
    have count: "length (filter is_active_owner (update_first ?p ?f (ms_members s))) +
        (if is_active_owner m then 1 else 0) = active_owner_count s"
      using count_update_first [OF Some, of is_active_owner ?f]
      by (simp add: active_owner_count_def is_active_owner_def member_is_active_def)
    show ?thesis
    proof (cases "member_is_active m \<and> am_granted_at m \<le> t \<and> \<not> (am_role m = OwnerRole \<and> active_owner_count s = 1)")
      case False
      with Inr Some ok show ?thesis by (auto simp: revoke_member_def not_le)
    next
      case True
      then have pos: "0 < length (filter is_active_owner (update_first ?p ?f (ms_members s)))"
        using count ok by (auto simp: memberships_ok_iff is_active_owner_def split: if_splits)
      have "\<forall>x\<in>set (update_first ?p ?f (ms_members s)). am_agent_id x = ms_agent_id s \<and>
          (\<forall>t. am_revoked_at x = Some t \<longrightarrow> am_granted_at x \<le> t)"
        using revoked_elems [OF Some _ ok] True by blast
      with Inr Some True pos show ?thesis
        by (auto simp: revoke_member_def memberships_ok_iff active_owner_count_def not_less)
    qed
  qed
qed (simp add: revoke_member_def)

lemma membership_step_ok: "memberships_ok s \<Longrightarrow> memberships_ok (snd (membership_step c s))"
  by (cases c) (simp_all add: grant_role_ok revoke_member_ok)

interpretation memberships: guarded_machine membership_step "\<lambda>_. True" memberships_ok
  by unfold_locales (rule membership_step_ok)

fun command_target :: "membership_command \<Rightarrow> principal_id" where
  "command_target (GrantRole actor p r t) = p"
| "command_target (RevokeMember actor p t) = p"

fun command_author :: "membership_command \<Rightarrow> principal_id" where
  "command_author (GrantRole actor p r t) = actor"
| "command_author (RevokeMember actor p t) = actor"

lemma role_of_find:
  "find (\<lambda>m. am_principal_id m = q \<and> member_is_active m) (ms_members t) =
   find (\<lambda>m. am_principal_id m = q \<and> member_is_active m) (ms_members s) \<Longrightarrow> role_of t q = role_of s q"
  by (simp add: role_of_def)

lemma find_append_None: "find p (xs @ ys) = (case find p xs of None \<Rightarrow> find p ys | Some x \<Rightarrow> Some x)"
  by (induction xs) auto

lemma membership_step_others:
  assumes "q \<noteq> command_target c"
  shows "role_of (snd (membership_step c s)) q = role_of s q"
proof (cases c)
  case (GrantRole actor p r t)
  with assms show ?thesis
    by (cases "ensure_member_manager s actor"; cases "find (\<lambda>m. am_principal_id m = p) (ms_members s)")
      (auto simp: grant_role_def role_of_def find_append_None find_update_first_other split: option.split)
next
  case (RevokeMember actor p t)
  with assms show ?thesis
    by (cases "ensure_member_manager s actor"; cases "find (\<lambda>m. am_principal_id m = p) (ms_members s)")
      (auto simp: revoke_member_def role_of_def find_update_first_other)
qed

lemma membership_step_authority:
  "role_of s (command_author c) \<noteq> Some OwnerRole \<Longrightarrow>
     membership_step c s = (Inl (Forbidden ''manage_agent_members''), s)"
  by (cases c) (auto simp: grant_role_def revoke_member_def ensure_member_manager_def can_manage_members_def opt_any_iff)

lemma find_active_first:
  "find (\<lambda>m. am_principal_id m = p) xs = Some m \<Longrightarrow> member_is_active m \<Longrightarrow>
     find (\<lambda>m. am_principal_id m = p \<and> member_is_active m) xs = Some m"
  by (induction xs) (auto split: if_splits)

lemma find_none_active:
  "find (\<lambda>m. am_principal_id m = p) xs = None \<Longrightarrow>
     find (\<lambda>m. am_principal_id m = p \<and> member_is_active m) xs = None"
  by (induction xs) (auto split: if_splits)

lemma grant_role_effect:
  assumes "fst (grant_role actor p r t s) = Inr ()"
  shows "role_of (snd (grant_role actor p r t s)) p = Some r"
proof (cases "find (\<lambda>m. am_principal_id m = p) (ms_members s)")
  case None
  with assms show ?thesis
    by (cases "ensure_member_manager s actor")
      (simp_all add: grant_role_def role_of_def find_append_None find_none_active [OF None],
        simp_all add: member_is_active_def)
next
  case (Some m)
  let ?f = "\<lambda>m. m\<lparr>am_role := r, am_granted_by := actor, am_granted_at := t, am_revoked_at := None\<rparr>"
  have "find (\<lambda>m. am_principal_id m = p \<and> member_is_active m)
      (update_first (\<lambda>m. am_principal_id m = p) ?f (ms_members s)) = Some (?f m)"
    using find_mem [OF Some] by (intro find_update_first_same [OF Some]) (auto simp: member_is_active_def)
  with assms Some find_active_first [OF Some] show ?thesis
    by (cases "ensure_member_manager s actor")
      (auto simp: grant_role_def role_of_def split: if_splits)
qed

section \<open>Properties\<close>

text \<open>
  An agent always keeps an owner: from its creation, or from any stored membership that
  \<^verbatim>\<open>restore\<close> accepts, no sequence of grants and revocations by anyone leaves it without
  an active owner, and what is left is accepted by \<^verbatim>\<open>restore\<close> again.
\<close>

theorem agent_keeps_owner:
  assumes "memberships_restore a ms = Inr s \<or> s = with_initial_owner a owner t"
  shows "0 < active_owner_count (replay membership_step cs s) \<and>
    memberships_restore (ms_agent_id (replay membership_step cs s)) (ms_members (replay membership_step cs s)) =
      Inr (replay membership_step cs s)"
proof -
  have "memberships_ok s"
    using assms
    by (auto simp: memberships_restore_def ensure_has_owner_def memberships_ok_iff list_ex_iff opt_any_iff
        Let_def result_simps not_less with_initial_owner_def active_owner_count_def is_active_owner_def
        member_is_active_def split: if_splits)
  then have "memberships_ok (replay membership_step cs s)"
    by (rule memberships.replay_wf [rotated]) (simp add: list_all_iff)
  then show ?thesis
    by (simp add: memberships_ok_iff flip: memberships_ok_def)
qed

theorem agent_keeps_owner_witness:
  "0 < active_owner_count (replay membership_step
     [GrantRole 1 2 OwnerRole (UtcMillis 5), RevokeMember 2 1 (UtcMillis 6), RevokeMember 2 2 (UtcMillis 7)]
     (with_initial_owner 9 1 (UtcMillis 4)))"
  by (rule agent_keeps_owner [THEN conjunct1]) blast

text \<open>
  Only owners manage members, one member at a time: a command whose author is not an active
  owner is refused and changes nothing, any command leaves the roles of everyone but its target
  alone, and a successful grant gives the target exactly the granted role.
\<close>

theorem only_owners_manage_members:
  "(role_of s (command_author c) \<noteq> Some OwnerRole \<longrightarrow>
      membership_step c s = (Inl (Forbidden ''manage_agent_members''), s)) \<and>
   (q \<noteq> command_target c \<longrightarrow> role_of (snd (membership_step c s)) q = role_of s q) \<and>
   (fst (grant_role actor p r t s) = Inr () \<longrightarrow> role_of (snd (grant_role actor p r t s)) p = Some r)"
  using membership_step_authority [of s c] membership_step_others [of q c s] grant_role_effect [of actor p r t s]
  by blast

theorem only_owners_manage_members_witness:
  "snd (membership_step (GrantRole 2 2 OwnerRole (UtcMillis 5)) (with_initial_owner 9 1 (UtcMillis 4))) =
     with_initial_owner 9 1 (UtcMillis 4)"
proof -
  have "role_of (with_initial_owner 9 1 (UtcMillis 4)) (command_author (GrantRole 2 2 OwnerRole (UtcMillis 5))) \<noteq> Some OwnerRole"
    by (simp add: role_of_def with_initial_owner_def)
  then show ?thesis
    using only_owners_manage_members [of "with_initial_owner 9 1 (UtcMillis 4)" "GrantRole 2 2 OwnerRole (UtcMillis 5)"]
    by auto
qed

end
