(* ===== verification/Agent_Instances.thy ===== *)
theory Agent_Instances
  imports Agents
begin

text \<open>Running instances of an agent and their connection leases (last part of \<^verbatim>\<open>agents.rs\<close>).\<close>

section \<open>Instances\<close>

definition instance_signing_key_new :: "8 word list \<Rightarrow> 8 word list result" where
  "instance_signing_key_new bytes =
     (if length bytes \<noteq> 32
      then Inl (Validation ''agent_instance_public_signing_key'' ''must be 32 bytes'')
      else Inr bytes)"

definition agent_matrix_device_id_new :: "utext \<Rightarrow> utext result" where
  "agent_matrix_device_id_new v =
     and_then (validate_text ''agent_matrix_device_id'' v 255) (\<lambda>_. Inr v)"

datatype instance_status =
  Connecting | InstanceOnline | Degraded | InstanceOffline | InstanceRevoked

definition instance_status_str :: "instance_status \<Rightarrow> string" where
  "instance_status_str st =
     (case st of
        Connecting \<Rightarrow> ''connecting''
      | InstanceOnline \<Rightarrow> ''online''
      | Degraded \<Rightarrow> ''degraded''
      | InstanceOffline \<Rightarrow> ''offline''
      | InstanceRevoked \<Rightarrow> ''revoked'')"

definition instance_status_of_str :: "string \<Rightarrow> instance_status result" where
  "instance_status_of_str s =
     (if s = ''connecting'' then Inr Connecting
      else if s = ''online'' then Inr InstanceOnline
      else if s = ''degraded'' then Inr Degraded
      else if s = ''offline'' then Inr InstanceOffline
      else if s = ''revoked'' then Inr InstanceRevoked
      else Inl (Validation ''agent_instance_status'' ''unknown state''))"

interpretation instance_status_codec: codec instance_status_str instance_status_of_str
  by unfold_locales
    (auto simp: instance_status_str_def instance_status_of_str_def
      split: instance_status.splits if_splits)

record agent_instance =
  ai_id :: agent_instance_id
  ai_agent_id :: agent_id
  ai_device_id :: device_id
  ai_binding_id :: adapter_binding_id
  ai_signing_key :: "8 word list"
  ai_matrix_device_id :: utext
  ai_status :: instance_status
  ai_lease_expires_at :: "utc_millis option"

definition instance_register ::
  "agent_instance_id \<Rightarrow> agent_id \<Rightarrow> device_id \<Rightarrow> adapter_binding_id \<Rightarrow> 8 word list \<Rightarrow> utext \<Rightarrow> agent_instance" where
  "instance_register i a d b key m =
     \<lparr>ai_id = i, ai_agent_id = a, ai_device_id = d, ai_binding_id = b, ai_signing_key = key,
      ai_matrix_device_id = m, ai_status = Connecting, ai_lease_expires_at = None\<rparr>"

definition instance_restore :: "agent_instance \<Rightarrow> agent_instance result" where
  "instance_restore i =
     (if (ai_status i = InstanceOnline) \<noteq> (ai_lease_expires_at i \<noteq> None)
      then Inl (InvariantViolation ''agent_instance'' ''exactly online instances hold a lease'')
      else Inr i)"

definition instance_replace_matrix_device :: "utext \<Rightarrow> agent_instance \<Rightarrow> agent_instance" where
  "instance_replace_matrix_device m i = i\<lparr>ai_matrix_device_id := m\<rparr>"

text \<open>The status is assigned before the end of the lease is computed.\<close>

definition instance_connect :: "utc_millis \<Rightarrow> duration_millis \<Rightarrow> agent_instance \<Rightarrow> (unit, agent_instance) update" where
  "instance_connect now lease i =
     (if ai_status i = InstanceRevoked then
        (Inl (InvalidTransition ''agent_instance'' (instance_status_str (ai_status i)) ''online''), i)
      else
        (let j = i\<lparr>ai_status := InstanceOnline\<rparr>
         in attempt (utc_checked_add now lease) j (\<lambda>t. (Inr (), j\<lparr>ai_lease_expires_at := Some t\<rparr>))))"

definition instance_renew :: "utc_millis \<Rightarrow> duration_millis \<Rightarrow> agent_instance \<Rightarrow> (unit, agent_instance) update" where
  "instance_renew now lease i =
     (if ai_status i \<noteq> InstanceOnline then
        (Inl (InvalidTransition ''agent_instance'' (instance_status_str (ai_status i)) ''online''), i)
      else if opt_any (ai_lease_expires_at i) (\<lambda>t. t < now) then
        (Inl (InvalidTransition ''agent_instance'' ''expired'' ''online''),
         i\<lparr>ai_status := InstanceOffline, ai_lease_expires_at := None\<rparr>)
      else
        attempt (utc_checked_add now lease) i (\<lambda>t. (Inr (), i\<lparr>ai_lease_expires_at := Some t\<rparr>)))"

definition instance_degrade :: "agent_instance \<Rightarrow> (unit, agent_instance) update" where
  "instance_degrade i =
     (if ai_status i = InstanceRevoked then
        (Inl (InvalidTransition ''agent_instance'' (instance_status_str (ai_status i)) ''degraded''), i)
      else (Inr (), i\<lparr>ai_status := Degraded, ai_lease_expires_at := None\<rparr>))"

definition instance_disconnect :: "agent_instance \<Rightarrow> agent_instance" where
  "instance_disconnect i =
     (if ai_status i \<noteq> InstanceRevoked
      then i\<lparr>ai_status := InstanceOffline, ai_lease_expires_at := None\<rparr> else i)"

definition instance_expire :: "utc_millis \<Rightarrow> agent_instance \<Rightarrow> bool \<times> agent_instance" where
  "instance_expire now i =
     (let should_expire = ai_status i = InstanceOnline \<and> opt_any (ai_lease_expires_at i) (\<lambda>t. t \<le> now)
      in (should_expire, if should_expire then instance_disconnect i else i))"

definition instance_revoke :: "agent_instance \<Rightarrow> agent_instance" where
  "instance_revoke i = i\<lparr>ai_status := InstanceRevoked, ai_lease_expires_at := None\<rparr>"

datatype instance_command =
    ReplaceMatrixDevice utext
  | Connect utc_millis duration_millis
  | Renew utc_millis duration_millis
  | Degrade
  | Disconnect
  | ExpireInstance utc_millis
  | RevokeInstance

fun instance_step :: "instance_command \<Rightarrow> agent_instance \<Rightarrow> (unit, agent_instance) update" where
  "instance_step (ReplaceMatrixDevice m) i = (Inr (), instance_replace_matrix_device m i)"
| "instance_step (Connect now lease) i = instance_connect now lease i"
| "instance_step (Renew now lease) i = instance_renew now lease i"
| "instance_step Degrade i = instance_degrade i"
| "instance_step Disconnect i = (Inr (), instance_disconnect i)"
| "instance_step (ExpireInstance now) i = (Inr (), snd (instance_expire now i))"
| "instance_step RevokeInstance i = (Inr (), instance_revoke i)"

section \<open>Lemmas\<close>

lemmas instance_ops = instance_replace_matrix_device_def instance_connect_def instance_renew_def
  instance_degrade_def instance_disconnect_def instance_expire_def instance_revoke_def

definition lease_matches_status :: "agent_instance \<Rightarrow> bool" where
  "lease_matches_status i \<longleftrightarrow> (ai_status i = InstanceOnline \<longleftrightarrow> ai_lease_expires_at i \<noteq> None)"

lemma instance_restore_iff: "instance_restore i = Inr i \<longleftrightarrow> lease_matches_status i"
  by (auto simp: instance_restore_def lease_matches_status_def)

lemma instance_step_lease:
  assumes "lease_matches_status i" and "fst (instance_step c i) \<noteq> Inl TimeOverflow"
  shows "lease_matches_status (snd (instance_step c i))"
proof (cases c)
  case (Connect now lease)
  with assms show ?thesis
    by (cases "utc_checked_add now lease")
      (auto simp: instance_ops lease_matches_status_def Let_def dest: utc_checked_add_Inl split: if_splits)
next
  case (Renew now lease)
  with assms show ?thesis
    by (cases "utc_checked_add now lease")
      (auto simp: instance_ops lease_matches_status_def dest: utc_checked_add_Inl split: if_splits)
qed (use assms in \<open>auto simp: instance_ops lease_matches_status_def Let_def\<close>)

lemma replay_lease:
  "lease_matches_status i \<Longrightarrow> Inl TimeOverflow \<notin> set (replay_results instance_step cs i) \<Longrightarrow>
   lease_matches_status (replay instance_step cs i)"
  by (induction cs arbitrary: i) (auto simp: instance_step_lease)

lemma revoked_stays: "ai_status i = InstanceRevoked \<Longrightarrow> ai_status (snd (instance_step c i)) = InstanceRevoked"
  by (cases c) (simp_all add: instance_ops)

lemma replay_revoked:
  "ai_status i = InstanceRevoked \<Longrightarrow> ai_status (replay instance_step cs i) = InstanceRevoked"
  by (induction cs arbitrary: i) (simp_all add: revoked_stays)

section \<open>Properties\<close>

text \<open>
  Exactly the online instances hold a lease: as long as no command reports a clock overflow,
  every sequence of connects, renewals, degradations, disconnections, expiries and revocations
  leaves a registered instance in a state that can be restored from storage; and a revoked
  instance never comes back.
\<close>

theorem instance_lease_invariant:
  assumes "j = replay instance_step cs (instance_register i a d b key m)"
    and "Inl TimeOverflow \<notin> set (replay_results instance_step cs (instance_register i a d b key m))"
  shows "instance_restore j = Inr j \<and>
    (ai_status j = InstanceRevoked \<longrightarrow> ai_status (replay instance_step ds j) = InstanceRevoked)"
proof -
  have "lease_matches_status (instance_register i a d b key m)"
    by (simp add: instance_register_def lease_matches_status_def)
  with assms have "lease_matches_status j" by (simp add: replay_lease)
  then show ?thesis using replay_revoked by (simp add: instance_restore_iff)
qed

theorem instance_lease_invariant_witness:
  "instance_restore (replay instance_step [Disconnect, RevokeInstance] (instance_register 1 2 3 4 [] [])) =
   Inr (replay instance_step [Disconnect, RevokeInstance] (instance_register 1 2 3 4 [] []))"
  by (rule instance_lease_invariant [THEN conjunct1, OF refl]) simp

text \<open>
  A connect that fails can break the invariant of leases: when the lease would end after the largest
  instant, it returns the overflow error but leaves the instance online without a lease, a state that
  \<^verbatim>\<open>restore\<close> refuses.
\<close>

theorem connect_overflow_leaves_online:
  "fst (instance_connect (UtcMillis i64_max) (DurationMillis 1) (instance_register i a d b key m)) = Inl TimeOverflow \<and>
   ai_status (snd (instance_connect (UtcMillis i64_max) (DurationMillis 1) (instance_register i a d b key m))) = InstanceOnline \<and>
   \<not> is_ok (instance_restore (snd (instance_connect (UtcMillis i64_max) (DurationMillis 1)
       (instance_register i a d b key m))))"
  by (simp add: instance_connect_def instance_register_def instance_restore_def utc_checked_add_def
      i64_checked_add_def i64_try_from_def int_width_defs)

end
