(* ===== verification/Moderation.thy ===== *)
theory Moderation
  imports Texts Utc_Clock
begin

text \<open>
  Moderation (\<^verbatim>\<open>moderation.rs\<close>): report cases with the evidence a reporter chose to
  submit, room actions from their reservation to their reversal or expiry, roles and audit events.
\<close>

section \<open>Targets, reasons and evidence\<close>

datatype moderation_target_kind = PrincipalTarget | AgentTarget | RoomTarget | EventTarget | FederationPeerTarget

definition target_kind_str :: "moderation_target_kind \<Rightarrow> string" where
  "target_kind_str x =
     (case x of
        PrincipalTarget \<Rightarrow> ''principal''
      | AgentTarget \<Rightarrow> ''agent''
      | RoomTarget \<Rightarrow> ''room''
      | EventTarget \<Rightarrow> ''event''
      | FederationPeerTarget \<Rightarrow> ''federation_peer'')"

definition target_kind_of_str :: "string \<Rightarrow> moderation_target_kind result" where
  "target_kind_of_str s =
     (if s = ''principal'' then Inr PrincipalTarget
      else if s = ''agent'' then Inr AgentTarget
      else if s = ''room'' then Inr RoomTarget
      else if s = ''event'' then Inr EventTarget
      else if s = ''federation_peer'' then Inr FederationPeerTarget
      else Inl (Validation ''moderation_target_kind'' ''unsupported target kind''))"

interpretation target_kind_codec: codec target_kind_str target_kind_of_str
  by unfold_locales
    (auto simp: target_kind_str_def target_kind_of_str_def split: moderation_target_kind.splits if_splits)

datatype moderation_reason = Spam | Harassment | Impersonation | MaliciousContent | PrivacyViolation | UnsafeAutomation | OtherReason

definition reason_str :: "moderation_reason \<Rightarrow> string" where
  "reason_str x =
     (case x of
        Spam \<Rightarrow> ''spam''
      | Harassment \<Rightarrow> ''harassment''
      | Impersonation \<Rightarrow> ''impersonation''
      | MaliciousContent \<Rightarrow> ''malicious_content''
      | PrivacyViolation \<Rightarrow> ''privacy_violation''
      | UnsafeAutomation \<Rightarrow> ''unsafe_automation''
      | OtherReason \<Rightarrow> ''other'')"

definition reason_of_str :: "string \<Rightarrow> moderation_reason result" where
  "reason_of_str s =
     (if s = ''spam'' then Inr Spam
      else if s = ''harassment'' then Inr Harassment
      else if s = ''impersonation'' then Inr Impersonation
      else if s = ''malicious_content'' then Inr MaliciousContent
      else if s = ''privacy_violation'' then Inr PrivacyViolation
      else if s = ''unsafe_automation'' then Inr UnsafeAutomation
      else if s = ''other'' then Inr OtherReason
      else Inl (Validation ''moderation_reason'' ''unsupported reason''))"

interpretation reason_codec: codec reason_str reason_of_str
  by unfold_locales
    (auto simp: reason_str_def reason_of_str_def split: moderation_reason.splits if_splits)

definition validate_moderation_text :: "string \<Rightarrow> utext \<Rightarrow> nat \<Rightarrow> bool \<Rightarrow> unit result" where
  "validate_moderation_text field v maximum allow_empty =
     (if (\<not> allow_empty \<and> trim v = []) \<or> length v > maximum \<or> list_ex is_control v
      then Inl (Validation field ''blank, too long or control characters'')
      else Inr ())"

record moderation_target =
  mt_kind :: moderation_target_kind
  mt_reference :: utext

definition moderation_target_new :: "moderation_target_kind \<Rightarrow> utext \<Rightarrow> moderation_target result" where
  "moderation_target_new k r =
     and_then (validate_moderation_text ''moderation_target_reference'' r 1024 False) (\<lambda>_.
     Inr \<lparr>mt_kind = k, mt_reference = r\<rparr>)"

record moderation_evidence =
  me_room_catalog_id :: "room_catalog_id option"
  me_matrix_event_id :: "utext option"
  me_excerpt :: "utext option"
  me_end_to_end_encrypted :: bool

definition validate_optional :: "string \<Rightarrow> utext option \<Rightarrow> nat \<Rightarrow> unit result" where
  "validate_optional field v maximum =
     (case v of None \<Rightarrow> Inr () | Some s \<Rightarrow> validate_moderation_text field s maximum False)"

definition moderation_evidence_new ::
  "room_catalog_id option \<Rightarrow> utext option \<Rightarrow> utext option \<Rightarrow> bool \<Rightarrow> moderation_evidence result" where
  "moderation_evidence_new room event excerpt e2ee =
     and_then (validate_optional ''moderation_evidence_event_id'' event 1024) (\<lambda>_.
     and_then (validate_optional ''moderation_evidence_excerpt'' excerpt 4096) (\<lambda>_.
     if excerpt \<noteq> None \<and> event = None
     then Inl (Validation ''moderation_evidence_excerpt'' ''an excerpt needs an event'')
     else Inr \<lparr>me_room_catalog_id = room, me_matrix_event_id = event, me_excerpt = excerpt,
               me_end_to_end_encrypted = e2ee\<rparr>))"

definition discloses_plaintext :: "moderation_evidence \<Rightarrow> bool" where
  "discloses_plaintext e \<longleftrightarrow> me_excerpt e \<noteq> None"

section \<open>Cases\<close>

datatype moderation_case_state = CaseOpen | CaseInReview | CaseResolved | CaseDismissed

definition case_state_str :: "moderation_case_state \<Rightarrow> string" where
  "case_state_str x =
     (case x of
        CaseOpen \<Rightarrow> ''open''
      | CaseInReview \<Rightarrow> ''in_review''
      | CaseResolved \<Rightarrow> ''resolved''
      | CaseDismissed \<Rightarrow> ''dismissed'')"

definition case_state_of_str :: "string \<Rightarrow> moderation_case_state result" where
  "case_state_of_str s =
     (if s = ''open'' then Inr CaseOpen
      else if s = ''in_review'' then Inr CaseInReview
      else if s = ''resolved'' then Inr CaseResolved
      else if s = ''dismissed'' then Inr CaseDismissed
      else Inl (Validation ''moderation_case_state'' ''unsupported state''))"

interpretation case_state_codec: codec case_state_str case_state_of_str
  by unfold_locales
    (auto simp: case_state_str_def case_state_of_str_def split: moderation_case_state.splits if_splits)

definition case_is_terminal :: "moderation_case_state \<Rightarrow> bool" where
  "case_is_terminal st \<longleftrightarrow> st = CaseResolved \<or> st = CaseDismissed"

record moderation_case =
  mcs_id :: moderation_case_id
  mcs_reporter :: principal_id
  mcs_target :: moderation_target
  mcs_reason :: moderation_reason
  mcs_description :: utext
  mcs_evidence :: moderation_evidence
  mcs_state :: moderation_case_state
  mcs_created_at :: utc_millis
  mcs_resolved_at :: "utc_millis option"

definition case_open ::
  "moderation_case_id \<Rightarrow> principal_id \<Rightarrow> moderation_target \<Rightarrow> moderation_reason \<Rightarrow> utext \<Rightarrow>
   moderation_evidence \<Rightarrow> utc_millis \<Rightarrow> moderation_case result" where
  "case_open i reporter target reason description evidence created_at =
     and_then (validate_moderation_text ''moderation_case_description'' description 4096 True) (\<lambda>_.
     Inr \<lparr>mcs_id = i, mcs_reporter = reporter, mcs_target = target, mcs_reason = reason,
          mcs_description = description, mcs_evidence = evidence, mcs_state = CaseOpen,
          mcs_created_at = created_at, mcs_resolved_at = None\<rparr>)"

definition case_restore :: "moderation_case \<Rightarrow> moderation_case result" where
  "case_restore c =
     and_then (case_open (mcs_id c) (mcs_reporter c) (mcs_target c) (mcs_reason c) (mcs_description c)
                 (mcs_evidence c) (mcs_created_at c)) (\<lambda>opened.
     if case_is_terminal (mcs_state c) \<noteq> (mcs_resolved_at c \<noteq> None) \<or>
        opt_any (mcs_resolved_at c) (\<lambda>t. t < mcs_created_at c)
     then Inl (InvariantViolation ''moderation_case'' ''final state and resolution time disagree'')
     else Inr (opened\<lparr>mcs_state := mcs_state c, mcs_resolved_at := mcs_resolved_at c\<rparr>))"

section \<open>Actions\<close>

datatype moderation_action_kind = Hide | Mute | Kick | Ban

definition action_kind_str :: "moderation_action_kind \<Rightarrow> string" where
  "action_kind_str x =
     (case x of
        Hide \<Rightarrow> ''hide''
      | Mute \<Rightarrow> ''mute''
      | Kick \<Rightarrow> ''kick''
      | Ban \<Rightarrow> ''ban'')"

definition action_kind_of_str :: "string \<Rightarrow> moderation_action_kind result" where
  "action_kind_of_str s =
     (if s = ''hide'' then Inr Hide
      else if s = ''mute'' then Inr Mute
      else if s = ''kick'' then Inr Kick
      else if s = ''ban'' then Inr Ban
      else Inl (Validation ''moderation_action_kind'' ''unsupported action''))"

interpretation action_kind_codec: codec action_kind_str action_kind_of_str
  by unfold_locales
    (auto simp: action_kind_str_def action_kind_of_str_def split: moderation_action_kind.splits if_splits)

definition action_target_kind :: "moderation_action_kind \<Rightarrow> moderation_target_kind" where
  "action_target_kind k = (case k of Hide \<Rightarrow> EventTarget | _ \<Rightarrow> PrincipalTarget)"

datatype moderation_action_status = ActionPending | Applied | ActionFailed | Reversed

definition action_status_str :: "moderation_action_status \<Rightarrow> string" where
  "action_status_str x =
     (case x of
        ActionPending \<Rightarrow> ''pending''
      | Applied \<Rightarrow> ''applied''
      | ActionFailed \<Rightarrow> ''failed''
      | Reversed \<Rightarrow> ''reversed'')"

definition action_status_of_str :: "string \<Rightarrow> moderation_action_status result" where
  "action_status_of_str s =
     (if s = ''pending'' then Inr ActionPending
      else if s = ''applied'' then Inr Applied
      else if s = ''failed'' then Inr ActionFailed
      else if s = ''reversed'' then Inr Reversed
      else Inl (Validation ''moderation_action_status'' ''unsupported state''))"

interpretation action_status_codec: codec action_status_str action_status_of_str
  by unfold_locales
    (auto simp: action_status_str_def action_status_of_str_def split: moderation_action_status.splits if_splits)

record moderation_action =
  mo_id :: moderation_action_id
  mo_case_id :: "moderation_case_id option"
  mo_actor :: principal_id
  mo_room_catalog_id :: room_catalog_id
  mo_kind :: moderation_action_kind
  mo_target :: moderation_target
  mo_reason :: moderation_reason
  mo_starts_at :: utc_millis
  mo_expires_at :: "utc_millis option"
  mo_status :: moderation_action_status
  mo_failure_code :: "utext option"
  mo_reversed_at :: "utc_millis option"

definition action_reserve ::
  "moderation_action_id \<Rightarrow> moderation_case_id option \<Rightarrow> principal_id \<Rightarrow> room_catalog_id \<Rightarrow>
   moderation_action_kind \<Rightarrow> moderation_target \<Rightarrow> moderation_reason \<Rightarrow> utc_millis \<Rightarrow>
   utc_millis option \<Rightarrow> moderation_action result" where
  "action_reserve i c actor room kind target reason starts_at expires_at =
     (if mt_kind target \<noteq> action_target_kind kind then
        Inl (Validation ''moderation_action_target'' ''action and target kind do not match'')
      else if opt_any expires_at (\<lambda>t. t \<le> starts_at) then
        Inl (Validation ''moderation_action_expires_at'' ''must end after its start'')
      else Inr \<lparr>mo_id = i, mo_case_id = c, mo_actor = actor, mo_room_catalog_id = room, mo_kind = kind,
                mo_target = target, mo_reason = reason, mo_starts_at = starts_at,
                mo_expires_at = expires_at, mo_status = ActionPending, mo_failure_code = None,
                mo_reversed_at = None\<rparr>)"

definition action_restore :: "moderation_action \<Rightarrow> moderation_action result" where
  "action_restore a =
     and_then (action_reserve (mo_id a) (mo_case_id a) (mo_actor a) (mo_room_catalog_id a) (mo_kind a)
                 (mo_target a) (mo_reason a) (mo_starts_at a) (mo_expires_at a)) (\<lambda>reserved.
     let consistent =
       (case mo_status a of
          ActionPending \<Rightarrow> mo_failure_code a = None \<and> mo_reversed_at a = None
        | Applied \<Rightarrow> mo_failure_code a = None \<and> mo_reversed_at a = None
        | ActionFailed \<Rightarrow> mo_failure_code a \<noteq> None \<and> mo_reversed_at a = None
        | Reversed \<Rightarrow> mo_failure_code a = None \<and> mo_reversed_at a \<noteq> None)
     in if \<not> consistent \<or> opt_any (mo_reversed_at a) (\<lambda>t. t < mo_starts_at a)
        then Inl (InvariantViolation ''moderation_action'' ''state, failure code and reversal disagree'')
        else Inr (reserved\<lparr>mo_status := mo_status a, mo_failure_code := mo_failure_code a,
                           mo_reversed_at := mo_reversed_at a\<rparr>))"

definition is_effective_at :: "moderation_action \<Rightarrow> utc_millis \<Rightarrow> bool" where
  "is_effective_at a now \<longleftrightarrow> mo_status a = Applied \<and> opt_all (mo_expires_at a) (\<lambda>t. now < t)"

definition is_due_at :: "moderation_action \<Rightarrow> utc_millis \<Rightarrow> bool" where
  "is_due_at a now \<longleftrightarrow> mo_status a = Applied \<and> opt_any (mo_expires_at a) (\<lambda>t. t \<le> now)"

definition action_mark_applied :: "moderation_action \<Rightarrow> (bool, moderation_action) update" where
  "action_mark_applied a =
     (case mo_status a of
        ActionPending \<Rightarrow> (Inr True, a\<lparr>mo_status := Applied\<rparr>)
      | Applied \<Rightarrow> (Inr False, a)
      | ActionFailed \<Rightarrow> (Inl (InvariantViolation ''moderation_action'' ''failed or reversed is not applied''), a)
      | Reversed \<Rightarrow> (Inl (InvariantViolation ''moderation_action'' ''failed or reversed is not applied''), a))"

definition action_mark_failed :: "utext \<Rightarrow> moderation_action \<Rightarrow> (bool, moderation_action) update" where
  "action_mark_failed code a =
     attempt (validate_moderation_text ''moderation_action_failure_code'' code 128 False) a (\<lambda>_.
     case mo_status a of
       ActionPending \<Rightarrow> (Inr True, a\<lparr>mo_status := ActionFailed, mo_failure_code := Some code\<rparr>)
     | ActionFailed \<Rightarrow>
         if mo_failure_code a = Some code then (Inr False, a)
         else (Inl (InvariantViolation ''moderation_action'' ''a failure keeps its reason''), a)
     | Applied \<Rightarrow> (Inl (InvariantViolation ''moderation_action'' ''applied or reversed cannot fail''), a)
     | Reversed \<Rightarrow> (Inl (InvariantViolation ''moderation_action'' ''applied or reversed cannot fail''), a))"

definition action_reverse :: "utc_millis \<Rightarrow> moderation_action \<Rightarrow> (bool, moderation_action) update" where
  "action_reverse t a =
     (case mo_status a of
        Applied \<Rightarrow>
          if t \<ge> mo_starts_at a then (Inr True, a\<lparr>mo_status := Reversed, mo_reversed_at := Some t\<rparr>)
          else (Inl (Validation ''moderation_action_reversed_at'' ''before the start''), a)
      | Reversed \<Rightarrow> (Inr False, a)
      | ActionPending \<Rightarrow> (Inl (InvariantViolation ''moderation_action'' ''only applied actions are reversed''), a)
      | ActionFailed \<Rightarrow> (Inl (InvariantViolation ''moderation_action'' ''only applied actions are reversed''), a))"

definition action_expire :: "utc_millis \<Rightarrow> moderation_action \<Rightarrow> (bool, moderation_action) update" where
  "action_expire t a =
     (case mo_status a of
        Applied \<Rightarrow>
          if is_due_at a t then (Inr True, a\<lparr>mo_status := Reversed, mo_reversed_at := Some t\<rparr>)
          else (Inl (Validation ''moderation_action_expires_at'' ''no expiry or not due yet''), a)
      | Reversed \<Rightarrow> (Inr False, a)
      | ActionPending \<Rightarrow> (Inl (InvariantViolation ''moderation_action'' ''only applied actions expire''), a)
      | ActionFailed \<Rightarrow> (Inl (InvariantViolation ''moderation_action'' ''only applied actions expire''), a))"

datatype action_command =
  MarkApplied | MarkFailed utext | ReverseAction utc_millis | ExpireAction utc_millis

fun action_step :: "action_command \<Rightarrow> moderation_action \<Rightarrow> (bool, moderation_action) update" where
  "action_step MarkApplied a = action_mark_applied a"
| "action_step (MarkFailed code) a = action_mark_failed code a"
| "action_step (ReverseAction t) a = action_reverse t a"
| "action_step (ExpireAction t) a = action_expire t a"

section \<open>Roles and audit\<close>

datatype moderation_role = NoRole | RoomManager | PlatformModerator | AuditReader

definition can_moderate_room :: "moderation_role \<Rightarrow> bool" where
  "can_moderate_room r \<longleftrightarrow> r = RoomManager \<or> r = PlatformModerator"

definition moderation_allows :: "moderation_role \<Rightarrow> moderation_action_kind \<Rightarrow> bool" where
  "moderation_allows r k \<longleftrightarrow> can_moderate_room r \<and> (k = Hide \<or> k = Mute \<or> k = Kick \<or> k = Ban)"

definition can_read_audit :: "moderation_role \<Rightarrow> bool" where
  "can_read_audit r \<longleftrightarrow> r = PlatformModerator \<or> r = AuditReader"

datatype audit_outcome = AuditAllowed | AuditDenied | AuditFailed

definition audit_outcome_str :: "audit_outcome \<Rightarrow> string" where
  "audit_outcome_str x =
     (case x of AuditAllowed \<Rightarrow> ''allowed'' | AuditDenied \<Rightarrow> ''denied'' | AuditFailed \<Rightarrow> ''failed'')"

record audit_event =
  ae_id :: audit_event_id
  ae_occurred_at :: utc_millis
  ae_actor :: principal_id
  ae_action :: utext
  ae_target :: moderation_target
  ae_outcome :: audit_outcome
  ae_reason :: "moderation_reason option"
  ae_correlation_id :: audit_event_id
  ae_room_catalog_id :: "room_catalog_id option"

definition audit_event_new :: "audit_event \<Rightarrow> audit_event result" where
  "audit_event_new e =
     and_then (validate_moderation_text ''moderation_audit_action'' (ae_action e) 128 False) (\<lambda>_. Inr e)"

section \<open>Lemmas\<close>

lemmas action_ops = action_mark_applied_def action_mark_failed_def action_reverse_def action_expire_def

definition action_ok :: "moderation_action \<Rightarrow> bool" where
  "action_ok a \<longleftrightarrow> action_restore a = Inr a"

lemma action_ok_iff:
  "action_ok a \<longleftrightarrow>
     mt_kind (mo_target a) = action_target_kind (mo_kind a) \<and>
     (\<forall>t. mo_expires_at a = Some t \<longrightarrow> mo_starts_at a < t) \<and>
     (mo_status a = ActionFailed \<longleftrightarrow> mo_failure_code a \<noteq> None) \<and>
     (mo_status a = Reversed \<longleftrightarrow> mo_reversed_at a \<noteq> None) \<and>
     (\<forall>t. mo_reversed_at a = Some t \<longrightarrow> mo_starts_at a \<le> t)"
  by (cases a; cases "mo_status a")
    (auto simp: action_ok_def action_restore_def action_reserve_def result_simps Let_def opt_any_iff
      not_le not_less split: if_splits)

lemma action_step_ok:
  assumes "action_ok a"
  shows "action_ok (snd (action_step c a))"
proof (cases c)
  case (MarkFailed code)
  then show ?thesis
    using assms
    by (cases "validate_moderation_text ''moderation_action_failure_code'' code 128 False"; cases "mo_status a")
      (auto simp: action_ops action_ok_iff)
next
  case (ExpireAction t)
  then show ?thesis
    using assms
    by (cases "mo_status a") (auto simp: action_ops action_ok_iff is_due_at_def opt_any_iff)
qed (use assms in \<open>cases "mo_status a"; auto simp: action_ops action_ok_iff\<close>)+

lemma action_step_inert: "inert_unless_effective (action_step c a) a"
proof (cases c)
  case (MarkFailed code)
  then show ?thesis
    by (cases "validate_moderation_text ''moderation_action_failure_code'' code 128 False"; cases "mo_status a")
      (auto simp: action_ops)
qed (cases "mo_status a"; auto simp: action_ops)+

definition action_final :: "moderation_action \<Rightarrow> bool" where
  "action_final a \<longleftrightarrow> mo_status a = ActionFailed \<or> mo_status a = Reversed"

lemma action_final_stays: "action_final a \<Longrightarrow> snd (action_step c a) = a"
proof (cases c)
  case (MarkFailed code)
  moreover assume "action_final a"
  ultimately show ?thesis
    by (cases "validate_moderation_text ''moderation_action_failure_code'' code 128 False")
      (auto simp: action_ops action_final_def)
qed (auto simp: action_ops action_final_def)

interpretation action: guarded_machine action_step "\<lambda>_. True" action_ok
  by unfold_locales (rule action_step_ok)

interpretation action_end: final_machine action_step action_final
  by unfold_locales (rule action_final_stays)

text \<open>The number of effective commands an action can still take.\<close>

fun action_steps_left :: "moderation_action_status \<Rightarrow> nat" where
  "action_steps_left ActionPending = 2"
| "action_steps_left Applied = 1"
| "action_steps_left ActionFailed = 0"
| "action_steps_left Reversed = 0"

lemma action_step_progress:
  "fst (action_step c a) = Inr True \<Longrightarrow>
     action_steps_left (mo_status (snd (action_step c a))) < action_steps_left (mo_status a)"
proof (cases c)
  case (MarkFailed code)
  moreover assume "fst (action_step c a) = Inr True"
  ultimately show ?thesis
    by (cases "validate_moderation_text ''moderation_action_failure_code'' code 128 False"; cases "mo_status a")
      (auto simp: action_ops split: if_splits)
qed (cases "mo_status a"; auto simp: action_ops split: if_splits)+

lemma replay_action_progress:
  "count_list (replay_results action_step cs a) (Inr True) +
     action_steps_left (mo_status (replay action_step cs a)) \<le> action_steps_left (mo_status a)"
proof (induction cs arbitrary: a)
  case (Cons c cs)
  show ?case
    using Cons [of "snd (action_step c a)"] action_step_progress [of c a] action_step_inert [of c a]
    by (auto simp: inert_unless_effective_def)
qed simp

lemma late_reverse_looks_expired:
  "action_ok a \<Longrightarrow> is_due_at a t \<Longrightarrow> action_reverse t a = action_expire t a"
  by (auto simp: action_ops is_due_at_def opt_any_iff action_ok_iff)

section \<open>Properties\<close>

text \<open>
  A reserved moderation action stays restorable under every sequence of applications,
  failures, reversals and expiries; its side effects are reported at most twice (done and undone);
  and once it failed or was lifted it never takes effect again, at any time, and keeps its
  failure code and reversal time.
\<close>

theorem moderation_action_lifecycle:
  assumes "action_reserve i c actor room kind target reason starts expires = Inr a0"
    and "a = replay action_step cs a0"
  shows "action_restore a = Inr a \<and>
    count_list (replay_results action_step cs a0) (Inr True) \<le> 2 \<and>
    (action_final a \<longrightarrow> replay action_step ds a = a \<and> \<not> is_effective_at (replay action_step ds a) now)"
proof -
  have ok: "action_ok a0" and st: "mo_status a0 = ActionPending"
    using assms(1) by (auto simp: action_reserve_def action_ok_iff opt_any_iff not_le split: if_splits)
  have "action_ok a"
    unfolding assms(2) using ok by (rule action.replay_wf [rotated]) (simp add: list_all_iff)
  moreover have "count_list (replay_results action_step cs a0) (Inr True) \<le> 2"
    using replay_action_progress [of cs a0] st by simp
  ultimately show ?thesis
    using action_end.replay_final [of a ds]
    by (auto simp: action_ok_def is_effective_at_def action_final_def)
qed

definition sample_action :: moderation_action where
  "sample_action =
     \<lparr>mo_id = 1, mo_case_id = None, mo_actor = 2, mo_room_catalog_id = 3, mo_kind = Mute,
      mo_target = \<lparr>mt_kind = PrincipalTarget, mt_reference = lit ''p''\<rparr>, mo_reason = Spam,
      mo_starts_at = UtcMillis 5, mo_expires_at = Some (UtcMillis 10), mo_status = ActionPending,
      mo_failure_code = None, mo_reversed_at = None\<rparr>"

theorem moderation_action_lifecycle_witness:
  "\<not> is_effective_at (replay action_step [MarkApplied]
     (replay action_step [MarkApplied, ExpireAction (UtcMillis 12)] sample_action)) (UtcMillis 6)"
proof -
  have r: "action_reserve 1 None 2 3 Mute \<lparr>mt_kind = PrincipalTarget, mt_reference = lit ''p''\<rparr> Spam
      (UtcMillis 5) (Some (UtcMillis 10)) = Inr sample_action"
    by (simp add: action_reserve_def action_target_kind_def sample_action_def)
  have "action_final (replay action_step [MarkApplied, ExpireAction (UtcMillis 12)] sample_action)"
    by (simp add: action_ops action_final_def is_due_at_def sample_action_def)
  then show ?thesis
    using moderation_action_lifecycle [OF r refl] by blast
qed

text \<open>
  A sanction is in force exactly between its application and its end: an applied action with
  an expiry is, at every instant, either in force or due to be lifted and never both, lifting it is
  accepted exactly when it is due, and a report never carries plain text without naming the event
  it was taken from.
\<close>

theorem moderation_effect_window:
  "(mo_status a = Applied \<longrightarrow> (is_effective_at a now \<longleftrightarrow> \<not> is_due_at a now)) \<and>
   (mo_status a = Applied \<longrightarrow> (fst (action_expire now a) = Inr True \<longleftrightarrow> is_due_at a now)) \<and>
   (\<forall>e. moderation_evidence_new room event excerpt e2ee = Inr e \<and> discloses_plaintext e \<longrightarrow>
      me_matrix_event_id e \<noteq> None)"
  by (cases "mo_expires_at a")
    (auto simp: is_effective_at_def is_due_at_def action_expire_def moderation_evidence_new_def
      discloses_plaintext_def result_simps split: if_splits)

theorem moderation_effect_window_witness:
  "is_effective_at (sample_action\<lparr>mo_status := Applied\<rparr>) (UtcMillis 9) \<and>
   fst (action_expire (UtcMillis 10) (sample_action\<lparr>mo_status := Applied\<rparr>)) = Inr True"
proof -
  let ?a = "sample_action\<lparr>mo_status := Applied\<rparr>"
  have st: "mo_status ?a = Applied" by simp
  have "\<not> is_due_at ?a (UtcMillis 9)" "is_due_at ?a (UtcMillis 10)"
    by (simp_all add: is_due_at_def sample_action_def)
  then show ?thesis
    using moderation_effect_window st by blast
qed

end
