(* ===== verification/Automation.thy ===== *)
theory Automation
  imports Texts Utc_Clock
begin

text \<open>
  Grants for autonomous posting (\<^verbatim>\<open>policy/automation.rs\<close> and
  \<^verbatim>\<open>policy/automation_text.rs\<close>): the scope and limits a grant is issued for, its
  revocation, and the decision on each attempt to post under it.
\<close>

section \<open>Codes\<close>

datatype automation_message_kind = RoomMessage | Reply

definition automation_kind_str :: "automation_message_kind \<Rightarrow> string" where
  "automation_kind_str x =
     (case x of
        RoomMessage \<Rightarrow> ''room_message''
      | Reply \<Rightarrow> ''reply'')"

definition automation_kind_of_str :: "string \<Rightarrow> automation_message_kind result" where
  "automation_kind_of_str s =
     (if s = ''room_message'' then Inr RoomMessage
      else if s = ''reply'' then Inr Reply
      else Inl (Validation ''automation_message_kind'' ''unsupported kind''))"

interpretation automation_kind_codec: codec automation_kind_str automation_kind_of_str
  by unfold_locales
    (auto simp: automation_kind_str_def automation_kind_of_str_def split: automation_message_kind.splits if_splits)

definition automation_kinds_new :: "automation_message_kind list \<Rightarrow> automation_message_kind set result" where
  "automation_kinds_new values =
     (if set values = {} then Inl (Validation ''automation_message_kinds'' ''allow at least one kind'')
      else Inr (set values))"

datatype automation_audience = KnownRoomMembers | AnyRoomMember

definition audience_str :: "automation_audience \<Rightarrow> string" where
  "audience_str x =
     (case x of
        KnownRoomMembers \<Rightarrow> ''known_room_members''
      | AnyRoomMember \<Rightarrow> ''any_room_member'')"

definition audience_of_str :: "string \<Rightarrow> automation_audience result" where
  "audience_of_str s =
     (if s = ''known_room_members'' then Inr KnownRoomMembers
      else if s = ''any_room_member'' then Inr AnyRoomMember
      else Inl (Validation ''automation_audience'' ''unsupported audience''))"

interpretation audience_codec: codec audience_str audience_of_str
  by unfold_locales
    (auto simp: audience_str_def audience_of_str_def split: automation_audience.splits if_splits)

definition allows_unknown_recipients :: "automation_audience \<Rightarrow> bool" where
  "allows_unknown_recipients a \<longleftrightarrow> a = AnyRoomMember"

datatype risk_scan_outcome = ScanPassed | RiskRejected | ScanUnavailable | NotRequested

definition risk_scan_str :: "risk_scan_outcome \<Rightarrow> string" where
  "risk_scan_str x =
     (case x of
        ScanPassed \<Rightarrow> ''passed''
      | RiskRejected \<Rightarrow> ''rejected''
      | ScanUnavailable \<Rightarrow> ''unavailable''
      | NotRequested \<Rightarrow> ''not_requested'')"

definition risk_scan_of_str :: "string \<Rightarrow> risk_scan_outcome result" where
  "risk_scan_of_str s =
     (if s = ''passed'' then Inr ScanPassed
      else if s = ''rejected'' then Inr RiskRejected
      else if s = ''unavailable'' then Inr ScanUnavailable
      else if s = ''not_requested'' then Inr NotRequested
      else Inl (Validation ''automation_risk_scan_outcome'' ''unsupported outcome''))"

interpretation risk_scan_codec: codec risk_scan_str risk_scan_of_str
  by unfold_locales
    (auto simp: risk_scan_str_def risk_scan_of_str_def split: risk_scan_outcome.splits if_splits)

datatype grant_status = GrantActive | GrantRevoked | GrantExhausted | GrantExpired

definition grant_status_str :: "grant_status \<Rightarrow> string" where
  "grant_status_str x =
     (case x of
        GrantActive \<Rightarrow> ''active''
      | GrantRevoked \<Rightarrow> ''revoked''
      | GrantExhausted \<Rightarrow> ''exhausted''
      | GrantExpired \<Rightarrow> ''expired'')"

definition grant_status_of_str :: "string \<Rightarrow> grant_status result" where
  "grant_status_of_str s =
     (if s = ''active'' then Inr GrantActive
      else if s = ''revoked'' then Inr GrantRevoked
      else if s = ''exhausted'' then Inr GrantExhausted
      else if s = ''expired'' then Inr GrantExpired
      else Inl (Validation ''automation_grant_status'' ''unsupported state''))"

interpretation grant_status_codec: codec grant_status_str grant_status_of_str
  by unfold_locales
    (auto simp: grant_status_str_def grant_status_of_str_def split: grant_status.splits if_splits)

definition automation_message_text_new :: "utext \<Rightarrow> utext result" where
  "automation_message_text_new s =
     (if s = [] \<or> byte_len s > 48 * 1024
      then Inl (Validation ''automation_message_text'' ''must be 1 to 49152 bytes'')
      else Inr s)"

section \<open>Scope and limits\<close>

record grant_scope =
  gs_agent_id :: agent_id
  gs_agent_instance_id :: "agent_instance_id option"
  gs_room_catalog_id :: room_catalog_id
  gs_message_kinds :: "automation_message_kind set"
  gs_audience :: automation_audience
  gs_requires_risk_scan :: bool

definition grant_scope_new :: "grant_scope \<Rightarrow> grant_scope result" where
  "grant_scope_new s =
     (if allows_unknown_recipients (gs_audience s) \<and> \<not> gs_requires_risk_scan s
      then Inl (Validation ''automation_risk_scan'' ''unknown recipients need a risk scan'')
      else Inr s)"

text \<open>The counts are \<^verbatim>\<open>u16\<close> and \<^verbatim>\<open>u32\<close> values that are only compared.\<close>

record grant_limits =
  gl_per_minute :: nat
  gl_total :: "nat option"
  gl_starts_at :: utc_millis
  gl_expires_at :: utc_millis

definition max_messages_per_minute :: nat where "max_messages_per_minute = 60"
definition max_total_messages :: nat where "max_total_messages = 10000"
definition max_grant_lifetime :: int where "max_grant_lifetime = 30 * 24 * 60 * 60 * 1000"

definition grant_limits_new ::
  "nat \<Rightarrow> nat option \<Rightarrow> utc_millis \<Rightarrow> utc_millis \<Rightarrow> grant_limits result" where
  "grant_limits_new per_minute total_limit starts_at expires_at =
     (if \<not> (1 \<le> per_minute \<and> per_minute \<le> max_messages_per_minute) then
        Inl (Validation ''automation_max_messages_per_minute'' ''out of the system range'')
      else if opt_any total_limit (\<lambda>m. \<not> (1 \<le> m \<and> m \<le> max_total_messages)) then
        Inl (Validation ''automation_max_total_messages'' ''out of the system range'')
      else
        (let lifetime = i64_saturating_sub (utc_value expires_at) (utc_value starts_at)
         in if \<not> (1 \<le> lifetime \<and> lifetime \<le> max_grant_lifetime)
            then Inl (Validation ''automation_grant_lifetime'' ''window empty or too long'')
            else Inr \<lparr>gl_per_minute = per_minute, gl_total = total_limit, gl_starts_at = starts_at,
                      gl_expires_at = expires_at\<rparr>))"

section \<open>Grants\<close>

record automation_grant =
  gr_id :: automation_grant_id
  gr_grantor_id :: principal_id
  gr_scope :: grant_scope
  gr_limits :: grant_limits
  gr_created_at :: utc_millis
  gr_state :: grant_status
  gr_revoked_at :: "utc_millis option"
  gr_version :: aggregate_version

definition grant_issue ::
  "automation_grant_id \<Rightarrow> principal_id \<Rightarrow> grant_scope \<Rightarrow> grant_limits \<Rightarrow> utc_millis \<Rightarrow> automation_grant result" where
  "grant_issue i grantor scope limits created_at =
     (if created_at > gl_starts_at limits
      then Inl (Validation ''automation_grant_created_at'' ''created after its start'')
      else Inr \<lparr>gr_id = i, gr_grantor_id = grantor, gr_scope = scope, gr_limits = limits,
                gr_created_at = created_at, gr_state = GrantActive, gr_revoked_at = None,
                gr_version = version_initial\<rparr>)"

definition grant_restore :: "automation_grant \<Rightarrow> automation_grant result" where
  "grant_restore g =
     and_then (grant_issue (gr_id g) (gr_grantor_id g) (gr_scope g) (gr_limits g) (gr_created_at g)) (\<lambda>issued.
     let revocation_is_valid =
       (if gr_state g = GrantRevoked
        then opt_any (gr_revoked_at g)
               (\<lambda>t. t \<ge> gr_created_at issued \<and> t < gl_expires_at (gr_limits issued))
        else gr_revoked_at g = None)
     in if \<not> revocation_is_valid
        then Inl (InvariantViolation ''automation_grant'' ''revocation time and state disagree'')
        else Inr (issued\<lparr>gr_state := gr_state g, gr_revoked_at := gr_revoked_at g,
                         gr_version := gr_version g\<rparr>))"

text \<open>The grant is already revoked when the next version turns out not to exist.\<close>

definition grant_revoke :: "utc_millis \<Rightarrow> automation_grant \<Rightarrow> (bool, automation_grant) update" where
  "grant_revoke t g =
     (if gr_state g = GrantRevoked then (Inr False, g)
      else if t < gr_created_at g \<or> t \<ge> gl_expires_at (gr_limits g) then
        (Inl (Validation ''automation_grant_revoked_at'' ''outside the life of the grant''), g)
      else
        (let r = g\<lparr>gr_state := GrantRevoked, gr_revoked_at := Some t\<rparr>
         in attempt (version_next (gr_version r)) r (\<lambda>v. (Inr True, r\<lparr>gr_version := v\<rparr>))))"

section \<open>Decisions\<close>

datatype grant_denial =
    NotStarted
  | DeniedRevoked
  | DeniedExpired
  | AgentMismatch
  | InstanceMismatch
  | RoomMismatch
  | MessageKindNotAllowed
  | UnknownRecipientNotAllowed
  | RateLimitExceeded
  | TotalLimitExceeded
  | RiskScanRequired
  | RiskScanRejected

definition grant_denial_str :: "grant_denial \<Rightarrow> string" where
  "grant_denial_str d =
     (case d of
        NotStarted \<Rightarrow> ''automation.grant_not_started''
      | DeniedRevoked \<Rightarrow> ''automation.grant_revoked''
      | DeniedExpired \<Rightarrow> ''automation.grant_expired''
      | AgentMismatch \<Rightarrow> ''automation.agent_mismatch''
      | InstanceMismatch \<Rightarrow> ''automation.instance_mismatch''
      | RoomMismatch \<Rightarrow> ''automation.room_mismatch''
      | MessageKindNotAllowed \<Rightarrow> ''automation.message_kind_not_allowed''
      | UnknownRecipientNotAllowed \<Rightarrow> ''automation.unknown_recipient_not_allowed''
      | RateLimitExceeded \<Rightarrow> ''automation.rate_limit_exceeded''
      | TotalLimitExceeded \<Rightarrow> ''automation.total_limit_exceeded''
      | RiskScanRequired \<Rightarrow> ''automation.risk_scan_required''
      | RiskScanRejected \<Rightarrow> ''automation.risk_scan_rejected'')"

datatype grant_decision = Allowed | Denied grant_denial

record grant_attempt =
  ga_agent_id :: agent_id
  ga_agent_instance_id :: "agent_instance_id option"
  ga_room_catalog_id :: room_catalog_id
  ga_message_kind :: automation_message_kind
  ga_unknown_recipients :: bool
  ga_end_to_end_encrypted :: bool
  ga_risk_scan :: risk_scan_outcome
  ga_now :: utc_millis

record usage_snapshot =
  us_total :: nat
  us_current_minute :: nat

definition or_else :: "'a option \<Rightarrow> 'a option \<Rightarrow> 'a option" where
  "or_else x y = (case x of None \<Rightarrow> y | Some v \<Rightarrow> Some v)"

definition then_some :: "bool \<Rightarrow> 'a \<Rightarrow> 'a option" where
  "then_some b v = (if b then Some v else None)"

definition risk_denial :: "automation_grant \<Rightarrow> grant_attempt \<Rightarrow> grant_denial option" where
  "risk_denial g a =
     (if ga_risk_scan a = RiskRejected then Some RiskScanRejected
      else if ga_risk_scan a = NotRequested \<and> ga_end_to_end_encrypted a then None
      else if (ga_risk_scan a = ScanUnavailable \<or> ga_risk_scan a = NotRequested) \<and>
              gs_requires_risk_scan (gr_scope g) then Some RiskScanRequired
      else None)"

definition evaluate_internal ::
  "automation_grant \<Rightarrow> grant_attempt \<Rightarrow> usage_snapshot option \<Rightarrow> grant_decision" where
  "evaluate_internal g a usage =
     (let state_denial =
        (case gr_state g of
           GrantRevoked \<Rightarrow> Some DeniedRevoked
         | GrantExhausted \<Rightarrow> map_option (\<lambda>_. TotalLimitExceeded) usage
         | GrantExpired \<Rightarrow> Some DeniedExpired
         | GrantActive \<Rightarrow> None);
          denial =
        or_else state_denial
       (or_else (then_some (ga_now a < gl_starts_at (gr_limits g)) NotStarted)
       (or_else (then_some (ga_now a \<ge> gl_expires_at (gr_limits g)) DeniedExpired)
       (or_else (then_some (ga_agent_id a \<noteq> gs_agent_id (gr_scope g)) AgentMismatch)
       (or_else (then_some (opt_any (gs_agent_instance_id (gr_scope g))
                   (\<lambda>expected. Some expected \<noteq> ga_agent_instance_id a)) InstanceMismatch)
       (or_else (then_some (ga_room_catalog_id a \<noteq> gs_room_catalog_id (gr_scope g)) RoomMismatch)
       (or_else (then_some (ga_message_kind a \<notin> gs_message_kinds (gr_scope g)) MessageKindNotAllowed)
       (or_else (then_some (ga_unknown_recipients a \<and>
                   \<not> allows_unknown_recipients (gs_audience (gr_scope g))) UnknownRecipientNotAllowed)
       (or_else (then_some (opt_any (gl_total (gr_limits g))
                   (\<lambda>maximum. opt_any usage (\<lambda>u. us_total u \<ge> maximum))) TotalLimitExceeded)
       (or_else (then_some (opt_any usage
                   (\<lambda>u. us_current_minute u \<ge> gl_per_minute (gr_limits g))) RateLimitExceeded)
        (risk_denial g a))))))))))
      in case denial of None \<Rightarrow> Allowed | Some d \<Rightarrow> Denied d)"

definition grant_evaluate :: "automation_grant \<Rightarrow> grant_attempt \<Rightarrow> usage_snapshot \<Rightarrow> grant_decision" where
  "grant_evaluate g a usage = evaluate_internal g a (Some usage)"

definition grant_evaluate_policy :: "automation_grant \<Rightarrow> grant_attempt \<Rightarrow> grant_decision" where
  "grant_evaluate_policy g a = evaluate_internal g a None"

section \<open>Lemmas\<close>

lemma or_else_None [simp]: "or_else x y = None \<longleftrightarrow> x = None \<and> y = None"
  by (cases x) (simp_all add: or_else_def)

lemma then_some_None [simp]: "then_some b v = None \<longleftrightarrow> \<not> b"
  by (simp add: then_some_def)

definition within_scope :: "automation_grant \<Rightarrow> grant_attempt \<Rightarrow> bool" where
  "within_scope g a \<longleftrightarrow>
     gl_starts_at (gr_limits g) \<le> ga_now a \<and> ga_now a < gl_expires_at (gr_limits g) \<and>
     ga_agent_id a = gs_agent_id (gr_scope g) \<and>
     (gs_agent_instance_id (gr_scope g) = None \<or> gs_agent_instance_id (gr_scope g) = ga_agent_instance_id a) \<and>
     ga_room_catalog_id a = gs_room_catalog_id (gr_scope g) \<and>
     ga_message_kind a \<in> gs_message_kinds (gr_scope g) \<and>
     (ga_unknown_recipients a \<longrightarrow> gs_audience (gr_scope g) = AnyRoomMember)"

definition content_scanned :: "automation_grant \<Rightarrow> grant_attempt \<Rightarrow> bool" where
  "content_scanned g a \<longleftrightarrow>
     ga_risk_scan a = ScanPassed \<or>
     ga_risk_scan a = NotRequested \<and> ga_end_to_end_encrypted a \<or>
     ga_risk_scan a \<noteq> RiskRejected \<and> \<not> gs_requires_risk_scan (gr_scope g)"

lemma risk_denial_None: "risk_denial g a = None \<longleftrightarrow> content_scanned g a"
  by (cases "ga_risk_scan a") (auto simp: risk_denial_def content_scanned_def)

lemma allowed_iff_no_denial:
  "(case d of None \<Rightarrow> Allowed | Some x \<Rightarrow> Denied x) = Allowed \<longleftrightarrow> d = None"
  by (cases d) simp_all

lemma grant_restore_Inr:
  "grant_restore g = Inr h \<longleftrightarrow> h = g \<and> gr_created_at g \<le> gl_starts_at (gr_limits g) \<and>
     (gr_state g = GrantRevoked \<longleftrightarrow> gr_revoked_at g \<noteq> None) \<and>
     (\<forall>t. gr_revoked_at g = Some t \<longrightarrow> gr_created_at g \<le> t \<and> t < gl_expires_at (gr_limits g))"
  by (cases g; cases "gr_revoked_at g")
    (auto simp: grant_restore_def grant_issue_def result_simps Let_def not_less split: if_splits)

lemma limits_new_Inr:
  "grant_limits_new m t s e = Inr l \<Longrightarrow> utc_ok s \<Longrightarrow> utc_ok e \<Longrightarrow>
     gl_starts_at l = s \<and> gl_expires_at l = e \<and> gl_total l = t \<and> gl_per_minute l = m \<and>
     1 \<le> m \<and> m \<le> 60 \<and> (\<forall>n. t = Some n \<longrightarrow> 1 \<le> n \<and> n \<le> 10000) \<and>
     utc_value s < utc_value e \<and> utc_value e \<le> utc_value s + max_grant_lifetime"
  by (auto simp: grant_limits_new_def Let_def i64_saturating_sub_def max_messages_per_minute_def
      max_total_messages_def max_grant_lifetime_def int_width_defs utc_ok_def opt_any_iff split: if_splits)

fun revoke_all :: "utc_millis list \<Rightarrow> automation_grant \<Rightarrow> automation_grant" where
  "revoke_all [] g = g"
| "revoke_all (t # ts) g = revoke_all ts (snd (grant_revoke t g))"

lemma revoke_keeps_terms:
  "gr_scope (snd (grant_revoke t g)) = gr_scope g \<and> gr_limits (snd (grant_revoke t g)) = gr_limits g \<and>
   (gr_state g = GrantRevoked \<longrightarrow> snd (grant_revoke t g) = g)"
  by (cases "version_next (gr_version g)") (auto simp: grant_revoke_def Let_def)

lemma revoke_all_revoked: "gr_state g = GrantRevoked \<Longrightarrow> revoke_all ts g = g"
  by (induction ts) (simp_all add: revoke_keeps_terms)

lemma revoked_denied: "gr_state g = GrantRevoked \<Longrightarrow> evaluate_internal g a u = Denied DeniedRevoked"
  by (simp add: evaluate_internal_def or_else_def)

lemma evaluate_internal_Allowed:
  "evaluate_internal g a v = Allowed \<longleftrightarrow>
     (gr_state g = GrantActive \<or> gr_state g = GrantExhausted \<and> v = None) \<and> within_scope g a \<and>
     (\<forall>m. gl_total (gr_limits g) = Some m \<longrightarrow> opt_all v (\<lambda>u. us_total u < m)) \<and>
     opt_all v (\<lambda>u. us_current_minute u < gl_per_minute (gr_limits g)) \<and> content_scanned g a"
  unfolding evaluate_internal_def Let_def allowed_iff_no_denial or_else_None then_some_None risk_denial_None
  by (cases "gr_state g"; cases v; cases "gs_agent_instance_id (gr_scope g)")
    (auto simp: within_scope_def allows_unknown_recipients_def opt_any_iff not_less not_le)

lemma automation_allowed:
  "grant_evaluate g a u = Allowed \<longleftrightarrow>
     gr_state g = GrantActive \<and> within_scope g a \<and>
     (\<forall>m. gl_total (gr_limits g) = Some m \<longrightarrow> us_total u < m) \<and>
     us_current_minute u < gl_per_minute (gr_limits g) \<and> content_scanned g a"
  by (simp add: grant_evaluate_def evaluate_internal_Allowed)

lemma automation_policy_allowed:
  "grant_evaluate_policy g a = Allowed \<longleftrightarrow>
     (gr_state g = GrantActive \<or> gr_state g = GrantExhausted) \<and> within_scope g a \<and> content_scanned g a"
  by (auto simp: grant_evaluate_policy_def evaluate_internal_Allowed)

section \<open>Properties\<close>

text \<open>
  C16: The decision on an autonomous message is exactly the conjunction of the grant's terms: it
  is allowed if and only if the grant is active, the attempt lies in the granted window and scope,
  neither the total nor the rate limit is used up, and the content was scanned as the scope
  demands (only a room the server knows to be end-to-end encrypted may skip the scan); whatever is
  allowed with its usage is also allowed by the policy check alone.
\<close>

theorem automation_allowed_iff:
  "(grant_evaluate g a u = Allowed \<longleftrightarrow>
      gr_state g = GrantActive \<and> within_scope g a \<and>
      (\<forall>m. gl_total (gr_limits g) = Some m \<longrightarrow> us_total u < m) \<and>
      us_current_minute u < gl_per_minute (gr_limits g) \<and> content_scanned g a) \<and>
   (grant_evaluate g a u = Allowed \<longrightarrow> grant_evaluate_policy g a = Allowed)"
  unfolding automation_allowed automation_policy_allowed by auto

definition sample_grant :: automation_grant where
  "sample_grant =
     \<lparr>gr_id = 1, gr_grantor_id = 2,
      gr_scope = \<lparr>gs_agent_id = 3, gs_agent_instance_id = None, gs_room_catalog_id = 4,
        gs_message_kinds = {Reply}, gs_audience = KnownRoomMembers, gs_requires_risk_scan = True\<rparr>,
      gr_limits = \<lparr>gl_per_minute = 5, gl_total = Some 10, gl_starts_at = UtcMillis 10, gl_expires_at = UtcMillis 20\<rparr>,
      gr_created_at = UtcMillis 9, gr_state = GrantActive, gr_revoked_at = None, gr_version = version_initial\<rparr>"

definition sample_attempt :: grant_attempt where
  "sample_attempt =
     \<lparr>ga_agent_id = 3, ga_agent_instance_id = Some 8, ga_room_catalog_id = 4, ga_message_kind = Reply,
      ga_unknown_recipients = False, ga_end_to_end_encrypted = False, ga_risk_scan = ScanPassed,
      ga_now = UtcMillis 15\<rparr>"

theorem automation_allowed_iff_witness:
  "grant_evaluate_policy sample_grant sample_attempt = Allowed"
proof -
  have "grant_evaluate sample_grant sample_attempt \<lparr>us_total = 9, us_current_minute = 4\<rparr> = Allowed"
    by (simp add: automation_allowed_iff [THEN conjunct1] within_scope_def content_scanned_def
        sample_grant_def sample_attempt_def)
  then show ?thesis using automation_allowed_iff by blast
qed

text \<open>
  A revocation inside the life of a grant always takes effect: the grant is denied as
  revoked from then on, for every attempt and usage and after any further revocations, its stored
  form is restorable, and its scope and limits are those that were issued.
\<close>

theorem automation_revocation_effective:
  assumes "grant_restore g = Inr g" and "gr_created_at g \<le> t" and "t < gl_expires_at (gr_limits g)"
  shows "grant_evaluate (revoke_all ts (snd (grant_revoke t g))) a u = Denied DeniedRevoked \<and>
    grant_restore (revoke_all ts (snd (grant_revoke t g))) = Inr (revoke_all ts (snd (grant_revoke t g))) \<and>
    gr_scope (revoke_all ts (snd (grant_revoke t g))) = gr_scope g \<and>
    gr_limits (revoke_all ts (snd (grant_revoke t g))) = gr_limits g"
proof -
  have "gr_state (snd (grant_revoke t g)) = GrantRevoked \<and>
      grant_restore (snd (grant_revoke t g)) = Inr (snd (grant_revoke t g))"
    using assms by (cases "version_next (gr_version g)") (auto simp: grant_revoke_def grant_restore_Inr Let_def)
  then show ?thesis
    using revoke_all_revoked revoke_keeps_terms [of t g] revoked_denied
    by (simp add: grant_evaluate_def)
qed

theorem automation_revocation_effective_witness:
  "grant_evaluate (revoke_all [UtcMillis 13] (snd (grant_revoke (UtcMillis 12) sample_grant))) sample_attempt
     \<lparr>us_total = 0, us_current_minute = 0\<rparr> = Denied DeniedRevoked"
  by (rule automation_revocation_effective [THEN conjunct1])
    (simp_all add: grant_restore_Inr sample_grant_def)

text \<open>
  No autonomous posting right is open-ended: accepted limits allow between 1 and 60 messages a
  minute, at most 10000 in total where a total is set, for a window that is not empty and not longer
  than 30 days, and nothing is allowed outside that window or to unknown recipients without a
  scan of what is readable.
\<close>

theorem automation_limits_bounded:
  assumes "grant_limits_new m n s e = Inr l" and "utc_ok s" and "utc_ok e"
    and "grant_scope_new sc = Inr sc" and "grant_issue i p sc l c = Inr g"
    and "grant_evaluate g a u = Allowed"
  shows "1 \<le> m \<and> m \<le> 60 \<and> us_current_minute u < 60 \<and>
    (\<forall>k. n = Some k \<longrightarrow> us_total u < k \<and> k \<le> 10000) \<and>
    utc_value s \<le> utc_value (ga_now a) \<and> utc_value (ga_now a) < utc_value s + max_grant_lifetime \<and>
    (ga_unknown_recipients a \<longrightarrow> ga_risk_scan a = ScanPassed \<or>
       ga_risk_scan a = NotRequested \<and> ga_end_to_end_encrypted a)"
proof -
  have l: "gl_starts_at l = s" "gl_expires_at l = e" "gl_total l = n" "gl_per_minute l = m"
    "1 \<le> m" "m \<le> 60" "\<forall>k. n = Some k \<longrightarrow> 1 \<le> k \<and> k \<le> 10000"
    "utc_value e \<le> utc_value s + max_grant_lifetime"
    using limits_new_Inr [OF assms(1-3)] by auto
  have g: "gr_scope g = sc" "gr_limits g = l"
    using assms(5) by (auto simp: grant_issue_def split: if_splits)
  have "within_scope g a" "\<forall>k. gl_total l = Some k \<longrightarrow> us_total u < k" "us_current_minute u < gl_per_minute l"
    "content_scanned g a"
    using assms(6) g automation_allowed by auto
  moreover have "gs_audience sc = AnyRoomMember \<longrightarrow> gs_requires_risk_scan sc"
    using assms(4) by (auto simp: grant_scope_new_def allows_unknown_recipients_def split: if_splits)
  ultimately show ?thesis
    using l g by (auto simp: within_scope_def content_scanned_def clock_order)
qed

theorem automation_limits_bounded_witness:
  "\<exists>l g. grant_limits_new 5 (Some 10) (UtcMillis 10) (UtcMillis 20) = Inr l \<and>
     grant_evaluate g sample_attempt \<lparr>us_total = 9, us_current_minute = 4\<rparr> = Allowed \<and>
     utc_value (ga_now sample_attempt) < 10 + max_grant_lifetime"
proof -
  let ?l = "\<lparr>gl_per_minute = 5, gl_total = Some 10, gl_starts_at = UtcMillis 10, gl_expires_at = UtcMillis 20\<rparr>"
  have l: "grant_limits_new 5 (Some 10) (UtcMillis 10) (UtcMillis 20) = Inr ?l"
    by (simp add: grant_limits_new_def i64_saturating_sub_def max_messages_per_minute_def
        max_total_messages_def max_grant_lifetime_def int_width_defs)
  have s: "grant_scope_new (gr_scope sample_grant) = Inr (gr_scope sample_grant)"
    by (simp add: grant_scope_new_def sample_grant_def allows_unknown_recipients_def)
  have i: "grant_issue 1 2 (gr_scope sample_grant) ?l (UtcMillis 9) = Inr sample_grant"
    by (simp add: grant_issue_def sample_grant_def)
  have a: "grant_evaluate sample_grant sample_attempt \<lparr>us_total = 9, us_current_minute = 4\<rparr> = Allowed"
    unfolding automation_allowed
    by (simp add: within_scope_def content_scanned_def sample_grant_def sample_attempt_def)
  have "utc_ok (UtcMillis 10)" "utc_ok (UtcMillis 20)" by (simp_all add: utc_ok_def i64_max_def)
  from automation_limits_bounded [OF l this s i a] l a show ?thesis by auto
qed

end
