(* ===== verification/Federation.thy ===== *)
theory Federation
  imports Utc_Clock Texts "HOL-Library.Multiset"
begin

text \<open>
  \<^verbatim>\<open>federation/compatibility.rs\<close> and \<^verbatim>\<open>federation/governance.rs\<close>: the protocol versions
  two servers agree on, the event types that may be written, and the rules and the reputation by
  which a remote server, room or user is allowed, throttled, quarantined or blocked.
\<close>

section \<open>Protocol versions\<close>

text \<open>
  A major version is a non-zero \<^verbatim>\<open>u16\<close>. The sum in \<open>compatibility_new\<close> wraps as in a release
  build; a debug build panics at the previous version 65535, where the release build rejects.
\<close>

type_synonym protocol_major = "16 word"

definition protocol_major_new :: "16 word \<Rightarrow> protocol_major result" where
  "protocol_major_new v =
     (if v = 0 then Inl (Validation ''protocol_major'' ''must be positive'') else Inr v)"

datatype protocol_mode =
    ReadWrite protocol_major
  | ReadOnlyUpgradeRequired protocol_major

record compatibility_policy =
  cp_current :: protocol_major
  cp_previous :: protocol_major

definition compatibility_new :: "protocol_major \<Rightarrow> protocol_major \<Rightarrow> compatibility_policy result" where
  "compatibility_new current previous =
     (if current \<noteq> previous + 1
      then Inl (Validation ''protocol_compatibility'' ''versions must be adjacent'')
      else Inr \<lparr>cp_current = current, cp_previous = previous\<rparr>)"

definition compatibility_public_test :: compatibility_policy where
  "compatibility_public_test = \<lparr>cp_current = 2, cp_previous = 1\<rparr>"

fun max_of :: "'a::linorder list \<Rightarrow> 'a option" where
  "max_of [] = None"
| "max_of (x # xs) = Some (fold max xs x)"

definition negotiate :: "compatibility_policy \<Rightarrow> protocol_major list \<Rightarrow> protocol_mode result" where
  "negotiate p remote =
     (if remote = [] then Inl (Validation ''remote_protocol_versions'' ''must not be empty'')
      else if List.member remote (cp_current p) then Inr (ReadWrite (cp_current p))
      else if List.member remote (cp_previous p) then Inr (ReadWrite (cp_previous p))
      else (case max_of remote of
          None \<Rightarrow> Inl (InvariantViolation ''protocol_compatibility'' ''a non-empty list has a maximum'')
        | Some latest \<Rightarrow> Inr (ReadOnlyUpgradeRequired latest)))"

section \<open>Event types\<close>

datatype event_compatibility = CurrentWritable | LegacyReadOnly | UnknownReadOnly

definition active_event_namespace :: utext where
  "active_event_namespace = lit ''io.github.rainyflash.agentroom''"

definition legacy_event_namespace :: utext where
  "legacy_event_namespace = lit ''org.agentroom''"

definition known_event_families :: "utext list" where
  "known_event_families =
     [lit ''agent.profile'', lit ''agent.status'', lit ''handoff.receipt'', lit ''handoff.request'',
      lit ''message.preview'', lit ''message.revision'', lit ''moderation.notice'', lit ''room.policy'',
      lit ''task.reference'']"

definition is_known_event :: "utext \<Rightarrow> utext \<Rightarrow> bool" where
  "is_known_event event_type namespace \<longleftrightarrow>
     list_ex (\<lambda>family. event_type = namespace @ lit ''.'' @ family @ lit ''.v1'') known_event_families"

definition classify_event :: "utext \<Rightarrow> event_compatibility" where
  "classify_event event_type =
     (if is_known_event event_type active_event_namespace then CurrentWritable
      else if is_known_event event_type legacy_event_namespace then LegacyReadOnly
      else UnknownReadOnly)"

section \<open>Servers and scopes\<close>

definition max_server_name_length :: nat where "max_server_name_length = 255"
definition max_reference_length :: nat where "max_reference_length = 1024"
definition max_rule_reason_length :: nat where "max_rule_reason_length = 500"

definition validate_reference :: "string \<Rightarrow> utext \<Rightarrow> nat \<Rightarrow> unit result" where
  "validate_reference field v maximum =
     (if v = [] \<or> byte_len v > maximum \<or> list_ex is_control v
      then Inl (Validation field ''empty, control characters or too long'') else Inr ())"

definition validate_matrix_reference :: "string \<Rightarrow> utext \<Rightarrow> utext \<Rightarrow> unit result" where
  "validate_matrix_reference field v prefixes =
     and_then (validate_reference field v max_reference_length) (\<lambda>_.
     if \<not> list_ex (\<lambda>p. starts_with [p] v) prefixes \<or> \<not> List.member v (of_char CHR '':'')
     then Inl (Validation field ''not a full Matrix identifier'') else Inr ())"

definition validate_rule_reason :: "utext \<Rightarrow> unit result" where
  "validate_rule_reason reason = validate_reference ''federation_rule_reason'' reason max_rule_reason_length"

type_synonym server_name = utext

definition server_name_new :: "utext \<Rightarrow> server_name result" where
  "server_name_new raw =
     (let v = map ascii_lowercase raw
      in and_then (validate_reference ''federation_server_name'' v max_server_name_length) (\<lambda>_.
         if list_ex (\<lambda>p. starts_with [p] v) (lit ''@!#'') \<or> List.member v (of_char CHR ''/'') \<or>
            list_ex is_whitespace v
         then Inl (Validation ''federation_server_name'' ''not an acceptable server name'')
         else Inr v))"

datatype federation_scope =
    ServerScope server_name
  | RoomScope server_name utext
  | UserScope server_name utext

definition scope_server :: "utext \<Rightarrow> federation_scope result" where
  "scope_server peer = and_then (server_name_new peer) (\<lambda>p. Inr (ServerScope p))"

definition scope_room :: "utext \<Rightarrow> utext \<Rightarrow> federation_scope result" where
  "scope_room peer room_id =
     and_then (validate_matrix_reference ''federation_room_id'' room_id (lit ''!#'')) (\<lambda>_.
     and_then (server_name_new peer) (\<lambda>p. Inr (RoomScope p room_id)))"

definition scope_user :: "utext \<Rightarrow> utext \<Rightarrow> federation_scope result" where
  "scope_user peer user_id =
     and_then (validate_matrix_reference ''federation_user_id'' user_id (lit ''@'')) (\<lambda>_.
     and_then (server_name_new peer) (\<lambda>p. Inr (UserScope p user_id)))"

fun scope_peer :: "federation_scope \<Rightarrow> server_name" where
  "scope_peer (ServerScope p) = p"
| "scope_peer (RoomScope p r) = p"
| "scope_peer (UserScope p u) = p"

fun scope_matches :: "federation_scope \<Rightarrow> server_name \<Rightarrow> utext \<Rightarrow> utext \<Rightarrow> bool" where
  "scope_matches (ServerScope expected) peer room user \<longleftrightarrow> expected = peer"
| "scope_matches (RoomScope expected r) peer room user \<longleftrightarrow> expected = peer \<and> r = room"
| "scope_matches (UserScope expected u) peer room user \<longleftrightarrow> expected = peer \<and> u = user"

section \<open>Rules\<close>

datatype disposition = DispAllow | DispThrottle | DispQuarantine | DispBlock

fun disposition_rank :: "disposition \<Rightarrow> nat" where
  "disposition_rank DispAllow = 0"
| "disposition_rank DispThrottle = 1"
| "disposition_rank DispQuarantine = 2"
| "disposition_rank DispBlock = 3"

lemma disposition_rank_inject: "disposition_rank a = disposition_rank b \<Longrightarrow> a = b"
  by (cases a; cases b) simp_all

instantiation disposition :: linorder
begin

definition less_eq_disposition :: "disposition \<Rightarrow> disposition \<Rightarrow> bool" where
  "less_eq_disposition a b \<longleftrightarrow> disposition_rank a \<le> disposition_rank b"

definition less_disposition :: "disposition \<Rightarrow> disposition \<Rightarrow> bool" where
  "less_disposition a b \<longleftrightarrow> disposition_rank a < disposition_rank b"

instance
  by standard (auto simp: less_eq_disposition_def less_disposition_def intro: disposition_rank_inject)

end

lemmas disposition_order = less_eq_disposition_def less_disposition_def

lemma DispAllow_least [simp]: "DispAllow \<le> d"
  by (simp add: disposition_order)

datatype rule_audit_action = RuleCreated | RuleRevoked

record rule_audit =
  ra_rule_id :: federation_rule_id
  ra_action :: rule_audit_action
  ra_actor :: principal_id
  ra_occurred_at :: utc_millis
  ra_reason :: utext

record federation_rule =
  fr_id :: federation_rule_id
  fr_scope :: federation_scope
  fr_disposition :: disposition
  fr_created_by :: principal_id
  fr_created_at :: utc_millis
  fr_reason :: utext
  fr_expires_at :: "utc_millis option"
  fr_revocation :: "rule_audit option"

definition rule_new ::
  "federation_rule_id \<Rightarrow> federation_scope \<Rightarrow> disposition \<Rightarrow> principal_id \<Rightarrow> utc_millis \<Rightarrow> utext \<Rightarrow>
   utc_millis option \<Rightarrow> federation_rule result" where
  "rule_new i scope d created_by created_at reason expires_at =
     and_then (validate_rule_reason reason) (\<lambda>_.
     if opt_any expires_at (\<lambda>e. e \<le> created_at)
     then Inl (Validation ''federation_rule_expires_at'' ''must be later than the creation'')
     else Inr \<lparr>fr_id = i, fr_scope = scope, fr_disposition = d, fr_created_by = created_by,
               fr_created_at = created_at, fr_reason = reason, fr_expires_at = expires_at,
               fr_revocation = None\<rparr>)"

definition rule_is_active_at :: "federation_rule \<Rightarrow> utc_millis \<Rightarrow> bool" where
  "rule_is_active_at r now \<longleftrightarrow>
     fr_revocation r = None \<and> opt_all (fr_expires_at r) (\<lambda>e. now < e)"

definition creation_audit :: "federation_rule \<Rightarrow> rule_audit" where
  "creation_audit r =
     \<lparr>ra_rule_id = fr_id r, ra_action = RuleCreated, ra_actor = fr_created_by r,
      ra_occurred_at = fr_created_at r, ra_reason = fr_reason r\<rparr>"

definition rule_revoke ::
  "principal_id \<Rightarrow> utc_millis \<Rightarrow> utext \<Rightarrow> federation_rule \<Rightarrow> (bool, federation_rule) update" where
  "rule_revoke actor occurred_at reason r =
     (if fr_revocation r \<noteq> None then (Inr False, r)
      else if occurred_at < fr_created_at r then
        (Inl (Validation ''federation_rule_revoked_at'' ''before the creation''), r)
      else attempt (validate_rule_reason reason) r (\<lambda>_.
        (Inr True, r\<lparr>fr_revocation := Some
           \<lparr>ra_rule_id = fr_id r, ra_action = RuleRevoked, ra_actor = actor,
            ra_occurred_at = occurred_at, ra_reason = reason\<rparr>\<rparr>)))"

section \<open>Policy sets\<close>

record governance_decision =
  gd_disposition :: disposition
  gd_matching_rule_ids :: "federation_rule_id list"

type_synonym policy_set = "federation_rule list"

definition policy_register :: "federation_rule \<Rightarrow> policy_set \<Rightarrow> (unit, policy_set) update" where
  "policy_register r rules =
     (if list_ex (\<lambda>existing. fr_id existing = fr_id r) rules
      then (Inl (InvariantViolation ''federation_policy_set'' ''rule ids are unique''), rules)
      else (Inr (), rules @ [r]))"

text \<open>
  \<^verbatim>\<open>rule_mut\<close> hands out the first rule with an id for an update in place; the model takes the
  update as a function and writes its result back.
\<close>

fun policy_rule_mut ::
  "federation_rule_id \<Rightarrow> (federation_rule \<Rightarrow> 'r \<times> federation_rule) \<Rightarrow> policy_set \<Rightarrow> 'r option \<times> policy_set" where
  "policy_rule_mut i f [] = (None, [])"
| "policy_rule_mut i f (r # rules) =
     (if fr_id r = i then (let (x, r') = f r in (Some x, r' # rules))
      else (let (x, rules') = policy_rule_mut i f rules in (x, r # rules')))"

definition matching_rules :: "policy_set \<Rightarrow> server_name \<Rightarrow> utext \<Rightarrow> utext \<Rightarrow> utc_millis \<Rightarrow> federation_rule list" where
  "matching_rules rules peer room user now =
     sort_key fr_id
       (filter (\<lambda>r. rule_is_active_at r now \<and> scope_matches (fr_scope r) peer room user) rules)"

definition policy_evaluate ::
  "policy_set \<Rightarrow> server_name \<Rightarrow> utext \<Rightarrow> utext \<Rightarrow> utc_millis \<Rightarrow> governance_decision" where
  "policy_evaluate rules peer room user now =
     (let matching = matching_rules rules peer room user now
      in \<lparr>gd_disposition = unwrap_or (max_of (map fr_disposition matching)) DispAllow,
          gd_matching_rule_ids = map fr_id matching\<rparr>)"

section \<open>Reputation\<close>

datatype reputation_signal =
  SuccessfulDelivery | VerifiedOperator | RateLimitViolation | ReplayAttempt | InvalidSignature

fun signal_delta :: "reputation_signal \<Rightarrow> int" where
  "signal_delta SuccessfulDelivery = 1"
| "signal_delta VerifiedOperator = 15"
| "signal_delta RateLimitViolation = - 10"
| "signal_delta ReplayAttempt = - 20"
| "signal_delta InvalidSignature = - 35"

datatype reputation_tier = Trusted | Neutral | Degraded | Hostile

text \<open>The score is an \<^verbatim>\<open>i16\<close>; its default is 0.\<close>

definition reputation_default :: int where "reputation_default = 0"

definition i16_saturating_add :: "int \<Rightarrow> int \<Rightarrow> int" where
  "i16_saturating_add a b = max (- 32768) (min 32767 (a + b))"

definition tier_of_score :: "int \<Rightarrow> reputation_tier" where
  "tier_of_score score =
     (if 40 \<le> score \<and> score \<le> 100 then Trusted
      else if - 19 \<le> score \<and> score \<le> 39 then Neutral
      else if - 59 \<le> score \<and> score \<le> - 20 then Degraded
      else Hostile)"

definition reputation_observe :: "reputation_signal \<Rightarrow> int \<Rightarrow> int" where
  "reputation_observe s score = max (- 100) (min 100 (i16_saturating_add score (signal_delta s)))"

section \<open>Lemmas\<close>

lemma fold_max: "fold max xs (x::'a::linorder) = Max (set (x # xs))"
  by (rule Max.set_eq_fold [symmetric])

lemma max_of_Max: "xs \<noteq> [] \<Longrightarrow> max_of xs = Some (Max (set xs))"
  by (cases xs) (simp_all add: fold_max)

lemma max_of_None [simp]: "max_of xs = None \<longleftrightarrow> xs = []"
  by (cases xs) simp_all

text \<open>The verdict of a set of rules, without the order of evaluation.\<close>

definition verdict :: "federation_rule set \<Rightarrow> disposition" where
  "verdict R = Max (insert DispAllow (fr_disposition ` R))"

definition relevant :: "policy_set \<Rightarrow> server_name \<Rightarrow> utext \<Rightarrow> utext \<Rightarrow> utc_millis \<Rightarrow> federation_rule set" where
  "relevant rules peer room user now =
     {r \<in> set rules. rule_is_active_at r now \<and> scope_matches (fr_scope r) peer room user}"

lemma set_matching_rules: "set (matching_rules rules peer room user now) = relevant rules peer room user now"
  by (auto simp: matching_rules_def relevant_def)

lemma relevant_finite [simp]: "finite (relevant rules peer room user now)"
  by (simp add: relevant_def)

lemma evaluate_verdict:
  "gd_disposition (policy_evaluate rules peer room user now) = verdict (relevant rules peer room user now)"
proof (cases "matching_rules rules peer room user now = []")
  case True
  then show ?thesis
    using set_matching_rules [of rules peer room user now] by (simp add: policy_evaluate_def verdict_def)
next
  case False
  let ?R = "relevant rules peer room user now"
  have ne: "?R \<noteq> {}" using False set_matching_rules [of rules peer room user now] by force
  have "gd_disposition (policy_evaluate rules peer room user now) = Max (fr_disposition ` ?R)"
    using False by (simp add: policy_evaluate_def max_of_Max set_matching_rules)
  also have "\<dots> = verdict ?R"
    using ne by (simp add: verdict_def Max_insert max_absorb2)
  finally show ?thesis .
qed

lemma verdict_upper: "finite R \<Longrightarrow> r \<in> R \<Longrightarrow> fr_disposition r \<le> verdict R"
  by (simp add: verdict_def)

lemma verdict_attained: "finite R \<Longrightarrow> verdict R = DispAllow \<or> (\<exists>r\<in>R. verdict R = fr_disposition r)"
  using Max_in [of "insert DispAllow (fr_disposition ` R)"] by (auto simp: verdict_def)

lemma verdict_mono: "finite S \<Longrightarrow> R \<subseteq> S \<Longrightarrow> verdict R \<le> verdict S"
  unfolding verdict_def by (rule Max_mono) auto

lemma matching_rules_perm:
  assumes "mset rules = mset rules'" and "distinct (map fr_id rules)"
  shows "matching_rules rules peer room user now = matching_rules rules' peer room user now"
proof -
  let ?p = "\<lambda>r. rule_is_active_at r now \<and> scope_matches (fr_scope r) peer room user"
  have "inj_on fr_id (set rules)" using assms(2) by (simp add: distinct_map)
  then have "inj_on fr_id (set (filter ?p rules))" by (rule inj_on_subset) auto
  moreover have "mset (filter ?p rules) = mset (filter ?p rules')"
    using assms(1) by (simp add: mset_filter)
  ultimately show ?thesis
    unfolding matching_rules_def by (intro sort_key_inj_key_eq) simp_all
qed

lemma register_relevant:
  "policy_register r rules = (Inr (), rules') \<Longrightarrow>
   relevant rules peer room user now \<subseteq> relevant rules' peer room user now \<and>
   mset rules' = add_mset r (mset rules) \<and>
   (distinct (map fr_id rules) \<longrightarrow> distinct (map fr_id rules'))"
  by (force simp: policy_register_def relevant_def list_ex_iff split: if_splits)

lemma revoked_inactive:
  "fst (rule_revoke actor t reason r) = Inr b \<Longrightarrow>
   \<not> rule_is_active_at (snd (rule_revoke actor t reason r)) now"
  by (cases "validate_rule_reason reason")
    (auto simp: rule_revoke_def rule_is_active_at_def split: if_splits)

lemma revoke_keeps_id [simp]: "fr_id (snd (rule_revoke actor t reason r)) = fr_id r"
  by (cases "validate_rule_reason reason") (auto simp: rule_revoke_def)

lemma rule_mut_Cons:
  "fst (policy_rule_mut i f (r # rules)) =
     (if fr_id r = i then Some (fst (f r)) else fst (policy_rule_mut i f rules))"
  "snd (policy_rule_mut i f (r # rules)) =
     (if fr_id r = i then snd (f r) # rules else r # snd (policy_rule_mut i f rules))"
  by (simp_all split: prod.splits)

declare policy_rule_mut.simps(2) [simp del]

lemma relevant_Cons:
  "relevant (r # rules) peer room user now =
     (if rule_is_active_at r now \<and> scope_matches (fr_scope r) peer room user
      then insert r (relevant rules peer room user now) else relevant rules peer room user now)"
  by (auto simp: relevant_def)

lemma relevant_other: "i \<notin> fr_id ` set rules \<Longrightarrow>
    {r \<in> relevant rules peer room user now. fr_id r \<noteq> i} = relevant rules peer room user now"
  by (auto simp: relevant_def)

lemma rule_mut_revoke:
  assumes "distinct (map fr_id rules)"
    and "fst (policy_rule_mut i (rule_revoke actor t reason) rules) = Some (Inr b)"
  shows "relevant (snd (policy_rule_mut i (rule_revoke actor t reason) rules)) peer room user now =
    {r \<in> relevant rules peer room user now. fr_id r \<noteq> i}"
  using assms
proof (induction rules)
  case (Cons r rules)
  show ?case
  proof (cases "fr_id r = i")
    case True
    then have "fst (rule_revoke actor t reason r) = Inr b" and others: "i \<notin> fr_id ` set rules"
      using Cons.prems by (auto simp: rule_mut_Cons)
    then have "\<not> rule_is_active_at (snd (rule_revoke actor t reason r)) now"
      by (simp add: revoked_inactive)
    with True show ?thesis
      using relevant_other [OF others, of peer room user now]
      by (auto simp: rule_mut_Cons relevant_Cons)
  next
    case False
    with Cons have "relevant (snd (policy_rule_mut i (rule_revoke actor t reason) rules)) peer room user now =
        {r \<in> relevant rules peer room user now. fr_id r \<noteq> i}"
      by (simp add: rule_mut_Cons)
    with False show ?thesis by (auto simp: rule_mut_Cons relevant_Cons)
  qed
qed (simp add: relevant_def)

lemma negotiate_cases:
  "remote \<noteq> [] \<Longrightarrow> negotiate p remote =
     (if cp_current p \<in> set remote then Inr (ReadWrite (cp_current p))
      else if cp_previous p \<in> set remote then Inr (ReadWrite (cp_previous p))
      else Inr (ReadOnlyUpgradeRequired (Max (set remote))))"
  by (simp add: negotiate_def max_of_Max split: option.split)

lemma observe_bounded: "- 100 \<le> reputation_observe s c \<and> reputation_observe s c \<le> 100"
  by (simp add: reputation_observe_def)

section \<open>Properties\<close>

text \<open>
  The verdict of a policy set is that of the strictest rule in force: it is at least as strict
  as every active rule that matches the peer, the room or the user, it is the verdict of such a
  rule unless nothing matches strictly, registering a further rule never weakens it, and neither
  the verdict nor the cited rule identifiers depend on the order of registration.
\<close>

theorem strictest_rule_wins:
  assumes "distinct (map fr_id rules)"
  shows "(\<forall>r\<in>set rules. rule_is_active_at r now \<and> scope_matches (fr_scope r) peer room user \<longrightarrow>
       fr_disposition r \<le> gd_disposition (policy_evaluate rules peer room user now)) \<and>
    (gd_disposition (policy_evaluate rules peer room user now) = DispAllow \<or>
      (\<exists>r\<in>set rules. rule_is_active_at r now \<and> scope_matches (fr_scope r) peer room user \<and>
         gd_disposition (policy_evaluate rules peer room user now) = fr_disposition r)) \<and>
    (\<forall>r rules'. policy_register r rules = (Inr (), rules') \<longrightarrow>
       gd_disposition (policy_evaluate rules peer room user now)
         \<le> gd_disposition (policy_evaluate rules' peer room user now)) \<and>
    (\<forall>rules'. mset rules = mset rules' \<longrightarrow>
       policy_evaluate rules peer room user now = policy_evaluate rules' peer room user now)"
proof (intro conjI ballI allI impI)
  fix r assume "r \<in> set rules"
    and "rule_is_active_at r now \<and> scope_matches (fr_scope r) peer room user"
  then have "r \<in> relevant rules peer room user now" by (simp add: relevant_def)
  then show "fr_disposition r \<le> gd_disposition (policy_evaluate rules peer room user now)"
    unfolding evaluate_verdict by (intro verdict_upper) simp_all
next
  show "gd_disposition (policy_evaluate rules peer room user now) = DispAllow \<or>
      (\<exists>r\<in>set rules. rule_is_active_at r now \<and> scope_matches (fr_scope r) peer room user \<and>
         gd_disposition (policy_evaluate rules peer room user now) = fr_disposition r)"
    using verdict_attained [OF relevant_finite, of rules peer room user now]
    by (auto simp: evaluate_verdict relevant_def)
next
  fix r rules' assume "policy_register r rules = (Inr (), rules')"
  then show "gd_disposition (policy_evaluate rules peer room user now)
      \<le> gd_disposition (policy_evaluate rules' peer room user now)"
    unfolding evaluate_verdict by (intro verdict_mono) (simp_all add: register_relevant)
next
  fix rules' assume "mset rules = mset rules'"
  then show "policy_evaluate rules peer room user now = policy_evaluate rules' peer room user now"
    using assms by (simp add: policy_evaluate_def matching_rules_perm [of rules rules'])
qed

definition sample_server_rule :: federation_rule where
  "sample_server_rule =
     \<lparr>fr_id = 1, fr_scope = ServerScope (lit ''peer''), fr_disposition = DispThrottle, fr_created_by = 9,
      fr_created_at = UtcMillis 100, fr_reason = lit ''load'', fr_expires_at = None, fr_revocation = None\<rparr>"

definition sample_user_rule :: federation_rule where
  "sample_user_rule =
     \<lparr>fr_id = 2, fr_scope = UserScope (lit ''peer'') (lit ''@u:peer''), fr_disposition = DispBlock, fr_created_by = 9,
      fr_created_at = UtcMillis 100, fr_reason = lit ''abuse'', fr_expires_at = Some (UtcMillis 900), fr_revocation = None\<rparr>"

lemmas sample_rule_defs = sample_server_rule_def sample_user_rule_def

theorem strictest_rule_wins_witness:
  "DispBlock \<le> gd_disposition
     (policy_evaluate [sample_server_rule, sample_user_rule] (lit ''peer'') (lit ''!r:peer'') (lit ''@u:peer'') (UtcMillis 200))"
proof -
  have d: "distinct (map fr_id [sample_server_rule, sample_user_rule])" by (simp add: sample_rule_defs)
  have "rule_is_active_at sample_user_rule (UtcMillis 200) \<and>
      scope_matches (fr_scope sample_user_rule) (lit ''peer'') (lit ''!r:peer'') (lit ''@u:peer'')"
    by (simp add: sample_rule_defs rule_is_active_at_def)
  then show ?thesis
    using strictest_rule_wins [OF d, THEN conjunct1, rule_format, of sample_user_rule]
    by (simp add: sample_rule_defs)
qed

text \<open>
  A revocation that the policy set acknowledges takes its rule out of force for good and
  touches no other rule: afterwards the rules in force for a peer, room and user are, at every
  instant, those that were in force before without the revoked one.
\<close>

theorem rule_revocation_effective:
  assumes "distinct (map fr_id rules)"
    and "policy_rule_mut i (rule_revoke actor t reason) rules = (Some (Inr b), rules')"
  shows "set (matching_rules rules' peer room user now) =
      {r \<in> set (matching_rules rules peer room user now). fr_id r \<noteq> i} \<and>
    gd_disposition (policy_evaluate rules' peer room user now)
      \<le> gd_disposition (policy_evaluate rules peer room user now)"
proof -
  have "relevant rules' peer room user now = {r \<in> relevant rules peer room user now. fr_id r \<noteq> i}"
    using rule_mut_revoke [of rules i actor t reason b peer room user now] assms by simp
  then show ?thesis
    by (auto simp: set_matching_rules evaluate_verdict intro: verdict_mono)
qed

theorem rule_revocation_effective_witness:
  "\<exists>rules'. policy_rule_mut 2 (rule_revoke 9 (UtcMillis 150) (lit ''reviewed''))
       [sample_server_rule, sample_user_rule] = (Some (Inr True), rules') \<and>
     set (matching_rules rules' (lit ''peer'') (lit ''!r:peer'') (lit ''@u:peer'') (UtcMillis 200)) =
     {r \<in> set (matching_rules [sample_server_rule, sample_user_rule] (lit ''peer'') (lit ''!r:peer'') (lit ''@u:peer'')
        (UtcMillis 200)). fr_id r \<noteq> 2}"
proof -
  have d: "distinct (map fr_id [sample_server_rule, sample_user_rule])" by (simp add: sample_rule_defs)
  have "\<exists>rules'. policy_rule_mut 2 (rule_revoke 9 (UtcMillis 150) (lit ''reviewed''))
      [sample_server_rule, sample_user_rule] = (Some (Inr True), rules')"
    by (simp add: policy_rule_mut.simps rule_revoke_def validate_rule_reason_def validate_reference_def lit_def is_control_def
        max_rule_reason_length_def utf8_width_def sample_rule_defs Let_def)
  then show ?thesis using rule_revocation_effective [OF d] by blast
qed

text \<open>
  Two servers of adjacent or equal protocol generations that announce their supported versions
  to each other reach the same conclusion: either both negotiate the same version, which is the
  highest both support, or they have no version in common and both stay read-only.
\<close>

theorem negotiation_agrees:
  assumes "compatibility_new a b = Inr p" and "compatibility_new c d = Inr q"
    and "protocol_major_new a = Inr a" "protocol_major_new b = Inr b"
    and "protocol_major_new c = Inr c" "protocol_major_new d = Inr d"
  shows "(\<exists>v. negotiate p [c, d] = Inr (ReadWrite v) \<and> negotiate q [a, b] = Inr (ReadWrite v) \<and>
       v \<in> {a, b} \<inter> {c, d} \<and> (\<forall>w\<in>{a, b} \<inter> {c, d}. w \<le> v)) \<or>
    {a, b} \<inter> {c, d} = {} \<and> negotiate p [c, d] = Inr (ReadOnlyUpgradeRequired c) \<and>
       negotiate q [a, b] = Inr (ReadOnlyUpgradeRequired a)"
proof -
  have p: "p = \<lparr>cp_current = a, cp_previous = b\<rparr>" "a = b + 1" "a \<noteq> 0" "b \<noteq> 0"
    and q: "q = \<lparr>cp_current = c, cp_previous = d\<rparr>" "c = d + 1" "c \<noteq> 0" "d \<noteq> 0"
    using assms by (auto simp: compatibility_new_def protocol_major_new_def split: if_splits)
  have le: "b \<le> a" "d \<le> c" using p q by uint_arith+
  have max: "Max {c, d} = c" "Max {a, b} = a" using le by (simp_all add: max_absorb1)
  consider "a = c" | "b = c" "a \<noteq> c" "a \<noteq> d" | "a = d" "a \<noteq> c" "b \<noteq> c"
    | "a \<notin> {c, d}" "b \<notin> {c, d}"
    using p(2) q(2) by fastforce
  then show ?thesis
  proof cases
    case 1
    then have "b = d" using p q by simp
    with 1 p q le show ?thesis by (auto simp: negotiate_cases)
  next
    case 2
    with p(1) q(1) le show ?thesis by (auto simp: negotiate_cases)
  next
    case 3
    with p(1) q(1) le show ?thesis by (auto simp: negotiate_cases)
  next
    case 4
    with p(1) q(1) max show ?thesis by (auto simp: negotiate_cases)
  qed
qed

theorem negotiation_agrees_witness:
  "\<exists>v. negotiate \<lparr>cp_current = 3, cp_previous = 2\<rparr> [2, 1] = Inr (ReadWrite v) \<and>
     negotiate compatibility_public_test [3, 2] = Inr (ReadWrite v)"
proof -
  have "compatibility_new 3 2 = Inr \<lparr>cp_current = 3, cp_previous = 2\<rparr>"
    "compatibility_new 2 1 = Inr compatibility_public_test"
    "protocol_major_new 3 = Inr 3" "protocol_major_new 2 = Inr 2" "protocol_major_new 1 = Inr 1"
    by (simp_all add: compatibility_new_def protocol_major_new_def compatibility_public_test_def)
  from negotiation_agrees [OF this(1,2,3,4,4,5)] show ?thesis by auto
qed

end
