(* ===== verification/Federation_Ingress.thy ===== *)
theory Federation_Ingress
  imports Federation
begin

text \<open>
  \<^verbatim>\<open>federation/ingress.rs\<close>: the guard every event of a remote server passes. It keeps the
  counters of the rate windows, the memory of event identifiers against replays, and the last
  accepted revision of every state slot, and decides for each event to accept it (writable or
  read-only), to quarantine it or to reject it.
\<close>

section \<open>Events\<close>

definition max_event_id_length :: nat where "max_event_id_length = 1024"
definition max_event_type_length :: nat where "max_event_type_length = 255"
definition max_state_key_length :: nat where "max_state_key_length = 1024"

record state_revision =
  sr_state_key :: utext
  sr_revision :: nat

record ingress_event =
  ie_event_id :: utext
  ie_peer :: server_name
  ie_room_id :: utext
  ie_sender :: utext
  ie_event_type :: utext
  ie_received_at :: utc_millis
  ie_state :: "state_revision option"

definition validate_ingress_text :: "string \<Rightarrow> utext \<Rightarrow> nat \<Rightarrow> unit result" where
  "validate_ingress_text field v maximum =
     (if v = [] \<or> byte_len v > maximum \<or> list_ex is_control v
      then Inl (Validation field ''empty, control characters or too long'') else Inr ())"

definition validate_matrix_id :: "string \<Rightarrow> utext \<Rightarrow> utext \<Rightarrow> nat \<Rightarrow> unit result" where
  "validate_matrix_id field v prefix maximum =
     and_then (validate_ingress_text field v maximum) (\<lambda>_.
     if \<not> starts_with prefix v \<or> \<not> List.member v (of_char CHR '':'')
     then Inl (Validation field ''not a full Matrix identifier'') else Inr ())"

definition ingress_event_new ::
  "utext \<Rightarrow> utext \<Rightarrow> utext \<Rightarrow> utext \<Rightarrow> utext \<Rightarrow> utc_millis \<Rightarrow> utext option \<Rightarrow> nat option \<Rightarrow> ingress_event result" where
  "ingress_event_new event_id peer room_id sender event_type received_at state_key revision =
     and_then (validate_matrix_id ''federation_event_id'' event_id (lit ''$'') max_event_id_length) (\<lambda>_.
     and_then (validate_matrix_id ''federation_room_id'' room_id (lit ''!'') max_event_id_length) (\<lambda>_.
     and_then (validate_matrix_id ''federation_sender_user_id'' sender (lit ''@'') max_event_id_length) (\<lambda>_.
     and_then (validate_ingress_text ''federation_event_type'' event_type max_event_type_length) (\<lambda>_.
     and_then
       (case (state_key, revision) of
          (Some k, Some r) \<Rightarrow>
            and_then (validate_ingress_text ''federation_state_key'' k max_state_key_length) (\<lambda>_.
            Inr (Some \<lparr>sr_state_key = k, sr_revision = r\<rparr>))
        | (None, None) \<Rightarrow> Inr None
        | _ \<Rightarrow> Inl (Validation ''federation_state_revision'' ''key and revision come together''))
       (\<lambda>state.
     and_then (server_name_new peer) (\<lambda>p.
     Inr \<lparr>ie_event_id = event_id, ie_peer = p, ie_room_id = room_id, ie_sender = sender,
          ie_event_type = event_type, ie_received_at = received_at, ie_state = state\<rparr>))))))"

section \<open>Outcomes and limits\<close>

datatype rate_scope = PeerRate | RoomRate | UserRate

datatype read_only_reason = LegacyNamespace | UnknownEventType

datatype quarantine_reason = GovernanceRule | HostileReputation | StateConflict

datatype ingress_rejection = GovernanceBlock | Replay | RateLimited rate_scope

datatype ingress_outcome =
    AcceptReadWrite "federation_rule_id list"
  | AcceptReadOnly read_only_reason "federation_rule_id list"
  | QuarantineEvent quarantine_reason "federation_rule_id list"
  | RejectEvent ingress_rejection "federation_rule_id list"

record ingress_limits =
  il_peer :: nat
  il_room :: nat
  il_user :: nat
  il_window :: duration_millis
  il_replay_ttl :: duration_millis

definition ingress_limits_new ::
  "nat \<Rightarrow> nat \<Rightarrow> nat \<Rightarrow> duration_millis \<Rightarrow> duration_millis \<Rightarrow> ingress_limits result" where
  "ingress_limits_new peer room user window replay_ttl =
     (if peer = 0 \<or> room = 0 \<or> user = 0 then
        Inl (Validation ''federation_ingress_limit'' ''must be positive'')
      else if user > room \<or> room > peer then
        Inl (Validation ''federation_ingress_limit'' ''budgets must be nested'')
      else Inr \<lparr>il_peer = peer, il_room = room, il_user = user, il_window = window,
                il_replay_ttl = replay_ttl\<rparr>)"

section \<open>The guard\<close>

datatype rate_key = PeerKey utext | RoomKey utext utext | UserKey utext utext

record window_counter =
  wc_started_at :: utc_millis
  wc_count :: nat

record state_slot =
  ss_room_id :: utext
  ss_event_type :: utext
  ss_state_key :: utext

record accepted_state =
  as_revision :: nat
  as_event_id :: utext

type_synonym counters = "rate_key \<rightharpoonup> window_counter"

record ingress_guard =
  ig_limits :: ingress_limits
  ig_counters :: counters
  ig_replays :: "utext \<rightharpoonup> utc_millis"
  ig_accepted :: "state_slot \<rightharpoonup> accepted_state"

definition ingress_guard_new :: "ingress_limits \<Rightarrow> ingress_guard" where
  "ingress_guard_new l =
     \<lparr>ig_limits = l, ig_counters = Map.empty, ig_replays = Map.empty, ig_accepted = Map.empty\<rparr>"

definition state_key :: "ingress_event \<Rightarrow> state_revision \<Rightarrow> state_slot" where
  "state_key e s =
     \<lparr>ss_room_id = ie_room_id e, ss_event_type = ie_event_type e, ss_state_key = sr_state_key s\<rparr>"

definition rate_divisor :: "disposition \<Rightarrow> reputation_tier \<Rightarrow> nat" where
  "rate_divisor d tier =
     max (case d of DispThrottle \<Rightarrow> 4 | DispAllow \<Rightarrow> 1 | DispQuarantine \<Rightarrow> 1 | DispBlock \<Rightarrow> 1)
         (case tier of Degraded \<Rightarrow> 2 | Trusted \<Rightarrow> 1 | Neutral \<Rightarrow> 1 | Hostile \<Rightarrow> 1)"

definition u32_max :: nat where "u32_max = 2 ^ 32 - 1"

definition consume_window ::
  "rate_key \<Rightarrow> utc_millis \<Rightarrow> duration_millis \<Rightarrow> nat \<Rightarrow> counters \<Rightarrow> (bool, counters) update" where
  "consume_window key now window limit m =
     (let elapsed = i64_saturating_sub (utc_value now)
            (case m key of None \<Rightarrow> utc_value now | Some c \<Rightarrow> utc_value (wc_started_at c))
      in attempt (ok_or (i64_try_from (duration_value window)) TimeOverflow) m (\<lambda>window_millis.
         let fresh = \<lparr>wc_started_at = now, wc_count = 0\<rparr>;
             entry = unwrap_or (m key) fresh;
             c = (if elapsed \<ge> window_millis then fresh else entry)
         in if wc_count c \<ge> limit then (Inr False, m(key \<mapsto> c))
            else (Inr True, m(key \<mapsto> c\<lparr>wc_count := min u32_max (wc_count c + 1)\<rparr>))))"

text \<open>The loop over the three checks: the first scope whose budget is used up, if any.\<close>

fun consume_checks ::
  "(rate_key \<times> nat \<times> rate_scope) list \<Rightarrow> nat \<Rightarrow> utc_millis \<Rightarrow> duration_millis \<Rightarrow> counters \<Rightarrow>
   (rate_scope option, counters) update" where
  "consume_checks [] divisor now window m = (Inr None, m)"
| "consume_checks ((key, base, scope) # checks) divisor now window m =
     (case consume_window key now window (max (base div divisor) 1) m of
        (Inl e, m') \<Rightarrow> (Inl e, m')
      | (Inr ok, m') \<Rightarrow>
          if ok then consume_checks checks divisor now window m' else (Inr (Some scope), m'))"

definition rate_checks :: "ingress_limits \<Rightarrow> ingress_event \<Rightarrow> (rate_key \<times> nat \<times> rate_scope) list" where
  "rate_checks l e =
     [(PeerKey (ie_peer e), il_peer l, PeerRate),
      (RoomKey (ie_peer e) (ie_room_id e), il_room l, RoomRate),
      (UserKey (ie_peer e) (ie_sender e), il_user l, UserRate)]"

definition forget_replays :: "utc_millis \<Rightarrow> ingress_guard \<Rightarrow> ingress_guard" where
  "forget_replays now g =
     g\<lparr>ig_replays := (\<lambda>k. if opt_any (ig_replays g k) (\<lambda>e. e > now) then ig_replays g k else None)\<rparr>"

definition remember_replay :: "ingress_event \<Rightarrow> ingress_guard \<Rightarrow> (unit, ingress_guard) update" where
  "remember_replay e g =
     attempt (utc_checked_add (ie_received_at e) (il_replay_ttl (ig_limits g))) g (\<lambda>expiration.
       (Inr (), g\<lparr>ig_replays := (ig_replays g)(ie_event_id e \<mapsto> expiration)\<rparr>))"

definition has_state_conflict :: "ingress_event \<Rightarrow> ingress_guard \<Rightarrow> bool" where
  "has_state_conflict e g =
     (case ie_state e of
        None \<Rightarrow> False
      | Some s \<Rightarrow> opt_any (ig_accepted g (state_key e s)) (\<lambda>a. sr_revision s \<le> as_revision a))"

definition remember_state :: "ingress_event \<Rightarrow> ingress_guard \<Rightarrow> ingress_guard" where
  "remember_state e g =
     (case ie_state e of
        None \<Rightarrow> g
      | Some s \<Rightarrow> g\<lparr>ig_accepted := (ig_accepted g)(state_key e s \<mapsto>
                     \<lparr>as_revision = sr_revision s, as_event_id = ie_event_id e\<rparr>)\<rparr>)"

definition accept_outcome :: "ingress_event \<Rightarrow> federation_rule_id list \<Rightarrow> ingress_outcome" where
  "accept_outcome e ids =
     (case classify_event (ie_event_type e) of
        CurrentWritable \<Rightarrow> AcceptReadWrite ids
      | LegacyReadOnly \<Rightarrow> AcceptReadOnly LegacyNamespace ids
      | UnknownReadOnly \<Rightarrow> AcceptReadOnly UnknownEventType ids)"

text \<open>\<open>remembering\<close> is \<^verbatim>\<open>self.remember_replay(event)?\<close> before an answer.\<close>

definition remembering ::
  "ingress_event \<Rightarrow> ingress_guard \<Rightarrow> (ingress_guard \<Rightarrow> (ingress_outcome, ingress_guard) update) \<Rightarrow>
   (ingress_outcome, ingress_guard) update" where
  "remembering e g k = (case remember_replay e g of (Inl err, g') \<Rightarrow> (Inl err, g') | (Inr _, g') \<Rightarrow> k g')"

definition ingress_inspect ::
  "policy_set \<Rightarrow> int \<Rightarrow> ingress_event \<Rightarrow> ingress_guard \<Rightarrow> (ingress_outcome, ingress_guard) update" where
  "ingress_inspect policies reputation e g0 =
     (let g = forget_replays (ie_received_at e) g0;
          governance = policy_evaluate policies (ie_peer e) (ie_room_id e) (ie_sender e) (ie_received_at e);
          ids = gd_matching_rule_ids governance;
          tier = tier_of_score reputation
      in if gd_disposition governance = DispBlock then (Inr (RejectEvent GovernanceBlock ids), g)
      else if gd_disposition governance = DispQuarantine then
        remembering e g (\<lambda>g. (Inr (QuarantineEvent GovernanceRule ids), g))
      else if tier = Hostile then
        remembering e g (\<lambda>g. (Inr (QuarantineEvent HostileReputation ids), g))
      else if ig_replays g (ie_event_id e) \<noteq> None then (Inr (RejectEvent Replay ids), g)
      else
        (case consume_checks (rate_checks (ig_limits g) e) (rate_divisor (gd_disposition governance) tier)
           (ie_received_at e) (il_window (ig_limits g)) (ig_counters g) of
           (Inl err, m) \<Rightarrow> (Inl err, g\<lparr>ig_counters := m\<rparr>)
         | (Inr (Some scope), m) \<Rightarrow> (Inr (RejectEvent (RateLimited scope) ids), g\<lparr>ig_counters := m\<rparr>)
         | (Inr None, m) \<Rightarrow>
             (let g = g\<lparr>ig_counters := m\<rparr>
              in if has_state_conflict e g then
                   remembering e g (\<lambda>g. (Inr (QuarantineEvent StateConflict ids), g))
                 else remembering e g (\<lambda>g. (Inr (accept_outcome e ids), remember_state e g)))))"

section \<open>One inspection\<close>

fun is_accept :: "ingress_outcome \<Rightarrow> bool" where
  "is_accept (AcceptReadWrite ids) = True"
| "is_accept (AcceptReadOnly reason ids) = True"
| "is_accept (QuarantineEvent reason ids) = False"
| "is_accept (RejectEvent reason ids) = False"

definition accepted :: "ingress_outcome result \<Rightarrow> bool" where
  "accepted r = (case r of Inl e \<Rightarrow> False | Inr x \<Rightarrow> is_accept x)"

text \<open>An accepted or quarantined event is kept; its identifier is remembered.\<close>

definition taken_in :: "ingress_outcome result \<Rightarrow> bool" where
  "taken_in r = (case r of Inr (QuarantineEvent reason ids) \<Rightarrow> True | _ \<Rightarrow> accepted r)"

lemma accepted_simps [simp]:
  "\<not> accepted (Inl err)" "accepted (Inr x) = is_accept x"
  by (simp_all add: accepted_def)

lemma is_accept_outcome [simp]: "is_accept (accept_outcome e ids)"
  by (simp add: accept_outcome_def split: event_compatibility.split)

lemma taken_in_simps [simp]:
  "\<not> taken_in (Inl err)" "taken_in (Inr (QuarantineEvent reason ids))" "\<not> taken_in (Inr (RejectEvent rej ids))"
  "taken_in (Inr (accept_outcome e ids))"
  by (simp_all add: taken_in_def accept_outcome_def split: event_compatibility.split)

lemma accepted_taken_in: "accepted r \<Longrightarrow> taken_in r"
  by (auto simp: taken_in_def split: sum.splits ingress_outcome.splits)

lemma forget_fields [simp]:
  "ig_limits (forget_replays t g) = ig_limits g" "ig_counters (forget_replays t g) = ig_counters g"
  "ig_accepted (forget_replays t g) = ig_accepted g"
  by (simp_all add: forget_replays_def)

lemma forget_keeps: "ig_replays (forget_replays t g) k = Some x \<longleftrightarrow> ig_replays g k = Some x \<and> t < x"
  by (auto simp: forget_replays_def opt_any_iff)

lemma forget_same_counters [simp]: "(forget_replays t g)\<lparr>ig_counters := ig_counters g\<rparr> = forget_replays t g"
  by (simp add: forget_replays_def)

lemma remember_state_fields [simp]:
  "ig_limits (remember_state e g) = ig_limits g" "ig_counters (remember_state e g) = ig_counters g"
  "ig_replays (remember_state e g) = ig_replays g"
  by (simp_all add: remember_state_def split: option.split)

lemma remembering_cases:
  obtains (fails) "remembering e g k = (Inl TimeOverflow, g)"
    "\<And>x. utc_checked_add (ie_received_at e) (il_replay_ttl (ig_limits g)) \<noteq> Inr x"
  | (stores) x where "utc_checked_add (ie_received_at e) (il_replay_ttl (ig_limits g)) = Inr x"
    "remembering e g k = k (g\<lparr>ig_replays := (ig_replays g)(ie_event_id e \<mapsto> x)\<rparr>)"
proof (cases "utc_checked_add (ie_received_at e) (il_replay_ttl (ig_limits g))")
  case (Inl err)
  then have "err = TimeOverflow" by (rule utc_checked_add_Inl)
  with Inl show ?thesis by (intro fails) (simp_all add: remembering_def remember_replay_def)
next
  case (Inr x)
  then show ?thesis by (intro stores) (simp_all add: remembering_def remember_replay_def)
qed

text \<open>
  The cases of an inspection: rejected without a trace beside forgotten replays and used
  counters, failed, quarantined and remembered, or accepted and remembered.
\<close>

definition disposition_for :: "policy_set \<Rightarrow> ingress_event \<Rightarrow> disposition" where
  "disposition_for policies e =
     gd_disposition (policy_evaluate policies (ie_peer e) (ie_room_id e) (ie_sender e) (ie_received_at e))"

definition rule_ids_for :: "policy_set \<Rightarrow> ingress_event \<Rightarrow> federation_rule_id list" where
  "rule_ids_for policies e =
     gd_matching_rule_ids (policy_evaluate policies (ie_peer e) (ie_room_id e) (ie_sender e) (ie_received_at e))"

definition checks_for :: "policy_set \<Rightarrow> int \<Rightarrow> ingress_event \<Rightarrow> ingress_guard \<Rightarrow> (rate_scope option, counters) update" where
  "checks_for policies reputation e g =
     consume_checks (rate_checks (ig_limits g) e)
       (rate_divisor (disposition_for policies e) (tier_of_score reputation))
       (ie_received_at e) (il_window (ig_limits g)) (ig_counters g)"

definition remember_id :: "ingress_event \<Rightarrow> ingress_guard \<Rightarrow> utext \<rightharpoonup> utc_millis" where
  "remember_id e g =
     (ig_replays (forget_replays (ie_received_at e) g))(ie_event_id e \<mapsto>
        UtcMillis (utc_value (ie_received_at e) + duration_value (il_replay_ttl (ig_limits g))))"

inductive inspection ::
  "policy_set \<Rightarrow> int \<Rightarrow> ingress_event \<Rightarrow> ingress_guard \<Rightarrow> ingress_outcome result \<Rightarrow> ingress_guard \<Rightarrow> bool"
  for policies reputation e g where
  refused: "\<not> taken_in r \<Longrightarrow> m = ig_counters g \<or> m = snd (checks_for policies reputation e g) \<Longrightarrow>
    inspection policies reputation e g r ((forget_replays (ie_received_at e) g)\<lparr>ig_counters := m\<rparr>)"
| quarantined: "m = ig_counters g \<or> m = snd (checks_for policies reputation e g) \<Longrightarrow>
    inspection policies reputation e g (Inr (QuarantineEvent reason ids))
      (g\<lparr>ig_counters := m, ig_replays := remember_id e g\<rparr>)"
| admitted: "disposition_for policies e \<noteq> DispBlock \<Longrightarrow> disposition_for policies e \<noteq> DispQuarantine \<Longrightarrow>
    tier_of_score reputation \<noteq> Hostile \<Longrightarrow>
    ig_replays (forget_replays (ie_received_at e) g) (ie_event_id e) = None \<Longrightarrow>
    checks_for policies reputation e g = (Inr None, m) \<Longrightarrow> \<not> has_state_conflict e g \<Longrightarrow>
    inspection policies reputation e g (Inr (accept_outcome e (rule_ids_for policies e)))
      (remember_state e (g\<lparr>ig_counters := m, ig_replays := remember_id e g\<rparr>))"

lemma remembered_update:
  assumes "utc_checked_add (ie_received_at e) (il_replay_ttl (ig_limits g)) = Inr x"
  shows "(forget_replays (ie_received_at e) g)\<lparr>ig_counters := m,
      ig_replays := (ig_replays (forget_replays (ie_received_at e) g))(ie_event_id e \<mapsto> x)\<rparr> =
    g\<lparr>ig_counters := m, ig_replays := remember_id e g\<rparr>"
  using utc_checked_add_value [OF assms] by (cases x) (simp add: remember_id_def forget_replays_def)

lemma conflict_fields: "has_state_conflict e (g\<lparr>ig_counters := m, ig_replays := r\<rparr>) = has_state_conflict e g"
  "has_state_conflict e (g\<lparr>ig_counters := m\<rparr>) = has_state_conflict e g"
  "has_state_conflict e (forget_replays t g) = has_state_conflict e g"
  by (simp_all add: has_state_conflict_def split: option.split)

lemma remembering_quarantine:
  assumes "m = ig_counters g \<or> m = snd (checks_for policies reputation e g)"
  shows "inspection policies reputation e g
     (fst (remembering e ((forget_replays (ie_received_at e) g)\<lparr>ig_counters := m\<rparr>)
        (\<lambda>g. (Inr (QuarantineEvent reason ids), g))))
     (snd (remembering e ((forget_replays (ie_received_at e) g)\<lparr>ig_counters := m\<rparr>)
        (\<lambda>g. (Inr (QuarantineEvent reason ids), g))))"
    (is "inspection _ _ _ _ (fst (remembering e ?g ?k)) _")
proof (cases rule: remembering_cases [of e ?g ?k])
  case fails
  then show ?thesis using assms by (auto intro!: inspection.refused)
next
  case (stores x)
  then have x: "utc_checked_add (ie_received_at e) (il_replay_ttl (ig_limits g)) = Inr x" by simp
  have "remembering e ?g ?k = (Inr (QuarantineEvent reason ids), g\<lparr>ig_counters := m, ig_replays := remember_id e g\<rparr>)"
    using stores(2) remembered_update [OF x, of m] by simp
  then show ?thesis using assms by (auto intro!: inspection.quarantined)
qed

lemma inspect_inspection:
  "inspection policies reputation e g (fst (ingress_inspect policies reputation e g))
     (snd (ingress_inspect policies reputation e g))"
proof -
  let ?f = "forget_replays (ie_received_at e) g"
  consider (block) "disposition_for policies e = DispBlock"
    | (quarantine) "disposition_for policies e = DispQuarantine"
    | (hostile) "disposition_for policies e \<noteq> DispBlock" "disposition_for policies e \<noteq> DispQuarantine"
        "tier_of_score reputation = Hostile"
    | (replay) "disposition_for policies e \<noteq> DispBlock" "disposition_for policies e \<noteq> DispQuarantine"
        "tier_of_score reputation \<noteq> Hostile" "ig_replays ?f (ie_event_id e) \<noteq> None"
    | (checks) "disposition_for policies e \<noteq> DispBlock" "disposition_for policies e \<noteq> DispQuarantine"
        "tier_of_score reputation \<noteq> Hostile" "ig_replays ?f (ie_event_id e) = None"
    by blast
  then show ?thesis
  proof cases
    case block
    then have "ingress_inspect policies reputation e g =
        (Inr (RejectEvent GovernanceBlock (rule_ids_for policies e)), ?f)"
      by (simp add: ingress_inspect_def disposition_for_def rule_ids_for_def Let_def)
    then show ?thesis using inspection.refused [of "Inr (RejectEvent GovernanceBlock (rule_ids_for policies e))" "ig_counters g" g policies reputation e] by simp
  next
    case quarantine
    then have "ingress_inspect policies reputation e g =
        remembering e ?f (\<lambda>g. (Inr (QuarantineEvent GovernanceRule (rule_ids_for policies e)), g))"
      by (simp add: ingress_inspect_def disposition_for_def rule_ids_for_def Let_def)
    then show ?thesis using remembering_quarantine [of "ig_counters g" g policies reputation e] by simp
  next
    case hostile
    then have "ingress_inspect policies reputation e g =
        remembering e ?f (\<lambda>g. (Inr (QuarantineEvent HostileReputation (rule_ids_for policies e)), g))"
      by (simp add: ingress_inspect_def disposition_for_def rule_ids_for_def Let_def)
    then show ?thesis using remembering_quarantine [of "ig_counters g" g policies reputation e] by simp
  next
    case replay
    then have "ingress_inspect policies reputation e g =
        (Inr (RejectEvent Replay (rule_ids_for policies e)), ?f)"
      by (simp add: ingress_inspect_def disposition_for_def rule_ids_for_def Let_def)
    then show ?thesis using inspection.refused [of "Inr (RejectEvent Replay (rule_ids_for policies e))" "ig_counters g" g policies reputation e] by simp
  next
    case checks
    obtain c m where cm: "checks_for policies reputation e g = (c, m)" by fastforce
    then have m: "m = ig_counters g \<or> m = snd (checks_for policies reputation e g)" by simp
    have unfold: "ingress_inspect policies reputation e g =
        (case c of Inl err \<Rightarrow> (Inl err, ?f\<lparr>ig_counters := m\<rparr>)
         | Inr (Some scope) \<Rightarrow> (Inr (RejectEvent (RateLimited scope) (rule_ids_for policies e)), ?f\<lparr>ig_counters := m\<rparr>)
         | Inr None \<Rightarrow>
             if has_state_conflict e g
             then remembering e (?f\<lparr>ig_counters := m\<rparr>) (\<lambda>g. (Inr (QuarantineEvent StateConflict (rule_ids_for policies e)), g))
             else remembering e (?f\<lparr>ig_counters := m\<rparr>)
               (\<lambda>g. (Inr (accept_outcome e (rule_ids_for policies e)), remember_state e g)))"
      using checks cm
      by (simp add: ingress_inspect_def disposition_for_def rule_ids_for_def checks_for_def Let_def conflict_fields
          split: sum.split option.split)
    consider (error) err where "c = Inl err" | (limited) scope where "c = Inr (Some scope)"
      | (conflict) "c = Inr None" "has_state_conflict e g" | (fine) "c = Inr None" "\<not> has_state_conflict e g"
      by (metis obj_sumE option.exhaust)
    then show ?thesis
    proof cases
      case error
      then show ?thesis using unfold m by (simp add: inspection.refused)
    next
      case limited
      then show ?thesis using unfold m by (simp add: inspection.refused)
    next
      case conflict
      then show ?thesis using unfold remembering_quarantine [OF m] by simp
    next
      case fine
      let ?g = "?f\<lparr>ig_counters := m\<rparr>"
      let ?k = "\<lambda>g. (Inr (accept_outcome e (rule_ids_for policies e)), remember_state e g)"
      have u: "ingress_inspect policies reputation e g = remembering e ?g ?k"
        using fine unfold by simp
      show ?thesis
      proof (cases rule: remembering_cases [of e ?g ?k])
        case fails
        then show ?thesis using u m by (simp add: inspection.refused)
      next
        case (stores x)
        then have x: "utc_checked_add (ie_received_at e) (il_replay_ttl (ig_limits g)) = Inr x" by simp
        have "ingress_inspect policies reputation e g = (Inr (accept_outcome e (rule_ids_for policies e)),
            remember_state e (g\<lparr>ig_counters := m, ig_replays := remember_id e g\<rparr>))"
          using u stores(2) remembered_update [OF x, of m] by simp
        then show ?thesis
          using checks fine cm by (simp add: inspection.admitted)
      qed
    qed
  qed
qed

lemma inspection_limits: "inspection policies reputation e g r g' \<Longrightarrow> ig_limits g' = ig_limits g"
  by (induction rule: inspection.induct) simp_all

section \<open>Histories of inspections\<close>

record ingress_command =
  ic_policies :: policy_set
  ic_reputation :: int
  ic_event :: ingress_event

definition ingress_step :: "ingress_command \<Rightarrow> ingress_guard \<Rightarrow> (ingress_outcome, ingress_guard) update" where
  "ingress_step c g = ingress_inspect (ic_policies c) (ic_reputation c) (ic_event c) g"

lemma step_inspection:
  "inspection (ic_policies c) (ic_reputation c) (ic_event c) g (fst (ingress_step c g)) (snd (ingress_step c g))"
  by (simp add: ingress_step_def inspect_inspection)

lemma step_limits [simp]: "ig_limits (snd (ingress_step c g)) = ig_limits g"
  by (rule inspection_limits [OF step_inspection])

lemma replay_limits [simp]: "ig_limits (replay ingress_step cs g) = ig_limits g"
  by (induction cs arbitrary: g) simp_all

subsection \<open>The memory of identifiers\<close>

definition remembered_until :: "utext \<Rightarrow> int \<Rightarrow> ingress_guard \<Rightarrow> bool" where
  "remembered_until i b g \<longleftrightarrow> (\<exists>x. ig_replays g i = Some x \<and> b \<le> utc_value x)"

lemma taken_in_remembers:
  "inspection p rep e g r g' \<Longrightarrow> taken_in r \<Longrightarrow>
   remembered_until (ie_event_id e) (utc_value (ie_received_at e) + duration_value (il_replay_ttl (ig_limits g))) g'"
  by (induction rule: inspection.induct) (simp_all add: remembered_until_def remember_id_def)

lemma remembered_persists:
  assumes "inspection p rep e g r g'" and "remembered_until i b g"
    and "utc_value (ie_received_at e) < b"
    and "b \<le> utc_value (ie_received_at e) + duration_value (il_replay_ttl (ig_limits g))"
  shows "remembered_until i b g'"
proof -
  obtain x where x: "ig_replays g i = Some x" "b \<le> utc_value x"
    using assms(2) by (auto simp: remembered_until_def)
  then have "ig_replays (forget_replays (ie_received_at e) g) i = Some x"
    using assms(3) by (simp add: forget_keeps clock_order)
  then have "remembered_until i b (g\<lparr>ig_replays := remember_id e g\<rparr>)"
    "remembered_until i b (forget_replays (ie_received_at e) g)"
    using x assms(4) by (auto simp: remembered_until_def remember_id_def)
  with assms(1) show ?thesis
    by (induction rule: inspection.induct) (auto simp: remembered_until_def)
qed

lemma remembered_not_accepted:
  assumes "inspection p rep e g r g'" and "remembered_until (ie_event_id e) b g"
    and "utc_value (ie_received_at e) < b"
  shows "\<not> accepted r"
  using assms(1)
proof (cases rule: inspection.cases)
  case (admitted m)
  obtain x where "ig_replays g (ie_event_id e) = Some x" "b \<le> utc_value x"
    using assms(2) by (auto simp: remembered_until_def)
  then have "ig_replays (forget_replays (ie_received_at e) g) (ie_event_id e) = Some x"
    using assms(3) by (simp add: forget_keeps clock_order)
  with admitted show ?thesis by simp
qed (auto dest: accepted_taken_in)

subsection \<open>The memory of state revisions\<close>

definition slot_at_least :: "state_slot \<Rightarrow> nat \<Rightarrow> ingress_guard \<Rightarrow> bool" where
  "slot_at_least s n g \<longleftrightarrow> (\<exists>a. ig_accepted g s = Some a \<and> n \<le> as_revision a)"

lemma inspection_slots:
  assumes "inspection p rep e g r g'"
  shows "slot_at_least s n g \<Longrightarrow> slot_at_least s n g'"
    and "accepted r \<Longrightarrow> ie_state e = Some st \<Longrightarrow> slot_at_least (state_key e st) (sr_revision st) g'"
    and "accepted r \<Longrightarrow> ie_state e = Some st \<Longrightarrow> slot_at_least (state_key e st) n g \<Longrightarrow> n < sr_revision st"
proof -
  show "slot_at_least s n g \<Longrightarrow> slot_at_least s n g'"
    using assms
    by (induction rule: inspection.induct)
      (auto simp: slot_at_least_def remember_state_def has_state_conflict_def opt_any_iff split: option.splits)
  show "accepted r \<Longrightarrow> ie_state e = Some st \<Longrightarrow> slot_at_least (state_key e st) (sr_revision st) g'"
    using assms
    by (induction rule: inspection.induct)
      (auto simp: slot_at_least_def remember_state_def state_key_def dest: accepted_taken_in)
  show "accepted r \<Longrightarrow> ie_state e = Some st \<Longrightarrow> slot_at_least (state_key e st) n g \<Longrightarrow> n < sr_revision st"
    using assms
    by (induction rule: inspection.induct)
      (auto simp: slot_at_least_def has_state_conflict_def opt_any_iff dest: accepted_taken_in)
qed

subsection \<open>The rate windows\<close>

text \<open>
  \<open>headroom base a m k\<close> bounds how many events the window of key \<open>k\<close> still admits before a
  whole window length after \<open>a\<close> has passed: the rest of the current window when it began at
  \<open>a\<close> or later, and one more window otherwise.
\<close>

fun base_limit :: "ingress_limits \<Rightarrow> rate_key \<Rightarrow> nat" where
  "base_limit l (PeerKey p) = il_peer l"
| "base_limit l (RoomKey p r) = il_room l"
| "base_limit l (UserKey p u) = il_user l"

definition limits_ok :: "ingress_limits \<Rightarrow> bool" where
  "limits_ok l \<longleftrightarrow> (\<forall>k. 1 \<le> base_limit l k \<and> base_limit l k \<le> u32_max)"

definition counters_ok :: "ingress_limits \<Rightarrow> counters \<Rightarrow> bool" where
  "counters_ok l m \<longleftrightarrow>
     (\<forall>k c. m k = Some c \<longrightarrow> wc_count c \<le> base_limit l k \<and> utc_ok (wc_started_at c))"

definition headroom :: "ingress_limits \<Rightarrow> int \<Rightarrow> counters \<Rightarrow> rate_key \<Rightarrow> nat" where
  "headroom l a m k =
     (case m k of
        None \<Rightarrow> base_limit l k
      | Some c \<Rightarrow> (if a \<le> utc_value (wc_started_at c) then base_limit l k else 2 * base_limit l k) - wc_count c)"

lemma elapsed_exact:
  "utc_ok s \<Longrightarrow> utc_ok t \<Longrightarrow> i64_saturating_sub (utc_value t) (utc_value s) = utc_value t - utc_value s"
  by (simp add: i64_saturating_sub_def utc_ok_def int_width_defs)

lemma consume_window_result:
  assumes "consume_window k now w limit m = (r, m')" and "limits_ok l" and "counters_ok l m"
    and "utc_ok now" and "a \<le> utc_value now" and "utc_value now < a + duration_value w"
    and "1 \<le> limit" and "limit \<le> base_limit l k"
  shows "counters_ok l m' \<and> (\<forall>i. headroom l a m' i \<le> headroom l a m i) \<and>
    (r = Inr True \<longrightarrow> headroom l a m' k + 1 \<le> headroom l a m k)"
proof (cases "in_i64 (duration_value w)")
  case False
  then have "m' = m" "\<exists>e. r = Inl e"
    using assms(1) by (auto simp: consume_window_def i64_try_from_def Let_def)
  then show ?thesis using assms(3) by auto
next
  case True
  note consume = assms(1) [unfolded consume_window_def Let_def]
  have base: "1 \<le> base_limit l k" "base_limit l k \<le> u32_max" using assms(2) by (auto simp: limits_ok_def)
  show ?thesis
  proof (cases "m k")
    case None
    have "i64_saturating_sub (utc_value now) (utc_value now) = 0"
      by (simp add: i64_saturating_sub_def int_width_defs)
    with None True consume assms(5-8) have "m' = m(k \<mapsto> \<lparr>wc_started_at = now, wc_count = 1\<rparr>)"
      using base by (auto simp: i64_try_from_def u32_max_def min_def)
    then show ?thesis
      using None assms(3-5) base by (auto simp: counters_ok_def headroom_def)
  next
    case (Some c)
    then have c: "wc_count c \<le> base_limit l k" "utc_ok (wc_started_at c)"
      using assms(3) by (auto simp: counters_ok_def)
    let ?fresh = "utc_value now - utc_value (wc_started_at c) \<ge> duration_value w"
    let ?c = "if ?fresh then \<lparr>wc_started_at = now, wc_count = 0\<rparr> else c"
    have m': "(r, m') = (if wc_count ?c \<ge> limit then (Inr False, m(k \<mapsto> ?c))
        else (Inr True, m(k \<mapsto> ?c\<lparr>wc_count := min u32_max (wc_count ?c + 1)\<rparr>)))"
      using consume True
      by (simp only: Some elapsed_exact [OF c(2) assms(4)] option.case unwrap_or_simps i64_try_from_def
          if_True ok_or_simps attempt.simps)
    show ?thesis
    proof (cases ?fresh)
      case True
      then have "\<not> a \<le> utc_value (wc_started_at c)" using assms(6) by linarith
      moreover have "base_limit l k - Suc 0 \<le> 2 * base_limit l k - wc_count c"
        "base_limit l k \<le> 2 * base_limit l k - wc_count c" using c(1) by simp_all
      ultimately show ?thesis
        using True m' Some base assms(3-8) by (auto simp: counters_ok_def headroom_def min_def u32_max_def)
    next
      case False
      with m' Some c base assms(3,8) show ?thesis
        by (auto simp: counters_ok_def headroom_def min_def split: if_splits)
    qed
  qed
qed

lemma consume_checks_result:
  assumes "consume_checks checks d now w m = (r, m')" and "limits_ok l" and "counters_ok l m"
    and "utc_ok now" and "a \<le> utc_value now" and "utc_value now < a + duration_value w"
    and "\<forall>(k, base, scope)\<in>set checks. base = base_limit l k"
  shows "counters_ok l m' \<and> (\<forall>i. headroom l a m' i \<le> headroom l a m i) \<and>
    (r = Inr None \<longrightarrow> (\<forall>(k, base, scope)\<in>set checks. headroom l a m' k + 1 \<le> headroom l a m k))"
  using assms
proof (induction checks arbitrary: m)
  case (Cons check checks)
  obtain k scope where check: "check = (k, base_limit l k, scope)"
    using Cons.prems(7) by (cases check) auto
  obtain q n where first: "consume_window k now w (max (base_limit l k div d) 1) m = (q, n)"
    by fastforce
  have "base_limit l k div d \<le> base_limit l k" "1 \<le> base_limit l k"
    using Cons.prems(2) by (simp_all add: limits_ok_def)
  then have n: "counters_ok l n" "\<forall>i. headroom l a n i \<le> headroom l a m i"
    "q = Inr True \<Longrightarrow> headroom l a n k + 1 \<le> headroom l a m k"
    using consume_window_result [OF first Cons.prems(2-6)] by simp_all
  show ?case
  proof (cases "q = Inr True")
    case False
    then have "m' = n" "r \<noteq> Inr None"
      using Cons.prems(1) check first by (auto split: sum.splits if_splits)
    with n show ?thesis by simp
  next
    case True
    then have "consume_checks checks d now w n = (r, m')"
      using Cons.prems(1) check first by simp
    then have rest: "counters_ok l m'" "\<forall>i. headroom l a m' i \<le> headroom l a n i"
      "r = Inr None \<longrightarrow> (\<forall>(k, base, scope)\<in>set checks. headroom l a m' k + 1 \<le> headroom l a n k)"
      using Cons.IH [OF _ Cons.prems(2) n(1) Cons.prems(4-6)] Cons.prems(7) by auto
    have step: "headroom l a m' i + 1 \<le> headroom l a m i"
      if "headroom l a m' i + 1 \<le> headroom l a n i \<or> i = k" for i
      using that n(2) n(3) [OF True] rest(2) by (metis add_mono_thms_linordered_semiring(3) order_trans)
    have "headroom l a m' i \<le> headroom l a m i" for i
      using n(2) rest(2) order_trans by blast
    with rest(1,3) step show ?thesis by (auto simp: check)
  qed
qed auto

text \<open>The keys an event counts for.\<close>

definition event_keys :: "ingress_event \<Rightarrow> rate_key set" where
  "event_keys e =
     {PeerKey (ie_peer e), RoomKey (ie_peer e) (ie_room_id e), UserKey (ie_peer e) (ie_sender e)}"

lemma inspection_headroom:
  assumes "inspection p rep e g r g'" and "limits_ok (ig_limits g)" and "counters_ok (ig_limits g) (ig_counters g)"
    and "utc_ok (ie_received_at e)" and "a \<le> utc_value (ie_received_at e)"
    and "utc_value (ie_received_at e) < a + duration_value (il_window (ig_limits g))"
  shows "counters_ok (ig_limits g') (ig_counters g') \<and>
    headroom (ig_limits g') a (ig_counters g') k + (if accepted r \<and> k \<in> event_keys e then 1 else 0)
      \<le> headroom (ig_limits g) a (ig_counters g) k"
proof -
  have all: "\<forall>(k, base, scope)\<in>set (rate_checks (ig_limits g) e). base = base_limit (ig_limits g) k"
    by (simp add: rate_checks_def)
  obtain c m where "checks_for p rep e g = (c, m)" by fastforce
  then have checks: "counters_ok (ig_limits g) (snd (checks_for p rep e g))"
    "headroom (ig_limits g) a (snd (checks_for p rep e g)) i \<le> headroom (ig_limits g) a (ig_counters g) i"
    "fst (checks_for p rep e g) = Inr None \<Longrightarrow> i \<in> event_keys e \<Longrightarrow>
      headroom (ig_limits g) a (snd (checks_for p rep e g)) i + 1 \<le> headroom (ig_limits g) a (ig_counters g) i" for i
    using consume_checks_result [OF _ assms(2-6) all] unfolding checks_for_def
    by (auto simp: rate_checks_def event_keys_def)
  from assms(1) show ?thesis
  proof (cases rule: inspection.cases)
    case (refused m)
    then show ?thesis using checks(1,2) assms(3) by (auto dest: accepted_taken_in)
  next
    case (quarantined m)
    then show ?thesis using checks(1,2) assms(3) by auto
  next
    case (admitted m)
    then show ?thesis using checks by auto
  qed
qed

definition accepted_count :: "rate_key \<Rightarrow> ingress_command list \<Rightarrow> ingress_outcome result list \<Rightarrow> nat" where
  "accepted_count k cs rs =
     length (filter (\<lambda>(c, r). accepted r \<and> k \<in> event_keys (ic_event c)) (zip cs rs))"

lemma replay_headroom:
  assumes "limits_ok (ig_limits g)" and "counters_ok (ig_limits g) (ig_counters g)"
    and "\<forall>c\<in>set cs. utc_ok (ie_received_at (ic_event c)) \<and> a \<le> utc_value (ie_received_at (ic_event c)) \<and>
      utc_value (ie_received_at (ic_event c)) < a + duration_value (il_window (ig_limits g))"
  shows "accepted_count k cs (replay_results ingress_step cs g) \<le> headroom (ig_limits g) a (ig_counters g) k"
  using assms
proof (induction cs arbitrary: g)
  case (Cons c cs)
  let ?g = "snd (ingress_step c g)"
  have now: "utc_ok (ie_received_at (ic_event c))" "a \<le> utc_value (ie_received_at (ic_event c))"
    "utc_value (ie_received_at (ic_event c)) < a + duration_value (il_window (ig_limits g))"
    using Cons.prems(3) by simp_all
  note one = inspection_headroom [OF step_inspection Cons.prems(1,2) now, of k]
  have "accepted_count k cs (replay_results ingress_step cs ?g) \<le> headroom (ig_limits ?g) a (ig_counters ?g) k"
    using Cons.IH [of ?g] Cons.prems one by simp
  with one show ?case by (auto simp: accepted_count_def split: if_splits)
qed (simp add: accepted_count_def)

lemma replay_counters_ok:
  assumes "limits_ok (ig_limits g)" and "counters_ok (ig_limits g) (ig_counters g)"
    and "duration_ok (il_window (ig_limits g))" and "\<forall>c\<in>set cs. utc_ok (ie_received_at (ic_event c))"
  shows "counters_ok (ig_limits g) (ig_counters (replay ingress_step cs g))"
  using assms
proof (induction cs arbitrary: g)
  case (Cons c cs)
  let ?t = "ie_received_at (ic_event c)"
  have "counters_ok (ig_limits (snd (ingress_step c g))) (ig_counters (snd (ingress_step c g)))"
    by (rule inspection_headroom [OF step_inspection Cons.prems(1,2), of c "utc_value ?t", THEN conjunct1])
      (use Cons.prems(3,4) in \<open>simp_all add: duration_ok_def\<close>)
  with Cons.IH [of "snd (ingress_step c g)"] Cons.prems show ?case by simp
qed simp

lemma headroom_bound: "headroom l a m k \<le> 2 * base_limit l k"
proof (cases "m k")
  case (Some c)
  then show ?thesis by (simp add: headroom_def) linarith
qed (simp add: headroom_def)

lemma limits_new_ok:
  assumes "ingress_limits_new p r u w ttl = Inr l" and "p \<le> u32_max"
  shows "limits_ok l" "il_peer l = p" "il_room l = r" "il_user l = u" "il_window l = w" "il_replay_ttl l = ttl"
proof -
  have l: "l = \<lparr>il_peer = p, il_room = r, il_user = u, il_window = w, il_replay_ttl = ttl\<rparr>"
    "p \<noteq> 0" "r \<noteq> 0" "u \<noteq> 0" "u \<le> r" "r \<le> p"
    using assms(1) by (auto simp: ingress_limits_new_def split: if_splits)
  show "limits_ok l"
    unfolding limits_ok_def
  proof
    fix k show "1 \<le> base_limit l k \<and> base_limit l k \<le> u32_max"
      using l assms(2) by (cases k) simp_all
  qed
qed (use assms in \<open>auto simp: ingress_limits_new_def split: if_splits\<close>)

section \<open>A sample\<close>

definition sample_event :: "utext \<Rightarrow> nat \<Rightarrow> int \<Rightarrow> ingress_event" where
  "sample_event event_id revision t =
     \<lparr>ie_event_id = event_id, ie_peer = lit ''peer'', ie_room_id = lit ''!r:here'', ie_sender = lit ''@u:peer'',
      ie_event_type = lit ''topic'', ie_received_at = UtcMillis t,
      ie_state = Some \<lparr>sr_state_key = lit ''k'', sr_revision = revision\<rparr>\<rparr>"

definition sample_command :: "utext \<Rightarrow> nat \<Rightarrow> int \<Rightarrow> ingress_command" where
  "sample_command event_id revision t =
     \<lparr>ic_policies = [], ic_reputation = 0, ic_event = sample_event event_id revision t\<rparr>"

definition sample_limits :: ingress_limits where
  "sample_limits =
     \<lparr>il_peer = 12, il_room = 8, il_user = 4, il_window = DurationMillis 60000, il_replay_ttl = DurationMillis 300000\<rparr>"

lemmas sample_ingress_defs = sample_event_def sample_command_def sample_limits_def ingress_guard_new_def
  ingress_step_def ingress_inspect_def policy_evaluate_def matching_rules_def tier_of_score_def
  rate_checks_def consume_window_def rate_divisor_def forget_replays_def remembering_def
  remember_replay_def has_state_conflict_def remember_state_def utc_checked_add_def
  i64_saturating_sub_def i64_try_from_def i64_checked_add_def int_width_defs u32_max_def state_key_def

lemma sample_first_accepted:
  "fst (ingress_step (sample_command i n 1000) (ingress_guard_new sample_limits)) =
     Inr (accept_outcome (sample_event i n 1000) [])"
  by (simp add: sample_ingress_defs Let_def)

lemma sample_both_accepted:
  "accepted (replay_results ingress_step [sample_command (lit ''$a:p'') 1 1000, sample_command (lit ''$b:p'') 2 2000]
     (ingress_guard_new sample_limits) ! 1)"
  by (simp add: sample_ingress_defs lit_def Let_def)

section \<open>Properties\<close>

text \<open>
  C5: No event is accepted twice within the replay memory: when an event was accepted or
  quarantined, the same identifier is not accepted again, whatever rules, reputations and other events
  came in between, as long as that event and everything after it are received no earlier than the first
  and before the memory's lifetime after it has passed. (The memory is pruned by the receipt time of
  each event: one event with a later time empties it.)
\<close>

theorem no_replay_accepted:
  assumes "i < j" and "j < length cs"
    and "taken_in (replay_results ingress_step cs g ! i)"
    and "ie_event_id (ic_event (cs ! i)) = ie_event_id (ic_event (cs ! j))"
    and "\<forall>k. i < k \<and> k \<le> j \<longrightarrow>
      utc_value (ie_received_at (ic_event (cs ! i))) \<le> utc_value (ie_received_at (ic_event (cs ! k))) \<and>
      utc_value (ie_received_at (ic_event (cs ! k)))
        < utc_value (ie_received_at (ic_event (cs ! i))) + duration_value (il_replay_ttl (ig_limits g))"
  shows "\<not> accepted (replay_results ingress_step cs g ! j)"
proof -
  let ?t = "\<lambda>k. utc_value (ie_received_at (ic_event (cs ! k)))"
  let ?ttl = "duration_value (il_replay_ttl (ig_limits g))"
  let ?at = "\<lambda>k. replay ingress_step (take k cs) g"
  let ?P = "\<lambda>h. ig_limits h = ig_limits g \<and> remembered_until (ie_event_id (ic_event (cs ! i))) (?t i + ?ttl) h"
  have "taken_in (fst (ingress_step (cs ! i) (?at i)))"
    using assms(1-3) by (simp add: replay_results_nth)
  then have "?P (?at (Suc i))"
    using taken_in_remembers [OF step_inspection, of "cs ! i" "?at i"] assms(1,2) by (simp add: replay_take_Suc)
  then have "?P (?at j)"
  proof (rule replay_between [rotated 2])
    fix k h assume k: "Suc i \<le> k" "k < j" and h: "?P h"
    then have "?t i \<le> ?t k" "?t k < ?t i + ?ttl" using assms(5) by simp_all
    with h show "?P (snd (ingress_step (cs ! k) h))"
      using remembered_persists [OF step_inspection, of "ie_event_id (ic_event (cs ! i))" "?t i + ?ttl" h "cs ! k"]
      by simp
  qed (use assms(1,2) in simp_all)
  moreover have "?t j < ?t i + ?ttl" using assms(1,5) by simp
  ultimately show ?thesis
    using remembered_not_accepted [OF step_inspection, of "cs ! j" "?t i + ?ttl" "?at j"] assms(2,4)
    by (simp add: replay_results_nth)
qed

theorem no_replay_accepted_witness:
  "\<not> accepted (replay_results ingress_step [sample_command (lit ''$a:p'') 1 1000, sample_command (lit ''$a:p'') 2 2000]
     (ingress_guard_new sample_limits) ! 1)"
  by (rule no_replay_accepted [where i = 0])
    (simp_all add: sample_first_accepted, simp_all add: sample_command_def sample_event_def sample_limits_def
      ingress_guard_new_def)

text \<open>
  Accepted room state only moves forward: of two accepted events for the same room, event
  type and state key, the later one carries the strictly greater revision, whatever happened in
  between and whatever their times of receipt.
\<close>

theorem accepted_revisions_increase:
  assumes "i < j" and "j < length cs"
    and "accepted (replay_results ingress_step cs g ! i)" and "accepted (replay_results ingress_step cs g ! j)"
    and "ie_state (ic_event (cs ! i)) = Some s" and "ie_state (ic_event (cs ! j)) = Some t"
    and "state_key (ic_event (cs ! i)) s = state_key (ic_event (cs ! j)) t"
  shows "sr_revision s < sr_revision t"
proof -
  let ?at = "\<lambda>k. replay ingress_step (take k cs) g"
  let ?slot = "state_key (ic_event (cs ! j)) t"
  have "slot_at_least ?slot (sr_revision s) (?at (Suc i))"
    using inspection_slots(2) [OF step_inspection, of "cs ! i" "?at i" s] assms
    by (simp add: replay_results_nth replay_take_Suc)
  then have "slot_at_least ?slot (sr_revision s) (?at j)"
    by (rule replay_between [rotated 2]) (use assms in \<open>simp_all add: inspection_slots(1) [OF step_inspection]\<close>)
  then show ?thesis
    using inspection_slots(3) [OF step_inspection, of "cs ! j" "?at j" t] assms
    by (simp add: replay_results_nth)
qed

theorem accepted_revisions_increase_witness:
  "\<exists>s t. ie_state (sample_event (lit ''$a:p'') 1 1000) = Some s \<and> ie_state (sample_event (lit ''$b:p'') 2 2000) = Some t \<and>
     sr_revision s < sr_revision t"
proof -
  let ?cs = "[sample_command (lit ''$a:p'') 1 1000, sample_command (lit ''$b:p'') 2 2000]"
  have "accepted (replay_results ingress_step ?cs (ingress_guard_new sample_limits) ! 0)"
    by (simp add: sample_first_accepted)
  from accepted_revisions_increase [OF _ _ this sample_both_accepted]
  show ?thesis by (simp add: sample_command_def sample_event_def state_key_def)
qed

text \<open>
  C15: A burst is bounded: among events received within one window length, a guard accepts from a
  server, from a server in a room, and from a server's user at most twice the respective budget
  (the end of one window and the next), after any earlier history and under any rules.
\<close>

theorem burst_bounded:
  assumes "ingress_limits_new p r u w ttl = Inr l" and "p \<le> u32_max" and "duration_ok w"
    and "\<forall>c\<in>set (before @ cs). utc_ok (ie_received_at (ic_event c))"
    and "\<forall>c\<in>set cs. a \<le> utc_value (ie_received_at (ic_event c)) \<and>
      utc_value (ie_received_at (ic_event c)) < a + duration_value w"
    and "rs = replay_results ingress_step cs (replay ingress_step before (ingress_guard_new l))"
  shows "accepted_count (PeerKey peer) cs rs \<le> 2 * p \<and> accepted_count (RoomKey peer room) cs rs \<le> 2 * r \<and>
    accepted_count (UserKey peer user) cs rs \<le> 2 * u"
proof -
  note l = limits_new_ok [OF assms(1,2)]
  let ?g = "replay ingress_step before (ingress_guard_new l)"
  have g: "ig_limits ?g = l" "counters_ok l (ig_counters ?g)"
    using replay_counters_ok [of "ingress_guard_new l" before] l assms(3,4)
    by (simp_all add: ingress_guard_new_def counters_ok_def)
  have "\<forall>c\<in>set cs. utc_ok (ie_received_at (ic_event c)) \<and> a \<le> utc_value (ie_received_at (ic_event c)) \<and>
      utc_value (ie_received_at (ic_event c)) < a + duration_value (il_window l)"
    using assms(4,5) l(5) by simp
  then have "accepted_count k cs rs \<le> headroom l a (ig_counters ?g) k" for k
    using replay_headroom [of ?g cs a k] l(1) g assms(6) by simp
  then have "accepted_count k cs rs \<le> 2 * base_limit l k" for k
    using headroom_bound order_trans by blast
  from this [of "PeerKey peer"] this [of "RoomKey peer room"] this [of "UserKey peer user"] show ?thesis
    using l by simp
qed

theorem burst_bounded_witness:
  "accepted_count (PeerKey (lit ''peer'')) [sample_command (lit ''$a:p'') 1 1000, sample_command (lit ''$b:p'') 2 2000]
     (replay_results ingress_step [sample_command (lit ''$a:p'') 1 1000, sample_command (lit ''$b:p'') 2 2000]
        (replay ingress_step [sample_command (lit ''$c:p'') 0 500] (ingress_guard_new sample_limits))) \<le> 24"
proof -
  have "ingress_limits_new 12 8 4 (DurationMillis 60000) (DurationMillis 300000) = Inr sample_limits"
    by (simp add: ingress_limits_new_def sample_limits_def)
  from burst_bounded [OF this _ _ _ _ refl, of "[sample_command (lit ''$c:p'') 0 500]"
      "[sample_command (lit ''$a:p'') 1 1000, sample_command (lit ''$b:p'') 2 2000]" 1000 "lit ''peer''"]
  show ?thesis
    by (simp add: u32_max_def duration_ok_def utc_ok_def int_width_defs sample_command_def sample_event_def)
qed

text \<open>
  C26: Nothing enters past the rules: an event that is accepted matches no active rule that blocks
  or quarantines, comes from a server whose score is at least -59, is writable exactly when its
  type is a known family of the current namespace (never for the old namespace or an unknown type),
  supersedes the accepted revision of its slot, and is remembered for the replay lifetime.
\<close>

theorem accept_requires_clearance:
  assumes "ingress_inspect policies reputation e g = (Inr out, g')" and "is_accept out"
    and "- 100 \<le> reputation" and "reputation \<le> 100"
  shows "(\<forall>rule\<in>set policies. rule_is_active_at rule (ie_received_at e) \<and>
        scope_matches (fr_scope rule) (ie_peer e) (ie_room_id e) (ie_sender e) \<longrightarrow>
        fr_disposition rule = DispAllow \<or> fr_disposition rule = DispThrottle) \<and>
    - 59 \<le> reputation \<and>
    ((\<exists>ids. out = AcceptReadWrite ids) \<longleftrightarrow> is_known_event (ie_event_type e) active_event_namespace) \<and>
    (\<forall>s a. ie_state e = Some s \<longrightarrow> ig_accepted g (state_key e s) = Some a \<longrightarrow> as_revision a < sr_revision s) \<and>
    ig_replays g' (ie_event_id e) =
      Some (UtcMillis (utc_value (ie_received_at e) + duration_value (il_replay_ttl (ig_limits g))))"
proof -
  have "inspection policies reputation e g (Inr out) g'"
    using inspect_inspection [of policies reputation e g] assms(1) by simp
  then show ?thesis
  proof (cases rule: inspection.cases)
    case (admitted m)
    have "fr_disposition rule = DispAllow \<or> fr_disposition rule = DispThrottle"
      if "rule \<in> set policies" "rule_is_active_at rule (ie_received_at e)"
        "scope_matches (fr_scope rule) (ie_peer e) (ie_room_id e) (ie_sender e)" for rule
    proof -
      have "rule \<in> relevant policies (ie_peer e) (ie_room_id e) (ie_sender e) (ie_received_at e)"
        using that by (simp add: relevant_def)
      from verdict_upper [OF relevant_finite this] have "fr_disposition rule \<le> disposition_for policies e"
        by (simp add: disposition_for_def evaluate_verdict)
      with admitted(3,4) show ?thesis
        by (cases "fr_disposition rule"; cases "disposition_for policies e") (simp_all add: disposition_order)
    qed
    moreover have "- 59 \<le> reputation"
      using admitted(5) assms(3,4) by (auto simp: tier_of_score_def split: if_splits)
    moreover have "(\<exists>ids. out = AcceptReadWrite ids) \<longleftrightarrow> is_known_event (ie_event_type e) active_event_namespace"
      using admitted(1) by (auto simp: accept_outcome_def classify_event_def)
    moreover have "as_revision a < sr_revision s"
      if "ie_state e = Some s" "ig_accepted g (state_key e s) = Some a" for s a
      using admitted(8) that by (auto simp: has_state_conflict_def)
    ultimately show ?thesis using admitted(2) by (simp add: remember_id_def)
  qed (use assms(2) accepted_taken_in [of "Inr out"] in simp_all)
qed

theorem accept_requires_clearance_witness:
  "ig_replays (snd (ingress_inspect [] 0 (sample_event (lit ''$a:p'') 1 1000) (ingress_guard_new sample_limits))) (lit ''$a:p'') =
     Some (UtcMillis 301000)"
proof -
  obtain g' where g': "ingress_inspect [] 0 (sample_event (lit ''$a:p'') 1 1000) (ingress_guard_new sample_limits) =
      (Inr (accept_outcome (sample_event (lit ''$a:p'') 1 1000) []), g')"
    using sample_first_accepted [of "lit ''$a:p''" 1]
    by (cases "ingress_inspect [] 0 (sample_event (lit ''$a:p'') 1 1000) (ingress_guard_new sample_limits)")
      (simp add: ingress_step_def sample_command_def)
  from accept_requires_clearance [OF this is_accept_outcome, THEN conjunct2, THEN conjunct2, THEN conjunct2, THEN conjunct2]
  show ?thesis using g' by (simp add: sample_event_def sample_limits_def ingress_guard_new_def)
qed

end
