(* ===== verification/Room_Settings.thy ===== *)
theory Room_Settings
  imports Texts Utc_Clock Room_Permissions
begin

text \<open>
  What the owner and the moderators of a room configure: applications to join
  (\<^verbatim>\<open>room_join_requests.rs\<close>), the public listing (\<^verbatim>\<open>room_listing.rs\<close>), the owner's agent that
  moderates by written rules (\<^verbatim>\<open>room_moderation_grants.rs\<close>), the standing notice
  (\<^verbatim>\<open>room_notices.rs\<close>), and the coarse regions that usage is counted by (\<^verbatim>\<open>regions.rs\<close>).
\<close>

section \<open>Applications to join\<close>

definition max_join_request_message_chars :: nat where "max_join_request_message_chars = 200"
definition rejection_cooldown_millis :: int where "rejection_cooldown_millis = 24 * 60 * 60 * 1000"
definition join_request_retention_millis :: int where
  "join_request_retention_millis = 30 * 24 * 60 * 60 * 1000"

datatype join_request_status =
  JoinPending | JoinApproved | JoinRejected | JoinVoided | JoinWithdrawn

definition join_request_status_str :: "join_request_status \<Rightarrow> string" where
  "join_request_status_str st =
     (case st of JoinPending \<Rightarrow> ''pending'' | JoinApproved \<Rightarrow> ''approved'' | JoinRejected \<Rightarrow> ''rejected''
      | JoinVoided \<Rightarrow> ''voided'' | JoinWithdrawn \<Rightarrow> ''withdrawn'')"

definition join_request_status_of_str :: "string \<Rightarrow> join_request_status result" where
  "join_request_status_of_str s =
     (if s = ''pending'' then Inr JoinPending
      else if s = ''approved'' then Inr JoinApproved
      else if s = ''rejected'' then Inr JoinRejected
      else if s = ''voided'' then Inr JoinVoided
      else if s = ''withdrawn'' then Inr JoinWithdrawn
      else Inl (Validation ''join_request_status'' ''unknown state''))"

interpretation join_request_codec: codec join_request_status_str join_request_status_of_str
  by unfold_locales
    (auto simp: join_request_status_str_def join_request_status_of_str_def
      split: join_request_status.splits if_splits)

definition join_request_message_parse :: "utext \<Rightarrow> utext result" where
  "join_request_message_parse input =
     (let v = trim input
      in if length v > max_join_request_message_chars
         then Inl (Validation ''join_request_message'' ''at most 200 characters'')
         else if list_ex (\<lambda>c. is_control c \<and> c \<noteq> 10) v
         then Inl (Validation ''join_request_message'' ''line breaks are the only control characters'')
         else Inr v)"

section \<open>The public listing\<close>

datatype room_join_mode = JoinOpen | JoinByRequest | JoinInviteOnly

definition join_mode_str :: "room_join_mode \<Rightarrow> string" where
  "join_mode_str m =
     (case m of JoinOpen \<Rightarrow> ''open'' | JoinByRequest \<Rightarrow> ''request'' | JoinInviteOnly \<Rightarrow> ''invite_only'')"

definition join_mode_of_str :: "string \<Rightarrow> room_join_mode result" where
  "join_mode_of_str s =
     (if s = ''open'' then Inr JoinOpen
      else if s = ''request'' then Inr JoinByRequest
      else if s = ''invite_only'' then Inr JoinInviteOnly
      else Inl (Validation ''room_join_mode'' ''open, request or invite_only''))"

interpretation join_mode_codec: codec join_mode_str join_mode_of_str
  by unfold_locales
    (auto simp: join_mode_str_def join_mode_of_str_def split: room_join_mode.splits if_splits)

record listing_settings =
  ls_listed :: bool
  ls_join_mode :: room_join_mode
  ls_member_permissions :: room_permissions
  ls_allow_network_agents :: bool

definition default_member_permissions :: room_permissions where
  "default_member_permissions = perm_invited_by_agent"

definition listing_unlisted :: listing_settings where
  "listing_unlisted =
     \<lparr>ls_listed = False, ls_join_mode = JoinOpen, ls_member_permissions = default_member_permissions,
      ls_allow_network_agents = True\<rparr>"

definition listing_settings_new ::
  "bool \<Rightarrow> room_join_mode \<Rightarrow> room_permissions \<Rightarrow> bool \<Rightarrow> listing_settings result" where
  "listing_settings_new listed join_mode member_permissions allow_network_agents =
     (if \<not> perm_view member_permissions \<or> perm_manage member_permissions
      then Inl (Validation ''room_listing_member_permissions'' ''view without manage'')
      else Inr \<lparr>ls_listed = listed, ls_join_mode = join_mode, ls_member_permissions = member_permissions,
                ls_allow_network_agents = allow_network_agents\<rparr>)"

section \<open>The moderating agent\<close>

definition max_moderation_rules_characters :: nat where "max_moderation_rules_characters = 2000"
definition max_grant_lifetime_millis :: int where "max_grant_lifetime_millis = 30 * 24 * 60 * 60 * 1000"
definition min_grant_lifetime_millis :: int where "min_grant_lifetime_millis = 60 * 1000"
definition max_moderation_note_characters :: nat where "max_moderation_note_characters = 500"
definition min_agent_mute_millis :: int where "min_agent_mute_millis = 60 * 1000"
definition max_agent_mute_millis :: int where "max_agent_mute_millis = 30 * 24 * 60 * 60 * 1000"

datatype moderation_power = PowerMute | PowerKick | PowerBan | PowerUnban

definition all_powers :: "moderation_power list" where
  "all_powers = [PowerMute, PowerKick, PowerBan, PowerUnban]"

definition moderation_power_str :: "moderation_power \<Rightarrow> string" where
  "moderation_power_str p =
     (case p of PowerMute \<Rightarrow> ''mute'' | PowerKick \<Rightarrow> ''kick'' | PowerBan \<Rightarrow> ''ban'' | PowerUnban \<Rightarrow> ''unban'')"

definition moderation_power_of_str :: "string \<Rightarrow> moderation_power result" where
  "moderation_power_of_str s =
     (if s = ''mute'' then Inr PowerMute
      else if s = ''kick'' then Inr PowerKick
      else if s = ''ban'' then Inr PowerBan
      else if s = ''unban'' then Inr PowerUnban
      else Inl (Validation ''room_moderation_power'' ''mute, kick, ban or unban''))"

interpretation moderation_power_codec: codec moderation_power_str moderation_power_of_str
  by unfold_locales
    (auto simp: moderation_power_str_def moderation_power_of_str_def split: moderation_power.splits if_splits)

text \<open>The derived order is that of declaration.\<close>

fun power_index :: "moderation_power \<Rightarrow> nat" where
  "power_index PowerMute = 0"
| "power_index PowerKick = 1"
| "power_index PowerBan = 2"
| "power_index PowerUnban = 3"

lemma power_index_inject: "power_index a = power_index b \<Longrightarrow> a = b"
  by (cases a; cases b) simp_all

instantiation moderation_power :: linorder
begin

definition less_eq_moderation_power :: "moderation_power \<Rightarrow> moderation_power \<Rightarrow> bool" where
  "less_eq_moderation_power a b \<longleftrightarrow> power_index a \<le> power_index b"

definition less_moderation_power :: "moderation_power \<Rightarrow> moderation_power \<Rightarrow> bool" where
  "less_moderation_power a b \<longleftrightarrow> power_index a < power_index b"

instance
  by standard (auto simp: less_eq_moderation_power_def less_moderation_power_def intro: power_index_inject)

end

text \<open>\<open>sort\<close> then \<open>remdups_adj\<close> are \<^verbatim>\<open>sort_unstable\<close> and \<^verbatim>\<open>dedup\<close>.\<close>

definition moderation_powers_new :: "moderation_power list \<Rightarrow> moderation_power list result" where
  "moderation_powers_new powers =
     (let ps = remdups_adj (sort powers)
      in if ps = [] then Inl (Validation ''room_moderation_powers'' ''at least one'') else Inr ps)"

definition powers_allow :: "moderation_power list \<Rightarrow> moderation_power \<Rightarrow> bool" where
  "powers_allow ps p \<longleftrightarrow> List.member ps p"

definition has_bad_control :: "utext \<Rightarrow> bool" where
  "has_bad_control v \<longleftrightarrow> list_ex (\<lambda>c. is_control c \<and> \<not> (c = 10 \<or> c = 9)) v"

definition moderation_rules_parse :: "utext \<Rightarrow> utext result" where
  "moderation_rules_parse input =
     (let v = trim input
      in if v = [] \<or> length v > max_moderation_rules_characters \<or> has_bad_control v
         then Inl (Validation ''room_moderation_rules'' ''1 to 2000 characters'') else Inr v)"

definition moderation_note_parse :: "utext \<Rightarrow> utext result" where
  "moderation_note_parse input =
     (let v = trim input
      in if v = [] \<or> length v > max_moderation_note_characters \<or> has_bad_control v
         then Inl (Validation ''agent_moderation_note'' ''1 to 500 characters'') else Inr v)"

definition agent_mute_duration :: "duration_millis option \<Rightarrow> duration_millis option result" where
  "agent_mute_duration requested =
     (case requested of
        Some d \<Rightarrow>
          if \<not> (min_agent_mute_millis \<le> duration_value d \<and> duration_value d \<le> max_agent_mute_millis)
          then Inl (Validation ''agent_mute_duration'' ''one minute to 30 days'') else Inr (Some d)
      | None \<Rightarrow> Inr None)"

definition moderation_grant_lifetime :: "duration_millis option \<Rightarrow> duration_millis result" where
  "moderation_grant_lifetime requested =
     (let millis = (case requested of None \<Rightarrow> max_grant_lifetime_millis | Some d \<Rightarrow> duration_value d)
      in if \<not> (min_grant_lifetime_millis \<le> millis \<and> millis \<le> max_grant_lifetime_millis)
         then Inl (Validation ''room_moderation_grant_lifetime'' ''one minute to 30 days'')
         else duration_new millis)"

section \<open>The standing notice\<close>

definition max_room_notice_characters :: nat where "max_room_notice_characters = 2000"

definition room_notice_parse :: "utext \<Rightarrow> utext result" where
  "room_notice_parse input =
     (let v = trim input
      in if length v > max_room_notice_characters \<or> has_bad_control v
         then Inl (Validation ''room_notice'' ''at most 2000 characters'') else Inr v)"

definition notice_is_removal :: "utext \<Rightarrow> bool" where
  "notice_is_removal v \<longleftrightarrow> v = []"

section \<open>Regions\<close>

datatype region =
    MainlandChina | HongKongMacauTaiwan | JapanKorea | SoutheastAsia | SouthAsia | Oceania
  | Europe | NorthAmerica | LatinAmerica | MiddleEastAfrica | UnknownRegion

definition all_regions :: "region list" where
  "all_regions =
     [MainlandChina, HongKongMacauTaiwan, JapanKorea, SoutheastAsia, SouthAsia, Oceania, Europe,
      NorthAmerica, LatinAmerica, MiddleEastAfrica, UnknownRegion]"

definition region_slug :: "region \<Rightarrow> string" where
  "region_slug r =
     (case r of MainlandChina \<Rightarrow> ''cn'' | HongKongMacauTaiwan \<Rightarrow> ''hk_mo_tw'' | JapanKorea \<Rightarrow> ''jp_kr''
      | SoutheastAsia \<Rightarrow> ''southeast_asia'' | SouthAsia \<Rightarrow> ''south_asia'' | Oceania \<Rightarrow> ''oceania''
      | Europe \<Rightarrow> ''europe'' | NorthAmerica \<Rightarrow> ''north_america'' | LatinAmerica \<Rightarrow> ''latin_america''
      | MiddleEastAfrica \<Rightarrow> ''middle_east_africa'' | UnknownRegion \<Rightarrow> ''unknown'')"

definition countries :: "(region \<times> utext list) list" where
  "countries =
    [(MainlandChina,
       [lit ''CN'']),
     (HongKongMacauTaiwan,
       [lit ''HK'', lit ''MO'', lit ''TW'']),
     (JapanKorea,
       [lit ''JP'', lit ''KP'', lit ''KR'', lit ''MN'']),
     (SoutheastAsia,
       [lit ''BN'', lit ''ID'', lit ''KH'', lit ''LA'', lit ''MM'', lit ''MY'', lit ''PH'',
        lit ''SG'', lit ''TH'', lit ''TL'', lit ''VN'']),
     (SouthAsia,
       [lit ''AF'', lit ''BD'', lit ''BT'', lit ''IN'', lit ''IO'', lit ''LK'', lit ''MV'',
        lit ''NP'', lit ''PK'']),
     (Oceania,
       [lit ''AQ'', lit ''AS'', lit ''AU'', lit ''CC'', lit ''CK'', lit ''CX'', lit ''FJ'',
        lit ''FM'', lit ''GU'', lit ''HM'', lit ''KI'', lit ''MH'', lit ''MP'', lit ''NC'',
        lit ''NF'', lit ''NR'', lit ''NU'', lit ''NZ'', lit ''PF'', lit ''PG'', lit ''PN'',
        lit ''PW'', lit ''SB'', lit ''TK'', lit ''TO'', lit ''TV'', lit ''UM'', lit ''VU'',
        lit ''WF'', lit ''WS'']),
     (Europe,
       [lit ''AD'', lit ''AL'', lit ''AM'', lit ''AT'', lit ''AX'', lit ''AZ'', lit ''BA'',
        lit ''BE'', lit ''BG'', lit ''BY'', lit ''CH'', lit ''CY'', lit ''CZ'', lit ''DE'',
        lit ''DK'', lit ''EE'', lit ''ES'', lit ''FI'', lit ''FO'', lit ''FR'', lit ''GB'',
        lit ''GE'', lit ''GG'', lit ''GI'', lit ''GR'', lit ''HR'', lit ''HU'', lit ''IE'',
        lit ''IM'', lit ''IS'', lit ''IT'', lit ''JE'', lit ''KG'', lit ''KZ'', lit ''LI'',
        lit ''LT'', lit ''LU'', lit ''LV'', lit ''MC'', lit ''MD'', lit ''ME'', lit ''MK'',
        lit ''MT'', lit ''NL'', lit ''NO'', lit ''PL'', lit ''PT'', lit ''RO'', lit ''RS'',
        lit ''RU'', lit ''SE'', lit ''SI'', lit ''SJ'', lit ''SK'', lit ''SM'', lit ''TJ'',
        lit ''TM'', lit ''TR'', lit ''UA'', lit ''UZ'', lit ''VA'', lit ''XK'']),
     (NorthAmerica,
       [lit ''BM'', lit ''CA'', lit ''GL'', lit ''PM'', lit ''US'']),
     (LatinAmerica,
       [lit ''AG'', lit ''AI'', lit ''AR'', lit ''AW'', lit ''BB'', lit ''BL'', lit ''BO'',
        lit ''BQ'', lit ''BR'', lit ''BS'', lit ''BZ'', lit ''CL'', lit ''CO'', lit ''CR'',
        lit ''CU'', lit ''CW'', lit ''DM'', lit ''DO'', lit ''EC'', lit ''FK'', lit ''GD'',
        lit ''GF'', lit ''GP'', lit ''GS'', lit ''GT'', lit ''GY'', lit ''HN'', lit ''HT'',
        lit ''JM'', lit ''KN'', lit ''KY'', lit ''LC'', lit ''MF'', lit ''MQ'', lit ''MS'',
        lit ''MX'', lit ''NI'', lit ''PA'', lit ''PE'', lit ''PR'', lit ''PY'', lit ''SR'',
        lit ''SV'', lit ''SX'', lit ''TC'', lit ''TT'', lit ''UY'', lit ''VC'', lit ''VE'',
        lit ''VG'', lit ''VI'']),
     (MiddleEastAfrica,
       [lit ''AE'', lit ''AO'', lit ''BF'', lit ''BH'', lit ''BI'', lit ''BJ'', lit ''BV'',
        lit ''BW'', lit ''CD'', lit ''CF'', lit ''CG'', lit ''CI'', lit ''CM'', lit ''CV'',
        lit ''DJ'', lit ''DZ'', lit ''EG'', lit ''EH'', lit ''ER'', lit ''ET'', lit ''GA'',
        lit ''GH'', lit ''GM'', lit ''GN'', lit ''GQ'', lit ''GW'', lit ''IL'', lit ''IQ'',
        lit ''IR'', lit ''JO'', lit ''KE'', lit ''KM'', lit ''KW'', lit ''LB'', lit ''LR'',
        lit ''LS'', lit ''LY'', lit ''MA'', lit ''MG'', lit ''ML'', lit ''MR'', lit ''MU'',
        lit ''MW'', lit ''MZ'', lit ''NA'', lit ''NE'', lit ''NG'', lit ''OM'', lit ''PS'',
        lit ''QA'', lit ''RE'', lit ''RW'', lit ''SA'', lit ''SC'', lit ''SD'', lit ''SH'',
        lit ''SL'', lit ''SN'', lit ''SO'', lit ''SS'', lit ''ST'', lit ''SY'', lit ''SZ'',
        lit ''TD'', lit ''TF'', lit ''TG'', lit ''TN'', lit ''TZ'', lit ''UG'', lit ''YE'',
        lit ''YT'', lit ''ZA'', lit ''ZM'', lit ''ZW''])]"

text \<open>
  A country code is two ASCII letters in upper case. The parser looks at bytes; a text of two
  bytes that are ASCII letters is a text of two such code points.
\<close>

definition country_code_parse :: "utext \<Rightarrow> utext option" where
  "country_code_parse code =
     (case code of
        [a, b] \<Rightarrow> if is_ascii_alphabetic a \<and> is_ascii_alphabetic b
                  then Some [ascii_uppercase a, ascii_uppercase b] else None
      | _ \<Rightarrow> None)"

definition region_of_country :: "utext \<Rightarrow> region" where
  "region_of_country country =
     (case find (\<lambda>(r, codes). List.member codes country) countries of
        None \<Rightarrow> UnknownRegion
      | Some (r, codes) \<Rightarrow> r)"

section \<open>Lemmas\<close>

interpretation join_message: normalizer join_request_message_parse
  by unfold_locales (auto simp: join_request_message_parse_def Let_def split: if_splits)

interpretation rules_text: normalizer moderation_rules_parse
  by unfold_locales (auto simp: moderation_rules_parse_def Let_def split: if_splits)

interpretation note_text: normalizer moderation_note_parse
  by unfold_locales (auto simp: moderation_note_parse_def Let_def split: if_splits)

interpretation notice_text: normalizer room_notice_parse
  by unfold_locales (auto simp: room_notice_parse_def Let_def split: if_splits)

lemma distinct_dedup: "sorted xs \<Longrightarrow> distinct (remdups_adj xs)"
  by (induction xs rule: remdups_adj.induct) auto

lemma sorted_dedup:
  "sorted (remdups_adj (sort xs)) \<and> distinct (remdups_adj (sort xs)) \<and> set (remdups_adj (sort xs)) = set xs"
  by (simp add: distinct_dedup)

text \<open>The codes as numbers, for a fast check that no country is listed twice.\<close>

definition code_number :: "utext \<Rightarrow> nat" where
  "code_number c = (hd c - 65) * 26 + (hd (tl c) - 65)"

lemma countries_distinct: "distinct (concat (map snd countries))"
proof -
  have "distinct (map code_number (concat (map snd countries)))"
    by (simp add: countries_def lit_def code_number_def)
  then show ?thesis by (simp only: distinct_map)
qed

lemma find_row:
  "distinct (concat (map snd rows)) \<Longrightarrow> (r, codes) \<in> set rows \<Longrightarrow> c \<in> set codes \<Longrightarrow>
   find (\<lambda>(r, codes). c \<in> set codes) rows = Some (r, codes)"
proof (induction rows)
  case (Cons row rows)
  show ?case
  proof (cases "row = (r, codes)")
    case False
    with Cons.prems have "(r, codes) \<in> set rows" by simp
    with Cons.prems have "c \<notin> set (snd row)" by (auto simp: disjoint_iff) force
    with Cons \<open>(r, codes) \<in> set rows\<close> show ?thesis by (cases row) auto
  qed (use Cons.prems in simp)
qed simp

lemma region_of_listed: "(r, codes) \<in> set countries \<Longrightarrow> c \<in> set codes \<Longrightarrow> region_of_country c = r"
  by (simp add: region_of_country_def find_row [OF countries_distinct])

lemma region_of_unlisted:
  "\<forall>(r, codes)\<in>set countries. c \<notin> set codes \<Longrightarrow> region_of_country c = UnknownRegion"
proof -
  assume "\<forall>(r, codes)\<in>set countries. c \<notin> set codes"
  then have "find (\<lambda>(r, codes). c \<in> set codes) countries = None" by (auto simp: find_None_iff)
  then show ?thesis by (simp add: region_of_country_def)
qed

section \<open>Properties\<close>

text \<open>
  Nobody who joins a public room becomes a moderator by joining: the permissions of every
  accepted listing, and of the default one, include viewing and never managing, for a person and,
  after the intersection with what an agent may hold, for an agent.
\<close>

theorem listing_never_grants_manage:
  assumes "listing_settings_new l m p n = Inr s \<or> s = listing_unlisted"
  shows "perm_view (ls_member_permissions s) \<and> \<not> perm_manage (ls_member_permissions s) \<and>
    \<not> perm_manage (perm_intersection (ls_member_permissions s) q) \<and>
    can_be_assigned_to_member (ls_member_permissions s)"
proof -
  have "perm_view (ls_member_permissions s) \<and> \<not> perm_manage (ls_member_permissions s)"
    using assms
  proof
    assume "s = listing_unlisted"
    then show ?thesis
      by (simp add: listing_unlisted_def default_member_permissions_def perm_invited_by_agent_def
          perm_view_def perm_manage_def perm_bit_defs del: perm_flag_grants)
  qed (auto simp: listing_settings_new_def split: if_splits)
  then show ?thesis
    by (auto simp: can_be_assigned_to_member_def perm_intersection_def grants_def bit_and_iff)
qed

theorem listing_never_grants_manage_witness:
  "\<not> perm_manage (ls_member_permissions listing_unlisted)"
  using listing_never_grants_manage by blast

text \<open>
  The powers handed to a moderating agent are a set: the accepted list holds exactly the powers
  given, sorted and without repetition, so two lists of the same powers are stored alike, and only
  the empty list is refused.
\<close>

theorem moderation_powers_canonical:
  assumes "moderation_powers_new xs = Inr ps"
  shows "sorted ps \<and> distinct ps \<and> (\<forall>p. powers_allow ps p \<longleftrightarrow> p \<in> set xs) \<and>
    (\<forall>ys. set ys = set xs \<longrightarrow> moderation_powers_new ys = Inr ps) \<and> moderation_powers_new ps = Inr ps"
proof -
  have ps: "ps = remdups_adj (sort xs)" "ps \<noteq> []"
    using assms by (auto simp: moderation_powers_new_def Let_def split: if_splits)
  have "moderation_powers_new ys = Inr ps" if "set ys = set xs" for ys
  proof -
    have "remdups_adj (sort ys) = ps"
      using sorted_dedup [of ys] sorted_dedup [of xs] that ps(1) by (metis sorted_distinct_set_unique)
    with ps(2) show ?thesis by (simp add: moderation_powers_new_def Let_def)
  qed
  moreover from this have "moderation_powers_new ps = Inr ps"
    using sorted_dedup [of xs] ps by simp
  ultimately show ?thesis
    using sorted_dedup [of xs] ps by (simp add: powers_allow_def)
qed

theorem moderation_powers_canonical_witness:
  "moderation_powers_new [PowerKick, PowerMute] = Inr [PowerMute, PowerKick]"
proof -
  have "moderation_powers_new [PowerMute, PowerKick, PowerMute] = Inr [PowerMute, PowerKick]"
    by (simp add: moderation_powers_new_def less_eq_moderation_power_def Let_def)
  then show ?thesis by (rule moderation_powers_canonical
      [THEN conjunct2, THEN conjunct2, THEN conjunct2, THEN conjunct1, rule_format]) auto
qed

text \<open>
  Every country is counted in exactly one region: the rows of the table are disjoint, a
  country of a row is counted in that row's region, upper or lower case alike, and any other
  country in none of them.
\<close>

theorem country_in_one_region:
  "distinct (concat (map snd countries)) \<and>
   (\<forall>(r, codes)\<in>set countries. \<forall>c\<in>set codes. region_of_country c = r \<and> r \<noteq> UnknownRegion) \<and>
   (\<forall>c. region_of_country c \<noteq> UnknownRegion \<longrightarrow> (\<exists>codes. (region_of_country c, codes) \<in> set countries \<and> c \<in> set codes)) \<and>
   (\<forall>a b. country_code_parse [ascii_lowercase a, ascii_lowercase b] = country_code_parse [a, b])"
proof (intro conjI)
  show "distinct (concat (map snd countries))" by (rule countries_distinct)
  have "\<forall>(r, codes)\<in>set countries. r \<noteq> UnknownRegion"
    by (simp add: countries_def)
  then show "\<forall>(r, codes)\<in>set countries. \<forall>c\<in>set codes. region_of_country c = r \<and> r \<noteq> UnknownRegion"
    using region_of_listed by blast
  show "\<forall>c. region_of_country c \<noteq> UnknownRegion \<longrightarrow>
      (\<exists>codes. (region_of_country c, codes) \<in> set countries \<and> c \<in> set codes)"
  proof (intro allI impI)
    fix c assume "region_of_country c \<noteq> UnknownRegion"
    then obtain r codes where "(r, codes) \<in> set countries" "c \<in> set codes"
      using region_of_unlisted [of c] by blast
    with region_of_listed show "\<exists>codes. (region_of_country c, codes) \<in> set countries \<and> c \<in> set codes"
      by blast
  qed
  show "\<forall>a b. country_code_parse [ascii_lowercase a, ascii_lowercase b] = country_code_parse [a, b]"
    by (auto simp: country_code_parse_def ascii_lowercase_def ascii_uppercase_def ascii_classes)
qed

end
