(* ===== verification/Agent_Cards.thy ===== *)
theory Agent_Cards
  imports Texts Utc_Clock
begin

text \<open>
  \<^verbatim>\<open>agent_cards.rs\<close>: the normalised public card of a remote agent (A2A 1.0) and its immutable
  snapshots. URLs are parsed by the \<^verbatim>\<open>url\<close> crate, which is outside the repository: the parser
  is the parameter \<open>parse_url\<close>, whose result is the record of the accessors the code reads.
\<close>

record parsed_url =
  url_scheme :: utext
  url_host :: "utext option"
  url_username :: utext
  url_password :: "utext option"
  url_fragment :: "utext option"
  url_cannot_be_a_base :: bool

type_synonym url_parser = "utext \<Rightarrow> parsed_url option"

definition card_max_name :: nat where "card_max_name = 128"
definition card_max_url :: nat where "card_max_url = 2048"
definition card_max_description :: nat where "card_max_description = 2048"
definition card_max_version :: nat where "card_max_version = 64"
definition card_max_provider_name :: nat where "card_max_provider_name = 128"
definition card_max_endpoints :: nat where "card_max_endpoints = 8"
definition card_max_tenant :: nat where "card_max_tenant = 256"
definition card_max_skills :: nat where "card_max_skills = 64"
definition card_max_skill_id :: nat where "card_max_skill_id = 128"
definition card_max_skill_name :: nat where "card_max_skill_name = 128"
definition card_max_skill_description :: nat where "card_max_skill_description = 2048"
definition card_max_tags :: nat where "card_max_tags = 32"
definition card_max_tag :: nat where "card_max_tag = 64"
definition card_max_media_modes :: nat where "card_max_media_modes = 32"
definition card_max_media_mode :: nat where "card_max_media_mode = 128"
definition card_max_extensions :: nat where "card_max_extensions = 32"
definition card_max_extension_description :: nat where "card_max_extension_description = 512"
definition card_max_security_schemes :: nat where "card_max_security_schemes = 32"
definition card_max_security_scheme_name :: nat where "card_max_security_scheme_name = 128"

lemmas card_limits = card_max_name_def card_max_url_def card_max_description_def card_max_version_def
  card_max_provider_name_def card_max_endpoints_def card_max_tenant_def card_max_skills_def
  card_max_skill_id_def card_max_skill_name_def card_max_skill_description_def card_max_tags_def
  card_max_tag_def card_max_media_modes_def card_max_media_mode_def card_max_extensions_def
  card_max_extension_description_def card_max_security_schemes_def card_max_security_scheme_name_def

section \<open>Enumerations\<close>

datatype card_verification = CardVerified | CardUnverified | CardInvalid | CardExpired

definition card_verification_str :: "card_verification \<Rightarrow> string" where
  "card_verification_str v =
     (case v of CardVerified \<Rightarrow> ''verified'' | CardUnverified \<Rightarrow> ''unverified'' | CardInvalid \<Rightarrow> ''invalid''
      | CardExpired \<Rightarrow> ''expired'')"

definition card_verification_of_str :: "string \<Rightarrow> card_verification result" where
  "card_verification_of_str s =
     (if s = ''verified'' then Inr CardVerified
      else if s = ''unverified'' then Inr CardUnverified
      else if s = ''invalid'' then Inr CardInvalid
      else if s = ''expired'' then Inr CardExpired
      else Inl (Validation ''agent_card_verification_state'' ''unknown state''))"

datatype endpoint_verification = EndpointVerified | EndpointDeclared

definition endpoint_verification_str :: "endpoint_verification \<Rightarrow> string" where
  "endpoint_verification_str v =
     (case v of EndpointVerified \<Rightarrow> ''verified'' | EndpointDeclared \<Rightarrow> ''declared'')"

datatype card_transport = JsonRpc | Grpc | HttpJson

definition card_transport_str :: "card_transport \<Rightarrow> string" where
  "card_transport_str t = (case t of JsonRpc \<Rightarrow> ''JSONRPC'' | Grpc \<Rightarrow> ''GRPC'' | HttpJson \<Rightarrow> ''HTTP+JSON'')"

definition card_transport_of_str :: "string \<Rightarrow> card_transport result" where
  "card_transport_of_str s =
     (if s = ''JSONRPC'' then Inr JsonRpc
      else if s = ''GRPC'' then Inr Grpc
      else if s = ''HTTP+JSON'' then Inr HttpJson
      else Inl (Validation ''agent_card_protocol_binding'' ''unsupported binding''))"

interpretation card_verification_codec: codec card_verification_str card_verification_of_str
  by unfold_locales
    (auto simp: card_verification_str_def card_verification_of_str_def split: card_verification.splits if_splits)

interpretation card_transport_codec: codec card_transport_str card_transport_of_str
  by unfold_locales
    (auto simp: card_transport_str_def card_transport_of_str_def split: card_transport.splits if_splits)

section \<open>Validation\<close>

definition validate_https_url :: "url_parser \<Rightarrow> string \<Rightarrow> utext \<Rightarrow> unit result" where
  "validate_https_url parse_url field v =
     (if byte_len v > card_max_url then Inl (Validation field ''too long'')
      else and_then (ok_or (parse_url v) (Validation field ''an absolute HTTPS URL'')) (\<lambda>u.
        if url_scheme u \<noteq> lit ''https'' \<or> url_host u = None \<or> url_username u \<noteq> [] \<or>
           url_password u \<noteq> None \<or> url_fragment u \<noteq> None
        then Inl (Validation field ''without credentials and fragment'') else Inr ()))"

definition validate_card_text :: "string \<Rightarrow> utext \<Rightarrow> nat \<Rightarrow> bool \<Rightarrow> unit result" where
  "validate_card_text field v maximum allow_empty =
     (if \<not> allow_empty \<and> trim v = [] \<or> length v > maximum \<or> list_ex is_control v
      then Inl (Validation field ''empty, too long or control characters'') else Inr ())"

definition ensure_maximum :: "string \<Rightarrow> nat \<Rightarrow> nat \<Rightarrow> unit result" where
  "ensure_maximum field actual maximum =
     (if actual > maximum then Inl (Validation field ''too many elements'') else Inr ())"

definition ensure_unique :: "string \<Rightarrow> utext list \<Rightarrow> unit result" where
  "ensure_unique field vs = (if \<not> distinct vs then Inl (Validation field ''duplicates'') else Inr ())"

fun validate_card_texts :: "string \<Rightarrow> utext list \<Rightarrow> nat \<Rightarrow> bool \<Rightarrow> unit result" where
  "validate_card_texts field [] maximum allow_empty = Inr ()"
| "validate_card_texts field (v # vs) maximum allow_empty =
     and_then (validate_card_text field v maximum allow_empty) (\<lambda>_.
     validate_card_texts field vs maximum allow_empty)"

definition validate_string_set :: "string \<Rightarrow> utext list \<Rightarrow> nat \<Rightarrow> nat \<Rightarrow> bool \<Rightarrow> unit result" where
  "validate_string_set field vs maximum_items maximum_length allow_empty =
     and_then (ensure_maximum field (length vs) maximum_items) (\<lambda>_.
     and_then (validate_card_texts field vs maximum_length allow_empty) (\<lambda>_.
     ensure_unique field vs))"

definition validate_media_modes :: "string \<Rightarrow> utext list \<Rightarrow> unit result" where
  "validate_media_modes field vs = validate_string_set field vs card_max_media_modes card_max_media_mode False"

section \<open>Protocol versions\<close>

record card_protocol_version =
  cv_major :: nat
  cv_minor :: nat

definition card_v1_0 :: card_protocol_version where
  "card_v1_0 = \<lparr>cv_major = 1, cv_minor = 0\<rparr>"

definition digits_value :: "utext \<Rightarrow> nat" where
  "digits_value s = foldl (\<lambda>v c. v * 10 + (c - 48)) 0 s"

text \<open>\<^verbatim>\<open>str::parse::<u16>\<close>: decimal digits after an optional plus sign, at most 65535.\<close>

definition parse_u16 :: "utext \<Rightarrow> nat option" where
  "parse_u16 s =
     (let digits = (case strip_prefix (lit ''+'') s of None \<Rightarrow> s | Some d \<Rightarrow> d)
      in if digits = [] \<or> \<not> list_all is_ascii_digit digits \<or> digits_value digits > 65535 then None
         else Some (digits_value digits))"

definition card_version_invalid :: domain_error where
  "card_version_invalid = Validation ''agent_card_protocol_version'' ''major.minor''"

definition card_version_parse :: "utext \<Rightarrow> card_protocol_version result" where
  "card_version_parse v =
     (case split_by (\<lambda>c. c = 46) v of
        [] \<Rightarrow> Inl card_version_invalid
      | first # rest \<Rightarrow>
          and_then (ok_or (parse_u16 first) card_version_invalid) (\<lambda>major.
          (case rest of
             [] \<Rightarrow> Inl card_version_invalid
           | second # others \<Rightarrow>
               and_then (ok_or (parse_u16 second) card_version_invalid) (\<lambda>minor.
               if others \<noteq> [] then Inl card_version_invalid
               else Inr \<lparr>cv_major = major, cv_minor = minor\<rparr>))))"

definition card_version_supported :: "card_protocol_version \<Rightarrow> bool" where
  "card_version_supported v \<longleftrightarrow> cv_major v = cv_major card_v1_0 \<and> cv_minor v = cv_minor card_v1_0"

section \<open>The parts of a card\<close>

record card_endpoint =
  ce_url :: utext
  ce_transport :: card_transport
  ce_protocol_version :: card_protocol_version
  ce_tenant :: "utext option"
  ce_verification :: endpoint_verification

definition card_endpoint_new ::
  "url_parser \<Rightarrow> utext \<Rightarrow> card_transport \<Rightarrow> card_protocol_version \<Rightarrow> utext option \<Rightarrow>
   endpoint_verification \<Rightarrow> card_endpoint result" where
  "card_endpoint_new parse_url url transport version tenant verification =
     and_then (validate_https_url parse_url ''agent_card_endpoint_url'' url) (\<lambda>_.
     if \<not> card_version_supported version
     then Inl (Validation ''agent_card_protocol_version'' ''unsupported version'')
     else and_then
       (case tenant of
          None \<Rightarrow> Inr ()
        | Some v \<Rightarrow> validate_card_text ''agent_card_tenant'' v card_max_tenant False) (\<lambda>_.
       Inr \<lparr>ce_url = url, ce_transport = transport, ce_protocol_version = version,
            ce_tenant = tenant, ce_verification = verification\<rparr>))"

record card_provider =
  cp_organization :: utext
  cp_url :: utext

definition card_provider_new :: "url_parser \<Rightarrow> utext \<Rightarrow> utext \<Rightarrow> card_provider result" where
  "card_provider_new parse_url organization url =
     and_then (validate_card_text ''agent_card_provider_organization'' organization card_max_provider_name False) (\<lambda>_.
     and_then (validate_https_url parse_url ''agent_card_provider_url'' url) (\<lambda>_.
     Inr \<lparr>cp_organization = organization, cp_url = url\<rparr>))"

record card_extension =
  cx_uri :: utext
  cx_description :: utext
  cx_required :: bool

definition card_extension_new :: "url_parser \<Rightarrow> utext \<Rightarrow> utext \<Rightarrow> bool \<Rightarrow> card_extension result" where
  "card_extension_new parse_url uri description required =
     and_then (ok_or (parse_url uri) (Validation ''agent_card_extension_uri'' ''an absolute URI'')) (\<lambda>u.
     if url_cannot_be_a_base u \<and> url_scheme u \<noteq> lit ''urn''
     then Inl (Validation ''agent_card_extension_uri'' ''an HTTPS URL or a URN'')
     else if url_scheme u \<noteq> lit ''https'' \<and> url_scheme u \<noteq> lit ''urn''
     then Inl (Validation ''agent_card_extension_uri'' ''an HTTPS URL or a URN'')
     else and_then (validate_card_text ''agent_card_extension_description'' description
         card_max_extension_description True) (\<lambda>_.
       Inr \<lparr>cx_uri = uri, cx_description = description, cx_required = required\<rparr>))"

record card_capabilities =
  cc_streaming :: bool
  cc_push_notifications :: bool
  cc_extended_agent_card :: bool
  cc_extensions :: "card_extension list"

definition card_capabilities_new ::
  "bool \<Rightarrow> bool \<Rightarrow> bool \<Rightarrow> card_extension list \<Rightarrow> utext set \<Rightarrow> card_capabilities result" where
  "card_capabilities_new streaming push extended extensions supported =
     and_then (ensure_maximum ''agent_card_extensions'' (length extensions) card_max_extensions) (\<lambda>_.
     and_then (ensure_unique ''agent_card_extension_uri'' (map cx_uri extensions)) (\<lambda>_.
     if list_ex (\<lambda>x. cx_required x \<and> cx_uri x \<notin> supported) extensions
     then Inl (Validation ''agent_card_extensions'' ''an unsupported required extension'')
     else Inr \<lparr>cc_streaming = streaming, cc_push_notifications = push, cc_extended_agent_card = extended,
               cc_extensions = extensions\<rparr>))"

datatype card_security_kind = ApiKey | HttpAuth | OAuth2 | OpenIdConnect | MutualTls

definition card_security_kind_str :: "card_security_kind \<Rightarrow> string" where
  "card_security_kind_str k =
     (case k of ApiKey \<Rightarrow> ''api_key'' | HttpAuth \<Rightarrow> ''http'' | OAuth2 \<Rightarrow> ''oauth2''
      | OpenIdConnect \<Rightarrow> ''open_id_connect'' | MutualTls \<Rightarrow> ''mutual_tls'')"

record card_security_scheme =
  cs_name :: utext
  cs_kind :: card_security_kind

definition card_security_scheme_new :: "utext \<Rightarrow> card_security_kind \<Rightarrow> card_security_scheme result" where
  "card_security_scheme_new name kind =
     and_then (validate_card_text ''agent_card_security_scheme_name'' name card_max_security_scheme_name False) (\<lambda>_.
     Inr \<lparr>cs_name = name, cs_kind = kind\<rparr>)"

record card_skill =
  ck_id :: utext
  ck_name :: utext
  ck_description :: utext
  ck_tags :: "utext list"
  ck_input_modes :: "utext list"
  ck_output_modes :: "utext list"

definition card_skill_new :: "card_skill \<Rightarrow> card_skill result" where
  "card_skill_new s =
     and_then (validate_card_text ''agent_card_skill_id'' (ck_id s) card_max_skill_id False) (\<lambda>_.
     and_then (validate_card_text ''agent_card_skill_name'' (ck_name s) card_max_skill_name False) (\<lambda>_.
     and_then (validate_card_text ''agent_card_skill_description'' (ck_description s)
       card_max_skill_description True) (\<lambda>_.
     and_then (validate_string_set ''agent_card_skill_tags'' (ck_tags s) card_max_tags card_max_tag False) (\<lambda>_.
     and_then (validate_media_modes ''agent_card_skill_input_modes'' (ck_input_modes s)) (\<lambda>_.
     and_then (validate_media_modes ''agent_card_skill_output_modes'' (ck_output_modes s)) (\<lambda>_.
     Inr s))))))"

section \<open>Cards and snapshots\<close>

record agent_card =
  ac_name :: utext
  ac_description :: utext
  ac_provider :: "card_provider option"
  ac_version :: utext
  ac_endpoints :: "card_endpoint list"
  ac_capabilities :: card_capabilities
  ac_security_schemes :: "card_security_scheme list"
  ac_input_modes :: "utext list"
  ac_output_modes :: "utext list"
  ac_skills :: "card_skill list"

definition agent_card_new :: "agent_card \<Rightarrow> agent_card result" where
  "agent_card_new c =
     and_then (validate_card_text ''agent_card_name'' (ac_name c) card_max_name False) (\<lambda>_.
     and_then (validate_card_text ''agent_card_description'' (ac_description c) card_max_description True) (\<lambda>_.
     and_then (validate_card_text ''agent_card_version'' (ac_version c) card_max_version False) (\<lambda>_.
     and_then (ensure_maximum ''agent_card_endpoints'' (length (ac_endpoints c)) card_max_endpoints) (\<lambda>_.
     if ac_endpoints c = [] then Inl (Validation ''agent_card_endpoints'' ''at least one endpoint'')
     else
       and_then (ensure_unique ''agent_card_endpoint'' (map ce_url (ac_endpoints c))) (\<lambda>_.
       and_then (validate_media_modes ''agent_card_default_input_modes'' (ac_input_modes c)) (\<lambda>_.
       and_then (validate_media_modes ''agent_card_default_output_modes'' (ac_output_modes c)) (\<lambda>_.
       and_then (ensure_maximum ''agent_card_skills'' (length (ac_skills c)) card_max_skills) (\<lambda>_.
       and_then (ensure_unique ''agent_card_skill_id'' (map ck_id (ac_skills c))) (\<lambda>_.
       and_then (ensure_maximum ''agent_card_security_schemes'' (length (ac_security_schemes c))
         card_max_security_schemes) (\<lambda>_.
       and_then (ensure_unique ''agent_card_security_scheme_name'' (map cs_name (ac_security_schemes c))) (\<lambda>_.
       Inr c)))))))))))"

definition card_digest_new :: "8 word list \<Rightarrow> 8 word list result" where
  "card_digest_new v =
     (if length v \<noteq> 32 then Inl (Validation ''agent_card_digest'' ''a SHA-256 digest of 32 bytes'') else Inr v)"

definition card_source_url_new :: "url_parser \<Rightarrow> utext \<Rightarrow> utext result" where
  "card_source_url_new parse_url v =
     and_then (validate_https_url parse_url ''agent_card_source_url'' v) (\<lambda>_. Inr v)"

record card_snapshot =
  cn_id :: uuid
  cn_agent_id :: agent_id
  cn_source_url :: utext
  cn_digest :: "8 word list"
  cn_card :: agent_card
  cn_verification :: card_verification
  cn_fetched_at :: utc_millis
  cn_expires_at :: utc_millis

definition card_snapshot_new :: "card_snapshot \<Rightarrow> card_snapshot result" where
  "card_snapshot_new f =
     (if cn_expires_at f \<le> cn_fetched_at f
      then Inl (Validation ''agent_card_expires_at'' ''must be later than the fetch'') else Inr f)"

definition verification_at :: "card_snapshot \<Rightarrow> utc_millis \<Rightarrow> card_verification" where
  "verification_at s now = (if now \<ge> cn_expires_at s then CardExpired else cn_verification s)"

section \<open>Properties\<close>

text \<open>What the URL of an endpoint is after validation.\<close>

definition safe_url :: "url_parser \<Rightarrow> utext \<Rightarrow> bool" where
  "safe_url parse_url v \<longleftrightarrow>
     (\<exists>u. parse_url v = Some u \<and> url_scheme u = lit ''https'' \<and> url_host u \<noteq> None \<and> url_username u = [] \<and>
        url_password u = None \<and> url_fragment u = None) \<and> byte_len v \<le> 2048"

lemma validate_https_url_Inr: "validate_https_url parse_url f v = Inr () \<longleftrightarrow> safe_url parse_url v"
  by (auto simp: validate_https_url_def safe_url_def result_simps card_max_url_def not_less)

lemma endpoint_new_Inr:
  "card_endpoint_new parse_url u t ver ten vf = Inr e \<Longrightarrow>
   ce_url e = u \<and> safe_url parse_url u \<and> ce_protocol_version e = ver \<and> card_version_supported ver"
  by (auto simp: card_endpoint_new_def result_simps validate_https_url_Inr split: if_splits)

text \<open>
  A published card leads only to safe places: whatever the URL parser, an accepted card has
  between one and eight endpoints with different addresses, and when each endpoint came from its
  constructor, each address is an HTTPS URL with a host and without user name, password or fragment
  that speaks protocol version 1.0; a snapshot of it counts as verified only before it expires.
\<close>

theorem card_endpoints_safe:
  assumes "agent_card_new c = Inr accepted_card"
    and "\<forall>e\<in>set (ac_endpoints c). \<exists>u t ver ten vf. card_endpoint_new parse_url u t ver ten vf = Inr e"
    and "card_snapshot_new f = Inr s" and "cn_card f = accepted_card"
  shows "accepted_card = c \<and> 1 \<le> length (ac_endpoints accepted_card) \<and> length (ac_endpoints accepted_card) \<le> 8 \<and>
    distinct (map ce_url (ac_endpoints accepted_card)) \<and>
    (\<forall>e\<in>set (ac_endpoints accepted_card). safe_url parse_url (ce_url e) \<and> ce_protocol_version e = card_v1_0) \<and>
    (verification_at s now = CardVerified \<longrightarrow> now < cn_expires_at s \<and> cn_verification f = CardVerified)"
proof -
  have c: "accepted_card = c" "ac_endpoints c \<noteq> []" "length (ac_endpoints c) \<le> 8" "distinct (map ce_url (ac_endpoints c))"
    using assms(1)
    by (auto simp: agent_card_new_def result_simps ensure_maximum_def ensure_unique_def card_max_endpoints_def
        split: if_splits)
  moreover have "safe_url parse_url (ce_url e) \<and> ce_protocol_version e = card_v1_0"
    if e: "e \<in> set (ac_endpoints c)" for e
  proof -
    obtain u t ver ten vf where "card_endpoint_new parse_url u t ver ten vf = Inr e"
      using assms(2) e by blast
    from endpoint_new_Inr [OF this] show ?thesis by (auto simp: card_version_supported_def card_v1_0_def)
  qed
  moreover have "s = f" using assms(3) by (auto simp: card_snapshot_new_def split: if_splits)
  ultimately show ?thesis
    by (cases "ac_endpoints c") (auto simp: verification_at_def not_le split: if_splits)
qed

definition sample_parse_url :: url_parser where
  "sample_parse_url v =
     (if starts_with (lit ''https://'') v
      then Some \<lparr>url_scheme = lit ''https'', url_host = Some (drop 8 v), url_username = [], url_password = None,
                 url_fragment = None, url_cannot_be_a_base = False\<rparr>
      else None)"

definition sample_endpoint :: card_endpoint where
  "sample_endpoint =
     \<lparr>ce_url = lit ''https://a'', ce_transport = JsonRpc, ce_protocol_version = card_v1_0, ce_tenant = None,
      ce_verification = EndpointDeclared\<rparr>"

definition sample_card :: agent_card where
  "sample_card =
     \<lparr>ac_name = lit ''a'', ac_description = [], ac_provider = None, ac_version = lit ''1'',
      ac_endpoints = [sample_endpoint],
      ac_capabilities = \<lparr>cc_streaming = False, cc_push_notifications = False, cc_extended_agent_card = False,
        cc_extensions = []\<rparr>,
      ac_security_schemes = [], ac_input_modes = [], ac_output_modes = [], ac_skills = []\<rparr>"

definition sample_snapshot :: card_snapshot where
  "sample_snapshot =
     \<lparr>cn_id = 1, cn_agent_id = 2, cn_source_url = lit ''https://a'', cn_digest = [], cn_card = sample_card,
      cn_verification = CardVerified, cn_fetched_at = UtcMillis 10, cn_expires_at = UtcMillis 20\<rparr>"

theorem card_endpoints_safe_witness:
  "safe_url sample_parse_url (ce_url sample_endpoint)"
proof -
  have c: "agent_card_new sample_card = Inr sample_card"
    by (simp add: agent_card_new_def sample_card_def validate_card_text_def ensure_maximum_def ensure_unique_def
        validate_media_modes_def validate_string_set_def lit_def is_control_def card_limits
        trim_def trim_by_def trim_start_by_def trim_end_by_def is_whitespace_def)
  have s: "card_snapshot_new sample_snapshot = Inr sample_snapshot"
    by (simp add: card_snapshot_new_def sample_snapshot_def)
  have e: "card_endpoint_new sample_parse_url (lit ''https://a'') JsonRpc card_v1_0 None EndpointDeclared =
      Inr sample_endpoint"
    by (simp add: card_endpoint_new_def validate_https_url_def sample_parse_url_def starts_with_def lit_def
        utf8_width_def card_max_url_def card_version_supported_def sample_endpoint_def)
  have "\<forall>e\<in>set (ac_endpoints sample_card). \<exists>u t ver ten vf. card_endpoint_new sample_parse_url u t ver ten vf = Inr e"
    by (simp add: sample_card_def) (intro exI, rule e)
  from card_endpoints_safe [OF c this s] show ?thesis by (simp add: sample_snapshot_def sample_card_def)
qed

end
