(* ===== verification/Device_Proofs.thy ===== *)
theory Device_Proofs
  imports Texts Utc_Clock
begin

text \<open>
  The proofs of possession a device signs (first half of
  \<^verbatim>\<open>crates/application/src/devices.rs\<close>): the payload of a request proof with its
  limits, the canonical texts that are signed for a request and for a registration, and the time window
  in which a proof is accepted. The digest and the printing of identifiers belong to libraries: the
  texts take the printed identifier as an argument.
\<close>

section \<open>Secrets and payloads\<close>

definition secret_value_new :: "utext \<Rightarrow> utext option" where
  "secret_value_new v = (if v = [] \<or> byte_len v > 4096 \<or> 0 \<in> set v then None else Some v)"

datatype proof_error = InvalidMethod | InvalidRequestTarget | InvalidNonce

record proof_payload =
  pf_device_id :: device_id
  pf_issued_at :: utc_millis
  pf_nonce :: utext
  pf_method :: utext
  pf_target :: utext
  pf_body_digest :: "8 word list"

definition proof_payload_new ::
  "device_id \<Rightarrow> utc_millis \<Rightarrow> utext \<Rightarrow> utext \<Rightarrow> utext \<Rightarrow> 8 word list \<Rightarrow> proof_error + proof_payload" where
  "proof_payload_new device_id issued_at nonce method_name target body_digest =
     (if method_name = [] \<or> byte_len method_name > 16 \<or> \<not> list_all is_ascii_upper method_name then Inl InvalidMethod
      else if target = [] \<or> byte_len target > 2048 \<or> \<not> starts_with (lit ''/'') target \<or>
              starts_with (lit ''//'') target \<or> 92 \<in> set target \<or> 35 \<in> set target \<or>
              list_ex is_control target then Inl InvalidRequestTarget
      else if byte_len nonce < 16 \<or> byte_len nonce > 256 then Inl InvalidNonce
      else Inr \<lparr>pf_device_id = device_id, pf_issued_at = issued_at, pf_nonce = nonce,
                pf_method = method_name, pf_target = target, pf_body_digest = body_digest\<rparr>)"

record device_proof =
  px_payload :: proof_payload
  px_signature :: "8 word list"

section \<open>The signed texts\<close>

definition hex_digit :: "nat \<Rightarrow> nat" where
  "hex_digit n = (if n < 10 then 48 + n else 87 + n)"

definition encode_hex :: "8 word list \<Rightarrow> utext" where
  "encode_hex bytes = concat (map (\<lambda>b. [hex_digit (unat b div 16), hex_digit (unat b mod 16)]) bytes)"

fun nat_text :: "nat \<Rightarrow> utext" where
  "nat_text n = (if n < 10 then [48 + n] else nat_text (n div 10) @ [48 + n mod 10])"

definition int_text :: "int \<Rightarrow> utext" where
  "int_text v = (if v < 0 then 45 # nat_text (nat (- v)) else nat_text (nat v))"

declare nat_text.simps [simp del]

definition canonical_device_request_message :: "utext \<Rightarrow> proof_payload \<Rightarrow> 8 word list \<Rightarrow> utext" where
  "canonical_device_request_message device_text p credential_digest =
     lit ''agent-room-device-request-v1'' @ 10 # device_text @ 10 # pf_method p @ 10 # pf_target p @
     10 # encode_hex (pf_body_digest p) @ 10 # int_text (utc_value (pf_issued_at p)) @
     10 # pf_nonce p @ 10 # encode_hex credential_digest"

definition canonical_device_registration_message ::
  "8 word list \<Rightarrow> utext \<Rightarrow> utext \<Rightarrow> 8 word list \<Rightarrow> utext" where
  "canonical_device_registration_message authorization_digest label platform_text public_key =
     lit ''agent-room-device-registration-v1'' @ 10 # encode_hex authorization_digest @ 10 # label @
     10 # platform_text @ 10 # encode_hex public_key"

section \<open>When a proof is accepted\<close>

text \<open>
  \<^verbatim>\<open>validate_proof_time\<close> and \<^verbatim>\<open>validate_device_authorization_time\<close> are the same window with different
  maximum ages; an overflow of the clock is an internal failure.
\<close>

datatype time_check = TimeAccepted | TimeOutside | TimeOverflowed

definition validate_time_window ::
  "utc_millis \<Rightarrow> utc_millis \<Rightarrow> duration_millis \<Rightarrow> duration_millis \<Rightarrow> time_check" where
  "validate_time_window issued_at now maximum_age clock_skew =
     (case utc_checked_add now clock_skew of
        Inl _ \<Rightarrow> TimeOverflowed
      | Inr latest_allowed \<Rightarrow>
          (case and_then (utc_checked_add issued_at maximum_age) (\<lambda>v. utc_checked_add v clock_skew) of
             Inl _ \<Rightarrow> TimeOverflowed
           | Inr expires_at \<Rightarrow>
               if issued_at > latest_allowed \<or> now > expires_at then TimeOutside else TimeAccepted))"

section \<open>Lemmas\<close>

lemma proof_payload_new_Inr:
  "proof_payload_new d t n m r b = Inr p \<Longrightarrow>
     p = \<lparr>pf_device_id = d, pf_issued_at = t, pf_nonce = n, pf_method = m, pf_target = r, pf_body_digest = b\<rparr> \<and>
     (\<forall>c\<in>set m. is_ascii_upper c) \<and> (\<forall>c\<in>set r. \<not> is_control c) \<and> 16 \<le> byte_len n \<and> byte_len n \<le> 256"
  by (auto simp: proof_payload_new_def list_all_iff list_ex_iff split: if_splits)

lemma length_encode_hex [simp]: "length (encode_hex bs) = 2 * length bs"
  by (induction bs) (simp_all add: encode_hex_def)

lemma hex_digit_inject: "m < 16 \<Longrightarrow> n < 16 \<Longrightarrow> hex_digit m = hex_digit n \<longleftrightarrow> m = n"
  by (auto simp: hex_digit_def split: if_splits)

lemma hex_pair_inject:
  fixes a b :: "8 word"
  assumes "hex_digit (unat a div 16) = hex_digit (unat b div 16)"
    and "hex_digit (unat a mod 16) = hex_digit (unat b mod 16)"
  shows "a = b"
proof -
  have "unat x < 256" for x :: "8 word" using unsigned_less [of x] by simp
  then have "unat x div 16 < 16" for x :: "8 word" by (simp add: less_mult_imp_div_less)
  then have "unat a div 16 = unat b div 16" "unat a mod 16 = unat b mod 16"
    using assms hex_digit_inject by simp_all
  then have "unat a = unat b" by (metis div_mult_mod_eq)
  then show ?thesis by (rule unsigned_word_eqI)
qed

lemma encode_hex_inject: "encode_hex as = encode_hex bs \<Longrightarrow> as = bs"
proof (induction as arbitrary: bs)
  case Nil
  then show ?case by (cases bs) (simp_all add: encode_hex_def)
next
  case (Cons a as)
  then obtain b cs where bs: "bs = b # cs" by (cases bs) (simp_all add: encode_hex_def)
  with Cons show ?case by (auto simp: encode_hex_def intro: hex_pair_inject)
qed

lemma hex_no_newline: "10 \<notin> set (encode_hex bs)"
  by (auto simp: encode_hex_def hex_digit_def split: if_splits)

lemma nat_text_digits: "\<forall>c\<in>set (nat_text n). 48 \<le> c \<and> c \<le> 57"
proof (induction n rule: nat_text.induct)
  case (1 n)
  then show ?case by (subst nat_text.simps) auto
qed

definition text_nat :: "utext \<Rightarrow> nat" where
  "text_nat s = foldl (\<lambda>acc c. acc * 10 + (c - 48)) 0 s"

lemma text_nat_nat_text [simp]: "text_nat (nat_text n) = n"
proof (induction n rule: nat_text.induct)
  case (1 n)
  show ?case
  proof (cases "n < 10")
    case True
    then show ?thesis by (subst nat_text.simps) (simp add: text_nat_def)
  next
    case False
    have "text_nat (nat_text n) = text_nat (nat_text (n div 10)) * 10 + n mod 10"
      using False by (subst nat_text.simps) (simp add: text_nat_def)
    then show ?thesis using 1 False by simp
  qed
qed

lemma nat_text_inject: "nat_text m = nat_text n \<longleftrightarrow> m = n"
  by (metis text_nat_nat_text)

lemma int_text_inject: "int_text a = int_text b \<longleftrightarrow> a = b"
proof -
  have "45 \<notin> set (nat_text n)" for n using nat_text_digits [of n] by auto
  then have "45 # nat_text m \<noteq> nat_text n" for m n by (metis list.set_intros(1))
  then show ?thesis by (auto simp: int_text_def nat_text_inject dest: sym)
qed

lemma int_text_no_newline: "10 \<notin> set (int_text v)"
proof -
  have "10 \<notin> set (nat_text n)" for n using nat_text_digits [of n] by auto
  then show ?thesis by (simp add: int_text_def)
qed

text \<open>A line without a line feed in it can be taken off the front of a text in one way.\<close>

lemma line_inject:
  assumes "a @ 10 # x = b @ 10 # (y :: utext)" and "10 \<notin> set a" and "10 \<notin> set b"
  shows "a = b \<and> x = y"
  using assms by (induction a arbitrary: b) (auto simp: Cons_eq_append_conv append_eq_Cons_conv)

lemma tail_inject:
  assumes "a @ 10 # x = b @ 10 # (y :: utext)" and "length x = length y"
  shows "a = b \<and> x = y"
  using assms by (metis append_eq_append_conv length_Cons list.inject)

lemma printable_no_newline:
  "\<forall>c\<in>set s. is_ascii_upper c \<Longrightarrow> 10 \<notin> set s" "\<forall>c\<in>set s. \<not> is_control c \<Longrightarrow> 10 \<notin> set s"
  by (auto simp: is_ascii_upper_def is_control_def)

section \<open>Properties\<close>

text \<open>
  A signature on a request proof binds everything in it: two accepted payloads have the same
  signed text only if device, method, target, body digest, time, nonce and credential digest are all
  the same, although the nonce may hold any characters.
\<close>

theorem request_message_binds:
  assumes "proof_payload_new d t n m r b = Inr p" and "proof_payload_new d' t' n' m' r' b' = Inr q"
    and "\<And>x. 10 \<notin> set (show_id x)" and "inj show_id"
    and "length digest = 32" and "length digest' = 32"
    and "canonical_device_request_message (show_id d) p digest =
         canonical_device_request_message (show_id d') q digest'"
  shows "p = q \<and> digest = digest'"
proof -
  note p = proof_payload_new_Inr [OF assms(1)] and q = proof_payload_new_Inr [OF assms(2)]
  have "show_id d @ 10 # m @ 10 # r @ 10 # encode_hex b @ 10 # int_text (utc_value t) @ 10 # n @ 10 # encode_hex digest =
        show_id d' @ 10 # m' @ 10 # r' @ 10 # encode_hex b' @ 10 # int_text (utc_value t') @ 10 # n' @ 10 # encode_hex digest'"
    using assms(7) p q by (simp add: canonical_device_request_message_def)
  note 1 = line_inject [OF this assms(3) assms(3)]
  note 2 = line_inject [OF conjunct2 [OF 1] printable_no_newline(1) printable_no_newline(1)]
  have 2: "m = m' \<and> r @ 10 # encode_hex b @ 10 # int_text (utc_value t) @ 10 # n @ 10 # encode_hex digest =
      r' @ 10 # encode_hex b' @ 10 # int_text (utc_value t') @ 10 # n' @ 10 # encode_hex digest'"
    using 2 p q by blast
  note 3 = line_inject [OF conjunct2 [OF 2] printable_no_newline(2) printable_no_newline(2)]
  have 3: "r = r' \<and> encode_hex b @ 10 # int_text (utc_value t) @ 10 # n @ 10 # encode_hex digest =
      encode_hex b' @ 10 # int_text (utc_value t') @ 10 # n' @ 10 # encode_hex digest'"
    using 3 p q by blast
  note 4 = line_inject [OF conjunct2 [OF 3] hex_no_newline hex_no_newline]
  note 5 = line_inject [OF conjunct2 [OF 4] int_text_no_newline int_text_no_newline]
  note 6 = tail_inject [OF conjunct2 [OF 5]]
  show ?thesis
    using 1 2 3 4 5 6 p q assms(4-6)
    by (auto simp: int_text_inject inj_eq utc_millis.expand dest: encode_hex_inject)
qed

theorem request_message_binds_witness:
  "\<exists>p. proof_payload_new 3 (UtcMillis 7) (replicate 16 97) [71, 69, 84] [47, 97] (replicate 32 1) = Inr p \<and>
     (\<forall>q. proof_payload_new 4 (UtcMillis 7) (replicate 16 97) [71, 69, 84] [47, 97] (replicate 32 1) = Inr q \<longrightarrow>
        canonical_device_request_message [48 + unat (3 :: device_id)] p (replicate 32 2) \<noteq>
        canonical_device_request_message [48 + unat (4 :: device_id)] q (replicate 32 2))"
proof -
  let ?show = "\<lambda>x :: device_id. [48 + unat x]"
  have i: "inj ?show" by (rule injI) (simp add: unsigned_word_eqI)
  obtain p where p: "proof_payload_new 3 (UtcMillis 7) (replicate 16 97) [71, 69, 84] [47, 97] (replicate 32 1) = Inr p"
    "pf_device_id p = 3"
    by (simp add: proof_payload_new_def utf8_width_def is_ascii_upper_def starts_with_def lit_def is_control_def
        byte_len_ascii)
  have "canonical_device_request_message (?show 3) p (replicate 32 2) \<noteq>
      canonical_device_request_message (?show 4) q (replicate 32 2)"
    if q: "proof_payload_new 4 (UtcMillis 7) (replicate 16 97) [71, 69, 84] [47, 97] (replicate 32 1) = Inr q" for q
  proof
    assume "canonical_device_request_message (?show 3) p (replicate 32 2) =
      canonical_device_request_message (?show 4) q (replicate 32 2)"
    then have "p = q" using request_message_binds [OF p(1) q _ i, of "replicate 32 2" "replicate 32 2"] by simp
    then show False using p(2) proof_payload_new_Inr [OF q] by simp
  qed
  then show ?thesis using p(1) by blast
qed

text \<open>
  The same for a registration: the signed text determines the authorization it was made for, the
  label, the platform and the key.
\<close>

theorem registration_message_binds:
  assumes "\<forall>c\<in>set label. \<not> is_control c" and "\<forall>c\<in>set label'. \<not> is_control c"
    and "\<forall>c\<in>set platform_text. \<not> is_control c" and "\<forall>c\<in>set platform_text'. \<not> is_control c"
    and "canonical_device_registration_message digest label platform_text key =
         canonical_device_registration_message digest' label' platform_text' key'"
  shows "digest = digest' \<and> label = label' \<and> platform_text = platform_text' \<and> key = key'"
proof -
  have "encode_hex digest @ 10 # label @ 10 # platform_text @ 10 # encode_hex key =
        encode_hex digest' @ 10 # label' @ 10 # platform_text' @ 10 # encode_hex key'"
    using assms(5) by (simp add: canonical_device_registration_message_def)
  note 1 = line_inject [OF this hex_no_newline hex_no_newline]
  note 2 = line_inject [OF conjunct2 [OF 1] printable_no_newline(2) [OF assms(1)] printable_no_newline(2) [OF assms(2)]]
  note 3 = line_inject [OF conjunct2 [OF 2] printable_no_newline(2) [OF assms(3)] printable_no_newline(2) [OF assms(4)]]
  show ?thesis using 1 2 3 encode_hex_inject by blast
qed

theorem registration_message_binds_witness:
  "canonical_device_registration_message [1] [97] [98] [2] \<noteq>
   canonical_device_registration_message [1] [97, 98] [98] [2]"
proof
  assume "canonical_device_registration_message [1] [97] [98] [2] =
    canonical_device_registration_message [1] [97, 98] [98] [2]"
  then have "[97] = [97 :: nat, 98]"
    using registration_message_binds [of "[97]" "[97, 98]" "[98]" "[98]" "[1]" "[2]" "[1]" "[2]"]
    by (simp add: is_control_def)
  then show False by simp
qed

lemma time_window_accepted:
  "validate_time_window issued now maximum_age skew = TimeAccepted \<Longrightarrow>
     utc_value issued \<le> utc_value now + duration_value skew \<and>
     utc_value now \<le> utc_value issued + duration_value maximum_age + duration_value skew"
  by (auto simp: validate_time_window_def result_simps clock_order dest!: utc_checked_add_value
      split: sum.splits if_splits)

end
