(* ===== verification/Tables.thy ===== *)
theory Tables
  imports Prelude
begin

text \<open>
  The PostgreSQL tables the adapters work on: a table is the list of its rows, and the statements
  of the adapters are written with the combinators below. \<open>INSERT\<close> appends a row unless a
  \<^verbatim>\<open>CHECK\<close> or a unique index refuses it, \<open>UPDATE ... WHERE\<close> rewrites the rows that
  match and fails as a whole when a rewritten row violates a \<^verbatim>\<open>CHECK\<close>.

  A transaction body is a function from the stored tables to an error, or a result with the tables
  it leaves; an error anywhere rolls the transaction back. The kinds of errors are those of
  \<^verbatim>\<open>persistence.rs\<close>, classified as \<^verbatim>\<open>postgres-adapter/src/error.rs\<close> classifies the
  codes of the database (\<^verbatim>\<open>23505\<close> is a conflict, \<^verbatim>\<open>23514\<close> a violated constraint). The
  operation labels of the errors are only for logs and are left out.
\<close>

section \<open>Errors of the store\<close>

datatype repository_error =
  Conflict | Constraint | RepoForbidden | NotFound | Unavailable | CorruptData

type_synonym 'a repository_result = "repository_error + 'a"

text \<open>What the driver reports: no row, a value it cannot decode, a code of the database, or anything else.\<close>

datatype sqlx_error = RowNotFound | DecodeError | DatabaseError "string option" | OtherSqlxError

definition classify_database_error :: "string option \<Rightarrow> repository_error" where
  "classify_database_error code =
     (case code of
        None \<Rightarrow> Unavailable
      | Some c \<Rightarrow>
          if c \<in> {''23505'', ''40001'', ''40P01''} then Conflict
          else if c \<in> {''23502'', ''23503'', ''23514'', ''23P01''} then Constraint
          else Unavailable)"

definition map_sqlx_error :: "sqlx_error \<Rightarrow> repository_error" where
  "map_sqlx_error e =
     (case e of
        RowNotFound \<Rightarrow> NotFound
      | DecodeError \<Rightarrow> CorruptData
      | DatabaseError code \<Rightarrow> classify_database_error code
      | OtherSqlxError \<Rightarrow> Unavailable)"

definition map_domain_error :: "domain_error \<Rightarrow> repository_error" where
  "map_domain_error e =
     (case e of
        Forbidden _ \<Rightarrow> RepoForbidden
      | _ \<Rightarrow> Constraint)"

definition or_corrupt :: "'a result \<Rightarrow> 'a repository_result" where
  "or_corrupt r = (case r of Inl _ \<Rightarrow> Inl CorruptData | Inr x \<Rightarrow> Inr x)"

lemma or_corrupt_Inr [simp]: "or_corrupt r = Inr x \<longleftrightarrow> r = Inr x"
  by (cases r) (simp_all add: or_corrupt_def)

lemma or_corrupt_simps [simp]: "or_corrupt (Inr x) = Inr x" "or_corrupt (Inl e) = Inl CorruptData"
  by (simp_all add: or_corrupt_def)

section \<open>Statements\<close>

definition update_where :: "('r \<Rightarrow> bool) \<Rightarrow> ('r \<Rightarrow> 'r) \<Rightarrow> 'r list \<Rightarrow> 'r list" where
  "update_where p f rows = map (\<lambda>r. if p r then f r else r) rows"

definition update_checked ::
  "('r \<Rightarrow> bool) \<Rightarrow> ('r \<Rightarrow> bool) \<Rightarrow> ('r \<Rightarrow> 'r) \<Rightarrow> 'r list \<Rightarrow> 'r list repository_result" where
  "update_checked check p f rows =
     (if list_ex (\<lambda>r. p r \<and> \<not> check (f r)) rows then Inl Constraint else Inr (update_where p f rows))"

definition insert_row ::
  "('r \<Rightarrow> bool) \<Rightarrow> ('r \<Rightarrow> bool) \<Rightarrow> 'r \<Rightarrow> 'r list \<Rightarrow> 'r list repository_result" where
  "insert_row check clashes r rows =
     (if \<not> check r then Inl Constraint
      else if list_ex clashes rows then Inl Conflict
      else Inr (rows @ [r]))"

definition delete_where :: "('r \<Rightarrow> bool) \<Rightarrow> 'r list \<Rightarrow> 'r list" where
  "delete_where p rows = filter (\<lambda>r. \<not> p r) rows"

definition rows_where :: "('r \<Rightarrow> bool) \<Rightarrow> 'r list \<Rightarrow> nat" where
  "rows_where p rows = length (filter p rows)"

section \<open>Transactions\<close>

type_synonym ('a, 's) transaction = "'s \<Rightarrow> repository_error + 'a \<times> 's"

text \<open>\<open>exec m k s\<close> runs \<open>m\<close> and continues with its result in the state it leaves.\<close>

definition exec :: "('a, 's) transaction \<Rightarrow> ('a \<Rightarrow> ('b, 's) transaction) \<Rightarrow> ('b, 's) transaction" where
  "exec m k s = (case m s of Inl e \<Rightarrow> Inl e | Inr (x, t) \<Rightarrow> k x t)"

definition done_with :: "'a \<Rightarrow> ('a, 's) transaction" where
  "done_with x s = Inr (x, s)"

definition abort :: "repository_error \<Rightarrow> ('a, 's) transaction" where
  "abort e s = Inl e"

definition query :: "('s \<Rightarrow> 'a repository_result) \<Rightarrow> ('a, 's) transaction" where
  "query f s = map_sum id (\<lambda>x. (x, s)) (f s)"

definition execute :: "('s \<Rightarrow> 's repository_result) \<Rightarrow> (unit, 's) transaction" where
  "execute f s = map_sum id (\<lambda>t. ((), t)) (f s)"

text \<open>
  The server and the connection may fail at any moment. A failure before the commit takes effect
  (connection lost, statement refused, serialisation failure, deadlock) leaves the tables as they
  were; a failure after it leaves the effect and loses the acknowledgement.
\<close>

datatype store_fault = NoFault | BeforeCommit sqlx_error | AfterCommit sqlx_error

definition run_transaction ::
  "store_fault \<Rightarrow> ('a, 's) transaction \<Rightarrow> 's \<Rightarrow> 'a repository_result \<times> 's" where
  "run_transaction fault body s =
     (case fault of
        BeforeCommit e \<Rightarrow> (Inl (map_sqlx_error e), s)
      | NoFault \<Rightarrow> (case body s of Inl e \<Rightarrow> (Inl e, s) | Inr (x, t) \<Rightarrow> (Inr x, t))
      | AfterCommit e \<Rightarrow>
          (case body s of Inl e' \<Rightarrow> (Inl e', s) | Inr (_, t) \<Rightarrow> (Inl (map_sqlx_error e), t)))"

section \<open>Lemmas\<close>

named_theorems transaction_simps "normal forms of transactions that return"

lemma exec_Inr [transaction_simps]:
  "exec m k s = Inr (y, u) \<longleftrightarrow> (\<exists>x t. m s = Inr (x, t) \<and> k x t = Inr (y, u))"
  by (auto simp: exec_def split: sum.splits)

lemma done_with_Inr [transaction_simps]: "done_with x s = Inr (y, t) \<longleftrightarrow> y = x \<and> t = s"
  by (auto simp: done_with_def)

lemma abort_Inr [transaction_simps]: "abort e s = Inr r \<longleftrightarrow> False"
  by (simp add: abort_def)

lemma query_Inr [transaction_simps]: "query f s = Inr (x, t) \<longleftrightarrow> f s = Inr x \<and> t = s"
  by (cases "f s") (auto simp: query_def)

lemma execute_Inr [transaction_simps]: "execute f s = Inr (u, t) \<longleftrightarrow> f s = Inr t"
  by (cases "f s") (auto simp: execute_def)

lemma run_transaction_state:
  "snd (run_transaction fault body s) = s \<or> (\<exists>x. body s = Inr (x, snd (run_transaction fault body s)))"
  by (auto simp: run_transaction_def split: store_fault.splits sum.splits)

lemma run_transaction_Inr:
  "run_transaction fault body s = (Inr x, t) \<longleftrightarrow> fault = NoFault \<and> body s = Inr (x, t)"
  by (auto simp: run_transaction_def split: store_fault.splits sum.splits)

lemma update_checked_Inr [transaction_simps]:
  "update_checked check p f rows = Inr out \<longleftrightarrow>
     out = update_where p f rows \<and> (\<forall>r\<in>set rows. p r \<longrightarrow> check (f r))"
  by (auto simp: update_checked_def list_ex_iff)

lemma insert_row_Inr [transaction_simps]:
  "insert_row check clashes r rows = Inr out \<longleftrightarrow>
     check r \<and> (\<forall>x\<in>set rows. \<not> clashes x) \<and> out = rows @ [r]"
  by (auto simp: insert_row_def list_ex_iff)

lemma set_update_where: "set (update_where p f rows) = (\<lambda>r. if p r then f r else r) ` set rows"
  by (simp add: update_where_def)

lemma update_where_id: "(\<And>r. r \<in> set rows \<Longrightarrow> \<not> p r) \<Longrightarrow> update_where p f rows = rows"
  by (auto simp: update_where_def intro!: map_idI)

lemma map_update_where:
  "(\<And>r. g (f r) = g r) \<Longrightarrow> map g (update_where p f rows) = map g rows"
  by (simp add: update_where_def)

lemma set_delete_where [simp]: "set (delete_where p rows) = {r \<in> set rows. \<not> p r}"
  by (auto simp: delete_where_def)

text \<open>Looking a row up by a key that the table holds once.\<close>

lemma find_unique:
  assumes "distinct (map key rows)" and "r \<in> set rows"
  shows "List.find (\<lambda>x. key x = key r) rows = Some r"
  using assms by (induction rows) (auto simp: rev_image_eqI)

lemma find_member: "List.find p rows = Some r \<Longrightarrow> r \<in> set rows \<and> p r"
  by (induction rows) (auto split: if_splits)

lemma find_none: "List.find p rows = None \<longleftrightarrow> (\<forall>r\<in>set rows. \<not> p r)"
  by (induction rows) auto

lemma find_key_iff:
  assumes "distinct (map key rows)"
  shows "List.find (\<lambda>x. key x = k) rows = Some r \<longleftrightarrow> r \<in> set rows \<and> key r = k"
  using find_unique [OF assms] find_member [of "\<lambda>x. key x = k" rows r] by auto

lemma key_inject:
  "distinct (map key rows) \<Longrightarrow> r \<in> set rows \<Longrightarrow> r' \<in> set rows \<Longrightarrow> key r = key r' \<Longrightarrow> r = r'"
  by (auto simp: distinct_map inj_on_def)

end
