(* ===== verification/Device_Tables.thy ===== *)
theory Device_Tables
  imports Tables Principals Devices Agent_Instances Room_Catalog Room_Reservations Targeted_Handoffs
begin

text \<open>
  The tables of device authorisation and the transactions on them
  (\<^verbatim>\<open>crates/postgres-adapter/src/devices.rs\<close>, \<^verbatim>\<open>computer_grants.rs\<close>, with the parts
  of \<^verbatim>\<open>authentication.rs\<close>, \<^verbatim>\<open>handoffs/targeted.rs\<close> and
  \<^verbatim>\<open>rooms/departures.rs\<close> that they call): registration of a device, lookup of access
  tokens, rotation of refresh tokens with replay of an unacknowledged rotation, detection of reuse,
  one-time nonces, revocation with its cascade.

  Times are stored to the millisecond and read back as written. The text columns that hold
  the names of enumerations are represented by the enumerations (their codecs are in the theories of the
  components); a row is decoded by the restoring constructor of its type. The \<^verbatim>\<open>CHECK\<close>s
  that order times and the unique indexes are part of the statements below; the ones on the format of a
  single column (lengths, version nibble of identifiers) and the foreign keys are not.
\<close>

section \<open>Rows\<close>

type_synonym secret_digest = "8 word list"
type_synonym secret_value = utext
type_synonym refresh_attempt_id = uuid
type_synonym replay_salt = "8 word list"

record principal_account =
  pa_principal :: principal
  pa_matrix_user_id :: utext
  pa_display_name :: utext
  pa_avatar_content_id :: "content_id option"
  pa_locale :: utext

record principal_registration =
  pg_account :: principal_account
  pg_oidc_issuer :: utext
  pg_oidc_subject :: utext
  pg_registered_at :: utc_millis

record device_row =
  dr_device :: device
  dr_verified_at :: "utc_millis option"
  dr_version :: int

record refresh_row =
  rt_id :: uuid
  rt_family_id :: device_token_family_id
  rt_digest :: secret_digest
  rt_sequence :: int
  rt_issued_at :: utc_millis
  rt_expires_at :: utc_millis
  rt_consumed_at :: "utc_millis option"
  rt_replaced_by :: "uuid option"
  rt_revoked_at :: "utc_millis option"

record access_row =
  at_id :: uuid
  at_family_id :: device_token_family_id
  at_device_id :: device_id
  at_digest :: secret_digest
  at_issued_at :: utc_millis
  at_expires_at :: utc_millis
  at_revoked_at :: "utc_millis option"

record attempt_row =
  ra_refresh_id :: uuid
  ra_attempt_id :: refresh_attempt_id
  ra_successor_id :: uuid
  ra_access_id :: uuid
  ra_salt :: "replay_salt option"
  ra_created_at :: utc_millis

record nonce_row =
  nn_device_id :: device_id
  nn_digest :: secret_digest
  nn_consumed_at :: utc_millis
  nn_expires_at :: utc_millis

record receipt_row =
  rc_digest :: secret_digest
  rc_principal_id :: principal_id
  rc_device_id :: device_id
  rc_consumed_at :: utc_millis
  rc_expires_at :: utc_millis

record computer_grant =
  cg_digest :: secret_digest
  cg_principal_id :: principal_id
  cg_authenticated_at :: utc_millis
  cg_created_at :: utc_millis
  cg_expires_at :: utc_millis

text \<open>The columns of the other components' tables that the revocation of a device reads or writes.\<close>

record instance_row =
  in_id :: agent_instance_id
  in_agent_id :: agent_id
  in_device_id :: device_id
  in_matrix_device_id :: utext
  in_status :: instance_status
  in_lease_expires_at :: "utc_millis option"
  in_revoked_at :: "utc_millis option"
  in_matrix_revoked_at :: "utc_millis option"

record handoff_row =
  hr_id :: handoff_id
  hr_target_instance_id :: agent_instance_id
  hr_status :: targeted_status
  hr_expires_at :: utc_millis
  hr_queued_at :: "utc_millis option"
  hr_delivered_at :: "utc_millis option"
  hr_resolved_at :: "utc_millis option"
  hr_failure_code :: "utext option"
  hr_version :: int

record reservation_row =
  rs_agent_id :: agent_id
  rs_agent_instance_id :: agent_instance_id
  rs_room_instance_id :: room_instance_id
  rs_catalog_id :: room_catalog_id
  rs_state :: reservation_state

record departure_row =
  dp_agent_id :: agent_id
  dp_room_instance_id :: room_instance_id
  dp_device_id :: device_id
  dp_requested_at :: utc_millis
  dp_next_attempt_at :: utc_millis

record device_store =
  st_principals :: "principal_registration list"
  st_devices :: "device_row list"
  st_families :: "token_family list"
  st_refresh :: "refresh_row list"
  st_access :: "access_row list"
  st_attempts :: "attempt_row list"
  st_nonces :: "nonce_row list"
  st_receipts :: "receipt_row list"
  st_grants :: "computer_grant list"
  st_instances :: "instance_row list"
  st_matrix_users :: "(agent_id \<times> utext) list"
  st_handoffs :: "handoff_row list"
  st_reservations :: "reservation_row list"
  st_catalog_kinds :: "(room_catalog_id \<times> room_catalog_kind) list"
  st_network_instances :: "agent_instance_id list"
  st_departures :: "departure_row list"

type_synonym 'a device_txn = "('a, device_store) transaction"

section \<open>Decoding\<close>

definition decode_principal_account :: "principal_registration \<Rightarrow> principal_account repository_result" where
  "decode_principal_account r =
     (let a = pg_account r; p = pa_principal a
      in and_then (or_corrupt (version_new (version_value (pp_version p)))) (\<lambda>v.
         Inr (a\<lparr>pa_principal := principal_restore (pp_id p) (pp_status p) v\<rparr>)))"

definition decode_device :: "device_row \<Rightarrow> device repository_result" where
  "decode_device r = or_corrupt (device_restore (dr_device r))"

definition decode_token_family :: "token_family \<Rightarrow> token_family repository_result" where
  "decode_token_family f =
     or_corrupt (and_then (family_restore f) (\<lambda>g.
       case fm_authenticated_at f of
         None \<Rightarrow> Inr g
       | Some t \<Rightarrow> with_authenticated_at t g))"

record stored_session =
  ss_account :: principal_account
  ss_device :: device
  ss_family :: token_family
  ss_access_expires_at :: utc_millis

text \<open>
  The joins from a family to its device and its principal. Each is over a primary key, so at most one
  row joins.
\<close>

definition find_family :: "device_store \<Rightarrow> device_token_family_id \<Rightarrow> token_family option" where
  "find_family s i = List.find (\<lambda>f. fm_id f = i) (st_families s)"

definition find_device :: "device_store \<Rightarrow> device_id \<Rightarrow> device_row option" where
  "find_device s i = List.find (\<lambda>d. dv_id (dr_device d) = i) (st_devices s)"

definition find_principal :: "device_store \<Rightarrow> principal_id \<Rightarrow> principal_registration option" where
  "find_principal s i = List.find (\<lambda>p. pp_id (pa_principal (pg_account p)) = i) (st_principals s)"

definition join_family ::
  "device_store \<Rightarrow> device_token_family_id \<Rightarrow>
     (principal_registration \<times> device_row \<times> token_family) option" where
  "join_family s i =
     (case find_family s i of
        None \<Rightarrow> None
      | Some f \<Rightarrow>
          (case find_device s (fm_device_id f) of
             None \<Rightarrow> None
           | Some d \<Rightarrow>
               (case find_principal s (dv_principal_id (dr_device d)) of
                  None \<Rightarrow> None
                | Some p \<Rightarrow> Some (p, d, f))))"

definition decode_context ::
  "principal_registration \<times> device_row \<times> token_family \<Rightarrow>
     (principal_account \<times> device \<times> token_family) repository_result" where
  "decode_context c =
     (case c of (p, d, f) \<Rightarrow>
        and_then (decode_principal_account p) (\<lambda>account.
        and_then (decode_device d) (\<lambda>device.
        and_then (decode_token_family f) (\<lambda>family.
        Inr (account, device, family)))))"

end
