(* ===== verification/Device_Store.thy ===== *)
theory Device_Store
  imports Device_Tables
begin

text \<open>
  The transactions of \<^verbatim>\<open>crates/postgres-adapter/src/devices.rs\<close> on the tables of
  \<^verbatim>\<open>Device_Tables\<close>: tokens, families and devices are inserted, renewed, rotated,
  revoked and found compromised.
\<close>

section \<open>Updating one table\<close>

definition on_devices where
  "on_devices f s = map_sum id (\<lambda>rows. s\<lparr>st_devices := rows\<rparr>) (f (st_devices s))"

definition on_families where
  "on_families f s = map_sum id (\<lambda>rows. s\<lparr>st_families := rows\<rparr>) (f (st_families s))"

definition on_refresh where
  "on_refresh f s = map_sum id (\<lambda>rows. s\<lparr>st_refresh := rows\<rparr>) (f (st_refresh s))"

definition on_access where
  "on_access f s = map_sum id (\<lambda>rows. s\<lparr>st_access := rows\<rparr>) (f (st_access s))"

definition on_attempts where
  "on_attempts f s = map_sum id (\<lambda>rows. s\<lparr>st_attempts := rows\<rparr>) (f (st_attempts s))"

definition on_receipts where
  "on_receipts f s = map_sum id (\<lambda>rows. s\<lparr>st_receipts := rows\<rparr>) (f (st_receipts s))"

definition on_grants where
  "on_grants f s = map_sum id (\<lambda>rows. s\<lparr>st_grants := rows\<rparr>) (f (st_grants s))"

definition on_principals where
  "on_principals f s = map_sum id (\<lambda>rows. s\<lparr>st_principals := rows\<rparr>) (f (st_principals s))"

definition on_nonces where
  "on_nonces f s = map_sum id (\<lambda>rows. s\<lparr>st_nonces := rows\<rparr>) (f (st_nonces s))"

definition on_handoffs where
  "on_handoffs f s = map_sum id (\<lambda>rows. s\<lparr>st_handoffs := rows\<rparr>) (f (st_handoffs s))"

lemmas on_tables = on_devices_def on_families_def on_refresh_def on_access_def on_attempts_def
  on_receipts_def on_grants_def on_principals_def on_nonces_def on_handoffs_def

lemma map_sum_Inr [transaction_simps]: "map_sum id f r = Inr y \<longleftrightarrow> (\<exists>x. r = Inr x \<and> y = f x)"
  by (cases r) auto

section \<open>The CHECKs that order times\<close>

definition refresh_check :: "refresh_row \<Rightarrow> bool" where
  "refresh_check r \<longleftrightarrow>
     0 \<le> rt_sequence r \<and> rt_issued_at r < rt_expires_at r \<and>
     opt_all (rt_consumed_at r) (\<lambda>t. rt_issued_at r \<le> t) \<and>
     (rt_consumed_at r = None \<longleftrightarrow> rt_replaced_by r = None) \<and>
     opt_all (rt_revoked_at r) (\<lambda>t. rt_issued_at r \<le> t) \<and>
     rt_replaced_by r \<noteq> Some (rt_id r)"

definition access_check :: "access_row \<Rightarrow> bool" where
  "access_check r \<longleftrightarrow> at_issued_at r < at_expires_at r \<and>
     opt_all (at_revoked_at r) (\<lambda>t. at_issued_at r \<le> t)"

definition family_check :: "token_family \<Rightarrow> bool" where
  "family_check f \<longleftrightarrow>
     fm_created_at f < fm_expires_at f \<and>
     (fm_state f = FamilyActive \<and> fm_revoked_at f = None \<and> fm_compromised_at f = None \<or>
      fm_state f = FamilyRevoked \<and> fm_revoked_at f \<noteq> None \<and> fm_compromised_at f = None \<or>
      fm_state f = Compromised \<and> fm_revoked_at f \<noteq> None \<and> fm_compromised_at f \<noteq> None) \<and>
     opt_all (fm_revoked_at f) (\<lambda>t. fm_created_at f \<le> t) \<and>
     opt_all (fm_compromised_at f) (\<lambda>t. fm_created_at f \<le> t \<and>
       opt_all (fm_revoked_at f) (\<lambda>r. r \<le> t)) \<and>
     opt_all (fm_authenticated_at f) (\<lambda>t. t \<le> fm_created_at f)"

definition device_check :: "device_row \<Rightarrow> bool" where
  "device_check r \<longleftrightarrow> (let d = dr_device r in
     0 \<le> dr_version r \<and>
     opt_all (dv_last_seen_at d) (\<lambda>t. dv_created_at d \<le> t) \<and>
     opt_all (dr_verified_at r) (\<lambda>t. dv_created_at d \<le> t) \<and>
     opt_all (dv_revoked_at d) (\<lambda>t. dv_created_at d \<le> t) \<and>
     (case dv_trust d of
        TrustPending \<Rightarrow> dr_verified_at r = None \<and> dv_revoked_at d = None
      | Verified \<Rightarrow> dr_verified_at r \<noteq> None \<and> dv_revoked_at d = None
      | TrustRevoked \<Rightarrow> dv_revoked_at d \<noteq> None \<and>
          opt_all (dr_verified_at r) (\<lambda>v. opt_all (dv_revoked_at d) (\<lambda>t. v \<le> t))))"

definition handoff_check :: "handoff_row \<Rightarrow> bool" where
  "handoff_check r \<longleftrightarrow> opt_all (hr_resolved_at r) (\<lambda>t.
     opt_all (if hr_delivered_at r = None then hr_queued_at r else hr_delivered_at r) (\<lambda>q. q \<le> t) \<and>
     (hr_status r = TExpired \<or> t < hr_expires_at r))"

definition attempt_check :: "attempt_row \<Rightarrow> bool" where
  "attempt_check r \<longleftrightarrow> ra_successor_id r \<noteq> ra_refresh_id r \<and>
     opt_all (ra_salt r) (\<lambda>salt. length salt = 32)"

section \<open>Inserting tokens\<close>

definition insert_token_family :: "token_family \<Rightarrow> unit device_txn" where
  "insert_token_family f =
     execute (on_families (insert_row family_check
       (\<lambda>g. fm_id g = fm_id f \<or>
            fm_device_id g = fm_device_id f \<and> fm_state g = FamilyActive \<and> fm_state f = FamilyActive)
       (f\<lparr>fm_revoked_at := None, fm_compromised_at := None\<rparr>)))"

definition insert_access_token ::
  "device_id \<Rightarrow> device_token_family_id \<Rightarrow> uuid \<Rightarrow> secret_digest \<Rightarrow> utc_millis \<Rightarrow> utc_millis \<Rightarrow>
     unit device_txn" where
  "insert_access_token device_id family_id token_id digest issued_at expires_at =
     execute (on_access (insert_row access_check
       (\<lambda>r. at_id r = token_id \<or> at_digest r = digest)
       \<lparr>at_id = token_id, at_family_id = family_id, at_device_id = device_id, at_digest = digest,
        at_issued_at = issued_at, at_expires_at = expires_at, at_revoked_at = None\<rparr>))"

definition insert_refresh_token ::
  "device_token_family_id \<Rightarrow> uuid \<Rightarrow> secret_digest \<Rightarrow> int \<Rightarrow> utc_millis \<Rightarrow> utc_millis \<Rightarrow>
     unit device_txn" where
  "insert_refresh_token family_id token_id digest sequence issued_at expires_at =
     execute (on_refresh (insert_row refresh_check
       (\<lambda>r. rt_id r = token_id \<or> rt_digest r = digest \<or>
            rt_family_id r = family_id \<and> rt_sequence r = sequence)
       \<lparr>rt_id = token_id, rt_family_id = family_id, rt_digest = digest, rt_sequence = sequence,
        rt_issued_at = issued_at, rt_expires_at = expires_at, rt_consumed_at = None,
        rt_replaced_by = None, rt_revoked_at = None\<rparr>))"

section \<open>Revoking tokens, families and devices\<close>

definition family_of_device :: "device_store \<Rightarrow> device_id \<Rightarrow> device_token_family_id \<Rightarrow> bool" where
  "family_of_device s d i \<longleftrightarrow> list_ex (\<lambda>f. fm_id f = i \<and> fm_device_id f = d) (st_families s)"

definition revoke_tokens :: "device_id \<Rightarrow> utc_millis \<Rightarrow> unit device_txn" where
  "revoke_tokens d t =
     exec (execute (on_access (update_checked access_check
       (\<lambda>r. at_device_id r = d \<and> at_revoked_at r = None)
       (\<lambda>r. r\<lparr>at_revoked_at := Some t\<rparr>)))) (\<lambda>_.
     execute (\<lambda>s. on_refresh (update_checked refresh_check
       (\<lambda>r. family_of_device s d (rt_family_id r) \<and> rt_revoked_at r = None)
       (\<lambda>r. r\<lparr>rt_revoked_at := Some t\<rparr>)) s))"

definition revoke_active_families :: "device_id \<Rightarrow> utc_millis \<Rightarrow> unit device_txn" where
  "revoke_active_families d t =
     exec (revoke_tokens d t) (\<lambda>_.
     execute (on_families (update_checked family_check
       (\<lambda>f. fm_device_id f = d \<and> fm_state f = FamilyActive)
       (\<lambda>f. f\<lparr>fm_state := FamilyRevoked, fm_revoked_at := Some t\<rparr>))))"

definition instance_on_device :: "device_store \<Rightarrow> device_id \<Rightarrow> agent_instance_id \<Rightarrow> bool" where
  "instance_on_device s d i \<longleftrightarrow> list_ex (\<lambda>r. in_id r = i \<and> in_device_id r = d) (st_instances s)"

definition fail_targeted_handoffs_for_device :: "device_id \<Rightarrow> utc_millis \<Rightarrow> unit device_txn" where
  "fail_targeted_handoffs_for_device d t =
     execute (\<lambda>s. on_handoffs (update_checked handoff_check
       (\<lambda>h. instance_on_device s d (hr_target_instance_id h) \<and> hr_status h \<in> {TQueued, TDelivered})
       (\<lambda>h. h\<lparr>hr_status := (if hr_expires_at h \<le> t then TExpired else TFailed),
              hr_resolved_at := Some t,
              hr_failure_code :=
                (if hr_expires_at h \<le> t then None else Some (lit ''handoff.target_device_revoked'')),
              hr_version := hr_version h + 1\<rparr>)) s)"

definition revoke_device_and_tokens :: "device_id \<Rightarrow> utc_millis \<Rightarrow> unit device_txn" where
  "revoke_device_and_tokens d t =
     exec (execute (on_devices (update_checked device_check
       (\<lambda>r. dv_id (dr_device r) = d \<and> dv_trust (dr_device r) \<noteq> TrustRevoked)
       (\<lambda>r. r\<lparr>dr_device := (dr_device r)\<lparr>dv_trust := TrustRevoked, dv_revoked_at := Some t\<rparr>,
              dr_version := dr_version r + 1\<rparr>)))) (\<lambda>_.
     exec (revoke_active_families d t) (\<lambda>_.
     exec (execute (\<lambda>s. Inr (s\<lparr>st_instances := update_where
       (\<lambda>r. in_device_id r = d \<and> in_status r \<noteq> InstanceRevoked)
       (\<lambda>r. r\<lparr>in_status := InstanceRevoked, in_lease_expires_at := None, in_revoked_at := Some t\<rparr>)
       (st_instances s)\<rparr>))) (\<lambda>_.
     fail_targeted_handoffs_for_device d t)))"

definition compromise_device ::
  "device \<Rightarrow> device_token_family_id \<Rightarrow> utc_millis \<Rightarrow> unit device_txn" where
  "compromise_device device family_id t =
     exec (execute (on_families (update_checked family_check
       (\<lambda>f. fm_id f = family_id \<and> fm_state f = FamilyActive)
       (\<lambda>f. f\<lparr>fm_state := Compromised, fm_revoked_at := Some (unwrap_or (fm_revoked_at f) t),
              fm_compromised_at := Some t\<rparr>)))) (\<lambda>_.
     revoke_device_and_tokens (dv_id device) t)"

section \<open>Rotation\<close>

record refresh_replay =
  rp_attempt_id :: refresh_attempt_id
  rp_salt :: replay_salt

record token_replacement =
  tr_access_id :: uuid
  tr_access_digest :: secret_digest
  tr_access_expires_at :: utc_millis
  tr_refresh_id :: uuid
  tr_refresh_digest :: secret_digest
  tr_issued_at :: utc_millis
  tr_lifetime :: sliding_lifetime
  tr_replay :: "refresh_replay option"

datatype refresh_outcome =
    Rotated (ro_session: stored_session) (ro_expires_at: utc_millis)
  | Replayed (ro_session: stored_session) (ro_expires_at: utc_millis) replay_salt secret_digest secret_digest
  | ReuseDetected device_id principal_id
  | Rejected

record locked_context =
  lk_account :: principal_account
  lk_device :: device
  lk_family :: token_family
  lk_refresh_id :: uuid
  lk_sequence :: int
  lk_consumed :: bool
  lk_revoked :: bool
  lk_expires_at :: utc_millis

definition lock_refresh_context :: "secret_digest \<Rightarrow> locked_context option device_txn" where
  "lock_refresh_context digest = query (\<lambda>s.
     case List.find (\<lambda>r. rt_digest r = digest) (st_refresh s) of
       None \<Rightarrow> Inr None
     | Some r \<Rightarrow>
         (case join_family s (rt_family_id r) of
            None \<Rightarrow> Inr None
          | Some c \<Rightarrow>
              and_then (decode_context c) (\<lambda>(account, device, family).
              Inr (Some \<lparr>lk_account = account, lk_device = device, lk_family = family,
                         lk_refresh_id = rt_id r, lk_sequence = rt_sequence r,
                         lk_consumed = (rt_consumed_at r \<noteq> None), lk_revoked = (rt_revoked_at r \<noteq> None),
                         lk_expires_at = rt_expires_at r\<rparr>))))"

text \<open>The row of a replayable attempt: the successor is still current and the access token not revoked.\<close>

definition replay_refresh_attempt ::
  "locked_context \<Rightarrow> refresh_replay \<Rightarrow> utc_millis \<Rightarrow> refresh_outcome option device_txn" where
  "replay_refresh_attempt l requested now = query (\<lambda>s.
     case List.find (\<lambda>a. ra_refresh_id a = lk_refresh_id l) (st_attempts s) of
       None \<Rightarrow> Inr None
     | Some a \<Rightarrow>
         (case (List.find (\<lambda>r. rt_id r = ra_successor_id a) (st_refresh s),
                List.find (\<lambda>r. at_id r = ra_access_id a) (st_access s)) of
            (Some successor, Some access) \<Rightarrow>
              (let successor_current =
                     rt_consumed_at successor = None \<and> rt_revoked_at successor = None \<and>
                     now < rt_expires_at successor;
                   access_active = (at_revoked_at access = None)
               in case ra_salt a of
                    None \<Rightarrow> Inr None
                  | Some salt \<Rightarrow>
                      if ra_attempt_id a \<noteq> rp_attempt_id requested \<or> \<not> successor_current \<or> \<not> access_active
                      then Inr None
                      else if length salt \<noteq> 32 then Inl CorruptData
                      else Inr (Some (Replayed
                             \<lparr>ss_account = lk_account l, ss_device = lk_device l, ss_family = lk_family l,
                              ss_access_expires_at = at_expires_at access\<rparr>
                             (fm_expires_at (lk_family l)) salt (at_digest access) (rt_digest successor))))
          | _ \<Rightarrow> Inr None))"

definition record_refresh_attempt :: "locked_context \<Rightarrow> token_replacement \<Rightarrow> unit device_txn" where
  "record_refresh_attempt l replacement =
     exec (execute (on_attempts (update_checked attempt_check
       (\<lambda>a. ra_successor_id a = lk_refresh_id l \<and> ra_salt a \<noteq> None)
       (\<lambda>a. a\<lparr>ra_salt := None\<rparr>)))) (\<lambda>_.
     case tr_replay replacement of
       None \<Rightarrow> done_with ()
     | Some attempt_replay \<Rightarrow>
         execute (on_attempts (insert_row attempt_check
           (\<lambda>a. ra_refresh_id a = lk_refresh_id l \<or> ra_successor_id a = tr_refresh_id replacement)
           \<lparr>ra_refresh_id = lk_refresh_id l, ra_attempt_id = rp_attempt_id attempt_replay,
            ra_successor_id = tr_refresh_id replacement, ra_access_id = tr_access_id replacement,
            ra_salt = Some (rp_salt attempt_replay), ra_created_at = tr_issued_at replacement\<rparr>)))"

definition DEVICE_SEEN_WRITE_INTERVAL_MS :: int where
  "DEVICE_SEEN_WRITE_INTERVAL_MS = 60 * 60 * 1000"

definition record_device_seen :: "device \<Rightarrow> utc_millis \<Rightarrow> device device_txn" where
  "record_device_seen locked seen_at =
     (let recent = opt_any (dv_last_seen_at locked) (\<lambda>last.
            utc_value seen_at - utc_value last < DEVICE_SEEN_WRITE_INTERVAL_MS)
      in if recent \<or> seen_at < dv_created_at locked then done_with locked
         else
           (case device_record_seen seen_at locked of
              (Inl _, _) \<Rightarrow> abort CorruptData
            | (Inr _, device) \<Rightarrow>
                exec (execute (on_devices (update_checked device_check
                  (\<lambda>r. dv_id (dr_device r) = dv_id device)
                  (\<lambda>r. r\<lparr>dr_device := (dr_device r)\<lparr>dv_last_seen_at := Some seen_at\<rparr>\<rparr>)))) (\<lambda>_.
                done_with device)))"

definition renew_token_family :: "token_family \<Rightarrow> token_replacement \<Rightarrow> token_family device_txn" where
  "renew_token_family locked replacement =
     (case family_renew (tr_lifetime replacement) (tr_issued_at replacement) locked of
        (Inl _, _) \<Rightarrow> abort CorruptData
      | (Inr _, family) \<Rightarrow>
          if fm_expires_at family = fm_expires_at locked then done_with family
          else
            (let p = (\<lambda>f. fm_id f = fm_id family \<and> fm_state f = FamilyActive)
             in exec (query (\<lambda>s. Inr (rows_where p (st_families s)))) (\<lambda>affected.
                exec (execute (on_families (update_checked family_check p
                  (\<lambda>f. f\<lparr>fm_expires_at := fm_expires_at family\<rparr>)))) (\<lambda>_.
                if affected \<noteq> 1 then abort CorruptData else done_with family))))"

definition persist_refresh_replacement ::
  "locked_context \<Rightarrow> token_replacement \<Rightarrow> stored_session device_txn" where
  "persist_refresh_replacement l replacement =
     exec (query (\<lambda>_. ok_or (i64_checked_add (lk_sequence l) 1) CorruptData)) (\<lambda>next_sequence.
     exec (renew_token_family (lk_family l) replacement) (\<lambda>family.
     exec (record_device_seen (lk_device l) (tr_issued_at replacement)) (\<lambda>device.
     exec (insert_access_token (dv_id (lk_device l)) (fm_id (lk_family l)) (tr_access_id replacement)
             (tr_access_digest replacement) (tr_issued_at replacement)
             (tr_access_expires_at replacement)) (\<lambda>_.
     exec (insert_refresh_token (fm_id (lk_family l)) (tr_refresh_id replacement)
             (tr_refresh_digest replacement) next_sequence (tr_issued_at replacement)
             (fm_expires_at family)) (\<lambda>_.
     exec (execute (on_refresh (update_checked refresh_check
             (\<lambda>r. rt_id r = lk_refresh_id l \<and> rt_consumed_at r = None)
             (\<lambda>r. r\<lparr>rt_consumed_at := Some (tr_issued_at replacement),
                    rt_replaced_by := Some (tr_refresh_id replacement)\<rparr>)))) (\<lambda>_.
     done_with \<lparr>ss_account = lk_account l, ss_device = device, ss_family = family,
                ss_access_expires_at = tr_access_expires_at replacement\<rparr>))))))"

definition rotation_refused :: "locked_context \<Rightarrow> utc_millis \<Rightarrow> bool" where
  "rotation_refused l now \<longleftrightarrow>
     \<not> allows_authentication (pa_principal (lk_account l)) \<or>
     \<not> accepts_authenticated_requests (lk_device l) \<or>
     \<not> allows_rotation (lk_family l) now \<or>
     lk_revoked l \<or>
     lk_expires_at l \<le> now"

definition rotate_refresh_transaction ::
  "secret_digest \<Rightarrow> token_replacement \<Rightarrow> refresh_outcome device_txn" where
  "rotate_refresh_transaction digest replacement =
     exec (lock_refresh_context digest) (\<lambda>found.
     case found of
       None \<Rightarrow> done_with Rejected
     | Some l \<Rightarrow>
         if rotation_refused l (tr_issued_at replacement) then done_with Rejected
         else if lk_consumed l then
           exec (case tr_replay replacement of
                   None \<Rightarrow> done_with None
                 | Some requested \<Rightarrow> replay_refresh_attempt l requested (tr_issued_at replacement)) (\<lambda>replayed.
           case replayed of
             Some outcome \<Rightarrow> done_with outcome
           | None \<Rightarrow>
               exec (compromise_device (lk_device l) (fm_id (lk_family l)) (tr_issued_at replacement)) (\<lambda>_.
               done_with (ReuseDetected (dv_id (lk_device l)) (pp_id (pa_principal (lk_account l))))))
         else
           exec (persist_refresh_replacement l replacement) (\<lambda>session.
           exec (record_refresh_attempt l replacement) (\<lambda>_.
           done_with (Rotated session (fm_expires_at (ss_family session))))))"

end
