(* ===== verification/Device_Registry.thy ===== *)
theory Device_Registry
  imports Device_Store
begin

text \<open>
  The remaining transactions of \<^verbatim>\<open>crates/postgres-adapter/src/devices.rs\<close> and
  \<^verbatim>\<open>computer_grants.rs\<close>: registration of a device under an account with its one-time
  receipt or computer grant, lookup of active sessions, one-time nonces, the list of a principal's
  devices, and revocation with the departures and the Matrix devices it leaves to clean up.
\<close>

section \<open>Registration\<close>

record session_registration =
  sr_authorization_digest :: secret_digest
  sr_receipt_expires_at :: utc_millis
  sr_family :: token_family
  sr_access_id :: uuid
  sr_access_digest :: secret_digest
  sr_access_expires_at :: utc_millis
  sr_refresh_id :: uuid
  sr_refresh_digest :: secret_digest
  sr_issued_at :: utc_millis

definition insert_principal_if_absent :: "principal_registration \<Rightarrow> unit device_txn" where
  "insert_principal_if_absent r =
     execute (\<lambda>s.
       if list_ex (\<lambda>p. pg_oidc_issuer p = pg_oidc_issuer r \<and> pg_oidc_subject p = pg_oidc_subject r)
            (st_principals s)
       then Inr s
       else on_principals (insert_row (\<lambda>_. True)
         (\<lambda>p. pp_id (pa_principal (pg_account p)) = pp_id (pa_principal (pg_account r)) \<or>
              pa_matrix_user_id (pg_account p) = pa_matrix_user_id (pg_account r)) r) s)"

definition lock_account_by_oidc :: "utext \<Rightarrow> utext \<Rightarrow> principal_account device_txn" where
  "lock_account_by_oidc issuer subject = query (\<lambda>s.
     case List.find (\<lambda>p. pg_oidc_issuer p = issuer \<and> pg_oidc_subject p = subject) (st_principals s) of
       None \<Rightarrow> Inl CorruptData
     | Some r \<Rightarrow> decode_principal_account r)"

definition lock_account_by_id :: "principal_id \<Rightarrow> principal_account device_txn" where
  "lock_account_by_id i = query (\<lambda>s.
     case find_principal s i of
       None \<Rightarrow> Inl CorruptData
     | Some r \<Rightarrow> decode_principal_account r)"

definition insert_device_if_absent :: "principal_id \<Rightarrow> device \<Rightarrow> unit device_txn" where
  "insert_device_if_absent principal_id device =
     execute (\<lambda>s.
       if list_ex (\<lambda>r. dv_public_signing_key (dr_device r) = dv_public_signing_key device \<and>
                        dv_revoked_at (dr_device r) = None) (st_devices s)
       then Inr s
       else on_devices (insert_row device_check
         (\<lambda>r. dv_id (dr_device r) = dv_id device)
         \<lparr>dr_device = device\<lparr>dv_principal_id := principal_id, dv_trust := Verified,
                             dv_matrix_device_id := None, dv_last_seen_at := None,
                             dv_revoked_at := None\<rparr>,
          dr_verified_at = Some (dv_created_at device), dr_version = 0\<rparr>) s)"

definition lock_device_by_active_key :: "8 word list \<Rightarrow> device device_txn" where
  "lock_device_by_active_key key = query (\<lambda>s.
     case List.find (\<lambda>r. dv_public_signing_key (dr_device r) = key \<and> dv_revoked_at (dr_device r) = None)
            (st_devices s) of
       None \<Rightarrow> Inl CorruptData
     | Some r \<Rightarrow> decode_device r)"

definition update_verified_device :: "device \<Rightarrow> device \<Rightarrow> unit device_txn" where
  "update_verified_device existing requested =
     execute (on_devices (update_checked device_check
       (\<lambda>r. dv_id (dr_device r) = dv_id existing \<and> dv_revoked_at (dr_device r) = None)
       (\<lambda>r. r\<lparr>dr_device := (dr_device r)\<lparr>dv_label := dv_label requested, dv_platform := dv_platform requested,
                                          dv_trust := Verified\<rparr>,
              dr_verified_at := Some (unwrap_or (dr_verified_at r) (dv_created_at requested)),
              dr_version := dr_version r + 1\<rparr>)))"

definition claim_device :: "principal_account \<Rightarrow> device \<Rightarrow> device device_txn" where
  "claim_device account requested =
     exec (insert_device_if_absent (pp_id (pa_principal account)) requested) (\<lambda>_.
     exec (lock_device_by_active_key (dv_public_signing_key requested)) (\<lambda>existing.
     if dv_principal_id existing \<noteq> pp_id (pa_principal account) then abort RepoForbidden
     else
       exec (update_verified_device existing requested) (\<lambda>_.
       query (\<lambda>_. or_corrupt (device_restore
         \<lparr>dv_id = dv_id existing, dv_principal_id = dv_principal_id existing,
          dv_label = dv_label requested, dv_platform = dv_platform requested,
          dv_public_signing_key = dv_public_signing_key requested,
          dv_matrix_device_id = dv_matrix_device_id existing, dv_trust = Verified,
          dv_last_seen_at = dv_last_seen_at existing, dv_revoked_at = None,
          dv_created_at = dv_created_at existing\<rparr>)))))"

definition consume_authorization_receipt ::
  "principal_id \<Rightarrow> device_id \<Rightarrow> session_registration \<Rightarrow> unit device_txn" where
  "consume_authorization_receipt p d session =
     exec (execute (on_receipts (\<lambda>rows. Inr (delete_where (\<lambda>r. rc_expires_at r < sr_issued_at session) rows)))) (\<lambda>_.
     execute (on_receipts (insert_row (\<lambda>r. rc_consumed_at r < rc_expires_at r)
       (\<lambda>r. rc_digest r = sr_authorization_digest session)
       \<lparr>rc_digest = sr_authorization_digest session, rc_principal_id = p, rc_device_id = d,
        rc_consumed_at = sr_issued_at session, rc_expires_at = sr_receipt_expires_at session\<rparr>)))"

text \<open>The family is created again for the device that was claimed.\<close>

definition registered_family :: "device_id \<Rightarrow> token_family \<Rightarrow> token_family result" where
  "registered_family d requested =
     and_then (family_new (fm_id requested) d (fm_created_at requested) (fm_expires_at requested)) (\<lambda>f.
     case fm_authenticated_at requested of
       None \<Rightarrow> Inr f
     | Some t \<Rightarrow> with_authenticated_at t f)"

definition store_device_session ::
  "principal_account \<Rightarrow> device \<Rightarrow> session_registration \<Rightarrow> stored_session device_txn" where
  "store_device_session account requested session =
     (if \<not> allows_authentication (pa_principal account) then abort RepoForbidden
      else
        exec (claim_device account requested) (\<lambda>device.
        exec (consume_authorization_receipt (pp_id (pa_principal account)) (dv_id device) session) (\<lambda>_.
        exec (revoke_active_families (dv_id device) (sr_issued_at session)) (\<lambda>_.
        exec (query (\<lambda>_. or_corrupt (registered_family (dv_id device) (sr_family session)))) (\<lambda>family.
        exec (insert_token_family family) (\<lambda>_.
        exec (insert_access_token (dv_id device) (fm_id family) (sr_access_id session)
                (sr_access_digest session) (sr_issued_at session) (sr_access_expires_at session)) (\<lambda>_.
        exec (insert_refresh_token (fm_id family) (sr_refresh_id session) (sr_refresh_digest session) 0
                (sr_issued_at session) (fm_expires_at family)) (\<lambda>_.
        done_with \<lparr>ss_account = account, ss_device = device, ss_family = family,
                   ss_access_expires_at = sr_access_expires_at session\<rparr>))))))))"

definition register_device_transaction ::
  "principal_registration \<Rightarrow> device \<Rightarrow> session_registration \<Rightarrow> stored_session device_txn" where
  "register_device_transaction registration requested session =
     exec (insert_principal_if_absent registration) (\<lambda>_.
     exec (lock_account_by_oidc (pg_oidc_issuer registration) (pg_oidc_subject registration)) (\<lambda>account.
     store_device_session account requested session))"

section \<open>Computer grants\<close>

definition insert_grant :: "computer_grant \<Rightarrow> unit device_txn" where
  "insert_grant g =
     exec (execute (on_grants (\<lambda>rows. Inr (delete_where (\<lambda>r. cg_expires_at r \<le> cg_created_at g) rows)))) (\<lambda>_.
     execute (on_grants (insert_row
       (\<lambda>r. cg_authenticated_at r \<le> cg_created_at r \<and> cg_created_at r < cg_expires_at r)
       (\<lambda>r. cg_digest r = cg_digest g) g)))"

definition find_grant :: "secret_digest \<Rightarrow> utc_millis \<Rightarrow> computer_grant option device_txn" where
  "find_grant digest now = query (\<lambda>s.
     Inr (List.find (\<lambda>g. cg_digest g = digest \<and> now < cg_expires_at g) (st_grants s)))"

definition register_with_grant ::
  "computer_grant \<Rightarrow> device \<Rightarrow> session_registration \<Rightarrow> stored_session device_txn" where
  "register_with_grant grant requested session =
     (let p = (\<lambda>g. cg_digest g = cg_digest grant \<and> cg_principal_id g = cg_principal_id grant \<and>
                    sr_issued_at session < cg_expires_at g)
      in exec (query (\<lambda>s. Inr (rows_where p (st_grants s)))) (\<lambda>consumed.
         exec (execute (on_grants (\<lambda>rows. Inr (delete_where p rows)))) (\<lambda>_.
         if consumed \<noteq> 1 then abort NotFound
         else
           exec (lock_account_by_id (cg_principal_id grant)) (\<lambda>account.
           store_device_session account requested session))))"

section \<open>Lookups\<close>

definition find_active_access :: "secret_digest \<Rightarrow> utc_millis \<Rightarrow> stored_session option device_txn" where
  "find_active_access digest now = query (\<lambda>s.
     case List.find (\<lambda>r. at_digest r = digest) (st_access s) of
       None \<Rightarrow> Inr None
     | Some access \<Rightarrow>
         (case (find_family s (at_family_id access), find_device s (at_device_id access)) of
            (Some family, Some device) \<Rightarrow>
              (case find_principal s (dv_principal_id (dr_device device)) of
                 None \<Rightarrow> Inr None
               | Some owner \<Rightarrow>
                   if at_revoked_at access = None \<and> now < at_expires_at access \<and>
                      fm_state family = FamilyActive \<and> now < fm_expires_at family \<and>
                      dv_trust (dr_device device) = Verified \<and>
                      pp_status (pa_principal (pg_account owner)) = PrincipalActive
                   then and_then (decode_context (owner, device, family)) (\<lambda>(a, d, f).
                        Inr (Some \<lparr>ss_account = a, ss_device = d, ss_family = f,
                                   ss_access_expires_at = at_expires_at access\<rparr>))
                   else Inr None)
          | _ \<Rightarrow> Inr None))"

definition find_refresh_context ::
  "secret_digest \<Rightarrow> (principal_account \<times> device \<times> token_family) option device_txn" where
  "find_refresh_context digest = query (\<lambda>s.
     case List.find (\<lambda>r. rt_digest r = digest) (st_refresh s) of
       None \<Rightarrow> Inr None
     | Some r \<Rightarrow>
         (case join_family s (rt_family_id r) of
            None \<Rightarrow> Inr None
          | Some c \<Rightarrow> and_then (decode_context c) (\<lambda>x. Inr (Some x))))"

text \<open>\<open>ORDER BY created_at DESC, id DESC\<close>.\<close>

definition list_for_principal :: "principal_id \<Rightarrow> device list device_txn" where
  "list_for_principal p = query (\<lambda>s.
     foldr (\<lambda>r acc. and_then acc (\<lambda>ds. and_then (decode_device r) (\<lambda>d. Inr (d # ds))))
       (rev (sort_key (\<lambda>r. dv_created_at (dr_device r)) (sort_key (\<lambda>r. dv_id (dr_device r))
          (filter (\<lambda>r. dv_principal_id (dr_device r) = p) (st_devices s))))) (Inr []))"

definition consume_nonce ::
  "device_id \<Rightarrow> secret_digest \<Rightarrow> utc_millis \<Rightarrow> utc_millis \<Rightarrow> bool device_txn" where
  "consume_nonce d digest consumed_at expires_at =
     exec (execute (on_nonces (\<lambda>rows. Inr (delete_where
       (\<lambda>r. nn_device_id r = d \<and> nn_expires_at r < consumed_at) rows)))) (\<lambda>_.
     exec (query (\<lambda>s. Inr (list_ex (\<lambda>r. nn_device_id r = d \<and> nn_digest r = digest) (st_nonces s)))) (\<lambda>known.
     exec (execute (\<lambda>s.
       let r = \<lparr>nn_device_id = d, nn_digest = digest, nn_consumed_at = consumed_at, nn_expires_at = expires_at\<rparr>
       in if \<not> nn_consumed_at r < nn_expires_at r then Inl Constraint
          else if known then Inr s
          else on_nonces (insert_row (\<lambda>_. True) (\<lambda>_. False) r) s)) (\<lambda>_.
     done_with (\<not> known))))"

section \<open>Revocation\<close>

record pending_matrix_device =
  pm_instance_id :: agent_instance_id
  pm_matrix_user_id :: utext
  pm_matrix_device_id :: utext

datatype revocation_outcome =
  DeviceRevokedNow "pending_matrix_device list" | AlreadyRevoked "pending_matrix_device list" | DeviceNotFound

text \<open>
  The rows that \<^verbatim>\<open>INSERT ... SELECT DISTINCT ... ON CONFLICT DO NOTHING\<close> adds: one per agent and room
  that a revoked instance of the device occupies, unless the departure is already queued.
\<close>

definition occupied_rooms :: "device_store \<Rightarrow> device_id \<Rightarrow> (agent_id \<times> room_instance_id) list" where
  "occupied_rooms s d =
     remdups (map (\<lambda>v. (rs_agent_id v, rs_room_instance_id v))
       (filter (\<lambda>v.
          list_ex (\<lambda>i. in_id i = rs_agent_instance_id v \<and> in_device_id i = d \<and> in_revoked_at i \<noteq> None)
            (st_instances s) \<and>
          rs_state v = Committed \<and>
          list_ex (\<lambda>(c, k). c = rs_catalog_id v \<and> k \<in> {PublicLobby, PrivateRoomKind}) (st_catalog_kinds s) \<and>
          \<not> List.member (st_network_instances s) (rs_agent_instance_id v)) (st_reservations s)))"

definition queue_revoked_agent_departures :: "device_id \<Rightarrow> utc_millis \<Rightarrow> unit device_txn" where
  "queue_revoked_agent_departures d t =
     execute (\<lambda>s. Inr (s\<lparr>st_departures := st_departures s @
       map (\<lambda>(a, r). \<lparr>dp_agent_id = a, dp_room_instance_id = r, dp_device_id = d,
                      dp_requested_at = t, dp_next_attempt_at = t\<rparr>)
         (filter (\<lambda>(a, r). \<not> list_ex (\<lambda>p. dp_agent_id p = a \<and> dp_room_instance_id p = r) (st_departures s))
           (occupied_rooms s d))\<rparr>))"

definition pending_matrix_devices :: "device_id \<Rightarrow> pending_matrix_device list device_txn" where
  "pending_matrix_devices d = query (\<lambda>s. Inr (concat (map (\<lambda>i.
     (case List.find (\<lambda>(a, u). a = in_agent_id i) (st_matrix_users s) of
        None \<Rightarrow> []
      | Some (_, user) \<Rightarrow> [\<lparr>pm_instance_id = in_id i, pm_matrix_user_id = user,
                            pm_matrix_device_id = in_matrix_device_id i\<rparr>]))
     (sort_key in_id (filter (\<lambda>i. in_device_id i = d \<and> in_revoked_at i \<noteq> None \<and>
        in_matrix_revoked_at i = None) (st_instances s))))))"

definition revoke_device_transaction ::
  "principal_id \<Rightarrow> device_id \<Rightarrow> utc_millis \<Rightarrow> revocation_outcome device_txn" where
  "revoke_device_transaction p d t =
     exec (query (\<lambda>s. Inr (List.find (\<lambda>r. dv_id (dr_device r) = d \<and> dv_principal_id (dr_device r) = p)
                             (st_devices s)))) (\<lambda>found.
     case found of
       None \<Rightarrow> done_with DeviceNotFound
     | Some row \<Rightarrow>
         exec (query (\<lambda>_. decode_device row)) (\<lambda>device.
         let already_revoked = (dv_trust device = TrustRevoked)
         in exec (if already_revoked then done_with () else revoke_device_and_tokens (dv_id device) t) (\<lambda>_.
            exec (queue_revoked_agent_departures (dv_id device) t) (\<lambda>_.
            exec (pending_matrix_devices (dv_id device)) (\<lambda>pending.
            done_with (if already_revoked then AlreadyRevoked pending else DeviceRevokedNow pending))))))"

definition mark_matrix_device_revoked :: "agent_instance_id \<Rightarrow> utc_millis \<Rightarrow> unit device_txn" where
  "mark_matrix_device_revoked i t =
     (let p = (\<lambda>r. in_id r = i \<and> in_revoked_at r \<noteq> None)
      in exec (query (\<lambda>s. Inr (rows_where p (st_instances s)))) (\<lambda>affected.
         exec (execute (\<lambda>s. map_sum id (\<lambda>rows. s\<lparr>st_instances := rows\<rparr>)
           (update_checked (\<lambda>r. opt_all (in_matrix_revoked_at r) (\<lambda>m. opt_all (in_revoked_at r) (\<lambda>v. v \<le> m)))
              p (\<lambda>r. r\<lparr>in_matrix_revoked_at := Some (unwrap_or (in_matrix_revoked_at r) t)\<rparr>) (st_instances s)))) (\<lambda>_.
         if affected = 1 then done_with () else abort Constraint)))"

end
