(* ===== verification/Device_Store_Facts.thy ===== *)
theory Device_Store_Facts
  imports Device_Registry
begin

text \<open>
  Facts about the device tables: decoding a stored row gives the row back, the effect of each
  transaction on the four token tables, the invariant of these tables and its preservation by every
  transaction.
\<close>

section \<open>Decoding\<close>

lemma decode_principal_account_Inr: "decode_principal_account r = Inr a \<Longrightarrow> a = pg_account r"
  by (auto simp: decode_principal_account_def result_simps version_new_def principal_restore_def Let_def
      split: if_splits)

lemma decode_device_Inr: "decode_device r = Inr d \<Longrightarrow> d = dr_device r"
  by (auto simp: decode_device_def device_restore_def result_simps split: if_splits)

lemma decode_token_family_Inr: "decode_token_family f = Inr g \<Longrightarrow> g = f"
  by (cases "fm_authenticated_at f")
    (auto simp: decode_token_family_def result_simps family_restore_Inr with_authenticated_at_def
      split: if_splits)

lemma decode_context_Inr:
  "decode_context (p, d, f) = Inr (a, e, g) \<Longrightarrow> a = pg_account p \<and> e = dr_device d \<and> g = f"
  by (auto simp: decode_context_def result_simps
      dest: decode_principal_account_Inr decode_device_Inr decode_token_family_Inr)

lemma join_family_Some:
  "join_family s i = Some (p, d, f) \<longleftrightarrow>
     find_family s i = Some f \<and> find_device s (fm_device_id f) = Some d \<and>
     find_principal s (dv_principal_id (dr_device d)) = Some p"
  by (auto simp: join_family_def split: option.splits)

lemma find_family_Some: "find_family s i = Some f \<Longrightarrow> f \<in> set (st_families s) \<and> fm_id f = i"
  and find_device_Some: "find_device s i = Some d \<Longrightarrow> d \<in> set (st_devices s) \<and> dv_id (dr_device d) = i"
  and find_principal_Some: "find_principal s i = Some p \<Longrightarrow>
         p \<in> set (st_principals s) \<and> pp_id (pa_principal (pg_account p)) = i"
  unfolding find_family_def find_device_def find_principal_def
  by (auto dest: find_member)

text \<open>What a locked context says about the tables.\<close>

definition context_of ::
  "device_store \<Rightarrow> secret_digest \<Rightarrow> locked_context \<Rightarrow> refresh_row \<Rightarrow> bool" where
  "context_of s digest l r \<longleftrightarrow>
     List.find (\<lambda>r. rt_digest r = digest) (st_refresh s) = Some r \<and>
     find_family s (rt_family_id r) = Some (lk_family l) \<and>
     (\<exists>d p. find_device s (fm_device_id (lk_family l)) = Some d \<and> lk_device l = dr_device d \<and>
        find_principal s (dv_principal_id (lk_device l)) = Some p \<and> lk_account l = pg_account p) \<and>
     lk_refresh_id l = rt_id r \<and> lk_sequence l = rt_sequence r \<and>
     (lk_consumed l \<longleftrightarrow> rt_consumed_at r \<noteq> None) \<and> (lk_revoked l \<longleftrightarrow> rt_revoked_at r \<noteq> None) \<and>
     lk_expires_at l = rt_expires_at r"

lemma lock_refresh_context_Some:
  assumes "lock_refresh_context digest s = Inr (Some l, t)"
  shows "t = s \<and> (\<exists>r. context_of s digest l r)"
  using assms
  by (auto simp: lock_refresh_context_def context_of_def transaction_simps result_simps join_family_Some
      split: option.splits dest!: decode_context_Inr)

lemma lock_refresh_context_None:
  "lock_refresh_context digest s = Inr (None, t) \<Longrightarrow> t = s"
  by (simp add: lock_refresh_context_def transaction_simps)

lemma context_of_row:
  assumes "context_of s digest l r"
  shows "r \<in> set (st_refresh s)" and "rt_digest r = digest" and "lk_family l \<in> set (st_families s)"
    and "fm_id (lk_family l) = rt_family_id r" and "dv_id (lk_device l) = fm_device_id (lk_family l)"
  using assms by (auto simp: context_of_def dest!: find_member find_family_Some find_device_Some)

section \<open>The invariant\<close>

definition keys_ok :: "device_store \<Rightarrow> bool" where
  "keys_ok s \<longleftrightarrow> distinct (map fm_id (st_families s)) \<and>
     distinct (map rt_id (st_refresh s)) \<and> distinct (map rt_digest (st_refresh s)) \<and>
     distinct (map at_id (st_access s)) \<and> distinct (map at_digest (st_access s)) \<and>
     distinct (map ra_refresh_id (st_attempts s))"

definition families_ok :: "device_store \<Rightarrow> bool" where
  "families_ok s \<longleftrightarrow> (\<forall>f\<in>set (st_families s). family_check f \<and>
     (\<forall>g\<in>set (st_families s). fm_device_id f = fm_device_id g \<longrightarrow> fm_state f = FamilyActive \<longrightarrow>
        fm_state g = FamilyActive \<longrightarrow> f = g))"

text \<open>
  Every token belongs to a family; nothing in an active family is revoked, and its current refresh
  token lives exactly as long as the family.
\<close>

definition token_in_family :: "device_store \<Rightarrow> refresh_row \<Rightarrow> bool" where
  "token_in_family s r \<longleftrightarrow> (\<exists>f\<in>set (st_families s). fm_id f = rt_family_id r \<and>
     (fm_state f = FamilyActive \<longrightarrow> rt_revoked_at r = None \<and>
        (rt_consumed_at r = None \<longrightarrow> rt_expires_at r = fm_expires_at f)))"

definition access_in_family :: "device_store \<Rightarrow> access_row \<Rightarrow> bool" where
  "access_in_family s a \<longleftrightarrow> (\<exists>f\<in>set (st_families s). fm_id f = at_family_id a \<and>
     fm_device_id f = at_device_id a \<and> (fm_state f = FamilyActive \<longrightarrow> at_revoked_at a = None))"

lemma token_in_familyE:
  assumes "token_in_family s r"
  obtains f where "f \<in> set (st_families s)" and "fm_id f = rt_family_id r"
    and "fm_state f = FamilyActive \<longrightarrow>
      rt_revoked_at r = None \<and> (rt_consumed_at r = None \<longrightarrow> rt_expires_at r = fm_expires_at f)"
  using assms unfolding token_in_family_def by (elim bexE conjE) (rule that)

lemma access_in_familyE:
  assumes "access_in_family s a"
  obtains f where "f \<in> set (st_families s)" and "fm_id f = at_family_id a"
    and "fm_device_id f = at_device_id a" and "fm_state f = FamilyActive \<longrightarrow> at_revoked_at a = None"
  using assms unfolding access_in_family_def by (elim bexE conjE) (rule that)

definition refresh_ok :: "device_store \<Rightarrow> bool" where
  "refresh_ok s \<longleftrightarrow> (\<forall>r\<in>set (st_refresh s). refresh_check r \<and> token_in_family s r)"

definition access_ok :: "device_store \<Rightarrow> bool" where
  "access_ok s \<longleftrightarrow> (\<forall>a\<in>set (st_access s). access_check a \<and> access_in_family s a)"

text \<open>A family has at most one refresh token that was not consumed yet.\<close>

definition heads_ok :: "device_store \<Rightarrow> bool" where
  "heads_ok s \<longleftrightarrow> (\<forall>r\<in>set (st_refresh s). \<forall>r'\<in>set (st_refresh s).
     rt_family_id r = rt_family_id r' \<longrightarrow> rt_consumed_at r = None \<longrightarrow> rt_consumed_at r' = None \<longrightarrow> r = r')"

text \<open>
  An attempt names the token it consumed, the successor and the access token it issued, all of one
  family; its salt is kept only while the successor is current.
\<close>

definition attempt_in_tables :: "device_store \<Rightarrow> attempt_row \<Rightarrow> bool" where
  "attempt_in_tables s a \<longleftrightarrow>
     (\<exists>r\<in>set (st_refresh s). \<exists>n\<in>set (st_refresh s). \<exists>x\<in>set (st_access s).
        rt_id r = ra_refresh_id a \<and> rt_id n = ra_successor_id a \<and> at_id x = ra_access_id a \<and>
        rt_replaced_by r = Some (rt_id n) \<and> rt_family_id n = rt_family_id r \<and>
        at_family_id x = rt_family_id r \<and>
        (ra_salt a \<noteq> None \<longrightarrow> rt_consumed_at n = None))"

lemma attempt_in_tables_mono:
  assumes "set (st_refresh s) \<subseteq> set (st_refresh t)" and "set (st_access s) \<subseteq> set (st_access t)"
    and "attempt_in_tables s a"
  shows "attempt_in_tables t a"
  using assms(3) unfolding attempt_in_tables_def
  by (elim bexE) (intro bexI, assumption, (erule subsetD [OF assms(1)] subsetD [OF assms(2)])+)

definition attempts_ok :: "device_store \<Rightarrow> bool" where
  "attempts_ok s \<longleftrightarrow> (\<forall>a\<in>set (st_attempts s). attempt_check a \<and> attempt_in_tables s a)"

definition store_ok :: "device_store \<Rightarrow> bool" where
  "store_ok s \<longleftrightarrow> keys_ok s \<and> families_ok s \<and> refresh_ok s \<and> access_ok s \<and> heads_ok s \<and> attempts_ok s"

lemmas store_ok_parts = keys_ok_def families_ok_def refresh_ok_def access_ok_def heads_ok_def
  attempts_ok_def token_in_family_def access_in_family_def attempt_in_tables_def

text \<open>The invariant reads four tables; a transaction that leaves them alone keeps it.\<close>

definition token_tables ::
  "device_store \<Rightarrow> token_family list \<times> refresh_row list \<times> access_row list \<times> attempt_row list" where
  "token_tables s = (st_families s, st_refresh s, st_access s, st_attempts s)"

lemma store_ok_cong: "token_tables t = token_tables s \<Longrightarrow> store_ok t \<longleftrightarrow> store_ok s"
  by (simp add: token_tables_def store_ok_def store_ok_parts)

lemma token_tables_simps [simp]:
  "token_tables (s\<lparr>st_devices := a\<rparr>) = token_tables s"
  "token_tables (s\<lparr>st_receipts := b\<rparr>) = token_tables s"
  "token_tables (s\<lparr>st_grants := c\<rparr>) = token_tables s"
  "token_tables (s\<lparr>st_principals := d\<rparr>) = token_tables s"
  "token_tables (s\<lparr>st_nonces := e\<rparr>) = token_tables s"
  "token_tables (s\<lparr>st_handoffs := f\<rparr>) = token_tables s"
  "token_tables (s\<lparr>st_instances := g\<rparr>) = token_tables s"
  "token_tables (s\<lparr>st_departures := h\<rparr>) = token_tables s"
  by (simp_all add: token_tables_def)

section \<open>Ending families\<close>

text \<open>
  Revocation and the discovery of a reuse rewrite rows in place: they end families and revoke tokens,
  and nothing else. A rewriting that changes no key and no rotation and touches only what belongs to
  families it ends keeps the invariant.
\<close>

definition ends_families ::
  "device_store \<Rightarrow> (token_family \<Rightarrow> token_family) \<Rightarrow> (refresh_row \<Rightarrow> refresh_row) \<Rightarrow>
     (access_row \<Rightarrow> access_row) \<Rightarrow> device_store \<Rightarrow> bool" where
  "ends_families s ff fr fa t \<longleftrightarrow>
     token_tables t = (map ff (st_families s), map fr (st_refresh s), map fa (st_access s), st_attempts s) \<and>
     (\<forall>f. fm_id (ff f) = fm_id f \<and> fm_device_id (ff f) = fm_device_id f \<and>
        (fm_state (ff f) = FamilyActive \<longrightarrow> ff f = f)) \<and>
     (\<forall>r. fr r = r\<lparr>rt_revoked_at := rt_revoked_at (fr r)\<rparr>) \<and>
     (\<forall>a. fa a = a\<lparr>at_revoked_at := at_revoked_at (fa a)\<rparr>) \<and>
     (\<forall>f\<in>set (st_families s). family_check (ff f)) \<and>
     (\<forall>r\<in>set (st_refresh s). refresh_check (fr r)) \<and>
     (\<forall>a\<in>set (st_access s). access_check (fa a)) \<and>
     (\<forall>f\<in>set (st_families s). fm_state (ff f) = FamilyActive \<longrightarrow>
        (\<forall>r\<in>set (st_refresh s). rt_family_id r = fm_id f \<longrightarrow> fr r = r) \<and>
        (\<forall>a\<in>set (st_access s). at_family_id a = fm_id f \<longrightarrow> fa a = a))"

lemma revoked_row_keys:
  "r' = r\<lparr>rt_revoked_at := x\<rparr> \<Longrightarrow> rt_id r' = rt_id r \<and> rt_digest r' = rt_digest r \<and>
     rt_family_id r' = rt_family_id r \<and> rt_consumed_at r' = rt_consumed_at r \<and>
     rt_replaced_by r' = rt_replaced_by r \<and> rt_expires_at r' = rt_expires_at r \<and>
     rt_sequence r' = rt_sequence r \<and> rt_issued_at r' = rt_issued_at r"
  "a' = a\<lparr>at_revoked_at := y\<rparr> \<Longrightarrow> at_id a' = at_id a \<and> at_digest a' = at_digest a \<and>
     at_family_id a' = at_family_id a \<and> at_device_id a' = at_device_id a \<and> at_expires_at a' = at_expires_at a"
  by simp_all

lemma ends_families_ok:
  assumes ok: "store_ok s" and e: "ends_families s ff fr fa t"
  shows "store_ok t"
proof -
  have tabs: "st_families t = map ff (st_families s)" "st_refresh t = map fr (st_refresh s)"
    "st_access t = map fa (st_access s)" "st_attempts t = st_attempts s"
    using e by (simp_all add: ends_families_def token_tables_def)
  have F: "fm_id (ff f) = fm_id f" "fm_device_id (ff f) = fm_device_id f"
    "fm_state (ff f) = FamilyActive \<Longrightarrow> ff f = f" for f
    using e by (simp_all add: ends_families_def)
  have "fr r = r\<lparr>rt_revoked_at := rt_revoked_at (fr r)\<rparr>" for r
    using e unfolding ends_families_def by blast
  note R = revoked_row_keys(1) [OF this]
  have "fa a = a\<lparr>at_revoked_at := at_revoked_at (fa a)\<rparr>" for a
    using e unfolding ends_families_def by blast
  note A = revoked_row_keys(2) [OF this]
  have live: "f \<in> set (st_families s) \<Longrightarrow> fm_state (ff f) = FamilyActive \<Longrightarrow> r \<in> set (st_refresh s) \<Longrightarrow>
      rt_family_id r = fm_id f \<Longrightarrow> fr r = r"
    "f \<in> set (st_families s) \<Longrightarrow> fm_state (ff f) = FamilyActive \<Longrightarrow> a \<in> set (st_access s) \<Longrightarrow>
      at_family_id a = fm_id f \<Longrightarrow> fa a = a" for f r a
    using e by (simp_all add: ends_families_def)
  have checks: "\<forall>f\<in>set (st_families s). family_check (ff f)" "\<forall>r\<in>set (st_refresh s). refresh_check (fr r)"
    "\<forall>a\<in>set (st_access s). access_check (fa a)"
    using e by (simp_all add: ends_families_def)
  have "keys_ok t"
    using ok by (simp add: store_ok_def keys_ok_def tabs comp_def F R A)
  moreover have "families_ok t"
    unfolding families_ok_def
  proof (intro ballI conjI impI)
    fix f assume "f \<in> set (st_families t)"
    then obtain f0 where f: "f0 \<in> set (st_families s)" "f = ff f0" by (auto simp: tabs)
    show "family_check f" using f checks(1) by blast
    fix g assume "g \<in> set (st_families t)" and d: "fm_device_id f = fm_device_id g"
      and a: "fm_state f = FamilyActive" "fm_state g = FamilyActive"
    then obtain g0 where g: "g0 \<in> set (st_families s)" "g = ff g0" by (auto simp: tabs)
    have "ff f0 = f0" "ff g0 = g0" using a f(2) g(2) F(3) by simp_all
    then show "f = g" using ok f g d a by (auto simp: store_ok_def families_ok_def)
  qed
  moreover have "refresh_ok t"
    unfolding refresh_ok_def
  proof (intro ballI conjI)
    fix r assume "r \<in> set (st_refresh t)"
    then obtain r0 where r: "r0 \<in> set (st_refresh s)" "r = fr r0" by (auto simp: tabs)
    show "refresh_check r" using r checks(2) by blast
    have "token_in_family s r0" using ok r(1) by (simp add: store_ok_def refresh_ok_def)
    then obtain f where f: "f \<in> set (st_families s)" "fm_id f = rt_family_id r0"
      "fm_state f = FamilyActive \<longrightarrow> rt_revoked_at r0 = None \<and> (rt_consumed_at r0 = None \<longrightarrow> rt_expires_at r0 = fm_expires_at f)"
      by (rule token_in_familyE)
    have act: "ff f = f \<and> fr r0 = r0" if "fm_state (ff f) = FamilyActive"
      using F(3) [of f] live(1) [of f r0] f(1,2) r(1) that by simp
    show "token_in_family t r"
      unfolding token_in_family_def
    proof (rule bexI [of _ "ff f"])
      show "fm_id (ff f) = rt_family_id r \<and> (fm_state (ff f) = FamilyActive \<longrightarrow> rt_revoked_at r = None \<and>
          (rt_consumed_at r = None \<longrightarrow> rt_expires_at r = fm_expires_at (ff f)))"
        using act f(2,3) r(2) by (cases "fm_state (ff f) = FamilyActive") (simp_all add: F(1) R)
      show "ff f \<in> set (st_families t)" using f(1) by (simp add: tabs)
    qed
  qed
  moreover have "access_ok t"
    unfolding access_ok_def
  proof (intro ballI conjI)
    fix a assume "a \<in> set (st_access t)"
    then obtain a0 where a: "a0 \<in> set (st_access s)" "a = fa a0" by (auto simp: tabs)
    show "access_check a" using a checks(3) by blast
    have "access_in_family s a0" using ok a(1) by (simp add: store_ok_def access_ok_def)
    then obtain f where f: "f \<in> set (st_families s)" "fm_id f = at_family_id a0" "fm_device_id f = at_device_id a0"
      "fm_state f = FamilyActive \<longrightarrow> at_revoked_at a0 = None"
      by (rule access_in_familyE)
    have act: "ff f = f \<and> fa a0 = a0" if "fm_state (ff f) = FamilyActive"
      using F(3) [of f] live(2) [of f a0] f(1,2) a(1) that by simp
    show "access_in_family t a"
      unfolding access_in_family_def
    proof (rule bexI [of _ "ff f"])
      show "fm_id (ff f) = at_family_id a \<and> fm_device_id (ff f) = at_device_id a \<and>
          (fm_state (ff f) = FamilyActive \<longrightarrow> at_revoked_at a = None)"
        using act f(2,3,4) a(2) by (cases "fm_state (ff f) = FamilyActive") (simp_all add: F(1,2) A)
      show "ff f \<in> set (st_families t)" using f(1) by (simp add: tabs)
    qed
  qed
  moreover have "heads_ok t"
    using ok by (auto simp: store_ok_def heads_ok_def tabs R)
  moreover have "attempts_ok t"
    using ok unfolding store_ok_def attempts_ok_def attempt_in_tables_def tabs
    by (simp add: R A)
  ultimately show ?thesis by (simp add: store_ok_def)
qed

lemma revoke_active_families_Inr:
  assumes "revoke_active_families d t s = Inr (u, s')"
  shows "s' = s\<lparr>st_access := update_where (\<lambda>r. at_device_id r = d \<and> at_revoked_at r = None)
                  (\<lambda>r. r\<lparr>at_revoked_at := Some t\<rparr>) (st_access s),
        st_refresh := update_where (\<lambda>r. family_of_device s d (rt_family_id r) \<and> rt_revoked_at r = None)
                  (\<lambda>r. r\<lparr>rt_revoked_at := Some t\<rparr>) (st_refresh s),
        st_families := update_where (\<lambda>f. fm_device_id f = d \<and> fm_state f = FamilyActive)
                  (\<lambda>f. f\<lparr>fm_state := FamilyRevoked, fm_revoked_at := Some t\<rparr>) (st_families s)\<rparr> \<and>
     (\<forall>r\<in>set (st_access s). at_device_id r = d \<and> at_revoked_at r = None \<longrightarrow> access_check (r\<lparr>at_revoked_at := Some t\<rparr>)) \<and>
     (\<forall>r\<in>set (st_refresh s). family_of_device s d (rt_family_id r) \<and> rt_revoked_at r = None \<longrightarrow>
        refresh_check (r\<lparr>rt_revoked_at := Some t\<rparr>)) \<and>
     (\<forall>f\<in>set (st_families s). fm_device_id f = d \<and> fm_state f = FamilyActive \<longrightarrow>
        family_check (f\<lparr>fm_state := FamilyRevoked, fm_revoked_at := Some t\<rparr>))"
  using assms
  by (auto simp: revoke_active_families_def revoke_tokens_def on_tables transaction_simps family_of_device_def)

lemma revoke_active_families_ends:
  assumes ok: "store_ok s" and r: "revoke_active_families d t s = Inr (u, s')"
  shows "\<exists>ff fr fa. ends_families s ff fr fa s'"
proof -
  let ?ff = "\<lambda>f. if fm_device_id f = d \<and> fm_state f = FamilyActive
    then f\<lparr>fm_state := FamilyRevoked, fm_revoked_at := Some t\<rparr> else f"
  let ?fr = "\<lambda>r. if family_of_device s d (rt_family_id r) \<and> rt_revoked_at r = None
    then r\<lparr>rt_revoked_at := Some t\<rparr> else r"
  let ?fa = "\<lambda>r. if at_device_id r = d \<and> at_revoked_at r = None then r\<lparr>at_revoked_at := Some t\<rparr> else r"
  note post = revoke_active_families_Inr [OF r]
  have owner: "fm_device_id f = d"
    if "f \<in> set (st_families s)" "fm_id f = i" "family_of_device s d i" for f i
    using ok that by (auto simp: store_ok_def keys_ok_def family_of_device_def list_ex_iff dest: key_inject)
  have owner': "fm_device_id f = at_device_id a"
    if f: "f \<in> set (st_families s)" and a: "a \<in> set (st_access s)" and i: "at_family_id a = fm_id f" for f a
  proof -
    have "access_in_family s a" using ok a by (simp add: store_ok_def access_ok_def)
    then obtain g where g: "g \<in> set (st_families s)" "fm_id g = at_family_id a" "fm_device_id g = at_device_id a"
      by (rule access_in_familyE)
    have "distinct (map fm_id (st_families s))" using ok by (simp add: store_ok_def keys_ok_def)
    then have "f = g" by (rule key_inject) (use f g i in simp_all)
    then show ?thesis using g(3) by simp
  qed
  have "ends_families s ?ff ?fr ?fa s'"
    unfolding ends_families_def
  proof (intro conjI)
    show "token_tables s' = (map ?ff (st_families s), map ?fr (st_refresh s), map ?fa (st_access s), st_attempts s)"
      using post by (simp add: token_tables_def update_where_def)
    show "\<forall>f\<in>set (st_families s). family_check (?ff f)"
      using post ok by (simp add: store_ok_def families_ok_def)
    show "\<forall>r\<in>set (st_refresh s). refresh_check (?fr r)"
      using post ok by (simp add: store_ok_def refresh_ok_def)
    show "\<forall>a\<in>set (st_access s). access_check (?fa a)"
      using post ok by (simp add: store_ok_def access_ok_def)
    show "\<forall>f\<in>set (st_families s). fm_state (?ff f) = FamilyActive \<longrightarrow>
        (\<forall>r\<in>set (st_refresh s). rt_family_id r = fm_id f \<longrightarrow> ?fr r = r) \<and>
        (\<forall>a\<in>set (st_access s). at_family_id a = fm_id f \<longrightarrow> ?fa a = a)"
      using owner owner' by (auto split: if_splits)
  qed simp_all
  then show ?thesis by blast
qed

lemma compromise_family_ends:
  assumes ok: "store_ok s"
    and c: "\<forall>f\<in>set (st_families s). p f \<and> fm_state f = FamilyActive \<longrightarrow> family_check (g f)"
    and g: "\<And>f. fm_id (g f) = fm_id f \<and> fm_device_id (g f) = fm_device_id f \<and> fm_state (g f) \<noteq> FamilyActive"
  shows "ends_families s (\<lambda>f. if p f \<and> fm_state f = FamilyActive then g f else f) id id
    (s\<lparr>st_families := update_where (\<lambda>f. p f \<and> fm_state f = FamilyActive) g (st_families s)\<rparr>)"
  using ok c g
  by (auto simp: ends_families_def token_tables_def update_where_def store_ok_def families_ok_def
      refresh_ok_def access_ok_def)

lemma execute_devices_tables:
  "execute (on_devices f) s = Inr (u, t) \<Longrightarrow> token_tables t = token_tables s"
  by (auto simp: on_tables transaction_simps)

lemma fail_targeted_handoffs_tables:
  "fail_targeted_handoffs_for_device d t s = Inr (u, s') \<Longrightarrow> token_tables s' = token_tables s"
  by (auto simp: fail_targeted_handoffs_for_device_def on_tables transaction_simps)

lemma revoke_active_families_ok:
  "store_ok s \<Longrightarrow> revoke_active_families d t s = Inr (u, s') \<Longrightarrow> store_ok s'"
  using revoke_active_families_ends ends_families_ok by blast

lemma revoke_device_and_tokens_ok:
  assumes ok: "store_ok s" and r: "revoke_device_and_tokens d t s = Inr (u, s')"
  shows "store_ok s'"
proof -
  obtain s1 s2 where 1: "token_tables s1 = token_tables s"
    and 2: "revoke_active_families d t s1 = Inr ((), s2)" and 3: "token_tables s' = token_tables s2"
    using r by (auto simp: revoke_device_and_tokens_def exec_Inr execute_Inr
        dest!: fail_targeted_handoffs_tables dest: execute_devices_tables [unfolded execute_Inr])
  have "store_ok s1" using ok store_ok_cong [OF 1] by blast
  then have "store_ok s2" using 2 by (rule revoke_active_families_ok)
  then show ?thesis using store_ok_cong [OF 3] by blast
qed

lemma compromise_device_ok:
  assumes ok: "store_ok s" and r: "compromise_device device i t s = Inr (u, s')"
  shows "store_ok s'"
proof -
  let ?g = "\<lambda>f. f\<lparr>fm_state := Compromised, fm_revoked_at := Some (unwrap_or (fm_revoked_at f) t), fm_compromised_at := Some t\<rparr>"
  have c: "\<forall>f\<in>set (st_families s). fm_id f = i \<and> fm_state f = FamilyActive \<longrightarrow> family_check (?g f)"
    and s1: "revoke_device_and_tokens (dv_id device) t
      (s\<lparr>st_families := update_where (\<lambda>f. fm_id f = i \<and> fm_state f = FamilyActive) ?g (st_families s)\<rparr>) = Inr (u, s')"
    using r by (auto simp: compromise_device_def on_tables transaction_simps)
  show ?thesis
    by (rule revoke_device_and_tokens_ok [OF _ s1])
      (rule ends_families_ok [OF ok compromise_family_ends [OF ok c]], simp)
qed

section \<open>Registration\<close>

lemma claim_device_tables:
  "claim_device account requested s = Inr (d, t) \<Longrightarrow> token_tables t = token_tables s"
  by (auto simp: claim_device_def insert_device_if_absent_def lock_device_by_active_key_def
      update_verified_device_def on_tables transaction_simps split: if_splits option.splits)

lemma consume_receipt_tables:
  "consume_authorization_receipt p d session s = Inr (u, t) \<Longrightarrow> token_tables t = token_tables s"
  by (auto simp: consume_authorization_receipt_def on_tables transaction_simps)

definition fresh_session ::
  "device_store \<Rightarrow> token_family \<Rightarrow> access_row \<Rightarrow> refresh_row \<Rightarrow> bool" where
  "fresh_session s f a r \<longleftrightarrow>
     family_check f \<and> access_check a \<and> refresh_check r \<and>
     (\<forall>g\<in>set (st_families s). fm_id g \<noteq> fm_id f \<and>
        \<not> (fm_device_id g = fm_device_id f \<and> fm_state g = FamilyActive \<and> fm_state f = FamilyActive)) \<and>
     (\<forall>x\<in>set (st_access s). at_id x \<noteq> at_id a \<and> at_digest x \<noteq> at_digest a) \<and>
     (\<forall>x\<in>set (st_refresh s). rt_id x \<noteq> rt_id r \<and> rt_digest x \<noteq> rt_digest r) \<and>
     at_family_id a = fm_id f \<and> at_device_id a = fm_device_id f \<and> at_revoked_at a = None \<and>
     rt_family_id r = fm_id f \<and> rt_revoked_at r = None \<and> rt_expires_at r = fm_expires_at f"

lemma add_session_ok:
  assumes ok: "store_ok s" and n: "fresh_session s f a r"
    and t: "token_tables t = (st_families s @ [f], st_refresh s @ [r], st_access s @ [a], st_attempts s)"
  shows "store_ok t"
proof -
  have tabs: "st_families t = st_families s @ [f]" "st_refresh t = st_refresh s @ [r]"
    "st_access t = st_access s @ [a]" "st_attempts t = st_attempts s"
    using t by (simp_all add: token_tables_def)
  have parts: "keys_ok s" "families_ok s" "refresh_ok s" "access_ok s" "heads_ok s" "attempts_ok s"
    using ok by (simp_all add: store_ok_def)
  have "keys_ok t"
    using parts(1) n unfolding keys_ok_def fresh_session_def tabs by (auto simp: image_iff)
  moreover have "families_ok t"
    using parts(2) n unfolding families_ok_def fresh_session_def tabs by auto
  moreover have "refresh_ok t"
    using parts(3) n unfolding refresh_ok_def fresh_session_def token_in_family_def tabs by auto
  moreover have "access_ok t"
    using parts(4) n unfolding access_ok_def fresh_session_def access_in_family_def tabs by auto
  moreover have "heads_ok t"
  proof -
    have "rt_family_id x \<noteq> rt_family_id r" if x: "x \<in> set (st_refresh s)" for x
    proof -
      have "token_in_family s x" using parts(3) x by (simp add: refresh_ok_def)
      then obtain g where "g \<in> set (st_families s)" "fm_id g = rt_family_id x" by (rule token_in_familyE)
      then show ?thesis using n by (auto simp: fresh_session_def)
    qed
    then have other: "x \<in> set (st_refresh s) \<Longrightarrow> rt_family_id x = rt_family_id r \<Longrightarrow> False" for x by blast
    show ?thesis
      unfolding heads_ok_def
    proof (intro ballI impI)
      fix x y assume xy: "x \<in> set (st_refresh t)" "y \<in> set (st_refresh t)"
        and f: "rt_family_id x = rt_family_id y" and c: "rt_consumed_at x = None" "rt_consumed_at y = None"
      show "x = y"
      proof (cases "x \<in> set (st_refresh s) \<and> y \<in> set (st_refresh s)")
        case True
        then show ?thesis using parts(5) f c by (simp add: heads_ok_def)
      next
        case False
        then show ?thesis using xy f other [of x] other [of y] by (auto simp: tabs)
      qed
    qed
  qed
  moreover have "attempts_ok t"
    using parts(6) attempt_in_tables_mono [of s t] by (simp add: attempts_ok_def tabs subset_iff)
  ultimately show ?thesis by (simp add: store_ok_def)
qed

lemma family_new_Inr:
  "family_new i d c e = Inr f \<Longrightarrow> fm_id f = i \<and> fm_device_id f = d \<and> fm_expires_at f = e \<and>
     fm_state f = FamilyActive \<and> fm_created_at f = c \<and> fm_revoked_at f = None \<and> fm_compromised_at f = None"
  by (auto simp: family_new_def split: if_splits)

lemma registered_family_Inr:
  "registered_family d q = Inr f \<Longrightarrow> fm_id f = fm_id q \<and> fm_device_id f = d \<and>
     fm_expires_at f = fm_expires_at q \<and> fm_state f = FamilyActive \<and> fm_created_at f = fm_created_at q \<and>
     fm_revoked_at f = None \<and> fm_compromised_at f = None"
  by (cases "fm_authenticated_at q")
    (auto simp: registered_family_def result_simps with_authenticated_at_def dest!: family_new_Inr
      split: if_splits)

text \<open>A registration ends the sessions of the device and adds one.\<close>

lemma store_device_session_adds:
  assumes r: "store_device_session account requested session s = Inr (x, t)"
  obtains s2 s3 d family a r where "token_tables s2 = token_tables s"
    and "revoke_active_families d (sr_issued_at session) s2 = Inr ((), s3)" and "fresh_session s3 family a r"
    and "token_tables t = (st_families s3 @ [family], st_refresh s3 @ [r], st_access s3 @ [a], st_attempts s3)"
    and "rt_consumed_at r = None"
proof -
  obtain device family s1 s2 s3 where
    1: "claim_device account requested s = Inr (device, s1)"
    and 2: "consume_authorization_receipt (pp_id (pa_principal account)) (dv_id device) session s1 = Inr ((), s2)"
    and 3: "revoke_active_families (dv_id device) (sr_issued_at session) s2 = Inr ((), s3)"
    and f: "fm_revoked_at family = None" "fm_compromised_at family = None"
    and 4: "exec (insert_token_family family) (\<lambda>_. exec (insert_access_token (dv_id device) (fm_id family) (sr_access_id session)
                (sr_access_digest session) (sr_issued_at session) (sr_access_expires_at session)) (\<lambda>_.
        insert_refresh_token (fm_id family) (sr_refresh_id session) (sr_refresh_digest session) 0
                (sr_issued_at session) (fm_expires_at family))) s3 = Inr ((), t)"
    and d: "fm_device_id family = dv_id device"
    using r
    by (auto simp: store_device_session_def exec_Inr query_Inr done_with_Inr abort_Inr
        split: if_splits dest!: registered_family_Inr)
  have tabs: "token_tables s2 = token_tables s" using claim_device_tables [OF 1] consume_receipt_tables [OF 2] by simp
  let ?a = "\<lparr>at_id = sr_access_id session, at_family_id = fm_id family, at_device_id = dv_id device,
     at_digest = sr_access_digest session, at_issued_at = sr_issued_at session,
     at_expires_at = sr_access_expires_at session, at_revoked_at = None\<rparr>"
  let ?r = "\<lparr>rt_id = sr_refresh_id session, rt_family_id = fm_id family, rt_digest = sr_refresh_digest session,
     rt_sequence = 0, rt_issued_at = sr_issued_at session, rt_expires_at = fm_expires_at family,
     rt_consumed_at = None, rt_replaced_by = None, rt_revoked_at = None\<rparr>"
  have clear: "family\<lparr>fm_revoked_at := None, fm_compromised_at := None\<rparr> = family"
    using f by (simp add: token_family.equality)
  have "fresh_session s3 family ?a ?r \<and>
      token_tables t = (st_families s3 @ [family], st_refresh s3 @ [?r], st_access s3 @ [?a], st_attempts s3)"
    using 4 d
    by (auto simp: insert_token_family_def insert_access_token_def insert_refresh_token_def on_tables
        transaction_simps token_tables_def fresh_session_def clear)
  then show thesis using that [OF tabs 3, of family ?a ?r] by simp
qed

lemma store_device_session_ok:
  assumes ok: "store_ok s" and r: "store_device_session account requested session s = Inr (x, t)"
  shows "store_ok t"
proof (rule store_device_session_adds [OF r])
  fix s2 s3 d family a r
  assume 2: "token_tables s2 = token_tables s"
    and 3: "revoke_active_families d (sr_issued_at session) s2 = Inr ((), s3)" and n: "fresh_session s3 family a r"
    and t: "token_tables t = (st_families s3 @ [family], st_refresh s3 @ [r], st_access s3 @ [a], st_attempts s3)"
  have "store_ok s2" using ok store_ok_cong [OF 2] by blast
  then have "store_ok s3" using 3 by (rule revoke_active_families_ok)
  then show "store_ok t" using n t by (rule add_session_ok)
qed

end
