(* ===== verification/Device_Rotation.thy ===== *)
theory Device_Rotation
  imports Device_Store_Facts
begin

text \<open>
  The effect of a refresh-token rotation on the token tables, the preservation of their invariant by
  every transaction, and what the invariant gives: a token is rotated at most once, a reuse or a
  revocation ends every session of the device.
\<close>

section \<open>Rotation\<close>

lemma renew_token_family_Inr:
  assumes r: "renew_token_family locked rep s = Inr (family, t)"
    and l: "locked \<in> set (st_families s)" and k: "distinct (map fm_id (st_families s))"
    and a: "fm_state locked = FamilyActive"
  shows "family = locked\<lparr>fm_expires_at := fm_expires_at family\<rparr> \<and>
    fm_expires_at locked \<le> fm_expires_at family \<and>
    (fm_expires_at family = fm_expires_at locked \<or> family_check family) \<and>
    t = s\<lparr>st_families := map (\<lambda>f. if fm_id f = fm_id locked then family else f) (st_families s)\<rparr>"
proof -
  obtain fam where fam: "family_renew (tr_lifetime rep) (tr_issued_at rep) locked = (Inr (), fam)"
    using r by (auto simp: renew_token_family_def abort_Inr split: prod.splits sum.splits)
  then have f: "fam = locked\<lparr>fm_expires_at := fm_expires_at fam\<rparr> \<and> fm_expires_at locked \<le> fm_expires_at fam"
    by (cases "sl_renewed_until (tr_lifetime rep) (lifetime_anchor locked) (tr_issued_at rep)")
      (auto simp: family_renew_def split: if_splits)
  then have i: "fm_id fam = fm_id locked"
    by (metis token_family.ext_inject token_family.surjective token_family.update_convs(6))
  have same: "fm_id x = fm_id locked \<Longrightarrow> x \<in> set (st_families s) \<Longrightarrow> x = locked" for x
    using key_inject [OF k] l by blast
  show ?thesis
  proof (cases "fm_expires_at fam = fm_expires_at locked")
    case True
    then have "fam = locked" using f by simp
    moreover have "map (\<lambda>f. if fm_id f = fm_id locked then locked else f) (st_families s) = st_families s"
      using same by (auto intro!: map_idI dest!: same)
    moreover have "family = fam" "t = s"
      using r fam True by (simp_all add: renew_token_family_def done_with_Inr)
    ultimately show ?thesis using True by auto
  next
    case False
    have row: "x\<lparr>fm_expires_at := fm_expires_at fam\<rparr> = fam" if "x = locked" for x
      using f that by simp
    have "t = s\<lparr>st_families := update_where (\<lambda>f. fm_id f = fm_id fam \<and> fm_state f = FamilyActive)
            (\<lambda>f. f\<lparr>fm_expires_at := fm_expires_at fam\<rparr>) (st_families s)\<rparr>"
      and "family = fam"
      and "\<forall>x\<in>set (st_families s). fm_id x = fm_id fam \<and> fm_state x = FamilyActive \<longrightarrow>
             family_check (x\<lparr>fm_expires_at := fm_expires_at fam\<rparr>)"
      using r fam False
      by (auto simp: renew_token_family_def Let_def transaction_simps on_tables split: if_splits)
    moreover have "update_where (\<lambda>f. fm_id f = fm_id fam \<and> fm_state f = FamilyActive)
            (\<lambda>f. f\<lparr>fm_expires_at := fm_expires_at fam\<rparr>) (st_families s)
        = map (\<lambda>f. if fm_id f = fm_id locked then fam else f) (st_families s)"
      using same a by (auto simp: update_where_def i row)
    ultimately show ?thesis using f l a i row by auto
  qed
qed

lemma record_device_seen_tables:
  "record_device_seen d at s = Inr (e, t) \<Longrightarrow> token_tables t = token_tables s"
  by (auto simp: record_device_seen_def Let_def done_with_Inr abort_Inr exec_Inr
      dest: execute_devices_tables split: if_splits prod.splits sum.splits)

lemma device_record_seen_id: "device_record_seen at d = (x, e) \<Longrightarrow> dv_id e = dv_id d"
  by (auto simp: device_record_seen_def split: if_splits)

lemma record_device_seen_id: "record_device_seen d at s = Inr (e, t) \<Longrightarrow> dv_id e = dv_id d"
  by (auto simp: record_device_seen_def Let_def done_with_Inr abort_Inr exec_Inr
      dest: device_record_seen_id split: if_splits prod.splits sum.splits)

definition new_refresh_row :: "locked_context \<Rightarrow> token_replacement \<Rightarrow> utc_millis \<Rightarrow> refresh_row" where
  "new_refresh_row l rep expires_at =
     \<lparr>rt_id = tr_refresh_id rep, rt_family_id = fm_id (lk_family l), rt_digest = tr_refresh_digest rep,
      rt_sequence = lk_sequence l + 1, rt_issued_at = tr_issued_at rep, rt_expires_at = expires_at,
      rt_consumed_at = None, rt_replaced_by = None, rt_revoked_at = None\<rparr>"

definition new_access_row :: "locked_context \<Rightarrow> token_replacement \<Rightarrow> access_row" where
  "new_access_row l rep =
     \<lparr>at_id = tr_access_id rep, at_family_id = fm_id (lk_family l), at_device_id = dv_id (lk_device l),
      at_digest = tr_access_digest rep, at_issued_at = tr_issued_at rep,
      at_expires_at = tr_access_expires_at rep, at_revoked_at = None\<rparr>"

definition consumed_row :: "token_replacement \<Rightarrow> refresh_row \<Rightarrow> refresh_row" where
  "consumed_row rep r = r\<lparr>rt_consumed_at := Some (tr_issued_at rep), rt_replaced_by := Some (tr_refresh_id rep)\<rparr>"

definition new_attempts :: "locked_context \<Rightarrow> token_replacement \<Rightarrow> attempt_row list" where
  "new_attempts l rep =
     (case tr_replay rep of
        None \<Rightarrow> []
      | Some p \<Rightarrow> [\<lparr>ra_refresh_id = lk_refresh_id l, ra_attempt_id = rp_attempt_id p,
                    ra_successor_id = tr_refresh_id rep, ra_access_id = tr_access_id rep,
                    ra_salt = Some (rp_salt p), ra_created_at = tr_issued_at rep\<rparr>])"

text \<open>The effect of a rotation on the four tables.\<close>

definition rotated_tables ::
  "device_store \<Rightarrow> locked_context \<Rightarrow> refresh_row \<Rightarrow> token_replacement \<Rightarrow> token_family \<Rightarrow> device_store \<Rightarrow> bool" where
  "rotated_tables s l r rep family t \<longleftrightarrow>
     family = (lk_family l)\<lparr>fm_expires_at := fm_expires_at family\<rparr> \<and> family_check family \<and>
     refresh_check (new_refresh_row l rep (fm_expires_at family)) \<and> access_check (new_access_row l rep) \<and>
     refresh_check (consumed_row rep r) \<and> (\<forall>a\<in>set (new_attempts l rep). attempt_check a) \<and>
     (\<forall>x\<in>set (st_refresh s). rt_id x \<noteq> tr_refresh_id rep \<and> rt_digest x \<noteq> tr_refresh_digest rep) \<and>
     (\<forall>x\<in>set (st_access s). at_id x \<noteq> tr_access_id rep \<and> at_digest x \<noteq> tr_access_digest rep) \<and>
     (new_attempts l rep \<noteq> [] \<longrightarrow> (\<forall>a\<in>set (st_attempts s). ra_refresh_id a \<noteq> rt_id r)) \<and>
     st_families t = map (\<lambda>f. if fm_id f = fm_id family then family else f) (st_families s) \<and>
     st_refresh t = map (\<lambda>x. if x = r then consumed_row rep r else x) (st_refresh s) @
       [new_refresh_row l rep (fm_expires_at family)] \<and>
     st_access t = st_access s @ [new_access_row l rep] \<and>
     st_attempts t = map (\<lambda>a. if ra_successor_id a = rt_id r then a\<lparr>ra_salt := None\<rparr> else a) (st_attempts s) @
       new_attempts l rep"

lemma rotation_tables:
  assumes ok: "store_ok s" and c: "context_of s digest l r" and u: "rt_consumed_at r = None"
    and a: "fm_state (lk_family l) = FamilyActive"
    and p: "persist_refresh_replacement l rep s = Inr (session, s1)"
    and q: "record_refresh_attempt l rep s1 = Inr (x, t)"
  shows "rotated_tables s l r rep (ss_family session) t \<and>
    ss_account session = lk_account l \<and> ss_access_expires_at session = tr_access_expires_at rep \<and>
    dv_id (ss_device session) = dv_id (lk_device l)"
proof -
  let ?f = "ss_family session"
  have k: "distinct (map fm_id (st_families s))" "distinct (map rt_id (st_refresh s))"
    using ok by (simp_all add: store_ok_def keys_ok_def)
  note row = context_of_row [OF c]
  have rid: "lk_refresh_id l = rt_id r" and sq: "lk_sequence l = rt_sequence r"
    using c by (simp_all add: context_of_def)
  obtain s2 s3 s4 s5 d where
    1: "renew_token_family (lk_family l) rep s = Inr (?f, s2)"
    and 2: "record_device_seen (lk_device l) (tr_issued_at rep) s2 = Inr (d, s3)"
    and 3: "on_access (insert_row access_check (\<lambda>r. at_id r = tr_access_id rep \<or> at_digest r = tr_access_digest rep)
             (new_access_row l rep)) s3 = Inr s4"
    and 4: "on_refresh (insert_row refresh_check
             (\<lambda>x. rt_id x = tr_refresh_id rep \<or> rt_digest x = tr_refresh_digest rep \<or>
                  rt_family_id x = fm_id (lk_family l) \<and> rt_sequence x = lk_sequence l + 1)
             (new_refresh_row l rep (fm_expires_at ?f))) s4 = Inr s5"
    and 5: "on_refresh (update_checked refresh_check (\<lambda>x. rt_id x = rt_id r \<and> rt_consumed_at x = None)
             (consumed_row rep)) s5 = Inr s1"
    and sess: "ss_account session = lk_account l" "ss_device session = d"
      "ss_access_expires_at session = tr_access_expires_at rep"
    using p
    by (auto simp: persist_refresh_replacement_def insert_access_token_def insert_refresh_token_def
        exec_Inr query_Inr execute_Inr done_with_Inr new_access_row_def new_refresh_row_def
        consumed_row_def [abs_def] rid)
  note f = renew_token_family_Inr [OF 1 row(3) k(1) a]
  have fam: "family_check ?f"
  proof (cases "fm_expires_at ?f = fm_expires_at (lk_family l)")
    case True
    then have "?f = lk_family l" using f by simp
    then show ?thesis using ok row(3) by (simp add: store_ok_def families_ok_def)
  next
    case False
    then show ?thesis using f by blast
  qed
  have fid: "fm_id ?f = fm_id (lk_family l)"
    using f by (metis token_family.ext_inject token_family.surjective token_family.update_convs(6))
  have t3: "st_families s3 = st_families s2" "st_refresh s3 = st_refresh s2" "st_access s3 = st_access s2"
    "st_attempts s3 = st_attempts s2"
    using record_device_seen_tables [OF 2] by (simp_all add: token_tables_def)
  have t2: "st_families s2 = map (\<lambda>g. if fm_id g = fm_id ?f then ?f else g) (st_families s)"
    "st_refresh s2 = st_refresh s" "st_access s2 = st_access s" "st_attempts s2 = st_attempts s"
    using f by (simp_all add: fid)
  have s4: "s4 = s3\<lparr>st_access := st_access s @ [new_access_row l rep]\<rparr>" "access_check (new_access_row l rep)"
    "\<forall>x\<in>set (st_access s). at_id x \<noteq> tr_access_id rep \<and> at_digest x \<noteq> tr_access_digest rep"
    using 3 t3 t2 by (auto simp: on_tables transaction_simps)
  let ?n = "new_refresh_row l rep (fm_expires_at ?f)"
  have s5: "s5 = s4\<lparr>st_refresh := st_refresh s @ [?n]\<rparr>" "refresh_check ?n"
    "\<forall>x\<in>set (st_refresh s). rt_id x \<noteq> tr_refresh_id rep \<and> rt_digest x \<noteq> tr_refresh_digest rep"
    using 4 t3 t2 s4(1) by (auto simp: on_tables transaction_simps)
  have new: "rt_id ?n \<noteq> rt_id r" using s5(3) row(1) by (auto simp: new_refresh_row_def)
  have is_r: "x = r" if "x \<in> set (st_refresh s)" "rt_id x = rt_id r" for x
    using key_inject [OF k(2) that(1) row(1) that(2)] .
  have upd: "update_where (\<lambda>x. rt_id x = rt_id r \<and> rt_consumed_at x = None) (consumed_row rep) (st_refresh s @ [?n])
      = map (\<lambda>x. if x = r then consumed_row rep r else x) (st_refresh s) @ [?n]"
    using new is_r u by (auto simp: update_where_def)
  have s1: "s1 = s5\<lparr>st_refresh := map (\<lambda>x. if x = r then consumed_row rep r else x) (st_refresh s) @ [?n]\<rparr>"
    "refresh_check (consumed_row rep r)"
    using 5 s5(1) upd u row(1) by (auto simp: on_tables transaction_simps)
  have att: "update_where (\<lambda>a. ra_successor_id a = rt_id r \<and> ra_salt a \<noteq> None) (\<lambda>a. a\<lparr>ra_salt := None\<rparr>) (st_attempts s)
      = map (\<lambda>a. if ra_successor_id a = rt_id r then a\<lparr>ra_salt := None\<rparr> else a) (st_attempts s)"
    by (auto simp: update_where_def)
  let ?old = "map (\<lambda>a. if ra_successor_id a = rt_id r then a\<lparr>ra_salt := None\<rparr> else a) (st_attempts s)"
  have t: "t = s1\<lparr>st_attempts := map (\<lambda>a. if ra_successor_id a = rt_id r then a\<lparr>ra_salt := None\<rparr> else a) (st_attempts s)
        @ new_attempts l rep\<rparr>"
    and at: "\<forall>a\<in>set (new_attempts l rep). attempt_check a"
    and pre: "new_attempts l rep \<noteq> [] \<longrightarrow> list_all (\<lambda>a. ra_refresh_id a \<noteq> rt_id r) ?old"
    using q s1(1) s5(1) s4(1) t3 t2 att
    by (auto simp: record_refresh_attempt_def on_tables transaction_simps rid new_attempts_def list_all_iff
        simp del: set_map split: option.splits)
  have "list_all (\<lambda>a. ra_refresh_id a \<noteq> rt_id r) ?old \<longleftrightarrow> (\<forall>a\<in>set (st_attempts s). ra_refresh_id a \<noteq> rt_id r)"
    unfolding list.pred_map by (auto simp: list_all_iff)
  with pre have fresh: "new_attempts l rep \<noteq> [] \<longrightarrow> (\<forall>a\<in>set (st_attempts s). ra_refresh_id a \<noteq> rt_id r)"
    by simp
  show ?thesis
    unfolding rotated_tables_def
    using f fam fid t at fresh s1 s5 s4 t3 t2 sess record_device_seen_id [OF 2] by simp
qed

lemma rotated_ok:
  assumes ok: "store_ok s" and c: "context_of s digest l r" and u: "rt_consumed_at r = None"
    and a: "fm_state (lk_family l) = FamilyActive" and rot: "rotated_tables s l r rep family t"
  shows "store_ok t"
proof -
  let ?F = "lk_family l" and ?n = "new_refresh_row l rep (fm_expires_at family)" and ?x = "new_access_row l rep"
  have parts: "keys_ok s" "families_ok s" "refresh_ok s" "access_ok s" "heads_ok s" "attempts_ok s"
    using ok by (simp_all add: store_ok_def)
  note row = context_of_row [OF c]
  have rid: "lk_refresh_id l = rt_id r" using c by (simp add: context_of_def)
  have fam: "fm_id family = fm_id ?F" "fm_device_id family = fm_device_id ?F" "fm_state family = FamilyActive"
    using rot a unfolding rotated_tables_def
    by (metis token_family.select_convs token_family.surjective token_family.update_convs(6))+
  have tabs: "st_families t = map (\<lambda>f. if fm_id f = fm_id family then family else f) (st_families s)"
    "st_refresh t = map (\<lambda>x. if x = r then consumed_row rep r else x) (st_refresh s) @ [?n]"
    "st_access t = st_access s @ [?x]"
    "st_attempts t = map (\<lambda>a. if ra_successor_id a = rt_id r then a\<lparr>ra_salt := None\<rparr> else a) (st_attempts s) @
       new_attempts l rep"
    using rot by (simp_all add: rotated_tables_def)
  have is_F: "f = ?F" if "f \<in> set (st_families s)" "fm_id f = fm_id ?F" for f
    using key_inject [OF _ that(1) row(3) that(2)] parts(1) by (simp add: keys_ok_def)
  have F_in: "family \<in> set (st_families t)"
    using row(3) fam(1) by (auto simp: tabs image_iff)
  have others: "f \<in> set (st_families t)" if "f \<in> set (st_families s)" "fm_id f \<noteq> fm_id ?F" for f
    using that fam(1) by (auto simp: tabs)
  have keys: "map fm_id (st_families t) = map fm_id (st_families s)"
    "map rt_id (st_refresh t) = map rt_id (st_refresh s) @ [tr_refresh_id rep]"
    "map rt_digest (st_refresh t) = map rt_digest (st_refresh s) @ [tr_refresh_digest rep]"
    "map at_id (st_access t) = map at_id (st_access s) @ [tr_access_id rep]"
    "map at_digest (st_access t) = map at_digest (st_access s) @ [tr_access_digest rep]"
    "map ra_refresh_id (st_attempts t) = map ra_refresh_id (st_attempts s) @ map ra_refresh_id (new_attempts l rep)"
    by (auto simp: tabs new_refresh_row_def new_access_row_def consumed_row_def)
  have fresh: "\<forall>x\<in>set (st_refresh s). rt_id x \<noteq> tr_refresh_id rep \<and> rt_digest x \<noteq> tr_refresh_digest rep"
    "\<forall>x\<in>set (st_access s). at_id x \<noteq> tr_access_id rep \<and> at_digest x \<noteq> tr_access_digest rep"
    "new_attempts l rep \<noteq> [] \<longrightarrow> (\<forall>a\<in>set (st_attempts s). ra_refresh_id a \<noteq> rt_id r)"
    using rot by (simp_all add: rotated_tables_def)
  have "keys_ok t"
    unfolding keys_ok_def keys using parts(1) fresh
    by (auto simp: keys_ok_def new_attempts_def rid split: option.splits)
  moreover have "families_ok t"
    unfolding families_ok_def
  proof (intro ballI conjI impI)
    fix f assume f: "f \<in> set (st_families t)"
    show "family_check f" using f rot parts(2) by (auto simp: tabs rotated_tables_def families_ok_def)
    fix g assume g: "g \<in> set (st_families t)" and d: "fm_device_id f = fm_device_id g"
      and act: "fm_state f = FamilyActive" "fm_state g = FamilyActive"
    have old: "\<exists>h\<in>set (st_families s). fm_id h = fm_id x \<and> fm_device_id h = fm_device_id x \<and> fm_state h = fm_state x \<and>
        (fm_id x \<noteq> fm_id family \<longrightarrow> h = x) \<and> (fm_id x = fm_id family \<longrightarrow> x = family)"
      if "x \<in> set (st_families t)" for x
      using that row(3) fam a by (auto simp: tabs)
    show "f = g"
      using old [OF f] old [OF g] parts(2) d act unfolding families_ok_def by metis
  qed
  moreover have "refresh_ok t"
    unfolding refresh_ok_def
  proof (intro ballI conjI)
    fix x assume x: "x \<in> set (st_refresh t)"
    show "refresh_check x" using x rot parts(3) by (auto simp: tabs rotated_tables_def refresh_ok_def)
    show "token_in_family t x"
    proof (cases "x = ?n")
      case True
      then show ?thesis using F_in fam by (auto simp: token_in_family_def new_refresh_row_def)
    next
      case False
      then obtain y where y: "y \<in> set (st_refresh s)" "x = (if y = r then consumed_row rep r else y)"
        using x by (auto simp: tabs)
      have "token_in_family s y" using parts(3) y(1) by (simp add: refresh_ok_def)
      then obtain f where f: "f \<in> set (st_families s)" "fm_id f = rt_family_id y"
        "fm_state f = FamilyActive \<longrightarrow> rt_revoked_at y = None \<and> (rt_consumed_at y = None \<longrightarrow> rt_expires_at y = fm_expires_at f)"
        by (rule token_in_familyE)
      have same: "rt_family_id x = rt_family_id y" "rt_revoked_at x = rt_revoked_at y" "y \<noteq> r \<longrightarrow> x = y"
        "y = r \<longrightarrow> rt_consumed_at x \<noteq> None"
        using y(2) by (simp_all add: consumed_row_def)
      show ?thesis
      proof (cases "fm_id f = fm_id ?F")
        case True
        then have "f = ?F" using is_F f(1) by simp
        moreover have "rt_consumed_at x \<noteq> None"
        proof (cases "y = r")
          case False
          then have "rt_consumed_at y \<noteq> None"
            using parts(5) y(1) row(1,4) f(2) True u unfolding heads_ok_def by metis
          then show ?thesis using same(3) False by simp
        qed (use same(4) in simp)
        ultimately show ?thesis
          using F_in fam f same a by (auto simp: token_in_family_def)
      next
        case False
        then have "y \<noteq> r" using f(2) row(4) by auto
        then show ?thesis
          using others [OF f(1) False] f same by (auto simp: token_in_family_def)
      qed
    qed
  qed
  moreover have "access_ok t"
    unfolding access_ok_def
  proof (intro ballI conjI)
    fix x assume x: "x \<in> set (st_access t)"
    show "access_check x" using x rot parts(4) by (auto simp: tabs rotated_tables_def access_ok_def)
    show "access_in_family t x"
    proof (cases "x = ?x")
      case True
      then show ?thesis using F_in fam row(5) by (auto simp: access_in_family_def new_access_row_def)
    next
      case False
      then have "x \<in> set (st_access s)" using x by (simp add: tabs)
      then have "access_in_family s x" using parts(4) by (simp add: access_ok_def)
      then obtain f where f: "f \<in> set (st_families s)" "fm_id f = at_family_id x"
        "fm_device_id f = at_device_id x" "fm_state f = FamilyActive \<longrightarrow> at_revoked_at x = None"
        by (rule access_in_familyE)
      show ?thesis
      proof (cases "fm_id f = fm_id ?F")
        case True
        then have "f = ?F" using is_F f(1) by simp
        then show ?thesis using F_in fam f a by (auto simp: access_in_family_def)
      next
        case False
        then show ?thesis using others [OF f(1) False] f by (auto simp: access_in_family_def)
      qed
    qed
  qed
  moreover have "heads_ok t"
    unfolding heads_ok_def
  proof (intro ballI impI)
    fix x y assume xy: "x \<in> set (st_refresh t)" "y \<in> set (st_refresh t)"
      and f: "rt_family_id x = rt_family_id y" and cc: "rt_consumed_at x = None" "rt_consumed_at y = None"
    have cr: "rt_consumed_at (consumed_row rep r) \<noteq> None" by (simp add: consumed_row_def)
    have old: "z = ?n \<or> (z \<in> set (st_refresh s) \<and> rt_family_id z \<noteq> rt_family_id r)"
      if "z \<in> set (st_refresh t)" "rt_consumed_at z = None" for z
    proof -
      have "z = ?n \<or> z \<in> set (st_refresh s) \<and> z \<noteq> r"
        using that cr by (auto simp: tabs split: if_splits)
      then show ?thesis using parts(5) row(1) u that(2) unfolding heads_ok_def by metis
    qed
    have n: "rt_family_id ?n = rt_family_id r" using row(4) by (simp add: new_refresh_row_def)
    show "x = y"
      using old [OF xy(1) cc(1)] old [OF xy(2) cc(2)] f n cc parts(5) unfolding heads_ok_def by metis
  qed
  moreover have "attempts_ok t"
    unfolding attempts_ok_def
  proof (intro ballI conjI)
    fix a assume a: "a \<in> set (st_attempts t)"
    show "attempt_check a"
      using a rot parts(6) by (auto simp: tabs rotated_tables_def attempts_ok_def attempt_check_def)
    have keep: "(if y = r then consumed_row rep r else y) \<in> set (st_refresh t)" if "y \<in> set (st_refresh s)" for y
      using that by (auto simp: tabs)
    have n_in: "?n \<in> set (st_refresh t)" and x_in: "?x \<in> set (st_access t)" by (simp_all add: tabs)
    show "attempt_in_tables t a"
    proof (cases "a \<in> set (new_attempts l rep)")
      case True
      have c_in: "consumed_row rep r \<in> set (st_refresh t)" using keep [OF row(1)] by simp
      show ?thesis
        unfolding attempt_in_tables_def
        by (rule bexI [OF _ c_in], rule bexI [OF _ n_in], rule bexI [OF _ x_in])
          (use True row(4) in \<open>auto simp: new_attempts_def rid consumed_row_def new_refresh_row_def
            new_access_row_def split: option.splits\<close>)
    next
      case False
      then obtain b where b: "b \<in> set (st_attempts s)"
        "a = (if ra_successor_id b = rt_id r then b\<lparr>ra_salt := None\<rparr> else b)"
        using a by (auto simp: tabs)
      have "attempt_in_tables s b" using parts(6) b(1) by (simp add: attempts_ok_def)
      then obtain r0 n0 x0 where m: "r0 \<in> set (st_refresh s)" "n0 \<in> set (st_refresh s)" "x0 \<in> set (st_access s)"
        and e: "rt_id r0 = ra_refresh_id b" "rt_id n0 = ra_successor_id b" "at_id x0 = ra_access_id b"
          "rt_replaced_by r0 = Some (rt_id n0)" "rt_family_id n0 = rt_family_id r0"
          "at_family_id x0 = rt_family_id r0" "ra_salt b \<noteq> None \<longrightarrow> rt_consumed_at n0 = None"
        unfolding attempt_in_tables_def by (elim bexE conjE) (rule that)
      have "rt_replaced_by r = None"
        using parts(3) row(1) u by (simp add: refresh_ok_def refresh_check_def)
      then have "r0 \<noteq> r" using e(4) by auto
      then have r0: "r0 \<in> set (st_refresh t)" using keep [OF m(1)] by simp
      have n0: "ra_successor_id b = rt_id r \<longleftrightarrow> n0 = r"
        using e(2) key_inject [OF _ m(2) row(1)] parts(1) by (auto simp: keys_ok_def)
      have x0: "x0 \<in> set (st_access t)" using m(3) by (simp add: tabs)
      show ?thesis
        unfolding attempt_in_tables_def
        by (rule bexI [OF _ r0], rule bexI [OF _ keep [OF m(2)]], rule bexI [OF _ x0])
          (use e b(2) n0 in \<open>auto simp: consumed_row_def split: if_splits\<close>)
    qed
  qed
  ultimately show ?thesis by (simp add: store_ok_def)
qed

section \<open>Every transaction keeps the invariant\<close>

text \<open>The branches of a rotation.\<close>

lemma rotate_cases:
  assumes "rotate_refresh_transaction digest rep s = Inr (out, t)"
  obtains (rejected) "out = Rejected" and "t = s"
    | (replayed) l r p where "context_of s digest l r" and "\<not> rotation_refused l (tr_issued_at rep)"
        and "rt_consumed_at r \<noteq> None" and "tr_replay rep = Some p" and "t = s"
        and "replay_refresh_attempt l p (tr_issued_at rep) s = Inr (Some out, s)"
    | (reuse) l r where "context_of s digest l r" and "\<not> rotation_refused l (tr_issued_at rep)"
        and "rt_consumed_at r \<noteq> None"
        and "\<forall>p. tr_replay rep = Some p \<longrightarrow> replay_refresh_attempt l p (tr_issued_at rep) s = Inr (None, s)"
        and "compromise_device (lk_device l) (fm_id (lk_family l)) (tr_issued_at rep) s = Inr ((), t)"
        and "out = ReuseDetected (dv_id (lk_device l)) (pp_id (pa_principal (lk_account l)))"
    | (rotated) l r session s1 where "context_of s digest l r" and "\<not> rotation_refused l (tr_issued_at rep)"
        and "rt_consumed_at r = None" and "persist_refresh_replacement l rep s = Inr (session, s1)"
        and "record_refresh_attempt l rep s1 = Inr ((), t)"
        and "out = Rotated session (fm_expires_at (ss_family session))"
proof -
  obtain found s0 where lock: "lock_refresh_context digest s = Inr (found, s0)"
    and rest: "(case found of None \<Rightarrow> done_with Rejected
     | Some l \<Rightarrow>
         if rotation_refused l (tr_issued_at rep) then done_with Rejected
         else if lk_consumed l then
           exec (case tr_replay rep of
                   None \<Rightarrow> done_with None
                 | Some requested \<Rightarrow> replay_refresh_attempt l requested (tr_issued_at rep)) (\<lambda>replayed.
           case replayed of
             Some outcome \<Rightarrow> done_with outcome
           | None \<Rightarrow>
               exec (compromise_device (lk_device l) (fm_id (lk_family l)) (tr_issued_at rep)) (\<lambda>_.
               done_with (ReuseDetected (dv_id (lk_device l)) (pp_id (pa_principal (lk_account l))))))
         else
           exec (persist_refresh_replacement l rep) (\<lambda>session.
           exec (record_refresh_attempt l rep) (\<lambda>_.
           done_with (Rotated session (fm_expires_at (ss_family session)))))) s0 = Inr (out, t)"
    using assms unfolding rotate_refresh_transaction_def exec_Inr by blast
  have replay_state: "u = s" if "replay_refresh_attempt l p now s = Inr (x, u)" for l p now x u
    using that by (simp add: replay_refresh_attempt_def query_Inr)
  show thesis
  proof (cases found)
    case None
    then show thesis
      using rest lock_refresh_context_None [of digest s s0] lock rejected by (simp add: done_with_Inr)
  next
    case (Some l)
    then obtain r where c: "context_of s digest l r" and s0: "s0 = s"
      using lock lock_refresh_context_Some by blast
    have cons: "lk_consumed l \<longleftrightarrow> rt_consumed_at r \<noteq> None" using c by (simp add: context_of_def)
    show thesis
    proof (cases "rotation_refused l (tr_issued_at rep)")
      case True
      then show thesis using rest Some s0 rejected by (simp add: done_with_Inr)
    next
      case open_: False
      show thesis
      proof (cases "lk_consumed l")
        case True
        then have consumed: "rt_consumed_at r \<noteq> None" using cons by simp
        obtain x u where x: "(case tr_replay rep of
              None \<Rightarrow> done_with None
            | Some requested \<Rightarrow> replay_refresh_attempt l requested (tr_issued_at rep)) s = Inr (x, u)"
          and y: "(case x of
             Some outcome \<Rightarrow> done_with outcome
           | None \<Rightarrow>
               exec (compromise_device (lk_device l) (fm_id (lk_family l)) (tr_issued_at rep)) (\<lambda>_.
               done_with (ReuseDetected (dv_id (lk_device l)) (pp_id (pa_principal (lk_account l)))))) u = Inr (out, t)"
          using rest Some s0 True open_ unfolding exec_Inr by (auto simp: exec_Inr)
        have u: "u = s" using x replay_state by (auto simp: done_with_Inr split: option.splits)
        show thesis
        proof (cases x)
          case None
          then show thesis
            using x y u reuse [OF c open_ consumed]
            by (cases "tr_replay rep") (auto simp: exec_Inr done_with_Inr)
        next
          case (Some o')
          then obtain p where "tr_replay rep = Some p"
            using x by (auto simp: done_with_Inr split: option.splits)
          then show thesis
            using x y u Some replayed [OF c open_ consumed] by (auto simp: done_with_Inr)
        qed
      next
        case False
        then have "rt_consumed_at r = None" using cons by simp
        then show thesis
          using rest Some s0 False open_
          by (auto simp: exec_Inr done_with_Inr intro: rotated [OF c open_])
      qed
    qed
  qed
qed

lemma rotation_open:
  "\<not> rotation_refused l now \<Longrightarrow> fm_state (lk_family l) = FamilyActive \<and> now < fm_expires_at (lk_family l) \<and>
     dv_trust (lk_device l) = Verified \<and> \<not> lk_revoked l \<and> now < lk_expires_at l \<and>
     pp_status (pa_principal (lk_account l)) = PrincipalActive"
  by (auto simp: rotation_refused_def allows_rotation_def accepts_authenticated_requests_def
      allows_authentication_def not_le)

lemma rotate_refresh_transaction_ok:
  assumes ok: "store_ok s" and r: "rotate_refresh_transaction digest rep s = Inr (out, t)"
  shows "store_ok t"
  using r
proof (cases rule: rotate_cases)
  case (reuse l r)
  then show ?thesis using compromise_device_ok [OF ok] by blast
next
  case (rotated l r session s1)
  then show ?thesis
    using rotation_tables [OF ok rotated(1,3) _ rotated(4,5)] rotated_ok [OF ok rotated(1,3)] rotation_open by blast
qed (use ok in simp_all)

lemma register_device_transaction_ok:
  assumes ok: "store_ok s" and r: "register_device_transaction g d session s = Inr (x, t)"
  shows "store_ok t"
proof -
  obtain s1 a where 1: "insert_principal_if_absent g s = Inr ((), s1)"
    and 2: "store_device_session a d session s1 = Inr (x, t)"
    using r by (auto simp: register_device_transaction_def exec_Inr lock_account_by_oidc_def query_Inr)
  have "token_tables s1 = token_tables s"
    using 1 by (auto simp: insert_principal_if_absent_def on_tables transaction_simps split: if_splits)
  then show ?thesis using store_device_session_ok [OF _ 2] ok store_ok_cong by blast
qed

lemma register_with_grant_session:
  "register_with_grant g d session s = Inr (x, t) \<Longrightarrow>
     \<exists>a rows. store_device_session a d session (s\<lparr>st_grants := rows\<rparr>) = Inr (x, t)"
  by (auto simp: register_with_grant_def Let_def exec_Inr lock_account_by_id_def transaction_simps on_tables
      split: if_splits)

lemma register_with_grant_ok:
  assumes ok: "store_ok s" and r: "register_with_grant g d session s = Inr (x, t)"
  shows "store_ok t"
proof -
  obtain a rows where "store_device_session a d session (s\<lparr>st_grants := rows\<rparr>) = Inr (x, t)"
    using register_with_grant_session [OF r] by blast
  moreover have "store_ok (s\<lparr>st_grants := rows\<rparr>)" using ok store_ok_cong [OF token_tables_simps(3)] by blast
  ultimately show ?thesis by (rule store_device_session_ok [rotated])
qed

lemma queue_departures_tables:
  "queue_revoked_agent_departures d at s = Inr (u, t) \<Longrightarrow> token_tables t = token_tables s"
  by (auto simp: queue_revoked_agent_departures_def execute_Inr)

text \<open>The states of a revocation: unchanged, or revoked and then only departures queued.\<close>

lemma revoke_device_transaction_state:
  assumes "revoke_device_transaction p d at s = Inr (x, t)"
  obtains "x = DeviceNotFound" and "t = s"
    | pending where "x = AlreadyRevoked pending" and "token_tables t = token_tables s"
    | pending s1 where "x = DeviceRevokedNow pending"
        and "revoke_device_and_tokens d at s = Inr ((), s1)" and "token_tables t = token_tables s1"
proof -
  have id: "dv_id e = d"
    if "List.find (\<lambda>r. dv_id (dr_device r) = d \<and> dv_principal_id (dr_device r) = p) (st_devices s) = Some row"
      and "decode_device row = Inr e" for row e
    using that find_member decode_device_Inr by fastforce
  show thesis
    using assms that
    by (auto simp: revoke_device_transaction_def exec_Inr query_Inr done_with_Inr Let_def
        pending_matrix_devices_def dest!: id queue_departures_tables split: option.splits if_splits)
qed

lemma revoke_device_transaction_ok:
  assumes ok: "store_ok s" and r: "revoke_device_transaction p d at s = Inr (x, t)"
  shows "store_ok t"
  using r
proof (cases rule: revoke_device_transaction_state)
  case (3 pending s1)
  then show ?thesis using revoke_device_and_tokens_ok [OF ok 3(2)] store_ok_cong by blast
qed (use ok store_ok_cong in blast)+

end
