(* ===== verification/Device_Sessions.thy ===== *)
theory Device_Sessions
  imports Device_Rotation
begin

text \<open>
  What the device tables guarantee over any sequence of transactions, whatever the failures of the
  database: the invariant of the token tables, that a refresh token is exchanged at most once, and
  that a device which was revoked, by its owner or because a token was reused, never authenticates
  again.
\<close>

section \<open>Sequences of transactions\<close>

datatype store_command =
    RegisterDevice principal_registration device session_registration
  | RegisterWithGrant computer_grant device session_registration
  | InsertGrant computer_grant
  | RotateRefresh secret_digest token_replacement
  | ConsumeNonce device_id secret_digest utc_millis utc_millis
  | RevokeOwnedDevice principal_id device_id utc_millis
  | MarkMatrixRevoked agent_instance_id utc_millis

definition forget_result :: "('a, 's) transaction \<Rightarrow> (unit, 's) transaction" where
  "forget_result m = exec m (\<lambda>_. done_with ())"

fun command_body :: "store_command \<Rightarrow> unit device_txn" where
  "command_body (RegisterDevice g d session) = forget_result (register_device_transaction g d session)"
| "command_body (RegisterWithGrant g d session) = forget_result (register_with_grant g d session)"
| "command_body (InsertGrant g) = insert_grant g"
| "command_body (RotateRefresh digest rep) = forget_result (rotate_refresh_transaction digest rep)"
| "command_body (ConsumeNonce d n at expiry) = forget_result (consume_nonce d n at expiry)"
| "command_body (RevokeOwnedDevice p d t) = forget_result (revoke_device_transaction p d t)"
| "command_body (MarkMatrixRevoked i t) = mark_matrix_device_revoked i t"

fun store_step :: "store_fault \<times> store_command \<Rightarrow> device_store \<Rightarrow> unit repository_result \<times> device_store" where
  "store_step (fault, c) s = run_transaction fault (command_body c) s"

definition empty_store :: device_store where
  "empty_store =
     \<lparr>st_principals = [], st_devices = [], st_families = [], st_refresh = [], st_access = [],
      st_attempts = [], st_nonces = [], st_receipts = [], st_grants = [], st_instances = [],
      st_matrix_users = [], st_handoffs = [], st_reservations = [], st_catalog_kinds = [],
      st_network_instances = [], st_departures = []\<rparr>"

lemma forget_result_Inr [transaction_simps]:
  "forget_result m s = Inr (u, t) \<longleftrightarrow> (\<exists>x. m s = Inr (x, t))"
  by (auto simp: forget_result_def exec_Inr done_with_Inr)

lemma store_step_state:
  obtains "snd (store_step (fault, c) s) = s"
    | u where "command_body c s = Inr (u, snd (store_step (fault, c) s))"
  using run_transaction_state [of fault "command_body c" s] by auto

section \<open>Device rows\<close>

definition dead_row :: "device_row \<Rightarrow> bool" where
  "dead_row r \<longleftrightarrow> dv_trust (dr_device r) = TrustRevoked \<and> dv_revoked_at (dr_device r) \<noteq> None"

definition row_id :: "device_row \<Rightarrow> device_id" where
  "row_id r = dv_id (dr_device r)"

text \<open>
  A transaction rewrites device rows in place, keeps their identifiers, never revives one that was
  revoked, and appends rows with new identifiers.
\<close>

definition rows_evolve :: "device_row list \<Rightarrow> device_row list \<Rightarrow> bool" where
  "rows_evolve xs ys \<longleftrightarrow> (\<exists>g zs. ys = map g xs @ zs \<and>
     (\<forall>x. row_id (g x) = row_id x \<and> (dead_row x \<longrightarrow> dead_row (g x))) \<and>
     distinct (map row_id zs) \<and> (\<forall>z\<in>set zs. \<forall>x\<in>set xs. row_id z \<noteq> row_id x))"

lemma rows_evolve_refl [simp]: "rows_evolve xs xs"
  unfolding rows_evolve_def by (rule exI [of _ id], rule exI [of _ "[]"]) simp

lemma rows_evolve_trans:
  assumes "rows_evolve xs ys" and "rows_evolve ys zs"
  shows "rows_evolve xs zs"
proof -
  obtain g us where g: "ys = map g xs @ us" "\<forall>x. row_id (g x) = row_id x \<and> (dead_row x \<longrightarrow> dead_row (g x))"
    "distinct (map row_id us)" "\<forall>z\<in>set us. \<forall>x\<in>set xs. row_id z \<noteq> row_id x"
    using assms(1) by (auto simp: rows_evolve_def)
  obtain h vs where h: "zs = map h ys @ vs" "\<forall>x. row_id (h x) = row_id x \<and> (dead_row x \<longrightarrow> dead_row (h x))"
    "distinct (map row_id vs)" "\<forall>z\<in>set vs. \<forall>y\<in>set ys. row_id z \<noteq> row_id y"
    using assms(2) by (auto simp: rows_evolve_def)
  have "zs = map (h \<circ> g) xs @ (map h us @ vs)" by (simp add: g(1) h(1))
  moreover have "\<forall>x. row_id ((h \<circ> g) x) = row_id x \<and> (dead_row x \<longrightarrow> dead_row ((h \<circ> g) x))"
    using g(2) h(2) by simp
  moreover have "map row_id (map h us) = map row_id us" using h(2) by simp
  moreover have "distinct (map row_id (map h us @ vs))"
  proof -
    have "map row_id (map h us @ vs) = map row_id us @ map row_id vs" using h(2) by simp
    moreover have "row_id z \<noteq> row_id u" if "z \<in> set vs" "u \<in> set us" for z u
      using h(4) that g(1) by simp
    then have "set (map row_id us) \<inter> set (map row_id vs) = {}" by force
    ultimately show ?thesis using g(3) h(3) by (simp only: distinct_append)
  qed
  moreover have "\<forall>z\<in>set (map h us @ vs). \<forall>x\<in>set xs. row_id z \<noteq> row_id x"
  proof -
    have "row_id z \<noteq> row_id x" if "z \<in> set vs" "x \<in> set xs" for z x
      using h(4) [rule_format, OF that(1), of "g x"] g(1,2) that(2) by simp
    then show ?thesis using g(4) h(2) by auto
  qed
  ultimately show ?thesis unfolding rows_evolve_def by blast
qed

lemma rows_evolve_update:
  "(\<And>x. row_id (f x) = row_id x \<and> (p x \<longrightarrow> dead_row x \<longrightarrow> dead_row (f x))) \<Longrightarrow> rows_evolve xs (update_where p f xs)"
  unfolding rows_evolve_def update_where_def
  by (rule exI [of _ "\<lambda>r. if p r then f r else r"], rule exI [of _ "[]"]) auto

lemma rows_evolve_insert:
  "\<forall>x\<in>set xs. row_id x \<noteq> row_id r \<Longrightarrow> rows_evolve xs (xs @ [r])"
  unfolding rows_evolve_def by (rule exI [of _ id], rule exI [of _ "[r]"]) auto

lemma rows_evolve_distinct: "rows_evolve xs ys \<Longrightarrow> distinct (map row_id xs) \<Longrightarrow> distinct (map row_id ys)"
  by (auto simp: rows_evolve_def comp_def) metis

lemma rows_evolve_dead:
  assumes "rows_evolve xs ys" and "\<exists>r\<in>set xs. row_id r = d \<and> dead_row r"
  shows "\<exists>r\<in>set ys. row_id r = d \<and> dead_row r"
proof -
  obtain g zs r where "ys = map g xs @ zs" "row_id (g r) = d" "dead_row (g r)" "r \<in> set xs"
    using assms by (auto simp: rows_evolve_def)
  then show ?thesis by (intro bexI [of _ "g r"]) simp_all
qed

lemma rows_evolve_same: "st_devices t = st_devices s \<Longrightarrow> rows_evolve (st_devices s) (st_devices t)"
  by simp

lemma revoke_active_families_devices:
  "revoke_active_families d at s = Inr (u, t) \<Longrightarrow> st_devices t = st_devices s"
  by (auto dest: revoke_active_families_Inr)

lemma revoke_device_and_tokens_devices:
  assumes "revoke_device_and_tokens d at s = Inr (u, t)"
  shows "rows_evolve (st_devices s) (st_devices t) \<and>
    ((\<exists>x\<in>set (st_devices s). row_id x = d \<and> dv_trust (dr_device x) \<noteq> TrustRevoked) \<longrightarrow>
     (\<exists>r\<in>set (st_devices t). row_id r = d \<and> dead_row r))"
proof -
  let ?p = "\<lambda>r. dv_id (dr_device r) = d \<and> dv_trust (dr_device r) \<noteq> TrustRevoked"
  let ?f = "\<lambda>r. r\<lparr>dr_device := (dr_device r)\<lparr>dv_trust := TrustRevoked, dv_revoked_at := Some at\<rparr>,
              dr_version := dr_version r + 1\<rparr>"
  obtain s1 s2 rows where 1: "execute (on_devices (update_checked device_check ?p ?f)) s = Inr ((), s1)"
    and 2: "revoke_active_families d at s1 = Inr ((), s2)"
    and 4: "fail_targeted_handoffs_for_device d at (s2\<lparr>st_instances := rows\<rparr>) = Inr (u, t)"
    using assms by (auto simp: revoke_device_and_tokens_def exec_Inr execute_Inr)
  have "st_devices t = update_where ?p ?f (st_devices s)"
    using 1 revoke_active_families_devices [OF 2] 4
    by (auto simp: fail_targeted_handoffs_for_device_def on_tables transaction_simps)
  moreover have "rows_evolve (st_devices s) (update_where ?p ?f (st_devices s))"
    by (rule rows_evolve_update) (simp add: row_id_def dead_row_def)
  moreover have "\<exists>r\<in>set (update_where ?p ?f (st_devices s)). row_id r = d \<and> dead_row r"
    if x: "x \<in> set (st_devices s)" "row_id x = d" "dv_trust (dr_device x) \<noteq> TrustRevoked" for x
  proof (rule bexI [of _ "?f x"])
    show "row_id (?f x) = d \<and> dead_row (?f x)" using x(2) by (simp add: row_id_def dead_row_def)
    have "(if ?p x then ?f x else x) \<in> set (update_where ?p ?f (st_devices s))"
      unfolding set_update_where using x(1) by (rule imageI)
    then show "?f x \<in> set (update_where ?p ?f (st_devices s))" using x(2,3) by (simp add: row_id_def)
  qed
  ultimately show ?thesis by auto
qed

lemma compromise_device_devices:
  "compromise_device device i at s = Inr (u, t) \<Longrightarrow>
     rows_evolve (st_devices s) (st_devices t) \<and>
     ((\<exists>x\<in>set (st_devices s). row_id x = dv_id device \<and> dv_trust (dr_device x) \<noteq> TrustRevoked) \<longrightarrow>
      (\<exists>r\<in>set (st_devices t). row_id r = dv_id device \<and> dead_row r))"
  by (auto simp: compromise_device_def on_tables transaction_simps dest!: revoke_device_and_tokens_devices)

lemma claim_device_devices:
  assumes "claim_device account requested s = Inr (d, t)"
  shows "rows_evolve (st_devices s) (st_devices t)"
proof -
  obtain s1 existing where 1: "insert_device_if_absent (pp_id (pa_principal account)) requested s = Inr ((), s1)"
    and 2: "update_verified_device existing requested s1 = Inr ((), t)"
    using assms by (auto simp: claim_device_def exec_Inr query_Inr lock_device_by_active_key_def abort_Inr
        split: if_splits)
  have "rows_evolve (st_devices s) (st_devices s1)"
    using 1 by (auto simp: insert_device_if_absent_def on_tables transaction_simps row_id_def
        intro!: rows_evolve_insert split: if_splits)
  moreover have "rows_evolve (st_devices s1) (st_devices t)"
    using 2 by (auto simp: update_verified_device_def on_tables transaction_simps row_id_def dead_row_def
        intro!: rows_evolve_update)
  ultimately show ?thesis by (rule rows_evolve_trans)
qed

lemma store_device_session_devices:
  assumes "store_device_session account requested session s = Inr (x, t)"
  shows "rows_evolve (st_devices s) (st_devices t)"
proof -
  obtain s1 d where 1: "claim_device account requested s = Inr (d, s1)" and 2: "st_devices t = st_devices s1"
    using assms
    by (auto simp: store_device_session_def exec_Inr query_Inr done_with_Inr abort_Inr insert_token_family_def
        insert_access_token_def insert_refresh_token_def consume_authorization_receipt_def on_tables
        transaction_simps split: if_splits dest!: revoke_active_families_devices)
  show ?thesis using claim_device_devices [OF 1] by (simp add: 2)
qed

lemma rotate_devices:
  assumes "rotate_refresh_transaction digest rep s = Inr (out, t)"
  shows "rows_evolve (st_devices s) (st_devices t)"
  using assms
proof (cases rule: rotate_cases)
  case (reuse l r)
  then show ?thesis using compromise_device_devices by blast
next
  case (rotated l r session s1)
  have seen: "rows_evolve (st_devices u) (st_devices v)"
    if "record_device_seen d at u = Inr (e, v)" for d at u e v
    using that by (auto simp: record_device_seen_def Let_def done_with_Inr abort_Inr on_tables transaction_simps
        row_id_def dead_row_def split: if_splits prod.splits sum.splits intro!: rows_evolve_update)
  have renew: "st_devices v = st_devices u"
    if "renew_token_family f rep u = Inr (g, v)" for f u g v
    using that by (auto simp: renew_token_family_def Let_def done_with_Inr abort_Inr on_tables transaction_simps
        split: if_splits prod.splits sum.splits)
  have "rows_evolve (st_devices s) (st_devices s1)"
    using rotated(4)
    by (auto simp: persist_refresh_replacement_def insert_access_token_def insert_refresh_token_def on_tables
        transaction_simps dest!: renew seen)
  moreover have "st_devices t = st_devices s1"
    using rotated(5) by (auto simp: record_refresh_attempt_def on_tables transaction_simps split: option.splits)
  ultimately show ?thesis by simp
qed simp_all

lemma revoke_transaction_devices:
  assumes "revoke_device_transaction p d at s = Inr (x, t)"
  shows "rows_evolve (st_devices s) (st_devices t)"
  using assms
  by (auto simp: revoke_device_transaction_def exec_Inr query_Inr done_with_Inr Let_def
      pending_matrix_devices_def queue_revoked_agent_departures_def execute_Inr
      dest!: revoke_device_and_tokens_devices split: option.splits if_splits)

lemma command_devices:
  assumes "command_body c s = Inr (u, t)"
  shows "rows_evolve (st_devices s) (st_devices t)"
proof (cases c)
  case (RegisterDevice g d session)
  then obtain x s1 a where "store_device_session a d session s1 = Inr (x, t)" "st_devices s1 = st_devices s"
    using assms by (auto simp: register_device_transaction_def insert_principal_if_absent_def on_tables
        lock_account_by_oidc_def transaction_simps split: if_splits)
  then show ?thesis using store_device_session_devices by metis
next
  case (RegisterWithGrant g d session)
  then obtain x a rows where "store_device_session a d session (s\<lparr>st_grants := rows\<rparr>) = Inr (x, t)"
    using assms by (auto simp: transaction_simps dest!: register_with_grant_session)
  then show ?thesis using store_device_session_devices by fastforce
next
  case (RotateRefresh digest rep)
  then show ?thesis using assms by (auto simp: transaction_simps dest: rotate_devices)
next
  case (RevokeOwnedDevice p d at)
  then show ?thesis using assms by (auto simp: transaction_simps dest: revoke_transaction_devices)
qed (use assms in \<open>auto simp: insert_grant_def consume_nonce_def mark_matrix_device_revoked_def on_tables
      transaction_simps Let_def split: if_splits\<close>)

section \<open>The invariant over sequences of transactions\<close>

definition tables_ok :: "device_store \<Rightarrow> bool" where
  "tables_ok s \<longleftrightarrow> store_ok s \<and> distinct (map row_id (st_devices s))"

lemma command_store_ok:
  assumes ok: "store_ok s" and c: "command_body c s = Inr (u, t)"
  shows "store_ok t"
proof (cases c)
  case (RegisterDevice g d session)
  then show ?thesis using c register_device_transaction_ok [OF ok] by (auto simp: transaction_simps)
next
  case (RegisterWithGrant g d session)
  then show ?thesis using c register_with_grant_ok [OF ok] by (auto simp: transaction_simps)
next
  case (RotateRefresh digest rep)
  then show ?thesis using c rotate_refresh_transaction_ok [OF ok] by (auto simp: transaction_simps)
next
  case (RevokeOwnedDevice p d at)
  then show ?thesis using c revoke_device_transaction_ok [OF ok] by (auto simp: transaction_simps)
next
  case (InsertGrant g)
  then have "token_tables t = token_tables s"
    using c by (auto simp: insert_grant_def on_tables transaction_simps)
  then show ?thesis using ok store_ok_cong by blast
next
  case (ConsumeNonce d n at expiry)
  then have "token_tables t = token_tables s"
    using c by (auto simp: consume_nonce_def on_tables transaction_simps Let_def split: if_splits)
  then show ?thesis using ok store_ok_cong by blast
next
  case (MarkMatrixRevoked i at)
  then have "token_tables t = token_tables s"
    using c by (auto simp: mark_matrix_device_revoked_def on_tables transaction_simps Let_def split: if_splits)
  then show ?thesis using ok store_ok_cong by blast
qed

lemma store_step_ok: "tables_ok s \<Longrightarrow> tables_ok (snd (store_step c s))"
proof (cases c)
  case (Pair fault body)
  assume ok: "tables_ok s"
  show ?thesis
    unfolding Pair
  proof (cases rule: store_step_state [of fault body s])
    case 1
    then show "tables_ok (snd (store_step (fault, body) s))" using ok by simp
  next
    case (2 u)
    then show "tables_ok (snd (store_step (fault, body) s))"
      using ok command_store_ok rows_evolve_distinct [OF command_devices [OF 2]] by (auto simp: tables_ok_def)
  qed
qed

interpretation device_tables: guarded_machine store_step "\<lambda>_. True" tables_ok
  by unfold_locales (rule store_step_ok)

lemma tables_ok_replay: "tables_ok s \<Longrightarrow> tables_ok (replay store_step cs s)"
  by (rule device_tables.replay_wf) (simp_all add: list_all_iff)

lemma tables_ok_empty: "tables_ok empty_store"
  by (simp add: tables_ok_def empty_store_def store_ok_def store_ok_parts)

section \<open>A token is exchanged at most once\<close>

definition spent :: "device_store \<Rightarrow> secret_digest \<Rightarrow> bool" where
  "spent s digest \<longleftrightarrow> (\<exists>r\<in>set (st_refresh s). rt_digest r = digest \<and> rt_consumed_at r \<noteq> None)"

lemma spent_cong: "token_tables t = token_tables s \<Longrightarrow> spent t digest \<longleftrightarrow> spent s digest"
  by (simp add: token_tables_def spent_def)

lemma ends_families_spent:
  assumes "ends_families s ff fr fa t"
  shows "spent t digest \<longleftrightarrow> spent s digest"
proof -
  have fr: "fr r = r\<lparr>rt_revoked_at := rt_revoked_at (fr r)\<rparr>" for r
    using assms unfolding ends_families_def by blast
  have "st_refresh t = map fr (st_refresh s)" using assms by (simp add: ends_families_def token_tables_def)
  then show ?thesis using revoked_row_keys(1) [OF fr] by (simp add: spent_def)
qed

lemma revoke_device_and_tokens_spent:
  assumes ok: "store_ok s" and r: "revoke_device_and_tokens d at s = Inr (u, t)"
  shows "spent t digest \<longleftrightarrow> spent s digest"
proof -
  obtain s1 s2 where 1: "token_tables s1 = token_tables s"
    and 2: "revoke_active_families d at s1 = Inr ((), s2)" and 3: "token_tables t = token_tables s2"
    using r by (auto simp: revoke_device_and_tokens_def exec_Inr execute_Inr
        dest!: fail_targeted_handoffs_tables dest: execute_devices_tables [unfolded execute_Inr])
  have "store_ok s1" using ok store_ok_cong [OF 1] by blast
  then obtain ff fr fa where "ends_families s1 ff fr fa s2" using revoke_active_families_ends [OF _ 2] by blast
  then show ?thesis using ends_families_spent spent_cong [OF 1] spent_cong [OF 3] by blast
qed

lemma compromise_spent:
  assumes ok: "store_ok s" and r: "compromise_device device i at s = Inr (u, t)"
  shows "spent t digest \<longleftrightarrow> spent s digest"
proof -
  let ?g = "\<lambda>f. f\<lparr>fm_state := Compromised, fm_revoked_at := Some (unwrap_or (fm_revoked_at f) at), fm_compromised_at := Some at\<rparr>"
  let ?s = "s\<lparr>st_families := update_where (\<lambda>f. fm_id f = i \<and> fm_state f = FamilyActive) ?g (st_families s)\<rparr>"
  have c: "\<forall>f\<in>set (st_families s). fm_id f = i \<and> fm_state f = FamilyActive \<longrightarrow> family_check (?g f)"
    and s1: "revoke_device_and_tokens (dv_id device) at ?s = Inr (u, t)"
    using r by (auto simp: compromise_device_def on_tables transaction_simps)
  have "store_ok ?s" by (rule ends_families_ok [OF ok compromise_family_ends [OF ok c]]) simp
  then show ?thesis using revoke_device_and_tokens_spent [OF _ s1] by (simp add: spent_def)
qed

lemma add_row_spent:
  "st_refresh t = st_refresh s @ [r] \<Longrightarrow> rt_consumed_at r = None \<Longrightarrow> spent t digest \<longleftrightarrow> spent s digest"
  by (auto simp: spent_def)

lemma store_device_session_spent:
  assumes ok: "store_ok s" and r: "store_device_session a d session s = Inr (x, t)"
  shows "spent t digest \<longleftrightarrow> spent s digest"
proof (rule store_device_session_adds [OF r])
  fix s2 s3 e family a' row
  assume 2: "token_tables s2 = token_tables s"
    and 3: "revoke_active_families e (sr_issued_at session) s2 = Inr ((), s3)"
    and t: "token_tables t = (st_families s3 @ [family], st_refresh s3 @ [row], st_access s3 @ [a'], st_attempts s3)"
    and n: "rt_consumed_at row = None"
  have "store_ok s2" using ok store_ok_cong [OF 2] by blast
  then obtain ff fr fa where "ends_families s2 ff fr fa s3" using revoke_active_families_ends [OF _ 3] by blast
  moreover have "st_refresh t = st_refresh s3 @ [row]" using t by (simp add: token_tables_def)
  ultimately show "spent t digest \<longleftrightarrow> spent s digest"
    using ends_families_spent add_row_spent [OF _ n] spent_cong [OF 2] by blast
qed

lemma rotated_spent:
  assumes ok: "store_ok s" and r: "rotate_refresh_transaction digest rep s = Inr (out, t)"
  shows "spent s d \<Longrightarrow> spent t d"
    and "out = Rotated session e \<Longrightarrow> \<not> spent s digest \<and> spent t digest"
proof -
  have "(spent s d \<longrightarrow> spent t d) \<and> (\<forall>session e. out = Rotated session e \<longrightarrow> \<not> spent s digest \<and> spent t digest)"
    using r
  proof (cases rule: rotate_cases)
    case (replayed l r p)
    then show ?thesis
      by (auto simp: replay_refresh_attempt_def query_Inr split: option.splits if_splits)
  next
    case (reuse l r)
    then show ?thesis using compromise_spent [OF ok] by auto
  next
    case (rotated l r session s1)
    have tabs: "rotated_tables s l r rep (ss_family session) t"
      using rotation_tables [OF ok rotated(1,3) _ rotated(4,5)] rotation_open [OF rotated(2)] by blast
    note row = context_of_row [OF rotated(1)]
    have "st_refresh t = map (\<lambda>x. if x = r then consumed_row rep r else x) (st_refresh s) @
        [new_refresh_row l rep (fm_expires_at (ss_family session))]"
      using tabs by (simp add: rotated_tables_def)
    then have mem: "(if x = r then consumed_row rep r else x) \<in> set (st_refresh t)" if "x \<in> set (st_refresh s)" for x
      using that by auto
    have "spent t digest"
      unfolding spent_def using mem [OF row(1)] row(2)
      by (intro bexI [of _ "consumed_row rep r"]) (simp_all add: consumed_row_def)
    moreover have "\<not> spent s digest"
    proof
      assume "spent s digest"
      then obtain x where "x \<in> set (st_refresh s)" "rt_digest x = digest" "rt_consumed_at x \<noteq> None"
        by (auto simp: spent_def)
      moreover have "distinct (map rt_digest (st_refresh s))" using ok by (simp add: store_ok_def keys_ok_def)
      ultimately show False using key_inject row(1,2) rotated(3) by metis
    qed
    moreover have "spent t d" if "spent s d"
    proof -
      obtain x where x: "x \<in> set (st_refresh s)" "rt_digest x = d" "rt_consumed_at x \<noteq> None"
        using \<open>spent s d\<close> by (auto simp: spent_def)
      then have "x \<noteq> r" using rotated(3) by auto
      then show ?thesis using mem [OF x(1)] x by (auto simp: spent_def)
    qed
    ultimately show ?thesis by blast
  qed simp
  then show "spent s d \<Longrightarrow> spent t d"
    and "out = Rotated session e \<Longrightarrow> \<not> spent s digest \<and> spent t digest" by blast+
qed

lemma command_spent:
  assumes ok: "store_ok s" and c: "command_body c s = Inr (u, t)" and sp: "spent s digest"
  shows "spent t digest"
proof (cases c)
  case (RegisterDevice g d session)
  then obtain x s1 a where 1: "store_device_session a d session s1 = Inr (x, t)" and 2: "token_tables s1 = token_tables s"
    using c by (auto simp: register_device_transaction_def insert_principal_if_absent_def on_tables
        lock_account_by_oidc_def transaction_simps split: if_splits)
  have "store_ok s1" using ok store_ok_cong [OF 2] by blast
  then show ?thesis using store_device_session_spent [OF _ 1] spent_cong [OF 2] sp by blast
next
  case (RegisterWithGrant g d session)
  then obtain x a rows where 1: "store_device_session a d session (s\<lparr>st_grants := rows\<rparr>) = Inr (x, t)"
    using c by (auto simp: transaction_simps dest!: register_with_grant_session)
  have "store_ok (s\<lparr>st_grants := rows\<rparr>)" using ok store_ok_cong [OF token_tables_simps(3)] by blast
  then show ?thesis using store_device_session_spent [OF _ 1] sp by (simp add: spent_def)
next
  case (RotateRefresh d rep)
  then show ?thesis using c rotated_spent(1) [OF ok] sp by (auto simp: transaction_simps)
next
  case (RevokeOwnedDevice p d at)
  then obtain x where "revoke_device_transaction p d at s = Inr (x, t)" using c by (auto simp: transaction_simps)
  then show ?thesis
  proof (cases rule: revoke_device_transaction_state)
    case (3 pending s1)
    then show ?thesis using revoke_device_and_tokens_spent [OF ok 3(2)] spent_cong [OF 3(3)] sp by blast
  qed (use sp spent_cong in blast)+
qed (use c sp in \<open>auto simp: insert_grant_def consume_nonce_def mark_matrix_device_revoked_def on_tables
      transaction_simps Let_def spent_def split: if_splits\<close>)

lemma replay_spent: "tables_ok s \<Longrightarrow> spent s digest \<Longrightarrow> spent (replay store_step cs s) digest"
proof (induction cs arbitrary: s)
  case (Cons c cs)
  obtain fault body where c: "c = (fault, body)" by (cases c)
  have "spent (snd (store_step c s)) digest"
    unfolding c
  proof (cases rule: store_step_state [of fault body s])
    case (2 u)
    then show "spent (snd (store_step (fault, body) s)) digest"
      using command_spent Cons.prems by (auto simp: tables_ok_def)
  qed (use Cons.prems in simp)
  then show ?case using Cons.IH store_step_ok [OF Cons.prems(1)] by simp
qed simp

section \<open>A revoked device stays out\<close>

definition dead_device :: "device_store \<Rightarrow> device_id \<Rightarrow> bool" where
  "dead_device s d \<longleftrightarrow> (\<exists>r\<in>set (st_devices s). row_id r = d \<and> dead_row r)"

lemma replay_dead: "dead_device s d \<Longrightarrow> dead_device (replay store_step cs s) d"
proof (induction cs arbitrary: s)
  case (Cons c cs)
  obtain fault body where c: "c = (fault, body)" by (cases c)
  have "dead_device (snd (store_step c s)) d"
    unfolding c
  proof (cases rule: store_step_state [of fault body s])
    case (2 u)
    then show "dead_device (snd (store_step (fault, body) s)) d"
      using rows_evolve_dead [OF command_devices [OF 2]] Cons.prems unfolding dead_device_def by blast
  qed (use Cons.prems in simp)
  then show ?case using Cons.IH by simp
qed simp

lemma dead_lookup:
  assumes "dead_device s d" and "distinct (map row_id (st_devices s))" and "find_device s d = Some r"
  shows "dead_row r"
proof -
  obtain x where "x \<in> set (st_devices s)" "row_id x = d" "dead_row x"
    using assms(1) by (auto simp: dead_device_def)
  moreover have "r \<in> set (st_devices s)" "row_id r = d"
    using find_device_Some [OF assms(3)] by (simp_all add: row_id_def)
  ultimately show ?thesis using key_inject [OF assms(2)] by metis
qed

lemma dead_no_access:
  assumes dead: "dead_device s d" and k: "distinct (map row_id (st_devices s))"
    and row: "List.find (\<lambda>r. at_digest r = digest) (st_access s) = Some a" "at_device_id a = d"
  shows "find_active_access digest now s = Inr (None, s)"
proof (cases "find_device s d")
  case (Some r)
  then have "dv_trust (dr_device r) \<noteq> Verified" using dead_lookup [OF dead k] by (simp add: dead_row_def)
  then show ?thesis using row Some by (auto simp: find_active_access_def query_def split: option.splits)
qed (use row in \<open>auto simp: find_active_access_def query_def split: option.splits\<close>)

lemma dead_no_rotation:
  assumes dead: "dead_device s d" and k: "distinct (map row_id (st_devices s))"
    and row: "List.find (\<lambda>r. rt_digest r = digest) (st_refresh s) = Some r"
      "find_family s (rt_family_id r) = Some f" "fm_device_id f = d"
    and rot: "rotate_refresh_transaction digest rep s = Inr (out, t)"
  shows "out = Rejected \<and> t = s"
proof -
  have refused: "rotation_refused l now" if c: "context_of s digest l x" for l x now
  proof -
    have "lk_family l = f" using c row by (simp add: context_of_def)
    then obtain e where "find_device s d = Some e" "lk_device l = dr_device e"
      using c row(3) by (auto simp: context_of_def)
    then have "dv_trust (lk_device l) \<noteq> Verified" using dead_lookup [OF dead k] by (auto simp: dead_row_def)
    then show ?thesis by (simp add: rotation_refused_def accepts_authenticated_requests_def)
  qed
  show ?thesis
    using rot by (cases rule: rotate_cases) (use refused in blast)+
qed

lemma reuse_kills:
  assumes r: "rotate_refresh_transaction digest rep s = Inr (ReuseDetected d p, t)"
  shows "dead_device t d"
  using r
proof (cases rule: rotate_cases)
  case (reuse l r)
  then obtain e where e: "find_device s (fm_device_id (lk_family l)) = Some e" "lk_device l = dr_device e"
    by (auto simp: context_of_def)
  have "e \<in> set (st_devices s)" using find_device_Some [OF e(1)] by simp
  moreover have "row_id e = dv_id (lk_device l)" using e(2) by (simp add: row_id_def)
  moreover have "dv_trust (dr_device e) \<noteq> TrustRevoked" using rotation_open [OF reuse(2)] e(2) by simp
  ultimately show ?thesis
    using compromise_device_devices [OF reuse(5)] reuse(6) unfolding dead_device_def by auto
qed (auto simp: replay_refresh_attempt_def query_Inr split: option.splits if_splits)

lemma revocation_kills:
  assumes r: "revoke_device_transaction p d at s = Inr (DeviceRevokedNow pending, t)"
  shows "dead_device t d"
proof -
  obtain row e s1 where row: "List.find (\<lambda>r. dv_id (dr_device r) = d \<and> dv_principal_id (dr_device r) = p) (st_devices s) = Some row"
    "decode_device row = Inr e" "dv_trust e \<noteq> TrustRevoked"
    and 1: "revoke_device_and_tokens (dv_id e) at s = Inr ((), s1)" and 2: "st_devices t = st_devices s1"
    using r by (auto simp: revoke_device_transaction_def exec_Inr query_Inr done_with_Inr Let_def
        pending_matrix_devices_def queue_revoked_agent_departures_def execute_Inr split: option.splits if_splits)
  have e: "e = dr_device row" using decode_device_Inr [OF row(2)] .
  have "row \<in> set (st_devices s)" "dv_id (dr_device row) = d" using find_member [OF row(1)] by simp_all
  then show ?thesis
    using revoke_device_and_tokens_devices [OF 1] row(3) e 2 by (auto simp: dead_device_def row_id_def)
qed

section \<open>A concrete run\<close>

definition sample_account :: principal_registration where
  "sample_account =
     \<lparr>pg_account = \<lparr>pa_principal = principal_new 1, pa_matrix_user_id = [64, 117], pa_display_name = [117],
                    pa_avatar_content_id = None, pa_locale = [101, 110]\<rparr>,
      pg_oidc_issuer = [105], pg_oidc_subject = [115], pg_registered_at = UtcMillis 1000\<rparr>"

definition sample_device :: device where
  "sample_device =
     \<lparr>dv_id = 2, dv_principal_id = 1, dv_label = [108], dv_platform = Linux,
      dv_public_signing_key = [7], dv_matrix_device_id = None, dv_trust = Verified,
      dv_last_seen_at = None, dv_revoked_at = None, dv_created_at = UtcMillis 1000\<rparr>"

definition sample_family :: token_family where
  "sample_family =
     \<lparr>fm_id = 3, fm_device_id = 2, fm_state = FamilyActive, fm_created_at = UtcMillis 1000,
      fm_authenticated_at = None, fm_expires_at = UtcMillis 90000, fm_revoked_at = None,
      fm_compromised_at = None\<rparr>"

definition sample_session :: session_registration where
  "sample_session =
     \<lparr>sr_authorization_digest = [9], sr_receipt_expires_at = UtcMillis 5000, sr_family = sample_family,
      sr_access_id = 4, sr_access_digest = [4], sr_access_expires_at = UtcMillis 3000, sr_refresh_id = 5,
      sr_refresh_digest = [5], sr_issued_at = UtcMillis 1000\<rparr>"

definition sample_replacement :: "uuid \<Rightarrow> utc_millis \<Rightarrow> token_replacement" where
  "sample_replacement i now =
     \<lparr>tr_access_id = 6, tr_access_digest = [6], tr_access_expires_at = UtcMillis 9000, tr_refresh_id = 7,
      tr_refresh_digest = [7], tr_issued_at = now,
      tr_lifetime = \<lparr>sl_idle = DurationMillis 95000, sl_maximum = DurationMillis 100000\<rparr>,
      tr_replay = Some \<lparr>rp_attempt_id = i, rp_salt = replicate 32 1\<rparr>\<rparr>"

lemmas sample_defs = sample_account_def sample_device_def sample_family_def sample_session_def
  sample_replacement_def principal_new_def version_initial_def empty_store_def

lemmas transaction_defs = exec_def done_with_def abort_def query_def execute_def on_tables insert_row_def
  update_checked_def update_where_def delete_where_def Let_def

lemmas store_defs = register_device_transaction_def insert_principal_if_absent_def lock_account_by_oidc_def
  decode_principal_account_def principal_restore_def version_new_def store_device_session_def
  allows_authentication_def claim_device_def insert_device_if_absent_def lock_device_by_active_key_def
  decode_device_def device_restore_def validate_label_def update_verified_device_def device_check_def
  consume_authorization_receipt_def revoke_active_families_def revoke_tokens_def registered_family_def
  family_new_def insert_token_family_def insert_access_token_def insert_refresh_token_def family_check_def
  access_check_def refresh_check_def utf8_width_def is_control_def byte_len_def

definition sample_store :: device_store where
  "sample_store = snd (store_step (NoFault, RegisterDevice sample_account sample_device sample_session) empty_store)"

lemma sample_store_ok: "tables_ok sample_store"
  unfolding sample_store_def by (rule store_step_ok [OF tables_ok_empty])

lemma sample_store_eq:
  "sample_store = empty_store\<lparr>
     st_principals := [sample_account],
     st_devices := [\<lparr>dr_device = sample_device, dr_verified_at = Some (UtcMillis 1000), dr_version = 1\<rparr>],
     st_families := [sample_family],
     st_refresh := [\<lparr>rt_id = 5, rt_family_id = 3, rt_digest = [5], rt_sequence = 0, rt_issued_at = UtcMillis 1000,
        rt_expires_at = UtcMillis 90000, rt_consumed_at = None, rt_replaced_by = None, rt_revoked_at = None\<rparr>],
     st_access := [\<lparr>at_id = 4, at_family_id = 3, at_device_id = 2, at_digest = [4], at_issued_at = UtcMillis 1000,
        at_expires_at = UtcMillis 3000, at_revoked_at = None\<rparr>],
     st_receipts := [\<lparr>rc_digest = [9], rc_principal_id = 1, rc_device_id = 2, rc_consumed_at = UtcMillis 1000,
        rc_expires_at = UtcMillis 5000\<rparr>]\<rparr>"
  by (simp add: sample_store_def forget_result_def run_transaction_def store_defs transaction_defs sample_defs)

lemmas rotation_defs = rotate_refresh_transaction_def lock_refresh_context_def join_family_def
  find_family_def find_device_def find_principal_def decode_context_def decode_token_family_def
  family_restore_def rotation_refused_def accepts_authenticated_requests_def allows_rotation_def
  persist_refresh_replacement_def renew_token_family_def family_renew_def sl_renewed_until_def sl_latest_def
  utc_checked_add_def lifetime_anchor_def record_device_seen_def device_record_seen_def
  record_refresh_attempt_def attempt_check_def replay_refresh_attempt_def rows_where_def
  ok_or_def i64_checked_add_def i64_try_from_def min_def

lemmas revocation_defs = revoke_device_transaction_def revoke_device_and_tokens_def
  fail_targeted_handoffs_for_device_def queue_revoked_agent_departures_def pending_matrix_devices_def
  occupied_rooms_def family_of_device_def

definition rotate_sample :: "uuid \<Rightarrow> utc_millis \<Rightarrow> refresh_outcome repository_result \<times> device_store" where
  "rotate_sample i now =
     run_transaction NoFault (rotate_refresh_transaction [5] (sample_replacement i now)) sample_store"

lemma sample_rotation:
  "\<exists>session. rotate_refresh_transaction [5] (sample_replacement 11 (UtcMillis 2000)) sample_store
     = Inr (Rotated session (UtcMillis 97000), snd (rotate_sample 11 (UtcMillis 2000)))"
  by (simp add: rotate_sample_def run_transaction_def sample_store_eq rotation_defs store_defs transaction_defs
      sample_defs int_width_defs)

lemma sample_revocation:
  "\<exists>t. revoke_device_transaction 1 2 (UtcMillis 2500) sample_store = Inr (DeviceRevokedNow [], t)"
  by (simp add: sample_store_eq revocation_defs rotation_defs store_defs transaction_defs sample_defs)

section \<open>Properties\<close>

text \<open>
  C8: From an empty database, whatever transactions run in whatever order and whatever statements or
  commits fail, the token tables stay consistent: identifiers and digests are unique, a device has at
  most one active family, a family at most one refresh token not consumed yet, nothing in an active
  family is revoked, and a replay salt is kept only while the token it would replay is current.
\<close>

theorem device_tables_invariant: "tables_ok (replay store_step cs empty_store)"
  by (rule tables_ok_replay) (rule tables_ok_empty)

text \<open>
  C35: A refresh token is exchanged for new tokens at most once, over any further transactions and
  failures: a second rotation of the same token is never answered with another pair.
\<close>

theorem refresh_token_exchanged_once:
  assumes "tables_ok s"
    and "rotate_refresh_transaction digest rep s = Inr (Rotated session expiry, t)"
    and "u = replay store_step cs t"
  shows "rotate_refresh_transaction digest rep' u \<noteq> Inr (Rotated session' expiry', v)"
proof
  assume again: "rotate_refresh_transaction digest rep' u = Inr (Rotated session' expiry', v)"
  have "store_ok s" using assms(1) by (simp add: tables_ok_def)
  then have "spent t digest" using rotated_spent(2) [OF _ assms(2)] by blast
  moreover have t: "tables_ok t"
    using assms(1) rotate_refresh_transaction_ok [OF \<open>store_ok s\<close> assms(2)]
      rows_evolve_distinct [OF rotate_devices [OF assms(2)]] by (simp add: tables_ok_def)
  ultimately have "spent u digest" unfolding assms(3) by (intro replay_spent)
  moreover have "store_ok u" using tables_ok_replay [OF t] by (simp add: assms(3) tables_ok_def)
  ultimately show False using rotated_spent(2) [OF _ again] by blast
qed

theorem refresh_token_exchanged_once_witness:
  "\<exists>session t. rotate_refresh_transaction [5] (sample_replacement 11 (UtcMillis 2000)) sample_store
       = Inr (Rotated session (UtcMillis 97000), t) \<and>
     (\<forall>session' expiry' v. rotate_refresh_transaction [5] (sample_replacement 12 (UtcMillis 2001))
        (replay store_step [(NoFault, RevokeOwnedDevice 9 9 (UtcMillis 2000))] t) \<noteq> Inr (Rotated session' expiry', v))"
  using sample_rotation refresh_token_exchanged_once [OF sample_store_ok _ refl] by blast

text \<open>
  C32: Once a device is revoked by its owner, or found with a reused refresh token, no access token of
  it authenticates a request and no refresh token of it is exchanged, replayed or even found reused
  again, over any further transactions (registering the same key included) and failures.
\<close>

theorem revoked_device_locked_out:
  assumes "tables_ok s"
    and "revoke_device_transaction p d at s = Inr (DeviceRevokedNow pending, t) \<or>
         rotate_refresh_transaction reused rep s = Inr (ReuseDetected d p, t)"
    and "u = replay store_step cs t"
  shows "(\<forall>digest now a. List.find (\<lambda>r. at_digest r = digest) (st_access u) = Some a \<and> at_device_id a = d \<longrightarrow>
            find_active_access digest now u = Inr (None, u)) \<and>
    (\<forall>digest r f rep' out v. List.find (\<lambda>r. rt_digest r = digest) (st_refresh u) = Some r \<and>
            find_family u (rt_family_id r) = Some f \<and> fm_device_id f = d \<and>
            rotate_refresh_transaction digest rep' u = Inr (out, v) \<longrightarrow> out = Rejected \<and> v = u)"
proof -
  have ok: "store_ok s" "distinct (map row_id (st_devices s))" using assms(1) by (simp_all add: tables_ok_def)
  have "dead_device t d" using assms(2) revocation_kills reuse_kills by blast
  then have dead: "dead_device u d" unfolding assms(3) by (rule replay_dead)
  have "rows_evolve (st_devices s) (st_devices t)"
    using assms(2) revoke_transaction_devices rotate_devices by blast
  moreover have "store_ok t"
    using assms(2) revoke_device_transaction_ok [OF ok(1)] rotate_refresh_transaction_ok [OF ok(1)] by blast
  ultimately have "tables_ok t" using rows_evolve_distinct ok(2) by (simp add: tables_ok_def)
  then have "distinct (map row_id (st_devices u))"
    using tables_ok_replay by (simp add: assms(3) tables_ok_def)
  then show ?thesis using dead_no_access [OF dead] dead_no_rotation [OF dead] by blast
qed

theorem revoked_device_locked_out_witness:
  "\<exists>t. revoke_device_transaction 1 2 (UtcMillis 2500) sample_store = Inr (DeviceRevokedNow [], t) \<and>
     (\<forall>digest now a. List.find (\<lambda>r. at_digest r = digest) (st_access t) = Some a \<and> at_device_id a = 2 \<longrightarrow>
        find_active_access digest now t = Inr (None, t))"
proof -
  obtain t where t: "revoke_device_transaction 1 2 (UtcMillis 2500) sample_store = Inr (DeviceRevokedNow [], t)"
    using sample_revocation by blast
  have "replay store_step [] t = t" by simp
  then show ?thesis
    using t revoked_device_locked_out [OF sample_store_ok disjI1 [OF t] refl, of "[]"] by auto
qed

end
