(* ===== verification/Matrix_Values.thy ===== *)
theory Matrix_Values
  imports Texts Tables
begin

text \<open>
  The identifiers that cross the border to the chat server
  (\<^verbatim>\<open>crates/application/src/ports/matrix/values.rs\<close>): each is a text that one validator
  accepted and that is kept as it was.
\<close>

datatype matrix_value_error =
    InvalidAgentLocalpart | InvalidUserId | InvalidRoomId | InvalidRoomAliasLocalpart | InvalidEventId
  | InvalidDeviceId | InvalidEventType | InvalidTransactionId | InvalidStateKey | InvalidSyncToken
  | InvalidBackfillToken

type_synonym 'a matrix_value_result = "matrix_value_error + 'a"

definition valid_protocol_text :: "utext \<Rightarrow> bool" where
  "valid_protocol_text v \<longleftrightarrow> 0 \<notin> set v \<and> \<not> list_ex is_control v"

definition valid_sigil_id :: "utext \<Rightarrow> nat \<Rightarrow> bool" where
  "valid_sigil_id v sigil \<longleftrightarrow>
     4 \<le> byte_len v \<and> byte_len v \<le> 512 \<and> starts_with [sigil] v \<and> 58 \<in> set (drop 1 v) \<and>
     valid_protocol_text v"

definition valid_user_id :: "utext \<Rightarrow> bool" where
  "valid_user_id v \<longleftrightarrow> valid_sigil_id v 64"

definition valid_room_id :: "utext \<Rightarrow> bool" where
  "valid_room_id v \<longleftrightarrow> valid_sigil_id v 33"

definition valid_agent_localpart :: "utext \<Rightarrow> bool" where
  "valid_agent_localpart v \<longleftrightarrow>
     (case strip_prefix (lit ''_agent_'') v of
        None \<Rightarrow> False
      | Some identifier \<Rightarrow>
          byte_len identifier = 32 \<and> list_all (\<lambda>c. is_ascii_digit c \<or> 97 \<le> c \<and> c \<le> 102) identifier)"

definition valid_room_alias_localpart :: "utext \<Rightarrow> bool" where
  "valid_room_alias_localpart v \<longleftrightarrow>
     1 \<le> byte_len v \<and> byte_len v \<le> 255 \<and>
     list_all (\<lambda>c. is_ascii_lower c \<or> is_ascii_digit c \<or> c \<in> {46, 95, 61, 45}) v"

definition valid_event_id :: "utext \<Rightarrow> bool" where
  "valid_event_id v \<longleftrightarrow>
     4 \<le> byte_len v \<and> byte_len v \<le> 512 \<and> starts_with [36] v \<and> valid_protocol_text v"

definition valid_device_id :: "utext \<Rightarrow> bool" where
  "valid_device_id v \<longleftrightarrow> 1 \<le> byte_len v \<and> byte_len v \<le> 255 \<and> valid_protocol_text v"

definition valid_event_type :: "utext \<Rightarrow> bool" where
  "valid_event_type v \<longleftrightarrow>
     3 \<le> byte_len v \<and> byte_len v \<le> 255 \<and> 46 \<in> set v \<and>
     list_all (\<lambda>c. is_ascii_alphanumeric c \<or> c \<in> {46, 95, 45}) v"

definition valid_transaction_id :: "utext \<Rightarrow> bool" where
  "valid_transaction_id v \<longleftrightarrow>
     1 \<le> byte_len v \<and> byte_len v \<le> 255 \<and>
     list_all (\<lambda>c. is_ascii_alphanumeric c \<or> c \<in> {46, 95, 45, 126}) v"

definition valid_state_key :: "utext \<Rightarrow> bool" where
  "valid_state_key v \<longleftrightarrow> byte_len v \<le> 512 \<and> valid_protocol_text v"

definition valid_opaque_token :: "utext \<Rightarrow> bool" where
  "valid_opaque_token v \<longleftrightarrow> 1 \<le> byte_len v \<and> byte_len v \<le> 4096 \<and> valid_protocol_text v"

text \<open>\<open>matrix_string_value\<close> is the macro behind the newtypes.\<close>

definition matrix_string_value ::
  "(utext \<Rightarrow> bool) \<Rightarrow> matrix_value_error \<Rightarrow> utext \<Rightarrow> utext matrix_value_result" where
  "matrix_string_value validator e v = (if \<not> validator v then Inl e else Inr v)"

definition matrix_user_id_new :: "utext \<Rightarrow> utext matrix_value_result" where
  "matrix_user_id_new = matrix_string_value valid_user_id InvalidUserId"

definition matrix_device_id_new :: "utext \<Rightarrow> utext matrix_value_result" where
  "matrix_device_id_new = matrix_string_value valid_device_id InvalidDeviceId"

definition agent_localpart_new :: "utext \<Rightarrow> utext matrix_value_result" where
  "agent_localpart_new v = (if \<not> valid_agent_localpart v then Inl InvalidAgentLocalpart else Inr v)"

definition state_key_new :: "utext \<Rightarrow> utext matrix_value_result" where
  "state_key_new v = (if \<not> valid_state_key v then Inl InvalidStateKey else Inr v)"

definition sync_token_new :: "utext \<Rightarrow> utext matrix_value_result" where
  "sync_token_new v = (if \<not> valid_opaque_token v then Inl InvalidSyncToken else Inr v)"

definition backfill_token_new :: "utext \<Rightarrow> utext matrix_value_result" where
  "backfill_token_new v = (if \<not> valid_opaque_token v then Inl InvalidBackfillToken else Inr v)"

lemma matrix_string_value_Inr [simp]: "matrix_string_value p e v = Inr w \<longleftrightarrow> p v \<and> w = v"
  by (auto simp: matrix_string_value_def)

lemma strip_prefix_Some: "strip_prefix p v = Some r \<Longrightarrow> v = p @ r"
  by (auto simp: strip_prefix_def starts_with_def split: if_splits) (metis append_take_drop_id)

lemma agent_localpart_length: "agent_localpart_new v = Inr w \<Longrightarrow> w = v \<and> length v = 39"
proof -
  assume "agent_localpart_new v = Inr w"
  then have "w = v" and "valid_agent_localpart v" by (auto simp: agent_localpart_new_def split: if_splits)
  then obtain i where i: "strip_prefix (lit ''_agent_'') v = Some i" "byte_len i = 32"
    "\<forall>c\<in>set i. is_ascii_digit c \<or> 97 \<le> c \<and> c \<le> 102"
    by (auto simp: valid_agent_localpart_def list_all_iff split: option.splits)
  have "\<forall>c\<in>set i. c < 128" using i(3) by (auto simp: is_ascii_digit_def)
  then have "length i = 32" using i(2) byte_len_ascii by simp
  then show ?thesis using \<open>w = v\<close> strip_prefix_Some [OF i(1)] by (simp add: lit_def)
qed

end
