(* ===== verification/Device_Authorization.thy ===== *)
theory Device_Authorization
  imports Device_Proofs Device_Sessions Matrix_Values
begin

text \<open>
  The service of device authorisation (\<^verbatim>\<open>crates/application/src/devices.rs\<close>, second half,
  \<^verbatim>\<open>devices/computer_grants.rs\<close>, \<^verbatim>\<open>principal_projection.rs\<close>,
  \<^verbatim>\<open>matrix_device_cleanup.rs\<close>) over the tables of \<open>Device_Registry\<close>: registration with an
  authorization token or with a grant, authentication of a request, refresh of a session, listing
  and revocation.

  The digests, signatures and derivations are done by libraries behind the ports: they are the
  functions of a \<open>device_ports\<close>. What the clock, the generators of identifiers and secrets and the
  database server do in one request is its \<open>device_draws\<close>. A request that reads in one transaction
  and writes in a later one gets two stores, as other requests may commit in between.
\<close>

section \<open>Policy\<close>

record device_policy =
  dy_access_ttl :: duration_millis
  dy_refresh_lifetime :: sliding_lifetime
  dy_proof_maximum_age :: duration_millis
  dy_clock_skew :: duration_millis
  dy_authorization_maximum_age :: duration_millis
  dy_matrix_server_name :: utext

datatype configuration_error = InvalidTokenLifetimes | InvalidMatrixServerName

definition device_policy_new ::
  "duration_millis \<Rightarrow> sliding_lifetime \<Rightarrow> duration_millis \<Rightarrow> duration_millis \<Rightarrow> duration_millis \<Rightarrow> utext
     \<Rightarrow> configuration_error + device_policy" where
  "device_policy_new access_ttl lifetime proof_age skew authorization_age server =
     (if access_ttl \<ge> sl_idle lifetime then Inl InvalidTokenLifetimes
      else if server = [] \<or> byte_len server > 255 \<or> list_ex is_control server \<or>
              list_ex (\<lambda>c. c \<in> {47, 92, 64}) server then Inl InvalidMatrixServerName
      else Inr \<lparr>dy_access_ttl = access_ttl, dy_refresh_lifetime = lifetime,
                dy_proof_maximum_age = proof_age, dy_clock_skew = skew,
                dy_authorization_maximum_age = authorization_age, dy_matrix_server_name = server\<rparr>)"

section \<open>What the ports provide\<close>

record device_ports =
  po_digest :: "utext \<Rightarrow> secret_digest"
  po_verify :: "8 word list \<Rightarrow> utext \<Rightarrow> 8 word list \<Rightarrow> bool"
  po_derive :: "secret_value \<Rightarrow> refresh_replay \<Rightarrow> (secret_value \<times> secret_value) option"
  po_sha256 :: "utext \<Rightarrow> 8 word list"
  po_uuid_text :: "uuid \<Rightarrow> utext"
  po_policy :: device_policy

record device_draws =
  dw_now :: utc_millis
  dw_principal_id :: principal_id
  dw_device_id :: device_id
  dw_family_id :: device_token_family_id
  dw_access_id :: uuid
  dw_refresh_id :: uuid
  dw_access_secret :: "secret_value option"
  dw_refresh_secret :: "secret_value option"
  dw_salt :: "replay_salt option"
  dw_read_fault :: store_fault
  dw_write_fault :: store_fault

section \<open>Failures\<close>

datatype device_failure =
    DInvalidRequest | DInvalidAuthorization | DInvalidToken | DInvalidProof | DProofReplay
  | DRefreshTokenReuse | DPrincipalSuspended | DDeviceRevoked | DNotFound | DConflict
  | DDependencyUnavailable | DInternal

definition map_repository_failure :: "repository_error \<Rightarrow> device_failure" where
  "map_repository_failure e =
     (case e of
        Conflict \<Rightarrow> DConflict
      | RepoForbidden \<Rightarrow> DDeviceRevoked
      | NotFound \<Rightarrow> DNotFound
      | Unavailable \<Rightarrow> DDependencyUnavailable
      | Constraint \<Rightarrow> DInternal
      | CorruptData \<Rightarrow> DInternal)"

text \<open>The status of the answer, from \<^verbatim>\<open>ApiError::device\<close> of the control plane.\<close>

definition device_failure_status :: "device_failure \<Rightarrow> nat" where
  "device_failure_status k =
     (case k of
        DInvalidRequest \<Rightarrow> 400
      | DInvalidAuthorization \<Rightarrow> 401
      | DInvalidToken \<Rightarrow> 401
      | DInvalidProof \<Rightarrow> 401
      | DProofReplay \<Rightarrow> 401
      | DRefreshTokenReuse \<Rightarrow> 401
      | DPrincipalSuspended \<Rightarrow> 403
      | DDeviceRevoked \<Rightarrow> 403
      | DNotFound \<Rightarrow> 404
      | DConflict \<Rightarrow> 409
      | DDependencyUnavailable \<Rightarrow> 503
      | DInternal \<Rightarrow> 500)"

text \<open>\<open>map_err\<close> on a result of the domain, on a repository result, and the failure of a generator.\<close>

definition or_internal :: "'a result \<Rightarrow> device_failure + 'a" where
  "or_internal r = map_sum (\<lambda>_. DInternal) id r"

definition repository_failed :: "'a repository_result \<Rightarrow> device_failure + 'a" where
  "repository_failed r = map_sum map_repository_failure id r"

definition generated :: "'a option \<Rightarrow> device_failure + 'a" where
  "generated x = ok_or x DInternal"

lemma or_internal_Inr [simp]: "or_internal r = Inr x \<longleftrightarrow> r = Inr x"
  by (cases r) (simp_all add: or_internal_def)

lemma repository_failed_Inr [simp]: "repository_failed r = Inr x \<longleftrightarrow> r = Inr x"
  by (cases r) (simp_all add: repository_failed_def)

lemma generated_Inr [simp]: "generated r = Inr x \<longleftrightarrow> r = Some x"
  by (simp add: generated_def)

section \<open>Principals from identity claims\<close>

record oidc_identity =
  oi_issuer :: utext
  oi_subject :: utext
  oi_display_name :: "utext option"
  oi_locale :: "utext option"
  oi_authenticated_at :: "utc_millis option"

datatype identity_value_error = InvalidIssuer | InvalidSubject

definition validate_identity_text :: "utext \<Rightarrow> nat \<Rightarrow> bool" where
  "validate_identity_text v maximum = (\<not> (v = [] \<or> byte_len v > maximum \<or> list_ex is_control v))"

definition valid_display_name :: "utext \<Rightarrow> bool" where
  "valid_display_name v \<longleftrightarrow> v \<noteq> [] \<and> length v \<le> 128 \<and> \<not> list_ex is_control v"

definition valid_locale :: "utext \<Rightarrow> bool" where
  "valid_locale v =
     (case split_by (\<lambda>c. c = 45) v of
        [] \<Rightarrow> False
      | language # rest \<Rightarrow>
          if \<not> (2 \<le> byte_len language \<and> byte_len language \<le> 8) \<or> \<not> list_all is_ascii_alphabetic language
          then False
          else list_all (\<lambda>p. 1 \<le> byte_len p \<and> byte_len p \<le> 8 \<and> list_all is_ascii_alphanumeric p) rest)"

definition oidc_identity_new ::
  "utext \<Rightarrow> utext \<Rightarrow> utext option \<Rightarrow> utext option \<Rightarrow> utc_millis option \<Rightarrow>
     identity_value_error + oidc_identity" where
  "oidc_identity_new issuer subject display_name locale_name authenticated_at =
     and_then (ensure (validate_identity_text issuer 2048) InvalidIssuer) (\<lambda>_.
     and_then (ensure (validate_identity_text subject 512) InvalidSubject) (\<lambda>_.
     Inr \<lparr>oi_issuer = issuer, oi_subject = subject,
          oi_display_name =
            (case display_name of
               None \<Rightarrow> None
             | Some v \<Rightarrow>
                 if list_ex is_control v then None
                 else (let trimmed = trim v in if valid_display_name trimmed then Some trimmed else None)),
          oi_locale = (case locale_name of None \<Rightarrow> None | Some v \<Rightarrow> if valid_locale v then Some v else None),
          oi_authenticated_at = authenticated_at\<rparr>))"

record profile_import =
  pi_display_name :: bool
  pi_locale :: bool

definition matrix_localpart :: "device_ports \<Rightarrow> utext \<Rightarrow> utext \<Rightarrow> utext" where
  "matrix_localpart ports issuer subject =
     lit ''user-'' @ encode_hex (take 16 (po_sha256 ports (issuer @ 0 # subject)))"

definition principal_registration_of ::
  "device_ports \<Rightarrow> principal_id \<Rightarrow> oidc_identity \<Rightarrow> profile_import \<Rightarrow> utc_millis \<Rightarrow> principal_registration" where
  "principal_registration_of ports i identity consent registered_at =
     (let compact_id = filter (\<lambda>c. c \<noteq> 45) (po_uuid_text ports i);
          default_display_name = lit ''Agent Room User '' @ take 8 compact_id;
          offered = (if pi_display_name consent then oi_display_name identity else None);
          display_name =
            (case map_option trim offered of
               Some v \<Rightarrow> if v \<noteq> [] then v else default_display_name
             | None \<Rightarrow> default_display_name);
          locale_name = unwrap_or (if pi_locale consent then oi_locale identity else None) (lit ''en'')
      in \<lparr>pg_account =
            \<lparr>pa_principal = principal_new i,
             pa_matrix_user_id =
               64 # matrix_localpart ports (oi_issuer identity) (oi_subject identity) @
               58 # dy_matrix_server_name (po_policy ports),
             pa_display_name = display_name, pa_avatar_content_id = None, pa_locale = locale_name\<rparr>,
          pg_oidc_issuer = oi_issuer identity, pg_oidc_subject = oi_subject identity,
          pg_registered_at = registered_at\<rparr>)"

section \<open>Checks\<close>

definition validate_device_label :: "utext \<Rightarrow> device_failure + unit" where
  "validate_device_label label =
     (if label = [] \<or> byte_len label > 128 \<or> list_ex is_control label then Inl DInvalidRequest else Inr ())"

definition validate_device_authorization_time ::
  "utc_millis \<Rightarrow> utc_millis \<Rightarrow> device_policy \<Rightarrow> device_failure + unit" where
  "validate_device_authorization_time issued_at now policy =
     (case validate_time_window issued_at now (dy_authorization_maximum_age policy) (dy_clock_skew policy) of
        TimeOverflowed \<Rightarrow> Inl DInternal
      | TimeOutside \<Rightarrow> Inl DInvalidAuthorization
      | TimeAccepted \<Rightarrow> Inr ())"

definition validate_proof_time :: "utc_millis \<Rightarrow> utc_millis \<Rightarrow> device_policy \<Rightarrow> device_failure + unit" where
  "validate_proof_time issued_at now policy =
     (case validate_time_window issued_at now (dy_proof_maximum_age policy) (dy_clock_skew policy) of
        TimeOverflowed \<Rightarrow> Inl DInternal
      | TimeOutside \<Rightarrow> Inl DInvalidProof
      | TimeAccepted \<Rightarrow> Inr ())"

definition verify_signature_only ::
  "device_ports \<Rightarrow> device \<Rightarrow> device_proof \<Rightarrow> secret_digest \<Rightarrow> utc_millis \<Rightarrow> device_failure + unit" where
  "verify_signature_only ports device proof credential_digest now =
     (let p = px_payload proof
      in if pf_device_id p \<noteq> dv_id device then Inl DInvalidProof
         else
           and_then (validate_proof_time (pf_issued_at p) now (po_policy ports)) (\<lambda>_.
           ensure (po_verify ports (dv_public_signing_key device)
                    (canonical_device_request_message (po_uuid_text ports (pf_device_id p)) p credential_digest)
                    (px_signature proof)) DInvalidProof))"

definition ensure_session_active :: "stored_session \<Rightarrow> device_failure + unit" where
  "ensure_session_active session =
     (if \<not> allows_authentication (pa_principal (ss_account session)) then Inl DPrincipalSuspended
      else if dv_trust (ss_device session) \<noteq> Verified then Inl DDeviceRevoked
      else Inr ())"

definition proof_expires_at :: "device_policy \<Rightarrow> device_proof \<Rightarrow> utc_millis result" where
  "proof_expires_at policy proof =
     and_then (utc_checked_add (pf_issued_at (px_payload proof)) (dy_proof_maximum_age policy)) (\<lambda>v.
     utc_checked_add v (dy_clock_skew policy))"

section \<open>Sessions\<close>

record authenticated_device =
  ad_account :: principal_account
  ad_device_id :: device_id
  ad_access_expires_at :: utc_millis

record device_credentials =
  dc_device :: authenticated_device
  dc_access_token :: secret_value
  dc_refresh_token :: secret_value
  dc_refresh_expires_at :: utc_millis

definition authenticated_device_of :: "stored_session \<Rightarrow> authenticated_device" where
  "authenticated_device_of s =
     \<lparr>ad_account = ss_account s, ad_device_id = dv_id (ss_device s),
      ad_access_expires_at = ss_access_expires_at s\<rparr>"

definition credentials :: "stored_session \<Rightarrow> secret_value \<Rightarrow> secret_value \<Rightarrow> utc_millis \<Rightarrow> device_credentials" where
  "credentials s access_token refresh_token expires_at =
     \<lparr>dc_device = authenticated_device_of s, dc_access_token = access_token,
      dc_refresh_token = refresh_token, dc_refresh_expires_at = expires_at\<rparr>"

definition new_device_session ::
  "device_ports \<Rightarrow> device_draws \<Rightarrow> secret_digest \<Rightarrow> token_family \<Rightarrow>
     device_failure + (session_registration \<times> secret_value \<times> secret_value)" where
  "new_device_session ports draws authorization_digest family =
     (let now = dw_now draws; policy = po_policy ports in
      and_then (generated (dw_access_secret draws)) (\<lambda>access_token.
      and_then (generated (dw_refresh_secret draws)) (\<lambda>refresh_token.
      and_then (or_internal (and_then (utc_checked_add now (dy_authorization_maximum_age policy)) (\<lambda>v.
                  utc_checked_add v (dy_clock_skew policy)))) (\<lambda>receipt_expires_at.
      and_then (or_internal (utc_checked_add now (dy_access_ttl policy))) (\<lambda>access_expires_at.
      Inr (\<lparr>sr_authorization_digest = authorization_digest, sr_receipt_expires_at = receipt_expires_at,
            sr_family = family, sr_access_id = dw_access_id draws,
            sr_access_digest = po_digest ports access_token, sr_access_expires_at = access_expires_at,
            sr_refresh_id = dw_refresh_id draws, sr_refresh_digest = po_digest ports refresh_token,
            sr_issued_at = now\<rparr>, access_token, refresh_token))))))"

definition registered_device ::
  "device_id \<Rightarrow> principal_id \<Rightarrow> utext \<Rightarrow> device_platform \<Rightarrow> 8 word list \<Rightarrow> utc_millis \<Rightarrow> device_failure + device" where
  "registered_device i p label platform key now =
     and_then (or_internal (device_register i p label platform key now)) (\<lambda>d.
     case device_verify d of
       (Inl _, _) \<Rightarrow> Inl DInternal
     | (Inr _, verified) \<Rightarrow> Inr verified)"

text \<open>A transaction of the service: its fault comes with the request, its error becomes a failure.\<close>

definition transact ::
  "store_fault \<Rightarrow> 'a device_txn \<Rightarrow> device_store \<Rightarrow> (device_failure + 'a) \<times> device_store" where
  "transact fault body s = (case run_transaction fault body s of (r, t) \<Rightarrow> (repository_failed r, t))"

lemma transact_Inr: "transact fault body s = (Inr x, t) \<longleftrightarrow> fault = NoFault \<and> body s = Inr (x, t)"
  using run_transaction_Inr [of fault body s x t]
  by (cases "run_transaction fault body s") (auto simp: transact_def)

definition then_do ::
  "(device_failure + 'a) \<times> device_store \<Rightarrow> ('a \<Rightarrow> device_store \<Rightarrow> (device_failure + 'b) \<times> device_store)
     \<Rightarrow> (device_failure + 'b) \<times> device_store" where
  "then_do m k = (case m of (Inl e, s) \<Rightarrow> (Inl e, s) | (Inr x, s) \<Rightarrow> k x s)"

lemma then_do_Inr [result_simps]:
  "then_do m k = (Inr y, t) \<longleftrightarrow> (\<exists>x s. m = (Inr x, s) \<and> k x s = (Inr y, t))"
  by (auto simp: then_do_def split: prod.splits sum.splits)

section \<open>Registration\<close>

record register_request =
  rq_identity :: oidc_identity
  rq_issued_at :: utc_millis
  rq_authorization_digest :: secret_digest
  rq_label :: utext
  rq_platform :: device_platform
  rq_key :: "8 word list"
  rq_signature :: "8 word list"
  rq_import :: profile_import

definition possession_verified ::
  "device_ports \<Rightarrow> secret_digest \<Rightarrow> utext \<Rightarrow> device_platform \<Rightarrow> 8 word list \<Rightarrow> 8 word list \<Rightarrow> bool" where
  "possession_verified ports digest label platform key signature =
     po_verify ports key
       (canonical_device_registration_message digest label (lit (platform_str platform)) key) signature"

definition prepare_registration ::
  "device_ports \<Rightarrow> device_draws \<Rightarrow> register_request \<Rightarrow>
     device_failure + (principal_registration \<times> device \<times> session_registration \<times>
                       secret_value \<times> secret_value \<times> utc_millis)" where
  "prepare_registration ports draws request =
     (let now = dw_now draws; policy = po_policy ports in
      and_then (validate_device_label (rq_label request)) (\<lambda>_.
      if rq_platform request = Network then Inl DInvalidRequest
      else
        and_then (validate_device_authorization_time (rq_issued_at request) now policy) (\<lambda>_.
        if \<not> possession_verified ports (rq_authorization_digest request) (rq_label request)
               (rq_platform request) (rq_key request) (rq_signature request) then Inl DInvalidProof
        else
          (let registration = principal_registration_of ports (dw_principal_id draws) (rq_identity request)
                 (rq_import request) now
           in and_then (registered_device (dw_device_id draws) (pp_id (pa_principal (pg_account registration)))
                (rq_label request) (rq_platform request) (rq_key request) now) (\<lambda>device.
              and_then (or_internal (sl_renewed_until (dy_refresh_lifetime policy) now now)) (\<lambda>expires_at.
              and_then (or_internal (family_new (dw_family_id draws) (dv_id device) now expires_at)) (\<lambda>family.
              and_then (new_device_session ports draws (rq_authorization_digest request) family) (\<lambda>(session, a, r).
              Inr (registration, device, session, a, r, expires_at)))))))))"

definition register_device_request ::
  "device_ports \<Rightarrow> device_draws \<Rightarrow> register_request \<Rightarrow> device_store \<Rightarrow>
     (device_failure + device_credentials) \<times> device_store" where
  "register_device_request ports draws request s =
     (case prepare_registration ports draws request of
        Inl e \<Rightarrow> (Inl e, s)
      | Inr (registration, device, session, a, r, expires_at) \<Rightarrow>
          then_do (transact (dw_write_fault draws) (register_device_transaction registration device session) s)
            (\<lambda>stored t. (Inr (credentials stored a r expires_at), t)))"

section \<open>Authentication of a request\<close>

definition authenticate_device ::
  "device_ports \<Rightarrow> device_draws \<Rightarrow> secret_value \<Rightarrow> device_proof \<Rightarrow> device_store \<Rightarrow> device_store \<Rightarrow>
     (device_failure + authenticated_device) \<times> device_store" where
  "authenticate_device ports draws access_token proof seen s =
     (let now = dw_now draws; digest = po_digest ports access_token in
      case fst (transact (dw_read_fault draws) (find_active_access digest now) seen) of
        Inl e \<Rightarrow> (Inl e, s)
      | Inr None \<Rightarrow> (Inl DInvalidToken, s)
      | Inr (Some session) \<Rightarrow>
          (case and_then (ensure_session_active session) (\<lambda>_.
                and_then (verify_signature_only ports (ss_device session) proof digest now) (\<lambda>_.
                or_internal (proof_expires_at (po_policy ports) proof))) of
             Inl e \<Rightarrow> (Inl e, s)
           | Inr expires_at \<Rightarrow>
               then_do (transact (dw_write_fault draws)
                   (consume_nonce (dv_id (ss_device session)) (po_digest ports (pf_nonce (px_payload proof)))
                      now expires_at) s)
                 (\<lambda>consumed t.
                    if \<not> consumed then (Inl DProofReplay, t)
                    else (Inr (authenticated_device_of session), t))))"

section \<open>Refresh\<close>

definition new_refresh_tokens ::
  "device_ports \<Rightarrow> device_draws \<Rightarrow> secret_value \<Rightarrow> refresh_attempt_id option \<Rightarrow>
     device_failure + (refresh_replay option \<times> secret_value \<times> secret_value)" where
  "new_refresh_tokens ports draws refresh_token attempt_id =
     (case attempt_id of
        None \<Rightarrow>
          and_then (generated (dw_access_secret draws)) (\<lambda>a.
          and_then (generated (dw_refresh_secret draws)) (\<lambda>r. Inr (None, a, r)))
      | Some i \<Rightarrow>
          and_then (generated (dw_salt draws)) (\<lambda>salt.
          (let attempt_replay = \<lparr>rp_attempt_id = i, rp_salt = salt\<rparr>
           in and_then (generated (po_derive ports refresh_token attempt_replay)) (\<lambda>(a, r).
              Inr (Some attempt_replay, a, r)))))"

definition replayed_refresh_tokens ::
  "device_ports \<Rightarrow> secret_value \<Rightarrow> refresh_attempt_id option \<Rightarrow> replay_salt \<Rightarrow> secret_digest \<Rightarrow> secret_digest \<Rightarrow>
     device_failure + (secret_value \<times> secret_value)" where
  "replayed_refresh_tokens ports refresh_token attempt_id salt access_digest refresh_digest =
     and_then (ok_or attempt_id DInternal) (\<lambda>i.
     and_then (generated (po_derive ports refresh_token \<lparr>rp_attempt_id = i, rp_salt = salt\<rparr>)) (\<lambda>(a, r).
     if po_digest ports a \<noteq> access_digest \<or> po_digest ports r \<noteq> refresh_digest then Inl DInternal
     else Inr (a, r)))"

definition prepare_refresh ::
  "device_ports \<Rightarrow> device_draws \<Rightarrow> secret_value \<Rightarrow> device_proof \<Rightarrow> refresh_attempt_id option \<Rightarrow> device_store \<Rightarrow>
     device_failure + (token_replacement \<times> secret_value \<times> secret_value)" where
  "prepare_refresh ports draws refresh_token proof attempt_id seen =
     (let now = dw_now draws; digest = po_digest ports refresh_token in
      and_then (fst (transact (dw_read_fault draws) (find_refresh_context digest) seen)) (\<lambda>found.
      and_then (ok_or found DInvalidToken) (\<lambda>(account, device, family).
      if \<not> allows_authentication (pa_principal account) then Inl DPrincipalSuspended
      else if \<not> accepts_authenticated_requests device then Inl DDeviceRevoked
      else if \<not> allows_rotation family now then Inl DInvalidToken
      else
        and_then (verify_signature_only ports device proof digest now) (\<lambda>_.
        and_then (new_refresh_tokens ports draws refresh_token attempt_id) (\<lambda>(attempt_replay, a, r).
        and_then (or_internal (utc_checked_add now (dy_access_ttl (po_policy ports)))) (\<lambda>access_expires_at.
        Inr (\<lparr>tr_access_id = dw_access_id draws, tr_access_digest = po_digest ports a,
              tr_access_expires_at = access_expires_at, tr_refresh_id = dw_refresh_id draws,
              tr_refresh_digest = po_digest ports r, tr_issued_at = now,
              tr_lifetime = dy_refresh_lifetime (po_policy ports), tr_replay = attempt_replay\<rparr>, a, r)))))))"

definition answer_refresh ::
  "device_ports \<Rightarrow> secret_value \<Rightarrow> refresh_attempt_id option \<Rightarrow> secret_value \<times> secret_value \<Rightarrow> refresh_outcome \<Rightarrow>
     device_failure + device_credentials" where
  "answer_refresh ports refresh_token attempt_id tokens outcome =
     (case outcome of
        Rotated session expires_at \<Rightarrow> Inr (credentials session (fst tokens) (snd tokens) expires_at)
      | Replayed session expires_at salt access_digest refresh_digest \<Rightarrow>
          and_then (replayed_refresh_tokens ports refresh_token attempt_id salt access_digest refresh_digest)
            (\<lambda>(a, r). Inr (credentials session a r expires_at))
      | ReuseDetected _ _ \<Rightarrow> Inl DRefreshTokenReuse
      | Rejected \<Rightarrow> Inl DInvalidToken)"

definition refresh_device_session ::
  "device_ports \<Rightarrow> device_draws \<Rightarrow> secret_value \<Rightarrow> device_proof \<Rightarrow> refresh_attempt_id option \<Rightarrow>
     device_store \<Rightarrow> device_store \<Rightarrow> (device_failure + device_credentials) \<times> device_store" where
  "refresh_device_session ports draws refresh_token proof attempt_id seen s =
     (case prepare_refresh ports draws refresh_token proof attempt_id seen of
        Inl e \<Rightarrow> (Inl e, s)
      | Inr (replacement, tokens) \<Rightarrow>
          then_do (transact (dw_write_fault draws)
              (rotate_refresh_transaction (po_digest ports refresh_token) replacement) s)
            (\<lambda>outcome t. (answer_refresh ports refresh_token attempt_id tokens outcome, t)))"

section \<open>Listing and revocation\<close>

definition list_devices ::
  "store_fault \<Rightarrow> principal_id \<Rightarrow> device_store \<Rightarrow> device_failure + device list" where
  "list_devices fault p s = fst (transact fault (list_for_principal p) s)"

text \<open>
  The chat server answers each call with a failure or not; the mark in the tables may fail by itself.
\<close>

datatype 'm matrix_cleanup_failure = InvalidStoredIdentity | MatrixCleanup 'm | StatePersistenceUnavailable

definition revoke_agent_matrix_device ::
  "(utext \<Rightarrow> utext \<Rightarrow> 'm option) \<Rightarrow> store_fault \<Rightarrow> pending_matrix_device \<Rightarrow> utc_millis \<Rightarrow> device_store \<Rightarrow>
     ('m matrix_cleanup_failure + unit) \<times> device_store" where
  "revoke_agent_matrix_device matrix fault target revoked_at s =
     (case (matrix_user_id_new (pm_matrix_user_id target), matrix_device_id_new (pm_matrix_device_id target)) of
        (Inr user, Inr device) \<Rightarrow>
          (case matrix user device of
             Some k \<Rightarrow> (Inl (MatrixCleanup k), s)
           | None \<Rightarrow>
               (case run_transaction fault (mark_matrix_device_revoked (pm_instance_id target) revoked_at) s of
                  (Inl _, t) \<Rightarrow> (Inl StatePersistenceUnavailable, t)
                | (Inr _, t) \<Rightarrow> (Inr (), t)))
      | _ \<Rightarrow> (Inl InvalidStoredIdentity, s))"

fun cleanup_matrix_devices ::
  "(utext \<Rightarrow> utext \<Rightarrow> 'm option) \<Rightarrow> (pending_matrix_device \<Rightarrow> store_fault) \<Rightarrow> pending_matrix_device list \<Rightarrow>
     utc_millis \<Rightarrow> device_store \<Rightarrow> nat \<times> device_store" where
  "cleanup_matrix_devices matrix fault [] revoked_at s = (0, s)"
| "cleanup_matrix_devices matrix fault (target # targets) revoked_at s =
     (case revoke_agent_matrix_device matrix (fault target) target revoked_at s of
        (r, t) \<Rightarrow>
          (case cleanup_matrix_devices matrix fault targets revoked_at t of
             (n, u) \<Rightarrow> (if is_ok r then n else n + 1, u)))"

datatype matrix_cleanup = CleanupComplete | CleanupPending nat

definition revoke_device_request ::
  "(utext \<Rightarrow> utext \<Rightarrow> 'm option) \<Rightarrow> (pending_matrix_device \<Rightarrow> store_fault) \<Rightarrow> device_draws \<Rightarrow> principal_id \<Rightarrow>
     device_id \<Rightarrow> device_store \<Rightarrow> (device_failure + matrix_cleanup) \<times> device_store" where
  "revoke_device_request matrix fault draws p d s =
     then_do (transact (dw_write_fault draws) (revoke_device_transaction p d (dw_now draws)) s) (\<lambda>outcome t.
     case (case outcome of
             DeviceRevokedNow pending \<Rightarrow> Some pending
           | AlreadyRevoked pending \<Rightarrow> Some pending
           | DeviceNotFound \<Rightarrow> None) of
       None \<Rightarrow> (Inl DNotFound, t)
     | Some pending \<Rightarrow>
         (case cleanup_matrix_devices matrix fault pending (dw_now draws) t of
            (n, u) \<Rightarrow> (Inr (if n = 0 then CleanupComplete else CleanupPending n), u)))"

section \<open>Computer grants\<close>

text \<open>\<open>issued_grant\<close> is the principal that is signed in, with the time it authenticated.\<close>

definition issue_computer_grant ::
  "device_ports \<Rightarrow> device_draws \<Rightarrow> principal_id \<Rightarrow> utc_millis \<Rightarrow> device_store \<Rightarrow>
     (device_failure + (secret_value \<times> utc_millis)) \<times> device_store" where
  "issue_computer_grant ports draws p authenticated_at s =
     (let now = dw_now draws in
      case and_then (generated (dw_access_secret draws)) (\<lambda>grant.
           and_then (or_internal (utc_checked_add now (dy_authorization_maximum_age (po_policy ports)))) (\<lambda>expires_at.
           Inr (grant, expires_at))) of
        Inl e \<Rightarrow> (Inl e, s)
      | Inr (grant, expires_at) \<Rightarrow>
          then_do (transact (dw_write_fault draws) (insert_grant
              \<lparr>cg_digest = po_digest ports grant, cg_principal_id = p,
               cg_authenticated_at = min authenticated_at now, cg_created_at = now,
               cg_expires_at = expires_at\<rparr>) s)
            (\<lambda>_ t. (Inr (grant, expires_at), t)))"

record grant_request =
  gq_grant :: secret_value
  gq_label :: utext
  gq_platform :: device_platform
  gq_key :: "8 word list"
  gq_signature :: "8 word list"

definition prepare_grant_registration ::
  "device_ports \<Rightarrow> device_draws \<Rightarrow> grant_request \<Rightarrow> device_store \<Rightarrow>
     device_failure + (computer_grant \<times> device \<times> session_registration \<times>
                       secret_value \<times> secret_value \<times> utc_millis)" where
  "prepare_grant_registration ports draws request seen =
     (let now = dw_now draws; policy = po_policy ports; digest = po_digest ports (gq_grant request) in
      and_then (validate_device_label (gq_label request)) (\<lambda>_.
      if gq_platform request = Network then Inl DInvalidRequest
      else if \<not> possession_verified ports digest (gq_label request) (gq_platform request)
                  (gq_key request) (gq_signature request) then Inl DInvalidProof
      else
        and_then (fst (transact (dw_read_fault draws) (find_grant digest now) seen)) (\<lambda>found.
        and_then (ok_or found DInvalidAuthorization) (\<lambda>grant.
        and_then (or_internal (sl_renewed_until (dy_refresh_lifetime policy) (cg_authenticated_at grant) now))
          (\<lambda>expires_at.
        if expires_at \<le> now then Inl DInvalidAuthorization
        else
          and_then (registered_device (dw_device_id draws) (cg_principal_id grant) (gq_label request)
            (gq_platform request) (gq_key request) now) (\<lambda>device.
          and_then (or_internal (and_then (family_new (dw_family_id draws) (dv_id device) now expires_at)
            (with_authenticated_at (cg_authenticated_at grant)))) (\<lambda>family.
          and_then (new_device_session ports draws digest family) (\<lambda>(session, a, r).
          Inr (grant, device, session, a, r, expires_at)))))))))"

definition register_device_with_grant ::
  "device_ports \<Rightarrow> device_draws \<Rightarrow> grant_request \<Rightarrow> device_store \<Rightarrow> device_store \<Rightarrow>
     (device_failure + device_credentials) \<times> device_store" where
  "register_device_with_grant ports draws request seen s =
     (case prepare_grant_registration ports draws request seen of
        Inl e \<Rightarrow> (Inl e, s)
      | Inr (grant, device, session, a, r, expires_at) \<Rightarrow>
          (case run_transaction (dw_write_fault draws) (register_with_grant grant device session) s of
             (Inl e, t) \<Rightarrow> (Inl (if e = NotFound then DInvalidAuthorization else map_repository_failure e), t)
           | (Inr stored, t) \<Rightarrow> (Inr (credentials stored a r expires_at), t)))"

end
