(* ===== verification/Table_Frames.thy ===== *)
theory Table_Frames
  imports Tables
begin

text \<open>
  What a transaction leaves alone: \<open>preserves g m\<close> says that a run of \<open>m\<close> which commits does not
  change the part \<open>g\<close> of the tables. The rules follow the combinators of \<open>Tables\<close>, so that the frame
  of a transaction is found by going through its statements.
\<close>

definition preserves :: "('s \<Rightarrow> 'b) \<Rightarrow> ('a, 's) transaction \<Rightarrow> bool" where
  "preserves g m \<longleftrightarrow> (\<forall>s x t. m s = Inr (x, t) \<longrightarrow> g t = g s)"

named_theorems frame "what the combinators of transactions preserve"

lemma preservesD: "preserves g m \<Longrightarrow> m s = Inr (x, t) \<Longrightarrow> g t = g s"
  by (simp add: preserves_def)

lemma preserves_exec [frame]:
  assumes "preserves g m" and "\<And>x. preserves g (k x)"
  shows "preserves g (exec m k)"
  unfolding preserves_def
proof (intro allI impI)
  fix s x t
  assume "exec m k s = Inr (x, t)"
  then obtain y u where "m s = Inr (y, u)" and "k y u = Inr (x, t)" by (auto simp: exec_Inr)
  then show "g t = g s" using preservesD [OF assms(1)] preservesD [OF assms(2)] by metis
qed

lemma preserves_basic [frame]:
  "preserves g (done_with x)" "preserves g (abort e)" "preserves g (query f)"
  by (simp_all add: preserves_def done_with_Inr abort_Inr query_Inr)

lemma preserves_execute [frame]: "(\<And>s t. f s = Inr t \<Longrightarrow> g t = g s) \<Longrightarrow> preserves g (execute f)"
  by (simp add: preserves_def execute_Inr)

lemma preserves_if [frame]: "preserves g m \<Longrightarrow> preserves g n \<Longrightarrow> preserves g (if b then m else n)"
  by simp

lemma preserves_let [frame]: "(\<And>y. preserves g (f y)) \<Longrightarrow> preserves g (let y = x in f y)"
  by (simp add: Let_def)

lemma preserves_option [frame]:
  "preserves g m \<Longrightarrow> (\<And>y. preserves g (f y)) \<Longrightarrow> preserves g (case x of None \<Rightarrow> m | Some y \<Rightarrow> f y)"
  by (cases x) simp_all

lemma preserves_prod [frame]:
  "(\<And>a b. preserves g (f a b)) \<Longrightarrow> preserves g (case x of (a, b) \<Rightarrow> f a b)"
  by (cases x) simp

lemma preserves_sum [frame]:
  "(\<And>a. preserves g (m a)) \<Longrightarrow> (\<And>b. preserves g (n b)) \<Longrightarrow>
     preserves g (case x of Inl a \<Rightarrow> m a | Inr b \<Rightarrow> n b)"
  by (cases x) simp_all

text \<open>A run with a fault leaves alone what the transaction leaves alone.\<close>

lemma preserves_run: "preserves g body \<Longrightarrow> g (snd (run_transaction fault body s)) = g s"
  using run_transaction_state [of fault body s] by (auto simp: preserves_def)

end
