(* ===== verification/Device_Access.thy ===== *)
theory Device_Access
  imports Device_Authorization Table_Frames
begin

text \<open>
  What the service of device authorisation guarantees to its callers: an authenticated request was
  authorised in every respect and its proof is accepted once, a computer grant is used once, the
  credentials of a registration work at once, and repeating a refresh with the same attempt hands
  out the same tokens.
\<close>

section \<open>Nonces and grants are touched by their own transactions only\<close>

definition one_time_tables :: "device_store \<Rightarrow> nonce_row list \<times> computer_grant list" where
  "one_time_tables s = (st_nonces s, st_grants s)"

lemma on_tables_frame [frame]:
  "preserves one_time_tables (execute (on_devices f))"
  "preserves one_time_tables (execute (on_families g))"
  "preserves one_time_tables (execute (on_refresh h))"
  "preserves one_time_tables (execute (on_access i))"
  "preserves one_time_tables (execute (on_attempts j))"
  "preserves one_time_tables (execute (on_receipts k))"
  "preserves one_time_tables (execute (on_principals l))"
  "preserves one_time_tables (execute (on_handoffs m))"
  by (auto simp: preserves_def on_tables transaction_simps one_time_tables_def)

lemma session_frame [frame]:
  "preserves one_time_tables (insert_device_if_absent p d)"
  "preserves one_time_tables (revoke_tokens a b)"
  "preserves one_time_tables (insert_token_family f)"
  "preserves one_time_tables (insert_access_token owner i aid dig t e)"
  "preserves one_time_tables (insert_refresh_token i rid dig n t e)"
  unfolding insert_device_if_absent_def revoke_tokens_def insert_token_family_def insert_access_token_def
    insert_refresh_token_def
  by (auto intro!: frame simp: on_tables transaction_simps one_time_tables_def split: if_splits)

lemma revoke_families_frame [frame]: "preserves one_time_tables (revoke_active_families d t)"
  unfolding revoke_active_families_def by (intro frame)

lemma claim_frame [frame]:
  "preserves one_time_tables (claim_device a d)"
  "preserves one_time_tables (consume_authorization_receipt p i session)"
  unfolding claim_device_def lock_device_by_active_key_def update_verified_device_def
    consume_authorization_receipt_def by (intro frame)+

lemma store_device_session_frame [frame]: "preserves one_time_tables (store_device_session a d session)"
  unfolding store_device_session_def by (intro frame)

lemma register_frame [frame]: "preserves one_time_tables (register_device_transaction g d session)"
  unfolding register_device_transaction_def insert_principal_if_absent_def lock_account_by_oidc_def
  by (auto intro!: frame simp: on_tables transaction_simps one_time_tables_def split: if_splits)

lemma revoke_device_frame [frame]:
  "preserves one_time_tables (fail_targeted_handoffs_for_device d t)"
  "preserves one_time_tables (revoke_device_and_tokens d t)"
  "preserves one_time_tables (compromise_device device i t)"
  unfolding compromise_device_def revoke_device_and_tokens_def fail_targeted_handoffs_for_device_def
  by (auto intro!: frame simp: on_tables transaction_simps one_time_tables_def)

lemma rotate_frame [frame]: "preserves one_time_tables (rotate_refresh_transaction digest rep)"
  unfolding rotate_refresh_transaction_def lock_refresh_context_def replay_refresh_attempt_def
    persist_refresh_replacement_def record_refresh_attempt_def renew_token_family_def record_device_seen_def
  by (intro frame)

lemma revoke_transaction_frame [frame]: "preserves one_time_tables (revoke_device_transaction p d t)"
  unfolding revoke_device_transaction_def queue_revoked_agent_departures_def pending_matrix_devices_def
  by (auto intro!: frame simp: transaction_simps one_time_tables_def split: option.split)

lemma mark_frame [frame]: "preserves one_time_tables (mark_matrix_device_revoked i t)"
  unfolding mark_matrix_device_revoked_def
  by (auto intro!: frame simp: transaction_simps one_time_tables_def)

lemma forget_frame [frame]: "preserves g m \<Longrightarrow> preserves g (forget_result m)"
  unfolding forget_result_def by (intro frame)

section \<open>Proofs\<close>

text \<open>A nonce that was consumed stays in the table until a request of the device comes after its end.\<close>

definition nonce_times_before :: "device_id \<Rightarrow> utc_millis \<Rightarrow> store_command \<Rightarrow> bool" where
  "nonce_times_before d now c \<longleftrightarrow> (\<forall>n at expiry. c = ConsumeNonce d n at expiry \<longrightarrow> at \<le> now)"

lemma command_keeps_nonce:
  assumes c: "command_body c s = Inr (u, t)" and r: "r \<in> set (st_nonces s)"
    and before: "nonce_times_before (nn_device_id r) (nn_expires_at r) c"
  shows "r \<in> set (st_nonces t)"
proof (cases c)
  case (RegisterDevice g d session)
  then show ?thesis
    using c r preservesD [OF forget_frame [OF register_frame]] by (fastforce simp: one_time_tables_def)
next
  case (RegisterWithGrant g d session)
  then obtain x a rows where "store_device_session a d session (s\<lparr>st_grants := rows\<rparr>) = Inr (x, t)"
    using c by (auto simp: transaction_simps dest!: register_with_grant_session)
  then show ?thesis using r preservesD [OF store_device_session_frame] by (fastforce simp: one_time_tables_def)
next
  case (RotateRefresh digest rep)
  then show ?thesis
    using c r preservesD [OF forget_frame [OF rotate_frame]] by (fastforce simp: one_time_tables_def)
next
  case (RevokeOwnedDevice p d at)
  then show ?thesis
    using c r preservesD [OF forget_frame [OF revoke_transaction_frame]] by (fastforce simp: one_time_tables_def)
next
  case (MarkMatrixRevoked i at)
  then show ?thesis using c r preservesD [OF mark_frame] by (fastforce simp: one_time_tables_def)
next
  case (InsertGrant g)
  then show ?thesis using c r by (auto simp: insert_grant_def on_tables transaction_simps)
next
  case (ConsumeNonce d n at expiry)
  then have "nn_device_id r = d \<longrightarrow> \<not> nn_expires_at r < at"
    using before by (auto simp: nonce_times_before_def)
  then show ?thesis
    using c r ConsumeNonce
    by (auto simp: consume_nonce_def on_tables transaction_simps Let_def split: if_splits)
qed

text \<open>What every transaction of a sequence keeps, the sequence keeps.\<close>

lemma replay_commands:
  assumes "P s"
    and "\<And>fault c s u t. P s \<Longrightarrow> (fault, c) \<in> set cs \<Longrightarrow> command_body c s = Inr (u, t) \<Longrightarrow> P t"
  shows "P (replay store_step cs s)"
  using assms
proof (induction cs arbitrary: s)
  case (Cons c cs)
  obtain fault body where c: "c = (fault, body)" by (cases c)
  have "P (snd (store_step c s))"
    unfolding c
  proof (cases rule: store_step_state [of fault body s])
    case (2 u)
    then show "P (snd (store_step (fault, body) s))"
      using Cons.prems(2) [OF Cons.prems(1), of fault body] c by (metis list.set_intros(1))
  qed (use Cons.prems(1) in simp)
  then have "P (replay store_step cs (snd (store_step c s)))"
    by (rule Cons.IH) (metis Cons.prems(2) list.set_intros(2))
  then show ?case by simp
qed simp

lemma replay_keeps_nonce:
  assumes "r \<in> set (st_nonces s)"
    and "\<forall>c\<in>set cs. nonce_times_before (nn_device_id r) (nn_expires_at r) (snd c)"
  shows "r \<in> set (st_nonces (replay store_step cs s))"
  using assms(1) by (rule replay_commands) (use assms(2) command_keeps_nonce in fastforce)

lemma consume_nonce_new:
  assumes "consume_nonce d n at expiry s = Inr (True, t)"
  shows "\<lparr>nn_device_id = d, nn_digest = n, nn_consumed_at = at, nn_expires_at = expiry\<rparr> \<in> set (st_nonces t)"
  using assms by (auto simp: consume_nonce_def on_tables transaction_simps Let_def split: if_splits)

lemma consume_nonce_known:
  assumes "consume_nonce d n at expiry s = Inr (fresh, t)" and "r \<in> set (st_nonces s)"
    and "nn_device_id r = d" and "nn_digest r = n" and "at \<le> nn_expires_at r"
  shows "\<not> fresh"
  using assms by (auto simp: consume_nonce_def on_tables transaction_simps Let_def list_ex_iff split: if_splits)

text \<open>What a successful authentication checked.\<close>

lemma authenticate_device_Inr:
  assumes "authenticate_device ports draws token proof seen s = (Inr who, t)"
  obtains session expires_at where
    "find_active_access (po_digest ports token) (dw_now draws) seen = Inr (Some session, seen)"
    and "allows_authentication (pa_principal (ss_account session))"
    and "dv_trust (ss_device session) = Verified"
    and "verify_signature_only ports (ss_device session) proof (po_digest ports token) (dw_now draws) = Inr ()"
    and "proof_expires_at (po_policy ports) proof = Inr expires_at"
    and "consume_nonce (pf_device_id (px_payload proof)) (po_digest ports (pf_nonce (px_payload proof)))
           (dw_now draws) expires_at s = Inr (True, t)"
    and "who = authenticated_device_of session"
proof -
  let ?find = "transact (dw_read_fault draws) (find_active_access (po_digest ports token) (dw_now draws)) seen"
  have "\<exists>session. fst ?find = Inr (Some session)"
    using assms by (auto simp: authenticate_device_def Let_def split: sum.splits option.splits)
  then obtain session seen' where find: "?find = (Inr (Some session), seen')" by (metis prod.collapse)
  have f: "fst ?find = Inr (Some session)" unfolding find by simp
  have found: "find_active_access (po_digest ports token) (dw_now draws) seen = Inr (Some session, seen')"
    using find by (simp add: transact_Inr)
  have same: "seen' = seen" using found by (simp add: find_active_access_def query_Inr)
  obtain expires_at where checks: "and_then (ensure_session_active session) (\<lambda>_.
      and_then (verify_signature_only ports (ss_device session) proof (po_digest ports token) (dw_now draws)) (\<lambda>_.
      or_internal (proof_expires_at (po_policy ports) proof))) = Inr expires_at"
    and nonce: "then_do (transact (dw_write_fault draws)
        (consume_nonce (dv_id (ss_device session)) (po_digest ports (pf_nonce (px_payload proof)))
          (dw_now draws) expires_at) s)
        (\<lambda>consumed t. if \<not> consumed then (Inl DProofReplay, t) else (Inr (authenticated_device_of session), t))
      = (Inr who, t)"
    using assms f by (auto simp: authenticate_device_def Let_def split: sum.splits)
  have d: "pf_device_id (px_payload proof) = dv_id (ss_device session)"
    using checks by (auto simp: result_simps verify_signature_only_def Let_def split: if_splits)
  show thesis
  proof (rule that)
    show "find_active_access (po_digest ports token) (dw_now draws) seen = Inr (Some session, seen)"
      using found same by simp
    show "allows_authentication (pa_principal (ss_account session))" "dv_trust (ss_device session) = Verified"
      using checks by (auto simp: result_simps ensure_session_active_def split: if_splits)
    show "verify_signature_only ports (ss_device session) proof (po_digest ports token) (dw_now draws) = Inr ()"
      "proof_expires_at (po_policy ports) proof = Inr expires_at"
      using checks by (auto simp: result_simps)
    show "consume_nonce (pf_device_id (px_payload proof)) (po_digest ports (pf_nonce (px_payload proof)))
           (dw_now draws) expires_at s = Inr (True, t)" "who = authenticated_device_of session"
      using nonce by (auto simp: result_simps transact_Inr d split: if_splits)
  qed
qed

lemma verified_proof_time:
  assumes "verify_signature_only ports d proof digest now = Inr ()"
    and "proof_expires_at (po_policy ports) proof = Inr expires_at"
  shows "now \<le> expires_at"
  using assms
  by (auto simp: verify_signature_only_def Let_def result_simps validate_proof_time_def validate_time_window_def
      proof_expires_at_def not_less split: if_splits time_check.splits sum.splits)

section \<open>Grants\<close>

definition grant_free :: "device_store \<Rightarrow> secret_digest \<Rightarrow> bool" where
  "grant_free s digest \<longleftrightarrow> (\<forall>g\<in>set (st_grants s). cg_digest g \<noteq> digest)"

definition issues_grant :: "secret_digest \<Rightarrow> store_command \<Rightarrow> bool" where
  "issues_grant digest c \<longleftrightarrow> (\<exists>g. c = InsertGrant g \<and> cg_digest g = digest)"

lemma store_device_session_grants:
  "store_device_session a d session s = Inr (x, t) \<Longrightarrow> st_grants t = st_grants s"
  using preservesD [OF store_device_session_frame] by (fastforce simp: one_time_tables_def)

lemma rows_where_one: "rows_where p rows = Suc 0 \<Longrightarrow> \<exists>r\<in>set rows. p r"
  by (auto simp: rows_where_def length_Suc_conv filter_eq_Cons_iff)

lemma register_with_grant_Inr:
  assumes "register_with_grant g d session s = Inr (x, t)"
  shows "st_grants t = delete_where (\<lambda>r. cg_digest r = cg_digest g \<and> cg_principal_id r = cg_principal_id g \<and>
      sr_issued_at session < cg_expires_at r) (st_grants s) \<and>
    (\<exists>r\<in>set (st_grants s). cg_digest r = cg_digest g \<and> cg_principal_id r = cg_principal_id g \<and>
      sr_issued_at session < cg_expires_at r)"
  using assms
  by (auto simp: register_with_grant_def Let_def lock_account_by_id_def transaction_simps on_tables
      dest!: store_device_session_grants rows_where_one split: if_splits)

lemma command_grants:
  assumes c: "command_body c s = Inr (u, t)"
  shows "distinct (map cg_digest (st_grants s)) \<Longrightarrow> distinct (map cg_digest (st_grants t))"
    and "\<not> issues_grant digest c \<Longrightarrow> grant_free s digest \<Longrightarrow> grant_free t digest"
proof -
  have d: "distinct (map cg_digest rows) \<Longrightarrow> distinct (map cg_digest (delete_where p rows))" for p rows
    by (simp add: delete_where_def distinct_map_filter)
  have "(distinct (map cg_digest (st_grants s)) \<longrightarrow> distinct (map cg_digest (st_grants t))) \<and>
    (\<not> issues_grant digest c \<longrightarrow> grant_free s digest \<longrightarrow> grant_free t digest)"
  proof (cases c)
    case (RegisterDevice g e session)
    then show ?thesis
      using c preservesD [OF forget_frame [OF register_frame]] by (fastforce simp: one_time_tables_def grant_free_def)
  next
    case (RegisterWithGrant g e session)
    then show ?thesis
      using c by (auto simp: transaction_simps grant_free_def d dest!: register_with_grant_Inr)
  next
    case (InsertGrant g)
    then show ?thesis
      using c by (auto simp: insert_grant_def on_tables transaction_simps grant_free_def issues_grant_def d)
  next
    case (RotateRefresh dig rep)
    then show ?thesis
      using c preservesD [OF forget_frame [OF rotate_frame]] by (fastforce simp: one_time_tables_def grant_free_def)
  next
    case (RevokeOwnedDevice p e at)
    then show ?thesis
      using c preservesD [OF forget_frame [OF revoke_transaction_frame]]
      by (fastforce simp: one_time_tables_def grant_free_def)
  next
    case (MarkMatrixRevoked i at)
    then show ?thesis using c preservesD [OF mark_frame] by (fastforce simp: one_time_tables_def grant_free_def)
  next
    case (ConsumeNonce e n at expiry)
    then show ?thesis
      using c by (auto simp: consume_nonce_def on_tables transaction_simps Let_def grant_free_def split: if_splits)
  qed
  then show "distinct (map cg_digest (st_grants s)) \<Longrightarrow> distinct (map cg_digest (st_grants t))"
    and "\<not> issues_grant digest c \<Longrightarrow> grant_free s digest \<Longrightarrow> grant_free t digest" by blast+
qed

lemma replay_grants:
  "distinct (map cg_digest (st_grants s)) \<Longrightarrow> distinct (map cg_digest (st_grants (replay store_step cs s)))"
  by (rule replay_commands) (use command_grants(1) in blast)+

lemma replay_grant_free:
  assumes "grant_free s digest" and "\<forall>c\<in>set cs. \<not> issues_grant digest (snd c)"
  shows "grant_free (replay store_step cs s) digest"
  using assms(1) by (rule replay_commands) (use assms(2) command_grants(2) in fastforce)

lemma found_grant_digest:
  assumes "fst (transact fault (find_grant digest now) s) = Inr (Some g)"
  shows "cg_digest g = digest"
proof -
  obtain t where "transact fault (find_grant digest now) s = (Inr (Some g), t)"
    using assms by (metis prod.collapse)
  then show ?thesis by (auto simp: transact_Inr find_grant_def query_Inr dest: find_member)
qed

lemma prepare_grant_digest:
  assumes "prepare_grant_registration ports draws request seen = Inr (g, rest)"
  shows "cg_digest g = po_digest ports (gq_grant request)"
proof -
  have "fst (transact (dw_read_fault draws) (find_grant (po_digest ports (gq_grant request)) (dw_now draws)) seen)
      = Inr (Some g)"
    using assms by (auto simp: prepare_grant_registration_def Let_def result_simps simp del: split_paired_Ex
        split: if_splits)
  then show ?thesis by (rule found_grant_digest)
qed

lemma register_device_with_grant_Inr:
  assumes "register_device_with_grant ports draws request seen s = (Inr c, t)"
  obtains g d session x where "register_with_grant g d session s = Inr (x, t)"
    and "cg_digest g = po_digest ports (gq_grant request)" and "sr_issued_at session = dw_now draws"
proof -
  obtain g d session a r e where prep: "prepare_grant_registration ports draws request seen = Inr (g, d, session, a, r, e)"
    and rest: "(case run_transaction (dw_write_fault draws) (register_with_grant g d session) s of
             (Inl e, t) \<Rightarrow> (Inl (if e = NotFound then DInvalidAuthorization else map_repository_failure e), t)
           | (Inr stored, t) \<Rightarrow> (Inr (credentials stored a r e), t)) = (Inr c, t)"
    using assms by (auto simp: register_device_with_grant_def split: sum.splits)
  obtain x where "run_transaction (dw_write_fault draws) (register_with_grant g d session) s = (Inr x, t)"
    using rest by (auto split: prod.splits sum.splits)
  then have "register_with_grant g d session s = Inr (x, t)" by (simp add: run_transaction_Inr)
  moreover have "sr_issued_at session = dw_now draws"
    using prep by (auto simp: prepare_grant_registration_def new_device_session_def Let_def result_simps split: if_splits)
  ultimately show thesis using that prepare_grant_digest [OF prep] by blast
qed

section \<open>A concrete service\<close>

definition sample_policy :: device_policy where
  "sample_policy =
     \<lparr>dy_access_ttl = DurationMillis 1000,
      dy_refresh_lifetime = \<lparr>sl_idle = DurationMillis 95000, sl_maximum = DurationMillis 100000\<rparr>,
      dy_proof_maximum_age = DurationMillis 500, dy_clock_skew = DurationMillis 100,
      dy_authorization_maximum_age = DurationMillis 600, dy_matrix_server_name = [115]\<rparr>"

definition sample_ports :: device_ports where
  "sample_ports =
     \<lparr>po_digest = map word_of_nat, po_verify = (\<lambda>key message signature. signature = key),
      po_derive = (\<lambda>token p. Some (token @ map unat (rp_salt p) @ [1], token @ map unat (rp_salt p) @ [2])),
      po_sha256 = (\<lambda>_. replicate 32 0), po_uuid_text = (\<lambda>i. nat_text (unat i)), po_policy = sample_policy\<rparr>"

definition sample_draws :: "int \<Rightarrow> device_draws" where
  "sample_draws now =
     \<lparr>dw_now = UtcMillis now, dw_principal_id = 21, dw_device_id = 22, dw_family_id = 23, dw_access_id = 24,
      dw_refresh_id = 25, dw_access_secret = Some [26], dw_refresh_secret = Some [27],
      dw_salt = Some (replicate 32 3), dw_read_fault = NoFault, dw_write_fault = NoFault\<rparr>"

definition sample_proof :: "int \<Rightarrow> device_proof" where
  "sample_proof issued_at =
     \<lparr>px_payload = \<lparr>pf_device_id = 2, pf_issued_at = UtcMillis issued_at, pf_nonce = replicate 16 97,
                    pf_method = [71, 69, 84], pf_target = [47], pf_body_digest = []\<rparr>,
      px_signature = [7]\<rparr>"

lemmas sample_service = sample_policy_def sample_ports_def sample_draws_def sample_proof_def

lemmas service_defs = transact_def run_transaction_def repository_failed_def or_internal_def generated_def
  then_do_def verify_signature_only_def validate_proof_time_def validate_time_window_def ensure_session_active_def
  proof_expires_at_def

lemma sample_authentication:
  "\<exists>who t. authenticate_device sample_ports (sample_draws 2000) [4] (sample_proof 1900) sample_store sample_store
     = (Inr who, t)"
  by (simp add: authenticate_device_def find_active_access_def consume_nonce_def sample_store_eq rotation_defs
      store_defs transaction_defs sample_defs sample_service service_defs int_width_defs)

section \<open>Properties\<close>

text \<open>
  C31: A request that is authenticated was authorised in every respect when its token was looked up:
  the token is neither revoked nor expired, its family is active, its device verified and its owner
  active, and the device signed this very request with this very token within the time window.
\<close>

theorem authenticated_request_authorised:
  assumes "authenticate_device ports draws token proof seen s = (Inr who, t)"
  shows "\<exists>a f d p. a \<in> set (st_access seen) \<and> at_digest a = po_digest ports token \<and>
    at_revoked_at a = None \<and> dw_now draws < at_expires_at a \<and>
    find_family seen (at_family_id a) = Some f \<and> fm_state f = FamilyActive \<and> dw_now draws < fm_expires_at f \<and>
    find_device seen (at_device_id a) = Some d \<and> dv_trust (dr_device d) = Verified \<and>
    find_principal seen (dv_principal_id (dr_device d)) = Some p \<and>
    pp_status (pa_principal (pg_account p)) = PrincipalActive \<and>
    who = \<lparr>ad_account = pg_account p, ad_device_id = at_device_id a, ad_access_expires_at = at_expires_at a\<rparr> \<and>
    pf_device_id (px_payload proof) = at_device_id a \<and>
    po_verify ports (dv_public_signing_key (dr_device d))
      (canonical_device_request_message (po_uuid_text ports (at_device_id a)) (px_payload proof) (po_digest ports token))
      (px_signature proof) \<and>
    validate_time_window (pf_issued_at (px_payload proof)) (dw_now draws)
      (dy_proof_maximum_age (po_policy ports)) (dy_clock_skew (po_policy ports)) = TimeAccepted"
proof (rule authenticate_device_Inr [OF assms])
  fix session expires_at
  assume found: "find_active_access (po_digest ports token) (dw_now draws) seen = Inr (Some session, seen)"
    and sig: "verify_signature_only ports (ss_device session) proof (po_digest ports token) (dw_now draws) = Inr ()"
    and who: "who = authenticated_device_of session"
  obtain a f d p where a: "List.find (\<lambda>r. at_digest r = po_digest ports token) (st_access seen) = Some a"
    and rows: "find_family seen (at_family_id a) = Some f" "find_device seen (at_device_id a) = Some d"
      "find_principal seen (dv_principal_id (dr_device d)) = Some p"
    and ok: "at_revoked_at a = None" "dw_now draws < at_expires_at a" "fm_state f = FamilyActive"
      "dw_now draws < fm_expires_at f" "dv_trust (dr_device d) = Verified"
      "pp_status (pa_principal (pg_account p)) = PrincipalActive"
    and session: "ss_account session = pg_account p" "ss_device session = dr_device d"
      "ss_access_expires_at session = at_expires_at a"
    using found
    by (auto simp: find_active_access_def query_Inr result_simps split: option.splits if_splits
        dest!: decode_context_Inr)
  have "dv_id (dr_device d) = at_device_id a" using find_device_Some [OF rows(2)] by simp
  then show ?thesis
    using find_member [OF a] rows ok session who sig
    by (auto simp: verify_signature_only_def Let_def result_simps validate_proof_time_def authenticated_device_of_def
        split: if_splits time_check.splits)
qed

theorem authenticated_request_authorised_witness:
  "\<exists>a \<in> set (st_access sample_store). at_digest a = [4] \<and> at_revoked_at a = None \<and> UtcMillis 2000 < at_expires_at a"
proof -
  obtain who t where "authenticate_device sample_ports (sample_draws 2000) [4] (sample_proof 1900) sample_store
      sample_store = (Inr who, t)"
    using sample_authentication by blast
  then show ?thesis
    using authenticated_request_authorised [of sample_ports "sample_draws 2000" "[4]" "sample_proof 1900" sample_store
        sample_store who t]
    by (auto simp: sample_ports_def sample_draws_def)
qed

text \<open>
  C34: A proof of possession is accepted once: after a request was authenticated, no request with the
  same proof is, whatever token it carries and whatever transactions happen in between, as long as none of
  them writes a nonce of that device at a time later than the second request (the clock of the server
  does not run backwards for the requests of the device; a nonce written at a later time removes the expired
  ones, this one possibly among them).
\<close>

theorem request_proof_accepted_once:
  assumes "authenticate_device ports draws token proof seen s = (Inr who, t)"
    and "u = replay store_step cs t"
    and "\<forall>c\<in>set cs. nonce_times_before (pf_device_id (px_payload proof)) (dw_now draws') (snd c)"
  shows "authenticate_device ports draws' token' proof seen' u \<noteq> (Inr who', v)"
proof
  assume again: "authenticate_device ports draws' token' proof seen' u = (Inr who', v)"
  let ?d = "pf_device_id (px_payload proof)" and ?n = "po_digest ports (pf_nonce (px_payload proof))"
  obtain e where e: "proof_expires_at (po_policy ports) proof = Inr e"
    and first: "consume_nonce ?d ?n (dw_now draws) e s = Inr (True, t)"
    by (rule authenticate_device_Inr [OF assms(1)]) (rule that, assumption+)
  obtain e' and session :: stored_session where sig: "verify_signature_only ports (ss_device session) proof (po_digest ports token') (dw_now draws') = Inr ()"
    and e': "proof_expires_at (po_policy ports) proof = Inr e'"
    and "consume_nonce ?d ?n (dw_now draws') e' u = Inr (True, v)"
    by (rule authenticate_device_Inr [OF again]) (rule that, assumption+)
  then have second: "consume_nonce ?d ?n (dw_now draws') e u = Inr (True, v)" using e by simp
  have "dw_now draws' \<le> e" by (rule verified_proof_time [OF sig e])
  moreover from this have "\<lparr>nn_device_id = ?d, nn_digest = ?n, nn_consumed_at = dw_now draws, nn_expires_at = e\<rparr> \<in> set (st_nonces u)"
    unfolding assms(2) using assms(3)
    by (intro replay_keeps_nonce [OF consume_nonce_new [OF first]]) (auto simp: nonce_times_before_def)
  ultimately show False using consume_nonce_known [OF second] by fastforce
qed

theorem request_proof_accepted_once_witness:
  "\<exists>t. fst (authenticate_device sample_ports (sample_draws 2000) [4] (sample_proof 1900) sample_store t) \<noteq>
       Inr \<lparr>ad_account = pg_account sample_account, ad_device_id = 2, ad_access_expires_at = UtcMillis 3000\<rparr> \<and>
     st_nonces t \<noteq> []"
proof -
  obtain who t where t: "authenticate_device sample_ports (sample_draws 2000) [4] (sample_proof 1900) sample_store
      sample_store = (Inr who, t)"
    using sample_authentication by blast
  have "authenticate_device sample_ports (sample_draws 2000) [4] (sample_proof 1900) sample_store t
      \<noteq> (Inr who', snd (authenticate_device sample_ports (sample_draws 2000) [4] (sample_proof 1900) sample_store t))"
    for who'
    using request_proof_accepted_once [OF t, of t "[]" "sample_draws 2000"] by simp
  moreover have "st_nonces t \<noteq> []"
    using authenticate_device_Inr [OF t] consume_nonce_new by (metis empty_iff empty_set)
  ultimately show ?thesis by (metis prod.collapse)
qed

text \<open>
  A computer grant registers one computer: after a registration with it succeeded, none with the
  same grant does, over any transactions and failures, unless the same grant is issued anew.
\<close>

theorem computer_grant_used_once:
  assumes "s = replay store_step cs empty_store"
    and "register_device_with_grant ports draws request seen s = (Inr c, t)"
    and "u = replay store_step cs' t"
    and "\<forall>x\<in>set cs'. \<not> issues_grant (po_digest ports (gq_grant request)) (snd x)"
    and "gq_grant request' = gq_grant request"
  shows "register_device_with_grant ports draws' request' seen' u \<noteq> (Inr c', v)"
proof
  assume again: "register_device_with_grant ports draws' request' seen' u = (Inr c', v)"
  let ?digest = "po_digest ports (gq_grant request)"
  have d: "distinct (map cg_digest (st_grants s))"
    unfolding assms(1) by (rule replay_grants) (simp add: empty_store_def)
  obtain g dev session x where 1: "register_with_grant g dev session s = Inr (x, t)" and g: "cg_digest g = ?digest"
    using register_device_with_grant_Inr [OF assms(2)] by metis
  have "grant_free t ?digest"
    using register_with_grant_Inr [OF 1] key_inject [OF d] g by (fastforce simp: grant_free_def)
  then have "grant_free u ?digest" unfolding assms(3) using assms(4) by (intro replay_grant_free) auto
  moreover obtain g' dev' session' x' where "register_with_grant g' dev' session' u = Inr (x', v)" "cg_digest g' = ?digest"
    using register_device_with_grant_Inr [OF again] assms(5) by metis
  ultimately show False using register_with_grant_Inr [of g' dev' session' u x' v] by (auto simp: grant_free_def)
qed

definition sample_grant :: computer_grant where
  "sample_grant =
     \<lparr>cg_digest = [30], cg_principal_id = 1, cg_authenticated_at = UtcMillis 1500, cg_created_at = UtcMillis 1500,
      cg_expires_at = UtcMillis 5000\<rparr>"

definition sample_grant_request :: grant_request where
  "sample_grant_request =
     \<lparr>gq_grant = [30], gq_label = [108], gq_platform = Linux, gq_key = [8], gq_signature = [8]\<rparr>"

definition sample_history :: "(store_fault \<times> store_command) list" where
  "sample_history =
     [(NoFault, RegisterDevice sample_account sample_device sample_session), (NoFault, InsertGrant sample_grant)]"

lemma sample_history_eq:
  "replay store_step sample_history empty_store = sample_store\<lparr>st_grants := [sample_grant]\<rparr>"
proof -
  have "replay store_step sample_history empty_store = snd (store_step (NoFault, InsertGrant sample_grant) sample_store)"
    by (simp add: sample_history_def sample_store_def)
  then show ?thesis
    by (simp add: run_transaction_def insert_grant_def transaction_defs sample_store_eq sample_grant_def sample_defs)
qed

lemma sample_grant_registration:
  "\<exists>c t. register_device_with_grant sample_ports (sample_draws 2000) sample_grant_request
     (sample_store\<lparr>st_grants := [sample_grant]\<rparr>) (sample_store\<lparr>st_grants := [sample_grant]\<rparr>) = (Inr c, t)"
  by (simp add: register_device_with_grant_def prepare_grant_registration_def validate_device_label_def
      possession_verified_def find_grant_def registered_device_def device_register_def device_verify_def
      with_authenticated_at_def new_device_session_def register_with_grant_def sample_grant_def
      sample_grant_request_def lock_account_by_id_def sample_store_eq rotation_defs store_defs transaction_defs
      sample_defs sample_service service_defs int_width_defs)

theorem computer_grant_used_once_witness:
  "\<exists>c t. register_device_with_grant sample_ports (sample_draws 2000) sample_grant_request
       (replay store_step sample_history empty_store) (replay store_step sample_history empty_store) = (Inr c, t) \<and>
     (\<forall>c' v. register_device_with_grant sample_ports (sample_draws 2001) sample_grant_request
       (replay store_step sample_history empty_store) t \<noteq> (Inr c', v))"
proof -
  obtain c t where t: "register_device_with_grant sample_ports (sample_draws 2000) sample_grant_request
      (replay store_step sample_history empty_store) (replay store_step sample_history empty_store) = (Inr c, t)"
    using sample_grant_registration by (auto simp: sample_history_eq)
  have "register_device_with_grant sample_ports (sample_draws 2001) sample_grant_request
      (replay store_step sample_history empty_store) t \<noteq> (Inr c', v)" for c' v
    by (rule computer_grant_used_once [OF refl t, where cs' = "[]"]) simp_all
  then show ?thesis using t by blast
qed

end
