(* ===== verification/Device_Replay.thy ===== *)
theory Device_Replay
  imports Device_Access
begin

text \<open>
  A refresh whose answer was lost can be repeated: the attempt it recorded stays open while the
  tokens it issued are current, and a repetition with the same attempt gets these tokens again.
\<close>

section \<open>Open attempts\<close>

text \<open>
  The token with \<open>digest\<close> was exchanged in attempt \<open>i\<close> for the refresh row \<open>n\<close> and the access row
  \<open>x\<close>, and the salt is still there.
\<close>

definition open_attempt ::
  "device_store \<Rightarrow> secret_digest \<Rightarrow> refresh_attempt_id \<Rightarrow> replay_salt \<Rightarrow> refresh_row \<Rightarrow> access_row \<Rightarrow> bool" where
  "open_attempt s digest i salt n x \<longleftrightarrow> n \<in> set (st_refresh s) \<and> x \<in> set (st_access s) \<and>
     (\<exists>r\<in>set (st_refresh s). \<exists>a\<in>set (st_attempts s). rt_digest r = digest \<and> rt_consumed_at r \<noteq> None \<and>
        ra_refresh_id a = rt_id r \<and> ra_attempt_id a = i \<and> ra_salt a = Some salt \<and>
        ra_successor_id a = rt_id n \<and> ra_access_id a = at_id x)"

lemma open_attempt_facts:
  assumes ok: "store_ok s" and o: "open_attempt s digest i salt n x"
  obtains r a where "r \<in> set (st_refresh s)" and "a \<in> set (st_attempts s)" and "rt_digest r = digest"
    and "rt_consumed_at r \<noteq> None" and "ra_refresh_id a = rt_id r" and "ra_attempt_id a = i"
    and "ra_salt a = Some salt" and "ra_successor_id a = rt_id n" and "ra_access_id a = at_id x"
    and "rt_family_id n = rt_family_id r" and "at_family_id x = rt_family_id r"
    and "rt_consumed_at n = None" and "length salt = 32" and "rt_replaced_by r = Some (rt_id n)"
proof -
  obtain r a where ra: "r \<in> set (st_refresh s)" "a \<in> set (st_attempts s)" "rt_digest r = digest"
      "rt_consumed_at r \<noteq> None" "ra_refresh_id a = rt_id r" "ra_attempt_id a = i" "ra_salt a = Some salt"
      "ra_successor_id a = rt_id n" "ra_access_id a = at_id x"
    and nx: "n \<in> set (st_refresh s)" "x \<in> set (st_access s)"
    using o by (auto simp: open_attempt_def)
  have k: "distinct (map rt_id (st_refresh s))" "distinct (map at_id (st_access s))"
    using ok by (simp_all add: store_ok_def keys_ok_def)
  have "attempt_check a" and "attempt_in_tables s a" using ok ra(2) by (simp_all add: store_ok_def attempts_ok_def)
  then obtain r' n' x' where m: "r' \<in> set (st_refresh s)" "n' \<in> set (st_refresh s)" "x' \<in> set (st_access s)"
    and e: "rt_id r' = ra_refresh_id a" "rt_id n' = ra_successor_id a" "at_id x' = ra_access_id a"
      "rt_replaced_by r' = Some (rt_id n')" "rt_family_id n' = rt_family_id r'"
      "at_family_id x' = rt_family_id r'" "ra_salt a \<noteq> None \<longrightarrow> rt_consumed_at n' = None"
    unfolding attempt_in_tables_def by (elim bexE conjE) (rule that)
  have "r' = r" "n' = n" "x' = x"
    using key_inject [OF k(1) m(1) ra(1)] key_inject [OF k(1) m(2) nx(1)] key_inject [OF k(2) m(3) nx(2)] e ra
    by simp_all
  then show thesis
    using that [OF ra] e(4-7) ra(7) \<open>attempt_check a\<close> by (simp add: attempt_check_def)
qed

lemma find_by_id:
  "distinct (map key rows) \<Longrightarrow> r \<in> set rows \<Longrightarrow> key r = k \<Longrightarrow> List.find (\<lambda>x. key x = k) rows = Some r"
  using find_unique [of key rows r] by simp

text \<open>Repeating an open attempt.\<close>

lemma replay_open_attempt:
  assumes ok: "store_ok s" and o: "open_attempt s digest i salt n x"
    and c: "context_of s digest l r" and i: "rp_attempt_id p = i"
    and a: "fm_state (lk_family l) = FamilyActive" "now < fm_expires_at (lk_family l)"
  shows "replay_refresh_attempt l p now s = Inr (Some (Replayed
     \<lparr>ss_account = lk_account l, ss_device = lk_device l, ss_family = lk_family l,
      ss_access_expires_at = at_expires_at x\<rparr>
     (fm_expires_at (lk_family l)) salt (at_digest x) (rt_digest n)), s)"
proof -
  obtain r' b where b: "r' \<in> set (st_refresh s)" "b \<in> set (st_attempts s)" "rt_digest r' = digest"
      "ra_refresh_id b = rt_id r'" "ra_attempt_id b = i" "ra_salt b = Some salt" "ra_successor_id b = rt_id n"
      "ra_access_id b = at_id x"
    and f: "rt_family_id n = rt_family_id r'" "at_family_id x = rt_family_id r'" "rt_consumed_at n = None"
      "length salt = 32"
    using ok o by (rule open_attempt_facts)
  have nx: "n \<in> set (st_refresh s)" "x \<in> set (st_access s)" using o by (simp_all add: open_attempt_def)
  have k: "distinct (map rt_id (st_refresh s))" "distinct (map at_id (st_access s))"
    "distinct (map rt_digest (st_refresh s))" "distinct (map ra_refresh_id (st_attempts s))"
    "distinct (map fm_id (st_families s))"
    using ok by (simp_all add: store_ok_def keys_ok_def)
  note row = context_of_row [OF c]
  have r: "r' = r" using key_inject [OF k(3) b(1) row(1)] b(3) row(2) by simp
  have "lk_refresh_id l = rt_id r" using c by (simp add: context_of_def)
  then have 1: "List.find (\<lambda>a. ra_refresh_id a = lk_refresh_id l) (st_attempts s) = Some b"
    using find_by_id [OF k(4) b(2)] b(4) r by simp
  have 2: "List.find (\<lambda>r. rt_id r = ra_successor_id b) (st_refresh s) = Some n"
    "List.find (\<lambda>r. at_id r = ra_access_id b) (st_access s) = Some x"
    using find_by_id [OF k(1) nx(1)] find_by_id [OF k(2) nx(2)] b(7,8) by simp_all
  have own: "g = lk_family l" if "g \<in> set (st_families s)" "fm_id g = rt_family_id r" for g
    using key_inject [OF k(5) that(1) row(3)] that(2) row(4) by simp
  have "token_in_family s n" using ok nx(1) by (simp add: store_ok_def refresh_ok_def)
  then have n: "rt_revoked_at n = None" "rt_expires_at n = fm_expires_at (lk_family l)"
    using own f(1,3) r a(1) unfolding token_in_family_def by auto
  have "access_in_family s x" using ok nx(2) by (simp add: store_ok_def access_ok_def)
  then have "at_revoked_at x = None"
    using own f(2) r a(1) unfolding access_in_family_def by auto
  then show ?thesis
    using 1 2 n f(3,4) a(2) b(5,6) i by (simp add: replay_refresh_attempt_def query_def Let_def)
qed

lemma replay_refresh_attempt_Some:
  assumes "replay_refresh_attempt l p now s = Inr (Some out, t)"
  obtains a n x salt where "List.find (\<lambda>a. ra_refresh_id a = lk_refresh_id l) (st_attempts s) = Some a"
    and "List.find (\<lambda>r. rt_id r = ra_successor_id a) (st_refresh s) = Some n"
    and "List.find (\<lambda>r. at_id r = ra_access_id a) (st_access s) = Some x"
    and "ra_salt a = Some salt" and "ra_attempt_id a = rp_attempt_id p" and "at_revoked_at x = None"
    and "out = Replayed \<lparr>ss_account = lk_account l, ss_device = lk_device l, ss_family = lk_family l,
              ss_access_expires_at = at_expires_at x\<rparr> (fm_expires_at (lk_family l)) salt (at_digest x) (rt_digest n)"
  using assms
  by (auto simp: replay_refresh_attempt_def query_Inr Let_def split: option.splits if_splits)

text \<open>A rotation with an attempt opens it.\<close>

lemma rotation_opens_attempt:
  assumes t: "rotated_tables s l r rep family t" and p: "tr_replay rep = Some p"
    and c: "context_of s digest l r"
  shows "open_attempt t digest (rp_attempt_id p) (rp_salt p) (new_refresh_row l rep (fm_expires_at family))
           (new_access_row l rep)"
proof -
  have rid: "lk_refresh_id l = rt_id r" using c by (simp add: context_of_def)
  have r_in: "consumed_row rep r \<in> set (st_refresh t)"
    using t context_of_row(1) [OF c] by (auto simp: rotated_tables_def rev_image_eqI)
  obtain b where "new_attempts l rep = [b]" and b: "b \<in> set (st_attempts t)" "ra_refresh_id b = rt_id r"
      "ra_attempt_id b = rp_attempt_id p" "ra_salt b = Some (rp_salt p)" "ra_successor_id b = tr_refresh_id rep"
      "ra_access_id b = tr_access_id rep"
    using t p rid by (auto simp: rotated_tables_def new_attempts_def)
  show ?thesis
    unfolding open_attempt_def
  proof (intro conjI bexI [OF _ r_in] bexI [OF _ b(1)])
    show "new_refresh_row l rep (fm_expires_at family) \<in> set (st_refresh t)"
      "new_access_row l rep \<in> set (st_access t)"
      using t by (simp_all add: rotated_tables_def)
  qed (use b context_of_row(2) [OF c] in \<open>simp_all add: consumed_row_def new_refresh_row_def new_access_row_def\<close>)
qed

text \<open>The answer to a refresh of an exchanged token with an open attempt.\<close>

lemma rotate_open_attempt:
  assumes ok: "store_ok s" and o: "open_attempt s digest i salt n x"
    and lock: "lock_refresh_context digest s = Inr (Some l, s)" and open_: "\<not> rotation_refused l (tr_issued_at rep)"
    and p: "tr_replay rep = Some p" "rp_attempt_id p = i"
  shows "rotate_refresh_transaction digest rep s = Inr (Replayed
     \<lparr>ss_account = lk_account l, ss_device = lk_device l, ss_family = lk_family l,
      ss_access_expires_at = at_expires_at x\<rparr>
     (fm_expires_at (lk_family l)) salt (at_digest x) (rt_digest n), s)"
proof -
  obtain r where c: "context_of s digest l r" using lock_refresh_context_Some [OF lock] by blast
  obtain r' where r': "r' \<in> set (st_refresh s)" "rt_digest r' = digest" "rt_consumed_at r' \<noteq> None"
    using o by (auto simp: open_attempt_def)
  have "distinct (map rt_digest (st_refresh s))" using ok by (simp add: store_ok_def keys_ok_def)
  then have "r' = r" using key_inject r' context_of_row(1,2) [OF c] by metis
  then have consumed: "lk_consumed l" using c r'(3) by (simp add: context_of_def)
  note rep = replay_open_attempt [OF ok o c p(2)]
  show ?thesis
    using lock open_ consumed p rep rotation_open [OF open_]
    by (simp add: rotate_refresh_transaction_def exec_def done_with_def)
qed

section \<open>Repeating a refresh\<close>

lemma refresh_device_session_Inr:
  assumes "refresh_device_session ports draws token proof attempt_id seen s = (Inr c, t)"
  obtains rep tokens outcome where "prepare_refresh ports draws token proof attempt_id seen = Inr (rep, tokens)"
    and "rotate_refresh_transaction (po_digest ports token) rep s = Inr (outcome, t)"
    and "answer_refresh ports token attempt_id tokens outcome = Inr c"
  using assms
  by (auto simp: refresh_device_session_def result_simps transact_Inr split: sum.splits)

text \<open>What was checked and put together before the transaction.\<close>

lemma prepare_refresh_Inr:
  assumes "prepare_refresh ports draws token proof attempt_id seen = Inr (rep, tokens)"
  obtains account device family where
    "find_refresh_context (po_digest ports token) seen = Inr (Some (account, device, family), seen)"
    and "allows_authentication (pa_principal account)" and "accepts_authenticated_requests device"
    and "allows_rotation family (dw_now draws)"
    and "verify_signature_only ports device proof (po_digest ports token) (dw_now draws) = Inr ()"
    and "new_refresh_tokens ports draws token attempt_id = Inr (tr_replay rep, tokens)"
    and "tr_issued_at rep = dw_now draws" and "tr_access_digest rep = po_digest ports (fst tokens)"
    and "tr_refresh_digest rep = po_digest ports (snd tokens)"
    and "tr_lifetime rep = dy_refresh_lifetime (po_policy ports)"
proof -
  let ?find = "transact (dw_read_fault draws) (find_refresh_context (po_digest ports token)) seen"
  obtain found where f: "fst ?find = Inr (Some found)"
    and rest: "(case found of (account, device, family) \<Rightarrow>
      if \<not> allows_authentication (pa_principal account) then Inl DPrincipalSuspended
      else if \<not> accepts_authenticated_requests device then Inl DDeviceRevoked
      else if \<not> allows_rotation family (dw_now draws) then Inl DInvalidToken
      else
        and_then (verify_signature_only ports device proof (po_digest ports token) (dw_now draws)) (\<lambda>_.
        and_then (new_refresh_tokens ports draws token attempt_id) (\<lambda>(attempt_replay, a, r).
        and_then (or_internal (utc_checked_add (dw_now draws) (dy_access_ttl (po_policy ports)))) (\<lambda>access_expires_at.
        Inr (\<lparr>tr_access_id = dw_access_id draws, tr_access_digest = po_digest ports a,
              tr_access_expires_at = access_expires_at, tr_refresh_id = dw_refresh_id draws,
              tr_refresh_digest = po_digest ports r, tr_issued_at = dw_now draws,
              tr_lifetime = dy_refresh_lifetime (po_policy ports), tr_replay = attempt_replay\<rparr>, a, r))))) = Inr (rep, tokens)"
    using assms unfolding prepare_refresh_def Let_def and_then_Inr ok_or_Inr by blast
  obtain account device family where found: "found = (account, device, family)" by (cases found)
  obtain seen' where "?find = (Inr (Some found), seen')" using f by (metis prod.collapse)
  then have "find_refresh_context (po_digest ports token) seen = Inr (Some found, seen')"
    by (simp add: transact_Inr)
  moreover from this have "seen' = seen" by (simp add: find_refresh_context_def query_Inr)
  ultimately have 1: "find_refresh_context (po_digest ports token) seen = Inr (Some (account, device, family), seen)"
    by (simp add: found)
  show thesis
    by (rule that [OF 1]) (use rest in \<open>auto simp: found result_simps split: if_splits\<close>)
qed

lemma refresh_context_locks:
  assumes "find_refresh_context digest s = Inr (Some (account, device, family), s)"
  obtains l r where "lock_refresh_context digest s = Inr (Some l, s)" and "context_of s digest l r"
    and "lk_account l = account" and "lk_device l = device" and "lk_family l = family"
proof -
  obtain r j where r: "List.find (\<lambda>r. rt_digest r = digest) (st_refresh s) = Some r"
      "join_family s (rt_family_id r) = Some j" "decode_context j = Inr (account, device, family)"
    using assms by (auto simp: find_refresh_context_def query_Inr result_simps split: option.splits)
  let ?l = "\<lparr>lk_account = account, lk_device = device, lk_family = family, lk_refresh_id = rt_id r,
      lk_sequence = rt_sequence r, lk_consumed = (rt_consumed_at r \<noteq> None),
      lk_revoked = (rt_revoked_at r \<noteq> None), lk_expires_at = rt_expires_at r\<rparr>"
  have l: "lock_refresh_context digest s = Inr (Some ?l, s)"
    using r by (simp add: lock_refresh_context_def query_Inr)
  then show thesis using that [OF l] lock_refresh_context_Some [OF l] by auto
qed

lemma prepared_attempt:
  assumes prep: "prepare_refresh ports draws token pf (Some i) seen = Inr (rep, tokens)"
  obtains p where "tr_replay rep = Some p" and "rp_attempt_id p = i" and "po_derive ports token p = Some tokens"
    and "tr_access_digest rep = po_digest ports (fst tokens)"
    and "tr_refresh_digest rep = po_digest ports (snd tokens)"
proof -
  have dig: "tr_access_digest rep = po_digest ports (fst tokens)" "tr_refresh_digest rep = po_digest ports (snd tokens)"
    and "new_refresh_tokens ports draws token (Some i) = Inr (tr_replay rep, tokens)"
    by (rule prepare_refresh_Inr [OF prep], assumption)+
  then show thesis
    using that by (cases "tr_replay rep") (auto simp: new_refresh_tokens_def result_simps Let_def)
qed

text \<open>The attempt that a successful refresh leaves open, and the tokens it handed out.\<close>

lemma refresh_leaves_open:
  assumes ok: "store_ok s"
    and ref: "refresh_device_session ports draws token proof (Some i) seen s = (Inr c, t)"
  obtains salt n x where "open_attempt t (po_digest ports token) i salt n x"
    and "po_derive ports token \<lparr>rp_attempt_id = i, rp_salt = salt\<rparr> = Some (dc_access_token c, dc_refresh_token c)"
    and "at_digest x = po_digest ports (dc_access_token c)" and "rt_digest n = po_digest ports (dc_refresh_token c)"
    and "at_expires_at x = ad_access_expires_at (dc_device c)" and "store_ok t"
proof -
  obtain rep tokens outcome where prep: "prepare_refresh ports draws token proof (Some i) seen = Inr (rep, tokens)"
    and rot: "rotate_refresh_transaction (po_digest ports token) rep s = Inr (outcome, t)"
    and ans: "answer_refresh ports token (Some i) tokens outcome = Inr c"
    using ref by (rule refresh_device_session_Inr)
  obtain p where p: "tr_replay rep = Some p" "rp_attempt_id p = i" "po_derive ports token p = Some tokens"
    and dig: "tr_access_digest rep = po_digest ports (fst tokens)" "tr_refresh_digest rep = po_digest ports (snd tokens)"
    using prep by (rule prepared_attempt)
  have okt: "store_ok t" by (rule rotate_refresh_transaction_ok [OF ok rot])
  have pe: "p = \<lparr>rp_attempt_id = i, rp_salt = rp_salt p\<rparr>" using p(2) by simp
  show thesis
    using rot
  proof (cases rule: rotate_cases)
    case (rotated l r session s1)
    have tabs: "rotated_tables s l r rep (ss_family session) t"
      and e: "ss_access_expires_at session = tr_access_expires_at rep"
      using rotation_tables [OF ok rotated(1,3) _ rotated(4,5)] rotation_open [OF rotated(2)] by blast+
    have o: "open_attempt t (po_digest ports token) i (rp_salt p) (new_refresh_row l rep (fm_expires_at (ss_family session)))
        (new_access_row l rep)"
      using rotation_opens_attempt [OF tabs p(1) rotated(1)] p(2) by simp
    have "c = credentials session (fst tokens) (snd tokens) (fm_expires_at (ss_family session))"
      using ans rotated(6) by (simp add: answer_refresh_def)
    then show thesis
      by (intro that [OF o _ _ _ _ okt]) (use p(3) dig e okt pe in \<open>simp_all add: credentials_def authenticated_device_of_def
          new_refresh_row_def new_access_row_def\<close>)
  next
    case (replayed l r p')
    have p': "p' = p" using replayed(4) p(1) by simp
    obtain a n x salt where a: "List.find (\<lambda>a. ra_refresh_id a = lk_refresh_id l) (st_attempts s) = Some a"
        "List.find (\<lambda>r. rt_id r = ra_successor_id a) (st_refresh s) = Some n"
        "List.find (\<lambda>r. at_id r = ra_access_id a) (st_access s) = Some x"
        "ra_salt a = Some salt" "ra_attempt_id a = i"
      and out: "outcome = Replayed \<lparr>ss_account = lk_account l, ss_device = lk_device l, ss_family = lk_family l,
              ss_access_expires_at = at_expires_at x\<rparr> (fm_expires_at (lk_family l)) salt (at_digest x) (rt_digest n)"
      by (rule replay_refresh_attempt_Some [OF replayed(6)]) (use p(2) p' that in blast)
    have "lk_refresh_id l = rt_id r" using replayed(1) by (simp add: context_of_def)
    then have o: "open_attempt t (po_digest ports token) i salt n x"
      unfolding replayed(5) open_attempt_def
      using find_member [OF a(1)] find_member [OF a(2)] find_member [OF a(3)] a(4,5) replayed(3)
        context_of_row(1,2) [OF replayed(1)]
      by (auto intro!: bexI [of _ r] bexI [of _ a])
    obtain ac rf where "po_derive ports token \<lparr>rp_attempt_id = i, rp_salt = salt\<rparr> = Some (ac, rf)"
        "po_digest ports ac = at_digest x" "po_digest ports rf = rt_digest n"
      and "c = credentials \<lparr>ss_account = lk_account l, ss_device = lk_device l, ss_family = lk_family l,
              ss_access_expires_at = at_expires_at x\<rparr> ac rf (fm_expires_at (lk_family l))"
      using ans unfolding out by (auto simp: answer_refresh_def replayed_refresh_tokens_def result_simps split: if_splits)
    then show thesis
      by (intro that [OF o _ _ _ _ okt]) (simp_all add: credentials_def authenticated_device_of_def)
  qed (use ans in \<open>simp_all add: answer_refresh_def\<close>)
qed

lemma active_context_open:
  assumes ok: "store_ok s" and c: "context_of s digest l r"
    and "allows_authentication (pa_principal (lk_account l))"
    and "accepts_authenticated_requests (lk_device l)" and a: "allows_rotation (lk_family l) now"
    and e: "now < rt_expires_at r"
  shows "\<not> rotation_refused l now"
proof -
  note row = context_of_row [OF c]
  have "token_in_family s r" using ok row(1) by (simp add: store_ok_def refresh_ok_def)
  then obtain f where f: "f \<in> set (st_families s)" "fm_id f = rt_family_id r"
    "fm_state f = FamilyActive \<longrightarrow> rt_revoked_at r = None \<and> (rt_consumed_at r = None \<longrightarrow> rt_expires_at r = fm_expires_at f)"
    by (rule token_in_familyE)
  have "distinct (map fm_id (st_families s))" using ok by (simp add: store_ok_def keys_ok_def)
  then have "f = lk_family l" using key_inject f(1,2) row(3,4) by metis
  then have "rt_revoked_at r = None" using f(3) a by (simp add: allows_rotation_def)
  then have "\<not> lk_revoked l" "lk_expires_at l = rt_expires_at r" using c by (simp_all add: context_of_def)
  then show ?thesis using assms by (simp add: rotation_refused_def)
qed

text \<open>An open attempt is answered with its tokens, whatever the new draws are.\<close>

lemma refresh_open_attempt:
  assumes ok: "store_ok t" and o: "open_attempt t (po_digest ports token) i salt n x"
    and tok: "po_derive ports token \<lparr>rp_attempt_id = i, rp_salt = salt\<rparr> = Some (a, r)"
      "at_digest x = po_digest ports a" "rt_digest n = po_digest ports r"
    and prep: "prepare_refresh ports draws token proof (Some i) t = Inr (rep, tokens)"
    and nf: "dw_write_fault draws = NoFault"
    and e: "\<forall>y\<in>set (st_refresh t). rt_digest y = po_digest ports token \<longrightarrow> dw_now draws < rt_expires_at y"
  shows "\<exists>c. refresh_device_session ports draws token proof (Some i) t t = (Inr c, t) \<and>
    dc_access_token c = a \<and> dc_refresh_token c = r \<and> ad_access_expires_at (dc_device c) = at_expires_at x"
proof -
  obtain account device family where
    ctx: "find_refresh_context (po_digest ports token) t = Inr (Some (account, device, family), t)"
    and act: "allows_authentication (pa_principal account)" "accepts_authenticated_requests device"
      "allows_rotation family (dw_now draws)"
    and new: "new_refresh_tokens ports draws token (Some i) = Inr (tr_replay rep, tokens)"
    and at: "tr_issued_at rep = dw_now draws"
    by (rule prepare_refresh_Inr [OF prep]) (rule that, assumption+)
  obtain l y where lock: "lock_refresh_context (po_digest ports token) t = Inr (Some l, t)"
    and c: "context_of t (po_digest ports token) l y"
    and l: "lk_account l = account" "lk_device l = device" "lk_family l = family"
    using ctx by (rule refresh_context_locks)
  have "dw_now draws < rt_expires_at y" using e context_of_row(1,2) [OF c] by blast
  then have open_: "\<not> rotation_refused l (tr_issued_at rep)"
    using active_context_open [OF ok c] act l at by simp
  obtain p where p: "tr_replay rep = Some p" "rp_attempt_id p = i"
    using new by (cases "tr_replay rep") (auto simp: new_refresh_tokens_def result_simps Let_def)
  have rot: "rotate_refresh_transaction (po_digest ports token) rep t = Inr (Replayed
     \<lparr>ss_account = lk_account l, ss_device = lk_device l, ss_family = lk_family l,
      ss_access_expires_at = at_expires_at x\<rparr>
     (fm_expires_at (lk_family l)) salt (at_digest x) (rt_digest n), t)"
    by (rule rotate_open_attempt [OF ok o lock open_ p])
  have tx: "transact (dw_write_fault draws) (rotate_refresh_transaction (po_digest ports token) rep) t =
      (Inr (Replayed \<lparr>ss_account = lk_account l, ss_device = lk_device l, ss_family = lk_family l,
        ss_access_expires_at = at_expires_at x\<rparr> (fm_expires_at (lk_family l)) salt (at_digest x) (rt_digest n)), t)"
    by (simp add: transact_Inr nf rot)
  show ?thesis
    by (simp add: refresh_device_session_def prep tx then_do_def answer_refresh_def replayed_refresh_tokens_def tok
        generated_def
        credentials_def authenticated_device_of_def)
qed

section \<open>Properties\<close>

text \<open>
  C33: A refresh can be repeated. When the answer to a successful refresh was lost, sending the same
  token with the same attempt again, with a new proof and at a later time, is answered with the very
  same tokens and changes nothing, instead of being judged a reuse, while the session is active and
  the exchanged token has not expired.
\<close>

theorem refresh_retry_same_tokens:
  assumes "tables_ok s"
    and "refresh_device_session ports draws token proof (Some i) seen s = (Inr c, t)"
    and "prepare_refresh ports draws' token proof' (Some i) t = Inr (rep, tokens)"
    and "dw_write_fault draws' = NoFault"
    and "\<forall>r\<in>set (st_refresh t). rt_digest r = po_digest ports token \<longrightarrow> dw_now draws' < rt_expires_at r"
  shows "\<exists>c'. refresh_device_session ports draws' token proof' (Some i) t t = (Inr c', t) \<and>
    dc_access_token c' = dc_access_token c \<and> dc_refresh_token c' = dc_refresh_token c \<and>
    ad_access_expires_at (dc_device c') = ad_access_expires_at (dc_device c)"
proof -
  have ok: "store_ok s" using assms(1) by (simp add: tables_ok_def)
  obtain salt n x where o: "open_attempt t (po_digest ports token) i salt n x"
    and tok: "po_derive ports token \<lparr>rp_attempt_id = i, rp_salt = salt\<rparr> = Some (dc_access_token c, dc_refresh_token c)"
      "at_digest x = po_digest ports (dc_access_token c)" "rt_digest n = po_digest ports (dc_refresh_token c)"
    and e: "at_expires_at x = ad_access_expires_at (dc_device c)" and okt: "store_ok t"
    using ok assms(2) by (rule refresh_leaves_open)
  show ?thesis using refresh_open_attempt [OF okt o tok assms(3-5)] e by simp
qed

lemma sample_refresh:
  "\<exists>c t rep tokens. refresh_device_session sample_ports (sample_draws 2000) [5] (sample_proof 1900) (Some 11)
       sample_store sample_store = (Inr c, t) \<and>
     prepare_refresh sample_ports (sample_draws 2050) [5] (sample_proof 2040) (Some 11) t = Inr (rep, tokens) \<and>
     (\<forall>r\<in>set (st_refresh t). rt_digest r = [5] \<longrightarrow> UtcMillis 2050 < rt_expires_at r)"
  by (simp add: refresh_device_session_def prepare_refresh_def find_refresh_context_def new_refresh_tokens_def
      answer_refresh_def credentials_def authenticated_device_of_def sample_store_eq rotation_defs store_defs
      transaction_defs sample_defs sample_service service_defs int_width_defs)

theorem refresh_retry_same_tokens_witness:
  "\<exists>c c' t. refresh_device_session sample_ports (sample_draws 2000) [5] (sample_proof 1900) (Some 11)
       sample_store sample_store = (Inr c, t) \<and>
     refresh_device_session sample_ports (sample_draws 2050) [5] (sample_proof 2040) (Some 11) t t = (Inr c', t) \<and>
     dc_refresh_token c' = dc_refresh_token c"
proof -
  obtain c t rep tokens where t: "refresh_device_session sample_ports (sample_draws 2000) [5] (sample_proof 1900)
      (Some 11) sample_store sample_store = (Inr c, t)"
    and prep: "prepare_refresh sample_ports (sample_draws 2050) [5] (sample_proof 2040) (Some 11) t = Inr (rep, tokens)"
    and e: "\<forall>r\<in>set (st_refresh t). rt_digest r = [5] \<longrightarrow> UtcMillis 2050 < rt_expires_at r"
    using sample_refresh by blast
  show ?thesis
    using refresh_retry_same_tokens [OF sample_store_ok t prep] t e by (auto simp: sample_ports_def sample_draws_def)
qed

end
