(* ===== verification/Token_Moves.thy ===== *)
theory Token_Moves
  imports Device_Replay
begin

text \<open>
  How the token tables evolve: every transaction on them is a sequence of four kinds of moves (none,
  the end of sessions, a new session, the exchange of a token). The properties that a client of the
  tables relies on, that a token is its own, is still unspent, or was exchanged in an attempt that can be
  repeated, are kept by every move but the exchange of the tokens concerned.
\<close>

section \<open>Moves\<close>

inductive token_move :: "(secret_digest \<Rightarrow> bool) \<Rightarrow> device_store \<Rightarrow> device_store \<Rightarrow> bool" for E where
  same: "token_tables t = token_tables s \<Longrightarrow> token_move E s t"
| ended: "ends_families s ff fr fa t \<Longrightarrow> token_move E s t"
| added: "fresh_session s f a r \<Longrightarrow> rt_consumed_at r = None \<Longrightarrow>
    token_tables t = (st_families s @ [f], st_refresh s @ [r], st_access s @ [a], st_attempts s) \<Longrightarrow>
    token_move E s t"
| exchanged: "context_of s digest l r \<Longrightarrow> E digest \<Longrightarrow> rt_consumed_at r = None \<Longrightarrow>
    fm_state (lk_family l) = FamilyActive \<Longrightarrow> rotated_tables s l r rep family t \<Longrightarrow> token_move E s t"

lemma token_move_ok:
  assumes "token_move E s t" and ok: "store_ok s"
  shows "store_ok t"
  using assms(1)
proof cases
  case same
  then show ?thesis using ok store_ok_cong by blast
next
  case (ended ff fr fa)
  then show ?thesis by (rule ends_families_ok [OF ok])
next
  case (added f a r)
  then show ?thesis using add_session_ok [OF ok] by blast
next
  case (exchanged digest l r rep family)
  then show ?thesis using rotated_ok [OF ok] by blast
qed

section \<open>What a client relies on\<close>

definition owned :: "device_store \<Rightarrow> device_id \<Rightarrow> secret_digest \<Rightarrow> bool" where
  "owned s d digest \<longleftrightarrow> (\<exists>r\<in>set (st_refresh s). rt_digest r = digest \<and> family_of_device s d (rt_family_id r))"

definition unspent :: "device_store \<Rightarrow> secret_digest \<Rightarrow> bool" where
  "unspent s digest \<longleftrightarrow> (\<exists>r\<in>set (st_refresh s). rt_digest r = digest \<and> rt_consumed_at r = None)"

definition repeatable ::
  "device_store \<Rightarrow> secret_digest \<Rightarrow> refresh_attempt_id \<Rightarrow> replay_salt \<Rightarrow> secret_digest \<Rightarrow> secret_digest \<Rightarrow> bool" where
  "repeatable s digest i salt successor access \<longleftrightarrow>
     (\<exists>n x. open_attempt s digest i salt n x \<and> rt_digest n = successor \<and> at_digest x = access)"

lemma client_facts_cong:
  assumes "token_tables t = token_tables s"
  shows "owned t d digest \<longleftrightarrow> owned s d digest" and "unspent t digest \<longleftrightarrow> unspent s digest"
    and "repeatable t digest i salt e f \<longleftrightarrow> repeatable s digest i salt e f"
  using assms
  by (simp_all add: token_tables_def owned_def unspent_def repeatable_def open_attempt_def family_of_device_def)

text \<open>A rewriting of the rows that keeps what the client facts read.\<close>

definition rows_kept ::
  "device_store \<Rightarrow> (refresh_row \<Rightarrow> refresh_row) \<Rightarrow> (access_row \<Rightarrow> access_row) \<Rightarrow> device_store \<Rightarrow> bool" where
  "rows_kept s fr fa t \<longleftrightarrow>
     (\<forall>d i. family_of_device s d i \<longrightarrow> family_of_device t d i) \<and>
     (\<forall>r\<in>set (st_refresh s). fr r \<in> set (st_refresh t) \<and> rt_id (fr r) = rt_id r \<and>
        rt_digest (fr r) = rt_digest r \<and> rt_family_id (fr r) = rt_family_id r \<and>
        (rt_consumed_at r \<noteq> None \<longrightarrow> rt_consumed_at (fr r) \<noteq> None)) \<and>
     (\<forall>a\<in>set (st_access s). fa a \<in> set (st_access t) \<and> at_id (fa a) = at_id a \<and> at_digest (fa a) = at_digest a)"

lemma owned_kept:
  assumes k: "rows_kept s fr fa t" and "owned s d digest"
  shows "owned t d digest"
proof -
  obtain r where "r \<in> set (st_refresh s)" "rt_digest r = digest" "family_of_device s d (rt_family_id r)"
    using assms(2) by (auto simp: owned_def)
  then show ?thesis
    unfolding owned_def using k by (intro bexI [of _ "fr r"]) (simp_all add: rows_kept_def)
qed

lemma unspent_kept:
  assumes k: "rows_kept s fr fa t" and "unspent s digest"
    and c: "\<And>r. r \<in> set (st_refresh s) \<Longrightarrow> rt_digest r = digest \<Longrightarrow> rt_consumed_at r = None \<Longrightarrow>
      rt_consumed_at (fr r) = None"
  shows "unspent t digest"
proof -
  obtain r where "r \<in> set (st_refresh s)" "rt_digest r = digest" "rt_consumed_at r = None"
    using assms(2) by (auto simp: unspent_def)
  then show ?thesis
    unfolding unspent_def using k c by (intro bexI [of _ "fr r"]) (simp_all add: rows_kept_def)
qed

lemma repeatable_kept:
  assumes k: "rows_kept s fr fa t" and "repeatable s digest i salt e f"
    and a: "\<And>a n. a \<in> set (st_attempts s) \<Longrightarrow> n \<in> set (st_refresh s) \<Longrightarrow> rt_digest n = e \<Longrightarrow>
      ra_successor_id a = rt_id n \<Longrightarrow> a \<in> set (st_attempts t)"
  shows "repeatable t digest i salt e f"
proof -
  obtain n x r b where n: "n \<in> set (st_refresh s)" "x \<in> set (st_access s)" "rt_digest n = e" "at_digest x = f"
    and r: "r \<in> set (st_refresh s)" "b \<in> set (st_attempts s)" "rt_digest r = digest" "rt_consumed_at r \<noteq> None"
      "ra_refresh_id b = rt_id r" "ra_attempt_id b = i" "ra_salt b = Some salt" "ra_successor_id b = rt_id n"
      "ra_access_id b = at_id x"
    using assms(2) by (auto simp: repeatable_def open_attempt_def)
  have K: "fr r \<in> set (st_refresh t)" "fr n \<in> set (st_refresh t)" "fa x \<in> set (st_access t)"
    "rt_id (fr r) = rt_id r" "rt_id (fr n) = rt_id n" "at_id (fa x) = at_id x" "rt_digest (fr r) = rt_digest r"
    "rt_digest (fr n) = rt_digest n" "rt_consumed_at (fr r) \<noteq> None" "at_digest (fa x) = at_digest x"
    using k n(1,2) r(1,4) unfolding rows_kept_def by blast+
  have "open_attempt t digest i salt (fr n) (fa x)"
    unfolding open_attempt_def
    by (intro conjI bexI [OF _ K(1)] bexI [OF _ a [OF r(2) n(1,3) r(8)]] K(2,3)) (use K r in simp_all)
  then show ?thesis using K(8,10) n(3,4) unfolding repeatable_def by blast
qed

lemma ended_rows_kept:
  assumes "ends_families s ff fr fa t"
  shows "rows_kept s fr fa t" and "st_attempts t = st_attempts s"
    and "rt_consumed_at (fr r) = rt_consumed_at r"
proof -
  have e: "fr r = r\<lparr>rt_revoked_at := rt_revoked_at (fr r)\<rparr>" "fa a = a\<lparr>at_revoked_at := at_revoked_at (fa a)\<rparr>"
    "fm_id (ff f) = fm_id f" "fm_device_id (ff f) = fm_device_id f" for r a f
    using assms unfolding ends_families_def by blast+
  note R = revoked_row_keys(1) [OF e(1)] and A = revoked_row_keys(2) [OF e(2)]
  have t: "st_families t = map ff (st_families s)" "st_refresh t = map fr (st_refresh s)"
    "st_access t = map fa (st_access s)" "st_attempts t = st_attempts s"
    using assms by (simp_all add: ends_families_def token_tables_def)
  show "rows_kept s fr fa t"
    by (simp add: rows_kept_def t R A family_of_device_def list_ex_iff e(3,4))
  show "st_attempts t = st_attempts s" "rt_consumed_at (fr r) = rt_consumed_at r" using t R by simp_all
qed

lemma added_rows_kept:
  "token_tables t = (st_families s @ [f], st_refresh s @ [r], st_access s @ [a], st_attempts s) \<Longrightarrow>
     rows_kept s id id t \<and> st_attempts t = st_attempts s"
  by (auto simp: token_tables_def rows_kept_def family_of_device_def list_ex_iff)

lemma exchanged_rows_kept:
  assumes ok: "store_ok s" and c: "context_of s digest l r" and rot: "rotated_tables s l r rep family t"
  shows "rows_kept s (\<lambda>x. if x = r then consumed_row rep r else x) id t"
proof -
  have F: "family = (lk_family l)\<lparr>fm_expires_at := fm_expires_at family\<rparr>"
    and t: "st_families t = map (\<lambda>f. if fm_id f = fm_id family then family else f) (st_families s)"
      "st_refresh t = map (\<lambda>x. if x = r then consumed_row rep r else x) (st_refresh s) @
         [new_refresh_row l rep (fm_expires_at family)]"
      "st_access t = st_access s @ [new_access_row l rep]"
    using rot by (simp_all add: rotated_tables_def)
  have id: "fm_id family = fm_id (lk_family l)" "fm_device_id family = fm_device_id (lk_family l)"
    by (subst F, simp)+
  have k: "distinct (map fm_id (st_families s))" using ok by (simp add: store_ok_def keys_ok_def)
  have same: "f = lk_family l" if "f \<in> set (st_families s)" "fm_id f = fm_id family" for f
    using key_inject [OF k that(1) context_of_row(3) [OF c]] that(2) id(1) by simp
  have "family_of_device t d i" if "family_of_device s d i" for d i
  proof -
    obtain f where f: "f \<in> set (st_families s)" "fm_id f = i" "fm_device_id f = d"
      using \<open>family_of_device s d i\<close> by (auto simp: family_of_device_def list_ex_iff)
    let ?g = "if fm_id f = fm_id family then family else f"
    have "?g \<in> set (st_families t)" using f(1) by (auto simp: t)
    moreover have "fm_id ?g = i" "fm_device_id ?g = d" using f same [OF f(1)] id by auto
    ultimately show ?thesis unfolding family_of_device_def list_ex_iff by blast
  qed
  then show ?thesis
    by (auto simp: rows_kept_def t consumed_row_def)
qed

lemma token_move_keeps:
  assumes m: "token_move E s t" and ok: "store_ok s"
  shows "owned s d digest \<Longrightarrow> owned t d digest"
    and "unspent s digest \<Longrightarrow> \<not> E digest \<Longrightarrow> unspent t digest"
    and "repeatable s digest i salt e f \<Longrightarrow> \<not> E e \<Longrightarrow> repeatable t digest i salt e f"
proof -
  have "(owned s d digest \<longrightarrow> owned t d digest) \<and> (unspent s digest \<longrightarrow> \<not> E digest \<longrightarrow> unspent t digest) \<and>
    (repeatable s digest i salt e f \<longrightarrow> \<not> E e \<longrightarrow> repeatable t digest i salt e f)"
    using m
  proof cases
    case same
    then show ?thesis using client_facts_cong [OF same] by blast
  next
    case (ended ff fr fa)
    note k = ended_rows_kept [OF ended]
    show ?thesis
      using owned_kept [OF k(1)] unspent_kept [OF k(1)] repeatable_kept [OF k(1)] k(2,3) by simp
  next
    case (added f a r)
    have k: "rows_kept s id id t" "st_attempts t = st_attempts s" using added_rows_kept [OF added(3)] by simp_all
    show ?thesis using owned_kept [OF k(1)] unspent_kept [OF k(1)] repeatable_kept [OF k(1)] k(2) by simp
  next
    case (exchanged dig l r rep family)
    note k = exchanged_rows_kept [OF ok exchanged(1,5)]
    note row = context_of_row(1,2) [OF exchanged(1)]
    have ids: "distinct (map rt_id (st_refresh s))" using ok by (simp add: store_ok_def keys_ok_def)
    have att: "a \<in> set (st_attempts t)" if a: "a \<in> set (st_attempts s)" and n: "n \<in> set (st_refresh s)"
        "rt_digest n = e" "ra_successor_id a = rt_id n" "\<not> E e" for a n
    proof -
      have "n \<noteq> r" using n(2,4) row(2) exchanged(2) by auto
      then have "ra_successor_id a \<noteq> rt_id r" using key_inject [OF ids n(1) row(1)] n(3) by auto
      then show ?thesis using a exchanged(5) by (auto simp: rotated_tables_def rev_image_eqI)
    qed
    have un: "rt_consumed_at (if x = r then consumed_row rep r else x) = None"
      if "rt_digest x = digest" "rt_consumed_at x = None" "\<not> E digest" for x
      using that row(2) exchanged(2) by auto
    show ?thesis
    proof (intro conjI impI)
      assume "owned s d digest"
      then show "owned t d digest" by (rule owned_kept [OF k])
    next
      assume "unspent s digest" and "\<not> E digest"
      then show "unspent t digest" by (intro unspent_kept [OF k]) (assumption, rule un)
    next
      assume "repeatable s digest i salt e f" and "\<not> E e"
      then show "repeatable t digest i salt e f" by (intro repeatable_kept [OF k]) (assumption, rule att)
    qed
  qed
  then show "owned s d digest \<Longrightarrow> owned t d digest"
    and "unspent s digest \<Longrightarrow> \<not> E digest \<Longrightarrow> unspent t digest"
    and "repeatable s digest i salt e f \<Longrightarrow> \<not> E e \<Longrightarrow> repeatable t digest i salt e f" by blast+
qed

abbreviation token_moves :: "(secret_digest \<Rightarrow> bool) \<Rightarrow> device_store \<Rightarrow> device_store \<Rightarrow> bool" where
  "token_moves E \<equiv> (token_move E)\<^sup>*\<^sup>*"

lemma token_moves_ok: "token_moves E s t \<Longrightarrow> store_ok s \<Longrightarrow> store_ok t"
  by (induction rule: rtranclp_induct) (blast intro: token_move_ok)+

lemma token_moves_keep:
  assumes "token_moves E s t" and ok: "store_ok s"
  shows "owned s d digest \<Longrightarrow> owned t d digest"
    and "unspent s digest \<Longrightarrow> \<not> E digest \<Longrightarrow> unspent t digest"
    and "repeatable s digest i salt e f \<Longrightarrow> \<not> E e \<Longrightarrow> repeatable t digest i salt e f"
  using assms(1)
  by (induction rule: rtranclp_induct) (use token_move_keeps token_moves_ok [OF _ ok] in blast)+

lemma moves_same: "token_tables t = token_tables s \<Longrightarrow> token_moves E s t"
  by (blast intro: token_move.same)

lemma moves_trans: "token_moves E s t \<Longrightarrow> token_moves E t u \<Longrightarrow> token_moves E s u"
  by (rule rtranclp_trans)

section \<open>The moves of the transactions\<close>

lemma revoke_active_families_moves:
  "store_ok s \<Longrightarrow> revoke_active_families d at s = Inr (u, t) \<Longrightarrow> token_moves E s t"
  using revoke_active_families_ends token_move.ended by blast

lemma revoke_device_and_tokens_moves:
  assumes ok: "store_ok s" and r: "revoke_device_and_tokens d at s = Inr (u, t)"
  shows "token_moves E s t"
proof -
  obtain s1 s2 where 1: "token_tables s1 = token_tables s"
    and 2: "revoke_active_families d at s1 = Inr ((), s2)" and 3: "token_tables t = token_tables s2"
    using r by (auto simp: revoke_device_and_tokens_def exec_Inr execute_Inr
        dest!: fail_targeted_handoffs_tables dest: execute_devices_tables [unfolded execute_Inr])
  have "store_ok s1" using ok store_ok_cong [OF 1] by blast
  then show ?thesis
    using moves_trans [OF moves_same [OF 1] moves_trans [OF revoke_active_families_moves [OF _ 2] moves_same [OF 3]]]
    by blast
qed

lemma compromise_moves:
  assumes ok: "store_ok s" and r: "compromise_device device i at s = Inr (u, t)"
  shows "token_moves E s t"
proof -
  let ?g = "\<lambda>f. f\<lparr>fm_state := Compromised, fm_revoked_at := Some (unwrap_or (fm_revoked_at f) at), fm_compromised_at := Some at\<rparr>"
  let ?s = "s\<lparr>st_families := update_where (\<lambda>f. fm_id f = i \<and> fm_state f = FamilyActive) ?g (st_families s)\<rparr>"
  have c: "\<forall>f\<in>set (st_families s). fm_id f = i \<and> fm_state f = FamilyActive \<longrightarrow> family_check (?g f)"
    and s1: "revoke_device_and_tokens (dv_id device) at ?s = Inr (u, t)"
    using r by (auto simp: compromise_device_def on_tables transaction_simps)
  have m: "token_move E s ?s"
    by (rule token_move.ended [OF compromise_family_ends [OF ok c]]) simp
  then show ?thesis
    using revoke_device_and_tokens_moves [OF token_move_ok [OF m ok] s1] by (rule converse_rtranclp_into_rtranclp)
qed

lemma rotate_moves:
  assumes ok: "store_ok s" and r: "rotate_refresh_transaction digest rep s = Inr (out, t)"
  shows "token_moves (\<lambda>d. d = digest) s t"
  using r
proof (cases rule: rotate_cases)
  case (reuse l r)
  then show ?thesis using compromise_moves [OF ok] by blast
next
  case (rotated l r session s1)
  have "rotated_tables s l r rep (ss_family session) t"
    using rotation_tables [OF ok rotated(1,3) _ rotated(4,5)] rotation_open [OF rotated(2)] by blast
  then show ?thesis
    using token_move.exchanged [OF rotated(1) _ rotated(3), of "\<lambda>d. d = digest"] rotation_open [OF rotated(2)]
    by blast
qed simp_all

lemma store_device_session_moves:
  assumes ok: "store_ok s" and r: "store_device_session a d session s = Inr (x, t)"
  shows "token_moves E s t"
proof (rule store_device_session_adds [OF r])
  fix s2 s3 e family a' row
  assume 2: "token_tables s2 = token_tables s"
    and 3: "revoke_active_families e (sr_issued_at session) s2 = Inr ((), s3)" and n: "fresh_session s3 family a' row"
    and t: "token_tables t = (st_families s3 @ [family], st_refresh s3 @ [row], st_access s3 @ [a'], st_attempts s3)"
    and c: "rt_consumed_at row = None"
  have "store_ok s2" using ok store_ok_cong [OF 2] by blast
  then have "token_moves E s s3"
    using moves_trans [OF moves_same [OF 2] revoke_active_families_moves [OF _ 3]] by blast
  then show "token_moves E s t" using token_move.added [OF n c t] by (rule rtranclp.rtrancl_into_rtrancl)
qed

definition exchanges :: "store_command \<Rightarrow> secret_digest \<Rightarrow> bool" where
  "exchanges c digest \<longleftrightarrow> (\<exists>rep. c = RotateRefresh digest rep)"

lemma command_moves:
  assumes ok: "store_ok s" and c: "command_body c s = Inr (u, t)"
  shows "token_moves (exchanges c) s t"
proof (cases c)
  case (RegisterDevice g d session)
  then obtain x s1 a where 1: "store_device_session a d session s1 = Inr (x, t)" and 2: "token_tables s1 = token_tables s"
    using c by (auto simp: register_device_transaction_def insert_principal_if_absent_def on_tables
        lock_account_by_oidc_def transaction_simps split: if_splits)
  have "store_ok s1" using ok store_ok_cong [OF 2] by blast
  then show ?thesis using moves_trans [OF moves_same [OF 2] store_device_session_moves [OF _ 1]] by blast
next
  case (RegisterWithGrant g d session)
  then obtain x a rows where 1: "store_device_session a d session (s\<lparr>st_grants := rows\<rparr>) = Inr (x, t)"
    using c by (auto simp: transaction_simps dest!: register_with_grant_session)
  have "store_ok (s\<lparr>st_grants := rows\<rparr>)" using ok store_ok_cong [OF token_tables_simps(3)] by blast
  then show ?thesis
    using moves_trans [OF moves_same [OF token_tables_simps(3)] store_device_session_moves [OF _ 1]] by blast
next
  case (RotateRefresh digest rep)
  then have "exchanges c = (\<lambda>d. d = digest)" by (auto simp: exchanges_def fun_eq_iff)
  then show ?thesis using RotateRefresh c rotate_moves [OF ok] by (auto simp: transaction_simps)
next
  case (RevokeOwnedDevice p d at)
  then obtain x where "revoke_device_transaction p d at s = Inr (x, t)" using c by (auto simp: transaction_simps)
  then show ?thesis
  proof (cases rule: revoke_device_transaction_state)
    case (3 pending s1)
    then show ?thesis
      using moves_trans [OF revoke_device_and_tokens_moves [OF ok 3(2)] moves_same [OF 3(3)]] by blast
  qed (use moves_same in blast)+
next
  case (InsertGrant g)
  then show ?thesis
    using c by (intro moves_same) (auto simp: insert_grant_def on_tables transaction_simps)
next
  case (ConsumeNonce d n at expiry)
  then show ?thesis
    using c by (intro moves_same) (auto simp: consume_nonce_def on_tables transaction_simps Let_def split: if_splits)
next
  case (MarkMatrixRevoked i at)
  then show ?thesis
    using c by (intro moves_same)
      (auto simp: mark_matrix_device_revoked_def on_tables transaction_simps Let_def split: if_splits)
qed

lemma store_step_moves:
  assumes ok: "store_ok s"
  shows "token_moves (exchanges c) s (snd (store_step (fault, c) s))"
  by (cases rule: store_step_state [of fault c s]) (use command_moves [OF ok] in auto)

end
