(* ===== verification/Bridge_Session.thy ===== *)
theory Bridge_Session
  imports Device_Authorization
begin

text \<open>
  The device session on the user's computer (\<^verbatim>\<open>crates/bridge-core/src/session.rs\<close>, the
  credentials and ports of \<^verbatim>\<open>ports.rs\<close>, the reading of an HTTP answer in
  \<^verbatim>\<open>apps/bridge/src/control_plane.rs\<close>): the bridge keeps one set of credentials in a vault,
  refreshes them before they expire, and marks a refresh as pending with its attempt before it sends
  the request, so that an unknown outcome can be settled by repeating the attempt.

  A call of \<^verbatim>\<open>active_session\<close> holds the session lock while its request is on the way. It is split
  where it waits: \<open>begin_session\<close> runs up to the request, \<open>finish_refresh\<close> from the answer on.
\<close>

section \<open>Credentials and failures\<close>

datatype credential_state = Ready | RefreshPending "refresh_attempt_id option"

record bridge_credentials =
  bc_state :: credential_state
  bc_device_id :: device_id
  bc_access_token :: secret_value
  bc_access_expires_at :: utc_millis
  bc_refresh_token :: secret_value
  bc_refresh_expires_at :: utc_millis

datatype vault_failure = VaultUnavailable | VaultStorageFull | VaultCorrupt

datatype control_plane_failure =
    CpInvalidRequest | CpAuthenticationRejected | CpConflict | CpDependencyUnavailable | CpUnknownCommit
  | CpInternal

datatype session_failure =
    NotAuthorized | RefreshOutcomeUnknown | SecureStorageUnavailable | CorruptSecureStorage
  | ControlPlaneUnavailable | InvalidControlPlaneResponse | SessionInternal

record active_bridge_session =
  as_device_id :: device_id
  as_access_token :: secret_value
  as_access_expires_at :: utc_millis

type_synonym session_result = "session_failure + active_bridge_session"

record refresh_request =
  rr_token :: secret_value
  rr_proof :: device_proof
  rr_attempt :: refresh_attempt_id

definition map_credential_failure :: "vault_failure \<Rightarrow> session_failure" where
  "map_credential_failure e =
     (case e of
        VaultUnavailable \<Rightarrow> SecureStorageUnavailable
      | VaultStorageFull \<Rightarrow> SecureStorageUnavailable
      | VaultCorrupt \<Rightarrow> CorruptSecureStorage)"

definition active_session :: "bridge_credentials \<Rightarrow> active_bridge_session" where
  "active_session c =
     \<lparr>as_device_id = bc_device_id c, as_access_token = bc_access_token c,
      as_access_expires_at = bc_access_expires_at c\<rparr>"

section \<open>Answers of the control plane\<close>

definition status_failure :: "nat \<Rightarrow> control_plane_failure" where
  "status_failure status =
     (if status = 400 \<or> status = 422 then CpInvalidRequest
      else if status = 401 \<or> status = 403 then CpAuthenticationRejected
      else if status = 409 then CpConflict
      else if status \<in> {408, 429, 502, 503, 504} then CpDependencyUnavailable
      else if 500 \<le> status \<and> status < 600 then CpDependencyUnavailable
      else CpInternal)"

text \<open>What the transport reports when no answer could be read: the connection was never made, or anything else.\<close>

definition transport_failure :: "bool \<Rightarrow> control_plane_failure" where
  "transport_failure is_connect = (if is_connect then CpDependencyUnavailable else CpUnknownCommit)"

definition decode_answer ::
  "device_failure + device_credentials \<Rightarrow> control_plane_failure + device_credentials" where
  "decode_answer = map_sum (\<lambda>k. status_failure (device_failure_status k)) id"

section \<open>The state of the bridge\<close>

text \<open>\<open>br_completed\<close> and \<open>br_last_failure\<close> are the log of refresh outcomes that waiting callers share.\<close>

record bridge_state =
  br_vault :: "bridge_credentials option"
  br_completed :: "64 word"
  br_last_failure :: "session_failure option"

text \<open>What the clock, the key store, the vault and the generators do in one call.\<close>

record session_draws =
  sd_now :: utc_millis
  sd_lead_time :: duration_millis
  sd_attempt :: refresh_attempt_id
  sd_nonce :: "secret_value option"
  sd_key :: "vault_failure + (utext \<Rightarrow> vault_failure + 8 word list)"
  sd_load_fault :: "vault_failure option"
  sd_write_fault :: "vault_failure option"

definition vault_load :: "vault_failure option \<Rightarrow> bridge_state \<Rightarrow> session_failure + bridge_credentials option" where
  "vault_load fault s = (case fault of None \<Rightarrow> Inr (br_vault s) | Some e \<Rightarrow> Inl (map_credential_failure e))"

definition vault_replace ::
  "vault_failure option \<Rightarrow> bridge_credentials \<Rightarrow> bridge_state \<Rightarrow> (session_failure + unit) \<times> bridge_state" where
  "vault_replace fault c s =
     (case fault of
        None \<Rightarrow> (Inr (), s\<lparr>br_vault := Some c\<rparr>)
      | Some e \<Rightarrow> (Inl (map_credential_failure e), s))"

definition clear_credentials ::
  "vault_failure option \<Rightarrow> bridge_state \<Rightarrow> (session_failure + unit) \<times> bridge_state" where
  "clear_credentials fault s =
     (case fault of
        None \<Rightarrow> (Inr (), s\<lparr>br_vault := None\<rparr>)
      | Some e \<Rightarrow> (Inl (map_credential_failure e), s))"

section \<open>Proofs\<close>

definition signed_proof ::
  "device_ports \<Rightarrow> session_draws \<Rightarrow> device_id \<Rightarrow> secret_value \<Rightarrow> utext \<Rightarrow> utext \<Rightarrow> utext \<Rightarrow>
     session_failure + device_proof" where
  "signed_proof ports draws d credential method_name target body =
     and_then (map_sum map_credential_failure id (sd_key draws)) (\<lambda>sign.
     and_then (ok_or (sd_nonce draws) SessionInternal) (\<lambda>nonce.
     and_then (map_sum (\<lambda>_. SessionInternal) id
       (proof_payload_new d (sd_now draws) nonce method_name target (po_digest ports body))) (\<lambda>payload.
     and_then (map_sum map_credential_failure id (sign (canonical_device_request_message
       (po_uuid_text ports (pf_device_id payload)) payload (po_digest ports credential)))) (\<lambda>signature.
     Inr \<lparr>px_payload = payload, px_signature = signature\<rparr>))))"

definition refresh_proof ::
  "device_ports \<Rightarrow> session_draws \<Rightarrow> bridge_credentials \<Rightarrow> session_failure + device_proof" where
  "refresh_proof ports draws stored =
     signed_proof ports draws (bc_device_id stored) (bc_refresh_token stored) (lit ''POST'')
       (lit ''/auth/devices/refresh'') []"

section \<open>Up to the request\<close>

datatype begin_outcome = Finished session_result | Send bridge_credentials refresh_request

definition choose_attempt :: "session_draws \<Rightarrow> bridge_credentials \<Rightarrow> session_failure + refresh_attempt_id option" where
  "choose_attempt draws stored =
     (case bc_state stored of
        Ready \<Rightarrow>
          (case utc_checked_add (sd_now draws) (sd_lead_time draws) of
             Inl _ \<Rightarrow> Inl SessionInternal
           | Inr refresh_at \<Rightarrow>
               Inr (if bc_access_expires_at stored > refresh_at then None else Some (sd_attempt draws)))
      | RefreshPending (Some i) \<Rightarrow> Inr (Some i)
      | RefreshPending None \<Rightarrow> Inr (Some (sd_attempt draws)))"

definition mark_pending ::
  "session_draws \<Rightarrow> bridge_credentials \<Rightarrow> refresh_attempt_id \<Rightarrow> bridge_state \<Rightarrow>
     (session_failure + bridge_credentials) \<times> bridge_state" where
  "mark_pending draws stored i s =
     (let pending = RefreshPending (Some i); marked = stored\<lparr>bc_state := pending\<rparr> in
      if bc_state stored \<noteq> pending
      then (case vault_replace (sd_write_fault draws) marked s of
              (Inl e, t) \<Rightarrow> (Inl e, t)
            | (Inr _, t) \<Rightarrow> (Inr marked, t))
      else (Inr stored, s))"

text \<open>\<open>observed\<close> is the number of completed refreshes that the caller saw before it waited for the lock.\<close>

definition begin_session ::
  "device_ports \<Rightarrow> session_draws \<Rightarrow> 64 word \<Rightarrow> bridge_state \<Rightarrow> begin_outcome \<times> bridge_state" where
  "begin_session ports draws observed s =
     (if br_completed s \<noteq> observed \<and> br_last_failure s \<noteq> None
      then (Finished (Inl (the (br_last_failure s))), s)
      else
        (case vault_load (sd_load_fault draws) s of
           Inl e \<Rightarrow> (Finished (Inl e), s)
         | Inr None \<Rightarrow> (Finished (Inl NotAuthorized), s)
         | Inr (Some stored) \<Rightarrow>
             if bc_refresh_expires_at stored \<le> sd_now draws then
               (case clear_credentials (sd_write_fault draws) s of
                  (Inl e, t) \<Rightarrow> (Finished (Inl e), t)
                | (Inr _, t) \<Rightarrow> (Finished (Inl NotAuthorized), t))
             else
               (case choose_attempt draws stored of
                  Inl e \<Rightarrow> (Finished (Inl e), s)
                | Inr None \<Rightarrow> (Finished (Inr (active_session stored)), s)
                | Inr (Some i) \<Rightarrow>
                    (case refresh_proof ports draws stored of
                       Inl e \<Rightarrow> (Finished (Inl e), s)
                     | Inr proof \<Rightarrow>
                         (case mark_pending draws stored i s of
                            (Inl e, t) \<Rightarrow> (Finished (Inl e), t)
                          | (Inr pending, t) \<Rightarrow>
                              (Send pending \<lparr>rr_token = bc_refresh_token pending, rr_proof = proof,
                                             rr_attempt = i\<rparr>, t))))))"

section \<open>From the answer on\<close>

definition resolve_refresh ::
  "vault_failure option \<Rightarrow> bridge_credentials \<Rightarrow> control_plane_failure + device_credentials \<Rightarrow> bridge_state \<Rightarrow>
     session_result \<times> bridge_state" where
  "resolve_refresh fault pending result s =
     (case result of
        Inl e \<Rightarrow>
          (case e of
             CpAuthenticationRejected \<Rightarrow>
               (case clear_credentials fault s of (Inl x, t) \<Rightarrow> (Inl x, t) | (Inr _, t) \<Rightarrow> (Inl NotAuthorized, t))
           | CpConflict \<Rightarrow>
               (case clear_credentials fault s of (Inl x, t) \<Rightarrow> (Inl x, t) | (Inr _, t) \<Rightarrow> (Inl NotAuthorized, t))
           | CpUnknownCommit \<Rightarrow> (Inl RefreshOutcomeUnknown, s)
           | CpDependencyUnavailable \<Rightarrow> (Inl ControlPlaneUnavailable, s)
           | CpInvalidRequest \<Rightarrow> (Inl InvalidControlPlaneResponse, s)
           | CpInternal \<Rightarrow> (Inl InvalidControlPlaneResponse, s))
      | Inr c \<Rightarrow>
          if ad_device_id (dc_device c) \<noteq> bc_device_id pending then (Inl InvalidControlPlaneResponse, s)
          else
            (let replacement =
                   \<lparr>bc_state = Ready, bc_device_id = ad_device_id (dc_device c),
                    bc_access_token = dc_access_token c,
                    bc_access_expires_at = ad_access_expires_at (dc_device c),
                    bc_refresh_token = dc_refresh_token c,
                    bc_refresh_expires_at = dc_refresh_expires_at c\<rparr>
             in case vault_replace fault replacement s of
                  (Inl x, t) \<Rightarrow> (Inl x, t)
                | (Inr _, t) \<Rightarrow> (Inr (active_session replacement), t)))"

definition record_outcome :: "session_failure option \<Rightarrow> bridge_state \<Rightarrow> bridge_state" where
  "record_outcome f s = s\<lparr>br_completed := br_completed s + 1, br_last_failure := f\<rparr>"

definition failure_of :: "session_result \<Rightarrow> session_failure option" where
  "failure_of r = (case r of Inl e \<Rightarrow> Some e | Inr _ \<Rightarrow> None)"

definition finish_refresh ::
  "vault_failure option \<Rightarrow> bridge_credentials \<Rightarrow> control_plane_failure + device_credentials \<Rightarrow> bridge_state \<Rightarrow>
     session_result \<times> bridge_state" where
  "finish_refresh fault pending result s =
     (case resolve_refresh fault pending result s of (r, t) \<Rightarrow> (r, record_outcome (failure_of r) t))"

text \<open>A call that is dropped while it waits records an unknown outcome; the vault keeps the attempt.\<close>

definition drop_refresh :: "bridge_state \<Rightarrow> bridge_state" where
  "drop_refresh s = record_outcome (Some RefreshOutcomeUnknown) s"

definition forget_device_session ::
  "vault_failure option \<Rightarrow> bridge_state \<Rightarrow> (session_failure + unit) \<times> bridge_state" where
  "forget_device_session fault s = clear_credentials fault s"

text \<open>A restart of the process keeps the vault and nothing else.\<close>

definition restart_bridge :: "bridge_state \<Rightarrow> bridge_state" where
  "restart_bridge s = \<lparr>br_vault = br_vault s, br_completed = 0, br_last_failure = None\<rparr>"

section \<open>Authorised requests\<close>

definition authorize_request ::
  "device_ports \<Rightarrow> session_draws \<Rightarrow> active_bridge_session \<Rightarrow> utext \<Rightarrow> utext \<Rightarrow> utext \<Rightarrow>
     session_failure + (secret_value \<times> device_proof)" where
  "authorize_request ports draws session method_name target body =
     and_then (signed_proof ports draws (as_device_id session) (as_access_token session) method_name target body)
       (\<lambda>proof. Inr (as_access_token session, proof))"

section \<open>Lemmas\<close>

text \<open>The three ways a call gets past the point where it sends: with credentials it marked or found marked.\<close>

lemma begin_session_Send:
  assumes "begin_session ports draws observed s = (Send pending r, t)"
  obtains stored i where "br_vault s = Some stored" and "sd_now draws < bc_refresh_expires_at stored"
    and "pending = stored\<lparr>bc_state := RefreshPending (Some i)\<rparr>" and "br_vault t = Some pending"
    and "rr_token r = bc_refresh_token stored" and "rr_attempt r = i"
    and "refresh_proof ports draws stored = Inr (rr_proof r)"
    and "choose_attempt draws stored = Inr (Some i)"
proof -
  obtain stored i signed where v: "br_vault s = Some stored" "sd_now draws < bc_refresh_expires_at stored"
    and c: "choose_attempt draws stored = Inr (Some i)" "refresh_proof ports draws stored = Inr signed"
    and m: "mark_pending draws stored i s = (Inr pending, t)"
    and r: "r = \<lparr>rr_token = bc_refresh_token pending, rr_proof = signed, rr_attempt = i\<rparr>"
    using assms
    by (auto simp: begin_session_def vault_load_def not_le
        split: if_splits sum.splits option.splits prod.splits)
  have "pending = stored\<lparr>bc_state := RefreshPending (Some i)\<rparr> \<and> br_vault t = Some pending"
    using m v(1) by (auto simp: mark_pending_def vault_replace_def Let_def split: if_splits option.splits)
  then show thesis using that v c r by simp
qed

lemma begin_session_Finished:
  "begin_session ports draws observed s = (Finished out, t) \<Longrightarrow> br_vault t = br_vault s \<or> br_vault t = None"
  by (auto simp: begin_session_def vault_load_def clear_credentials_def mark_pending_def vault_replace_def Let_def
      split: if_splits sum.splits option.splits prod.splits)

lemma finish_refresh_vault:
  assumes "finish_refresh fault pending result s = (out, t)"
  shows "br_vault t = br_vault s \<or> br_vault t = None \<or>
    (\<exists>c. result = Inr c \<and> ad_device_id (dc_device c) = bc_device_id pending \<and>
       br_vault t = Some \<lparr>bc_state = Ready, bc_device_id = bc_device_id pending,
                    bc_access_token = dc_access_token c,
                    bc_access_expires_at = ad_access_expires_at (dc_device c),
                    bc_refresh_token = dc_refresh_token c,
                    bc_refresh_expires_at = dc_refresh_expires_at c\<rparr>)"
  using assms
  by (auto simp: finish_refresh_def resolve_refresh_def record_outcome_def clear_credentials_def vault_replace_def
      Let_def split: sum.splits control_plane_failure.splits if_splits option.splits)

text \<open>
  The credentials are given up only for a statement of the control plane that they are not accepted;
  every other failure keeps the pending attempt, so that it can be settled later.
\<close>

lemma finish_refresh_keeps:
  assumes "finish_refresh fault pending (Inl e) s = (out, t)" and "e \<noteq> CpAuthenticationRejected" and "e \<noteq> CpConflict"
  shows "br_vault t = br_vault s"
  using assms
  by (auto simp: finish_refresh_def resolve_refresh_def record_outcome_def split: control_plane_failure.splits)

lemma waiting_calls_share_failure:
  "br_last_failure s = Some e \<Longrightarrow> br_completed s \<noteq> observed \<Longrightarrow>
     begin_session ports draws observed s = (Finished (Inl e), s)"
  by (simp add: begin_session_def)

end
