(* ===== verification/Refresh_Protocol.thy ===== *)
theory Refresh_Protocol
  imports Token_Moves Bridge_Session
begin

text \<open>
  The refresh protocol as a whole: the bridge of one computer with its vault
  (\<open>Bridge_Session\<close>), the service with its tables (\<open>Device_Authorization\<close>, \<open>Device_Store\<close>), and a
  network between them that loses requests and answers and delivers requests late and repeatedly.
  Processes crash, transactions fail before or after their commit, and other devices and the owner
  keep using the service.

  A run is a sequence of the steps below from a bridge with fresh credentials. The network delivers any
  request that was ever sent, at any time and any number of times. A request that is delivered after the
  bridge sent one with a later token is a late duplicate; what becomes of it is the matter of
  \<open>newest_token_never_judged_reuse\<close> and \<open>superseded_refresh_is_reuse\<close>.
\<close>

section \<open>The world\<close>

record world =
  wl_store :: device_store
  wl_bridge :: bridge_state
  wl_flight :: "bridge_credentials option"
  wl_requests :: "refresh_request list"
  wl_answers :: "(refresh_request \<times> (device_failure + device_credentials)) list"

text \<open>
  \<open>wl_flight\<close> is the call that holds the session lock, \<open>wl_requests\<close> what was sent, the latest first, and
  \<open>wl_answers\<close> what the service answered. A command of others does not exchange a token of this
  device: the tokens are not stolen.
\<close>

definition foreign :: "device_store \<Rightarrow> device_id \<Rightarrow> store_command \<Rightarrow> bool" where
  "foreign s me c \<longleftrightarrow> (\<forall>digest. exchanges c digest \<longrightarrow> \<not> owned s me digest)"

inductive world_step :: "device_ports \<Rightarrow> device_id \<Rightarrow> world \<Rightarrow> world \<Rightarrow> bool" for ports me where
  send: "wl_flight w = None \<Longrightarrow>
    begin_session ports draws observed (wl_bridge w) = (Send pending r, b) \<Longrightarrow>
    world_step ports me w
      (w\<lparr>wl_bridge := b, wl_flight := Some pending, wl_requests := r # wl_requests w\<rparr>)"
| no_request: "wl_flight w = None \<Longrightarrow>
    begin_session ports draws observed (wl_bridge w) = (Finished out, b) \<Longrightarrow>
    world_step ports me w (w\<lparr>wl_bridge := b\<rparr>)"
| deliver: "r \<in> set (wl_requests w) \<Longrightarrow>
    refresh_device_session ports draws (rr_token r) (rr_proof r) (Some (rr_attempt r)) seen (wl_store w) = (a, t) \<Longrightarrow>
    world_step ports me w (w\<lparr>wl_store := t, wl_answers := (r, a) # wl_answers w\<rparr>)"
| answer: "wl_flight w = Some pending \<Longrightarrow> (hd (wl_requests w), a) \<in> set (wl_answers w) \<Longrightarrow>
    finish_refresh fault pending (decode_answer a) (wl_bridge w) = (out, b) \<Longrightarrow>
    world_step ports me w (w\<lparr>wl_bridge := b, wl_flight := None\<rparr>)"
| no_answer: "wl_flight w = Some pending \<Longrightarrow>
    finish_refresh fault pending (Inl (transport_failure is_connect)) (wl_bridge w) = (out, b) \<Longrightarrow>
    world_step ports me w (w\<lparr>wl_bridge := b, wl_flight := None\<rparr>)"
| dropped: "wl_flight w = Some pending \<Longrightarrow>
    world_step ports me w (w\<lparr>wl_bridge := drop_refresh (wl_bridge w), wl_flight := None\<rparr>)"
| restarted: "world_step ports me w (w\<lparr>wl_bridge := restart_bridge (wl_bridge w), wl_flight := None\<rparr>)"
| forgotten: "wl_flight w = None \<Longrightarrow>
    forget_device_session fault (wl_bridge w) = (out, b) \<Longrightarrow> world_step ports me w (w\<lparr>wl_bridge := b\<rparr>)"
| others: "foreign (wl_store w) me c \<Longrightarrow>
    world_step ports me w (w\<lparr>wl_store := snd (store_step (fault, c) (wl_store w))\<rparr>)"

abbreviation reachable :: "device_ports \<Rightarrow> device_id \<Rightarrow> world \<Rightarrow> world \<Rightarrow> bool" where
  "reachable ports me \<equiv> (world_step ports me)\<^sup>*\<^sup>*"

lemma three_steps:
  "world_step ports me w w1 \<Longrightarrow> world_step ports me w1 w2 \<Longrightarrow> world_step ports me w2 w3 \<Longrightarrow> reachable ports me w w3"
  by (blast intro: converse_rtranclp_into_rtranclp)

text \<open>Where a run starts: credentials that were just stored, nothing sent yet.\<close>

definition fresh_world :: "device_ports \<Rightarrow> device_id \<Rightarrow> world \<Rightarrow> bool" where
  "fresh_world ports me w \<longleftrightarrow> tables_ok (wl_store w) \<and> wl_flight w = None \<and> wl_requests w = [] \<and> wl_answers w = [] \<and>
     (\<forall>c. br_vault (wl_bridge w) = Some c \<longrightarrow> bc_state c = Ready \<and> bc_device_id c = me \<and>
        owned (wl_store w) me (po_digest ports (bc_refresh_token c)) \<and>
        unspent (wl_store w) (po_digest ports (bc_refresh_token c)))"

section \<open>What a delivery does\<close>

lemma row_unique:
  assumes "store_ok s" and "r \<in> set (st_refresh s)" and "r' \<in> set (st_refresh s)" and "rt_digest r = rt_digest r'"
  shows "r = r'"
proof -
  have "distinct (map rt_digest (st_refresh s))" using assms(1) by (simp add: store_ok_def keys_ok_def)
  then show ?thesis by (rule key_inject) (use assms in simp_all)
qed

lemma repeatable_rows:
  assumes ok: "store_ok s" and e: "repeatable s digest i salt e f"
  obtains r n where "r \<in> set (st_refresh s)" and "n \<in> set (st_refresh s)" and "rt_digest r = digest"
    and "rt_digest n = e" and "rt_consumed_at r \<noteq> None" and "rt_consumed_at n = None"
    and "rt_family_id n = rt_family_id r" and "rt_replaced_by r = Some (rt_id n)"
proof -
  obtain n x where o: "open_attempt s digest i salt n x" and n: "rt_digest n = e"
    using e by (auto simp: repeatable_def)
  then have "n \<in> set (st_refresh s)" by (simp add: open_attempt_def)
  then show thesis using that n by (metis open_attempt_facts [OF ok o])
qed

lemma repeatable_unique:
  assumes ok: "store_ok s" and "repeatable s digest i salt e a" and "repeatable s digest j salt' f b"
  shows "e = f"
proof -
  obtain r n where r: "r \<in> set (st_refresh s)" "n \<in> set (st_refresh s)" "rt_digest r = digest" "rt_digest n = e"
      "rt_replaced_by r = Some (rt_id n)"
    using ok assms(2) by (rule repeatable_rows)
  obtain r' n' where r': "r' \<in> set (st_refresh s)" "n' \<in> set (st_refresh s)" "rt_digest r' = digest"
      "rt_digest n' = f" "rt_replaced_by r' = Some (rt_id n')"
    using ok assms(3) by (rule repeatable_rows)
  have "r = r'" using row_unique [OF ok r(1) r'(1)] r(3) r'(3) by simp
  then have "rt_id n = rt_id n'" using r(5) r'(5) by simp
  moreover have "distinct (map rt_id (st_refresh s))" using ok by (simp add: store_ok_def keys_ok_def)
  ultimately have "n = n'" using key_inject r(2) r'(2) by metis
  then show ?thesis using r(4) r'(4) by simp
qed

lemma repeatable_successor:
  assumes ok: "store_ok s" and e: "repeatable s digest i salt e f"
  shows "unspent s e" and "owned s me digest \<Longrightarrow> owned s me e" and "e \<noteq> digest" and "\<not> unspent s digest"
proof -
  obtain r n where rn: "r \<in> set (st_refresh s)" "n \<in> set (st_refresh s)" "rt_digest r = digest" "rt_digest n = e"
      "rt_consumed_at r \<noteq> None" "rt_consumed_at n = None" "rt_family_id n = rt_family_id r"
    using ok e by (rule repeatable_rows)
  show "unspent s e" using rn unfolding unspent_def by blast
  show "owned s me e" if "owned s me digest"
  proof -
    obtain r' where "r' \<in> set (st_refresh s)" "rt_digest r' = digest" "family_of_device s me (rt_family_id r')"
      using \<open>owned s me digest\<close> by (auto simp: owned_def)
    moreover from this have "r' = r" using row_unique [OF ok _ rn(1)] rn(3) by simp
    ultimately show ?thesis using rn(2,4,7) unfolding owned_def by auto
  qed
  have spent_row: "rt_consumed_at x \<noteq> None" if "x \<in> set (st_refresh s)" "rt_digest x = digest" for x
    using row_unique [OF ok that(1) rn(1)] that(2) rn(3,5) by simp
  then show "e \<noteq> digest" using rn(2,4,6) by blast
  show "\<not> unspent s digest" using spent_row unfolding unspent_def by blast
qed

lemma repeatable_spent:
  assumes "store_ok s" and "repeatable s digest i salt e f"
  shows "spent s digest"
proof -
  obtain r n where "r \<in> set (st_refresh s)" "n \<in> set (st_refresh s)" "rt_digest r = digest" "rt_digest n = e"
      "rt_consumed_at r \<noteq> None" "rt_consumed_at n = None" "rt_family_id n = rt_family_id r"
      "rt_replaced_by r = Some (rt_id n)"
    using assms by (rule repeatable_rows)
  then show ?thesis unfolding spent_def by blast
qed

lemma spent_not_unspent:
  assumes ok: "store_ok s" and "spent s digest"
  shows "\<not> unspent s digest"
proof -
  obtain r where r: "r \<in> set (st_refresh s)" "rt_digest r = digest" "rt_consumed_at r \<noteq> None"
    using assms(2) by (auto simp: spent_def)
  have "x = r" if "x \<in> set (st_refresh s)" "rt_digest x = digest" for x
    using row_unique [OF ok that(1) r(1)] that(2) r(2) by simp
  then have "rt_consumed_at x \<noteq> None" if "x \<in> set (st_refresh s)" "rt_digest x = digest" for x
    using r(3) that by metis
  then show ?thesis by (auto simp: unspent_def)
qed

definition settled :: "device_store \<Rightarrow> secret_digest \<Rightarrow> refresh_attempt_id \<Rightarrow> bool" where
  "settled s digest i \<longleftrightarrow> unspent s digest \<or> (\<exists>salt e f. repeatable s digest i salt e f)"

text \<open>A repetition of the attempt gives out the access token \<open>a\<close> and the refresh token \<open>r\<close>.\<close>

definition reissues ::
  "device_ports \<Rightarrow> device_store \<Rightarrow> secret_value \<Rightarrow> refresh_attempt_id \<Rightarrow> secret_value \<Rightarrow> secret_value \<Rightarrow> bool" where
  "reissues ports s token i a r \<longleftrightarrow>
     (\<exists>salt. po_derive ports token \<lparr>rp_attempt_id = i, rp_salt = salt\<rparr> = Some (a, r) \<and>
        repeatable s (po_digest ports token) i salt (po_digest ports r) (po_digest ports a))"

text \<open>A rotation in the attempt of the token is no reuse; it opens the attempt or finds it open.\<close>

lemma rotate_settled:
  assumes ok: "store_ok s" and st: "settled s digest i" and p: "tr_replay rep = Some p" "rp_attempt_id p = i"
    and r: "rotate_refresh_transaction digest rep s = Inr (out, t)"
  shows "(\<forall>d q. out \<noteq> ReuseDetected d q) \<and>
    (t = s \<or> unspent s digest \<and>
       repeatable t digest i (rp_salt p) (tr_refresh_digest rep) (tr_access_digest rep) \<and>
       (\<forall>x\<in>set (st_refresh s). rt_digest x \<noteq> tr_refresh_digest rep))"
  using r
proof (cases rule: rotate_cases)
  case (replayed l r p')
  then show ?thesis by (auto simp: replay_refresh_attempt_def query_Inr Let_def split: option.splits if_splits)
next
  case (reuse l r)
  have "rt_consumed_at x \<noteq> None" if "x \<in> set (st_refresh s)" "rt_digest x = digest" for x
    using row_unique [OF ok that(1) context_of_row(1) [OF reuse(1)]] that(2) context_of_row(2) [OF reuse(1)] reuse(3)
    by simp
  then have "\<not> unspent s digest" unfolding unspent_def by blast
  then obtain salt n x where "open_attempt s digest i salt n x"
    using st by (auto simp: settled_def repeatable_def)
  then have "replay_refresh_attempt l p (tr_issued_at rep) s \<noteq> Inr (None, s)"
    using replay_open_attempt [OF ok _ reuse(1) p(2)] rotation_open [OF reuse(2)] by simp
  then show ?thesis using reuse(4) p(1) by blast
next
  case (rotated l r session s1)
  have tabs: "rotated_tables s l r rep (ss_family session) t"
    using rotation_tables [OF ok rotated(1,3) _ rotated(4,5)] rotation_open [OF rotated(2)] by blast
  have "repeatable t digest i (rp_salt p) (tr_refresh_digest rep) (tr_access_digest rep)"
    unfolding repeatable_def
    by (intro exI conjI, rule rotation_opens_attempt [OF tabs p(1) rotated(1), unfolded p(2)])
      (simp_all add: new_refresh_row_def new_access_row_def)
  moreover have "unspent s digest" using context_of_row(1,2) [OF rotated(1)] rotated(3) by (auto simp: unspent_def)
  moreover have "\<forall>x\<in>set (st_refresh s). rt_digest x \<noteq> tr_refresh_digest rep"
    using tabs by (simp add: rotated_tables_def)
  ultimately show ?thesis using rotated(6) by auto
qed simp

lemma no_reuse_before_rotation [simp]:
  "fst (transact f m s) \<noteq> Inl DRefreshTokenReuse"
  "or_internal r \<noteq> Inl DRefreshTokenReuse"
  "generated x \<noteq> Inl DRefreshTokenReuse"
  "verify_signature_only ports d pf digest now \<noteq> Inl DRefreshTokenReuse"
  by (auto simp: transact_def repository_failed_def map_repository_failure_def map_sum_def or_internal_def
      generated_def verify_signature_only_def validate_proof_time_def result_simps Let_def
      split: prod.splits sum.splits repository_error.splits time_check.splits)

lemma prepare_refresh_no_reuse:
  "prepare_refresh ports draws token pf attempt_id seen \<noteq> Inl DRefreshTokenReuse"
proof -
  have "new_refresh_tokens ports draws token attempt_id \<noteq> Inl DRefreshTokenReuse"
    by (auto simp: new_refresh_tokens_def result_simps Let_def split: option.splits)
  then show ?thesis
    unfolding prepare_refresh_def Let_def by (auto simp: and_then_Inl split: if_splits)
qed

lemma transact_cases:
  assumes "transact fault body s = (res, t)"
  obtains "t = s" and "res \<noteq> Inl DRefreshTokenReuse" and "\<forall>x. res \<noteq> Inr x"
    | x where "body s = Inr (x, t)" and "res = Inr x \<or> res \<noteq> Inl DRefreshTokenReuse \<and> (\<forall>y. res \<noteq> Inr y)"
proof -
  have m: "map_repository_failure e \<noteq> DRefreshTokenReuse" for e
    by (simp add: map_repository_failure_def split: repository_error.split)
  show thesis
    using assms that m
    by (cases fault; cases "body s")
      (auto simp: transact_def run_transaction_def repository_failed_def split: prod.splits)
qed

lemma delivery_effect:
  assumes ok: "store_ok s" and st: "settled s (po_digest ports token) i"
    and d: "refresh_device_session ports draws token pf (Some i) seen s = (a, t)"
  shows "a \<noteq> Inl DRefreshTokenReuse" and "token_moves (\<lambda>d. d = po_digest ports token) s t"
    and "t = s \<or> unspent s (po_digest ports token) \<and>
       (\<exists>x y. reissues ports t token i x y \<and> (\<forall>z\<in>set (st_refresh s). rt_digest z \<noteq> po_digest ports y))"
    and "a = Inr c \<Longrightarrow> reissues ports t token i (dc_access_token c) (dc_refresh_token c)"
proof -
  let ?D = "po_digest ports token"
  have main: "a \<noteq> Inl DRefreshTokenReuse \<and> token_moves (\<lambda>d. d = ?D) s t \<and> (t = s \<or> unspent s ?D \<and>
       (\<exists>x y. reissues ports t token i x y \<and> (\<forall>z\<in>set (st_refresh s). rt_digest z \<noteq> po_digest ports y)))"
  proof (cases "prepare_refresh ports draws token pf (Some i) seen")
    case (Inl e)
    then show ?thesis using d prepare_refresh_no_reuse by (auto simp: refresh_device_session_def)
  next
    case (Inr q)
    then obtain rep tokens where prep: "prepare_refresh ports draws token pf (Some i) seen = Inr (rep, tokens)"
      by (cases q) auto
    obtain res where tx: "transact (dw_write_fault draws) (rotate_refresh_transaction ?D rep) s = (res, t)"
      and a: "a = (case res of Inl e \<Rightarrow> Inl e | Inr out \<Rightarrow> answer_refresh ports token (Some i) tokens out)"
      using d prep by (auto simp: refresh_device_session_def then_do_def split: prod.splits sum.splits)
    obtain p where p: "tr_replay rep = Some p" "rp_attempt_id p = i" "po_derive ports token p = Some tokens"
      and dig: "tr_access_digest rep = po_digest ports (fst tokens)" "tr_refresh_digest rep = po_digest ports (snd tokens)"
      using prep by (rule prepared_attempt)
    have pe: "p = \<lparr>rp_attempt_id = i, rp_salt = rp_salt p\<rparr>" using p(2) by simp
    show ?thesis
      using tx
    proof (cases rule: transact_cases)
      case 1
      then show ?thesis using a by (auto split: sum.splits)
    next
      case (2 out)
      note eff = rotate_settled [OF ok st p(1,2) 2(1)]
      have ans: "answer_refresh ports token (Some i) tokens out \<noteq> Inl DRefreshTokenReuse"
        using eff by (auto simp: answer_refresh_def replayed_refresh_tokens_def generated_def result_simps
            split: refresh_outcome.splits if_splits)
      have "t = s \<or> unspent s ?D \<and> reissues ports t token i (fst tokens) (snd tokens) \<and>
          (\<forall>z\<in>set (st_refresh s). rt_digest z \<noteq> po_digest ports (snd tokens))"
        using eff p(3) pe dig unfolding reissues_def by (metis prod.collapse)
      then show ?thesis using a 2(2) ans rotate_moves [OF ok 2(1)] by (auto split: sum.splits)
    qed
  qed
  then show "a \<noteq> Inl DRefreshTokenReuse" and "token_moves (\<lambda>d. d = ?D) s t"
    and "t = s \<or> unspent s ?D \<and>
      (\<exists>x y. reissues ports t token i x y \<and> (\<forall>z\<in>set (st_refresh s). rt_digest z \<noteq> po_digest ports y))"
    by blast+
  show "reissues ports t token i (dc_access_token c) (dc_refresh_token c)" if c: "a = Inr c"
  proof -
    obtain salt n x where "open_attempt t ?D i salt n x" "rt_digest n = po_digest ports (dc_refresh_token c)"
      "po_derive ports token \<lparr>rp_attempt_id = i, rp_salt = salt\<rparr> = Some (dc_access_token c, dc_refresh_token c)"
      "at_digest x = po_digest ports (dc_access_token c)"
      by (rule refresh_leaves_open [OF ok d [unfolded c]]) (rule that)
    then show ?thesis unfolding reissues_def repeatable_def by blast
  qed
qed

text \<open>On the tables a delivery is nothing or one committed rotation.\<close>

lemma delivery_state:
  assumes d: "refresh_device_session ports draws token pf (Some i) seen s = (a, t)"
  obtains "t = s" and "a \<noteq> Inl DRefreshTokenReuse"
    | rep out where "rotate_refresh_transaction (po_digest ports token) rep s = Inr (out, t)"
        and "a = Inl DRefreshTokenReuse \<Longrightarrow> \<exists>d p. out = ReuseDetected d p"
proof (cases "prepare_refresh ports draws token pf (Some i) seen")
  case (Inl e)
  then have a: "a = Inl e" "t = s" using d by (simp_all add: refresh_device_session_def)
  have "e \<noteq> DRefreshTokenReuse" using Inl prepare_refresh_no_reuse [of ports draws token pf "Some i" seen] by auto
  then show thesis using that(1) a by simp
next
  case (Inr q)
  then obtain rep tokens where prep: "prepare_refresh ports draws token pf (Some i) seen = Inr (rep, tokens)"
    by (cases q) auto
  obtain res where tx: "transact (dw_write_fault draws) (rotate_refresh_transaction (po_digest ports token) rep) s = (res, t)"
    and a: "a = (case res of Inl e \<Rightarrow> Inl e | Inr out \<Rightarrow> answer_refresh ports token (Some i) tokens out)"
    using d prep by (auto simp: refresh_device_session_def then_do_def split: prod.splits sum.splits)
  from tx show thesis
  proof (cases rule: transact_cases)
    case 1
    then show thesis using that(1) a by (auto split: sum.splits)
  next
    case (2 out)
    have "\<exists>d p. out = ReuseDetected d p" if "a = Inl DRefreshTokenReuse"
    proof -
      have "res = Inr out" using 2(2) a that by (auto split: sum.splits)
      then have "answer_refresh ports token (Some i) tokens out = Inl DRefreshTokenReuse" using a that by simp
      then show ?thesis
        by (cases out) (auto simp: answer_refresh_def replayed_refresh_tokens_def generated_def result_simps
            split: if_splits)
    qed
    then show thesis by (rule that(2) [OF 2(1)])
  qed
qed

lemma delivery_tables:
  assumes ok: "tables_ok s" and d: "refresh_device_session ports draws token pf (Some i) seen s = (a, t)"
  shows "tables_ok t" and "spent s digest \<Longrightarrow> spent t digest" and "dead_device s me \<Longrightarrow> dead_device t me"
    and "owned s me digest \<Longrightarrow> owned t me digest"
proof -
  have s: "store_ok s" using ok by (simp add: tables_ok_def)
  have "\<exists>cs. t = replay store_step cs s"
    using d
  proof (cases rule: delivery_state)
    case 1
    then show ?thesis by (intro exI [of _ "[]"]) simp
  next
    case (2 rep out)
    then have "t = replay store_step [(NoFault, RotateRefresh (po_digest ports token) rep)] s"
      by (simp add: run_transaction_def transaction_simps forget_result_def exec_def done_with_def)
    then show ?thesis ..
  qed
  then obtain cs where t: "t = replay store_step cs s" ..
  show "tables_ok t" "spent s digest \<Longrightarrow> spent t digest" "dead_device s me \<Longrightarrow> dead_device t me"
    using tables_ok_replay [OF ok] replay_spent [OF ok] replay_dead by (simp_all add: t)
  show "owned s me digest \<Longrightarrow> owned t me digest"
    using d
  proof (cases rule: delivery_state)
    case (2 rep out)
    then show "owned s me digest \<Longrightarrow> owned t me digest"
      using token_moves_keep(1) [OF rotate_moves [OF s 2(1)] s] by blast
  qed simp
qed

text \<open>A rotation with a token of the device finds its rows.\<close>

lemma owned_context:
  assumes ok: "store_ok s" and own: "owned s me digest" and c: "context_of s digest l r"
  shows "dv_id (lk_device l) = me" and "fm_device_id (lk_family l) = me"
proof -
  note row = context_of_row [OF c]
  obtain r' f where r': "r' \<in> set (st_refresh s)" "rt_digest r' = digest" "f \<in> set (st_families s)"
      "fm_id f = rt_family_id r'" "fm_device_id f = me"
    using own by (auto simp: owned_def family_of_device_def list_ex_iff)
  have "r' = r" using row_unique [OF ok r'(1) row(1)] r'(2) row(2) by simp
  moreover have "distinct (map fm_id (st_families s))" using ok by (simp add: store_ok_def keys_ok_def)
  ultimately have "f = lk_family l" using key_inject r'(3,4) row(3,4) by metis
  then show "dv_id (lk_device l) = me" "fm_device_id (lk_family l) = me" using r'(5) row(5) by simp_all
qed

lemma dead_delivery:
  assumes ok: "tables_ok s" and own: "owned s me (po_digest ports token)" and dead: "dead_device s me"
    and d: "refresh_device_session ports draws token pf (Some i) seen s = (a, t)"
  shows "a \<noteq> Inl DRefreshTokenReuse"
proof
  assume a: "a = Inl DRefreshTokenReuse"
  have s: "store_ok s" and k: "distinct (map row_id (st_devices s))" using ok by (simp_all add: tables_ok_def)
  from d show False
  proof (cases rule: delivery_state)
    case (2 rep out)
    then obtain dev p where "rotate_refresh_transaction (po_digest ports token) rep s = Inr (ReuseDetected dev p, t)"
      using a by blast
    then show False
    proof (cases rule: rotate_cases)
      case (reuse l r)
      then obtain e where e: "find_device s (fm_device_id (lk_family l)) = Some e" "lk_device l = dr_device e"
        by (auto simp: context_of_def)
      have "dead_row e" using dead_lookup [OF dead k] e(1) owned_context(2) [OF s own reuse(1)] by simp
      then show False using rotation_open [OF reuse(2)] e(2) by (simp add: dead_row_def)
    qed (auto simp: replay_refresh_attempt_def query_Inr split: option.splits if_splits)
  qed (use a in simp)
qed

text \<open>A spent token is exchanged no more: its delivery leaves the tables, or the device is dead.\<close>

lemma spent_delivery:
  assumes ok: "tables_ok s" and own: "owned s me (po_digest ports token)" and sp: "spent s (po_digest ports token)"
    and d: "refresh_device_session ports draws token pf (Some i) seen s = (a, t)"
  shows "dead_device t me \<or> t = s \<and> a \<noteq> Inl DRefreshTokenReuse"
proof -
  have s: "store_ok s" using ok by (simp add: tables_ok_def)
  from d show ?thesis
  proof (cases rule: delivery_state)
    case (2 rep out)
    from 2(1) show ?thesis
    proof (cases rule: rotate_cases)
      case (reuse l r)
      then have "dead_device t (dv_id (lk_device l))" using reuse_kills 2(1) by blast
      then show ?thesis using owned_context(1) [OF s own reuse(1)] by simp
    next
      case (rotated l r session s1)
      then have "unspent s (po_digest ports token)" using context_of_row(1,2) [OF rotated(1)] by (auto simp: unspent_def)
      then show ?thesis using spent_not_unspent [OF s sp] by simp
    qed (use 2(2) in \<open>auto simp: replay_refresh_attempt_def query_Inr split: option.splits if_splits\<close>)
  qed simp
qed

lemma delivered_token_owned:
  assumes ok: "store_ok s" and own: "owned t me (po_digest ports token)"
    and d: "refresh_device_session ports draws token pf (Some i) seen s = (Inr c, t)"
  shows "owned t me (po_digest ports (dc_refresh_token c))"
proof -
  obtain salt n x where o: "open_attempt t (po_digest ports token) i salt n x"
    and n: "rt_digest n = po_digest ports (dc_refresh_token c)" and t: "store_ok t"
    using ok d by (rule refresh_leaves_open)
  then have "repeatable t (po_digest ports token) i salt (po_digest ports (dc_refresh_token c)) (at_digest x)"
    unfolding repeatable_def by blast
  then show ?thesis using repeatable_successor(2) [OF t _ own] by blast
qed

section \<open>The invariant\<close>

definition request_digest :: "device_ports \<Rightarrow> refresh_request \<Rightarrow> secret_digest" where
  "request_digest ports r = po_digest ports (rr_token r)"

definition requested :: "device_ports \<Rightarrow> world \<Rightarrow> secret_digest set" where
  "requested ports w = request_digest ports ` set (wl_requests w)"

text \<open>
  Credentials in the vault are usable: their token was never sent and is unspent, and every token that was
  sent is spent; or it is the one sent last and the vault still knows the attempt.
\<close>

definition credentials_ok :: "device_ports \<Rightarrow> device_id \<Rightarrow> world \<Rightarrow> bridge_credentials \<Rightarrow> bool" where
  "credentials_ok ports me w c \<longleftrightarrow>
     (let digest = po_digest ports (bc_refresh_token c);
          unsent = (unspent (wl_store w) digest \<and> digest \<notin> requested ports w \<and>
            (\<forall>d\<in>requested ports w. spent (wl_store w) d))
      in bc_device_id c = me \<and> owned (wl_store w) me digest \<and>
         (case bc_state c of
            Ready \<Rightarrow> unsent
          | RefreshPending None \<Rightarrow> False
          | RefreshPending (Some i) \<Rightarrow>
              unsent \<or> wl_requests w \<noteq> [] \<and> rr_token (hd (wl_requests w)) = bc_refresh_token c \<and>
                rr_attempt (hd (wl_requests w)) = i))"

text \<open>
  All requests with the latest token are of one attempt, and that token is unspent or was exchanged in
  this attempt for a token that was never sent; the tokens of the other requests are spent.
\<close>

definition head_ok :: "device_ports \<Rightarrow> world \<Rightarrow> bool" where
  "head_ok ports w \<longleftrightarrow> (\<forall>h rs. wl_requests w = h # rs \<longrightarrow>
     (\<forall>r\<in>set rs. rr_token r = rr_token h \<longrightarrow> rr_attempt r = rr_attempt h) \<and>
     (\<forall>r\<in>set rs. rr_token r \<noteq> rr_token h \<longrightarrow>
        request_digest ports r \<noteq> request_digest ports h \<and> spent (wl_store w) (request_digest ports r)) \<and>
     (unspent (wl_store w) (request_digest ports h) \<or>
      (\<exists>x y. reissues ports (wl_store w) (rr_token h) (rr_attempt h) x y \<and> po_digest ports y \<notin> requested ports w)))"

definition answers_ok :: "device_ports \<Rightarrow> world \<Rightarrow> bool" where
  "answers_ok ports w \<longleftrightarrow> (\<forall>(r, a)\<in>set (wl_answers w). r \<in> set (wl_requests w) \<and> a \<noteq> Inl DRefreshTokenReuse \<and>
     (\<forall>h rs c. wl_requests w = h # rs \<and> rr_token r = rr_token h \<and> a = Inr c \<longrightarrow>
        reissues ports (wl_store w) (rr_token h) (rr_attempt h) (dc_access_token c) (dc_refresh_token c)))"

definition world_ok :: "device_ports \<Rightarrow> device_id \<Rightarrow> world \<Rightarrow> bool" where
  "world_ok ports me w \<longleftrightarrow> store_ok (wl_store w) \<and>
     (\<forall>digest\<in>requested ports w. owned (wl_store w) me digest) \<and>
     (\<forall>c. br_vault (wl_bridge w) = Some c \<longrightarrow> credentials_ok ports me w c) \<and>
     (\<forall>p. wl_flight w = Some p \<longrightarrow> wl_requests w \<noteq> [] \<and> bc_device_id p = me) \<and>
     head_ok ports w \<and> answers_ok ports w"

lemma world_bridge_simps [simp]:
  "requested ports (w\<lparr>wl_bridge := b\<rparr>) = requested ports w"
  "credentials_ok ports me (w\<lparr>wl_bridge := b\<rparr>) = credentials_ok ports me w"
  "head_ok ports (w\<lparr>wl_bridge := b\<rparr>) = head_ok ports w"
  "answers_ok ports (w\<lparr>wl_bridge := b\<rparr>) = answers_ok ports w"
  "requested ports (w\<lparr>wl_flight := f\<rparr>) = requested ports w"
  "credentials_ok ports me (w\<lparr>wl_flight := f\<rparr>) = credentials_ok ports me w"
  "head_ok ports (w\<lparr>wl_flight := f\<rparr>) = head_ok ports w"
  "answers_ok ports (w\<lparr>wl_flight := f\<rparr>) = answers_ok ports w"
  by (simp_all add: requested_def credentials_ok_def head_ok_def answers_ok_def fun_eq_iff Let_def
      split: credential_state.split option.split)

lemma fresh_world_ok: "fresh_world ports me w \<Longrightarrow> world_ok ports me w"
  by (auto simp: fresh_world_def world_ok_def tables_ok_def credentials_ok_def requested_def head_ok_def
      answers_ok_def)

text \<open>The store evolves without an exchange of a token of this device.\<close>

lemma world_store_moves:
  assumes ok: "world_ok ports me w" and m: "token_moves E (wl_store w) t"
    and sp: "\<And>digest. spent (wl_store w) digest \<Longrightarrow> spent t digest"
    and f: "\<And>digest. owned (wl_store w) me digest \<Longrightarrow> \<not> E digest"
  shows "world_ok ports me (w\<lparr>wl_store := t\<rparr>)"
proof -
  let ?s = "wl_store w"
  have s: "store_ok ?s" using ok by (simp add: world_ok_def)
  note k = token_moves_keep [OF m s]
  have own: "owned ?s me digest \<Longrightarrow> owned t me digest" for digest by (rule k(1))
  have uns: "owned ?s me digest \<Longrightarrow> unspent ?s digest \<Longrightarrow> unspent t digest" for digest using k(2) f by blast
  have rep: "owned ?s me (po_digest ports token) \<Longrightarrow> reissues ports ?s token i x y \<Longrightarrow> reissues ports t token i x y"
    for token i x y
    using k(3) f repeatable_successor(2) [OF s] unfolding reissues_def by blast
  have req: "requested ports (w\<lparr>wl_store := t\<rparr>) = requested ports w" by (simp add: requested_def)
  have head_owned: "owned ?s me (request_digest ports h)" if "wl_requests w = h # rs" for h rs
    using ok that by (simp add: world_ok_def requested_def)
  note rep = rep [OF head_owned [unfolded request_digest_def]]
  have "\<forall>c. br_vault (wl_bridge w) = Some c \<longrightarrow> credentials_ok ports me (w\<lparr>wl_store := t\<rparr>) c"
  proof (intro allI impI)
    fix c assume "br_vault (wl_bridge w) = Some c"
    then have "credentials_ok ports me w c" using ok by (simp add: world_ok_def)
    then show "credentials_ok ports me (w\<lparr>wl_store := t\<rparr>) c"
      using own uns sp unfolding credentials_ok_def Let_def req by (auto split: credential_state.splits option.splits)
  qed
  moreover have "head_ok ports (w\<lparr>wl_store := t\<rparr>)"
    unfolding head_ok_def req
  proof (intro allI impI)
    fix h rs assume "wl_requests (w\<lparr>wl_store := t\<rparr>) = h # rs"
    then have h: "wl_requests w = h # rs" by simp
    then have "(\<forall>r\<in>set rs. rr_token r = rr_token h \<longrightarrow> rr_attempt r = rr_attempt h) \<and>
        (\<forall>r\<in>set rs. rr_token r \<noteq> rr_token h \<longrightarrow>
           request_digest ports r \<noteq> request_digest ports h \<and> spent ?s (request_digest ports r)) \<and>
        (unspent ?s (request_digest ports h) \<or>
         (\<exists>x y. reissues ports ?s (rr_token h) (rr_attempt h) x y \<and> po_digest ports y \<notin> requested ports w))"
      using ok by (simp add: world_ok_def head_ok_def)
    then show "(\<forall>r\<in>set rs. rr_token r = rr_token h \<longrightarrow> rr_attempt r = rr_attempt h) \<and>
        (\<forall>r\<in>set rs. rr_token r \<noteq> rr_token h \<longrightarrow> request_digest ports r \<noteq> request_digest ports h \<and>
           spent (wl_store (w\<lparr>wl_store := t\<rparr>)) (request_digest ports r)) \<and>
        (unspent (wl_store (w\<lparr>wl_store := t\<rparr>)) (request_digest ports h) \<or>
         (\<exists>x y. reissues ports (wl_store (w\<lparr>wl_store := t\<rparr>)) (rr_token h) (rr_attempt h) x y \<and>
            po_digest ports y \<notin> requested ports w))"
      using uns [OF head_owned [OF h]] rep [OF h] sp by (auto, blast)
  qed
  moreover have "answers_ok ports (w\<lparr>wl_store := t\<rparr>)"
  proof -
    have "answers_ok ports w" using ok by (simp add: world_ok_def)
    then show ?thesis unfolding answers_ok_def using rep by fastforce
  qed
  ultimately show ?thesis
    using ok own token_moves_ok [OF m s] unfolding world_ok_def req by simp
qed

lemma others_ok:
  assumes ok: "world_ok ports me w" and tabs: "tables_ok (wl_store w)" and f: "foreign (wl_store w) me c"
  shows "world_ok ports me (w\<lparr>wl_store := snd (store_step (fault, c) (wl_store w))\<rparr>)"
proof (rule world_store_moves [OF ok store_step_moves])
  show "store_ok (wl_store w)" using ok by (simp add: world_ok_def)
  show "spent (snd (store_step (fault, c) (wl_store w))) digest" if "spent (wl_store w) digest" for digest
    using replay_spent [OF tabs that, of "[(fault, c)]"] by simp
  show "\<not> exchanges c digest" if "owned (wl_store w) me digest" for digest
    using f that by (auto simp: foreign_def)
qed

text \<open>The bridge changes its vault while the lock is free or at the end of a call.\<close>

lemma world_bridge_ok:
  assumes ok: "world_ok ports me w"
    and v: "br_vault b = br_vault (wl_bridge w) \<or> br_vault b = None \<or>
      (\<exists>c. br_vault b = Some c \<and> credentials_ok ports me w c)"
  shows "world_ok ports me (w\<lparr>wl_bridge := b\<rparr>)" and "world_ok ports me (w\<lparr>wl_bridge := b, wl_flight := None\<rparr>)"
  using assms unfolding world_ok_def by auto

lemma send_ok:
  assumes ok: "world_ok ports me w"
    and b: "begin_session ports draws observed (wl_bridge w) = (Send pending r, b)"
  shows "world_ok ports me (w\<lparr>wl_bridge := b, wl_flight := Some pending, wl_requests := r # wl_requests w\<rparr>)"
    (is "world_ok ports me ?w")
proof -
  obtain stored i where st: "br_vault (wl_bridge w) = Some stored" "pending = stored\<lparr>bc_state := RefreshPending (Some i)\<rparr>"
      "br_vault b = Some pending" "rr_token r = bc_refresh_token stored" "rr_attempt r = i"
      "choose_attempt draws stored = Inr (Some i)"
    using b by (rule begin_session_Send)
  let ?D = "po_digest ports (bc_refresh_token stored)"
  have c: "credentials_ok ports me w stored" using ok st(1) by (simp add: world_ok_def)
  then have me: "bc_device_id stored = me" "owned (wl_store w) me ?D" by (simp_all add: credentials_ok_def Let_def)
  have D: "request_digest ports r = ?D" by (simp add: request_digest_def st(4))
  have req: "requested ports ?w = insert ?D (requested ports w)" by (simp add: requested_def D)
  have new_or_head: "unspent (wl_store w) ?D \<and> ?D \<notin> requested ports w \<and> (\<forall>d\<in>requested ports w. spent (wl_store w) d) \<or>
      (\<exists>h rs. wl_requests w = h # rs \<and> rr_token h = bc_refresh_token stored \<and> rr_attempt h = i)"
    using c st(6)
    by (cases "wl_requests w")
      (auto simp: credentials_ok_def choose_attempt_def Let_def split: credential_state.splits option.splits)
  have head: "head_ok ports ?w \<and> answers_ok ports ?w"
    using new_or_head
  proof
    assume n: "unspent (wl_store w) ?D \<and> ?D \<notin> requested ports w \<and> (\<forall>d\<in>requested ports w. spent (wl_store w) d)"
    have other: "rr_token r' \<noteq> rr_token r" if "r' \<in> set (wl_requests w)" for r'
    proof
      assume "rr_token r' = rr_token r"
      then have "request_digest ports r' = ?D" by (simp add: request_digest_def st(4))
      then show False using n that by (auto simp: requested_def rev_image_eqI)
    qed
    have old: "request_digest ports r' \<noteq> ?D \<and> spent (wl_store w) (request_digest ports r')"
      if "r' \<in> set (wl_requests w)" for r'
      using n that by (auto simp: requested_def rev_image_eqI)
    have "answers_ok ports w" using ok by (simp add: world_ok_def)
    then show ?thesis using n other old D by (auto simp: head_ok_def answers_ok_def)
  next
    assume "\<exists>h rs. wl_requests w = h # rs \<and> rr_token h = bc_refresh_token stored \<and> rr_attempt h = i"
    then obtain h rs where h: "wl_requests w = h # rs" "rr_token h = bc_refresh_token stored" "rr_attempt h = i" by blast
    have Dh: "request_digest ports h = ?D" by (simp add: request_digest_def h(2))
    have ho: "\<forall>r'\<in>set rs. rr_token r' = rr_token h \<longrightarrow> rr_attempt r' = rr_attempt h"
      "\<forall>r'\<in>set rs. rr_token r' \<noteq> rr_token h \<longrightarrow>
         request_digest ports r' \<noteq> ?D \<and> spent (wl_store w) (request_digest ports r')"
      "unspent (wl_store w) ?D \<or>
       (\<exists>x y. reissues ports (wl_store w) (bc_refresh_token stored) i x y \<and> po_digest ports y \<notin> requested ports w)"
      using ok h Dh by (simp_all add: world_ok_def head_ok_def)
    have "store_ok (wl_store w)" using ok by (simp add: world_ok_def)
    then have "unspent (wl_store w) ?D \<or>
       (\<exists>x y. reissues ports (wl_store w) (bc_refresh_token stored) i x y \<and> po_digest ports y \<notin> requested ports ?w)"
      using ho(3) repeatable_successor(3) unfolding req reissues_def by blast
    then have "head_ok ports ?w" using ho(1,2) h st(4,5) D by (auto simp: head_ok_def)
    moreover have "answers_ok ports w" using ok by (simp add: world_ok_def)
    then have "answers_ok ports ?w" using h st(4,5) D Dh by (auto simp: answers_ok_def)
    ultimately show ?thesis ..
  qed
  have "credentials_ok ports me ?w pending"
    using me st(2,4,5) by (simp add: credentials_ok_def Let_def)
  then show ?thesis
    using ok head me D st(3) unfolding world_ok_def req
    by (simp add: st(2))
qed

lemma deliver_ok:
  assumes ok: "world_ok ports me w" and tabs: "tables_ok (wl_store w)" and r: "r \<in> set (wl_requests w)" "rr_token r = rr_token (hd (wl_requests w))"
    and d: "refresh_device_session ports draws (rr_token r) (rr_proof r) (Some (rr_attempt r)) seen (wl_store w) = (a, t)"
  shows "world_ok ports me (w\<lparr>wl_store := t, wl_answers := (r, a) # wl_answers w\<rparr>)" (is "world_ok ports me ?w")
    and "a \<noteq> Inl DRefreshTokenReuse"
proof -
  obtain h rs where h: "wl_requests w = h # rs" using r(1) by (cases "wl_requests w") auto
  let ?s = "wl_store w" and ?D = "request_digest ports h"
  have tok: "rr_token r = rr_token h" using r(2) h by simp
  then have D: "po_digest ports (rr_token r) = ?D" by (simp add: request_digest_def)
  have s: "store_ok ?s" using ok by (simp add: world_ok_def)
  have ho: "\<forall>x\<in>set rs. rr_token x = rr_token h \<longrightarrow> rr_attempt x = rr_attempt h"
    "\<forall>x\<in>set rs. rr_token x \<noteq> rr_token h \<longrightarrow> request_digest ports x \<noteq> ?D \<and> spent ?s (request_digest ports x)"
    "unspent ?s ?D \<or> (\<exists>x y. reissues ports ?s (rr_token h) (rr_attempt h) x y \<and> po_digest ports y \<notin> requested ports w)"
    using ok h by (simp_all add: world_ok_def head_ok_def)
  have att: "rr_attempt r = rr_attempt h" using ho(1) r(1) h tok by auto
  have st: "settled ?s (po_digest ports (rr_token r)) (rr_attempt r)"
    using ho(3) by (auto simp: settled_def reissues_def request_digest_def tok att)
  note eff = delivery_effect [OF s st d, unfolded D att, unfolded tok]
  show "a \<noteq> Inl DRefreshTokenReuse" by (rule eff(1))
  note k = token_moves_keep [OF eff(2) s]
  have own: "owned ?s me digest \<Longrightarrow> owned t me digest" for digest by (rule k(1))
  have sp: "spent ?s digest \<Longrightarrow> spent t digest" for digest by (rule delivery_tables(2) [OF tabs d])
  have D_req: "?D \<in> requested ports w" by (simp add: requested_def h)
  have uns: "digest \<notin> requested ports w \<Longrightarrow> unspent ?s digest \<Longrightarrow> unspent t digest" for digest
    using k(2) D_req by blast
  have rep: "reissues ports ?s (rr_token h) i x y \<Longrightarrow> reissues ports t (rr_token h) i x y" for i x y
    using k(3) repeatable_successor(3) [OF s] unfolding reissues_def request_digest_def by blast
  have req: "requested ports ?w = requested ports w" by (simp add: requested_def)
  have "\<forall>c. br_vault (wl_bridge w) = Some c \<longrightarrow> credentials_ok ports me ?w c"
  proof (intro allI impI)
    fix c assume "br_vault (wl_bridge w) = Some c"
    then have "credentials_ok ports me w c" using ok by (simp add: world_ok_def)
    then show "credentials_ok ports me ?w c"
      using own uns sp unfolding credentials_ok_def Let_def req by (auto split: credential_state.splits option.splits)
  qed
  moreover have "head_ok ports ?w"
  proof -
    have "unspent t ?D \<or> (\<exists>x y. reissues ports t (rr_token h) (rr_attempt h) x y \<and> po_digest ports y \<notin> requested ports w)"
      using eff(3)
    proof
      assume "t = ?s"
      then show ?thesis using ho(3) by simp
    next
      assume "unspent ?s ?D \<and> (\<exists>x y. reissues ports t (rr_token h) (rr_attempt h) x y \<and>
          (\<forall>z\<in>set (st_refresh ?s). rt_digest z \<noteq> po_digest ports y))"
      then obtain x y where e: "reissues ports t (rr_token h) (rr_attempt h) x y"
          "\<forall>z\<in>set (st_refresh ?s). rt_digest z \<noteq> po_digest ports y" by blast
      have "po_digest ports y \<notin> requested ports w" using ok e(2) by (auto simp: world_ok_def owned_def)
      then show ?thesis using e(1) by blast
    qed
    then show ?thesis using ho(1,2) sp h unfolding head_ok_def req by simp
  qed
  moreover have "answers_ok ports ?w"
  proof -
    have "answers_ok ports w" using ok by (simp add: world_ok_def)
    then show ?thesis
      unfolding answers_ok_def using h r(1) tok eff(1,4) rep by fastforce
  qed
  ultimately show "world_ok ports me ?w"
    using ok own token_moves_ok [OF eff(2) s] unfolding world_ok_def req by simp
qed

text \<open>The answer to a late duplicate that leaves the tables changes nothing for the bridge.\<close>

lemma late_answer_ok:
  assumes "world_ok ports me w" and "r \<in> set (wl_requests w)" and "rr_token r \<noteq> rr_token (hd (wl_requests w))"
    and "a \<noteq> Inl DRefreshTokenReuse"
  shows "world_ok ports me (w\<lparr>wl_answers := (r, a) # wl_answers w\<rparr>)" (is "world_ok ports me ?w")
proof -
  have req: "requested ports ?w = requested ports w" by (simp add: requested_def)
  have "credentials_ok ports me ?w = credentials_ok ports me w" "head_ok ports ?w = head_ok ports w"
    by (simp_all add: credentials_ok_def head_ok_def req fun_eq_iff Let_def split: credential_state.split option.split)
  moreover have "answers_ok ports ?w"
    using assms unfolding answers_ok_def world_ok_def by auto
  ultimately show ?thesis using assms(1) unfolding world_ok_def req by simp
qed

lemma answer_ok:
  assumes ok: "world_ok ports me w" and p: "wl_flight w = Some pending"
    and a: "(hd (wl_requests w), a) \<in> set (wl_answers w)"
    and f: "finish_refresh fault pending (decode_answer a) (wl_bridge w) = (out, b)"
  shows "world_ok ports me (w\<lparr>wl_bridge := b, wl_flight := None\<rparr>)"
proof (rule world_bridge_ok(2) [OF ok])
  obtain h rs where h: "wl_requests w = h # rs" "bc_device_id pending = me"
    using ok p by (cases "wl_requests w") (auto simp: world_ok_def)
  have s: "store_ok (wl_store w)" using ok by (simp add: world_ok_def)
  have "credentials_ok ports me w
      \<lparr>bc_state = Ready, bc_device_id = bc_device_id pending, bc_access_token = dc_access_token c,
       bc_access_expires_at = ad_access_expires_at (dc_device c), bc_refresh_token = dc_refresh_token c,
       bc_refresh_expires_at = dc_refresh_expires_at c\<rparr>"
    if c: "decode_answer a = Inr c" for c
  proof -
    let ?D = "request_digest ports h" and ?e = "po_digest ports (dc_refresh_token c)"
    have "a = Inr c" using c by (cases a) (simp_all add: decode_answer_def)
    then have "reissues ports (wl_store w) (rr_token h) (rr_attempt h) (dc_access_token c) (dc_refresh_token c)"
      using ok a h(1) by (auto simp: world_ok_def answers_ok_def)
    then obtain salt where rep: "repeatable (wl_store w) ?D (rr_attempt h) salt ?e (po_digest ports (dc_access_token c))"
      by (auto simp: reissues_def request_digest_def)
    have "unspent (wl_store w) ?D \<or>
        (\<exists>x y. reissues ports (wl_store w) (rr_token h) (rr_attempt h) x y \<and> po_digest ports y \<notin> requested ports w)"
      using ok h(1) by (simp add: world_ok_def head_ok_def)
    then have "?e \<notin> requested ports w"
      using repeatable_successor(4) [OF s rep] repeatable_unique [OF s rep]
      by (auto simp: reissues_def request_digest_def)
    moreover have "owned (wl_store w) me ?D" using ok h(1) by (simp add: world_ok_def requested_def)
    moreover have "\<forall>d\<in>requested ports w. spent (wl_store w) d"
    proof
      fix d assume "d \<in> requested ports w"
      then obtain x where x: "x \<in> set (wl_requests w)" "d = request_digest ports x" by (auto simp: requested_def)
      have "spent (wl_store w) ?D" using repeatable_spent [OF s rep] .
      moreover have "spent (wl_store w) d" if "rr_token x \<noteq> rr_token h"
        using ok h(1) x that by (auto simp: world_ok_def head_ok_def)
      ultimately show "spent (wl_store w) d" using x(2) by (cases "rr_token x = rr_token h") (simp_all add: request_digest_def)
    qed
    ultimately show ?thesis
      using repeatable_successor(1,2) [OF s rep] h(2) by (simp add: credentials_ok_def Let_def)
  qed
  then show "br_vault b = br_vault (wl_bridge w) \<or> br_vault b = None \<or>
      (\<exists>c. br_vault b = Some c \<and> credentials_ok ports me w c)"
    using finish_refresh_vault [OF f] by blast
qed

text \<open>
  What holds in every run, late duplicates included: the tables are well formed and every token that the
  bridge sent, holds or may still be answered is one of its device.
\<close>

definition known_ok :: "device_ports \<Rightarrow> device_id \<Rightarrow> world \<Rightarrow> bool" where
  "known_ok ports me w \<longleftrightarrow> tables_ok (wl_store w) \<and>
     (\<forall>digest\<in>requested ports w. owned (wl_store w) me digest) \<and>
     (\<forall>c. br_vault (wl_bridge w) = Some c \<longrightarrow> owned (wl_store w) me (po_digest ports (bc_refresh_token c))) \<and>
     (\<forall>r c. (r, Inr c) \<in> set (wl_answers w) \<longrightarrow> owned (wl_store w) me (po_digest ports (dc_refresh_token c)))"

lemma known_bridge_ok:
  assumes ok: "known_ok ports me w"
    and v: "br_vault b = br_vault (wl_bridge w) \<or> br_vault b = None \<or>
      (\<exists>c. br_vault b = Some c \<and> owned (wl_store w) me (po_digest ports (bc_refresh_token c)))"
  shows "known_ok ports me (w\<lparr>wl_bridge := b\<rparr>)" and "known_ok ports me (w\<lparr>wl_bridge := b, wl_flight := None\<rparr>)"
  using assms unfolding known_ok_def by (auto simp: requested_def)

lemma known_send:
  assumes ok: "known_ok ports me w" and b: "begin_session ports draws observed (wl_bridge w) = (Send pending r, b)"
  shows "known_ok ports me (w\<lparr>wl_bridge := b, wl_flight := Some pending, wl_requests := r # wl_requests w\<rparr>)"
  using b
proof (rule begin_session_Send)
  fix stored i
  assume "br_vault (wl_bridge w) = Some stored" "pending = stored\<lparr>bc_state := RefreshPending (Some i)\<rparr>"
      "br_vault b = Some pending" "rr_token r = bc_refresh_token stored"
  then show ?thesis using ok by (simp add: known_ok_def requested_def request_digest_def)
qed

lemma known_delivery:
  assumes ok: "known_ok ports me w" and r: "r \<in> set (wl_requests w)"
    and d: "refresh_device_session ports draws (rr_token r) (rr_proof r) (Some (rr_attempt r)) seen (wl_store w) = (a, t)"
  shows "known_ok ports me (w\<lparr>wl_store := t, wl_answers := (r, a) # wl_answers w\<rparr>)" (is "known_ok ports me ?w")
proof -
  have tabs: "tables_ok (wl_store w)" and s: "store_ok (wl_store w)" using ok by (simp_all add: known_ok_def tables_ok_def)
  note moved = delivery_tables [OF tabs d]
  have "owned (wl_store w) me (po_digest ports (rr_token r))"
    using ok r by (auto simp: known_ok_def requested_def request_digest_def)
  then have "owned t me (po_digest ports (dc_refresh_token c))" if "a = Inr c" for c
    using delivered_token_owned [OF s moved(4) d [unfolded that]] by blast
  moreover have "requested ports ?w = requested ports w" by (simp add: requested_def)
  moreover have "owned t me digest" if "digest \<in> requested ports w" for digest
    using ok that moved(4) by (simp add: known_ok_def)
  moreover have "owned t me (po_digest ports (bc_refresh_token c))" if "br_vault (wl_bridge w) = Some c" for c
    using ok that moved(4) by (simp add: known_ok_def)
  moreover have "owned t me (po_digest ports (dc_refresh_token c))" if "(q, Inr c) \<in> set (wl_answers w)" for q c
    using ok that moved(4) unfolding known_ok_def by blast
  ultimately show ?thesis using moved(1) unfolding known_ok_def by auto
qed

lemma known_step:
  assumes "world_step ports me w w'" and ok: "known_ok ports me w"
  shows "known_ok ports me w'"
  using assms(1)
proof cases
  case (send draws observed pending r b)
  then show ?thesis using known_send [OF ok] by blast
next
  case (no_request draws observed out b)
  then show ?thesis using known_bridge_ok(1) [OF ok] begin_session_Finished by blast
next
  case (deliver r draws seen a t)
  then show ?thesis using known_delivery [OF ok] by blast
next
  case (answer pending a fault out b)
  have "owned (wl_store w) me (po_digest ports (dc_refresh_token c))" if "decode_answer a = Inr c" for c
    using ok answer(3) that by (cases a) (auto simp: known_ok_def decode_answer_def)
  then have "br_vault b = br_vault (wl_bridge w) \<or> br_vault b = None \<or>
      (\<exists>c. br_vault b = Some c \<and> owned (wl_store w) me (po_digest ports (bc_refresh_token c)))"
    using finish_refresh_vault [OF answer(4)] by fastforce
  then show ?thesis using known_bridge_ok(2) [OF ok] answer(1) by blast
next
  case (no_answer pending fault is_connect out b)
  then show ?thesis using known_bridge_ok(2) [OF ok] finish_refresh_vault [OF no_answer(3)] by blast
next
  case (dropped pending)
  then show ?thesis using known_bridge_ok(2) [OF ok, of "drop_refresh (wl_bridge w)"]
    by (simp add: drop_refresh_def record_outcome_def)
next
  case restarted
  then show ?thesis using known_bridge_ok(2) [OF ok, of "restart_bridge (wl_bridge w)"]
    by (simp add: restart_bridge_def)
next
  case (forgotten fault out b)
  then have "br_vault b = br_vault (wl_bridge w) \<or> br_vault b = None"
    by (auto simp: forget_device_session_def clear_credentials_def split: option.splits)
  then show ?thesis using known_bridge_ok(1) [OF ok] forgotten(1) by blast
next
  case (others c fault)
  let ?t = "snd (store_step (fault, c) (wl_store w))"
  have tabs: "tables_ok (wl_store w)" and s: "store_ok (wl_store w)" using ok by (simp_all add: known_ok_def tables_ok_def)
  have "tables_ok ?t" using tables_ok_replay [OF tabs, of "[(fault, c)]"] by simp
  moreover have "owned ?t me digest" if "owned (wl_store w) me digest" for digest
    using token_moves_keep(1) [OF store_step_moves [OF s] s that] .
  ultimately show ?thesis using ok others(1) by (simp add: known_ok_def requested_def)
qed

text \<open>A run keeps the invariant until the device is found with a reused token, and then it is dead.\<close>

lemma world_step_ok:
  assumes "world_step ports me w w'" and known: "known_ok ports me w" and ok: "world_ok ports me w"
  shows "dead_device (wl_store w') me \<or> world_ok ports me w'"
  using assms(1)
proof cases
  case (send draws observed pending r b)
  then show ?thesis using send_ok [OF ok] by blast
next
  case (no_request draws observed out b)
  then show ?thesis using world_bridge_ok(1) [OF ok] begin_session_Finished by blast
next
  case (deliver r draws seen a t)
  have tabs: "tables_ok (wl_store w)" using known by (simp add: known_ok_def)
  show ?thesis
  proof (cases "rr_token r = rr_token (hd (wl_requests w))")
    case True
    then show ?thesis using deliver_ok(1) [OF ok tabs deliver(2) True deliver(3)] deliver(1) by simp
  next
    case False
    obtain h rs where h: "wl_requests w = h # rs" using deliver(2) by (cases "wl_requests w") auto
    then have "r \<in> set rs" using deliver(2) False by auto
    then have sp: "spent (wl_store w) (po_digest ports (rr_token r))"
      using ok h False by (auto simp: world_ok_def head_ok_def request_digest_def)
    have own: "owned (wl_store w) me (po_digest ports (rr_token r))"
      using known deliver(2) by (auto simp: known_ok_def requested_def request_digest_def)
    show ?thesis
    proof (cases "dead_device t me")
      case False
      then have "t = wl_store w" and "a \<noteq> Inl DRefreshTokenReuse" using spent_delivery [OF tabs own sp deliver(3)] by simp_all
      then have "w' = w\<lparr>wl_answers := (r, a) # wl_answers w\<rparr>" using deliver(1) by simp
      then have "world_ok ports me w'"
        using ok h \<open>rr_token r \<noteq> rr_token (hd (wl_requests w))\<close> deliver(2) \<open>a \<noteq> Inl DRefreshTokenReuse\<close>
        by (simp add: late_answer_ok)
      then show ?thesis ..
    qed (simp add: deliver(1))
  qed
next
  case (answer pending a fault out b)
  then show ?thesis using answer_ok [OF ok] by blast
next
  case (no_answer pending fault is_connect out b)
  then show ?thesis using world_bridge_ok(2) [OF ok] finish_refresh_vault [OF no_answer(3)] by blast
next
  case (dropped pending)
  then show ?thesis using world_bridge_ok(2) [OF ok, of "drop_refresh (wl_bridge w)"]
    by (simp add: drop_refresh_def record_outcome_def)
next
  case restarted
  then show ?thesis using world_bridge_ok(2) [OF ok, of "restart_bridge (wl_bridge w)"]
    by (simp add: restart_bridge_def)
next
  case (forgotten fault out b)
  then have "br_vault b = br_vault (wl_bridge w) \<or> br_vault b = None"
    by (auto simp: forget_device_session_def clear_credentials_def split: option.splits)
  then show ?thesis using world_bridge_ok(1) [OF ok] forgotten(1) by blast
next
  case (others c fault)
  then show ?thesis using others_ok [OF ok] known by (simp add: known_ok_def)
qed

lemma dead_step:
  assumes "world_step ports me w w'" and known: "known_ok ports me w" and dead: "dead_device (wl_store w) me"
  shows "dead_device (wl_store w') me"
  using assms(1)
proof cases
  case (deliver r draws seen a t)
  then show ?thesis using delivery_tables(3) [OF _ deliver(3) dead] known by (simp add: known_ok_def)
next
  case (others c fault)
  then show ?thesis using replay_dead [OF dead, of "[(fault, c)]"] by simp
qed (use dead in simp_all)

lemma reachable_ok:
  assumes "reachable ports me w0 w" and "fresh_world ports me w0"
  shows "known_ok ports me w" and "dead_device (wl_store w) me \<or> world_ok ports me w"
proof -
  have "known_ok ports me w \<and> (dead_device (wl_store w) me \<or> world_ok ports me w)"
    using assms(1)
  proof (induction rule: rtranclp_induct)
    case base
    have "known_ok ports me w0" using assms(2) by (auto simp: fresh_world_def known_ok_def requested_def)
    then show ?case using fresh_world_ok [OF assms(2)] by simp
  next
    case (step w w')
    then show ?case using known_step world_step_ok dead_step by blast
  qed
  then show "known_ok ports me w" and "dead_device (wl_store w) me \<or> world_ok ports me w" by simp_all
qed

section \<open>An exchange that is not disturbed\<close>

lemma open_context_not_rejected:
  assumes "lock_refresh_context digest s = Inr (Some l, s)" and "\<not> rotation_refused l (tr_issued_at rep)"
    and "rotate_refresh_transaction digest rep s = Inr (out, t)"
  shows "out \<noteq> Rejected"
proof
  assume "out = Rejected"
  then have "(if lk_consumed l then
           exec (case tr_replay rep of
                   None \<Rightarrow> done_with None
                 | Some q \<Rightarrow> replay_refresh_attempt l q (tr_issued_at rep)) (\<lambda>replayed.
           case replayed of
             Some outcome \<Rightarrow> done_with outcome
           | None \<Rightarrow>
               exec (compromise_device (lk_device l) (fm_id (lk_family l)) (tr_issued_at rep)) (\<lambda>_.
               done_with (ReuseDetected (dv_id (lk_device l)) (pp_id (pa_principal (lk_account l))))))
         else
           exec (persist_refresh_replacement l rep) (\<lambda>session.
           exec (record_refresh_attempt l rep) (\<lambda>_.
           done_with (Rotated session (fm_expires_at (ss_family session)))))) s = Inr (Rejected, t)"
    using assms by (simp add: rotate_refresh_transaction_def exec_def split: if_splits)
  then show False
    by (auto simp: exec_Inr done_with_Inr replay_refresh_attempt_def query_Inr Let_def
        split: if_splits option.splits)
qed

text \<open>The answer of a successful refresh names the device of the token and a live access token of it.\<close>

lemma refresh_answer:
  assumes ok: "store_ok s" and own: "owned s me (po_digest ports token)"
    and ref: "refresh_device_session ports draws token pf (Some i) seen s = (Inr c, t)"
  shows "ad_device_id (dc_device c) = me"
    and "\<exists>x\<in>set (st_access t). at_digest x = po_digest ports (dc_access_token c) \<and> at_device_id x = me \<and>
       at_revoked_at x = None \<and> at_expires_at x = ad_access_expires_at (dc_device c)"
proof -
  let ?D = "po_digest ports token"
  obtain rep tokens outcome where prep: "prepare_refresh ports draws token pf (Some i) seen = Inr (rep, tokens)"
    and rot: "rotate_refresh_transaction ?D rep s = Inr (outcome, t)"
    and ans: "answer_refresh ports token (Some i) tokens outcome = Inr c"
    using ref by (rule refresh_device_session_Inr)
  obtain p where p: "tr_replay rep = Some p" "rp_attempt_id p = i" "po_derive ports token p = Some tokens"
    and dig: "tr_access_digest rep = po_digest ports (fst tokens)" "tr_refresh_digest rep = po_digest ports (snd tokens)"
    using prep by (rule prepared_attempt)
  note dev = owned_context [OF ok own]
  have "ad_device_id (dc_device c) = me \<and> (\<exists>x\<in>set (st_access t). at_digest x = po_digest ports (dc_access_token c) \<and>
      at_device_id x = me \<and> at_revoked_at x = None \<and> at_expires_at x = ad_access_expires_at (dc_device c))"
    using rot
  proof (cases rule: rotate_cases)
    case (rotated l r session s1)
    have tabs: "rotated_tables s l r rep (ss_family session) t"
      and e: "ss_access_expires_at session = tr_access_expires_at rep" "dv_id (ss_device session) = dv_id (lk_device l)"
      using rotation_tables [OF ok rotated(1,3) _ rotated(4,5)] rotation_open [OF rotated(2)] by blast+
    have c: "c = credentials session (fst tokens) (snd tokens) (fm_expires_at (ss_family session))"
      using ans rotated(6) by (simp add: answer_refresh_def)
    have "new_access_row l rep \<in> set (st_access t)" using tabs by (simp add: rotated_tables_def)
    then show ?thesis
      using e dev [OF rotated(1)] dig
      by (intro conjI bexI [of _ "new_access_row l rep"])
        (simp_all add: c credentials_def authenticated_device_of_def new_access_row_def)
  next
    case (replayed l r p')
    obtain a x salt and n :: refresh_row where
      a: "List.find (\<lambda>r. at_id r = ra_access_id a) (st_access s) = Some x"
        "List.find (\<lambda>a. ra_refresh_id a = lk_refresh_id l) (st_attempts s) = Some a" "at_revoked_at x = None"
      and out: "outcome = Replayed \<lparr>ss_account = lk_account l, ss_device = lk_device l, ss_family = lk_family l,
              ss_access_expires_at = at_expires_at x\<rparr> (fm_expires_at (lk_family l)) salt (at_digest x) (rt_digest n)"
      by (rule replay_refresh_attempt_Some [OF replayed(6)]) (use that in blast)
    note row = context_of_row [OF replayed(1)]
    have x: "x \<in> set (st_access s)" "at_id x = ra_access_id a" and b: "a \<in> set (st_attempts s)" "ra_refresh_id a = rt_id r"
      using find_member [OF a(1)] find_member [OF a(2)] replayed(1) by (simp_all add: context_of_def)
    have "attempt_in_tables s a" using ok b(1) by (simp add: store_ok_def attempts_ok_def)
    then obtain r' x' where m: "r' \<in> set (st_refresh s)" "x' \<in> set (st_access s)" "rt_id r' = ra_refresh_id a"
        "at_id x' = ra_access_id a" "at_family_id x' = rt_family_id r'"
      unfolding attempt_in_tables_def by (elim bexE conjE) (rule that)
    have keys: "distinct (map rt_id (st_refresh s))" "distinct (map at_id (st_access s))" "distinct (map fm_id (st_families s))"
      using ok by (simp_all add: store_ok_def keys_ok_def)
    have "r' = r" "x' = x" using key_inject [OF keys(1) m(1) row(1)] key_inject [OF keys(2) m(2) x(1)] m(3,4) b(2) x(2) by simp_all
    then have fam: "at_family_id x = rt_family_id r" using m(5) by simp
    have "access_in_family s x" using ok x(1) by (simp add: store_ok_def access_ok_def)
    then obtain f where "f \<in> set (st_families s)" "fm_id f = at_family_id x" "fm_device_id f = at_device_id x"
      by (rule access_in_familyE)
    moreover from this have "f = lk_family l" using key_inject [OF keys(3) _ row(3)] fam row(4) by simp
    ultimately have "at_device_id x = me" using dev [OF replayed(1)] by simp
    moreover obtain ac rf where "po_digest ports ac = at_digest x"
        "c = credentials \<lparr>ss_account = lk_account l, ss_device = lk_device l, ss_family = lk_family l,
              ss_access_expires_at = at_expires_at x\<rparr> ac rf (fm_expires_at (lk_family l))"
      using ans unfolding out by (auto simp: answer_refresh_def replayed_refresh_tokens_def result_simps split: if_splits)
    ultimately show ?thesis
      using x(1) a(3) dev [OF replayed(1)] replayed(5) by (auto simp: credentials_def authenticated_device_of_def)
  qed (use ans in \<open>simp_all add: answer_refresh_def\<close>)
  then show "ad_device_id (dc_device c) = me"
    and "\<exists>x\<in>set (st_access t). at_digest x = po_digest ports (dc_access_token c) \<and> at_device_id x = me \<and>
       at_revoked_at x = None \<and> at_expires_at x = ad_access_expires_at (dc_device c)" by blast+
qed

lemma prepared_alive:
  assumes ok: "tables_ok s" and own: "owned s me (po_digest ports token)"
    and prep: "prepare_refresh ports draws token pf (Some i) s = Inr (rep, tokens)"
  shows "\<not> dead_device s me"
proof
  assume dead: "dead_device s me"
  have s: "store_ok s" and k: "distinct (map row_id (st_devices s))" using ok by (simp_all add: tables_ok_def)
  obtain account device family where
    ctx: "find_refresh_context (po_digest ports token) s = Inr (Some (account, device, family), s)"
    and act: "accepts_authenticated_requests device"
    by (rule prepare_refresh_Inr [OF prep]) (rule that, assumption+)
  obtain l y where c: "context_of s (po_digest ports token) l y" and l: "lk_device l = device"
    using ctx by (rule refresh_context_locks)
  obtain e where e: "find_device s (fm_device_id (lk_family l)) = Some e" "lk_device l = dr_device e"
    using c by (auto simp: context_of_def)
  have "dead_row e" using dead_lookup [OF dead k] e(1) owned_context(2) [OF s own c] by simp
  then show False using act e(2) l by (simp add: dead_row_def accepts_authenticated_requests_def)
qed

text \<open>A settled token is exchanged or its exchange repeated, when the service accepts the request and commits.\<close>

lemma settled_refresh_succeeds:
  assumes ok: "store_ok s"
    and st: "unspent s (po_digest ports token) \<or> (\<exists>x y. reissues ports s token i x y)"
    and prep: "prepare_refresh ports draws token pf (Some i) s = Inr (rep, tokens)"
    and rot: "rotate_refresh_transaction (po_digest ports token) rep s = Inr (out, t)"
    and nf: "dw_write_fault draws = NoFault"
    and e: "\<forall>x\<in>set (st_refresh s). rt_digest x = po_digest ports token \<longrightarrow> dw_now draws < rt_expires_at x"
  shows "\<exists>c. refresh_device_session ports draws token pf (Some i) s s = (Inr c, t)"
proof -
  let ?D = "po_digest ports token"
  show ?thesis
    using st
  proof
    assume "\<exists>x y. reissues ports s token i x y"
    then obtain a b salt n x where o: "open_attempt s ?D i salt n x"
      and tok: "po_derive ports token \<lparr>rp_attempt_id = i, rp_salt = salt\<rparr> = Some (a, b)"
        "at_digest x = po_digest ports a" "rt_digest n = po_digest ports b"
      by (auto simp: reissues_def repeatable_def)
    obtain c where c: "refresh_device_session ports draws token pf (Some i) s s = (Inr c, s)"
      using refresh_open_attempt [OF ok o tok prep nf e] by blast
    moreover have "t = s" using c prep rot nf by (auto simp: refresh_device_session_def result_simps transact_Inr)
    ultimately show ?thesis by blast
  next
    assume un: "unspent s ?D"
    obtain account device family where
      ctx: "find_refresh_context ?D s = Inr (Some (account, device, family), s)"
      and act: "allows_authentication (pa_principal account)" "accepts_authenticated_requests device"
        "allows_rotation family (dw_now draws)"
      and at: "tr_issued_at rep = dw_now draws"
      by (rule prepare_refresh_Inr [OF prep]) (rule that, assumption+)
    obtain l y where lock: "lock_refresh_context ?D s = Inr (Some l, s)" and c: "context_of s ?D l y"
      and l: "lk_account l = account" "lk_device l = device" "lk_family l = family"
      using ctx by (rule refresh_context_locks)
    have "dw_now draws < rt_expires_at y" using e context_of_row(1,2) [OF c] by blast
    then have open_: "\<not> rotation_refused l (tr_issued_at rep)"
      using active_context_open [OF ok c] act l at by simp
    have fresh_row: "rt_consumed_at r = None" if "context_of s ?D l' r" for l' r
      using un row_unique [OF ok _ context_of_row(1) [OF that]] context_of_row(2) [OF that]
      by (auto simp: unspent_def)
    have "\<exists>session expiry. out = Rotated session expiry"
      using rot
    proof (cases rule: rotate_cases)
      case rejected
      then show ?thesis using open_context_not_rejected [OF lock open_ rot] by simp
    qed (use fresh_row in auto)
    then show ?thesis
      using rot nf prep
      by (auto simp: refresh_device_session_def then_do_def transact_def run_transaction_def repository_failed_def
          answer_refresh_def)
  qed
qed

section \<open>A request held back for too long\<close>

text \<open>What an exchange leaves of the token: its row is consumed and names the row of its successor.\<close>

lemma rotation_links:
  assumes ok: "store_ok s" and rot: "rotate_refresh_transaction digest rep s = Inr (Rotated session expiry, t)"
  obtains l r x where "context_of s digest l r" and "x = consumed_row rep r"
    and "set (st_refresh t) = (\<lambda>y. if y = r then x else y) ` set (st_refresh s) \<union> {new_refresh_row l rep expiry}"
    and "store_ok t"
  using rot
proof (cases rule: rotate_cases)
  case (rotated l r session' s1)
  have "rotated_tables s l r rep (ss_family session') t"
    using rotation_tables [OF ok rotated(1,3) _ rotated(4,5)] rotation_open [OF rotated(2)] by blast
  then have "st_refresh t = map (\<lambda>y. if y = r then consumed_row rep r else y) (st_refresh s) @ [new_refresh_row l rep expiry]"
    using rotated(6) by (simp add: rotated_tables_def)
  then show thesis
    using that [OF rotated(1) refl] rotate_refresh_transaction_ok [OF ok rot] by (auto simp: image_Un)
qed (auto simp: replay_refresh_attempt_def query_Inr Let_def split: option.splits if_splits)

text \<open>A repetition that is answered finds its attempt open.\<close>

lemma replay_attempt_open:
  assumes ok: "store_ok s" and c: "context_of s digest l r" and u: "rt_consumed_at r \<noteq> None"
    and re: "replay_refresh_attempt l p now s = Inr (Some out, t)"
  obtains salt and n :: refresh_row and x where "open_attempt s digest (rp_attempt_id p) salt n x"
proof -
  obtain a x salt and n :: refresh_row where
    f: "List.find (\<lambda>a. ra_refresh_id a = lk_refresh_id l) (st_attempts s) = Some a"
      "List.find (\<lambda>r. rt_id r = ra_successor_id a) (st_refresh s) = Some n"
      "List.find (\<lambda>r. at_id r = ra_access_id a) (st_access s) = Some x"
      "ra_salt a = Some salt" "ra_attempt_id a = rp_attempt_id p"
    by (rule replay_refresh_attempt_Some [OF re]) (use that in blast)
  note row = context_of_row [OF c]
  have "lk_refresh_id l = rt_id r" using c by (simp add: context_of_def)
  then have "open_attempt s digest (rp_attempt_id p) salt n x"
    using find_member [OF f(1)] find_member [OF f(2)] find_member [OF f(3)] f(4,5) row(1,2) u
    unfolding open_attempt_def by (auto intro!: bexI [of _ r] bexI [of _ a])
  then show thesis by (rule that)
qed

lemma superseded_rows:
  assumes ok: "store_ok s" and first: "rotate_refresh_transaction digest rep s = Inr (Rotated session expiry, t)"
    and next_: "rotate_refresh_transaction (tr_refresh_digest rep) rep' t = Inr (Rotated session' expiry', u)"
  obtains r n where "r \<in> set (st_refresh u)" and "n \<in> set (st_refresh u)" and "rt_digest r = digest"
    and "rt_consumed_at r \<noteq> None" and "rt_replaced_by r = Some (rt_id n)" and "rt_consumed_at n \<noteq> None"
    and "store_ok u"
proof -
  obtain l r x where c: "context_of s digest l r" and x: "x = consumed_row rep r"
    and t: "set (st_refresh t) = (\<lambda>y. if y = r then x else y) ` set (st_refresh s) \<union> {new_refresh_row l rep expiry}"
    and okt: "store_ok t"
    using ok first by (rule rotation_links)
  obtain l' r' x' where c': "context_of t (tr_refresh_digest rep) l' r'" and x': "x' = consumed_row rep' r'"
    and u: "set (st_refresh u) = (\<lambda>y. if y = r' then x' else y) ` set (st_refresh t) \<union> {new_refresh_row l' rep' expiry'}"
    and oku: "store_ok u"
    using okt next_ by (rule rotation_links)
  note row = context_of_row [OF c] and row' = context_of_row [OF c']
  have xt: "x \<in> set (st_refresh t)" using row(1) t by force
  have new: "new_refresh_row l rep expiry \<in> set (st_refresh t)" using t by simp
  have r': "r' = new_refresh_row l rep expiry"
    by (rule row_unique [OF okt row'(1) new]) (use row'(2) in \<open>simp add: new_refresh_row_def\<close>)
  have "rt_consumed_at x \<noteq> None" "rt_consumed_at r' = None"
    by (simp_all add: x r' consumed_row_def new_refresh_row_def)
  then have "x \<noteq> r'" by blast
  then have "x \<in> set (st_refresh u)" "x' \<in> set (st_refresh u)" using u xt new r' by force+
  moreover have "rt_digest x = digest" "rt_consumed_at x \<noteq> None" "rt_replaced_by x = Some (rt_id x')" "rt_consumed_at x' \<noteq> None"
    using x x' r' row(2) by (simp_all add: consumed_row_def new_refresh_row_def)
  ultimately show thesis using that oku by blast
qed

section \<open>Properties\<close>

text \<open>
  C7: Only a late duplicate is ever judged a reuse of the token: in every run of the protocol, with requests
  and answers lost, requests delivered at any later time and any number of times (late duplicates included),
  transactions failing before or after their commit, calls dropped, the bridge restarting at any point and
  other devices and the owner at work, a request that is delivered while its token is the latest that the
  bridge sent is not answered as a reuse. The tokens are not stolen: the other commands on the tables do not
  exchange a token of this device. What is delivered after a request with a later token is the case of C39.
\<close>

theorem newest_token_never_judged_reuse:
  assumes "fresh_world ports me w0" and "reachable ports me w0 w"
    and "r \<in> set (wl_requests w)" and "rr_token r = rr_token (hd (wl_requests w))"
    and "refresh_device_session ports draws (rr_token r) (rr_proof r) (Some (rr_attempt r)) seen (wl_store w) = (a, t)"
  shows "a \<noteq> Inl DRefreshTokenReuse"
proof -
  note ok = reachable_ok [OF assms(2,1)]
  have tabs: "tables_ok (wl_store w)" and own: "owned (wl_store w) me (po_digest ports (rr_token r))"
    using ok(1) assms(3) by (auto simp: known_ok_def requested_def request_digest_def)
  from ok(2) show ?thesis
  proof
    assume "dead_device (wl_store w) me"
    then show ?thesis using dead_delivery [OF tabs own _ assms(5)] by simp
  next
    assume "world_ok ports me w"
    then show ?thesis using deliver_ok(2) [OF _ tabs assms(3-5)] by simp
  qed
qed

text \<open>
  C11: An interrupted refresh settles: whatever happened before, when the bridge sends its pending or due
  refresh and this one exchange is not disturbed (the service accepts the proof and the session, its
  transaction commits, the token has not expired), the bridge ends with credentials of its own device in its
  vault, ready: a refresh token that is unspent, belongs to the device and was never sent, and an access token
  that the service has not revoked and that ends when the vault says. When the exchange had been committed
  before and is only repeated, these are the tokens of then, and the access token may have ended meanwhile:
  the vault shows it, and the refresh token obtains the next one.
\<close>

theorem interrupted_refresh_settles:
  assumes "fresh_world ports me w0" and "reachable ports me w0 w" and "wl_flight w = None"
    and "begin_session ports session_draws observed (wl_bridge w) = (Send pending r, b)"
    and "prepare_refresh ports draws (rr_token r) (rr_proof r) (Some (rr_attempt r)) (wl_store w) = Inr (rep, tokens)"
    and "rotate_refresh_transaction (po_digest ports (rr_token r)) rep (wl_store w) = Inr (out, t)"
    and "dw_write_fault draws = NoFault"
    and "\<forall>x\<in>set (st_refresh (wl_store w)).
      rt_digest x = po_digest ports (rr_token r) \<longrightarrow> dw_now draws < rt_expires_at x"
  shows "\<exists>w' v. reachable ports me w w' \<and> wl_store w' = t \<and> wl_flight w' = None \<and>
    br_vault (wl_bridge w') = Some v \<and> bc_state v = Ready \<and> bc_device_id v = me \<and>
    owned t me (po_digest ports (bc_refresh_token v)) \<and> unspent t (po_digest ports (bc_refresh_token v)) \<and>
    (\<forall>x\<in>set (wl_requests w'). rr_token x \<noteq> bc_refresh_token v) \<and>
    (\<exists>x\<in>set (st_access t). at_digest x = po_digest ports (bc_access_token v) \<and> at_device_id x = me \<and>
       at_revoked_at x = None \<and> at_expires_at x = bc_access_expires_at v)"
proof -
  let ?w1 = "w\<lparr>wl_bridge := b, wl_flight := Some pending, wl_requests := r # wl_requests w\<rparr>"
  note known = reachable_ok(1) [OF assms(2,1)]
  have own: "owned (wl_store w) me (po_digest ports (rr_token r))"
    using known_send [OF known assms(4)] by (simp add: known_ok_def requested_def request_digest_def)
  have tabs: "tables_ok (wl_store w)" and ok: "store_ok (wl_store w)"
    using known by (simp_all add: known_ok_def tables_ok_def)
  have "\<not> dead_device (wl_store w) me" by (rule prepared_alive [OF tabs own assms(5)])
  then have "world_ok ports me w" using reachable_ok(2) [OF assms(2,1)] by blast
  then have w1: "world_ok ports me ?w1" using assms(4) by (rule send_ok)
  have dev: "bc_device_id pending = me"
    and st: "unspent (wl_store w) (po_digest ports (rr_token r)) \<or>
      (\<exists>x y. reissues ports (wl_store w) (rr_token r) (rr_attempt r) x y)"
    using w1 by (auto simp: world_ok_def head_ok_def request_digest_def)
  obtain c where c: "refresh_device_session ports draws (rr_token r) (rr_proof r) (Some (rr_attempt r))
      (wl_store w) (wl_store w) = (Inr c, t)"
    using settled_refresh_succeeds [OF ok st assms(5-8)] by blast
  note ans = refresh_answer [OF ok own c]
  let ?w2 = "?w1\<lparr>wl_store := t, wl_answers := (r, Inr c) # wl_answers ?w1\<rparr>"
  let ?v = "\<lparr>bc_state = Ready, bc_device_id = me, bc_access_token = dc_access_token c,
    bc_access_expires_at = ad_access_expires_at (dc_device c), bc_refresh_token = dc_refresh_token c,
    bc_refresh_expires_at = dc_refresh_expires_at c\<rparr>"
  obtain out' b' where f: "finish_refresh None pending (decode_answer (Inr c)) b = (out', b')"
    and v: "br_vault b' = Some ?v"
    using ans(1) dev
    by (simp add: finish_refresh_def resolve_refresh_def decode_answer_def vault_replace_def record_outcome_def Let_def)
  let ?w3 = "?w2\<lparr>wl_bridge := b', wl_flight := None\<rparr>"
  have s1: "world_step ports me w ?w1" by (rule world_step.send [OF assms(3,4)])
  have s2: "world_step ports me ?w1 ?w2"
    by (rule world_step.deliver [where seen = "wl_store w"]) (use c in simp_all)
  have s3: "world_step ports me ?w2 ?w3"
    by (rule world_step.answer [where pending = pending and a = "Inr c" and fault = None]) (use f in simp_all)
  have reach: "reachable ports me w ?w3" by (rule three_steps [OF s1 s2 s3])
  have "world_ok ports me ?w2" by (rule deliver_ok(1) [OF w1, where seen = "wl_store w"]) (use c tabs in simp_all)
  then have "world_ok ports me ?w3" by (rule answer_ok) (use f in simp_all)
  then have "credentials_ok ports me ?w3 ?v" using v by (simp add: world_ok_def)
  then have new: "owned t me (po_digest ports (dc_refresh_token c))" "unspent t (po_digest ports (dc_refresh_token c))"
      "po_digest ports (dc_refresh_token c) \<notin> requested ports ?w3"
    by (simp_all add: credentials_ok_def Let_def)
  have unsent: "\<forall>x\<in>set (wl_requests ?w3). rr_token x \<noteq> dc_refresh_token c"
    using new(3) unfolding requested_def request_digest_def by force
  show ?thesis
  proof (intro exI conjI)
    show "reachable ports me w ?w3" by (rule reach)
    show "br_vault (wl_bridge ?w3) = Some ?v" using v by simp
  qed (use ans(2) new(1,2) unsent in simp_all)
qed


text \<open>
  C39: The same-attempt protection of a refresh ends with the next refresh: once the token handed out was
  exchanged itself, a request with the earlier token, in whatever attempt, is rejected or judged a reuse,
  which revokes the device. A network that holds a duplicate of a request back for that long makes an honest
  device lose its session.
\<close>

theorem superseded_refresh_is_reuse:
  assumes "tables_ok s" and "rotate_refresh_transaction digest rep s = Inr (Rotated session expiry, t)"
    and "rotate_refresh_transaction (tr_refresh_digest rep) rep' t = Inr (Rotated session' expiry', u)"
    and "rotate_refresh_transaction digest rep'' u = Inr (out, v)"
  shows "out = Rejected \<or> (\<exists>d p. out = ReuseDetected d p)"
proof -
  have "store_ok s" using assms(1) by (simp add: tables_ok_def)
  then obtain r n where r: "r \<in> set (st_refresh u)" "n \<in> set (st_refresh u)" "rt_digest r = digest"
      "rt_consumed_at r \<noteq> None" "rt_replaced_by r = Some (rt_id n)" "rt_consumed_at n \<noteq> None" and ok: "store_ok u"
    using assms(2,3) by (rule superseded_rows)
  have row: "x = r" if "context_of u digest l x" for l x
    by (rule row_unique [OF ok context_of_row(1) [OF that] r(1)]) (use context_of_row(2) [OF that] r(3) in simp)
  from assms(4) show ?thesis
  proof (cases rule: rotate_cases)
    case (replayed l x p)
    obtain salt z and m :: refresh_row where o: "open_attempt u digest (rp_attempt_id p) salt m z"
      by (rule replay_attempt_open [OF ok replayed(1,3,6)]) (rule that)
    obtain r' where "r' \<in> set (st_refresh u)" "rt_digest r' = digest" "rt_consumed_at m = None" "rt_replaced_by r' = Some (rt_id m)"
      using ok o by (rule open_attempt_facts)
    moreover have "m \<in> set (st_refresh u)" using o by (simp add: open_attempt_def)
    moreover have "distinct (map rt_id (st_refresh u))" using ok by (simp add: store_ok_def keys_ok_def)
    ultimately show ?thesis using row_unique [OF ok _ r(1), of r'] r key_inject [of rt_id "st_refresh u" m n] by auto
  next
    case (rotated l x session'' s1)
    then show ?thesis using row [OF rotated(1)] rotated(3) r(4) by simp
  qed blast+
qed

definition sample_session_draws :: "int \<Rightarrow> session_draws" where
  "sample_session_draws now =
     \<lparr>sd_now = UtcMillis now, sd_lead_time = DurationMillis 1100, sd_attempt = 11,
      sd_nonce = Some (replicate 16 97), sd_key = Inr (\<lambda>_. Inr [7]), sd_load_fault = None, sd_write_fault = None\<rparr>"

definition sample_world :: world where
  "sample_world =
     \<lparr>wl_store = sample_store,
      wl_bridge = \<lparr>br_vault = Some \<lparr>bc_state = Ready, bc_device_id = 2, bc_access_token = [4],
          bc_access_expires_at = UtcMillis 3000, bc_refresh_token = [5], bc_refresh_expires_at = UtcMillis 90000\<rparr>,
        br_completed = 0, br_last_failure = None\<rparr>,
      wl_flight = None, wl_requests = [], wl_answers = []\<rparr>"

lemma sample_world_fresh: "fresh_world sample_ports 2 sample_world"
  using sample_store_ok
  by (simp add: fresh_world_def sample_world_def owned_def unspent_def family_of_device_def sample_store_eq
      sample_service sample_defs)

lemma sample_payload:
  "proof_payload_new d now (replicate 16 97) (lit ''POST'') (lit ''/auth/devices/refresh'') digest =
     Inr \<lparr>pf_device_id = d, pf_issued_at = now, pf_nonce = replicate 16 97, pf_method = lit ''POST'',
          pf_target = lit ''/auth/devices/refresh'', pf_body_digest = digest\<rparr>"
proof -
  have "lit ''POST'' \<noteq> [] \<and> \<not> byte_len (lit ''POST'') > 16 \<and> list_all is_ascii_upper (lit ''POST'')" by code_simp
  moreover have "(let t = lit ''/auth/devices/refresh'' in t \<noteq> [] \<and> \<not> byte_len t > 2048 \<and> starts_with (lit ''/'') t \<and>
      \<not> starts_with (lit ''//'') t \<and> 92 \<notin> set t \<and> 35 \<notin> set t \<and> \<not> list_ex is_control t)" by code_simp
  moreover have "byte_len (replicate 16 97) = 16" by code_simp
  ultimately show ?thesis by (simp add: proof_payload_new_def Let_def)
qed

lemma sample_begin:
  "\<exists>pending r b. begin_session sample_ports (sample_session_draws 1950) 0 (wl_bridge sample_world) = (Send pending r, b) \<and>
     rr_token r = [5] \<and> rr_attempt r = 11 \<and>
     (\<exists>rep tokens out t. prepare_refresh sample_ports (sample_draws 2000) (rr_token r) (rr_proof r) (Some (rr_attempt r))
         sample_store = Inr (rep, tokens) \<and> rotate_refresh_transaction [5] rep sample_store = Inr (out, t))"
  by (simp add: begin_session_def sample_world_def vault_load_def choose_attempt_def refresh_proof_def signed_proof_def
      mark_pending_def vault_replace_def sample_session_draws_def sample_payload
      prepare_refresh_def find_refresh_context_def new_refresh_tokens_def
      sample_store_eq rotation_defs store_defs
      transaction_defs sample_defs sample_service service_defs int_width_defs)


theorem newest_token_never_judged_reuse_witness:
  "\<exists>w r a t. reachable sample_ports 2 sample_world w \<and> length (wl_answers w) = 1 \<and> wl_requests w = [r] \<and>
     refresh_device_session sample_ports (sample_draws 2050) (rr_token r) (rr_proof r) (Some (rr_attempt r))
       (wl_store w) (wl_store w) = (a, t) \<and> a \<noteq> Inl DRefreshTokenReuse"
proof -
  obtain pending r b where b: "begin_session sample_ports (sample_session_draws 1950) 0 (wl_bridge sample_world) =
      (Send pending r, b)"
    using sample_begin by blast
  have s1: "world_step sample_ports 2 sample_world
      (sample_world\<lparr>wl_bridge := b, wl_flight := Some pending, wl_requests := r # wl_requests sample_world\<rparr>)" (is "world_step _ _ _ ?w1")
    by (rule world_step.send [OF _ b]) (simp add: sample_world_def)
  obtain a t where a: "refresh_device_session sample_ports (sample_draws 2000) (rr_token r) (rr_proof r) (Some (rr_attempt r))
      (wl_store ?w1) (wl_store ?w1) = (a, t)" by (rule prod.exhaust)
  have s2: "world_step sample_ports 2 ?w1 (?w1\<lparr>wl_store := t, wl_answers := (r, a) # wl_answers ?w1\<rparr>)" (is "world_step _ _ _ ?w2")
    by (rule world_step.deliver [OF _ a]) simp
  have reach: "reachable sample_ports 2 sample_world ?w2"
    using s1 s2 by (blast intro: converse_rtranclp_into_rtranclp)
  obtain c u where c: "refresh_device_session sample_ports (sample_draws 2050) (rr_token r) (rr_proof r) (Some (rr_attempt r))
      (wl_store ?w2) (wl_store ?w2) = (c, u)" by (rule prod.exhaust)
  have "c \<noteq> Inl DRefreshTokenReuse"
    by (rule newest_token_never_judged_reuse [OF sample_world_fresh reach _ _ c]) simp_all
  moreover have "length (wl_answers ?w2) = 1 \<and> wl_requests ?w2 = [r]" by (simp add: sample_world_def)
  ultimately show ?thesis using reach c by blast
qed

theorem interrupted_refresh_settles_witness:
  "\<exists>w v. reachable sample_ports 2 sample_world w \<and> wl_flight w = None \<and> br_vault (wl_bridge w) = Some v \<and>
     bc_state v = Ready \<and> bc_device_id v = 2"
proof -
  obtain pending r b rep tokens out t where
    b: "begin_session sample_ports (sample_session_draws 1950) 0 (wl_bridge sample_world) = (Send pending r, b)"
      "rr_token r = [5]"
    and p: "prepare_refresh sample_ports (sample_draws 2000) (rr_token r) (rr_proof r) (Some (rr_attempt r))
         sample_store = Inr (rep, tokens)" "rotate_refresh_transaction [5] rep sample_store = Inr (out, t)"
    using sample_begin by blast
  have d: "po_digest sample_ports [5] = [5]" by (simp add: sample_ports_def)
  have p': "prepare_refresh sample_ports (sample_draws 2000) (rr_token r) (rr_proof r) (Some (rr_attempt r))
      (wl_store sample_world) = Inr (rep, tokens)"
    "rotate_refresh_transaction (po_digest sample_ports (rr_token r)) rep (wl_store sample_world) = Inr (out, t)"
    using p b(2) d by (simp_all add: sample_world_def)
  have "\<exists>w' v. reachable sample_ports 2 sample_world w' \<and> wl_store w' = t \<and> wl_flight w' = None \<and>
    br_vault (wl_bridge w') = Some v \<and> bc_state v = Ready \<and> bc_device_id v = 2 \<and>
    owned t 2 (po_digest sample_ports (bc_refresh_token v)) \<and> unspent t (po_digest sample_ports (bc_refresh_token v)) \<and>
    (\<forall>x\<in>set (wl_requests w'). rr_token x \<noteq> bc_refresh_token v) \<and>
    (\<exists>x\<in>set (st_access t). at_digest x = po_digest sample_ports (bc_access_token v) \<and> at_device_id x = 2 \<and>
       at_revoked_at x = None \<and> at_expires_at x = bc_access_expires_at v)"
    by (rule interrupted_refresh_settles [OF sample_world_fresh rtranclp.rtrancl_refl _ b(1) p'])
      (simp_all add: b(2) d, simp_all add: sample_world_def sample_draws_def sample_store_eq)
  then show ?thesis by blast
qed

lemma sample_supersession:
  "\<exists>rep session expiry t rep' session' expiry' u d p v.
     rep = sample_replacement 11 (UtcMillis 2000) \<and>
     rotate_refresh_transaction [5] rep sample_store = Inr (Rotated session expiry, t) \<and>
     rep' = rep\<lparr>tr_access_id := 8, tr_access_digest := [8], tr_refresh_id := 9, tr_refresh_digest := [9], tr_issued_at := UtcMillis 2100\<rparr> \<and>
     rotate_refresh_transaction [7] rep' t = Inr (Rotated session' expiry', u) \<and>
     rotate_refresh_transaction [5] (sample_replacement 11 (UtcMillis 2200)) u = Inr (ReuseDetected d p, v)"
  by (simp add: sample_store_eq rotation_defs store_defs
      transaction_defs sample_defs int_width_defs compromise_device_def revocation_defs)


theorem superseded_refresh_is_reuse_witness:
  "\<exists>rep session expiry t rep' session' expiry' u d p v.
     rotate_refresh_transaction [5] rep sample_store = Inr (Rotated session expiry, t) \<and>
     rotate_refresh_transaction (tr_refresh_digest rep) rep' t = Inr (Rotated session' expiry', u) \<and>
     rotate_refresh_transaction [5] (rep\<lparr>tr_issued_at := UtcMillis 2200\<rparr>) u = Inr (ReuseDetected d p, v)"
proof -
  obtain rep session expiry t rep' session' expiry' u d p v where
    r: "rep = sample_replacement 11 (UtcMillis 2000)"
      "rotate_refresh_transaction [5] rep sample_store = Inr (Rotated session expiry, t)"
      "rotate_refresh_transaction [7] rep' t = Inr (Rotated session' expiry', u)"
      "rotate_refresh_transaction [5] (sample_replacement 11 (UtcMillis 2200)) u = Inr (ReuseDetected d p, v)"
    using sample_supersession by blast
  moreover have "tr_refresh_digest rep = [7]" "sample_replacement 11 (UtcMillis 2200) = rep\<lparr>tr_issued_at := UtcMillis 2200\<rparr>"
    by (simp_all add: r(1) sample_replacement_def)
  moreover have "ReuseDetected d p = Rejected \<or> (\<exists>d' p'. ReuseDetected d p = ReuseDetected d' p')"
    by (rule superseded_refresh_is_reuse [OF sample_store_ok r(2) _ r(4)]) (use calculation(3,5) in simp)
  ultimately show ?thesis by metis
qed

end
