(* ===== verification/Matrix_Device_Retry.thy ===== *)
theory Matrix_Device_Retry
  imports Device_Authorization
begin

text \<open>
  The background task that deregisters the Matrix devices of revoked agent instances when the request
  that revoked them could not (\<^verbatim>\<open>crates/application/src/agent_matrix_device_retry.rs\<close>, with
  \<^verbatim>\<open>list_pending_matrix_devices\<close> of \<^verbatim>\<open>postgres-adapter/src/agent_instances.rs\<close>).

  Whether a device is still to be deregistered is read from the instances alone; the backoff is kept in
  memory and starts again with the process. A round reads at most 200 rows, tries at most 20 of those whose
  backoff ended, and stops when the failure is one of the whole server.
\<close>

section \<open>Failures of the chat server\<close>

datatype matrix_failure_kind =
  MxInvalidConfiguration | MxUnauthenticated | MxAuthenticationRejected | MxForbidden | MxNotFound | MxConflict
  | MxRateLimited | MxTimeout | MxDependencyUnavailable | MxCryptographicIdentityConflict | MxInvalidResponse
  | MxUnknownCommit | MxStaleSyncToken | MxUnsupportedVersion

definition homeserver_unavailable :: "matrix_failure_kind \<Rightarrow> bool" where
  "homeserver_unavailable k \<longleftrightarrow>
     k \<in> {MxDependencyUnavailable, MxTimeout, MxRateLimited, MxUnauthenticated, MxAuthenticationRejected}"

definition matrix_failure_code :: "matrix_failure_kind \<Rightarrow> string" where
  "matrix_failure_code k =
     (case k of
        MxInvalidConfiguration \<Rightarrow> ''matrix.invalid_configuration''
      | MxUnauthenticated \<Rightarrow> ''matrix.unauthenticated''
      | MxAuthenticationRejected \<Rightarrow> ''matrix.auth_rejected''
      | MxForbidden \<Rightarrow> ''matrix.forbidden''
      | MxNotFound \<Rightarrow> ''matrix.not_found''
      | MxConflict \<Rightarrow> ''matrix.conflict''
      | MxRateLimited \<Rightarrow> ''matrix.rate_limited''
      | MxTimeout \<Rightarrow> ''matrix.timeout''
      | MxDependencyUnavailable \<Rightarrow> ''matrix.unavailable''
      | MxCryptographicIdentityConflict \<Rightarrow> ''matrix.crypto_identity_conflict''
      | MxInvalidResponse \<Rightarrow> ''matrix.invalid_response''
      | MxUnknownCommit \<Rightarrow> ''matrix.unknown_commit''
      | MxStaleSyncToken \<Rightarrow> ''matrix.stale_sync_token''
      | MxUnsupportedVersion \<Rightarrow> ''matrix.unsupported_version'')"

text \<open>The code of a failure and whether the whole server (or the database) is out of use.\<close>

definition describe_failure :: "matrix_failure_kind matrix_cleanup_failure \<Rightarrow> string \<times> bool" where
  "describe_failure f =
     (case f of
        MatrixCleanup k \<Rightarrow> (matrix_failure_code k, homeserver_unavailable k)
      | InvalidStoredIdentity \<Rightarrow> (''agent_instance.invalid_matrix_identity'', False)
      | StatePersistenceUnavailable \<Rightarrow> (''agent_instance.cleanup_state_unavailable'', True))"

section \<open>The backoff\<close>

definition RETRY_INITIAL_MILLIS :: int where "RETRY_INITIAL_MILLIS = 30 * 1000"
definition RETRY_MAXIMUM_MILLIS :: int where "RETRY_MAXIMUM_MILLIS = 15 * 60 * 1000"
definition REQUEST_GRACE_MILLIS :: int where "REQUEST_GRACE_MILLIS = 30 * 1000"
definition PENDING_PER_ROUND :: nat where "PENDING_PER_ROUND = 200"
definition ATTEMPTS_PER_ROUND :: nat where "ATTEMPTS_PER_ROUND = 20"

lemmas retry_constants = RETRY_INITIAL_MILLIS_def RETRY_MAXIMUM_MILLIS_def REQUEST_GRACE_MILLIS_def
  PENDING_PER_ROUND_def ATTEMPTS_PER_ROUND_def

definition i64_saturating_mul :: "int \<Rightarrow> int \<Rightarrow> int" where
  "i64_saturating_mul a b = max i64_min (min i64_max (a * b))"

definition retry_delay :: "nat \<Rightarrow> int" where
  "retry_delay failures =
     min (i64_saturating_mul RETRY_INITIAL_MILLIS (2 ^ min (failures - 1) 16)) RETRY_MAXIMUM_MILLIS"

record backoff =
  bk_failures :: nat
  bk_next_attempt_at :: utc_millis

type_synonym backoff_table = "agent_instance_id \<rightharpoonup> backoff"

text \<open>The failure count saturates at the width of \<^verbatim>\<open>u32\<close>.\<close>

definition record_failure ::
  "agent_instance_id \<Rightarrow> utc_millis \<Rightarrow> backoff_table \<Rightarrow> bool \<times> backoff_table" where
  "record_failure i now b =
     (let failures = (case b i of None \<Rightarrow> 1 | Some e \<Rightarrow> min (2 ^ 32 - 1) (bk_failures e + 1));
          next_attempt_at = (case utc_new (i64_saturating_add (utc_value now) (retry_delay failures)) of
                               Inl _ \<Rightarrow> now | Inr t \<Rightarrow> t)
      in (failures = 1, b(i \<mapsto> \<lparr>bk_failures = failures, bk_next_attempt_at = next_attempt_at\<rparr>)))"

section \<open>A round\<close>

definition list_pending_matrix_devices :: "utc_millis \<Rightarrow> nat \<Rightarrow> pending_matrix_device list device_txn" where
  "list_pending_matrix_devices revoked_before limit = query (\<lambda>s. Inr (take limit (concat (map (\<lambda>i.
     (case List.find (\<lambda>(a, u). a = in_agent_id i) (st_matrix_users s) of
        None \<Rightarrow> []
      | Some (_, user) \<Rightarrow> [\<lparr>pm_instance_id = in_id i, pm_matrix_user_id = user,
                            pm_matrix_device_id = in_matrix_device_id i\<rparr>]))
     (sort_key (\<lambda>i. the (in_revoked_at i)) (sort_key in_id (filter (\<lambda>i.
        (case in_revoked_at i of None \<Rightarrow> False | Some v \<Rightarrow> v \<le> revoked_before) \<and>
        in_matrix_revoked_at i = None) (st_instances s))))))))"

text \<open>
  The targets whose backoff ended. When fewer rows were read than a round reads at most, they are all there
  are, and the backoff of the others is dropped.
\<close>

definition due :: "pending_matrix_device list \<Rightarrow> utc_millis \<Rightarrow> backoff_table \<Rightarrow>
    pending_matrix_device list \<times> backoff_table" where
  "due pending now b =
     (let b' = (if length pending < PENDING_PER_ROUND then b |` set (map pm_instance_id pending) else b)
      in (take ATTEMPTS_PER_ROUND (filter (\<lambda>t.
            case b' (pm_instance_id t) of None \<Rightarrow> True | Some e \<Rightarrow> bk_next_attempt_at e \<le> now) pending), b'))"

record device_retry =
  ry_instance_id :: agent_instance_id
  ry_failure_code :: string
  ry_first_failure :: bool

record retry_round =
  ro_revoked :: nat
  ro_retrying :: "device_retry list"

text \<open>The chat server answers each call with a failure or not; the mark of each target may fail by itself.\<close>

type_synonym matrix_answers = "pending_matrix_device \<Rightarrow> utext \<Rightarrow> utext \<Rightarrow> matrix_failure_kind option"

fun retry_targets ::
  "matrix_answers \<Rightarrow> (pending_matrix_device \<Rightarrow> store_fault) \<Rightarrow> utc_millis \<Rightarrow> pending_matrix_device list \<Rightarrow>
     backoff_table \<Rightarrow> device_store \<Rightarrow> retry_round \<times> backoff_table \<times> device_store" where
  "retry_targets matrix fault now [] b s = (\<lparr>ro_revoked = 0, ro_retrying = []\<rparr>, b, s)"
| "retry_targets matrix fault now (target # targets) b s =
     (case revoke_agent_matrix_device (matrix target) (fault target) target now s of
        (Inr _, t) \<Rightarrow>
          (case retry_targets matrix fault now targets (b(pm_instance_id target := None)) t of
             (r, b', u) \<Rightarrow> (r\<lparr>ro_revoked := ro_revoked r + 1\<rparr>, b', u))
      | (Inl e, t) \<Rightarrow>
          (let (code, homeserver_down) = describe_failure e;
               (first, b1) = record_failure (pm_instance_id target) now b;
               entry = \<lparr>ry_instance_id = pm_instance_id target, ry_failure_code = code, ry_first_failure = first\<rparr>
           in if homeserver_down then (\<lparr>ro_revoked = 0, ro_retrying = [entry]\<rparr>, b1, t)
              else (case retry_targets matrix fault now targets b1 t of
                      (r, b', u) \<Rightarrow> (r\<lparr>ro_retrying := entry # ro_retrying r\<rparr>, b', u))))"

definition revoked_before :: "utc_millis \<Rightarrow> utc_millis" where
  "revoked_before now =
     (case utc_new (i64_saturating_sub (utc_value now) REQUEST_GRACE_MILLIS) of Inl _ \<Rightarrow> now | Inr t \<Rightarrow> t)"

record round_input =
  rn_now :: utc_millis
  rn_matrix :: matrix_answers
  rn_read_fault :: store_fault
  rn_fault :: "pending_matrix_device \<Rightarrow> store_fault"

text \<open>\<open>seen\<close> is the store when the targets are read, \<open>s\<close> the store when they are marked.\<close>

definition round_of ::
  "round_input \<Rightarrow> device_store \<Rightarrow> backoff_table \<Rightarrow> device_store \<Rightarrow>
     retry_round repository_result \<times> backoff_table \<times> device_store" where
  "round_of x seen b s =
     (case run_transaction (rn_read_fault x)
             (list_pending_matrix_devices (revoked_before (rn_now x)) PENDING_PER_ROUND) seen of
        (Inl e, _) \<Rightarrow> (Inl e, b, s)
      | (Inr pending, _) \<Rightarrow>
          (case due pending (rn_now x) b of (targets, b1) \<Rightarrow>
             (case retry_targets (rn_matrix x) (rn_fault x) (rn_now x) targets b1 s of
                (r, b2, t) \<Rightarrow> (Inr r, b2, t))))"

fun rounds :: "round_input list \<Rightarrow> backoff_table \<times> device_store \<Rightarrow> backoff_table \<times> device_store" where
  "rounds [] w = w"
| "rounds (x # xs) w = rounds xs (snd (round_of x (snd w) (fst w) (snd w)))"

section \<open>The backoff is bounded\<close>

lemma retry_delay_eq: "1 \<le> n \<Longrightarrow> retry_delay n = min (30000 * 2 ^ (n - 1)) 900000"
proof (cases "n \<le> 17")
  case True
  assume "1 \<le> n"
  moreover have "(2::int) ^ (n - 1) \<le> 2 ^ 16" using True by (intro power_increasing) simp_all
  moreover have "min (n - 1) 16 = n - 1" using True by simp
  moreover have "max (- 9223372036854775808) (30000 * 2 ^ (n - 1)) = (30000 * 2 ^ (n - 1) :: int)"
    by (rule max_absorb2) (rule order_trans [of _ 0]; simp)
  ultimately show ?thesis by (simp add: retry_delay_def i64_saturating_mul_def retry_constants int_width_defs)
next
  case False
  then have "(2::int) ^ 16 \<le> 2 ^ (n - 1)" by (intro power_increasing) simp_all
  then show ?thesis using False by (simp add: retry_delay_def i64_saturating_mul_def retry_constants int_width_defs)
qed

lemma retry_delay_0: "retry_delay 0 = 30000"
  by (simp add: retry_delay_def i64_saturating_mul_def retry_constants int_width_defs)

lemma retry_delay_bounds: "30000 \<le> retry_delay n" "retry_delay n \<le> 900000"
proof -
  have "(1::int) \<le> 2 ^ (n - 1)" by simp
  then show "30000 \<le> retry_delay n" "retry_delay n \<le> 900000"
    by (cases n; simp add: retry_delay_eq retry_delay_0)+
qed

definition settled_by :: "utc_millis \<Rightarrow> backoff_table \<Rightarrow> bool" where
  "settled_by t b \<longleftrightarrow> (\<forall>i e. b i = Some e \<longrightarrow> utc_value (bk_next_attempt_at e) \<le> utc_value t + RETRY_MAXIMUM_MILLIS)"

lemma settled_by_empty: "settled_by t Map.empty"
  by (simp add: settled_by_def)

lemma settled_by_mono: "settled_by t b \<Longrightarrow> utc_value t \<le> utc_value u \<Longrightarrow> settled_by u b"
  by (fastforce simp: settled_by_def)

lemma settled_by_restrict: "settled_by t b \<Longrightarrow> settled_by t (b |` A)"
  by (auto simp: settled_by_def restrict_map_def)

lemma settled_by_remove: "settled_by t b \<Longrightarrow> settled_by t (b(i := None))"
  by (auto simp: settled_by_def)

lemma record_failure_settled:
  assumes "settled_by t b" and "utc_value now \<le> utc_value t"
  shows "settled_by t (snd (record_failure i now b))"
proof -
  have "v \<le> utc_value t + 900000" if "v = i64_saturating_add (utc_value now) (retry_delay n)" "0 \<le> v" for v n
    using retry_delay_bounds(2) [of n] assms(2) that by (auto simp: i64_saturating_add_def int_width_defs max_def min_def split: if_splits)
  then show ?thesis
    using assms by (auto simp: settled_by_def record_failure_def Let_def utc_new_def retry_constants split: option.splits)
qed

text \<open>One step of the loop, seen on each part of its result.\<close>

lemma retry_targets_store:
  "snd (snd (retry_targets matrix fault now (target # targets) b s)) =
     (case revoke_agent_matrix_device (matrix target) (fault target) target now s of
        (Inr _, t) \<Rightarrow> snd (snd (retry_targets matrix fault now targets (b(pm_instance_id target := None)) t))
      | (Inl e, t) \<Rightarrow>
          if snd (describe_failure e) then t
          else snd (snd (retry_targets matrix fault now targets
                 (snd (record_failure (pm_instance_id target) now b)) t)))"
  by (simp add: Let_def del: fun_upd_apply split: prod.splits sum.splits)

lemma retry_targets_settled:
  "settled_by t b \<Longrightarrow> utc_value now \<le> utc_value t \<Longrightarrow>
     settled_by t (fst (snd (retry_targets matrix fault now targets b s)))"
proof (induction targets arbitrary: b s)
  case (Cons target targets)
  have r: "settled_by t (snd (record_failure (pm_instance_id target) now b))"
    by (rule record_failure_settled [OF Cons.prems])
  obtain x s' where x: "revoke_agent_matrix_device (matrix target) (fault target) target now s = (x, s')"
    by (rule prod.exhaust)
  show ?case
  proof (cases x)
    case (Inl e)
    obtain code down where "describe_failure e = (code, down)" by (rule prod.exhaust)
    then show ?thesis
      using Cons.IH [OF r Cons.prems(2)] r by (simp add: x Inl Let_def split: prod.splits) (metis fst_conv snd_conv)
  next
    case (Inr u)
    obtain r b' v where rec: "retry_targets matrix fault now targets (b(pm_instance_id target := None)) s' = (r, b', v)"
      by (rule prod_cases3)
    show ?thesis
      using Cons.IH [OF settled_by_remove [OF Cons.prems(1)] Cons.prems(2), of "pm_instance_id target" s']
      by (simp add: x Inr rec del: fun_upd_apply)
  qed
qed simp

lemma round_settled:
  assumes "settled_by t b" and "utc_value (rn_now x) \<le> utc_value t"
  shows "settled_by t (fst (snd (round_of x seen b s)))"
  using retry_targets_settled [OF assms(1,2)] retry_targets_settled [OF settled_by_restrict [OF assms(1)] assms(2)] assms(1)
  by (auto simp: round_of_def due_def Let_def split: sum.splits prod.splits) (metis fst_conv snd_conv)+

lemma rounds_settled:
  assumes "\<forall>x\<in>set xs. utc_value (rn_now x) \<le> utc_value t"
  shows "settled_by t (fst w) \<Longrightarrow> settled_by t (fst (rounds xs w))"
  using assms
proof (induction xs arbitrary: w)
  case (Cons x xs)
  then show ?case using round_settled [of t "fst w" x "snd w" "snd w"] by simp
qed simp

section \<open>What a round does to the tables\<close>

text \<open>A target that is deregistered is marked; nothing else of the store changes.\<close>

definition mark_row :: "utc_millis \<Rightarrow> instance_row \<Rightarrow> instance_row" where
  "mark_row t r = r\<lparr>in_matrix_revoked_at := Some (unwrap_or (in_matrix_revoked_at r) t)\<rparr>"

definition mark_rows :: "agent_instance_id set \<Rightarrow> utc_millis \<Rightarrow> device_store \<Rightarrow> device_store" where
  "mark_rows A t s = s\<lparr>st_instances :=
     map (\<lambda>r. if in_id r \<in> A \<and> in_revoked_at r \<noteq> None then mark_row t r else r) (st_instances s)\<rparr>"

lemma mark_row_simps [simp]: "in_id (mark_row t r) = in_id r" "in_revoked_at (mark_row t r) = in_revoked_at r"
  "in_agent_id (mark_row t r) = in_agent_id r" "in_matrix_device_id (mark_row t r) = in_matrix_device_id r"
  "mark_row t (mark_row t r) = mark_row t r" "in_matrix_revoked_at (mark_row t r) \<noteq> None"
  by (simp_all add: mark_row_def unwrap_or_def split: option.splits)

lemma mark_rows_none [simp]: "mark_rows {} t s = s"
  by (simp add: mark_rows_def)

lemma mark_rows_union: "mark_rows A t (mark_rows B t s) = mark_rows (A \<union> B) t s"
proof -
  have "(\<lambda>r. if in_id r \<in> A \<and> in_revoked_at r \<noteq> None then mark_row t r else r) \<circ>
      (\<lambda>r. if in_id r \<in> B \<and> in_revoked_at r \<noteq> None then mark_row t r else r) =
    (\<lambda>r. if in_id r \<in> A \<union> B \<and> in_revoked_at r \<noteq> None then mark_row t r else r)" by (rule ext) auto
  then show ?thesis by (simp add: mark_rows_def)
qed

lemma mark_rows_others [simp]:
  "st_matrix_users (mark_rows A t s) = st_matrix_users s"
  "map in_id (st_instances (mark_rows A t s)) = map in_id (st_instances s)"
  by (auto simp: mark_rows_def)

lemma mark_device_Inr:
  assumes "mark_matrix_device_revoked i t s = Inr (u, s')"
  shows "s' = mark_rows {i} t s" and "\<exists>r\<in>set (st_instances s). in_id r = i \<and> in_revoked_at r \<noteq> None"
proof -
  have m: "(\<lambda>r. r\<lparr>in_matrix_revoked_at := Some (unwrap_or (in_matrix_revoked_at r) t)\<rparr>) = mark_row t"
    by (rule ext) (simp add: mark_row_def)
  have n: "rows_where (\<lambda>r. in_id r = i \<and> in_revoked_at r \<noteq> None) (st_instances s) = 1"
    and s': "s' = s\<lparr>st_instances := update_where (\<lambda>r. in_id r = i \<and> in_revoked_at r \<noteq> None) (mark_row t) (st_instances s)\<rparr>"
    using assms unfolding mark_matrix_device_revoked_def m Let_def
    by (auto simp: exec_def query_def execute_def done_with_def abort_def update_checked_def split: if_splits)
  show "s' = mark_rows {i} t s" by (simp add: s' update_where_def mark_rows_def)
  show "\<exists>r\<in>set (st_instances s). in_id r = i \<and> in_revoked_at r \<noteq> None"
    using n by (fastforce simp: rows_where_def filter_empty_conv dest: arg_cong [where f = "\<lambda>n. n = 0"])
qed

definition confirmed :: "(utext \<Rightarrow> utext \<Rightarrow> 'm option) \<Rightarrow> pending_matrix_device \<Rightarrow> bool" where
  "confirmed matrix target \<longleftrightarrow>
     (case (matrix_user_id_new (pm_matrix_user_id target), matrix_device_id_new (pm_matrix_device_id target)) of
        (Inr user, Inr device) \<Rightarrow> matrix user device = None
      | _ \<Rightarrow> False)"

lemma revoke_effect:
  assumes "revoke_agent_matrix_device matrix fault target t s = (x, s')"
  shows "s' = s \<or> s' = mark_rows {pm_instance_id target} t s \<and> confirmed matrix target"
  using assms mark_device_Inr(1)
  by (auto simp: revoke_agent_matrix_device_def confirmed_def run_transaction_def
      split: sum.splits option.splits store_fault.splits prod.splits)

lemma retry_targets_effect:
  "\<exists>A. snd (snd (retry_targets matrix fault now targets b s)) = mark_rows A now s \<and>
     (\<forall>i\<in>A. \<exists>target\<in>set targets. pm_instance_id target = i \<and> confirmed (matrix target) target)"
proof (induction targets arbitrary: b s)
  case Nil
  then show ?case by (intro exI [of _ "{}"]) simp
next
  case (Cons target targets)
  obtain x s' where x: "revoke_agent_matrix_device (matrix target) (fault target) target now s = (x, s')"
    by (rule prod.exhaust)
  obtain B where B: "s' = mark_rows B now s" "B \<subseteq> {pm_instance_id target}"
      "B \<noteq> {} \<Longrightarrow> confirmed (matrix target) target"
    using revoke_effect [OF x] by (metis empty_subsetI mark_rows_none order_refl)
  have A: "\<exists>A. snd (snd (retry_targets matrix fault now targets b1 s')) = mark_rows (A \<union> B) now s \<and>
      (\<forall>i\<in>A \<union> B. \<exists>t\<in>set (target # targets). pm_instance_id t = i \<and> confirmed (matrix t) t)" for b1
  proof -
    obtain A where "snd (snd (retry_targets matrix fault now targets b1 s')) = mark_rows A now s'"
        "\<forall>i\<in>A. \<exists>target\<in>set targets. pm_instance_id target = i \<and> confirmed (matrix target) target"
      using Cons.IH by blast
    then show ?thesis using B by (intro exI [of _ A]) (auto simp: mark_rows_union)
  qed
  have stop: "\<exists>A. s' = mark_rows A now s \<and> (\<forall>i\<in>A. \<exists>t\<in>set (target # targets). pm_instance_id t = i \<and> confirmed (matrix t) t)"
    using B by (intro exI [of _ B]) auto
  have eq: "\<exists>b1. snd (snd (retry_targets matrix fault now (target # targets) b s)) \<in>
      {s', snd (snd (retry_targets matrix fault now targets b1 s'))}"
    unfolding retry_targets_store x by (cases x) auto
  then show ?case using A stop by (metis (no_types, lifting) insertE singletonD)
qed

text \<open>With a healthy server and a database that commits, every target is deregistered.\<close>

definition open_target :: "device_store \<Rightarrow> utc_millis \<Rightarrow> pending_matrix_device \<Rightarrow> bool" where
  "open_target s now target \<longleftrightarrow> (\<exists>r\<in>set (st_instances s). \<exists>v. in_id r = pm_instance_id target \<and>
     in_matrix_revoked_at r = None \<and> in_revoked_at r = Some v \<and> v \<le> now)"

lemma one_row: "distinct (map key rows) \<Longrightarrow> r \<in> set rows \<Longrightarrow> P r \<Longrightarrow> rows_where (\<lambda>x. key x = key r \<and> P x) rows = 1"
proof (induction rows)
  case (Cons x rows)
  have none: "rows_where (\<lambda>x. key x = k \<and> P x) rows = 0" if "k \<notin> key ` set rows" for k
    using that by (auto simp: rows_where_def filter_empty_conv)
  show ?case
  proof (cases "r = x")
    case True
    then show ?thesis using Cons.prems none [of "key x"] by (auto simp: rows_where_def)
  next
    case False
    then have "key x \<noteq> key r" using Cons.prems by auto
    then show ?thesis using Cons False by (auto simp: rows_where_def)
  qed
qed simp

lemma revoke_healthy:
  assumes d: "distinct (map in_id (st_instances s))" and o: "open_target s now target"
    and c: "confirmed matrix target"
  shows "revoke_agent_matrix_device matrix NoFault target now s = (Inr (), mark_rows {pm_instance_id target} now s)"
proof -
  let ?i = "pm_instance_id target"
  obtain r v where r: "r \<in> set (st_instances s)" "in_id r = ?i" "in_matrix_revoked_at r = None"
      "in_revoked_at r = Some v" "v \<le> now"
    using o by (auto simp: open_target_def)
  have n: "rows_where (\<lambda>x. in_id x = ?i \<and> in_revoked_at x \<noteq> None) (st_instances s) = 1"
    using one_row [OF d r(1), of "\<lambda>x. in_revoked_at x \<noteq> None"] r(2,4) by simp
  have k: "\<not> list_ex (\<lambda>x. (in_id x = ?i \<and> in_revoked_at x \<noteq> None) \<and>
      \<not> opt_all (in_revoked_at x) (\<lambda>v. v \<le> unwrap_or (in_matrix_revoked_at x) now)) (st_instances s)"
  proof
    assume "list_ex (\<lambda>x. (in_id x = ?i \<and> in_revoked_at x \<noteq> None) \<and>
      \<not> opt_all (in_revoked_at x) (\<lambda>v. v \<le> unwrap_or (in_matrix_revoked_at x) now)) (st_instances s)"
    then obtain x where x: "x \<in> set (st_instances s)" "in_id x = ?i"
        "\<not> opt_all (in_revoked_at x) (\<lambda>v. v \<le> unwrap_or (in_matrix_revoked_at x) now)"
      unfolding list_ex_iff by blast
    have "x = r" by (rule key_inject [OF d x(1) r(1)]) (simp add: x(2) r(2))
    then show False using x(3) r(3-5) by (simp add: unwrap_or_def opt_all_def)
  qed
  from n k have "\<exists>u s'. mark_matrix_device_revoked ?i now s = Inr (u, s')"
    unfolding mark_matrix_device_revoked_def Let_def exec_def query_def execute_def done_with_def update_checked_def
    by (simp del: not_None_eq)
  then obtain u s' where m: "mark_matrix_device_revoked ?i now s = Inr (u, s')" by blast
  then have "s' = mark_rows {?i} now s" by (rule mark_device_Inr)
  then show ?thesis
    using c m by (auto simp: revoke_agent_matrix_device_def confirmed_def run_transaction_def split: sum.splits)
qed

lemma retry_targets_healthy:
  assumes "distinct (map in_id (st_instances s))" and "distinct (map pm_instance_id targets)"
    and "\<forall>t\<in>set targets. open_target s now t \<and> confirmed (matrix t) t \<and> fault t = NoFault"
  shows "\<exists>b'. retry_targets matrix fault now targets b s =
    (\<lparr>ro_revoked = length targets, ro_retrying = []\<rparr>, b', mark_rows (pm_instance_id ` set targets) now s) \<and>
    b' \<subseteq>\<^sub>m b"
  using assms
proof (induction targets arbitrary: b s)
  case (Cons target targets)
  let ?i = "pm_instance_id target" and ?s = "mark_rows {pm_instance_id target} now s"
  have r: "revoke_agent_matrix_device (matrix target) (fault target) target now s = (Inr (), ?s)"
    using revoke_healthy [OF Cons.prems(1), of now target "matrix target"] Cons.prems(3) by simp
  have "open_target ?s now t" if t: "t \<in> set targets" for t
  proof -
    obtain x v where "x \<in> set (st_instances s)" "in_id x = pm_instance_id t" "in_matrix_revoked_at x = None"
        "in_revoked_at x = Some v" "v \<le> now"
      using Cons.prems(3) t by (auto simp: open_target_def)
    moreover have "pm_instance_id t \<noteq> ?i" using Cons.prems(2) t by (metis distinct.simps(2) image_eqI list.map(2) set_map)
    ultimately show ?thesis by (auto simp: open_target_def mark_rows_def intro!: bexI [of _ x])
  qed
  then have "\<exists>b'. retry_targets matrix fault now targets (b(?i := None)) ?s =
      (\<lparr>ro_revoked = length targets, ro_retrying = []\<rparr>, b', mark_rows (pm_instance_id ` set targets) now ?s) \<and>
      b' \<subseteq>\<^sub>m b(?i := None)"
    by (intro Cons.IH) (use Cons.prems in simp_all)
  moreover have "b(?i := None) \<subseteq>\<^sub>m b" by (simp add: map_le_def)
  ultimately show ?case using map_le_trans by (fastforce simp: r mark_rows_union simp del: fun_upd_apply)
qed simp

section \<open>A healthy round\<close>

definition unmarked :: "device_store \<Rightarrow> instance_row list" where
  "unmarked s = filter (\<lambda>r. in_revoked_at r \<noteq> None \<and> in_matrix_revoked_at r = None) (st_instances s)"

definition target_of :: "device_store \<Rightarrow> instance_row \<Rightarrow> pending_matrix_device" where
  "target_of s r = \<lparr>pm_instance_id = in_id r,
     pm_matrix_user_id = (case List.find (\<lambda>(a, u). a = in_agent_id r) (st_matrix_users s) of None \<Rightarrow> [] | Some (_, u) \<Rightarrow> u),
     pm_matrix_device_id = in_matrix_device_id r\<rparr>"

text \<open>The agents of revoked instances exist and their identities are ones that Matrix accepts.\<close>

definition identities_ok :: "device_store \<Rightarrow> bool" where
  "identities_ok s \<longleftrightarrow> (\<forall>r\<in>set (st_instances s). in_revoked_at r \<noteq> None \<longrightarrow>
     List.find (\<lambda>(a, u). a = in_agent_id r) (st_matrix_users s) \<noteq> None \<and>
     is_ok (matrix_user_id_new (pm_matrix_user_id (target_of s r))) \<and>
     is_ok (matrix_device_id_new (pm_matrix_device_id (target_of s r))))"

definition healthy :: "round_input \<Rightarrow> bool" where
  "healthy x \<longleftrightarrow> utc_ok (rn_now x) \<and> rn_read_fault x = NoFault \<and> (\<forall>t. rn_fault x t = NoFault) \<and>
     (\<forall>t user device. rn_matrix x t user device = None)"

text \<open>Every revocation is older than the grace period at the time of the round.\<close>

definition past_grace :: "utc_millis \<Rightarrow> device_store \<Rightarrow> bool" where
  "past_grace now s \<longleftrightarrow> (\<forall>r\<in>set (st_instances s). opt_all (in_revoked_at r) (\<lambda>v. v \<le> revoked_before now))"

definition all_due :: "utc_millis \<Rightarrow> backoff_table \<Rightarrow> bool" where
  "all_due now b \<longleftrightarrow> (\<forall>i e. b i = Some e \<longrightarrow> bk_next_attempt_at e \<le> now)"

lemma all_due_le: "b' \<subseteq>\<^sub>m b \<Longrightarrow> all_due now b \<Longrightarrow> all_due now b'"
  by (metis all_due_def domI map_le_def)

lemma revoked_before_le: "utc_ok now \<Longrightarrow> revoked_before now \<le> now"
  by (cases now) (auto simp: revoked_before_def utc_new_def utc_ok_def i64_saturating_sub_def retry_constants int_width_defs)

definition due_rows :: "device_store \<Rightarrow> instance_row list" where
  "due_rows s = sort_key (\<lambda>i. the (in_revoked_at i)) (sort_key in_id (unmarked s))"

lemma due_rows_simps: "set (due_rows s) = set (unmarked s)" "length (due_rows s) = length (unmarked s)"
  "distinct (map in_id (due_rows s)) = distinct (map in_id (unmarked s))"
  by (simp_all add: due_rows_def)
    (metis distinct_map distinct_sort set_sort)

lemma listing:
  assumes "identities_ok s" and "past_grace now s"
  shows "list_pending_matrix_devices (revoked_before now) n s = Inr (take n (map (target_of s) (due_rows s)), s)"
proof -
  have f: "filter (\<lambda>i. (case in_revoked_at i of None \<Rightarrow> False | Some v \<Rightarrow> v \<le> revoked_before now) \<and>
        in_matrix_revoked_at i = None) (st_instances s) = unmarked s"
    unfolding unmarked_def using assms(2) by (intro filter_cong) (auto simp: past_grace_def split: option.splits)
  have c: "concat (map (\<lambda>i. case List.find (\<lambda>(a, u). a = in_agent_id i) (st_matrix_users s) of
        None \<Rightarrow> []
      | Some (_, user) \<Rightarrow> [\<lparr>pm_instance_id = in_id i, pm_matrix_user_id = user,
                            pm_matrix_device_id = in_matrix_device_id i\<rparr>]) rows) = map (target_of s) rows"
    if "set rows \<subseteq> set (unmarked s)" for rows
    using that assms(1)
    by (induction rows) (auto simp: identities_ok_def unmarked_def target_of_def split: option.splits prod.splits)
  show ?thesis
    unfolding list_pending_matrix_devices_def query_def f c [OF equalityD1 [OF due_rows_simps(1)], unfolded due_rows_def]
    by (simp add: due_rows_def)
qed

lemma due_all:
  assumes "all_due now b"
  obtains b' where "due pending now b = (take ATTEMPTS_PER_ROUND pending, b')" and "b' \<subseteq>\<^sub>m b"
proof -
  define b' where "b' = (if length pending < PENDING_PER_ROUND then b |` set (map pm_instance_id pending) else b)"
  have b: "b' \<subseteq>\<^sub>m b" by (auto simp: b'_def map_le_def restrict_map_def dom_def)
  have "filter (\<lambda>t. case b' (pm_instance_id t) of None \<Rightarrow> True | Some e \<Rightarrow> bk_next_attempt_at e \<le> now) pending = pending"
    using all_due_le [OF b assms] by (intro filter_True) (auto simp: all_due_def split: option.splits)
  then have "due pending now b = (take ATTEMPTS_PER_ROUND pending, b')" by (simp add: due_def b'_def [symmetric])
  then show thesis using b that by blast
qed

lemma healthy_round:
  assumes d: "distinct (map in_id (st_instances s))" and i: "identities_ok s" and h: "healthy x"
    and g: "past_grace (rn_now x) s" and b: "all_due (rn_now x) b"
  obtains b' where "b' \<subseteq>\<^sub>m b"
    and "round_of x s b s = (Inr \<lparr>ro_revoked = min 20 (length (unmarked s)), ro_retrying = []\<rparr>, b',
      mark_rows (in_id ` set (take 20 (due_rows s))) (rn_now x) s)"
proof -
  let ?pending = "take PENDING_PER_ROUND (map (target_of s) (due_rows s))"
  let ?targets = "map (target_of s) (take 20 (due_rows s))"
  obtain b1 where due: "due ?pending (rn_now x) b = (take ATTEMPTS_PER_ROUND ?pending, b1)" "b1 \<subseteq>\<^sub>m b"
    using b by (rule due_all)
  have t: "take ATTEMPTS_PER_ROUND ?pending = ?targets" by (simp add: retry_constants take_map)
  have ids: "pm_instance_id ` set ?targets = in_id ` set (take 20 (due_rows s))" by (simp add: target_of_def image_image)
  have "distinct (map in_id (unmarked s))" using d by (simp add: unmarked_def distinct_map_filter)
  then have "distinct (map in_id (take 20 (due_rows s)))" by (simp add: due_rows_simps flip: take_map)
  then have dt: "distinct (map pm_instance_id ?targets)" by (simp add: target_of_def o_def)
  have "open_target s (rn_now x) (target_of s r) \<and> confirmed (rn_matrix x (target_of s r)) (target_of s r) \<and>
      rn_fault x (target_of s r) = NoFault" if "r \<in> set (due_rows s)" for r
  proof -
    have r: "r \<in> set (st_instances s)" "in_revoked_at r \<noteq> None" "in_matrix_revoked_at r = None"
      using that by (simp_all add: due_rows_simps unmarked_def)
    obtain v where v: "in_revoked_at r = Some v" "v \<le> revoked_before (rn_now x)"
      using g r by (fastforce simp: past_grace_def)
    then have "v \<le> rn_now x" using revoked_before_le h by (meson healthy_def order_trans)
    then have "open_target s (rn_now x) (target_of s r)" using r v by (auto simp: open_target_def target_of_def)
    moreover have "is_ok (matrix_user_id_new (pm_matrix_user_id (target_of s r)))"
        "is_ok (matrix_device_id_new (pm_matrix_device_id (target_of s r)))"
      using i r by (auto simp: identities_ok_def)
    then have "confirmed (rn_matrix x (target_of s r)) (target_of s r)"
      using h by (auto simp: healthy_def confirmed_def is_ok_def split: sum.splits)
    ultimately show ?thesis using h by (simp add: healthy_def)
  qed
  then have "\<exists>b'. retry_targets (rn_matrix x) (rn_fault x) (rn_now x) ?targets b1 s =
    (\<lparr>ro_revoked = length ?targets, ro_retrying = []\<rparr>, b', mark_rows (pm_instance_id ` set ?targets) (rn_now x) s) \<and>
    b' \<subseteq>\<^sub>m b1"
    by (intro retry_targets_healthy [OF d dt]) (auto dest: in_set_takeD)
  then obtain b' where b': "retry_targets (rn_matrix x) (rn_fault x) (rn_now x) ?targets b1 s =
    (\<lparr>ro_revoked = length ?targets, ro_retrying = []\<rparr>, b', mark_rows (in_id ` set (take 20 (due_rows s))) (rn_now x) s)"
    "b' \<subseteq>\<^sub>m b1"
    unfolding ids by blast
  have "run_transaction (rn_read_fault x) (list_pending_matrix_devices (revoked_before (rn_now x)) PENDING_PER_ROUND) s =
      (Inr ?pending, s)"
    using h by (simp add: healthy_def run_transaction_def listing [OF i g])
  then have "round_of x s b s = (Inr \<lparr>ro_revoked = length ?targets, ro_retrying = []\<rparr>, b',
      mark_rows (in_id ` set (take 20 (due_rows s))) (rn_now x) s)"
    unfolding round_of_def by (simp only: due t b'(1) sum.case prod.case)
  moreover have "length ?targets = min 20 (length (unmarked s))" by (simp add: due_rows_simps min.commute)
  ultimately show thesis using that map_le_trans [OF b'(2) due(2)] by metis
qed

lemma unmarked_marks:
  assumes d: "distinct (map in_id (st_instances s))"
  shows "length (unmarked (mark_rows (in_id ` set (take n (due_rows s))) t s)) = length (unmarked s) - n"
proof -
  let ?m = "take n (due_rows s)"
  have u: "distinct (unmarked s)" "distinct ?m" "set ?m \<subseteq> set (unmarked s)"
  proof -
    have "distinct (map in_id (unmarked s))" using d by (simp add: unmarked_def distinct_map_filter)
    then show "distinct (unmarked s)" by (simp add: distinct_map)
    have "distinct (map in_id (due_rows s))" using \<open>distinct (map in_id (unmarked s))\<close> by (simp add: due_rows_simps)
    then show "distinct ?m" by (simp add: distinct_map)
    show "set ?m \<subseteq> set (unmarked s)" using set_take_subset due_rows_simps(1) by metis
  qed
  have inj: "r \<in> set ?m" if r: "r \<in> set (st_instances s)" "in_id r \<in> in_id ` set ?m" for r
  proof -
    obtain r' where "r' \<in> set ?m" "in_id r' = in_id r" using r(2) by force
    moreover have "r' = r"
      using key_inject [OF d _ r(1)] calculation u(3) by (auto simp: unmarked_def)
    ultimately show ?thesis by simp
  qed
  let ?p = "\<lambda>r. in_revoked_at r \<noteq> None \<and> in_matrix_revoked_at r = None"
  let ?f = "\<lambda>r. if in_id r \<in> in_id ` set ?m \<and> in_revoked_at r \<noteq> None then mark_row t r else r"
  have revoked: "?p r" if "r \<in> set ?m" for r using that u(3) by (auto simp: unmarked_def)
  have sel: "?p (?f r) \<longleftrightarrow> ?p r \<and> r \<notin> set ?m" if "r \<in> set (st_instances s)" for r
  proof (cases "r \<in> set ?m")
    case True
    then have "?f r = mark_row t r" using revoked by simp
    then show ?thesis using True by simp
  next
    case False
    then have "?f r = r" using inj [OF that] by auto
    then show ?thesis using False by simp
  qed
  have "filter ?p (map ?f (st_instances s)) = map ?f (filter (\<lambda>r. ?p r \<and> r \<notin> set ?m) (st_instances s))"
    unfolding filter_map o_def by (rule arg_cong [where f = "map ?f"]) (rule filter_cong [OF refl sel])
  also have "\<dots> = filter (\<lambda>r. ?p r \<and> r \<notin> set ?m) (st_instances s)"
    by (rule map_idI) (use inj in auto)
  finally have "filter ?p (map ?f (st_instances s)) = filter (\<lambda>r. r \<notin> set ?m) (filter ?p (st_instances s))" by simp
  then have "unmarked (mark_rows (in_id ` set ?m) t s) = filter (\<lambda>r. r \<notin> set ?m) (unmarked s)"
    by (simp add: unmarked_def mark_rows_def)
  then have "set (unmarked (mark_rows (in_id ` set ?m) t s)) = set (unmarked s) - set ?m"
    "distinct (unmarked (mark_rows (in_id ` set ?m) t s))" using u(1) by auto
  then have "length (unmarked (mark_rows (in_id ` set ?m) t s)) = card (set (unmarked s) - set ?m)"
    by (metis distinct_card)
  also have "\<dots> = length (unmarked s) - length ?m"
    using u by (simp add: card_Diff_subset distinct_card)
  finally show ?thesis by (simp add: due_rows_simps min_def)
qed

lemma marks_keep:
  "identities_ok s \<Longrightarrow> identities_ok (mark_rows A t s)" "past_grace now s \<Longrightarrow> past_grace now (mark_rows A t s)"
  by (auto simp: identities_ok_def past_grace_def mark_rows_def target_of_def)

lemma healthy_rounds:
  assumes "distinct (map in_id (st_instances s))" and "identities_ok s"
    and "\<forall>x\<in>set xs. healthy x \<and> past_grace (rn_now x) s \<and> all_due (rn_now x) b"
  shows "length (unmarked (snd (rounds xs (b, s)))) = length (unmarked s) - 20 * length xs \<and>
    map in_id (st_instances (snd (rounds xs (b, s)))) = map in_id (st_instances s) \<and>
    map in_revoked_at (st_instances (snd (rounds xs (b, s)))) = map in_revoked_at (st_instances s)"
  using assms
proof (induction xs arbitrary: b s)
  case (Cons x xs)
  let ?s = "mark_rows (in_id ` set (take 20 (due_rows s))) (rn_now x) s"
  obtain b' where b': "b' \<subseteq>\<^sub>m b" "round_of x s b s =
      (Inr \<lparr>ro_revoked = min 20 (length (unmarked s)), ro_retrying = []\<rparr>, b', ?s)"
    by (rule healthy_round [OF Cons.prems(1,2), of x b]) (use Cons.prems(3) in simp_all)
  have "\<forall>y\<in>set xs. healthy y \<and> past_grace (rn_now y) ?s \<and> all_due (rn_now y) b'"
    using Cons.prems(3) marks_keep(2) all_due_le [OF b'(1)] by simp
  then have "length (unmarked (snd (rounds xs (b', ?s)))) = length (unmarked ?s) - 20 * length xs \<and>
      map in_id (st_instances (snd (rounds xs (b', ?s)))) = map in_id (st_instances ?s) \<and>
      map in_revoked_at (st_instances (snd (rounds xs (b', ?s)))) = map in_revoked_at (st_instances ?s)"
    using Cons.IH [of ?s b'] Cons.prems(1,2) marks_keep(1) by simp
  moreover have "map in_revoked_at (st_instances ?s) = map in_revoked_at (st_instances s)"
    by (simp add: mark_rows_def)
  ultimately show ?case using unmarked_marks [OF Cons.prems(1), of 20 "rn_now x"] by (simp add: b'(2))
qed simp

lemma round_marks:
  assumes "round_of x seen b s = (out, b', s')"
  obtains A where "s' = mark_rows A (rn_now x) s"
    and "\<forall>i\<in>A. \<exists>pending target. list_pending_matrix_devices (revoked_before (rn_now x)) PENDING_PER_ROUND seen = Inr (pending, seen) \<and>
         target \<in> set pending \<and> pm_instance_id target = i \<and> confirmed (rn_matrix x target) target"
proof (cases "run_transaction (rn_read_fault x) (list_pending_matrix_devices (revoked_before (rn_now x)) PENDING_PER_ROUND) seen")
  case (Pair r u)
  show thesis
  proof (cases r)
    case (Inl e)
    then have "s' = s" using assms Pair by (simp add: round_of_def)
    then show thesis using that [of "{}"] by simp
  next
    case (Inr pending)
    then have l: "list_pending_matrix_devices (revoked_before (rn_now x)) PENDING_PER_ROUND seen = Inr (pending, seen)"
      using Pair by (auto simp: run_transaction_def list_pending_matrix_devices_def query_def split: store_fault.splits)
    obtain targets b1 where due: "due pending (rn_now x) b = (targets, b1)" by (rule prod.exhaust)
    then have "set targets \<subseteq> set pending" by (auto simp: due_def Let_def dest: in_set_takeD)
    moreover obtain r1 b2 where t: "retry_targets (rn_matrix x) (rn_fault x) (rn_now x) targets b1 s = (r1, b2, s')"
      using assms Pair Inr due by (auto simp: round_of_def split: prod.splits)
    ultimately show thesis
      using that retry_targets_effect [of "rn_matrix x" "rn_fault x" "rn_now x" targets b1 s] l by (fastforce simp: t)
  qed
qed

text \<open>
  The window of a round is not moved past targets that keep failing: when none of the rows read is
  confirmed, the round changes nothing, and a row behind a window full of such targets is never tried.
\<close>

lemma full_window_starves:
  assumes "list_pending_matrix_devices (revoked_before (rn_now x)) PENDING_PER_ROUND s = Inr (pending, s)"
    and "\<forall>t\<in>set pending. \<not> confirmed (rn_matrix x t) t"
  shows "snd (snd (round_of x s b s)) = s"
proof -
  obtain out b' s' where r: "round_of x s b s = (out, b', s')" by (rule prod_cases3)
  obtain A where A: "s' = mark_rows A (rn_now x) s"
    "\<forall>i\<in>A. \<exists>pending target. list_pending_matrix_devices (revoked_before (rn_now x)) PENDING_PER_ROUND s = Inr (pending, s) \<and>
         target \<in> set pending \<and> pm_instance_id target = i \<and> confirmed (rn_matrix x target) target"
    using r by (rule round_marks)
  then have "A = {}" using assms by auto
  then show ?thesis using A(1) r by simp
qed

lemma round_keeps_ids: "map in_id (st_instances (snd (snd (round_of x seen b s)))) = map in_id (st_instances s)"
  by (cases "round_of x seen b s") (auto elim: round_marks)

lemma rounds_keep_ids: "map in_id (st_instances (snd (rounds xs w))) = map in_id (st_instances (snd w))"
  by (induction xs arbitrary: w) (simp_all add: round_keeps_ids)

section \<open>Properties\<close>

text \<open>
  C17: The Matrix devices of revoked instances do not stay logged in: whatever rounds the task has been
  through since the process started, up to a time \<open>t\<close>, once the chat server and the database work again, the
  rounds that come later than the longest backoff and the grace period deregister and mark them all, in at
  most as many rounds as are needed for twenty devices each. The rows must be ones a round can work on
  (\<open>identities_ok\<close>): every revoked instance belongs to a stored agent, and its user and device ids are ones
  that Matrix accepts. Rows that never succeed fill the window of a round and can keep others out
  (\<open>full_window_starves\<close>).
\<close>

theorem revoked_matrix_devices_deregistered:
  assumes "distinct (map in_id (st_instances s0))"
    and "\<forall>x\<in>set before. utc_value (rn_now x) \<le> utc_value t" and "rounds before (Map.empty, s0) = (b, s)"
    and "identities_ok s"
    and "\<forall>x\<in>set later. healthy x \<and> past_grace (rn_now x) s \<and> utc_value t + 900000 \<le> utc_value (rn_now x)"
    and "length (unmarked s) \<le> 20 * length later"
  shows "\<forall>r\<in>set (st_instances (snd (rounds later (b, s)))). in_revoked_at r \<noteq> None \<longrightarrow> in_matrix_revoked_at r \<noteq> None"
proof -
  have "settled_by t b" using rounds_settled [OF assms(2), of "(Map.empty, s0)"] settled_by_empty assms(3) by simp
  then have "all_due (rn_now x) b" if "x \<in> set later" for x
    using that assms(5) by (fastforce simp: all_due_def settled_by_def retry_constants clock_order)
  then have "\<forall>x\<in>set later. healthy x \<and> past_grace (rn_now x) s \<and> all_due (rn_now x) b" using assms(5) by blast
  moreover have "distinct (map in_id (st_instances s))" using rounds_keep_ids [of before "(Map.empty, s0)"] assms(1,3) by simp
  ultimately have "length (unmarked (snd (rounds later (b, s)))) = 0"
    using healthy_rounds [OF _ assms(4)] assms(6) by simp
  then show ?thesis by (auto simp: unmarked_def filter_empty_conv)
qed

text \<open>
  A device is marked as deregistered only after the chat server confirmed it: when a round, with whatever
  failures, marks a row that was unmarked, the instance was revoked and the row was read in this round, its
  identity is valid and the server accepted the call for it. Everything else of the store stays as it was.
\<close>

theorem marked_only_when_confirmed:
  assumes "round_of x seen b s = (out, b', s')"
  shows "s'\<lparr>st_instances := st_instances s\<rparr> = s \<and> length (st_instances s') = length (st_instances s) \<and>
    (\<forall>k<length (st_instances s). st_instances s' ! k \<noteq> st_instances s ! k \<longrightarrow>
      st_instances s' ! k = mark_row (rn_now x) (st_instances s ! k) \<and> in_revoked_at (st_instances s ! k) \<noteq> None \<and>
      (\<exists>pending target. list_pending_matrix_devices (revoked_before (rn_now x)) PENDING_PER_ROUND seen = Inr (pending, seen) \<and>
         target \<in> set pending \<and> pm_instance_id target = in_id (st_instances s ! k) \<and> confirmed (rn_matrix x target) target))"
proof -
  obtain A where A: "s' = mark_rows A (rn_now x) s"
      "\<forall>i\<in>A. \<exists>pending target. list_pending_matrix_devices (revoked_before (rn_now x)) PENDING_PER_ROUND seen = Inr (pending, seen) \<and>
         target \<in> set pending \<and> pm_instance_id target = i \<and> confirmed (rn_matrix x target) target"
    using assms by (rule round_marks)
  have "s'\<lparr>st_instances := st_instances s\<rparr> = s" "length (st_instances s') = length (st_instances s)"
    by (simp_all add: A(1) mark_rows_def)
  then show ?thesis using A(2) by (simp add: A(1) mark_rows_def)
qed

text \<open>
  The wait before the next attempt doubles from thirty seconds up to fifteen minutes, for every failure
  count of the width of the counter: the capped shift and the saturating arithmetic never change it, and it
  never exceeds the cap.
\<close>

theorem retry_delay_doubles:
  "retry_delay n = min (30000 * 2 ^ (n - 1)) 900000 \<and> 30000 \<le> retry_delay n \<and> retry_delay n \<le> 900000"
  using retry_delay_bounds [of n] by (cases n) (simp_all add: retry_delay_eq retry_delay_0)

section \<open>A concrete run\<close>

definition sample_retry_store :: device_store where
  "sample_retry_store = \<lparr>st_principals = [], st_devices = [], st_families = [], st_refresh = [], st_access = [],
     st_attempts = [], st_nonces = [], st_receipts = [], st_grants = [],
     st_instances = [\<lparr>in_id = 1, in_agent_id = 2, in_device_id = 3, in_matrix_device_id = lit ''DEVICE'',
       in_status = InstanceRevoked, in_lease_expires_at = None, in_revoked_at = Some (UtcMillis 1000),
       in_matrix_revoked_at = None\<rparr>],
     st_matrix_users = [(2, lit ''@agent:server'')], st_handoffs = [], st_reservations = [], st_catalog_kinds = [],
     st_network_instances = [], st_departures = []\<rparr>"

definition sample_round :: "int \<Rightarrow> matrix_failure_kind option \<Rightarrow> round_input" where
  "sample_round now answer = \<lparr>rn_now = UtcMillis now, rn_matrix = (\<lambda>_ _ _. answer), rn_read_fault = NoFault,
     rn_fault = (\<lambda>_. NoFault)\<rparr>"

lemma sample_identity:
  "is_ok (matrix_user_id_new (lit ''@agent:server''))" "is_ok (matrix_device_id_new (lit ''DEVICE''))"
  by code_simp+

lemma sample_failed_round:
  "\<exists>b. rounds [sample_round 100000 (Some MxTimeout)] (Map.empty, sample_retry_store) = (b, sample_retry_store)"
proof -
  obtain u d where "matrix_user_id_new (lit ''@agent:server'') = Inr u" "matrix_device_id_new (lit ''DEVICE'') = Inr d"
    using sample_identity by (auto simp: is_ok_def split: sum.splits)
  then show ?thesis
    by (simp add: round_of_def run_transaction_def list_pending_matrix_devices_def query_def sample_round_def
        sample_retry_store_def revoked_before_def utc_new_def i64_saturating_sub_def retry_constants int_width_defs
        clock_order due_def revoke_agent_matrix_device_def describe_failure_def homeserver_unavailable_def
        record_failure_def Let_def)
qed

theorem revoked_matrix_devices_deregistered_witness:
  "\<exists>b. rounds [sample_round 100000 (Some MxTimeout)] (Map.empty, sample_retry_store) = (b, sample_retry_store) \<and>
     length (unmarked sample_retry_store) = 1 \<and>
     (\<forall>r\<in>set (st_instances (snd (rounds [sample_round 1100000 None] (b, sample_retry_store)))).
        in_revoked_at r \<noteq> None \<longrightarrow> in_matrix_revoked_at r \<noteq> None)"
proof -
  obtain b where b: "rounds [sample_round 100000 (Some MxTimeout)] (Map.empty, sample_retry_store) = (b, sample_retry_store)"
    using sample_failed_round by blast
  have l: "length (unmarked sample_retry_store) = 1" by (simp add: unmarked_def sample_retry_store_def)
  have "\<forall>r\<in>set (st_instances (snd (rounds [sample_round 1100000 None] (b, sample_retry_store)))).
        in_revoked_at r \<noteq> None \<longrightarrow> in_matrix_revoked_at r \<noteq> None"
  proof (rule revoked_matrix_devices_deregistered [OF _ _ b, where t = "UtcMillis 100000"])
    show "identities_ok sample_retry_store"
      using sample_identity by (simp add: identities_ok_def sample_retry_store_def target_of_def)
    show "\<forall>x\<in>set [sample_round 1100000 None]. healthy x \<and> past_grace (rn_now x) sample_retry_store \<and>
        utc_value (UtcMillis 100000) + 900000 \<le> utc_value (rn_now x)"
      by (simp add: sample_round_def healthy_def past_grace_def sample_retry_store_def revoked_before_def utc_new_def
          i64_saturating_sub_def retry_constants int_width_defs clock_order utc_ok_def)
  qed (simp_all add: l, simp_all add: sample_retry_store_def sample_round_def)
  then show ?thesis using b l by blast
qed

theorem marked_only_when_confirmed_witness:
  "\<exists>out b s. round_of (sample_round 1100000 None) sample_retry_store Map.empty sample_retry_store = (out, b, s) \<and>
     (st_instances s ! 0 \<noteq> st_instances sample_retry_store ! 0 \<longrightarrow>
        st_instances s ! 0 = mark_row (UtcMillis 1100000) (st_instances sample_retry_store ! 0))"
proof -
  obtain out b s where r: "round_of (sample_round 1100000 None) sample_retry_store Map.empty sample_retry_store = (out, b, s)"
    by (rule prod_cases3)
  have "0 < length (st_instances sample_retry_store)" by (simp add: sample_retry_store_def)
  then show ?thesis using marked_only_when_confirmed [OF r] r by (auto simp: sample_round_def)
qed

end
