(* ===== verification/Reconnect.thy ===== *)
theory Reconnect
  imports Utc_Clock
begin

text \<open>
  The waits of the bridge process (\<^verbatim>\<open>crates/bridge-core/src/reconnect.rs\<close>): the capped exponential
  backoff with equal jitter between connection attempts, the wait that a server asks for, and the moment
  at which a session is refreshed. The saturating arithmetic on \<^verbatim>\<open>u64\<close> and \<^verbatim>\<open>i64\<close> is
  written out; \<open>entropy\<close> is the random word that the caller draws.
\<close>

section \<open>The policy\<close>

record reconnect_policy =
  rp_initial_delay :: duration_millis
  rp_maximum_delay :: duration_millis

definition reconnect_policy_new :: "duration_millis \<Rightarrow> duration_millis \<Rightarrow> reconnect_policy result" where
  "reconnect_policy_new initial_delay maximum_delay =
     (if initial_delay > maximum_delay
      then Inl (Validation ''bridge_reconnect_delay'' ''the initial delay exceeds the maximum'')
      else Inr \<lparr>rp_initial_delay = initial_delay, rp_maximum_delay = maximum_delay\<rparr>)"

definition delay_ceiling :: "reconnect_policy \<Rightarrow> nat \<Rightarrow> int" where
  "delay_ceiling p consecutive_failures =
     min (u64_saturating_mul (duration_value (rp_initial_delay p)) (2 ^ min (consecutive_failures - 1) 63))
       (duration_value (rp_maximum_delay p))"

text \<open>The Rust code expects the final duration to be valid; the theorem \<open>reconnect_delay_bounds\<close> shows that it is.\<close>

definition reconnect_delay :: "reconnect_policy \<Rightarrow> nat \<Rightarrow> int \<Rightarrow> duration_millis result" where
  "reconnect_delay p consecutive_failures entropy =
     (let ceiling = delay_ceiling p consecutive_failures;
          floor = max (ceiling div 2) 1;
          span = u64_saturating_add (u64_saturating_sub ceiling floor) 1
      in duration_new (u64_saturating_add floor (entropy mod span)))"

section \<open>The backoff\<close>

record reconnect_backoff =
  rb_policy :: reconnect_policy
  rb_consecutive_failures :: nat

definition reconnect_backoff_new :: "reconnect_policy \<Rightarrow> reconnect_backoff" where
  "reconnect_backoff_new p = \<lparr>rb_policy = p, rb_consecutive_failures = 0\<rparr>"

definition count_failure :: "reconnect_backoff \<Rightarrow> reconnect_backoff" where
  "count_failure b = b\<lparr>rb_consecutive_failures := min (2 ^ 32 - 1) (rb_consecutive_failures b + 1)\<rparr>"

definition reconnect_failed :: "int \<Rightarrow> reconnect_backoff \<Rightarrow> duration_millis result \<times> reconnect_backoff" where
  "reconnect_failed entropy b =
     (let b' = count_failure b
      in (reconnect_delay (rb_policy b') (rb_consecutive_failures b') entropy, b'))"

definition reconnect_failed_after ::
  "duration_millis \<Rightarrow> reconnect_backoff \<Rightarrow> duration_millis \<times> reconnect_backoff" where
  "reconnect_failed_after retry_after b =
     (let b' = count_failure b;
          capped = max (min (duration_value retry_after) (duration_value (rp_maximum_delay (rb_policy b)))) 1
      in (case duration_new capped of Inl _ \<Rightarrow> rp_maximum_delay (rb_policy b) | Inr d \<Rightarrow> d, b'))"

definition reconnect_connected :: "reconnect_backoff \<Rightarrow> reconnect_backoff" where
  "reconnect_connected b = b\<lparr>rb_consecutive_failures := 0\<rparr>"

section \<open>The refresh plan\<close>

datatype refresh_plan = DueNow | After duration_millis

definition refresh_plan_calculate :: "utc_millis \<Rightarrow> utc_millis \<Rightarrow> duration_millis \<Rightarrow> refresh_plan" where
  "refresh_plan_calculate access_token_expires_at now refresh_lead_time =
     (let lead = (case i64_try_from (duration_value refresh_lead_time) of None \<Rightarrow> i64_max | Some n \<Rightarrow> n);
          refresh_at = i64_saturating_sub (utc_value access_token_expires_at) lead;
          remaining = i64_saturating_sub refresh_at (utc_value now)
      in if remaining \<le> 0 then DueNow
         else (case duration_new remaining of Inl _ \<Rightarrow> DueNow | Inr d \<Rightarrow> After d))"

section \<open>Lemmas\<close>

definition policy_ok :: "reconnect_policy \<Rightarrow> bool" where
  "policy_ok p \<longleftrightarrow> duration_ok (rp_initial_delay p) \<and> duration_ok (rp_maximum_delay p) \<and>
     rp_initial_delay p \<le> rp_maximum_delay p"

lemma policy_new_ok:
  "duration_ok a \<Longrightarrow> duration_ok b \<Longrightarrow> reconnect_policy_new a b = Inr p \<Longrightarrow> policy_ok p"
  by (auto simp: reconnect_policy_new_def policy_ok_def split: if_splits)

lemma delay_ceiling_bounds:
  assumes "policy_ok p"
  shows "1 \<le> delay_ceiling p n" and "delay_ceiling p n \<le> duration_value (rp_maximum_delay p)"
    and "delay_ceiling p n \<le> u64_max"
proof -
  have i: "1 \<le> duration_value (rp_initial_delay p)" "1 \<le> duration_value (rp_maximum_delay p)"
      "duration_value (rp_maximum_delay p) \<le> u64_max"
    using assms by (auto simp: policy_ok_def duration_ok_def)
  moreover have "1 \<le> duration_value (rp_initial_delay p) * 2 ^ min (n - 1) 63"
    using mult_mono [of 1 "duration_value (rp_initial_delay p)" 1 "2 ^ min (n - 1) 63"] i(1) by simp
  ultimately show "1 \<le> delay_ceiling p n" "delay_ceiling p n \<le> duration_value (rp_maximum_delay p)"
      "delay_ceiling p n \<le> u64_max"
    by (auto simp: delay_ceiling_def u64_saturating_mul_def u64_max_def)
qed

text \<open>
  The ceiling is the doubled delay, cut off at the maximum. The cut of the shift shows only for a maximum
  beyond \<open>2 ^ 63\<close> milliseconds.
\<close>

lemma delay_ceiling_eq:
  assumes "policy_ok p" and "1 \<le> n" and "duration_value (rp_maximum_delay p) \<le> 2 ^ 63"
  shows "delay_ceiling p n = min (duration_value (rp_initial_delay p) * 2 ^ (n - 1)) (duration_value (rp_maximum_delay p))"
proof -
  let ?i = "duration_value (rp_initial_delay p)" and ?m = "duration_value (rp_maximum_delay p)"
  have b: "1 \<le> ?i" "?i \<le> ?m" using assms by (auto simp: policy_ok_def duration_ok_def clock_order)
  show ?thesis
  proof (cases "n - 1 \<le> 63")
    case True
    then have "min (n - 1) 63 = n - 1" by simp
    then show ?thesis using assms(3) by (simp add: delay_ceiling_def u64_saturating_mul_def u64_max_def min_def)
  next
    case False
    then have "(2::int) ^ 63 \<le> 2 ^ (n - 1)" by (intro power_increasing) simp_all
    then have "?m \<le> ?i * 2 ^ (n - 1)" "?m \<le> ?i * 2 ^ 63"
      using mult_mono [of 1 ?i "2 ^ 63" "2 ^ (n - 1)"] mult_mono [of 1 ?i "2 ^ 63" "2 ^ 63"] b assms(3) by simp_all
    then show ?thesis using False assms(3) by (simp add: delay_ceiling_def u64_saturating_mul_def u64_max_def min_def)
  qed
qed

section \<open>Properties\<close>

text \<open>
  The wait before the next attempt is always a valid duration and lies in the upper half of the ceiling,
  which doubles with every failure in a row up to the maximum: for every random word and every number of
  failures, so the conversion that the code expects to succeed does.
\<close>

theorem reconnect_delay_bounds:
  assumes "duration_ok initial" and "duration_ok maximum" and "reconnect_policy_new initial maximum = Inr p"
    and "duration_value maximum \<le> 2 ^ 63" and "0 \<le> entropy" and "1 \<le> n"
  shows "\<exists>d c. reconnect_delay p n entropy = Inr d \<and>
    c = min (duration_value initial * 2 ^ (n - 1)) (duration_value maximum) \<and>
    max 1 (c div 2) \<le> duration_value d \<and> duration_value d \<le> c"
proof -
  have p: "policy_ok p" "p = \<lparr>rp_initial_delay = initial, rp_maximum_delay = maximum\<rparr>"
    using policy_new_ok assms(1-3) by (auto simp: reconnect_policy_new_def split: if_splits)
  define c where "c = delay_ceiling p n"
  have c: "1 \<le> c" "c \<le> u64_max" using delay_ceiling_bounds p(1) by (simp_all add: c_def)
  have eq: "c = min (duration_value initial * 2 ^ (n - 1)) (duration_value maximum)"
    using delay_ceiling_eq [OF p(1) assms(6)] assms(4) by (simp add: c_def p(2))
  define f where "f = max (c div 2) 1"
  define span where "span = u64_saturating_add (u64_saturating_sub c f) 1"
  have f: "1 \<le> f" "f \<le> c" using c by (auto simp: f_def)
  then have span: "span = c - f + 1"
    using c(2) by (simp add: span_def u64_saturating_add_def u64_saturating_sub_def)
  have m: "0 \<le> entropy mod span" "entropy mod span \<le> c - f"
    using pos_mod_sign [of span entropy] pos_mod_bound [of span entropy] f by (simp_all add: span)
  then have "u64_saturating_add f (entropy mod span) = f + entropy mod span"
    using c f by (simp add: u64_saturating_add_def)
  moreover have "reconnect_delay p n entropy = duration_new (u64_saturating_add f (entropy mod span))"
    by (simp add: reconnect_delay_def Let_def c_def f_def span_def)
  ultimately have "reconnect_delay p n entropy = Inr (DurationMillis (f + entropy mod span))"
    using f m by (simp add: duration_new_def)
  moreover have "max 1 (c div 2) \<le> f + entropy mod span" "f + entropy mod span \<le> c"
    using m by (auto simp: f_def)
  ultimately show ?thesis using eq by auto
qed

theorem reconnect_delay_bounds_witness:
  "\<exists>p d. reconnect_policy_new (DurationMillis 1000) (DurationMillis 8000) = Inr p \<and>
     reconnect_delay p 3 123456789 = Inr d \<and> 2000 \<le> duration_value d \<and> duration_value d \<le> 4000"
proof -
  obtain p where p: "reconnect_policy_new (DurationMillis 1000) (DurationMillis 8000) = Inr p"
    by (simp add: reconnect_policy_new_def)
  show ?thesis
    using reconnect_delay_bounds [OF _ _ p, of 123456789 3] p by (auto simp: duration_ok_def u64_max_def)
qed

text \<open>
  The refresh of a session is planned for exactly the lead time before the token expires; when that moment
  has passed, as after a sleep of the computer, it is due at once.
\<close>

theorem refresh_plan_exact:
  assumes "utc_ok expires" and "utc_ok now" and "duration_ok lead" and "duration_value lead \<le> i64_max"
  shows "refresh_plan_calculate expires now lead =
    (if utc_value now < utc_value expires - duration_value lead
     then After (DurationMillis (utc_value expires - duration_value lead - utc_value now)) else DueNow)"
proof -
  have "i64_saturating_sub (utc_value expires) (duration_value lead) = utc_value expires - duration_value lead"
    using assms by (simp add: i64_saturating_sub_def utc_ok_def duration_ok_def int_width_defs)
  then show ?thesis
    using assms
    by (auto simp: refresh_plan_calculate_def Let_def i64_try_from_def i64_saturating_sub_def utc_ok_def
        duration_ok_def duration_new_def int_width_defs)
qed

theorem refresh_plan_exact_witness:
  "refresh_plan_calculate (UtcMillis 120000) (UtcMillis 60000) (DurationMillis 30000) = After (DurationMillis 30000)"
  using refresh_plan_exact [of "UtcMillis 120000" "UtcMillis 60000" "DurationMillis 30000"]
  by (simp add: utc_ok_def duration_ok_def int_width_defs)

text \<open>A success starts the backoff anew, and a wait that the server asks for is capped and counted.\<close>

lemma reconnect_restarts:
  "reconnect_failed entropy (reconnect_connected b) =
     (reconnect_delay (rb_policy b) 1 entropy, b\<lparr>rb_consecutive_failures := 1\<rparr>)"
  by (simp add: reconnect_failed_def reconnect_connected_def count_failure_def Let_def)

lemma reconnect_after_capped:
  "duration_ok d \<Longrightarrow> duration_ok (rp_maximum_delay (rb_policy b)) \<Longrightarrow>
     fst (reconnect_failed_after d b) = min d (rp_maximum_delay (rb_policy b))"
  by (cases d) (auto simp: reconnect_failed_after_def Let_def duration_new_def duration_ok_def min_def clock_order
      duration_millis.expand)

end
