(* ===== verification/Ordered_Maps.thy ===== *)
theory Ordered_Maps
  imports Main "HOL-Library.List_Lexorder"
begin

text \<open>
  \<^verbatim>\<open>BTreeMap\<close> as the list of its entries in the order of the keys, with the operations the
  source uses. Iteration is the list itself; \<open>map_of\<close> is the lookup. Texts are ordered by their code points,
  which is the order of their UTF-8 bytes.
\<close>

definition ordered_map :: "('k::linorder \<times> 'v) list \<Rightarrow> bool" where
  "ordered_map m \<longleftrightarrow> sorted_wrt (<) (map fst m)"

fun map_insert :: "'k::linorder \<Rightarrow> 'v \<Rightarrow> ('k \<times> 'v) list \<Rightarrow> ('k \<times> 'v) list" where
  "map_insert k v [] = [(k, v)]"
| "map_insert k v ((i, w) # m) =
     (if k < i then (k, v) # (i, w) # m
      else if k = i then (k, v) # m
      else (i, w) # map_insert k v m)"

definition map_delete :: "'k \<Rightarrow> ('k \<times> 'v) list \<Rightarrow> ('k \<times> 'v) list" where
  "map_delete k m = filter (\<lambda>e. fst e \<noteq> k) m"

definition map_retain :: "('k \<Rightarrow> 'v \<Rightarrow> bool) \<Rightarrow> ('k \<times> 'v) list \<Rightarrow> ('k \<times> 'v) list" where
  "map_retain p m = filter (\<lambda>e. p (fst e) (snd e)) m"

definition map_values :: "('k \<times> 'v) list \<Rightarrow> 'v list" where
  "map_values m = map snd m"

lemma ordered_map_distinct: "ordered_map m \<Longrightarrow> distinct (map fst m)"
  using strict_sorted_iff by (auto simp: ordered_map_def)

lemma ordered_map_Nil [simp]: "ordered_map []"
  by (simp add: ordered_map_def)

lemma keys_map_insert: "fst ` set (map_insert k v m) = insert k (fst ` set m)"
  by (induction k v m rule: map_insert.induct) auto

lemma ordered_map_insert [intro]: "ordered_map m \<Longrightarrow> ordered_map (map_insert k v m)"
  unfolding ordered_map_def
proof (induction k v m rule: map_insert.induct)
  case (2 k v i w m)
  have "i < x" if "x \<in> fst ` set (map_insert k v m)" "i < k" for x
    using that 2(2) by (auto simp: keys_map_insert)
  then show ?case using 2 by (auto simp: not_less_iff_gr_or_eq)
qed simp

lemma map_of_insert [simp]: "ordered_map m \<Longrightarrow> map_of (map_insert k v m) = (map_of m)(k \<mapsto> v)"
proof (induction k v m rule: map_insert.induct)
  case (2 k v i w m)
  then have "ordered_map m" by (simp add: ordered_map_def)
  then show ?case using 2 by (auto simp: fun_eq_iff)
qed (simp add: fun_eq_iff)

lemma ordered_map_filter: "ordered_map m \<Longrightarrow> ordered_map (filter p m)"
proof -
  have "sorted_wrt (<) (map fst m) \<Longrightarrow> sorted_wrt (<) (map fst (filter p m))"
    by (induction m) auto
  then show "ordered_map m \<Longrightarrow> ordered_map (filter p m)" by (simp add: ordered_map_def)
qed

lemma ordered_map_retain [intro]: "ordered_map m \<Longrightarrow> ordered_map (map_retain p m)"
  by (simp add: map_retain_def ordered_map_filter)

lemma ordered_map_delete [intro]: "ordered_map m \<Longrightarrow> ordered_map (map_delete k m)"
  by (simp add: map_delete_def ordered_map_filter)

lemma map_of_ordered: "ordered_map m \<Longrightarrow> map_of m k = Some v \<longleftrightarrow> (k, v) \<in> set m"
  by (simp add: ordered_map_distinct)

lemma map_of_retain: "ordered_map m \<Longrightarrow>
    map_of (map_retain p m) k = (case map_of m k of None \<Rightarrow> None | Some v \<Rightarrow> if p k v then Some v else None)"
proof (induction m)
  case (Cons e m)
  then have o: "ordered_map m" "\<forall>x\<in>fst ` set m. fst e < x" by (simp_all add: ordered_map_def)
  then have "fst e \<notin> fst ` set m" by auto
  then have "map_of m (fst e) = None" by (simp add: map_of_eq_None_iff)
  then show ?case using Cons.IH [OF o(1)] by (cases e) (auto simp: map_retain_def split: option.splits)
qed (simp add: map_retain_def)

lemma map_of_delete: "map_of (map_delete k m) = (map_of m)(k := None)"
  by (induction m) (auto simp: map_delete_def fun_eq_iff)

lemma in_map_insert: "e \<in> set (map_insert k v m) \<Longrightarrow> e = (k, v) \<or> e \<in> set m"
  by (induction k v m rule: map_insert.induct) (auto split: if_splits)

lemma in_map_retain [simp]: "(k, v) \<in> set (map_retain p m) \<longleftrightarrow> (k, v) \<in> set m \<and> p k v"
  by (auto simp: map_retain_def)

lemma in_map_delete: "e \<in> set (map_delete k m) \<longleftrightarrow> e \<in> set m \<and> fst e \<noteq> k"
  by (auto simp: map_delete_def)

end
