(* ===== verification/Presence_Tracker.thy ===== *)
theory Presence_Tracker
  imports Agent_Presence Matrix_Device_Retry
begin

text \<open>
  Who is online according to the Matrix server, as one connection saw it
  (\<^verbatim>\<open>crates/bridge-core/src/presence_tracker.rs\<close>), and whether the server supports presence at all
  (\<^verbatim>\<open>presence_support.rs\<close>). Only what this connection received counts: the users of a sync and
  the answers to single questions. A moment of going offline is believed only of a user who was being
  watched, that is confirmed online within the last two minutes.
\<close>

section \<open>The tracker\<close>

definition WATCHING_GAP_MS :: int where "WATCHING_GAP_MS = 120000"
definition PRESENCE_FETCH_RETRY_MS :: int where "PRESENCE_FETCH_RETRY_MS = 60000"

record user_presence =
  up_user_id :: utext
  up_state :: matrix_presence
  up_last_active_ago_ms :: "int option"

record presence_update =
  pu_observed_at :: utc_millis
  pu_full_state :: bool
  pu_users :: "user_presence list"

record tracked_presence =
  tp_observation :: presence_observation
  tp_confirmed_at :: "int option"

record presence_tracker =
  pt_entries :: "utext \<rightharpoonup> tracked_presence"
  pt_failed_at :: "utext \<rightharpoonup> int"

definition presence_tracker_new :: presence_tracker where
  "presence_tracker_new = \<lparr>pt_entries = Map.empty, pt_failed_at = Map.empty\<rparr>"

definition offline_seen_at :: "tracked_presence option \<Rightarrow> int \<Rightarrow> int option" where
  "offline_seen_at previous at =
     (case previous of
        None \<Rightarrow> None
      | Some t \<Rightarrow>
          if po_state (tp_observation t) = MatrixOffline then po_offline_seen_at (tp_observation t)
          else (case tp_confirmed_at t of
                  None \<Rightarrow> None
                | Some since \<Rightarrow> if at - since \<le> WATCHING_GAP_MS then Some at else None))"

definition record_presence :: "user_presence \<Rightarrow> int \<Rightarrow> presence_tracker \<Rightarrow> presence_tracker" where
  "record_presence p at t =
     (let last_active_at =
            map_option (i64_saturating_sub at) (Option.bind (up_last_active_ago_ms p) i64_try_from);
          tracked =
            (if up_state p = MatrixOffline
             then \<lparr>tp_observation = \<lparr>po_state = up_state p,
                     po_offline_seen_at = offline_seen_at (pt_entries t (up_user_id p)) at,
                     po_last_active_at = last_active_at\<rparr>,
                   tp_confirmed_at = None\<rparr>
             else \<lparr>tp_observation = \<lparr>po_state = up_state p, po_offline_seen_at = None,
                     po_last_active_at = last_active_at\<rparr>,
                   tp_confirmed_at = Some at\<rparr>)
      in t\<lparr>pt_entries := (pt_entries t)(up_user_id p \<mapsto> tracked)\<rparr>)"

definition confirm_entry :: "int \<Rightarrow> tracked_presence \<Rightarrow> tracked_presence" where
  "confirm_entry at e = (if po_state (tp_observation e) \<noteq> MatrixOffline then e\<lparr>tp_confirmed_at := Some at\<rparr> else e)"

definition apply_presence_sync :: "presence_update \<Rightarrow> presence_tracker \<Rightarrow> presence_tracker" where
  "apply_presence_sync u t =
     (let at = utc_value (pu_observed_at u);
          cleared = (if pu_full_state u then t\<lparr>pt_entries := Map.empty\<rparr> else t);
          recorded = fold (\<lambda>p. record_presence p at) (pu_users u) cleared
      in recorded\<lparr>pt_entries := map_option (confirm_entry at) \<circ> pt_entries recorded\<rparr>)"

definition record_fetched :: "utext \<Rightarrow> user_presence option \<Rightarrow> utc_millis \<Rightarrow> presence_tracker \<Rightarrow> presence_tracker" where
  "record_fetched user p at t =
     (case p of
        None \<Rightarrow> t\<lparr>pt_failed_at := (pt_failed_at t)(user \<mapsto> utc_value at)\<rparr>
      | Some x \<Rightarrow>
          (let t' = t\<lparr>pt_failed_at := (pt_failed_at t)(user := None)\<rparr>
           in if pt_entries t' user = None then record_presence x (utc_value at) t' else t'))"

definition tracker_observation :: "utext \<Rightarrow> presence_tracker \<Rightarrow> presence_observation option" where
  "tracker_observation user t = map_option tp_observation (pt_entries t user)"

definition tracker_wants :: "utext \<Rightarrow> utc_millis \<Rightarrow> presence_tracker \<Rightarrow> bool" where
  "tracker_wants user now t \<longleftrightarrow> pt_entries t user = None \<and>
     (case pt_failed_at t user of None \<Rightarrow> True | Some failed \<Rightarrow> utc_value now - failed \<ge> PRESENCE_FETCH_RETRY_MS)"

section \<open>Support of the server\<close>

datatype presence_support = SupportUnknown nat | SupportEnabled | SupportDisabled

definition OFFLINE_READS_BEFORE_DISABLED :: nat where "OFFLINE_READS_BEFORE_DISABLED = 2"

definition presence_unsupported :: "matrix_failure_kind \<Rightarrow> bool" where
  "presence_unsupported k \<longleftrightarrow> k \<in> {MxNotFound, MxForbidden, MxUnsupportedVersion}"

text \<open>
  \<open>report\<close> and \<open>answer\<close> are what the server replies to the report and to the reading of the own presence.
  A report that failed does not keep the reading from being done, but an offline reading after it proves
  nothing.
\<close>

definition presence_probe ::
  "matrix_failure_kind option \<Rightarrow> matrix_failure_kind + matrix_presence \<Rightarrow> presence_support \<Rightarrow>
     matrix_failure_kind option \<times> presence_support" where
  "presence_probe report answer s =
     (case s of
        SupportUnknown offline_reads \<Rightarrow>
          if opt_any report presence_unsupported then (None, SupportDisabled)
          else
            (case answer of
               Inr MatrixOffline \<Rightarrow>
                 (if report \<noteq> None then (report, s)
                  else (let n = min 255 (offline_reads + 1)
                        in (None, if n \<ge> OFFLINE_READS_BEFORE_DISABLED then SupportDisabled else SupportUnknown n)))
             | Inr _ \<Rightarrow> (None, SupportEnabled)
             | Inl k \<Rightarrow>
                 if presence_unsupported k then (None, SupportDisabled)
                 else (Some (unwrap_or report k), s))
      | _ \<Rightarrow> (None, s))"

section \<open>Watching\<close>

datatype tracker_event = SyncArrived presence_update | Fetched utext "user_presence option" utc_millis

fun tracker_step :: "tracker_event \<Rightarrow> presence_tracker \<Rightarrow> presence_tracker" where
  "tracker_step (SyncArrived u) t = apply_presence_sync u t"
| "tracker_step (Fetched user p at) t = record_fetched user p at t"

fun event_time :: "tracker_event \<Rightarrow> int" where
  "event_time (SyncArrived u) = utc_value (pu_observed_at u)"
| "event_time (Fetched user p at) = utc_value at"

text \<open>
  An entry is well formed: offline entries are not being watched, others were confirmed at some moment and have
  no moment of going offline.
\<close>

definition entry_ok :: "tracked_presence \<Rightarrow> bool" where
  "entry_ok e \<longleftrightarrow>
     (if po_state (tp_observation e) = MatrixOffline then tp_confirmed_at e = None
      else tp_confirmed_at e \<noteq> None \<and> po_offline_seen_at (tp_observation e) = None)"

definition tracker_ok :: "presence_tracker \<Rightarrow> bool" where
  "tracker_ok t \<longleftrightarrow> (\<forall>e\<in>ran (pt_entries t). entry_ok e)"

lemma record_presence_other: "user \<noteq> up_user_id p \<Longrightarrow> pt_entries (record_presence p at t) user = pt_entries t user"
  by (simp add: record_presence_def Let_def)

lemma record_presence_ok: "tracker_ok t \<Longrightarrow> tracker_ok (record_presence p at t)"
  by (auto simp: tracker_ok_def record_presence_def Let_def entry_ok_def ran_def)

lemma confirm_entry_simps [simp]:
  "tp_observation (confirm_entry at e) = tp_observation e"
  "po_state (tp_observation e) \<noteq> MatrixOffline \<Longrightarrow> tp_confirmed_at (confirm_entry at e) = Some at"
  by (simp_all add: confirm_entry_def)

lemma confirm_ok: "entry_ok e \<Longrightarrow> entry_ok (confirm_entry at e)"
  by (auto simp: entry_ok_def confirm_entry_def)

lemma tracker_step_ok: "tracker_ok t \<Longrightarrow> tracker_ok (tracker_step e t)"
proof (cases e)
  case (SyncArrived u)
  assume t: "tracker_ok t"
  let ?at = "utc_value (pu_observed_at u)" and ?t = "if pu_full_state u then t\<lparr>pt_entries := Map.empty\<rparr> else t"
  have fold_ok: "tracker_ok (fold (\<lambda>p. record_presence p at) ps s)" if "tracker_ok s" for ps s at
    using that by (induction ps arbitrary: s) (auto simp: record_presence_ok)
  define r where "r = fold (\<lambda>p. record_presence p ?at) (pu_users u) ?t"
  have "tracker_ok ?t" using t by (simp add: tracker_ok_def)
  then have "tracker_ok r" unfolding r_def by (rule fold_ok)
  then have "entry_ok (confirm_entry ?at x)" if "pt_entries r user = Some x" for user x
    using that by (auto simp: tracker_ok_def ran_def intro: confirm_ok)
  then have "tracker_ok (r\<lparr>pt_entries := map_option (confirm_entry ?at) \<circ> pt_entries r\<rparr>)"
    by (auto simp: tracker_ok_def ran_def)
  moreover have "tracker_step e t = r\<lparr>pt_entries := map_option (confirm_entry ?at) \<circ> pt_entries r\<rparr>"
    by (simp add: SyncArrived apply_presence_sync_def Let_def r_def)
  ultimately show ?thesis by simp
next
  case (Fetched user p at)
  assume t: "tracker_ok t"
  have "tracker_ok (t\<lparr>pt_failed_at := m\<rparr>)" for m using t by (simp add: tracker_ok_def)
  then show ?thesis using record_presence_ok
    by (simp add: Fetched record_fetched_def Let_def split: option.split)
qed

section \<open>Deciding on the support\<close>

definition probe_step ::
  "matrix_failure_kind option \<times> (matrix_failure_kind + matrix_presence) \<Rightarrow> presence_support \<Rightarrow>
     matrix_failure_kind option \<times> presence_support" where
  "probe_step c s = presence_probe (fst c) (snd c) s"

definition support_decided :: "presence_support \<Rightarrow> bool" where
  "support_decided s \<longleftrightarrow> s \<in> {SupportEnabled, SupportDisabled}"

interpretation support: final_machine probe_step support_decided
  by unfold_locales (auto simp: probe_step_def presence_probe_def support_decided_def)

definition offline_read :: "matrix_failure_kind option \<times> (matrix_failure_kind + matrix_presence) \<Rightarrow> bool" where
  "offline_read c \<longleftrightarrow> c = (None, Inr MatrixOffline)"

definition refuses :: "matrix_failure_kind option \<times> (matrix_failure_kind + matrix_presence) \<Rightarrow> bool" where
  "refuses c \<longleftrightarrow> opt_any (fst c) presence_unsupported \<or> (case snd c of Inl k \<Rightarrow> presence_unsupported k | Inr _ \<Rightarrow> False)"

lemma probe_unknown:
  "n \<le> 1 \<Longrightarrow> snd (probe_step c (SupportUnknown n)) =
     (if opt_any (fst c) presence_unsupported then SupportDisabled
      else if offline_read c then (if n = 1 then SupportDisabled else SupportUnknown 1)
      else if snd c \<in> {Inr MatrixOnline, Inr MatrixUnavailable} then SupportEnabled
      else if refuses c then SupportDisabled else SupportUnknown n)"
  by (cases c; cases "snd c")
    (auto simp: probe_step_def presence_probe_def Let_def OFFLINE_READS_BEFORE_DISABLED_def offline_read_def refuses_def
      le_Suc_eq split: matrix_presence.splits)

lemma probes_decide:
  assumes "n \<le> 1" and "replay probe_step cs (SupportUnknown n) = s"
  shows "(s = SupportDisabled \<longrightarrow> (\<exists>c\<in>set cs. refuses c) \<or> 2 \<le> n + length (filter offline_read cs)) \<and>
    (s = SupportEnabled \<longrightarrow> (\<exists>c\<in>set cs. snd c \<in> {Inr MatrixOnline, Inr MatrixUnavailable}))"
  using assms
proof (induction cs arbitrary: n)
  case (Cons c cs)
  let ?t = "snd (probe_step c (SupportUnknown n))"
  have step: "replay probe_step cs ?t = s" using Cons.prems(2) by simp
  consider (dis) "?t = SupportDisabled" | (en) "?t = SupportEnabled" "snd c \<in> {Inr MatrixOnline, Inr MatrixUnavailable}"
    | (off) "?t = SupportUnknown 1" "offline_read c" "n = 0" | (same) "?t = SupportUnknown n" "\<not> offline_read c"
    using probe_unknown [OF Cons.prems(1), of c] Cons.prems(1) by (cases n) (auto split: if_splits)
  then show ?case
  proof cases
    case dis
    then have "s = SupportDisabled" using step support.replay_final by (simp add: support_decided_def)
    moreover have "refuses c \<or> offline_read c \<and> n = 1"
      using dis probe_unknown [OF Cons.prems(1), of c] by (auto simp: refuses_def split: if_splits)
    ultimately show ?thesis by auto
  next
    case en
    then have "s = SupportEnabled" using step support.replay_final by (simp add: support_decided_def)
    then show ?thesis using en(2) by auto
  next
    case off
    then show ?thesis using Cons.IH [of 1] step by auto
  next
    case same
    then show ?thesis using Cons.IH [OF Cons.prems(1)] step by auto
  qed
qed auto

section \<open>Successive syncs\<close>

text \<open>What a sync leaves of a user it mentions once, and of one it does not mention.\<close>

lemma fold_record_other:
  "user \<notin> up_user_id ` set ps \<Longrightarrow> pt_entries (fold (\<lambda>p. record_presence p at) ps t) user = pt_entries t user"
  by (induction ps arbitrary: t) (auto simp: record_presence_other)

lemma fold_record_once:
  assumes "distinct (map up_user_id ps)" and "p \<in> set ps"
  shows "pt_entries (fold (\<lambda>p. record_presence p at) ps t) (up_user_id p) =
    pt_entries (record_presence p at t) (up_user_id p)"
proof -
  obtain as bs where ps: "ps = as @ p # bs" using assms(2) by (meson split_list)
  have o: "up_user_id p \<notin> up_user_id ` set as" "up_user_id p \<notin> up_user_id ` set bs" using assms(1) by (auto simp: ps)
  let ?t = "fold (\<lambda>p. record_presence p at) as t"
  have "pt_entries (record_presence p at ?t) (up_user_id p) = pt_entries (record_presence p at t) (up_user_id p)"
    using fold_record_other [OF o(1)] by (simp add: record_presence_def Let_def)
  then show ?thesis using fold_record_other [OF o(2)] by (simp add: ps)
qed

lemma sync_confirms:
  assumes "pt_entries (apply_presence_sync u t) user = Some e" and "po_state (tp_observation e) \<noteq> MatrixOffline"
  shows "tp_confirmed_at e = Some (utc_value (pu_observed_at u))"
  using assms by (auto simp: apply_presence_sync_def Let_def simp del: fold_simps split: if_splits)

section \<open>Properties\<close>

text \<open>
  A moment of going offline is observed, never guessed: when a sync reports a user offline, the moment
  is the one of this sync only if the user was tracked as not offline after the sync before and that was at
  most two minutes ago; a user seen offline before keeps the earlier moment; and nobody is said to have gone
  offline at a moment the connection did not watch.
\<close>

theorem offline_moment_watched:
  assumes "tracker_ok t0" and "t = apply_presence_sync u0 t0" and "\<not> pu_full_state u"
    and "distinct (map up_user_id (pu_users u))" and "p \<in> set (pu_users u)" and "up_state p = MatrixOffline"
  shows "map_option po_offline_seen_at (tracker_observation (up_user_id p) (apply_presence_sync u t)) = Some
    (case tracker_observation (up_user_id p) t of
       None \<Rightarrow> None
     | Some o0 \<Rightarrow>
         if po_state o0 = MatrixOffline then po_offline_seen_at o0
         else if utc_value (pu_observed_at u) - utc_value (pu_observed_at u0) \<le> 120000
         then Some (utc_value (pu_observed_at u)) else None)"
proof -
  let ?at = "utc_value (pu_observed_at u)" and ?user = "up_user_id p"
  have new: "pt_entries (apply_presence_sync u t) ?user =
      map_option (confirm_entry ?at) (pt_entries (record_presence p ?at t) ?user)"
    using assms(3) fold_record_once [OF assms(4,5)] by (simp add: apply_presence_sync_def Let_def)
  have rec: "map_option (po_offline_seen_at \<circ> tp_observation) (pt_entries (record_presence p ?at t) ?user) =
      Some (offline_seen_at (pt_entries t ?user) ?at)"
    "map_option (po_state \<circ> tp_observation) (pt_entries (record_presence p ?at t) ?user) = Some MatrixOffline"
    using assms(6) by (simp_all add: record_presence_def Let_def)
  have "map_option po_offline_seen_at (tracker_observation ?user (apply_presence_sync u t)) =
      Some (offline_seen_at (pt_entries t ?user) ?at)"
    using rec by (auto simp: tracker_observation_def new option.map_comp o_def)
  moreover have "offline_seen_at (pt_entries t ?user) ?at =
    (case tracker_observation ?user t of
       None \<Rightarrow> None
     | Some o0 \<Rightarrow>
         if po_state o0 = MatrixOffline then po_offline_seen_at o0
         else if ?at - utc_value (pu_observed_at u0) \<le> 120000 then Some ?at else None)"
    using sync_confirms [of u0 t0 ?user]
    by (auto simp: offline_seen_at_def tracker_observation_def assms(2) WATCHING_GAP_MS_def split: option.splits)
  ultimately show ?thesis by simp
qed

theorem offline_moment_watched_witness:
  "\<exists>t u. map_option po_offline_seen_at (tracker_observation [64] (apply_presence_sync u t)) = Some (Some 1060000)"
proof -
  let ?on = "\<lparr>pu_observed_at = UtcMillis 1030000, pu_full_state = True,
    pu_users = [\<lparr>up_user_id = [64], up_state = MatrixOnline, up_last_active_ago_ms = Some 0\<rparr>]\<rparr>"
  let ?p = "\<lparr>up_user_id = [64], up_state = MatrixOffline, up_last_active_ago_ms = Some 40000\<rparr>"
  let ?off = "\<lparr>pu_observed_at = UtcMillis 1060000, pu_full_state = False, pu_users = [?p]\<rparr>"
  let ?t = "apply_presence_sync ?on presence_tracker_new"
  have "tracker_ok presence_tracker_new" by (simp add: tracker_ok_def presence_tracker_new_def)
  moreover have "map_option po_state (tracker_observation [64] ?t) = Some MatrixOnline"
    by (simp add: tracker_observation_def apply_presence_sync_def record_presence_def presence_tracker_new_def
        confirm_entry_def Let_def)
  ultimately show ?thesis
    using offline_moment_watched [of presence_tracker_new ?t ?on ?off ?p]
    by (intro exI [of _ ?t] exI [of _ ?off]) (auto split: option.splits)
qed

text \<open>
  The bridge gives presence up only on evidence: after any probes, it holds the server not to support
  presence only when the server refused one of them or answered offline to two readings whose report was
  accepted, and to support it only when a reading was not offline; what was decided stays.
\<close>

theorem presence_support_evidence:
  assumes "replay probe_step cs (SupportUnknown 0) = s"
  shows "(s = SupportDisabled \<longrightarrow> (\<exists>c\<in>set cs. refuses c) \<or> 2 \<le> length (filter offline_read cs)) \<and>
    (s = SupportEnabled \<longrightarrow> (\<exists>c\<in>set cs. snd c \<in> {Inr MatrixOnline, Inr MatrixUnavailable})) \<and>
    (support_decided s \<longrightarrow> replay probe_step (cs @ ds) (SupportUnknown 0) = s)"
  using probes_decide [OF _ assms] support.replay_prefix_final [of cs "SupportUnknown 0" ds] assms by auto

theorem presence_support_evidence_witness:
  "replay probe_step ([(None, Inr MatrixOffline), (Some MxRateLimited, Inr MatrixOffline), (None, Inr MatrixOffline)] @
     [(None, Inr MatrixOnline)]) (SupportUnknown 0) = SupportDisabled"
proof -
  have "replay probe_step [(None, Inr MatrixOffline), (Some MxRateLimited, Inr MatrixOffline), (None, Inr MatrixOffline)]
      (SupportUnknown 0) = SupportDisabled"
    by (simp add: probe_step_def presence_probe_def OFFLINE_READS_BEFORE_DISABLED_def presence_unsupported_def)
  from presence_support_evidence [OF this, of "[(None, Inr MatrixOnline)]"] show ?thesis
    by (simp add: support_decided_def)
qed

end
