(* ===== verification/Presence_Projection.thy ===== *)
theory Presence_Projection
  imports Ordered_Maps Presence_Tracker "HOL-Library.Product_Lexorder"
begin

text \<open>
  What a bridge knows of the agents in its rooms. \<^verbatim>\<open>crates/bridge-core/src/agent_identity.rs\<close>
  is the public identity in an event, the first part of \<^verbatim>\<open>presence.rs\<close> the verified status and the
  lease that is granted to it, and
  \<^verbatim>\<open>crates/bridge-storage-adapter/src/presence_projection.rs\<close> the projection: per room the joined users
  and the latest status of every instance, next to the presence of the users. The questions for missing
  presence (\<^verbatim>\<open>fetch_missing_presence\<close>) are a loop that needs not end, so it has fuel.
\<close>

section \<open>The public identity of an agent\<close>

record agent_identity =
  bi_agent_id :: agent_id
  bi_display_name :: utext
  bi_matrix_user_id :: utext
  bi_agent_instance_id :: agent_instance_id
  bi_avatar_url :: "utext option"

datatype agent_identity_error = InvalidDisplayName | InvalidMatrixUserId | InvalidAvatarUrl

definition MAX_DISPLAY_NAME_CHARACTERS :: nat where "MAX_DISPLAY_NAME_CHARACTERS = 128"
definition MAX_AVATAR_URL_LENGTH :: nat where "MAX_AVATAR_URL_LENGTH = 2048"

definition agent_identity_new ::
  "agent_id \<Rightarrow> utext \<Rightarrow> utext \<Rightarrow> agent_instance_id \<Rightarrow> agent_identity_error + agent_identity" where
  "agent_identity_new agent display_name user instance_id =
     (if trim display_name = [] \<or> length display_name > MAX_DISPLAY_NAME_CHARACTERS \<or>
         list_ex is_control display_name
      then Inl InvalidDisplayName
      else (case matrix_user_id_new user of
              Inl _ \<Rightarrow> Inl InvalidMatrixUserId
            | Inr u \<Rightarrow>
                Inr \<lparr>bi_agent_id = agent, bi_display_name = display_name, bi_matrix_user_id = u,
                     bi_agent_instance_id = instance_id, bi_avatar_url = None\<rparr>))"

definition with_avatar_url :: "utext \<Rightarrow> agent_identity \<Rightarrow> agent_identity_error + agent_identity" where
  "with_avatar_url url i =
     (if byte_len url > MAX_AVATAR_URL_LENGTH \<or> \<not> starts_with (lit ''https://'') url \<or> list_ex is_control url
      then Inl InvalidAvatarUrl
      else Inr (i\<lparr>bi_avatar_url := Some url\<rparr>))"

section \<open>Statuses and leases\<close>

record lease_policy =
  lp_maximum_lease :: duration_millis
  lp_allowed_clock_skew :: duration_millis

datatype lease_policy_error = InvalidClockSkew

definition lease_policy_new :: "duration_millis \<Rightarrow> duration_millis \<Rightarrow> lease_policy_error + lease_policy" where
  "lease_policy_new maximum_lease allowed_clock_skew =
     (if allowed_clock_skew \<ge> maximum_lease then Inl InvalidClockSkew
      else Inr \<lparr>lp_maximum_lease = maximum_lease, lp_allowed_clock_skew = allowed_clock_skew\<rparr>)"

record projected_presence =
  pj_event_id :: utext
  pj_room_id :: utext
  pj_identity :: agent_identity
  pj_status :: agent_work_status
  pj_observed_at :: utc_millis
  pj_lease_expires_at :: utc_millis
  pj_origin_server_timestamp :: int
  pj_published_at :: utc_millis
  pj_last_polled_at :: "utc_millis option"
  pj_listening_until :: "utc_millis option"
  pj_reception_known :: bool
  pj_card :: bool

abbreviation pj_user :: "projected_presence \<Rightarrow> utext" where
  "pj_user p \<equiv> bi_matrix_user_id (pj_identity p)"

abbreviation pj_instance :: "projected_presence \<Rightarrow> agent_instance_id" where
  "pj_instance p \<equiv> bi_agent_instance_id (pj_identity p)"

abbreviation pj_agent :: "projected_presence \<Rightarrow> agent_id" where
  "pj_agent p \<equiv> bi_agent_id (pj_identity p)"

definition evidence_with :: "presence_observation option \<Rightarrow> projected_presence \<Rightarrow> presence_evidence" where
  "evidence_with presence p =
     \<lparr>pe_reported_status = pj_status p, pe_lease_expires_at = utc_value (pj_lease_expires_at p),
      pe_last_active_at = utc_value (pj_published_at p),
      pe_last_polled_at = map_option utc_value (pj_last_polled_at p),
      pe_listening_until = map_option utc_value (pj_listening_until p),
      pe_reception_known = pj_reception_known p,
      pe_liveness = (if pj_card p then Presence presence else Lease)\<rparr>"

definition evidence_of :: "projected_presence \<Rightarrow> presence_evidence" where
  "evidence_of = evidence_with None"

definition revoked_presence :: "projected_presence \<Rightarrow> projected_presence" where
  "revoked_presence p = p\<lparr>pj_status := WorkOffline, pj_lease_expires_at := pj_observed_at p\<rparr>"

datatype sync_issue_reason =
    MissingEnvelope | InvalidEnvelope | SenderMismatch | InvalidMembership | InvalidRosterPolicy
  | TooManyStatusEvents | InvalidLease | FutureEvent | UnknownInstance | RevokedInstance
  | AgentInstanceMismatch | InvalidSignature | OutsideInstanceValidityWindow

definition evaluate_lease ::
  "utc_millis \<Rightarrow> utc_millis \<Rightarrow> utc_millis \<Rightarrow> lease_policy \<Rightarrow> sync_issue_reason + utc_millis" where
  "evaluate_lease created_at claimed_expiry observed_at policy =
     (case i64_try_from (duration_value (lp_maximum_lease policy)) of
        None \<Rightarrow> Inl InvalidLease
      | Some maximum_lease \<Rightarrow>
          (let lifetime = i64_saturating_sub (utc_value claimed_expiry) (utc_value created_at)
           in if lifetime \<le> 0 \<or> lifetime > maximum_lease then Inl InvalidLease
              else (case utc_checked_add observed_at (lp_allowed_clock_skew policy) of
                Inl _ \<Rightarrow> Inl InvalidLease
              | Inr latest_created_at \<Rightarrow>
                  if created_at > latest_created_at then Inl FutureEvent
                  else (case utc_checked_add claimed_expiry (lp_allowed_clock_skew policy) of
                    Inl _ \<Rightarrow> Inl InvalidLease
                  | Inr sender_deadline \<Rightarrow>
                      (case and_then (utc_checked_add observed_at (lp_maximum_lease policy))
                              (\<lambda>v. utc_checked_add v (lp_allowed_clock_skew policy)) of
                         Inl _ \<Rightarrow> Inl InvalidLease
                       | Inr local_deadline \<Rightarrow> Inr (min sender_deadline local_deadline))))))"

section \<open>The projection\<close>

record membership_change =
  mc_matrix_user_id :: utext
  mc_joined :: bool

datatype projection_mode = ModeDelta | ModeReplace | ModeRemove

record room_projection =
  rj_room_id :: utext
  rj_mode :: projection_mode
  rj_memberships :: "membership_change list"
  rj_presences :: "projected_presence list"
  rj_policy :: "roster_policy option"

record projection_batch =
  jb_rooms :: "room_projection list"
  jb_presence :: "presence_update option"

record room_presence =
  rp_joined_members :: "utext set"
  rp_instances :: "(agent_instance_id \<times> projected_presence) list"
  rp_policy :: roster_policy

definition room_presence_default :: room_presence where
  "room_presence_default = \<lparr>rp_joined_members = {}, rp_instances = [], rp_policy = roster_policy_default\<rparr>"

record projection_state =
  ps_rooms :: "(utext \<times> room_presence) list"
  ps_presence :: presence_tracker

definition status_is_newer :: "projected_presence \<Rightarrow> projected_presence \<Rightarrow> bool" where
  "status_is_newer candidate current \<longleftrightarrow>
     pj_origin_server_timestamp candidate > pj_origin_server_timestamp current \<or>
     (pj_origin_server_timestamp candidate = pj_origin_server_timestamp current \<and>
      pj_event_id candidate > pj_event_id current)"

definition disconnected :: "presence_tracker \<Rightarrow> utc_millis \<Rightarrow> roster_policy \<Rightarrow> projected_presence \<Rightarrow> bool" where
  "disconnected tracker now policy p \<longleftrightarrow>
     al_connection (agent_lifecycle_of (evidence_with (tracker_observation (pj_user p) tracker) p)
       (utc_value now) (archive_after_days policy)) = ConnectionOffline"

text \<open>The most recent disconnected instance of every agent: by the time of its status, then by identifier.\<close>

definition note_latest ::
  "projected_presence \<Rightarrow> (agent_id \<times> utc_millis \<times> agent_instance_id) list \<Rightarrow>
     (agent_id \<times> utc_millis \<times> agent_instance_id) list" where
  "note_latest p latest =
     (let candidate = (pj_published_at p, pj_instance p)
      in case map_of latest (pj_agent p) of
           None \<Rightarrow> map_insert (pj_agent p) candidate latest
         | Some current \<Rightarrow> if candidate > current then map_insert (pj_agent p) candidate latest else latest)"

definition compact_disconnected_instances :: "presence_tracker \<Rightarrow> room_presence \<Rightarrow> room_presence" where
  "compact_disconnected_instances tracker room =
     (case map pj_observed_at (map_values (rp_instances room)) of
        [] \<Rightarrow> room
      | t # ts \<Rightarrow>
          (let gone = disconnected tracker (fold max ts t) (rp_policy room);
               latest = fold note_latest (filter gone (map_values (rp_instances room))) [];
               keep = map fst (filter (\<lambda>(i, p). \<not> gone p \<or>
                        opt_any (map_of latest (pj_agent p)) (\<lambda>(_, k). i = k)) (rp_instances room))
           in room\<lparr>rp_instances := map_retain (\<lambda>i _. i \<in> set keep) (rp_instances room)\<rparr>))"

definition apply_membership :: "membership_change \<Rightarrow> room_presence \<Rightarrow> room_presence" where
  "apply_membership m room =
     (if mc_joined m then room\<lparr>rp_joined_members := insert (mc_matrix_user_id m) (rp_joined_members room)\<rparr>
      else room\<lparr>rp_joined_members := rp_joined_members room - {mc_matrix_user_id m}\<rparr>)"

definition apply_status :: "projected_presence \<Rightarrow> room_presence \<Rightarrow> room_presence" where
  "apply_status p room =
     (if pj_user p \<notin> rp_joined_members room then room
      else if (case map_of (rp_instances room) (pj_instance p) of
                 None \<Rightarrow> True
               | Some current \<Rightarrow> status_is_newer p current)
      then room\<lparr>rp_instances := map_insert (pj_instance p) p (rp_instances room)\<rparr>
      else room)"

definition update_room :: "presence_tracker \<Rightarrow> room_projection \<Rightarrow> room_presence \<Rightarrow> room_presence" where
  "update_room tracker u room =
     (let start = (if rj_mode u = ModeReplace then room_presence_default else room);
          governed = (case rj_policy u of None \<Rightarrow> start | Some policy \<Rightarrow> start\<lparr>rp_policy := policy\<rparr>);
          populated = fold apply_membership (rj_memberships u) governed;
          present = populated\<lparr>rp_instances :=
            map_retain (\<lambda>_ p. pj_user p \<in> rp_joined_members populated) (rp_instances populated)\<rparr>
      in compact_disconnected_instances tracker (fold apply_status (rj_presences u) present))"

definition apply_room ::
  "presence_tracker \<Rightarrow> room_projection \<Rightarrow> (utext \<times> room_presence) list \<Rightarrow> (utext \<times> room_presence) list" where
  "apply_room tracker u rooms =
     (if rj_mode u = ModeRemove then map_delete (rj_room_id u) rooms
      else map_insert (rj_room_id u)
             (update_room tracker u (unwrap_or (map_of rooms (rj_room_id u)) room_presence_default)) rooms)"

definition apply_sync :: "projection_batch \<Rightarrow> projection_state \<Rightarrow> projection_state" where
  "apply_sync batch s =
     (let tracker = (case jb_presence batch of
                       None \<Rightarrow> ps_presence s
                     | Some u \<Rightarrow> apply_presence_sync u (ps_presence s))
      in \<lparr>ps_rooms = fold (apply_room tracker) (jb_rooms batch) (ps_rooms s), ps_presence = tracker\<rparr>)"

section \<open>Asking for missing presence\<close>

definition presence_wanted :: "utc_millis \<Rightarrow> nat \<Rightarrow> projection_state \<Rightarrow> utext list" where
  "presence_wanted now limit s =
     take limit (sort (remdups (filter (\<lambda>user. tracker_wants user now (ps_presence s))
       (map pj_user (filter pj_card
         (concat (map (\<lambda>room. map_values (rp_instances room)) (map_values (ps_rooms s)))))))))"

definition record_fetched_presence ::
  "utext \<times> user_presence option \<times> utc_millis \<Rightarrow> projection_state \<Rightarrow> projection_state" where
  "record_fetched_presence answer s =
     (case answer of (user, p, at) \<Rightarrow> s\<lparr>ps_presence := record_fetched user p at (ps_presence s)\<rparr>)"

definition PRESENCE_FETCH_BATCH :: nat where "PRESENCE_FETCH_BATCH = 32"

text \<open>
  \<open>now n\<close> is the clock at the start of the \<open>n\<close>th round and \<open>answers n wanted\<close> what the server answers to
  its questions, in the order of arrival, with the moment each answer is recorded.
\<close>

fun fetch_missing_presence ::
  "nat \<Rightarrow> (nat \<Rightarrow> utc_millis) \<Rightarrow> (nat \<Rightarrow> utext list \<Rightarrow> (utext \<times> user_presence option \<times> utc_millis) list) \<Rightarrow>
     nat \<Rightarrow> nat \<Rightarrow> projection_state \<Rightarrow> (nat \<times> projection_state) option" where
  "fetch_missing_presence 0 now answers n asked s = None"
| "fetch_missing_presence (Suc fuel) now answers n asked s =
     (let wanted = presence_wanted (now n) PRESENCE_FETCH_BATCH s
      in if wanted = [] then Some (asked, s)
         else fetch_missing_presence fuel now answers (Suc n) (asked + length wanted)
                (fold record_fetched_presence (answers n wanted) s))"

section \<open>Lemmas on one room\<close>

lemma in_map_values: "v \<in> set (map_values m) \<longleftrightarrow> (\<exists>k. (k, v) \<in> set m)"
  by (force simp: map_values_def)

definition instances_ok :: "room_presence \<Rightarrow> bool" where
  "instances_ok r \<longleftrightarrow> ordered_map (rp_instances r) \<and> (\<forall>(i, p)\<in>set (rp_instances r). i = pj_instance p)"

definition members_ok :: "room_presence \<Rightarrow> bool" where
  "members_ok r \<longleftrightarrow> (\<forall>(i, p)\<in>set (rp_instances r). pj_user p \<in> rp_joined_members r)"

definition room_presence_ok :: "room_presence \<Rightarrow> bool" where
  "room_presence_ok r \<longleftrightarrow> instances_ok r \<and> members_ok r"

lemma room_default_ok [simp]: "room_presence_ok room_presence_default"
  by (simp add: room_presence_ok_def instances_ok_def members_ok_def room_presence_default_def)

lemma instances_ok_distinct: "instances_ok r \<Longrightarrow> distinct (map fst (rp_instances r))"
  by (simp add: instances_ok_def ordered_map_distinct)

lemma instances_ok_key: "instances_ok r \<Longrightarrow> (i, p) \<in> set (rp_instances r) \<Longrightarrow> i = pj_instance p"
  by (auto simp: instances_ok_def)

lemma instances_unique:
  "instances_ok r \<Longrightarrow> (i, p) \<in> set (rp_instances r) \<Longrightarrow> (i, q) \<in> set (rp_instances r) \<Longrightarrow> p = q"
  using instances_ok_distinct by (metis map_of_is_SomeI option.inject)

lemma memberships_instances [simp]:
  "rp_instances (fold apply_membership ms r) = rp_instances r"
  "rp_policy (fold apply_membership ms r) = rp_policy r"
  by (induction ms arbitrary: r) (auto simp: apply_membership_def)

lemma apply_status_joined [simp]:
  "rp_joined_members (apply_status p r) = rp_joined_members r" "rp_policy (apply_status p r) = rp_policy r"
  by (simp_all add: apply_status_def)

lemma statuses_joined [simp]:
  "rp_joined_members (fold apply_status ps r) = rp_joined_members r"
  "rp_policy (fold apply_status ps r) = rp_policy r"
  by (induction ps arbitrary: r) simp_all

lemma apply_status_ok: "room_presence_ok r \<Longrightarrow> room_presence_ok (apply_status p r)"
  by (auto simp: apply_status_def room_presence_ok_def instances_ok_def members_ok_def dest: in_map_insert)

lemma statuses_ok: "room_presence_ok r \<Longrightarrow> room_presence_ok (fold apply_status ps r)"
  by (induction ps arbitrary: r) (simp_all add: apply_status_ok)

lemma compact_joined [simp]:
  "rp_joined_members (compact_disconnected_instances t r) = rp_joined_members r"
  "rp_policy (compact_disconnected_instances t r) = rp_policy r"
  by (simp_all add: compact_disconnected_instances_def Let_def split: list.split)

lemma compact_retains:
  "\<exists>f. rp_instances (compact_disconnected_instances t r) = map_retain f (rp_instances r)"
proof (cases "map pj_observed_at (map_values (rp_instances r))")
  case Nil
  then have "rp_instances (compact_disconnected_instances t r) = map_retain (\<lambda>_ _. True) (rp_instances r)"
    by (simp add: compact_disconnected_instances_def map_retain_def)
  then show ?thesis by blast
next
  case (Cons a list)
  then show ?thesis by (auto simp: compact_disconnected_instances_def Let_def)
qed

lemma compact_ok:
  assumes "room_presence_ok r" shows "room_presence_ok (compact_disconnected_instances t r)"
proof -
  obtain f where "rp_instances (compact_disconnected_instances t r) = map_retain f (rp_instances r)"
    using compact_retains by blast
  then show ?thesis using assms by (auto simp: room_presence_ok_def instances_ok_def members_ok_def)
qed

text \<open>A room as it is when the statuses of an update are applied.\<close>

definition before_statuses :: "room_projection \<Rightarrow> room_presence \<Rightarrow> room_presence" where
  "before_statuses u r =
     (let start = (if rj_mode u = ModeReplace then room_presence_default else r);
          governed = (case rj_policy u of None \<Rightarrow> start | Some policy \<Rightarrow> start\<lparr>rp_policy := policy\<rparr>);
          populated = fold apply_membership (rj_memberships u) governed
      in populated\<lparr>rp_instances :=
            map_retain (\<lambda>_ p. pj_user p \<in> rp_joined_members populated) (rp_instances populated)\<rparr>)"

lemma update_room_eq:
  "update_room t u r = compact_disconnected_instances t (fold apply_status (rj_presences u) (before_statuses u r))"
  by (simp add: update_room_def before_statuses_def Let_def)

lemma before_statuses_instances:
  "rp_instances (before_statuses u r) =
     map_retain (\<lambda>_ p. pj_user p \<in> rp_joined_members (before_statuses u r))
       (if rj_mode u = ModeReplace then [] else rp_instances r)"
  by (simp add: before_statuses_def Let_def room_presence_default_def split: option.split)

lemma before_statuses_ok:
  assumes "instances_ok r" shows "room_presence_ok (before_statuses u r)"
proof -
  let ?m = "if rj_mode u = ModeReplace then [] else rp_instances r"
  let ?f = "\<lambda>_ p. pj_user p \<in> rp_joined_members (before_statuses u r)"
  have "ordered_map ?m \<and> (\<forall>(i, p)\<in>set ?m. i = pj_instance p)" using assms by (simp add: instances_ok_def)
  then have "ordered_map (map_retain ?f ?m) \<and>
      (\<forall>(i, p)\<in>set (map_retain ?f ?m). i = pj_instance p \<and> pj_user p \<in> rp_joined_members (before_statuses u r))"
    by (auto simp del: if_split)
  then show ?thesis
    unfolding room_presence_ok_def instances_ok_def members_ok_def before_statuses_instances by auto
qed

lemma update_room_ok: "instances_ok r \<Longrightarrow> room_presence_ok (update_room t u r)"
  by (simp add: update_room_eq compact_ok statuses_ok before_statuses_ok)

section \<open>The invariant of the projection\<close>

definition rooms_ok :: "(utext \<times> room_presence) list \<Rightarrow> bool" where
  "rooms_ok rooms \<longleftrightarrow> ordered_map rooms \<and> (\<forall>e\<in>set rooms. room_presence_ok (snd e))"

definition projection_ok :: "projection_state \<Rightarrow> bool" where
  "projection_ok s \<longleftrightarrow> rooms_ok (ps_rooms s) \<and> tracker_ok (ps_presence s)"

lemma rooms_ok_lookup:
  "rooms_ok rooms \<Longrightarrow> room_presence_ok (unwrap_or (map_of rooms k) room_presence_default)"
  by (cases "map_of rooms k") (force simp: rooms_ok_def dest: map_of_SomeD)+

lemma apply_room_ok:
  assumes "rooms_ok rooms" shows "rooms_ok (apply_room t u rooms)"
proof -
  have "room_presence_ok (update_room t u (unwrap_or (map_of rooms (rj_room_id u)) room_presence_default))"
    using rooms_ok_lookup [OF assms] by (intro update_room_ok) (simp add: room_presence_ok_def)
  then show ?thesis
    using assms by (auto simp: apply_room_def rooms_ok_def in_map_delete dest!: in_map_insert)
qed

lemma apply_rooms_ok: "rooms_ok rooms \<Longrightarrow> rooms_ok (fold (apply_room t) us rooms)"
  by (induction us arbitrary: rooms) (simp_all add: apply_room_ok)

lemma apply_sync_ok:
  assumes "projection_ok s" shows "projection_ok (apply_sync b s)"
proof -
  have "tracker_ok (case jb_presence b of None \<Rightarrow> ps_presence s | Some u \<Rightarrow> apply_presence_sync u (ps_presence s))"
    using assms tracker_step_ok [of "ps_presence s" "SyncArrived _"] by (auto simp: projection_ok_def split: option.split)
  then show ?thesis using assms apply_rooms_ok by (simp add: projection_ok_def apply_sync_def Let_def)
qed

lemma record_fetched_ok:
  "projection_ok s \<Longrightarrow> projection_ok (record_fetched_presence a s)"
  using tracker_step_ok [of "ps_presence s" "Fetched _ _ _"]
  by (cases a) (simp add: projection_ok_def record_fetched_presence_def)

section \<open>Compaction\<close>

abbreviation seen_key :: "projected_presence \<Rightarrow> utc_millis \<times> agent_instance_id" where
  "seen_key p \<equiv> (pj_published_at p, pj_instance p)"

lemma note_latest_map:
  "ordered_map m \<Longrightarrow> ordered_map (note_latest p m) \<and>
     map_of (note_latest p m) a =
       (if a = pj_agent p
        then Some (case map_of m a of None \<Rightarrow> seen_key p | Some c \<Rightarrow> max c (seen_key p))
        else map_of m a)"
  by (auto simp: note_latest_def Let_def max_def split: option.split)

lemma fold_note_latest:
  assumes "ordered_map m"
  shows "(map_of (fold note_latest ps m) a = None \<longleftrightarrow> map_of m a = None \<and> (\<forall>p\<in>set ps. pj_agent p \<noteq> a)) \<and>
    (\<forall>c. map_of (fold note_latest ps m) a = Some c \<longrightarrow>
      (map_of m a = Some c \<or> (\<exists>p\<in>set ps. pj_agent p = a \<and> c = seen_key p)) \<and>
      (\<forall>b. map_of m a = Some b \<longrightarrow> b \<le> c) \<and> (\<forall>p\<in>set ps. pj_agent p = a \<longrightarrow> seen_key p \<le> c))"
  using assms
proof (induction ps arbitrary: m)
  case (Cons p ps)
  have n: "ordered_map (note_latest p m)" "map_of (note_latest p m) a =
      (if a = pj_agent p then Some (case map_of m a of None \<Rightarrow> seen_key p | Some c \<Rightarrow> max c (seen_key p))
       else map_of m a)"
    using note_latest_map [OF Cons.prems] by auto
  show ?case
  proof (cases "a = pj_agent p")
    case False
    then show ?thesis using Cons.IH [OF n(1)] n(2) by simp
  next
    case True
    define b where "b = (case map_of m a of None \<Rightarrow> seen_key p | Some c \<Rightarrow> max c (seen_key p))"
    have b: "seen_key p \<le> b" "b = seen_key p \<or> map_of m a = Some b" "\<forall>c. map_of m a = Some c \<longrightarrow> c \<le> b"
      by (auto simp: b_def max_def split: option.split)
    have eq: "map_of (note_latest p m) a = Some b" using n(2) True by (simp add: b_def)
    show ?thesis using Cons.IH [OF n(1)] b True unfolding eq
      by (auto simp del: less_eq_prod_simp dest: order.trans)
  qed
qed simp

lemma fold_max_ge: "t \<le> fold max ts (t::'a::linorder) \<and> (\<forall>x\<in>set ts. x \<le> fold max ts t)"
proof (induction ts arbitrary: t)
  case (Cons a ts)
  show ?case using Cons [of "max a t"] by auto
qed simp

lemma compact_empty: "rp_instances r = [] \<Longrightarrow> compact_disconnected_instances t r = r"
  by (simp add: compact_disconnected_instances_def map_values_def)

lemma fold_max_Max: "fold max ts (t::'a::linorder) = Max (insert t (set ts))"
proof (induction ts arbitrary: t)
  case (Cons a ts)
  then show ?case by (cases "set ts = {}") (simp_all add: max.commute max.left_commute)
qed simp

text \<open>The moment by which a room judges who is disconnected.\<close>

definition room_now :: "room_presence \<Rightarrow> utc_millis" where
  "room_now r = Max ((\<lambda>e. pj_observed_at (snd e)) ` set (rp_instances r))"

lemma compact_instances:
  assumes "rp_instances r \<noteq> []"
  shows "compact_disconnected_instances t r =
    (let gone = disconnected t (room_now r) (rp_policy r);
         latest = fold note_latest (filter gone (map_values (rp_instances r))) [];
         keep = map fst (filter (\<lambda>(i, p). \<not> gone p \<or>
                  opt_any (map_of latest (pj_agent p)) (\<lambda>(_, k). i = k)) (rp_instances r))
     in r\<lparr>rp_instances := map_retain (\<lambda>i _. i \<in> set keep) (rp_instances r)\<rparr>)"
proof -
  obtain e es where l: "rp_instances r = e # es" using assms by (cases "rp_instances r") auto
  then have "map pj_observed_at (map_values (rp_instances r)) =
      pj_observed_at (snd e) # map (\<lambda>e. pj_observed_at (snd e)) es"
    by (simp add: map_values_def)
  moreover have "fold max (map (\<lambda>e. pj_observed_at (snd e)) es) (pj_observed_at (snd e)) = room_now r"
    by (simp add: fold_max_Max room_now_def l image_image)
  ultimately show ?thesis by (simp add: compact_disconnected_instances_def)
qed

lemma in_fst_filter: "i \<in> fst ` {x \<in> set m. P x} \<longleftrightarrow> (\<exists>q. (i, q) \<in> set m \<and> P (i, q))"
  by force

lemma compact_exact:
  assumes "instances_ok r" and "gone = disconnected t (room_now r) (rp_policy r)"
  shows "(i, p) \<in> set (rp_instances (compact_disconnected_instances t r)) \<longleftrightarrow>
    (i, p) \<in> set (rp_instances r) \<and>
    (gone p \<longrightarrow> (\<forall>(j, q)\<in>set (rp_instances r). gone q \<and> pj_agent q = pj_agent p \<longrightarrow> seen_key q \<le> seen_key p))"
proof (cases "rp_instances r = []")
  case True
  then show ?thesis by (simp add: compact_empty)
next
  case False
  let ?ps = "filter gone (map_values (rp_instances r))"
  define latest where "latest = fold note_latest ?ps []"
  have in_ps: "q \<in> set ?ps \<longleftrightarrow> gone q \<and> (pj_instance q, q) \<in> set (rp_instances r)" for q
    using instances_ok_key [OF assms(1)] by (force simp: in_map_values)
  have latest: "map_of latest a = None \<longleftrightarrow> (\<forall>q\<in>set ?ps. pj_agent q \<noteq> a)"
    "map_of latest a = Some c \<Longrightarrow> (\<exists>q\<in>set ?ps. pj_agent q = a \<and> c = seen_key q)"
    "map_of latest a = Some c \<Longrightarrow> q \<in> set ?ps \<Longrightarrow> pj_agent q = a \<Longrightarrow> seen_key q \<le> c" for a c q
    using fold_note_latest [OF ordered_map_Nil, of ?ps a] by (auto simp: latest_def simp del: less_eq_prod_simp)
  have mem: "(i, p) \<in> set (rp_instances (compact_disconnected_instances t r)) \<longleftrightarrow> (i, p) \<in> set (rp_instances r) \<and>
      (\<exists>q. (i, q) \<in> set (rp_instances r) \<and> (gone q \<longrightarrow> opt_any (map_of latest (pj_agent q)) (\<lambda>(_, k). i = k)))"
    unfolding compact_instances [OF False] by (simp add: Let_def latest_def assms(2) in_fst_filter)
  have "opt_any (map_of latest (pj_agent p)) (\<lambda>(_, k). i = k) \<longleftrightarrow>
      (\<forall>(j, q)\<in>set (rp_instances r). gone q \<and> pj_agent q = pj_agent p \<longrightarrow> seen_key q \<le> seen_key p)"
    if p: "(i, p) \<in> set (rp_instances r)" "gone p"
  proof -
    have i: "i = pj_instance p" using instances_ok_key [OF assms(1) p(1)] .
    have "p \<in> set ?ps" using p i in_ps by blast
    then obtain c where c: "map_of latest (pj_agent p) = Some c" using latest(1) by fastforce
    obtain q where q: "q \<in> set ?ps" "pj_agent q = pj_agent p" "c = seen_key q" using latest(2) [OF c] by blast
    have "(pj_instance q, q) \<in> set (rp_instances r)" using q(1) in_ps by blast
    then have "i = snd c \<longleftrightarrow> q = p" using instances_unique [OF assms(1)] q(3) p(1) i by auto
    moreover have "(\<forall>(j, q)\<in>set (rp_instances r). gone q \<and> pj_agent q = pj_agent p \<longrightarrow> seen_key q \<le> seen_key p) \<longleftrightarrow>
        seen_key p = c"
    proof
      assume "\<forall>(j, q)\<in>set (rp_instances r). gone q \<and> pj_agent q = pj_agent p \<longrightarrow> seen_key q \<le> seen_key p"
      then have "seen_key q \<le> seen_key p" using q(1,2) unfolding in_ps by blast
      moreover have "seen_key p \<le> c" using latest(3) [OF c \<open>p \<in> set ?ps\<close>] by simp
      ultimately show "seen_key p = c" using q(3) by (metis order.antisym)
    next
      assume "seen_key p = c"
      then show "\<forall>(j, q)\<in>set (rp_instances r). gone q \<and> pj_agent q = pj_agent p \<longrightarrow> seen_key q \<le> seen_key p"
        using latest(3) [OF c] instances_ok_key [OF assms(1)] in_ps by blast
    qed
    moreover have "seen_key p = c \<longleftrightarrow> q = p" using \<open>i = snd c \<longleftrightarrow> q = p\<close> q(3) i by auto
    ultimately show ?thesis using c by (cases c) auto
  qed
  then show ?thesis using mem instances_unique [OF assms(1)] by blast
qed

section \<open>The newest status\<close>

lemma newer_trans: "status_is_newer a b \<Longrightarrow> status_is_newer b c \<Longrightarrow> status_is_newer a c"
  by (auto simp: status_is_newer_def)

lemma newer_asym: "status_is_newer a b \<Longrightarrow> \<not> status_is_newer b a"
  by (auto simp: status_is_newer_def)

lemma newer_cotrans: "\<not> status_is_newer a b \<Longrightarrow> status_is_newer c b \<Longrightarrow> \<not> status_is_newer a c"
  by (auto simp: status_is_newer_def)

lemma apply_status_lookup:
  assumes "ordered_map (rp_instances r)"
  shows "map_of (rp_instances (apply_status p r)) i =
    (if pj_user p \<in> rp_joined_members r \<and> i = pj_instance p \<and>
        (\<forall>c. map_of (rp_instances r) i = Some c \<longrightarrow> status_is_newer p c)
     then Some p else map_of (rp_instances r) i)"
  using assms by (auto simp: apply_status_def split: option.split)

lemma statuses_lookup:
  assumes "room_presence_ok r" and "map_of (rp_instances (fold apply_status ps r)) i = Some q"
  shows "(map_of (rp_instances r) i = Some q \<or> q \<in> set ps \<and> pj_instance q = i) \<and>
    (\<forall>p. map_of (rp_instances r) i = Some p \<longrightarrow> q = p \<or> status_is_newer q p) \<and>
    (\<forall>p\<in>set ps. pj_instance p = i \<and> pj_user p \<in> rp_joined_members r \<longrightarrow> \<not> status_is_newer p q)"
  using assms
proof (induction ps arbitrary: r)
  case Nil
  then show ?case by simp
next
  case (Cons x ps)
  let ?r = "apply_status x r"
  have o: "ordered_map (rp_instances r)" using Cons.prems(1) by (simp add: room_presence_ok_def instances_ok_def)
  note look = apply_status_lookup [OF o, of x i]
  have IH: "map_of (rp_instances ?r) i = Some q \<or> q \<in> set ps \<and> pj_instance q = i"
    "\<And>p. map_of (rp_instances ?r) i = Some p \<Longrightarrow> q = p \<or> status_is_newer q p"
    "\<And>p. p \<in> set ps \<Longrightarrow> pj_instance p = i \<Longrightarrow> pj_user p \<in> rp_joined_members r \<Longrightarrow> \<not> status_is_newer p q"
    using Cons.IH [OF apply_status_ok [OF Cons.prems(1)]] Cons.prems(2) by auto
  show ?case
  proof (cases "pj_user x \<in> rp_joined_members r \<and> i = pj_instance x \<and>
        (\<forall>c. map_of (rp_instances r) i = Some c \<longrightarrow> status_is_newer x c)")
    case True
    then have x: "map_of (rp_instances ?r) i = Some x" using look by simp
    have "q = x \<or> status_is_newer q x" using IH(2) [OF x] .
    then have "\<not> status_is_newer x q" using newer_asym by auto
    moreover have "q = p \<or> status_is_newer q p" if "map_of (rp_instances r) i = Some p" for p
      using True that IH(2) [OF x] newer_trans by blast
    ultimately show ?thesis using IH(1,3) x True by auto
  next
    case False
    then have x: "map_of (rp_instances ?r) i = map_of (rp_instances r) i" using look by auto
    have "\<not> status_is_newer x q" if j: "pj_instance x = i" "pj_user x \<in> rp_joined_members r"
    proof -
      obtain c where c: "map_of (rp_instances r) i = Some c" "\<not> status_is_newer x c" using False j by auto
      then have "q = c \<or> status_is_newer q c" using IH(2) x by simp
      then show ?thesis using c(2) newer_cotrans by blast
    qed
    then show ?thesis using IH x by auto
  qed
qed

lemma compact_lookup:
  assumes "instances_ok r" and "map_of (rp_instances (compact_disconnected_instances t r)) i = Some q"
  shows "map_of (rp_instances r) i = Some q"
proof -
  obtain f where "rp_instances (compact_disconnected_instances t r) = map_retain f (rp_instances r)"
    using compact_retains by blast
  then show ?thesis using assms by (auto simp: instances_ok_def map_of_retain split: option.splits if_splits)
qed

section \<open>Leases\<close>

lemma evaluate_lease_Inr:
  assumes "evaluate_lease created claimed observed policy = Inr deadline"
    and "utc_ok created" and "utc_ok claimed"
  shows "utc_value deadline =
      min (utc_value claimed) (utc_value observed + duration_value (lp_maximum_lease policy)) +
        duration_value (lp_allowed_clock_skew policy) \<and>
    utc_value created \<le> utc_value observed + duration_value (lp_allowed_clock_skew policy) \<and>
    utc_value created < utc_value claimed \<and>
    utc_value claimed \<le> utc_value created + duration_value (lp_maximum_lease policy)"
proof -
  have s: "i64_saturating_sub (utc_value claimed) (utc_value created) = utc_value claimed - utc_value created"
    using assms(2,3) by (simp add: i64_saturating_sub_def utc_ok_def int_width_defs)
  note e = assms(1) [unfolded evaluate_lease_def Let_def s]
  obtain m where m: "i64_try_from (duration_value (lp_maximum_lease policy)) = Some m"
    using e by (cases "i64_try_from (duration_value (lp_maximum_lease policy))") auto
  then have mv: "m = duration_value (lp_maximum_lease policy)" by (simp add: i64_try_from_Some)
  have life: "utc_value claimed - utc_value created > 0" "utc_value claimed - utc_value created \<le> m"
    using e m by (auto split: if_splits)
  obtain latest where latest: "utc_checked_add observed (lp_allowed_clock_skew policy) = Inr latest" "created \<le> latest"
    using e m life by (auto split: sum.splits if_splits)
  obtain sender where sender: "utc_checked_add claimed (lp_allowed_clock_skew policy) = Inr sender"
    using e m life latest by (auto split: sum.splits if_splits)
  obtain grown local where "utc_checked_add observed (lp_maximum_lease policy) = Inr grown"
      "utc_checked_add grown (lp_allowed_clock_skew policy) = Inr local" "deadline = min sender local"
    using e m life latest sender by (auto simp: result_simps split: sum.splits if_splits)
  then show ?thesis
    using latest sender life mv by (auto simp: clock_order min_def dest!: utc_checked_add_value)
qed

section \<open>Asking\<close>

definition card_users :: "projection_state \<Rightarrow> utext set" where
  "card_users s =
     set (map pj_user (filter pj_card (concat (map (\<lambda>room. map_values (rp_instances room)) (map_values (ps_rooms s))))))"

lemma presence_wanted_facts:
  "set (presence_wanted now limit s) \<subseteq> {user \<in> card_users s. tracker_wants user now (ps_presence s)}"
  "distinct (presence_wanted now limit s)"
  "0 < limit \<Longrightarrow> presence_wanted now limit s = [] \<Longrightarrow>
     \<forall>user\<in>card_users s. \<not> tracker_wants user now (ps_presence s)"
proof -
  define l where "l = filter (\<lambda>user. tracker_wants user now (ps_presence s)) (map pj_user (filter pj_card
    (concat (map (\<lambda>room. map_values (rp_instances room)) (map_values (ps_rooms s))))))"
  have l: "set l = {user \<in> card_users s. tracker_wants user now (ps_presence s)}"
    unfolding l_def set_filter card_users_def by blast
  have w: "presence_wanted now limit s = take limit (sort (remdups l))"
    by (simp only: presence_wanted_def l_def)
  show "set (presence_wanted now limit s) \<subseteq> {user \<in> card_users s. tracker_wants user now (ps_presence s)}"
    using set_take_subset [of limit "sort (remdups l)"] by (simp add: w l)
  show "distinct (presence_wanted now limit s)" by (simp add: w)
  assume "0 < limit" "presence_wanted now limit s = []"
  then have "sort (remdups l) = []" by (simp add: w)
  then have "l = []" by (metis remdups_eq_nil_iff set_empty set_sort)
  then show "\<forall>user\<in>card_users s. \<not> tracker_wants user now (ps_presence s)" using l by auto
qed

lemma finite_card_users: "finite (card_users s)"
  by (simp only: card_users_def finite_set)

lemma answers_keep_rooms [simp]: "ps_rooms (fold record_fetched_presence as s) = ps_rooms s"
  by (induction as arbitrary: s) (auto simp: record_fetched_presence_def)

lemma card_users_cong: "ps_rooms s = ps_rooms s' \<Longrightarrow> card_users s = card_users s'"
  by (simp add: card_users_def)

text \<open>A user that is not asked at any of the moments at which rounds start.\<close>

definition answered :: "(nat \<Rightarrow> utc_millis) \<Rightarrow> projection_state \<Rightarrow> utext \<Rightarrow> bool" where
  "answered now s user \<longleftrightarrow> (\<forall>n. \<not> tracker_wants user (now n) (ps_presence s))"

definition answer_fits :: "(nat \<Rightarrow> utc_millis) \<Rightarrow> utext \<times> user_presence option \<times> utc_millis \<Rightarrow> bool" where
  "answer_fits now a \<longleftrightarrow>
     opt_all (fst (snd a)) (\<lambda>x. up_user_id x = fst a) \<and>
     (\<forall>n. utc_value (now n) - utc_value (snd (snd a)) < PRESENCE_FETCH_RETRY_MS)"

lemma answer_settles:
  assumes "answer_fits now a"
  shows "answered now (record_fetched_presence a s) (fst a)"
    and "answered now s user \<Longrightarrow> answered now (record_fetched_presence a s) user"
proof -
  obtain u p at where a: "a = (u, p, at)" by (rule prod_cases3)
  have "\<not> tracker_wants u (now n) (record_fetched u p at (ps_presence s))" for n
    using assms by (cases p)
      (auto simp: a answer_fits_def tracker_wants_def record_fetched_def record_presence_def Let_def linorder_not_less [symmetric])
  then show "answered now (record_fetched_presence a s) (fst a)"
    by (simp add: answered_def record_fetched_presence_def a)
  have "\<not> tracker_wants user (now n) (record_fetched u p at (ps_presence s))"
    if "\<not> tracker_wants user (now n) (ps_presence s)" for n
    using assms that by (cases p; cases "user = u")
      (auto simp: a answer_fits_def tracker_wants_def record_fetched_def record_presence_def Let_def linorder_not_less [symmetric])
  then show "answered now s user \<Longrightarrow> answered now (record_fetched_presence a s) user"
    by (simp add: answered_def record_fetched_presence_def a)
qed

lemma answers_settle:
  assumes "\<forall>a\<in>set as. answer_fits now a"
  shows "(answered now s user \<longrightarrow> answered now (fold record_fetched_presence as s) user) \<and>
    (user \<in> fst ` set as \<longrightarrow> answered now (fold record_fetched_presence as s) user)"
  using assms
proof (induction as arbitrary: s)
  case (Cons a as)
  then have "answer_fits now a" by simp
  then show ?case using Cons.IH [of "record_fetched_presence a s"] answer_settles [of now a s] Cons.prems by auto
qed simp

lemma fetch_ends:
  assumes "\<And>n wanted. fst ` set (answers n wanted) = set wanted"
    and "\<And>n wanted. \<forall>a\<in>set (answers n wanted). answer_fits now a"
    and "card {u \<in> card_users s. \<not> answered now s u} < fuel"
  shows "\<exists>asked' s' k. fetch_missing_presence fuel now answers n asked s = Some (asked', s') \<and>
    asked' \<le> asked + card {u \<in> card_users s. \<not> answered now s u} \<and> ps_rooms s' = ps_rooms s \<and>
    (\<forall>u\<in>card_users s. \<not> tracker_wants u (now k) (ps_presence s'))"
  using assms(3)
proof (induction fuel arbitrary: n asked s)
  case (Suc fuel)
  let ?open = "\<lambda>s. {u \<in> card_users s. \<not> answered now s u}"
  define w where "w = presence_wanted (now n) PRESENCE_FETCH_BATCH s"
  have w: "set w \<subseteq> ?open s" "distinct w"
    using presence_wanted_facts(1) [of "now n" PRESENCE_FETCH_BATCH s] presence_wanted_facts(2) by (auto simp: w_def answered_def)
  show ?case
  proof (cases "w = []")
    case True
    then have "\<forall>u\<in>card_users s. \<not> tracker_wants u (now n) (ps_presence s)"
      using presence_wanted_facts(3) [of PRESENCE_FETCH_BATCH "now n" s] by (simp add: w_def PRESENCE_FETCH_BATCH_def)
    then show ?thesis using True by (auto simp: w_def [symmetric])
  next
    case False
    define t where "t = fold record_fetched_presence (answers n w) s"
    have rooms: "ps_rooms t = ps_rooms s" by (simp add: t_def)
    then have users: "card_users t = card_users s" by (rule card_users_cong)
    have settled: "(answered now s u \<longrightarrow> answered now t u) \<and> (u \<in> set w \<longrightarrow> answered now t u)" for u
      using answers_settle [OF assms(2) [of n w], where s = s and user = u] assms(1) [of n w] by (simp add: t_def)
    have "?open t \<subseteq> ?open s - set w" unfolding users using settled by blast
    then have "card (?open t) \<le> card (?open s - set w)"
      by (intro card_mono) (simp_all add: finite_card_users)
    also have "\<dots> = card (?open s) - length w"
      using w finite_card_users by (simp add: card_Diff_subset distinct_card)
    finally have "card (?open t) \<le> card (?open s) - length w" .
    moreover have "length w \<le> card (?open s)"
      using card_mono [OF _ w(1)] distinct_card [OF w(2)] finite_card_users by simp
    moreover have "0 < length w" using False by simp
    ultimately have lt: "card (?open t) + length w \<le> card (?open s)" "card (?open t) < fuel"
      using Suc.prems by linarith+
    obtain asked' s' k where
      "fetch_missing_presence fuel now answers (Suc n) (asked + length w) t = Some (asked', s')"
      "asked' \<le> asked + length w + card (?open t)" "ps_rooms s' = ps_rooms t"
      "\<forall>u\<in>card_users t. \<not> tracker_wants u (now k) (ps_presence s')"
      using Suc.IH [OF lt(2), of "Suc n" "asked + length w"] by blast
    then show ?thesis using False lt(1) rooms users
      by (intro exI [of _ asked'] exI [of _ s'] exI [of _ k]) (auto simp: w_def [symmetric] t_def)
  qed
qed simp

text \<open>
  Without the bound on the time, the loop may ask the same users for ever: when no question is
  answered and a round takes a minute, the users of the first round are due again after the last.
\<close>

lemma failures_repeat:
  assumes "\<And>n. utc_value (now n) + PRESENCE_FETCH_RETRY_MS \<le> utc_value (now (Suc n))"
    and "user \<in> card_users s" and "pt_entries (ps_presence s) user = None"
    and "opt_all (pt_failed_at (ps_presence s) user) (\<lambda>f. f + PRESENCE_FETCH_RETRY_MS \<le> utc_value (now n))"
  shows "fetch_missing_presence fuel now (\<lambda>n. map (\<lambda>u. (u, None, now n))) n asked s = None"
  using assms(2-4)
proof (induction fuel arbitrary: n asked s)
  case (Suc fuel)
  define w where "w = presence_wanted (now n) PRESENCE_FETCH_BATCH s"
  have "tracker_wants user (now n) (ps_presence s)"
    using Suc.prems by (cases "pt_failed_at (ps_presence s) user") (auto simp: tracker_wants_def)
  then have "w \<noteq> []"
    using presence_wanted_facts(3) [of PRESENCE_FETCH_BATCH "now n" s] Suc.prems(1)
    by (auto simp: w_def PRESENCE_FETCH_BATCH_def)
  let ?t = "fold record_fetched_presence (map (\<lambda>u. (u, None, now n)) w) s"
  have t: "pt_entries (ps_presence (fold record_fetched_presence (map (\<lambda>u. (u, None, now n)) us) s)) = pt_entries (ps_presence s)"
    "pt_failed_at (ps_presence (fold record_fetched_presence (map (\<lambda>u. (u, None, now n)) us) s)) user =
      (if user \<in> set us then Some (utc_value (now n)) else pt_failed_at (ps_presence s) user)" for us
    by (induction us arbitrary: s) (auto simp: record_fetched_presence_def record_fetched_def)
  have "opt_all (pt_failed_at (ps_presence ?t) user) (\<lambda>f. f + PRESENCE_FETCH_RETRY_MS \<le> utc_value (now (Suc n)))"
    using Suc.prems(3) assms(1) [of n] unfolding t(2)
    by (cases "pt_failed_at (ps_presence s) user") (auto simp: PRESENCE_FETCH_RETRY_MS_def)
  moreover have "user \<in> card_users ?t" "pt_entries (ps_presence ?t) user = None"
    using Suc.prems(1,2) card_users_cong [of ?t s] by (simp_all add: t(1))
  ultimately have "fetch_missing_presence fuel now (\<lambda>n. map (\<lambda>u. (u, None, now n))) (Suc n) (asked + length w) ?t = None"
    using Suc.IH by blast
  then show ?case using \<open>w \<noteq> []\<close> by (simp add: w_def [symmetric])
qed simp

section \<open>Samples\<close>

definition sample_projected :: "agent_instance_id \<Rightarrow> int \<Rightarrow> projected_presence" where
  "sample_projected i t =
     \<lparr>pj_event_id = [36], pj_room_id = [33],
      pj_identity = \<lparr>bi_agent_id = 7, bi_display_name = [65], bi_matrix_user_id = [64],
        bi_agent_instance_id = i, bi_avatar_url = None\<rparr>,
      pj_status = WorkOffline, pj_observed_at = UtcMillis t, pj_lease_expires_at = UtcMillis t,
      pj_origin_server_timestamp = t, pj_published_at = UtcMillis t, pj_last_polled_at = None,
      pj_listening_until = None, pj_reception_known = False, pj_card = False\<rparr>"

definition sample_room :: "(agent_instance_id \<times> projected_presence) list \<Rightarrow> room_presence" where
  "sample_room ps = \<lparr>rp_joined_members = {[64]}, rp_instances = ps, rp_policy = roster_policy_default\<rparr>"

lemma sample_projected_simps [simp]:
  "pj_user (sample_projected i t) = [64]" "pj_instance (sample_projected i t) = i" "pj_agent (sample_projected i t) = 7"
  "pj_published_at (sample_projected i t) = UtcMillis t" "pj_observed_at (sample_projected i t) = UtcMillis t"
  "pj_origin_server_timestamp (sample_projected i t) = t" "pj_card (sample_projected i t) = False"
  "disconnected tracker now policy (sample_projected i t)"
  by (simp_all add: sample_projected_def disconnected_def agent_lifecycle_of_def evidence_with_def lease_state_def
      lease_connection_def Let_def)

section \<open>Properties\<close>

text \<open>
  Whatever batches and answers arrive, the projection stays well formed: every room holds at most one
  status per instance, filed under the identifier the status itself names, of a user who is joined to the
  room; and the tracked presence is consistent.
\<close>

theorem presence_projection_invariant:
  "projection_ok (fold (case_sum apply_sync record_fetched_presence) events
     \<lparr>ps_rooms = [], ps_presence = presence_tracker_new\<rparr>)"
proof -
  have "projection_ok s \<Longrightarrow> projection_ok (fold (case_sum apply_sync record_fetched_presence) events s)" for s
    by (induction events arbitrary: s) (auto simp: apply_sync_ok record_fetched_ok split: sum.split)
  moreover have "projection_ok \<lparr>ps_rooms = [], ps_presence = presence_tracker_new\<rparr>"
    by (simp add: projection_ok_def rooms_ok_def tracker_ok_def presence_tracker_new_def)
  ultimately show ?thesis by blast
qed

text \<open>
  C18: A status is never replaced by an older one but by a replacement of the whole room: what a room shows of
  an instance after an update is the status it showed or one of the update, and no status of a joined user in
  the update is newer than it. When the update adds to the room, the status is also at least as new as the
  one shown before. An update of mode \<open>ModeReplace\<close> (the full state of the room) forgets what was shown: then
  the status is one of the update, which may be older than the one before.
\<close>

theorem newest_status_shown:
  assumes "room_presence_ok room"
    and "map_of (rp_instances (update_room tracker u room)) i = Some q"
  shows "(if rj_mode u = ModeReplace then q \<in> set (rj_presences u)
      else map_of (rp_instances room) i = Some q \<or> q \<in> set (rj_presences u)) \<and>
    pj_user q \<in> rp_joined_members (update_room tracker u room) \<and>
    (\<forall>p. rj_mode u \<noteq> ModeReplace \<and> map_of (rp_instances room) i = Some p \<and> pj_user p \<in> rp_joined_members (update_room tracker u room) \<longrightarrow>
       q = p \<or> status_is_newer q p) \<and>
    (\<forall>p\<in>set (rj_presences u).
       pj_instance p = i \<and> pj_user p \<in> rp_joined_members (update_room tracker u room) \<longrightarrow> \<not> status_is_newer p q)"
proof -
  let ?b = "before_statuses u room"
  have ok: "room_presence_ok ?b" "room_presence_ok (update_room tracker u room)"
    using assms(1) before_statuses_ok update_room_ok by (simp_all add: room_presence_ok_def)
  have j: "rp_joined_members (update_room tracker u room) = rp_joined_members ?b" by (simp add: update_room_eq)
  have "map_of (rp_instances (fold apply_status (rj_presences u) ?b)) i = Some q"
    using assms(2) statuses_ok [OF ok(1)] compact_lookup unfolding update_room_eq room_presence_ok_def by blast
  note l = statuses_lookup [OF ok(1) this]
  have b: "map_of (rp_instances ?b) i =
      (if rj_mode u = ModeReplace then None
       else case map_of (rp_instances room) i of
         None \<Rightarrow> None | Some p \<Rightarrow> if pj_user p \<in> rp_joined_members ?b then Some p else None)"
    using assms(1) by (subst before_statuses_instances) (simp add: map_of_retain room_presence_ok_def instances_ok_def)
  have "pj_user q \<in> rp_joined_members ?b"
    using ok(2) map_of_SomeD [OF assms(2)] unfolding j [symmetric] by (auto simp: room_presence_ok_def members_ok_def)
  then show ?thesis using l b unfolding j by (auto split: option.splits if_splits)
qed

theorem newest_status_shown_witness:
  "\<exists>q. map_of (rp_instances (update_room presence_tracker_new
       \<lparr>rj_room_id = [33], rj_mode = ModeDelta, rj_memberships = [],
        rj_presences = [sample_projected 1 300, sample_projected 1 200], rj_policy = None\<rparr>
       (sample_room [(1, sample_projected 1 100)]))) 1 = Some q \<and>
     \<not> status_is_newer (sample_projected 1 300) q"
proof -
  let ?r = "sample_room [(1, sample_projected 1 100)]"
  let ?u = "\<lparr>rj_room_id = [33], rj_mode = ModeDelta, rj_memberships = [],
        rj_presences = [sample_projected 1 300, sample_projected 1 200], rj_policy = None\<rparr>"
  have ok: "room_presence_ok ?r"
    by (simp add: room_presence_ok_def instances_ok_def members_ok_def sample_room_def ordered_map_def)
  have "map_of (rp_instances (update_room presence_tracker_new ?u ?r)) 1 = Some (sample_projected 1 300)"
    by (simp add: update_room_eq before_statuses_def sample_room_def apply_status_def status_is_newer_def
        compact_disconnected_instances_def map_values_def note_latest_def map_retain_def Let_def)
  then show ?thesis
    using newest_status_shown [OF ok, of presence_tracker_new ?u 1 "sample_projected 1 300"]
    by (auto simp: update_room_eq before_statuses_def sample_room_def)
qed

text \<open>
  Compaction loses no agent and keeps what is current: an instance survives exactly when it is not
  disconnected or is the most recently published of its agent's disconnected instances, so every agent of
  the room is still there afterwards, with at most one disconnected instance.
\<close>

theorem compaction_exact:
  assumes "room_presence_ok room" and "gone = disconnected tracker (room_now room) (rp_policy room)"
    and "kept = rp_instances (compact_disconnected_instances tracker room)"
  shows "(\<forall>i p. (i, p) \<in> set kept \<longleftrightarrow> (i, p) \<in> set (rp_instances room) \<and>
      (gone p \<longrightarrow> (\<forall>(j, q)\<in>set (rp_instances room). gone q \<and> pj_agent q = pj_agent p \<longrightarrow> seen_key q \<le> seen_key p))) \<and>
    (\<forall>(i, p)\<in>set (rp_instances room). \<exists>(j, q)\<in>set kept. pj_agent q = pj_agent p) \<and>
    (\<forall>(i, p)\<in>set kept. \<forall>(j, q)\<in>set kept. gone p \<and> gone q \<and> pj_agent p = pj_agent q \<longrightarrow> p = q)"
proof -
  have ok: "instances_ok room" using assms(1) by (simp add: room_presence_ok_def)
  let ?max = "\<lambda>p. \<forall>(j, q)\<in>set (rp_instances room). gone q \<and> pj_agent q = pj_agent p \<longrightarrow> seen_key q \<le> seen_key p"
  have ex: "(i, p) \<in> set kept \<longleftrightarrow> (i, p) \<in> set (rp_instances room) \<and> (gone p \<longrightarrow> ?max p)" for i p
    using compact_exact [OF ok assms(2)] assms(3) by simp
  moreover have "\<exists>(j, q)\<in>set kept. pj_agent q = pj_agent p" if p: "(i, p) \<in> set (rp_instances room)" for i p
  proof (cases "gone p")
    case False
    then show ?thesis using p ex by auto
  next
    case True
    let ?A = "{e \<in> set (rp_instances room). gone (snd e) \<and> pj_agent (snd e) = pj_agent p}"
    let ?K = "(\<lambda>e. seen_key (snd e)) ` ?A"
    have "(i, p) \<in> ?A" using p True by simp
    then have "finite ?K" "?K \<noteq> {}" by (simp, blast)
    then have "Max ?K \<in> ?K" by (rule Max_in)
    then obtain e where e: "Max ?K = seen_key (snd e)" "e \<in> ?A" by (rule imageE)
    then have "\<forall>d\<in>?A. seen_key (snd d) \<le> seen_key (snd e)"
      using Max_ge [OF \<open>finite ?K\<close>] by (metis (no_types, lifting) imageI)
    with e(2) have "e \<in> set kept" using ex [of "fst e" "snd e"] by (auto simp del: less_eq_prod_simp)
    then show ?thesis using e(2) by (auto simp: case_prod_beta)
  qed
  moreover have "p = q" if "(i, p) \<in> set kept" "(j, q) \<in> set kept" "gone p \<and> gone q \<and> pj_agent p = pj_agent q" for i p j q
  proof -
    have le: "seen_key y \<le> seen_key x"
      if "(k, x) \<in> set kept" "gone x" "(l, y) \<in> set (rp_instances room)" "gone y" "pj_agent y = pj_agent x" for k x l y
      using ex that by blast
    have m: "(i, p) \<in> set (rp_instances room)" "(j, q) \<in> set (rp_instances room)" using that(1,2) ex by blast+
    have "seen_key p = seen_key q"
      using le [OF that(1) _ m(2)] le [OF that(2) _ m(1)] that(3) by (metis order.antisym)
    then have "pj_instance p = pj_instance q" by simp
    then show ?thesis using m instances_ok_key [OF ok] instances_unique [OF ok] by metis
  qed
  ultimately show ?thesis by blast
qed

theorem compaction_exact_witness:
  "rp_instances (compact_disconnected_instances presence_tracker_new
     (sample_room [(1, sample_projected 1 100), (2, sample_projected 2 200)])) = [(2, sample_projected 2 200)]"
proof -
  let ?r = "sample_room [(1, sample_projected 1 100), (2, sample_projected 2 200)]"
  let ?k = "rp_instances (compact_disconnected_instances presence_tracker_new ?r)"
  have ok: "room_presence_ok ?r"
    by (simp add: room_presence_ok_def instances_ok_def members_ok_def sample_room_def ordered_map_def)
  have "(i, p) \<in> set ?k \<longleftrightarrow> (i, p) = (2, sample_projected 2 200)" for i p
    using compaction_exact [OF ok refl refl, of presence_tracker_new] by (auto simp: sample_room_def)
  then have "set ?k = {(2, sample_projected 2 200)}" by auto
  moreover have "distinct ?k"
    using compact_ok [OF ok] by (auto simp: room_presence_ok_def dest: instances_ok_distinct intro: distinct_map [THEN iffD1, THEN conjunct1])
  ultimately show ?thesis by (cases ?k; cases "tl ?k") auto
qed

text \<open>
  Nobody can pretend to be online for long: a status is granted a lease only until the policy's maximum
  and the tolerated skew after it was received, so when no new status arrives the agent is shown as
  disconnected thirty seconds later; a status that claims a publication in the future is refused, and a
  lease that was granted is honoured until its claimed end.
\<close>

theorem silent_agent_disconnected:
  assumes "evaluate_lease (pj_published_at p) claimed (pj_observed_at p) policy = Inr (pj_lease_expires_at p)"
    and "utc_ok (pj_published_at p)" and "utc_ok claimed" and "utc_ok (pj_observed_at p)" and "utc_ok now"
    and "duration_ok (lp_maximum_lease policy)" and "duration_ok (lp_allowed_clock_skew policy)"
    and "\<not> pj_card p"
  shows "utc_value (pj_published_at p) \<le> utc_value (pj_observed_at p) + duration_value (lp_allowed_clock_skew policy) \<and>
    (utc_value (pj_observed_at p) + duration_value (lp_maximum_lease policy) +
       duration_value (lp_allowed_clock_skew policy) + 30000 \<le> utc_value now \<longrightarrow> disconnected tracker now roster p) \<and>
    (pj_status p \<noteq> WorkOffline \<and> now < claimed \<and>
       utc_value now < utc_value (pj_observed_at p) + duration_value (lp_maximum_lease policy) \<longrightarrow>
     al_connection (agent_lifecycle_of (evidence_with (tracker_observation (pj_user p) tracker) p)
       (utc_value now) days) = Online)"
proof -
  note lease = evaluate_lease_Inr [OF assms(1-3)]
  have c: "al_connection (agent_lifecycle_of (evidence_with o' p) (utc_value now) d) =
      lease_connection (evidence_with o' p) (utc_value now)" for o' d
    using assms(8) by (simp add: agent_lifecycle_of_def evidence_with_def lease_state_def Let_def)
  have "0 \<le> utc_value (pj_lease_expires_at p)"
    using lease assms(2-7) by (auto simp: utc_ok_def duration_ok_def min_def)
  then show ?thesis
    using lease assms(5,7) unfolding disconnected_def c
    by (auto simp: lease_connection_def evidence_with_def i64_saturating_add_def reconnect_grace_ms_def clock_order
        utc_ok_def duration_ok_def min_def int_width_defs split: if_splits)
qed

theorem silent_agent_disconnected_witness:
  "disconnected presence_tracker_new (UtcMillis 400000) roster_policy_default
     ((sample_projected 1 100000)\<lparr>pj_status := Working, pj_lease_expires_at := UtcMillis 220000\<rparr>)"
proof -
  let ?p = "(sample_projected 1 100000)\<lparr>pj_status := Working, pj_lease_expires_at := UtcMillis 220000\<rparr>"
  let ?policy = "\<lparr>lp_maximum_lease = DurationMillis 120000, lp_allowed_clock_skew = DurationMillis 30000\<rparr>"
  have "evaluate_lease (UtcMillis 100000) (UtcMillis 190000) (UtcMillis 100000) ?policy = Inr (UtcMillis 220000)"
    by (simp add: evaluate_lease_def i64_try_from_def utc_checked_add_def i64_checked_add_def i64_saturating_sub_def
        min_def int_width_defs)
  then show ?thesis
    using silent_agent_disconnected [of ?p "UtcMillis 190000" ?policy "UtcMillis 400000" presence_tracker_new roster_policy_default]
    by (simp add: sample_projected_def utc_ok_def duration_ok_def int_width_defs)
qed

text \<open>
  C23: Asking for missing presence comes to an end: when all questions of a run take less than a minute, it
  asks no more questions than there are users who show a card, whether the answers succeed or fail and in
  whatever order they arrive, and leaves nobody who is still to be asked.
\<close>

theorem presence_questions_end:
  assumes "\<And>n wanted. fst ` set (answers n wanted) = set wanted"
    and "\<And>n wanted user p at. (user, Some p, at) \<in> set (answers n wanted) \<Longrightarrow> up_user_id p = user"
    and "\<And>n m wanted user p at. (user, p, at) \<in> set (answers n wanted) \<Longrightarrow> utc_value (now m) < utc_value at + 60000"
  shows "\<exists>asked s' k. fetch_missing_presence (Suc (card (card_users s))) now answers 0 0 s = Some (asked, s') \<and>
    asked \<le> card (card_users s) \<and> ps_rooms s' = ps_rooms s \<and>
    (\<forall>user\<in>card_users s. \<not> tracker_wants user (now k) (ps_presence s'))"
proof -
  have fits: "\<forall>a\<in>set (answers n wanted). answer_fits now a" for n wanted
  proof
    fix a assume a: "a \<in> set (answers n wanted)"
    obtain user p at where e: "a = (user, p, at)" by (rule prod_cases3)
    have "opt_all p (\<lambda>x. up_user_id x = user)" using assms(2) [of user _ at n wanted] a e by (cases p) auto
    moreover have "utc_value (now m) - utc_value at < PRESENCE_FETCH_RETRY_MS" for m
      using assms(3) [of user p at n wanted m] a e by (simp add: PRESENCE_FETCH_RETRY_MS_def)
    ultimately show "answer_fits now a" by (simp add: e answer_fits_def)
  qed
  let ?open = "{u \<in> card_users s. \<not> answered now s u}"
  have le: "card ?open \<le> card (card_users s)" by (intro card_mono) (auto simp: finite_card_users)
  then have "card ?open < Suc (card (card_users s))" by simp
  from fetch_ends [where answers = answers and now = now and n = 0 and asked = 0, OF assms(1) fits this] obtain asked s' k where
    "fetch_missing_presence (Suc (card (card_users s))) now answers 0 0 s = Some (asked, s')"
    "asked \<le> 0 + card ?open" "ps_rooms s' = ps_rooms s"
    "\<forall>user\<in>card_users s. \<not> tracker_wants user (now k) (ps_presence s')" by blast
  then show ?thesis using le by (intro exI [of _ asked] exI [of _ s'] exI [of _ k]) simp
qed

theorem presence_questions_end_witness:
  "\<exists>asked s'. fetch_missing_presence 2 (\<lambda>_. UtcMillis 5000) (\<lambda>_ wanted. map (\<lambda>u. (u, None, UtcMillis 5000)) (rev wanted)) 0 0
     \<lparr>ps_rooms = [([33], sample_room [(1, (sample_projected 1 100)\<lparr>pj_card := True\<rparr>)])],
      ps_presence = presence_tracker_new\<rparr> = Some (asked, s') \<and> asked \<le> 1"
proof -
  let ?p = "(sample_projected 1 100)\<lparr>pj_card := True\<rparr>"
  let ?s = "\<lparr>ps_rooms = [([33], sample_room [(1, ?p)])], ps_presence = presence_tracker_new\<rparr>"
  have "card_users ?s = {[64]}"
    by (simp add: card_users_def sample_room_def map_values_def sample_projected_def)
  then have two: "Suc (card (card_users ?s)) = 2" "card (card_users ?s) = 1" by simp_all
  have "\<exists>asked s' (k::nat). fetch_missing_presence (Suc (card (card_users ?s))) (\<lambda>_. UtcMillis 5000)
      (\<lambda>_ wanted. map (\<lambda>u. (u, None, UtcMillis 5000)) (rev wanted)) 0 0 ?s = Some (asked, s') \<and>
    asked \<le> card (card_users ?s) \<and> ps_rooms s' = ps_rooms ?s \<and>
    (\<forall>user\<in>card_users ?s. \<not> tracker_wants user (UtcMillis 5000) (ps_presence s'))"
    by (rule presence_questions_end [where now = "\<lambda>_. UtcMillis 5000"]) (auto simp: image_image)
  then show ?thesis unfolding two(2) numeral_2_eq_2 One_nat_def by blast
qed

end
