(* ===== verification/Presence_Roster.thy ===== *)
theory Presence_Roster
  imports Presence_Projection
begin

text \<open>
  The roster of a room (\<^verbatim>\<open>crates/bridge-core/src/presence_roster.rs\<close>, the queries of
  \<^verbatim>\<open>presence.rs\<close> and \<^verbatim>\<open>list_sync\<close> of the projection): the instances of an agent collapse into
  one entry, at most a hundred offline agents stay unarchived, and a client reads the roster in pages.
  \<^verbatim>\<open>Reverse\<close> of an integer is its negation, a stable descending sort the reversal of a stable
  ascending one, and the rendering of UUIDs (\<open>uuid_text\<close>), which breaks ties, is a parameter.
\<close>

section \<open>Entries\<close>

definition PRESENCE_PAGE_SIZE :: nat where "PRESENCE_PAGE_SIZE = 100"
definition RECENT_OFFLINE_LIMIT :: nat where "RECENT_OFFLINE_LIMIT = 100"
definition MAXIMUM_PRESENCE_TARGETS :: nat where "MAXIMUM_PRESENCE_TARGETS = 50"

record roster_entry =
  re_presence :: projected_presence
  re_status :: agent_work_status
  re_observed_at :: utc_millis
  re_lifecycle :: agent_lifecycle
  re_last_active_at :: int
  re_last_polled_at :: "int option"
  re_listening_until :: "int option"
  re_archive_after_days :: nat

abbreviation re_agent :: "roster_entry \<Rightarrow> agent_id" where
  "re_agent e \<equiv> pj_agent (re_presence e)"

definition roster_entry_new :: "projected_presence \<Rightarrow> agent_work_status \<Rightarrow> utc_millis \<Rightarrow> roster_entry" where
  "roster_entry_new presence st observed_at =
     (let evidence = evidence_of presence;
          days = archive_after_days roster_policy_default
      in \<lparr>re_presence = presence, re_status = st, re_observed_at = observed_at,
          re_lifecycle = agent_lifecycle_of evidence (utc_value observed_at) days,
          re_last_active_at = pe_last_active_at evidence,
          re_last_polled_at = pe_last_polled_at evidence,
          re_listening_until = pe_listening_until evidence,
          re_archive_after_days = days\<rparr>)"

section \<open>One agent\<close>

definition priority ::
  "(uuid \<Rightarrow> utext) \<Rightarrow> utc_millis \<Rightarrow> projected_presence \<Rightarrow> presence_evidence \<Rightarrow> nat \<times> nat \<times> int \<times> utext" where
  "priority uuid_text now presence evidence =
     (let connection = al_connection (agent_lifecycle_of evidence (utc_value now) 7);
          tier = (case connection of Online \<Rightarrow> 2 | Reconnecting \<Rightarrow> 1 | ConnectionOffline \<Rightarrow> 0);
          work = (if connection = Online
                  then (case pj_status presence of
                          Blocked \<Rightarrow> 5 | WaitingInput \<Rightarrow> 4 | Working \<Rightarrow> 3 | WorkCompleted \<Rightarrow> 2
                        | WorkIdle \<Rightarrow> 1 | WorkOffline \<Rightarrow> 0)
                  else 0)
      in (tier, work, utc_value (pj_published_at presence), uuid_text (pj_instance presence)))"

definition maximum :: "'a::linorder list \<Rightarrow> 'a option" where
  "maximum xs = (case xs of [] \<Rightarrow> None | x # ys \<Rightarrow> Some (fold max ys x))"

definition sort_descending :: "('a \<Rightarrow> 'b::linorder) \<Rightarrow> 'a list \<Rightarrow> 'a list" where
  "sort_descending f xs = rev (sort_key f (rev xs))"

type_synonym observed_instance = "projected_presence \<times> presence_observation option"

definition instance_online :: "utc_millis \<Rightarrow> nat \<Rightarrow> observed_instance \<Rightarrow> bool" where
  "instance_online now days x \<longleftrightarrow>
     al_connection (agent_lifecycle_of (evidence_with (snd x) (fst x)) (utc_value now) days) = Online"

definition agent_evidence :: "utc_millis \<Rightarrow> nat \<Rightarrow> observed_instance list \<Rightarrow> presence_evidence" where
  "agent_evidence now days instances =
     (let evidence = evidence_with (snd (hd instances)) (fst (hd instances));
          online = filter (instance_online now days) instances
      in evidence
           \<lparr>pe_last_active_at := unwrap_or (maximum (map (\<lambda>x. utc_value (pj_published_at (fst x))) instances))
              (pe_last_active_at evidence),
            pe_last_polled_at :=
              maximum (List.map_filter (\<lambda>x. map_option utc_value (pj_last_polled_at (fst x))) online),
            pe_listening_until :=
              maximum (List.map_filter (\<lambda>x. map_option utc_value (pj_listening_until (fst x))) online),
            pe_reception_known := list_ex (\<lambda>x. pe_reception_known (evidence_of (fst x))) online\<rparr>)"

definition project_agent ::
  "(uuid \<Rightarrow> utext) \<Rightarrow> utc_millis \<Rightarrow> roster_policy \<Rightarrow> observed_instance list \<Rightarrow> roster_entry" where
  "project_agent uuid_text now policy unsorted =
     (let days = archive_after_days policy;
          instances = sort_descending (\<lambda>x. priority uuid_text now (fst x) (evidence_with (snd x) (fst x))) unsorted;
          primary = fst (hd instances);
          primary_observed = snd (hd instances);
          evidence = agent_evidence now days instances;
          lifecycle = agent_lifecycle_of evidence (utc_value now) days;
          st = (if al_connection lifecycle = Online then pj_status primary else WorkOffline);
          last_active = (case (if pj_card primary then Option.bind primary_observed po_last_active_at else None) of
                           None \<Rightarrow> pe_last_active_at evidence
                         | Some at \<Rightarrow> max at (pe_last_active_at evidence))
      in (roster_entry_new primary st now)
           \<lparr>re_lifecycle := lifecycle, re_last_active_at := last_active,
            re_last_polled_at := pe_last_polled_at evidence,
            re_listening_until := pe_listening_until evidence, re_archive_after_days := days\<rparr>)"

section \<open>The roster\<close>

definition recently_offline :: "roster_entry \<Rightarrow> bool" where
  "recently_offline e \<longleftrightarrow>
     al_connection (re_lifecycle e) = ConnectionOffline \<and> al_archive_reason (re_lifecycle e) = None"

definition last_seen :: "roster_entry \<Rightarrow> int" where
  "last_seen e =
     (if pj_card (re_presence e) then unwrap_or (al_offline_since (re_lifecycle e)) (re_last_active_at e)
      else re_last_active_at e)"

definition archive_entry :: "roster_entry \<Rightarrow> roster_entry" where
  "archive_entry e = e\<lparr>re_lifecycle := (re_lifecycle e)\<lparr>al_archive_reason := Some ArchiveCapacity\<rparr>\<rparr>"

definition archive_beyond_capacity :: "roster_entry list \<Rightarrow> roster_entry list" where
  "archive_beyond_capacity entries =
     (let offline = sort_key (\<lambda>i. (- last_seen (entries ! i), re_agent (entries ! i)))
            (filter (\<lambda>i. recently_offline (entries ! i)) [0..<length entries])
      in fold (\<lambda>i es. es[i := archive_entry (es ! i)]) (drop RECENT_OFFLINE_LIMIT offline) entries)"

definition group_instance ::
  "projected_presence \<Rightarrow> (agent_id \<times> projected_presence list) list \<Rightarrow> (agent_id \<times> projected_presence list) list" where
  "group_instance p groups =
     map_insert (pj_agent p) (unwrap_or (map_of groups (pj_agent p)) [] @ [p]) groups"

definition project_roster_with_presence ::
  "(uuid \<Rightarrow> utext) \<Rightarrow> projected_presence list \<Rightarrow> utc_millis \<Rightarrow> roster_policy \<Rightarrow>
     (utext \<Rightarrow> presence_observation option) \<Rightarrow> roster_entry list" where
  "project_roster_with_presence uuid_text presences now policy matrix_presence =
     archive_beyond_capacity
       (map (\<lambda>instances. project_agent uuid_text now policy
               (map (\<lambda>p. (p, matrix_presence (pj_user p))) instances))
         (map_values (fold group_instance presences [])))"

definition project_roster ::
  "(uuid \<Rightarrow> utext) \<Rightarrow> projected_presence list \<Rightarrow> utc_millis \<Rightarrow> roster_policy \<Rightarrow> roster_entry list" where
  "project_roster uuid_text presences now policy = project_roster_with_presence uuid_text presences now policy (\<lambda>_. None)"

section \<open>Queries and pages\<close>

datatype presence_query_error = TooManyTargets | InvalidPageSize

record presence_query =
  pq_room_id :: utext
  pq_agent_ids :: "agent_id set"
  pq_observed_at :: utc_millis

definition presence_query_new ::
  "utext \<Rightarrow> agent_id list \<Rightarrow> utc_millis \<Rightarrow> presence_query_error + presence_query" where
  "presence_query_new room agent_ids observed_at =
     (if card (set agent_ids) > MAXIMUM_PRESENCE_TARGETS then Inl TooManyTargets
      else Inr \<lparr>pq_room_id = room, pq_agent_ids = set agent_ids, pq_observed_at = observed_at\<rparr>)"

definition list_presence :: "(uuid \<Rightarrow> utext) \<Rightarrow> presence_query \<Rightarrow> projection_state \<Rightarrow> roster_entry list" where
  "list_presence uuid_text q s =
     (case map_of (ps_rooms s) (pq_room_id q) of
        None \<Rightarrow> []
      | Some room \<Rightarrow>
          filter (\<lambda>e. pq_agent_ids q = {} \<or> re_agent e \<in> pq_agent_ids q)
            (project_roster_with_presence uuid_text (map_values (rp_instances room)) (pq_observed_at q) (rp_policy room)
              (\<lambda>user. tracker_observation user (ps_presence s))))"

record roster_page =
  rg_entries :: "roster_entry list"
  rg_next_cursor :: "agent_id option"

definition paginate_roster ::
  "roster_entry list \<Rightarrow> bool \<Rightarrow> agent_id option \<Rightarrow> nat \<Rightarrow> presence_query_error + roster_page" where
  "paginate_roster entries include_archived after limit =
     (if limit = 0 \<or> limit > PRESENCE_PAGE_SIZE then Inl InvalidPageSize
      else
        (let retained = filter (\<lambda>e. (include_archived \<or> al_archive_reason (re_lifecycle e) = None) \<and>
                          (case after of None \<Rightarrow> True | Some a \<Rightarrow> re_agent e > a)) entries;
             sorted_entries = sort_key re_agent retained;
             shown = take limit sorted_entries
         in Inr \<lparr>rg_entries = shown,
                 rg_next_cursor = (if length sorted_entries > limit then Some (re_agent (last shown)) else None)\<rparr>))"

section \<open>Grouping\<close>

lemma fold_group:
  assumes "ordered_map g"
  shows "ordered_map (fold group_instance ps g) \<and>
    map_of (fold group_instance ps g) a =
      (let l = filter (\<lambda>p. pj_agent p = a) ps in if l = [] then map_of g a else Some (unwrap_or (map_of g a) [] @ l))"
  using assms
proof (induction ps arbitrary: g)
  case (Cons p ps)
  have "ordered_map (group_instance p g)" "map_of (group_instance p g) a =
      (if a = pj_agent p then Some (unwrap_or (map_of g a) [] @ [p]) else map_of g a)"
    using Cons.prems by (auto simp: group_instance_def)
  then show ?case using Cons.IH [of "group_instance p g"] by (auto simp: Let_def)
qed simp

abbreviation groups_of :: "projected_presence list \<Rightarrow> (agent_id \<times> projected_presence list) list" where
  "groups_of ps \<equiv> fold group_instance ps []"

lemma groups_of:
  "ordered_map (groups_of ps)"
  "(a, l) \<in> set (groups_of ps) \<longleftrightarrow> l \<noteq> [] \<and> l = filter (\<lambda>p. pj_agent p = a) ps"
proof -
  show o: "ordered_map (groups_of ps)" using fold_group [OF ordered_map_Nil] by blast
  show "(a, l) \<in> set (groups_of ps) \<longleftrightarrow> l \<noteq> [] \<and> l = filter (\<lambda>p. pj_agent p = a) ps"
    using map_of_ordered [OF o, of a l] fold_group [OF ordered_map_Nil, of ps a] by (auto simp: Let_def split: if_splits)
qed

section \<open>The entry of an agent\<close>

lemma fst_mono: "a \<le> b \<Longrightarrow> fst a \<le> fst (b :: 'a::linorder \<times> 'b::linorder)"
  by (auto simp: less_eq_prod_def)

lemma sort_descending_hd:
  assumes "xs \<noteq> []"
  shows "hd (sort_descending f xs) \<in> set xs \<and> (\<forall>x\<in>set xs. f x \<le> f (hd (sort_descending f xs)))"
proof -
  let ?l = "sort_key f (rev xs)"
  have ne: "?l \<noteq> []" using assms by (metis length_sort length_0_conv length_rev)
  have "sorted (map f ?l)" by simp
  then have "sorted (map f (butlast ?l @ [last ?l]))" using ne by simp
  then have "\<forall>x\<in>set (butlast ?l). f x \<le> f (last ?l)" by (simp only: map_append sorted_append) auto
  moreover have "set ?l = insert (last ?l) (set (butlast ?l))"
    using ne by (metis append_butlast_last_id list.simps(15) rotate1.simps(2) set_rotate1)
  ultimately show ?thesis by (auto simp: sort_descending_def hd_rev)
qed

text \<open>The connection depends neither on the days of the policy nor on what an agent's instances add up to.\<close>

lemma connection_cong:
  assumes "pe_reported_status e = pe_reported_status e'" and "pe_lease_expires_at e = pe_lease_expires_at e'"
    and "pe_liveness e = pe_liveness e'"
  shows "al_connection (agent_lifecycle_of e now days) = al_connection (agent_lifecycle_of e' now days')"
  using assms
  by (auto simp: agent_lifecycle_of_def lease_state_def lease_connection_def presence_state_def Let_def
      split: agent_liveness.split option.split matrix_presence.split)

definition connection_of :: "utc_millis \<Rightarrow> observed_instance \<Rightarrow> agent_connection" where
  "connection_of now x = al_connection (agent_lifecycle_of (evidence_with (snd x) (fst x)) (utc_value now) 7)"

definition connection_rank :: "agent_connection \<Rightarrow> nat" where
  "connection_rank c = (case c of Online \<Rightarrow> 2 | Reconnecting \<Rightarrow> 1 | ConnectionOffline \<Rightarrow> 0)"

lemma priority_rank:
  "fst (priority uuid_text now (fst x) (evidence_with (snd x) (fst x))) = connection_rank (connection_of now x)"
  by (simp add: priority_def connection_of_def connection_rank_def Let_def)

lemma project_agent_connection:
  assumes "xs \<noteq> []"
  shows "\<exists>x\<in>set xs. re_presence (project_agent uuid_text now policy xs) = fst x \<and>
    al_connection (re_lifecycle (project_agent uuid_text now policy xs)) = connection_of now x \<and>
    (\<forall>y\<in>set xs. connection_rank (connection_of now y) \<le> connection_rank (connection_of now x))"
proof -
  let ?f = "\<lambda>x. priority uuid_text now (fst x) (evidence_with (snd x) (fst x))"
  let ?l = "sort_descending ?f xs" and ?x = "hd (sort_descending ?f xs)"
  let ?e = "agent_evidence now (archive_after_days policy) ?l"
  have hd: "?x \<in> set xs" "\<forall>y\<in>set xs. ?f y \<le> ?f ?x" 
    using sort_descending_hd [OF assms, of ?f] by (rule conjunct1, rule conjunct2)
  have "fst (?f y) \<le> fst (?f ?x)" if "y \<in> set xs" for y
    using hd(2) that by (intro fst_mono) (rule bspec)
  then have rank: "\<forall>y\<in>set xs. connection_rank (connection_of now y) \<le> connection_rank (connection_of now ?x)"
    unfolding priority_rank by blast
  have "al_connection (agent_lifecycle_of ?e (utc_value now) (archive_after_days policy)) = connection_of now ?x"
    unfolding connection_of_def by (rule connection_cong) (simp_all add: agent_evidence_def Let_def)
  then show ?thesis
    using hd(1) rank by (intro bexI [of _ ?x]) (simp_all add: project_agent_def roster_entry_new_def Let_def)
qed

lemma project_agent_online:
  assumes "xs \<noteq> []" and "e = project_agent uuid_text now policy xs"
  shows "(al_connection (re_lifecycle e) = Online \<longleftrightarrow> (\<exists>x\<in>set xs. connection_of now x = Online)) \<and>
    (al_connection (re_lifecycle e) = ConnectionOffline \<longleftrightarrow> (\<forall>x\<in>set xs. connection_of now x = ConnectionOffline))"
proof -
  have r: "connection_rank c = 2 \<longleftrightarrow> c = Online" "connection_rank c = 0 \<longleftrightarrow> c = ConnectionOffline"
    "connection_rank c \<le> 2" for c
    by (cases c; simp add: connection_rank_def)+
  obtain x where x: "x \<in> set xs" "al_connection (re_lifecycle e) = connection_of now x"
      "\<forall>y\<in>set xs. connection_rank (connection_of now y) \<le> connection_rank (connection_of now x)"
    using project_agent_connection [OF assms(1), of uuid_text now policy] assms(2) by blast
  have "connection_of now x = Online" if "y \<in> set xs" "connection_of now y = Online" for y
    using x(3) that r by (metis le_antisym)
  moreover have "connection_of now y = ConnectionOffline" if "y \<in> set xs" "connection_of now x = ConnectionOffline" for y
    using x(3) that r by (metis le_zero_eq)
  ultimately show ?thesis using x(1,2) by metis
qed

section \<open>Capacity\<close>

lemma fold_archive:
  assumes "distinct ds"
  shows "length (fold (\<lambda>i es. es[i := f (es ! i)]) ds es) = length es \<and>
    (\<forall>i<length es. fold (\<lambda>i es. es[i := f (es ! i)]) ds es ! i = (if i \<in> set ds then f (es ! i) else es ! i))"
  using assms
proof (induction ds arbitrary: es)
  case (Cons d ds)
  have "es[d := x] ! i = (if i = d then x else es ! i)" if "i < length es" for x i
    using that by (simp add: nth_list_update)
  then show ?case using Cons by auto
qed simp

definition offline_order :: "roster_entry list \<Rightarrow> nat list" where
  "offline_order es = sort_key (\<lambda>i. (- last_seen (es ! i), re_agent (es ! i)))
     (filter (\<lambda>i. recently_offline (es ! i)) [0..<length es])"

lemma offline_order:
  "distinct (offline_order es)" "set (offline_order es) = {i. i < length es \<and> recently_offline (es ! i)}"
  "i \<in> set (drop n (offline_order es)) \<Longrightarrow> j \<in> set (take n (offline_order es)) \<Longrightarrow> last_seen (es ! i) \<le> last_seen (es ! j)"
proof -
  show "distinct (offline_order es)" "set (offline_order es) = {i. i < length es \<and> recently_offline (es ! i)}"
    by (auto simp: offline_order_def)
  let ?k = "\<lambda>i. (- last_seen (es ! i), re_agent (es ! i))"
  have "sorted (map ?k (take n (offline_order es) @ drop n (offline_order es)))"
    by (simp add: offline_order_def)
  then have s: "\<forall>x\<in>set (map ?k (take n (offline_order es))). \<forall>y\<in>set (map ?k (drop n (offline_order es))). x \<le> y"
    unfolding map_append sorted_append by (elim conjE)
  assume "i \<in> set (drop n (offline_order es))" "j \<in> set (take n (offline_order es))"
  then have "?k j \<le> ?k i" using s by (simp only: set_map) blast
  then show "last_seen (es ! i) \<le> last_seen (es ! j)" by auto
qed

lemma archive_nth:
  "length (archive_beyond_capacity es) = length es"
  "i < length es \<Longrightarrow> archive_beyond_capacity es ! i =
     (if i \<in> set (drop RECENT_OFFLINE_LIMIT (offline_order es)) then archive_entry (es ! i) else es ! i)"
  using fold_archive [of "drop RECENT_OFFLINE_LIMIT (offline_order es)" archive_entry es] offline_order(1) [of es]
  by (simp_all add: archive_beyond_capacity_def offline_order_def [symmetric] Let_def)

lemma archive_entry_simps [simp]:
  "re_presence (archive_entry e) = re_presence e" "\<not> recently_offline (archive_entry e)"
  "al_connection (re_lifecycle (archive_entry e)) = al_connection (re_lifecycle e)"
  "re_status (archive_entry e) = re_status e"
  by (simp_all add: archive_entry_def recently_offline_def)

lemma archived_map:
  assumes "\<And>e. f (archive_entry e) = f e"
  shows "map f (archive_beyond_capacity es) = map f es"
  using assms by (intro nth_equalityI) (simp_all add: archive_nth)

section \<open>Paging\<close>

definition roster_visible :: "bool \<Rightarrow> roster_entry \<Rightarrow> bool" where
  "roster_visible include_archived e \<longleftrightarrow> include_archived \<or> al_archive_reason (re_lifecycle e) = None"

text \<open>A client that follows the cursor until there is none.\<close>

fun read_pages :: "nat \<Rightarrow> roster_entry list \<Rightarrow> bool \<Rightarrow> agent_id option \<Rightarrow> nat \<Rightarrow> roster_entry list option" where
  "read_pages 0 entries include_archived after limit = None"
| "read_pages (Suc fuel) entries include_archived after limit =
     (case paginate_roster entries include_archived after limit of
        Inl _ \<Rightarrow> None
      | Inr page \<Rightarrow>
          (case rg_next_cursor page of
             None \<Rightarrow> Some (rg_entries page)
           | Some c \<Rightarrow> map_option ((@) (rg_entries page)) (read_pages fuel entries include_archived (Some c) limit)))"

definition rest_of :: "roster_entry list \<Rightarrow> bool \<Rightarrow> agent_id option \<Rightarrow> roster_entry list" where
  "rest_of entries include_archived after =
     sort_key re_agent (filter (\<lambda>e. roster_visible include_archived e \<and>
       (case after of None \<Rightarrow> True | Some a \<Rightarrow> re_agent e > a)) entries)"

lemma paginate_rest:
  "1 \<le> limit \<Longrightarrow> limit \<le> 100 \<Longrightarrow> paginate_roster entries inc after limit =
     Inr \<lparr>rg_entries = take limit (rest_of entries inc after),
          rg_next_cursor = (if length (rest_of entries inc after) > limit
                            then Some (re_agent (last (take limit (rest_of entries inc after)))) else None)\<rparr>"
  by (simp add: paginate_roster_def rest_of_def roster_visible_def PRESENCE_PAGE_SIZE_def Let_def)

lemma rest_of_sorted:
  assumes "distinct (map re_agent entries)"
  shows "sorted_wrt (<) (map re_agent (rest_of entries inc after))"
proof -
  have "sorted (map re_agent (rest_of entries inc after))" by (simp add: rest_of_def)
  moreover have "distinct (map re_agent (filter P entries))" for P using assms by (rule distinct_map_filter)
  then have "inj_on re_agent (set (filter P entries))" and "distinct (filter P entries)" for P
    by (simp_all only: distinct_map)
  then have "distinct (map re_agent (rest_of entries inc after))"
    unfolding rest_of_def distinct_map distinct_sort set_sort by blast
  ultimately show ?thesis by (simp add: strict_sorted_iff)
qed

lemma rest_after_page:
  assumes "distinct (map re_agent entries)" and "1 \<le> limit" and "limit < length (rest_of entries inc after)"
  shows "rest_of entries inc (Some (re_agent (last (take limit (rest_of entries inc after))))) =
    drop limit (rest_of entries inc after)"
proof -
  let ?R = "rest_of entries inc after"
  define t where "t = take limit ?R"
  define d where "d = drop limit ?R"
  have R: "?R = t @ d" by (simp add: t_def d_def)
  have "t \<noteq> []" using assms(2,3) by (auto simp: t_def)
  let ?c = "re_agent (last t)"
  have s: "sorted_wrt (<) (map re_agent t)" "\<forall>x\<in>set t. \<forall>y\<in>set d. re_agent x < re_agent y"
    using rest_of_sorted [OF assms(1), of inc after] unfolding R by (auto simp: sorted_wrt_append)
  have "re_agent x \<le> ?c" if "x \<in> set t" for x
  proof -
    have t: "t = butlast t @ [last t]" using \<open>t \<noteq> []\<close> by simp
    have "\<forall>x\<in>set (butlast t). re_agent x < ?c"
      using s(1) by (subst (asm) t) (auto simp: sorted_wrt_append)
    moreover have "x \<in> set (butlast t) \<or> x = last t" using that by (subst (asm) t) auto
    ultimately show ?thesis by auto
  qed
  then have "filter (\<lambda>e. re_agent e > ?c) t = []" by (auto simp: filter_empty_conv not_less)
  moreover have "filter (\<lambda>e. re_agent e > ?c) d = d" using s(2) \<open>t \<noteq> []\<close> by (auto simp: filter_id_conv)
  ultimately have "filter (\<lambda>e. re_agent e > ?c) ?R = d" by (simp add: R)
  moreover have "last t \<in> set ?R" using \<open>t \<noteq> []\<close> R by simp
  then have c: "case after of None \<Rightarrow> True | Some a \<Rightarrow> ?c > a" by (auto simp: rest_of_def split: option.splits)
  have "(case after of None \<Rightarrow> True | Some a \<Rightarrow> re_agent e > a)" if "re_agent e > ?c" for e
    using c that by (auto split: option.splits)
  then have "filter (\<lambda>e. re_agent e > ?c) ?R = rest_of entries inc (Some ?c)"
    unfolding rest_of_def filter_sort filter_filter by (intro arg_cong [of _ _ "sort_key re_agent"] filter_cong) auto
  ultimately show ?thesis by (simp add: t_def d_def)
qed

lemma read_pages_rest:
  assumes "distinct (map re_agent entries)" and "1 \<le> limit" and "limit \<le> 100"
    and "length (rest_of entries inc after) < fuel"
  shows "read_pages fuel entries inc after limit = Some (rest_of entries inc after)"
  using assms(4)
proof (induction fuel arbitrary: after)
  case (Suc fuel)
  show ?case
  proof (cases "length (rest_of entries inc after) > limit")
    case False
    then show ?thesis by (simp add: paginate_rest [OF assms(2,3)])
  next
    case True
    let ?c = "re_agent (last (take limit (rest_of entries inc after)))"
    have "read_pages fuel entries inc (Some ?c) limit = Some (drop limit (rest_of entries inc after))"
      using Suc.IH [of "Some ?c"] Suc.prems assms(2) True by (simp add: rest_after_page [OF assms(1,2) True])
    then show ?thesis using True by (simp add: paginate_rest [OF assms(2,3)])
  qed
qed simp

section \<open>What an entry stands for\<close>

lemma project_agent_status:
  "re_status (project_agent uuid_text now policy xs) \<noteq> WorkOffline \<Longrightarrow>
     al_connection (re_lifecycle (project_agent uuid_text now policy xs)) = Online"
  by (auto simp: project_agent_def roster_entry_new_def Let_def split: if_splits)

lemma roster_presence:
  assumes "e \<in> set (project_roster_with_presence uuid_text presences now policy presence)"
  shows "re_presence e \<in> set presences \<and> (re_status e \<noteq> WorkOffline \<longrightarrow> al_connection (re_lifecycle e) = Online)"
proof -
  let ?entry = "\<lambda>l. project_agent uuid_text now policy (map (\<lambda>p. (p, presence (pj_user p))) l)"
  let ?view = "\<lambda>e. (re_presence e, re_status e, al_connection (re_lifecycle e))"
  define es where "es = map ?entry (map_values (groups_of presences))"
  have "map ?view (project_roster_with_presence uuid_text presences now policy presence) = map ?view es"
    unfolding project_roster_with_presence_def es_def [symmetric] by (rule archived_map) simp
  then have "?view ` set (project_roster_with_presence uuid_text presences now policy presence) = ?view ` set es"
    unfolding set_map [symmetric] by (rule arg_cong)
  then obtain d where d: "d \<in> set es" "?view e = ?view d" using assms by (metis (no_types, lifting) imageE imageI)
  have "d \<in> ?entry ` set (map_values (groups_of presences))" using d(1) by (simp add: es_def)
  then obtain l where "d = ?entry l" "l \<in> set (map_values (groups_of presences))" by (rule imageE)
  then obtain a where l: "(a, l) \<in> set (groups_of presences)" "d = ?entry l" unfolding in_map_values by blast
  then have "l \<noteq> []" "set l \<subseteq> set presences" using groups_of(2) [of a l presences] by auto
  then have "re_presence d \<in> set presences"
    using project_agent_connection [of "map (\<lambda>p. (p, presence (pj_user p))) l" uuid_text now policy] l(2) by auto
  then show ?thesis using d(2) project_agent_status l(2) by auto
qed

section \<open>Properties\<close>

text \<open>
  C22: The roster is what its instances say: it has one entry for every agent with an instance, in the order
  of the agents; an agent is online exactly when one of its instances is, and offline exactly when all of
  them are, whatever the rule of the archive and however the instances are ranked.
\<close>

theorem roster_reflects_instances:
  fixes presence :: "utext \<Rightarrow> presence_observation option"
  assumes "roster = project_roster_with_presence uuid_text presences now policy presence"
    and "state = (\<lambda>p. al_connection (agent_lifecycle_of (evidence_with (presence (pj_user p)) p) (utc_value now) days))"
  shows "sorted_wrt (<) (map re_agent roster) \<and> set (map re_agent roster) = pj_agent ` set presences \<and>
    (\<forall>e\<in>set roster.
      (al_connection (re_lifecycle e) = Online \<longleftrightarrow>
         (\<exists>p\<in>set presences. pj_agent p = re_agent e \<and> state p = Online)) \<and>
      (al_connection (re_lifecycle e) = ConnectionOffline \<longleftrightarrow>
         (\<forall>p\<in>set presences. pj_agent p = re_agent e \<longrightarrow> state p = ConnectionOffline)))"
proof -
  let ?pair = "\<lambda>p. (p, presence (pj_user p))"
  let ?entry = "\<lambda>l. project_agent uuid_text now policy (map ?pair l)"
  define es where "es = map ?entry (map_values (groups_of presences))"
  have roster: "roster = archive_beyond_capacity es"
    using assms(1) by (simp add: project_roster_with_presence_def es_def)
  have conn: "connection_of now (?pair p) = state p" for p
    unfolding assms(2) connection_of_def by (simp, rule connection_cong) simp_all
  have entry: "re_agent (?entry l) = a \<and>
      (al_connection (re_lifecycle (?entry l)) = Online \<longleftrightarrow> (\<exists>p\<in>set l. state p = Online)) \<and>
      (al_connection (re_lifecycle (?entry l)) = ConnectionOffline \<longleftrightarrow> (\<forall>p\<in>set l. state p = ConnectionOffline))"
    if "(a, l) \<in> set (groups_of presences)" for a l
  proof -
    have l: "l \<noteq> []" "l = filter (\<lambda>p. pj_agent p = a) presences" using that groups_of(2) by blast+
    then have ne: "map ?pair l \<noteq> []" by simp
    have "re_agent (?entry l) = a"
      using project_agent_connection [OF ne, of uuid_text now policy] l(2) by auto
    then show ?thesis using project_agent_online [OF ne refl, of uuid_text now policy] by (auto simp: conn)
  qed
  have keys: "map re_agent es = map fst (groups_of presences)"
    using entry by (auto simp: es_def map_values_def)
  have "set (map fst (groups_of presences)) = pj_agent ` set presences"
  proof (rule set_eqI)
    fix a
    have "a \<in> set (map fst (groups_of presences)) \<longleftrightarrow> (\<exists>l. (a, l) \<in> set (groups_of presences))" by force
    also have "\<dots> \<longleftrightarrow> filter (\<lambda>p. pj_agent p = a) presences \<noteq> []" by (simp only: groups_of(2)) blast
    also have "\<dots> \<longleftrightarrow> a \<in> pj_agent ` set presences" by (auto simp: filter_empty_conv)
    finally show "a \<in> set (map fst (groups_of presences)) \<longleftrightarrow> a \<in> pj_agent ` set presences" .
  qed
  moreover have "sorted_wrt (<) (map fst (groups_of presences))" using groups_of(1) by (simp add: ordered_map_def)
  moreover have "(al_connection (re_lifecycle e) = Online \<longleftrightarrow> (\<exists>p\<in>set presences. pj_agent p = re_agent e \<and> state p = Online)) \<and>
      (al_connection (re_lifecycle e) = ConnectionOffline \<longleftrightarrow>
         (\<forall>p\<in>set presences. pj_agent p = re_agent e \<longrightarrow> state p = ConnectionOffline))" if "e \<in> set es" for e
  proof -
    have "e \<in> ?entry ` set (map_values (groups_of presences))" using that by (simp add: es_def)
    then obtain l where "e = ?entry l" "l \<in> set (map_values (groups_of presences))" by (rule imageE)
    then obtain a where l: "(a, l) \<in> set (groups_of presences)" "e = ?entry l" unfolding in_map_values by blast
    then have "set l = {p \<in> set presences. pj_agent p = re_agent e}"
      using entry [OF l(1)] groups_of(2) [of a l presences] by auto
    then show ?thesis using entry [OF l(1)] l(2) by auto
  qed
  moreover have "map (\<lambda>e. (re_agent e, al_connection (re_lifecycle e))) roster =
      map (\<lambda>e. (re_agent e, al_connection (re_lifecycle e))) es"
    unfolding roster by (rule archived_map) simp
  then have image: "(\<lambda>e. (re_agent e, al_connection (re_lifecycle e))) ` set roster =
      (\<lambda>e. (re_agent e, al_connection (re_lifecycle e))) ` set es"
    unfolding set_map [symmetric] by (rule arg_cong)
  have "\<exists>d\<in>set es. re_agent e = re_agent d \<and> al_connection (re_lifecycle e) = al_connection (re_lifecycle d)"
    if "e \<in> set roster" for e
    using imageI [OF that, of "\<lambda>e. (re_agent e, al_connection (re_lifecycle e))"] unfolding image by auto
  moreover have "map re_agent roster = map re_agent es" unfolding roster by (rule archived_map) simp
  ultimately show ?thesis unfolding keys [symmetric] by metis
qed

theorem roster_reflects_instances_witness:
  "\<exists>e\<in>set (project_roster_with_presence (\<lambda>_. []) [sample_projected 1 100, sample_projected 2 200] (UtcMillis 300)
       roster_policy_default (\<lambda>_. None)).
     re_agent e = 7 \<and> al_connection (re_lifecycle e) = ConnectionOffline"
proof -
  let ?ps = "[sample_projected 1 100, sample_projected 2 200]"
  let ?roster = "project_roster_with_presence (\<lambda>_. []) ?ps (UtcMillis 300) roster_policy_default (\<lambda>_. None)"
  note r = roster_reflects_instances [OF refl refl, where presence = "\<lambda>_. None" and uuid_text = "\<lambda>_. []" and
      presences = ?ps and now = "UtcMillis 300" and policy = roster_policy_default and days = 7]
  have "7 \<in> set (map re_agent ?roster)" using r by simp
  then obtain e where e: "e \<in> set ?roster" "re_agent e = 7" by auto
  have "al_connection (re_lifecycle e) = ConnectionOffline"
    using r e by (auto simp: sample_projected_def evidence_with_def agent_lifecycle_of_def lease_state_def
        lease_connection_def Let_def)
  then show ?thesis using e by blast
qed

text \<open>
  The archive keeps the hundred agents seen last: at most a hundred offline agents stay unarchived, an
  entry changes only by being archived for lack of room, and whoever is archived so was seen no later than
  everyone who stays.
\<close>

theorem archive_keeps_latest:
  assumes "archived = (\<lambda>i. i < length entries \<and> archive_beyond_capacity entries ! i \<noteq> entries ! i)"
  shows "length (archive_beyond_capacity entries) = length entries \<and>
    length (filter recently_offline (archive_beyond_capacity entries)) = min 100 (length (filter recently_offline entries)) \<and>
    (\<forall>i. archived i \<longrightarrow> recently_offline (entries ! i) \<and> archive_beyond_capacity entries ! i = archive_entry (entries ! i)) \<and>
    (\<forall>i j. archived i \<and> j < length entries \<and> recently_offline (archive_beyond_capacity entries ! j) \<longrightarrow>
       last_seen (entries ! i) \<le> last_seen (entries ! j))"
proof -
  let ?o = "offline_order entries" and ?r = "archive_beyond_capacity entries"
  define K where "K = set (take RECENT_OFFLINE_LIMIT ?o)"
  define D where "D = set (drop RECENT_OFFLINE_LIMIT ?o)"
  have "K \<union> D = set ?o" unfolding K_def D_def by (metis append_take_drop_id set_append)
  then have o: "K \<inter> D = {}" "K \<union> D = {i. i < length entries \<and> recently_offline (entries ! i)}"
    using offline_order(2) [of entries] set_take_disj_set_drop_if_distinct [OF offline_order(1) order.refl]
    by (simp_all only: K_def D_def)
  have nth: "i < length entries \<Longrightarrow> ?r ! i = (if i \<in> D then archive_entry (entries ! i) else entries ! i)" for i
    using archive_nth(2) by (simp add: D_def)
  have arch: "i < length entries" "i \<in> D" if "archived i" for i
    using that nth [of i] unfolding assms by presburger+
  have "recently_offline (?r ! i) \<longleftrightarrow> i \<notin> D \<and> recently_offline (entries ! i)" if "i < length entries" for i
    by (cases "i \<in> D") (simp_all add: nth [OF that])
  then have keep: "i < length entries \<and> recently_offline (?r ! i) \<longleftrightarrow> i \<in> K" for i
    using o by blast
  have "length (filter recently_offline ?r) = card K"
    using keep by (simp add: length_filter_conv_card archive_nth(1))
  also have "\<dots> = min 100 (length ?o)"
    using offline_order(1) [of entries] by (simp add: K_def distinct_card RECENT_OFFLINE_LIMIT_def)
  also have "length ?o = length (filter recently_offline entries)"
    using offline_order(1,2) [of entries] distinct_card [of ?o] by (simp add: length_filter_conv_card)
  finally have "length (filter recently_offline ?r) = min 100 (length (filter recently_offline entries))" .
  moreover have "recently_offline (entries ! i) \<and> ?r ! i = archive_entry (entries ! i)" if "archived i" for i
    using arch [OF that] o(2) nth [of i] by auto
  moreover have "last_seen (entries ! i) \<le> last_seen (entries ! j)"
    if "archived i" "j < length entries" "recently_offline (?r ! j)" for i j
    using offline_order(3) arch(2) [OF that(1)] keep [of j] that(2,3) unfolding K_def D_def by blast
  ultimately show ?thesis using archive_nth(1) by blast
qed

theorem archive_keeps_latest_witness:
  "length (filter recently_offline (archive_beyond_capacity
     (replicate 101 (roster_entry_new (sample_projected 1 100) WorkOffline (UtcMillis 200))))) = 100"
proof -
  have "recently_offline (roster_entry_new (sample_projected 1 100) WorkOffline (UtcMillis 200))"
    by (simp add: recently_offline_def roster_entry_new_def evidence_of_def evidence_with_def agent_lifecycle_of_def
        lease_state_def lease_connection_def sample_projected_def Let_def i64_wrapping_sub_exact roster_policy_default_def
        default_archive_after_days_def int_width_defs)
  then show ?thesis
    using archive_keeps_latest [OF refl, of "replicate 101 (roster_entry_new (sample_projected 1 100) WorkOffline (UtcMillis 200))"]
    by (simp add: filter_replicate del: replicate.simps)
qed

text \<open>
  Following the cursor shows the whole roster: with any page size the source accepts, a client that asks
  for page after page comes to an end, and has then read every visible agent exactly once, in order.
\<close>

theorem pages_enumerate_roster:
  assumes "distinct (map re_agent entries)" and "1 \<le> limit" and "limit \<le> 100"
  shows "read_pages (Suc (length entries)) entries include_archived None limit =
    Some (sort_key re_agent (filter (roster_visible include_archived) entries))"
proof -
  have "rest_of entries include_archived None = sort_key re_agent (filter (roster_visible include_archived) entries)"
    by (simp add: rest_of_def)
  moreover from this have "length (rest_of entries include_archived None) < Suc (length entries)"
    by (simp add: less_Suc_eq_le)
  ultimately show ?thesis 
    using read_pages_rest [OF assms, where inc = include_archived and after = None] by (simp only:)
qed

theorem pages_enumerate_roster_witness:
  "read_pages 2 [roster_entry_new (sample_projected 1 100) WorkOffline (UtcMillis 200)] True None 1 =
     Some [roster_entry_new (sample_projected 1 100) WorkOffline (UtcMillis 200)]"
  using pages_enumerate_roster [of "[roster_entry_new (sample_projected 1 100) WorkOffline (UtcMillis 200)]" 1 True]
  by (simp add: roster_visible_def numeral_2_eq_2 del: read_pages.simps)

text \<open>
  A roster shows members only: every entry that a query lists stands for a status that is stored for
  the room, of the agent asked for and of a user who is joined to the room; and an entry shows work only
  while the agent is online.
\<close>

theorem roster_lists_members:
  assumes "projection_ok s" and "e \<in> set (list_presence uuid_text q s)"
  shows "\<exists>room. map_of (ps_rooms s) (pq_room_id q) = Some room \<and>
    (pj_instance (re_presence e), re_presence e) \<in> set (rp_instances room) \<and>
    pj_user (re_presence e) \<in> rp_joined_members room \<and>
    (pq_agent_ids q \<noteq> {} \<longrightarrow> re_agent e \<in> pq_agent_ids q) \<and>
    (re_status e \<noteq> WorkOffline \<longrightarrow> al_connection (re_lifecycle e) = Online)"
proof -
  obtain room where room: "map_of (ps_rooms s) (pq_room_id q) = Some room"
    using assms(2) by (cases "map_of (ps_rooms s) (pq_room_id q)") (simp_all add: list_presence_def)
  have e: "e \<in> set (project_roster_with_presence uuid_text (map_values (rp_instances room)) (pq_observed_at q) (rp_policy room)
      (\<lambda>user. tracker_observation user (ps_presence s)))" "pq_agent_ids q \<noteq> {} \<longrightarrow> re_agent e \<in> pq_agent_ids q"
    using assms(2) by (auto simp: list_presence_def room)
  have p: "re_presence e \<in> set (map_values (rp_instances room))" and
    w: "re_status e \<noteq> WorkOffline \<longrightarrow> al_connection (re_lifecycle e) = Online"
    using roster_presence [OF e(1)] by blast+
  have "room_presence_ok room"
    using rooms_ok_lookup [of "ps_rooms s" "pq_room_id q"] assms(1) room by (simp add: projection_ok_def)
  moreover obtain i where "(i, re_presence e) \<in> set (rp_instances room)" using p unfolding in_map_values by blast
  ultimately show ?thesis
    using room e(2) w by (auto simp: room_presence_ok_def instances_ok_def members_ok_def)
qed

theorem roster_lists_members_witness:
  "\<exists>e\<in>set (list_presence (\<lambda>_. []) \<lparr>pq_room_id = [33], pq_agent_ids = {}, pq_observed_at = UtcMillis 300\<rparr>
       \<lparr>ps_rooms = [([33], sample_room [(1, sample_projected 1 100)])], ps_presence = presence_tracker_new\<rparr>).
     pj_user (re_presence e) = [64]"
proof -
  let ?q = "\<lparr>pq_room_id = [33], pq_agent_ids = {}, pq_observed_at = UtcMillis 300\<rparr>"
  let ?s = "\<lparr>ps_rooms = [([33], sample_room [(1, sample_projected 1 100)])], ps_presence = presence_tracker_new\<rparr>"
  have ok: "projection_ok ?s"
    by (simp add: projection_ok_def rooms_ok_def room_presence_ok_def instances_ok_def members_ok_def sample_room_def
        ordered_map_def tracker_ok_def presence_tracker_new_def)
  have "length (list_presence (\<lambda>_. []) ?q ?s) = 1"
    by (simp add: list_presence_def project_roster_with_presence_def archive_nth(1) group_instance_def map_values_def sample_room_def)
  then obtain e where "e \<in> set (list_presence (\<lambda>_. []) ?q ?s)"
    by (metis length_greater_0_conv less_numeral_extra(1) list.set_intros(1) neq_Nil_conv)
  moreover from this have "pj_user (re_presence e) = [64]"
    using roster_lists_members [OF ok, of e "\<lambda>_. []" ?q] by (auto simp: sample_room_def)
  ultimately show ?thesis by blast
qed

end
