(* ===== verification/Presence_Sync.thy ===== *)
theory Presence_Sync
  imports Presence_Roster Complex_Main
begin

text \<open>
  From a sync of the chat server to the projection: the second part of
  \<^verbatim>\<open>crates/bridge-core/src/presence.rs\<close> (parsing of memberships, roster policies and statuses, the
  service that processes a sync) and \<^verbatim>\<open>agent_verification.rs\<close> (which statuses are authentic).
  Code outside the repository is a field of \<open>sync_ports\<close>: base 64, the canonical form of JSON, the
  deserialisation of a status event, UUIDs, times, the registry of instances and the check of signatures.
\<close>

section \<open>JSON and Matrix events\<close>

text \<open>Integers are kept apart from the other numbers, which are kept by their value; NaN and infinities do not occur in JSON.\<close>

datatype json =
    JNull | JBool bool | JInteger int | JFloat rat | JString utext | JArray "json list" | JObject "(utext \<times> json) list"

definition json_get :: "string \<Rightarrow> json \<Rightarrow> json option" where
  "json_get k v = (case v of JObject o' \<Rightarrow> map_of o' (lit k) | _ \<Rightarrow> None)"

definition json_str :: "json \<Rightarrow> utext option" where
  "json_str v = (case v of JString s \<Rightarrow> Some s | _ \<Rightarrow> None)"

definition json_u64 :: "json \<Rightarrow> int option" where
  "json_u64 v = (case v of JInteger n \<Rightarrow> if 0 \<le> n \<and> n \<le> u64_max then Some n else None | _ \<Rightarrow> None)"

record timeline_event =
  te_event_id :: "utext option"
  te_sender :: "utext option"
  te_event_type :: utext
  te_state_key :: "utext option"
  te_origin_server_timestamp :: "int option"
  te_content :: json

datatype room_sync_kind = SyncJoined | SyncInvited | SyncLeft | SyncKnocked
datatype room_state_position = BeforeTimeline | AfterTimeline

record room_sync =
  ry_room_id :: utext
  ry_kind :: room_sync_kind
  ry_timeline :: "timeline_event list"
  ry_state :: "timeline_event list"
  ry_state_position :: room_state_position

record matrix_sync =
  sy_rooms :: "room_sync list"
  sy_presence :: "user_presence list"

section \<open>The wire format of a status\<close>

text \<open>
  \<^verbatim>\<open>AgentStatusEvent\<close> of the generated protocol types. \<^verbatim>\<open>extensions\<close> are flattened: they hold
  the members of the object that no other field names. A floating-point number is a rational or not finite.
\<close>

datatype wire_provenance = WireHuman | WireHumanConfirmedAgent | WireAutonomousAgent
datatype wire_visibility = WireCoarse | WireDetailed
datatype wire_work_status = WireOffline | WireIdle | WireWorking | WireWaitingInput | WireBlocked | WireCompleted
datatype wire_liveness = WirePresence
datatype wire_float = FiniteFloat rat | NotFinite

record wire_actor =
  wa_agent_id :: utext
  wa_display_name :: utext
  wa_matrix_user_id :: utext
  wa_avatar_url :: "utext option"
  wa_agent_extensions :: "(utext \<times> json) list"
  wa_instance_id :: utext
  wa_provenance :: wire_provenance
  wa_extensions :: "(utext \<times> json) list"

record wire_status_event =
  ws_schema_version :: utext
  ws_event_type :: utext
  ws_id :: utext
  ws_correlation_id :: utext
  ws_created_at :: utext
  ws_lease_expires_at :: utext
  ws_actor :: wire_actor
  ws_status :: wire_work_status
  ws_visibility :: wire_visibility
  ws_task_summary :: "utext option"
  ws_started_at :: "utext option"
  ws_progress :: "wire_float option"
  ws_liveness :: "wire_liveness option"
  ws_last_polled_at :: "utext option"
  ws_extensions :: "(utext \<times> json) list"

definition wire_status :: "wire_work_status \<Rightarrow> agent_work_status" where
  "wire_status st =
     (case st of
        WireOffline \<Rightarrow> WorkOffline
      | WireIdle \<Rightarrow> WorkIdle
      | WireWorking \<Rightarrow> Working
      | WireWaitingInput \<Rightarrow> WaitingInput
      | WireBlocked \<Rightarrow> Blocked
      | WireCompleted \<Rightarrow> WorkCompleted)"

section \<open>Authentication of statuses\<close>

datatype authentication_decision =
    AuthTrusted | AuthTrustedHistoricalRevoked | AuthUnknownInstance | AuthRevokedInstance
  | AuthAgentInstanceMismatch | AuthInvalidSignature | AuthOutsideValidityWindow

datatype authentication_failure = AuthUnauthorized | AuthUnavailable | AuthInternal

datatype gateway_failure =
    GatewayRejected | GatewayNotFound | GatewayUnavailable | GatewayInvalidResponse | GatewayInternal

record verification_record =
  vr_instance_id :: agent_instance_id
  vr_agent_id :: agent_id
  vr_public_signing_key :: "8 word list"
  vr_registered_at :: utc_millis
  vr_invalidated_at :: "utc_millis option"

record sync_ports =
  sp_decode_base64 :: "utext \<Rightarrow> 8 word list option"
  sp_canonical :: "json \<Rightarrow> 8 word list option"
  sp_wire :: "json \<Rightarrow> wire_status_event option"
  sp_parse_uuid :: "utext \<Rightarrow> uuid option"
  sp_uuid_version :: "uuid \<Rightarrow> nat"
  sp_parse_time :: "utext \<Rightarrow> int option"
  sp_resolve :: "agent_instance_id \<Rightarrow> gateway_failure + verification_record"
  sp_verify :: "8 word list \<Rightarrow> 8 word list \<Rightarrow> 8 word list \<Rightarrow> bool"

definition map_gateway_failure :: "gateway_failure \<Rightarrow> authentication_failure + authentication_decision" where
  "map_gateway_failure f =
     (case f of
        GatewayNotFound \<Rightarrow> Inr AuthUnknownInstance
      | GatewayRejected \<Rightarrow> Inl AuthUnauthorized
      | GatewayUnavailable \<Rightarrow> Inl AuthUnavailable
      | GatewayInvalidResponse \<Rightarrow> Inl AuthInternal
      | GatewayInternal \<Rightarrow> Inl AuthInternal)"

definition authenticate_internal ::
  "sync_ports \<Rightarrow> agent_id \<Rightarrow> agent_instance_id \<Rightarrow> utc_millis \<Rightarrow> 8 word list \<Rightarrow> 8 word list \<Rightarrow>
     authentication_failure + authentication_decision" where
  "authenticate_internal ports agent instance_id timestamp canonical signature =
     (case sp_resolve ports instance_id of
        Inl f \<Rightarrow> map_gateway_failure f
      | Inr r \<Rightarrow>
          if vr_instance_id r \<noteq> instance_id \<or> opt_any (vr_invalidated_at r) (\<lambda>t. t < vr_registered_at r)
          then Inl AuthInternal
          else if vr_agent_id r \<noteq> agent then Inr AuthAgentInstanceMismatch
          else if \<not> sp_verify ports (vr_public_signing_key r) canonical signature then Inr AuthInvalidSignature
          else if timestamp < vr_registered_at r then Inr AuthOutsideValidityWindow
          else (case vr_invalidated_at r of
                  Some t \<Rightarrow> if timestamp \<ge> t then Inr AuthRevokedInstance else Inr AuthTrustedHistoricalRevoked
                | None \<Rightarrow> Inr AuthTrusted))"

section \<open>Parsing\<close>

definition AGENT_STATUS_EVENT_TYPE :: utext where
  "AGENT_STATUS_EVENT_TYPE = lit ''io.github.rainyflash.agentroom.agent.status.v1''"
definition AGENT_ROSTER_POLICY_EVENT_TYPE :: utext where
  "AGENT_ROSTER_POLICY_EVENT_TYPE = lit ''io.github.rainyflash.agentroom.roster.policy.v1''"
definition ROOM_MEMBER_EVENT_TYPE :: utext where "ROOM_MEMBER_EVENT_TYPE = lit ''m.room.member''"
definition MAXIMUM_STATUS_EVENTS_PER_ROOM :: nat where "MAXIMUM_STATUS_EVENTS_PER_ROOM = 20000"
definition RECEPTION_FRESHNESS_MS :: int where "RECEPTION_FRESHNESS_MS = 15000"
definition WAITING_LEASE_MS :: int where "WAITING_LEASE_MS = 180000"

definition presence_state_events :: "room_sync \<Rightarrow> timeline_event list" where
  "presence_state_events r =
     filter (\<lambda>e. te_state_key e \<noteq> None)
       (case ry_state_position r of
          BeforeTimeline \<Rightarrow> ry_state r @ ry_timeline r
        | AfterTimeline \<Rightarrow> ry_state r)"

definition parse_membership :: "timeline_event \<Rightarrow> sync_issue_reason + membership_change" where
  "parse_membership e =
     (case te_state_key e of
        None \<Rightarrow> Inl MissingEnvelope
      | Some state_key \<Rightarrow>
          (case matrix_user_id_new state_key of
             Inl _ \<Rightarrow> Inl InvalidMembership
           | Inr user \<Rightarrow>
               (case Option.bind (json_get ''membership'' (te_content e)) json_str of
                  None \<Rightarrow> Inl InvalidMembership
                | Some m \<Rightarrow>
                    if m \<notin> {lit ''ban'', lit ''invite'', lit ''join'', lit ''knock'', lit ''leave''}
                    then Inl InvalidMembership
                    else Inr \<lparr>mc_matrix_user_id = user, mc_joined = (m = lit ''join'')\<rparr>)))"

definition parse_roster_policy :: "timeline_event \<Rightarrow> roster_policy option" where
  "parse_roster_policy e =
     (if te_state_key e \<noteq> Some [] then None
      else if Option.bind (json_get ''schemaVersion'' (te_content e)) json_u64 \<noteq> Some 1 then None
      else (case Option.bind (json_get ''archiveAfterDays'' (te_content e)) json_u64 of
              None \<Rightarrow> None
            | Some n \<Rightarrow> if n \<le> 65535 then roster_policy_new (nat n) else None))"

definition parse_v7 :: "sync_ports \<Rightarrow> utext \<Rightarrow> sync_issue_reason + uuid" where
  "parse_v7 ports v =
     (case sp_parse_uuid ports v of
        None \<Rightarrow> Inl InvalidEnvelope
      | Some u \<Rightarrow> if sp_uuid_version ports u \<noteq> 7 then Inl InvalidEnvelope else Inr u)"

definition parse_time :: "sync_ports \<Rightarrow> utext \<Rightarrow> sync_issue_reason + utc_millis" where
  "parse_time ports v =
     (case sp_parse_time ports v of
        None \<Rightarrow> Inl InvalidEnvelope
      | Some t \<Rightarrow> (case utc_new t of Inl _ \<Rightarrow> Inl InvalidEnvelope | Inr u \<Rightarrow> Inr u))"

definition optional_time :: "sync_ports \<Rightarrow> json option \<Rightarrow> sync_issue_reason + utc_millis option" where
  "optional_time ports v =
     (case v of
        None \<Rightarrow> Inr None
      | Some j \<Rightarrow>
          (case json_str j of
             None \<Rightarrow> Inl InvalidEnvelope
           | Some s \<Rightarrow> map_sum id Some (parse_time ports s)))"

definition validate_property_limits :: "json \<Rightarrow> sync_issue_reason + unit" where
  "validate_property_limits content =
     (case content of
        JObject o' \<Rightarrow> if length o' > 24 then Inl InvalidEnvelope else Inr ()
      | _ \<Rightarrow> Inl InvalidEnvelope)"

definition json_without :: "string \<Rightarrow> json \<Rightarrow> json option" where
  "json_without k v =
     (case v of
        JObject o' \<Rightarrow> if map_of o' (lit k) = None then None else Some (JObject (filter (\<lambda>e. fst e \<noteq> lit k) o'))
      | _ \<Rightarrow> None)"

definition device_signature_new :: "8 word list \<Rightarrow> 8 word list option" where
  "device_signature_new bytes = (if length bytes = 64 then Some bytes else None)"

definition canonical_and_signature ::
  "sync_ports \<Rightarrow> json \<Rightarrow> sync_issue_reason + (8 word list \<times> 8 word list)" where
  "canonical_and_signature ports content =
     ok_or
       (Option.bind (json_get ''signature'' content) (\<lambda>j.
        Option.bind (json_str j) (\<lambda>s.
        Option.bind (sp_decode_base64 ports s) (\<lambda>bytes.
        Option.bind (device_signature_new bytes) (\<lambda>signature.
        Option.bind (json_without ''signature'' content) (\<lambda>unsigned.
        Option.bind (sp_canonical ports unsigned) (\<lambda>canonical.
        Some (canonical, signature))))))))
       InvalidEnvelope"

definition float_in_unit :: "wire_float \<Rightarrow> bool" where
  "float_in_unit f = (case f of FiniteFloat r \<Rightarrow> 0 \<le> r \<and> r \<le> 1 | NotFinite \<Rightarrow> False)"

definition validate_wire_status :: "sync_ports \<Rightarrow> wire_status_event \<Rightarrow> sync_issue_reason + unit" where
  "validate_wire_status ports w =
     (let has_details = ws_task_summary w \<noteq> None \<or> ws_started_at w \<noteq> None \<or> ws_progress w \<noteq> None
      in if length (ws_extensions w) > 11 \<or> length (wa_extensions (ws_actor w)) > 9 \<or>
            length (wa_agent_extensions (ws_actor w)) > 12 then Inl InvalidEnvelope
         else if ws_visibility w = WireCoarse \<and> has_details then Inl InvalidEnvelope
         else if opt_any (ws_task_summary w) (\<lambda>s. \<not> is_ok (task_summary_new s)) then Inl InvalidEnvelope
         else and_then (case ws_started_at w of None \<Rightarrow> Inr () | Some t \<Rightarrow> map_sum id (\<lambda>_. ()) (parse_time ports t)) (\<lambda>_.
           if opt_any (ws_progress w) (\<lambda>p. \<not> float_in_unit p) then Inl InvalidEnvelope else Inr ()))"

text \<open>A missing or null deadline means not waiting; one that is too far away makes the event invalid.\<close>

definition wait_deadline ::
  "sync_ports \<Rightarrow> (utext \<times> json) list \<Rightarrow> string \<Rightarrow> utc_millis \<Rightarrow> int \<Rightarrow> sync_issue_reason + utc_millis option" where
  "wait_deadline ports extensions field created_at limit_ms =
     and_then (optional_time ports
       (case map_of extensions (lit field) of Some JNull \<Rightarrow> None | v \<Rightarrow> v)) (\<lambda>deadline.
     if opt_any deadline (\<lambda>until. utc_value until > i64_saturating_add (utc_value created_at) limit_ms)
     then Inl InvalidEnvelope else Inr deadline)"

definition later_deadline :: "utc_millis option \<Rightarrow> utc_millis option \<Rightarrow> utc_millis option" where
  "later_deadline a b = (case (a, b) of (Some x, Some y) \<Rightarrow> Some (max x y) | (Some x, None) \<Rightarrow> Some x | (None, y) \<Rightarrow> y)"

record pending_presence =
  pd_presence :: projected_presence
  pd_origin_server_timestamp :: utc_millis
  pd_canonical_event :: "8 word list"
  pd_signature :: "8 word list"

definition wire_identity ::
  "agent_id \<Rightarrow> agent_instance_id \<Rightarrow> wire_actor \<Rightarrow> sync_issue_reason + agent_identity" where
  "wire_identity agent instance_id a =
     (case agent_identity_new agent (wa_display_name a) (wa_matrix_user_id a) instance_id of
        Inl _ \<Rightarrow> Inl InvalidEnvelope
      | Inr identity \<Rightarrow>
          (case wa_avatar_url a of
             None \<Rightarrow> Inr identity
           | Some url \<Rightarrow>
               (case with_avatar_url url identity of Inl _ \<Rightarrow> Inl InvalidEnvelope | Inr i \<Rightarrow> Inr i)))"

text \<open>The extensions carry the moments of waiting and, where the source looks for it, of the last reading.\<close>

definition parse_status_body ::
  "sync_ports \<Rightarrow> wire_status_event \<Rightarrow> utc_millis \<Rightarrow> lease_policy \<Rightarrow>
     sync_issue_reason + (utc_millis \<times> utc_millis option \<times> utc_millis option \<times> bool \<times> utc_millis)" where
  "parse_status_body ports w observed_at policy =
     and_then (parse_time ports (ws_created_at w)) (\<lambda>created_at.
     and_then (optional_time ports (map_of (ws_extensions w) (lit ''lastPolledAt''))) (\<lambda>polled.
     let last_polled_at = (if opt_any polled (\<lambda>t. t \<le> created_at) then polled else None) in
     and_then (wait_deadline ports (ws_extensions w) ''listeningUntil'' created_at RECEPTION_FRESHNESS_MS) (\<lambda>listening_until.
     and_then (wait_deadline ports (ws_extensions w) ''waitingUntil'' created_at WAITING_LEASE_MS) (\<lambda>waiting_until.
     let reception_known = (map_of (ws_extensions w) (lit ''listeningUntil'') \<noteq> None \<or>
                            map_of (ws_extensions w) (lit ''waitingUntil'') \<noteq> None) in
     and_then (parse_time ports (ws_lease_expires_at w)) (\<lambda>claimed_expiry.
     and_then (evaluate_lease created_at claimed_expiry observed_at policy) (\<lambda>effective_expiry.
     Inr (created_at, last_polled_at, later_deadline listening_until waiting_until, reception_known,
          effective_expiry)))))))"

definition envelope_timestamp :: "timeline_event \<Rightarrow> utc_millis option" where
  "envelope_timestamp e =
     Option.bind (te_origin_server_timestamp e) (\<lambda>v.
     Option.bind (i64_try_from v) (\<lambda>n.
     case utc_new n of Inl _ \<Rightarrow> None | Inr t \<Rightarrow> Some t))"

definition parse_status ::
  "sync_ports \<Rightarrow> utext \<Rightarrow> timeline_event \<Rightarrow> utc_millis \<Rightarrow> lease_policy \<Rightarrow> sync_issue_reason + pending_presence" where
  "parse_status ports room_id event observed_at policy =
     and_then (ok_or (te_event_id event) MissingEnvelope) (\<lambda>event_id.
     and_then (ok_or (te_sender event) MissingEnvelope) (\<lambda>sender.
     and_then (ok_or (te_state_key event) MissingEnvelope) (\<lambda>state_key.
     and_then (ok_or (envelope_timestamp event) MissingEnvelope) (\<lambda>timestamp.
     and_then (validate_property_limits (te_content event)) (\<lambda>_.
     and_then (canonical_and_signature ports (te_content event)) (\<lambda>(canonical, signature).
     and_then (ok_or (sp_wire ports (te_content event)) InvalidEnvelope) (\<lambda>w.
     and_then (validate_wire_status ports w) (\<lambda>_.
     if ws_schema_version w \<noteq> lit ''1.0'' \<or> ws_event_type w \<noteq> AGENT_STATUS_EVENT_TYPE then Inl InvalidEnvelope
     else
       and_then (parse_v7 ports (wa_agent_id (ws_actor w))) (\<lambda>agent.
       and_then (parse_v7 ports (wa_instance_id (ws_actor w))) (\<lambda>instance_id.
       and_then (parse_v7 ports (ws_id w)) (\<lambda>_.
       and_then (parse_v7 ports (ws_correlation_id w)) (\<lambda>_.
       if state_key \<noteq> wa_instance_id (ws_actor w) \<or> sender \<noteq> wa_matrix_user_id (ws_actor w) then Inl SenderMismatch
       else if wa_provenance (ws_actor w) \<noteq> WireAutonomousAgent then Inl InvalidEnvelope
       else
         and_then (wire_identity agent instance_id (ws_actor w)) (\<lambda>identity.
         and_then (parse_status_body ports w observed_at policy)
           (\<lambda>(created_at, last_polled_at, listening_until, reception_known, effective_expiry).
         Inr \<lparr>pd_presence =
               \<lparr>pj_event_id = event_id, pj_room_id = room_id, pj_identity = identity,
                pj_status = wire_status (ws_status w), pj_observed_at = observed_at,
                pj_lease_expires_at = effective_expiry,
                pj_origin_server_timestamp = unwrap_or (te_origin_server_timestamp event) 0,
                pj_published_at = created_at, pj_last_polled_at = last_polled_at,
                pj_listening_until = listening_until, pj_reception_known = reception_known,
                pj_card = (ws_liveness w = Some WirePresence)\<rparr>,
              pd_origin_server_timestamp = timestamp, pd_canonical_event = canonical,
              pd_signature = signature\<rparr>))))))))))))))"

section \<open>Processing a sync\<close>

record sync_issue =
  si_room_id :: utext
  si_event_id :: "utext option"
  si_reason :: sync_issue_reason

definition issue :: "utext \<Rightarrow> timeline_event \<Rightarrow> sync_issue_reason \<Rightarrow> sync_issue" where
  "issue room_id e reason = \<lparr>si_room_id = room_id, si_event_id = te_event_id e, si_reason = reason\<rparr>"

definition authentication_issue :: "authentication_decision \<Rightarrow> sync_issue_reason" where
  "authentication_issue d =
     (case d of
        AuthUnknownInstance \<Rightarrow> UnknownInstance
      | AuthRevokedInstance \<Rightarrow> RevokedInstance
      | AuthAgentInstanceMismatch \<Rightarrow> AgentInstanceMismatch
      | AuthInvalidSignature \<Rightarrow> InvalidSignature
      | AuthOutsideValidityWindow \<Rightarrow> OutsideInstanceValidityWindow
      | AuthTrusted \<Rightarrow> InvalidEnvelope
      | AuthTrustedHistoricalRevoked \<Rightarrow> InvalidEnvelope)"

definition authenticate :: "sync_ports \<Rightarrow> pending_presence \<Rightarrow> authentication_failure + authentication_decision" where
  "authenticate ports p =
     authenticate_internal ports (pj_agent (pd_presence p)) (pj_instance (pd_presence p))
       (pd_origin_server_timestamp p) (pd_canonical_event p) (pd_signature p)"

text \<open>What the loop over the events of a room has collected.\<close>

record room_scan =
  rs_memberships :: "membership_change list"
  rs_presences :: "projected_presence list"
  rs_status_events :: nat
  rs_roster_policy :: "roster_policy option"
  rs_issues :: "sync_issue list"

definition room_scan_new :: room_scan where
  "room_scan_new = \<lparr>rs_memberships = [], rs_presences = [], rs_status_events = 0, rs_roster_policy = None, rs_issues = []\<rparr>"

definition scan_issue :: "utext \<Rightarrow> timeline_event \<Rightarrow> sync_issue_reason \<Rightarrow> room_scan \<Rightarrow> room_scan" where
  "scan_issue room_id e reason r = r\<lparr>rs_issues := rs_issues r @ [issue room_id e reason]\<rparr>"

definition scan_event ::
  "sync_ports \<Rightarrow> lease_policy \<Rightarrow> utc_millis \<Rightarrow> utext \<Rightarrow> timeline_event \<Rightarrow> room_scan \<Rightarrow>
     authentication_failure + room_scan" where
  "scan_event ports policy observed_at room_id e r =
     (if te_event_type e = AGENT_ROSTER_POLICY_EVENT_TYPE then
        (case parse_roster_policy e of
           Some p \<Rightarrow> Inr (r\<lparr>rs_roster_policy := Some p\<rparr>)
         | None \<Rightarrow> Inr (scan_issue room_id e InvalidRosterPolicy r))
      else if te_event_type e = ROOM_MEMBER_EVENT_TYPE then
        (case parse_membership e of
           Inr change \<Rightarrow> Inr (r\<lparr>rs_memberships := rs_memberships r @ [change]\<rparr>)
         | Inl reason \<Rightarrow> Inr (scan_issue room_id e reason r))
      else if te_event_type e \<noteq> AGENT_STATUS_EVENT_TYPE then Inr r
      else
        (let counted = r\<lparr>rs_status_events := rs_status_events r + 1\<rparr>
         in if rs_status_events counted > MAXIMUM_STATUS_EVENTS_PER_ROOM
            then Inr (scan_issue room_id e TooManyStatusEvents counted)
            else (case parse_status ports room_id e observed_at policy of
                    Inl reason \<Rightarrow> Inr (scan_issue room_id e reason counted)
                  | Inr pending \<Rightarrow>
                      and_then (authenticate ports pending) (\<lambda>decision.
                      case decision of
                        AuthTrusted \<Rightarrow>
                          Inr (counted\<lparr>rs_presences := rs_presences counted @ [pd_presence pending]\<rparr>)
                      | AuthTrustedHistoricalRevoked \<Rightarrow>
                          Inr (counted\<lparr>rs_presences := rs_presences counted @ [revoked_presence (pd_presence pending)]\<rparr>)
                      | _ \<Rightarrow> Inr (scan_issue room_id e (authentication_issue decision) counted)))))"

fun scan_events ::
  "sync_ports \<Rightarrow> lease_policy \<Rightarrow> utc_millis \<Rightarrow> utext \<Rightarrow> timeline_event list \<Rightarrow> room_scan \<Rightarrow>
     authentication_failure + room_scan" where
  "scan_events ports policy observed_at room_id [] r = Inr r"
| "scan_events ports policy observed_at room_id (e # es) r =
     and_then (scan_event ports policy observed_at room_id e r) (scan_events ports policy observed_at room_id es)"

record sync_progress =
  sg_room_updates :: "room_projection list"
  sg_accepted_statuses :: nat
  sg_membership_changes :: nat
  sg_issues :: "sync_issue list"

definition process_room ::
  "sync_ports \<Rightarrow> lease_policy \<Rightarrow> utc_millis \<Rightarrow> bool \<Rightarrow> room_sync \<Rightarrow> sync_progress \<Rightarrow>
     authentication_failure + sync_progress" where
  "process_room ports policy observed_at full_state room g =
     (if ry_kind room \<noteq> SyncJoined
      then Inr (g\<lparr>sg_room_updates := sg_room_updates g @
             [\<lparr>rj_room_id = ry_room_id room, rj_mode = ModeRemove, rj_memberships = [], rj_presences = [],
               rj_policy = None\<rparr>]\<rparr>)
      else
        and_then (scan_events ports policy observed_at (ry_room_id room) (presence_state_events room) room_scan_new) (\<lambda>r.
        Inr \<lparr>sg_room_updates = sg_room_updates g @
               [\<lparr>rj_room_id = ry_room_id room, rj_mode = (if full_state then ModeReplace else ModeDelta),
                 rj_memberships = rs_memberships r, rj_presences = rs_presences r, rj_policy = rs_roster_policy r\<rparr>],
             sg_accepted_statuses = sg_accepted_statuses g + length (rs_presences r),
             sg_membership_changes = sg_membership_changes g + length (rs_memberships r),
             sg_issues = sg_issues g @ rs_issues r\<rparr>))"

fun process_rooms ::
  "sync_ports \<Rightarrow> lease_policy \<Rightarrow> utc_millis \<Rightarrow> bool \<Rightarrow> room_sync list \<Rightarrow> sync_progress \<Rightarrow>
     authentication_failure + sync_progress" where
  "process_rooms ports policy observed_at full_state [] g = Inr g"
| "process_rooms ports policy observed_at full_state (room # rooms) g =
     and_then (process_room ports policy observed_at full_state room g)
       (process_rooms ports policy observed_at full_state rooms)"

record sync_outcome =
  so_accepted_statuses :: nat
  so_membership_changes :: nat
  so_issues :: "sync_issue list"

definition process_sync ::
  "sync_ports \<Rightarrow> lease_policy \<Rightarrow> utc_millis \<Rightarrow> matrix_sync \<Rightarrow> bool \<Rightarrow> projection_state \<Rightarrow>
     (authentication_failure + sync_outcome) \<times> projection_state" where
  "process_sync ports policy now sync full_state s =
     (case process_rooms ports policy now full_state (sy_rooms sync)
             \<lparr>sg_room_updates = [], sg_accepted_statuses = 0, sg_membership_changes = 0, sg_issues = []\<rparr> of
        Inl f \<Rightarrow> (Inl f, s)
      | Inr g \<Rightarrow>
          (Inr \<lparr>so_accepted_statuses = sg_accepted_statuses g, so_membership_changes = sg_membership_changes g,
                so_issues = sg_issues g\<rparr>,
           apply_sync
             \<lparr>jb_rooms = sg_room_updates g,
              jb_presence = Some \<lparr>pu_observed_at = now, pu_full_state = full_state, pu_users = sy_presence sync\<rparr>\<rparr> s))"

section \<open>What is accepted\<close>

lemma parse_time_Inr: "parse_time ports v = Inr t \<longleftrightarrow> (\<exists>n. sp_parse_time ports v = Some n \<and> utc_new n = Inr t)"
  by (auto simp: parse_time_def split: option.splits sum.splits)

lemma parse_time_nonneg: "parse_time ports v = Inr t \<Longrightarrow> 0 \<le> utc_value t"
  by (auto simp: parse_time_Inr utc_new_def split: if_splits)

lemma wire_identity_Inr:
  assumes "wire_identity agent i a = Inr identity"
  shows "bi_agent_id identity = agent \<and> bi_agent_instance_id identity = i \<and> bi_matrix_user_id identity = wa_matrix_user_id a"
  using assms
  by (auto simp: wire_identity_def agent_identity_new_def with_avatar_url_def matrix_user_id_new_def
      split: sum.splits option.splits if_splits)

lemma parse_status_body_Inr:
  assumes "parse_status_body ports w observed policy = Inr (created, polled, listening, known, lease)"
  shows "\<exists>claimed. parse_time ports (ws_created_at w) = Inr created \<and> parse_time ports (ws_lease_expires_at w) = Inr claimed \<and>
    evaluate_lease created claimed observed policy = Inr lease \<and>
    (map_of (ws_extensions w) (lit ''lastPolledAt'') = None \<longrightarrow> polled = None)"
  using assms by (auto simp: parse_status_body_def Let_def result_simps optional_time_def)

lemma parse_status_Inr:
  assumes "parse_status ports room_id e observed policy = Inr pending"
  shows "\<exists>w lease_end. sp_wire ports (te_content e) = Some w \<and>
    canonical_and_signature ports (te_content e) = Inr (pd_canonical_event pending, pd_signature pending) \<and>
    te_sender e = Some (pj_user (pd_presence pending)) \<and>
    te_state_key e = Some (wa_instance_id (ws_actor w)) \<and>
    sp_parse_uuid ports (wa_instance_id (ws_actor w)) = Some (pj_instance (pd_presence pending)) \<and>
    envelope_timestamp e = Some (pd_origin_server_timestamp pending) \<and>
    pj_observed_at (pd_presence pending) = observed \<and> pj_room_id (pd_presence pending) = room_id \<and>
    parse_time ports (ws_created_at w) = Inr (pj_published_at (pd_presence pending)) \<and>
    parse_time ports (ws_lease_expires_at w) = Inr lease_end \<and>
    evaluate_lease (pj_published_at (pd_presence pending)) lease_end observed policy =
      Inr (pj_lease_expires_at (pd_presence pending)) \<and>
    (map_of (ws_extensions w) (lit ''lastPolledAt'') = None \<longrightarrow> pj_last_polled_at (pd_presence pending) = None)"
proof -
  note p = assms [unfolded parse_status_def]
  obtain event_id where "te_event_id e = Some event_id" using p by (auto simp: result_simps)
  note p = p [unfolded this, simplified]
  obtain sender where sender: "te_sender e = Some sender" using p by (auto simp: result_simps)
  note p = p [unfolded this, simplified]
  obtain key where key: "te_state_key e = Some key" using p by (auto simp: result_simps)
  note p = p [unfolded this, simplified]
  obtain timestamp where ts: "envelope_timestamp e = Some timestamp" using p by (auto simp: result_simps)
  note p = p [unfolded this, simplified]
  obtain canonical signature where cs: "canonical_and_signature ports (te_content e) = Inr (canonical, signature)"
    using p by (auto simp: result_simps)
  note p = p [unfolded this, simplified]
  obtain w where w: "sp_wire ports (te_content e) = Some w" using p by (auto simp: result_simps)
  note p = p [unfolded this, simplified]
  obtain agent i where ids: "parse_v7 ports (wa_agent_id (ws_actor w)) = Inr agent"
      "parse_v7 ports (wa_instance_id (ws_actor w)) = Inr i"
    using p by (auto simp: result_simps split: if_splits)
  note p = p [unfolded this, simplified]
  obtain identity where identity: "wire_identity agent i (ws_actor w) = Inr identity"
    using p by (auto simp: result_simps split: if_splits)
  note p = p [unfolded this, simplified]
  obtain created polled listening known lease where
    body: "parse_status_body ports w observed policy = Inr (created, polled, listening, known, lease)"
    using p by (auto simp: result_simps split: if_splits)
  note p = p [unfolded this, simplified]
  have "sp_parse_uuid ports (wa_instance_id (ws_actor w)) = Some i"
    using ids(2) by (auto simp: parse_v7_def split: option.splits if_splits)
  then show ?thesis
    using p parse_status_body_Inr [OF body] sender key ts cs w
    by (auto simp: result_simps dest!: wire_identity_Inr split: if_splits)
qed

text \<open>
  A status is authentic when an event carries it whose signature the registered key of the instance
  verifies, within the time the instance was valid; after a revocation only as offline.
\<close>

definition authentic :: "sync_ports \<Rightarrow> lease_policy \<Rightarrow> projected_presence \<Rightarrow> bool" where
  "authentic ports policy p \<longleftrightarrow> (\<exists>e pending r.
     parse_status ports (pj_room_id p) e (pj_observed_at p) policy = Inr pending \<and>
     te_sender e = Some (pj_user p) \<and>
     sp_resolve ports (pj_instance p) = Inr r \<and> vr_instance_id r = pj_instance p \<and> vr_agent_id r = pj_agent p \<and>
     sp_verify ports (vr_public_signing_key r) (pd_canonical_event pending) (pd_signature pending) \<and>
     vr_registered_at r \<le> pd_origin_server_timestamp pending \<and>
     (case vr_invalidated_at r of
        None \<Rightarrow> p = pd_presence pending
      | Some t \<Rightarrow> pd_origin_server_timestamp pending < t \<and> p = revoked_presence (pd_presence pending)))"

lemma revoked_presence_simps [simp]:
  "pj_identity (revoked_presence p) = pj_identity p" "pj_room_id (revoked_presence p) = pj_room_id p"
  "pj_observed_at (revoked_presence p) = pj_observed_at p" "pj_status (revoked_presence p) = WorkOffline"
  "pj_last_polled_at (revoked_presence p) = pj_last_polled_at p"
  "pj_lease_expires_at (revoked_presence p) = pj_observed_at p"
  by (simp_all add: revoked_presence_def)

lemma authenticate_Inr:
  assumes "authenticate ports pending = Inr d" and "d = AuthTrusted \<or> d = AuthTrustedHistoricalRevoked"
  shows "\<exists>r. sp_resolve ports (pj_instance (pd_presence pending)) = Inr r \<and>
    vr_instance_id r = pj_instance (pd_presence pending) \<and> vr_agent_id r = pj_agent (pd_presence pending) \<and>
    sp_verify ports (vr_public_signing_key r) (pd_canonical_event pending) (pd_signature pending) \<and>
    vr_registered_at r \<le> pd_origin_server_timestamp pending \<and>
    (case vr_invalidated_at r of
       None \<Rightarrow> d = AuthTrusted
     | Some t \<Rightarrow> pd_origin_server_timestamp pending < t \<and> d = AuthTrustedHistoricalRevoked)"
  using assms
  by (auto simp: authenticate_def authenticate_internal_def map_gateway_failure_def not_less
      split: sum.splits if_splits option.splits gateway_failure.splits)

lemma trusted_authentic:
  assumes "parse_status ports room_id e now policy = Inr pending" and "authenticate ports pending = Inr d"
  shows "d = AuthTrusted \<Longrightarrow> authentic ports policy (pd_presence pending)"
    and "d = AuthTrustedHistoricalRevoked \<Longrightarrow> authentic ports policy (revoked_presence (pd_presence pending))"
  using parse_status_Inr [OF assms(1)] authenticate_Inr [OF assms(2)] assms(1)
  by (fastforce simp: authentic_def split: option.splits)+

lemma scan_event_presences:
  assumes "scan_event ports policy now room_id e r = Inr r'"
  shows "rs_presences r' = rs_presences r \<or> (\<exists>pending d. parse_status ports room_id e now policy = Inr pending \<and>
    authenticate ports pending = Inr d \<and>
    (d = AuthTrusted \<and> rs_presences r' = rs_presences r @ [pd_presence pending] \<or>
     d = AuthTrustedHistoricalRevoked \<and> rs_presences r' = rs_presences r @ [revoked_presence (pd_presence pending)]))"
proof (cases "\<exists>pending d. parse_status ports room_id e now policy = Inr pending \<and> authenticate ports pending = Inr d")
  case True
  then obtain pending d where p: "parse_status ports room_id e now policy = Inr pending"
      "authenticate ports pending = Inr d" by blast
  show ?thesis
    using assms by (cases d) (auto simp: scan_event_def scan_issue_def Let_def p split: if_splits option.splits sum.splits)
next
  case False
  then show ?thesis
    using assms by (auto simp: scan_event_def scan_issue_def Let_def result_simps split: if_splits option.splits sum.splits)
qed

lemma scan_event_cases:
  assumes "scan_event ports policy now room_id e r = Inr r'"
  shows "\<forall>p\<in>set (rs_presences r'). p \<in> set (rs_presences r) \<or> authentic ports policy p \<and> pj_observed_at p = now"
  using scan_event_presences [OF assms]
proof (elim disjE exE conjE)
  fix pending d
  assume p: "parse_status ports room_id e now policy = Inr pending" "authenticate ports pending = Inr d"
  have o: "pj_observed_at (pd_presence pending) = now" using parse_status_Inr [OF p(1)] by blast
  {
    assume "d = AuthTrusted" "rs_presences r' = rs_presences r @ [pd_presence pending]"
    then show ?thesis using trusted_authentic(1) [OF p] o by simp
  next
    assume "d = AuthTrustedHistoricalRevoked" "rs_presences r' = rs_presences r @ [revoked_presence (pd_presence pending)]"
    then show ?thesis using trusted_authentic(2) [OF p] o by simp
  }
qed simp

lemma scan_events_presences:
  "scan_events ports policy now room_id es r = Inr r' \<Longrightarrow>
     \<forall>p\<in>set (rs_presences r'). p \<in> set (rs_presences r) \<or> authentic ports policy p \<and> pj_observed_at p = now"
  by (induction es arbitrary: r) (auto simp: result_simps dest!: scan_event_cases)

lemma process_rooms_presences:
  assumes "process_rooms ports policy now full_state rooms g = Inr g'"
    and "\<forall>u\<in>set (sg_room_updates g). \<forall>p\<in>set (rj_presences u). authentic ports policy p \<and> pj_observed_at p = now"
  shows "\<forall>u\<in>set (sg_room_updates g'). \<forall>p\<in>set (rj_presences u). authentic ports policy p \<and> pj_observed_at p = now"
  using assms
proof (induction rooms arbitrary: g)
  case (Cons room rooms)
  obtain h where h: "process_room ports policy now full_state room g = Inr h"
      "process_rooms ports policy now full_state rooms h = Inr g'"
    using Cons.prems(1) by (auto simp: result_simps)
  have "\<forall>u\<in>set (sg_room_updates h). \<forall>p\<in>set (rj_presences u). authentic ports policy p \<and> pj_observed_at p = now"
  proof (cases "ry_kind room = SyncJoined")
    case False
    then show ?thesis using h(1) Cons.prems(2) by (auto simp: process_room_def)
  next
    case True
    then obtain r where r: "scan_events ports policy now (ry_room_id room) (presence_state_events room) room_scan_new = Inr r"
        "sg_room_updates h = sg_room_updates g @ [\<lparr>rj_room_id = ry_room_id room,
           rj_mode = (if full_state then ModeReplace else ModeDelta), rj_memberships = rs_memberships r,
           rj_presences = rs_presences r, rj_policy = rs_roster_policy r\<rparr>]"
      using h(1) by (auto simp: process_room_def result_simps)
    then show ?thesis using Cons.prems(2) scan_events_presences [OF r(1)] by (auto simp: room_scan_new_def)
  qed
  then show ?case using Cons.IH h(2) by blast
qed simp

section \<open>What is stored\<close>

definition stored :: "projection_state \<Rightarrow> projected_presence set" where
  "stored s = {p. \<exists>k r i. (k, r) \<in> set (ps_rooms s) \<and> (i, p) \<in> set (rp_instances r)}"

lemma status_subset:
  "(i, p) \<in> set (rp_instances (apply_status x r)) \<Longrightarrow> (i, p) \<in> set (rp_instances r) \<or> p = x"
  by (auto simp: apply_status_def dest!: in_map_insert split: if_splits)

lemma statuses_subset:
  "(i, p) \<in> set (rp_instances (fold apply_status ps r)) \<Longrightarrow> (i, p) \<in> set (rp_instances r) \<or> p \<in> set ps"
proof (induction ps arbitrary: r)
  case (Cons x ps)
  then show ?case using Cons.IH [of "apply_status x r"] status_subset [of i p x r] by auto
qed simp

lemma update_room_subset:
  assumes "(i, p) \<in> set (rp_instances (update_room t u r))"
  shows "(i, p) \<in> set (rp_instances r) \<or> p \<in> set (rj_presences u)"
proof -
  have "(i, p) \<in> set (rp_instances (fold apply_status (rj_presences u) (before_statuses u r)))"
    using compact_retains assms unfolding update_room_eq by (metis in_map_retain)
  then show ?thesis
    using statuses_subset before_statuses_instances [of u r] by (fastforce split: if_splits)
qed

lemma apply_room_subset:
  assumes "(k, r) \<in> set (apply_room t u rooms)" and "(i, p) \<in> set (rp_instances r)"
  shows "(\<exists>k r. (k, r) \<in> set rooms \<and> (i, p) \<in> set (rp_instances r)) \<or> p \<in> set (rj_presences u)"
proof (cases "rj_mode u = ModeRemove \<or> (k, r) \<in> set rooms")
  case True
  then have "(k, r) \<in> set rooms" using assms(1) by (auto simp: apply_room_def in_map_delete)
  then show ?thesis using assms(2) by blast
next
  case False
  then have "r = update_room t u (unwrap_or (map_of rooms (rj_room_id u)) room_presence_default)"
    using assms(1) by (auto simp: apply_room_def dest!: in_map_insert)
  then have "(i, p) \<in> set (rp_instances (unwrap_or (map_of rooms (rj_room_id u)) room_presence_default)) \<or>
      p \<in> set (rj_presences u)"
    using update_room_subset assms(2) by blast
  then show ?thesis
    by (cases "map_of rooms (rj_room_id u)") (auto simp: room_presence_default_def dest: map_of_SomeD)
qed

lemma apply_rooms_subset:
  assumes "(k, r) \<in> set (fold (apply_room t) us rooms)" and "(i, p) \<in> set (rp_instances r)"
  shows "(\<exists>k r. (k, r) \<in> set rooms \<and> (i, p) \<in> set (rp_instances r)) \<or> (\<exists>u\<in>set us. p \<in> set (rj_presences u))"
  using assms
proof (induction us arbitrary: rooms)
  case (Cons u us)
  then have "(\<exists>k r. (k, r) \<in> set (apply_room t u rooms) \<and> (i, p) \<in> set (rp_instances r)) \<or>
      (\<exists>u\<in>set us. p \<in> set (rj_presences u))"
    by simp
  then show ?case using apply_room_subset [of _ _ t u rooms i p] by auto
qed auto

lemma apply_sync_stored:
  assumes "p \<in> stored (apply_sync b s)"
  shows "p \<in> stored s \<or> (\<exists>u\<in>set (jb_rooms b). p \<in> set (rj_presences u))"
proof -
  obtain k r i where "(k, r) \<in> set (ps_rooms (apply_sync b s))" "(i, p) \<in> set (rp_instances r)"
    using assms by (auto simp: stored_def)
  then show ?thesis using apply_rooms_subset by (fastforce simp: apply_sync_def Let_def stored_def)
qed

lemma process_sync_stored:
  assumes "p \<in> stored (snd (process_sync ports policy now sync full_state s))"
  shows "p \<in> stored s \<or> authentic ports policy p \<and> pj_observed_at p = now"
proof (cases "process_rooms ports policy now full_state (sy_rooms sync)
    \<lparr>sg_room_updates = [], sg_accepted_statuses = 0, sg_membership_changes = 0, sg_issues = []\<rparr>")
  case (Inl f)
  then show ?thesis using assms by (simp add: process_sync_def)
next
  case (Inr g)
  then show ?thesis using assms process_rooms_presences [OF Inr] by (auto simp: process_sync_def dest!: apply_sync_stored)
qed

section \<open>What becomes of an event\<close>

lemma event_types_distinct [simp]:
  "AGENT_STATUS_EVENT_TYPE \<noteq> AGENT_ROSTER_POLICY_EVENT_TYPE" "AGENT_ROSTER_POLICY_EVENT_TYPE \<noteq> AGENT_STATUS_EVENT_TYPE"
  "AGENT_STATUS_EVENT_TYPE \<noteq> ROOM_MEMBER_EVENT_TYPE" "ROOM_MEMBER_EVENT_TYPE \<noteq> AGENT_STATUS_EVENT_TYPE"
  "ROOM_MEMBER_EVENT_TYPE \<noteq> AGENT_ROSTER_POLICY_EVENT_TYPE" "AGENT_ROSTER_POLICY_EVENT_TYPE \<noteq> ROOM_MEMBER_EVENT_TYPE"
  by (simp_all add: AGENT_STATUS_EVENT_TYPE_def AGENT_ROSTER_POLICY_EVENT_TYPE_def ROOM_MEMBER_EVENT_TYPE_def lit_def)

definition handled :: "timeline_event \<Rightarrow> bool" where
  "handled e \<longleftrightarrow> te_event_type e \<in> {AGENT_ROSTER_POLICY_EVENT_TYPE, ROOM_MEMBER_EVENT_TYPE, AGENT_STATUS_EVENT_TYPE}"

definition policy_read :: "timeline_event \<Rightarrow> bool" where
  "policy_read e \<longleftrightarrow> te_event_type e = AGENT_ROSTER_POLICY_EVENT_TYPE \<and> parse_roster_policy e \<noteq> None"

definition results_of :: "room_scan \<Rightarrow> nat" where
  "results_of r = length (rs_presences r) + length (rs_memberships r) + length (rs_issues r)"

lemma scan_event_counts:
  assumes "scan_event ports policy now room_id e r = Inr r'"
  shows "results_of r' + (if policy_read e then 1 else 0) = results_of r + (if handled e then 1 else 0) \<and>
    rs_status_events r' = rs_status_events r + (if te_event_type e = AGENT_STATUS_EVENT_TYPE then 1 else 0) \<and>
    (length (rs_presences r) \<le> min (rs_status_events r) 20000 \<longrightarrow> length (rs_presences r') \<le> min (rs_status_events r') 20000)"
proof (cases "te_event_type e = AGENT_STATUS_EVENT_TYPE")
  case False
  then show ?thesis
    using assms by (auto simp: scan_event_def scan_issue_def results_of_def handled_def policy_read_def
        split: if_splits option.splits sum.splits)
next
  case True
  note e = assms [unfolded scan_event_def True Let_def, simplified]
  show ?thesis
  proof (cases "parse_status ports room_id e now policy")
    case (Inl reason)
    then show ?thesis using e True by (auto simp: scan_issue_def results_of_def handled_def policy_read_def split: if_splits)
  next
    case (Inr pending)
    show ?thesis
    proof (cases "authenticate ports pending")
      case Inl': (Inl f)
      then show ?thesis
        using e True Inr by (auto simp: scan_issue_def results_of_def handled_def policy_read_def split: if_splits)
    next
      case Inr': (Inr d)
      then show ?thesis
        using e True Inr
        by (cases d) (auto simp: scan_issue_def results_of_def handled_def policy_read_def MAXIMUM_STATUS_EVENTS_PER_ROOM_def
            split: if_splits)
    qed
  qed
qed

lemma scan_events_counts:
  assumes "scan_events ports policy now room_id es r = Inr r'"
  shows "results_of r' + length (filter policy_read es) = results_of r + length (filter handled es) \<and>
    rs_status_events r' = rs_status_events r + length (filter (\<lambda>e. te_event_type e = AGENT_STATUS_EVENT_TYPE) es) \<and>
    (length (rs_presences r) \<le> min (rs_status_events r) 20000 \<longrightarrow> length (rs_presences r') \<le> min (rs_status_events r') 20000)"
  using assms
proof (induction es arbitrary: r)
  case (Cons e es)
  obtain m where m: "scan_event ports policy now room_id e r = Inr m" "scan_events ports policy now room_id es m = Inr r'"
    using Cons.prems by (auto simp: result_simps)
  show ?case using Cons.IH [OF m(2)] scan_event_counts [OF m(1)] by (auto split: if_splits)
qed simp

lemma scan_event_fails:
  assumes "scan_event ports policy now room_id e r = Inl f"
  shows "\<exists>pending. parse_status ports room_id e now policy = Inr pending \<and> authenticate ports pending = Inl f"
  using assms
  by (auto simp: scan_event_def Let_def result_simps
      split: if_splits option.splits sum.splits authentication_decision.splits) (metis authentication_decision.exhaust)

lemma scan_events_fail:
  "scan_events ports policy now room_id es r = Inl f \<Longrightarrow>
     \<exists>e\<in>set es. \<exists>pending. parse_status ports room_id e now policy = Inr pending \<and> authenticate ports pending = Inl f"
  by (induction es arbitrary: r) (auto simp: result_simps dest!: scan_event_fails)

lemma process_rooms_fail:
  "process_rooms ports policy now full_state rooms g = Inl f \<Longrightarrow>
     \<exists>room\<in>set rooms. ry_kind room = SyncJoined \<and> (\<exists>e\<in>set (presence_state_events room). \<exists>pending.
       parse_status ports (ry_room_id room) e now policy = Inr pending \<and> authenticate ports pending = Inl f)"
proof (induction rooms arbitrary: g)
  case (Cons room rooms)
  then show ?case
  proof (cases "process_room ports policy now full_state room g")
    case (Inl f')
    then have "f' = f" "ry_kind room = SyncJoined"
        "scan_events ports policy now (ry_room_id room) (presence_state_events room) room_scan_new = Inl f'"
      using Cons.prems by (auto simp: process_room_def result_simps split: if_splits)
    then show ?thesis using scan_events_fail by fastforce
  next
    case (Inr h)
    then show ?thesis using Cons by auto
  qed
qed simp

section \<open>A sample\<close>

definition sample_wire :: wire_status_event where
  "sample_wire = \<lparr>ws_schema_version = lit ''1.0'', ws_event_type = AGENT_STATUS_EVENT_TYPE, ws_id = [1],
     ws_correlation_id = [1], ws_created_at = [1], ws_lease_expires_at = [2],
     ws_actor = \<lparr>wa_agent_id = [7], wa_display_name = [65], wa_matrix_user_id = lit ''@a:b'', wa_avatar_url = None,
       wa_agent_extensions = [], wa_instance_id = [7], wa_provenance = WireAutonomousAgent, wa_extensions = []\<rparr>,
     ws_status = WireWorking, ws_visibility = WireCoarse, ws_task_summary = None, ws_started_at = None,
     ws_progress = None, ws_liveness = None, ws_last_polled_at = Some [1], ws_extensions = []\<rparr>"

definition sample_sync_ports :: sync_ports where
  "sample_sync_ports = \<lparr>sp_decode_base64 = (\<lambda>_. Some (replicate 64 0)), sp_canonical = (\<lambda>_. Some []),
     sp_wire = (\<lambda>_. Some sample_wire), sp_parse_uuid = (\<lambda>_. Some 7), sp_uuid_version = (\<lambda>_. 7),
     sp_parse_time = (\<lambda>v. Some (if v = [1] then 100000 else 160000)),
     sp_resolve = (\<lambda>_. Inr \<lparr>vr_instance_id = 7, vr_agent_id = 7, vr_public_signing_key = [],
       vr_registered_at = UtcMillis 5, vr_invalidated_at = None\<rparr>),
     sp_verify = (\<lambda>_ _ _. True)\<rparr>"

definition sample_event :: timeline_event where
  "sample_event = \<lparr>te_event_id = Some (lit ''$e''), te_sender = Some (lit ''@a:b''),
     te_event_type = AGENT_STATUS_EVENT_TYPE, te_state_key = Some [7],
     te_origin_server_timestamp = Some 100000, te_content = JObject [(lit ''signature'', JString [])]\<rparr>"

definition sample_join :: timeline_event where
  "sample_join = \<lparr>te_event_id = None, te_sender = None, te_event_type = ROOM_MEMBER_EVENT_TYPE,
     te_state_key = Some (lit ''@a:b''), te_origin_server_timestamp = None,
     te_content = JObject [(lit ''membership'', JString (lit ''join''))]\<rparr>"

definition sample_lease_policy :: lease_policy where
  "sample_lease_policy = \<lparr>lp_maximum_lease = DurationMillis 120000, lp_allowed_clock_skew = DurationMillis 30000\<rparr>"

lemma sample_parsed:
  "\<exists>pending. parse_status sample_sync_ports room sample_event (UtcMillis 100000) sample_lease_policy = Inr pending \<and>
     authenticate sample_sync_ports pending = Inr AuthTrusted \<and> pj_user (pd_presence pending) = lit ''@a:b''"
  by (simp add: parse_status_def sample_event_def sample_sync_ports_def sample_wire_def sample_lease_policy_def
      envelope_timestamp_def i64_try_from_def int_width_defs utc_new_def validate_property_limits_def
      canonical_and_signature_def json_get_def json_str_def device_signature_new_def json_without_def
      validate_wire_status_def parse_v7_def wire_identity_def agent_identity_new_def trim_def trim_by_def trim_end_by_def
      trim_start_by_def is_whitespace_def is_control_def MAX_DISPLAY_NAME_CHARACTERS_def matrix_user_id_new_def
      matrix_string_value_def valid_user_id_def valid_sigil_id_def valid_protocol_text_def byte_len_def utf8_width_def
      starts_with_def lit_def parse_status_body_def parse_time_def optional_time_def wait_deadline_def later_deadline_def
      evaluate_lease_def utc_checked_add_def i64_checked_add_def i64_saturating_sub_def authenticate_def
      authenticate_internal_def Let_def)

definition sample_sync :: matrix_sync where
  "sample_sync = \<lparr>sy_rooms = [\<lparr>ry_room_id = [33], ry_kind = SyncJoined, ry_timeline = [],
     ry_state = [sample_join, sample_event], ry_state_position = AfterTimeline\<rparr>], sy_presence = []\<rparr>"

lemma parse_status_resolve [simp]:
  "parse_status (ports\<lparr>sp_resolve := f\<rparr>) room_id e now policy = parse_status ports room_id e now policy"
proof -
  let ?p = "ports\<lparr>sp_resolve := f\<rparr>"
  have t: "parse_time ?p = parse_time ports" and v: "parse_v7 ?p = parse_v7 ports"
    by (simp_all add: fun_eq_iff parse_time_def parse_v7_def split: option.split)
  have o: "optional_time ?p = optional_time ports" by (rule ext) (simp only: optional_time_def t)
  have d: "wait_deadline ?p = wait_deadline ports" by (intro ext) (simp only: wait_deadline_def o)
  have b: "parse_status_body ?p = parse_status_body ports" by (intro ext) (simp only: parse_status_body_def t o d)
  have c: "canonical_and_signature ?p = canonical_and_signature ports"
    by (rule ext) (simp add: canonical_and_signature_def)
  have w: "validate_wire_status ?p = validate_wire_status ports" by (rule ext) (simp only: validate_wire_status_def t)
  show ?thesis unfolding parse_status_def v b c w by simp
qed

lemma sample_membership: "parse_membership sample_join = Inr \<lparr>mc_matrix_user_id = lit ''@a:b'', mc_joined = True\<rparr>"
  by (simp add: parse_membership_def sample_join_def matrix_user_id_new_def matrix_string_value_def valid_user_id_def
      valid_sigil_id_def valid_protocol_text_def byte_len_def utf8_width_def starts_with_def is_control_def lit_def
      json_get_def json_str_def)

lemma sample_scan:
  "\<exists>pending. parse_status sample_sync_ports [33] sample_event (UtcMillis 100000) sample_lease_policy = Inr pending \<and>
     pj_user (pd_presence pending) = lit ''@a:b'' \<and>
     scan_events sample_sync_ports sample_lease_policy (UtcMillis 100000) [33] [sample_join, sample_event] room_scan_new =
       Inr \<lparr>rs_memberships = [\<lparr>mc_matrix_user_id = lit ''@a:b'', mc_joined = True\<rparr>],
            rs_presences = [pd_presence pending], rs_status_events = 1, rs_roster_policy = None, rs_issues = []\<rparr>"
proof -
  obtain pending where p: "parse_status sample_sync_ports [33] sample_event (UtcMillis 100000) sample_lease_policy = Inr pending"
      "authenticate sample_sync_ports pending = Inr AuthTrusted" "pj_user (pd_presence pending) = lit ''@a:b''"
    using sample_parsed by blast
  have t: "te_event_type sample_join = ROOM_MEMBER_EVENT_TYPE" "te_event_type sample_event = AGENT_STATUS_EVENT_TYPE"
    by (simp_all add: sample_join_def sample_event_def)
  show ?thesis
    by (rule exI [of _ pending]) (simp add: scan_event_def t p sample_membership room_scan_new_def MAXIMUM_STATUS_EVENTS_PER_ROOM_def)
qed

lemma compact_single:
  assumes "rp_instances r = [(pj_instance p, p)]"
  shows "(pj_instance p, p) \<in> set (rp_instances (compact_disconnected_instances t r))"
proof -
  have "instances_ok r" by (simp add: instances_ok_def ordered_map_def assms)
  from compact_exact [OF this refl, of "pj_instance p" p t] show ?thesis by (simp add: assms)
qed

lemma sample_stored:
  "\<exists>p. p \<in> stored (snd (process_sync sample_sync_ports sample_lease_policy (UtcMillis 100000) sample_sync True
     \<lparr>ps_rooms = [], ps_presence = presence_tracker_new\<rparr>))"
proof -
  obtain pending :: pending_presence where p: "pj_user (pd_presence pending) = lit ''@a:b''"
      "scan_events sample_sync_ports sample_lease_policy (UtcMillis 100000) [33] [sample_join, sample_event] room_scan_new =
       Inr \<lparr>rs_memberships = [\<lparr>mc_matrix_user_id = lit ''@a:b'', mc_joined = True\<rparr>],
            rs_presences = [pd_presence pending], rs_status_events = 1, rs_roster_policy = None, rs_issues = []\<rparr>"
    using sample_scan by blast
  have e: "presence_state_events (hd (sy_rooms sample_sync)) = [sample_join, sample_event]"
    by (simp add: sample_sync_def presence_state_events_def sample_join_def sample_event_def)
  let ?u = "\<lparr>rj_room_id = [33], rj_mode = ModeReplace,
    rj_memberships = [\<lparr>mc_matrix_user_id = lit ''@a:b'', mc_joined = True\<rparr>], rj_presences = [pd_presence pending], rj_policy = None\<rparr>"
  let ?s = "\<lparr>ps_rooms = [], ps_presence = presence_tracker_new\<rparr>"
  have run: "snd (process_sync sample_sync_ports sample_lease_policy (UtcMillis 100000) sample_sync True ?s) =
      apply_sync \<lparr>jb_rooms = [?u], jb_presence = Some \<lparr>pu_observed_at = UtcMillis 100000, pu_full_state = True, pu_users = []\<rparr>\<rparr> ?s"
    using e p(2) by (simp add: process_sync_def process_room_def sample_sync_def)
  let ?r = "update_room (apply_presence_sync \<lparr>pu_observed_at = UtcMillis 100000, pu_full_state = True, pu_users = []\<rparr>
    presence_tracker_new) ?u room_presence_default"
  have statuses: "rp_instances (fold apply_status (rj_presences ?u) (before_statuses ?u room_presence_default)) =
      [(pj_instance (pd_presence pending), pd_presence pending)]"
    using p(1) by (simp add: before_statuses_def apply_membership_def apply_status_def room_presence_default_def map_retain_def Let_def)
  have "(pj_instance (pd_presence pending), pd_presence pending) \<in> set (rp_instances ?r)"
    unfolding update_room_eq by (rule compact_single) (rule statuses)
  then have "pd_presence pending \<in> stored (apply_sync \<lparr>jb_rooms = [?u],
      jb_presence = Some \<lparr>pu_observed_at = UtcMillis 100000, pu_full_state = True, pu_users = []\<rparr>\<rparr> ?s)"
    by (auto simp: stored_def apply_sync_def apply_room_def Let_def)
  then show ?thesis unfolding run by blast
qed

section \<open>Properties\<close>

text \<open>
  C12: Only authentic statuses are ever shown: whatever syncs arrive, every status in the projection was carried
  by an event of the user it names and signed by the key that the registry holds for its instance and agent,
  at a time at which the instance was valid, offline if it was revoked since; and its lease ends within the
  policy's maximum and the tolerated skew after it was received.
\<close>

theorem only_authentic_presence:
  assumes "p \<in> stored (fold (\<lambda>(ports, now, sync, full_state) s. snd (process_sync ports policy now sync full_state s)) history
      \<lparr>ps_rooms = [], ps_presence = presence_tracker_new\<rparr>)"
    and "\<And>ports now sync full_state v n. (ports, now, sync, full_state) \<in> set history \<Longrightarrow>
      sp_parse_time ports v = Some n \<Longrightarrow> n \<le> i64_max"
    and "duration_ok (lp_maximum_lease policy)" and "duration_ok (lp_allowed_clock_skew policy)"
  shows "\<exists>(ports, now, sync, full_state)\<in>set history. authentic ports policy p \<and> pj_observed_at p = now \<and>
    utc_value (pj_lease_expires_at p) \<le>
      utc_value now + duration_value (lp_maximum_lease policy) + duration_value (lp_allowed_clock_skew policy)"
proof -
  let ?step = "\<lambda>(ports, now, sync, full_state) s. snd (process_sync ports policy now sync full_state s)"
  have "p \<in> stored s \<or> (\<exists>(ports, now, sync, full_state)\<in>set h. authentic ports policy p \<and> pj_observed_at p = now)"
    if "p \<in> stored (fold ?step h s)" for h s
    using that
  proof (induction h arbitrary: s)
    case (Cons c h)
    obtain ports now sync full_state where c: "c = (ports, now, sync, full_state)" by (rule prod_cases4)
    show ?case using Cons.IH [of "?step c s"] Cons.prems process_sync_stored [of p ports policy now sync full_state s]
      by (auto simp: c)
  qed simp
  from this [OF assms(1)] obtain ports now sync full_state where
    m: "(ports, now, sync, full_state) \<in> set history" and a: "authentic ports policy p" and o: "pj_observed_at p = now"
    by (auto simp: stored_def)
  obtain e pending where e: "parse_status ports (pj_room_id p) e (pj_observed_at p) policy = Inr pending"
      "p = pd_presence pending \<or> p = revoked_presence (pd_presence pending)"
    using a by (auto simp: authentic_def split: option.splits)
  obtain w :: wire_status_event and claimed where w: "parse_time ports (ws_created_at w) = Inr (pj_published_at (pd_presence pending))"
      "parse_time ports (ws_lease_expires_at w) = Inr claimed"
      "evaluate_lease (pj_published_at (pd_presence pending)) claimed (pj_observed_at p) policy =
        Inr (pj_lease_expires_at (pd_presence pending))"
    using parse_status_Inr [OF e(1)] by blast
  have ok: "utc_ok t" if "parse_time ports v = Inr t" for v t
    using that assms(2) [OF m] by (auto simp: parse_time_Inr utc_new_def utc_ok_def split: if_splits)
  have "utc_value (pj_lease_expires_at (pd_presence pending)) \<le>
      utc_value now + duration_value (lp_maximum_lease policy) + duration_value (lp_allowed_clock_skew policy)"
    using evaluate_lease_Inr [OF w(3) ok [OF w(1)] ok [OF w(2)]] o by simp
  moreover have "pj_observed_at (pd_presence pending) = now" 
    using parse_status_Inr [OF e(1)] o by blast
  ultimately have "utc_value (pj_lease_expires_at p) \<le>
      utc_value now + duration_value (lp_maximum_lease policy) + duration_value (lp_allowed_clock_skew policy)"
    using e(2) assms(3,4) by (auto simp: duration_ok_def)
  then show ?thesis using m a o by blast
qed

theorem only_authentic_presence_witness:
  "\<exists>p. authentic sample_sync_ports sample_lease_policy p \<and> utc_value (pj_lease_expires_at p) \<le> 250000"
proof -
  obtain p where p: "p \<in> stored (snd (process_sync sample_sync_ports sample_lease_policy (UtcMillis 100000) sample_sync True
     \<lparr>ps_rooms = [], ps_presence = presence_tracker_new\<rparr>))"
    using sample_stored by blast
  let ?h = "[(sample_sync_ports, UtcMillis 100000, sample_sync, True)]"
  have "n \<le> i64_max" if "(ports, now, sync, full_state) \<in> set ?h" "sp_parse_time ports v = Some n"
    for ports now sync full_state v n
    using that by (auto simp: sample_sync_ports_def int_width_defs split: if_splits)
  moreover have "duration_ok (lp_maximum_lease sample_lease_policy)" "duration_ok (lp_allowed_clock_skew sample_lease_policy)"
    by (simp_all add: sample_lease_policy_def duration_ok_def int_width_defs)
  ultimately have "\<exists>(ports, now, sync, full_state)\<in>set ?h. authentic ports sample_lease_policy p \<and> pj_observed_at p = now \<and>
    utc_value (pj_lease_expires_at p) \<le> utc_value now + duration_value (lp_maximum_lease sample_lease_policy) +
      duration_value (lp_allowed_clock_skew sample_lease_policy)"
    using p by (intro only_authentic_presence) simp_all
  then show ?thesis by (auto simp: sample_lease_policy_def)
qed

text \<open>
  No event is lost silently: of the events of a room that the scan handles, each leaves exactly one trace, a
  policy that is read, a membership, an accepted status or an issue; every status is counted, and at most
  twenty thousand of them are accepted.
\<close>

theorem every_event_accounted:
  assumes "scan_events ports policy now room_id events room_scan_new = Inr r"
  shows "length (rs_presences r) + length (rs_memberships r) + length (rs_issues r) + length (filter policy_read events) =
      length (filter handled events) \<and>
    rs_status_events r = length (filter (\<lambda>e. te_event_type e = AGENT_STATUS_EVENT_TYPE) events) \<and>
    length (rs_presences r) \<le> min (rs_status_events r) 20000"
  using scan_events_counts [OF assms] by (simp add: results_of_def room_scan_new_def)

theorem every_event_accounted_witness:
  "\<exists>r. scan_events sample_sync_ports sample_lease_policy (UtcMillis 100000) [33] [sample_join, sample_event] room_scan_new =
     Inr r \<and> length (rs_presences r) \<le> min (rs_status_events r) 20000"
  using sample_scan every_event_accounted by blast

text \<open>
  One bad event never stops a sync: processing fails only when the registry cannot be asked about a status
  that was parsed, and then the projection is left as it was.
\<close>

theorem sync_fails_only_on_authentication:
  assumes "process_sync ports policy now sync full_state s = (Inl f, s')"
  shows "s' = s \<and> (\<exists>room\<in>set (sy_rooms sync). \<exists>e\<in>set (presence_state_events room). \<exists>pending.
    parse_status ports (ry_room_id room) e now policy = Inr pending \<and>
    (\<exists>g. sp_resolve ports (pj_instance (pd_presence pending)) = Inl g \<and> map_gateway_failure g = Inl f \<or>
      f = AuthInternal \<and> (\<exists>r. sp_resolve ports (pj_instance (pd_presence pending)) = Inr r)))"
proof -
  have f: "process_rooms ports policy now full_state (sy_rooms sync)
      \<lparr>sg_room_updates = [], sg_accepted_statuses = 0, sg_membership_changes = 0, sg_issues = []\<rparr> = Inl f" "s' = s"
    using assms by (auto simp: process_sync_def split: sum.splits)
  obtain room e pending where p: "room \<in> set (sy_rooms sync)" "e \<in> set (presence_state_events room)"
      "parse_status ports (ry_room_id room) e now policy = Inr pending" "authenticate ports pending = Inl f"
    using process_rooms_fail [OF f(1)] by blast
  have "(\<exists>g. sp_resolve ports (pj_instance (pd_presence pending)) = Inl g \<and> map_gateway_failure g = Inl f) \<or>
      f = AuthInternal \<and> (\<exists>r. sp_resolve ports (pj_instance (pd_presence pending)) = Inr r)"
    using p(4) by (auto simp: authenticate_def authenticate_internal_def split: sum.splits if_splits option.splits)
  then show ?thesis using f(2) p by blast
qed

theorem sync_fails_only_on_authentication_witness:
  "\<exists>f s'. process_sync (sample_sync_ports\<lparr>sp_resolve := \<lambda>_. Inl GatewayUnavailable\<rparr>) sample_lease_policy (UtcMillis 100000)
     sample_sync True \<lparr>ps_rooms = [], ps_presence = presence_tracker_new\<rparr> = (Inl f, s') \<and>
     s' = \<lparr>ps_rooms = [], ps_presence = presence_tracker_new\<rparr>"
proof -
  let ?ports = "sample_sync_ports\<lparr>sp_resolve := \<lambda>_. Inl GatewayUnavailable\<rparr>"
  let ?s = "\<lparr>ps_rooms = [], ps_presence = presence_tracker_new\<rparr>"
  obtain pending where p: "parse_status sample_sync_ports [33] sample_event (UtcMillis 100000) sample_lease_policy = Inr pending"
    using sample_parsed by blast
  have a: "authenticate ?ports pending = Inl AuthUnavailable"
    by (simp add: authenticate_def authenticate_internal_def map_gateway_failure_def)
  have t: "te_event_type sample_join = ROOM_MEMBER_EVENT_TYPE" "te_event_type sample_event = AGENT_STATUS_EVENT_TYPE"
    by (simp_all add: sample_join_def sample_event_def)
  have "scan_events ?ports sample_lease_policy (UtcMillis 100000) [33] [sample_join, sample_event] room_scan_new = Inl AuthUnavailable"
    by (simp add: scan_event_def t p a sample_membership room_scan_new_def MAXIMUM_STATUS_EVENTS_PER_ROOM_def)
  moreover have "presence_state_events (hd (sy_rooms sample_sync)) = [sample_join, sample_event]"
    by (simp add: sample_sync_def presence_state_events_def sample_join_def sample_event_def)
  ultimately have "fst (process_sync ?ports sample_lease_policy (UtcMillis 100000) sample_sync True ?s) = Inl AuthUnavailable"
    by (simp add: process_sync_def process_room_def sample_sync_def)
  then obtain s' where "process_sync ?ports sample_lease_policy (UtcMillis 100000) sample_sync True ?s = (Inl AuthUnavailable, s')"
    by (metis prod.collapse)
  then show ?thesis using sync_fails_only_on_authentication by blast
qed

text \<open>
  C36: The last reading of an agent is never shown to others: the decoder files the member \<^verbatim>\<open>lastPolledAt\<close>
  under its own field, and the parser looks for it among the members that have none, so no accepted status
  carries the moment, whatever its sender wrote.
\<close>

theorem last_reading_never_shown:
  assumes "\<And>v w. sp_wire ports v = Some w \<Longrightarrow> lit ''lastPolledAt'' \<notin> fst ` set (ws_extensions w)"
    and "parse_status ports room_id e now policy = Inr pending"
  shows "pj_last_polled_at (pd_presence pending) = None"
proof -
  obtain w :: wire_status_event where w: "sp_wire ports (te_content e) = Some w"
      "map_of (ws_extensions w) (lit ''lastPolledAt'') = None \<longrightarrow> pj_last_polled_at (pd_presence pending) = None"
    using parse_status_Inr [OF assms(2)] by (elim exE conjE)
  have "map_of (ws_extensions w) (lit ''lastPolledAt'') = None"
    using assms(1) [OF w(1)] by (simp only: map_of_eq_None_iff not_False_eq_True)
  then show ?thesis using w(2) by blast
qed

theorem last_reading_never_shown_witness:
  "\<exists>pending. parse_status sample_sync_ports [33] sample_event (UtcMillis 100000) sample_lease_policy = Inr pending \<and>
     ws_last_polled_at sample_wire \<noteq> None \<and> pj_last_polled_at (pd_presence pending) = None"
proof -
  have "lit ''lastPolledAt'' \<notin> fst ` set (ws_extensions w)" if "sp_wire sample_sync_ports v = Some w" for v w
  proof -
    have "w = sample_wire" using that by (simp add: sample_sync_ports_def)
    then show ?thesis by (simp add: sample_wire_def)
  qed
  moreover obtain pending where p: "parse_status sample_sync_ports [33] sample_event (UtcMillis 100000) sample_lease_policy = Inr pending"
    using sample_parsed by blast
  ultimately have "pj_last_polled_at (pd_presence pending) = None"
    using last_reading_never_shown [OF _ p] by blast
  then show ?thesis using p by (simp add: sample_wire_def)
qed

end
