(* ===== verification/Status_Publication.thy ===== *)
theory Status_Publication
  imports Presence_Sync
begin

text \<open>
  The sender of statuses (\<^verbatim>\<open>crates/bridge-core/src/status.rs\<close>): when a status is due, what is
  signed and sent, what is remembered of it, and the card that a bridge without leases publishes. The last
  section joins it with the receiver of \<open>Presence_Sync\<close>. \<open>publish_ports\<close> are the functions
  outside the repository, \<open>publish_draws\<close> what one call draws from outside: the clock, identifiers,
  entropy and the answer of the server.
\<close>

section \<open>Intents and targets\<close>

datatype host_agent_state =
  HostDisconnected | HostAvailable | HostRunning | HostAwaitingInput | HostBlocked | HostSucceeded

definition host_work_status :: "host_agent_state \<Rightarrow> agent_work_status" where
  "host_work_status h =
     (case h of
        HostDisconnected \<Rightarrow> WorkOffline
      | HostAvailable \<Rightarrow> WorkIdle
      | HostRunning \<Rightarrow> Working
      | HostAwaitingInput \<Rightarrow> WaitingInput
      | HostBlocked \<Rightarrow> Blocked
      | HostSucceeded \<Rightarrow> WorkCompleted)"

definition WAITING_RENEWAL_MARGIN_MS :: int where "WAITING_RENEWAL_MARGIN_MS = 60000"
definition POLL_REPORT_INTERVAL_MS :: int where "POLL_REPORT_INTERVAL_MS = 60000"

record status_intent =
  it_host_state :: host_agent_state
  it_details :: "status_details option"
  it_last_polled_at :: "utc_millis option"
  it_waiting :: bool

definition intent_snapshot :: "status_intent \<Rightarrow> status_visibility \<Rightarrow> status_snapshot result" where
  "intent_snapshot intent visibility =
     status_snapshot_new (host_work_status (it_host_state intent)) visibility
       (case visibility of Coarse \<Rightarrow> None | Detailed \<Rightarrow> it_details intent)"

record status_target =
  sr_room_id :: utext
  sr_visibility :: status_visibility

datatype publication_failure =
    PubInvalidConfiguration | PubInvalidIdentity | PubInvalidIntent | PubInvalidIdentifier
  | PubSigningUnavailable | PubSerialization | PubMatrix matrix_failure_kind

record status_lease_policy =
  sq_lifetime :: duration_millis
  sq_renewal_interval :: duration_millis
  sq_renewal_jitter :: duration_millis

definition status_lease_policy_new ::
  "duration_millis \<Rightarrow> duration_millis \<Rightarrow> duration_millis \<Rightarrow> publication_failure + status_lease_policy" where
  "status_lease_policy_new lifetime renewal_interval renewal_jitter =
     (let latest_renewal = duration_value renewal_interval + duration_value renewal_jitter
      in if latest_renewal > u64_max then Inl PubInvalidConfiguration
         else if renewal_jitter \<ge> renewal_interval \<or> latest_renewal \<ge> duration_value lifetime
         then Inl PubInvalidConfiguration
         else Inr \<lparr>sq_lifetime = lifetime, sq_renewal_interval = renewal_interval, sq_renewal_jitter = renewal_jitter\<rparr>)"

text \<open>The subtraction cannot underflow: the policy was checked; the result is valid (\<open>renewal_before_expiry\<close>).\<close>

definition renewal_delay :: "status_lease_policy \<Rightarrow> int \<Rightarrow> duration_millis result" where
  "renewal_delay p entropy =
     (let minimum = duration_value (sq_renewal_interval p) - duration_value (sq_renewal_jitter p);
          width = u64_saturating_add (u64_saturating_mul (duration_value (sq_renewal_jitter p)) 2) 1
      in duration_new (u64_saturating_add minimum (entropy mod width)))"

section \<open>What was published\<close>

datatype publication_reason = PubInitial | PubStatusChanged | PubVisibilityChanged | PubRenewal

datatype publication_outcome =
    Published utext publication_reason status_lease utc_millis
  | NotDue utc_millis utc_millis

record published_status =
  pr_snapshot :: status_snapshot
  pr_renew_at :: utc_millis
  pr_lease_expires_at :: utc_millis
  pr_last_polled_at :: "utc_millis option"
  pr_waiting_until :: "utc_millis option"

definition renewal_due :: "status_intent \<Rightarrow> utc_millis \<Rightarrow> published_status \<Rightarrow> bool" where
  "renewal_due intent now p \<longleftrightarrow>
     (let waiting_changed = ((pr_waiting_until p \<noteq> None) \<noteq> it_waiting intent);
          waiting_lapsing = (it_waiting intent \<and>
            opt_any (pr_waiting_until p)
              (\<lambda>until. i64_saturating_add (utc_value now) WAITING_RENEWAL_MARGIN_MS \<ge> utc_value until));
          polled_later = (\<not> it_waiting intent \<and>
            opt_any (it_last_polled_at intent) (\<lambda>polled.
              opt_all (pr_last_polled_at p) (\<lambda>old. utc_value polled - utc_value old \<ge> POLL_REPORT_INTERVAL_MS)))
      in now \<ge> pr_renew_at p \<or> waiting_changed \<or> waiting_lapsing \<or> polled_later)"

record publication_state =
  pn_identity :: agent_identity
  pn_policy :: status_lease_policy
  pn_published_rooms :: "utext \<rightharpoonup> published_status"

record waiting_window =
  ww_listening_until :: utc_millis
  ww_waiting_until :: utc_millis

definition waiting_window_at :: "utc_millis \<Rightarrow> publication_failure + waiting_window" where
  "waiting_window_at published_at =
     (let after = (\<lambda>millis. case utc_new (i64_saturating_add (utc_value published_at) millis) of
                      Inl _ \<Rightarrow> Inl PubInvalidConfiguration | Inr t \<Rightarrow> Inr t)
      in and_then (after RECEPTION_FRESHNESS_MS) (\<lambda>listening_until.
         and_then (after WAITING_LEASE_MS) (\<lambda>waiting_until.
         Inr \<lparr>ww_listening_until = listening_until, ww_waiting_until = waiting_until\<rparr>)))"

section \<open>The event\<close>

record publish_ports =
  pb_rfc3339 :: "int \<Rightarrow> utext option"
  pb_uuid_text :: "uuid \<Rightarrow> utext"
  pb_uuid_version :: "uuid \<Rightarrow> nat"
  pb_canonical :: "json \<Rightarrow> 8 word list option"
  pb_sign :: "8 word list \<Rightarrow> 8 word list option"
  pb_encode_base64 :: "8 word list \<Rightarrow> utext"
  pb_json_length :: "json \<Rightarrow> nat option"
  pb_fraction :: "task_progress \<Rightarrow> rat"

record publish_draws =
  pw_now :: utc_millis
  pw_event_id :: uuid
  pw_correlation_id :: uuid
  pw_entropy :: int
  pw_answer :: "matrix_failure_kind + utext"

record unsigned_status =
  us_last_polled_at :: "utext option"
  us_listening_until :: "utext option"
  us_waiting_until :: "utext option"
  us_id :: uuid
  us_created_at :: utext
  us_identity :: agent_identity
  us_correlation_id :: uuid
  us_status :: agent_work_status
  us_visibility :: status_visibility
  us_task_summary :: "utext option"
  us_started_at :: "utext option"
  us_progress :: "task_progress option"
  us_lease_expires_at :: utext

record state_event =
  sv_event_type :: utext
  sv_state_key :: utext
  sv_content :: json

definition rfc3339 :: "publish_ports \<Rightarrow> utc_millis \<Rightarrow> publication_failure + utext" where
  "rfc3339 ports t = ok_or (pb_rfc3339 ports (utc_value t)) PubSerialization"

definition optional_rfc3339 :: "publish_ports \<Rightarrow> utc_millis option \<Rightarrow> publication_failure + utext option" where
  "optional_rfc3339 ports t = (case t of None \<Rightarrow> Inr None | Some u \<Rightarrow> map_sum id Some (rfc3339 ports u))"

definition unsigned_status_new ::
  "publish_ports \<Rightarrow> agent_identity \<Rightarrow> status_lease \<Rightarrow> uuid \<Rightarrow> uuid \<Rightarrow> publication_failure + unsigned_status" where
  "unsigned_status_new ports identity lease event_id correlation_id =
     (let details = ss_details (sl_snapshot lease)
      in and_then (rfc3339 ports (sl_published_at lease)) (\<lambda>created_at.
         and_then (optional_rfc3339 ports (Option.bind details sd_started_at)) (\<lambda>started_at.
         and_then (rfc3339 ports (sl_expires_at lease)) (\<lambda>lease_expires_at.
         Inr \<lparr>us_last_polled_at = None, us_listening_until = None, us_waiting_until = None, us_id = event_id,
              us_created_at = created_at, us_identity = identity, us_correlation_id = correlation_id,
              us_status = ss_status (sl_snapshot lease), us_visibility = ss_visibility (sl_snapshot lease),
              us_task_summary = Option.bind details sd_task_summary, us_started_at = started_at,
              us_progress = Option.bind details sd_progress, us_lease_expires_at = lease_expires_at\<rparr>))))"

definition optional_member :: "string \<Rightarrow> json option \<Rightarrow> (utext \<times> json) list" where
  "optional_member k v = (case v of None \<Rightarrow> [] | Some j \<Rightarrow> [(lit k, j)])"

text \<open>The members in the order of the fields; absent options are left out but for \<^verbatim>\<open>listeningUntil\<close>.\<close>

definition unsigned_members :: "publish_ports \<Rightarrow> unsigned_status \<Rightarrow> (utext \<times> json) list" where
  "unsigned_members ports u =
     (let i = us_identity u
      in optional_member ''lastPolledAt'' (map_option JString (us_last_polled_at u)) @
         [(lit ''listeningUntil'', case us_listening_until u of None \<Rightarrow> JNull | Some s \<Rightarrow> JString s)] @
         optional_member ''waitingUntil'' (map_option JString (us_waiting_until u)) @
         [(lit ''schemaVersion'', JString (lit ''1.0'')), (lit ''eventType'', JString AGENT_STATUS_EVENT_TYPE),
          (lit ''id'', JString (pb_uuid_text ports (us_id u))), (lit ''createdAt'', JString (us_created_at u)),
          (lit ''actor'', JObject
            [(lit ''agent'', JObject
               [(lit ''agentId'', JString (pb_uuid_text ports (bi_agent_id i))),
                (lit ''displayName'', JString (bi_display_name i)),
                (lit ''matrixUserId'', JString (bi_matrix_user_id i))]),
             (lit ''instanceId'', JString (pb_uuid_text ports (bi_agent_instance_id i))),
             (lit ''provenance'', JString (lit ''autonomous_agent''))]),
          (lit ''correlationId'', JString (pb_uuid_text ports (us_correlation_id u))),
          (lit ''status'', JString (lit (work_status_str (us_status u)))),
          (lit ''visibility'', JString (lit (status_visibility_str (us_visibility u))))] @
         optional_member ''taskSummary'' (map_option JString (us_task_summary u)) @
         optional_member ''startedAt'' (map_option JString (us_started_at u)) @
         optional_member ''progress'' (map_option (\<lambda>p. JFloat (pb_fraction ports p)) (us_progress u)) @
         [(lit ''leaseExpiresAt'', JString (us_lease_expires_at u))])"

definition MAX_EVENT_PAYLOAD_BYTES :: nat where "MAX_EVENT_PAYLOAD_BYTES = 65536"

definition state_event_new :: "publish_ports \<Rightarrow> utext \<Rightarrow> utext \<Rightarrow> json \<Rightarrow> state_event option" where
  "state_event_new ports event_type state_key content =
     (case content of
        JObject _ \<Rightarrow>
          (case pb_json_length ports content of
             None \<Rightarrow> None
           | Some n \<Rightarrow> if n > MAX_EVENT_PAYLOAD_BYTES then None
                       else Some \<lparr>sv_event_type = event_type, sv_state_key = state_key, sv_content = content\<rparr>)
      | _ \<Rightarrow> None)"

definition signed_state_event :: "publish_ports \<Rightarrow> agent_identity \<Rightarrow> json \<Rightarrow> publication_failure + state_event" where
  "signed_state_event ports identity content =
     and_then (ok_or (pb_canonical ports content) PubSerialization) (\<lambda>canonical.
     and_then (ok_or (pb_sign ports canonical) PubSigningUnavailable) (\<lambda>signature.
     case content of
       JObject members \<Rightarrow>
         ok_or (state_event_new ports AGENT_STATUS_EVENT_TYPE (pb_uuid_text ports (bi_agent_instance_id identity))
             (JObject (members @ [(lit ''signature'', JString (pb_encode_base64 ports signature))]))) PubSerialization
     | _ \<Rightarrow> Inl PubSerialization))"

definition filled_status ::
  "publish_ports \<Rightarrow> publish_draws \<Rightarrow> agent_identity \<Rightarrow> status_lease \<Rightarrow>
     (unsigned_status \<Rightarrow> publication_failure + unsigned_status) \<Rightarrow> publication_failure + unsigned_status" where
  "filled_status ports draws identity lease fill =
     (if pb_uuid_version ports (pw_event_id draws) \<noteq> 7 \<or> pb_uuid_version ports (pw_correlation_id draws) \<noteq> 7
      then Inl PubInvalidIdentifier
      else and_then (unsigned_status_new ports identity lease (pw_event_id draws) (pw_correlation_id draws)) fill)"

definition unsigned_content ::
  "publish_ports \<Rightarrow> publish_draws \<Rightarrow> agent_identity \<Rightarrow> status_lease \<Rightarrow>
     (unsigned_status \<Rightarrow> publication_failure + unsigned_status) \<Rightarrow> publication_failure + json" where
  "unsigned_content ports draws identity lease fill =
     map_sum id (\<lambda>u. JObject (unsigned_members ports u)) (filled_status ports draws identity lease fill)"

definition fill_waiting ::
  "publish_ports \<Rightarrow> utc_millis option \<Rightarrow> waiting_window option \<Rightarrow> unsigned_status \<Rightarrow> publication_failure + unsigned_status" where
  "fill_waiting ports last_polled_at waiting u =
     and_then (optional_rfc3339 ports last_polled_at) (\<lambda>polled.
     case waiting of
       None \<Rightarrow> Inr (u\<lparr>us_last_polled_at := polled\<rparr>)
     | Some w \<Rightarrow>
         and_then (rfc3339 ports (ww_listening_until w)) (\<lambda>listening_until.
         and_then (rfc3339 ports (ww_waiting_until w)) (\<lambda>waiting_until.
         Inr (u\<lparr>us_last_polled_at := polled, us_listening_until := Some listening_until,
                us_waiting_until := Some waiting_until\<rparr>))))"

definition status_state_event ::
  "publish_ports \<Rightarrow> publish_draws \<Rightarrow> agent_identity \<Rightarrow> status_lease \<Rightarrow> utc_millis option \<Rightarrow> waiting_window option \<Rightarrow>
     publication_failure + state_event" where
  "status_state_event ports draws identity lease last_polled_at waiting =
     and_then (unsigned_content ports draws identity lease (fill_waiting ports last_polled_at waiting))
       (signed_state_event ports identity)"

section \<open>Publishing\<close>

definition due_reason ::
  "status_intent \<Rightarrow> status_snapshot \<Rightarrow> utc_millis \<Rightarrow> published_status option \<Rightarrow> publication_reason option" where
  "due_reason intent snapshot now previous =
     (case previous of
        None \<Rightarrow> Some PubInitial
      | Some p \<Rightarrow>
          if ss_status (pr_snapshot p) \<noteq> ss_status snapshot then Some PubStatusChanged
          else if ss_visibility (pr_snapshot p) \<noteq> ss_visibility snapshot then Some PubVisibilityChanged
          else if renewal_due intent now p then Some PubRenewal
          else None)"

definition as_failure :: "publication_failure \<Rightarrow> 'a result \<Rightarrow> publication_failure + 'a" where
  "as_failure f r = map_sum (\<lambda>_. f) id r"

text \<open>The part up to the request: the lease, the waiting window and the signed event.\<close>

definition prepare_status ::
  "publish_ports \<Rightarrow> publish_draws \<Rightarrow> status_intent \<Rightarrow> status_snapshot \<Rightarrow> publication_state \<Rightarrow>
     publication_failure + (status_lease \<times> waiting_window option \<times> state_event)" where
  "prepare_status ports draws intent snapshot s =
     and_then (as_failure PubInvalidIntent
       (status_lease_issue (bi_agent_instance_id (pn_identity s)) snapshot (pw_now draws) (sq_lifetime (pn_policy s)))) (\<lambda>lease.
     and_then (if it_waiting intent then map_sum id Some (waiting_window_at (pw_now draws)) else Inr None) (\<lambda>waiting.
     and_then (status_state_event ports draws (pn_identity s) lease (it_last_polled_at intent) waiting) (\<lambda>event.
     Inr (lease, waiting, event))))"

definition publish_if_due ::
  "publish_ports \<Rightarrow> publish_draws \<Rightarrow> status_target \<Rightarrow> status_intent \<Rightarrow> publication_state \<Rightarrow>
     (publication_failure + publication_outcome) \<times> publication_state" where
  "publish_if_due ports draws target intent s =
     (let now = pw_now draws
      in if opt_any (it_last_polled_at intent) (\<lambda>polled. polled > now) then (Inl PubInvalidIntent, s)
         else
           attempt (as_failure PubInvalidIntent (intent_snapshot intent (sr_visibility target))) s (\<lambda>snapshot.
           case (pn_published_rooms s (sr_room_id target),
                 due_reason intent snapshot now (pn_published_rooms s (sr_room_id target))) of
             (Some p, None) \<Rightarrow> (Inr (NotDue (pr_renew_at p) (pr_lease_expires_at p)), s)
           | (_, reason) \<Rightarrow>
               attempt (prepare_status ports draws intent snapshot s) s (\<lambda>(lease, waiting, event).
               attempt (map_sum PubMatrix id (pw_answer draws)) s (\<lambda>event_id.
               attempt (as_failure PubInvalidConfiguration
                 (and_then (renewal_delay (pn_policy s) (pw_entropy draws)) (utc_checked_add now))) s (\<lambda>renew_at.
               (Inr (Published event_id (unwrap_or reason PubInitial) lease renew_at),
                s\<lparr>pn_published_rooms := (pn_published_rooms s)(sr_room_id target \<mapsto>
                   \<lparr>pr_snapshot = snapshot, pr_renew_at = renew_at, pr_lease_expires_at = sl_expires_at lease,
                    pr_last_polled_at = it_last_polled_at intent,
                    pr_waiting_until = map_option ww_waiting_until waiting\<rparr>)\<rparr>))))))"

definition publish_card ::
  "publish_ports \<Rightarrow> publish_draws \<Rightarrow> publication_state \<Rightarrow> publication_failure + (state_event \<times> utext)" where
  "publish_card ports draws s =
     and_then (as_failure PubInvalidIntent (status_snapshot_new WorkIdle Coarse None)) (\<lambda>snapshot.
     and_then (as_failure PubInvalidIntent
       (status_lease_issue (bi_agent_instance_id (pn_identity s)) snapshot (pw_now draws) (sq_lifetime (pn_policy s)))) (\<lambda>lease.
     and_then (unsigned_content ports draws (pn_identity s) lease Inr) (\<lambda>content.
     case content of
       JObject members \<Rightarrow>
         and_then (signed_state_event ports (pn_identity s)
           (JObject (filter (\<lambda>e. fst e \<noteq> lit ''listeningUntil'') members @
                     [(lit ''liveness'', JString (lit ''presence''))]))) (\<lambda>event.
         and_then (map_sum PubMatrix id (pw_answer draws)) (\<lambda>event_id. Inr (event, event_id)))
     | _ \<Rightarrow> Inl PubSerialization)))"

definition json_path :: "string list \<Rightarrow> json \<Rightarrow> json" where
  "json_path ks v = foldl (\<lambda>j k. case json_get k j of None \<Rightarrow> JNull | Some x \<Rightarrow> x) v ks"

definition is_current_card :: "publish_ports \<Rightarrow> json \<Rightarrow> publication_state \<Rightarrow> bool" where
  "is_current_card ports content s \<longleftrightarrow>
     (let i = pn_identity s
      in json_path [''liveness''] content = JString (lit ''presence'') \<and>
         json_path [''actor'', ''agent'', ''agentId''] content = JString (pb_uuid_text ports (bi_agent_id i)) \<and>
         json_path [''actor'', ''agent'', ''displayName''] content = JString (bi_display_name i) \<and>
         json_path [''actor'', ''agent'', ''matrixUserId''] content = JString (bi_matrix_user_id i) \<and>
         json_path [''actor'', ''instanceId''] content = JString (pb_uuid_text ports (bi_agent_instance_id i)))"

definition card_outcome :: "utc_millis \<Rightarrow> publication_state \<Rightarrow> publication_failure + publication_outcome" where
  "card_outcome now s =
     and_then (as_failure PubInvalidConfiguration (utc_checked_add now (sq_lifetime (pn_policy s)))) (\<lambda>lease_expires_at.
     Inr (NotDue lease_expires_at lease_expires_at))"

section \<open>Lemmas on one call\<close>

lemma as_failure_Inr [simp]: "as_failure f r = Inr x \<longleftrightarrow> r = Inr x"
  by (cases r) (simp_all add: as_failure_def)

lemma mapped_Inr [simp]: "map_sum f g r = Inr y \<longleftrightarrow> (\<exists>x. r = Inr x \<and> y = g x)"
  by (cases r) auto

lemma mapped_Inl [simp]: "map_sum f g r = Inl e \<longleftrightarrow> (\<exists>x. r = Inl x \<and> e = f x)"
  by (cases r) auto

lemma due_reason_none:
  "due_reason intent snapshot now previous = None \<longleftrightarrow> (\<exists>p. previous = Some p \<and>
     ss_status (pr_snapshot p) = ss_status snapshot \<and> ss_visibility (pr_snapshot p) = ss_visibility snapshot \<and>
     \<not> renewal_due intent now p)"
  by (auto simp: due_reason_def split: option.splits if_splits)

lemma publish_not_due:
  assumes "intent_snapshot intent (sr_visibility target) = Inr snapshot"
    and "\<not> opt_any (it_last_polled_at intent) (\<lambda>polled. polled > pw_now draws)"
    and "due_reason intent snapshot (pw_now draws) (pn_published_rooms s (sr_room_id target)) = None"
  shows "\<exists>p. pn_published_rooms s (sr_room_id target) = Some p \<and>
    publish_if_due ports draws target intent s = (Inr (NotDue (pr_renew_at p) (pr_lease_expires_at p)), s)"
proof -
  obtain p where p: "pn_published_rooms s (sr_room_id target) = Some p" using assms(3) due_reason_none by blast
  show ?thesis using assms p by (simp add: publish_if_due_def Let_def as_failure_def)
qed

lemma publish_due:
  assumes "intent_snapshot intent (sr_visibility target) = Inr snapshot"
    and "\<not> opt_any (it_last_polled_at intent) (\<lambda>polled. polled > pw_now draws)"
    and "due_reason intent snapshot (pw_now draws) (pn_published_rooms s (sr_room_id target)) = Some reason"
  shows "publish_if_due ports draws target intent s =
    attempt (prepare_status ports draws intent snapshot s) s (\<lambda>(lease, waiting, event).
    attempt (map_sum PubMatrix id (pw_answer draws)) s (\<lambda>event_id.
    attempt (as_failure PubInvalidConfiguration
      (and_then (renewal_delay (pn_policy s) (pw_entropy draws)) (utc_checked_add (pw_now draws)))) s (\<lambda>renew_at.
    (Inr (Published event_id reason lease renew_at),
     s\<lparr>pn_published_rooms := (pn_published_rooms s)(sr_room_id target \<mapsto>
        \<lparr>pr_snapshot = snapshot, pr_renew_at = renew_at, pr_lease_expires_at = sl_expires_at lease,
         pr_last_polled_at = it_last_polled_at intent,
         pr_waiting_until = map_option ww_waiting_until waiting\<rparr>)\<rparr>))))"
  using assms by (cases "pn_published_rooms s (sr_room_id target)") (simp_all add: publish_if_due_def Let_def as_failure_def)

lemma publish_cases:
  assumes "publish_if_due ports draws target intent s = (r, s')"
  obtains (fails) e where "r = Inl e" "s' = s"
  | (idle) p snapshot where "r = Inr (NotDue (pr_renew_at p) (pr_lease_expires_at p))" "s' = s"
      "pn_published_rooms s (sr_room_id target) = Some p"
      "intent_snapshot intent (sr_visibility target) = Inr snapshot"
      "due_reason intent snapshot (pw_now draws) (Some p) = None"
  | (sent) event_id reason lease waiting event renew_at snapshot where
      "r = Inr (Published event_id reason lease renew_at)"
      "intent_snapshot intent (sr_visibility target) = Inr snapshot"
      "due_reason intent snapshot (pw_now draws) (pn_published_rooms s (sr_room_id target)) = Some reason"
      "prepare_status ports draws intent snapshot s = Inr (lease, waiting, event)"
      "pw_answer draws = Inr event_id"
      "and_then (renewal_delay (pn_policy s) (pw_entropy draws)) (utc_checked_add (pw_now draws)) = Inr renew_at"
      "s' = s\<lparr>pn_published_rooms := (pn_published_rooms s)(sr_room_id target \<mapsto>
        \<lparr>pr_snapshot = snapshot, pr_renew_at = renew_at, pr_lease_expires_at = sl_expires_at lease,
         pr_last_polled_at = it_last_polled_at intent,
         pr_waiting_until = map_option ww_waiting_until waiting\<rparr>)\<rparr>"
proof (cases "opt_any (it_last_polled_at intent) (\<lambda>polled. polled > pw_now draws)")
  case True
  then show ?thesis using assms by (intro fails) (auto simp: publish_if_due_def)
next
  case polled: False
  show ?thesis
  proof (cases "intent_snapshot intent (sr_visibility target)")
    case (Inl e)
    then show ?thesis using assms polled by (intro fails) (auto simp: publish_if_due_def Let_def as_failure_def)
  next
    case snapshot: (Inr snapshot)
    show ?thesis
    proof (cases "due_reason intent snapshot (pw_now draws) (pn_published_rooms s (sr_room_id target))")
      case None
      obtain p where p: "pn_published_rooms s (sr_room_id target) = Some p"
          "publish_if_due ports draws target intent s = (Inr (NotDue (pr_renew_at p) (pr_lease_expires_at p)), s)"
        using publish_not_due [OF snapshot polled None] by blast
      show ?thesis using idle [OF _ _ p(1) snapshot] assms p None by simp
    next
      case reason: (Some reason)
      note due = publish_due [OF snapshot polled reason, of ports]
      consider (pre) e where "prepare_status ports draws intent snapshot s = Inl e"
        | (ok) lease waiting event where "prepare_status ports draws intent snapshot s = Inr (lease, waiting, event)"
        by (cases "prepare_status ports draws intent snapshot s") auto
      then show ?thesis
      proof cases
        case pre
        then show ?thesis using assms due by (intro fails) auto
      next
        case ok
        show ?thesis
        proof (cases "pw_answer draws")
          case (Inl f)
          then show ?thesis using assms due ok by (intro fails) auto
        next
          case answer: (Inr event_id)
          show ?thesis
          proof (cases "and_then (renewal_delay (pn_policy s) (pw_entropy draws)) (utc_checked_add (pw_now draws))")
            case (Inl f)
            then show ?thesis using assms due ok answer by (intro fails) (auto simp: as_failure_def)
          next
            case (Inr renew_at)
            then show ?thesis using sent [OF _ snapshot reason ok answer Inr] assms due ok answer by (simp add: as_failure_def)
          qed
        qed
      qed
    qed
  qed
qed

lemma renewal_delay_value:
  assumes "status_lease_policy_new lifetime interval jitter = Inr policy"
    and "duration_ok lifetime" and "duration_ok interval" and "duration_ok jitter" and "0 \<le> entropy"
    and "renewal_delay policy entropy = Inr d"
  shows "duration_value interval - duration_value jitter \<le> duration_value d \<and> 0 < duration_value d \<and>
    duration_value d \<le> duration_value interval + duration_value jitter \<and> duration_value d < duration_value lifetime"
proof -
  have policy: "policy = \<lparr>sq_lifetime = lifetime, sq_renewal_interval = interval, sq_renewal_jitter = jitter\<rparr>"
    "duration_value interval + duration_value jitter \<le> u64_max" "duration_value jitter < duration_value interval"
    "duration_value interval + duration_value jitter < duration_value lifetime"
    using assms(1) by (auto simp: status_lease_policy_new_def Let_def clock_order not_le split: if_splits)
  define w where "w = 2 * duration_value jitter + 1"
  have w: "u64_saturating_add (u64_saturating_mul (duration_value jitter) 2) 1 = w" "0 < w"
    using policy(2,3) assms(3,4) by (auto simp: w_def u64_saturating_add_def u64_saturating_mul_def duration_ok_def)
  have m: "0 \<le> entropy mod w" "entropy mod w \<le> 2 * duration_value jitter"
    using pos_mod_sign [OF w(2), of entropy] pos_mod_bound [OF w(2), of entropy] by (simp_all add: w_def)
  have "duration_new (u64_saturating_add (duration_value interval - duration_value jitter) (entropy mod w)) = Inr d"
    using assms(6) by (simp add: renewal_delay_def policy(1) Let_def w(1))
  then have "duration_value d = duration_value interval - duration_value jitter + entropy mod w"
    using policy(2) m by (auto simp: duration_new_def u64_saturating_add_def split: if_splits)
  then show ?thesis using m policy(3,4) by auto
qed

section \<open>What the receiver decodes\<close>

definition status_to_wire :: "agent_work_status \<Rightarrow> wire_work_status" where
  "status_to_wire st =
     (case st of
        WorkOffline \<Rightarrow> WireOffline
      | WorkIdle \<Rightarrow> WireIdle
      | Working \<Rightarrow> WireWorking
      | WaitingInput \<Rightarrow> WireWaitingInput
      | Blocked \<Rightarrow> WireBlocked
      | WorkCompleted \<Rightarrow> WireCompleted)"

lemma wire_status_of [simp]: "wire_status (status_to_wire st) = st"
  by (cases st) (simp_all add: wire_status_def status_to_wire_def)

text \<open>What the deserialisation of the protocol type yields for the members of an unsigned status.\<close>

definition decoded_status :: "publish_ports \<Rightarrow> unsigned_status \<Rightarrow> wire_status_event" where
  "decoded_status ports u =
     (let i = us_identity u
      in \<lparr>ws_schema_version = lit ''1.0'', ws_event_type = AGENT_STATUS_EVENT_TYPE,
          ws_id = pb_uuid_text ports (us_id u), ws_correlation_id = pb_uuid_text ports (us_correlation_id u),
          ws_created_at = us_created_at u, ws_lease_expires_at = us_lease_expires_at u,
          ws_actor = \<lparr>wa_agent_id = pb_uuid_text ports (bi_agent_id i), wa_display_name = bi_display_name i,
            wa_matrix_user_id = bi_matrix_user_id i, wa_avatar_url = None, wa_agent_extensions = [],
            wa_instance_id = pb_uuid_text ports (bi_agent_instance_id i), wa_provenance = WireAutonomousAgent,
            wa_extensions = []\<rparr>,
          ws_status = status_to_wire (us_status u),
          ws_visibility = (case us_visibility u of Coarse \<Rightarrow> WireCoarse | Detailed \<Rightarrow> WireDetailed),
          ws_task_summary = us_task_summary u, ws_started_at = us_started_at u,
          ws_progress = map_option (\<lambda>p. FiniteFloat (pb_fraction ports p)) (us_progress u),
          ws_liveness = None, ws_last_polled_at = us_last_polled_at u,
          ws_extensions =
            (lit ''listeningUntil'', case us_listening_until u of None \<Rightarrow> JNull | Some t \<Rightarrow> JString t) #
            optional_member ''waitingUntil'' (map_option JString (us_waiting_until u))\<rparr>)"

text \<open>The documented agreement of the functions outside the repository on both sides.\<close>

definition ports_agree :: "publish_ports \<Rightarrow> sync_ports \<Rightarrow> bool" where
  "ports_agree P Q \<longleftrightarrow>
     (\<forall>t v. pb_rfc3339 P t = Some v \<longrightarrow> sp_parse_time Q v = Some t) \<and>
     (\<forall>i. sp_parse_uuid Q (pb_uuid_text P i) = Some i) \<and> sp_uuid_version Q = pb_uuid_version P \<and>
     (\<forall>b. sp_decode_base64 Q (pb_encode_base64 P b) = Some b) \<and>
     (\<forall>m b. pb_sign P m = Some b \<longrightarrow> length b = 64) \<and> sp_canonical Q = pb_canonical P \<and>
     (\<forall>p. basis_points p \<le> 10000 \<longrightarrow> 0 \<le> pb_fraction P p \<and> pb_fraction P p \<le> 1)"

lemma rfc3339_parsed:
  "ports_agree P Q \<Longrightarrow> rfc3339 P t = Inr v \<Longrightarrow> 0 \<le> utc_value t \<Longrightarrow> parse_time Q v = Inr t"
  by (cases t) (auto simp: ports_agree_def rfc3339_def parse_time_def utc_new_def split: option.splits)

lemma lit_inject [simp]: "lit a = lit b \<longleftrightarrow> a = b"
  by (auto simp: lit_def inj_map_eq_map inj_def)

lemma optional_member_keys: "fst ` set (optional_member k v) \<subseteq> {lit k}"
  by (cases v) (simp_all add: optional_member_def)

lemma members_unsigned: "lit ''signature'' \<notin> fst ` set (unsigned_members P u)"
proof -
  have o: "lit ''signature'' \<notin> fst ` set (optional_member k v)" if "k \<noteq> ''signature''" for k v
    using optional_member_keys [of k v] that by auto
  show ?thesis by (simp add: unsigned_members_def Let_def o image_Un)
qed

lemma members_bounded: "length (unsigned_members P u) \<le> 15"
proof -
  have o: "length (optional_member k v) \<le> 1" for k v by (cases v) (simp_all add: optional_member_def)
  have "length (unsigned_members P u) \<le>
      1 + (1 + (1 + (8 + (1 + (1 + (1 + 1))))))"
    unfolding unsigned_members_def Let_def length_append
    by (intro add_mono o) simp_all
  then show ?thesis by simp
qed

lemma prepared:
  assumes "prepare_status P draws intent snapshot s = Inr (lease, waiting, event)"
  obtains w c g where
    "filled_status P draws (pn_identity s) lease (fill_waiting P (it_last_polled_at intent) waiting) = Inr w"
    "pb_canonical P (JObject (unsigned_members P w)) = Some c" "pb_sign P c = Some g"
    "event = \<lparr>sv_event_type = AGENT_STATUS_EVENT_TYPE,
       sv_state_key = pb_uuid_text P (bi_agent_instance_id (pn_identity s)),
       sv_content = JObject (unsigned_members P w @ [(lit ''signature'', JString (pb_encode_base64 P g))])\<rparr>"
  using assms
  by (force simp: prepare_status_def status_state_event_def unsigned_content_def signed_state_event_def
      state_event_new_def result_simps split: option.splits if_splits)

lemma prepared_lease:
  assumes "prepare_status P draws intent snapshot s = Inr (lease, waiting, event)"
  shows "sl_snapshot lease = snapshot \<and> sl_published_at lease = pw_now draws \<and>
    utc_value (sl_expires_at lease) = utc_value (pw_now draws) + duration_value (sq_lifetime (pn_policy s))"
  using assms
  by (auto simp: prepare_status_def status_lease_issue_def result_simps dest!: utc_checked_add_value)

lemma prepared_waiting:
  assumes "prepare_status P draws intent snapshot s = Inr (lease, waiting, event)"
  shows "(waiting \<noteq> None) = it_waiting intent" and
    "waiting = Some ww \<Longrightarrow>
       utc_value (ww_listening_until ww) = i64_saturating_add (utc_value (pw_now draws)) RECEPTION_FRESHNESS_MS \<and>
       utc_value (ww_waiting_until ww) = i64_saturating_add (utc_value (pw_now draws)) WAITING_LEASE_MS"
  using assms
  by (auto simp: prepare_status_def waiting_window_at_def Let_def utc_new_def result_simps split: if_splits sum.splits)

section \<open>The receiver reads what was sent\<close>

text \<open>The fields of the status that was sent, with the texts the receiver parses back.\<close>

lemma filled_fields:
  assumes "filled_status P draws identity lease (fill_waiting P polled waiting) = Inr w"
  shows "us_identity w = identity" "us_id w = pw_event_id draws" "us_correlation_id w = pw_correlation_id draws"
    "pb_uuid_version P (us_id w) = 7" "pb_uuid_version P (us_correlation_id w) = 7"
    "us_status w = ss_status (sl_snapshot lease)" "us_visibility w = ss_visibility (sl_snapshot lease)"
    "rfc3339 P (sl_published_at lease) = Inr (us_created_at w)"
    "rfc3339 P (sl_expires_at lease) = Inr (us_lease_expires_at w)"
    "optional_rfc3339 P (Option.bind (ss_details (sl_snapshot lease)) sd_started_at) = Inr (us_started_at w)"
    "us_task_summary w = Option.bind (ss_details (sl_snapshot lease)) sd_task_summary"
    "us_progress w = Option.bind (ss_details (sl_snapshot lease)) sd_progress"
    "waiting = None \<Longrightarrow> us_listening_until w = None \<and> us_waiting_until w = None"
    "waiting = Some ww \<Longrightarrow> \<exists>x y. us_listening_until w = Some x \<and> rfc3339 P (ww_listening_until ww) = Inr x \<and>
       us_waiting_until w = Some y \<and> rfc3339 P (ww_waiting_until ww) = Inr y"
  using assms
  by (auto simp: filled_status_def fill_waiting_def unsigned_status_new_def Let_def result_simps
      split: if_splits option.splits)

lemma read_signature:
  assumes "ports_agree P Q" and "pb_canonical P (JObject (unsigned_members P w)) = Some c" and "pb_sign P c = Some g"
  shows "canonical_and_signature Q
    (JObject (unsigned_members P w @ [(lit ''signature'', JString (pb_encode_base64 P g))])) = Inr (c, g)"
proof -
  define m where "m = unsigned_members P w"
  have k: "lit ''signature'' \<notin> fst ` set m" using members_unsigned by (simp add: m_def)
  have n: "map_of m (lit ''signature'') = None" using k by (simp only: map_of_eq_None_iff not_False_eq_True)
  have f: "filter (\<lambda>e. fst e \<noteq> lit ''signature'') m = m" using k by (force simp: filter_id_conv)
  show ?thesis
    using assms unfolding m_def [symmetric]
    by (simp add: canonical_and_signature_def json_get_def json_str_def json_without_def n map_add_def f ports_agree_def
        device_signature_new_def)
qed

text \<open>The types of the sender: details as their constructors accept them, times after the epoch.\<close>

definition details_ok :: "status_details \<Rightarrow> bool" where
  "details_ok d \<longleftrightarrow> opt_all (sd_task_summary d) (\<lambda>t. is_ok (task_summary_new t)) \<and>
     opt_all (sd_started_at d) utc_ok \<and> opt_all (sd_progress d) (\<lambda>p. basis_points p \<le> 10000)"

lemma read_valid:
  assumes agree: "ports_agree P Q"
    and filled: "filled_status P draws identity lease (fill_waiting P polled waiting) = Inr w"
    and details: "opt_all (ss_details (sl_snapshot lease)) details_ok"
    and coarse: "ss_visibility (sl_snapshot lease) = Coarse \<Longrightarrow> ss_details (sl_snapshot lease) = None"
  shows "validate_wire_status Q (decoded_status P w) = Inr ()"
proof -
  note f = filled_fields [OF filled]
  have n: "length (ws_extensions (decoded_status P w)) \<le> 2"
    by (cases "us_waiting_until w") (simp_all add: decoded_status_def Let_def optional_member_def)
  show ?thesis
  proof (cases "ss_details (sl_snapshot lease)")
    case None
    then show ?thesis using n f by (simp add: validate_wire_status_def decoded_status_def Let_def optional_rfc3339_def)
  next
    case (Some d)
    have d: "details_ok d" "ss_visibility (sl_snapshot lease) = Detailed"
      using Some details coarse by (simp, cases "ss_visibility (sl_snapshot lease)") auto
    have started: "(case us_started_at w of None \<Rightarrow> Inr () | Some t \<Rightarrow> map_sum id (\<lambda>_. ()) (parse_time Q t)) = Inr ()"
      using f(10) d(1) Some rfc3339_parsed [OF agree]
      by (auto simp: optional_rfc3339_def details_ok_def utc_ok_def split: option.splits)
    have progress: "\<not> opt_any (us_progress w) (\<lambda>p. \<not> float_in_unit (FiniteFloat (pb_fraction P p)))"
      using f(12) d(1) Some agree by (auto simp: opt_any_def details_ok_def float_in_unit_def ports_agree_def split: option.splits)
    have summary: "\<not> opt_any (us_task_summary w) (\<lambda>t. \<not> is_ok (task_summary_new t))"
      using f(11) d(1) Some by (auto simp: opt_any_def details_ok_def split: option.splits)
    show ?thesis
      using n f(7) d(2) started progress summary
      by (cases "us_progress w") (simp_all add: validate_wire_status_def decoded_status_def Let_def)
  qed
qed

text \<open>What the receiver has to know: a maximum that covers the lifetime, a clock not too far behind.\<close>

definition lease_accepted :: "utc_millis \<Rightarrow> duration_millis \<Rightarrow> utc_millis \<Rightarrow> lease_policy \<Rightarrow> bool" where
  "lease_accepted published lifetime observed lp \<longleftrightarrow>
     utc_ok published \<and> utc_ok observed \<and> 0 < duration_value lifetime \<and> 0 < duration_value (lp_allowed_clock_skew lp) \<and>
     duration_value lifetime \<le> duration_value (lp_maximum_lease lp) \<and>
     utc_value published \<le> utc_value observed + duration_value (lp_allowed_clock_skew lp) \<and>
     utc_value observed + duration_value (lp_maximum_lease lp) + duration_value (lp_allowed_clock_skew lp) \<le> i64_max \<and>
     utc_value published + duration_value lifetime + duration_value (lp_allowed_clock_skew lp) \<le> i64_max"

lemma checked_add_ok: "utc_ok t \<Longrightarrow> 0 < duration_value d \<Longrightarrow> utc_value t + duration_value d \<le> i64_max \<Longrightarrow>
    utc_checked_add t d = Inr (UtcMillis (utc_value t + duration_value d))"
  by (auto simp: utc_checked_add_def utc_ok_def i64_try_from_def i64_checked_add_def in_i64_def int_width_defs)

lemma evaluate_accepted:
  assumes "lease_accepted published lifetime observed lp" and "utc_value e = utc_value published + duration_value lifetime"
  shows "evaluate_lease published e observed lp =
    Inr (UtcMillis (min (utc_value e + duration_value (lp_allowed_clock_skew lp))
       (utc_value observed + duration_value (lp_maximum_lease lp) + duration_value (lp_allowed_clock_skew lp))))"
proof -
  note a = assms(1) [unfolded lease_accepted_def utc_ok_def]
  have m: "i64_try_from (duration_value (lp_maximum_lease lp)) = Some (duration_value (lp_maximum_lease lp))"
    using a by (auto simp: i64_try_from_def in_i64_def int_width_defs)
  have l: "i64_saturating_sub (utc_value e) (utc_value published) = duration_value lifetime"
    using a assms(2) by (auto simp: i64_saturating_sub_def int_width_defs)
  have o: "utc_checked_add observed (lp_allowed_clock_skew lp) =
      Inr (UtcMillis (utc_value observed + duration_value (lp_allowed_clock_skew lp)))"
    using a by (intro checked_add_ok) (auto simp: utc_ok_def)
  have d: "utc_checked_add e (lp_allowed_clock_skew lp) =
      Inr (UtcMillis (utc_value e + duration_value (lp_allowed_clock_skew lp)))"
    using a assms(2) by (intro checked_add_ok) (auto simp: utc_ok_def)
  have x: "utc_checked_add observed (lp_maximum_lease lp) =
      Inr (UtcMillis (utc_value observed + duration_value (lp_maximum_lease lp)))"
    using a by (intro checked_add_ok) (auto simp: utc_ok_def)
  have y: "utc_checked_add (UtcMillis (utc_value observed + duration_value (lp_maximum_lease lp))) (lp_allowed_clock_skew lp) =
      Inr (UtcMillis (utc_value observed + duration_value (lp_maximum_lease lp) + duration_value (lp_allowed_clock_skew lp)))"
    using a by (subst checked_add_ok) (auto simp: utc_ok_def)
  show ?thesis
    using a by (simp add: evaluate_lease_def m l o d x y clock_order min_def)
qed

lemma read_body:
  assumes agree: "ports_agree P Q"
    and filled: "filled_status P draws identity lease (fill_waiting P polled waiting) = Inr w"
    and accepted: "lease_accepted (sl_published_at lease) lifetime observed lp"
    and expiry: "utc_value (sl_expires_at lease) = utc_value (sl_published_at lease) + duration_value lifetime"
    and waiting: "opt_all waiting (\<lambda>ww.
       utc_value (ww_listening_until ww) = i64_saturating_add (utc_value (sl_published_at lease)) RECEPTION_FRESHNESS_MS \<and>
       utc_value (ww_waiting_until ww) = i64_saturating_add (utc_value (sl_published_at lease)) WAITING_LEASE_MS)"
  shows "parse_status_body Q (decoded_status P w) observed lp =
    Inr (sl_published_at lease, None, map_option ww_waiting_until waiting, True,
      UtcMillis (min (utc_value (sl_expires_at lease) + duration_value (lp_allowed_clock_skew lp))
       (utc_value observed + duration_value (lp_maximum_lease lp) + duration_value (lp_allowed_clock_skew lp))))"
proof -
  note f = filled_fields [OF filled]
  have now: "0 \<le> utc_value (sl_published_at lease)" "0 < duration_value lifetime"
    using accepted by (simp_all add: lease_accepted_def utc_ok_def)
  have times: "parse_time Q (us_created_at w) = Inr (sl_published_at lease)"
      "parse_time Q (us_lease_expires_at w) = Inr (sl_expires_at lease)"
    using rfc3339_parsed [OF agree f(8)] rfc3339_parsed [OF agree f(9)] now expiry by auto
  note evaluated = evaluate_accepted [OF accepted expiry]
  show ?thesis
  proof (cases waiting)
    case None
    then show ?thesis
      using f(13) by (simp add: parse_status_body_def decoded_status_def Let_def times evaluated optional_member_def
          wait_deadline_def optional_time_def later_deadline_def)
  next
    case (Some ww)
    obtain x y where xy: "us_listening_until w = Some x" "rfc3339 P (ww_listening_until ww) = Inr x"
        "us_waiting_until w = Some y" "rfc3339 P (ww_waiting_until ww) = Inr y"
      using f(14) [OF Some] by blast
    have v: "utc_value (ww_listening_until ww) = i64_saturating_add (utc_value (sl_published_at lease)) RECEPTION_FRESHNESS_MS"
        "utc_value (ww_waiting_until ww) = i64_saturating_add (utc_value (sl_published_at lease)) WAITING_LEASE_MS"
      using waiting Some by simp_all
    have o: "0 \<le> utc_value (ww_listening_until ww)" "utc_value (ww_listening_until ww) \<le> utc_value (ww_waiting_until ww)"
      using now unfolding v by (auto simp: i64_saturating_add_def RECEPTION_FRESHNESS_MS_def WAITING_LEASE_MS_def int_width_defs)
    have p: "parse_time Q x = Inr (ww_listening_until ww)" "parse_time Q y = Inr (ww_waiting_until ww)"
      using rfc3339_parsed [OF agree xy(2)] rfc3339_parsed [OF agree xy(4)] o by auto
    have l: "max (ww_listening_until ww) (ww_waiting_until ww) = ww_waiting_until ww"
      using o by (simp add: max_def clock_order)
    show ?thesis
      using Some xy by (simp add: parse_status_body_def decoded_status_def Let_def times evaluated optional_member_def
          wait_deadline_def optional_time_def later_deadline_def json_str_def p v l)
  qed
qed

section \<open>Properties\<close>

definition publication_new :: "agent_identity \<Rightarrow> status_lease_policy \<Rightarrow> publication_state" where
  "publication_new identity policy = \<lparr>pn_identity = identity, pn_policy = policy, pn_published_rooms = (\<lambda>_. None)\<rparr>"

text \<open>A series of calls, each with its own draws.\<close>

fun publish_all ::
  "publish_ports \<Rightarrow> (publish_draws \<times> status_target \<times> status_intent) list \<Rightarrow> publication_state \<Rightarrow> publication_state" where
  "publish_all ports [] s = s"
| "publish_all ports ((draws, target, intent) # calls) s =
     publish_all ports calls (snd (publish_if_due ports draws target intent s))"

text \<open>
  C38: A failing call leaves the service as it was: the renewal cursor only moves once the server has
  answered, and then only for the room of the call.
\<close>

theorem failed_publication_keeps_cursor:
  "case publish_if_due ports draws target intent s of
     (Inl e, s') \<Rightarrow> s' = s
   | (Inr (NotDue renew_at lease_expires_at), s') \<Rightarrow> s' = s
   | (Inr (Published event_id reason lease renew_at), s') \<Rightarrow>
       pw_answer draws = Inr event_id \<and> pn_identity s' = pn_identity s \<and> pn_policy s' = pn_policy s \<and>
       (\<exists>p. pn_published_rooms s' = (pn_published_rooms s)(sr_room_id target \<mapsto> p) \<and>
          pr_renew_at p = renew_at \<and> pr_lease_expires_at p = sl_expires_at lease \<and>
          pr_snapshot p = sl_snapshot lease \<and> (pr_waiting_until p \<noteq> None) = it_waiting intent)"
proof -
  obtain r s' where r: "publish_if_due ports draws target intent s = (r, s')" by fastforce
  show ?thesis
    using r
  proof (cases rule: publish_cases)
    case (fails e) then show ?thesis using r by simp
  next
    case (idle p snapshot) then show ?thesis using r by simp
  next
    case (sent event_id reason lease waiting event renew_at snapshot)
    then show ?thesis using r prepared_lease [OF sent(4)] prepared_waiting(1) [OF sent(4)] by auto
  qed
qed

text \<open>The renewal falls into the interval with its jitter, before the lease ends, whatever the entropy.\<close>

theorem renewal_before_expiry:
  assumes "status_lease_policy_new lifetime interval jitter = Inr (pn_policy s)"
    and "duration_ok lifetime" and "duration_ok interval" and "duration_ok jitter" and "0 \<le> pw_entropy draws"
    and "fst (publish_if_due ports draws target intent s) = Inr (Published event_id reason lease renew_at)"
  shows "utc_value (pw_now draws) < utc_value renew_at \<and> utc_value renew_at < utc_value (sl_expires_at lease) \<and>
    \<bar>utc_value renew_at - utc_value (pw_now draws) - duration_value interval\<bar> \<le> duration_value jitter \<and>
    utc_value (sl_expires_at lease) = utc_value (pw_now draws) + duration_value lifetime"
proof -
  obtain s' where "publish_if_due ports draws target intent s = (Inr (Published event_id reason lease renew_at), s')"
    using assms(6) by (metis prod.collapse)
  then show ?thesis
  proof (cases rule: publish_cases)
    case (sent i rn le waiting event rt snapshot)
    have e: "le = lease" "rt = renew_at" using sent(1) by simp_all
    obtain d where d: "renewal_delay (pn_policy s) (pw_entropy draws) = Inr d" "utc_checked_add (pw_now draws) d = Inr renew_at"
      using sent(6) e by (auto simp: result_simps)
    have l: "sq_lifetime (pn_policy s) = lifetime"
      using assms(1) by (auto simp: status_lease_policy_new_def Let_def split: if_splits dest!: sym [of _ "pn_policy s"])
    show ?thesis
      using renewal_delay_value [OF assms(1-5) d(1)] utc_checked_add_value [OF d(2)] prepared_lease [OF sent(4)] e l
      by auto
  qed simp_all
qed

text \<open>Every announcement kept is renewed before its lease ends.\<close>

definition renewals_in_time :: "publication_state \<Rightarrow> bool" where
  "renewals_in_time s \<longleftrightarrow> (\<forall>room p. pn_published_rooms s room = Some p \<longrightarrow>
     utc_value (pr_renew_at p) < utc_value (pr_lease_expires_at p))"

lemma published_in_time:
  assumes "status_lease_policy_new lifetime interval jitter = Inr (pn_policy s)"
    and "duration_ok lifetime" and "duration_ok interval" and "duration_ok jitter" and "0 \<le> pw_entropy draws"
    and "renewals_in_time s" and "publish_if_due ports draws target intent s = (r, s')"
  shows "renewals_in_time s' \<and> pn_policy s' = pn_policy s"
  using assms(7)
proof (cases rule: publish_cases)
  case (sent event_id reason lease waiting event renew_at snapshot)
  obtain d where d: "renewal_delay (pn_policy s) (pw_entropy draws) = Inr d" "utc_checked_add (pw_now draws) d = Inr renew_at"
    using sent(6) by (auto simp: result_simps)
  have l: "sq_lifetime (pn_policy s) = lifetime"
    using assms(1) by (auto simp: status_lease_policy_new_def Let_def split: if_splits dest!: sym [of _ "pn_policy s"])
  have "utc_value renew_at < utc_value (sl_expires_at lease)"
    using renewal_delay_value [OF assms(1-5) d(1)] utc_checked_add_value [OF d(2)] prepared_lease [OF sent(4)] l by auto
  then show ?thesis using sent(7) assms(6) by (simp add: renewals_in_time_def)
qed (use assms(6) in simp_all)

lemma all_in_time:
  assumes "status_lease_policy_new lifetime interval jitter = Inr (pn_policy s)"
    and "duration_ok lifetime" and "duration_ok interval" and "duration_ok jitter"
    and "list_all (\<lambda>c. 0 \<le> pw_entropy (fst c)) calls" and "renewals_in_time s"
  shows "renewals_in_time (publish_all ports calls s)"
  using assms
proof (induction calls arbitrary: s)
  case (Cons c calls)
  obtain draws target intent where c: "c = (draws, target, intent)" by (cases c)
  obtain r s' where p: "publish_if_due ports draws target intent s = (r, s')" by fastforce
  have "renewals_in_time s' \<and> pn_policy s' = pn_policy s"
    using published_in_time [OF Cons.prems(1-4) _ Cons.prems(6) p] Cons.prems(5) c by simp
  then show ?case using Cons.IH [of s'] Cons.prems c p by simp
qed simp

text \<open>
  C25: When a call finds nothing due, what the room was told still holds: the same status and visibility, a
  lease that has not ended, whether the agent waits, and a promise to wait that lasts another minute.
\<close>

theorem nothing_due_is_still_true:
  assumes "status_lease_policy_new lifetime interval jitter = Inr policy"
    and "duration_ok lifetime" and "duration_ok interval" and "duration_ok jitter"
    and "list_all (\<lambda>c. 0 \<le> pw_entropy (fst c)) calls"
    and "s = publish_all ports calls (publication_new identity policy)"
    and "fst (publish_if_due ports draws target intent s) = Inr (NotDue renew_at lease_expires_at)"
  shows "pw_now draws < renew_at \<and> renew_at < lease_expires_at \<and>
    (\<exists>p. pn_published_rooms s (sr_room_id target) = Some p \<and>
       ss_status (pr_snapshot p) = host_work_status (it_host_state intent) \<and>
       ss_visibility (pr_snapshot p) = sr_visibility target \<and>
       (case pr_waiting_until p of
          None \<Rightarrow> \<not> it_waiting intent
        | Some until \<Rightarrow> it_waiting intent \<and>
            i64_saturating_add (utc_value (pw_now draws)) WAITING_RENEWAL_MARGIN_MS < utc_value until))"
proof -
  have "renewals_in_time s"
    unfolding assms(6) by (rule all_in_time [OF _ assms(2-5)]) (simp_all add: publication_new_def assms(1) renewals_in_time_def)
  obtain s' where "publish_if_due ports draws target intent s = (Inr (NotDue renew_at lease_expires_at), s')"
    using assms(7) by (metis prod.collapse)
  then show ?thesis
  proof (cases rule: publish_cases)
    case (idle p snapshot)
    have snapshot: "ss_status snapshot = host_work_status (it_host_state intent)" "ss_visibility snapshot = sr_visibility target"
      using idle(4) by (auto simp: intent_snapshot_def status_snapshot_new_def split: if_splits)
    have "ss_status (pr_snapshot p) = ss_status snapshot" "ss_visibility (pr_snapshot p) = ss_visibility snapshot"
        "\<not> renewal_due intent (pw_now draws) p"
      using idle(5) by (simp_all add: due_reason_none)
    moreover have "utc_value (pr_renew_at p) < utc_value (pr_lease_expires_at p)"
      using \<open>renewals_in_time s\<close> idle(3) by (simp add: renewals_in_time_def)
    ultimately show ?thesis
      using idle(1,3) snapshot
      by (cases "pr_waiting_until p") (auto simp: renewal_due_def Let_def clock_order)
  qed simp_all
qed

definition delivered :: "state_event \<Rightarrow> utext \<Rightarrow> utext \<Rightarrow> int \<Rightarrow> timeline_event" where
  "delivered event event_id sender timestamp =
     \<lparr>te_event_id = Some event_id, te_sender = Some sender, te_event_type = sv_event_type event,
      te_state_key = Some (sv_state_key event), te_origin_server_timestamp = Some timestamp,
      te_content = sv_content event\<rparr>"

lemma identity_fields:
  assumes "agent_identity_new a name user i = Inr identity"
  shows "bi_agent_id identity = a" "bi_display_name identity = name"
    "bi_matrix_user_id identity = user" "bi_agent_instance_id identity = i"
  using assms by (auto simp: agent_identity_new_def matrix_user_id_new_def matrix_string_value_def
      split: if_splits sum.splits)

lemma decoded_fields:
  assumes "us_identity w = identity"
  shows "ws_schema_version (decoded_status P w) = lit ''1.0''"
    "ws_event_type (decoded_status P w) = AGENT_STATUS_EVENT_TYPE"
    "wa_agent_id (ws_actor (decoded_status P w)) = pb_uuid_text P (bi_agent_id identity)"
    "wa_instance_id (ws_actor (decoded_status P w)) = pb_uuid_text P (bi_agent_instance_id identity)"
    "ws_id (decoded_status P w) = pb_uuid_text P (us_id w)"
    "ws_correlation_id (decoded_status P w) = pb_uuid_text P (us_correlation_id w)"
    "wa_matrix_user_id (ws_actor (decoded_status P w)) = bi_matrix_user_id identity"
    "wa_provenance (ws_actor (decoded_status P w)) = WireAutonomousAgent"
    "ws_status (decoded_status P w) = status_to_wire (us_status w)"
    "ws_liveness (decoded_status P w) = None"
  using assms by (simp_all add: decoded_status_def Let_def)

lemma delivered_stamp:
  "0 \<le> timestamp \<Longrightarrow> timestamp \<le> i64_max \<Longrightarrow>
     envelope_timestamp (delivered event event_id sender timestamp) = Some (UtcMillis timestamp)"
  by (simp add: envelope_timestamp_def delivered_def i64_try_from_def in_i64_def utc_new_def int_width_defs)

text \<open>
  A status that was sent is read by the receiver as it was meant, when its members are read as what was
  written. \<open>Status_Wire\<close> shows that they are, with the deserialisation of the protocol types.
\<close>

lemma decoded_status_understood:
  assumes agree: "ports_agree P Q"
    and identity: "agent_identity_new a name user i = Inr (pn_identity s)"
    and versions: "pb_uuid_version P a = 7" "pb_uuid_version P i = 7"
    and snapshot: "intent_snapshot intent visibility = Inr snapshot"
    and details: "opt_all (it_details intent) details_ok"
    and sent: "prepare_status P draws intent snapshot s = Inr (lease, waiting, event)"
    and wire: "\<And>w. filled_status P draws (pn_identity s) lease (fill_waiting P (it_last_polled_at intent) waiting) = Inr w \<Longrightarrow>
      sp_wire Q (sv_content event) = Some (decoded_status P w)"
    and accepted: "lease_accepted (pw_now draws) (sq_lifetime (pn_policy s)) observed lp"
    and timestamp: "0 \<le> timestamp" "timestamp \<le> i64_max"
    and registry: "sp_resolve Q i = Inr r" "vr_instance_id r = i" "vr_agent_id r = a" "vr_invalidated_at r = None"
      "utc_value (vr_registered_at r) \<le> timestamp"
    and verifies: "\<And>m b. pb_sign P m = Some b \<Longrightarrow> sp_verify Q (vr_public_signing_key r) m b"
  shows "\<exists>p. parse_status Q room (delivered event event_id user timestamp) observed lp = Inr p \<and>
    authenticate Q p = Inr AuthTrusted \<and>
    pj_identity (pd_presence p) = pn_identity s \<and>
    pj_status (pd_presence p) = host_work_status (it_host_state intent) \<and>
    pj_published_at (pd_presence p) = pw_now draws \<and>
    pj_listening_until (pd_presence p) = map_option ww_waiting_until waiting \<and>
    pj_lease_expires_at (pd_presence p) = UtcMillis (min
      (utc_value (pw_now draws) + duration_value (sq_lifetime (pn_policy s)) + duration_value (lp_allowed_clock_skew lp))
      (utc_value observed + duration_value (lp_maximum_lease lp) + duration_value (lp_allowed_clock_skew lp))) \<and>
    pj_reception_known (pd_presence p) \<and> \<not> pj_card (pd_presence p)"
proof -
  obtain w c g where w:
      "filled_status P draws (pn_identity s) lease (fill_waiting P (it_last_polled_at intent) waiting) = Inr w"
      "pb_canonical P (JObject (unsigned_members P w)) = Some c" "pb_sign P c = Some g"
      "event = \<lparr>sv_event_type = AGENT_STATUS_EVENT_TYPE,
         sv_state_key = pb_uuid_text P (bi_agent_instance_id (pn_identity s)),
         sv_content = JObject (unsigned_members P w @ [(lit ''signature'', JString (pb_encode_base64 P g))])\<rparr>"
    using prepared [OF sent] by blast
  note ident = identity_fields [OF identity]
  have lease: "sl_snapshot lease = snapshot" "sl_published_at lease = pw_now draws"
      "utc_value (sl_expires_at lease) = utc_value (pw_now draws) + duration_value (sq_lifetime (pn_policy s))"
    using prepared_lease [OF sent] by simp_all
  have snap: "ss_status snapshot = host_work_status (it_host_state intent)"
      "opt_all (ss_details snapshot) details_ok" "ss_visibility snapshot = Coarse \<Longrightarrow> ss_details snapshot = None"
    using snapshot details by (auto simp: intent_snapshot_def status_snapshot_new_def split: if_splits status_visibility.splits)
  have window: "opt_all waiting (\<lambda>ww.
       utc_value (ww_listening_until ww) = i64_saturating_add (utc_value (sl_published_at lease)) RECEPTION_FRESHNESS_MS \<and>
       utc_value (ww_waiting_until ww) = i64_saturating_add (utc_value (sl_published_at lease)) WAITING_LEASE_MS)"
    using prepared_waiting(2) [OF sent] lease(2) by (cases waiting) auto
  note f = filled_fields [OF w(1)]
  note decode = wire [OF w(1)]
  have limits: "validate_property_limits (sv_content event) = Inr ()"
    using members_bounded [of P w] by (simp add: w(4) validate_property_limits_def)
  have valid: "validate_wire_status Q (decoded_status P w) = Inr ()"
    using read_valid [OF agree w(1)] snap(2,3) lease(1) by simp
  have v7: "parse_v7 Q (pb_uuid_text P u) = Inr u" if "pb_uuid_version P u = 7" for u
    using agree that by (simp add: parse_v7_def ports_agree_def)
  have actor: "wire_identity a i (ws_actor (decoded_status P w)) = Inr (pn_identity s)"
    using identity f(1) ident by (simp add: wire_identity_def decoded_status_def Let_def)
  note body = read_body [OF agree w(1) accepted [folded lease(2)] lease(3) [folded lease(2)] window]
  note fields = decoded_fields [OF f(1)]
  note stamp = delivered_stamp [OF timestamp, of event event_id user]
  have sig: "canonical_and_signature Q (sv_content event) = Inr (c, g)"
    using read_signature [OF agree w(2,3)] by (simp add: w(4))
  define p where "p = \<lparr>pd_presence =
       \<lparr>pj_event_id = event_id, pj_room_id = room, pj_identity = pn_identity s,
        pj_status = wire_status (ws_status (decoded_status P w)), pj_observed_at = observed,
        pj_lease_expires_at = UtcMillis (min (utc_value (sl_expires_at lease) + duration_value (lp_allowed_clock_skew lp))
           (utc_value observed + duration_value (lp_maximum_lease lp) + duration_value (lp_allowed_clock_skew lp))),
        pj_origin_server_timestamp = timestamp, pj_published_at = pw_now draws, pj_last_polled_at = None,
        pj_listening_until = map_option ww_waiting_until waiting, pj_reception_known = True, pj_card = False\<rparr>,
      pd_origin_server_timestamp = UtcMillis timestamp, pd_canonical_event = c, pd_signature = g\<rparr>"
  have "parse_status Q room (delivered event event_id user timestamp) observed lp = Inr p"
    using stamp sig limits decode valid v7 [OF versions(1)] v7 [OF versions(2)] v7 [OF f(4)] v7 [OF f(5)] actor body
    unfolding parse_status_def
    by (simp add: fields delivered_def w(4) ident lease(2) p_def)
  moreover have "authenticate Q p = Inr AuthTrusted"
    using registry verifies [OF w(3)] ident
    by (simp add: authenticate_def p_def authenticate_internal_def clock_order)
  ultimately show ?thesis
    using f(6) lease snap(1) by (intro exI [of _ p]) (simp add: p_def fields)
qed

section \<open>Witnesses\<close>

definition sample_publish_ports :: publish_ports where
  "sample_publish_ports =
     \<lparr>pb_rfc3339 = (\<lambda>t. if t < 0 then None else Some [nat t]), pb_uuid_text = (\<lambda>u. [unat u]),
      pb_uuid_version = (\<lambda>_. 7), pb_canonical = (\<lambda>_. Some []), pb_sign = (\<lambda>_. Some (replicate 64 0)),
      pb_encode_base64 = map unat, pb_json_length = (\<lambda>_. Some 0),
      pb_fraction = (\<lambda>p. if basis_points p = 0 then 0 else 1)\<rparr>"

definition sample_draws :: "int \<Rightarrow> publish_draws" where
  "sample_draws now = \<lparr>pw_now = UtcMillis now, pw_event_id = 3, pw_correlation_id = 4, pw_entropy = 5,
     pw_answer = Inr (lit ''$e'')\<rparr>"

definition sample_publisher :: agent_identity where
  "sample_publisher = \<lparr>bi_agent_id = 1, bi_display_name = lit ''Ada'', bi_matrix_user_id = lit ''@a:b'',
     bi_agent_instance_id = 2, bi_avatar_url = None\<rparr>"

definition sample_publish_policy :: status_lease_policy where
  "sample_publish_policy = \<lparr>sq_lifetime = DurationMillis 60000, sq_renewal_interval = DurationMillis 20000,
     sq_renewal_jitter = DurationMillis 5000\<rparr>"

definition sample_publication :: publication_state where
  "sample_publication = publication_new sample_publisher sample_publish_policy"

definition sample_target :: status_target where
  "sample_target = \<lparr>sr_room_id = [33], sr_visibility = Coarse\<rparr>"

definition sample_intent :: status_intent where
  "sample_intent = \<lparr>it_host_state = HostRunning, it_details = None, it_last_polled_at = None, it_waiting = True\<rparr>"

definition sample_snapshot :: status_snapshot where
  "sample_snapshot = \<lparr>ss_status = Working, ss_visibility = Coarse, ss_details = None\<rparr>"

definition sample_lease :: status_lease where
  "sample_lease = \<lparr>sl_agent_instance_id = 2, sl_snapshot = sample_snapshot, sl_published_at = UtcMillis 100000,
     sl_expires_at = UtcMillis 160000\<rparr>"

definition sample_window :: waiting_window where
  "sample_window = \<lparr>ww_listening_until = UtcMillis 115000, ww_waiting_until = UtcMillis 280000\<rparr>"

definition sample_receiver :: sync_ports where
  "sample_receiver =
     \<lparr>sp_decode_base64 = (\<lambda>v. Some (map of_nat v)), sp_canonical = (\<lambda>_. Some []),
      sp_wire = (\<lambda>_. None),
      sp_parse_uuid = (\<lambda>v. Some (of_nat (hd v))), sp_uuid_version = (\<lambda>_. 7),
      sp_parse_time = (\<lambda>v. case v of [n] \<Rightarrow> Some (int n) | _ \<Rightarrow> None),
      sp_resolve = (\<lambda>_. Inr \<lparr>vr_instance_id = 2, vr_agent_id = 1, vr_public_signing_key = [],
         vr_registered_at = UtcMillis 0, vr_invalidated_at = None\<rparr>),
      sp_verify = (\<lambda>_ _ _. True)\<rparr>"

lemma sample_agree: "ports_agree sample_publish_ports sample_receiver"
  by (auto simp: ports_agree_def sample_publish_ports_def sample_receiver_def map_idI split: if_splits)

lemma sample_policy: "status_lease_policy_new (DurationMillis 60000) (DurationMillis 20000) (DurationMillis 5000) =
    Inr sample_publish_policy"
  by (simp add: status_lease_policy_new_def sample_publish_policy_def clock_order int_width_defs)

lemma sample_durations: "duration_ok (DurationMillis 60000)" "duration_ok (DurationMillis 20000)"
    "duration_ok (DurationMillis 5000)"
  by (simp_all add: duration_ok_def int_width_defs)

lemma sample_intent_snapshot: "intent_snapshot sample_intent Coarse = Inr sample_snapshot"
  by (simp add: intent_snapshot_def sample_intent_def status_snapshot_new_def sample_snapshot_def host_work_status_def)

lemma sample_prepared: "\<exists>event. prepare_status sample_publish_ports (sample_draws 100000) sample_intent sample_snapshot
    sample_publication = Inr (sample_lease, Some sample_window, event)"
  by (simp add: prepare_status_def status_lease_issue_def utc_checked_add_def i64_try_from_def in_i64_def
      i64_checked_add_def int_width_defs sample_draws_def sample_publication_def publication_new_def
      sample_publish_policy_def sample_publisher_def sample_intent_def waiting_window_at_def utc_new_def
      i64_saturating_add_def RECEPTION_FRESHNESS_MS_def WAITING_LEASE_MS_def sample_lease_def sample_window_def
      status_state_event_def unsigned_content_def filled_status_def unsigned_status_new_def fill_waiting_def
      sample_publish_ports_def rfc3339_def optional_rfc3339_def sample_snapshot_def signed_state_event_def
      state_event_new_def MAX_EVENT_PAYLOAD_BYTES_def as_failure_def Let_def)

lemma sample_renewal: "and_then (renewal_delay (pn_policy sample_publication) (pw_entropy (sample_draws now)))
    (utc_checked_add (UtcMillis 100000)) = Inr (UtcMillis 115005)"
  by (simp add: renewal_delay_def sample_publication_def publication_new_def sample_publish_policy_def sample_draws_def
      u64_saturating_add_def u64_saturating_mul_def duration_new_def utc_checked_add_def i64_try_from_def in_i64_def
      i64_checked_add_def int_width_defs)

lemma sample_published: "publish_if_due sample_publish_ports (sample_draws 100000) sample_target sample_intent sample_publication =
    (Inr (Published (lit ''$e'') PubInitial sample_lease (UtcMillis 115005)),
     sample_publication\<lparr>pn_published_rooms := [[33] \<mapsto>
        \<lparr>pr_snapshot = sample_snapshot, pr_renew_at = UtcMillis 115005, pr_lease_expires_at = UtcMillis 160000,
         pr_last_polled_at = None, pr_waiting_until = Some (UtcMillis 280000)\<rparr>]\<rparr>)"
proof -
  obtain event where e: "prepare_status sample_publish_ports (sample_draws 100000) sample_intent sample_snapshot
      sample_publication = Inr (sample_lease, Some sample_window, event)" using sample_prepared by blast
  have snapshot: "intent_snapshot sample_intent (sr_visibility sample_target) = Inr sample_snapshot"
    using sample_intent_snapshot by (simp add: sample_target_def)
  have fresh: "due_reason sample_intent sample_snapshot (pw_now (sample_draws 100000))
      (pn_published_rooms sample_publication (sr_room_id sample_target)) = Some PubInitial"
    by (simp add: due_reason_def sample_publication_def publication_new_def)
  have polled: "\<not> opt_any (it_last_polled_at sample_intent) (\<lambda>polled. polled > pw_now (sample_draws 100000))"
    by (simp add: sample_intent_def)
  have now: "pw_now (sample_draws 100000) = UtcMillis 100000" "pw_answer (sample_draws 100000) = Inr (lit ''$e'')"
    by (simp_all add: sample_draws_def)
  show ?thesis
    unfolding publish_due [OF snapshot polled fresh] e now sample_renewal
    by (simp add: as_failure_def sample_lease_def sample_window_def sample_target_def sample_intent_def
        sample_publication_def publication_new_def)
qed

theorem renewal_before_expiry_witness:
  "utc_value (UtcMillis 100000) < utc_value (UtcMillis 115005) \<and>
   utc_value (UtcMillis 115005) < utc_value (sl_expires_at sample_lease)"
proof -
  have "status_lease_policy_new (DurationMillis 60000) (DurationMillis 20000) (DurationMillis 5000) =
      Inr (pn_policy sample_publication)" using sample_policy by (simp add: sample_publication_def publication_new_def)
  moreover have "0 \<le> pw_entropy (sample_draws 100000)" by (simp add: sample_draws_def)
  moreover have "fst (publish_if_due sample_publish_ports (sample_draws 100000) sample_target sample_intent sample_publication) =
      Inr (Published (lit ''$e'') PubInitial sample_lease (UtcMillis 115005))"
    by (simp add: sample_published)
  ultimately show ?thesis
    using renewal_before_expiry [OF _ sample_durations] by (fastforce simp: sample_draws_def)
qed

lemma sample_quiet: "fst (publish_if_due sample_publish_ports (sample_draws 101000) sample_target sample_intent
     (publish_all sample_publish_ports [(sample_draws 100000, sample_target, sample_intent)] sample_publication)) =
   Inr (NotDue (UtcMillis 115005) (UtcMillis 160000))"
proof -
  have snapshot: "intent_snapshot sample_intent (sr_visibility sample_target) = Inr sample_snapshot"
    using sample_intent_snapshot by (simp add: sample_target_def)
  have polled: "\<not> opt_any (it_last_polled_at sample_intent) (\<lambda>polled. polled > pw_now (sample_draws 101000))"
    by (simp add: sample_intent_def)
  define s where "s = publish_all sample_publish_ports [(sample_draws 100000, sample_target, sample_intent)] sample_publication"
  have s: "pn_published_rooms s [33] = Some \<lparr>pr_snapshot = sample_snapshot, pr_renew_at = UtcMillis 115005,
      pr_lease_expires_at = UtcMillis 160000, pr_last_polled_at = None, pr_waiting_until = Some (UtcMillis 280000)\<rparr>"
    by (simp add: s_def sample_published)
  have quiet: "due_reason sample_intent sample_snapshot (pw_now (sample_draws 101000))
      (pn_published_rooms s (sr_room_id sample_target)) = None"
    by (simp add: due_reason_def sample_target_def s renewal_due_def sample_intent_def sample_draws_def Let_def clock_order
        i64_saturating_add_def WAITING_RENEWAL_MARGIN_MS_def int_width_defs)
  show ?thesis
    unfolding s_def [symmetric]
    using publish_not_due [OF snapshot polled quiet, of sample_publish_ports] s
    by (auto simp: sample_target_def)
qed

theorem nothing_due_is_still_true_witness:
  "UtcMillis 101000 < UtcMillis 115005 \<and> UtcMillis 115005 < UtcMillis 160000"
proof -
  have "list_all (\<lambda>c. 0 \<le> pw_entropy (fst c)) [(sample_draws 100000, sample_target, sample_intent)]"
    by (simp add: sample_draws_def)
  from nothing_due_is_still_true [OF sample_policy sample_durations this refl
      sample_quiet [unfolded sample_publication_def]]
  show ?thesis by (simp add: sample_draws_def)
qed

end
