(* ===== verification/Message_Wire.thy ===== *)
theory Message_Wire
  imports Message_Rows
begin

text \<open>
  Message events and how their JSON is read (the deserialisation that \<^verbatim>\<open>bridge-core/src/messages/incoming.rs\<close>
  and the types of \<^verbatim>\<open>protocol-conformance/src/generated.rs\<close> derive). Reading fails with \<open>None\<close>,
  for which the reader isolates the event.
\<close>

section \<open>Events\<close>

record message_event = timeline_event +
  me_transaction_id :: "utext option"
  me_encrypted :: bool
  me_sender_trusted :: bool

definition PREVIEW_EVENT_TYPE :: utext where
  "PREVIEW_EVENT_TYPE = lit ''io.github.rainyflash.agentroom.message.preview.v1''"
definition REVISION_EVENT_TYPE :: utext where
  "REVISION_EVENT_TYPE = lit ''io.github.rainyflash.agentroom.message.revision.v1''"
definition PREVIEW_EVENT_TYPE_V2 :: utext where
  "PREVIEW_EVENT_TYPE_V2 = lit ''io.github.rainyflash.agentroom.message.preview.v2''"
definition REVISION_EVENT_TYPE_V2 :: utext where
  "REVISION_EVENT_TYPE_V2 = lit ''io.github.rainyflash.agentroom.message.revision.v2''"
definition UNDECRYPTED_EVENT_TYPE :: utext where "UNDECRYPTED_EVENT_TYPE = lit ''m.room.encrypted''"
definition MAX_SESSION_FIELD_BYTES :: nat where "MAX_SESSION_FIELD_BYTES = 255"

definition is_undecryptable :: "message_event \<Rightarrow> bool" where
  "is_undecryptable e \<longleftrightarrow> te_event_type e = UNDECRYPTED_EVENT_TYPE"

definition is_message_event :: "message_event \<Rightarrow> bool" where
  "is_message_event e \<longleftrightarrow>
     te_event_type e \<in> {PREVIEW_EVENT_TYPE, REVISION_EVENT_TYPE, PREVIEW_EVENT_TYPE_V2, REVISION_EVENT_TYPE_V2}"

section \<open>Reading the JSON\<close>

text \<open>
  Members of derived deserialisations: a missing member and null are no value for an option, a variant
  without fields is its name or an object from its name to null, and a struct whose extensions are not
  flattened is read from an array of its fields as well.
\<close>

definition member_str :: "string \<Rightarrow> json \<Rightarrow> utext option" where
  "member_str k v = Option.bind (json_get k v) json_str"

definition member_option :: "(json \<Rightarrow> 'a option) \<Rightarrow> json option \<Rightarrow> 'a option option" where
  "member_option read j = (case j of None \<Rightarrow> Some None | Some JNull \<Rightarrow> Some None | Some x \<Rightarrow> map_option Some (read x))"

definition json_bool :: "json \<Rightarrow> bool option" where
  "json_bool v = (case v of JBool b \<Rightarrow> Some b | _ \<Rightarrow> None)"

definition json_texts :: "json \<Rightarrow> utext list option" where
  "json_texts v =
     (case v of JArray xs \<Rightarrow> if list_all (\<lambda>x. json_str x \<noteq> None) xs then Some (map (\<lambda>x. the (json_str x)) xs) else None
      | _ \<Rightarrow> None)"

definition variant_name :: "json \<Rightarrow> utext option" where
  "variant_name v = (case v of JString s \<Rightarrow> Some s | JObject [(k, JNull)] \<Rightarrow> Some k | _ \<Rightarrow> None)"

definition struct_member :: "string \<Rightarrow> nat \<Rightarrow> json \<Rightarrow> json option" where
  "struct_member k i v =
     (case v of JObject _ \<Rightarrow> json_get k v | JArray xs \<Rightarrow> if i < length xs then Some (xs ! i) else None | _ \<Rightarrow> None)"

definition struct_shape :: "nat \<Rightarrow> json \<Rightarrow> bool" where
  "struct_shape n v \<longleftrightarrow> (case v of JObject _ \<Rightarrow> True | JArray xs \<Rightarrow> length xs = n | _ \<Rightarrow> False)"

definition is_object :: "json \<Rightarrow> bool" where
  "is_object v \<longleftrightarrow> (case v of JObject _ \<Rightarrow> True | _ \<Rightarrow> False)"

definition other_members :: "string list \<Rightarrow> json \<Rightarrow> (utext \<times> json) list" where
  "other_members ks v = (case v of JObject ms \<Rightarrow> filter (\<lambda>m. fst m \<notin> lit ` set ks) ms | _ \<Rightarrow> [])"

record wire_agent =
  ag_agent_id :: utext
  ag_display_name :: utext
  ag_matrix_user_id :: utext
  ag_avatar_url :: "utext option"
  ag_extensions :: "(utext \<times> json) list"

definition read_agent :: "json \<Rightarrow> wire_agent option" where
  "read_agent v =
     (if \<not> is_object v then None
      else
        Option.bind (member_str ''agentId'' v) (\<lambda>agent.
        Option.bind (member_option json_str (json_get ''avatarUrl'' v)) (\<lambda>url.
        Option.bind (member_str ''displayName'' v) (\<lambda>name.
        Option.bind (member_str ''matrixUserId'' v) (\<lambda>user.
        Some \<lparr>ag_agent_id = agent, ag_display_name = name, ag_matrix_user_id = user, ag_avatar_url = url,
              ag_extensions = other_members [''agentId'', ''avatarUrl'', ''displayName'', ''matrixUserId''] v\<rparr>)))))"

definition wire_provenance_of :: "utext \<Rightarrow> wire_provenance option" where
  "wire_provenance_of s =
     (if s = lit ''human'' then Some WireHuman
      else if s = lit ''human_confirmed_agent'' then Some WireHumanConfirmedAgent
      else if s = lit ''autonomous_agent'' then Some WireAutonomousAgent else None)"

definition read_agent_members :: "string list \<Rightarrow> json \<Rightarrow> wire_provenance \<Rightarrow> wire_actor option" where
  "read_agent_members others v provenance =
     Option.bind (Option.bind (json_get ''agent'' v) read_agent) (\<lambda>a.
     Option.bind (member_str ''instanceId'' v) (\<lambda>inst.
     Some \<lparr>wa_agent_id = ag_agent_id a, wa_display_name = ag_display_name a, wa_matrix_user_id = ag_matrix_user_id a,
           wa_avatar_url = ag_avatar_url a, wa_agent_extensions = ag_extensions a, wa_instance_id = inst,
           wa_provenance = provenance, wa_extensions = other_members others v\<rparr>))"

definition read_actor_ref :: "json \<Rightarrow> wire_actor option" where
  "read_actor_ref v =
     (if \<not> is_object v then None
      else
        Option.bind (Option.bind (Option.bind (json_get ''provenance'' v) variant_name) wire_provenance_of)
          (read_agent_members [''agent'', ''instanceId'', ''provenance''] v))"

record wire_human =
  wh_display_name :: utext
  wh_kind :: utext
  wh_matrix_user_id :: utext
  wh_principal_id :: utext
  wh_avatar_url :: "utext option"

definition read_human :: "json \<Rightarrow> wire_human option" where
  "read_human v =
     (if \<not> is_object v then None
      else
        Option.bind (member_option json_str (json_get ''avatarUrl'' v)) (\<lambda>url.
        Option.bind (member_str ''displayName'' v) (\<lambda>name.
        Option.bind (member_str ''kind'' v) (\<lambda>kind.
        Option.bind (member_str ''matrixUserId'' v) (\<lambda>user.
        Option.bind (member_str ''principalId'' v) (\<lambda>p.
        Some \<lparr>wh_display_name = name, wh_kind = kind, wh_matrix_user_id = user, wh_principal_id = p,
              wh_avatar_url = url\<rparr>))))))"

text \<open>An untagged enumeration: the first variant that can be read.\<close>

datatype wire_any_actor = AnyHuman wire_human | AnyAgent utext wire_actor

definition read_agent_actor :: "json \<Rightarrow> wire_any_actor option" where
  "read_agent_actor v =
     (if \<not> is_object v then None
      else
        Option.bind (Option.bind (Option.bind (json_get ''provenance'' v) variant_name) wire_provenance_of) (\<lambda>provenance.
        if provenance = WireHuman then None
        else
          Option.bind (member_str ''kind'' v) (\<lambda>kind.
          Option.bind (read_agent_members [''agent'', ''instanceId'', ''kind'', ''provenance''] v provenance) (\<lambda>a.
          Some (AnyAgent kind a)))))"

definition read_any_actor :: "json \<Rightarrow> wire_any_actor option" where
  "read_any_actor v = (case read_human v of Some h \<Rightarrow> Some (AnyHuman h) | None \<Rightarrow> read_agent_actor v)"

record wire_conversation =
  wc_attachment_name :: "utext option"
  wc_mentions :: "utext list"
  wc_text :: utext

definition read_conversation :: "json \<Rightarrow> wire_conversation option" where
  "read_conversation v =
     (if \<not> struct_shape 3 v then None
      else
        Option.bind (member_option json_str (struct_member ''attachmentName'' 0 v)) (\<lambda>name.
        Option.bind (Option.bind (struct_member ''mentions'' 1 v) json_texts) (\<lambda>mentions.
        Option.bind (Option.bind (struct_member ''text'' 2 v) json_str) (\<lambda>body.
        Some \<lparr>wc_attachment_name = name, wc_mentions = mentions, wc_text = body\<rparr>))))"

record wire_preview =
  wv_content_type :: utext
  wv_conversation :: "wire_conversation option"
  wv_language :: "utext option"
  wv_mentions_everyone :: "bool option"
  wv_risk_flags :: "utext list"
  wv_sensitivity :: message_sensitivity
  wv_summary :: utext
  wv_title :: utext

definition wire_sensitivity_of :: "utext \<Rightarrow> message_sensitivity option" where
  "wire_sensitivity_of s =
     (if s = lit ''normal'' then Some Normal
      else if s = lit ''sensitive'' then Some Sensitive
      else if s = lit ''restricted'' then Some Restricted else None)"

definition read_preview :: "json \<Rightarrow> wire_preview option" where
  "read_preview v =
     (if \<not> is_object v then None
      else
        Option.bind (member_str ''contentType'' v) (\<lambda>content_type.
        Option.bind (member_option read_conversation (json_get ''conversation'' v)) (\<lambda>conversation.
        Option.bind (member_option json_str (json_get ''language'' v)) (\<lambda>language.
        Option.bind (member_option json_bool (json_get ''mentionsEveryone'' v)) (\<lambda>everyone.
        Option.bind (Option.bind (json_get ''riskFlags'' v) json_texts) (\<lambda>flags.
        Option.bind (Option.bind (Option.bind (json_get ''sensitivity'' v) variant_name) wire_sensitivity_of) (\<lambda>sensitivity.
        Option.bind (member_str ''summary'' v) (\<lambda>summary.
        Option.bind (member_str ''title'' v) (\<lambda>title.
        Some \<lparr>wv_content_type = content_type, wv_conversation = conversation, wv_language = language,
              wv_mentions_everyone = everyone, wv_risk_flags = flags, wv_sensitivity = sensitivity,
              wv_summary = summary, wv_title = title\<rparr>)))))))))"

record wire_encryption =
  we_algorithm :: utext
  we_context_id :: utext
  we_key_base64_url :: utext
  we_nonce_base64_url :: utext
  we_plaintext_size_bytes :: int

definition read_encryption :: "json \<Rightarrow> wire_encryption option" where
  "read_encryption v =
     (if \<not> struct_shape 5 v then None
      else
        Option.bind (Option.bind (struct_member ''algorithm'' 0 v) json_str) (\<lambda>algorithm.
        Option.bind (Option.bind (struct_member ''contextId'' 1 v) json_str) (\<lambda>context.
        Option.bind (Option.bind (struct_member ''keyBase64Url'' 2 v) json_str) (\<lambda>key.
        Option.bind (Option.bind (struct_member ''nonceBase64Url'' 3 v) json_str) (\<lambda>nonce.
        Option.bind (Option.bind (struct_member ''plaintextSizeBytes'' 4 v) json_u64) (\<lambda>n_bytes.
        Some \<lparr>we_algorithm = algorithm, we_context_id = context, we_key_base64_url = key, we_nonce_base64_url = nonce,
              we_plaintext_size_bytes = n_bytes\<rparr>))))))"

record wire_content =
  wt_content_id :: utext
  wt_digest_sha256 :: utext
  wt_encryption :: "wire_encryption option"
  wt_fetch_mode :: utext
  wt_media_type :: utext
  wt_size_bytes :: int

definition read_content :: "json \<Rightarrow> wire_content option" where
  "read_content v =
     (if \<not> is_object v then None
      else
        Option.bind (member_str ''contentId'' v) (\<lambda>cid.
        Option.bind (member_str ''digestSha256'' v) (\<lambda>digest.
        Option.bind (member_option read_encryption (json_get ''encryption'' v)) (\<lambda>encryption.
        Option.bind (member_str ''fetchMode'' v) (\<lambda>mode.
        Option.bind (member_str ''mediaType'' v) (\<lambda>media.
        Option.bind (Option.bind (json_get ''sizeBytes'' v) json_u64) (\<lambda>n_bytes.
        Some \<lparr>wt_content_id = cid, wt_digest_sha256 = digest, wt_encryption = encryption, wt_fetch_mode = mode,
              wt_media_type = media, wt_size_bytes = n_bytes\<rparr>)))))))"

record wire_relation =
  wl_kind :: utext
  wl_target_message_id :: utext

definition read_relation :: "json \<Rightarrow> wire_relation option" where
  "read_relation v =
     (if \<not> is_object v then None
      else
        Option.bind (member_str ''kind'' v) (\<lambda>kind.
        Option.bind (member_str ''targetMessageId'' v) (\<lambda>target.
        Some \<lparr>wl_kind = kind, wl_target_message_id = target\<rparr>)))"

record incoming_envelope =
  io_schema_version :: utext
  io_event_type :: utext
  io_id :: utext
  io_created_at :: utext
  io_actor :: json
  io_correlation_id :: utext
  io_room_id :: utext

definition read_envelope :: "json \<Rightarrow> incoming_envelope option" where
  "read_envelope v =
     Option.bind (member_str ''schemaVersion'' v) (\<lambda>schema.
     Option.bind (member_str ''eventType'' v) (\<lambda>event_type.
     Option.bind (member_str ''id'' v) (\<lambda>k.
     Option.bind (member_str ''createdAt'' v) (\<lambda>created.
     Option.bind (json_get ''actor'' v) (\<lambda>actor.
     Option.bind (member_str ''correlationId'' v) (\<lambda>correlation.
     Option.bind (member_str ''roomId'' v) (\<lambda>room.
     Some \<lparr>io_schema_version = schema, io_event_type = event_type, io_id = k, io_created_at = created, io_actor = actor,
           io_correlation_id = correlation, io_room_id = room\<rparr>)))))))"

record incoming_preview =
  ip_envelope :: incoming_envelope
  ip_preview :: wire_preview
  ip_content :: wire_content
  ip_relation :: "wire_relation option"

definition read_incoming_preview :: "json \<Rightarrow> incoming_preview option" where
  "read_incoming_preview v =
     Option.bind (read_envelope v) (\<lambda>envelope.
     Option.bind (Option.bind (json_get ''preview'' v) read_preview) (\<lambda>preview.
     Option.bind (Option.bind (json_get ''content'' v) read_content) (\<lambda>content.
     Option.bind (member_option read_relation (json_get ''relation'' v)) (\<lambda>relation.
     Some \<lparr>ip_envelope = envelope, ip_preview = preview, ip_content = content, ip_relation = relation\<rparr>))))"

record incoming_revision =
  iv_envelope :: incoming_envelope
  iv_target_message_id :: utext
  iv_kind :: revision_kind
  iv_preview :: "wire_preview option"
  iv_content :: "wire_content option"

definition wire_revision_of :: "utext \<Rightarrow> revision_kind option" where
  "wire_revision_of s =
     (if s = lit ''replace'' then Some Replace
      else if s = lit ''redact'' then Some RedactRevision
      else if s = lit ''moderate'' then Some Moderate else None)"

definition read_incoming_revision :: "json \<Rightarrow> incoming_revision option" where
  "read_incoming_revision v =
     Option.bind (read_envelope v) (\<lambda>envelope.
     Option.bind (member_str ''targetMessageId'' v) (\<lambda>target.
     Option.bind (Option.bind (Option.bind (json_get ''kind'' v) variant_name) wire_revision_of) (\<lambda>kind.
     Option.bind (member_option read_preview (json_get ''preview'' v)) (\<lambda>preview.
     Option.bind (member_option read_content (json_get ''content'' v)) (\<lambda>content.
     Some \<lparr>iv_envelope = envelope, iv_target_message_id = target, iv_kind = kind, iv_preview = preview,
           iv_content = content\<rparr>)))))"

end
