(* ===== verification/Status_Wire.thy ===== *)
theory Status_Wire
  imports Status_Publication Message_Wire
begin

text \<open>
  The wire format of a status from both ends: the members that \<^verbatim>\<open>bridge-core/src/status.rs\<close> writes
  (\<open>unsigned_members\<close>) are read by the deserialisation that \<^verbatim>\<open>AgentStatusEvent\<close> of
  \<^verbatim>\<open>protocol-conformance/src/generated.rs\<close> derives (\<open>read_status_event\<close>), so that a receiver
  understands a status as its sender meant it.
\<close>

section \<open>Reading a status\<close>

text \<open>An integer is read as a number of double precision: the nearest one, ties to even.\<close>

fun double_spacing :: "nat \<Rightarrow> int \<Rightarrow> int" where
  "double_spacing 0 n = 1"
| "double_spacing (Suc k) n = (if n < 2 ^ 53 then 1 else 2 * double_spacing k (n div 2))"

definition double_of_int :: "int \<Rightarrow> int" where
  "double_of_int n =
     (let s = double_spacing 64 \<bar>n\<bar>;
          q = \<bar>n\<bar> div s;
          r = \<bar>n\<bar> mod s;
          up = (2 * r > s \<or> 2 * r = s \<and> odd q)
      in sgn n * s * (if up then q + 1 else q))"

definition read_double :: "json \<Rightarrow> wire_float option" where
  "read_double v =
     (case v of
        JFloat r \<Rightarrow> Some (FiniteFloat r)
      | JInteger n \<Rightarrow> Some (FiniteFloat (of_int (double_of_int n)))
      | _ \<Rightarrow> None)"

definition wire_work_status_of :: "utext \<Rightarrow> wire_work_status option" where
  "wire_work_status_of s =
     (if s = lit ''offline'' then Some WireOffline
      else if s = lit ''idle'' then Some WireIdle
      else if s = lit ''working'' then Some WireWorking
      else if s = lit ''waiting_input'' then Some WireWaitingInput
      else if s = lit ''blocked'' then Some WireBlocked
      else if s = lit ''completed'' then Some WireCompleted else None)"

definition wire_visibility_of :: "utext \<Rightarrow> wire_visibility option" where
  "wire_visibility_of s =
     (if s = lit ''coarse'' then Some WireCoarse
      else if s = lit ''detailed'' then Some WireDetailed else None)"

definition wire_liveness_of :: "utext \<Rightarrow> wire_liveness option" where
  "wire_liveness_of s = (if s = lit ''presence'' then Some WirePresence else None)"

definition STATUS_MEMBERS :: "string list" where
  "STATUS_MEMBERS =
     [''actor'', ''correlationId'', ''createdAt'', ''eventType'', ''id'', ''lastPolledAt'', ''leaseExpiresAt'',
      ''liveness'', ''progress'', ''schemaVersion'', ''signature'', ''startedAt'', ''status'', ''taskSummary'',
      ''visibility'']"

definition read_status_event :: "json \<Rightarrow> wire_status_event option" where
  "read_status_event v =
     (if \<not> is_object v then None
      else
        Option.bind (Option.bind (json_get ''actor'' v) read_actor_ref) (\<lambda>actor.
        Option.bind (member_str ''correlationId'' v) (\<lambda>correlation.
        Option.bind (member_str ''createdAt'' v) (\<lambda>created.
        Option.bind (member_str ''eventType'' v) (\<lambda>event_type.
        Option.bind (member_str ''id'' v) (\<lambda>k.
        Option.bind (member_option json_str (json_get ''lastPolledAt'' v)) (\<lambda>polled.
        Option.bind (member_str ''leaseExpiresAt'' v) (\<lambda>lease_end.
        Option.bind (member_option (\<lambda>j. Option.bind (variant_name j) wire_liveness_of) (json_get ''liveness'' v)) (\<lambda>liveness.
        Option.bind (member_option read_double (json_get ''progress'' v)) (\<lambda>progress.
        Option.bind (member_str ''schemaVersion'' v) (\<lambda>schema.
        Option.bind (member_str ''signature'' v) (\<lambda>_.
        Option.bind (member_option json_str (json_get ''startedAt'' v)) (\<lambda>started.
        Option.bind (Option.bind (Option.bind (json_get ''status'' v) variant_name) wire_work_status_of) (\<lambda>status.
        Option.bind (member_option json_str (json_get ''taskSummary'' v)) (\<lambda>summary.
        Option.bind (Option.bind (Option.bind (json_get ''visibility'' v) variant_name) wire_visibility_of) (\<lambda>visibility.
        Some \<lparr>ws_schema_version = schema, ws_event_type = event_type, ws_id = k, ws_correlation_id = correlation,
              ws_created_at = created, ws_lease_expires_at = lease_end, ws_actor = actor, ws_status = status,
              ws_visibility = visibility, ws_task_summary = summary, ws_started_at = started, ws_progress = progress,
              ws_liveness = liveness, ws_last_polled_at = polled,
              ws_extensions = other_members STATUS_MEMBERS v\<rparr>))))))))))))))))"

section \<open>The members of a status\<close>

lemma optional_member_lookup [simp]: "map_of (optional_member k v) (lit x) = (if x = k then v else None)"
  by (cases v) (simp_all add: optional_member_def)

lemma optional_member_others [simp]:
  "filter (\<lambda>m. fst m \<notin> lit ` set ks) (optional_member k v) = (if k \<in> set ks then [] else optional_member k v)"
  by (cases v) (auto simp: optional_member_def)

lemma optional_option [simp]:
  "member_option json_str (map_option JString x) = Some x"
  "member_option read_double (map_option (\<lambda>p. JFloat (g p)) y) = Some (map_option (\<lambda>p. FiniteFloat (g p)) y)"
  "member_option f None = Some None"
  by (cases x; cases y; simp add: member_option_def json_str_def read_double_def)+

text \<open>The object as it is sent: the members of the status and the signature.\<close>

definition sent_object :: "publish_ports \<Rightarrow> unsigned_status \<Rightarrow> utext \<Rightarrow> json" where
  "sent_object P u signature = JObject (unsigned_members P u @ [(lit ''signature'', JString signature)])"

lemma sent_members:
  "json_get ''lastPolledAt'' (sent_object P u g) = map_option JString (us_last_polled_at u)"
  "member_str ''schemaVersion'' (sent_object P u g) = Some (lit ''1.0'')"
  "member_str ''eventType'' (sent_object P u g) = Some AGENT_STATUS_EVENT_TYPE"
  "member_str ''id'' (sent_object P u g) = Some (pb_uuid_text P (us_id u))"
  "member_str ''createdAt'' (sent_object P u g) = Some (us_created_at u)"
  "member_str ''correlationId'' (sent_object P u g) = Some (pb_uuid_text P (us_correlation_id u))"
  "json_get ''status'' (sent_object P u g) = Some (JString (lit (work_status_str (us_status u))))"
  "json_get ''visibility'' (sent_object P u g) = Some (JString (lit (status_visibility_str (us_visibility u))))"
  "json_get ''taskSummary'' (sent_object P u g) = map_option JString (us_task_summary u)"
  "json_get ''startedAt'' (sent_object P u g) = map_option JString (us_started_at u)"
  "json_get ''progress'' (sent_object P u g) = map_option (\<lambda>p. JFloat (pb_fraction P p)) (us_progress u)"
  "member_str ''leaseExpiresAt'' (sent_object P u g) = Some (us_lease_expires_at u)"
  "member_str ''signature'' (sent_object P u g) = Some g"
  "json_get ''liveness'' (sent_object P u g) = None"
  by (simp_all add: sent_object_def unsigned_members_def Let_def json_get_def member_str_def json_str_def map_add_def
      split: option.split)

lemma sent_actor:
  "Option.bind (json_get ''actor'' (sent_object P u g)) read_actor_ref = Some (ws_actor (decoded_status P u))"
  by (simp add: sent_object_def unsigned_members_def Let_def json_get_def member_str_def json_str_def map_add_def
      read_actor_ref_def read_agent_members_def read_agent_def is_object_def variant_name_def wire_provenance_of_def
      member_option_def other_members_def decoded_status_def)

lemma sent_extensions: "other_members STATUS_MEMBERS (sent_object P u g) = ws_extensions (decoded_status P u)"
proof -
  let ?p = "\<lambda>m :: utext \<times> json. fst m \<notin> lit ` set STATUS_MEMBERS"
  have keys: "lit k \<in> lit ` set STATUS_MEMBERS \<longleftrightarrow> k \<in> set STATUS_MEMBERS" for k by auto
  show ?thesis
    unfolding other_members_def sent_object_def unsigned_members_def Let_def decoded_status_def
    by (simp only: json.case filter_append optional_member_others filter.simps fst_conv keys)
      (simp add: STATUS_MEMBERS_def)
qed

lemma work_status_read: "wire_work_status_of (lit (work_status_str st)) = Some (status_to_wire st)"
  by (cases st) (simp_all add: wire_work_status_of_def work_status_str_def status_to_wire_def)

lemma visibility_read:
  "wire_visibility_of (lit (status_visibility_str v)) = Some (case v of Coarse \<Rightarrow> WireCoarse | Detailed \<Rightarrow> WireDetailed)"
  by (cases v) (simp_all add: wire_visibility_of_def status_visibility_str_def)

text \<open>What is written is read back.\<close>

lemma sent_object_read: "read_status_event (sent_object P u g) = Some (decoded_status P u)"
proof -
  have object: "is_object (sent_object P u g)" by (simp add: sent_object_def is_object_def)
  have "read_status_event (sent_object P u g) =
      Some \<lparr>ws_schema_version = lit ''1.0'', ws_event_type = AGENT_STATUS_EVENT_TYPE, ws_id = pb_uuid_text P (us_id u),
        ws_correlation_id = pb_uuid_text P (us_correlation_id u), ws_created_at = us_created_at u,
        ws_lease_expires_at = us_lease_expires_at u, ws_actor = ws_actor (decoded_status P u),
        ws_status = status_to_wire (us_status u),
        ws_visibility = (case us_visibility u of Coarse \<Rightarrow> WireCoarse | Detailed \<Rightarrow> WireDetailed),
        ws_task_summary = us_task_summary u, ws_started_at = us_started_at u,
        ws_progress = map_option (\<lambda>p. FiniteFloat (pb_fraction P p)) (us_progress u), ws_liveness = None,
        ws_last_polled_at = us_last_polled_at u, ws_extensions = ws_extensions (decoded_status P u)\<rparr>"
    by (simp add: read_status_event_def object sent_actor sent_members sent_extensions variant_name_def
        work_status_read visibility_read)
  then show ?thesis by (simp add: decoded_status_def Let_def)
qed

section \<open>Properties\<close>

text \<open>
  C13: A status that was sent is read by the receiver as it was meant. The receiver reads the JSON that was
  sent with the deserialisation of the protocol types; the functions outside the repository agree on both
  sides (\<open>ports_agree\<close>: times, identifiers, base 64 and canonical JSON are read back as written). The event
  reaches the receiver with the envelope of the server. The receiver accepts the lease
  (\<open>lease_accepted\<close>: its maximum covers the lifetime, its clock is at most the allowed skew behind, no time
  leaves the range), and its registry knows the instance and the agent, with a key that verifies what the
  sender signs, registered before the event and not invalidated. Then the event is parsed, judged
  authentic, and shows the identity, the work status, the time, the deadline for listening and the lease
  that the sender meant.
\<close>

theorem published_status_understood:
  assumes agree: "ports_agree P Q"
    and identity: "agent_identity_new a name user i = Inr (pn_identity s)"
    and versions: "pb_uuid_version P a = 7" "pb_uuid_version P i = 7"
    and snapshot: "intent_snapshot intent visibility = Inr snapshot"
    and details: "opt_all (it_details intent) details_ok"
    and sent: "prepare_status P draws intent snapshot s = Inr (lease, waiting, event)"
    and wire: "sp_wire Q = read_status_event"
    and accepted: "lease_accepted (pw_now draws) (sq_lifetime (pn_policy s)) observed lp"
    and timestamp: "0 \<le> timestamp" "timestamp \<le> i64_max"
    and registry: "sp_resolve Q i = Inr r" "vr_instance_id r = i" "vr_agent_id r = a" "vr_invalidated_at r = None"
      "utc_value (vr_registered_at r) \<le> timestamp"
    and verifies: "\<And>m b. pb_sign P m = Some b \<Longrightarrow> sp_verify Q (vr_public_signing_key r) m b"
  shows "\<exists>p. parse_status Q room (delivered event event_id user timestamp) observed lp = Inr p \<and>
    authenticate Q p = Inr AuthTrusted \<and>
    pj_identity (pd_presence p) = pn_identity s \<and>
    pj_status (pd_presence p) = host_work_status (it_host_state intent) \<and>
    pj_published_at (pd_presence p) = pw_now draws \<and>
    pj_listening_until (pd_presence p) = map_option ww_waiting_until waiting \<and>
    pj_lease_expires_at (pd_presence p) = UtcMillis (min
      (utc_value (pw_now draws) + duration_value (sq_lifetime (pn_policy s)) + duration_value (lp_allowed_clock_skew lp))
      (utc_value observed + duration_value (lp_maximum_lease lp) + duration_value (lp_allowed_clock_skew lp))) \<and>
    pj_reception_known (pd_presence p) \<and> \<not> pj_card (pd_presence p)"
proof (rule decoded_status_understood [OF agree identity versions snapshot details sent _ accepted timestamp registry verifies])
  fix w
  assume filled: "filled_status P draws (pn_identity s) lease (fill_waiting P (it_last_polled_at intent) waiting) = Inr w"
  obtain w' c g where "filled_status P draws (pn_identity s) lease (fill_waiting P (it_last_polled_at intent) waiting) = Inr w'"
      "event = \<lparr>sv_event_type = AGENT_STATUS_EVENT_TYPE,
         sv_state_key = pb_uuid_text P (bi_agent_instance_id (pn_identity s)),
         sv_content = JObject (unsigned_members P w' @ [(lit ''signature'', JString (pb_encode_base64 P g))])\<rparr>"
    using prepared [OF sent] by blast
  then have "sv_content event = sent_object P w (pb_encode_base64 P g)" using filled by (simp add: sent_object_def)
  then show "sp_wire Q (sv_content event) = Some (decoded_status P w)" by (simp add: wire sent_object_read)
qed

definition reading_receiver :: sync_ports where
  "reading_receiver = sample_receiver\<lparr>sp_wire := read_status_event\<rparr>"

theorem published_status_understood_witness:
  "\<exists>p event. prepare_status sample_publish_ports (sample_draws 100000) sample_intent sample_snapshot
      sample_publication = Inr (sample_lease, Some sample_window, event) \<and>
    parse_status reading_receiver [33] (delivered event (lit ''$e'') (lit ''@a:b'') 100100) (UtcMillis 100200)
      \<lparr>lp_maximum_lease = DurationMillis 120000, lp_allowed_clock_skew = DurationMillis 5000\<rparr> = Inr p \<and>
    authenticate reading_receiver p = Inr AuthTrusted \<and> pj_status (pd_presence p) = Working"
proof -
  obtain event where e: "prepare_status sample_publish_ports (sample_draws 100000) sample_intent sample_snapshot
      sample_publication = Inr (sample_lease, Some sample_window, event)" using sample_prepared by blast
  have identity: "agent_identity_new 1 (lit ''Ada'') (lit ''@a:b'') 2 = Inr (pn_identity sample_publication)"
    by (simp add: agent_identity_new_def sample_publication_def publication_new_def sample_publisher_def
        matrix_user_id_new_def matrix_string_value_def valid_user_id_def valid_sigil_id_def valid_protocol_text_def
        byte_len_def utf8_width_def starts_with_def is_control_def lit_def trim_def trim_by_def trim_start_by_def
        trim_end_by_def is_whitespace_def MAX_DISPLAY_NAME_CHARACTERS_def)
  have agree: "ports_agree sample_publish_ports reading_receiver"
    using sample_agree by (simp add: ports_agree_def reading_receiver_def)
  have wire: "sp_wire reading_receiver = read_status_event" by (simp add: reading_receiver_def)
  have accepted: "lease_accepted (pw_now (sample_draws 100000)) (sq_lifetime (pn_policy sample_publication)) (UtcMillis 100200)
      \<lparr>lp_maximum_lease = DurationMillis 120000, lp_allowed_clock_skew = DurationMillis 5000\<rparr>"
    by (simp add: lease_accepted_def sample_draws_def sample_publication_def publication_new_def sample_publish_policy_def
        utc_ok_def int_width_defs)
  show ?thesis
    using published_status_understood [OF agree identity _ _ sample_intent_snapshot _ e wire accepted, of 100100
        "\<lparr>vr_instance_id = 2, vr_agent_id = 1, vr_public_signing_key = [], vr_registered_at = UtcMillis 0,
          vr_invalidated_at = None\<rparr>" "[33]" "lit ''$e''"] e
    by (fastforce simp: sample_publish_ports_def reading_receiver_def sample_receiver_def sample_intent_def host_work_status_def int_width_defs)
qed

end
