(* ===== verification/Message_Timeline.thy ===== *)
theory Message_Timeline
  imports Message_Rows Tables
begin

text \<open>
  The local store of messages (\<^verbatim>\<open>bridge-storage-adapter/src/message_projection.rs\<close>, its modules
  \<^verbatim>\<open>losses\<close> and \<^verbatim>\<open>inbox\<close>, and its migrations): a log of events numbered per
  room in the order this machine saw them, the current state of every message, events that could not be
  decrypted with the number kept for them, gaps of the time line, what was lost, the position of the inbox,
  names and notices of rooms. A table is the list of its rows, in the order of their insertion.

  A method that writes runs in one transaction: a body that fails leaves the store as it was. \<open>fault\<close>
  is the failure of a statement or of the commit, if there is one.
\<close>

section \<open>Tables\<close>

record event_row =
  er_event_id :: utext
  er_room_id :: utext
  er_sequence :: int
  er_kind :: event_kind
  er_message_id :: utext
  er_revision_id :: "utext option"
  er_revision_kind :: "revision_kind option"
  er_created_at :: int
  er_origin_server_timestamp :: "int option"
  er_transaction_id :: "utext option"
  er_subject_key :: utext
  er_actor :: json
  er_preview :: "json option"
  er_content :: "json option"
  er_relation_target :: "utext option"
  er_content_id :: "utext option"

datatype message_visibility = MessageActive | MessageRedacted

record current_row =
  cr_message_id :: utext
  cr_room_id :: utext
  cr_base_event_id :: utext
  cr_first_sequence :: int
  cr_last_sequence :: int
  cr_created_at :: int
  cr_origin_server_timestamp :: "int option"
  cr_subject_key :: utext
  cr_actor :: json
  cr_preview :: json
  cr_content :: "json option"
  cr_relation_target :: "utext option"
  cr_visibility :: message_visibility
  cr_last_revision_event_id :: "utext option"
  cr_content_id :: "utext option"

datatype message_issue_reason =
    IssueMissingEnvelope | IssueInvalidEnvelope | IssueSenderMismatch | IssueRoomMismatch | IssueUnknownInstance
  | IssueRevokedInstance | IssueAgentInstanceMismatch | IssueInvalidSignature
  | IssueOutsideInstanceValidityWindow | IssueUntrustedEncryptedSender | IssueUndecryptable

record undecryptable_session =
  uz_sender :: utext
  uz_sender_device :: "utext option"
  uz_session_id :: utext

record message_issue =
  mi_room_id :: utext
  mi_event_id :: "utext option"
  mi_reason :: message_issue_reason
  mi_mutations_before :: nat
  mi_session :: "undecryptable_session option"

record issue_row =
  iw_sync_token :: utext
  iw_room_id :: utext
  iw_event_id :: utext
  iw_reason :: message_issue_reason
  iw_reserved_sequence :: "int option"
  iw_session :: "undecryptable_session option"

record gap_row =
  gw_sync_token :: utext
  gw_room_id :: utext
  gw_previous_batch :: utext
  gw_after_event_id :: "utext option"
  gw_before_event_id :: "utext option"

record loss_row =
  lw_room_id :: utext
  lw_before_event_id :: utext
  lw_after_event_id :: "utext option"

record ack_row =
  aw_event_id :: utext
  aw_sequence :: int

record timeline_store =
  tm_events :: "event_row list"
  tm_current :: "current_row list"
  tm_issues :: "issue_row list"
  tm_gaps :: "gap_row list"
  tm_losses :: "loss_row list"
  tm_cursor :: "utext option"
  tm_acks :: "utext \<rightharpoonup> ack_row"

definition timeline_store_new :: timeline_store where
  "timeline_store_new = \<lparr>tm_events = [], tm_current = [], tm_issues = [], tm_gaps = [], tm_losses = [],
     tm_cursor = None, tm_acks = (\<lambda>_. None)\<rparr>"

text \<open>The \<^verbatim>\<open>CHECK\<close> of the log; a violated one is not a conflict but an unavailable store.\<close>

definition event_check :: "event_row \<Rightarrow> bool" where
  "event_check e \<longleftrightarrow> 0 < er_sequence e \<and>
     (case er_kind e of
        PreviewEvent \<Rightarrow> er_revision_id e = None \<and> er_revision_kind e = None \<and> er_preview e \<noteq> None \<and> er_content e \<noteq> None
      | RevisionEvent \<Rightarrow> er_revision_id e \<noteq> None \<and>
          (case er_revision_kind e of
             None \<Rightarrow> False
           | Some Replace \<Rightarrow> er_preview e \<noteq> None \<and> er_content e \<noteq> None
           | Some _ \<Rightarrow> er_preview e = None \<and> er_content e = None))"

section \<open>The log and the current messages\<close>

type_synonym 'a store_result = "projection_failure + 'a"

definition event_row_of :: "encoded_mutation \<Rightarrow> int \<Rightarrow> event_row" where
  "event_row_of e sequence =
     \<lparr>er_event_id = em_event_id e, er_room_id = em_room_id e, er_sequence = sequence, er_kind = em_kind e,
      er_message_id = em_message_id e, er_revision_id = em_revision_id e, er_revision_kind = em_revision_kind e,
      er_created_at = em_created_at e, er_origin_server_timestamp = em_origin_server_timestamp e,
      er_transaction_id = em_transaction_id e, er_subject_key = em_subject_key e, er_actor = em_actor e,
      er_preview = em_preview e, er_content = em_content e, er_relation_target = em_relation_target e,
      er_content_id = em_content_id e\<rparr>"

definition next_sequence :: "utext \<Rightarrow> timeline_store \<Rightarrow> int" where
  "next_sequence room s =
     fold max (map er_sequence (filter (\<lambda>e. er_room_id e = room) (tm_events s)) @
       concat (map (\<lambda>i. case iw_reserved_sequence i of None \<Rightarrow> [] | Some q \<Rightarrow> [q])
         (filter (\<lambda>i. iw_room_id i = room) (tm_issues s)))) 0 + 1"

text \<open>\<open>None\<close>: the event is in the log already and nothing is written.\<close>

definition insert_event :: "encoded_mutation \<Rightarrow> int \<Rightarrow> timeline_store \<Rightarrow> timeline_store option store_result" where
  "insert_event e sequence s =
     (let row = event_row_of e sequence
      in if list_ex (\<lambda>r. er_event_id r = em_event_id e) (tm_events s) then Inr None
         else if \<not> event_check row then Inl ProjectionUnavailable
         else if list_ex (\<lambda>r. er_room_id r = em_room_id e \<and> er_sequence r = sequence) (tm_events s) then Inl ProjectionConflict
         else Inr (Some (s\<lparr>tm_events := tm_events s @ [row]\<rparr>)))"

text \<open>The unique index over the content of the active messages of a room.\<close>

definition content_keys :: "current_row list \<Rightarrow> (utext \<times> utext) list" where
  "content_keys rows = concat (map (\<lambda>c. case (cr_visibility c, cr_content_id c) of
     (MessageActive, Some k) \<Rightarrow> [(cr_room_id c, k)] | _ \<Rightarrow> []) rows)"

definition current_row_of :: "encoded_mutation \<Rightarrow> int \<Rightarrow> json \<Rightarrow> json \<Rightarrow> utext \<Rightarrow> current_row" where
  "current_row_of e sequence preview content content_id =
     \<lparr>cr_message_id = em_message_id e, cr_room_id = em_room_id e, cr_base_event_id = em_event_id e,
      cr_first_sequence = sequence, cr_last_sequence = sequence, cr_created_at = em_created_at e,
      cr_origin_server_timestamp = em_origin_server_timestamp e, cr_subject_key = em_subject_key e,
      cr_actor = em_actor e, cr_preview = preview, cr_content = Some content,
      cr_relation_target = em_relation_target e, cr_visibility = MessageActive,
      cr_last_revision_event_id = None, cr_content_id = Some content_id\<rparr>"

definition insert_current :: "encoded_mutation \<Rightarrow> int \<Rightarrow> timeline_store \<Rightarrow> timeline_store option store_result" where
  "insert_current e sequence s =
     and_then (ok_or (em_preview e) ProjectionCorrupt) (\<lambda>preview.
     and_then (ok_or (em_content e) ProjectionCorrupt) (\<lambda>content.
     and_then (ok_or (em_content_id e) ProjectionCorrupt) (\<lambda>content_id.
     let row = current_row_of e sequence preview content content_id
     in if list_ex (\<lambda>c. cr_message_id c = em_message_id e) (tm_current s) then Inr None
        else if list_ex (\<lambda>c. cr_base_event_id c = em_event_id e) (tm_current s) \<or>
                \<not> distinct (content_keys (tm_current s @ [row])) then Inl ProjectionConflict
        else Inr (Some (s\<lparr>tm_current := tm_current s @ [row]\<rparr>)))))"

text \<open>What \<^verbatim>\<open>RevisionFields\<close> takes from a row of the log.\<close>

definition revision_newer_applied :: "event_row \<Rightarrow> timeline_store \<Rightarrow> current_row \<Rightarrow> bool" where
  "revision_newer_applied r s c \<longleftrightarrow>
     list_ex (\<lambda>applied. Some (er_event_id applied) = cr_last_revision_event_id c \<and> er_sequence applied > er_sequence r)
       (tm_events s)"

definition targets :: "event_row \<Rightarrow> current_row \<Rightarrow> bool" where
  "targets r c \<longleftrightarrow> cr_room_id c = er_room_id r \<and> cr_message_id c = er_message_id r \<and>
     cr_subject_key c = er_subject_key r \<and> cr_visibility c = MessageActive"

definition apply_replacement :: "event_row \<Rightarrow> timeline_store \<Rightarrow> timeline_store store_result" where
  "apply_replacement r s =
     and_then (ok_or (er_preview r) ProjectionCorrupt) (\<lambda>preview.
     and_then (ok_or (er_content r) ProjectionCorrupt) (\<lambda>content.
     and_then (ok_or (er_content_id r) ProjectionCorrupt) (\<lambda>content_id.
     let rows = update_where (\<lambda>c. targets r c \<and> \<not> revision_newer_applied r s c)
           (\<lambda>c. c\<lparr>cr_preview := preview, cr_content := Some content, cr_content_id := Some content_id,
                  cr_last_revision_event_id := Some (er_event_id r),
                  cr_last_sequence := max (cr_last_sequence c) (er_sequence r)\<rparr>) (tm_current s)
     in if \<not> distinct (content_keys rows) then Inl ProjectionConflict else Inr (s\<lparr>tm_current := rows\<rparr>))))"

definition apply_redaction :: "event_row \<Rightarrow> timeline_store \<Rightarrow> timeline_store" where
  "apply_redaction r s =
     s\<lparr>tm_current := update_where (targets r)
        (\<lambda>c. c\<lparr>cr_content := None, cr_content_id := None, cr_visibility := MessageRedacted,
               cr_last_revision_event_id := Some (er_event_id r),
               cr_last_sequence := max (cr_last_sequence c) (er_sequence r)\<rparr>) (tm_current s)\<rparr>"

definition apply_revision :: "event_row \<Rightarrow> timeline_store \<Rightarrow> timeline_store store_result" where
  "apply_revision r s =
     (case er_revision_kind r of
        None \<Rightarrow> Inl ProjectionCorrupt
      | Some Replace \<Rightarrow> apply_replacement r s
      | Some RedactRevision \<Rightarrow> Inr (apply_redaction r s)
      | Some Moderate \<Rightarrow> Inr s)"

fun run_each :: "('a \<Rightarrow> 's \<Rightarrow> 'e + 's) \<Rightarrow> 'a list \<Rightarrow> 's \<Rightarrow> 'e + 's" where
  "run_each f [] s = Inr s"
| "run_each f (x # xs) s = and_then (f x s) (run_each f xs)"

definition pending_revisions :: "utext \<Rightarrow> utext \<Rightarrow> timeline_store \<Rightarrow> event_row list" where
  "pending_revisions room message s =
     sort_key er_sequence
       (filter (\<lambda>r. er_room_id r = room \<and> er_message_id r = message \<and> er_kind r = RevisionEvent \<and>
          er_revision_kind r \<in> {Some Replace, Some RedactRevision}) (tm_events s))"

definition apply_pending_revisions :: "utext \<Rightarrow> utext \<Rightarrow> timeline_store \<Rightarrow> timeline_store store_result" where
  "apply_pending_revisions room message s = run_each apply_revision (pending_revisions room message s) s"

definition write_mutation :: "encoded_mutation \<Rightarrow> int \<Rightarrow> timeline_store \<Rightarrow> timeline_store store_result" where
  "write_mutation e sequence s =
     and_then (insert_event e sequence s) (\<lambda>inserted.
     case inserted of
       None \<Rightarrow> Inr s
     | Some t \<Rightarrow>
         (case em_kind e of
            PreviewEvent \<Rightarrow>
              and_then (insert_current e sequence t) (\<lambda>placed.
              case placed of
                None \<Rightarrow> Inr t
              | Some u \<Rightarrow> apply_pending_revisions (em_room_id e) (em_message_id e) u)
          | RevisionEvent \<Rightarrow> apply_revision (event_row_of e sequence) t))"

definition apply_mutation :: "row_ports \<Rightarrow> message_mutation \<Rightarrow> timeline_store \<Rightarrow> timeline_store store_result" where
  "apply_mutation ports m s =
     and_then (encode_mutation ports m) (\<lambda>e. write_mutation e (next_sequence (em_room_id e) s) s)"

section \<open>Isolated events\<close>

definition event_is_known :: "utext \<Rightarrow> utext \<Rightarrow> timeline_store \<Rightarrow> bool" where
  "event_is_known room event s \<longleftrightarrow>
     list_ex (\<lambda>r. er_event_id r = event) (tm_events s) \<or>
     list_ex (\<lambda>i. iw_room_id i = room \<and> iw_event_id i = event \<and> iw_reserved_sequence i \<noteq> None) (tm_issues s)"

definition reserve_sequence :: "utext \<Rightarrow> utext \<Rightarrow> timeline_store \<Rightarrow> int option" where
  "reserve_sequence room event s = (if event_is_known room event s then None else Some (next_sequence room s))"

definition persist_issue :: "utext \<Rightarrow> message_issue \<Rightarrow> timeline_store \<Rightarrow> timeline_store" where
  "persist_issue sync_token i s =
     (let event = unwrap_or (mi_event_id i) [];
          session = (if mi_reason i = IssueUndecryptable \<and> event \<noteq> [] then mi_session i else None);
          reserved = (case session of None \<Rightarrow> None | Some _ \<Rightarrow> reserve_sequence (mi_room_id i) event s);
          row = \<lparr>iw_sync_token = sync_token, iw_room_id = mi_room_id i, iw_event_id = event, iw_reason = mi_reason i,
                 iw_reserved_sequence = reserved, iw_session = session\<rparr>
      in if list_ex (\<lambda>r. iw_sync_token r = sync_token \<and> iw_room_id r = mi_room_id i \<and> iw_event_id r = event \<and>
              iw_reason r = mi_reason i) (tm_issues s) then s
         else s\<lparr>tm_issues := tm_issues s @ [row]\<rparr>)"

definition persist_issues :: "utext \<Rightarrow> message_issue list \<Rightarrow> timeline_store \<Rightarrow> timeline_store" where
  "persist_issues sync_token issues s = fold (persist_issue sync_token) issues s"

text \<open>Issues are written where they were seen: before the mutation that follows them.\<close>

fun apply_timeline ::
  "row_ports \<Rightarrow> utext \<Rightarrow> nat \<Rightarrow> message_mutation list \<Rightarrow> message_issue list \<Rightarrow> timeline_store \<Rightarrow> timeline_store store_result" where
  "apply_timeline ports sync_token index [] issues s = Inr (persist_issues sync_token issues s)"
| "apply_timeline ports sync_token index (m # ms) issues s =
     (let earlier = takeWhile (\<lambda>i. mi_mutations_before i \<le> index) issues;
          later = dropWhile (\<lambda>i. mi_mutations_before i \<le> index) issues
      in and_then (apply_mutation ports m (persist_issues sync_token earlier s))
           (apply_timeline ports sync_token (index + 1) ms later))"

section \<open>Gaps and losses\<close>

record timeline_gap =
  tl_room_id :: utext
  tl_previous_batch :: "utext option"

record pending_gap =
  pg_sync_token :: utext
  pg_room_id :: utext
  pg_previous_batch :: utext

text \<open>Order of \<^verbatim>\<open>latest_event\<close>: a missing timestamp is the smallest.\<close>

definition row_newer :: "current_row \<Rightarrow> current_row \<Rightarrow> bool" where
  "row_newer a b \<longleftrightarrow>
     (case (cr_origin_server_timestamp a, cr_origin_server_timestamp b) of
        (None, None) \<Rightarrow> cr_first_sequence a > cr_first_sequence b
      | (Some _, None) \<Rightarrow> True
      | (None, Some _) \<Rightarrow> False
      | (Some x, Some y) \<Rightarrow> x > y \<or> x = y \<and> cr_first_sequence a > cr_first_sequence b)"

definition latest_event :: "utext \<Rightarrow> timeline_store \<Rightarrow> utext option" where
  "latest_event room s =
     map_option cr_base_event_id
       (fold (\<lambda>c best. case best of None \<Rightarrow> Some c | Some b \<Rightarrow> if row_newer c b then Some c else best)
         (filter (\<lambda>c. cr_room_id c = room) (tm_current s)) None)"

fun first_new_message :: "message_mutation list \<Rightarrow> utext \<Rightarrow> utext option" where
  "first_new_message [] room = None"
| "first_new_message (PreviewMutation p # ms) room =
     (if pp_room_id p = room then Some (pp_event_id p) else first_new_message ms room)"
| "first_new_message (RevisionMutation r # ms) room = first_new_message ms room"

definition record_loss :: "utext \<Rightarrow> utext option \<Rightarrow> utext \<Rightarrow> timeline_store \<Rightarrow> timeline_store" where
  "record_loss room after before s =
     (if list_ex (\<lambda>l. lw_room_id l = room \<and> lw_before_event_id l = before) (tm_losses s) then s
      else s\<lparr>tm_losses := tm_losses s @
        [\<lparr>lw_room_id = room, lw_before_event_id = before, lw_after_event_id = after\<rparr>]\<rparr>)"

definition persist_gap :: "utext \<Rightarrow> message_mutation list \<Rightarrow> timeline_gap \<Rightarrow> timeline_store \<Rightarrow> timeline_store" where
  "persist_gap sync_token mutations g s =
     (let after = latest_event (tl_room_id g) s;
          before = first_new_message mutations (tl_room_id g);
          previous = unwrap_or (tl_previous_batch g) [];
          row = \<lparr>gw_sync_token = sync_token, gw_room_id = tl_room_id g, gw_previous_batch = previous,
                 gw_after_event_id = after, gw_before_event_id = before\<rparr>;
          t = (if list_ex (\<lambda>r. gw_sync_token r = sync_token \<and> gw_room_id r = tl_room_id g \<and> gw_previous_batch r = previous)
                    (tm_gaps s) then s else s\<lparr>tm_gaps := tm_gaps s @ [row]\<rparr>)
      in (case (tl_previous_batch g, before) of
            (None, Some b) \<Rightarrow> record_loss (tl_room_id g) after b t
          | _ \<Rightarrow> t))"

definition persist_gaps :: "utext \<Rightarrow> message_mutation list \<Rightarrow> timeline_gap list \<Rightarrow> timeline_store \<Rightarrow> timeline_store" where
  "persist_gaps sync_token mutations gaps s = fold (persist_gap sync_token mutations) gaps s"

section \<open>Batches\<close>

record message_projection_batch =
  pc_next_batch :: utext
  pc_mutations :: "message_mutation list"
  pc_issues :: "message_issue list"
  pc_gaps :: "timeline_gap list"

definition store_write ::
  "projection_failure option \<Rightarrow> (timeline_store \<Rightarrow> timeline_store store_result) \<Rightarrow> timeline_store \<Rightarrow>
     unit store_result \<times> timeline_store" where
  "store_write fault body s =
     (case fault of
        Some e \<Rightarrow> (Inl e, s)
      | None \<Rightarrow> (case body s of Inl e \<Rightarrow> (Inl e, s) | Inr t \<Rightarrow> (Inr (), t)))"

definition batch_body :: "row_ports \<Rightarrow> message_projection_batch \<Rightarrow> timeline_store \<Rightarrow> timeline_store store_result" where
  "batch_body ports b s =
     and_then (apply_timeline ports (pc_next_batch b) 0 (pc_mutations b) (pc_issues b)
         (persist_gaps (pc_next_batch b) (pc_mutations b) (pc_gaps b) s)) (\<lambda>t.
     Inr (t\<lparr>tm_cursor := Some (pc_next_batch b)\<rparr>))"

definition apply_batch ::
  "projection_failure option \<Rightarrow> row_ports \<Rightarrow> message_projection_batch \<Rightarrow> timeline_store \<Rightarrow> unit store_result \<times> timeline_store" where
  "apply_batch fault ports b = store_write fault (batch_body ports b)"

record backfill_batch =
  bf_gap :: pending_gap
  bf_mutations :: "message_mutation list"
  bf_issues :: "message_issue list"
  bf_complete :: bool

definition gap_matches :: "pending_gap \<Rightarrow> gap_row \<Rightarrow> bool" where
  "gap_matches g r \<longleftrightarrow> gw_sync_token r = pg_sync_token g \<and> gw_room_id r = pg_room_id g \<and>
     gw_previous_batch r = pg_previous_batch g"

definition record_truncated_backfill :: "backfill_batch \<Rightarrow> timeline_store \<Rightarrow> timeline_store" where
  "record_truncated_backfill b s =
     (if bf_complete b then s
      else
        (let recorded = find (gap_matches (bf_gap b)) (tm_gaps s);
             after = Option.bind recorded gw_after_event_id;
             before = (case first_new_message (bf_mutations b) (pg_room_id (bf_gap b)) of
                         Some e \<Rightarrow> Some e | None \<Rightarrow> Option.bind recorded gw_before_event_id)
         in (case before of None \<Rightarrow> s | Some e \<Rightarrow> record_loss (pg_room_id (bf_gap b)) after e s)))"

definition backfill_body :: "row_ports \<Rightarrow> backfill_batch \<Rightarrow> timeline_store \<Rightarrow> timeline_store store_result" where
  "backfill_body ports b s =
     and_then (apply_timeline ports (pg_sync_token (bf_gap b)) 0 (bf_mutations b) (bf_issues b) s) (\<lambda>t.
     let u = record_truncated_backfill b t
     in Inr (u\<lparr>tm_gaps := delete_where (gap_matches (bf_gap b)) (tm_gaps u)\<rparr>))"

definition apply_backfill_batch ::
  "projection_failure option \<Rightarrow> row_ports \<Rightarrow> backfill_batch \<Rightarrow> timeline_store \<Rightarrow> unit store_result \<times> timeline_store" where
  "apply_backfill_batch fault ports b = store_write fault (backfill_body ports b)"

record recovery_batch =
  rb_room_id :: utext
  rb_recovered :: "message_mutation list"
  rb_reclassified :: "message_issue list"
  rb_dismissed :: "utext list"

definition undecryptable_row :: "utext \<Rightarrow> utext \<Rightarrow> issue_row \<Rightarrow> bool" where
  "undecryptable_row room event i \<longleftrightarrow> iw_room_id i = room \<and> iw_event_id i = event \<and> iw_reason i = IssueUndecryptable"

definition reserved_sequence :: "utext \<Rightarrow> utext \<Rightarrow> timeline_store \<Rightarrow> int option" where
  "reserved_sequence room event s =
     fold (\<lambda>i best. case (iw_reserved_sequence i, best) of
             (None, _) \<Rightarrow> best | (Some q, None) \<Rightarrow> Some q | (Some q, Some b) \<Rightarrow> Some (min b q))
       (filter (undecryptable_row room event) (tm_issues s)) None"

definition forget_undecryptable :: "utext \<Rightarrow> utext \<Rightarrow> timeline_store \<Rightarrow> timeline_store" where
  "forget_undecryptable room event s = s\<lparr>tm_issues := delete_where (undecryptable_row room event) (tm_issues s)\<rparr>"

definition recover_mutation :: "row_ports \<Rightarrow> utext \<Rightarrow> message_mutation \<Rightarrow> timeline_store \<Rightarrow> timeline_store store_result" where
  "recover_mutation ports room m s =
     (if mutation_room_id m \<noteq> room then Inl ProjectionCorrupt
      else (case reserved_sequence room (mutation_event_id m) s of
              None \<Rightarrow> Inr s
            | Some sequence \<Rightarrow>
                and_then (encode_mutation ports m) (\<lambda>e.
                and_then (write_mutation e sequence s) (\<lambda>t.
                Inr (forget_undecryptable room (mutation_event_id m) t)))))"

definition reclassified_row :: "message_issue_reason \<Rightarrow> issue_row \<Rightarrow> issue_row" where
  "reclassified_row reason i = i\<lparr>iw_reason := reason, iw_reserved_sequence := None, iw_session := None\<rparr>"

definition issue_key :: "issue_row \<Rightarrow> utext \<times> utext \<times> utext \<times> message_issue_reason" where
  "issue_key i = (iw_sync_token i, iw_room_id i, iw_event_id i, iw_reason i)"

text \<open>\<^verbatim>\<open>UPDATE OR REPLACE\<close>: a row whose key an updated row takes is deleted.\<close>

definition reclassify :: "utext \<Rightarrow> message_issue \<Rightarrow> timeline_store \<Rightarrow> timeline_store" where
  "reclassify room i s =
     (case mi_event_id i of
        None \<Rightarrow> s
      | Some event \<Rightarrow>
          (let hit = undecryptable_row room event;
               taken = map (\<lambda>r. issue_key (reclassified_row (mi_reason i) r)) (filter hit (tm_issues s))
           in s\<lparr>tm_issues := concat (map (\<lambda>r.
                 if hit r then [reclassified_row (mi_reason i) r]
                 else if issue_key r \<in> set taken then [] else [r]) (tm_issues s))\<rparr>))"

definition recovery_body :: "row_ports \<Rightarrow> recovery_batch \<Rightarrow> timeline_store \<Rightarrow> timeline_store store_result" where
  "recovery_body ports b s =
     and_then (run_each (recover_mutation ports (rb_room_id b)) (rb_recovered b) s) (\<lambda>t.
     Inr (fold (forget_undecryptable (rb_room_id b)) (rb_dismissed b)
       (fold (reclassify (rb_room_id b)) (rb_reclassified b) t)))"

definition apply_recovery_batch ::
  "projection_failure option \<Rightarrow> row_ports \<Rightarrow> recovery_batch \<Rightarrow> timeline_store \<Rightarrow> unit store_result \<times> timeline_store" where
  "apply_recovery_batch fault ports b = store_write fault (recovery_body ports b)"

end
