(* ===== verification/Message_Inbox.thy ===== *)
theory Message_Inbox
  imports Message_Timeline
begin

text \<open>
  What is read from the local time line, and the position of the inbox
  (\<^verbatim>\<open>bridge-storage-adapter/src/message_projection.rs\<close> and \<^verbatim>\<open>inbox.rs\<close>, \<^verbatim>\<open>losses.rs\<close>,
  with the query types of \<^verbatim>\<open>bridge-core/src/messages/projection.rs\<close>). A read is a function
  of the store (that the database may fail it is left out); a stored row that no longer decodes is corrupt. Where a statement leaves the
  order of its rows open, the rows come in the order of the table.
\<close>

section \<open>Queries\<close>

definition MAXIMUM_PREVIEW_PAGE_SIZE :: nat where "MAXIMUM_PREVIEW_PAGE_SIZE = 50"

record preview_query =
  vq_oldest_first :: bool
  vq_after_event_id :: "utext option"
  vq_room_id :: utext
  vq_before_event_id :: "utext option"
  vq_limit :: nat

datatype preview_query_error = InvalidPageLimit

definition preview_query_new :: "utext \<Rightarrow> utext option \<Rightarrow> nat \<Rightarrow> preview_query_error + preview_query" where
  "preview_query_new room before limit =
     (if limit = 0 \<or> limit > MAXIMUM_PREVIEW_PAGE_SIZE then Inl InvalidPageLimit
      else Inr \<lparr>vq_oldest_first = False, vq_after_event_id = None, vq_room_id = room, vq_before_event_id = before,
                vq_limit = limit\<rparr>)"

definition preview_query_after :: "utext \<Rightarrow> utext \<Rightarrow> nat \<Rightarrow> preview_query_error + preview_query" where
  "preview_query_after room cursor limit =
     and_then (preview_query_new room None limit) (\<lambda>q.
     Inr (q\<lparr>vq_after_event_id := Some cursor, vq_oldest_first := True\<rparr>))"

definition preview_query_from_start :: "utext \<Rightarrow> nat \<Rightarrow> preview_query_error + preview_query" where
  "preview_query_from_start room limit =
     and_then (preview_query_new room None limit) (\<lambda>q. Inr (q\<lparr>vq_oldest_first := True\<rparr>))"

record preview_page =
  vp_previews :: "projected_preview list"
  vp_next_cursor :: "utext option"

datatype lookup_id = LookupEvent utext | LookupMessage message_id

record messages_around =
  ar_before :: "projected_preview list"
  ar_anchor :: "projected_preview option"
  ar_after :: "projected_preview list"

section \<open>Decoding a row\<close>

definition or_corrupt_query :: "bool \<Rightarrow> 'a \<Rightarrow> query_failure + 'a" where
  "or_corrupt_query b v = (if b then Inr v else Inl QueryCorrupt)"

definition decode_preview_row :: "row_ports \<Rightarrow> current_row \<Rightarrow> query_failure + projected_preview" where
  "decode_preview_row ports c =
     and_then (decode_actor ports (cr_actor c)) (\<lambda>actor.
     and_then (decode_preview (cr_preview c)) (\<lambda>preview.
     and_then (or_corrupt_query (valid_room_id (cr_room_id c)) (cr_room_id c)) (\<lambda>room.
     and_then (ok_or (cr_content c) QueryCorrupt) (\<lambda>content_json.
     and_then (decode_content ports content_json room) (\<lambda>content.
     and_then (corrupt_unless (utc_new (cr_created_at c))) (\<lambda>created.
     and_then (case cr_origin_server_timestamp c of
                 None \<Rightarrow> Inr None | Some t \<Rightarrow> or_corrupt_query (0 \<le> t) (Some t)) (\<lambda>timestamp.
     and_then (case cr_relation_target c of
                 None \<Rightarrow> Inr None | Some v \<Rightarrow> map_sum id (\<lambda>u. Some (ReplyTo u)) (decode_v7 ports v)) (\<lambda>relation.
     and_then (or_corrupt_query (valid_event_id (cr_base_event_id c)) (cr_base_event_id c)) (\<lambda>event.
     and_then (decode_v7 ports (cr_message_id c)) (\<lambda>message.
     Inr \<lparr>pp_event_id = event, pp_transaction_id = None, pp_room_id = room, pp_message_id = message,
          pp_created_at = created, pp_origin_server_timestamp = timestamp, pp_actor = actor, pp_preview = preview,
          pp_content = content, pp_relation = relation\<rparr>))))))))))"

section \<open>What the synchronisation reads\<close>

definition room_has_messages :: "utext \<Rightarrow> timeline_store \<Rightarrow> bool" where
  "room_has_messages room s \<longleftrightarrow> list_ex (\<lambda>e. er_room_id e = room) (tm_events s)"

definition query_known_events :: "utext \<Rightarrow> utext list \<Rightarrow> timeline_store \<Rightarrow> utext list" where
  "query_known_events room ids s =
     filter (\<lambda>k. list_ex (\<lambda>e. er_room_id e = room \<and> er_event_id e = k) (tm_events s) \<or>
       list_ex (\<lambda>i. iw_room_id i = room \<and> iw_event_id i = k) (tm_issues s)) ids"

definition decode_gap :: "gap_row \<Rightarrow> projection_failure + pending_gap" where
  "decode_gap g =
     (if \<not> valid_opaque_token (gw_sync_token g) \<or> \<not> valid_room_id (gw_room_id g) \<or>
         \<not> valid_opaque_token (gw_previous_batch g) then Inl ProjectionCorrupt
      else Inr \<lparr>pg_sync_token = gw_sync_token g, pg_room_id = gw_room_id g, pg_previous_batch = gw_previous_batch g\<rparr>)"

definition query_pending_gaps :: "nat \<Rightarrow> timeline_store \<Rightarrow> pending_gap list store_result" where
  "query_pending_gaps limit s = each decode_gap (take limit (filter (\<lambda>g. gw_previous_batch g \<noteq> []) (tm_gaps s)))"

record isolated_session =
  iz_room_id :: utext
  iz_session :: undecryptable_session

definition isolated_key :: "issue_row \<Rightarrow> (utext \<times> undecryptable_session) option" where
  "isolated_key i =
     (if iw_reason i = IssueUndecryptable \<and> iw_reserved_sequence i \<noteq> None
      then map_option (Pair (iw_room_id i)) (iw_session i) else None)"

definition latest_reserved :: "issue_row list \<Rightarrow> utext \<times> undecryptable_session \<Rightarrow> int" where
  "latest_reserved issues k =
     fold max (map (\<lambda>i. unwrap_or (iw_reserved_sequence i) 0) (filter (\<lambda>i. isolated_key i = Some k) issues)) 0"

definition decode_session :: "utext \<times> undecryptable_session \<Rightarrow> projection_failure + isolated_session" where
  "decode_session k =
     (if \<not> valid_room_id (fst k) \<or> \<not> valid_user_id (uz_sender (snd k)) then Inl ProjectionCorrupt
      else Inr \<lparr>iz_room_id = fst k, iz_session = snd k\<rparr>)"

definition query_undecryptable_sessions :: "nat \<Rightarrow> timeline_store \<Rightarrow> isolated_session list store_result" where
  "query_undecryptable_sessions limit s =
     (let groups = remdups (concat (map (\<lambda>i. case isolated_key i of None \<Rightarrow> [] | Some k \<Rightarrow> [k]) (tm_issues s)))
      in each decode_session (take limit (sort_key (\<lambda>k. - latest_reserved (tm_issues s) k) groups)))"

record reserved_event =
  rz_event_id :: utext
  rz_position :: int

definition decode_reserved :: "issue_row \<Rightarrow> projection_failure + reserved_event" where
  "decode_reserved i =
     (case iw_reserved_sequence i of
        None \<Rightarrow> Inl ProjectionCorrupt
      | Some q \<Rightarrow>
          if \<not> valid_event_id (iw_event_id i) \<or> q < 0 then Inl ProjectionCorrupt
          else Inr \<lparr>rz_event_id = iw_event_id i, rz_position = q\<rparr>)"

definition isolated_after :: "utext \<Rightarrow> utext list \<Rightarrow> int \<Rightarrow> issue_row \<Rightarrow> bool" where
  "isolated_after room sessions after i \<longleftrightarrow>
     iw_room_id i = room \<and> iw_reason i = IssueUndecryptable \<and> opt_any (iw_reserved_sequence i) (\<lambda>q. q > after) \<and>
     opt_any (iw_session i) (\<lambda>z. uz_session_id z \<in> set sessions)"

definition query_undecryptable_events ::
  "utext \<Rightarrow> utext list \<Rightarrow> int \<Rightarrow> nat \<Rightarrow> timeline_store \<Rightarrow> reserved_event list store_result" where
  "query_undecryptable_events room sessions after limit s =
     (if sessions = [] then Inr []
      else
        (case i64_try_from after of
           None \<Rightarrow> Inl ProjectionCorrupt
         | Some n \<Rightarrow>
             each decode_reserved
               (take limit (sort_key (\<lambda>i. unwrap_or (iw_reserved_sequence i) 0)
                 (filter (isolated_after room sessions n) (tm_issues s))))))"

definition sync_cursor :: "timeline_store \<Rightarrow> utext option store_result" where
  "sync_cursor s =
     (case tm_cursor s of
        None \<Rightarrow> Inr None
      | Some v \<Rightarrow> if valid_opaque_token v then Inr (Some v) else Inl ProjectionCorrupt)"

section \<open>What Agents read\<close>

definition active_in :: "utext \<Rightarrow> current_row \<Rightarrow> bool" where
  "active_in room c \<longleftrightarrow> cr_room_id c = room \<and> cr_visibility c = MessageActive"

definition resolve_cursor :: "utext \<Rightarrow> utext \<Rightarrow> timeline_store \<Rightarrow> query_failure + int" where
  "resolve_cursor room cursor s =
     ok_or (map_option cr_first_sequence
       (find (\<lambda>c. cr_room_id c = room \<and> cr_base_event_id c = cursor) (tm_current s))) CursorNotFound"

definition past_cursor :: "bool \<Rightarrow> int option \<Rightarrow> current_row \<Rightarrow> bool" where
  "past_cursor forward cursor c \<longleftrightarrow>
     (case cursor of
        None \<Rightarrow> True
      | Some q \<Rightarrow> if forward then cr_first_sequence c > q else cr_first_sequence c < q)"

definition page_rows :: "preview_query \<Rightarrow> int option \<Rightarrow> timeline_store \<Rightarrow> current_row list" where
  "page_rows q cursor s =
     (let rows = filter (\<lambda>c. active_in (vq_room_id q) c \<and> past_cursor (vq_oldest_first q) cursor c) (tm_current s)
      in take (vq_limit q + 1)
           (sort_key (\<lambda>c. if vq_oldest_first q then cr_first_sequence c else - cr_first_sequence c) rows))"

definition query_previews :: "row_ports \<Rightarrow> preview_query \<Rightarrow> timeline_store \<Rightarrow> query_failure + preview_page" where
  "query_previews ports q s =
     and_then (case (case vq_after_event_id q of Some e \<Rightarrow> Some e | None \<Rightarrow> vq_before_event_id q) of
                 None \<Rightarrow> Inr None
               | Some cursor \<Rightarrow> map_sum id Some (resolve_cursor (vq_room_id q) cursor s)) (\<lambda>cursor.
     let rows = page_rows q cursor s;
         has_more = length rows > vq_limit q
     in and_then (each (decode_preview_row ports) (take (vq_limit q) rows)) (\<lambda>previews.
        Inr \<lparr>vp_previews = previews,
             vp_next_cursor = (if has_more \<and> previews \<noteq> [] then Some (pp_event_id (last previews)) else None)\<rparr>))"

definition query_messages ::
  "row_ports \<Rightarrow> utext \<Rightarrow> message_id list \<Rightarrow> timeline_store \<Rightarrow> query_failure + projected_preview list" where
  "query_messages ports room ids s =
     each (decode_preview_row ports)
       (filter (\<lambda>c. active_in room c \<and> cr_message_id c \<in> rq_uuid_text ports ` set ids) (tm_current s))"

definition lookup_matches :: "row_ports \<Rightarrow> lookup_id \<Rightarrow> current_row \<Rightarrow> bool" where
  "lookup_matches ports k c =
     (case k of
        LookupEvent e \<Rightarrow> cr_base_event_id c = e
      | LookupMessage m \<Rightarrow> cr_message_id c = rq_uuid_text ports m)"

definition query_lookup :: "row_ports \<Rightarrow> lookup_id list \<Rightarrow> timeline_store \<Rightarrow> query_failure + projected_preview list" where
  "query_lookup ports ids s =
     each (decode_preview_row ports)
       (filter (\<lambda>c. cr_visibility c = MessageActive \<and> list_ex (\<lambda>k. lookup_matches ports k c) ids) (tm_current s))"

definition neighbours ::
  "row_ports \<Rightarrow> utext \<Rightarrow> int \<Rightarrow> nat \<Rightarrow> bool \<Rightarrow> timeline_store \<Rightarrow> query_failure + projected_preview list" where
  "neighbours ports room sequence count earlier s =
     each (decode_preview_row ports)
       (take count
         (sort_key (\<lambda>c. if earlier then - cr_first_sequence c else cr_first_sequence c)
           (filter (\<lambda>c. active_in room c \<and>
              (if earlier then cr_first_sequence c < sequence else cr_first_sequence c > sequence)) (tm_current s))))"

definition query_around ::
  "row_ports \<Rightarrow> utext \<Rightarrow> lookup_id \<Rightarrow> nat \<Rightarrow> nat \<Rightarrow> timeline_store \<Rightarrow> query_failure + messages_around" where
  "query_around ports room anchor before after s =
     (case find (\<lambda>c. active_in room c \<and> lookup_matches ports anchor c) (tm_current s) of
        None \<Rightarrow> Inr \<lparr>ar_before = [], ar_anchor = None, ar_after = []\<rparr>
      | Some c \<Rightarrow>
          and_then (decode_preview_row ports c) (\<lambda>found.
          and_then (neighbours ports room (cr_first_sequence c) before True s) (\<lambda>earlier.
          and_then (neighbours ports room (cr_first_sequence c) after False s) (\<lambda>later.
          Inr \<lparr>ar_before = rev earlier, ar_anchor = Some found, ar_after = later\<rparr>))))"

definition query_content_source ::
  "row_ports \<Rightarrow> utext \<Rightarrow> content_id \<Rightarrow> timeline_store \<Rightarrow> query_failure + projected_preview option" where
  "query_content_source ports room content s =
     (case find (\<lambda>c. active_in room c \<and> cr_content_id c = Some (rq_uuid_text ports content)) (tm_current s) of
        None \<Rightarrow> Inr None
      | Some c \<Rightarrow> map_sum id Some (decode_preview_row ports c))"

record timeline_loss =
  lz_after_event_id :: "utext option"
  lz_before_event_id :: utext

definition decode_loss :: "loss_row \<Rightarrow> query_failure + timeline_loss" where
  "decode_loss l =
     (if \<not> valid_event_id (lw_before_event_id l) \<or> \<not> opt_all (lw_after_event_id l) valid_event_id then Inl QueryCorrupt
      else Inr \<lparr>lz_after_event_id = lw_after_event_id l, lz_before_event_id = lw_before_event_id l\<rparr>)"

definition query_inbox_gaps :: "utext \<Rightarrow> utext list \<Rightarrow> timeline_store \<Rightarrow> query_failure + timeline_loss list" where
  "query_inbox_gaps room ids s =
     each decode_loss (filter (\<lambda>l. lw_room_id l = room \<and> lw_before_event_id l \<in> set ids) (tm_losses s))"

section \<open>The position of the inbox\<close>

definition query_inbox_event :: "row_ports \<Rightarrow> lookup_id \<Rightarrow> timeline_store \<Rightarrow> query_failure + (utext \<times> utext) option" where
  "query_inbox_event ports k s =
     (case find (lookup_matches ports k) (tm_current s) of
        None \<Rightarrow> Inr None
      | Some c \<Rightarrow>
          or_corrupt_query (valid_room_id (cr_room_id c) \<and> valid_event_id (cr_base_event_id c))
            (Some (cr_room_id c, cr_base_event_id c)))"

definition query_inbox_position :: "utext \<Rightarrow> timeline_store \<Rightarrow> query_failure + utext option" where
  "query_inbox_position room s =
     (case tm_acks s room of
        None \<Rightarrow> Inr None
      | Some a \<Rightarrow> or_corrupt_query (valid_event_id (aw_event_id a)) (Some (aw_event_id a)))"

record inbox_acknowledgement =
  ia_acknowledged :: bool
  ia_pending :: int

text \<open>\<open>IS NOT\<close>: a row whose actor has no such member counts.\<close>

definition pending_rows :: "utext \<Rightarrow> utext \<Rightarrow> timeline_store \<Rightarrow> current_row list" where
  "pending_rows room viewer s =
     (case tm_acks s room of
        None \<Rightarrow> []
      | Some a \<Rightarrow>
          filter (\<lambda>c. active_in room c \<and> cr_first_sequence c > aw_sequence a \<and>
            json_get ''matrixUserId'' (cr_actor c) \<noteq> Some (JString viewer)) (tm_current s))"

definition write_inbox_ack ::
  "query_failure option \<Rightarrow> utext \<Rightarrow> utext \<Rightarrow> utext \<Rightarrow> timeline_store \<Rightarrow>
     (query_failure + inbox_acknowledgement) \<times> timeline_store" where
  "write_inbox_ack fault room event viewer s =
     (case fault of
        Some e \<Rightarrow> (Inl e, s)
      | None \<Rightarrow>
          attempt (resolve_cursor room event s) s (\<lambda>sequence.
          let moved = (case tm_acks s room of None \<Rightarrow> True | Some a \<Rightarrow> sequence > aw_sequence a);
              t = (if moved then s\<lparr>tm_acks := (tm_acks s)(room \<mapsto> \<lparr>aw_event_id = event, aw_sequence = sequence\<rparr>)\<rparr> else s)
          in (Inr \<lparr>ia_acknowledged = moved, ia_pending = int (length (pending_rows room viewer t))\<rparr>, t)))"

end
