(* ===== verification/Message_Submissions.thy ===== *)
theory Message_Submissions
  imports Messages Matrix_Values Tables
begin

text \<open>
  What is remembered of every message this computer sends
  (\<^verbatim>\<open>bridge-storage-adapter/src/message_submissions.rs\<close>, with the types of
  \<^verbatim>\<open>bridge-core/src/messages/ports.rs\<close>): a submission is claimed with the digest of its intent and a
  transaction id, and then moves through unknown, accepted and bound. Each operation is a transaction;
  \<open>fault\<close> is the failure of a statement or of the commit, if there is one. The version of a UUID is a
  parameter.
\<close>

datatype submission_kind = SubmitPreview | SubmitReplace | SubmitRedact
datatype submission_state = Claimed | SubmitUnknown | SubmitAccepted | SubmitBound
datatype message_store_failure = StoreConflict | StoreNotFound | StoreUnavailable | StoreCorrupt

definition submission_kind_str :: "submission_kind \<Rightarrow> string" where
  "submission_kind_str k = (case k of SubmitPreview \<Rightarrow> ''preview'' | SubmitReplace \<Rightarrow> ''replace'' | SubmitRedact \<Rightarrow> ''redact'')"

definition submission_state_str :: "submission_state \<Rightarrow> string" where
  "submission_state_str s =
     (case s of
        Claimed \<Rightarrow> ''claimed''
      | SubmitUnknown \<Rightarrow> ''submit_unknown''
      | SubmitAccepted \<Rightarrow> ''accepted''
      | SubmitBound \<Rightarrow> ''bound'')"

record submission_claim =
  cl_submission_id :: uuid
  cl_kind :: submission_kind
  cl_fingerprint :: "8 word list"
  cl_transaction_id :: utext

record submission_record =
  su_submission_id :: uuid
  su_kind :: submission_kind
  su_fingerprint :: "8 word list"
  su_transaction_id :: utext
  su_state :: submission_state
  su_event_id :: "utext option"

datatype claim_outcome = CreatedClaim submission_record | ExistingClaim submission_record

definition claim_outcome_record :: "claim_outcome \<Rightarrow> submission_record" where
  "claim_outcome_record o' = (case o' of CreatedClaim r \<Rightarrow> r | ExistingClaim r \<Rightarrow> r)"

section \<open>Rows\<close>

type_synonym submission_table = "submission_record list"
type_synonym 'a submission_result = "message_store_failure + 'a"

definition expects_event :: "submission_state \<Rightarrow> bool" where
  "expects_event s \<longleftrightarrow> s = SubmitAccepted \<or> s = SubmitBound"

definition ensure_record_invariant :: "submission_record \<Rightarrow> unit submission_result" where
  "ensure_record_invariant r = ensure (expects_event (su_state r) = (su_event_id r \<noteq> None)) StoreCorrupt"

definition decode_record :: "(uuid \<Rightarrow> nat) \<Rightarrow> submission_record \<Rightarrow> submission_record submission_result" where
  "decode_record version r =
     (if version (su_submission_id r) \<noteq> 7 \<or> length (su_fingerprint r) \<noteq> 32 \<or> \<not> valid_transaction_id (su_transaction_id r) \<or>
         \<not> opt_all (su_event_id r) valid_event_id then Inl StoreCorrupt
      else and_then (ensure_record_invariant r) (\<lambda>_. Inr r))"

definition load_by_submission :: "(uuid \<Rightarrow> nat) \<Rightarrow> uuid \<Rightarrow> submission_table \<Rightarrow> submission_record submission_result" where
  "load_by_submission version k s =
     and_then (ok_or (find (\<lambda>r. su_submission_id r = k) s) StoreNotFound) (decode_record version)"

definition load_by_transaction ::
  "(uuid \<Rightarrow> nat) \<Rightarrow> utext \<Rightarrow> submission_table \<Rightarrow> submission_record option submission_result" where
  "load_by_transaction version k s =
     (case find (\<lambda>r. su_transaction_id r = k) s of None \<Rightarrow> Inr None | Some r \<Rightarrow> map_sum id Some (decode_record version r))"

definition write_state :: "uuid \<Rightarrow> submission_state \<Rightarrow> utext option \<Rightarrow> submission_table \<Rightarrow> submission_table submission_result" where
  "write_state k state event s =
     (if list_ex (\<lambda>r. su_submission_id r = k) s
      then Inr (update_where (\<lambda>r. su_submission_id r = k) (\<lambda>r. r\<lparr>su_state := state, su_event_id := event\<rparr>) s)
      else Inl StoreNotFound)"

definition ensure_same_intent :: "submission_record \<Rightarrow> submission_claim \<Rightarrow> unit submission_result" where
  "ensure_same_intent r c =
     ensure (su_kind r = cl_kind c \<and> su_fingerprint r = cl_fingerprint c \<and> su_transaction_id r = cl_transaction_id c)
       StoreConflict"

definition ensure_compatible_event_id :: "submission_record \<Rightarrow> utext \<Rightarrow> unit submission_result" where
  "ensure_compatible_event_id r event = ensure (opt_all (su_event_id r) (\<lambda>e. e = event)) StoreConflict"

section \<open>Operations\<close>

definition submission_write ::
  "message_store_failure option \<Rightarrow> (submission_table \<Rightarrow> ('a \<times> submission_table) submission_result) \<Rightarrow> submission_table \<Rightarrow>
     'a submission_result \<times> submission_table" where
  "submission_write fault body s =
     (case fault of
        Some e \<Rightarrow> (Inl e, s)
      | None \<Rightarrow> (case body s of Inl e \<Rightarrow> (Inl e, s) | Inr (x, t) \<Rightarrow> (Inr x, t)))"

definition claim_record ::
  "message_store_failure option \<Rightarrow> (uuid \<Rightarrow> nat) \<Rightarrow> submission_claim \<Rightarrow> submission_table \<Rightarrow>
     claim_outcome submission_result \<times> submission_table" where
  "claim_record fault version c = submission_write fault (\<lambda>s.
     let known = list_ex (\<lambda>r. su_submission_id r = cl_submission_id c) s;
         row = \<lparr>su_submission_id = cl_submission_id c, su_kind = cl_kind c, su_fingerprint = cl_fingerprint c,
                su_transaction_id = cl_transaction_id c, su_state = Claimed, su_event_id = None\<rparr>
     in and_then (if known then Inr s
                  else if list_ex (\<lambda>r. su_transaction_id r = cl_transaction_id c) s then Inl StoreConflict
                  else Inr (s @ [row])) (\<lambda>t.
        and_then (load_by_submission version (cl_submission_id c) t) (\<lambda>r.
        if known then and_then (ensure_same_intent r c) (\<lambda>_. Inr (ExistingClaim r, t))
        else Inr (CreatedClaim r, t))))"

definition mark_submit_unknown ::
  "message_store_failure option \<Rightarrow> (uuid \<Rightarrow> nat) \<Rightarrow> uuid \<Rightarrow> submission_table \<Rightarrow>
     submission_record submission_result \<times> submission_table" where
  "mark_submit_unknown fault version k = submission_write fault (\<lambda>s.
     and_then (load_by_submission version k s) (\<lambda>r.
     if su_state r = Claimed
     then and_then (write_state k SubmitUnknown None s) (\<lambda>t. Inr (r\<lparr>su_state := SubmitUnknown\<rparr>, t))
     else Inr (r, s)))"

definition accept_record :: "submission_record \<Rightarrow> utext \<Rightarrow> submission_table \<Rightarrow> (submission_record \<times> submission_table) submission_result" where
  "accept_record r event s =
     and_then (ensure_compatible_event_id r event) (\<lambda>_.
     if su_state r \<noteq> SubmitBound
     then and_then (write_state (su_submission_id r) SubmitAccepted (Some event) s) (\<lambda>t.
          Inr (r\<lparr>su_state := SubmitAccepted, su_event_id := Some event\<rparr>, t))
     else Inr (r, s))"

definition mark_accepted ::
  "message_store_failure option \<Rightarrow> (uuid \<Rightarrow> nat) \<Rightarrow> uuid \<Rightarrow> utext \<Rightarrow> submission_table \<Rightarrow>
     submission_record submission_result \<times> submission_table" where
  "mark_accepted fault version k event = submission_write fault (\<lambda>s.
     and_then (load_by_submission version k s) (\<lambda>r. accept_record r event s))"

definition mark_bound ::
  "message_store_failure option \<Rightarrow> (uuid \<Rightarrow> nat) \<Rightarrow> uuid \<Rightarrow> submission_table \<Rightarrow>
     submission_record submission_result \<times> submission_table" where
  "mark_bound fault version k = submission_write fault (\<lambda>s.
     and_then (load_by_submission version k s) (\<lambda>r.
     and_then (ok_or (su_event_id r) StoreCorrupt) (\<lambda>event.
     case su_state r of
       SubmitAccepted \<Rightarrow> and_then (write_state k SubmitBound (Some event) s) (\<lambda>t. Inr (r\<lparr>su_state := SubmitBound\<rparr>, t))
     | SubmitBound \<Rightarrow> Inr (r, s)
     | _ \<Rightarrow> Inl StoreCorrupt)))"

definition observe_transaction ::
  "message_store_failure option \<Rightarrow> (uuid \<Rightarrow> nat) \<Rightarrow> utext \<Rightarrow> utext \<Rightarrow> submission_table \<Rightarrow>
     submission_record option submission_result \<times> submission_table" where
  "observe_transaction fault version txn event = submission_write fault (\<lambda>s.
     and_then (load_by_transaction version txn s) (\<lambda>found.
     case found of
       None \<Rightarrow> Inr (None, s)
     | Some r \<Rightarrow> and_then (accept_record r event s) (\<lambda>(r', t). Inr (Some r', t))))"

section \<open>The life of a submission\<close>

definition state_rank :: "submission_state \<Rightarrow> nat" where
  "state_rank s = (case s of Claimed \<Rightarrow> 0 | SubmitUnknown \<Rightarrow> 1 | SubmitAccepted \<Rightarrow> 2 | SubmitBound \<Rightarrow> 3)"

text \<open>A table whose keys are unique and whose rows keep the check of the table.\<close>

definition submissions_ok :: "submission_table \<Rightarrow> bool" where
  "submissions_ok s \<longleftrightarrow> distinct (map su_submission_id s) \<and> distinct (map su_transaction_id s) \<and>
     (\<forall>r\<in>set s. expects_event (su_state r) = (su_event_id r \<noteq> None))"

definition submission_moved :: "submission_record \<Rightarrow> submission_record \<Rightarrow> bool" where
  "submission_moved r r' \<longleftrightarrow> su_submission_id r' = su_submission_id r \<and> su_kind r' = su_kind r \<and>
     su_fingerprint r' = su_fingerprint r \<and> su_transaction_id r' = su_transaction_id r \<and>
     state_rank (su_state r) \<le> state_rank (su_state r') \<and>
     (su_event_id r \<noteq> None \<longrightarrow> su_event_id r' = su_event_id r)"

definition submissions_moved :: "submission_table \<Rightarrow> submission_table \<Rightarrow> bool" where
  "submissions_moved s t \<longleftrightarrow> (\<forall>r\<in>set s. \<exists>r'\<in>set t. submission_moved r r')"

lemma submission_moved_refl [simp]: "submission_moved r r"
  by (simp add: submission_moved_def)

lemma submissions_moved_refl [simp]: "submissions_moved s s"
  unfolding submissions_moved_def by (blast intro: submission_moved_refl)

lemma submissions_moved_trans: "submissions_moved s t \<Longrightarrow> submissions_moved t u \<Longrightarrow> submissions_moved s u"
  unfolding submissions_moved_def submission_moved_def by (metis order_trans option.distinct(1))

lemma loaded_record:
  assumes "load_by_submission version k s = Inr r"
  shows "r \<in> set s" "su_submission_id r = k" "expects_event (su_state r) = (su_event_id r \<noteq> None)"
  using assms
  by (auto simp: load_by_submission_def decode_record_def ensure_record_invariant_def ensure_def result_simps ok_or_def
      find_Some_iff split: if_splits option.splits)

lemma found_transaction:
  assumes "load_by_transaction version k s = Inr (Some r)"
  shows "r \<in> set s" "su_transaction_id r = k" "expects_event (su_state r) = (su_event_id r \<noteq> None)"
proof -
  obtain x where x: "find (\<lambda>r. su_transaction_id r = k) s = Some x" "map_sum id Some (decode_record version x) = Inr (Some r)"
    using assms by (auto simp: load_by_transaction_def split: option.splits)
  then have "x \<in> set s" "su_transaction_id x = k" by (auto simp: find_Some_iff)
  moreover have "decode_record version x = Inr r" using x(2) by (cases "decode_record version x") simp_all
  ultimately show "r \<in> set s" "su_transaction_id r = k" "expects_event (su_state r) = (su_event_id r \<noteq> None)"
    by (auto simp: decode_record_def ensure_record_invariant_def ensure_def result_simps split: if_splits)
qed

text \<open>Writing a state that is allowed for the row with that key.\<close>

lemma write_state_ok:
  assumes "submissions_ok s" and "write_state k state event s = Inr t" and "r \<in> set s" and "su_submission_id r = k"
    and "submission_moved r (r\<lparr>su_state := state, su_event_id := event\<rparr>)" and "expects_event state = (event \<noteq> None)"
  shows "submissions_ok t \<and> submissions_moved s t"
proof -
  let ?f = "\<lambda>x. x\<lparr>su_state := state, su_event_id := event\<rparr>"
  have t: "t = map (\<lambda>x. if su_submission_id x = k then ?f x else x) s"
    using assms(2) by (auto simp: write_state_def update_where_def split: if_splits)
  have only: "x = r" if "x \<in> set s" "su_submission_id x = k" for x
    using assms(1,3,4) that by (auto simp: submissions_ok_def distinct_map inj_on_def)
  have "map su_submission_id t = map su_submission_id s" "map su_transaction_id t = map su_transaction_id s"
    by (simp_all add: t)
  moreover have "\<forall>r\<in>set t. expects_event (su_state r) = (su_event_id r \<noteq> None)"
    using assms(1,6) by (auto simp: submissions_ok_def t)
  ultimately have "submissions_ok t" using assms(1) unfolding submissions_ok_def by metis
  moreover have "submissions_moved s t"
    unfolding submissions_moved_def
  proof
    fix x assume x: "x \<in> set s"
    then have "(if su_submission_id x = k then ?f x else x) \<in> set t" by (auto simp: t)
    moreover have "submission_moved x (if su_submission_id x = k then ?f x else x)" using only [OF x] assms(5) by auto
    ultimately show "\<exists>x'\<in>set t. submission_moved x x'" by blast
  qed
  ultimately show ?thesis ..
qed

lemma write_ok:
  assumes "submissions_ok s" and "\<And>x t. body s = Inr (x, t) \<Longrightarrow> submissions_ok t \<and> submissions_moved s t"
  shows "submissions_ok (snd (submission_write fault body s)) \<and> submissions_moved s (snd (submission_write fault body s))"
  using assms by (auto simp: submission_write_def split: option.splits sum.splits)

lemma claim_ok:
  assumes "submissions_ok s"
  shows "submissions_ok (snd (claim_record fault version c s)) \<and> submissions_moved s (snd (claim_record fault version c s))"
  unfolding claim_record_def
proof (rule write_ok [OF assms])
  fix x t
  assume a: "(let known = list_ex (\<lambda>r. su_submission_id r = cl_submission_id c) s;
         row = \<lparr>su_submission_id = cl_submission_id c, su_kind = cl_kind c, su_fingerprint = cl_fingerprint c,
                su_transaction_id = cl_transaction_id c, su_state = Claimed, su_event_id = None\<rparr>
     in and_then (if known then Inr s
                  else if list_ex (\<lambda>r. su_transaction_id r = cl_transaction_id c) s then Inl StoreConflict
                  else Inr (s @ [row])) (\<lambda>t.
        and_then (load_by_submission version (cl_submission_id c) t) (\<lambda>r.
        if known then and_then (ensure_same_intent r c) (\<lambda>_. Inr (ExistingClaim r, t))
        else Inr (CreatedClaim r, t)))) = Inr (x, t)"
  show "submissions_ok t \<and> submissions_moved s t"
  proof (cases "list_ex (\<lambda>r. su_submission_id r = cl_submission_id c) s")
    case True
    then have "t = s" using a by (auto simp: Let_def result_simps)
    then show ?thesis using assms by simp
  next
    case False
    then have n: "\<not> list_ex (\<lambda>r. su_transaction_id r = cl_transaction_id c) s"
      and t: "t = s @ [\<lparr>su_submission_id = cl_submission_id c, su_kind = cl_kind c, su_fingerprint = cl_fingerprint c,
                su_transaction_id = cl_transaction_id c, su_state = Claimed, su_event_id = None\<rparr>]"
      using a by (auto simp: Let_def result_simps split: if_splits)
    have "submissions_moved s t" unfolding submissions_moved_def t by (metis UnCI set_append submission_moved_refl)
    moreover have "submissions_ok t"
      using assms False n by (auto simp: submissions_ok_def t expects_event_def list_ex_iff)
    ultimately show ?thesis by simp
  qed
qed

lemma unknown_ok:
  assumes "submissions_ok s"
  shows "submissions_ok (snd (mark_submit_unknown fault version k s)) \<and> submissions_moved s (snd (mark_submit_unknown fault version k s))"
  unfolding mark_submit_unknown_def
proof (rule write_ok [OF assms])
  fix x t
  assume "and_then (load_by_submission version k s) (\<lambda>r. if su_state r = Claimed
      then and_then (write_state k SubmitUnknown None s) (\<lambda>t. Inr (r\<lparr>su_state := SubmitUnknown\<rparr>, t)) else Inr (r, s)) = Inr (x, t)"
  then obtain r where r: "load_by_submission version k s = Inr r"
      "t = s \<or> su_state r = Claimed \<and> write_state k SubmitUnknown None s = Inr t"
    by (auto simp: result_simps split: if_splits)
  note l = loaded_record [OF r(1)]
  have "submission_moved r (r\<lparr>su_state := SubmitUnknown, su_event_id := None\<rparr>)" if "su_state r = Claimed"
    using that l(3) by (simp add: submission_moved_def state_rank_def expects_event_def)
  then show "submissions_ok t \<and> submissions_moved s t"
    using r(2) assms write_state_ok [OF assms _ l(1,2)] by (auto simp: expects_event_def)
qed

lemma accept_record_ok:
  assumes "submissions_ok s" and "r \<in> set s" and "accept_record r event s = Inr (x, t)"
  shows "submissions_ok t \<and> submissions_moved s t"
proof (cases "su_state r = SubmitBound")
  case True
  then show ?thesis using assms by (auto simp: accept_record_def result_simps)
next
  case False
  then have c: "opt_all (su_event_id r) (\<lambda>e. e = event)"
      "write_state (su_submission_id r) SubmitAccepted (Some event) s = Inr t"
    using assms(3) by (auto simp: accept_record_def ensure_compatible_event_id_def ensure_def result_simps split: if_splits)
  have "submission_moved r (r\<lparr>su_state := SubmitAccepted, su_event_id := Some event\<rparr>)"
    using False c(1) by (cases "su_state r") (auto simp: submission_moved_def state_rank_def opt_all_def)
  then show ?thesis using write_state_ok [OF assms(1) c(2) assms(2)] by (simp add: expects_event_def)
qed

lemma accepted_ok:
  assumes "submissions_ok s"
  shows "submissions_ok (snd (mark_accepted fault version k event s)) \<and> submissions_moved s (snd (mark_accepted fault version k event s))"
  unfolding mark_accepted_def
proof (rule write_ok [OF assms])
  fix x t assume "and_then (load_by_submission version k s) (\<lambda>r. accept_record r event s) = Inr (x, t)"
  then obtain r where "load_by_submission version k s = Inr r" "accept_record r event s = Inr (x, t)" by (auto simp: result_simps)
  then show "submissions_ok t \<and> submissions_moved s t" using accept_record_ok [OF assms loaded_record(1)] by blast
qed

lemma bound_ok:
  assumes "submissions_ok s"
  shows "submissions_ok (snd (mark_bound fault version k s)) \<and> submissions_moved s (snd (mark_bound fault version k s))"
  unfolding mark_bound_def
proof (rule write_ok [OF assms])
  fix x t
  assume "and_then (load_by_submission version k s) (\<lambda>r. and_then (ok_or (su_event_id r) StoreCorrupt) (\<lambda>event.
     case su_state r of
       SubmitAccepted \<Rightarrow> and_then (write_state k SubmitBound (Some event) s) (\<lambda>t. Inr (r\<lparr>su_state := SubmitBound\<rparr>, t))
     | SubmitBound \<Rightarrow> Inr (r, s)
     | _ \<Rightarrow> Inl StoreCorrupt)) = Inr (x, t)"
  then obtain r event where r: "load_by_submission version k s = Inr r" "su_event_id r = Some event"
      "(case su_state r of
          SubmitAccepted \<Rightarrow> and_then (write_state k SubmitBound (Some event) s) (\<lambda>t. Inr (r\<lparr>su_state := SubmitBound\<rparr>, t))
        | SubmitBound \<Rightarrow> Inr (r, s)
        | _ \<Rightarrow> Inl StoreCorrupt) = Inr (x, t)"
    by (auto simp: result_simps ok_or_def split: option.splits)
  have "t = s \<or> su_state r = SubmitAccepted \<and> write_state k SubmitBound (Some event) s = Inr t"
    using r(3) by (cases "su_state r") (auto simp: result_simps)
  note r = r(1,2) this
  note l = loaded_record [OF r(1)]
  have "submission_moved r (r\<lparr>su_state := SubmitBound, su_event_id := Some event\<rparr>)" if "su_state r = SubmitAccepted"
    using that r(2) by (simp add: submission_moved_def state_rank_def)
  then show "submissions_ok t \<and> submissions_moved s t"
    using r(3) assms write_state_ok [OF assms _ l(1,2)] by (auto simp: expects_event_def)
qed

lemma observe_ok:
  assumes "submissions_ok s"
  shows "submissions_ok (snd (observe_transaction fault version txn event s)) \<and>
    submissions_moved s (snd (observe_transaction fault version txn event s))"
  unfolding observe_transaction_def
proof (rule write_ok [OF assms])
  fix x t
  assume "and_then (load_by_transaction version txn s) (\<lambda>found. case found of None \<Rightarrow> Inr (None, s)
     | Some r \<Rightarrow> and_then (accept_record r event s) (\<lambda>(r', t). Inr (Some r', t))) = Inr (x, t)"
  then show "submissions_ok t \<and> submissions_moved s t"
    using assms accept_record_ok [OF assms found_transaction(1)] by (auto simp: result_simps split: option.splits)
qed

datatype submission_command =
    ClaimSubmission "message_store_failure option" submission_claim
  | MarkUnknown "message_store_failure option" uuid
  | MarkAccepted "message_store_failure option" uuid utext
  | MarkBound "message_store_failure option" uuid
  | ObserveTransaction "message_store_failure option" utext utext

definition submission_step :: "(uuid \<Rightarrow> nat) \<Rightarrow> submission_command \<Rightarrow> submission_table \<Rightarrow> bool \<times> submission_table" where
  "submission_step version c s =
     (case c of
        ClaimSubmission fault c \<Rightarrow> map_prod is_ok id (claim_record fault version c s)
      | MarkUnknown fault k \<Rightarrow> map_prod is_ok id (mark_submit_unknown fault version k s)
      | MarkAccepted fault k event \<Rightarrow> map_prod is_ok id (mark_accepted fault version k event s)
      | MarkBound fault k \<Rightarrow> map_prod is_ok id (mark_bound fault version k s)
      | ObserveTransaction fault txn event \<Rightarrow> map_prod is_ok id (observe_transaction fault version txn event s))"

lemma submission_step_ok:
  "submissions_ok s \<Longrightarrow> submissions_ok (snd (submission_step version c s)) \<and> submissions_moved s (snd (submission_step version c s))"
  using claim_ok unknown_ok accepted_ok bound_ok observe_ok by (cases c) (simp_all add: submission_step_def)

interpretation submissions: guarded_machine "submission_step version" "\<lambda>_. True" submissions_ok for version
  by unfold_locales (use submission_step_ok in blast)

text \<open>
  C19: a submission keeps its intent and moves in one direction. Whatever is claimed, marked and observed
  afterwards, in whatever order and with whatever failures, its row stays, with the same kind, digest
  and transaction; its state never moves back, and an event id that was recorded for it is never
  replaced by another.
\<close>

theorem submission_keeps_intent:
  assumes "r \<in> set (replay (submission_step version) cs [])"
  shows "\<exists>r'\<in>set (replay (submission_step version) (cs @ ds) []). submission_moved r r'"
proof -
  define s where "s = replay (submission_step version) cs []"
  have s: "submissions_ok s"
    unfolding s_def by (rule submissions.replay_wf) (simp_all add: list_all_iff submissions_ok_def)
  have "submissions_moved s (replay (submission_step version) ds s)"
  proof (rule submissions.replay_induct [where P = "submissions_moved s"])
    fix c t assume "submissions_ok t" "submissions_moved s t"
    then show "submissions_moved s (snd (submission_step version c t))"
      using submission_step_ok submissions_moved_trans by blast
  qed (use s in \<open>simp_all add: list_all_iff\<close>)
  then show ?thesis using assms by (simp add: submissions_moved_def replay_append s_def)
qed

definition sample_claim :: submission_claim where
  "sample_claim = \<lparr>cl_submission_id = 1, cl_kind = SubmitPreview, cl_fingerprint = replicate 32 0, cl_transaction_id = lit ''t''\<rparr>"

lemma submission_keeps_intent_witness:
  "\<exists>r\<in>set (replay (submission_step (\<lambda>_. 7)) [ClaimSubmission None sample_claim] []).
     \<exists>r'\<in>set (replay (submission_step (\<lambda>_. 7))
       [ClaimSubmission None sample_claim, MarkAccepted None 1 (lit ''$e:x.y''), MarkBound None 1] []). submission_moved r r'"
proof -
  have "replay (submission_step (\<lambda>_. 7)) [ClaimSubmission None sample_claim] [] =
      [\<lparr>su_submission_id = 1, su_kind = SubmitPreview, su_fingerprint = replicate 32 0, su_transaction_id = lit ''t'',
        su_state = Claimed, su_event_id = None\<rparr>]" by code_simp
  then show ?thesis
    using submission_keeps_intent [of _ "\<lambda>_. 7" "[ClaimSubmission None sample_claim]"
        "[MarkAccepted None 1 (lit ''$e:x.y''), MarkBound None 1]"] by simp
qed

end
