(* ===== verification/Message_Incoming.thy ===== *)
theory Message_Incoming
  imports Message_Wire Message_Inbox Message_Submissions
begin

text \<open>
  From a synchronisation to the local time line (\<^verbatim>\<open>bridge-core/src/messages/incoming.rs\<close>): an event is
  read, checked and authenticated; what passes becomes a mutation of the time line, anything else is isolated
  with its reason, and the whole batch is written with the position of the synchronisation in one
  transaction. The parameters of \<open>sync_ports\<close> stand for base 64, canonical JSON, UUIDs, RFC 3339, the
  registry of instances and the check of signatures; those of \<open>row_ports\<close> are used by the store.
\<close>

section \<open>Parsing\<close>

definition or_invalid :: "'e + 'a \<Rightarrow> message_issue_reason + 'a" where
  "or_invalid r = map_sum (\<lambda>_. IssueInvalidEnvelope) id r"

definition some_or_invalid :: "'a option \<Rightarrow> message_issue_reason + 'a" where
  "some_or_invalid x = ok_or x IssueInvalidEnvelope"

definition message_v7 :: "sync_ports \<Rightarrow> utext \<Rightarrow> message_issue_reason + uuid" where
  "message_v7 ports v = or_invalid (parse_v7 ports v)"

definition message_time :: "sync_ports \<Rightarrow> utext \<Rightarrow> message_issue_reason + utc_millis" where
  "message_time ports v = or_invalid (parse_time ports v)"

definition parse_sha256 :: "utext \<Rightarrow> message_issue_reason + 8 word list" where
  "parse_sha256 v = or_invalid (decode_digest v)"

definition bounded_object :: "json \<Rightarrow> nat \<Rightarrow> message_issue_reason + unit" where
  "bounded_object v limit =
     (case v of JObject ms \<Rightarrow> if length ms \<le> limit then Inr () else Inl IssueInvalidEnvelope
      | _ \<Rightarrow> Inl IssueInvalidEnvelope)"

definition bounded_member :: "string \<Rightarrow> nat \<Rightarrow> json \<Rightarrow> message_issue_reason + unit" where
  "bounded_member k limit v = (case json_get k v of None \<Rightarrow> Inr () | Some x \<Rightarrow> bounded_object x limit)"

definition message_property_limits :: "json \<Rightarrow> message_issue_reason + unit" where
  "message_property_limits content =
     and_then (bounded_object content 24) (\<lambda>_.
     and_then (some_or_invalid (json_get ''actor'' content)) (\<lambda>actor.
     and_then (bounded_object actor 12) (\<lambda>_.
     and_then (if Option.bind (json_get ''kind'' actor) json_str \<noteq> Some (lit ''human'')
               then and_then (some_or_invalid (json_get ''agent'' actor)) (\<lambda>agent. bounded_object agent 12)
               else Inr ()) (\<lambda>_.
     and_then (bounded_member ''preview'' 16 content) (\<lambda>_.
     and_then (bounded_member ''content'' 16 content) (\<lambda>_.
     bounded_member ''relation'' 8 content))))))"

definition validate_common :: "sync_ports \<Rightarrow> incoming_envelope \<Rightarrow> utext \<Rightarrow> utext \<Rightarrow> message_issue_reason + unit" where
  "validate_common ports w event_type room =
     (if io_room_id w \<noteq> room then Inl IssueRoomMismatch
      else if io_schema_version w \<noteq>
                (if event_type \<in> {PREVIEW_EVENT_TYPE_V2, REVISION_EVENT_TYPE_V2} then lit ''2.0'' else lit ''1.0'') \<or>
              io_event_type w \<noteq> event_type \<or> sp_parse_uuid ports (io_correlation_id w) = None
      then Inl IssueInvalidEnvelope
      else Inr ())"

definition message_provenance_of :: "wire_provenance \<Rightarrow> message_provenance" where
  "message_provenance_of p =
     (case p of
        WireHuman \<Rightarrow> Human
      | WireHumanConfirmedAgent \<Rightarrow> HumanConfirmedAgent
      | WireAutonomousAgent \<Rightarrow> AutonomousAgent)"

definition parse_actor :: "sync_ports \<Rightarrow> wire_actor \<Rightarrow> message_event \<Rightarrow> message_issue_reason + message_actor" where
  "parse_actor ports a event =
     and_then (ok_or (te_sender event) IssueMissingEnvelope) (\<lambda>sender.
     if wa_matrix_user_id a \<noteq> sender then Inl IssueSenderMismatch
     else
       and_then (message_v7 ports (wa_agent_id a)) (\<lambda>agent.
       and_then (message_v7 ports (wa_instance_id a)) (\<lambda>inst.
       and_then (or_invalid (wire_identity agent inst a)) (\<lambda>identity.
       Inr (agent_actor_new identity (message_provenance_of (wa_provenance a)))))))"

definition human_is_bad :: "wire_human \<Rightarrow> bool" where
  "human_is_bad h \<longleftrightarrow> trim (wh_display_name h) = [] \<or> length (wh_display_name h) > 80 \<or>
     list_ex is_control (wh_display_name h) \<or>
     opt_any (wh_avatar_url h) (\<lambda>url. \<not> starts_with (lit ''https://'') url \<or> byte_len url > 2048 \<or> list_ex is_control url)"

definition parse_human :: "sync_ports \<Rightarrow> wire_human \<Rightarrow> message_event \<Rightarrow> message_issue_reason + message_actor" where
  "parse_human ports h event =
     and_then (ok_or (te_sender event) IssueMissingEnvelope) (\<lambda>sender.
     if sender \<noteq> wh_matrix_user_id h then Inl IssueSenderMismatch
     else if human_is_bad h then Inl IssueInvalidEnvelope
     else
       and_then (message_v7 ports (wh_principal_id h)) (\<lambda>p.
       Inr (HumanActor p (wh_display_name h) sender (wh_avatar_url h))))"

definition parse_message_actor :: "sync_ports \<Rightarrow> json \<Rightarrow> message_event \<Rightarrow> message_issue_reason + message_actor" where
  "parse_message_actor ports v event =
     (if te_event_type event \<in> {PREVIEW_EVENT_TYPE, REVISION_EVENT_TYPE}
      then and_then (some_or_invalid (read_actor_ref v)) (\<lambda>a. parse_actor ports a event)
      else
        and_then (some_or_invalid (read_any_actor v)) (\<lambda>a.
        case a of
          AnyHuman h \<Rightarrow> if wh_kind h = lit ''human'' then parse_human ports h event else Inl IssueInvalidEnvelope
        | AnyAgent kind agent \<Rightarrow> if kind = lit ''agent'' then parse_actor ports agent event else Inl IssueInvalidEnvelope))"

definition parse_conversation ::
  "wire_preview \<Rightarrow> bool \<Rightarrow> message_preview \<Rightarrow> wire_conversation \<Rightarrow> message_issue_reason + message_preview" where
  "parse_conversation p encrypted result c =
     (if wc_attachment_name c = None \<and> mp_content_type result \<noteq> lit ''text/plain'' then Inl IssueInvalidEnvelope
      else
        and_then (or_invalid (and_then (conversation_new (wc_text c) (wc_mentions c)) (with_attachment_name (wc_attachment_name c)))) (\<lambda>chat.
        Inr (with_conversation (with_mentions_everyone (encrypted \<and> wv_mentions_everyone p = Some True) chat) result)))"

definition parse_preview :: "wire_preview \<Rightarrow> bool \<Rightarrow> message_issue_reason + message_preview" where
  "parse_preview p encrypted =
     and_then (case wv_language p of None \<Rightarrow> Inr None | Some l \<Rightarrow> map_sum id Some (or_invalid (message_language_new l))) (\<lambda>language.
     and_then (or_invalid (and_then (each message_risk_flag_new (wv_risk_flags p)) message_risk_flags_new)) (\<lambda>flags.
     and_then (or_invalid (message_title_new (wv_title p))) (\<lambda>title.
     and_then (or_invalid (message_summary_new (wv_summary p))) (\<lambda>summary.
     and_then (or_invalid (media_type_new (wv_content_type p))) (\<lambda>content_type.
     let result = message_preview_new title summary content_type language (wv_sensitivity p) flags
     in (case wv_conversation p of None \<Rightarrow> Inr result | Some c \<Rightarrow> parse_conversation p encrypted result c))))))"

definition parse_array :: "sync_ports \<Rightarrow> nat \<Rightarrow> utext \<Rightarrow> message_issue_reason + 8 word list" where
  "parse_array ports n v =
     (case sp_decode_base64 ports v of
        None \<Rightarrow> Inl IssueInvalidEnvelope
      | Some bytes \<Rightarrow> if length bytes = n then Inr bytes else Inl IssueInvalidEnvelope)"

definition parse_client_encryption :: "sync_ports \<Rightarrow> wire_encryption \<Rightarrow> message_issue_reason + client_content_encryption" where
  "parse_client_encryption ports e =
     and_then (or_invalid (client_algorithm_of_str (text_string (we_algorithm e)))) (\<lambda>algorithm.
     and_then (message_v7 ports (we_context_id e)) (\<lambda>context.
     and_then (parse_array ports CLIENT_CONTENT_KEY_BYTES (we_key_base64_url e)) (\<lambda>key.
     and_then (parse_array ports CLIENT_CONTENT_NONCE_BYTES (we_nonce_base64_url e)) (\<lambda>nonce.
     or_invalid (client_content_encryption_new algorithm context key nonce (we_plaintext_size_bytes e))))))"

definition parse_content ::
  "sync_ports \<Rightarrow> wire_content \<Rightarrow> message_preview \<Rightarrow> utext \<Rightarrow> bool \<Rightarrow> message_issue_reason + message_content_reference" where
  "parse_content ports c preview context encrypted =
     (if wt_fetch_mode c \<noteq> lit ''on_demand'' \<or> wt_media_type c \<noteq> mp_content_type preview then Inl IssueInvalidEnvelope
      else
        and_then (message_v7 ports (wt_content_id c)) (\<lambda>cid.
        and_then (parse_sha256 (wt_digest_sha256 c)) (\<lambda>digest.
        and_then (or_invalid (message_content_reference_new cid digest (wt_size_bytes c))) (\<lambda>reference.
        case wt_encryption c of
          None \<Rightarrow> Inr reference
        | Some e \<Rightarrow>
            if \<not> encrypted \<or> we_context_id e \<noteq> context then Inl IssueInvalidEnvelope
            else and_then (parse_client_encryption ports e) (\<lambda>x. Inr (with_client_encryption x reference))))))"

definition parse_relation :: "sync_ports \<Rightarrow> wire_relation \<Rightarrow> message_issue_reason + message_relation" where
  "parse_relation ports r =
     (if wl_kind r \<noteq> lit ''reply'' then Inl IssueInvalidEnvelope
      else and_then (message_v7 ports (wl_target_message_id r)) (\<lambda>m. Inr (ReplyTo m)))"

definition parse_preview_event :: "sync_ports \<Rightarrow> utext \<Rightarrow> message_event \<Rightarrow> message_issue_reason + message_mutation" where
  "parse_preview_event ports room event =
     and_then (some_or_invalid (read_incoming_preview (te_content event))) (\<lambda>w.
     and_then (validate_common ports (ip_envelope w) (te_event_type event) room) (\<lambda>_.
     and_then (parse_message_actor ports (io_actor (ip_envelope w)) event) (\<lambda>actor.
     and_then (parse_preview (ip_preview w) (me_encrypted event)) (\<lambda>preview.
     and_then (parse_content ports (ip_content w) preview (io_id (ip_envelope w)) (me_encrypted event)) (\<lambda>content.
     and_then (case ip_relation w of None \<Rightarrow> Inr None | Some r \<Rightarrow> map_sum id Some (parse_relation ports r)) (\<lambda>relation.
     and_then (message_v7 ports (io_id (ip_envelope w))) (\<lambda>message.
     and_then (message_time ports (io_created_at (ip_envelope w))) (\<lambda>created.
     Inr (PreviewMutation
       \<lparr>pp_event_id = unwrap_or (te_event_id event) [], pp_transaction_id = me_transaction_id event, pp_room_id = room,
        pp_message_id = message, pp_created_at = created, pp_origin_server_timestamp = te_origin_server_timestamp event,
        pp_actor = actor, pp_preview = preview, pp_content = content, pp_relation = relation\<rparr>)))))))))"

text \<open>What a revision of a kind carries: a replacement both parts, the others none.\<close>

definition revision_payload ::
  "sync_ports \<Rightarrow> incoming_revision \<Rightarrow> bool \<Rightarrow>
     message_issue_reason + message_preview option \<times> message_content_reference option" where
  "revision_payload ports w encrypted =
     (case iv_kind w of
        Replace \<Rightarrow>
          and_then (some_or_invalid (iv_preview w)) (\<lambda>p.
          and_then (parse_preview p encrypted) (\<lambda>preview.
          and_then (some_or_invalid (iv_content w)) (\<lambda>c.
          and_then (parse_content ports c preview (io_id (iv_envelope w)) encrypted) (\<lambda>content.
          Inr (Some preview, Some content)))))
      | _ \<Rightarrow> if iv_preview w = None \<and> iv_content w = None then Inr (None, None) else Inl IssueInvalidEnvelope)"

definition parse_revision_event :: "sync_ports \<Rightarrow> utext \<Rightarrow> message_event \<Rightarrow> message_issue_reason + message_mutation" where
  "parse_revision_event ports room event =
     and_then (some_or_invalid (read_incoming_revision (te_content event))) (\<lambda>w.
     and_then (validate_common ports (iv_envelope w) (te_event_type event) room) (\<lambda>_.
     and_then (parse_message_actor ports (io_actor (iv_envelope w)) event) (\<lambda>actor.
     and_then (revision_payload ports w (me_encrypted event)) (\<lambda>(preview, content).
     and_then (message_v7 ports (io_id (iv_envelope w))) (\<lambda>revision.
     and_then (message_v7 ports (iv_target_message_id w)) (\<lambda>target.
     and_then (message_time ports (io_created_at (iv_envelope w))) (\<lambda>created.
     Inr (RevisionMutation
       \<lparr>px_event_id = unwrap_or (te_event_id event) [], px_transaction_id = me_transaction_id event, px_room_id = room,
        px_revision_id = revision, px_target_message_id = target, px_created_at = created,
        px_origin_server_timestamp = te_origin_server_timestamp event, px_actor = actor, px_kind = iv_kind w,
        px_preview = preview, px_content = content\<rparr>))))))))"

record pending_authentication =
  pa_agent_id :: agent_id
  pa_instance_id :: agent_instance_id
  pa_origin_server_timestamp :: utc_millis
  pa_canonical_event :: "8 word list"
  pa_signature :: "8 word list"

definition pending_authentication_of ::
  "sync_ports \<Rightarrow> message_event \<Rightarrow> utc_millis \<Rightarrow> message_mutation \<Rightarrow> message_issue_reason + pending_authentication option" where
  "pending_authentication_of ports event timestamp m =
     (case actor_identity (mutation_actor m) of
        Some i \<Rightarrow>
          and_then (or_invalid (canonical_and_signature ports (te_content event))) (\<lambda>(canonical, signature).
          Inr (Some \<lparr>pa_agent_id = bi_agent_id i, pa_instance_id = bi_agent_instance_id i,
                     pa_origin_server_timestamp = timestamp, pa_canonical_event = canonical, pa_signature = signature\<rparr>))
      | None \<Rightarrow> if json_get ''signature'' (te_content event) = None then Inr None else Inl IssueInvalidEnvelope)"

definition parse_pending_message ::
  "sync_ports \<Rightarrow> utext \<Rightarrow> message_event \<Rightarrow> message_issue_reason + message_mutation \<times> pending_authentication option" where
  "parse_pending_message ports room event =
     (if me_encrypted event \<and> \<not> me_sender_trusted event then Inl IssueUntrustedEncryptedSender
      else if te_event_id event = None \<or> te_sender event = None \<or> te_state_key event \<noteq> None then Inl IssueMissingEnvelope
      else
        and_then (ok_or (envelope_timestamp (timeline_event.truncate event)) IssueMissingEnvelope) (\<lambda>timestamp.
        and_then (message_property_limits (te_content event)) (\<lambda>_.
        and_then (if te_event_type event \<in> {PREVIEW_EVENT_TYPE, PREVIEW_EVENT_TYPE_V2} then parse_preview_event ports room event
                  else if te_event_type event \<in> {REVISION_EVENT_TYPE, REVISION_EVENT_TYPE_V2}
                  then parse_revision_event ports room event
                  else Inl IssueInvalidEnvelope) (\<lambda>m.
        and_then (pending_authentication_of ports event timestamp m) (\<lambda>authentication.
        Inr (m, authentication))))))"

section \<open>Isolating events\<close>

definition message_issue_of :: "utext \<Rightarrow> message_event \<Rightarrow> message_issue_reason \<Rightarrow> nat \<Rightarrow> message_issue" where
  "message_issue_of room event reason before_count =
     \<lparr>mi_room_id = room, mi_event_id = te_event_id event, mi_reason = reason, mi_mutations_before = before_count,
      mi_session = None\<rparr>"

definition session_field_ok :: "utext \<Rightarrow> bool" where
  "session_field_ok v \<longleftrightarrow> v \<noteq> [] \<and> byte_len v \<le> MAX_SESSION_FIELD_BYTES"

definition undecryptable_session_of :: "message_event \<Rightarrow> undecryptable_session option" where
  "undecryptable_session_of event =
     Option.bind (Option.bind (json_get ''session_id'' (te_content event)) json_str) (\<lambda>session.
     if \<not> session_field_ok session then None
     else
       Option.bind (case json_get ''device_id'' (te_content event) of
                      None \<Rightarrow> Some None
                    | Some JNull \<Rightarrow> Some None
                    | Some (JString d) \<Rightarrow> if session_field_ok d then Some (Some d) else None
                    | Some _ \<Rightarrow> None) (\<lambda>device.
       Option.bind (te_sender event) (\<lambda>sender.
       Some \<lparr>uz_sender = sender, uz_sender_device = device, uz_session_id = session\<rparr>)))"

definition message_authentication_issue :: "authentication_decision \<Rightarrow> message_issue_reason" where
  "message_authentication_issue d =
     (case d of
        AuthTrusted \<Rightarrow> IssueInvalidEnvelope
      | AuthTrustedHistoricalRevoked \<Rightarrow> IssueInvalidEnvelope
      | AuthUnknownInstance \<Rightarrow> IssueUnknownInstance
      | AuthRevokedInstance \<Rightarrow> IssueRevokedInstance
      | AuthAgentInstanceMismatch \<Rightarrow> IssueAgentInstanceMismatch
      | AuthInvalidSignature \<Rightarrow> IssueInvalidSignature
      | AuthOutsideValidityWindow \<Rightarrow> IssueOutsideInstanceValidityWindow)"

definition authenticate_message ::
  "sync_ports \<Rightarrow> pending_authentication option \<Rightarrow> authentication_failure + authentication_decision" where
  "authenticate_message ports a =
     (case a of
        None \<Rightarrow> Inr AuthTrusted
      | Some p \<Rightarrow>
          authenticate_internal ports (pa_agent_id p) (pa_instance_id p) (pa_origin_server_timestamp p)
            (pa_canonical_event p) (pa_signature p))"

section \<open>One room\<close>

type_synonym projected_events = "message_mutation list \<times> message_issue list"

definition project_event ::
  "sync_ports \<Rightarrow> utext \<Rightarrow> message_event \<Rightarrow> projected_events \<Rightarrow> authentication_failure + projected_events" where
  "project_event ports room event acc =
     (case acc of (ms, is) \<Rightarrow>
        if is_undecryptable event
        then Inr (ms, is @ [(message_issue_of room event IssueUndecryptable (length ms))
               \<lparr>mi_session := undecryptable_session_of event\<rparr>])
        else if \<not> is_message_event event then Inr (ms, is)
        else
          (case parse_pending_message ports room event of
             Inl reason \<Rightarrow> Inr (ms, is @ [message_issue_of room event reason (length ms)])
           | Inr (m, authentication) \<Rightarrow>
               and_then (authenticate_message ports authentication) (\<lambda>decision.
               case decision of
                 AuthTrusted \<Rightarrow> Inr (ms @ [m], is)
               | AuthTrustedHistoricalRevoked \<Rightarrow> Inr (ms @ [mark_instance_revoked m], is)
               | _ \<Rightarrow> Inr (ms, is @ [message_issue_of room event (message_authentication_issue decision) (length ms)]))))"

definition project_room_events ::
  "sync_ports \<Rightarrow> utext \<Rightarrow> message_event list \<Rightarrow> projected_events \<Rightarrow> authentication_failure + projected_events" where
  "project_room_events ports room events = run_each (project_event ports room) events"

section \<open>One synchronisation\<close>

record message_room_sync =
  mr_room_id :: utext
  mr_kind :: room_sync_kind
  mr_limited :: bool
  mr_previous_batch :: "utext option"
  mr_timeline :: "message_event list"

record message_sync =
  mq_next_batch :: utext
  mq_rooms :: "message_room_sync list"

datatype message_sync_failure =
    SyncSubmissionStore message_store_failure
  | SyncAuthentication authentication_failure
  | SyncProjectionStore projection_failure

record message_sync_outcome =
  mo_accepted_events :: nat
  mo_isolated_events :: nat
  mo_timeline_gaps :: nat
  mo_reconciled_submissions :: nat

text \<open>The stores of the service, and the failures of the database they meet during a call.\<close>

record message_stores =
  mst_timeline :: timeline_store
  mst_submissions :: submission_table

record store_faults =
  sf_observe :: "utext \<Rightarrow> message_store_failure option"
  sf_read :: "utext \<Rightarrow> projection_failure option"
  sf_apply :: "projection_failure option"

definition observable :: "message_event \<Rightarrow> (utext \<times> utext) option" where
  "observable event = (case (me_transaction_id event, te_event_id event) of (Some t, Some e) \<Rightarrow> Some (t, e) | _ \<Rightarrow> None)"

fun reconcile_events ::
  "(utext \<Rightarrow> message_store_failure option) \<Rightarrow> (uuid \<Rightarrow> nat) \<Rightarrow> message_event list \<Rightarrow> nat \<Rightarrow> submission_table \<Rightarrow>
     (message_sync_failure + nat) \<times> submission_table" where
  "reconcile_events faults version [] n s = (Inr n, s)"
| "reconcile_events faults version (event # events) n s =
     (case observable event of
        None \<Rightarrow> reconcile_events faults version events n s
      | Some (txn, k) \<Rightarrow>
          (case observe_transaction (faults txn) version txn k s of
             (Inl e, t) \<Rightarrow> (Inl (SyncSubmissionStore e), t)
           | (Inr found, t) \<Rightarrow> reconcile_events faults version events (if found = None then n else n + 1) t))"

definition reconcile_submissions ::
  "store_faults \<Rightarrow> sync_ports \<Rightarrow> message_sync \<Rightarrow> submission_table \<Rightarrow> (message_sync_failure + nat) \<times> submission_table" where
  "reconcile_submissions faults ports sync =
     reconcile_events (sf_observe faults) (sp_uuid_version ports) (concat (map mr_timeline (mq_rooms sync))) 0"

record collected_batch =
  cb_events :: projected_events
  cb_gaps :: "timeline_gap list"

definition collect_room ::
  "store_faults \<Rightarrow> sync_ports \<Rightarrow> timeline_store \<Rightarrow> message_room_sync \<Rightarrow> collected_batch \<Rightarrow>
     message_sync_failure + collected_batch" where
  "collect_room faults ports s room b =
     and_then
       (if mr_limited room
        then (case sf_read faults (mr_room_id room) of
                Some e \<Rightarrow> Inl (SyncProjectionStore e)
              | None \<Rightarrow>
                  if room_has_messages (mr_room_id room) s
                  then Inr (cb_gaps b @ [\<lparr>tl_room_id = mr_room_id room, tl_previous_batch = mr_previous_batch room\<rparr>])
                  else Inr (cb_gaps b))
        else Inr (cb_gaps b)) (\<lambda>gaps.
     and_then (map_sum SyncAuthentication id (project_room_events ports (mr_room_id room) (mr_timeline room) (cb_events b))) (\<lambda>events.
     Inr \<lparr>cb_events = events, cb_gaps = gaps\<rparr>))"

definition collect_sync ::
  "store_faults \<Rightarrow> sync_ports \<Rightarrow> message_sync \<Rightarrow> timeline_store \<Rightarrow> message_sync_failure + collected_batch" where
  "collect_sync faults ports sync s =
     run_each (collect_room faults ports s) (filter (\<lambda>r. mr_kind r = SyncJoined) (mq_rooms sync))
       \<lparr>cb_events = ([], []), cb_gaps = []\<rparr>"

definition sync_batch :: "message_sync \<Rightarrow> collected_batch \<Rightarrow> message_projection_batch" where
  "sync_batch sync b =
     \<lparr>pc_next_batch = mq_next_batch sync, pc_mutations = fst (cb_events b), pc_issues = snd (cb_events b), pc_gaps = cb_gaps b\<rparr>"

definition process_messages ::
  "store_faults \<Rightarrow> sync_ports \<Rightarrow> row_ports \<Rightarrow> message_sync \<Rightarrow> message_stores \<Rightarrow>
     (message_sync_failure + message_sync_outcome) \<times> message_stores" where
  "process_messages faults ports rows sync st =
     (case reconcile_submissions faults ports sync (mst_submissions st) of
        (Inl e, t) \<Rightarrow> (Inl e, st\<lparr>mst_submissions := t\<rparr>)
      | (Inr reconciled, t) \<Rightarrow>
          attempt (collect_sync faults ports sync (mst_timeline st)) (st\<lparr>mst_submissions := t\<rparr>) (\<lambda>b.
          case apply_batch (sf_apply faults) rows (sync_batch sync b) (mst_timeline st) of
            (Inl e, line) \<Rightarrow> (Inl (SyncProjectionStore e), st\<lparr>mst_submissions := t, mst_timeline := line\<rparr>)
          | (Inr _, line) \<Rightarrow>
              (Inr \<lparr>mo_accepted_events = length (fst (cb_events b)), mo_isolated_events = length (snd (cb_events b)),
                    mo_timeline_gaps = length (cb_gaps b), mo_reconciled_submissions = reconciled\<rparr>,
               st\<lparr>mst_submissions := t, mst_timeline := line\<rparr>)))"

end
