(* ===== verification/Timeline_Facts.thy ===== *)
theory Timeline_Facts
  imports Message_Timeline
begin

text \<open>
  What the store of messages keeps true (\<open>timeline_ok\<close>): numbers are unique and those kept for isolated
  events are free; every current message shows what its revisions say when they are replayed in the order of
  their numbers, whatever the order in which they were written. The theorems on runs are in
  \<open>Timeline_Theorems\<close>.
\<close>

section \<open>Replaying the log\<close>

datatype shown_message = Hidden | Shown json json utext "utext option"

definition row_shown :: "current_row \<Rightarrow> shown_message" where
  "row_shown c =
     (case (cr_visibility c, cr_content c, cr_content_id c) of
        (MessageActive, Some content, Some k) \<Rightarrow> Shown (cr_preview c) content k (cr_last_revision_event_id c)
      | _ \<Rightarrow> Hidden)"

definition revised :: "event_row \<Rightarrow> shown_message" where
  "revised r =
     (case (er_preview r, er_content r, er_content_id r) of
        (Some p, Some c, Some k) \<Rightarrow> Shown p c k (Some (er_event_id r))
      | _ \<Rightarrow> Hidden)"

definition original :: "event_row \<Rightarrow> shown_message" where
  "original b =
     (case (er_preview b, er_content b, er_content_id b) of
        (Some p, Some c, Some k) \<Rightarrow> Shown p c k None
      | _ \<Rightarrow> Hidden)"

text \<open>A revision counts when it is by the author of the message; what is hidden stays hidden.\<close>

definition revise :: "utext \<Rightarrow> event_row \<Rightarrow> shown_message \<Rightarrow> shown_message" where
  "revise subject r st =
     (if st = Hidden \<or> er_subject_key r \<noteq> subject then st
      else (case er_revision_kind r of
              Some Replace \<Rightarrow> revised r
            | Some RedactRevision \<Rightarrow> Hidden
            | _ \<Rightarrow> st))"

definition revisions_of :: "event_row list \<Rightarrow> event_row \<Rightarrow> event_row list" where
  "revisions_of events b = filter (\<lambda>r. er_kind r = RevisionEvent \<and> er_room_id r = er_room_id b \<and>
     er_message_id r = er_message_id b) events"

definition replay_message :: "event_row list \<Rightarrow> event_row \<Rightarrow> shown_message" where
  "replay_message events b =
     fold (revise (er_subject_key b)) (sort_key er_sequence (revisions_of events b)) (original b)"

section \<open>The state after a set of revisions\<close>

definition is_replace :: "event_row \<Rightarrow> bool" where "is_replace r \<longleftrightarrow> er_revision_kind r = Some Replace"
definition is_redact :: "event_row \<Rightarrow> bool" where "is_redact r \<longleftrightarrow> er_revision_kind r = Some RedactRevision"

definition complete_row :: "event_row \<Rightarrow> bool" where
  "complete_row e \<longleftrightarrow> event_check e \<and> ((er_content e = None) = (er_content_id e = None))"

definition latest_in :: "event_row set \<Rightarrow> event_row \<Rightarrow> bool" where
  "latest_in R r \<longleftrightarrow> r \<in> R \<and> is_replace r \<and> (\<forall>r'\<in>R. is_replace r' \<longrightarrow> er_sequence r' \<le> er_sequence r)"

definition shown_after :: "event_row set \<Rightarrow> event_row \<Rightarrow> shown_message \<Rightarrow> bool" where
  "shown_after R b st \<longleftrightarrow>
     (if \<exists>r\<in>R. is_redact r then st = Hidden
      else if \<exists>r\<in>R. is_replace r then \<exists>r. latest_in R r \<and> st = revised r
      else st = original b)"

lemma revised_shown: "complete_row r \<Longrightarrow> is_replace r \<Longrightarrow> er_kind r = RevisionEvent \<Longrightarrow>
    \<exists>p c k. er_preview r = Some p \<and> er_content r = Some c \<and> er_content_id r = Some k \<and> revised r = Shown p c k (Some (er_event_id r))"
  by (auto simp: complete_row_def event_check_def is_replace_def revised_def)

lemma original_shown: "complete_row b \<Longrightarrow> er_kind b = PreviewEvent \<Longrightarrow>
    \<exists>p c k. er_preview b = Some p \<and> er_content b = Some c \<and> er_content_id b = Some k \<and> original b = Shown p c k None"
  by (auto simp: complete_row_def event_check_def original_def)

lemma latest_unique:
  assumes "inj_on er_sequence R" and "latest_in R r" and "latest_in R r'" shows "r = r'"
  using assms by (intro inj_onD [OF assms(1)]) (auto simp: latest_in_def intro: antisym)

lemma latest_exists: "finite R \<Longrightarrow> r0 \<in> R \<Longrightarrow> is_replace r0 \<Longrightarrow> \<exists>r. latest_in R r"
proof -
  assume R: "finite R" "r0 \<in> R" "is_replace r0"
  define Q where "Q = {r \<in> R. is_replace r}"
  have "finite Q" "Q \<noteq> {}" using R by (auto simp: Q_def)
  then obtain r where "r \<in> Q" "\<forall>r'\<in>Q. er_sequence r' \<le> er_sequence r"
    using Max_in [of "er_sequence ` Q"] Max_ge [of "er_sequence ` Q"]
    by (metis (no_types, lifting) finite_imageI image_iff image_is_empty imageI)
  then show ?thesis by (auto simp: latest_in_def Q_def)
qed

lemma shown_after_latest:
  "shown_after R b st \<Longrightarrow> \<forall>r\<in>R. \<not> is_redact r \<Longrightarrow> r' \<in> R \<Longrightarrow> is_replace r' \<Longrightarrow> \<exists>r. latest_in R r \<and> st = revised r"
  by (auto simp: shown_after_def split: if_splits)

text \<open>One more revision of the author.\<close>

lemma shown_after_replace:
  assumes "shown_after R b st" and "is_replace r" and "finite R" and "inj_on er_sequence (insert r R)" and "r \<notin> R"
  shows "shown_after (insert r R) b
    (if st = Hidden \<and> (\<exists>r\<in>R. is_redact r) then st
     else if \<exists>r'\<in>R. is_replace r' \<and> er_sequence r' > er_sequence r then st else revised r)"
proof (cases "\<exists>r\<in>R. is_redact r")
  case True
  then show ?thesis using assms(1) by (simp add: shown_after_def)
next
  case nr: False
  have nr': "\<not> is_redact r" using assms(2) by (simp add: is_replace_def is_redact_def)
  show ?thesis
  proof (cases "\<exists>r'\<in>R. is_replace r' \<and> er_sequence r' > er_sequence r")
    case True
    then obtain r0 where r0: "latest_in R r0" "st = revised r0" using shown_after_latest [OF assms(1)] nr by blast
    then have "latest_in (insert r R) r0" using True by (fastforce simp: latest_in_def)
    then show ?thesis using r0 nr nr' True by (auto simp: shown_after_def latest_in_def)
  next
    case False
    then have "latest_in (insert r R) r" using assms(2) by (fastforce simp: latest_in_def)
    then show ?thesis using nr nr' False assms(2) by (auto simp: shown_after_def)
  qed
qed

lemma shown_after_redact: "is_redact r \<Longrightarrow> shown_after (insert r R) b Hidden"
  by (auto simp: shown_after_def)

lemma shown_after_other: "shown_after R b st \<Longrightarrow> \<not> is_redact r \<Longrightarrow> \<not> is_replace r \<Longrightarrow> shown_after (insert r R) b st"
proof -
  assume a: "shown_after R b st" "\<not> is_redact r" "\<not> is_replace r"
  then have "latest_in (insert r R) r' \<longleftrightarrow> latest_in R r'" for r' by (auto simp: latest_in_def)
  then show ?thesis using a by (simp add: shown_after_def)
qed

section \<open>Replay in the order of the numbers\<close>

lemma fold_hidden: "fold (revise k) xs Hidden = Hidden"
  by (induction xs) (simp_all add: revise_def)

lemma fold_redacted:
  "r \<in> set xs \<Longrightarrow> is_redact r \<Longrightarrow> er_subject_key r = k \<Longrightarrow> fold (revise k) xs st = Hidden"
proof (induction xs arbitrary: st)
  case (Cons x xs)
  show ?case
  proof (cases "x = r")
    case True
    then have "revise k x st = Hidden" using Cons.prems by (simp add: revise_def is_redact_def)
    then show ?thesis by (simp add: fold_hidden)
  next
    case False
    then show ?thesis using Cons by simp
  qed
qed simp

lemma fold_revised:
  assumes "\<forall>r\<in>set xs. er_subject_key r = k \<longrightarrow> \<not> is_redact r \<and> (is_replace r \<longrightarrow> revised r \<noteq> Hidden)" and "st \<noteq> Hidden"
  shows "fold (revise k) xs st =
    (let ys = filter (\<lambda>r. er_subject_key r = k \<and> is_replace r) xs in if ys = [] then st else revised (last ys))"
  using assms
proof (induction xs rule: rev_induct)
  case (snoc x xs)
  define ys where "ys = filter (\<lambda>r. er_subject_key r = k \<and> is_replace r) xs"
  have f: "fold (revise k) xs st = (if ys = [] then st else revised (last ys))"
    using snoc by (simp add: ys_def Let_def)
  have "ys \<noteq> [] \<Longrightarrow> last ys \<in> set ys" by (rule last_in_set)
  then have n: "fold (revise k) xs st \<noteq> Hidden"
    using snoc.prems unfolding f ys_def by (auto split: if_splits)
  consider "er_subject_key x \<noteq> k" | "er_subject_key x = k" "is_replace x" | "er_subject_key x = k" "\<not> is_replace x"
    by blast
  then show ?case
  proof cases
    case 2
    then have "revise k x (fold (revise k) xs st) = revised x" using n by (simp add: revise_def is_replace_def)
    then show ?thesis using 2 by simp
  next
    case 3
    then have "\<not> is_redact x" using snoc.prems by simp
    then have "revise k x (fold (revise k) xs st) = fold (revise k) xs st"
      using 3 by (auto simp: revise_def is_replace_def is_redact_def split: option.splits revision_kind.splits)
    then show ?thesis using 3 f by (simp add: ys_def Let_def)
  next
    case 1
    then have "revise k x (fold (revise k) xs st) = fold (revise k) xs st" by (simp add: revise_def)
    then show ?thesis using 1 f by (simp add: ys_def Let_def)
  qed
qed simp

lemma sorted_last_max: "sorted (map f xs) \<Longrightarrow> x \<in> set xs \<Longrightarrow> f x \<le> (f (last xs) :: 'b::linorder)"
  by (induction xs rule: rev_induct) (auto simp: sorted_append)

definition own_revisions :: "event_row list \<Rightarrow> event_row \<Rightarrow> event_row set" where
  "own_revisions events b = {r \<in> set (revisions_of events b). er_subject_key r = er_subject_key b}"

text \<open>The reference replay yields exactly the state after the set of revisions.\<close>

lemma shown_after_replay:
  assumes "\<forall>e\<in>set events. complete_row e" and "inj_on er_sequence (set (revisions_of events b))"
    and "complete_row b" and "er_kind b = PreviewEvent"
  shows "shown_after (own_revisions events b) b (replay_message events b)"
proof -
  define k where "k = er_subject_key b"
  define xs where "xs = sort_key er_sequence (revisions_of events b)"
  have xs: "set xs = set (revisions_of events b)" "sorted (map er_sequence xs)" by (simp_all add: xs_def)
  have rp: "replay_message events b = fold (revise k) xs (original b)" by (simp add: replay_message_def xs_def k_def)
  have R: "own_revisions events b = {r \<in> set xs. er_subject_key r = k}" by (simp add: own_revisions_def xs k_def)
  have visible: "revised r \<noteq> Hidden" if "r \<in> set xs" "is_replace r" for r
    using that revised_shown [of r] assms(1) xs(1) by (auto simp: revisions_of_def)
  show ?thesis
  proof (cases "\<exists>r\<in>own_revisions events b. is_redact r")
    case True
    then show ?thesis using fold_redacted [of _ xs k] by (auto simp: R shown_after_def rp)
  next
    case False
    define ys where "ys = filter (\<lambda>r. er_subject_key r = k \<and> is_replace r) xs"
    have "fold (revise k) xs (original b) = (if ys = [] then original b else revised (last ys))"
      using fold_revised [of xs k "original b"] False visible original_shown [OF assms(3,4)]
      by (auto simp: R ys_def Let_def)
    moreover have "ys = [] \<longleftrightarrow> \<not> (\<exists>r\<in>own_revisions events b. is_replace r)"
      by (auto simp: ys_def R filter_empty_conv)
    moreover have "latest_in (own_revisions events b) (last ys)" if "ys \<noteq> []"
    proof -
      have "sorted (map er_sequence ys)" using xs(2) unfolding ys_def by (rule sorted_filter)
      moreover have "set ys = {r \<in> own_revisions events b. is_replace r}" by (auto simp: ys_def R)
      moreover have "last ys \<in> set ys" using that by (rule last_in_set)
      ultimately show ?thesis using sorted_last_max [of er_sequence ys] by (auto simp: latest_in_def)
    qed
    ultimately show ?thesis using False by (auto simp: shown_after_def rp)
  qed
qed

lemma shown_after_unique:
  assumes "inj_on er_sequence R" and "shown_after R b st" and "shown_after R b st'" shows "st = st'"
  using assms latest_unique [OF assms(1)] by (auto simp: shown_after_def split: if_splits)

section \<open>Rows\<close>

definition visible_ok :: "current_row \<Rightarrow> bool" where
  "visible_ok c \<longleftrightarrow> (cr_visibility c = MessageActive) = (cr_content c \<noteq> None) \<and>
     (cr_content c = None) = (cr_content_id c = None)"

lemma row_shown_active: "visible_ok c \<Longrightarrow> row_shown c \<noteq> Hidden \<longleftrightarrow> cr_visibility c = MessageActive"
  by (cases "cr_visibility c") (auto simp: visible_ok_def row_shown_def split: option.splits)

lemma row_shown_last: "row_shown c = Shown p x k l \<Longrightarrow> cr_last_revision_event_id c = l"
  by (auto simp: row_shown_def split: message_visibility.splits option.splits)

definition base_of :: "event_row \<Rightarrow> current_row \<Rightarrow> bool" where
  "base_of b c \<longleftrightarrow> er_kind b = PreviewEvent \<and> er_event_id b = cr_base_event_id c \<and> er_room_id b = cr_room_id c \<and>
     er_message_id b = cr_message_id c \<and> er_subject_key b = cr_subject_key c \<and> er_sequence b = cr_first_sequence c \<and>
     er_actor b = cr_actor c \<and> er_created_at b = cr_created_at c \<and>
     er_origin_server_timestamp b = cr_origin_server_timestamp c \<and> er_relation_target b = cr_relation_target c"

definition matches :: "event_row \<Rightarrow> current_row \<Rightarrow> bool" where
  "matches r c \<longleftrightarrow> cr_room_id c = er_room_id r \<and> cr_message_id c = er_message_id r \<and> cr_subject_key c = er_subject_key r"

definition effective :: "event_row \<Rightarrow> bool" where
  "effective r \<longleftrightarrow> er_kind r = RevisionEvent \<and> (is_replace r \<or> is_redact r)"

definition own :: "event_row list \<Rightarrow> current_row \<Rightarrow> event_row set" where
  "own events c = {r \<in> set events. effective r \<and> matches r c}"

definition row_with :: "event_row list \<Rightarrow> event_row set \<Rightarrow> current_row \<Rightarrow> bool" where
  "row_with events R c \<longleftrightarrow> visible_ok c \<and> (\<exists>b\<in>set events. base_of b c \<and> shown_after R b (row_shown c))"

text \<open>What one revision does to a row.\<close>

definition newer_in :: "event_row list \<Rightarrow> event_row \<Rightarrow> current_row \<Rightarrow> bool" where
  "newer_in events r c \<longleftrightarrow>
     (\<exists>applied\<in>set events. Some (er_event_id applied) = cr_last_revision_event_id c \<and> er_sequence applied > er_sequence r)"

definition replaced_row :: "event_row \<Rightarrow> current_row \<Rightarrow> current_row" where
  "replaced_row r c = c\<lparr>cr_preview := the (er_preview r), cr_content := er_content r, cr_content_id := er_content_id r,
     cr_last_revision_event_id := Some (er_event_id r), cr_last_sequence := max (cr_last_sequence c) (er_sequence r)\<rparr>"

definition redacted_row :: "event_row \<Rightarrow> current_row \<Rightarrow> current_row" where
  "redacted_row r c = c\<lparr>cr_content := None, cr_content_id := None, cr_visibility := MessageRedacted,
     cr_last_revision_event_id := Some (er_event_id r), cr_last_sequence := max (cr_last_sequence c) (er_sequence r)\<rparr>"

definition revised_row :: "event_row list \<Rightarrow> event_row \<Rightarrow> current_row \<Rightarrow> current_row" where
  "revised_row events r c =
     (if \<not> targets r c then c
      else if is_replace r then (if newer_in events r c then c else replaced_row r c)
      else if is_redact r then redacted_row r c else c)"

lemma apply_revision_rows:
  assumes "apply_revision r s = Inr t" and "complete_row r"
  shows "t = s\<lparr>tm_current := map (revised_row (tm_events s) r) (tm_current s)\<rparr>"
proof (cases "er_revision_kind r")
  case (Some k)
  show ?thesis
  proof (cases k)
    case Replace
    then have "t = s\<lparr>tm_current := update_where (\<lambda>c. targets r c \<and> \<not> revision_newer_applied r s c)
        (replaced_row r) (tm_current s)\<rparr>"
      using assms Some
      by (auto simp: apply_revision_def apply_replacement_def result_simps Let_def replaced_row_def update_where_def
          split: if_splits intro!: arg_cong [where f = "\<lambda>rows. s\<lparr>tm_current := rows\<rparr>"])
    moreover have "update_where (\<lambda>c. targets r c \<and> \<not> revision_newer_applied r s c) (replaced_row r) (tm_current s) =
        map (revised_row (tm_events s) r) (tm_current s)"
      unfolding update_where_def using Some Replace
      by (intro map_cong refl) (auto simp: revised_row_def is_replace_def revision_newer_applied_def newer_in_def list_ex_iff)
    ultimately show ?thesis by simp
  next
    case RedactRevision
    then show ?thesis
      using assms Some by (auto simp: apply_revision_def apply_redaction_def update_where_def revised_row_def
          is_replace_def is_redact_def redacted_row_def intro!: map_cong)
  next
    case Moderate
    then have "revised_row (tm_events s) r = id" using Some by (auto simp: revised_row_def is_replace_def is_redact_def)
    then show ?thesis using assms Some Moderate by (simp add: apply_revision_def)
  qed
qed (use assms in \<open>simp add: apply_revision_def\<close>)

lemma run_revisions_rows:
  assumes "run_each apply_revision rs s = Inr t" and "\<forall>r\<in>set rs. complete_row r"
  shows "t = s\<lparr>tm_current := map (fold (revised_row (tm_events s)) rs) (tm_current s)\<rparr>"
  using assms
proof (induction rs arbitrary: s)
  case (Cons r rs)
  obtain u where u: "apply_revision r s = Inr u" "run_each apply_revision rs u = Inr t"
    using Cons.prems(1) by (auto simp: result_simps)
  have "u = s\<lparr>tm_current := map (revised_row (tm_events s) r) (tm_current s)\<rparr>"
    using apply_revision_rows [OF u(1)] Cons.prems(2) by simp
  then show ?case using Cons.IH [OF u(2)] Cons.prems(2) by (simp add: comp_def)
qed simp

lemma revised_row_keeps:
  "cr_message_id (revised_row events r c) = cr_message_id c" "cr_room_id (revised_row events r c) = cr_room_id c"
  "cr_subject_key (revised_row events r c) = cr_subject_key c" "base_of b (revised_row events r c) = base_of b c"
  "matches x (revised_row events r c) = matches x c" "cr_first_sequence (revised_row events r c) = cr_first_sequence c"
  "cr_base_event_id (revised_row events r c) = cr_base_event_id c"
  by (simp_all add: revised_row_def replaced_row_def redacted_row_def base_of_def matches_def)

lemma fold_row_keeps:
  "cr_message_id (fold (revised_row events) rs c) = cr_message_id c" "base_of b (fold (revised_row events) rs c) = base_of b c"
  "matches x (fold (revised_row events) rs c) = matches x c"
  "cr_first_sequence (fold (revised_row events) rs c) = cr_first_sequence c"
  "cr_base_event_id (fold (revised_row events) rs c) = cr_base_event_id c"
  by (induction rs arbitrary: c) (simp_all add: revised_row_keeps)

text \<open>One revision of the author, written at any time.\<close>

lemma row_with_revision:
  assumes row: "row_with events R c" and r: "r \<in> set events" "complete_row r" "effective r" "matches r c" "r \<notin> R"
    and R: "R \<subseteq> set events" "inj_on er_sequence (insert r R)" "\<forall>x\<in>R. complete_row x \<and> er_kind x = RevisionEvent"
    and ids: "inj_on er_event_id (set events)" and complete: "\<forall>e\<in>set events. complete_row e"
  shows "row_with events (insert r R) (revised_row events r c)"
proof -
  obtain b where b: "b \<in> set events" "base_of b c" "shown_after R b (row_shown c)" and v: "visible_ok c"
    using row by (auto simp: row_with_def)
  have fin: "finite R" using R(1) finite_subset by blast
  have t: "targets r c \<longleftrightarrow> row_shown c \<noteq> Hidden" using r(4) row_shown_active [OF v] by (auto simp: targets_def matches_def)
  have kind: "er_kind r = RevisionEvent" "is_replace r \<or> is_redact r" using r(3) by (auto simp: effective_def)
  show ?thesis
  proof (cases "is_redact r")
    case True
    then have "row_shown (revised_row events r c) = Hidden \<and> visible_ok (revised_row events r c)"
      using t v by (auto simp: revised_row_def is_replace_def is_redact_def redacted_row_def row_shown_def visible_ok_def)
    then show ?thesis using b shown_after_redact [OF True] by (auto simp: row_with_def revised_row_keeps)
  next
    case False
    then have rep: "is_replace r" using kind by blast
    obtain p x k where shown: "er_preview r = Some p" "er_content r = Some x" "er_content_id r = Some k"
        "revised r = Shown p x k (Some (er_event_id r))"
      using revised_shown [OF r(2) rep kind(1)] by blast
    have newer: "newer_in events r c \<longleftrightarrow> (\<exists>r'\<in>R. is_replace r' \<and> er_sequence r' > er_sequence r)"
      if "row_shown c \<noteq> Hidden"
    proof -
      have nr: "\<forall>r\<in>R. \<not> is_redact r" using b(3) that by (auto simp: shown_after_def split: if_splits)
      show ?thesis
      proof (cases "\<exists>r'\<in>R. is_replace r'")
        case True
        then obtain r0 where r0: "latest_in R r0" "row_shown c = revised r0"
          using shown_after_latest [OF b(3) nr] by blast
        have "r0 \<in> R" "is_replace r0" using r0(1) by (auto simp: latest_in_def)
        then have "cr_last_revision_event_id c = Some (er_event_id r0)"
          using revised_shown [of r0] R(3) r0(2) row_shown_last by fastforce
        then have "newer_in events r c \<longleftrightarrow> er_sequence r0 > er_sequence r"
          using ids R(1) \<open>r0 \<in> R\<close> by (auto simp: newer_in_def dest: inj_onD)
        also have "\<dots> \<longleftrightarrow> (\<exists>r'\<in>R. is_replace r' \<and> er_sequence r' > er_sequence r)"
          using r0(1) by (fastforce simp: latest_in_def)
        finally show ?thesis .
      next
        case False
        then have "row_shown c = original b" using b(3) nr by (auto simp: shown_after_def)
        then have "cr_last_revision_event_id c = None"
          using original_shown [of b] complete b(1,2) row_shown_last by (fastforce simp: base_of_def)
        then show ?thesis using False by (auto simp: newer_in_def)
      qed
    qed
    have s: "row_shown (replaced_row r c) = revised r \<and> visible_ok (replaced_row r c)" if "row_shown c \<noteq> Hidden"
      using that shown row_shown_active [OF v] v by (auto simp: row_shown_def replaced_row_def visible_ok_def)
    have red: "row_shown c = Hidden \<longleftrightarrow> (\<exists>r\<in>R. is_redact r)"
    proof
      assume h: "row_shown c = Hidden"
      show "\<exists>r\<in>R. is_redact r"
      proof (rule ccontr)
        assume "\<not> (\<exists>r\<in>R. is_redact r)"
        then have "(\<exists>r. latest_in R r \<and> row_shown c = revised r) \<or> row_shown c = original b"
          using b(3) by (auto simp: shown_after_def split: if_splits)
        then show False
          using h revised_shown R(3) original_shown [of b] complete b(1,2) by (fastforce simp: latest_in_def base_of_def)
      qed
    qed (use b(3) in \<open>simp add: shown_after_def\<close>)
    note after = shown_after_replace [OF b(3) rep fin R(2) r(5)]
    have eq: "row_shown (revised_row events r c) = (if row_shown c = Hidden \<and> (\<exists>r\<in>R. is_redact r) then row_shown c
        else if \<exists>r'\<in>R. is_replace r' \<and> er_sequence r' > er_sequence r then row_shown c else revised r)"
      using t newer s red rep by (auto simp: revised_row_def)
    moreover have "visible_ok (revised_row events r c)" using t s v rep by (auto simp: revised_row_def)
    moreover have "base_of b (revised_row events r c)" using b(2) by (simp add: revised_row_keeps)
    moreover have "shown_after (insert r R) b (row_shown (revised_row events r c))" unfolding eq by (rule after)
    ultimately show ?thesis using b(1) unfolding row_with_def by blast
  qed
qed

text \<open>A list of revisions, all of them in the log, in any order.\<close>

lemma row_with_fold:
  assumes "row_with events R c" and "\<forall>r\<in>set rs. r \<in> set events \<and> effective r \<and> er_room_id r = cr_room_id c \<and>
      er_message_id r = cr_message_id c"
    and "distinct rs" and "R \<inter> set rs = {}" and "R \<subseteq> {r \<in> set events. er_kind r = RevisionEvent}"
    and "inj_on er_sequence (R \<union> set rs)"
    and ids: "inj_on er_event_id (set events)" and complete: "\<forall>e\<in>set events. complete_row e"
  shows "row_with events (R \<union> {r \<in> set rs. matches r c}) (fold (revised_row events) rs c)"
  using assms(1-6)
proof (induction rs arbitrary: R c)
  case (Cons r rs)
  show ?case
  proof (cases "matches r c")
    case True
    have "row_with events (insert r R) (revised_row events r c)"
      using Cons.prems True complete ids
      by (intro row_with_revision) (auto intro: inj_on_subset [OF Cons.prems(6)])
    then have "row_with events (insert r R \<union> {x \<in> set rs. matches x (revised_row events r c)})
        (fold (revised_row events) rs (revised_row events r c))"
      using Cons.prems by (intro Cons.IH) (auto simp: revised_row_keeps effective_def intro: inj_on_subset [OF Cons.prems(6)])
    moreover have "insert r R \<union> {x \<in> set rs. matches x (revised_row events r c)} = R \<union> {x \<in> set (r # rs). matches x c}"
      using True by (auto simp: revised_row_keeps)
    ultimately show ?thesis by simp
  next
    case False
    then have "revised_row events r c = c" by (auto simp: revised_row_def targets_def matches_def)
    moreover have "row_with events (R \<union> {x \<in> set rs. matches x c}) (fold (revised_row events) rs c)"
      using Cons.prems by (intro Cons.IH) (auto intro: inj_on_subset [OF Cons.prems(6)])
    moreover have "{x \<in> set (r # rs). matches x c} = {x \<in> set rs. matches x c}" using False by auto
    ultimately show ?thesis by simp
  qed
qed simp

section \<open>The invariant\<close>

definition log_ok :: "event_row list \<Rightarrow> bool" where
  "log_ok events \<longleftrightarrow> distinct (map er_event_id events) \<and> distinct (map (\<lambda>e. (er_room_id e, er_sequence e)) events) \<and>
     (\<forall>e\<in>set events. complete_row e)"

definition messages_ok :: "event_row list \<Rightarrow> current_row list \<Rightarrow> bool" where
  "messages_ok events current \<longleftrightarrow> distinct (map cr_message_id current) \<and>
     (\<forall>c\<in>set current. row_with events (own events c) c) \<and>
     (\<forall>e\<in>set events. er_kind e = PreviewEvent \<longrightarrow> er_message_id e \<in> cr_message_id ` set current)"

definition reserved_in :: "issue_row list \<Rightarrow> (utext \<times> int) list" where
  "reserved_in issues = concat (map (\<lambda>i. case iw_reserved_sequence i of None \<Rightarrow> [] | Some q \<Rightarrow> [(iw_room_id i, q)]) issues)"

definition used_in :: "event_row list \<Rightarrow> (utext \<times> int) set" where
  "used_in events = (\<lambda>e. (er_room_id e, er_sequence e)) ` set events"

definition reservations_ok :: "event_row list \<Rightarrow> issue_row list \<Rightarrow> bool" where
  "reservations_ok events issues \<longleftrightarrow> distinct (reserved_in issues) \<and> set (reserved_in issues) \<inter> used_in events = {} \<and>
     (\<forall>(room, q)\<in>set (reserved_in issues). 0 < q) \<and>
     (\<forall>i\<in>set issues. iw_reserved_sequence i \<noteq> None \<longrightarrow> iw_reason i = IssueUndecryptable)"

definition timeline_ok :: "timeline_store \<Rightarrow> bool" where
  "timeline_ok s \<longleftrightarrow> log_ok (tm_events s) \<and> messages_ok (tm_events s) (tm_current s) \<and>
     reservations_ok (tm_events s) (tm_issues s)"

lemma log_inj:
  assumes "log_ok events"
  shows "inj_on er_event_id (set events)" and "inj_on er_sequence {e \<in> set events. er_room_id e = room}"
    and "\<forall>e\<in>set events. complete_row e"
  using assms by (auto simp: log_ok_def distinct_map inj_on_def)

lemma own_inj: "log_ok events \<Longrightarrow> inj_on er_sequence (own events c)"
  by (rule inj_on_subset [OF log_inj(2) [where room = "cr_room_id c"]]) (auto simp: own_def matches_def)

lemma map_sum_id_Inr: "map_sum id f r = Inr y \<longleftrightarrow> (\<exists>x. r = Inr x \<and> y = f x)"
  by (cases r) auto

text \<open>Encoded mutations satisfy the checks of the log, but for a replacement without its parts.\<close>

definition encoded_ok :: "encoded_mutation \<Rightarrow> bool" where
  "encoded_ok e \<longleftrightarrow> (em_content e = None) = (em_content_id e = None) \<and>
     (em_kind e = PreviewEvent \<longrightarrow> em_preview e \<noteq> None \<and> em_content e \<noteq> None)"

lemma encode_ok:
  assumes "encode_mutation ports m = Inr e"
  shows "encoded_ok e" "em_event_id e = mutation_event_id m" "em_room_id e = mutation_room_id m"
  using assms
  by (auto simp: encode_mutation_def encoded_ok_def mutation_event_id_def mutation_room_id_def result_simps map_sum_id_Inr
      split: message_mutation.splits option.splits)

lemma row_of_fields [simp]:
  "er_event_id (event_row_of e q) = em_event_id e" "er_room_id (event_row_of e q) = em_room_id e"
  "er_sequence (event_row_of e q) = q" "er_kind (event_row_of e q) = em_kind e"
  "er_message_id (event_row_of e q) = em_message_id e" "er_subject_key (event_row_of e q) = em_subject_key e"
  "er_revision_kind (event_row_of e q) = em_revision_kind e" "er_preview (event_row_of e q) = em_preview e"
  "er_content (event_row_of e q) = em_content e" "er_content_id (event_row_of e q) = em_content_id e"
  by (simp_all add: event_row_of_def)

lemma insert_event_some:
  assumes "insert_event e q s = Inr (Some t)" and "encoded_ok e" and "log_ok (tm_events s)"
  shows "t = s\<lparr>tm_events := tm_events s @ [event_row_of e q]\<rparr>" "log_ok (tm_events t)"
    "em_event_id e \<notin> er_event_id ` set (tm_events s)" "complete_row (event_row_of e q)"
proof -
  have c: "t = s\<lparr>tm_events := tm_events s @ [event_row_of e q]\<rparr>" "event_check (event_row_of e q)"
      "\<forall>r\<in>set (tm_events s). er_event_id r \<noteq> em_event_id e"
      "\<forall>r\<in>set (tm_events s). \<not> (er_room_id r = em_room_id e \<and> er_sequence r = q)"
    using assms(1) by (auto simp: insert_event_def Let_def list_ex_iff split: if_splits)
  show "t = s\<lparr>tm_events := tm_events s @ [event_row_of e q]\<rparr>" by (rule c(1))
  show complete: "complete_row (event_row_of e q)" using c(2) assms(2) by (simp add: complete_row_def encoded_ok_def)
  show "em_event_id e \<notin> er_event_id ` set (tm_events s)" using c(3) by auto
  then show "log_ok (tm_events t)" using assms(3) c(4) complete by (auto simp: c(1) log_ok_def)
qed

lemma row_with_more: "row_with events R c \<Longrightarrow> row_with (events @ [e]) R c"
  by (auto simp: row_with_def)

text \<open>A logged revision that is applied at once.\<close>

lemma messages_revision:
  assumes ok: "messages_ok events current" and log: "log_ok (events @ [r])" and "er_kind r = RevisionEvent"
  shows "messages_ok (events @ [r]) (map (revised_row (events @ [r]) r) current)"
proof -
  let ?E = "events @ [r]"
  have row: "row_with ?E (own ?E c) (revised_row ?E r c)" if "c \<in> set current" for c
  proof -
    have old: "row_with ?E (own events c) c" using ok that row_with_more by (auto simp: messages_ok_def)
    show ?thesis
    proof (cases "matches r c \<and> effective r")
      case True
      have "r \<notin> set events" using log by (auto simp: log_ok_def)
      then have o: "own ?E c = insert r (own events c)" "r \<notin> own events c" using True by (auto simp: own_def)
      have "row_with ?E (insert r (own events c)) (revised_row ?E r c)"
        using old True o own_inj [OF log, of c] log_inj [OF log]
        by (intro row_with_revision) (auto simp: own_def effective_def)
      then show ?thesis by (simp add: o)
    next
      case False
      then have "revised_row ?E r c = c" using assms(3)
        by (auto simp: revised_row_def targets_def matches_def effective_def)
      moreover have "own ?E c = own events c" using False by (auto simp: own_def)
      ultimately show ?thesis using old by simp
    qed
  qed
  have o: "own ?E (revised_row ?E r c) = own ?E c" for c by (simp add: own_def revised_row_keeps)
  have ids: "map cr_message_id (map (revised_row ?E r) current) = map cr_message_id current"
    by (simp add: revised_row_keeps)
  show ?thesis
    using ok row assms(3) unfolding messages_ok_def ids
    by (auto simp: o revised_row_keeps image_image)
qed

lemma pending_in_log:
  "r \<in> set (pending_revisions room message s) \<longleftrightarrow>
     r \<in> set (tm_events s) \<and> effective r \<and> er_room_id r = room \<and> er_message_id r = message"
  by (auto simp: pending_revisions_def effective_def is_replace_def is_redact_def)

lemma pending_distinct: "distinct (tm_events s) \<Longrightarrow> distinct (pending_revisions room message s)"
  by (simp add: pending_revisions_def)

text \<open>A new message with the revisions that came before it.\<close>

lemma messages_preview:
  assumes ok: "messages_ok events current" and log: "log_ok (events @ [b])" and "er_kind b = PreviewEvent"
    and row: "base_of b c" "visible_ok c" "row_shown c = original b"
    and fresh: "cr_message_id c \<notin> cr_message_id ` set current"
    and rs: "set rs = {r \<in> set (events @ [b]). effective r \<and> er_room_id r = cr_room_id c \<and> er_message_id r = cr_message_id c}"
      "distinct rs"
  shows "messages_ok (events @ [b]) (map (fold (revised_row (events @ [b])) rs) (current @ [c]))"
proof -
  let ?E = "events @ [b]" and ?f = "fold (revised_row (events @ [b])) rs"
  note inj = log_inj [OF log]
  have same: "own ?E (?f d) = own ?E d" for d by (simp add: own_def fold_row_keeps)
  have grown: "own ?E d = own events d" for d using assms(3) by (auto simp: own_def effective_def)
  have untouched: "?f d = d" if "d \<in> set current" for d
  proof -
    have "cr_message_id d \<noteq> cr_message_id c" using fresh that by (metis imageI)
    then have "\<forall>r\<in>set rs. revised_row ?E r d = d" using rs(1) by (auto simp: revised_row_def targets_def)
    then show ?thesis by (induction rs) simp_all
  qed
  have "row_with ?E {} c" using row by (auto simp: row_with_def shown_after_def)
  then have "row_with ?E ({} \<union> {r \<in> set rs. matches r c}) (?f c)"
  proof (rule row_with_fold)
    show "\<forall>r\<in>set rs. r \<in> set ?E \<and> effective r \<and> er_room_id r = cr_room_id c \<and> er_message_id r = cr_message_id c"
      using rs(1) by simp
    show "inj_on er_sequence ({} \<union> set rs)"
      by (rule inj_on_subset [OF inj(2) [where room = "cr_room_id c"]]) (use rs(1) in auto)
  qed (use rs(2) inj in simp_all)
  moreover have "{r \<in> set rs. matches r c} = own ?E c" unfolding rs(1) own_def by (auto simp: matches_def)
  ultimately have new: "row_with ?E (own ?E c) (?f c)" by simp
  have ids: "map cr_message_id (map ?f (current @ [c])) = map cr_message_id (current @ [c])"
    by (simp add: fold_row_keeps)
  have old: "row_with ?E (own ?E d) d" if "d \<in> set current" for d
    using ok that row_with_more by (auto simp: messages_ok_def grown)
  have "\<forall>d\<in>set (map ?f (current @ [c])). row_with ?E (own ?E d) d"
    using new old untouched by (auto simp: same)
  moreover have "cr_message_id ` set (map ?f (current @ [c])) = cr_message_id ` set (current @ [c])"
    using ids by (metis list.set_map)
  moreover have "er_message_id b = cr_message_id c" using row(1) by (simp add: base_of_def)
  moreover have "distinct (map cr_message_id (current @ [c]))" using ok fresh by (auto simp: messages_ok_def)
  moreover have "\<forall>e\<in>set (events @ [b]). er_kind e = PreviewEvent \<longrightarrow> er_message_id e \<in> cr_message_id ` set (current @ [c])"
    using ok \<open>er_message_id b = cr_message_id c\<close> by (auto simp: messages_ok_def)
  ultimately show ?thesis unfolding messages_ok_def ids by metis
qed

text \<open>The tables that writing a mutation does not touch.\<close>

definition same_rest :: "timeline_store \<Rightarrow> timeline_store \<Rightarrow> bool" where
  "same_rest s t \<longleftrightarrow> tm_issues t = tm_issues s \<and> tm_gaps t = tm_gaps s \<and> tm_losses t = tm_losses s \<and>
     tm_cursor t = tm_cursor s \<and> tm_acks t = tm_acks s"

lemma write_mutation_ok:
  assumes "write_mutation e q s = Inr t" and "encoded_ok e" and "log_ok (tm_events s)"
    and "messages_ok (tm_events s) (tm_current s)"
  shows "log_ok (tm_events t) \<and> messages_ok (tm_events t) (tm_current t) \<and>
    (tm_events t = tm_events s \<and> em_event_id e \<in> er_event_id ` set (tm_events s) \<and> t = s \<or>
     tm_events t = tm_events s @ [event_row_of e q] \<and> em_event_id e \<notin> er_event_id ` set (tm_events s)) \<and>
    same_rest s t"
proof -
  obtain ins where ins: "insert_event e q s = Inr ins"
    using assms(1) by (auto simp: write_mutation_def result_simps)
  show ?thesis
  proof (cases ins)
    case None
    then have "t = s" "em_event_id e \<in> er_event_id ` set (tm_events s)"
      using ins assms(1) by (auto simp: write_mutation_def insert_event_def Let_def list_ex_iff split: if_splits
          intro: rev_image_eqI)
    then show ?thesis using assms(3,4) by (simp add: same_rest_def)
  next
    case (Some u)
    note i = insert_event_some [OF ins [unfolded Some] assms(2,3)]
    let ?r = "event_row_of e q"
    have E: "tm_events u = tm_events s @ [?r]" "tm_current u = tm_current s" using i(1) by simp_all
    show ?thesis
    proof (cases "em_kind e")
      case RevisionEvent
      have "apply_revision ?r u = Inr t" using assms(1) ins Some RevisionEvent by (simp add: write_mutation_def)
      then have t: "t = u\<lparr>tm_current := map (revised_row (tm_events u) ?r) (tm_current u)\<rparr>"
        using apply_revision_rows i(4) by blast
      have "messages_ok (tm_events s @ [?r]) (map (revised_row (tm_events s @ [?r]) ?r) (tm_current s))"
        using messages_revision [OF assms(4)] i(2) E RevisionEvent by simp
      then show ?thesis using t i(2,3) E by (simp add: i(1) same_rest_def)
    next
      case PreviewEvent
      have shape: "em_preview e \<noteq> None" "em_content e \<noteq> None" "em_content_id e \<noteq> None"
        using assms(2) PreviewEvent by (auto simp: encoded_ok_def)
      obtain placed where placed: "insert_current e q u = Inr placed"
        using assms(1) ins Some PreviewEvent by (auto simp: write_mutation_def result_simps)
      show ?thesis
      proof (cases placed)
        case None
        then have "t = u" "em_message_id e \<in> cr_message_id ` set (tm_current u)"
          using assms(1) ins Some PreviewEvent placed shape
          by (auto simp: write_mutation_def insert_current_def Let_def list_ex_iff result_simps split: if_splits
              intro: rev_image_eqI)
        moreover have "own (tm_events s @ [?r]) c = own (tm_events s) c" for c using PreviewEvent by (auto simp: own_def effective_def)
        ultimately have "messages_ok (tm_events s @ [?r]) (tm_current s)"
          using assms(4) row_with_more E by (auto simp: messages_ok_def)
        then show ?thesis using i(2,3) E \<open>t = u\<close> by (simp add: i(1) same_rest_def)
      next
        case (Some v)
        obtain p x k where c: "em_preview e = Some p" "em_content e = Some x" "em_content_id e = Some k"
            "v = u\<lparr>tm_current := tm_current u @ [current_row_of e q p x k]\<rparr>"
            "\<forall>c\<in>set (tm_current u). cr_message_id c \<noteq> em_message_id e"
          using placed Some shape
          by (auto simp: insert_current_def Let_def list_ex_iff result_simps split: if_splits)
        let ?c = "current_row_of e q p x k"
        define rs where "rs = pending_revisions (em_room_id e) (em_message_id e) v"
        have run: "run_each apply_revision rs v = Inr t"
          using assms(1) ins \<open>ins = Some u\<close> PreviewEvent placed Some
          by (simp add: write_mutation_def apply_pending_revisions_def rs_def)
        have Ev: "tm_events v = tm_events s @ [?r]" using c(4) E by simp
        have rs: "set rs = {r \<in> set (tm_events v). effective r \<and> er_room_id r = em_room_id e \<and> er_message_id r = em_message_id e}"
          unfolding rs_def using pending_in_log by blast
        have "distinct (tm_events u)" using i(2) unfolding log_ok_def distinct_map by blast
        then have "distinct (tm_events v)" unfolding E(1) Ev .
        then have d: "distinct rs" unfolding rs_def by (rule pending_distinct)
        have t: "t = v\<lparr>tm_current := map (fold (revised_row (tm_events v)) rs) (tm_current v)\<rparr>"
          using run_revisions_rows [OF run] rs i(2) E Ev by (auto simp: log_ok_def)
        have "messages_ok (tm_events s @ [?r]) (map (fold (revised_row (tm_events s @ [?r])) rs) (tm_current s @ [?c]))"
        proof (rule messages_preview [OF assms(4)])
          show "log_ok (tm_events s @ [?r])" using i(2) E by simp
          show "base_of ?r ?c" using PreviewEvent by (simp add: base_of_def event_row_of_def current_row_of_def)
          show "visible_ok ?c" by (simp add: visible_ok_def current_row_of_def)
          show "row_shown ?c = original ?r" using c by (simp add: row_shown_def original_def current_row_of_def)
          show "cr_message_id ?c \<notin> cr_message_id ` set (tm_current s)" using c(5) E by (auto simp: current_row_of_def)
          show "set rs = {r \<in> set (tm_events s @ [?r]). effective r \<and> er_room_id r = cr_room_id ?c \<and> er_message_id r = cr_message_id ?c}"
            using rs Ev by (simp add: current_row_of_def)
        qed (use d PreviewEvent in simp_all)
        then show ?thesis using t c(4) i(2,3) E Ev by (simp add: i(1) same_rest_def)
      qed
    qed
  qed
qed

section \<open>Numbers\<close>

lemma max_fold_start: "(a::int) \<le> fold max xs a"
proof (induction xs arbitrary: a)
  case (Cons x xs)
  from Cons.IH [of "max x a"] show ?case by simp
qed simp

lemma max_fold_ge: "(x::int) \<in> set xs \<or> x = a \<Longrightarrow> x \<le> fold max xs a"
proof (induction xs arbitrary: a)
  case (Cons y xs)
  from max_fold_start [of "max y a" xs] Cons.IH [of "max y a"] Cons.prems show ?case by auto
qed simp

lemma reserved_iff: "(room, q) \<in> set (reserved_in issues) \<longleftrightarrow>
    (\<exists>i\<in>set issues. iw_room_id i = room \<and> iw_reserved_sequence i = Some q)"
  by (auto simp: reserved_in_def split: option.splits) force+

lemma next_sequence_fresh:
  "0 < next_sequence room s" "(room, next_sequence room s) \<notin> used_in (tm_events s)"
  "(room, next_sequence room s) \<notin> set (reserved_in (tm_issues s))"
proof -
  define xs where "xs = map er_sequence (filter (\<lambda>e. er_room_id e = room) (tm_events s)) @
       concat (map (\<lambda>i. case iw_reserved_sequence i of None \<Rightarrow> [] | Some q \<Rightarrow> [q])
         (filter (\<lambda>i. iw_room_id i = room) (tm_issues s)))"
  have n: "next_sequence room s = fold max xs 0 + 1" by (simp add: next_sequence_def xs_def)
  have le: "q < next_sequence room s" if "q \<in> set xs" for q using max_fold_ge [of q xs 0] that n by simp
  show "0 < next_sequence room s" using max_fold_ge [of 0 xs 0] n by simp
  have "er_sequence e \<in> set xs" if "e \<in> set (tm_events s)" "er_room_id e = room" for e using that by (simp add: xs_def)
  then show "(room, next_sequence room s) \<notin> used_in (tm_events s)" using le by (fastforce simp: used_in_def)
  have "q \<in> set xs" if "(room, q) \<in> set (reserved_in (tm_issues s))" for q
    using that by (auto simp: reserved_iff xs_def intro!: bexI split: option.splits)
  then show "(room, next_sequence room s) \<notin> set (reserved_in (tm_issues s))" using le by blast
qed

definition log_extends :: "timeline_store \<Rightarrow> timeline_store \<Rightarrow> bool" where
  "log_extends s t \<longleftrightarrow> (\<exists>new. tm_events t = tm_events s @ new)"

lemma log_extends_refl [simp]: "log_extends s s" "tm_events t = tm_events s \<Longrightarrow> log_extends s t"
  by (simp_all add: log_extends_def)

lemma log_extends_trans: "log_extends s t \<Longrightarrow> log_extends t u \<Longrightarrow> log_extends s u"
  by (auto simp: log_extends_def)

lemma used_in_append [simp]: "used_in (events @ [e]) = insert (er_room_id e, er_sequence e) (used_in events)"
  by (auto simp: used_in_def)

text \<open>A mutation that takes the next number.\<close>

lemma apply_mutation_ok:
  assumes "timeline_ok s" and "apply_mutation ports m s = Inr t"
  shows "timeline_ok t \<and> log_extends s t \<and> same_rest s t"
proof -
  obtain e where e: "encode_mutation ports m = Inr e" "write_mutation e (next_sequence (em_room_id e) s) s = Inr t"
    using assms(2) by (auto simp: apply_mutation_def result_simps)
  note n = next_sequence_fresh [of "em_room_id e" s]
  note w = write_mutation_ok [OF e(2) encode_ok(1) [OF e(1)]]
  have "reservations_ok (tm_events t) (tm_issues t)"
    using w assms(1) n by (auto simp: timeline_ok_def reservations_ok_def same_rest_def)
  then show ?thesis using w assms(1) by (auto simp: timeline_ok_def log_extends_def)
qed

section \<open>Isolated events\<close>

lemma reserved_in_append [simp]: "reserved_in (xs @ ys) = reserved_in xs @ reserved_in ys"
  by (simp add: reserved_in_def)

lemma reserved_in_row [simp]: "reserved_in [i] = (case iw_reserved_sequence i of None \<Rightarrow> [] | Some q \<Rightarrow> [(iw_room_id i, q)])"
  by (simp add: reserved_in_def)

lemma persist_issue_ok:
  assumes "timeline_ok s"
  shows "timeline_ok (persist_issue tok i s) \<and> tm_events (persist_issue tok i s) = tm_events s \<and>
    tm_current (persist_issue tok i s) = tm_current s"
proof -
  define event where "event = unwrap_or (mi_event_id i) []"
  define session where "session = (if mi_reason i = IssueUndecryptable \<and> event \<noteq> [] then mi_session i else None)"
  define reserved where "reserved = (case session of None \<Rightarrow> None | Some _ \<Rightarrow> reserve_sequence (mi_room_id i) event s)"
  define row where "row = \<lparr>iw_sync_token = tok, iw_room_id = mi_room_id i, iw_event_id = event, iw_reason = mi_reason i,
      iw_reserved_sequence = reserved, iw_session = session\<rparr>"
  have p: "persist_issue tok i s = s \<or> persist_issue tok i s = s\<lparr>tm_issues := tm_issues s @ [row]\<rparr>"
    unfolding persist_issue_def Let_def row_def reserved_def session_def event_def by simp
  have r: "reserved = None \<or> reserved = Some (next_sequence (mi_room_id i) s) \<and> mi_reason i = IssueUndecryptable"
    by (auto simp: reserved_def session_def reserve_sequence_def split: option.splits if_splits)
  note n = next_sequence_fresh [of "mi_room_id i" s]
  have "reservations_ok (tm_events s) (tm_issues s @ [row])"
    using assms r n by (auto simp: timeline_ok_def reservations_ok_def row_def)
  then show ?thesis using p assms by (auto simp: timeline_ok_def)
qed

lemma persist_issues_ok:
  "timeline_ok s \<Longrightarrow> timeline_ok (persist_issues tok is s) \<and> tm_events (persist_issues tok is s) = tm_events s \<and>
    tm_current (persist_issues tok is s) = tm_current s"
proof (induction "is" arbitrary: s)
  case (Cons i "is")
  show ?case using Cons.IH persist_issue_ok [OF Cons.prems, of tok i] by (simp add: persist_issues_def)
qed (simp add: persist_issues_def)

lemma apply_timeline_ok:
  assumes "timeline_ok s" and "apply_timeline ports tok n ms is s = Inr t"
  shows "timeline_ok t \<and> log_extends s t"
  using assms
proof (induction ms arbitrary: n "is" s)
  case Nil
  then show ?case using persist_issues_ok by (auto simp: log_extends_def)
next
  case (Cons m ms)
  define u where "u = persist_issues tok (takeWhile (\<lambda>i. mi_mutations_before i \<le> n) is) s"
  obtain v where v: "apply_mutation ports m u = Inr v"
      "apply_timeline ports tok (n + 1) ms (dropWhile (\<lambda>i. mi_mutations_before i \<le> n) is) v = Inr t"
    using Cons.prems(2) by (auto simp: u_def Let_def result_simps)
  have "timeline_ok u" "log_extends s u" using persist_issues_ok [OF Cons.prems(1)] by (simp_all add: u_def)
  then show ?case using apply_mutation_ok [OF _ v(1)] Cons.IH [OF _ v(2)] log_extends_trans by blast
qed

section \<open>Batches\<close>

lemma timeline_ok_frame:
  "timeline_ok s \<Longrightarrow> tm_events t = tm_events s \<Longrightarrow> tm_current t = tm_current s \<Longrightarrow> tm_issues t = tm_issues s \<Longrightarrow> timeline_ok t"
  by (simp add: timeline_ok_def)

lemma record_loss_keeps:
  "tm_events (record_loss room a b s) = tm_events s" "tm_current (record_loss room a b s) = tm_current s"
  "tm_issues (record_loss room a b s) = tm_issues s" "tm_gaps (record_loss room a b s) = tm_gaps s"
  by (simp_all add: record_loss_def)

lemma persist_gaps_keeps:
  "tm_events (persist_gaps tok ms gs s) = tm_events s" "tm_current (persist_gaps tok ms gs s) = tm_current s"
  "tm_issues (persist_gaps tok ms gs s) = tm_issues s"
proof -
  have g: "tm_events (persist_gap tok ms g s) = tm_events s" "tm_current (persist_gap tok ms g s) = tm_current s"
      "tm_issues (persist_gap tok ms g s) = tm_issues s" for g s
    by (simp_all add: persist_gap_def Let_def record_loss_keeps split: option.splits)
  show "tm_events (persist_gaps tok ms gs s) = tm_events s" "tm_current (persist_gaps tok ms gs s) = tm_current s"
      "tm_issues (persist_gaps tok ms gs s) = tm_issues s"
    unfolding persist_gaps_def by (induction gs arbitrary: s) (simp_all add: g)
qed

lemma batch_ok:
  assumes "timeline_ok s" and "batch_body ports b s = Inr t"
  shows "timeline_ok t \<and> log_extends s t"
proof -
  define u where "u = persist_gaps (pc_next_batch b) (pc_mutations b) (pc_gaps b) s"
  obtain v where v: "apply_timeline ports (pc_next_batch b) 0 (pc_mutations b) (pc_issues b) u = Inr v"
      "t = v\<lparr>tm_cursor := Some (pc_next_batch b)\<rparr>"
    using assms(2) by (auto simp: batch_body_def u_def result_simps)
  have "timeline_ok u" by (rule timeline_ok_frame [OF assms(1)]) (simp_all add: u_def persist_gaps_keeps)
  from apply_timeline_ok [OF this v(1)] show ?thesis
    using v(2) by (auto simp: timeline_ok_def log_extends_def u_def persist_gaps_keeps)
qed

lemma backfill_ok:
  assumes "timeline_ok s" and "backfill_body ports b s = Inr t"
  shows "timeline_ok t \<and> log_extends s t"
proof -
  obtain v where v: "apply_timeline ports (pg_sync_token (bf_gap b)) 0 (bf_mutations b) (bf_issues b) s = Inr v"
      "tm_events t = tm_events v" "tm_current t = tm_current v" "tm_issues t = tm_issues v"
    using assms(2)
    by (auto simp: backfill_body_def result_simps Let_def record_truncated_backfill_def record_loss_keeps split: option.splits)
  from apply_timeline_ok [OF assms(1) v(1)] show ?thesis using v(2-4) by (simp add: timeline_ok_def log_extends_def)
qed

section \<open>Recovery\<close>

lemma reserved_sequence_some:
  assumes "reserved_sequence room event s = Some q"
  shows "\<exists>i\<in>set (tm_issues s). undecryptable_row room event i \<and> iw_reserved_sequence i = Some q"
proof -
  define f where "f = (\<lambda>(i::issue_row) best. case (iw_reserved_sequence i, best) of
      (None, _) \<Rightarrow> best | (Some q, None) \<Rightarrow> Some q | (Some q, Some b) \<Rightarrow> Some (min b q))"
  have "fold f xs a = Some q \<Longrightarrow> a = Some q \<or> (\<exists>i\<in>set xs. iw_reserved_sequence i = Some q)" for xs a
  proof (induction xs arbitrary: a)
    case (Cons x xs)
    from Cons.IH [of "f x a"] Cons.prems
    show ?case by (auto simp: f_def min_def split: option.splits if_splits)
  qed simp
  from this [of "filter (undecryptable_row room event) (tm_issues s)" None] assms show ?thesis
    by (auto simp: reserved_sequence_def f_def)
qed

lemma distinct_concat_filter:
  "distinct (concat (map f xs)) \<Longrightarrow> distinct (concat (map f (filter p xs))) \<and>
     set (concat (map f (filter p xs))) \<inter> set (concat (map f (filter (\<lambda>x. \<not> p x) xs))) = {}"
proof (induction xs)
  case (Cons x xs)
  then have "distinct (f x)" "set (f x) \<inter> set (concat (map f xs)) = {}" by auto
  moreover have "set (concat (map f (filter q xs))) \<subseteq> set (concat (map f xs))" for q by auto
  ultimately show ?case using Cons by (cases "p x") (simp_all, (blast | (intro conjI; blast))+)
qed simp

lemma reservations_subset:
  assumes "reservations_ok events issues" shows "reservations_ok events (filter p issues)"
proof -
  have "set (reserved_in (filter p issues)) \<subseteq> set (reserved_in issues)" by (auto simp: reserved_in_def)
  moreover have "distinct (reserved_in (filter p issues))"
    using assms distinct_concat_filter [of _ issues p] unfolding reserved_in_def reservations_ok_def by blast
  ultimately show ?thesis using assms by (auto simp: reservations_ok_def)
qed

lemma forget_ok:
  "timeline_ok s \<Longrightarrow> timeline_ok (forget_undecryptable room event s) \<and>
     tm_events (forget_undecryptable room event s) = tm_events s \<and> tm_current (forget_undecryptable room event s) = tm_current s"
  using reservations_subset by (auto simp: timeline_ok_def forget_undecryptable_def delete_where_def)

lemma recover_mutation_ok:
  assumes "timeline_ok s" and "recover_mutation ports room m s = Inr t"
  shows "timeline_ok t \<and> log_extends s t"
proof (cases "reserved_sequence room (mutation_event_id m) s")
  case None
  then show ?thesis using assms by (auto simp: recover_mutation_def split: if_splits)
next
  case (Some q)
  obtain e u where e: "encode_mutation ports m = Inr e" "write_mutation e q s = Inr u" "mutation_room_id m = room"
      "t = forget_undecryptable room (mutation_event_id m) u"
    using assms(2) Some by (auto simp: recover_mutation_def result_simps split: if_splits)
  note w = write_mutation_ok [OF e(2) encode_ok(1) [OF e(1)]]
  let ?p = "undecryptable_row room (mutation_event_id m)"
  obtain i where i: "i \<in> set (tm_issues s)" "?p i" "iw_reserved_sequence i = Some q"
    using reserved_sequence_some [OF Some] by blast
  have ok: "reservations_ok (tm_events s) (tm_issues s)" using assms(1) by (simp add: timeline_ok_def)
  have "(room, q) \<in> set (reserved_in (filter ?p (tm_issues s)))"
    using i by (auto simp: reserved_iff undecryptable_row_def)
  moreover have "set (reserved_in (filter ?p (tm_issues s))) \<inter> set (reserved_in (filter (\<lambda>x. \<not> ?p x) (tm_issues s))) = {}"
    using ok distinct_concat_filter [of _ "tm_issues s" ?p] unfolding reserved_in_def reservations_ok_def by blast
  ultimately have free: "(room, q) \<notin> set (reserved_in (filter (\<lambda>x. \<not> ?p x) (tm_issues s)))" by blast
  have "reservations_ok (tm_events s) (filter (\<lambda>x. \<not> ?p x) (tm_issues s))" by (rule reservations_subset [OF ok])
  then have "reservations_ok (tm_events u) (filter (\<lambda>x. \<not> ?p x) (tm_issues s))"
    using w assms(1) free encode_ok(3) [OF e(1)] e(3) by (auto simp: timeline_ok_def reservations_ok_def)
  then show ?thesis
    using w assms(1) by (auto simp: e(4) timeline_ok_def forget_undecryptable_def delete_where_def same_rest_def log_extends_def)
qed

lemma recover_all_ok:
  "timeline_ok s \<Longrightarrow> run_each (recover_mutation ports room) ms s = Inr t \<Longrightarrow> timeline_ok t \<and> log_extends s t"
proof (induction ms arbitrary: s)
  case (Cons m ms)
  then obtain u where u: "recover_mutation ports room m s = Inr u" "run_each (recover_mutation ports room) ms u = Inr t"
    by (auto simp: result_simps)
  then show ?case using Cons.IH [OF _ u(2)] recover_mutation_ok [OF Cons.prems(1) u(1)] log_extends_trans by blast
qed simp

lemma reclassify_ok:
  assumes "timeline_ok s"
  shows "timeline_ok (reclassify room i s) \<and> tm_events (reclassify room i s) = tm_events s \<and>
    tm_current (reclassify room i s) = tm_current s"
proof (cases "mi_event_id i")
  case (Some event)
  define hit where "hit = undecryptable_row room event"
  define taken where "taken = map (\<lambda>r. issue_key (reclassified_row (mi_reason i) r)) (filter hit (tm_issues s))"
  define g where "g = (\<lambda>r. if hit r then [reclassified_row (mi_reason i) r] else if issue_key r \<in> set taken then [] else [r])"
  have t: "reclassify room i s = s\<lparr>tm_issues := concat (map g (tm_issues s))\<rparr>"
    unfolding reclassify_def g_def taken_def hit_def Let_def using Some by simp
  have r: "reserved_in (concat (map g xs)) = reserved_in (filter (\<lambda>r. \<not> hit r \<and> issue_key r \<notin> set taken) xs)" for xs
    by (induction xs) (auto simp: g_def reserved_in_def reclassified_row_def)
  have u: "\<forall>x\<in>set (concat (map g (tm_issues s))). iw_reserved_sequence x \<noteq> None \<longrightarrow> x \<in> set (tm_issues s)"
    by (auto simp: g_def reclassified_row_def split: if_splits)
  have "reservations_ok (tm_events s) (filter (\<lambda>r. \<not> hit r \<and> issue_key r \<notin> set taken) (tm_issues s))"
    using assms by (intro reservations_subset) (simp add: timeline_ok_def)
  moreover have "\<forall>x\<in>set (concat (map g (tm_issues s))). iw_reserved_sequence x \<noteq> None \<longrightarrow> iw_reason x = IssueUndecryptable"
    using assms u unfolding timeline_ok_def reservations_ok_def by blast
  ultimately have "reservations_ok (tm_events s) (concat (map g (tm_issues s)))"
    unfolding reservations_ok_def r by blast
  then show ?thesis using assms t by (simp add: timeline_ok_def)
qed (use assms in \<open>simp add: reclassify_def\<close>)

lemma fold_keeps:
  assumes "\<And>x s. timeline_ok s \<Longrightarrow> timeline_ok (f x s) \<and> tm_events (f x s) = tm_events s \<and> tm_current (f x s) = tm_current s"
    and "timeline_ok s"
  shows "timeline_ok (fold f xs s) \<and> tm_events (fold f xs s) = tm_events s \<and> tm_current (fold f xs s) = tm_current s"
  using assms(2)
proof (induction xs arbitrary: s)
  case (Cons x xs)
  then show ?case using assms(1) [OF Cons.prems, of x] by simp
qed simp

lemma recovery_ok:
  assumes "timeline_ok s" and "recovery_body ports b s = Inr t"
  shows "timeline_ok t \<and> log_extends s t"
proof -
  obtain u where u: "run_each (recover_mutation ports (rb_room_id b)) (rb_recovered b) s = Inr u"
      "t = fold (forget_undecryptable (rb_room_id b)) (rb_dismissed b) (fold (reclassify (rb_room_id b)) (rb_reclassified b) u)"
    using assms(2) by (auto simp: recovery_body_def result_simps)
  note v = recover_all_ok [OF assms(1) u(1)]
  note w = fold_keeps [of "reclassify (rb_room_id b)" u "rb_reclassified b", OF reclassify_ok]
  show ?thesis
    using v w fold_keeps [of "forget_undecryptable (rb_room_id b)" _ "rb_dismissed b", OF forget_ok]
    by (simp add: u(2) log_extends_def)
qed

end
