(* ===== verification/Timeline_Theorems.thy ===== *)
theory Timeline_Theorems
  imports Timeline_Facts Message_Inbox
begin

text \<open>
  The local time line as a whole: every operation that writes, as a command, and what holds after any
  sequence of them. A command that fails leaves the store as it was.
\<close>

section \<open>Commands\<close>

datatype timeline_command =
    ApplyBatch "projection_failure option" message_projection_batch
  | ApplyBackfill "projection_failure option" backfill_batch
  | ApplyRecovery "projection_failure option" recovery_batch
  | AcknowledgeInbox "query_failure option" utext utext utext

definition timeline_step :: "row_ports \<Rightarrow> timeline_command \<Rightarrow> timeline_store \<Rightarrow> bool \<times> timeline_store" where
  "timeline_step ports c s =
     (case c of
        ApplyBatch fault b \<Rightarrow> map_prod is_ok id (apply_batch fault ports b s)
      | ApplyBackfill fault b \<Rightarrow> map_prod is_ok id (apply_backfill_batch fault ports b s)
      | ApplyRecovery fault b \<Rightarrow> map_prod is_ok id (apply_recovery_batch fault ports b s)
      | AcknowledgeInbox fault room event viewer \<Rightarrow> map_prod is_ok id (write_inbox_ack fault room event viewer s))"

lemma store_write_cases:
  "store_write fault body s = (r, t) \<Longrightarrow> t = s \<or> (fault = None \<and> body s = Inr t \<and> r = Inr ())"
  by (auto simp: store_write_def split: option.splits sum.splits)

lemma store_write_snd: "snd (store_write fault body s) = s \<or> body s = Inr (snd (store_write fault body s))"
  by (auto simp: store_write_def split: option.splits sum.splits)

lemma write_inbox_ack_keeps:
  "snd (write_inbox_ack fault room event viewer s) = s\<lparr>tm_acks := tm_acks (snd (write_inbox_ack fault room event viewer s))\<rparr>"
  by (cases "resolve_cursor room event s") (simp_all add: write_inbox_ack_def Let_def split: option.splits)

lemma timeline_step_ok:
  assumes "timeline_ok s"
  shows "timeline_ok (snd (timeline_step ports c s)) \<and> log_extends s (snd (timeline_step ports c s))"
proof (cases c)
  case (ApplyBatch fault b)
  then show ?thesis using assms batch_ok [OF assms] store_write_snd [of fault "batch_body ports b" s]
    by (auto simp: timeline_step_def apply_batch_def)
next
  case (ApplyBackfill fault b)
  then show ?thesis using assms backfill_ok [OF assms] store_write_snd [of fault "backfill_body ports b" s]
    by (auto simp: timeline_step_def apply_backfill_batch_def)
next
  case (ApplyRecovery fault b)
  then show ?thesis using assms recovery_ok [OF assms] store_write_snd [of fault "recovery_body ports b" s]
    by (auto simp: timeline_step_def apply_recovery_batch_def)
next
  case (AcknowledgeInbox fault room event viewer)
  define t where "t = snd (write_inbox_ack fault room event viewer s)"
  have "t = s\<lparr>tm_acks := tm_acks t\<rparr>" unfolding t_def by (rule write_inbox_ack_keeps)
  then have "timeline_ok t \<and> log_extends s t" using assms by (metis timeline_ok_frame log_extends_refl(2)
      timeline_store.select_convs(1-3) timeline_store.surjective timeline_store.update_convs(7))
  then show ?thesis by (simp add: AcknowledgeInbox timeline_step_def t_def)
qed

text \<open>A log that grows only at its end, under an invariant: what replaying commands keeps.\<close>

locale logged_machine = guarded_machine step admissible wf
  for step :: "'c \<Rightarrow> 's \<Rightarrow> 'r \<times> 's"
    and admissible :: "'c \<Rightarrow> bool"
    and wf :: "'s \<Rightarrow> bool" +
  fixes log_of :: "'s \<Rightarrow> 'e list"
  assumes step_log: "admissible c \<Longrightarrow> wf s \<Longrightarrow> \<exists>new. log_of (snd (step c s)) = log_of s @ new"
begin

lemma replay_log: "list_all admissible cs \<Longrightarrow> wf s \<Longrightarrow> \<exists>new. log_of (replay step cs s) = log_of s @ new"
proof (induction cs arbitrary: s)
  case (Cons c cs)
  obtain new where "log_of (snd (step c s)) = log_of s @ new" using step_log Cons.prems by auto
  moreover obtain rest where "log_of (replay step cs (snd (step c s))) = log_of (snd (step c s)) @ rest"
    using Cons.IH [of "snd (step c s)"] Cons.prems step_wf by auto
  ultimately show ?case by simp
qed simp

lemma replay_log_mem: "list_all admissible cs \<Longrightarrow> wf s \<Longrightarrow> e \<in> set (log_of s) \<Longrightarrow> e \<in> set (log_of (replay step cs s))"
  using replay_log by fastforce

end

interpretation timeline: logged_machine "timeline_step ports" "\<lambda>_. True" timeline_ok tm_events for ports
  by unfold_locales (use timeline_step_ok in \<open>auto simp: log_extends_def\<close>)

definition store_run :: "row_ports \<Rightarrow> timeline_command list \<Rightarrow> timeline_store \<Rightarrow> timeline_store" where
  "store_run ports cs s = replay (timeline_step ports) cs s"

lemma new_store_ok [simp]: "timeline_ok timeline_store_new"
  by (simp add: timeline_ok_def timeline_store_new_def log_ok_def messages_ok_def reservations_ok_def reserved_in_def)

lemma run_ok: "timeline_ok s \<Longrightarrow> timeline_ok (store_run ports cs s)"
  unfolding store_run_def by (rule timeline.replay_wf) (simp_all add: list_all_iff)

lemma run_new_ok [simp]: "timeline_ok (store_run ports cs timeline_store_new)"
  by (simp add: run_ok)

section \<open>Current messages\<close>

lemma shown_after_effective:
  "shown_after R b st \<longleftrightarrow> shown_after {r \<in> R. is_replace r \<or> is_redact r} b st"
proof -
  have "latest_in R r = latest_in {r \<in> R. is_replace r \<or> is_redact r} r" for r by (auto simp: latest_in_def)
  then show ?thesis by (auto simp: shown_after_def)
qed

lemma current_row_replayed:
  assumes "timeline_ok s" and "c \<in> set (tm_current s)"
  shows "\<exists>b\<in>set (tm_events s). base_of b c \<and> row_shown c = replay_message (tm_events s) b"
proof -
  have log: "log_ok (tm_events s)" and m: "messages_ok (tm_events s) (tm_current s)"
    using assms(1) by (simp_all add: timeline_ok_def)
  obtain b where b: "b \<in> set (tm_events s)" "base_of b c" "shown_after (own (tm_events s) c) b (row_shown c)"
    using m assms(2) by (auto simp: messages_ok_def row_with_def)
  have "inj_on er_sequence (set (revisions_of (tm_events s) b))"
    by (rule inj_on_subset [OF log_inj(2) [OF log, where room = "er_room_id b"]]) (auto simp: revisions_of_def)
  then have "shown_after (own_revisions (tm_events s) b) b (replay_message (tm_events s) b)"
    using shown_after_replay [of "tm_events s" b] log_inj(3) [OF log] b(1,2) by (auto simp: base_of_def)
  moreover have "{r \<in> own_revisions (tm_events s) b. is_replace r \<or> is_redact r} = own (tm_events s) c"
    using b(2) by (auto simp: own_revisions_def revisions_of_def own_def effective_def matches_def base_of_def)
  ultimately have "shown_after (own (tm_events s) c) b (replay_message (tm_events s) b)"
    using shown_after_effective by metis
  then show ?thesis using b shown_after_unique [OF own_inj [OF log]] by blast
qed

lemma every_preview_current:
  "timeline_ok s \<Longrightarrow> e \<in> set (tm_events s) \<Longrightarrow> er_kind e = PreviewEvent \<Longrightarrow>
     \<exists>c\<in>set (tm_current s). cr_message_id c = er_message_id e"
  by (fastforce simp: timeline_ok_def messages_ok_def)

text \<open>
  C3: the messages a Bridge keeps are the replay of its log. Whatever batches, backfills and recoveries were
  applied, failed ones among them: every current message is the one its logged event began, as the revisions
  by the same author leave it when they are applied in the order of their positions (redacted ones hidden for
  good), and every logged message has its current row. Neither the order in which revisions and
  their targets arrived nor events recovered late make a difference.
\<close>

theorem timeline_replays_log:
  "let s = store_run ports cs timeline_store_new
   in (\<forall>c\<in>set (tm_current s). \<exists>b\<in>set (tm_events s). base_of b c \<and> row_shown c = replay_message (tm_events s) b) \<and>
      (\<forall>e\<in>set (tm_events s). er_kind e = PreviewEvent \<longrightarrow> (\<exists>c\<in>set (tm_current s). cr_message_id c = er_message_id e))"
  using current_row_replayed [OF run_new_ok] every_preview_current [OF run_new_ok] by (simp add: Let_def)

section \<open>Positions\<close>

definition numbers_in :: "utext \<Rightarrow> timeline_store \<Rightarrow> int set" where
  "numbers_in room s = {q. (room, q) \<in> used_in (tm_events s) \<union> set (reserved_in (tm_issues s))}"

lemma max_fold_Max: "finite A \<Longrightarrow> set xs = A \<Longrightarrow> fold max xs a = Max (insert (a::int) A)"
  by (metis Max.set_eq_fold list.simps(15))

lemma option_singleton: "q \<in> set (case x of None \<Rightarrow> [] | Some y \<Rightarrow> [y]) \<longleftrightarrow> x = Some q"
  by (auto split: option.splits)

lemma next_sequence_numbers: "next_sequence room s = Max (insert 0 (numbers_in room s)) + 1"
proof -
  define xs where "xs = map er_sequence (filter (\<lambda>e. er_room_id e = room) (tm_events s)) @
       concat (map (\<lambda>i. case iw_reserved_sequence i of None \<Rightarrow> [] | Some q \<Rightarrow> [q])
         (filter (\<lambda>i. iw_room_id i = room) (tm_issues s)))"
  have "set xs = numbers_in room s"
    by (auto simp: xs_def numbers_in_def used_in_def reserved_iff option_singleton)
  then have "fold max xs 0 = Max (insert 0 (numbers_in room s))"
    using max_fold_Max [of "numbers_in room s" xs 0] List.finite_set [of xs] by simp
  then show ?thesis by (simp only: next_sequence_def xs_def)
qed

text \<open>
  C21: a position is given to one event for ever. After any commands, every event ever logged is still in the
  log with the position it had, no two events of a room share a position, and no position kept
  for an isolated event is taken by another, or kept twice.
\<close>

theorem positions_never_reused:
  "let s = store_run ports cs timeline_store_new; t = store_run ports ds s
   in set (tm_events s) \<subseteq> set (tm_events t) \<and>
      distinct (map (\<lambda>e. (er_room_id e, er_sequence e)) (tm_events t)) \<and>
      distinct (reserved_in (tm_issues t)) \<and> set (reserved_in (tm_issues t)) \<inter> used_in (tm_events t) = {}"
proof -
  define s where "s = store_run ports cs timeline_store_new"
  have "timeline_ok (store_run ports ds s)" by (simp add: s_def run_ok)
  moreover have "set (tm_events s) \<subseteq> set (tm_events (store_run ports ds s))"
    unfolding store_run_def by (intro subsetI timeline.replay_log_mem) (simp_all add: list_all_iff s_def)
  ultimately show ?thesis by (simp add: Let_def s_def [symmetric] timeline_ok_def log_ok_def reservations_ok_def)
qed

section \<open>A key that comes late\<close>

definition message_batch :: "utext \<Rightarrow> message_mutation list \<Rightarrow> message_issue list \<Rightarrow> message_projection_batch" where
  "message_batch tok ms is = \<lparr>pc_next_batch = tok, pc_mutations = ms, pc_issues = is, pc_gaps = []\<rparr>"

definition isolated_event :: "utext \<Rightarrow> utext \<Rightarrow> undecryptable_session \<Rightarrow> message_issue" where
  "isolated_event room event z = \<lparr>mi_room_id = room, mi_event_id = Some event, mi_reason = IssueUndecryptable,
     mi_mutations_before = 0, mi_session = Some z\<rparr>"

lemma apply_timeline_no_issues: "apply_timeline ports tok n ms [] s = run_each (apply_mutation ports) ms s"
proof (induction ms arbitrary: n s)
  case (Cons m ms)
  have "apply_timeline ports tok (n + 1) ms [] = run_each (apply_mutation ports) ms" by (rule ext) (rule Cons.IH)
  then show ?case by (simp add: persist_issues_def)
qed (simp add: persist_issues_def)

lemma batch_messages:
  "apply_batch None ports (message_batch tok ms []) s = (Inr (), t) \<Longrightarrow>
     \<exists>u. run_each (apply_mutation ports) ms s = Inr u \<and> t = u\<lparr>tm_cursor := Some tok\<rparr>"
  by (auto simp: apply_batch_def store_write_def batch_body_def message_batch_def persist_gaps_def
      apply_timeline_no_issues result_simps split: sum.splits)

text \<open>Two stores of which the first has one more event, at a position the second keeps.\<close>

definition one_ahead :: "event_row \<Rightarrow> timeline_store \<Rightarrow> timeline_store \<Rightarrow> bool" where
  "one_ahead r a b \<longleftrightarrow> timeline_ok a \<and> timeline_ok b \<and> set (tm_events a) = insert r (set (tm_events b)) \<and>
     er_event_id r \<notin> er_event_id ` set (tm_events b) \<and> (\<forall>room. numbers_in room a = numbers_in room b)"

lemma apply_mutation_events:
  assumes "timeline_ok s" and "apply_mutation ports m s = Inr t" and "encode_mutation ports m = Inr e"
  shows "timeline_ok t" "tm_issues t = tm_issues s"
    "tm_events t = (if em_event_id e \<in> er_event_id ` set (tm_events s) then tm_events s
       else tm_events s @ [event_row_of e (next_sequence (em_room_id e) s)])"
  using apply_mutation_ok [OF assms(1,2)] assms(1,2)
    write_mutation_ok [of e "next_sequence (em_room_id e) s" s t, OF _ encode_ok(1) [OF assms(3)]]
  by (auto simp: apply_mutation_def assms(3) same_rest_def timeline_ok_def)

lemma one_ahead_mutation:
  assumes "one_ahead r a b" and "apply_mutation ports m a = Inr a'" and "apply_mutation ports m b = Inr b'"
    and "mutation_event_id m \<noteq> er_event_id r"
  shows "one_ahead r a' b'"
proof -
  obtain e where e: "encode_mutation ports m = Inr e" using assms(2) by (auto simp: apply_mutation_def result_simps)
  have ok: "timeline_ok a" "timeline_ok b" using assms(1) by (simp_all add: one_ahead_def)
  note A = apply_mutation_events [OF ok(1) assms(2) e]
  note B = apply_mutation_events [OF ok(2) assms(3) e]
  have q: "next_sequence room a = next_sequence room b" for room
    using assms(1) by (simp add: one_ahead_def next_sequence_numbers)
  have k: "em_event_id e \<in> er_event_id ` set (tm_events a) \<longleftrightarrow> em_event_id e \<in> er_event_id ` set (tm_events b)"
    using assms(1,4) encode_ok(2) [OF e] by (auto simp: one_ahead_def)
  have n: "numbers_in room a' = numbers_in room b'" for room
    using assms(1) A B k q by (auto simp: one_ahead_def numbers_in_def set_eq_iff)
  show ?thesis
    using assms(1,4) A(1) B(1) n unfolding one_ahead_def A(3) B(3) q k
    by (auto simp: encode_ok(2) [OF e])
qed

lemma one_ahead_run:
  "one_ahead r a b \<Longrightarrow> run_each (apply_mutation ports) ms a = Inr a' \<Longrightarrow> run_each (apply_mutation ports) ms b = Inr b' \<Longrightarrow>
     \<forall>m\<in>set ms. mutation_event_id m \<noteq> er_event_id r \<Longrightarrow> one_ahead r a' b' \<and> tm_issues b' = tm_issues b"
proof (induction ms arbitrary: a b)
  case (Cons m ms)
  obtain u v where u: "apply_mutation ports m a = Inr u" "run_each (apply_mutation ports) ms u = Inr a'"
      and v: "apply_mutation ports m b = Inr v" "run_each (apply_mutation ports) ms v = Inr b'"
    using Cons.prems(2,3) by (auto simp: result_simps)
  have "one_ahead r u v" using one_ahead_mutation [OF Cons.prems(1) u(1) v(1)] Cons.prems(4) by simp
  moreover have "tm_issues v = tm_issues b"
    using apply_mutation_events(2) [OF _ v(1)] v(1) Cons.prems(1) by (auto simp: one_ahead_def apply_mutation_def result_simps)
  ultimately show ?case using Cons.IH [OF _ u(2) v(2)] Cons.prems(4) by simp
qed simp

text \<open>What is shown depends only on which events are logged, and where.\<close>

lemma replay_message_same:
  assumes "log_ok xs" and "log_ok ys" and "set xs = set ys" and "b \<in> set xs" and "er_kind b = PreviewEvent"
  shows "replay_message xs b = replay_message ys b"
proof -
  have inj: "log_ok zs \<Longrightarrow> inj_on er_sequence (set (revisions_of zs b))" for zs
    by (rule inj_on_subset [OF log_inj(2) [where room = "er_room_id b"]]) (auto simp: revisions_of_def)
  have "own_revisions xs b = own_revisions ys b" using assms(3) by (simp add: own_revisions_def revisions_of_def)
  moreover have "inj_on er_sequence (own_revisions xs b)"
    by (rule inj_on_subset [OF inj [OF assms(1)]]) (simp add: own_revisions_def)
  ultimately show ?thesis
    using shown_after_unique shown_after_replay [of xs b, OF log_inj(3) inj] shown_after_replay [of ys b, OF log_inj(3) inj]
      assms log_inj(3) by metis
qed

definition shown_messages :: "timeline_store \<Rightarrow> (utext \<times> utext \<times> int \<times> shown_message) set" where
  "shown_messages s = (\<lambda>c. (cr_message_id c, cr_base_event_id c, cr_first_sequence c, row_shown c)) ` set (tm_current s)"

lemma shown_messages_log:
  assumes "timeline_ok s" and "inj_on er_message_id {e \<in> set (tm_events s). er_kind e = PreviewEvent}"
  shows "shown_messages s =
    (\<lambda>b. (er_message_id b, er_event_id b, er_sequence b, replay_message (tm_events s) b)) `
      {e \<in> set (tm_events s). er_kind e = PreviewEvent}"
proof (intro set_eqI iffI)
  fix x assume "x \<in> shown_messages s"
  then obtain c where c: "c \<in> set (tm_current s)" "x = (cr_message_id c, cr_base_event_id c, cr_first_sequence c, row_shown c)"
    by (auto simp: shown_messages_def)
  obtain b where "b \<in> set (tm_events s)" "base_of b c" "row_shown c = replay_message (tm_events s) b"
    using current_row_replayed [OF assms(1) c(1)] by blast
  then show "x \<in> (\<lambda>b. (er_message_id b, er_event_id b, er_sequence b, replay_message (tm_events s) b)) `
      {e \<in> set (tm_events s). er_kind e = PreviewEvent}"
    using c(2) by (intro rev_image_eqI [of b]) (simp_all add: base_of_def)
next
  fix x assume "x \<in> (\<lambda>b. (er_message_id b, er_event_id b, er_sequence b, replay_message (tm_events s) b)) `
      {e \<in> set (tm_events s). er_kind e = PreviewEvent}"
  then obtain b where b: "b \<in> set (tm_events s)" "er_kind b = PreviewEvent"
      "x = (er_message_id b, er_event_id b, er_sequence b, replay_message (tm_events s) b)" by auto
  obtain c where c: "c \<in> set (tm_current s)" "cr_message_id c = er_message_id b"
    using every_preview_current [OF assms(1) b(1,2)] by blast
  obtain b' where b': "b' \<in> set (tm_events s)" "base_of b' c" "row_shown c = replay_message (tm_events s) b'"
    using current_row_replayed [OF assms(1) c(1)] by blast
  then have "b' = b" using assms(2) b c(2) by (auto simp: base_of_def inj_on_def)
  then show "x \<in> shown_messages s" using b' b(3) c(1) by (auto simp: shown_messages_def base_of_def intro!: rev_image_eqI)
qed

lemma isolation_ahead:
  assumes ok: "timeline_ok s" and fresh: "\<not> event_is_known (mutation_room_id m) (mutation_event_id m) s"
    and none: "\<forall>i\<in>set (tm_issues s). \<not> undecryptable_row (mutation_room_id m) (mutation_event_id m) i"
    and named: "mutation_event_id m \<noteq> []"
    and early: "apply_mutation ports m s = Inr a"
    and e: "encode_mutation ports m = Inr e"
    and i: "i = isolated_event (mutation_room_id m) (mutation_event_id m) z"
  shows "one_ahead (event_row_of e (next_sequence (em_room_id e) s)) a (persist_issue tok i s)"
    and "tm_issues (persist_issue tok i s) = tm_issues s @
      [\<lparr>iw_sync_token = tok, iw_room_id = mutation_room_id m, iw_event_id = mutation_event_id m,
        iw_reason = IssueUndecryptable, iw_reserved_sequence = Some (next_sequence (mutation_room_id m) s),
        iw_session = Some z\<rparr>]"
    and "tm_issues a = tm_issues s"
proof -
  let ?b = "persist_issue tok i s"
  show issues: "tm_issues ?b = tm_issues s @
      [\<lparr>iw_sync_token = tok, iw_room_id = mutation_room_id m, iw_event_id = mutation_event_id m,
        iw_reason = IssueUndecryptable, iw_reserved_sequence = Some (next_sequence (mutation_room_id m) s),
        iw_session = Some z\<rparr>]"
    using none fresh named
    by (auto simp: persist_issue_def Let_def i isolated_event_def unwrap_or_def reserve_sequence_def list_ex_iff
        undecryptable_row_def)
  note A = apply_mutation_events [OF ok early e]
  note B = persist_issue_ok [OF ok, of tok i]
  have k: "em_event_id e \<notin> er_event_id ` set (tm_events s)"
    using fresh encode_ok(2) [OF e] by (auto simp: event_is_known_def list_ex_iff)
  show "tm_issues a = tm_issues s" by (rule A(2))
  show "one_ahead (event_row_of e (next_sequence (em_room_id e) s)) a ?b"
    using A B k issues encode_ok(3) [OF e] by (auto simp: one_ahead_def numbers_in_def)
qed

lemma reserved_sequence_single:
  assumes "tm_issues s = xs @ [i]" and "\<forall>x\<in>set xs. \<not> undecryptable_row room event x"
    and "undecryptable_row room event i" and "iw_reserved_sequence i = Some q"
  shows "reserved_sequence room event s = Some q"
proof -
  have "filter (undecryptable_row room event) (tm_issues s) = [i]" using assms by (auto simp: filter_empty_conv)
  then show ?thesis using assms(4) by (simp add: reserved_sequence_def)
qed

lemma single_recovery:
  "apply_recovery_batch None ports \<lparr>rb_room_id = room, rb_recovered = [m], rb_reclassified = [], rb_dismissed = []\<rparr> s =
     (Inr (), t) \<Longrightarrow> recover_mutation ports room m s = Inr t"
  by (auto simp: apply_recovery_batch_def store_write_def recovery_body_def result_simps split: sum.splits)

text \<open>
  C9: a key that comes late changes nothing. An event that could not be decrypted when it was seen, and that
  is recovered after other messages were applied, leaves the store with the same log, the same isolated
  events and the same messages at the same positions as if the key had been there from the start (with
  the same wrapped keys). What comes in between is one batch of any messages and revisions but without
  isolated events and gaps of its own, in which the event does not come again; both histories succeed; and no
  two messages of the log have the same message id (of two events with one message id the first one
  written gets the row, and the order of writing is what differs).
\<close>

theorem late_key_changes_nothing:
  assumes "s = store_run ports cs timeline_store_new"
    and fresh: "\<not> event_is_known (mutation_room_id m) (mutation_event_id m) s"
      "\<forall>i\<in>set (tm_issues s). \<not> undecryptable_row (mutation_room_id m) (mutation_event_id m) i"
      "mutation_event_id m \<noteq> []" "\<forall>n\<in>set ms. mutation_event_id n \<noteq> mutation_event_id m"
    and early: "apply_batch None ports (message_batch tok1 [m] []) s = (Inr (), s1)"
      "apply_batch None ports (message_batch tok2 ms []) s1 = (Inr (), a)"
    and late: "apply_batch None ports
        (message_batch tok1 [] [isolated_event (mutation_room_id m) (mutation_event_id m) z]) s = (Inr (), s2)"
      "apply_batch None ports (message_batch tok2 ms []) s2 = (Inr (), s3)"
      "apply_recovery_batch None ports \<lparr>rb_room_id = mutation_room_id m, rb_recovered = [m], rb_reclassified = [],
         rb_dismissed = []\<rparr> s3 = (Inr (), b)"
    and ids: "inj_on er_message_id {e \<in> set (tm_events a). er_kind e = PreviewEvent}"
  shows "set (tm_events b) = set (tm_events a) \<and> tm_issues b = tm_issues a \<and> shown_messages b = shown_messages a"
proof -
  define room where "room = mutation_room_id m"
  define event where "event = mutation_event_id m"
  define i where "i = isolated_event room event z"
  have ok: "timeline_ok s" by (simp add: assms(1))
  obtain u where u: "apply_mutation ports m s = Inr u" "s1 = u\<lparr>tm_cursor := Some tok1\<rparr>"
    using batch_messages [OF early(1)] by (auto simp: result_simps)
  obtain a0 where a0: "run_each (apply_mutation ports) ms s1 = Inr a0" "a = a0\<lparr>tm_cursor := Some tok2\<rparr>"
    using batch_messages [OF early(2)] by auto
  obtain b0 where b0: "run_each (apply_mutation ports) ms s2 = Inr b0" "s3 = b0\<lparr>tm_cursor := Some tok2\<rparr>"
    using batch_messages [OF late(2)] by auto
  have s2: "s2 = (persist_issue tok1 i s)\<lparr>tm_cursor := Some tok1\<rparr>"
    using late(1) by (simp add: apply_batch_def store_write_def batch_body_def message_batch_def persist_gaps_def
        persist_issues_def i_def room_def event_def)
  obtain e where e: "encode_mutation ports m = Inr e" using u(1) by (auto simp: apply_mutation_def result_simps)
  define r where "r = event_row_of e (next_sequence room s)"
  have i: "i = isolated_event (mutation_room_id m) (mutation_event_id m) z" by (simp add: i_def room_def event_def)
  note I = isolation_ahead [OF ok fresh(1,2,3) u(1) e i]
  have ahead: "one_ahead r u (persist_issue tok1 i s)"
    using I(1) [of tok1] by (simp add: r_def room_def encode_ok(3) [OF e])
  have "one_ahead r s1 s2"
    using ahead by (simp add: one_ahead_def u(2) s2 timeline_ok_def numbers_in_def)
  moreover have rid: "er_event_id r = event" "er_room_id r = room"
    by (simp_all add: r_def event_def room_def encode_ok [OF e])
  ultimately have run: "one_ahead r a0 b0" "tm_issues b0 = tm_issues s2"
    using one_ahead_run [OF _ a0(1) b0(1)] fresh(4) by (simp_all add: event_def)
  have "tm_issues s3 = tm_issues s @ [\<lparr>iw_sync_token = tok1, iw_room_id = room, iw_event_id = event,
        iw_reason = IssueUndecryptable, iw_reserved_sequence = Some (next_sequence room s), iw_session = Some z\<rparr>]"
    (is "_ = _ @ [?row]")
    using run(2) I(2) [of tok1] by (simp add: b0(2) s2 room_def event_def)
  note issues = this
  have q: "reserved_sequence room event s3 = Some (next_sequence room s)"
    by (rule reserved_sequence_single [OF issues])
      (use fresh(2) in \<open>simp_all add: undecryptable_row_def room_def event_def\<close>)
  obtain v where v: "write_mutation e (next_sequence room s) s3 = Inr v" "b = forget_undecryptable room event v"
    using single_recovery [OF late(3)] q
    by (auto simp: recover_mutation_def e room_def [symmetric] event_def [symmetric] result_simps)
  have ok3: "timeline_ok s3" using run(1) by (simp add: one_ahead_def b0(2) timeline_ok_def)
  note w = write_mutation_ok [OF v(1) encode_ok(1) [OF e]]
  have "em_event_id e \<notin> er_event_id ` set (tm_events s3)"
    using run(1) rid(1) encode_ok(2) [OF e] by (simp add: one_ahead_def b0(2) event_def)
  then have ev: "tm_events v = tm_events s3 @ [r]" "tm_issues v = tm_issues s3"
    using w ok3 by (simp_all add: timeline_ok_def r_def same_rest_def)
  have log: "set (tm_events b) = set (tm_events a)"
    using run(1) ev(1) by (simp add: v(2) forget_undecryptable_def one_ahead_def a0(2) b0(2))
  have "tm_issues a = tm_issues s"
  proof -
    have "run_each (apply_mutation ports) ms t = Inr t' \<Longrightarrow> timeline_ok t \<Longrightarrow> tm_issues t' = tm_issues t" for ms t t'
    proof (induction ms arbitrary: t)
      case (Cons n ms)
      then show ?case using apply_mutation_ok [OF Cons.prems(2), of ports n] by (auto simp: same_rest_def result_simps)
    qed simp
    from this [OF a0(1)] show ?thesis using ahead I(3) by (simp add: a0(2) u(2) one_ahead_def timeline_ok_def)
  qed
  moreover have "tm_issues b = tm_issues s"
    using fresh(2) issues ev(2)
    by (simp add: v(2) forget_undecryptable_def delete_where_def undecryptable_row_def room_def event_def)
  moreover have "shown_messages b = shown_messages a"
  proof -
    have okb: "timeline_ok b" using recover_mutation_ok [OF ok3 single_recovery [OF late(3)]] by blast
    have oka: "timeline_ok a" using run(1) by (simp add: one_ahead_def a0(2) timeline_ok_def)
    have "replay_message (tm_events b) x = replay_message (tm_events a) x"
      if "x \<in> set (tm_events b)" "er_kind x = PreviewEvent" for x
      using replay_message_same log that oka okb by (simp add: timeline_ok_def)
    then show ?thesis
      using shown_messages_log [OF oka ids] shown_messages_log [OF okb] ids log by (auto intro!: image_cong)
  qed
  ultimately show ?thesis using log by simp
qed

section \<open>A message that repeats a content id\<close>

lemma persist_issues_keeps:
  "tm_events (persist_issues tok is s) = tm_events s \<and> tm_current (persist_issues tok is s) = tm_current s"
proof -
  have "tm_events (persist_issue tok i s) = tm_events s \<and> tm_current (persist_issue tok i s) = tm_current s" for i s
    by (simp add: persist_issue_def Let_def)
  then show ?thesis unfolding persist_issues_def by (induction "is" arbitrary: s) simp_all
qed

lemma content_keys_mem:
  "c \<in> set rows \<Longrightarrow> cr_visibility c = MessageActive \<Longrightarrow> cr_content_id c = Some k \<Longrightarrow> (cr_room_id c, k) \<in> set (content_keys rows)"
  by (force simp: content_keys_def)

lemma content_keys_append: "content_keys (xs @ ys) = content_keys xs @ content_keys ys"
  by (simp add: content_keys_def)

definition mutation_message_id :: "message_mutation \<Rightarrow> message_id" where
  "mutation_message_id m = (case m of PreviewMutation p \<Rightarrow> pp_message_id p | RevisionMutation r \<Rightarrow> px_target_message_id r)"

lemma encoded_message_id:
  "encode_mutation ports m = Inr e \<Longrightarrow> em_message_id e = rq_uuid_text ports (mutation_message_id m)"
  by (auto simp: encode_mutation_def mutation_message_id_def result_simps map_sum_id_Inr
      split: message_mutation.splits option.splits)

lemma preview_encoded:
  assumes "encode_mutation ports (PreviewMutation p) = Inr e"
  shows "em_kind e = PreviewEvent" "em_event_id e = pp_event_id p" "em_room_id e = pp_room_id p"
    "em_message_id e = rq_uuid_text ports (pp_message_id p)"
    "em_content_id e = Some (rq_uuid_text ports (mc_content_id (pp_content p)))"
    "\<exists>v w. em_preview e = Some v \<and> em_content e = Some w" "em_revision_id e = None" "em_revision_kind e = None"
  using assms by (auto simp: encode_mutation_def result_simps)

text \<open>
  The message of the row \<open>c\<close> keeps its content, and neither the event nor the message of \<open>e\<close> is there yet.
\<close>

definition content_held :: "encoded_mutation \<Rightarrow> current_row \<Rightarrow> timeline_store \<Rightarrow> bool" where
  "content_held e c s \<longleftrightarrow> c \<in> set (tm_current s) \<and> em_event_id e \<notin> er_event_id ` set (tm_events s) \<and>
     em_message_id e \<notin> cr_message_id ` set (tm_current s)"

lemma content_held_revision:
  assumes "apply_revision r s = Inr t" and "er_message_id r \<noteq> cr_message_id c" and "content_held e c s"
  shows "content_held e c t"
proof -
  have kept: "map cr_message_id (update_where p g rows) = map cr_message_id rows"
    if "\<And>x. cr_message_id (g x) = cr_message_id x" for p g and rows :: "current_row list"
    using that by (simp add: update_where_def)
  have stays: "c \<in> set (update_where p g rows)" if "c \<in> set rows" "\<not> p c" for p g and rows :: "current_row list"
    using that by (force simp: update_where_def)
  have "\<not> targets r c" using assms(2) by (auto simp: targets_def)
  then have "tm_events t = tm_events s \<and> map cr_message_id (tm_current t) = map cr_message_id (tm_current s) \<and>
      c \<in> set (tm_current t)"
    using assms(1,3)
    by (auto simp: apply_revision_def apply_replacement_def apply_redaction_def result_simps Let_def content_held_def kept
        split: option.splits revision_kind.splits if_splits intro!: stays)
  then show ?thesis using assms(3) unfolding content_held_def by (metis list.set_map)
qed

lemma content_held_revisions:
  "run_each apply_revision rs s = Inr t \<Longrightarrow> \<forall>r\<in>set rs. er_message_id r \<noteq> cr_message_id c \<Longrightarrow>
     content_held e c s \<Longrightarrow> content_held e c t"
proof (induction rs arbitrary: s)
  case (Cons r rs)
  obtain u where u: "apply_revision r s = Inr u" "run_each apply_revision rs u = Inr t"
    using Cons.prems(1) by (auto simp: result_simps)
  then show ?case using Cons.IH [OF u(2)] content_held_revision [OF u(1)] Cons.prems(2,3) by simp
qed simp

lemma content_held_write:
  assumes w: "write_mutation f q s = Inr t" and held: "content_held e c s"
    and ids: "em_event_id f \<noteq> em_event_id e" "em_message_id f \<noteq> em_message_id e" "em_message_id f \<noteq> cr_message_id c"
  shows "content_held e c t"
proof -
  obtain ins where ins: "insert_event f q s = Inr ins" using w by (auto simp: write_mutation_def result_simps)
  show ?thesis
  proof (cases ins)
    case None
    then show ?thesis using ins w held by (simp add: write_mutation_def)
  next
    case (Some u)
    then have u: "content_held e c u"
      using ins held ids(1) by (auto simp: insert_event_def Let_def content_held_def split: if_splits)
    show ?thesis
    proof (cases "em_kind f")
      case RevisionEvent
      then have "apply_revision (event_row_of f q) u = Inr t" using w ins Some by (simp add: write_mutation_def)
      then show ?thesis using content_held_revision [OF _ _ u] ids(3) by simp
    next
      case PreviewEvent
      obtain placed where placed: "insert_current f q u = Inr placed"
        using w ins Some PreviewEvent by (auto simp: write_mutation_def result_simps)
      show ?thesis
      proof (cases placed)
        case None
        then show ?thesis using w ins Some PreviewEvent placed u by (simp add: write_mutation_def)
      next
        case (Some v)
        have "content_held e c v" using placed Some u ids(2)
          by (auto simp: insert_current_def Let_def result_simps content_held_def current_row_of_def split: if_splits)
        moreover have "run_each apply_revision (pending_revisions (em_room_id f) (em_message_id f) v) v = Inr t"
          using w ins \<open>ins = Some u\<close> PreviewEvent placed Some
          by (simp add: write_mutation_def apply_pending_revisions_def)
        ultimately show ?thesis
          using content_held_revisions ids(3) by (auto simp: pending_revisions_def)
      qed
    qed
  qed
qed

text \<open>The message itself is refused while its content id is held.\<close>

lemma held_content_refused:
  assumes held: "content_held e c u" and e: "encode_mutation ports (PreviewMutation p) = Inr e"
    and c: "cr_visibility c = MessageActive" "cr_room_id c = pp_room_id p"
      "cr_content_id c = Some (rq_uuid_text ports (mc_content_id (pp_content p)))"
  shows "apply_mutation ports (PreviewMutation p) u = Inl ProjectionConflict"
proof -
  note E = preview_encoded [OF e]
  obtain v w where vw: "em_preview e = Some v" "em_content e = Some w" using E(6) by blast
  define q where "q = next_sequence (em_room_id e) u"
  note n = next_sequence_fresh [of "em_room_id e" u]
  have check: "event_check (event_row_of e q)" using n(1) E vw by (simp add: event_check_def q_def event_row_of_def)
  have id: "\<not> list_ex (\<lambda>r. er_event_id r = em_event_id e) (tm_events u)"
    using held by (force simp: list_ex_iff content_held_def)
  have free: "\<not> list_ex (\<lambda>r. er_room_id r = em_room_id e \<and> er_sequence r = q) (tm_events u)"
    using n(2) by (force simp: list_ex_iff used_in_def q_def)
  define t where "t = u\<lparr>tm_events := tm_events u @ [event_row_of e q]\<rparr>"
  have ins: "insert_event e q u = Inr (Some t)" using check id free by (simp add: insert_event_def Let_def t_def)
  have "insert_current e q t = Inl ProjectionConflict"
  proof -
    have "(cr_room_id c, rq_uuid_text ports (mc_content_id (pp_content p))) \<in> set (content_keys (tm_current u))"
      using held c(1,3) content_keys_mem unfolding content_held_def by metis
    then have "\<not> distinct (content_keys (tm_current u @ [current_row_of e q v w (rq_uuid_text ports (mc_content_id (pp_content p)))]))"
      using c(2) E(3) unfolding content_keys_append by (simp add: content_keys_def current_row_of_def)
    moreover have "\<not> list_ex (\<lambda>c. cr_message_id c = em_message_id e) (tm_current u)"
      using held by (force simp: list_ex_iff content_held_def)
    ultimately show ?thesis using vw E(5) by (simp add: insert_current_def ok_or_def Let_def t_def)
  qed
  then have "write_mutation e q u = Inl ProjectionConflict" using ins E(1) by (simp add: write_mutation_def)
  then show ?thesis by (simp add: apply_mutation_def e q_def)
qed

lemma held_content_stops:
  assumes "content_held e c s" and e: "encode_mutation ports (PreviewMutation p) = Inr e"
    and c: "cr_visibility c = MessageActive" "cr_room_id c = pp_room_id p"
      "cr_content_id c = Some (rq_uuid_text ports (mc_content_id (pp_content p)))"
    and "\<forall>m\<in>set ms. mutation_event_id m \<noteq> em_event_id e \<and>
      rq_uuid_text ports (mutation_message_id m) \<notin> {em_message_id e, cr_message_id c}"
  shows "\<exists>f. apply_timeline ports tok n (ms @ PreviewMutation p # later) is s = Inl f \<and>
    (ms = [] \<longrightarrow> f = ProjectionConflict)"
  using assms(1,6)
proof (induction ms arbitrary: n "is" s)
  case Nil
  let ?u = "persist_issues tok (takeWhile (\<lambda>i. mi_mutations_before i \<le> n) is) s"
  have "content_held e c ?u" using Nil.prems(1) by (simp add: content_held_def persist_issues_keeps)
  then show ?case using held_content_refused [OF _ e c] by (simp add: Let_def)
next
  case (Cons m ms)
  let ?u = "persist_issues tok (takeWhile (\<lambda>i. mi_mutations_before i \<le> n) is) s"
  have u: "content_held e c ?u" using Cons.prems(1) by (simp add: content_held_def persist_issues_keeps)
  show ?case
  proof (cases "apply_mutation ports m ?u")
    case (Inr v)
    then obtain f q where f: "encode_mutation ports m = Inr f" "write_mutation f q ?u = Inr v"
      by (auto simp: apply_mutation_def result_simps)
    have "content_held e c v"
      using content_held_write [OF f(2) u] Cons.prems(2) encode_ok(2) [OF f(1)] encoded_message_id [OF f(1)] by simp
    then have "\<exists>f. apply_timeline ports tok (n + 1) (ms @ PreviewMutation p # later)
        (dropWhile (\<lambda>i. mi_mutations_before i \<le> n) is) v = Inl f"
      using Cons.IH [of v "n + 1" "dropWhile (\<lambda>i. mi_mutations_before i \<le> n) is"] Cons.prems(2) by auto
    then show ?thesis using Inr by (auto simp: Let_def)
  qed (simp add: Let_def)
qed

text \<open>
  C29: a batch that brings a new message with the content id of an active message of its room is refused as a
  whole, however often it is tried: nothing is written and the position of the synchronisation stays where
  it is. The mutations before it in the batch, if there are any, are about other messages (a redaction or an
  edit of the active message that comes first would set its content id free); one of them may be what the
  batch fails on, otherwise it fails with a conflict.
\<close>

theorem repeated_content_blocks_batch:
  assumes "s = store_run ports cs timeline_store_new"
    and "c \<in> set (tm_current s)" and "cr_visibility c = MessageActive" and "cr_room_id c = pp_room_id p"
    and "cr_content_id c = Some (rq_uuid_text ports (mc_content_id (pp_content p)))"
    and "pp_event_id p \<notin> er_event_id ` set (tm_events s)"
    and "rq_uuid_text ports (pp_message_id p) \<notin> cr_message_id ` set (tm_current s)"
    and "encode_mutation ports (PreviewMutation p) = Inr e"
    and "pc_mutations b = ms @ PreviewMutation p # later"
    and "\<forall>m\<in>set ms. mutation_event_id m \<noteq> pp_event_id p \<and>
      rq_uuid_text ports (mutation_message_id m) \<notin> {rq_uuid_text ports (pp_message_id p), cr_message_id c}"
  shows "\<exists>f. apply_batch None ports b s = (Inl f, s) \<and> (ms = [] \<longrightarrow> f = ProjectionConflict)"
proof -
  define u where "u = persist_gaps (pc_next_batch b) (pc_mutations b) (pc_gaps b) s"
  note E = preview_encoded [OF assms(8)]
  have "content_held e c u"
    using assms(2,6,7) by (simp add: content_held_def u_def persist_gaps_keeps E)
  moreover have "\<forall>m\<in>set ms. mutation_event_id m \<noteq> em_event_id e \<and>
      rq_uuid_text ports (mutation_message_id m) \<notin> {em_message_id e, cr_message_id c}"
    using assms(10) by (simp add: E)
  ultimately have "\<exists>f. apply_timeline ports (pc_next_batch b) 0 (ms @ PreviewMutation p # later) (pc_issues b) u = Inl f \<and>
      (ms = [] \<longrightarrow> f = ProjectionConflict)"
    by (rule held_content_stops [OF _ assms(8,3-5)])
  then obtain f where f: "apply_timeline ports (pc_next_batch b) 0 (ms @ PreviewMutation p # later) (pc_issues b) u = Inl f"
      "ms = [] \<longrightarrow> f = ProjectionConflict"
    by blast
  have "batch_body ports b s = Inl f"
    unfolding batch_body_def assms(9) using f(1) by (simp add: u_def assms(9))
  then show ?thesis using f(2) by (simp add: apply_batch_def store_write_def)
qed

section \<open>The inbox\<close>

definition row_key :: "current_row \<Rightarrow> utext \<times> utext \<times> utext \<times> int" where
  "row_key c = (cr_message_id c, cr_room_id c, cr_base_event_id c, cr_first_sequence c)"

definition timeline_rows_kept :: "timeline_store \<Rightarrow> timeline_store \<Rightarrow> bool" where
  "timeline_rows_kept s t \<longleftrightarrow> row_key ` set (tm_current s) \<subseteq> row_key ` set (tm_current t) \<and> tm_acks t = tm_acks s"

lemma timeline_rows_kept_refl [simp]: "timeline_rows_kept s s" by (simp add: timeline_rows_kept_def)

lemma timeline_rows_kept_issues [simp]: "timeline_rows_kept s (t\<lparr>tm_issues := is\<rparr>) = timeline_rows_kept s t" by (simp add: timeline_rows_kept_def)

lemma timeline_rows_kept_trans: "timeline_rows_kept s t \<Longrightarrow> timeline_rows_kept t u \<Longrightarrow> timeline_rows_kept s u"
  by (auto simp: timeline_rows_kept_def)

lemma timeline_rows_kept_update:
  "(\<And>c. row_key (f c) = row_key c) \<Longrightarrow> timeline_rows_kept s (s\<lparr>tm_current := update_where p f (tm_current s)\<rparr>)"
proof -
  assume "\<And>c. row_key (f c) = row_key c"
  then have "map row_key (update_where p f (tm_current s)) = map row_key (tm_current s)" by (simp add: update_where_def)
  then have "row_key ` set (update_where p f (tm_current s)) = row_key ` set (tm_current s)" by (metis list.set_map)
  then show ?thesis by (simp add: timeline_rows_kept_def)
qed

lemma timeline_rows_kept_run:
  "(\<And>x s t. f x s = Inr t \<Longrightarrow> timeline_rows_kept s t) \<Longrightarrow> run_each f xs s = Inr t \<Longrightarrow> timeline_rows_kept s t"
proof (induction xs arbitrary: s)
  case (Cons x xs)
  then show ?case using timeline_rows_kept_trans by (fastforce simp: result_simps)
qed simp

lemma apply_revision_kept: "apply_revision r s = Inr t \<Longrightarrow> timeline_rows_kept s t"
  by (auto simp: apply_revision_def apply_replacement_def apply_redaction_def result_simps Let_def row_key_def
      intro!: timeline_rows_kept_update split: option.splits revision_kind.splits if_splits)

lemma write_mutation_kept:
  assumes "write_mutation e q s = Inr t" shows "timeline_rows_kept s t"
proof -
  obtain ins where ins: "insert_event e q s = Inr ins" using assms by (auto simp: write_mutation_def result_simps)
  show ?thesis
  proof (cases ins)
    case None
    then show ?thesis using ins assms by (simp add: write_mutation_def)
  next
    case (Some u)
    then have su: "timeline_rows_kept s u" using ins by (auto simp: insert_event_def Let_def timeline_rows_kept_def split: if_splits)
    show ?thesis
    proof (cases "em_kind e")
      case RevisionEvent
      then show ?thesis using assms ins Some su apply_revision_kept timeline_rows_kept_trans by (auto simp: write_mutation_def)
    next
      case PreviewEvent
      obtain placed where placed: "insert_current e q u = Inr placed"
        using assms ins Some PreviewEvent by (auto simp: write_mutation_def result_simps)
      show ?thesis
      proof (cases placed)
        case None
        then show ?thesis using assms ins Some PreviewEvent placed su by (simp add: write_mutation_def)
      next
        case (Some v)
        have "timeline_rows_kept u v" using placed Some
          by (auto simp: insert_current_def Let_def result_simps timeline_rows_kept_def split: if_splits)
        moreover have "timeline_rows_kept v t"
          using assms ins \<open>ins = Some u\<close> PreviewEvent placed Some
          by (auto simp: write_mutation_def apply_pending_revisions_def intro: timeline_rows_kept_run apply_revision_kept)
        ultimately show ?thesis using su timeline_rows_kept_trans by blast
      qed
    qed
  qed
qed

lemma persist_issues_kept: "timeline_rows_kept s (persist_issues tok is s)"
proof -
  have "tm_acks (persist_issue tok i s) = tm_acks s" for i s by (simp add: persist_issue_def Let_def)
  then have "tm_acks (persist_issues tok is s) = tm_acks s"
    unfolding persist_issues_def by (induction "is" arbitrary: s) simp_all
  then show ?thesis by (simp add: timeline_rows_kept_def persist_issues_keeps)
qed

lemma apply_timeline_kept: "apply_timeline ports tok n ms is s = Inr t \<Longrightarrow> timeline_rows_kept s t"
proof (induction ms arbitrary: n "is" s)
  case Nil
  then show ?case using persist_issues_kept by auto
next
  case (Cons m ms)
  define u where "u = persist_issues tok (takeWhile (\<lambda>i. mi_mutations_before i \<le> n) is) s"
  obtain v where v: "apply_mutation ports m u = Inr v"
      "apply_timeline ports tok (n + 1) ms (dropWhile (\<lambda>i. mi_mutations_before i \<le> n) is) v = Inr t"
    using Cons.prems by (auto simp: u_def Let_def result_simps)
  have "timeline_rows_kept u v" using v(1) write_mutation_kept by (auto simp: apply_mutation_def result_simps)
  moreover have "timeline_rows_kept s u" unfolding u_def by (rule persist_issues_kept)
  ultimately show ?case using Cons.IH [OF v(2)] timeline_rows_kept_trans by blast
qed

lemma record_loss_acks: "tm_acks (record_loss room a b s) = tm_acks s"
  by (simp add: record_loss_def)

lemma persist_gaps_kept: "timeline_rows_kept s (persist_gaps tok ms gs s)"
proof -
  have "tm_acks (persist_gap tok ms g s) = tm_acks s" for g s
    by (simp add: persist_gap_def Let_def record_loss_acks split: option.splits)
  then have "tm_acks (persist_gaps tok ms gs s) = tm_acks s"
    unfolding persist_gaps_def by (induction gs arbitrary: s) simp_all
  then show ?thesis by (simp add: timeline_rows_kept_def persist_gaps_keeps)
qed

lemma batch_kept: "batch_body ports b s = Inr t \<Longrightarrow> timeline_rows_kept s t"
proof -
  assume "batch_body ports b s = Inr t"
  then obtain v where v: "apply_timeline ports (pc_next_batch b) 0 (pc_mutations b) (pc_issues b)
        (persist_gaps (pc_next_batch b) (pc_mutations b) (pc_gaps b) s) = Inr v" "t = v\<lparr>tm_cursor := Some (pc_next_batch b)\<rparr>"
    by (auto simp: batch_body_def result_simps)
  have "timeline_rows_kept v t" by (simp add: v(2) timeline_rows_kept_def)
  then show "timeline_rows_kept s t" using apply_timeline_kept [OF v(1)] persist_gaps_kept timeline_rows_kept_trans by blast
qed

lemma backfill_kept: "backfill_body ports b s = Inr t \<Longrightarrow> timeline_rows_kept s t"
proof -
  assume "backfill_body ports b s = Inr t"
  then obtain v where v: "apply_timeline ports (pg_sync_token (bf_gap b)) 0 (bf_mutations b) (bf_issues b) s = Inr v"
      "timeline_rows_kept v t"
    by (auto simp: backfill_body_def result_simps Let_def record_truncated_backfill_def record_loss_keeps record_loss_acks
        timeline_rows_kept_def split: option.splits)
  then show "timeline_rows_kept s t" using apply_timeline_kept [OF v(1)] timeline_rows_kept_trans by blast
qed

lemma recovery_kept: "recovery_body ports b s = Inr t \<Longrightarrow> timeline_rows_kept s t"
proof -
  assume "recovery_body ports b s = Inr t"
  then obtain u where u: "run_each (recover_mutation ports (rb_room_id b)) (rb_recovered b) s = Inr u"
      "t = fold (forget_undecryptable (rb_room_id b)) (rb_dismissed b) (fold (reclassify (rb_room_id b)) (rb_reclassified b) u)"
    by (auto simp: recovery_body_def result_simps)
  have f: "tm_current (forget_undecryptable room e s) = tm_current s \<and> tm_acks (forget_undecryptable room e s) = tm_acks s" for room e s
    by (simp add: forget_undecryptable_def)
  have g: "tm_current (reclassify room i s) = tm_current s \<and> tm_acks (reclassify room i s) = tm_acks s" for room i s
    by (simp add: reclassify_def Let_def split: option.splits)
  have "tm_current t = tm_current u \<and> tm_acks t = tm_acks u"
  proof -
    have "tm_current (fold (forget_undecryptable room) xs s) = tm_current s \<and> tm_acks (fold (forget_undecryptable room) xs s) = tm_acks s" for room xs s
      using f by (induction xs arbitrary: s) simp_all
    moreover have "tm_current (fold (reclassify room) xs s) = tm_current s \<and> tm_acks (fold (reclassify room) xs s) = tm_acks s" for room xs s
      using g by (induction xs arbitrary: s) simp_all
    ultimately show ?thesis by (simp add: u(2))
  qed
  then have "timeline_rows_kept u t" by (simp add: timeline_rows_kept_def)
  moreover have "timeline_rows_kept s u"
  proof (rule timeline_rows_kept_run [OF _ u(1)])
    fix m s t assume "recover_mutation ports (rb_room_id b) m s = Inr t"
    then show "timeline_rows_kept s t"
      by (auto simp: recover_mutation_def result_simps forget_undecryptable_def
          dest!: write_mutation_kept split: if_splits option.splits)
  qed
  ultimately show "timeline_rows_kept s t" using timeline_rows_kept_trans by blast
qed

text \<open>The position of the inbox is that of a message of its room.\<close>

definition ack_ok :: "timeline_store \<Rightarrow> utext \<Rightarrow> ack_row \<Rightarrow> bool" where
  "ack_ok s room a \<longleftrightarrow>
     (\<exists>c\<in>set (tm_current s). cr_room_id c = room \<and> cr_base_event_id c = aw_event_id a \<and> cr_first_sequence c = aw_sequence a)"

definition acks_ok :: "timeline_store \<Rightarrow> bool" where
  "acks_ok s \<longleftrightarrow> (\<forall>room a. tm_acks s room = Some a \<longrightarrow> ack_ok s room a)"

lemma ack_ok_kept: "timeline_rows_kept s t \<Longrightarrow> ack_ok s room a \<Longrightarrow> ack_ok t room a"
proof -
  assume k: "timeline_rows_kept s t" and "ack_ok s room a"
  then obtain c where c: "c \<in> set (tm_current s)" "cr_room_id c = room" "cr_base_event_id c = aw_event_id a"
      "cr_first_sequence c = aw_sequence a" by (auto simp: ack_ok_def)
  then have "row_key c \<in> row_key ` set (tm_current t)" using k by (auto simp: timeline_rows_kept_def)
  then show "ack_ok t room a" using c by (auto simp: ack_ok_def row_key_def)
qed

definition inbox_ahead :: "timeline_store \<Rightarrow> timeline_store \<Rightarrow> bool" where
  "inbox_ahead s t \<longleftrightarrow>
     (\<forall>room a. tm_acks s room = Some a \<longrightarrow> (\<exists>a'. tm_acks t room = Some a' \<and> aw_sequence a \<le> aw_sequence a'))"

lemma timeline_rows_kept_inbox: "timeline_rows_kept s t \<Longrightarrow> acks_ok s \<Longrightarrow> acks_ok t \<and> inbox_ahead s t"
  using ack_ok_kept by (auto simp: acks_ok_def inbox_ahead_def timeline_rows_kept_def)

lemma find_Some_D: "find P xs = Some x \<Longrightarrow> x \<in> set xs \<and> P x"
  by (auto simp: find_Some_iff)

lemma write_inbox_ack_ahead:
  assumes "acks_ok s"
  shows "acks_ok (snd (write_inbox_ack fault room event viewer s)) \<and> inbox_ahead s (snd (write_inbox_ack fault room event viewer s))"
proof (cases "fault = None \<and> is_ok (resolve_cursor room event s)")
  case False
  then have "snd (write_inbox_ack fault room event viewer s) = s"
    by (cases "resolve_cursor room event s") (auto simp: write_inbox_ack_def is_ok_def split: option.splits)
  then show ?thesis using assms by (simp add: inbox_ahead_def)
next
  case True
  then obtain q where q: "resolve_cursor room event s = Inr q" by (auto simp: is_ok_def split: sum.splits)
  then obtain c where c: "c \<in> set (tm_current s)" "cr_room_id c = room" "cr_base_event_id c = event" "cr_first_sequence c = q"
    by (auto simp: resolve_cursor_def ok_or_def dest: find_Some_D split: option.splits)
  have t: "snd (write_inbox_ack fault room event viewer s) =
      (if (case tm_acks s room of None \<Rightarrow> True | Some a \<Rightarrow> q > aw_sequence a)
       then s\<lparr>tm_acks := (tm_acks s)(room \<mapsto> \<lparr>aw_event_id = event, aw_sequence = q\<rparr>)\<rparr> else s)"
    using True q by (simp add: write_inbox_ack_def Let_def)
  show ?thesis unfolding t
    using assms c by (auto simp: acks_ok_def ack_ok_def inbox_ahead_def split: option.splits)
qed

lemma timeline_step_inbox: "acks_ok s \<Longrightarrow> acks_ok (snd (timeline_step ports c s)) \<and> inbox_ahead s (snd (timeline_step ports c s))"
proof (cases c)
  case (ApplyBatch fault b)
  assume ok: "acks_ok s"
  then show ?thesis using store_write_snd [of fault "batch_body ports b" s] timeline_rows_kept_inbox [OF batch_kept]
    by (auto simp: ApplyBatch timeline_step_def apply_batch_def inbox_ahead_def)
next
  case (ApplyBackfill fault b)
  assume ok: "acks_ok s"
  then show ?thesis using store_write_snd [of fault "backfill_body ports b" s] timeline_rows_kept_inbox [OF backfill_kept]
    by (auto simp: ApplyBackfill timeline_step_def apply_backfill_batch_def inbox_ahead_def)
next
  case (ApplyRecovery fault b)
  assume ok: "acks_ok s"
  then show ?thesis using store_write_snd [of fault "recovery_body ports b" s] timeline_rows_kept_inbox [OF recovery_kept]
    by (auto simp: ApplyRecovery timeline_step_def apply_recovery_batch_def inbox_ahead_def)
next
  case (AcknowledgeInbox fault room event viewer)
  assume "acks_ok s"
  then show ?thesis using write_inbox_ack_ahead by (simp add: AcknowledgeInbox timeline_step_def)
qed

interpretation inbox: guarded_machine "timeline_step ports" "\<lambda>_. True" acks_ok for ports
  by unfold_locales (use timeline_step_inbox in blast)

lemma inbox_ahead_run: "acks_ok s \<Longrightarrow> inbox_ahead s (store_run ports cs s)"
  unfolding store_run_def
proof (rule inbox.replay_induct [where P = "inbox_ahead s"])
  fix c t assume "acks_ok t" "inbox_ahead s t"
  then show "inbox_ahead s (snd (timeline_step ports c t))"
    using timeline_step_inbox [of t ports c] unfolding inbox_ahead_def by (meson order_trans)
qed (simp_all add: list_all_iff inbox_ahead_def)

lemma new_acks_ok [simp]: "acks_ok timeline_store_new"
  by (simp add: acks_ok_def timeline_store_new_def)

text \<open>
  C28: the position of an inbox only moves forward. Whatever is received, recovered or acknowledged
  afterwards, in whatever order, the position of a room is never lost and never smaller, and it is
  always the position of a message of that room.
\<close>

theorem inbox_moves_forward:
  assumes "s = store_run ports cs timeline_store_new" and "t = store_run ports ds s" and "tm_acks s room = Some a"
  shows "\<exists>a'. tm_acks t room = Some a' \<and> aw_sequence a \<le> aw_sequence a' \<and> ack_ok t room a'"
proof -
  have ok: "acks_ok (store_run ports cs s)" if "acks_ok s" for cs s
    unfolding store_run_def using inbox.replay_wf that by (simp add: list_all_iff)
  have s: "acks_ok s" by (simp add: assms(1) ok)
  then show ?thesis using inbox_ahead_run [OF s, of ports ds] ok [OF s, of ds] assms(2,3)
    by (fastforce simp: inbox_ahead_def acks_ok_def)
qed

section \<open>What was lost\<close>

lemma persist_issues_gaps [simp]: "tm_gaps (persist_issues tok is s) = tm_gaps s"
  unfolding persist_issues_def by (induction "is" arbitrary: s) (simp_all add: persist_issue_def Let_def)

lemma apply_timeline_gaps:
  "timeline_ok s \<Longrightarrow> apply_timeline ports tok n ms is s = Inr t \<Longrightarrow> tm_gaps t = tm_gaps s"
proof (induction ms arbitrary: n "is" s)
  case Nil
  then show ?case by auto
next
  case (Cons m ms)
  define u where "u = persist_issues tok (takeWhile (\<lambda>i. mi_mutations_before i \<le> n) is) s"
  obtain v where v: "apply_mutation ports m u = Inr v"
      "apply_timeline ports tok (n + 1) ms (dropWhile (\<lambda>i. mi_mutations_before i \<le> n) is) v = Inr t"
    using Cons.prems(2) by (auto simp: u_def Let_def result_simps)
  have "tm_gaps u = tm_gaps s" by (simp add: u_def)
  moreover have "timeline_ok u" using persist_issues_ok [OF Cons.prems(1)] by (simp add: u_def)
  ultimately show ?case using apply_mutation_ok [OF _ v(1)] Cons.IH [OF _ v(2)] by (simp add: same_rest_def)
qed

text \<open>
  C37: a backfill that did not reach the messages already there is reported. When its batch is written, the
  gap is settled and a loss is on record in front of the earliest message it brought, or of the first
  message of the original batch when it brought none, so that the inbox names it with that message.
\<close>

theorem truncated_backfill_is_reported:
  assumes "s = store_run ports cs timeline_store_new"
    and "apply_backfill_batch None ports b s = (Inr (), t)" and "\<not> bf_complete b"
    and "first_new_message (bf_mutations b) (pg_room_id (bf_gap b)) = Some e \<or>
      (first_new_message (bf_mutations b) (pg_room_id (bf_gap b)) = None \<and>
       (\<exists>g. find (gap_matches (bf_gap b)) (tm_gaps s) = Some g \<and> gw_before_event_id g = Some e))"
    and "\<forall>l\<in>set (tm_losses t). valid_event_id (lw_before_event_id l) \<and> opt_all (lw_after_event_id l) valid_event_id"
  shows "(\<forall>g\<in>set (tm_gaps t). \<not> gap_matches (bf_gap b) g) \<and>
    (\<exists>ls. query_inbox_gaps (pg_room_id (bf_gap b)) [e] t = Inr ls \<and> e \<in> lz_before_event_id ` set ls)"
proof -
  let ?room = "pg_room_id (bf_gap b)"
  obtain v where v: "apply_timeline ports (pg_sync_token (bf_gap b)) 0 (bf_mutations b) (bf_issues b) s = Inr v"
      "t = (record_truncated_backfill b v)\<lparr>tm_gaps := delete_where (gap_matches (bf_gap b)) (tm_gaps (record_truncated_backfill b v))\<rparr>"
    using assms(2) by (auto simp: apply_backfill_batch_def store_write_def backfill_body_def result_simps Let_def split: sum.splits)
  have "tm_gaps v = tm_gaps s" using apply_timeline_gaps [OF _ v(1)] by (simp add: assms(1))
  then have loss: "\<exists>l\<in>set (tm_losses t). lw_room_id l = ?room \<and> lw_before_event_id l = e"
    using assms(3,4) by (auto simp: v(2) record_truncated_backfill_def record_loss_def list_ex_iff split: option.splits)
  have "each decode_loss ls = Inr (map (\<lambda>l. \<lparr>lz_after_event_id = lw_after_event_id l, lz_before_event_id = lw_before_event_id l\<rparr>) ls)"
    if "set ls \<subseteq> set (tm_losses t)" for ls
    using that assms(5) by (induction ls) (auto simp: decode_loss_def)
  from this [OF filter_is_subset] loss show ?thesis
    by (fastforce simp: query_inbox_gaps_def v(2) delete_where_def image_iff)
qed

section \<open>Examples\<close>

text \<open>Ports that print a UUID as its number, and one room with a human's messages.\<close>

definition example_row_ports :: row_ports where
  "example_row_ports = \<lparr>rq_uuid_text = (\<lambda>u. [unat u]),
     rq_parse_uuid = (\<lambda>t. case t of [n] \<Rightarrow> Some (of_nat n) | _ \<Rightarrow> None), rq_uuid_version = (\<lambda>_. 7),
     rq_encode_base64 = map unat, rq_decode_base64 = (\<lambda>t. Some (map of_nat t)), rq_random_nonce = Some [],
     rq_seal = (\<lambda>n k a. Some k), rq_open = (\<lambda>n c a. Some c)\<rparr>"

lemma example_uuid_text [simp]: "rq_uuid_text example_row_ports u = [unat u]"
  by (simp add: example_row_ports_def)

definition example_actor :: message_actor where "example_actor = HumanActor 1 (lit ''Ann'') (lit ''@ann:x.y'') None"

definition example_content :: "uuid \<Rightarrow> message_content_reference" where
  "example_content n = \<lparr>mc_content_id = n, mc_digest = [], mc_size_bytes = 1, mc_client_encryption = None\<rparr>"

definition example_text :: "string \<Rightarrow> message_preview" where
  "example_text s = message_preview_new (lit s) (lit s) (lit ''text/plain'') None Normal {}"

definition example_room :: utext where "example_room = lit ''!r:x.y''"

definition example_preview :: "utext \<Rightarrow> uuid \<Rightarrow> uuid \<Rightarrow> projected_preview" where
  "example_preview event mid cid =
     \<lparr>pp_event_id = event, pp_transaction_id = None, pp_room_id = example_room, pp_message_id = mid,
      pp_created_at = UtcMillis 1, pp_origin_server_timestamp = Some 1, pp_actor = example_actor,
      pp_preview = example_text ''hello'', pp_content = example_content cid, pp_relation = None\<rparr>"

definition example_message :: "utext \<Rightarrow> uuid \<Rightarrow> uuid \<Rightarrow> message_mutation" where
  "example_message event mid cid = PreviewMutation (example_preview event mid cid)"

definition example_edit :: "utext \<Rightarrow> uuid \<Rightarrow> uuid \<Rightarrow> message_mutation" where
  "example_edit event mid cid = RevisionMutation
     \<lparr>px_event_id = event, px_transaction_id = None, px_room_id = example_room, px_revision_id = 99,
      px_target_message_id = mid, px_created_at = UtcMillis 2, px_origin_server_timestamp = Some 2,
      px_actor = example_actor, px_kind = Replace, px_preview = Some (example_text ''edited''),
      px_content = Some (example_content cid)\<rparr>"

definition example_content_json :: "uuid \<Rightarrow> json" where
  "example_content_json c = projr (encode_content example_row_ports (example_content c) example_room)"

definition message_encoded :: "utext \<Rightarrow> uuid \<Rightarrow> uuid \<Rightarrow> encoded_mutation" where
  "message_encoded e m c = projr (encode_mutation example_row_ports (example_message e m c))"

definition edit_encoded :: "utext \<Rightarrow> uuid \<Rightarrow> uuid \<Rightarrow> encoded_mutation" where
  "edit_encoded e m c = projr (encode_mutation example_row_ports (example_edit e m c))"

lemmas example_defs = example_message_def example_preview_def example_edit_def example_content_def encode_mutation_def
  encode_server_timestamp_def encode_content_def i64_try_from_def in_i64_def i64_min_def i64_max_def example_row_ports_def

lemma message_encoded [simp]:
  "encode_mutation example_row_ports (example_message e m c) = Inr (message_encoded e m c)"
  "em_event_id (message_encoded e m c) = e" "em_room_id (message_encoded e m c) = example_room"
  "em_kind (message_encoded e m c) = PreviewEvent" "em_message_id (message_encoded e m c) = [unat m]"
  "em_revision_id (message_encoded e m c) = None" "em_revision_kind (message_encoded e m c) = None"
  "em_subject_key (message_encoded e m c) = subject_key example_row_ports example_actor"
  "em_content_id (message_encoded e m c) = Some [unat c]"
  "em_preview (message_encoded e m c) = Some (encode_preview (example_text ''hello''))"
  "em_content (message_encoded e m c) = Some (example_content_json c)"
  unfolding message_encoded_def example_content_json_def by (simp_all add: example_defs)

lemma edit_encoded [simp]:
  "encode_mutation example_row_ports (example_edit e m c) = Inr (edit_encoded e m c)"
  "em_event_id (edit_encoded e m c) = e" "em_room_id (edit_encoded e m c) = example_room"
  "em_kind (edit_encoded e m c) = RevisionEvent" "em_message_id (edit_encoded e m c) = [unat m]"
  "em_revision_id (edit_encoded e m c) = Some [99]" "em_revision_kind (edit_encoded e m c) = Some Replace"
  "em_subject_key (edit_encoded e m c) = subject_key example_row_ports example_actor"
  "em_content_id (edit_encoded e m c) = Some [unat c]"
  "em_preview (edit_encoded e m c) = Some (encode_preview (example_text ''edited''))"
  "em_content (edit_encoded e m c) = Some (example_content_json c)"
  unfolding edit_encoded_def example_content_json_def by (simp_all add: example_defs)

definition example_commands :: "timeline_command list" where
  "example_commands =
     [ApplyBatch None (message_batch [1] [example_edit [2] 7 22] []),
      ApplyBatch None (message_batch [2] [example_message [1] 7 21] [])]"

definition example_run :: timeline_store where
  "example_run = store_run example_row_ports example_commands timeline_store_new"

lemmas store_evaluation = store_run_def timeline_step_def apply_batch_def apply_recovery_batch_def recovery_body_def
  store_write_def batch_body_def message_batch_def persist_gaps_def persist_issues_def persist_issue_def apply_mutation_def
  write_mutation_def insert_event_def event_check_def next_sequence_def insert_current_def ok_or_def current_row_of_def
  content_keys_def apply_pending_revisions_def pending_revisions_def apply_revision_def apply_replacement_def update_where_def
  targets_def revision_newer_applied_def Let_def is_ok_def

lemma row_of_revision_id [simp]: "er_revision_id (event_row_of e q) = em_revision_id e"
  by (simp add: event_row_of_def)

lemma sort_key_single [simp]: "sort_key f [x] = [x]"
  by (simp add: sort_key_def)

lemmas example_evaluation = example_run_def example_commands_def store_evaluation timeline_store_new_def

lemma example_run_is:
  "tm_events example_run = [event_row_of (edit_encoded [2] 7 22) 1, event_row_of (message_encoded [1] 7 21) 2]"
  "tm_issues example_run = []" "tm_current example_run \<noteq> []"
  "cr_last_revision_event_id (hd (tm_current example_run)) = Some [2]"
  by (simp_all add: example_evaluation)

lemma succeeded: "is_ok (fst p) \<Longrightarrow> p = (Inr (), snd p)"
  by (cases p) (auto simp: is_ok_def split: sum.splits)

lemma timeline_replays_log_witness:
  "\<exists>c\<in>set (tm_current example_run). \<exists>b\<in>set (tm_events example_run).
     base_of b c \<and> row_shown c = replay_message (tm_events example_run) b \<and> cr_last_revision_event_id c = Some [2]"
proof -
  have "\<forall>c\<in>set (tm_current example_run). \<exists>b\<in>set (tm_events example_run).
      base_of b c \<and> row_shown c = replay_message (tm_events example_run) b"
    using timeline_replays_log [of example_row_ports example_commands] unfolding Let_def example_run_def by (rule conjunct1)
  from bspec [OF this hd_in_set] show ?thesis using hd_in_set example_run_is(3,4) by blast
qed

definition example_session :: undecryptable_session where
  "example_session = \<lparr>uz_sender = [1], uz_sender_device = None, uz_session_id = [2]\<rparr>"

lemma late_key_changes_nothing_witness:
  "\<exists>s1 s2 s3 a b.
     apply_batch None example_row_ports (message_batch [1] [example_message [3] 8 23] []) example_run = (Inr (), s1) \<and>
     apply_batch None example_row_ports (message_batch [2] [example_edit [4] 8 24] []) s1 = (Inr (), a) \<and>
     apply_batch None example_row_ports
       (message_batch [1] [] [isolated_event example_room [3] example_session]) example_run = (Inr (), s2) \<and>
     apply_batch None example_row_ports (message_batch [2] [example_edit [4] 8 24] []) s2 = (Inr (), s3) \<and>
     apply_recovery_batch None example_row_ports \<lparr>rb_room_id = example_room, rb_recovered = [example_message [3] 8 23],
       rb_reclassified = [], rb_dismissed = []\<rparr> s3 = (Inr (), b) \<and>
     set (tm_events b) = set (tm_events a) \<and> tm_issues b = tm_issues a \<and> shown_messages b = shown_messages a"
proof -
  let ?m = "example_message [3] 8 23" and ?ms = "[example_edit [4] 8 24]"
  define s1 where "s1 = snd (apply_batch None example_row_ports (message_batch [1] [?m] []) example_run)"
  define a where "a = snd (apply_batch None example_row_ports (message_batch [2] ?ms []) s1)"
  define s2 where "s2 = snd (apply_batch None example_row_ports (message_batch [1] []
      [isolated_event example_room [3] example_session]) example_run)"
  define s3 where "s3 = snd (apply_batch None example_row_ports (message_batch [2] ?ms []) s2)"
  define b where "b = snd (apply_recovery_batch None example_row_ports \<lparr>rb_room_id = example_room, rb_recovered = [?m],
      rb_reclassified = [], rb_dismissed = []\<rparr> s3)"
  have id: "mutation_room_id ?m = example_room" "mutation_event_id ?m = [3]"
    by (simp_all add: example_message_def example_preview_def mutation_room_id_def mutation_event_id_def)
  note more_defs = isolated_event_def unwrap_or_def reserve_sequence_def event_is_known_def example_session_def
    recover_mutation_def reserved_sequence_def undecryptable_row_def id
  have 1: "apply_batch None example_row_ports (message_batch [1] [?m] []) example_run = (Inr (), s1)"
    unfolding s1_def by (rule succeeded) (simp add: example_evaluation)
  have 2: "apply_batch None example_row_ports (message_batch [2] ?ms []) s1 = (Inr (), a)"
    unfolding a_def s1_def by (rule succeeded) (simp add: example_evaluation)
  have 3: "apply_batch None example_row_ports (message_batch [1] [] [isolated_event example_room [3] example_session])
      example_run = (Inr (), s2)"
    unfolding s2_def by (rule succeeded) (simp add: example_evaluation more_defs)
  have 4: "apply_batch None example_row_ports (message_batch [2] ?ms []) s2 = (Inr (), s3)"
    unfolding s3_def s2_def by (rule succeeded) (simp add: example_evaluation more_defs)
  have 5: "apply_recovery_batch None example_row_ports \<lparr>rb_room_id = example_room, rb_recovered = [?m],
      rb_reclassified = [], rb_dismissed = []\<rparr> s3 = (Inr (), b)"
    unfolding b_def s3_def s2_def by (rule succeeded) (simp add: example_evaluation more_defs)
  have fresh: "\<not> event_is_known example_room [3] example_run"
    by (simp add: event_is_known_def example_run_is)
  have other: "\<forall>n\<in>set ?ms. mutation_event_id n \<noteq> [3]" by (simp add: mutation_event_id_def example_edit_def)
  have "tm_events a = [event_row_of (edit_encoded [2] 7 22) 1, event_row_of (message_encoded [1] 7 21) 2,
      event_row_of (message_encoded [3] 8 23) 3, event_row_of (edit_encoded [4] 8 24) 4]"
    unfolding a_def s1_def by (simp add: example_evaluation)
  then have ids: "inj_on er_message_id {e \<in> set (tm_events a). er_kind e = PreviewEvent}"
    by (auto simp: inj_on_def)
  show ?thesis
    using late_key_changes_nothing [OF example_run_def, of ?m ?ms, unfolded id, OF fresh _ _ other 1 2 3 4 5 ids] 1 2 3 4 5
    by (auto simp: example_run_is)
qed

lemma repeated_content_blocks_batch_witness:
  "apply_batch None example_row_ports (message_batch [3] [example_message [5] 8 22] []) example_run =
     (Inl ProjectionConflict, example_run)"
proof -
  have "\<exists>f. apply_batch None example_row_ports (message_batch [3] [example_message [5] 8 22] []) example_run =
      (Inl f, example_run) \<and> (([] :: message_mutation list) = [] \<longrightarrow> f = ProjectionConflict)"
  proof (rule repeated_content_blocks_batch [OF example_run_def, where c = "hd (tm_current example_run)"
      and p = "example_preview [5] 8 22" and e = "message_encoded [5] 8 22" and later = "[]"])
    show "hd (tm_current example_run) \<in> set (tm_current example_run)" by (simp add: example_run_is)
    show "cr_visibility (hd (tm_current example_run)) = MessageActive" by (simp add: example_evaluation)
    show "cr_room_id (hd (tm_current example_run)) = pp_room_id (example_preview [5] 8 22)"
      by (simp add: example_evaluation example_preview_def)
    show "cr_content_id (hd (tm_current example_run)) =
        Some (rq_uuid_text example_row_ports (mc_content_id (pp_content (example_preview [5] 8 22))))"
      by (simp add: example_evaluation example_preview_def example_content_def)
    show "pp_event_id (example_preview [5] 8 22) \<notin> er_event_id ` set (tm_events example_run)"
      by (simp add: example_run_is example_preview_def)
    show "rq_uuid_text example_row_ports (pp_message_id (example_preview [5] 8 22)) \<notin> cr_message_id ` set (tm_current example_run)"
      by (simp add: example_evaluation example_preview_def)
    show "encode_mutation example_row_ports (PreviewMutation (example_preview [5] 8 22)) = Inr (message_encoded [5] 8 22)"
      using message_encoded(1) [of "[5]" 8 22] by (simp add: example_message_def)
    show "pc_mutations (message_batch [3] [example_message [5] 8 22] []) = [] @ PreviewMutation (example_preview [5] 8 22) # []"
      by (simp add: message_batch_def example_message_def)
  qed simp
  then show ?thesis by auto
qed

lemma inbox_moves_forward_witness:
  "\<exists>a a'. tm_acks (store_run example_row_ports [AcknowledgeInbox None example_room [1] []] example_run) example_room = Some a \<and>
     tm_acks (store_run example_row_ports [ApplyBatch None (message_batch [1] [example_message [9] 9 30] []),
       AcknowledgeInbox None example_room [9] []]
       (store_run example_row_ports [AcknowledgeInbox None example_room [1] []] example_run)) example_room = Some a' \<and>
     aw_sequence a \<le> aw_sequence a'"
proof -
  define s where "s = store_run example_row_ports (example_commands @ [AcknowledgeInbox None example_room [1] []]) timeline_store_new"
  have s: "s = store_run example_row_ports [AcknowledgeInbox None example_room [1] []] example_run"
    by (simp add: s_def example_run_def store_run_def replay_append)
  have "tm_acks s example_room = Some \<lparr>aw_event_id = [1], aw_sequence = 2\<rparr>"
    by (simp add: s example_evaluation write_inbox_ack_def resolve_cursor_def)
  from inbox_moves_forward [OF s_def refl this] this show ?thesis unfolding s by blast
qed

definition example_backfill :: backfill_batch where
  "example_backfill = \<lparr>bf_gap = \<lparr>pg_sync_token = [1], pg_room_id = example_room, pg_previous_batch = [2]\<rparr>,
     bf_mutations = [example_message [36, 57, 58, 57] 9 30], bf_issues = [], bf_complete = False\<rparr>"

lemma truncated_backfill_is_reported_witness:
  "\<exists>t ls. apply_backfill_batch None example_row_ports example_backfill timeline_store_new = (Inr (), t) \<and>
     query_inbox_gaps example_room [[36, 57, 58, 57]] t = Inr ls \<and> [36, 57, 58, 57] \<in> lz_before_event_id ` set ls"
proof -
  define t where "t = snd (apply_backfill_batch None example_row_ports example_backfill timeline_store_new)"
  have t: "apply_backfill_batch None example_row_ports example_backfill timeline_store_new = (Inr (), t)"
    unfolding t_def
    by (rule succeeded) (simp add: apply_backfill_batch_def backfill_body_def example_backfill_def example_evaluation)
  have first: "first_new_message (bf_mutations example_backfill) (pg_room_id (bf_gap example_backfill)) = Some [36, 57, 58, 57]"
    "\<not> bf_complete example_backfill" "pg_room_id (bf_gap example_backfill) = example_room"
    by (simp_all add: example_backfill_def example_message_def example_preview_def)
  have "tm_losses t = [\<lparr>lw_room_id = example_room, lw_before_event_id = [36, 57, 58, 57], lw_after_event_id = None\<rparr>]"
    using first unfolding t_def
    by (simp add: apply_backfill_batch_def backfill_body_def example_evaluation record_truncated_backfill_def record_loss_def)
      (simp add: example_backfill_def example_evaluation)
  moreover have "valid_event_id [36, 57, 58, 57]" by code_simp
  ultimately have "\<forall>l\<in>set (tm_losses t). valid_event_id (lw_before_event_id l) \<and> opt_all (lw_after_event_id l) valid_event_id"
    by (simp add: opt_all_def)
  then show ?thesis
    using truncated_backfill_is_reported [of timeline_store_new example_row_ports "[]", OF _ t first(2)] first t
    by (simp add: store_run_def)
qed

end
