(* ===== verification/Incoming_Theorems.thy ===== *)
theory Incoming_Theorems
  imports Message_Incoming Timeline_Theorems
begin

text \<open>
  What a synchronisation does to the time line: the events of the batch are handled as if one by one, in the
  order of the synchronisation; only events that their author vouches for reach the log; keys of content and
  calls to everyone come from encrypted events only; a synchronisation that fails leaves the time line.
\<close>

section \<open>One event after the other\<close>

text \<open>What becomes of an event, and its effect on the store.\<close>

datatype event_fate = Ignored | Projected message_mutation | Isolated message_issue

definition fate_of :: "sync_ports \<Rightarrow> utext \<times> message_event \<Rightarrow> authentication_failure + event_fate" where
  "fate_of ports ev =
     (case ev of (room, event) \<Rightarrow>
        if is_undecryptable event
        then Inr (Isolated ((message_issue_of room event IssueUndecryptable 0)\<lparr>mi_session := undecryptable_session_of event\<rparr>))
        else if \<not> is_message_event event then Inr Ignored
        else
          (case parse_pending_message ports room event of
             Inl reason \<Rightarrow> Inr (Isolated (message_issue_of room event reason 0))
           | Inr (m, authentication) \<Rightarrow>
               and_then (authenticate_message ports authentication) (\<lambda>decision.
               Inr (case decision of
                 AuthTrusted \<Rightarrow> Projected m
               | AuthTrustedHistoricalRevoked \<Rightarrow> Projected (mark_instance_revoked m)
               | _ \<Rightarrow> Isolated (message_issue_of room event (message_authentication_issue decision) 0)))))"

definition apply_fate :: "row_ports \<Rightarrow> utext \<Rightarrow> event_fate \<Rightarrow> timeline_store \<Rightarrow> timeline_store store_result" where
  "apply_fate rows sync_token f s =
     (case f of
        Ignored \<Rightarrow> Inr s
      | Projected m \<Rightarrow> apply_mutation rows m s
      | Isolated i \<Rightarrow> Inr (persist_issue sync_token i s))"

text \<open>The mutations and issues that stand for a list of fates.\<close>

definition add_fate :: "event_fate \<Rightarrow> projected_events \<Rightarrow> projected_events" where
  "add_fate f acc =
     (case acc of (ms, is) \<Rightarrow>
        case f of
          Ignored \<Rightarrow> (ms, is)
        | Projected m \<Rightarrow> (ms @ [m], is)
        | Isolated i \<Rightarrow> (ms, is @ [i\<lparr>mi_mutations_before := length ms\<rparr>]))"

lemma project_event_fate:
  "project_event ports room event acc = map_sum id (\<lambda>f. add_fate f acc) (fate_of ports (room, event))"
proof (cases acc)
  case (Pair ms "is")
  show ?thesis
  proof (cases "is_undecryptable event \<or> \<not> is_message_event event")
    case True
    then show ?thesis
      by (auto simp: Pair project_event_def fate_of_def add_fate_def message_issue_of_def)
  next
    case False
    show ?thesis
    proof (cases "parse_pending_message ports room event")
      case (Inl reason)
      then show ?thesis using False by (simp add: Pair project_event_def fate_of_def add_fate_def message_issue_of_def)
    next
      case (Inr p)
      obtain m a where p: "p = (m, a)" by (cases p)
      show ?thesis
      proof (cases "authenticate_message ports a")
        case (Inl e)
        then show ?thesis using False Inr p by (simp add: Pair project_event_def fate_of_def)
      next
        case d: (Inr decision)
        then show ?thesis using False Inr p
          by (cases decision) (simp_all add: Pair project_event_def fate_of_def add_fate_def message_issue_of_def)
      qed
    qed
  qed
qed

lemma run_each_each:
  assumes "\<And>x acc. f x acc = map_sum id (\<lambda>y. g y acc) (h x)"
  shows "run_each f xs acc = map_sum id (\<lambda>ys. fold g ys acc) (each h xs)"
proof (induction xs arbitrary: acc)
  case (Cons x xs)
  show ?case
  proof (cases "h x")
    case (Inr y)
    then show ?thesis using Cons by (cases "each h xs") (simp_all add: assms)
  qed (simp add: assms)
qed simp

lemma room_fates:
  "project_room_events ports room events acc =
     map_sum id (\<lambda>fs. fold add_fate fs acc) (each (fate_of ports) (map (Pair room) events))"
proof -
  have "each (\<lambda>e. fate_of ports (room, e)) events = each (fate_of ports) (map (Pair room) events)"
    by (induction events) simp_all
  then show ?thesis unfolding project_room_events_def
    using run_each_each [where f = "project_event ports room" and g = add_fate, OF project_event_fate] by simp
qed

text \<open>The batch of a list of fates, from the first one on.\<close>

fun batch_of :: "nat \<Rightarrow> event_fate list \<Rightarrow> projected_events" where
  "batch_of n [] = ([], [])"
| "batch_of n (Ignored # fs) = batch_of n fs"
| "batch_of n (Projected m # fs) = (case batch_of (n + 1) fs of (ms, is) \<Rightarrow> (m # ms, is))"
| "batch_of n (Isolated i # fs) = (case batch_of n fs of (ms, is) \<Rightarrow> (ms, i\<lparr>mi_mutations_before := n\<rparr> # is))"

lemma fold_add_fate:
  "fold add_fate fs (ms, is) = (ms @ fst (batch_of (length ms) fs), is @ snd (batch_of (length ms) fs))"
proof (induction fs arbitrary: ms "is")
  case (Cons f fs)
  then show ?case by (cases f) (simp_all add: add_fate_def split: prod.splits)
qed simp

lemma batch_positions: "i \<in> set (snd (batch_of n fs)) \<Longrightarrow> n \<le> mi_mutations_before i"
proof (induction n fs rule: batch_of.induct)
  case (3 n m fs)
  then show ?case by (fastforce split: prod.splits)
qed (auto split: prod.splits)

lemma persist_issue_position [simp]: "persist_issue tok (i\<lparr>mi_mutations_before := n\<rparr>) s = persist_issue tok i s"
  by (simp add: persist_issue_def Let_def cong: option.case_cong)

lemma apply_fate_simps [simp]:
  "apply_fate rows tok Ignored s = Inr s"
  "apply_fate rows tok (Projected m) s = apply_mutation rows m s"
  "apply_fate rows tok (Isolated i) s = Inr (persist_issue tok i s)"
  by (simp_all add: apply_fate_def)

lemma apply_timeline_issue:
  assumes "mi_mutations_before i \<le> n"
  shows "apply_timeline rows tok n ms (i # is) s = apply_timeline rows tok n ms is (persist_issue tok i s)"
  using assms by (cases ms) (simp_all add: persist_issues_def Let_def)

lemma takeWhile_none: "\<forall>i\<in>set is. \<not> P i \<Longrightarrow> takeWhile P is = [] \<and> dropWhile P is = is"
  by (cases "is") auto

lemma batch_applied:
  "apply_timeline rows tok n (fst (batch_of n fs)) (snd (batch_of n fs)) s = run_each (apply_fate rows tok) fs s"
proof (induction n fs arbitrary: s rule: batch_of.induct)
  case (1 n)
  then show ?case by (simp add: persist_issues_def)
next
  case (2 n fs)
  then show ?case by simp
next
  case (3 n m fs)
  have "\<forall>i\<in>set (snd (batch_of (n + 1) fs)). \<not> mi_mutations_before i \<le> n"
    using batch_positions [of _ "n + 1" fs] by fastforce
  note w = takeWhile_none [OF this]
  have "apply_timeline rows tok n (m # fst (batch_of (n + 1) fs)) (snd (batch_of (n + 1) fs)) s =
      and_then (apply_mutation rows m s) (apply_timeline rows tok (n + 1) (fst (batch_of (n + 1) fs)) (snd (batch_of (n + 1) fs)))"
    using w by (simp add: persist_issues_def)
  also have "\<dots> = and_then (apply_mutation rows m s) (run_each (apply_fate rows tok) fs)"
    using 3 by (cases "apply_mutation rows m s") simp_all
  finally show ?case by (simp add: split_beta)
next
  case (4 n i fs)
  have "apply_timeline rows tok n (fst (batch_of n fs)) (i\<lparr>mi_mutations_before := n\<rparr> # snd (batch_of n fs)) s =
      apply_timeline rows tok n (fst (batch_of n fs)) (snd (batch_of n fs)) (persist_issue tok i s)"
    by (subst apply_timeline_issue) simp_all
  then show ?case using 4 by (simp add: split_beta)
qed

section \<open>The whole batch\<close>

definition joined_rooms :: "message_sync \<Rightarrow> message_room_sync list" where
  "joined_rooms sync = filter (\<lambda>r. mr_kind r = SyncJoined) (mq_rooms sync)"

definition joined_events :: "message_sync \<Rightarrow> (utext \<times> message_event) list" where
  "joined_events sync = concat (map (\<lambda>r. map (Pair (mr_room_id r)) (mr_timeline r)) (joined_rooms sync))"

definition missed_gaps :: "timeline_store \<Rightarrow> message_sync \<Rightarrow> timeline_gap list" where
  "missed_gaps s sync =
     map (\<lambda>r. \<lparr>tl_room_id = mr_room_id r, tl_previous_batch = mr_previous_batch r\<rparr>)
       (filter (\<lambda>r. mr_limited r \<and> room_has_messages (mr_room_id r) s) (joined_rooms sync))"

definition is_handled :: "message_event \<Rightarrow> bool" where
  "is_handled event \<longleftrightarrow> is_undecryptable event \<or> is_message_event event"

lemma each_append: "each f (xs @ ys) = and_then (each f xs) (\<lambda>us. and_then (each f ys) (\<lambda>vs. Inr (us @ vs)))"
proof (induction xs)
  case Nil
  then show ?case by (cases "each f ys") simp_all
next
  case (Cons x xs)
  show ?case
  proof (cases "f x")
    case (Inr y)
    then show ?thesis using Cons by (cases "each f xs"; cases "each f ys") simp_all
  qed simp
qed

lemma mapped_result: "map_sum f g r = Inr y \<longleftrightarrow> (\<exists>x. r = Inr x \<and> y = g x)"
  by (cases r) auto

lemma collect_rooms:
  assumes "run_each (collect_room faults ports s) rooms b = Inr b'"
  shows "\<exists>fs. each (fate_of ports) (concat (map (\<lambda>r. map (Pair (mr_room_id r)) (mr_timeline r)) rooms)) = Inr fs \<and>
    cb_events b' = fold add_fate fs (cb_events b) \<and>
    cb_gaps b' = cb_gaps b @ map (\<lambda>r. \<lparr>tl_room_id = mr_room_id r, tl_previous_batch = mr_previous_batch r\<rparr>)
       (filter (\<lambda>r. mr_limited r \<and> room_has_messages (mr_room_id r) s) rooms)"
  using assms
proof (induction rooms arbitrary: b)
  case (Cons r rooms)
  then obtain c where c: "collect_room faults ports s r b = Inr c" "run_each (collect_room faults ports s) rooms c = Inr b'"
    by (auto simp: result_simps)
  obtain fs where fs: "each (fate_of ports) (map (Pair (mr_room_id r)) (mr_timeline r)) = Inr fs"
      "cb_events c = fold add_fate fs (cb_events b)"
    and gaps: "cb_gaps c = cb_gaps b @ (if mr_limited r \<and> room_has_messages (mr_room_id r) s
        then [\<lparr>tl_room_id = mr_room_id r, tl_previous_batch = mr_previous_batch r\<rparr>] else [])"
    using c(1) by (auto simp: collect_room_def result_simps room_fates mapped_result
        split: if_splits option.splits)
  obtain gs where "each (fate_of ports) (concat (map (\<lambda>r. map (Pair (mr_room_id r)) (mr_timeline r)) rooms)) = Inr gs"
      "cb_events b' = fold add_fate gs (cb_events c)"
      "cb_gaps b' = cb_gaps c @ map (\<lambda>r. \<lparr>tl_room_id = mr_room_id r, tl_previous_batch = mr_previous_batch r\<rparr>)
         (filter (\<lambda>r. mr_limited r \<and> room_has_messages (mr_room_id r) s) rooms)"
    using Cons.IH [OF c(2)] by blast
  then show ?case using fs gaps by (simp add: each_append)
qed simp

lemma collected_batch:
  assumes "collect_sync faults ports sync s = Inr b"
  shows "\<exists>fs. each (fate_of ports) (joined_events sync) = Inr fs \<and> cb_events b = batch_of 0 fs \<and> cb_gaps b = missed_gaps s sync"
proof -
  obtain fs where "each (fate_of ports) (joined_events sync) = Inr fs" "cb_events b = fold add_fate fs ([], [])"
      "cb_gaps b = missed_gaps s sync"
    using collect_rooms [OF assms [unfolded collect_sync_def]]
    by (auto simp: joined_events_def joined_rooms_def missed_gaps_def)
  then show ?thesis using fold_add_fate [of fs "[]" "[]"] by auto
qed

lemma fate_handled:
  assumes "fate_of ports (room, event) = Inr f"
  shows "f \<noteq> Ignored \<longleftrightarrow> is_handled event"
  using assms
  by (auto simp: fate_of_def is_handled_def result_simps split: if_splits sum.splits prod.splits authentication_decision.splits)
    (metis authentication_decision.exhaust)

lemma batch_of_counts: "length (fst (batch_of n fs)) + length (snd (batch_of n fs)) = length (filter (\<lambda>f. f \<noteq> Ignored) fs)"
  by (induction n fs rule: batch_of.induct) (auto split: prod.splits)

lemma fates_handled:
  "each (fate_of ports) evs = Inr fs \<Longrightarrow>
     length (filter (\<lambda>f. f \<noteq> Ignored) fs) = length (filter (\<lambda>ev. is_handled (snd ev)) evs)"
proof (induction evs arbitrary: fs)
  case (Cons ev evs)
  then obtain f gs where "fate_of ports ev = Inr f" "each (fate_of ports) evs = Inr gs" "fs = f # gs"
    by (auto simp: result_simps)
  then show ?case using Cons.IH fate_handled [of ports "fst ev" "snd ev" f] by auto
qed simp

lemma processed:
  assumes "process_messages faults ports rows sync st = (Inr out, st')"
  obtains b where "collect_sync faults ports sync (mst_timeline st) = Inr b"
    and "batch_body rows (sync_batch sync b) (mst_timeline st) = Inr (mst_timeline st')"
    and "mo_accepted_events out = length (fst (cb_events b))" and "mo_isolated_events out = length (snd (cb_events b))"
    and "mo_timeline_gaps out = length (cb_gaps b)"
    and "reconcile_submissions faults ports sync (mst_submissions st) = (Inr (mo_reconciled_submissions out), mst_submissions st')"
proof -
  obtain q t where r: "reconcile_submissions faults ports sync (mst_submissions st) = (q, t)" by (cases "reconcile_submissions faults ports sync (mst_submissions st)")
  obtain n where n: "q = Inr n" using assms r by (cases q) (simp_all add: process_messages_def)
  obtain b where b: "collect_sync faults ports sync (mst_timeline st) = Inr b"
    using assms r n by (cases "collect_sync faults ports sync (mst_timeline st)") (simp_all add: process_messages_def)
  obtain y line where a: "apply_batch (sf_apply faults) rows (sync_batch sync b) (mst_timeline st) = (y, line)"
    by (cases "apply_batch (sf_apply faults) rows (sync_batch sync b) (mst_timeline st)")
  obtain u where u: "y = Inr u" using assms r n b a by (cases y) (simp_all add: process_messages_def)
  have "batch_body rows (sync_batch sync b) (mst_timeline st) = Inr line"
    using a u by (simp add: apply_batch_def store_write_def split: option.splits sum.splits)
  moreover have "out = \<lparr>mo_accepted_events = length (fst (cb_events b)), mo_isolated_events = length (snd (cb_events b)),
        mo_timeline_gaps = length (cb_gaps b), mo_reconciled_submissions = n\<rparr>"
      "st' = st\<lparr>mst_submissions := t, mst_timeline := line\<rparr>"
    using assms r n b a u by (simp_all add: process_messages_def)
  ultimately show ?thesis using that [of b] b r n by simp
qed

lemma batch_steps:
  assumes "process_messages faults ports rows sync st = (Inr out, st')"
  shows "\<exists>fs t. each (fate_of ports) (joined_events sync) = Inr fs \<and>
      run_each (apply_fate rows (mq_next_batch sync)) fs
        (persist_gaps (mq_next_batch sync) (fst (batch_of 0 fs)) (missed_gaps (mst_timeline st) sync) (mst_timeline st)) = Inr t \<and>
      mst_timeline st' = t\<lparr>tm_cursor := Some (mq_next_batch sync)\<rparr> \<and>
      mo_accepted_events out = length (fst (batch_of 0 fs)) \<and> mo_isolated_events out = length (snd (batch_of 0 fs))"
proof -
  obtain b where b: "collect_sync faults ports sync (mst_timeline st) = Inr b"
      "batch_body rows (sync_batch sync b) (mst_timeline st) = Inr (mst_timeline st')"
      "mo_accepted_events out = length (fst (cb_events b))" "mo_isolated_events out = length (snd (cb_events b))"
    using processed [OF assms] by metis
  obtain fs where fs: "each (fate_of ports) (joined_events sync) = Inr fs" "cb_events b = batch_of 0 fs"
      "cb_gaps b = missed_gaps (mst_timeline st) sync"
    using collected_batch [OF b(1)] by blast
  obtain t where t: "apply_timeline rows (mq_next_batch sync) 0 (fst (batch_of 0 fs)) (snd (batch_of 0 fs))
        (persist_gaps (mq_next_batch sync) (fst (batch_of 0 fs)) (missed_gaps (mst_timeline st) sync) (mst_timeline st)) = Inr t"
      "mst_timeline st' = t\<lparr>tm_cursor := Some (mq_next_batch sync)\<rparr>"
    using b(2) fs by (auto simp: batch_body_def sync_batch_def result_simps)
  show ?thesis
    using fs(1) t b(3,4) fs(2) batch_applied by (intro exI [of _ fs] exI [of _ t]) simp
qed

text \<open>
  C10: A synchronisation that succeeds leaves the time line as if its gaps had been written and then the events
  of the joined rooms, one by one in their order, each as a mutation at once or as an issue at once; every
  event of a message is counted as accepted or as isolated, and the position moves to the synchronisation's.
\<close>

theorem events_handled_in_order:
  assumes "process_messages faults ports rows sync st = (Inr out, st')"
  shows "\<exists>fs t. each (fate_of ports) (joined_events sync) = Inr fs \<and>
      run_each (apply_fate rows (mq_next_batch sync)) fs
        (persist_gaps (mq_next_batch sync) (fst (batch_of 0 fs)) (missed_gaps (mst_timeline st) sync) (mst_timeline st)) = Inr t \<and>
      mst_timeline st' = t\<lparr>tm_cursor := Some (mq_next_batch sync)\<rparr> \<and>
      mo_accepted_events out + mo_isolated_events out = length (filter (\<lambda>ev. is_handled (snd ev)) (joined_events sync))"
  using batch_steps [OF assms] batch_of_counts fates_handled by metis

section \<open>Authors\<close>

text \<open>What an author shows for an event: a person its account, an agent the signature of its instance.\<close>

definition vouched :: "sync_ports \<Rightarrow> message_event \<Rightarrow> message_actor \<Rightarrow> bool" where
  "vouched ports event actor \<longleftrightarrow>
     te_state_key event = None \<and> (me_encrypted event \<longrightarrow> me_sender_trusted event) \<and>
     (case actor of
        HumanActor _ _ user _ \<Rightarrow> te_sender event = Some user \<and> json_get ''signature'' (te_content event) = None
      | AgentActor i _ v \<Rightarrow> te_sender event = Some (bi_matrix_user_id i) \<and>
          (\<exists>timestamp canonical signature decision.
             envelope_timestamp (timeline_event.truncate event) = Some timestamp \<and>
             canonical_and_signature ports (te_content event) = Inr (canonical, signature) \<and>
             authenticate_internal ports (bi_agent_id i) (bi_agent_instance_id i) timestamp canonical signature = Inr decision \<and>
             (decision = AuthTrusted \<and> v = VerifiedActive \<or> decision = AuthTrustedHistoricalRevoked \<and> v = RevokedAfterEvent)))"

lemma agent_author:
  assumes "parse_actor ports a event = Inr actor"
  shows "\<exists>i p. actor = AgentActor i p VerifiedActive \<and> te_sender event = Some (bi_matrix_user_id i)"
  using assms
  by (auto simp: parse_actor_def or_invalid_def mapped_result agent_actor_new_def wire_identity_def agent_identity_new_def
      with_avatar_url_def matrix_user_id_new_def result_simps ok_or_def split: if_splits option.splits sum.splits)

lemma human_author:
  assumes "parse_human ports h event = Inr actor"
  shows "\<exists>p n user url. actor = HumanActor p n user url \<and> te_sender event = Some user"
  using assms by (auto simp: parse_human_def result_simps ok_or_def split: if_splits option.splits)

lemma event_author:
  assumes "parse_message_actor ports v event = Inr actor"
  shows "(\<exists>i p. actor = AgentActor i p VerifiedActive \<and> te_sender event = Some (bi_matrix_user_id i)) \<or>
    (\<exists>p n user url. actor = HumanActor p n user url \<and> te_sender event = Some user)"
proof -
  have "(\<exists>a. parse_actor ports a event = Inr actor) \<or> (\<exists>h. parse_human ports h event = Inr actor)"
  proof (cases "te_event_type event \<in> {PREVIEW_EVENT_TYPE, REVISION_EVENT_TYPE}")
    case True
    then show ?thesis using assms by (auto simp: parse_message_actor_def result_simps)
  next
    case False
    then obtain x where x: "(case x of
          AnyHuman h \<Rightarrow> if wh_kind h = lit ''human'' then parse_human ports h event else Inl IssueInvalidEnvelope
        | AnyAgent kind agent \<Rightarrow> if kind = lit ''agent'' then parse_actor ports agent event else Inl IssueInvalidEnvelope) = Inr actor"
      using assms by (auto simp: parse_message_actor_def result_simps)
    then show ?thesis by (cases x) (auto split: if_splits)
  qed
  then show ?thesis using agent_author human_author by blast
qed

lemma parsed_preview:
  assumes "parse_preview_event ports room event = Inr m" and "te_event_id event = Some k"
  shows "mutation_room_id m = room \<and> mutation_event_id m = k \<and> (\<exists>v. parse_message_actor ports v event = Inr (mutation_actor m))"
  using assms
  by (auto simp: parse_preview_event_def result_simps mutation_room_id_def mutation_event_id_def mutation_actor_def)

lemma parsed_revision:
  assumes "parse_revision_event ports room event = Inr m" and "te_event_id event = Some k"
  shows "mutation_room_id m = room \<and> mutation_event_id m = k \<and> (\<exists>v. parse_message_actor ports v event = Inr (mutation_actor m))"
  using assms
  by (auto simp: parse_revision_event_def result_simps mutation_room_id_def mutation_event_id_def mutation_actor_def
      split: prod.splits)

lemma parsed_message:
  assumes "parse_pending_message ports room event = Inr (m, a)"
  shows "mutation_room_id m = room \<and> te_event_id event = Some (mutation_event_id m) \<and>
    (\<exists>v. parse_message_actor ports v event = Inr (mutation_actor m)) \<and> te_state_key event = None \<and>
    (me_encrypted event \<longrightarrow> me_sender_trusted event) \<and>
    (\<exists>timestamp. envelope_timestamp (timeline_event.truncate event) = Some timestamp \<and>
       pending_authentication_of ports event timestamp m = Inr a)"
proof -
  have guard: "\<not> (me_encrypted event \<and> \<not> me_sender_trusted event)"
      "\<not> (te_event_id event = None \<or> te_sender event = None \<or> te_state_key event \<noteq> None)"
    using assms by (auto simp: parse_pending_message_def split: if_splits)
  then obtain k where k: "te_event_id event = Some k" by auto
  obtain timestamp where t: "envelope_timestamp (timeline_event.truncate event) = Some timestamp"
      "pending_authentication_of ports event timestamp m = Inr a"
      "parse_preview_event ports room event = Inr m \<or> parse_revision_event ports room event = Inr m"
    using assms guard by (auto simp: parse_pending_message_def result_simps ok_or_def split: if_splits option.splits)
  have "mutation_room_id m = room \<and> mutation_event_id m = k \<and> (\<exists>v. parse_message_actor ports v event = Inr (mutation_actor m))"
    using t(3) parsed_preview [OF _ k] parsed_revision [OF _ k] by blast
  with guard k t(1,2) show ?thesis by auto
qed

lemma projected_fate:
  assumes "fate_of ports (room, event) = Inr (Projected m)"
  shows "\<exists>m' a decision. parse_pending_message ports room event = Inr (m', a) \<and> authenticate_message ports a = Inr decision \<and>
    (decision = AuthTrusted \<and> m = m' \<or> decision = AuthTrustedHistoricalRevoked \<and> m = mark_instance_revoked m')"
  using assms
  by (auto simp: fate_of_def result_simps split: if_splits sum.splits prod.splits authentication_decision.splits)
    (metis authentication_decision.exhaust)

lemma revoked_fields:
  "mutation_room_id (mark_instance_revoked m) = mutation_room_id m"
  "mutation_event_id (mark_instance_revoked m) = mutation_event_id m"
  "mutation_actor (mark_instance_revoked m) = with_instance_verification RevokedAfterEvent (mutation_actor m)"
  by (simp_all add: mark_instance_revoked_def mutation_room_id_def mutation_event_id_def mutation_actor_def
      split: message_mutation.splits)

lemma projected_vouched:
  assumes "fate_of ports (room, event) = Inr (Projected m)"
  shows "mutation_room_id m = room \<and> te_event_id event = Some (mutation_event_id m) \<and> vouched ports event (mutation_actor m)"
proof -
  obtain m' a decision where p: "parse_pending_message ports room event = Inr (m', a)" "authenticate_message ports a = Inr decision"
      "decision = AuthTrusted \<and> m = m' \<or> decision = AuthTrustedHistoricalRevoked \<and> m = mark_instance_revoked m'"
    using projected_fate [OF assms] by blast
  note f = parsed_message [OF p(1)]
  then obtain v timestamp where v: "parse_message_actor ports v event = Inr (mutation_actor m')"
      "envelope_timestamp (timeline_event.truncate event) = Some timestamp" "pending_authentication_of ports event timestamp m' = Inr a"
    by blast
  have "vouched ports event (mutation_actor m)"
    using event_author [OF v(1)]
  proof
    assume "\<exists>i q. mutation_actor m' = AgentActor i q VerifiedActive \<and> te_sender event = Some (bi_matrix_user_id i)"
    then obtain i q where i: "mutation_actor m' = AgentActor i q VerifiedActive" "te_sender event = Some (bi_matrix_user_id i)" by blast
    obtain c g where c: "canonical_and_signature ports (te_content event) = Inr (c, g)"
        "authenticate_internal ports (bi_agent_id i) (bi_agent_instance_id i) timestamp c g = Inr decision"
      using v(3) p(2)
      by (auto simp: pending_authentication_of_def i(1) actor_identity_def or_invalid_def mapped_result result_simps
          authenticate_message_def)
    show ?thesis using p(3) f i v(2) c
      by (auto simp: vouched_def revoked_fields with_instance_verification_def)
  next
    assume "\<exists>q n user url. mutation_actor m' = HumanActor q n user url \<and> te_sender event = Some user"
    then obtain q n user url where h: "mutation_actor m' = HumanActor q n user url" "te_sender event = Some user" by blast
    have "json_get ''signature'' (te_content event) = None"
      using v(3) by (auto simp: pending_authentication_of_def h(1) actor_identity_def split: if_splits)
    then show ?thesis using p(3) f h
      by (auto simp: vouched_def revoked_fields with_instance_verification_def)
  qed
  then show ?thesis using p(3) f by (auto simp: revoked_fields)
qed

section \<open>What reaches the log\<close>

definition logged_from :: "row_ports \<Rightarrow> message_mutation \<Rightarrow> event_row \<Rightarrow> bool" where
  "logged_from rows m r \<longleftrightarrow> er_event_id r = mutation_event_id m \<and> er_room_id r = mutation_room_id m \<and>
     er_actor r = encode_actor rows (mutation_actor m) \<and> er_subject_key r = subject_key rows (mutation_actor m)"

lemma encoded_logged: "encode_mutation rows m = Inr e \<Longrightarrow> logged_from rows m (event_row_of e q)"
  by (auto simp: encode_mutation_def logged_from_def event_row_of_def mutation_event_id_def mutation_room_id_def
      mutation_actor_def result_simps split: message_mutation.splits)

lemma apply_revision_log: "apply_revision r s = Inr t \<Longrightarrow> tm_events t = tm_events s"
  by (auto simp: apply_revision_def apply_replacement_def apply_redaction_def Let_def result_simps
      split: option.splits revision_kind.splits if_splits)

lemma run_revisions_log: "run_each apply_revision rs s = Inr t \<Longrightarrow> tm_events t = tm_events s"
  by (induction rs arbitrary: s) (auto simp: result_simps apply_revision_log)

lemma write_mutation_log:
  assumes "write_mutation e q s = Inr t"
  shows "set (tm_events t) \<subseteq> insert (event_row_of e q) (set (tm_events s))"
proof -
  obtain i where i: "insert_event e q s = Inr i" using assms by (auto simp: write_mutation_def result_simps)
  show ?thesis
  proof (cases i)
    case None
    then show ?thesis using assms i by (auto simp: write_mutation_def)
  next
    case (Some u)
    have u: "tm_events u = tm_events s @ [event_row_of e q]"
      using i Some by (auto simp: insert_event_def Let_def split: if_splits)
    have "tm_events t = tm_events u"
    proof (cases "em_kind e")
      case PreviewEvent
      then obtain p where p: "insert_current e q u = Inr p"
          "(case p of None \<Rightarrow> Inr u | Some v \<Rightarrow> apply_pending_revisions (em_room_id e) (em_message_id e) v) = Inr t"
        using assms i Some by (auto simp: write_mutation_def result_simps)
      show ?thesis
      proof (cases p)
        case None
        then show ?thesis using p by simp
      next
        case (Some v)
        have "tm_events v = tm_events u"
          using p(1) Some by (auto simp: insert_current_def Let_def result_simps split: if_splits)
        then show ?thesis using p(2) Some run_revisions_log by (auto simp: apply_pending_revisions_def)
      qed
    next
      case RevisionEvent
      then show ?thesis using assms i Some apply_revision_log by (auto simp: write_mutation_def)
    qed
    then show ?thesis using u by auto
  qed
qed

lemma fates_log:
  "run_each (apply_fate rows tok) fs s = Inr t \<Longrightarrow> r \<in> set (tm_events t) \<Longrightarrow>
     r \<in> set (tm_events s) \<or> (\<exists>m. Projected m \<in> set fs \<and> logged_from rows m r)"
proof (induction fs arbitrary: s)
  case (Cons f fs)
  then obtain u where u: "apply_fate rows tok f s = Inr u" "run_each (apply_fate rows tok) fs u = Inr t"
    by (auto simp: result_simps)
  from Cons.IH [OF u(2) Cons.prems(2)] show ?case
  proof
    assume r: "r \<in> set (tm_events u)"
    show ?case
    proof (cases f)
      case Ignored
      then show ?thesis using u r by simp
    next
      case (Projected m)
      then obtain e where "encode_mutation rows m = Inr e" "write_mutation e (next_sequence (em_room_id e) s) s = Inr u"
        using u(1) by (auto simp: apply_mutation_def result_simps)
      then show ?thesis using write_mutation_log r encoded_logged Projected by fastforce
    next
      case (Isolated i)
      then show ?thesis using u r by (auto simp: persist_issue_def Let_def split: if_splits)
    qed
  qed (auto)
qed simp

lemma each_source: "each f xs = Inr ys \<Longrightarrow> y \<in> set ys \<Longrightarrow> \<exists>x\<in>set xs. f x = Inr y"
  by (induction xs arbitrary: ys) (auto simp: result_simps)

text \<open>
  C4: Every event that a synchronisation adds to the log of a room stands for an event of a joined room of that
  synchronisation, under its identifier and with its author, and that author vouches for it: a person is the
  account that sent it, an agent is the account that sent it and its instance signed the event, within the
  time the registry gives for the instance.
\<close>

theorem logged_events_are_vouched:
  assumes "process_messages faults ports rows sync st = (Inr out, st')" and "r \<in> set (tm_events (mst_timeline st'))"
    and "r \<notin> set (tm_events (mst_timeline st))"
  shows "\<exists>(room, event)\<in>set (joined_events sync). \<exists>actor. er_room_id r = room \<and> te_event_id event = Some (er_event_id r) \<and>
    er_actor r = encode_actor rows actor \<and> er_subject_key r = subject_key rows actor \<and> vouched ports event actor"
proof -
  obtain fs t where fs: "each (fate_of ports) (joined_events sync) = Inr fs"
      "run_each (apply_fate rows (mq_next_batch sync)) fs
        (persist_gaps (mq_next_batch sync) (fst (batch_of 0 fs)) (missed_gaps (mst_timeline st) sync) (mst_timeline st)) = Inr t"
      "mst_timeline st' = t\<lparr>tm_cursor := Some (mq_next_batch sync)\<rparr>"
    using batch_steps [OF assms(1)] by blast
  have "r \<notin> set (tm_events (persist_gaps (mq_next_batch sync) (fst (batch_of 0 fs)) (missed_gaps (mst_timeline st) sync) (mst_timeline st)))"
    using assms(3) by (simp add: persist_gaps_keeps)
  then obtain m where m: "Projected m \<in> set fs" "logged_from rows m r"
    using fates_log [OF fs(2), of r] assms(2) fs(3) by auto
  obtain ev where ev: "ev \<in> set (joined_events sync)" "fate_of ports ev = Inr (Projected m)"
    using each_source [OF fs(1) m(1)] by blast
  obtain room event where e: "ev = (room, event)" by (cases ev)
  show ?thesis
    using ev(1) e projected_vouched [of ports room event m] ev(2) m(2)
    by (intro bexI [of _ ev]) (auto simp: logged_from_def)
qed

text \<open>A message that shows a key of its content, or calls everyone.\<close>

definition shows_key :: "message_mutation \<Rightarrow> bool" where
  "shows_key m \<longleftrightarrow>
     (case m of
        PreviewMutation p \<Rightarrow> mc_client_encryption (pp_content p) \<noteq> None
      | RevisionMutation r \<Rightarrow> opt_any (px_content r) (\<lambda>c. mc_client_encryption c \<noteq> None))"

definition calls_everyone :: "message_mutation \<Rightarrow> bool" where
  "calls_everyone m \<longleftrightarrow>
     (let everyone = \<lambda>p. opt_any (mp_conversation p) cm_mentions_everyone
      in case m of PreviewMutation p \<Rightarrow> everyone (pp_preview p) | RevisionMutation r \<Rightarrow> opt_any (px_preview r) everyone)"

lemma preview_calls:
  assumes "parse_preview p encrypted = Inr q" and "\<not> encrypted"
  shows "\<not> opt_any (mp_conversation q) cm_mentions_everyone"
proof -
  have c: "\<not> opt_any (mp_conversation q) cm_mentions_everyone" if "parse_conversation p encrypted r c = Inr q" for r c
    using that assms(2)
    by (auto simp: parse_conversation_def with_conversation_def with_mentions_everyone_def opt_any_def result_simps
        split: if_splits)
  show ?thesis using assms(1) c
    by (auto simp: parse_preview_def Let_def message_preview_new_def opt_any_def result_simps split: option.splits)
qed

lemma content_keys_encrypted:
  assumes "parse_content ports c q k encrypted = Inr r" and "\<not> encrypted"
  shows "mc_client_encryption r = None"
  using assms
  by (auto simp: parse_content_def or_invalid_def mapped_result message_content_reference_new_def result_simps
      split: if_splits option.splits)

lemma preview_event_plain:
  assumes "parse_preview_event ports room event = Inr m" and "\<not> me_encrypted event"
  shows "\<not> shows_key m \<and> \<not> calls_everyone m"
proof -
  have "\<exists>p::projected_preview. m = PreviewMutation p \<and> (\<exists>w::incoming_preview. parse_preview (ip_preview w) (me_encrypted event) = Inr (pp_preview p) \<and>
      parse_content ports (ip_content w) (pp_preview p) (io_id (ip_envelope w)) (me_encrypted event) = Inr (pp_content p))"
    using assms(1) by (auto simp: parse_preview_event_def result_simps)
  then obtain w :: incoming_preview and p where p: "m = PreviewMutation p" "parse_preview (ip_preview w) (me_encrypted event) = Inr (pp_preview p)"
      "parse_content ports (ip_content w) (pp_preview p) (io_id (ip_envelope w)) (me_encrypted event) = Inr (pp_content p)"
    by blast
  then show ?thesis
    using preview_calls [OF p(2) assms(2)] content_keys_encrypted [OF p(3) assms(2)]
    by (simp add: shows_key_def calls_everyone_def)
qed

lemma revision_payload_plain:
  assumes "revision_payload ports w encrypted = Inr (q, c)" and "\<not> encrypted"
  shows "\<not> opt_any q (\<lambda>p. opt_any (mp_conversation p) cm_mentions_everyone) \<and>
    \<not> opt_any c (\<lambda>c. mc_client_encryption c \<noteq> None)"
proof (cases "iv_kind w = Replace")
  case True
  then obtain p q' x c' where "parse_preview p encrypted = Inr q'" "q = Some q'"
      "parse_content ports x q' (io_id (iv_envelope w)) encrypted = Inr c'" "c = Some c'"
    using assms(1) by (auto simp: revision_payload_def result_simps)
  then show ?thesis using preview_calls [OF _ assms(2)] content_keys_encrypted [OF _ assms(2)] by simp
next
  case False
  then show ?thesis using assms(1) by (cases "iv_kind w") (auto simp: revision_payload_def opt_any_def split: if_splits)
qed

lemma revision_event_plain:
  assumes "parse_revision_event ports room event = Inr m" and "\<not> me_encrypted event"
  shows "\<not> shows_key m \<and> \<not> calls_everyone m"
proof -
  have "\<exists>r::projected_revision. m = RevisionMutation r \<and> (\<exists>w::incoming_revision. revision_payload ports w (me_encrypted event) = Inr (px_preview r, px_content r))"
    using assms(1) by (auto simp: parse_revision_event_def result_simps)
  then obtain w :: incoming_revision and r where r: "m = RevisionMutation r" "revision_payload ports w (me_encrypted event) = Inr (px_preview r, px_content r)"
    by blast
  then show ?thesis using revision_payload_plain [OF r(2) assms(2)]
    by (simp add: shows_key_def calls_everyone_def)
qed

text \<open>
  C20: The key of a content and the call to everyone count only in an end-to-end encrypted event whose sending
  device is trusted: whoever writes them into a public event is not heard.
\<close>

theorem keys_only_over_encryption:
  assumes "parse_pending_message ports room event = Inr (m, a)" and "shows_key m \<or> calls_everyone m"
  shows "me_encrypted event \<and> me_sender_trusted event"
proof -
  have "parse_preview_event ports room event = Inr m \<or> parse_revision_event ports room event = Inr m"
    using assms(1) by (auto simp: parse_pending_message_def result_simps split: if_splits)
  then have "me_encrypted event"
    using preview_event_plain revision_event_plain assms(2) by blast
  then show ?thesis using parsed_message [OF assms(1)] by blast
qed

section \<open>Failures\<close>

text \<open>
  C30: A synchronisation that fails, at whatever point, leaves the time line and its position as they were: the
  same synchronisation can be handled again. The submissions it has recognised stay recognised.
\<close>

theorem failed_sync_keeps_timeline:
  assumes "process_messages faults ports rows sync st = (Inl e, st')"
  shows "mst_timeline st' = mst_timeline st"
proof -
  obtain q t where r: "reconcile_submissions faults ports sync (mst_submissions st) = (q, t)"
    by (cases "reconcile_submissions faults ports sync (mst_submissions st)")
  show ?thesis
  proof (cases q)
    case (Inl f)
    then show ?thesis using assms r by (auto simp: process_messages_def)
  next
    case n: (Inr n)
    show ?thesis
    proof (cases "collect_sync faults ports sync (mst_timeline st)")
      case (Inl f)
      then show ?thesis using assms r n by (auto simp: process_messages_def)
    next
      case (Inr b)
      obtain y line where a: "apply_batch (sf_apply faults) rows (sync_batch sync b) (mst_timeline st) = (y, line)"
        by (cases "apply_batch (sf_apply faults) rows (sync_batch sync b) (mst_timeline st)")
      then show ?thesis using assms r n Inr
        by (cases y) (auto simp: process_messages_def apply_batch_def store_write_def split: option.splits sum.splits)
    qed
  qed
qed

section \<open>An example\<close>

text \<open>A message of an agent in a joined room, signed and known to the registry.\<close>

definition arrival_ports :: sync_ports where
  "arrival_ports = sample_sync_ports\<lparr>sp_parse_uuid := (\<lambda>t. case t of [n] \<Rightarrow> Some (of_nat n) | _ \<Rightarrow> None)\<rparr>"

definition arrival_actor_json :: json where
  "arrival_actor_json = JObject
     [(lit ''agent'', JObject [(lit ''agentId'', JString [7]), (lit ''displayName'', JString (lit ''Ann'')),
        (lit ''matrixUserId'', JString (lit ''@ann:x.y''))]),
      (lit ''instanceId'', JString [7]), (lit ''provenance'', JString (lit ''autonomous_agent''))]"

definition arrival_json :: json where
  "arrival_json = JObject
     [(lit ''schemaVersion'', JString (lit ''1.0'')), (lit ''eventType'', JString PREVIEW_EVENT_TYPE),
      (lit ''id'', JString [7]), (lit ''createdAt'', JString [2]), (lit ''actor'', arrival_actor_json),
      (lit ''correlationId'', JString [7]), (lit ''roomId'', JString example_room),
      (lit ''preview'', JObject
         [(lit ''title'', JString (lit ''hello'')), (lit ''summary'', JString (lit ''hello'')),
          (lit ''contentType'', JString (lit ''text/plain'')), (lit ''sensitivity'', JString (lit ''normal'')),
          (lit ''riskFlags'', JArray [])]),
      (lit ''content'', JObject
         [(lit ''contentId'', JString [21]), (lit ''digestSha256'', JString (replicate 64 48)),
          (lit ''sizeBytes'', JInteger 1), (lit ''mediaType'', JString (lit ''text/plain'')),
          (lit ''fetchMode'', JString (lit ''on_demand''))]),
      (lit ''signature'', JString [])]"

definition arrival_event :: message_event where
  "arrival_event = \<lparr>te_event_id = Some (lit ''$e''), te_sender = Some (lit ''@ann:x.y''), te_event_type = PREVIEW_EVENT_TYPE,
     te_state_key = None, te_origin_server_timestamp = Some 100000, te_content = arrival_json,
     me_transaction_id = None, me_encrypted = False, me_sender_trusted = False\<rparr>"

definition arrival :: message_mutation where
  "arrival = PreviewMutation
     \<lparr>pp_event_id = lit ''$e'', pp_transaction_id = None, pp_room_id = example_room, pp_message_id = 7,
      pp_created_at = UtcMillis 160000, pp_origin_server_timestamp = Some 100000,
      pp_actor = AgentActor \<lparr>bi_agent_id = 7, bi_display_name = lit ''Ann'', bi_matrix_user_id = lit ''@ann:x.y'',
         bi_agent_instance_id = 7, bi_avatar_url = None\<rparr> AutonomousAgent VerifiedActive,
      pp_preview = example_text ''hello'',
      pp_content = \<lparr>mc_content_id = 21, mc_digest = replicate 32 0, mc_size_bytes = 1, mc_client_encryption = None\<rparr>,
      pp_relation = None\<rparr>"

definition arrival_preview :: wire_preview where
  "arrival_preview = \<lparr>wv_content_type = lit ''text/plain'', wv_conversation = None, wv_language = None,
     wv_mentions_everyone = None, wv_risk_flags = [], wv_sensitivity = Normal, wv_summary = lit ''hello'',
     wv_title = lit ''hello''\<rparr>"

definition arrival_content :: wire_content where
  "arrival_content = \<lparr>wt_content_id = [21], wt_digest_sha256 = replicate 64 48, wt_encryption = None,
     wt_fetch_mode = lit ''on_demand'', wt_media_type = lit ''text/plain'', wt_size_bytes = 1\<rparr>"

lemma lit_eq [simp]: "lit a = lit b \<longleftrightarrow> a = b"
  by (simp add: lit_def inj_def inj_map_eq_map)

lemma json_get_object [simp]:
  "json_get k (JObject []) = None"
  "json_get k (JObject ((lit k', v) # ms)) = (if k = k' then Some v else json_get k (JObject ms))"
  by (auto simp: json_get_def)

lemma arrival_read:
  "read_incoming_preview arrival_json = Some
     \<lparr>ip_envelope = \<lparr>io_schema_version = lit ''1.0'', io_event_type = PREVIEW_EVENT_TYPE, io_id = [7], io_created_at = [2],
        io_actor = arrival_actor_json, io_correlation_id = [7], io_room_id = example_room\<rparr>,
      ip_preview = arrival_preview, ip_content = arrival_content, ip_relation = None\<rparr>"
  by (simp add: read_incoming_preview_def read_envelope_def member_str_def arrival_json_def json_str_def member_option_def
      read_preview_def read_content_def is_object_def json_texts_def variant_name_def wire_sensitivity_of_def json_u64_def u64_max_def
      arrival_preview_def arrival_content_def)

lemma arrival_author:
  "parse_message_actor arrival_ports arrival_actor_json arrival_event =
     Inr (AgentActor \<lparr>bi_agent_id = 7, bi_display_name = lit ''Ann'', bi_matrix_user_id = lit ''@ann:x.y'',
         bi_agent_instance_id = 7, bi_avatar_url = None\<rparr> AutonomousAgent VerifiedActive)"
  by code_simp

lemma arrival_preview_parsed: "parse_preview arrival_preview False = Inr (example_text ''hello'')"
  by code_simp

lemma arrival_content_parsed:
  "parse_content arrival_ports arrival_content (example_text ''hello'') [7] False =
     Inr \<lparr>mc_content_id = 21, mc_digest = replicate 32 0, mc_size_bytes = 1, mc_client_encryption = None\<rparr>"
  by code_simp

lemma arrival_values:
  "message_v7 arrival_ports [7] = Inr 7" "message_time arrival_ports [2] = Inr (UtcMillis 160000)"
  "sp_parse_uuid arrival_ports [7] = Some 7"
  by code_simp+

lemma arrival_signed:
  "message_property_limits arrival_json = Inr ()"
  "canonical_and_signature arrival_ports arrival_json = Inr ([], replicate 64 0)"
  "authenticate_internal arrival_ports 7 7 (UtcMillis 100000) [] (replicate 64 0) = Inr AuthTrusted"
  "envelope_timestamp (timeline_event.truncate arrival_event) = Some (UtcMillis 100000)"
  "PREVIEW_EVENT_TYPE \<noteq> PREVIEW_EVENT_TYPE_V2" "PREVIEW_EVENT_TYPE \<noteq> REVISION_EVENT_TYPE_V2"
  "PREVIEW_EVENT_TYPE \<noteq> UNDECRYPTED_EVENT_TYPE"
  by code_simp+

lemma arrival_fields [simp]:
  "te_event_id arrival_event = Some (lit ''$e'')" "te_sender arrival_event = Some (lit ''@ann:x.y'')"
  "te_event_type arrival_event = PREVIEW_EVENT_TYPE" "te_state_key arrival_event = None"
  "te_origin_server_timestamp arrival_event = Some 100000" "te_content arrival_event = arrival_json"
  "me_transaction_id arrival_event = None" "\<not> me_encrypted arrival_event"
  by (simp_all add: arrival_event_def)

lemma arrival_fate: "fate_of arrival_ports (example_room, arrival_event) = Inr (Projected arrival)"
proof -
  have p: "parse_preview_event arrival_ports example_room arrival_event = Inr arrival"
    by (simp add: parse_preview_event_def arrival_read some_or_invalid_def ok_or_def validate_common_def arrival_author
        arrival_preview_parsed arrival_content_parsed arrival_values arrival_signed(5,6) arrival_def)
  have "parse_pending_message arrival_ports example_room arrival_event =
      Inr (arrival, Some \<lparr>pa_agent_id = 7, pa_instance_id = 7, pa_origin_server_timestamp = UtcMillis 100000,
        pa_canonical_event = [], pa_signature = replicate 64 0\<rparr>)"
    by (simp add: parse_pending_message_def p arrival_signed ok_or_def)
      (simp add: pending_authentication_of_def arrival_def mutation_actor_def actor_identity_def arrival_signed or_invalid_def)
  then show ?thesis
    by (simp add: fate_of_def is_undecryptable_def is_message_event_def arrival_signed authenticate_message_def)
qed

definition arrival_sync :: message_sync where
  "arrival_sync = \<lparr>mq_next_batch = [9], mq_rooms = [\<lparr>mr_room_id = example_room, mr_kind = SyncJoined, mr_limited = False,
     mr_previous_batch = None, mr_timeline = [arrival_event]\<rparr>]\<rparr>"

definition no_store_faults :: store_faults where
  "no_store_faults = \<lparr>sf_observe = (\<lambda>_. None), sf_read = (\<lambda>_. None), sf_apply = None\<rparr>"

definition empty_stores :: message_stores where
  "empty_stores = \<lparr>mst_timeline = timeline_store_new, mst_submissions = []\<rparr>"

definition arrival_encoded :: encoded_mutation where
  "arrival_encoded = projr (encode_mutation example_row_ports arrival)"

lemma arrival_encoded [simp]:
  "encode_mutation example_row_ports arrival = Inr arrival_encoded"
  "em_event_id arrival_encoded = lit ''$e''" "em_room_id arrival_encoded = example_room"
  "em_kind arrival_encoded = PreviewEvent" "em_message_id arrival_encoded = [7]"
  "em_revision_id arrival_encoded = None" "em_revision_kind arrival_encoded = None"
  "em_content_id arrival_encoded = Some [21]" "em_preview arrival_encoded \<noteq> None" "em_content arrival_encoded \<noteq> None"
  unfolding arrival_encoded_def by (simp_all add: arrival_def example_defs)

lemma arrival_batch:
  "collect_sync no_store_faults arrival_ports arrival_sync s = Inr \<lparr>cb_events = ([arrival], []), cb_gaps = []\<rparr>"
  by (simp add: collect_sync_def arrival_sync_def collect_room_def room_fates arrival_fate add_fate_def)

lemma arrival_reconciled: "reconcile_submissions f ports arrival_sync t = (Inr 0, t)"
  by (simp add: reconcile_submissions_def arrival_sync_def observable_def arrival_event_def)

lemma arrival_written:
  "\<exists>t. apply_batch None example_row_ports (sync_batch arrival_sync \<lparr>cb_events = ([arrival], []), cb_gaps = []\<rparr>) timeline_store_new = (Inr (), t) \<and>
     tm_events t = [event_row_of arrival_encoded 1]"
proof -
  obtain p c where pc: "em_preview arrival_encoded = Some p" "em_content arrival_encoded = Some c"
    using arrival_encoded(9,10) by blast
  show ?thesis
    by (simp add: sync_batch_def store_evaluation timeline_store_new_def pc)
qed

definition arrival_result :: "(message_sync_failure + message_sync_outcome) \<times> message_stores" where
  "arrival_result = process_messages no_store_faults arrival_ports example_row_ports arrival_sync empty_stores"

lemma arrival_processed:
  "arrival_result = (Inr \<lparr>mo_accepted_events = 1, mo_isolated_events = 0, mo_timeline_gaps = 0, mo_reconciled_submissions = 0\<rparr>,
     snd arrival_result) \<and> tm_events (mst_timeline (snd arrival_result)) = [event_row_of arrival_encoded 1]"
proof -
  obtain t where "apply_batch None example_row_ports (sync_batch arrival_sync \<lparr>cb_events = ([arrival], []), cb_gaps = []\<rparr>) timeline_store_new = (Inr (), t)"
      "tm_events t = [event_row_of arrival_encoded 1]"
    using arrival_written by blast
  then show ?thesis
    by (simp add: arrival_result_def process_messages_def arrival_reconciled arrival_batch empty_stores_def)
      (simp add: no_store_faults_def)
qed

lemma events_handled_in_order_witness:
  "\<exists>fs. each (fate_of arrival_ports) (joined_events arrival_sync) = Inr fs \<and> fs = [Projected arrival] \<and>
     tm_cursor (mst_timeline (snd arrival_result)) = Some [9]"
proof -
  have r: "process_messages no_store_faults arrival_ports example_row_ports arrival_sync empty_stores =
      (Inr \<lparr>mo_accepted_events = 1, mo_isolated_events = 0, mo_timeline_gaps = 0, mo_reconciled_submissions = 0\<rparr>, snd arrival_result)"
    using arrival_processed unfolding arrival_result_def by blast
  have "joined_events arrival_sync = [(example_room, arrival_event)]"
    by (simp add: joined_events_def joined_rooms_def arrival_sync_def)
  with events_handled_in_order [OF r] show ?thesis by (auto simp: arrival_fate) (simp_all add: arrival_sync_def)
qed

lemma logged_events_are_vouched_witness:
  "\<exists>actor. er_actor (event_row_of arrival_encoded 1) = encode_actor example_row_ports actor \<and>
     vouched arrival_ports arrival_event actor"
proof -
  have r: "process_messages no_store_faults arrival_ports example_row_ports arrival_sync empty_stores =
      (Inr \<lparr>mo_accepted_events = 1, mo_isolated_events = 0, mo_timeline_gaps = 0, mo_reconciled_submissions = 0\<rparr>, snd arrival_result)"
    using arrival_processed unfolding arrival_result_def by blast
  have n: "event_row_of arrival_encoded 1 \<in> set (tm_events (mst_timeline (snd arrival_result)))"
      "event_row_of arrival_encoded 1 \<notin> set (tm_events (mst_timeline empty_stores))"
    using arrival_processed by (simp_all add: empty_stores_def timeline_store_new_def)
  have "joined_events arrival_sync = [(example_room, arrival_event)]"
    by (simp add: joined_events_def joined_rooms_def arrival_sync_def)
  with logged_events_are_vouched [OF r n] show ?thesis by auto
qed

text \<open>The same event over an encrypted room, with its device trusted and the key of its content.\<close>

definition sealed_json :: json where
  "sealed_json = JObject
     [(lit ''schemaVersion'', JString (lit ''1.0'')), (lit ''eventType'', JString PREVIEW_EVENT_TYPE),
      (lit ''id'', JString [7]), (lit ''createdAt'', JString [2]), (lit ''actor'', arrival_actor_json),
      (lit ''correlationId'', JString [7]), (lit ''roomId'', JString example_room),
      (lit ''preview'', JObject
         [(lit ''title'', JString (lit ''hello'')), (lit ''summary'', JString (lit ''hello'')),
          (lit ''contentType'', JString (lit ''text/plain'')), (lit ''sensitivity'', JString (lit ''normal'')),
          (lit ''riskFlags'', JArray []), (lit ''mentionsEveryone'', JBool True),
          (lit ''conversation'', JObject [(lit ''mentions'', JArray []), (lit ''text'', JString (lit ''hello''))])]),
      (lit ''content'', JObject
         [(lit ''contentId'', JString [21]), (lit ''digestSha256'', JString (replicate 64 48)),
          (lit ''sizeBytes'', JInteger 1), (lit ''mediaType'', JString (lit ''text/plain'')),
          (lit ''fetchMode'', JString (lit ''on_demand''))]),
      (lit ''signature'', JString [])]"

definition sealed_event :: message_event where
  "sealed_event = arrival_event\<lparr>te_content := sealed_json, me_encrypted := True, me_sender_trusted := True\<rparr>"

lemma sealed_read:
  "read_incoming_preview sealed_json = Some
     \<lparr>ip_envelope = \<lparr>io_schema_version = lit ''1.0'', io_event_type = PREVIEW_EVENT_TYPE, io_id = [7], io_created_at = [2],
        io_actor = arrival_actor_json, io_correlation_id = [7], io_room_id = example_room\<rparr>,
      ip_preview = arrival_preview\<lparr>wv_mentions_everyone := Some True, wv_conversation :=
        Some \<lparr>wc_attachment_name = None, wc_mentions = [], wc_text = lit ''hello''\<rparr>\<rparr>,
      ip_content = arrival_content, ip_relation = None\<rparr>"
  by (simp add: read_incoming_preview_def read_envelope_def member_str_def sealed_json_def json_str_def member_option_def
      read_preview_def read_content_def is_object_def json_texts_def variant_name_def wire_sensitivity_of_def json_u64_def
      u64_max_def json_bool_def read_conversation_def struct_shape_def struct_member_def arrival_preview_def
      arrival_content_def)

definition sealed_text :: message_preview where
  "sealed_text = with_conversation \<lparr>cm_text = lit ''hello'', cm_mentions = [], cm_attachment_name = None,
     cm_mentions_everyone = True\<rparr> (example_text ''hello'')"

lemma sealed_author:
  "parse_message_actor arrival_ports arrival_actor_json sealed_event =
     Inr (AgentActor \<lparr>bi_agent_id = 7, bi_display_name = lit ''Ann'', bi_matrix_user_id = lit ''@ann:x.y'',
         bi_agent_instance_id = 7, bi_avatar_url = None\<rparr> AutonomousAgent VerifiedActive)"
proof -
  have "parse_message_actor arrival_ports arrival_actor_json sealed_event =
      parse_message_actor arrival_ports arrival_actor_json arrival_event"
    by (simp add: parse_message_actor_def parse_actor_def parse_human_def sealed_event_def)
  then show ?thesis by (simp add: arrival_author)
qed

lemma sealed_chat: "conversation_new (lit ''hello'') [] = Inr
    \<lparr>cm_text = lit ''hello'', cm_mentions = [], cm_attachment_name = None, cm_mentions_everyone = False\<rparr>"
  by code_simp

lemma and_then_assoc: "and_then (and_then m k) h = and_then m (\<lambda>x. and_then (k x) h)"
  by (cases m) simp_all

lemma sealed_preview_parsed:
  "parse_preview (arrival_preview\<lparr>wv_mentions_everyone := Some True, wv_conversation :=
        Some \<lparr>wc_attachment_name = None, wc_mentions = [], wc_text = lit ''hello''\<rparr>\<rparr>) True = Inr sealed_text"
proof -
  have "parse_preview (arrival_preview\<lparr>wv_mentions_everyone := e, wv_conversation := Some c\<rparr>) True =
      and_then (parse_preview arrival_preview False) (\<lambda>r. parse_conversation (arrival_preview\<lparr>wv_mentions_everyone := e, wv_conversation := Some c\<rparr>) True r c)" for e c
    unfolding parse_preview_def
    by (simp add: arrival_preview_def Let_def and_then_assoc)
  then show ?thesis
    by (simp add: arrival_preview_parsed parse_conversation_def sealed_chat sealed_text_def example_text_def
        message_preview_new_def or_invalid_def with_attachment_name_def with_mentions_everyone_def)
qed

lemma sealed_content_parsed:
  "parse_content arrival_ports arrival_content sealed_text [7] True =
     Inr \<lparr>mc_content_id = 21, mc_digest = replicate 32 0, mc_size_bytes = 1, mc_client_encryption = None\<rparr>"
proof -
  have "parse_content arrival_ports arrival_content sealed_text [7] True =
      parse_content arrival_ports arrival_content (example_text ''hello'') [7] False"
    by (simp add: parse_content_def arrival_content_def sealed_text_def with_conversation_def)
  then show ?thesis by (simp add: arrival_content_parsed)
qed

lemma sealed_signed:
  "message_property_limits sealed_json = Inr ()"
  "canonical_and_signature arrival_ports sealed_json = Inr ([], replicate 64 0)"
  "envelope_timestamp (timeline_event.truncate sealed_event) = Some (UtcMillis 100000)"
proof -
  show "message_property_limits sealed_json = Inr ()"
    by (simp add: message_property_limits_def sealed_json_def bounded_object_def bounded_member_def some_or_invalid_def
        ok_or_def arrival_actor_json_def)
  have "device_signature_new (replicate 64 0) = Some (replicate 64 0)" by code_simp
  then show "canonical_and_signature arrival_ports sealed_json = Inr ([], replicate 64 0)"
    by (simp add: canonical_and_signature_def sealed_json_def json_without_def json_str_def arrival_ports_def
        sample_sync_ports_def ok_or_def)
  have "timeline_event.truncate sealed_event = (timeline_event.truncate arrival_event)\<lparr>te_content := sealed_json\<rparr>"
    by (simp add: sealed_event_def arrival_event_def timeline_event.defs)
  then show "envelope_timestamp (timeline_event.truncate sealed_event) = Some (UtcMillis 100000)"
    using arrival_signed(4) by (simp add: envelope_timestamp_def)
qed

lemmas sealed_parts = sealed_author sealed_preview_parsed sealed_content_parsed sealed_signed

lemma keys_only_over_encryption_witness:
  "\<exists>m a. parse_pending_message arrival_ports example_room sealed_event = Inr (m, a) \<and> calls_everyone m \<and>
     me_encrypted sealed_event \<and> me_sender_trusted sealed_event"
proof -
  define m where "m = PreviewMutation
     \<lparr>pp_event_id = lit ''$e'', pp_transaction_id = None, pp_room_id = example_room, pp_message_id = 7,
      pp_created_at = UtcMillis 160000, pp_origin_server_timestamp = Some 100000,
      pp_actor = AgentActor \<lparr>bi_agent_id = 7, bi_display_name = lit ''Ann'', bi_matrix_user_id = lit ''@ann:x.y'',
         bi_agent_instance_id = 7, bi_avatar_url = None\<rparr> AutonomousAgent VerifiedActive,
      pp_preview = sealed_text,
      pp_content = \<lparr>mc_content_id = 21, mc_digest = replicate 32 0, mc_size_bytes = 1, mc_client_encryption = None\<rparr>,
      pp_relation = None\<rparr>"
  have f: "te_content sealed_event = sealed_json" "me_encrypted sealed_event" "me_sender_trusted sealed_event"
      "te_event_id sealed_event = Some (lit ''$e'')" "te_sender sealed_event = Some (lit ''@ann:x.y'')"
      "te_event_type sealed_event = PREVIEW_EVENT_TYPE" "te_state_key sealed_event = None"
      "te_origin_server_timestamp sealed_event = Some 100000" "me_transaction_id sealed_event = None"
    by (simp_all add: sealed_event_def arrival_event_def)
  have p: "parse_preview_event arrival_ports example_room sealed_event = Inr m"
    by (simp add: parse_preview_event_def f sealed_read some_or_invalid_def ok_or_def validate_common_def sealed_parts
        arrival_values arrival_signed(5,6) m_def)
  have "parse_pending_message arrival_ports example_room sealed_event =
      Inr (m, Some \<lparr>pa_agent_id = 7, pa_instance_id = 7, pa_origin_server_timestamp = UtcMillis 100000,
        pa_canonical_event = [], pa_signature = replicate 64 0\<rparr>)"
    by (simp add: parse_pending_message_def p f sealed_parts ok_or_def)
      (simp add: pending_authentication_of_def m_def mutation_actor_def actor_identity_def f sealed_parts or_invalid_def)
  moreover have "calls_everyone m"
    by (simp add: calls_everyone_def m_def sealed_text_def with_conversation_def opt_any_def)
  ultimately show ?thesis using keys_only_over_encryption by blast
qed

lemma failed_sync_keeps_timeline_witness:
  "\<exists>e st'. process_messages (no_store_faults\<lparr>sf_apply := Some ProjectionUnavailable\<rparr>) arrival_ports example_row_ports arrival_sync
      (snd arrival_result) = (Inl e, st') \<and> mst_timeline st' = mst_timeline (snd arrival_result) \<and> tm_events (mst_timeline st') \<noteq> []"
proof -
  let ?r = "process_messages (no_store_faults\<lparr>sf_apply := Some ProjectionUnavailable\<rparr>) arrival_ports example_row_ports arrival_sync (snd arrival_result)"
  have "collect_sync (no_store_faults\<lparr>sf_apply := Some ProjectionUnavailable\<rparr>) arrival_ports arrival_sync s =
      Inr \<lparr>cb_events = ([arrival], []), cb_gaps = []\<rparr>" for s
    by (simp add: collect_sync_def arrival_sync_def collect_room_def room_fates arrival_fate add_fate_def)
  then have "?r = (Inl (SyncProjectionStore ProjectionUnavailable), snd ?r)"
    by (simp add: process_messages_def arrival_reconciled apply_batch_def store_write_def)
  then show ?thesis using failed_sync_keeps_timeline arrival_processed by (metis list.distinct(1))
qed

end
