(* ===== verification/Message_Requests.thy ===== *)
theory Message_Requests
  imports Message_Wire Message_Submissions Status_Publication
begin

text \<open>
  What this computer wants to send, and the signed events it makes of it
  (\<^verbatim>\<open>bridge-core/src/messages/model.rs\<close> and \<^verbatim>\<open>wire.rs\<close>). A request is built by a
  constructor that checks it; its fingerprint is the digest of its canonical JSON; the event is signed by the
  key of the device. \<open>message_ports\<close> adds SHA-256 and the time in a UUID to the parameters of the status
  publication.
\<close>

record message_ports = publish_ports +
  mg_sha256 :: "8 word list \<Rightarrow> 8 word list"
  mg_uuid_time :: "uuid \<Rightarrow> (int \<times> int) option"

section \<open>Requests\<close>

datatype message_request_error =
    InvalidSubmissionId | InvalidBodyLength | MediaTypeMismatch | MissingClientEncryption | InvalidAutomationGrant

record message_body =
  mb_bytes :: "8 word list"
  mb_digest :: "8 word list"
  mb_byte_length :: content_byte_length
  mb_media_type :: utext
  mb_encryption_mode :: encryption_mode
  mb_client_encryption :: "client_content_encryption option"
  mb_expires_at :: "utc_millis option"

definition message_body_from_parts ::
  "message_ports \<Rightarrow> 8 word list \<Rightarrow> utext \<Rightarrow> encryption_mode \<Rightarrow> client_content_encryption option \<Rightarrow> utc_millis option \<Rightarrow>
     message_request_error + message_body" where
  "message_body_from_parts ports bytes media_type mode encryption expires_at =
     (if int (length bytes) > u64_max then Inl InvalidBodyLength
      else
        (case content_byte_length_new (int (length bytes)) of
           Inl _ \<Rightarrow> Inl InvalidBodyLength
         | Inr n \<Rightarrow>
             Inr \<lparr>mb_bytes = bytes, mb_digest = mg_sha256 ports bytes, mb_byte_length = n, mb_media_type = media_type,
                  mb_encryption_mode = mode, mb_client_encryption = encryption, mb_expires_at = expires_at\<rparr>))"

definition message_body_new ::
  "message_ports \<Rightarrow> 8 word list \<Rightarrow> utext \<Rightarrow> encryption_mode \<Rightarrow> utc_millis option \<Rightarrow> message_request_error + message_body" where
  "message_body_new ports bytes media_type mode expires_at =
     (if mode = ClientE2ee then Inl MissingClientEncryption
      else message_body_from_parts ports bytes media_type mode None expires_at)"

definition message_body_client_encrypted ::
  "message_ports \<Rightarrow> 8 word list \<Rightarrow> utext \<Rightarrow> client_content_encryption \<Rightarrow> utc_millis option \<Rightarrow>
     message_request_error + message_body" where
  "message_body_client_encrypted ports bytes media_type encryption expires_at =
     message_body_from_parts ports bytes media_type ClientE2ee (Some encryption) expires_at"

definition validate_submission :: "message_ports \<Rightarrow> uuid \<Rightarrow> message_request_error + unit" where
  "validate_submission ports k = (if pb_uuid_version ports k = 7 then Inr () else Inl InvalidSubmissionId)"

record send_request =
  sd_submission_id :: uuid
  sd_room_id :: utext
  sd_preview :: message_preview
  sd_body :: message_body
  sd_provenance :: message_provenance
  sd_relation :: "message_relation option"
  sd_automation_grant_id :: "uuid option"
  sd_reception_run_id :: "uuid option"

definition send_request_new ::
  "message_ports \<Rightarrow> uuid \<Rightarrow> utext \<Rightarrow> message_preview \<Rightarrow> message_body \<Rightarrow> message_provenance \<Rightarrow> message_relation option \<Rightarrow>
     uuid option \<Rightarrow> message_request_error + send_request" where
  "send_request_new ports k room preview body provenance relation grant =
     and_then (validate_submission ports k) (\<lambda>_.
     if mp_content_type preview \<noteq> mb_media_type body then Inl MediaTypeMismatch
     else if (provenance = AutonomousAgent) \<noteq> (grant \<noteq> None) then Inl InvalidAutomationGrant
     else Inr \<lparr>sd_submission_id = k, sd_room_id = room, sd_preview = preview, sd_body = body, sd_provenance = provenance,
               sd_relation = relation, sd_automation_grant_id = grant, sd_reception_run_id = None\<rparr>)"

definition with_reception_run :: "uuid option \<Rightarrow> send_request \<Rightarrow> send_request" where
  "with_reception_run run r = r\<lparr>sd_reception_run_id := run\<rparr>"

record edit_request =
  ed_submission_id :: uuid
  ed_room_id :: utext
  ed_target_message_id :: uuid
  ed_preview :: message_preview
  ed_body :: message_body
  ed_provenance :: message_provenance

definition edit_request_new ::
  "message_ports \<Rightarrow> uuid \<Rightarrow> utext \<Rightarrow> uuid \<Rightarrow> message_preview \<Rightarrow> message_body \<Rightarrow> message_provenance \<Rightarrow>
     message_request_error + edit_request" where
  "edit_request_new ports k room target preview body provenance =
     and_then (validate_submission ports k) (\<lambda>_.
     if mp_content_type preview \<noteq> mb_media_type body then Inl MediaTypeMismatch
     else Inr \<lparr>ed_submission_id = k, ed_room_id = room, ed_target_message_id = target, ed_preview = preview,
               ed_body = body, ed_provenance = provenance\<rparr>)"

record redact_request =
  rd_submission_id :: uuid
  rd_room_id :: utext
  rd_target_message_id :: uuid
  rd_target_content_id :: content_id
  rd_provenance :: message_provenance

definition redact_request_new ::
  "message_ports \<Rightarrow> uuid \<Rightarrow> utext \<Rightarrow> uuid \<Rightarrow> content_id \<Rightarrow> message_provenance \<Rightarrow> message_request_error + redact_request" where
  "redact_request_new ports k room target content provenance =
     and_then (validate_submission ports k) (\<lambda>_.
     Inr \<lparr>rd_submission_id = k, rd_room_id = room, rd_target_message_id = target, rd_target_content_id = content,
          rd_provenance = provenance\<rparr>)"

section \<open>Events\<close>

datatype message_wire_failure = WireInvalidIdentifier | WireSerialization | WireSigning

record matrix_event =
  mx_event_type :: utext
  mx_transaction_id :: utext
  mx_content :: json

record content_record =
  cd_content_id :: content_id
  cd_digest :: "8 word list"
  cd_byte_length :: content_byte_length
  cd_media_type :: utext

definition transaction_id_new :: "utext \<Rightarrow> message_wire_failure + utext" where
  "transaction_id_new v = (if valid_transaction_id v then Inr v else Inl WireInvalidIdentifier)"

definition preview_transaction_id :: "message_ports \<Rightarrow> uuid \<Rightarrow> message_wire_failure + utext" where
  "preview_transaction_id ports k = transaction_id_new (lit ''agent-room-message-'' @ pb_uuid_text ports k)"

definition revision_transaction_id :: "message_ports \<Rightarrow> uuid \<Rightarrow> message_wire_failure + utext" where
  "revision_transaction_id ports k = transaction_id_new (lit ''agent-room-revision-'' @ pb_uuid_text ports k)"

definition wire_rfc3339 :: "message_ports \<Rightarrow> utc_millis \<Rightarrow> message_wire_failure + utext" where
  "wire_rfc3339 ports t = ok_or (pb_rfc3339 ports (utc_value t)) WireSerialization"

definition submission_time :: "message_ports \<Rightarrow> uuid \<Rightarrow> message_wire_failure + utext" where
  "submission_time ports k =
     and_then (ok_or (mg_uuid_time ports k) WireInvalidIdentifier) (\<lambda>(seconds, nanoseconds).
     and_then (if in_u64 (seconds * 1000) \<and> in_u64 (seconds * 1000 + nanoseconds div 1000000)
               then ok_or (i64_try_from (seconds * 1000 + nanoseconds div 1000000)) WireInvalidIdentifier
               else Inl WireInvalidIdentifier) (\<lambda>milliseconds.
     case utc_new milliseconds of Inl _ \<Rightarrow> Inl WireInvalidIdentifier | Inr t \<Rightarrow> wire_rfc3339 ports t))"

definition wire_actor_json :: "message_ports \<Rightarrow> agent_identity \<Rightarrow> message_provenance \<Rightarrow> json" where
  "wire_actor_json ports i provenance = JObject
     [(lit ''agent'', JObject
        ([(lit ''agentId'', JString (pb_uuid_text ports (bi_agent_id i))),
          (lit ''displayName'', JString (bi_display_name i)), (lit ''matrixUserId'', JString (bi_matrix_user_id i))] @
         optional_member ''avatarUrl'' (map_option JString (bi_avatar_url i)))),
      (lit ''instanceId'', JString (pb_uuid_text ports (bi_agent_instance_id i))),
      (lit ''provenance'', JString (lit (provenance_str provenance)))]"

definition wire_conversation_json :: "conversation_message \<Rightarrow> json" where
  "wire_conversation_json c = JObject
     (optional_member ''attachmentName'' (map_option JString (cm_attachment_name c)) @
      [(lit ''text'', JString (cm_text c)), (lit ''mentions'', JArray (map JString (cm_mentions c)))])"

definition wire_preview_json :: "message_preview \<Rightarrow> json" where
  "wire_preview_json p = JObject
     (optional_member ''conversation'' (map_option wire_conversation_json (mp_conversation p)) @
      (if opt_any (mp_conversation p) cm_mentions_everyone then [(lit ''mentionsEveryone'', JBool True)] else []) @
      [(lit ''title'', JString (mp_title p)), (lit ''summary'', JString (mp_summary p)),
       (lit ''contentType'', JString (mp_content_type p))] @
      optional_member ''language'' (map_option JString (mp_language p)) @
      [(lit ''sensitivity'', JString (lit (sensitivity_str (mp_sensitivity p)))),
       (lit ''riskFlags'', JArray (map JString (sorted_list_of_set (mp_risk_flags p))))])"

definition wire_encryption_json :: "message_ports \<Rightarrow> client_content_encryption \<Rightarrow> json" where
  "wire_encryption_json ports e = JObject
     [(lit ''algorithm'', JString (lit (client_algorithm_str (ce_algorithm e)))),
      (lit ''contextId'', JString (pb_uuid_text ports (ce_context_id e))),
      (lit ''keyBase64Url'', JString (pb_encode_base64 ports (ce_key e))),
      (lit ''nonceBase64Url'', JString (pb_encode_base64 ports (ce_nonce e))),
      (lit ''plaintextSizeBytes'', JInteger (ce_plaintext_size_bytes e))]"

definition body_fingerprint_json :: "message_ports \<Rightarrow> message_body \<Rightarrow> json" where
  "body_fingerprint_json ports b = JObject
     ([(lit ''digestSha256'', JString (encode_hex (mb_digest b))),
       (lit ''sizeBytes'', JInteger (byte_length_value (mb_byte_length b))), (lit ''mediaType'', JString (mb_media_type b)),
       (lit ''encryptionMode'', JString (lit (encryption_mode_str (mb_encryption_mode b))))] @
      optional_member ''encryption'' (map_option (wire_encryption_json ports) (mb_client_encryption b)) @
      [(lit ''expiresAtUnixMs'', json_option (\<lambda>t. JInteger (utc_value t)) (mb_expires_at b))])"

definition content_ref_json :: "message_ports \<Rightarrow> content_record \<Rightarrow> message_body \<Rightarrow> json" where
  "content_ref_json ports c b = JObject
     ([(lit ''contentId'', JString (pb_uuid_text ports (cd_content_id c))),
       (lit ''digestSha256'', JString (encode_hex (cd_digest c))),
       (lit ''sizeBytes'', JInteger (byte_length_value (cd_byte_length c))), (lit ''mediaType'', JString (cd_media_type c)),
       (lit ''fetchMode'', JString (lit ''on_demand''))] @
      optional_member ''encryption'' (map_option (wire_encryption_json ports) (mb_client_encryption b)))"

definition wire_relation_json :: "message_ports \<Rightarrow> message_relation \<Rightarrow> json" where
  "wire_relation_json ports r =
     (case r of ReplyTo m \<Rightarrow> JObject
        [(lit ''kind'', JString (lit ''reply'')), (lit ''targetMessageId'', JString (pb_uuid_text ports m))])"

section \<open>Fingerprints\<close>

definition intent_fingerprint :: "message_ports \<Rightarrow> json \<Rightarrow> message_wire_failure + 8 word list" where
  "intent_fingerprint ports v =
     and_then (ok_or (pb_canonical ports v) WireSerialization) (\<lambda>canonical. Inr (mg_sha256 ports canonical))"

definition preview_intent :: "message_ports \<Rightarrow> agent_identity \<Rightarrow> send_request \<Rightarrow> json" where
  "preview_intent ports i r = JObject
     [(lit ''kind'', JString (lit ''preview'')), (lit ''roomId'', JString (sd_room_id r)),
      (lit ''actor'', wire_actor_json ports i (sd_provenance r)), (lit ''preview'', wire_preview_json (sd_preview r)),
      (lit ''body'', body_fingerprint_json ports (sd_body r)),
      (lit ''relation'', json_option (wire_relation_json ports) (sd_relation r))]"

definition preview_fingerprint :: "message_ports \<Rightarrow> agent_identity \<Rightarrow> send_request \<Rightarrow> message_wire_failure + 8 word list" where
  "preview_fingerprint ports i r = intent_fingerprint ports (preview_intent ports i r)"

definition edit_intent :: "message_ports \<Rightarrow> agent_identity \<Rightarrow> edit_request \<Rightarrow> json" where
  "edit_intent ports i r = JObject
     [(lit ''kind'', JString (lit ''replace'')), (lit ''roomId'', JString (ed_room_id r)),
      (lit ''actor'', wire_actor_json ports i (ed_provenance r)),
      (lit ''targetMessageId'', JString (pb_uuid_text ports (ed_target_message_id r))),
      (lit ''preview'', wire_preview_json (ed_preview r)), (lit ''body'', body_fingerprint_json ports (ed_body r))]"

definition edit_fingerprint :: "message_ports \<Rightarrow> agent_identity \<Rightarrow> edit_request \<Rightarrow> message_wire_failure + 8 word list" where
  "edit_fingerprint ports i r = intent_fingerprint ports (edit_intent ports i r)"

definition redact_intent :: "message_ports \<Rightarrow> agent_identity \<Rightarrow> redact_request \<Rightarrow> json" where
  "redact_intent ports i r = JObject
     [(lit ''kind'', JString (lit ''redact'')), (lit ''roomId'', JString (rd_room_id r)),
      (lit ''actor'', wire_actor_json ports i (rd_provenance r)),
      (lit ''targetMessageId'', JString (pb_uuid_text ports (rd_target_message_id r))),
      (lit ''targetContentId'', JString (pb_uuid_text ports (rd_target_content_id r)))]"

definition redact_fingerprint :: "message_ports \<Rightarrow> agent_identity \<Rightarrow> redact_request \<Rightarrow> message_wire_failure + 8 word list" where
  "redact_fingerprint ports i r = intent_fingerprint ports (redact_intent ports i r)"

section \<open>Signed events\<close>

definition matrix_event_new :: "message_ports \<Rightarrow> utext \<Rightarrow> utext \<Rightarrow> json \<Rightarrow> matrix_event option" where
  "matrix_event_new ports event_type transaction_id content =
     (case content of
        JObject _ \<Rightarrow>
          (case pb_json_length ports content of
             None \<Rightarrow> None
           | Some n \<Rightarrow> if n > MAX_EVENT_PAYLOAD_BYTES then None
                       else Some \<lparr>mx_event_type = event_type, mx_transaction_id = transaction_id, mx_content = content\<rparr>)
      | _ \<Rightarrow> None)"

definition insert_signature :: "message_ports \<Rightarrow> 8 word list \<Rightarrow> json \<Rightarrow> message_wire_failure + json" where
  "insert_signature ports signature content =
     (case content of
        JObject ms \<Rightarrow> Inr (JObject (ms @ [(lit ''signature'', JString (pb_encode_base64 ports signature))]))
      | _ \<Rightarrow> Inl WireSerialization)"

definition signed_event :: "message_ports \<Rightarrow> utext \<Rightarrow> utext \<Rightarrow> json \<Rightarrow> message_wire_failure + matrix_event" where
  "signed_event ports event_type transaction_id content =
     and_then (ok_or (pb_canonical ports content) WireSerialization) (\<lambda>canonical.
     and_then (ok_or (pb_sign ports canonical) WireSigning) (\<lambda>signature.
     and_then (insert_signature ports signature content) (\<lambda>complete.
     ok_or (matrix_event_new ports event_type transaction_id complete) WireSerialization)))"

definition event_members :: "message_ports \<Rightarrow> utext \<Rightarrow> uuid \<Rightarrow> utext \<Rightarrow> json \<Rightarrow> utext \<Rightarrow> (utext \<times> json) list" where
  "event_members ports event_type k created_at actor room =
     [(lit ''schemaVersion'', JString (lit ''1.0'')), (lit ''eventType'', JString event_type),
      (lit ''id'', JString (pb_uuid_text ports k)), (lit ''createdAt'', JString created_at), (lit ''actor'', actor),
      (lit ''correlationId'', JString (pb_uuid_text ports k)), (lit ''roomId'', JString room)]"

definition preview_members ::
  "message_ports \<Rightarrow> agent_identity \<Rightarrow> send_request \<Rightarrow> content_record \<Rightarrow> utext \<Rightarrow> (utext \<times> json) list" where
  "preview_members ports i r content created_at =
     event_members ports PREVIEW_EVENT_TYPE (sd_submission_id r) created_at (wire_actor_json ports i (sd_provenance r)) (sd_room_id r) @
     [(lit ''preview'', wire_preview_json (sd_preview r)), (lit ''content'', content_ref_json ports content (sd_body r))] @
     optional_member ''relation'' (map_option (wire_relation_json ports) (sd_relation r))"

definition preview_event ::
  "message_ports \<Rightarrow> agent_identity \<Rightarrow> send_request \<Rightarrow> utext \<Rightarrow> content_record \<Rightarrow> message_wire_failure + matrix_event" where
  "preview_event ports i r transaction_id content =
     and_then (submission_time ports (sd_submission_id r)) (\<lambda>created_at.
     signed_event ports PREVIEW_EVENT_TYPE transaction_id (JObject (preview_members ports i r content created_at)))"

definition edit_members ::
  "message_ports \<Rightarrow> agent_identity \<Rightarrow> edit_request \<Rightarrow> content_record \<Rightarrow> utext \<Rightarrow> (utext \<times> json) list" where
  "edit_members ports i r content created_at =
     event_members ports REVISION_EVENT_TYPE (ed_submission_id r) created_at (wire_actor_json ports i (ed_provenance r)) (ed_room_id r) @
     [(lit ''targetMessageId'', JString (pb_uuid_text ports (ed_target_message_id r))), (lit ''kind'', JString (lit ''replace'')),
      (lit ''preview'', wire_preview_json (ed_preview r)), (lit ''content'', content_ref_json ports content (ed_body r))]"

definition edit_event ::
  "message_ports \<Rightarrow> agent_identity \<Rightarrow> edit_request \<Rightarrow> utext \<Rightarrow> content_record \<Rightarrow> message_wire_failure + matrix_event" where
  "edit_event ports i r transaction_id content =
     and_then (submission_time ports (ed_submission_id r)) (\<lambda>created_at.
     signed_event ports REVISION_EVENT_TYPE transaction_id (JObject (edit_members ports i r content created_at)))"

definition redact_members :: "message_ports \<Rightarrow> agent_identity \<Rightarrow> redact_request \<Rightarrow> utext \<Rightarrow> (utext \<times> json) list" where
  "redact_members ports i r created_at =
     event_members ports REVISION_EVENT_TYPE (rd_submission_id r) created_at (wire_actor_json ports i (rd_provenance r)) (rd_room_id r) @
     [(lit ''targetMessageId'', JString (pb_uuid_text ports (rd_target_message_id r))), (lit ''kind'', JString (lit ''redact''))]"

definition redact_event ::
  "message_ports \<Rightarrow> agent_identity \<Rightarrow> redact_request \<Rightarrow> utext \<Rightarrow> message_wire_failure + matrix_event" where
  "redact_event ports i r transaction_id =
     and_then (submission_time ports (rd_submission_id r)) (\<lambda>created_at.
     signed_event ports REVISION_EVENT_TYPE transaction_id (JObject (redact_members ports i r created_at)))"

end
