(* ===== verification/Message_Content.thy ===== *)
theory Message_Content
  imports Message_Requests Message_Inbox
begin

text \<open>
  The content of messages: how it is protected before it is uploaded
  (\<^verbatim>\<open>bridge-core/src/messages/crypto.rs\<close> with the cipher of \<^verbatim>\<open>message-crypto-adapter\<close>) and
  how it is opened (\<^verbatim>\<open>bridge-core/src/messages/content.rs\<close>). HMAC-SHA-256, the authenticated cipher and
  the download are parameters; a \<^verbatim>\<open>usize\<close> is a \<^verbatim>\<open>u64\<close>.
\<close>

record content_ports = message_ports +
  kp_hmac :: "8 word list \<Rightarrow> 8 word list \<Rightarrow> 8 word list"
  kp_seal :: "8 word list \<Rightarrow> 8 word list \<Rightarrow> 8 word list \<Rightarrow> 8 word list \<Rightarrow> 8 word list option"
  kp_open :: "8 word list \<Rightarrow> 8 word list \<Rightarrow> 8 word list \<Rightarrow> 8 word list \<Rightarrow> 8 word list option"

section \<open>Text of bytes\<close>

text \<open>\<^verbatim>\<open>std::str::from_utf8\<close>: the shortest form of each scalar value, and nothing else.\<close>

definition continuation :: "nat \<Rightarrow> nat \<Rightarrow> 8 word \<Rightarrow> bool" where
  "continuation lo hi b \<longleftrightarrow> lo \<le> unat b \<and> unat b \<le> hi"

fun from_utf8 :: "8 word list \<Rightarrow> utext option" where
  "from_utf8 [] = Some []"
| "from_utf8 (a # bs) =
     (let n = unat a
      in if n < 128 then map_option ((#) n) (from_utf8 bs)
         else
           (case bs of
              [] \<Rightarrow> None
            | b # cs \<Rightarrow>
                if 194 \<le> n \<and> n \<le> 223 then
                  if continuation 128 191 b then map_option ((#) ((n - 192) * 64 + (unat b - 128))) (from_utf8 cs) else None
                else
                  (case cs of
                     [] \<Rightarrow> None
                   | c # ds \<Rightarrow>
                       if 224 \<le> n \<and> n \<le> 239 then
                         if continuation (if n = 224 then 160 else 128) (if n = 237 then 159 else 191) b \<and> continuation 128 191 c
                         then map_option ((#) ((n - 224) * 4096 + (unat b - 128) * 64 + (unat c - 128))) (from_utf8 ds) else None
                       else
                         (case ds of
                            [] \<Rightarrow> None
                          | d # es \<Rightarrow>
                              if 240 \<le> n \<and> n \<le> 244 \<and>
                                 continuation (if n = 240 then 144 else 128) (if n = 244 then 143 else 191) b \<and>
                                 continuation 128 191 c \<and> continuation 128 191 d
                              then map_option ((#) ((n - 240) * 262144 + (unat b - 128) * 4096 + (unat c - 128) * 64 + (unat d - 128)))
                                     (from_utf8 es)
                              else None))))"

section \<open>The cipher\<close>

datatype cryptography_failure = CryptoInvalidRequest | CryptoAuthenticationFailed | CryptoUnavailable

definition AUTHENTICATION_TAG_BYTES :: nat where "AUTHENTICATION_TAG_BYTES = 16"
definition KEY_DERIVATION_DOMAIN :: "8 word list" where
  "KEY_DERIVATION_DOMAIN = utf8_bytes (lit ''agent-room:message-content:key:v1'' @ [0])"
definition NONCE_DERIVATION_DOMAIN :: "8 word list" where
  "NONCE_DERIVATION_DOMAIN = utf8_bytes (lit ''agent-room:message-content:nonce:v1'' @ [0])"
definition CONTENT_ASSOCIATED_DATA_DOMAIN :: "8 word list" where
  "CONTENT_ASSOCIATED_DATA_DOMAIN = utf8_bytes (lit ''agent-room:message-content:aad:v1'' @ [0])"

record encrypt_request =
  ec_context_id :: uuid
  ec_room_id :: utext
  ec_media_type :: utext
  ec_plaintext :: "8 word list"

definition content_associated_data :: "uuid \<Rightarrow> utext \<Rightarrow> utext \<Rightarrow> int \<Rightarrow> 8 word list" where
  "content_associated_data context_id room media_type n_bytes =
     CONTENT_ASSOCIATED_DATA_DOMAIN @ be_bytes 16 (uint context_id) @ be_bytes 8 (int (byte_len room)) @ utf8_bytes room @
     be_bytes 8 (int (byte_len media_type)) @ utf8_bytes media_type @ be_bytes 8 n_bytes"

definition derivation_context :: "content_ports \<Rightarrow> encrypt_request \<Rightarrow> int \<Rightarrow> 8 word list" where
  "derivation_context ports r n_bytes =
     content_associated_data (ec_context_id r) (ec_room_id r) (ec_media_type r) n_bytes @ mg_sha256 ports (ec_plaintext r)"

definition derive_bytes ::
  "content_ports \<Rightarrow> nat \<Rightarrow> 8 word list \<Rightarrow> 8 word list \<Rightarrow> 8 word list \<Rightarrow> cryptography_failure + 8 word list" where
  "derive_bytes ports n root_key domain context =
     (if n > 32 then Inl CryptoInvalidRequest else Inr (take n (kp_hmac ports root_key (domain @ context))))"

definition encrypt_content ::
  "content_ports \<Rightarrow> 8 word list \<Rightarrow> encrypt_request \<Rightarrow>
     cryptography_failure + 8 word list \<times> client_content_encryption" where
  "encrypt_content ports root_key r =
     (let n_bytes = int (length (ec_plaintext r)) in
      if ec_plaintext r = [] \<or> pb_uuid_version ports (ec_context_id r) \<noteq> 7 then Inl CryptoInvalidRequest
      else
        and_then (derive_bytes ports CLIENT_CONTENT_KEY_BYTES root_key KEY_DERIVATION_DOMAIN (derivation_context ports r n_bytes)) (\<lambda>key.
        and_then (derive_bytes ports CLIENT_CONTENT_NONCE_BYTES root_key NONCE_DERIVATION_DOMAIN (derivation_context ports r n_bytes)) (\<lambda>nonce.
        and_then (ok_or (kp_seal ports key nonce
             (content_associated_data (ec_context_id r) (ec_room_id r) (ec_media_type r) n_bytes) (ec_plaintext r)) CryptoUnavailable) (\<lambda>ciphertext.
        case client_content_encryption_new Aes256GcmV1 (ec_context_id r) key nonce n_bytes of
          Inl _ \<Rightarrow> Inl CryptoInvalidRequest
        | Inr e \<Rightarrow> Inr (ciphertext, e)))))"

definition decrypt_content ::
  "content_ports \<Rightarrow> utext \<Rightarrow> utext \<Rightarrow> 8 word list \<Rightarrow> client_content_encryption \<Rightarrow> cryptography_failure + 8 word list" where
  "decrypt_content ports room media_type ciphertext e =
     (if ce_algorithm e \<noteq> Aes256GcmV1 \<or>
         int (length ciphertext) \<noteq> ce_plaintext_size_bytes e + int AUTHENTICATION_TAG_BYTES then Inl CryptoInvalidRequest
      else
        and_then (ok_or (kp_open ports (ce_key e) (ce_nonce e)
             (content_associated_data (ce_context_id e) room media_type (ce_plaintext_size_bytes e)) ciphertext)
             CryptoAuthenticationFailed) (\<lambda>plaintext.
        if int (length plaintext) \<noteq> ce_plaintext_size_bytes e then Inl CryptoAuthenticationFailed else Inr plaintext))"

section \<open>Protecting a body\<close>

datatype room_encryption = Unencrypted | EndToEnd
datatype protect_failure = ProtectInvalidBody | ProtectCryptography cryptography_failure

record protect_request =
  pt_submission_id :: uuid
  pt_room_id :: utext
  pt_room_encryption :: room_encryption
  pt_media_type :: utext
  pt_plaintext :: "8 word list"
  pt_expires_at :: "utc_millis option"

definition invalid_body :: "message_request_error + 'a \<Rightarrow> protect_failure + 'a" where
  "invalid_body r = map_sum (\<lambda>_. ProtectInvalidBody) id r"

definition protect_body :: "content_ports \<Rightarrow> 8 word list \<Rightarrow> protect_request \<Rightarrow> protect_failure + message_body" where
  "protect_body ports root_key r =
     (case pt_room_encryption r of
        Unencrypted \<Rightarrow>
          invalid_body (message_body_new (message_ports.truncate ports) (pt_plaintext r) (pt_media_type r) ServerSide (pt_expires_at r))
      | EndToEnd \<Rightarrow>
          and_then (map_sum ProtectCryptography id (encrypt_content ports root_key
             \<lparr>ec_context_id = pt_submission_id r, ec_room_id = pt_room_id r, ec_media_type = pt_media_type r,
              ec_plaintext = pt_plaintext r\<rparr>)) (\<lambda>(ciphertext, encryption).
          invalid_body (message_body_client_encrypted (message_ports.truncate ports) ciphertext (pt_media_type r) encryption
             (pt_expires_at r))))"

section \<open>Opening content\<close>

definition MAX_INLINE_CONTENT_BYTES :: int where "MAX_INLINE_CONTENT_BYTES = 48 * 1024"
definition MAX_ATTACHMENT_BYTES :: int where "MAX_ATTACHMENT_BYTES = 20 * 1024 * 1024"

record downloaded_content =
  dl_bytes :: "8 word list"
  dl_digest :: "8 word list"
  dl_byte_length :: content_byte_length
  dl_media_type :: utext

datatype content_read_failure =
    ReadInvalidRequest | ReadNotFound | ReadDenied | ReadRateLimited | ReadUnavailable | ReadInvalidResponse | ReadInternal

datatype opened_body = OpenedText utext | OpenedAttachment utext "8 word list"

record opened_content =
  oc_source :: projected_preview
  oc_body :: opened_body

datatype open_failure =
    OpenProjection query_failure | OpenNotFound | OpenUnsupportedMediaType | OpenTooLarge | OpenContent content_read_failure
  | OpenIntegrityMismatch | OpenInvalidEncoding | OpenCryptography cryptography_failure

definition is_inline_text :: "utext \<Rightarrow> bool" where
  "is_inline_text media_type \<longleftrightarrow> media_type \<in> {lit ''application/json'', lit ''text/markdown'', lit ''text/plain''}"

definition content_matches :: "content_ports \<Rightarrow> projected_preview \<Rightarrow> downloaded_content \<Rightarrow> bool" where
  "content_matches ports source opened \<longleftrightarrow>
     (let expected = pp_content source
      in dl_media_type opened = mp_content_type (pp_preview source) \<and>
         byte_length_value (dl_byte_length opened) = mc_size_bytes expected \<and>
         int (length (dl_bytes opened)) = mc_size_bytes expected \<and>
         dl_digest opened = mc_digest expected \<and> mg_sha256 ports (dl_bytes opened) = mc_digest expected)"

text \<open>\<open>cipher\<close> says whether the service was given a cipher; \<open>download\<close> is the answer of the content service.\<close>

definition open_plaintext ::
  "content_ports \<Rightarrow> bool \<Rightarrow> projected_preview \<Rightarrow> 8 word list \<Rightarrow> open_failure + 8 word list" where
  "open_plaintext ports cipher source bytes =
     (case mc_client_encryption (pp_content source) of
        None \<Rightarrow> Inr bytes
      | Some e \<Rightarrow>
          if \<not> cipher then Inl (OpenCryptography CryptoUnavailable)
          else map_sum OpenCryptography id
                 (decrypt_content ports (pp_room_id source) (mp_content_type (pp_preview source)) bytes e))"

definition open_content ::
  "content_ports \<Rightarrow> row_ports \<Rightarrow> bool \<Rightarrow> (content_id \<Rightarrow> int \<Rightarrow> content_read_failure + downloaded_content) \<Rightarrow> utext \<Rightarrow> content_id \<Rightarrow>
     timeline_store \<Rightarrow> open_failure + opened_content" where
  "open_content ports rows cipher download room content s =
     and_then (case query_content_source rows room content s of
                 Inl e \<Rightarrow> Inl (OpenProjection e) | Inr None \<Rightarrow> Inl OpenNotFound | Inr (Some p) \<Rightarrow> Inr p) (\<lambda>source.
     let expected = pp_content source;
         attachment_name = Option.bind (mp_conversation (pp_preview source)) cm_attachment_name;
         plaintext_size = (case mc_client_encryption expected of None \<Rightarrow> mc_size_bytes expected | Some e \<Rightarrow> ce_plaintext_size_bytes e)
     in if attachment_name = None \<and> \<not> is_inline_text (mp_content_type (pp_preview source)) then Inl OpenUnsupportedMediaType
        else if plaintext_size > (if attachment_name \<noteq> None then MAX_ATTACHMENT_BYTES else MAX_INLINE_CONTENT_BYTES) then Inl OpenTooLarge
        else
          and_then (map_sum OpenContent id (download content (mc_size_bytes expected))) (\<lambda>opened.
          if \<not> content_matches ports source opened then Inl OpenIntegrityMismatch
          else
            and_then (open_plaintext ports cipher source (dl_bytes opened)) (\<lambda>plaintext.
            case attachment_name of
              Some name \<Rightarrow> Inr \<lparr>oc_source = source, oc_body = OpenedAttachment name plaintext\<rparr>
            | None \<Rightarrow>
                and_then (ok_or (from_utf8 plaintext) OpenInvalidEncoding) (\<lambda>body.
                Inr \<lparr>oc_source = source, oc_body = OpenedText body\<rparr>))))"

section \<open>Keys\<close>

lemma be_bytes_Suc: "be_bytes (Suc n) v = of_int (v div 256 ^ n) # be_bytes n v"
proof -
  have "[0..<Suc n] = 0 # map Suc [0..<n]" by (simp add: map_Suc_upt upt_conv_Cons)
  then show ?thesis by (simp add: be_bytes_def)
qed

lemma length_be_bytes [simp]: "length (be_bytes n v) = n"
  by (simp add: be_bytes_def)

lemma byte_of_int_eq: "(of_int v :: 8 word) = of_int w \<longleftrightarrow> v mod 256 = w mod 256"
  by transfer (simp add: take_bit_eq_mod)

lemma be_bytes_inject: "be_bytes n v = be_bytes n w \<Longrightarrow> v mod 256 ^ n = w mod 256 ^ n"
proof (induction n)
  case (Suc n)
  then have h: "(v div 256 ^ n) mod 256 = (w div 256 ^ n) mod 256" and t: "v mod 256 ^ n = w mod 256 ^ n"
    by (simp_all add: be_bytes_Suc byte_of_int_eq)
  have "x mod 256 ^ Suc n = 256 ^ n * (x div 256 ^ n mod 256) + x mod 256 ^ n" for x :: int
    using zmod_zmult2_eq [of 256 x "256 ^ n"] by (simp add: ac_simps)
  then show ?case using h t by simp
qed simp

text \<open>The associated data determine the submission.\<close>

lemma associated_context:
  assumes "content_associated_data k room media n @ x = content_associated_data k' room' media' n' @ x'"
  shows "k = k'"
proof -
  have "be_bytes 16 (uint k) = be_bytes 16 (uint k')" using assms by (simp add: content_associated_data_def)
  then have "uint k mod 256 ^ 16 = uint k' mod 256 ^ 16" by (rule be_bytes_inject)
  moreover have "uint k < 256 ^ 16" "uint k' < 256 ^ 16"
    using uint_lt2p [of k] uint_lt2p [of k'] by simp_all
  ultimately show ?thesis by (simp add: word_uint_eq_iff)
qed

lemma encrypted_content:
  assumes "encrypt_content ports root_key r = Inr (c, e)"
  defines "a \<equiv> content_associated_data (ec_context_id r) (ec_room_id r) (ec_media_type r) (int (length (ec_plaintext r)))"
  shows "ce_key e = take 32 (kp_hmac ports root_key (KEY_DERIVATION_DOMAIN @ a @ mg_sha256 ports (ec_plaintext r)))"
    and "ce_context_id e = ec_context_id r" and "ce_plaintext_size_bytes e = int (length (ec_plaintext r))"
    and "kp_seal ports (ce_key e) (ce_nonce e) a (ec_plaintext r) = Some c" and "ec_plaintext r \<noteq> []"
  using assms(1)
  by (auto simp: encrypt_content_def Let_def derive_bytes_def derivation_context_def a_def ok_or_def
      client_content_encryption_new_def CLIENT_CONTENT_KEY_BYTES_def result_simps split: if_splits sum.splits option.splits)

text \<open>Two inputs of a function that have the same image.\<close>

definition collision :: "('a \<Rightarrow> 'b) \<Rightarrow> 'a \<Rightarrow> 'a \<Rightarrow> bool" where
  "collision h x y \<longleftrightarrow> x \<noteq> y \<and> h x = h y"

text \<open>
  A key of content is never used for two contents: encryptions on one computer that have the same key
  are of the same submission and the same plaintext, unless they exhibit a collision of the hash or of the
  keyed hash. (A repeated submission, on the other hand, is encrypted in the same way again.)
\<close>

theorem content_keys_not_reused:
  assumes "\<And>d. length (kp_hmac ports root_key d) = 32" and "\<And>d. length (mg_sha256 ports d) = 32"
    and "encrypt_content ports root_key r = Inr (c, e)" and "encrypt_content ports root_key r' = Inr (c', e')"
    and "ce_key e = ce_key e'"
  shows "(ec_context_id r = ec_context_id r' \<and> ec_plaintext r = ec_plaintext r') \<or>
    collision (mg_sha256 ports) (ec_plaintext r) (ec_plaintext r') \<or>
    (\<exists>d d'. collision (kp_hmac ports root_key) (KEY_DERIVATION_DOMAIN @ d) (KEY_DERIVATION_DOMAIN @ d') \<and>
       d = derivation_context ports r (int (length (ec_plaintext r))) \<and> d' = derivation_context ports r' (int (length (ec_plaintext r'))))"
proof (cases "derivation_context ports r (int (length (ec_plaintext r))) = derivation_context ports r' (int (length (ec_plaintext r')))")
  case False
  have "kp_hmac ports root_key (KEY_DERIVATION_DOMAIN @ derivation_context ports r (int (length (ec_plaintext r)))) =
      kp_hmac ports root_key (KEY_DERIVATION_DOMAIN @ derivation_context ports r' (int (length (ec_plaintext r'))))"
    using encrypted_content(1) [OF assms(3)] encrypted_content(1) [OF assms(4)] assms(1,5)
    by (simp add: derivation_context_def)
  then show ?thesis using False by (auto simp: collision_def)
next
  case True
  then have k: "ec_context_id r = ec_context_id r'"
    unfolding derivation_context_def by (rule associated_context)
  have "mg_sha256 ports (ec_plaintext r) = mg_sha256 ports (ec_plaintext r')"
    using True assms(2) unfolding derivation_context_def by (simp add: append_eq_append_conv)
  then show ?thesis using k by (auto simp: collision_def)
qed

section \<open>Opened content\<close>

definition body_holds :: "opened_body \<Rightarrow> 8 word list \<Rightarrow> bool" where
  "body_holds b bytes \<longleftrightarrow> (case b of OpenedText t \<Rightarrow> from_utf8 bytes = Some t | OpenedAttachment _ x \<Rightarrow> x = bytes)"

lemma opened_steps:
  assumes "open_content ports rows cipher download room k s = Inr out"
  obtains d plaintext where "download k (mc_size_bytes (pp_content (oc_source out))) = Inr d"
    and "content_matches ports (oc_source out) d" and "open_plaintext ports cipher (oc_source out) (dl_bytes d) = Inr plaintext"
    and "body_holds (oc_body out) plaintext"
proof -
  obtain p where "query_content_source rows room k s = Inr (Some p)"
    using assms by (auto simp: open_content_def result_simps split: sum.splits option.splits)
  then obtain d plaintext where d: "map_sum OpenContent id (download k (mc_size_bytes (pp_content p))) = Inr d" "content_matches ports p d"
      "open_plaintext ports cipher p (dl_bytes d) = Inr plaintext"
      "(case Option.bind (mp_conversation (pp_preview p)) cm_attachment_name of
          Some name \<Rightarrow> Inr \<lparr>oc_source = p, oc_body = OpenedAttachment name plaintext\<rparr>
        | None \<Rightarrow> and_then (ok_or (from_utf8 plaintext) OpenInvalidEncoding) (\<lambda>body. Inr \<lparr>oc_source = p, oc_body = OpenedText body\<rparr>)) = Inr out"
    using assms by (auto simp: open_content_def Let_def result_simps split: if_splits)
  have "oc_source out = p" "body_holds (oc_body out) plaintext"
    using d(4) by (auto simp: body_holds_def ok_or_def result_simps split: option.splits)
  moreover have "download k (mc_size_bytes (pp_content p)) = Inr d"
    using d(1) by (cases "download k (mc_size_bytes (pp_content p))") auto
  ultimately show ?thesis using that d(2,3) by metis
qed

lemma body_parts:
  assumes "message_body_from_parts ports bytes media mode encryption expires = Inr b"
  shows "mb_bytes b = bytes" "mb_digest b = mg_sha256 ports bytes" "mb_client_encryption b = encryption" "mb_media_type b = media"
    "byte_length_value (mb_byte_length b) = int (length bytes)"
  using assms by (auto simp: message_body_from_parts_def content_byte_length_new_def split: if_splits)

text \<open>
  What a reader opens is what the author protected. When the verified time line refers to a protected
  body, by its digest and its key, then whatever the content service answers, an opened content is the
  author's plaintext, in a private room as well as in a public one, unless the service produced
  a second content with the same digest.
\<close>

theorem opened_content_is_what_was_protected:
  assumes "\<And>key nonce a p c. kp_seal ports key nonce a p = Some c \<Longrightarrow> kp_open ports key nonce a c = Some p"
    and "protect_body ports root_key r = Inr body" and "open_content ports rows cipher download room k s = Inr out"
    and "mc_digest (pp_content (oc_source out)) = mb_digest body"
    and "mc_client_encryption (pp_content (oc_source out)) = mb_client_encryption body"
    and "pp_room_id (oc_source out) = pt_room_id r" and "mp_content_type (pp_preview (oc_source out)) = pt_media_type r"
  shows "\<exists>d. download k (mc_size_bytes (pp_content (oc_source out))) = Inr d \<and>
    (collision (mg_sha256 ports) (dl_bytes d) (mb_bytes body) \<or> body_holds (oc_body out) (pt_plaintext r))"
proof -
  obtain d plaintext where d: "download k (mc_size_bytes (pp_content (oc_source out))) = Inr d"
      "content_matches ports (oc_source out) d" "open_plaintext ports cipher (oc_source out) (dl_bytes d) = Inr plaintext"
      "body_holds (oc_body out) plaintext"
    using opened_steps [OF assms(3)] .
  have digest: "mb_digest body = mg_sha256 ports (mb_bytes body)"
    using assms(2) body_parts
    by (auto simp: protect_body_def invalid_body_def message_body_new_def message_body_client_encrypted_def mapped_Inr
        message_ports.defs result_simps split: room_encryption.splits if_splits)
  have "plaintext = pt_plaintext r" if same: "dl_bytes d = mb_bytes body"
  proof (cases "pt_room_encryption r")
    case Unencrypted
    then have "mb_bytes body = pt_plaintext r" "mb_client_encryption body = None"
      using assms(2) body_parts by (auto simp: protect_body_def invalid_body_def message_body_new_def mapped_Inr split: if_splits)
    then show ?thesis using d(3) same assms(5) by (simp add: open_plaintext_def)
  next
    case EndToEnd
    obtain c e where e: "encrypt_content ports root_key \<lparr>ec_context_id = pt_submission_id r, ec_room_id = pt_room_id r,
          ec_media_type = pt_media_type r, ec_plaintext = pt_plaintext r\<rparr> = Inr (c, e)"
        "message_body_client_encrypted (message_ports.truncate ports) c (pt_media_type r) e (pt_expires_at r) = Inr body"
      using assms(2) EndToEnd by (auto simp: protect_body_def invalid_body_def mapped_Inr result_simps)
    have b: "mb_bytes body = c" "mb_client_encryption body = Some e"
      using body_parts [OF e(2) [unfolded message_body_client_encrypted_def]] by simp_all
    have "kp_open ports (ce_key e) (ce_nonce e) (content_associated_data (ce_context_id e) (pt_room_id r) (pt_media_type r)
        (ce_plaintext_size_bytes e)) c = Some (pt_plaintext r)"
      using assms(1) [OF encrypted_content(4) [OF e(1)]] encrypted_content(2,3) [OF e(1)] by simp
    then show ?thesis using d(3) same b assms(5-7)
      by (auto simp: open_plaintext_def decrypt_content_def mapped_Inr ok_or_def split: if_splits)
  qed
  moreover have "mg_sha256 ports (dl_bytes d) = mg_sha256 ports (mb_bytes body)"
    using d(2) assms(4) digest by (simp add: content_matches_def Let_def)
  ultimately show ?thesis using d(1,4) by (auto simp: collision_def)
qed

end
