(* ===== verification/Message_Outgoing.thy ===== *)
theory Message_Outgoing
  imports Message_Content Automation
begin

text \<open>
  Sending, editing and redacting messages (\<^verbatim>\<open>bridge-core/src/messages/outgoing.rs\<close>): claim the submission,
  upload the content, publish the signed event, bind the content to it. What the services around answer during
  a call is an argument (\<open>message_answers\<close>); the requests that leave this computer are recorded in the order
  in which they are made.
\<close>

section \<open>The services around\<close>

datatype content_failure_kind =
    ContentInvalidRequest | ContentDenied | ContentConflict | ContentUnavailable | ContentUnknownCommit | ContentInternal

datatype authorization_failure = AuthorizationDenied | AuthorizationUnavailable | AuthorizationInvalidResponse | AuthorizationInternal

record upload_request =
  up_request_id :: uuid
  up_room_id :: utext
  up_digest :: "8 word list"
  up_byte_length :: content_byte_length
  up_media_type :: utext
  up_encryption_mode :: encryption_mode
  up_expires_at :: "utc_millis option"
  up_body :: "8 word list"

record bind_request =
  bd_content_id :: content_id
  bd_room_id :: utext
  bd_event_id :: utext

record authorization_request =
  az_reception_run_id :: "uuid option"
  az_grant_id :: uuid
  az_submission_id :: uuid
  az_agent_id :: agent_id
  az_agent_instance_id :: agent_instance_id
  az_room_catalog_id :: uuid
  az_matrix_room_id :: utext
  az_is_reply :: bool
  az_message_text :: "utext option"

datatype message_call =
    CallAuthorize authorization_request
  | CallUpload upload_request
  | CallPublish utext matrix_event
  | CallBind bind_request
  | CallRedactContent content_id

record message_answers =
  an_authorize :: "authorization_failure + unit"
  an_upload :: "content_failure_kind + content_record"
  an_publish :: "matrix_failure_kind + utext"
  an_bind :: "content_failure_kind + unit"
  an_redact :: "content_failure_kind + unit"
  an_claim_fault :: "message_store_failure option"
  an_unknown_fault :: "message_store_failure option"
  an_accepted_fault :: "message_store_failure option"
  an_bound_fault :: "message_store_failure option"

datatype message_publication_failure =
    MsgInvalidIntent | MsgAutomation authorization_failure | MsgSigningUnavailable | MsgSerialization
  | MsgStore message_store_failure | MsgContent content_failure_kind | MsgMatrix matrix_failure_kind

datatype message_publication_outcome =
    MsgPublished uuid utext bool
  | PendingReconciliation uuid utext
  | AcceptedBindingPending uuid utext

record message_publisher =
  mp_identity :: agent_identity
  mp_room_catalog_id :: uuid
  mp_rooms :: "utext \<rightharpoonup> uuid"

record outbox =
  ob_submissions :: submission_table
  ob_calls :: "message_call list"

type_synonym 'a sending = "outbox \<Rightarrow> (message_publication_failure + 'a) \<times> outbox"

definition call :: "message_call \<Rightarrow> outbox \<Rightarrow> outbox" where
  "call c s = s\<lparr>ob_calls := ob_calls s @ [c]\<rparr>"

definition run_then :: "'a sending \<Rightarrow> ('a \<Rightarrow> 'b sending) \<Rightarrow> 'b sending" where
  "run_then m k s = (case m s of (Inl e, t) \<Rightarrow> (Inl e, t) | (Inr x, t) \<Rightarrow> k x t)"

definition pure :: "message_publication_failure + 'a \<Rightarrow> 'a sending" where
  "pure r s = (r, s)"

definition stored_as :: "(submission_table \<Rightarrow> 'a submission_result \<times> submission_table) \<Rightarrow> 'a sending" where
  "stored_as f s = (case f (ob_submissions s) of (r, t) \<Rightarrow> (map_sum MsgStore id r, s\<lparr>ob_submissions := t\<rparr>))"

definition map_wire_failure :: "message_wire_failure + 'a \<Rightarrow> message_publication_failure + 'a" where
  "map_wire_failure r =
     map_sum (\<lambda>e. case e of
        WireInvalidIdentifier \<Rightarrow> MsgInvalidIntent | WireSerialization \<Rightarrow> MsgSerialization | WireSigning \<Rightarrow> MsgSigningUnavailable) id r"

section \<open>Rooms of the catalogue\<close>

definition remember_room :: "utext \<Rightarrow> uuid \<Rightarrow> message_publisher \<Rightarrow> message_publisher" where
  "remember_room room catalog p = p\<lparr>mp_rooms := (mp_rooms p)(room \<mapsto> catalog)\<rparr>"

definition forget_room_catalog :: "uuid \<Rightarrow> message_publisher \<Rightarrow> message_publisher" where
  "forget_room_catalog catalog p =
     p\<lparr>mp_rooms := (\<lambda>room. case mp_rooms p room of Some known \<Rightarrow> if known \<noteq> catalog then Some known else None | None \<Rightarrow> None)\<rparr>"

definition known_room_catalog_id :: "utext \<Rightarrow> message_publisher \<Rightarrow> uuid option" where
  "known_room_catalog_id room p = mp_rooms p room"

definition room_catalog_id_for :: "utext \<Rightarrow> message_publisher \<Rightarrow> uuid" where
  "room_catalog_id_for room p = unwrap_or (known_room_catalog_id room p) (mp_room_catalog_id p)"

section \<open>Steps\<close>

definition automation_text :: "message_body \<Rightarrow> message_publication_failure + utext option" where
  "automation_text b =
     (if mb_encryption_mode b = ServerSide
      then
        and_then (ok_or (from_utf8 (mb_bytes b)) MsgInvalidIntent) (\<lambda>body.
        case automation_message_text_new body of Inl _ \<Rightarrow> Inl MsgInvalidIntent | Inr v \<Rightarrow> Inr (Some v))
      else Inr None)"

definition authorize_automation :: "message_answers \<Rightarrow> message_publisher \<Rightarrow> send_request \<Rightarrow> unit sending" where
  "authorize_automation a p r =
     (if sd_provenance r \<noteq> AutonomousAgent then pure (Inr ())
      else
        run_then (pure (ok_or (sd_automation_grant_id r) MsgInvalidIntent)) (\<lambda>grant.
        run_then (pure (automation_text (sd_body r))) (\<lambda>body s.
        (map_sum MsgAutomation id (an_authorize a),
         call (CallAuthorize
           \<lparr>az_reception_run_id = sd_reception_run_id r, az_grant_id = grant, az_submission_id = sd_submission_id r,
            az_agent_id = bi_agent_id (mp_identity p), az_agent_instance_id = bi_agent_instance_id (mp_identity p),
            az_room_catalog_id = room_catalog_id_for (sd_room_id r) p, az_matrix_room_id = sd_room_id r,
            az_is_reply = (sd_relation r \<noteq> None), az_message_text = body\<rparr>) s))))"

definition claim_submission ::
  "message_answers \<Rightarrow> message_ports \<Rightarrow> uuid \<Rightarrow> submission_kind \<Rightarrow> 8 word list \<Rightarrow> utext \<Rightarrow> submission_record sending" where
  "claim_submission a ports k kind fingerprint txn =
     run_then (stored_as (claim_record (an_claim_fault a) (pb_uuid_version ports)
        \<lparr>cl_submission_id = k, cl_kind = kind, cl_fingerprint = fingerprint, cl_transaction_id = txn\<rparr>)) (\<lambda>outcome.
     pure (Inr (claim_outcome_record outcome)))"

definition completed_outcome :: "submission_record \<Rightarrow> message_publication_outcome option" where
  "completed_outcome r =
     (if su_state r \<noteq> SubmitBound then None else map_option (\<lambda>e. MsgPublished (su_submission_id r) e True) (su_event_id r))"

definition upload_content :: "message_answers \<Rightarrow> uuid \<Rightarrow> utext \<Rightarrow> message_body \<Rightarrow> content_record sending" where
  "upload_content a k room b s =
     (let t = call (CallUpload
           \<lparr>up_request_id = k, up_room_id = room, up_digest = mb_digest b, up_byte_length = mb_byte_length b,
            up_media_type = mb_media_type b, up_encryption_mode = mb_encryption_mode b, up_expires_at = mb_expires_at b,
            up_body = mb_bytes b\<rparr>) s
      in case an_upload a of
           Inl e \<Rightarrow> (Inl (MsgContent e), t)
         | Inr c \<Rightarrow>
             if cd_digest c \<noteq> mb_digest b \<or> cd_byte_length c \<noteq> mb_byte_length b \<or> cd_media_type c \<noteq> mb_media_type b
             then (Inl (MsgContent ContentInternal), t) else (Inr c, t))"

definition publish_event ::
  "message_answers \<Rightarrow> message_ports \<Rightarrow> uuid \<Rightarrow> utext \<Rightarrow> matrix_event \<Rightarrow> utext option sending" where
  "publish_event a ports k room event s =
     (let t = call (CallPublish room event) s
      in case an_publish a of
           Inr event_id \<Rightarrow>
             run_then (stored_as (mark_accepted (an_accepted_fault a) (pb_uuid_version ports) k event_id)) (\<lambda>_.
             pure (Inr (Some event_id))) t
         | Inl e \<Rightarrow>
             if e = MxUnknownCommit
             then run_then (stored_as (mark_submit_unknown (an_unknown_fault a) (pb_uuid_version ports) k)) (\<lambda>_.
                  pure (Inr None)) t
             else (Inl (MsgMatrix e), t))"

definition bind_content ::
  "message_answers \<Rightarrow> message_ports \<Rightarrow> uuid \<Rightarrow> content_id \<Rightarrow> utext \<Rightarrow> utext \<Rightarrow> bool \<Rightarrow> message_publication_outcome sending" where
  "bind_content a ports k content room event_id reused s =
     (let t = call (CallBind \<lparr>bd_content_id = content, bd_room_id = room, bd_event_id = event_id\<rparr>) s
      in case an_bind a of
           Inr _ \<Rightarrow>
             run_then (stored_as (mark_bound (an_bound_fault a) (pb_uuid_version ports) k)) (\<lambda>_.
             pure (Inr (MsgPublished k event_id reused))) t
         | Inl e \<Rightarrow>
             if e = ContentUnavailable \<or> e = ContentUnknownCommit then (Inr (AcceptedBindingPending k event_id), t)
             else (Inl (MsgContent e), t))"

definition publish_with_content ::
  "message_answers \<Rightarrow> message_ports \<Rightarrow> uuid \<Rightarrow> utext \<Rightarrow> matrix_event \<Rightarrow> content_record \<Rightarrow> message_publication_outcome sending" where
  "publish_with_content a ports k room event content =
     run_then (publish_event a ports k room event) (\<lambda>accepted.
     case accepted of
       None \<Rightarrow> pure (Inr (PendingReconciliation k (mx_transaction_id event)))
     | Some event_id \<Rightarrow> bind_content a ports k (cd_content_id content) room event_id False)"

definition bind_accepted ::
  "message_answers \<Rightarrow> message_ports \<Rightarrow> submission_record \<Rightarrow> content_record \<Rightarrow> utext \<Rightarrow> message_publication_outcome sending" where
  "bind_accepted a ports r content room =
     run_then (pure (ok_or (su_event_id r) MsgInvalidIntent)) (\<lambda>event_id.
     bind_content a ports (su_submission_id r) (cd_content_id content) room event_id True)"

definition complete_redaction ::
  "message_answers \<Rightarrow> message_ports \<Rightarrow> submission_record \<Rightarrow> message_publication_outcome sending" where
  "complete_redaction a ports r =
     run_then (pure (ok_or (su_event_id r) MsgInvalidIntent)) (\<lambda>event_id.
     run_then (stored_as (mark_bound (an_bound_fault a) (pb_uuid_version ports) (su_submission_id r))) (\<lambda>_.
     pure (Inr (MsgPublished (su_submission_id r) event_id True))))"

section \<open>Sending, editing, redacting\<close>

definition send_message ::
  "message_answers \<Rightarrow> message_ports \<Rightarrow> message_publisher \<Rightarrow> send_request \<Rightarrow> message_publication_outcome sending" where
  "send_message a ports p r =
     run_then (authorize_automation a p r) (\<lambda>_.
     run_then (pure (map_wire_failure (preview_fingerprint ports (mp_identity p) r))) (\<lambda>fingerprint.
     run_then (pure (map_wire_failure (preview_transaction_id ports (sd_submission_id r)))) (\<lambda>txn.
     run_then (claim_submission a ports (sd_submission_id r) SubmitPreview fingerprint txn) (\<lambda>record.
     case completed_outcome record of
       Some outcome \<Rightarrow> pure (Inr outcome)
     | None \<Rightarrow>
         run_then (upload_content a (sd_submission_id r) (sd_room_id r) (sd_body r)) (\<lambda>content.
         if su_state record = SubmitAccepted then bind_accepted a ports record content (sd_room_id r)
         else
           run_then (pure (map_wire_failure (preview_event ports (mp_identity p) r txn content))) (\<lambda>event.
           publish_with_content a ports (sd_submission_id r) (sd_room_id r) event content))))))"

definition edit_message ::
  "message_answers \<Rightarrow> message_ports \<Rightarrow> message_publisher \<Rightarrow> edit_request \<Rightarrow> message_publication_outcome sending" where
  "edit_message a ports p r =
     run_then (pure (map_wire_failure (edit_fingerprint ports (mp_identity p) r))) (\<lambda>fingerprint.
     run_then (pure (map_wire_failure (revision_transaction_id ports (ed_submission_id r)))) (\<lambda>txn.
     run_then (claim_submission a ports (ed_submission_id r) SubmitReplace fingerprint txn) (\<lambda>record.
     case completed_outcome record of
       Some outcome \<Rightarrow> pure (Inr outcome)
     | None \<Rightarrow>
         run_then (upload_content a (ed_submission_id r) (ed_room_id r) (ed_body r)) (\<lambda>content.
         if su_state record = SubmitAccepted then bind_accepted a ports record content (ed_room_id r)
         else
           run_then (pure (map_wire_failure (edit_event ports (mp_identity p) r txn content))) (\<lambda>event.
           publish_with_content a ports (ed_submission_id r) (ed_room_id r) event content)))))"

definition redact_message ::
  "message_answers \<Rightarrow> message_ports \<Rightarrow> message_publisher \<Rightarrow> redact_request \<Rightarrow> message_publication_outcome sending" where
  "redact_message a ports p r =
     run_then (pure (map_wire_failure (redact_fingerprint ports (mp_identity p) r))) (\<lambda>fingerprint.
     run_then (pure (map_wire_failure (revision_transaction_id ports (rd_submission_id r)))) (\<lambda>txn.
     run_then (claim_submission a ports (rd_submission_id r) SubmitRedact fingerprint txn) (\<lambda>record.
     case completed_outcome record of
       Some outcome \<Rightarrow> pure (Inr outcome)
     | None \<Rightarrow>
         run_then (\<lambda>s. (map_sum MsgContent id (an_redact a), call (CallRedactContent (rd_target_content_id r)) s)) (\<lambda>_.
         if su_state record = SubmitAccepted then complete_redaction a ports record
         else
           run_then (pure (map_wire_failure (redact_event ports (mp_identity p) r txn))) (\<lambda>event.
           run_then (publish_event a ports (rd_submission_id r) (rd_room_id r) event) (\<lambda>accepted.
           case accepted of
             None \<Rightarrow> pure (Inr (PendingReconciliation (rd_submission_id r) (su_transaction_id record)))
           | Some event_id \<Rightarrow>
               run_then (stored_as (mark_bound (an_bound_fault a) (pb_uuid_version ports) (rd_submission_id r))) (\<lambda>_.
               pure (Inr (MsgPublished (rd_submission_id r) event_id False)))))))))"

end
