(* ===== verification/Outgoing_Theorems.thy ===== *)
theory Outgoing_Theorems
  imports Message_Outgoing
begin

text \<open>
  What sending guarantees: once the event of a submission is recorded, no later call publishes in its
  transaction, the recorded event stays, and every outcome reported of the submission names it. The parts of
  a call are composed from rules: \<open>steady\<close> parts keep the store of submissions well formed, \<open>silent\<close>
  parts do not publish in a transaction, \<open>faithful\<close> parts respect a recorded event.
\<close>

section \<open>Steps of a call\<close>

text \<open>A call keeps the table well formed, moves its rows forward and only adds to the recorded requests.\<close>

definition new_calls :: "outbox \<Rightarrow> outbox \<Rightarrow> message_call list" where
  "new_calls s t = drop (length (ob_calls s)) (ob_calls t)"

definition outbox_moved :: "outbox \<Rightarrow> outbox \<Rightarrow> bool" where
  "outbox_moved s t \<longleftrightarrow> submissions_ok (ob_submissions t) \<and> submissions_moved (ob_submissions s) (ob_submissions t) \<and>
     (\<exists>cs. ob_calls t = ob_calls s @ cs)"

definition steady :: "'a sending \<Rightarrow> bool" where
  "steady m \<longleftrightarrow> (\<forall>s :: outbox. submissions_ok (ob_submissions s) \<longrightarrow> outbox_moved s (snd (m s)))"

named_theorems steady_rules "steps that keep the outbox in order"

lemma outbox_moved_trans: "outbox_moved s t \<Longrightarrow> outbox_moved t u \<Longrightarrow> outbox_moved s u"
  unfolding outbox_moved_def using submissions_moved_trans by (metis append_assoc)

lemma steadyD: "steady m \<Longrightarrow> submissions_ok (ob_submissions s) \<Longrightarrow> m s = (x, t) \<Longrightarrow> outbox_moved s t"
  unfolding steady_def by (metis snd_conv)

lemma steady_run_then [steady_rules]:
  assumes "steady m" and "\<And>x. steady (k x)"
  shows "steady (run_then m k)"
  unfolding steady_def
proof (intro allI impI)
  fix s :: outbox assume s: "submissions_ok (ob_submissions s)"
  obtain r t where m: "m s = (r, t)" by (cases "m s")
  have t: "outbox_moved s t" using steadyD [OF assms(1) s m] .
  show "outbox_moved s (snd (run_then m k s))"
  proof (cases r)
    case (Inl e)
    then show ?thesis using m t by (simp add: run_then_def)
  next
    case (Inr x)
    have "outbox_moved t (snd (k x t))" using assms(2) t unfolding steady_def outbox_moved_def by blast
    then show ?thesis using m t Inr outbox_moved_trans by (simp add: run_then_def)
  qed
qed

lemma steady_pure [steady_rules]: "steady (pure r)"
  by (simp add: steady_def pure_def outbox_moved_def)

lemma steady_stored [steady_rules]:
  assumes "\<And>s. submissions_ok s \<Longrightarrow> submissions_ok (snd (f s)) \<and> submissions_moved s (snd (f s))"
  shows "steady (stored_as f)"
  using assms by (auto simp: steady_def stored_as_def outbox_moved_def split: prod.splits) (metis snd_conv)+

lemma moved_call: "submissions_ok (ob_submissions s) \<Longrightarrow> outbox_moved s (call c s)"
  by (simp add: outbox_moved_def call_def)

lemma steady_call [steady_rules]: "steady (\<lambda>s. (r, call c s))"
  by (simp add: steady_def moved_call)

lemma steady_after_call:
  assumes "steady m" shows "steady (\<lambda>s. m (call c s))"
  unfolding steady_def
proof (intro allI impI)
  fix s :: outbox assume s: "submissions_ok (ob_submissions s)"
  then have "submissions_ok (ob_submissions (call c s))" by (simp add: call_def)
  then show "outbox_moved s (snd (m (call c s)))"
    using assms moved_call [OF s] outbox_moved_trans unfolding steady_def by blast
qed

lemmas stored_steps = claim_ok unknown_ok accepted_ok bound_ok observe_ok

lemma steady_claim [steady_rules]: "steady (claim_submission a ports k kind fingerprint txn)"
  unfolding claim_submission_def by (intro steady_rules claim_ok)

lemma steady_authorize [steady_rules]: "steady (authorize_automation a p r)"
  unfolding authorize_automation_def by (auto intro!: steady_rules)

lemma steady_upload [steady_rules]: "steady (upload_content a k room b)"
  unfolding steady_def upload_content_def Let_def by (auto simp: moved_call split: sum.splits)

lemma steady_publish [steady_rules]: "steady (publish_event a ports k room event)"
proof (cases "an_publish a")
  case (Inl e)
  have "steady (run_then (stored_as (mark_submit_unknown (an_unknown_fault a) (pb_uuid_version ports) k)) (\<lambda>_. pure (Inr None)))"
    by (intro steady_rules unknown_ok)
  from steady_after_call [OF this] show ?thesis using Inl
    by (auto simp: steady_def publish_event_def Let_def moved_call)
next
  case (Inr event_id)
  have "steady (run_then (stored_as (mark_accepted (an_accepted_fault a) (pb_uuid_version ports) k event_id)) (\<lambda>_. pure (Inr (Some event_id))))"
    by (intro steady_rules accepted_ok)
  from steady_after_call [OF this] show ?thesis using Inr by (auto simp: steady_def publish_event_def Let_def)
qed

lemma steady_bind [steady_rules]: "steady (bind_content a ports k content room event_id reused)"
proof (cases "an_bind a")
  case (Inl e)
  then show ?thesis by (auto simp: steady_def bind_content_def Let_def moved_call)
next
  case (Inr u)
  have "steady (run_then (stored_as (mark_bound (an_bound_fault a) (pb_uuid_version ports) k)) (\<lambda>_. pure (Inr (MsgPublished k event_id reused))))"
    by (intro steady_rules bound_ok)
  from steady_after_call [OF this] show ?thesis using Inr by (auto simp: steady_def bind_content_def Let_def)
qed

lemma steady_parts [steady_rules]:
  "steady (publish_with_content a ports k room event content)"
  "steady (bind_accepted a ports r content room)"
  "steady (complete_redaction a ports r)"
  unfolding publish_with_content_def bind_accepted_def complete_redaction_def
  by (auto intro!: steady_rules bound_ok split: option.splits)

lemma steady_operations [steady_rules]:
  "steady (send_message a ports p r)" "steady (edit_message a ports p r')" "steady (redact_message a ports p r'')"
  unfolding send_message_def edit_message_def redact_message_def
  by (auto intro!: steady_rules bound_ok split: option.splits)

section \<open>What is published and what is reported\<close>

fun outcome_submission :: "message_publication_outcome \<Rightarrow> uuid" where
  "outcome_submission (MsgPublished k event reused) = k"
| "outcome_submission (PendingReconciliation k txn) = k"
| "outcome_submission (AcceptedBindingPending k event) = k"

fun outcome_event :: "message_publication_outcome \<Rightarrow> utext option" where
  "outcome_event (MsgPublished k event reused) = Some event"
| "outcome_event (PendingReconciliation k txn) = None"
| "outcome_event (AcceptedBindingPending k event) = Some event"

definition publishes :: "utext \<Rightarrow> message_call \<Rightarrow> bool" where
  "publishes txn c \<longleftrightarrow> (\<exists>room e. c = CallPublish room e \<and> mx_transaction_id e = txn)"

definition publications :: "utext \<Rightarrow> outbox \<Rightarrow> message_call list" where
  "publications txn s = filter (publishes txn) (ob_calls s)"

text \<open>A part of a call that does not publish in the transaction \<open>txn\<close>.\<close>

definition silent :: "utext \<Rightarrow> 'a sending \<Rightarrow> outbox \<Rightarrow> bool" where
  "silent txn m s \<longleftrightarrow> publications txn (snd (m s)) = publications txn s"

text \<open>A part of a call that respects the event recorded in the row \<open>r\<close>.\<close>

definition faithful :: "submission_record \<Rightarrow> message_publication_outcome sending \<Rightarrow> outbox \<Rightarrow> bool" where
  "faithful r m s \<longleftrightarrow> silent (su_transaction_id r) m s \<and>
     (\<forall>out. fst (m s) = Inr out \<and> outcome_submission out = su_submission_id r \<longrightarrow> outcome_event out = su_event_id r)"

lemma publications_call: "publications txn (call c s) = publications txn s @ (if publishes txn c then [c] else [])"
  by (simp add: publications_def call_def)

lemma publications_simps [simp]:
  "publications txn (call (CallAuthorize q) s) = publications txn s"
  "publications txn (call (CallUpload u) s) = publications txn s"
  "publications txn (call (CallBind b) s) = publications txn s"
  "publications txn (call (CallRedactContent k) s) = publications txn s"
  "mx_transaction_id e \<noteq> txn \<Longrightarrow> publications txn (call (CallPublish room e) s) = publications txn s"
  "publications txn (s\<lparr>ob_submissions := t\<rparr>) = publications txn s"
  by (simp_all add: publications_call publishes_def, simp add: publications_def)

lemma silent_run_then:
  assumes "silent txn m s" and "\<And>x t. m s = (Inr x, t) \<Longrightarrow> silent txn (k x) t"
  shows "silent txn (run_then m k) s"
proof (cases "m s")
  case (Pair x t)
  then show ?thesis using assms by (cases x) (simp_all add: silent_def run_then_def)
qed

lemma faithful_run_then:
  assumes "silent (su_transaction_id r) m s" and "\<And>x t. m s = (Inr x, t) \<Longrightarrow> faithful r (k x) t"
  shows "faithful r (run_then m k) s"
proof (cases "m s")
  case (Pair x t)
  then show ?thesis using assms by (cases x) (simp_all add: faithful_def silent_def run_then_def)
qed

lemma silent_pure [simp]: "silent txn (pure x) s"
  by (simp add: silent_def pure_def)

lemma silent_stored [simp]: "silent txn (stored_as f) s"
  by (simp add: silent_def stored_as_def split: prod.split)

lemma silent_claim [simp]: "silent txn (claim_submission a ports k kind fingerprint t) s"
  unfolding claim_submission_def by (intro silent_run_then) simp_all

lemma silent_authorize [simp]: "silent txn (authorize_automation a p r) s"
proof -
  have "silent txn (\<lambda>s. (x, call (CallAuthorize q) s)) s" for x q s by (simp add: silent_def)
  then show ?thesis unfolding authorize_automation_def by (auto intro!: silent_run_then)
qed

lemma silent_upload [simp]: "silent txn (upload_content a k room b) s"
  by (simp add: silent_def upload_content_def Let_def split: sum.split)

lemma silent_redact [simp]: "silent txn (\<lambda>s. (x, call (CallRedactContent k) s)) s"
  by (simp add: silent_def)

lemma silent_after_call: "silent txn m (call c s) \<Longrightarrow> \<not> publishes txn c \<Longrightarrow> silent txn (\<lambda>s. m (call c s)) s"
  by (simp add: silent_def publications_call)

lemma silent_publish:
  assumes "mx_transaction_id event \<noteq> txn"
  shows "silent txn (publish_event a ports k room event) s"
proof -
  have c: "\<not> publishes txn (CallPublish room event)" using assms by (simp add: publishes_def)
  show ?thesis
  proof (cases "an_publish a")
    case (Inl e)
    have "silent txn (run_then (stored_as f) (\<lambda>_. pure (Inr (None :: utext option)))) (call (CallPublish room event) s)" for f
      by (intro silent_run_then) simp_all
    then show ?thesis using Inl c by (auto simp: silent_def publish_event_def Let_def publications_call)
  next
    case (Inr event_id)
    have "silent txn (run_then (stored_as f) (\<lambda>_. pure (Inr (Some event_id)))) (call (CallPublish room event) s)" for f
      by (intro silent_run_then) simp_all
    then show ?thesis using Inr c by (simp add: silent_def publish_event_def Let_def publications_call)
  qed
qed

lemma run_then_fst: "fst (run_then m k s) = Inr y \<Longrightarrow> \<exists>x t. m s = (Inr x, t) \<and> fst (k x t) = Inr y"
  by (auto simp: run_then_def split: prod.splits sum.splits)

lemma bind_content_outcome:
  "fst (bind_content a ports k content room event reused s) = Inr out \<Longrightarrow>
     outcome_submission out = k \<and> outcome_event out = Some event"
  by (auto simp: bind_content_def Let_def pure_def dest!: run_then_fst split: sum.splits if_splits)

lemma silent_bind [simp]: "silent txn (bind_content a ports k content room event reused) s"
proof (cases "an_bind a")
  case (Inr u)
  have "silent txn (run_then (stored_as (mark_bound (an_bound_fault a) (pb_uuid_version ports) k))
      (\<lambda>_. pure (Inr (MsgPublished k event reused))))
      (call (CallBind \<lparr>bd_content_id = content, bd_room_id = room, bd_event_id = event\<rparr>) s)"
    by (intro silent_run_then) simp_all
  then show ?thesis using Inr by (simp add: silent_def bind_content_def Let_def)
qed (simp add: silent_def bind_content_def Let_def)

text \<open>The endings of a call.\<close>

lemma faithful_recorded:
  assumes "su_submission_id q = su_submission_id r \<longrightarrow> su_event_id q = su_event_id r"
  shows "faithful r (bind_accepted a ports q content room) s" and "faithful r (complete_redaction a ports q) s"
    and "completed_outcome q = Some out \<Longrightarrow> faithful r (pure (Inr out)) s"
proof -
  have p: "pure (ok_or x e) s = (Inr y, t) \<longleftrightarrow> x = Some y \<and> t = s" for x :: "'b option" and e y t
    by (auto simp: pure_def ok_or_def split: option.splits)
  show "faithful r (bind_accepted a ports q content room) s"
    unfolding bind_accepted_def
  proof (rule faithful_run_then)
    fix event t assume "pure (ok_or (su_event_id q) MsgInvalidIntent) s = (Inr event, t)"
    then have "su_event_id q = Some event" by (simp add: p)
    then show "faithful r (bind_content a ports (su_submission_id q) (cd_content_id content) room event True) t"
      using assms bind_content_outcome unfolding faithful_def by (metis silent_bind)
  qed simp
  show "faithful r (complete_redaction a ports q) s"
    unfolding complete_redaction_def
  proof (rule faithful_run_then)
    fix event t assume "pure (ok_or (su_event_id q) MsgInvalidIntent) s = (Inr event, t)"
    then have "su_event_id q = Some event" by (simp add: p)
    then have "faithful r (pure (Inr (MsgPublished (su_submission_id q) event True))) u" for u
      using assms by (auto simp: faithful_def pure_def silent_def)
    then show "faithful r (run_then (stored_as (mark_bound (an_bound_fault a) (pb_uuid_version ports) (su_submission_id q)))
        (\<lambda>_. pure (Inr (MsgPublished (su_submission_id q) event True)))) t"
      by (intro faithful_run_then) simp_all
  qed simp
  show "faithful r (pure (Inr out)) s" if "completed_outcome q = Some out"
    using that assms by (auto simp: completed_outcome_def faithful_def pure_def silent_def split: if_splits)
qed

lemma faithful_publish:
  assumes "mx_transaction_id event \<noteq> su_transaction_id r" and "k \<noteq> su_submission_id r"
  shows "faithful r (publish_with_content a ports k room event content) s"
  unfolding publish_with_content_def
proof (rule faithful_run_then [OF silent_publish [OF assms(1)]])
  fix accepted t
  have "faithful r (bind_content a ports k (cd_content_id content) room e False) t" for e
    using bind_content_outcome assms(2) unfolding faithful_def by (metis silent_bind)
  moreover have "faithful r (pure (Inr (PendingReconciliation k (mx_transaction_id event)))) t"
    using assms(2) by (simp add: faithful_def pure_def silent_def)
  ultimately show "faithful r (case accepted of None \<Rightarrow> pure (Inr (PendingReconciliation k (mx_transaction_id event)))
      | Some e \<Rightarrow> bind_content a ports k (cd_content_id content) room e False) t"
    by (cases accepted) simp_all
qed

text \<open>A claim yields the row of the submission.\<close>

lemma claim_row:
  assumes "claim_submission a ports k kind fingerprint txn s = (Inr q, u)"
  shows "q \<in> set (ob_submissions u)" "su_submission_id q = k" "su_transaction_id q = txn"
proof -
  obtain o' where o': "claim_record (an_claim_fault a) (pb_uuid_version ports)
      \<lparr>cl_submission_id = k, cl_kind = kind, cl_fingerprint = fingerprint, cl_transaction_id = txn\<rparr> (ob_submissions s) =
      (Inr o', ob_submissions u)" "q = claim_outcome_record o'"
    using assms by (auto simp: claim_submission_def run_then_def stored_as_def pure_def mapped_Inr
        split: prod.splits sum.splits)
  have "q \<in> set (ob_submissions u) \<and> su_submission_id q = k \<and> su_transaction_id q = txn"
  proof (cases "list_ex (\<lambda>r. su_submission_id r = k) (ob_submissions s)")
    case True
    then obtain r where "o' = ExistingClaim r" "ob_submissions u = ob_submissions s"
        "load_by_submission (pb_uuid_version ports) k (ob_submissions s) = Inr r" "su_transaction_id r = txn"
      using o'(1) by (auto simp: claim_record_def submission_write_def Let_def ensure_same_intent_def ensure_def result_simps
          split: option.splits sum.splits if_splits)
    then show ?thesis using o'(2) loaded_record(1,2) by (auto simp: claim_outcome_record_def)
  next
    case False
    let ?row = "\<lparr>su_submission_id = k, su_kind = kind, su_fingerprint = fingerprint, su_transaction_id = txn,
      su_state = Claimed, su_event_id = None\<rparr>"
    obtain r where r: "o' = CreatedClaim r" "ob_submissions u = ob_submissions s @ [?row]"
        "load_by_submission (pb_uuid_version ports) k (ob_submissions s @ [?row]) = Inr r"
      using o'(1) False by (auto simp: claim_record_def submission_write_def Let_def result_simps
          split: option.splits sum.splits if_splits)
    have "r = ?row" using loaded_record(1,2) [OF r(3)] False by (auto simp: list_ex_iff)
    then show ?thesis using o'(2) r(1,2) by (simp add: claim_outcome_record_def)
  qed
  then show "q \<in> set (ob_submissions u)" "su_submission_id q = k" "su_transaction_id q = txn" by simp_all
qed

text \<open>The row of an accepted submission after a claim.\<close>

lemma accepted_row:
  assumes ok: "submissions_ok (ob_submissions s)" and r: "r \<in> set (ob_submissions s)" "su_event_id r \<noteq> None"
    and c: "claim_submission a ports k kind fingerprint txn s = (Inr q, u)"
  shows "k = su_submission_id r \<or> txn = su_transaction_id r \<Longrightarrow>
      su_submission_id q = su_submission_id r \<and> su_event_id q = su_event_id r \<and> expects_event (su_state q)"
    and "k \<noteq> su_submission_id r \<Longrightarrow> txn \<noteq> su_transaction_id r \<Longrightarrow> su_submission_id q \<noteq> su_submission_id r"
proof -
  have m: "outbox_moved s u" using steadyD [OF steady_claim ok c] .
  then obtain r' where r': "r' \<in> set (ob_submissions u)" "submission_moved r r'"
    using r(1) unfolding outbox_moved_def submissions_moved_def by blast
  have u: "submissions_ok (ob_submissions u)" using m by (simp add: outbox_moved_def)
  note q = claim_row [OF c]
  show "su_submission_id q = su_submission_id r \<and> su_event_id q = su_event_id r \<and> expects_event (su_state q)"
    if "k = su_submission_id r \<or> txn = su_transaction_id r"
  proof -
    have "q = r'"
      using that q r' u unfolding submissions_ok_def submission_moved_def by (metis key_inject)
    then show ?thesis using r' r(2) u unfolding submissions_ok_def submission_moved_def by metis
  qed
  show "su_submission_id q \<noteq> su_submission_id r" if "k \<noteq> su_submission_id r" using that q(2) by simp
qed

lemma matrix_event_parts:
  assumes "matrix_event_new ports event_type txn content = Some e"
  shows "e = \<lparr>mx_event_type = event_type, mx_transaction_id = txn, mx_content = content\<rparr>"
  using assms by (cases content) (auto simp: matrix_event_new_def split: option.splits if_splits)

lemma signed_event_parts:
  assumes "signed_event ports event_type txn content = Inr e"
  shows "mx_transaction_id e = txn" and "mx_event_type e = event_type"
proof -
  obtain complete where "ok_or (matrix_event_new ports event_type txn complete) WireSerialization = Inr e"
    using assms by (auto simp: signed_event_def result_simps)
  then have "matrix_event_new ports event_type txn complete = Some e" by (simp add: ok_or_def split: option.splits)
  from matrix_event_parts [OF this] show "mx_transaction_id e = txn" "mx_event_type e = event_type" by simp_all
qed

lemma event_transaction:
  "preview_event ports i q txn content = Inr e \<Longrightarrow> mx_transaction_id e = txn"
  "edit_event ports i q' txn content = Inr e \<Longrightarrow> mx_transaction_id e = txn"
  "redact_event ports i q'' txn = Inr e \<Longrightarrow> mx_transaction_id e = txn"
  by (auto simp: preview_event_def edit_event_def redact_event_def result_simps dest: signed_event_parts(1))

lemma pure_Inr: "pure (map_wire_failure x) s = (Inr y, t) \<longleftrightarrow> x = Inr y \<and> t = s"
  by (auto simp: pure_def map_wire_failure_def mapped_Inr)

lemma faithful_fail [simp]: "faithful r (pure (Inl e)) s"
  by (simp add: faithful_def silent_def pure_def)

text \<open>The part of sending and editing that follows the claim.\<close>

lemma faithful_content:
  assumes q: "k = su_submission_id r \<or> txn = su_transaction_id r \<Longrightarrow>
      su_submission_id q = su_submission_id r \<and> su_event_id q = su_event_id r \<and> expects_event (su_state q)"
    and other: "k \<noteq> su_submission_id r \<Longrightarrow> txn \<noteq> su_transaction_id r \<Longrightarrow> su_submission_id q \<noteq> su_submission_id r"
    and r: "su_event_id r \<noteq> None"
    and event: "\<And>content e. build_event content = Inr e \<Longrightarrow> mx_transaction_id e = txn"
  shows "faithful r (case completed_outcome q of
       Some outcome \<Rightarrow> pure (Inr outcome)
     | None \<Rightarrow>
         run_then (upload_content a k room b) (\<lambda>content.
         if su_state q = SubmitAccepted then bind_accepted a ports q content room
         else
           run_then (pure (map_wire_failure (build_event content))) (\<lambda>event.
           publish_with_content a ports k room event content))) s"
proof -
  have same: "su_submission_id q = su_submission_id r \<longrightarrow> su_event_id q = su_event_id r" using q other by blast
  show ?thesis
  proof (cases "completed_outcome q")
    case (Some out)
    then show ?thesis using faithful_recorded(3) [OF same] by simp
  next
    case None
    have new: "k \<noteq> su_submission_id r \<and> txn \<noteq> su_transaction_id r" if "su_state q \<noteq> SubmitAccepted"
      using that q r None by (auto simp: completed_outcome_def expects_event_def split: if_splits)
    have "faithful r (if su_state q = SubmitAccepted then bind_accepted a ports q content room
         else
           run_then (pure (map_wire_failure (build_event content))) (\<lambda>event.
           publish_with_content a ports k room event content)) u" for content u
    proof (cases "su_state q = SubmitAccepted")
      case True
      then show ?thesis using faithful_recorded(1) [OF same] by simp
    next
      case False
      have "faithful r (run_then (pure (map_wire_failure (build_event content))) (\<lambda>event.
           publish_with_content a ports k room event content)) u"
      proof (rule faithful_run_then)
        fix e t assume "pure (map_wire_failure (build_event content)) u = (Inr e, t)"
        then have "build_event content = Inr e" by (simp add: pure_Inr)
        then have "mx_transaction_id e = txn" using event by blast
        then show "faithful r (publish_with_content a ports k room e content) t"
          using faithful_publish new [OF False] by simp
      qed simp
      then show ?thesis using False by simp
    qed
    then show ?thesis using None by (auto intro!: faithful_run_then)
  qed
qed

lemma authorize_submissions:
  "authorize_automation a p q s = (x, t) \<Longrightarrow> ob_submissions t = ob_submissions s"
  by (auto simp: authorize_automation_def run_then_def pure_def call_def split: prod.splits sum.splits if_splits)

lemma faithful_send:
  assumes ok: "submissions_ok (ob_submissions s)" and r: "r \<in> set (ob_submissions s)" "su_event_id r \<noteq> None"
  shows "faithful r (send_message a ports p q) s"
  unfolding send_message_def
proof (intro faithful_run_then silent_authorize silent_pure silent_claim)
  fix x s1 fingerprint s2 txn s3 row s4
  assume "authorize_automation a p q s = (Inr x, s1)"
    and "pure (map_wire_failure (preview_fingerprint ports (mp_identity p) q)) s1 = (Inr fingerprint, s2)"
    and "pure (map_wire_failure (preview_transaction_id ports (sd_submission_id q))) s2 = (Inr txn, s3)"
    and claim: "claim_submission a ports (sd_submission_id q) SubmitPreview fingerprint txn s3 = (Inr row, s4)"
  then have "ob_submissions s3 = ob_submissions s" by (auto simp: pure_Inr dest: authorize_submissions)
  then have s3: "submissions_ok (ob_submissions s3)" "r \<in> set (ob_submissions s3)" using ok r(1) by simp_all
  show "faithful r (case completed_outcome row of
       None \<Rightarrow>
         run_then (upload_content a (sd_submission_id q) (sd_room_id q) (sd_body q)) (\<lambda>content.
         if su_state row = SubmitAccepted then bind_accepted a ports row content (sd_room_id q)
         else
           run_then (pure (map_wire_failure (preview_event ports (mp_identity p) q txn content))) (\<lambda>event.
           publish_with_content a ports (sd_submission_id q) (sd_room_id q) event content))
     | Some outcome \<Rightarrow> pure (Inr outcome)) s4"
    by (rule faithful_content) (use accepted_row [OF s3 r(2) claim] r(2) event_transaction(1) in auto)
qed

lemma faithful_edit:
  assumes ok: "submissions_ok (ob_submissions s)" and r: "r \<in> set (ob_submissions s)" "su_event_id r \<noteq> None"
  shows "faithful r (edit_message a ports p q) s"
  unfolding edit_message_def
proof (intro faithful_run_then silent_pure silent_claim)
  fix fingerprint s2 txn s3 row s4
  assume "pure (map_wire_failure (edit_fingerprint ports (mp_identity p) q)) s = (Inr fingerprint, s2)"
    and "pure (map_wire_failure (revision_transaction_id ports (ed_submission_id q))) s2 = (Inr txn, s3)"
    and claim: "claim_submission a ports (ed_submission_id q) SubmitReplace fingerprint txn s3 = (Inr row, s4)"
  then have s3: "submissions_ok (ob_submissions s3)" "r \<in> set (ob_submissions s3)" using ok r(1) by (simp_all add: pure_Inr)
  show "faithful r (case completed_outcome row of
       None \<Rightarrow>
         run_then (upload_content a (ed_submission_id q) (ed_room_id q) (ed_body q)) (\<lambda>content.
         if su_state row = SubmitAccepted then bind_accepted a ports row content (ed_room_id q)
         else
           run_then (pure (map_wire_failure (edit_event ports (mp_identity p) q txn content))) (\<lambda>event.
           publish_with_content a ports (ed_submission_id q) (ed_room_id q) event content))
     | Some outcome \<Rightarrow> pure (Inr outcome)) s4"
    by (rule faithful_content) (use accepted_row [OF s3 r(2) claim] r(2) event_transaction(2) in auto)
qed

lemma faithful_redaction_event:
  assumes "mx_transaction_id event \<noteq> su_transaction_id r" and "k \<noteq> su_submission_id r"
  shows "faithful r (run_then (publish_event a ports k room event) (\<lambda>accepted.
      case accepted of
        None \<Rightarrow> pure (Inr (PendingReconciliation k txn))
      | Some e \<Rightarrow>
          run_then (stored_as (mark_bound (an_bound_fault a) (pb_uuid_version ports) k)) (\<lambda>_.
          pure (Inr (MsgPublished k e False))))) s"
proof (rule faithful_run_then [OF silent_publish [OF assms(1)]])
  fix accepted t
  have p: "faithful r (pure (Inr out)) u" if "outcome_submission out = k" for out u
    using assms(2) that by (auto simp: faithful_def pure_def silent_def)
  show "faithful r (case accepted of None \<Rightarrow> pure (Inr (PendingReconciliation k txn))
      | Some e \<Rightarrow> run_then (stored_as (mark_bound (an_bound_fault a) (pb_uuid_version ports) k)) (\<lambda>_.
          pure (Inr (MsgPublished k e False)))) t"
    by (cases accepted) (simp_all add: p faithful_run_then)
qed

lemma faithful_redact:
  assumes ok: "submissions_ok (ob_submissions s)" and r: "r \<in> set (ob_submissions s)" "su_event_id r \<noteq> None"
  shows "faithful r (redact_message a ports p q) s"
  unfolding redact_message_def
proof (intro faithful_run_then silent_pure silent_claim)
  fix fingerprint s2 txn s3 row s4
  assume "pure (map_wire_failure (redact_fingerprint ports (mp_identity p) q)) s = (Inr fingerprint, s2)"
    and "pure (map_wire_failure (revision_transaction_id ports (rd_submission_id q))) s2 = (Inr txn, s3)"
    and claim: "claim_submission a ports (rd_submission_id q) SubmitRedact fingerprint txn s3 = (Inr row, s4)"
  then have s3: "submissions_ok (ob_submissions s3)" "r \<in> set (ob_submissions s3)" using ok r(1) by (simp_all add: pure_Inr)
  note row = accepted_row [OF s3 r(2) claim]
  have same: "su_submission_id row = su_submission_id r \<longrightarrow> su_event_id row = su_event_id r" using row by blast
  let ?rest = "\<lambda>_. if su_state row = SubmitAccepted then complete_redaction a ports row
         else
           run_then (pure (map_wire_failure (redact_event ports (mp_identity p) q txn))) (\<lambda>event.
           run_then (publish_event a ports (rd_submission_id q) (rd_room_id q) event) (\<lambda>accepted.
           case accepted of
             None \<Rightarrow> pure (Inr (PendingReconciliation (rd_submission_id q) (su_transaction_id row)))
           | Some event_id \<Rightarrow>
               run_then (stored_as (mark_bound (an_bound_fault a) (pb_uuid_version ports) (rd_submission_id q))) (\<lambda>_.
               pure (Inr (MsgPublished (rd_submission_id q) event_id False)))))"
  show "faithful r (case completed_outcome row of
       None \<Rightarrow> run_then (\<lambda>s. (map_sum MsgContent id (an_redact a), call (CallRedactContent (rd_target_content_id q)) s)) ?rest
     | Some outcome \<Rightarrow> pure (Inr outcome)) s4"
  proof (cases "completed_outcome row")
    case (Some out)
    then show ?thesis using faithful_recorded(3) [OF same] by simp
  next
    case None
    have "faithful r (?rest x) u" for x u
    proof (cases "su_state row = SubmitAccepted")
      case True
      then show ?thesis using faithful_recorded(2) [OF same] by simp
    next
      case False
      have new: "rd_submission_id q \<noteq> su_submission_id r" "txn \<noteq> su_transaction_id r"
        using row(1) r(2) None False by (auto simp: completed_outcome_def expects_event_def split: if_splits)
      have "faithful r (run_then (pure (map_wire_failure (redact_event ports (mp_identity p) q txn))) (\<lambda>event.
           run_then (publish_event a ports (rd_submission_id q) (rd_room_id q) event) (\<lambda>accepted.
           case accepted of
             None \<Rightarrow> pure (Inr (PendingReconciliation (rd_submission_id q) (su_transaction_id row)))
           | Some event_id \<Rightarrow>
               run_then (stored_as (mark_bound (an_bound_fault a) (pb_uuid_version ports) (rd_submission_id q))) (\<lambda>_.
               pure (Inr (MsgPublished (rd_submission_id q) event_id False)))))) u"
      proof (rule faithful_run_then)
        fix e t assume "pure (map_wire_failure (redact_event ports (mp_identity p) q txn)) u = (Inr e, t)"
        then have "redact_event ports (mp_identity p) q txn = Inr e" by (simp add: pure_Inr)
        then have "mx_transaction_id e = txn" by (rule event_transaction(3))
        then show "faithful r (run_then (publish_event a ports (rd_submission_id q) (rd_room_id q) e) (\<lambda>accepted.
           case accepted of
             None \<Rightarrow> pure (Inr (PendingReconciliation (rd_submission_id q) (su_transaction_id row)))
           | Some event_id \<Rightarrow>
               run_then (stored_as (mark_bound (an_bound_fault a) (pb_uuid_version ports) (rd_submission_id q))) (\<lambda>_.
               pure (Inr (MsgPublished (rd_submission_id q) event_id False))))) t"
          using faithful_redaction_event new by simp
      qed simp
      then show ?thesis using False by simp
    qed
    then show ?thesis using None by (simp add: faithful_run_then)
  qed
qed

section \<open>Histories\<close>

text \<open>What this computer does with its submissions: the three operations and the observation of a synchronisation.\<close>

datatype outgoing_command =
    SendCommand message_answers message_publisher send_request
  | EditCommand message_answers message_publisher edit_request
  | RedactCommand message_answers message_publisher redact_request
  | ObserveCommand "message_store_failure option" utext utext

definition outgoing_step ::
  "message_ports \<Rightarrow> outgoing_command \<Rightarrow> outbox \<Rightarrow> (message_publication_failure + message_publication_outcome option) \<times> outbox" where
  "outgoing_step ports c =
     (case c of
        SendCommand a p r \<Rightarrow> (\<lambda>s. map_prod (map_sum id Some) id (send_message a ports p r s))
      | EditCommand a p r \<Rightarrow> (\<lambda>s. map_prod (map_sum id Some) id (edit_message a ports p r s))
      | RedactCommand a p r \<Rightarrow> (\<lambda>s. map_prod (map_sum id Some) id (redact_message a ports p r s))
      | ObserveCommand fault txn event \<Rightarrow>
          run_then (stored_as (observe_transaction fault (pb_uuid_version ports) txn event)) (\<lambda>_. pure (Inr None)))"

definition outbox_new :: outbox where "outbox_new = \<lparr>ob_submissions = [], ob_calls = []\<rparr>"

lemma outgoing_step_moves:
  "submissions_ok (ob_submissions s) \<Longrightarrow> outbox_moved s (snd (outgoing_step ports c s))"
proof (cases c)
  case (ObserveCommand fault txn event)
  have "steady (run_then (stored_as (observe_transaction fault (pb_uuid_version ports) txn event)) (\<lambda>_. pure (Inr (None :: message_publication_outcome option))))"
    by (intro steady_rules observe_ok)
  then show "submissions_ok (ob_submissions s) \<Longrightarrow> ?thesis" using ObserveCommand by (simp add: outgoing_step_def steady_def)
qed (use steady_operations in \<open>simp_all add: outgoing_step_def steady_def\<close>)

lemma outgoing_step_faithful:
  assumes "submissions_ok (ob_submissions s)" and "r \<in> set (ob_submissions s)" and "su_event_id r \<noteq> None"
  shows "publications (su_transaction_id r) (snd (outgoing_step ports c s)) = publications (su_transaction_id r) s"
    and "fst (outgoing_step ports c s) = Inr (Some out) \<Longrightarrow> outcome_submission out = su_submission_id r \<Longrightarrow>
      outcome_event out = su_event_id r"
proof -
  note f = faithful_send [OF assms] faithful_edit [OF assms] faithful_redact [OF assms]
  have o: "silent (su_transaction_id r) (run_then (stored_as g) (\<lambda>_. pure (Inr (None :: message_publication_outcome option)))) s"
    for g :: "submission_table \<Rightarrow> submission_record option submission_result \<times> submission_table"
    by (intro silent_run_then) simp_all
  show "publications (su_transaction_id r) (snd (outgoing_step ports c s)) = publications (su_transaction_id r) s"
    using f o by (cases c) (simp_all add: outgoing_step_def faithful_def silent_def)
  show "outcome_event out = su_event_id r"
    if "fst (outgoing_step ports c s) = Inr (Some out)" "outcome_submission out = su_submission_id r"
  proof (cases c)
    case (ObserveCommand fault txn event)
    then show ?thesis using that(1) by (auto simp: outgoing_step_def pure_def dest: run_then_fst)
  qed (use that f in \<open>auto simp: outgoing_step_def faithful_def\<close>)
qed

lemma outgoing_run:
  assumes "submissions_ok (ob_submissions s)" and "r \<in> set (ob_submissions s)" and "su_event_id r \<noteq> None"
  shows "publications (su_transaction_id r) (replay (outgoing_step ports) cs s) = publications (su_transaction_id r) s \<and>
    (\<forall>out. Inr (Some out) \<in> set (replay_results (outgoing_step ports) cs s) \<and> outcome_submission out = su_submission_id r \<longrightarrow>
       outcome_event out = su_event_id r)"
  using assms
proof (induction cs arbitrary: s r)
  case (Cons c cs)
  let ?t = "snd (outgoing_step ports c s)"
  have m: "outbox_moved s ?t" by (rule outgoing_step_moves [OF Cons.prems(1)])
  then obtain r' where r': "r' \<in> set (ob_submissions ?t)" "submission_moved r r'"
    using Cons.prems(2) unfolding outbox_moved_def submissions_moved_def by blast
  then have same: "su_transaction_id r' = su_transaction_id r" "su_submission_id r' = su_submission_id r" "su_event_id r' = su_event_id r"
    using Cons.prems(3) by (simp_all add: submission_moved_def)
  have t: "submissions_ok (ob_submissions ?t)" using m by (simp add: outbox_moved_def)
  have "su_event_id r' \<noteq> None" using same(3) Cons.prems(3) by simp
  note rest = Cons.IH [OF t r'(1) this, unfolded same]
  note here = outgoing_step_faithful [OF Cons.prems, of ports c]
  show ?case using rest here by auto
qed simp

lemma outgoing_run_ok:
  "submissions_ok (ob_submissions s) \<Longrightarrow> outbox_moved s (replay (outgoing_step ports) cs s)"
proof (induction cs arbitrary: s)
  case (Cons c cs)
  have m: "outbox_moved s (snd (outgoing_step ports c s))" by (rule outgoing_step_moves [OF Cons.prems])
  then have "outbox_moved (snd (outgoing_step ports c s)) (replay (outgoing_step ports) cs (snd (outgoing_step ports c s)))"
    by (intro Cons.IH) (simp add: outbox_moved_def)
  with m show ?case using outbox_moved_trans by auto
qed (simp add: outbox_moved_def)

text \<open>
  A message that Matrix accepted is not sent again. Once the event of a submission is recorded,
  whether from the answer to its publication or from a synchronisation, no later call publishes in its
  transaction, the recorded event stays, and whatever is reported of the submission afterwards names that
  event; over any sequence of calls that send, edit and redact, with any answers of the services around and
  any failure of the local store (calls do not overlap).
\<close>

theorem accepted_submission_not_sent_again:
  assumes "s = replay (outgoing_step ports) cs outbox_new" and "t = replay (outgoing_step ports) ds s"
    and "r \<in> set (ob_submissions s)" and "su_event_id r \<noteq> None"
  shows "(\<forall>room e. CallPublish room e \<in> set (new_calls s t) \<longrightarrow> mx_transaction_id e \<noteq> su_transaction_id r) \<and>
    (\<exists>r'\<in>set (ob_submissions t). su_submission_id r' = su_submission_id r \<and> su_event_id r' = su_event_id r) \<and>
    (\<forall>out. Inr (Some out) \<in> set (replay_results (outgoing_step ports) ds s) \<and> outcome_submission out = su_submission_id r \<longrightarrow>
       outcome_event out = su_event_id r)"
proof -
  have "submissions_ok (ob_submissions outbox_new)" by (simp add: outbox_new_def submissions_ok_def)
  then have ok: "submissions_ok (ob_submissions s)"
    using outgoing_run_ok [of outbox_new ports cs] assms(1) by (simp add: outbox_moved_def)
  note run = outgoing_run [OF ok assms(3,4), of ports ds, folded assms(2)]
  have m: "outbox_moved s t" using outgoing_run_ok [OF ok] assms(2) by simp
  then obtain new where new: "ob_calls t = ob_calls s @ new" by (auto simp: outbox_moved_def)
  have "filter (publishes (su_transaction_id r)) new = []"
    using run new by (simp add: publications_def)
  then have "\<forall>room e. CallPublish room e \<in> set (new_calls s t) \<longrightarrow> mx_transaction_id e \<noteq> su_transaction_id r"
    using new by (auto simp: new_calls_def filter_empty_conv publishes_def)
  moreover have "\<exists>r'\<in>set (ob_submissions t). su_submission_id r' = su_submission_id r \<and> su_event_id r' = su_event_id r"
    using m assms(3,4) unfolding outbox_moved_def submissions_moved_def submission_moved_def by blast
  ultimately show ?thesis using run by blast
qed

end
