(* ===== verification/Spec2Isabelle.thy ===== *)
theory Spec2Isabelle
  imports
    Private_Rooms Content Messages Room_Reservations Context_Handoffs
    Principals Reception Agent_Presence Agent_Names Access_Codes Devices Agent_Instances
    Moderation Automation Federation_Ingress Room_Settings Agent_Cards Refresh_Protocol
    Matrix_Device_Retry Reconnect Status_Wire Incoming_Theorems Outgoing_Theorems
begin

text \<open>
  Agent Room: a verification library of the domain core, the sessions of devices, the presence of agents and
  the time line of messages.

  \<^bold>\<open>The program.\<close> Agent Room lets people and software agents talk in shared rooms on top of
  Matrix. A control plane (\<^verbatim>\<open>apps/control-plane\<close>) keeps accounts, devices, agents, rooms,
  grants and moderation in PostgreSQL; a bridge process on each computer (\<^verbatim>\<open>apps/bridge\<close>,
  \<^verbatim>\<open>crates/bridge-core\<close>) connects local agents; command line, MCP server, desktop and web
  clients sit on top. All decisions of substance are taken by the aggregates of
  \<^verbatim>\<open>crates/domain/src\<close>: plain structs whose methods check a command against the current
  state and the caller, and either change the aggregate or return a \<^verbatim>\<open>DomainError\<close>. The application
  services load an aggregate (\<^verbatim>\<open>restore\<close>), call one method and store the result, so what an
  aggregate accepts when restored, what its methods may do, and what they leave behind on an error
  are the contract between the domain and everything around it. The library models that crate, and three
  paths through the layers above it: how a computer gets, keeps and loses its session, from the bridge over
  the application service down to the transactions on the tables; how the status of an agent is published by
  one bridge and shown by another; and how the messages of a Matrix synchronisation become the local time line.

  \<^bold>\<open>Conventions.\<close> A Rust struct is a \<open>record\<close>, an enum a \<open>datatype\<close>, a fallible function
  returns \<open>domain_error + 'a\<close>, a \<^verbatim>\<open>&mut self\<close> method takes the state last and returns the pair of
  its result and the state it leaves, on every error path too. \<^verbatim>\<open>?\<close> is \<open>and_then\<close> or, with
  state, \<open>attempt\<close>. Permission bits, UUIDs and protocol versions are words; \<^verbatim>\<open>i64\<close> and
  \<^verbatim>\<open>u64\<close> values are integers whose checked, saturating and wrapping operations are written out
  (\<open>Prelude\<close>, \<open>Utc_Clock\<close>), so overflow is a branch of the model. Text is a list of Unicode code
  points with the standard library's operations (\<open>Texts\<close>). Chinese display texts of errors are
  rendered by short English glosses; the field and state names are the source's.

  \<^bold>\<open>Shared theories.\<close> \<open>Prelude\<close>: errors, results, options, integers. \<open>Contracts\<close>: the contracts
  several components share, as locales that are interpreted on the model's own operations in the
  component theories: \<open>codec\<close> (\<^verbatim>\<open>as_str\<close> with its parser; every enumeration that is stored),
  \<open>guarded_machine\<close> (commands preserve an invariant), \<open>versioned_aggregate\<close> (a command fails,
  is idle, or takes effect and counts), \<open>final_machine\<close> (end states are never left); their lemmas
  lift single steps to \<open>replay\<close>, the run of a list of commands. \<open>Texts\<close>: strings and the
  \<open>normalizer\<close> contract of parsed newtypes. \<open>Utc_Clock\<close> (\<^verbatim>\<open>time.rs\<close>, \<^verbatim>\<open>version.rs\<close>): instants,
  durations, sliding lifetimes, versions.

  \<^bold>\<open>Rooms.\<close> \<open>Room_Permissions\<close> and \<open>Private_Rooms\<close> (\<^verbatim>\<open>private_rooms.rs\<close>): capability bits and the
  private room with its eleven commands; an inductive relation \<open>room_change\<close> lists what a step can do
  to a member, and the theorems show the invariant, that no command grants what its author did
  not hold, that bans stick, the refinement to the membership automaton and the restore round trip.
  \<open>Room_Catalog\<close>, \<open>Room_Allocation\<close>, \<open>Room_Reservations\<close> (\<^verbatim>\<open>rooms.rs\<close>): catalogue entries, the
  choice of an instance (the \<open>keyed_comparison\<close> locale turns the chain of comparisons into an
  order, so the choice is optimal and independent of the order of candidates) and slot leases.
  \<open>Room_Settings\<close> (\<^verbatim>\<open>room_join_requests.rs\<close>, \<^verbatim>\<open>room_listing.rs\<close>, \<^verbatim>\<open>room_moderation_grants.rs\<close>,
  \<^verbatim>\<open>room_notices.rs\<close>, \<^verbatim>\<open>regions.rs\<close>) and \<open>Access_Codes\<close> (\<^verbatim>\<open>join_codes.rs\<close>, \<^verbatim>\<open>room_invites.rs\<close>,
  share codes): the \<open>code_alphabet\<close> locale gives that codes lose no entropy beyond their length.

  \<^bold>\<open>Messages and hand-overs.\<close> \<open>Content\<close> (\<^verbatim>\<open>content.rs\<close>) and \<open>Messages\<close> (\<^verbatim>\<open>messages.rs\<close>): stored
  objects, their scan and life cycle, previews and chat text. \<open>Targeted_Handoffs\<close> and
  \<open>Context_Handoffs\<close> (\<^verbatim>\<open>handoff.rs\<close>): the cloud record queued for one instance and the local
  package, with their audits on restore, consent, windows and final states.

  \<^bold>\<open>People, devices and agents.\<close> \<open>Principals\<close> (\<^verbatim>\<open>identity.rs\<close>, \<^verbatim>\<open>direct_sessions.rs\<close>), \<open>Devices\<close>
  (\<^verbatim>\<open>devices.rs\<close>), \<open>Agents\<close> and \<open>Agent_Instances\<close> (\<^verbatim>\<open>agents.rs\<close>), \<open>Agent_Cards\<close>
  (\<^verbatim>\<open>agent_cards.rs\<close>), \<open>Agent_Names\<close> (\<^verbatim>\<open>agent_names.rs\<close>, \<^verbatim>\<open>network_agents.rs\<close>), \<open>Agent_Presence\<close>
  (\<^verbatim>\<open>agent_status.rs\<close>, \<^verbatim>\<open>agent_lifecycle.rs\<close>) and \<open>Reception\<close> (\<^verbatim>\<open>reception.rs\<close>).

  \<^bold>\<open>Policy.\<close> \<open>Moderation\<close> (\<^verbatim>\<open>moderation.rs\<close>), \<open>Automation\<close> (\<^verbatim>\<open>policy/\<close>), \<open>Federation\<close> and
  \<open>Federation_Ingress\<close> (\<^verbatim>\<open>federation/\<close>): negotiation, rules, reputation, and the guard on events
  of remote servers. \<open>ingress_inspect\<close> is the method as written; the inductive relation
  \<open>inspection\<close> abstracts its outcomes, and the properties about replays, revisions and rates
  follow from it by invariants over \<open>replay\<close>.

  \<^bold>\<open>Sessions of devices.\<close> \<open>Tables\<close> is the scheme of the database adapter: statements on tables that are
  lists of rows, \<open>exec\<close> of statements in a transaction, and \<open>run_transaction\<close> with its commit, its rollback
  and the commit whose answer is lost; errors are classified as \<^verbatim>\<open>postgres-adapter/src/error.rs\<close> does.
  \<open>Device_Tables\<close>, \<open>Device_Store\<close> and \<open>Device_Registry\<close> are the tables and all transactions of
  \<^verbatim>\<open>postgres-adapter/src/devices.rs\<close> and \<^verbatim>\<open>computer_grants.rs\<close>. \<open>Device_Store_Facts\<close>
  (the invariant \<open>store_ok\<close> and the effect of each statement), \<open>Device_Rotation\<close> (what a rotation writes)
  and \<open>Device_Sessions\<close> (a command per transaction, \<open>store_step\<close>) show that the invariant holds in every
  reachable state, that a token is exchanged once and a revoked device stays out. \<open>Device_Proofs\<close> is the
  signed message of a request and what it binds, \<open>Matrix_Values\<close> the Matrix identifiers,
  \<open>Device_Authorization\<close> the service of \<^verbatim>\<open>application/src/devices.rs\<close> over the tables: an operation reads
  in one state and commits in a later one, so whatever happens between is covered. \<open>Device_Access\<close> shows
  what an authenticated request proves and that proofs and grants count once, \<open>Device_Replay\<close> that a
  refresh can be repeated. \<open>Bridge_Session\<close> is the other side (\<^verbatim>\<open>bridge-core/src/session.rs\<close>): a call is split
  at the request, so that it can be dropped, answered late or cut by a restart. \<open>Token_Moves\<close> abstracts the
  transactions to four kinds of moves of the token tables, and \<open>Refresh_Protocol\<close> composes bridge, network and
  service in the step relation \<open>world_step\<close>, whose network delivers any request that was ever sent at any
  time. The invariant \<open>world_ok\<close> holds until the device is found with a reused token; it gives that only a
  request that comes after one with a later token is judged a reuse, and that an interrupted refresh settles. \<open>Matrix_Device_Retry\<close>
  (\<^verbatim>\<open>application/src/agent_matrix_device_retry.rs\<close>) is the background task behind a revocation: its rounds with
  their backoff deregister the Matrix devices that the request could not.

  \<^bold>\<open>The bridge.\<close> \<open>Reconnect\<close> (\<^verbatim>\<open>bridge-core/src/reconnect.rs\<close>) is the backoff between
  connection attempts and the moment of the next refresh. The presence of agents is one path from the chat
  server to what a client reads. \<open>Presence_Tracker\<close> (\<^verbatim>\<open>presence_tracker.rs\<close>,
  \<^verbatim>\<open>presence_support.rs\<close>) is what a connection learned about the Matrix presence of users, and the
  decision whether the server supports it. \<open>Presence_Sync\<close> (\<^verbatim>\<open>presence.rs\<close>,
  \<^verbatim>\<open>agent_verification.rs\<close>) parses and authenticates the events of a sync; only authentic statuses
  reach the projection, and every event leaves a trace. \<open>Presence_Projection\<close>
  (\<^verbatim>\<open>bridge-storage-adapter/src/presence_projection.rs\<close>, \<^verbatim>\<open>agent_identity.rs\<close>, the leases
  of \<^verbatim>\<open>presence.rs\<close>) keeps the newest status of every instance per room, compacts what is
  disconnected and asks for missing presence; \<open>Presence_Roster\<close> (\<^verbatim>\<open>presence_roster.rs\<close>)
  collapses instances to agents, archives beyond capacity and pages. \<open>Ordered_Maps\<close> is
  \<^verbatim>\<open>BTreeMap\<close> as a sorted list. \<open>Status_Publication\<close> (\<^verbatim>\<open>status.rs\<close>) is the sender: when a status is
  due, the signed event and what is remembered of it; \<open>Status_Wire\<close> reads the event with the deserialisation
  of \<^verbatim>\<open>protocol-conformance/src/generated.rs\<close>, so that sender and receiver are joined on the JSON itself.

  \<^bold>\<open>Messages of a room.\<close> \<open>Message_Rows\<close> and \<open>Message_Timeline\<close>
  (\<^verbatim>\<open>bridge-storage-adapter/src/message_projection.rs\<close>, \<^verbatim>\<open>bridge-core/src/messages/ports.rs\<close>) are the
  store of messages: mutations and their rows, the log and the current messages, events that could not be
  read with the numbers kept for them, gaps, losses and recovery, every operation a transaction that commits
  or leaves the store. \<open>Message_Inbox\<close> reads rooms and pages and moves the position of the inbox.
  \<open>Timeline_Facts\<close> holds the invariant \<open>timeline_ok\<close>, \<open>Timeline_Theorems\<close> the contract: the
  current messages are what a replay of the log in the order of positions yields, positions are never
  given twice, a key that comes late changes nothing. \<open>Message_Submissions\<close> (\<^verbatim>\<open>message_submissions.rs\<close>) is
  the record of what this computer sends. \<open>Message_Wire\<close> reads the JSON of message events,
  \<open>Message_Incoming\<close> (\<^verbatim>\<open>messages/incoming.rs\<close>) parses, authenticates and batches the events of a
  synchronisation, and \<open>Incoming_Theorems\<close> shows that a batch is the handling of its events one by one and
  that what reaches the log is vouched for. \<open>Message_Requests\<close> (\<^verbatim>\<open>messages/model.rs\<close>, \<^verbatim>\<open>wire.rs\<close>)
  holds the checked requests and the signed events, \<open>Message_Content\<close> (\<^verbatim>\<open>messages/crypto.rs\<close>,
  \<^verbatim>\<open>content.rs\<close>, \<^verbatim>\<open>crates/message-crypto-adapter\<close>) the protection and the opening of contents: keys are
  not used twice, and what is opened is what was protected. \<open>Message_Outgoing\<close> (\<^verbatim>\<open>messages/outgoing.rs\<close>) sends,
  edits and redacts, one call at a time, recording the requests that leave the computer; in \<open>Outgoing_Theorems\<close>
  a message that Matrix accepted is not sent again, whatever the services answer.

  \<^bold>\<open>Bounds.\<close> Every loop of the source but one runs over a list. \<open>fetch_missing_presence\<close> may run for
  ever, so it has fuel, and one more round than there are users to ask is proved to be enough when the questions
  take less than a minute (\<open>presence_questions_end\<close>; otherwise \<open>failures_repeat\<close>). The theorems that
  need the width of the machine integers state it (\<open>utc_ok\<close>, \<open>duration_ok\<close>, \<open>u32_max\<close>).

  \<^bold>\<open>Parameters.\<close> Code outside the repository is an argument: Unicode lower-casing (\<open>lower\<close>), the
  parser of UUIDs (\<open>parse_uuid\<close>, \<open>uuid_version\<close>), the parser of URLs (\<open>parse_url\<close>), and in the record
  \<open>device_ports\<close> the digests, the verification of signatures and the derivation of tokens. Clocks, identifiers,
  random secrets and faults of a call are the fields of \<open>device_draws\<close> and \<open>session_draws\<close>; JSON canonicalisation,
  base 64, times and the registry of instances are the fields of \<open>sync_ports\<close> (the deserialisation of a status
  is one too, which \<open>Status_Wire\<close> instantiates), what the sender of statuses uses the fields of
  \<open>publish_ports\<close>, and the texts of UUIDs and JSON and the wrapping of content keys the fields of
  \<open>row_ports\<close>; \<open>message_ports\<close> and \<open>content_ports\<close> add SHA-256, the time in a UUID, HMAC and the authenticated
  cipher, and \<open>message_answers\<close> what the services around answer during a call.

  \<^bold>\<open>Not modelled.\<close> Getters (they are the selectors of the records), \<^verbatim>\<open>Display\<close> and \<^verbatim>\<open>Debug\<close>
  renderings, the rendering of progress as a floating-point number, the slug of a host agent (a
  format string). Of the layers above the domain, the other repositories, services and adapters; transactions
  are atomic here, so isolation anomalies below what the row locks of the source exclude are outside the model.

  \<^bold>\<open>Plan.\<close> The retry loops of \<^verbatim>\<open>crates/application\<close>, and its services as state machines over the aggregates modelled here.
\<close>

end
